(* ===== verification/NuPrelude.thy ===== *)
theory NuPrelude
  imports Complex_Main "HOL-Library.Char_ord" "HOL-Library.List_Lexorder"
begin

text \<open>
  Shared vocabulary of the development: the exceptions the modelled code raises, results that
  are either an exception or a value, operations that pass a state and may raise, the rows of a
  keyed table, and the few string primitives of Python the code uses.
\<close>

section \<open>Exceptions\<close>

text \<open>
  One constructor per exception class the modelled code raises; the argument is the constant
  part of the message. Python's class hierarchy matters where the code catches a base class, so
  it is written out in \<open>is_value_error\<close> and its companions below.
\<close>

datatype (plugins only: code size) exn =
    ValueError string
  | TypeError string
  | KeyError string
  | IndexError string
  | RuntimeError string
  | AssertionError string
  | TimeoutError string
  | InvalidStateError string
  | VisibleHandleError string
  | ConversationTurnConflictError string
  | ConversationTurnIncompleteError string
  | InboxItemNotFound string
  | DaemonSchedulerCapacityError string
  | DaemonSchedulerStoppedError string
  | SqliteTransactionRollbackOnlyError
  | SqliteTransactionCleanupError
  | DuplicateHandlerError
  | HandlerRegistrySealedError
  | HandlerRegistryUnsealedError
  | HandlerRegistryCoverageError "string list" "string list"
  | UnknownHandlerError
  | DuplicateDefinitionError
  | DefinitionRegistrySealedError
  | DefinitionRegistryUnsealedError
  | UnknownDefinitionError
  | CancellationCleanupError "exn list"
  | ReflectionEntryNotFound string
  | ReflectionScheduleStateError string
  | ReasonNotFound string
  | ReasonPromptError string
  | ReasonAdvanceError string
  | ReasonTransitionError string
  | EventDeliveryError "(nat \<times> exn) list"
  | DuplicateEventDefinitionError
  | EventDefinitionRegistrySealedError
  | EventDefinitionRegistryUnsealedError
  | UnknownEventDefinitionError
  | DuplicateJobDefinitionError
  | JobDefinitionRegistrySealedError
  | JobDefinitionRegistryUnsealedError
  | UnknownJobDefinitionError
  | FeaturePolicyConflictError string
  | ToolEffectCodecError string
  | ScopeSelectionError string
  | SqliteSchemaValidationError string
  | MemoryValidationError string
  | MemoryEntryNotFound string
  | MemoryCandidateNotFound string
  | MemoryCuratorPlanNotFound string
  | MemoryCuratorPlanCorruptError string
  | TraceNotFound string
  | ProfileItemNotFound string
  | ProtocolError string
  | OverflowError string
  | OSError string
  | UnicodeDecodeError
  | JSONDecodeError string
  | DaemonPeerDisconnected
  | DaemonFrameTooLarge
  | DaemonIncompleteFrame
  | DaemonExtraFrameData
  | DaemonRequestPayloadError string
  | ActivitySubscriptionNotFound string
  | FeatureEffectRejected string
  | BlockingIOError
  | AgentError string
  | MemoryCuratorPlanLockContended
  | MemoryCuratorPlanLockCleanupError string exn exn
  | LogAppendLifecycleError "exn option" "exn option" "exn option" string
  | AuditSchemaError string
  | DuplicateAuditDefinitionError
  | AuditDefinitionRegistrySealedError
  | AuditDefinitionRegistryUnsealedError
  | UnknownAuditDefinitionError
  | TerminalWarningSchemaError string
  | TerminalWarningRegistryUnsealedError
  | SourceDocumentNotFound string
  | SourceChunkNotFound string
  | SqliteStoreLifecycleError "exn option" "exn option" "exn option"
  | OtherException string

fun is_value_error :: "exn \<Rightarrow> bool" where
  "is_value_error (ValueError _) = True"
| "is_value_error (VisibleHandleError _) = True"
| "is_value_error (ReflectionEntryNotFound _) = True"
| "is_value_error (ReflectionScheduleStateError _) = True"
| "is_value_error DuplicateDefinitionError = True"
| "is_value_error DuplicateEventDefinitionError = True"
| "is_value_error DuplicateJobDefinitionError = True"
| "is_value_error (FeaturePolicyConflictError _) = True"
| "is_value_error (ToolEffectCodecError _) = True"
| "is_value_error (ScopeSelectionError _) = True"
| "is_value_error (SqliteSchemaValidationError _) = True"
| "is_value_error (MemoryValidationError _) = True"
| "is_value_error (MemoryCuratorPlanCorruptError _) = True"
| "is_value_error (TraceNotFound _) = True"
| "is_value_error (ProtocolError _) = True"
| "is_value_error UnicodeDecodeError = True"
| "is_value_error (JSONDecodeError _) = True"
| "is_value_error DaemonPeerDisconnected = True"
| "is_value_error DaemonFrameTooLarge = True"
| "is_value_error DaemonIncompleteFrame = True"
| "is_value_error DaemonExtraFrameData = True"
| "is_value_error (DaemonRequestPayloadError _) = True"
| "is_value_error (AuditSchemaError _) = True"
| "is_value_error DuplicateAuditDefinitionError = True"
| "is_value_error (TerminalWarningSchemaError _) = True"
| "is_value_error _ = False"

fun is_protocol_error :: "exn \<Rightarrow> bool" where
  "is_protocol_error (ProtocolError _) = True"
| "is_protocol_error DaemonPeerDisconnected = True"
| "is_protocol_error DaemonFrameTooLarge = True"
| "is_protocol_error DaemonIncompleteFrame = True"
| "is_protocol_error DaemonExtraFrameData = True"
| "is_protocol_error (DaemonRequestPayloadError _) = True"
| "is_protocol_error _ = False"

fun is_os_error :: "exn \<Rightarrow> bool" where
  "is_os_error (OSError _) = True"
| "is_os_error (TimeoutError _) = True"
| "is_os_error BlockingIOError = True"
| "is_os_error _ = False"

fun is_runtime_error :: "exn \<Rightarrow> bool" where
  "is_runtime_error (RuntimeError _) = True"
| "is_runtime_error (ConversationTurnConflictError _) = True"
| "is_runtime_error (ConversationTurnIncompleteError _) = True"
| "is_runtime_error (DaemonSchedulerCapacityError _) = True"
| "is_runtime_error (DaemonSchedulerStoppedError _) = True"
| "is_runtime_error SqliteTransactionRollbackOnlyError = True"
| "is_runtime_error SqliteTransactionCleanupError = True"
| "is_runtime_error DuplicateHandlerError = True"
| "is_runtime_error HandlerRegistrySealedError = True"
| "is_runtime_error HandlerRegistryUnsealedError = True"
| "is_runtime_error (HandlerRegistryCoverageError _ _) = True"
| "is_runtime_error UnknownHandlerError = True"
| "is_runtime_error DefinitionRegistrySealedError = True"
| "is_runtime_error DefinitionRegistryUnsealedError = True"
| "is_runtime_error (CancellationCleanupError _) = True"
| "is_runtime_error (EventDeliveryError _) = True"
| "is_runtime_error EventDefinitionRegistrySealedError = True"
| "is_runtime_error EventDefinitionRegistryUnsealedError = True"
| "is_runtime_error JobDefinitionRegistrySealedError = True"
| "is_runtime_error JobDefinitionRegistryUnsealedError = True"
| "is_runtime_error (AgentError _) = True"
| "is_runtime_error MemoryCuratorPlanLockContended = True"
| "is_runtime_error (MemoryCuratorPlanLockCleanupError _ _ _) = True"
| "is_runtime_error (LogAppendLifecycleError _ _ _ _) = True"
| "is_runtime_error AuditDefinitionRegistrySealedError = True"
| "is_runtime_error AuditDefinitionRegistryUnsealedError = True"
| "is_runtime_error TerminalWarningRegistryUnsealedError = True"
| "is_runtime_error (SqliteStoreLifecycleError _ _ _) = True"
| "is_runtime_error _ = False"

fun is_key_error :: "exn \<Rightarrow> bool" where
  "is_key_error (KeyError _) = True"
| "is_key_error (InboxItemNotFound _) = True"
| "is_key_error (SourceDocumentNotFound _) = True"
| "is_key_error (SourceChunkNotFound _) = True"
| "is_key_error (MemoryEntryNotFound _) = True"
| "is_key_error (MemoryCandidateNotFound _) = True"
| "is_key_error (MemoryCuratorPlanNotFound _) = True"
| "is_key_error (ProfileItemNotFound _) = True"
| "is_key_error _ = False"

fun is_type_error :: "exn \<Rightarrow> bool" where
  "is_type_error (TypeError _) = True"
| "is_type_error _ = False"

section \<open>Results\<close>

named_theorems result_simps \<open>unfolding rules for computations that may raise\<close>

type_synonym 'a result = "exn + 'a"

definition bindE :: "'a result \<Rightarrow> ('a \<Rightarrow> 'b result) \<Rightarrow> 'b result" where
  "bindE m f = (case m of Inl e \<Rightarrow> Inl e | Inr x \<Rightarrow> f x)"

text \<open>A guard raises when its condition holds, as an early \<open>raise\<close> under an \<open>if\<close> does.\<close>

definition raise_if :: "bool \<Rightarrow> exn \<Rightarrow> unit result" where
  "raise_if b e = (if b then Inl e else Inr ())"

fun mapE :: "('a \<Rightarrow> 'b result) \<Rightarrow> 'a list \<Rightarrow> 'b list result" where
  "mapE f [] = Inr []"
| "mapE f (x # xs) = bindE (f x) (\<lambda>y. bindE (mapE f xs) (\<lambda>ys. Inr (y # ys)))"

lemma bindE_Inl [simp]: "bindE (Inl e) f = Inl e"
  by (simp add: bindE_def)

lemma bindE_Inr [simp]: "bindE (Inr x) f = f x"
  by (simp add: bindE_def)

lemma raise_if_True [simp]: "raise_if True e = Inl e"
  by (simp add: raise_if_def)

lemma raise_if_False [simp]: "raise_if False e = Inr ()"
  by (simp add: raise_if_def)

lemma bindE_eq_Inr [result_simps]: "bindE m f = Inr y \<longleftrightarrow> (\<exists>x. m = Inr x \<and> f x = Inr y)"
  by (cases m) simp_all

lemma bindE_eq_Inl [result_simps]:
  "bindE m f = Inl e \<longleftrightarrow> m = Inl e \<or> (\<exists>x. m = Inr x \<and> f x = Inl e)"
  by (cases m) simp_all

lemma raise_if_eq_Inr [result_simps]: "raise_if b e = Inr u \<longleftrightarrow> \<not> b"
  by (simp add: raise_if_def)

lemma raise_if_eq_Inl [result_simps]: "raise_if b e = Inl e' \<longleftrightarrow> b \<and> e = e'"
  by (simp add: raise_if_def)

lemma mapE_all_Inr: "(\<And>x. x \<in> set xs \<Longrightarrow> f x = Inr (g x)) \<Longrightarrow> mapE f xs = Inr (map g xs)"
  by (induction xs) simp_all

lemma mapE_map: "mapE f (map g xs) = mapE (\<lambda>x. f (g x)) xs"
  by (induction xs) simp_all

lemma mapE_InrD: "mapE f xs = Inr ys \<Longrightarrow> length ys = length xs \<and> (\<forall>y \<in> set ys. \<exists>x \<in> set xs. f x = Inr y)"
  by (induction xs arbitrary: ys) (fastforce simp: result_simps)+

section \<open>Operations that pass a state and may raise\<close>

text \<open>
  An operation of a stateful component maps the state to an outcome and the state it leaves.
  The state is returned also where the operation raises: what was written before the exception
  stays written, unless the operation ran inside a transaction.
\<close>

type_synonym ('s, 'a) act = "'s \<Rightarrow> 'a result \<times> 's"

definition ret_act :: "'a \<Rightarrow> ('s, 'a) act" where
  "ret_act x s = (Inr x, s)"

definition raise_act :: "exn \<Rightarrow> ('s, 'a) act" where
  "raise_act e s = (Inl e, s)"

definition bind_act :: "('s, 'a) act \<Rightarrow> ('a \<Rightarrow> ('s, 'b) act) \<Rightarrow> ('s, 'b) act" where
  "bind_act m f s = (case m s of (Inl e, t) \<Rightarrow> (Inl e, t) | (Inr x, t) \<Rightarrow> f x t)"

definition lift_act :: "('s \<Rightarrow> 'a result) \<Rightarrow> ('s, 'a) act" where
  "lift_act f s = (f s, s)"

definition modify_act :: "('s \<Rightarrow> 's) \<Rightarrow> ('s, unit) act" where
  "modify_act f s = (Inr (), f s)"

text \<open>
  A transaction as its client sees it: all of the body's writes or, if the body raises, none.
  \<open>SqliteStore\<close> proves that the backend's nested transactions give exactly this.
\<close>

definition atomic_act :: "('s, 'a) act \<Rightarrow> ('s, 'a) act" where
  "atomic_act m s = (case m s of (Inl e, t) \<Rightarrow> (Inl e, s) | (Inr x, t) \<Rightarrow> (Inr x, t))"

lemma ret_act_apply [simp]: "ret_act x s = (Inr x, s)"
  by (simp add: ret_act_def)

lemma raise_act_apply [simp]: "raise_act e s = (Inl e, s)"
  by (simp add: raise_act_def)

lemma lift_act_apply [simp]: "lift_act f s = (f s, s)"
  by (simp add: lift_act_def)

lemma modify_act_apply [simp]: "modify_act f s = (Inr (), f s)"
  by (simp add: modify_act_def)

lemma bind_act_Inl: "m s = (Inl e, t) \<Longrightarrow> bind_act m f s = (Inl e, t)"
  by (simp add: bind_act_def)

lemma bind_act_Inr: "m s = (Inr x, t) \<Longrightarrow> bind_act m f s = f x t"
  by (simp add: bind_act_def)

lemma bind_act_eq_Inr [result_simps]:
  "bind_act m f s = (Inr y, u) \<longleftrightarrow> (\<exists>x t. m s = (Inr x, t) \<and> f x t = (Inr y, u))"
  by (auto simp: bind_act_def split: prod.splits sum.splits)

lemma bind_act_eq_Inl [result_simps]:
  "bind_act m f s = (Inl e, u) \<longleftrightarrow>
     m s = (Inl e, u) \<or> (\<exists>x t. m s = (Inr x, t) \<and> f x t = (Inl e, u))"
  by (auto simp: bind_act_def split: prod.splits sum.splits)

lemma atomic_act_eq_Inr [result_simps]:
  "atomic_act m s = (Inr x, t) \<longleftrightarrow> m s = (Inr x, t)"
  by (auto simp: atomic_act_def split: prod.splits sum.splits)

lemma atomic_act_eq_Inl [result_simps]:
  "atomic_act m s = (Inl e, t) \<longleftrightarrow> t = s \<and> (\<exists>u. m s = (Inl e, u))"
  by (auto simp: atomic_act_def split: prod.splits sum.splits)

text \<open>
  \<open>always P m Q\<close>: from a state with \<open>P\<close>, the operation leaves a state with \<open>P\<close> whether it returns
  or raises, and what it returns satisfies \<open>Q\<close>.
\<close>

definition always :: "('s \<Rightarrow> bool) \<Rightarrow> ('s, 'a) act \<Rightarrow> ('a \<Rightarrow> bool) \<Rightarrow> bool" where
  "always P m Q \<longleftrightarrow> (\<forall>s. P s \<longrightarrow> P (snd (m s)) \<and> (\<forall>x. fst (m s) = Inr x \<longrightarrow> Q x))"

lemma alwaysI:
  "(\<And>s r t. P s \<Longrightarrow> m s = (r, t) \<Longrightarrow> P t \<and> (\<forall>x. r = Inr x \<longrightarrow> Q x)) \<Longrightarrow> always P m Q"
  unfolding always_def by (metis prod.collapse)

lemma alwaysD: "always P m Q \<Longrightarrow> P s \<Longrightarrow> P (snd (m s))"
  by (simp add: always_def)

lemma always_result: "always P m Q \<Longrightarrow> P s \<Longrightarrow> m s = (Inr x, t) \<Longrightarrow> Q x"
  by (auto simp: always_def)

lemma always_weaken: "always P m Q \<Longrightarrow> (\<And>x. Q x \<Longrightarrow> R x) \<Longrightarrow> always P m R"
  by (auto simp: always_def)

lemma always_ret: "Q x \<Longrightarrow> always P (ret_act x) Q"
  and always_raise: "always P (raise_act e) Q"
  and always_lift: "(\<And>s x. P s \<Longrightarrow> f s = Inr x \<Longrightarrow> Q x) \<Longrightarrow> always P (lift_act f) Q"
  by (simp_all add: always_def)

lemma always_bind:
  assumes "always P m Q" and "\<And>x. Q x \<Longrightarrow> always P (f x) R"
  shows "always P (bind_act m f) R"
proof (rule alwaysI)
  fix s r t
  assume s: "P s" and r: "bind_act m f s = (r, t)"
  obtain q u where m: "m s = (q, u)" by fastforce
  have u: "P u" and q: "\<And>x. q = Inr x \<Longrightarrow> Q x" using assms(1) s m by (auto simp: always_def)
  show "P t \<and> (\<forall>x. r = Inr x \<longrightarrow> R x)"
  proof (cases q)
    case (Inl e)
    with m r u show ?thesis by (auto simp: bind_act_def)
  next
    case (Inr x)
    with assms(2) [OF q] m r u show ?thesis by (auto simp: always_def bind_act_def)
  qed
qed

text \<open>After a step that only reads, what it returned is known.\<close>

lemma always_bind_lift:
  assumes "\<And>s x. P s \<Longrightarrow> g s = Inr x \<Longrightarrow> always P (f x) R"
  shows "always P (bind_act (lift_act g) f) R"
proof (rule alwaysI)
  fix s r t
  assume s: "P s" and r: "bind_act (lift_act g) f s = (r, t)"
  show "P t \<and> (\<forall>x. r = Inr x \<longrightarrow> R x)"
    using assms [OF s] s r by (cases "g s") (auto simp: always_def bind_act_def)
qed

lemma always_atomic:
  assumes "always P m Q"
  shows "always P (atomic_act m) Q"
proof (rule alwaysI)
  fix s r t
  assume s: "P s" and r: "atomic_act m s = (r, t)"
  obtain q u where m: "m s = (q, u)" by fastforce
  then show "P t \<and> (\<forall>x. r = Inr x \<longrightarrow> Q x)"
    using assms s r by (cases q) (auto simp: always_def atomic_act_def)
qed

lemma always_if: "(b \<Longrightarrow> always P m Q) \<Longrightarrow> (\<not> b \<Longrightarrow> always P n Q) \<Longrightarrow> always P (if b then m else n) Q"
  by simp

lemmas always_intros = always_ret always_raise always_bind always_atomic always_if

section \<open>Rows of a keyed table\<close>

text \<open>
  A table is the list of its rows in key order. The backend's table is clustered on its primary
  key, so a scan yields the rows in this order; an upsert replaces the row in place.
\<close>

type_synonym 'v rows = "(string \<times> 'v) list"

definition rows_ok :: "'v rows \<Rightarrow> bool" where
  "rows_ok rs \<longleftrightarrow> sorted_wrt (<) (map fst rs)"

fun row_put :: "string \<Rightarrow> 'v \<Rightarrow> 'v rows \<Rightarrow> 'v rows" where
  "row_put key v [] = [(key, v)]"
| "row_put key v (r # rs) =
     (if fst r < key then r # row_put key v rs
      else if fst r = key then (key, v) # rs
      else (key, v) # r # rs)"

definition row_del :: "string \<Rightarrow> 'v rows \<Rightarrow> 'v rows" where
  "row_del key rs = filter (\<lambda>r. fst r \<noteq> key) rs"

lemma rows_ok_Nil [simp]: "rows_ok []"
  by (simp add: rows_ok_def)

lemma rows_ok_Cons: "rows_ok (r # rs) \<longleftrightarrow> (\<forall>x \<in> set rs. fst r < fst x) \<and> rows_ok rs"
  by (auto simp: rows_ok_def)

lemma keys_row_put: "fst ` set (row_put key v rs) = insert key (fst ` set rs)"
  by (induction rs) auto

lemma set_row_put: "set (row_put key v rs) \<subseteq> insert (key, v) (set rs)"
  by (induction rs) auto

lemma rows_ok_row_put [simp]: "rows_ok rs \<Longrightarrow> rows_ok (row_put key v rs)"
proof (induction rs)
  case Nil
  then show ?case by (simp add: rows_ok_Cons)
next
  case (Cons r rs)
  have "x \<in> set (row_put key v rs) \<Longrightarrow> x = (key, v) \<or> x \<in> set rs" for x
    using set_row_put [of key v rs] by blast
  with Cons show ?case by (fastforce simp: rows_ok_Cons)
qed

lemma row_get_put: "rows_ok rs \<Longrightarrow> map_of (row_put key v rs) = (map_of rs)(key \<mapsto> v)"
proof (induction rs)
  case (Cons r rs)
  then show ?case by (cases r) (auto simp: rows_ok_Cons fun_eq_iff)
qed simp

lemma row_get_del: "map_of (row_del key rs) = (map_of rs)(key := None)"
  by (induction rs) (auto simp: row_del_def)

lemma rows_ok_row_del [simp]: "rows_ok rs \<Longrightarrow> rows_ok (row_del key rs)"
  by (induction rs) (auto simp: row_del_def rows_ok_Cons)

lemma rows_ok_distinct: "rows_ok rs \<Longrightarrow> distinct (map fst rs)"
  by (induction rs) (auto simp: rows_ok_Cons)

lemma rows_ok_mem: "rows_ok rs \<Longrightarrow> (key, v) \<in> set rs \<longleftrightarrow> map_of rs key = Some v"
  by (auto intro: map_of_is_SomeI dest: rows_ok_distinct map_of_SomeD)

lemma lookup_map_rows: "map_of (map (\<lambda>(k, v). (k, f k v)) rs) key = map_option (f key) (map_of rs key)"
  by (induction rs) auto

section \<open>String primitives\<close>

text \<open>
  A character stands for a code point below 256. \<open>py_space\<close> is \<open>str.isspace\<close> on these code
  points, \<open>strip\<close> is \<open>str.strip()\<close>, and \<open>blank\<close> is the code's \<open>not value.strip()\<close>.
\<close>

definition py_space :: "char \<Rightarrow> bool" where
  "py_space c \<longleftrightarrow> (of_char c :: nat) \<in> {9, 10, 11, 12, 13, 28, 29, 30, 31, 32, 133, 160}"

definition strip :: "string \<Rightarrow> string" where
  "strip s = rev (dropWhile py_space (rev (dropWhile py_space s)))"

definition blank :: "string \<Rightarrow> bool" where
  "blank s \<longleftrightarrow> list_all py_space s"

lemma strip_eq_Nil: "strip s = [] \<longleftrightarrow> blank s"
proof -
  have "strip s = [] \<longleftrightarrow> (\<forall>c \<in> set (dropWhile py_space s). py_space c)"
    by (simp add: strip_def)
  also have "\<dots> \<longleftrightarrow> blank s"
    by (induction s) (auto simp: blank_def)
  finally show ?thesis .
qed

lemma blank_Nil [simp]: "blank []"
  by (simp add: blank_def)

lemma not_blank_nonempty: "\<not> blank s \<Longrightarrow> s \<noteq> []"
  by auto

text \<open>\<open>value.split(sep)\<close> for a separator of one character.\<close>

fun split_on :: "char \<Rightarrow> string \<Rightarrow> string list" where
  "split_on sep [] = [[]]"
| "split_on sep (c # cs) =
     (if c = sep then [] # split_on sep cs
      else case split_on sep cs of [] \<Rightarrow> [[c]] | t # ts \<Rightarrow> (c # t) # ts)"

lemma split_on_single: "sep \<notin> set t \<Longrightarrow> split_on sep t = [t]"
  by (induction t) auto

lemma split_on_Cons: "sep \<notin> set t \<Longrightarrow> split_on sep (t @ sep # s) = t # split_on sep s"
  by (induction t) auto

text \<open>
  \<open>str.casefold\<close> on code points below 256. The micro sign folds to a code point above 255, to which
  no other one folds; it is left as it is, which compares alike.
\<close>

definition casefold_char :: "char \<Rightarrow> string" where
  "casefold_char c =
     (let n = of_char c :: nat in
      if 65 \<le> n \<and> n \<le> 90 \<or> 192 \<le> n \<and> n \<le> 222 \<and> n \<noteq> 215 then [char_of (n + 32)]
      else if n = 223 then ''ss'' else [c])"

definition casefold :: "string \<Rightarrow> string" where
  "casefold s = concat (map casefold_char s)"

text \<open>Python's \<open>in\<close> on strings.\<close>

fun starts_with :: "'a list \<Rightarrow> 'a list \<Rightarrow> bool" where
  "starts_with [] ys = True"
| "starts_with (x # xs) [] = False"
| "starts_with (x # xs) (y # ys) = (x = y \<and> starts_with xs ys)"

fun contains_text :: "'a list \<Rightarrow> 'a list \<Rightarrow> bool" where
  "contains_text query [] = (query = [])"
| "contains_text query (c # cs) = (starts_with query (c # cs) \<or> contains_text query cs)"

text \<open>\<open>str.lower\<close> on code points below 256.\<close>

definition lower_char_of :: "char \<Rightarrow> char" where
  "lower_char_of c =
     (let n = of_char c :: nat in
      if 65 \<le> n \<and> n \<le> 90 \<or> 192 \<le> n \<and> n \<le> 222 \<and> n \<noteq> 215 then char_of (n + 32) else c)"

definition py_lower :: "string \<Rightarrow> string" where
  "py_lower s = map lower_char_of s"

text \<open>\<open>value.split()\<close>, and \<open>sep.join(words)\<close>.\<close>

fun words_from :: "string \<Rightarrow> string \<Rightarrow> string list" where
  "words_from word [] = (if word = [] then [] else [word])"
| "words_from word (c # cs) =
     (if py_space c then (if word = [] then words_from [] cs else word # words_from [] cs)
      else words_from (word @ [c]) cs)"

definition split_words :: "string \<Rightarrow> string list" where
  "split_words s = words_from [] s"

fun join_with :: "string \<Rightarrow> string list \<Rightarrow> string" where
  "join_with sep [] = []"
| "join_with sep [w] = w"
| "join_with sep (w # ws) = w @ sep @ join_with sep ws"

lemma words_from_chars: "w \<in> set (words_from word s) \<Longrightarrow> set w \<subseteq> set word \<union> {c \<in> set s. \<not> py_space c}"
  by (induction word s rule: words_from.induct) (fastforce split: if_splits)+

lemma set_split_words: "w \<in> set (split_words s) \<Longrightarrow> c \<in> set w \<Longrightarrow> \<not> py_space c"
  using words_from_chars [of w "[]" s] by (auto simp: split_words_def)

lemma set_join_with: "set (join_with sep ws) \<subseteq> set sep \<union> \<Union> (set ` set ws)"
  by (induction sep ws rule: join_with.induct) auto

lemma words_from_word: "word \<noteq> [] \<Longrightarrow> words_from word s \<noteq> []"
  by (induction word s rule: words_from.induct) auto

lemma words_from_nonempty: "\<exists>c \<in> set s. \<not> py_space c \<Longrightarrow> words_from word s \<noteq> []"
  by (induction word s rule: words_from.induct) (auto simp: words_from_word)

end
