(* ===== verification/PyValues.thy ===== *)
theory PyValues
  imports NuPrelude "HOL-Library.AList" "HOL-Library.Product_Lexorder"
begin

text \<open>
  The values that cross a wire or storage boundary (\<open>dict[str, object]\<close> and what it may hold),
  the recursive freeze and thaw of \<open>runtime/messages.py\<close>, and the strict field readers the
  domain codecs share.
\<close>

section \<open>Values\<close>

text \<open>
  A finite float is its exact rational value. \<open>PProxy\<close> is a read-only mapping
  (\<open>MappingProxyType\<close>), which is a \<open>Mapping\<close> but not a \<open>dict\<close>; \<open>PIntMap\<close> is a \<open>Mapping\<close> whose
  keys are integers, hence not strings; \<open>POther\<close> is any object of another class, by class name.
\<close>

datatype pyfloat = Finite rat | PosInf | NegInf | NaN

datatype pyobj =
    PNone
  | PBool bool
  | PInt int
  | PFloat pyfloat
  | PStr string
  | PList "pyobj list"
  | PTuple "pyobj list"
  | PDict "(string \<times> pyobj) list"
  | PProxy "(string \<times> pyobj) list"
  | PIntMap "(int \<times> pyobj) list"
  | POther string

type_synonym pydict = "(string \<times> pyobj) list"

abbreviation dget :: "pydict \<Rightarrow> string \<Rightarrow> pyobj option" where
  "dget d key \<equiv> map_of d key"

definition dkeys :: "pydict \<Rightarrow> string set" where
  "dkeys d = fst ` set d"

text \<open>Decimal notation, which \<open>str\<close> gives for an integer key.\<close>

fun dec_nat :: "nat \<Rightarrow> string" where
  "dec_nat n = (if n < 10 then [char_of (48 + n)] else dec_nat (n div 10) @ [char_of (48 + n mod 10)])"

declare dec_nat.simps [simp del]

definition dec_int :: "int \<Rightarrow> string" where
  "dec_int i = (if i < 0 then CHR ''-'' # dec_nat (nat (- i)) else dec_nat (nat i))"

section \<open>Freezing and thawing JSON values\<close>

fun freeze :: "pyobj \<Rightarrow> pyobj result"
  and freeze_items :: "pyobj list \<Rightarrow> pyobj list result"
  and freeze_fields :: "(string \<times> pyobj) list \<Rightarrow> (string \<times> pyobj) list result" where
  "freeze PNone = Inr PNone"
| "freeze (PStr s) = Inr (PStr s)"
| "freeze (PInt i) = Inr (PInt i)"
| "freeze (PBool b) = Inr (PBool b)"
| "freeze (PFloat x) =
     (case x of Finite q \<Rightarrow> Inr (PFloat (Finite q)) | _ \<Rightarrow> Inl (TypeError ''JSON value floats must be finite''))"
| "freeze (PDict d) = bindE (freeze_fields d) (\<lambda>f. Inr (PProxy f))"
| "freeze (PProxy d) = bindE (freeze_fields d) (\<lambda>f. Inr (PProxy f))"
| "freeze (PIntMap d) =
     (if d = [] then Inr (PProxy []) else Inl (TypeError ''JSON value mapping keys must be strings''))"
| "freeze (PList xs) = bindE (freeze_items xs) (\<lambda>ys. Inr (PTuple ys))"
| "freeze (PTuple xs) = bindE (freeze_items xs) (\<lambda>ys. Inr (PTuple ys))"
| "freeze (POther c) = Inl (TypeError (''value is not JSON-safe: '' @ c))"
| "freeze_items [] = Inr []"
| "freeze_items (x # xs) = bindE (freeze x) (\<lambda>y. bindE (freeze_items xs) (\<lambda>ys. Inr (y # ys)))"
| "freeze_fields [] = Inr []"
| "freeze_fields ((key, x) # d) =
     bindE (freeze x) (\<lambda>y. bindE (freeze_fields d) (\<lambda>f. Inr ((key, y) # f)))"

fun thaw :: "pyobj \<Rightarrow> pyobj" where
  "thaw (PDict d) = PDict (map (\<lambda>(key, x). (key, thaw x)) d)"
| "thaw (PProxy d) = PDict (map (\<lambda>(key, x). (key, thaw x)) d)"
| "thaw (PIntMap d) = PDict (map (\<lambda>(key, x). (dec_int key, thaw x)) d)"
| "thaw (PTuple xs) = PList (map thaw xs)"
| "thaw v = v"

text \<open>
  \<open>frozen\<close>: no mutable container anywhere. \<open>json_plain\<close>: what a JSON document decodes to.
  \<open>same_json\<close>: equal up to the choice between mutable and immutable containers.
\<close>

fun frozen :: "pyobj \<Rightarrow> bool" where
  "frozen (PProxy d) = list_all (\<lambda>(key, x). frozen x) d"
| "frozen (PTuple xs) = list_all frozen xs"
| "frozen (PFloat x) = (case x of Finite q \<Rightarrow> True | _ \<Rightarrow> False)"
| "frozen (PList xs) = False"
| "frozen (PDict d) = False"
| "frozen (PIntMap d) = False"
| "frozen (POther c) = False"
| "frozen v = True"

fun json_plain :: "pyobj \<Rightarrow> bool" where
  "json_plain (PDict d) = list_all (\<lambda>(key, x). json_plain x) d"
| "json_plain (PList xs) = list_all json_plain xs"
| "json_plain (PFloat x) = (case x of Finite q \<Rightarrow> True | _ \<Rightarrow> False)"
| "json_plain (PTuple xs) = False"
| "json_plain (PProxy d) = False"
| "json_plain (PIntMap d) = False"
| "json_plain (POther c) = False"
| "json_plain v = True"

definition json_dict :: "pydict \<Rightarrow> bool" where
  "json_dict d \<longleftrightarrow> list_all (\<lambda>(key, x). json_plain x) d"

lemma freeze_frozen_all:
  "freeze v = Inr w \<Longrightarrow> frozen w"
  "freeze_items xs = Inr ys \<Longrightarrow> list_all frozen ys"
  "freeze_fields d = Inr f \<Longrightarrow> list_all (\<lambda>(key, x). frozen x) f"
  by (induction v and xs and d arbitrary: w and ys and f rule: freeze_freeze_items_freeze_fields.induct)
    (auto simp: result_simps split: pyfloat.splits if_splits)

lemma freeze_plain_all:
  "json_plain v \<Longrightarrow> \<exists>w. freeze v = Inr w \<and> thaw w = v"
  "list_all json_plain xs \<Longrightarrow> \<exists>ys. freeze_items xs = Inr ys \<and> map thaw ys = xs"
  "list_all (\<lambda>(key, x). json_plain x) d \<Longrightarrow>
     \<exists>f. freeze_fields d = Inr f \<and> map (\<lambda>(key, x). (key, thaw x)) f = d"
  by (induction v and xs and d rule: freeze_freeze_items_freeze_fields.induct)
    (auto simp: result_simps split: pyfloat.splits)

lemma thaw_freeze_plain_all:
  "freeze v = Inr w \<Longrightarrow> json_plain (thaw w)"
  "freeze_items xs = Inr ys \<Longrightarrow> list_all json_plain (map thaw ys)"
  "freeze_fields d = Inr f \<Longrightarrow> list_all (\<lambda>(key, x). json_plain (thaw x)) f"
  by (induction v and xs and d arbitrary: w and ys and f rule: freeze_freeze_items_freeze_fields.induct)
    (auto simp: result_simps list_all_iff split: pyfloat.splits if_splits)

lemma freeze_frozen_id_all:
  "frozen v \<Longrightarrow> freeze v = Inr v"
  "list_all frozen xs \<Longrightarrow> freeze_items xs = Inr xs"
  "list_all (\<lambda>(key, x). frozen x) d \<Longrightarrow> freeze_fields d = Inr d"
  by (induction v and xs and d rule: freeze_freeze_items_freeze_fields.induct)
    (auto split: pyfloat.splits)

lemma freeze_thaw_all:
  "frozen v \<Longrightarrow> freeze (thaw v) = Inr v"
  "list_all frozen xs \<Longrightarrow> freeze_items (map thaw xs) = Inr xs"
  "list_all (\<lambda>(key, x). frozen x) d \<Longrightarrow> freeze_fields (map (\<lambda>(key, x). (key, thaw x)) d) = Inr d"
  by (induction v and xs and d rule: freeze_freeze_items_freeze_fields.induct)
    (auto split: pyfloat.splits)

lemmas freeze_thaw = freeze_thaw_all(1)
lemmas freeze_frozen = freeze_frozen_all(1)
lemmas freeze_plain = freeze_plain_all(1)
lemmas thaw_freeze_plain = thaw_freeze_plain_all(1)
lemmas freeze_frozen_id = freeze_frozen_id_all(1)

section \<open>Strict field readers\<close>

text \<open>The readers that several codecs define alike: a missing field reads as \<open>None\<close>.\<close>

definition dict_get :: "pydict \<Rightarrow> string \<Rightarrow> pyobj" where
  "dict_get d key = (case dget d key of None \<Rightarrow> PNone | Some v \<Rightarrow> v)"

definition read_string :: "pydict \<Rightarrow> string \<Rightarrow> string result" where
  "read_string d key =
     (case dict_get d key of PStr s \<Rightarrow> Inr s | _ \<Rightarrow> Inl (ValueError (''field must be a string: '' @ key)))"

definition read_optional_string :: "pydict \<Rightarrow> string \<Rightarrow> string option result" where
  "read_optional_string d key =
     (case dict_get d key of
        PNone \<Rightarrow> Inr None
      | PStr s \<Rightarrow> Inr (Some s)
      | _ \<Rightarrow> Inl (ValueError (''field must be a string or null: '' @ key)))"

fun str_list :: "pyobj list \<Rightarrow> string list option" where
  "str_list [] = Some []"
| "str_list (PStr s # xs) = map_option (Cons s) (str_list xs)"
| "str_list (_ # xs) = None"

fun opt_str :: "string option \<Rightarrow> pyobj" where
  "opt_str None = PNone"
| "opt_str (Some s) = PStr s"

lemma str_list_map [simp]: "str_list (map PStr xs) = Some xs"
  by (induction xs) simp_all

lemma json_plain_strs [simp]: "list_all json_plain (map PStr xs)"
  by (induction xs) simp_all

lemma json_plain_opt_str [simp]: "json_plain (opt_str x)"
  by (cases x) simp_all

text \<open>A list of objects; a JSON object always has string keys.\<close>

fun object_list :: "pyobj list \<Rightarrow> pydict list option" where
  "object_list [] = Some []"
| "object_list (PDict d # vs) = map_option (Cons d) (object_list vs)"
| "object_list (_ # vs) = None"

definition read_objects :: "exn \<Rightarrow> exn \<Rightarrow> pyobj \<Rightarrow> pydict list result" where
  "read_objects not_list not_object v =
     (case v of
        PList vs \<Rightarrow> (case object_list vs of None \<Rightarrow> Inl not_object | Some ds \<Rightarrow> Inr ds)
      | _ \<Rightarrow> Inl not_list)"

lemma object_list_map [simp]: "object_list (map (\<lambda>x. PDict (f x)) xs) = Some (map f xs)"
  by (induction xs) simp_all

text \<open>A list of strings, and a value of a closed vocabulary given by its names.\<close>

definition read_strs :: "exn \<Rightarrow> pyobj \<Rightarrow> string list result" where
  "read_strs e v =
     (case v of
        PList vs \<Rightarrow> (case str_list vs of None \<Rightarrow> Inl e | Some ss \<Rightarrow> Inr ss)
      | _ \<Rightarrow> Inl e)"

definition read_enum :: "('e \<Rightarrow> string) \<Rightarrow> 'e list \<Rightarrow> exn \<Rightarrow> pydict \<Rightarrow> string \<Rightarrow> 'e result" where
  "read_enum str vocabulary e d key =
     bindE (read_string d key) (\<lambda>s.
       case List.find (\<lambda>k. str k = s) vocabulary of None \<Rightarrow> Inl e | Some k \<Rightarrow> Inr k)"

definition strs_obj :: "string list \<Rightarrow> pyobj" where
  "strs_obj ss = PList (map PStr ss)"

lemma read_strs_obj [simp]: "read_strs e (strs_obj ss) = Inr ss"
  by (simp add: read_strs_def strs_obj_def)

lemma json_plain_strs_obj [simp]: "json_plain (strs_obj ss)"
  by (simp add: strs_obj_def)

text \<open>The interface of a closed vocabulary: the names of its values are distinct, so they can be read back.\<close>

locale vocabulary =
  fixes str :: "'e \<Rightarrow> string" and names :: "'e list"
  assumes total: "k \<in> set names" and distinct_names: "distinct (map str names)"
begin

lemma inj_str: "inj str"
  using distinct_names total by (auto simp: distinct_map inj_on_def inj_def)

lemma find_name [simp]: "List.find (\<lambda>x. str x = str k) names = Some k"
  using total [of k] by (induction names) (auto dest: injD [OF inj_str])

lemma read_name [simp]: "read_enum str names e ((key, PStr (str k)) # d) key = Inr k"
  by (simp add: read_enum_def read_string_def dict_get_def)

end

section \<open>Truth, hashing and conversion\<close>

text \<open>
  \<open>bool(v)\<close>; whether \<open>hash(v)\<close> is defined; and the key under which a set or a dictionary keeps a
  frozen value: numbers of different types that are equal share it.
\<close>

fun truthy :: "pyobj \<Rightarrow> bool" where
  "truthy PNone = False"
| "truthy (PBool b) = b"
| "truthy (PInt i) = (i \<noteq> 0)"
| "truthy (PFloat x) = (x \<noteq> Finite 0)"
| "truthy (PStr s) = (s \<noteq> [])"
| "truthy (PList xs) = (xs \<noteq> [])"
| "truthy (PTuple xs) = (xs \<noteq> [])"
| "truthy (PDict d) = (d \<noteq> [])"
| "truthy (PProxy d) = (d \<noteq> [])"
| "truthy (PIntMap d) = (d \<noteq> [])"
| "truthy (POther c) = True"

fun hashable :: "pyobj \<Rightarrow> bool" where
  "hashable (PTuple xs) = list_all hashable xs"
| "hashable (PList xs) = False"
| "hashable (PDict d) = False"
| "hashable (PProxy d) = False"
| "hashable v = True"

fun hash_key :: "pyobj \<Rightarrow> pyobj" where
  "hash_key (PBool b) = PFloat (Finite (if b then 1 else 0))"
| "hash_key (PInt i) = PFloat (Finite (of_int i))"
| "hash_key (PTuple xs) = PTuple (map hash_key xs)"
| "hash_key v = v"

text \<open>
  \<open>float(i)\<close>: the nearest number with 53 significant bits, ties to even, unless it exceeds the
  range of a double.
\<close>

fun bit_length :: "nat \<Rightarrow> nat" where
  "bit_length n = (if n = 0 then 0 else Suc (bit_length (n div 2)))"

declare bit_length.simps [simp del]

definition float_of_int :: "int \<Rightarrow> pyfloat result" where
  "float_of_int i =
     (let n = nat (abs i); k = bit_length n - 53; q = n div 2 ^ k; r = n mod 2 ^ k; half = 2 ^ k div 2;
          m = (if 0 < k \<and> (half < r \<or> r = half \<and> odd q) then q + 1 else q) * 2 ^ k in
      if 2 ^ 1024 \<le> m then Inl (OverflowError ''int too large to convert to float'')
      else Inr (Finite (of_int (sgn i * int m))))"

section \<open>Readers of numbers and truth values\<close>

text \<open>A \<open>bool\<close> is an \<open>int\<close>, so it reads as a number.\<close>

definition expect_float :: "pydict \<Rightarrow> string \<Rightarrow> pyfloat result" where
  "expect_float d key =
     (case dict_get d key of
        PBool b \<Rightarrow> Inr (Finite (if b then 1 else 0))
      | PInt i \<Rightarrow> float_of_int i
      | PFloat x \<Rightarrow> Inr x
      | _ \<Rightarrow> Inl (ValueError ''field must be a number''))"

definition expect_bool :: "pydict \<Rightarrow> string \<Rightarrow> bool result" where
  "expect_bool d key =
     (case dict_get d key of PBool b \<Rightarrow> Inr b | _ \<Rightarrow> Inl (ValueError ''field must be a boolean''))"

lemma expect_float_obj [simp]: "dget d key = Some (PFloat x) \<Longrightarrow> expect_float d key = Inr x"
  by (simp add: expect_float_def dict_get_def)

lemma expect_bool_obj [simp]: "dget d key = Some (PBool b) \<Longrightarrow> expect_bool d key = Inr b"
  by (simp add: expect_bool_def dict_get_def)

lemma read_string_str [simp]: "dget d key = Some (PStr s) \<Longrightarrow> read_string d key = Inr s"
  by (simp add: read_string_def dict_get_def)

section \<open>Floats in order\<close>

text \<open>
  The order of the floats a record can hold. \<open>NaN\<close>, which no comparison of the language puts anywhere
  and storage refuses, is put last; \<open>float_lt\<close> and \<open>float_ge\<close> are the comparisons of the language.
\<close>

fun float_rank :: "pyfloat \<Rightarrow> nat \<times> rat" where
  "float_rank NegInf = (0, 0)"
| "float_rank (Finite q) = (1, q)"
| "float_rank PosInf = (2, 0)"
| "float_rank NaN = (3, 0)"

lemma float_rank_inject: "float_rank x = float_rank y \<longleftrightarrow> x = y"
  by (cases x; cases y) simp_all

instantiation pyfloat :: linorder
begin

definition less_eq_pyfloat :: "pyfloat \<Rightarrow> pyfloat \<Rightarrow> bool" where
  "x \<le> y \<longleftrightarrow> float_rank x \<le> float_rank y"

definition less_pyfloat :: "pyfloat \<Rightarrow> pyfloat \<Rightarrow> bool" where
  "x < y \<longleftrightarrow> float_rank x < float_rank y"

instance
proof
  fix x y z :: pyfloat
  show "(x < y) = (x \<le> y \<and> \<not> y \<le> x)" by (auto simp: less_eq_pyfloat_def less_pyfloat_def)
  show "x \<le> x" by (simp add: less_eq_pyfloat_def)
  show "x \<le> y \<Longrightarrow> y \<le> z \<Longrightarrow> x \<le> z" by (simp add: less_eq_pyfloat_def)
  show "x \<le> y \<Longrightarrow> y \<le> x \<Longrightarrow> x = y" by (simp add: less_eq_pyfloat_def flip: float_rank_inject)
  show "x \<le> y \<or> y \<le> x" by (auto simp: less_eq_pyfloat_def)
qed

end

lemma less_eq_Finite [simp]: "Finite p \<le> Finite q \<longleftrightarrow> p \<le> q"
  by (simp add: less_eq_pyfloat_def)

definition float_lt :: "pyfloat \<Rightarrow> pyfloat \<Rightarrow> bool" where
  "float_lt x y \<longleftrightarrow> x \<noteq> NaN \<and> y \<noteq> NaN \<and> x < y"

definition float_ge :: "pyfloat \<Rightarrow> pyfloat \<Rightarrow> bool" where
  "float_ge x y \<longleftrightarrow> x \<noteq> NaN \<and> y \<noteq> NaN \<and> y \<le> x"

end
