(* ===== verification/RuntimeCtx.thy ===== *)
theory RuntimeCtx
  imports PyValues
begin

text \<open>
  The correlation context of \<open>runtime/context.py\<close>: its validation, its record codec, the ambient
  context variable and the scoped replacement and extension of it; and the ISO timestamp checks
  of the record codecs.
\<close>

section \<open>RuntimeContext\<close>

record RuntimeContext =
  ctx_conversation_id :: "string option"
  ctx_reason_id :: "string option"
  ctx_request_id :: "string option"
  ctx_turn_id :: "string option"
  ctx_job_id :: "string option"
  ctx_trace_id :: "string option"
  ctx_source :: "string option"

definition context_fields :: "string list" where
  "context_fields =
     [''conversation_id'', ''reason_id'', ''request_id'', ''turn_id'', ''job_id'', ''trace_id'', ''source'']"

definition empty_context :: RuntimeContext where
  "empty_context = \<lparr>ctx_conversation_id = None, ctx_reason_id = None, ctx_request_id = None,
     ctx_turn_id = None, ctx_job_id = None, ctx_trace_id = None, ctx_source = None\<rparr>"

definition context_pairs :: "RuntimeContext \<Rightarrow> (string \<times> string option) list" where
  "context_pairs c =
     [(''conversation_id'', ctx_conversation_id c), (''reason_id'', ctx_reason_id c),
      (''request_id'', ctx_request_id c), (''turn_id'', ctx_turn_id c), (''job_id'', ctx_job_id c),
      (''trace_id'', ctx_trace_id c), (''source'', ctx_source c)]"

text \<open>\<open>__post_init__\<close>: every populated field must be a non-blank string.\<close>

fun field_ok :: "string option \<Rightarrow> bool" where
  "field_ok None = True"
| "field_ok (Some s) = (\<not> blank s)"

definition context_valid :: "RuntimeContext \<Rightarrow> bool" where
  "context_valid c \<longleftrightarrow> list_all (\<lambda>(key, v). field_ok v) (context_pairs c)"

definition make_context :: "RuntimeContext \<Rightarrow> RuntimeContext result" where
  "make_context c =
     (if context_valid c then Inr c else Inl (ValueError ''runtime context field must be a non-blank string''))"

fun populated :: "(string \<times> string option) list \<Rightarrow> pydict" where
  "populated [] = []"
| "populated ((key, None) # ps) = populated ps"
| "populated ((key, Some s) # ps) = (key, PStr s) # populated ps"

definition context_to_record :: "RuntimeContext \<Rightarrow> pydict" where
  "context_to_record c = populated (context_pairs c)"

fun context_values :: "pydict \<Rightarrow> (string \<times> string) list result" where
  "context_values [] = Inr []"
| "context_values ((key, PStr s) # d) =
     (if blank s then Inl (ValueError ''runtime context field must be a non-blank string'')
      else bindE (context_values d) (\<lambda>vs. Inr ((key, s) # vs)))"
| "context_values ((key, _) # d) = Inl (ValueError ''runtime context field must be a non-blank string'')"

definition context_from_record :: "pydict \<Rightarrow> RuntimeContext result" where
  "context_from_record d =
     (if \<exists>key \<in> set (map fst d). key \<notin> set context_fields
      then Inl (ValueError ''runtime context has unknown fields'')
      else bindE (context_values d) (\<lambda>vs.
        make_context
          \<lparr>ctx_conversation_id = map_of vs ''conversation_id'', ctx_reason_id = map_of vs ''reason_id'',
           ctx_request_id = map_of vs ''request_id'', ctx_turn_id = map_of vs ''turn_id'',
           ctx_job_id = map_of vs ''job_id'', ctx_trace_id = map_of vs ''trace_id'',
           ctx_source = map_of vs ''source''\<rparr>))"

section \<open>The ambient context\<close>

text \<open>
  The context variable holds a context or nothing. A scope sets it, runs its body and restores
  the saved value whether the body returns or raises (the \<open>finally\<close> clause).
\<close>

definition current_runtime_context :: "RuntimeContext option \<Rightarrow> RuntimeContext" where
  "current_runtime_context amb = (case amb of None \<Rightarrow> empty_context | Some c \<Rightarrow> c)"

type_synonym ('s, 'a) ctx_act = "(RuntimeContext option \<times> 's, 'a) act"

definition use_runtime_context :: "RuntimeContext \<Rightarrow> ('s, 'a) ctx_act \<Rightarrow> ('s, 'a) ctx_act" where
  "use_runtime_context c body = (\<lambda>(amb, s).
     case body (Some c, s) of (r, (_, t)) \<Rightarrow> (r, (amb, t)))"

definition merge_context :: "RuntimeContext \<Rightarrow> RuntimeContext \<Rightarrow> RuntimeContext" where
  "merge_context new previous =
     (let pick = (\<lambda>f. case f new of Some v \<Rightarrow> Some v | None \<Rightarrow> f previous) in
      \<lparr>ctx_conversation_id = pick ctx_conversation_id, ctx_reason_id = pick ctx_reason_id,
       ctx_request_id = pick ctx_request_id, ctx_turn_id = pick ctx_turn_id,
       ctx_job_id = pick ctx_job_id, ctx_trace_id = pick ctx_trace_id, ctx_source = pick ctx_source\<rparr>)"

definition runtime_context :: "RuntimeContext \<Rightarrow> ('s, 'a) ctx_act \<Rightarrow> ('s, 'a) ctx_act" where
  "runtime_context new body = (\<lambda>(amb, s).
     case make_context (merge_context new (current_runtime_context amb)) of
       Inl e \<Rightarrow> (Inl e, (amb, s))
     | Inr merged \<Rightarrow> use_runtime_context merged body (amb, s))"

lemma context_valid_empty [simp]: "context_valid empty_context"
  by (simp add: context_valid_def context_pairs_def empty_context_def)

lemma field_ok_pick:
  "field_ok x \<Longrightarrow> field_ok y \<Longrightarrow> field_ok (case x of Some v \<Rightarrow> Some v | None \<Rightarrow> y)"
  by (cases x) simp_all

lemma context_valid_merge:
  "context_valid new \<Longrightarrow> context_valid previous \<Longrightarrow> context_valid (merge_context new previous)"
  by (simp add: context_valid_def context_pairs_def merge_context_def Let_def field_ok_pick)

lemma context_eta:
  "\<lparr>ctx_conversation_id = ctx_conversation_id c, ctx_reason_id = ctx_reason_id c,
    ctx_request_id = ctx_request_id c, ctx_turn_id = ctx_turn_id c, ctx_job_id = ctx_job_id c,
    ctx_trace_id = ctx_trace_id c, ctx_source = ctx_source c\<rparr> = c"
  by (cases c) simp

lemma context_values_populated:
  "list_all (\<lambda>(key, v). field_ok v) ps \<Longrightarrow>
   context_values (populated ps) = Inr (List.map_filter (\<lambda>(key, v). map_option (Pair key) v) ps)"
  by (induction ps rule: populated.induct) (auto simp: List.map_filter_simps)

lemma map_of_map_filter:
  "distinct (map fst ps) \<Longrightarrow>
   map_of (List.map_filter (\<lambda>(key, v). map_option (Pair key) v) ps) key =
   (case map_of ps key of None \<Rightarrow> None | Some v \<Rightarrow> v)"
proof (induction ps)
  case (Cons p ps)
  obtain key' v where [simp]: "p = (key', v)" by fastforce
  have "map_of ps key' = None" using Cons.prems by (auto simp: map_of_eq_None_iff)
  with Cons show ?case by (auto simp: List.map_filter_simps split: option.splits)
qed (simp add: List.map_filter_simps)

lemma keys_populated: "set (map fst (populated ps)) \<subseteq> set (map fst ps)"
  by (induction ps rule: populated.induct) auto

lemma context_record_roundtrip:
  assumes "context_valid c"
  shows "context_from_record (context_to_record c) = Inr c"
proof -
  have keys: "\<not> (\<exists>key \<in> set (map fst (populated (context_pairs c))). key \<notin> set context_fields)"
    using keys_populated [of "context_pairs c"] by (auto simp: context_pairs_def context_fields_def)
  have vals: "context_values (populated (context_pairs c))
      = Inr (List.map_filter (\<lambda>(key, v). map_option (Pair key) v) (context_pairs c))"
    using assms by (intro context_values_populated) (simp add: context_valid_def)
  have "distinct (map fst (context_pairs c))"
    by (simp add: context_pairs_def)
  note look = map_of_map_filter [OF this]
  have fields: "map_of (context_pairs c) ''conversation_id'' = Some (ctx_conversation_id c)"
    "map_of (context_pairs c) ''reason_id'' = Some (ctx_reason_id c)"
    "map_of (context_pairs c) ''request_id'' = Some (ctx_request_id c)"
    "map_of (context_pairs c) ''turn_id'' = Some (ctx_turn_id c)"
    "map_of (context_pairs c) ''job_id'' = Some (ctx_job_id c)"
    "map_of (context_pairs c) ''trace_id'' = Some (ctx_trace_id c)"
    "map_of (context_pairs c) ''source'' = Some (ctx_source c)"
    by (simp_all add: context_pairs_def)
  show ?thesis
    using keys assms
    by (simp only: context_from_record_def context_to_record_def vals look fields make_context_def
        bindE_Inr option.case context_eta if_False if_True simp_thms)
qed

lemma json_plain_populated [simp]: "list_all (\<lambda>(key, x). json_plain x) (populated ps)"
  by (induction ps rule: populated.induct) simp_all

section \<open>ISO timestamps\<close>

text \<open>
  \<open>datetime.fromisoformat\<close> is implemented in C; it enters as a parser argument that either
  rejects a string, or reads a naive or an aware instant (microseconds since the epoch, in UTC).
  Every lemma holds for any such parser.
\<close>

datatype iso = IsoInvalid | IsoNaive int | IsoAware int

type_synonym iso_parser = "string \<Rightarrow> iso"

definition aware :: "iso_parser \<Rightarrow> string \<Rightarrow> unit result" where
  "aware fromiso v =
     (case fromiso v of
        IsoInvalid \<Rightarrow> Inl (ValueError ''field must be an ISO-8601 timestamp'')
      | IsoNaive _ \<Rightarrow> Inl (ValueError ''field must include a timezone'')
      | IsoAware _ \<Rightarrow> Inr ())"

definition is_aware :: "iso_parser \<Rightarrow> string \<Rightarrow> bool" where
  "is_aware fromiso v \<longleftrightarrow> (case fromiso v of IsoAware _ \<Rightarrow> True | _ \<Rightarrow> False)"

lemma aware_Inr [result_simps]: "aware fromiso v = Inr u \<longleftrightarrow> is_aware fromiso v"
  by (auto simp: aware_def is_aware_def split: iso.splits)

lemma aware_ok [simp]: "is_aware fromiso v \<Longrightarrow> aware fromiso v = Inr ()"
  by (simp add: aware_Inr)

text \<open>A wire's context entry: any mapping is accepted, anything else is refused.\<close>

definition context_of_wire :: "exn \<Rightarrow> pyobj \<Rightarrow> RuntimeContext result" where
  "context_of_wire not_mapping v =
     (case v of
        PDict d \<Rightarrow> context_from_record d
      | PProxy d \<Rightarrow> context_from_record d
      | PIntMap d \<Rightarrow> (if d = [] then context_from_record []
                    else Inl (ValueError ''runtime context has unknown fields''))
      | _ \<Rightarrow> Inl not_mapping)"

lemma context_of_wire_roundtrip [simp]:
  "context_valid c \<Longrightarrow> context_of_wire e (PDict (context_to_record c)) = Inr c"
  by (simp add: context_of_wire_def context_record_roundtrip)

lemma json_plain_context [simp]: "json_plain (PDict (context_to_record c))"
  by (simp add: context_to_record_def)

end
