(* ===== verification/SqliteStore.thy ===== *)
theory SqliteStore
  imports RuntimeCtx
begin

text \<open>
  The storage backend of \<open>storage/sqlite.py\<close>: collections of JSON records, and nested
  transactions over one connection. The last part states what the repositories rely on as two
  interfaces, a keyed store and an all-or-nothing transaction, and a third for record codecs.
\<close>

section \<open>Collections\<close>

text \<open>
  A row is a key and the payload object stored for it; the \<open>id\<close> entry of a record is not part of
  its payload, and a read puts it back in front. JSON text is identified with the value it
  encodes (\<open>json.loads (json.dumps v) = v\<close> for a plain value).
\<close>

type_synonym coll = "pydict rows"
type_synonym tables = "string \<Rightarrow> coll"

definition collection_names :: "string list" where
  "collection_names =
     [''memory_entries'', ''memory_candidates'', ''trace_nodes'', ''trace_edges'', ''reason_threads'',
      ''reason_steps'', ''persona_prompts'', ''profile_items'', ''source_documents'', ''source_chunks'',
      ''inbox_items'', ''delivery_records'', ''reflection_entries'', ''conversations'',
      ''memory_observations'', ''memory_curator_plans'', ''scheduler_state'']"

definition backend_collection :: "string \<Rightarrow> string result" where
  "backend_collection name =
     (if name \<in> set collection_names then Inr name else Inl (ValueError ''unknown collection''))"

definition validate_storage_key :: "string \<Rightarrow> unit result" where
  "validate_storage_key key =
     raise_if (key = '''' \<or> key \<in> {''.'', ''..''} \<or> CHR 0x00 \<in> set key \<or> CHR ''/'' \<in> set key \<or> CHR 0x5C \<in> set key)
       (ValueError ''storage collection key is invalid'')"

definition coll_decode :: "string \<times> pydict \<Rightarrow> pydict result" where
  "coll_decode row =
     (if fst row = '''' then Inl (ValueError ''stored SQLite row id is invalid'')
      else if ''id'' \<in> set (map fst (snd row)) then Inl (ValueError ''stored SQLite payload is invalid'')
      else Inr ((''id'', PStr (fst row)) # snd row))"

definition coll_get :: "coll \<Rightarrow> string \<Rightarrow> pydict option result" where
  "coll_get c key =
     (case map_of c key of
        None \<Rightarrow> Inr None
      | Some payload \<Rightarrow> bindE (coll_decode (key, payload)) (\<lambda>w. Inr (Some w)))"

definition payload_of :: "pydict \<Rightarrow> pydict" where
  "payload_of w = filter (\<lambda>(key, _). key \<noteq> ''id'') w"

definition coll_put :: "string \<Rightarrow> pydict \<Rightarrow> coll \<Rightarrow> coll result" where
  "coll_put key value c =
     bindE (raise_if (dict_get value ''id'' \<noteq> PNone \<and> dict_get value ''id'' \<noteq> PStr key)
              (ValueError ''storage record id must be a string matching its key'')) (\<lambda>_.
     bindE (freeze (PDict value)) (\<lambda>f.
       case thaw f of
         PDict validated \<Rightarrow> Inr (row_put key (payload_of validated) c)
       | _ \<Rightarrow> Inl (AssertionError ''unreachable'')))"

definition coll_delete :: "string \<Rightarrow> coll \<Rightarrow> coll" where
  "coll_delete key c = row_del key c"

text \<open>A scan skips the rows that do not decode (they are reported as corrupt).\<close>

fun coll_list :: "coll \<Rightarrow> pydict list" where
  "coll_list [] = []"
| "coll_list (r # rs) =
     (case coll_decode r of Inl _ \<Rightarrow> coll_list rs | Inr w \<Rightarrow> w # coll_list rs)"

definition coll_find :: "(string \<times> string) list \<Rightarrow> coll \<Rightarrow> pydict list" where
  "coll_find filters c =
     filter (\<lambda>item. list_all (\<lambda>(key, expected). dict_get item key = PStr expected) filters) (coll_list c)"

text \<open>
  \<open>decode_observed_record\<close> over a scan: a record whose decoder raises a \<open>ValueError\<close>, \<open>KeyError\<close> or
  \<open>TypeError\<close> is reported and left out; any other exception escapes.
\<close>

definition is_decode_error :: "exn \<Rightarrow> bool" where
  "is_decode_error e \<longleftrightarrow> is_value_error e \<or> is_key_error e \<or> is_type_error e"

definition decode_observed_record :: "(pydict \<Rightarrow> 'r result) \<Rightarrow> pydict \<Rightarrow> 'r option result" where
  "decode_observed_record decoder w =
     (case decoder w of
        Inr x \<Rightarrow> Inr (Some x)
      | Inl e \<Rightarrow> (if is_decode_error e then Inr None else Inl e))"

fun decode_all :: "(pydict \<Rightarrow> 'r result) \<Rightarrow> pydict list \<Rightarrow> 'r list result" where
  "decode_all decoder [] = Inr []"
| "decode_all decoder (w # ws) =
     bindE (decode_observed_record decoder w) (\<lambda>r.
     bindE (decode_all decoder ws) (\<lambda>xs.
       Inr (case r of None \<Rightarrow> xs | Some x \<Rightarrow> x # xs)))"

section \<open>The connection and its transactions\<close>

text \<open>
  \<open>committed\<close> is the durable content, \<open>working\<close> what this connection reads. \<open>in_tx\<close> says that a
  transaction is open (\<open>sqlite3\<close> opens one implicitly at the first write). The three error fields
  are what SQLite would answer to the next \<open>BEGIN IMMEDIATE\<close>, commit and rollback: the environment
  chooses them. \<open>depth\<close> and \<open>rollback_only\<close> are the fields of \<open>_TransactionState\<close>.
\<close>

record conn =
  committed :: tables
  working :: tables
  in_tx :: bool
  depth :: int
  rollback_only :: bool
  begin_error :: "exn option"
  commit_error :: "exn option"
  rollback_error :: "exn option"

definition db_begin :: "(conn, unit) act" where
  "db_begin c =
     (if in_tx c then (Inl (OtherException ''OperationalError''), c)
      else case begin_error c of
        Some e \<Rightarrow> (Inl e, c)
      | None \<Rightarrow> (Inr (), c\<lparr>in_tx := True\<rparr>))"

definition db_commit :: "(conn, unit) act" where
  "db_commit c =
     (case commit_error c of
        Some e \<Rightarrow> (Inl e, c)
      | None \<Rightarrow> (Inr (), c\<lparr>committed := working c, in_tx := False\<rparr>))"

definition db_rollback :: "(conn, unit) act" where
  "db_rollback c =
     (case rollback_error c of
        Some e \<Rightarrow> (Inl e, c)
      | None \<Rightarrow> (Inr (), c\<lparr>working := committed c, in_tx := False\<rparr>))"

definition reset_transaction_state :: "conn \<Rightarrow> conn" where
  "reset_transaction_state c = c\<lparr>depth := 0, rollback_only := False\<rparr>"

text \<open>Roll back and re-raise the primary error, or report that the rollback failed as well.\<close>

definition rollback_after_failure :: "exn \<Rightarrow> (conn, 'a) act" where
  "rollback_after_failure primary c =
     (case db_rollback c of
        (Inl _, c1) \<Rightarrow> (Inl SqliteTransactionCleanupError, reset_transaction_state c1)
      | (Inr _, c1) \<Rightarrow> (Inl primary, reset_transaction_state c1))"

definition transaction :: "(conn, 'a) act \<Rightarrow> (conn, 'a) act" where
  "transaction body c =
     (let outermost = (depth c = 0) in
      case (if outermost then db_begin c else (Inr (), c)) of
        (Inl e, c1) \<Rightarrow> (Inl e, c1)
      | (Inr _, c1) \<Rightarrow>
         (let c2 = (if outermost then c1\<lparr>rollback_only := False\<rparr> else c1) in
          case body (c2\<lparr>depth := depth c2 + 1\<rparr>) of
            (Inl exc, c3) \<Rightarrow>
              (let c4 = c3\<lparr>depth := depth c3 - 1, rollback_only := True\<rparr> in
               if outermost then rollback_after_failure exc c4 else (Inl exc, c4))
          | (Inr x, c3) \<Rightarrow>
              (let c4 = c3\<lparr>depth := depth c3 - 1\<rparr> in
               if \<not> outermost then (Inr x, c4)
               else if rollback_only c4 then rollback_after_failure SqliteTransactionRollbackOnlyError c4
               else case db_commit c4 of
                 (Inl exc, c5) \<Rightarrow> rollback_after_failure exc c5
               | (Inr _, c5) \<Rightarrow> (Inr x, reset_transaction_state c5))))"

definition commit_if_standalone :: "(conn, unit) act" where
  "commit_if_standalone c = (if depth c = 0 then db_commit c else (Inr (), c))"

definition sqlite_get :: "string \<Rightarrow> string \<Rightarrow> (conn, pydict option) act" where
  "sqlite_get name key = lift_act (\<lambda>c. coll_get (working c name) key)"

definition sqlite_list :: "string \<Rightarrow> (conn, pydict list) act" where
  "sqlite_list name = lift_act (\<lambda>c. Inr (coll_list (working c name)))"

definition sqlite_put :: "string \<Rightarrow> string \<Rightarrow> pydict \<Rightarrow> (conn, unit) act" where
  "sqlite_put name key value c =
     (case coll_put key value (working c name) of
        Inl e \<Rightarrow> (Inl e, c)
      | Inr rows \<Rightarrow> commit_if_standalone (c\<lparr>working := (working c)(name := rows), in_tx := True\<rparr>))"

definition sqlite_delete :: "string \<Rightarrow> string \<Rightarrow> (conn, unit) act" where
  "sqlite_delete name key c =
     commit_if_standalone
       (c\<lparr>working := (working c)(name := coll_delete key (working c name)), in_tx := True\<rparr>)"

text \<open>A caller that catches an exception of an inner operation and carries on.\<close>

definition try_act :: "('s, 'a) act \<Rightarrow> (exn \<Rightarrow> ('s, 'a) act) \<Rightarrow> ('s, 'a) act" where
  "try_act m handler s = (case m s of (Inl e, t) \<Rightarrow> handler e t | (Inr x, t) \<Rightarrow> (Inr x, t))"

section \<open>Transactions are all or nothing\<close>

text \<open>
  \<open>disciplined\<close>: inside a transaction, the operation leaves the nesting depth, the durable content
  and the open transaction alone, and never clears the rollback mark. The backend's own operations
  are disciplined, and so is everything built from them, nested transactions and caught exceptions
  included.
\<close>

definition same_faults :: "conn \<Rightarrow> conn \<Rightarrow> bool" where
  "same_faults c d \<longleftrightarrow> begin_error d = begin_error c \<and> commit_error d = commit_error c
     \<and> rollback_error d = rollback_error c"

definition inside_ok :: "conn \<Rightarrow> conn \<Rightarrow> bool" where
  "inside_ok c d \<longleftrightarrow> depth d = depth c \<and> committed d = committed c \<and> in_tx d
     \<and> (rollback_only c \<longrightarrow> rollback_only d) \<and> same_faults c d"

definition disciplined :: "(conn, 'a) act \<Rightarrow> bool" where
  "disciplined m \<longleftrightarrow> (\<forall>c. 1 \<le> depth c \<longrightarrow> in_tx c \<longrightarrow> inside_ok c (snd (m c)))"

lemma disciplinedI:
  "(\<And>c. 1 \<le> depth c \<Longrightarrow> in_tx c \<Longrightarrow> inside_ok c (snd (m c))) \<Longrightarrow> disciplined m"
  by (simp add: disciplined_def)

lemma disciplinedD: "disciplined m \<Longrightarrow> 1 \<le> depth c \<Longrightarrow> in_tx c \<Longrightarrow> inside_ok c (snd (m c))"
  by (simp add: disciplined_def)

lemma inside_ok_trans: "inside_ok c d \<Longrightarrow> inside_ok d e \<Longrightarrow> inside_ok c e"
  by (simp add: inside_ok_def same_faults_def)

lemma inside_ok_refl: "in_tx c \<Longrightarrow> inside_ok c c"
  by (simp add: inside_ok_def same_faults_def)

lemma disciplined_ret: "disciplined (ret_act x)"
  and disciplined_raise: "disciplined (raise_act e)"
  and disciplined_lift: "disciplined (lift_act f)"
  by (simp_all add: disciplined_def inside_ok_refl)

lemma disciplined_bind:
  assumes "disciplined m" and "\<And>x. disciplined (f x)"
  shows "disciplined (bind_act m f)"
proof (rule disciplinedI)
  fix c :: conn
  assume d: "1 \<le> depth c" and tx: "in_tx c"
  obtain r d where m: "m c = (r, d)" by fastforce
  have ok: "inside_ok c d" using disciplinedD [OF assms(1)] d tx m by force
  show "inside_ok c (snd (bind_act m f c))"
  proof (cases r)
    case (Inl e)
    with m ok show ?thesis by (simp add: bind_act_def)
  next
    case (Inr x)
    have "1 \<le> depth d" "in_tx d" using ok \<open>1 \<le> depth c\<close> by (simp_all add: inside_ok_def)
    from disciplinedD [OF assms(2) this, of x] ok Inr m show ?thesis
      by (simp add: bind_act_def inside_ok_trans)
  qed
qed

lemma disciplined_try:
  assumes "disciplined m" and "\<And>e. disciplined (h e)"
  shows "disciplined (try_act m h)"
proof (rule disciplinedI)
  fix c :: conn
  assume d: "1 \<le> depth c" and tx: "in_tx c"
  obtain r d where m: "m c = (r, d)" by fastforce
  have ok: "inside_ok c d" using disciplinedD [OF assms(1)] d tx m by force
  then have "1 \<le> depth d" "in_tx d" using d by (simp_all add: inside_ok_def)
  from disciplinedD [OF assms(2) this] ok m show "inside_ok c (snd (try_act m h c))"
    by (cases r) (simp_all add: try_act_def inside_ok_trans)
qed

lemma disciplined_put: "disciplined (sqlite_put name key value)"
  by (rule disciplinedI)
    (auto simp: sqlite_put_def commit_if_standalone_def inside_ok_def same_faults_def split: sum.splits)

lemma disciplined_delete: "disciplined (sqlite_delete name key)"
  by (rule disciplinedI)
    (auto simp: sqlite_delete_def commit_if_standalone_def inside_ok_def same_faults_def)

lemma transaction_nested:
  assumes "depth c \<noteq> 0"
  shows "transaction body c =
     (case body (c\<lparr>depth := depth c + 1\<rparr>) of
        (Inl e, d) \<Rightarrow> (Inl e, d\<lparr>depth := depth d - 1, rollback_only := True\<rparr>)
      | (Inr x, d) \<Rightarrow> (Inr x, d\<lparr>depth := depth d - 1\<rparr>))"
  using assms by (auto simp: transaction_def Let_def split: prod.splits sum.splits)

lemma disciplined_transaction:
  assumes "disciplined body"
  shows "disciplined (transaction body)"
proof (rule disciplinedI)
  fix c :: conn
  assume d: "1 \<le> depth c" and tx: "in_tx c"
  obtain r d where b: "body (c\<lparr>depth := depth c + 1\<rparr>) = (r, d)" by fastforce
  have "inside_ok (c\<lparr>depth := depth c + 1\<rparr>) d"
    using disciplinedD [OF assms, of "c\<lparr>depth := depth c + 1\<rparr>"] d tx b by simp
  then show "inside_ok c (snd (transaction body c))"
    using d b by (cases r) (auto simp: transaction_nested inside_ok_def same_faults_def)
qed

lemmas disciplined_intros =
  disciplined_ret disciplined_raise disciplined_lift disciplined_bind disciplined_try
  disciplined_put disciplined_delete disciplined_transaction

text \<open>A connection between transactions, and one that SQLite will not refuse to serve.\<close>

definition clean :: "conn \<Rightarrow> bool" where
  "clean c \<longleftrightarrow> depth c = 0 \<and> \<not> in_tx c \<and> working c = committed c"

definition healthy :: "conn \<Rightarrow> bool" where
  "healthy c \<longleftrightarrow> begin_error c = None \<and> commit_error c = None \<and> rollback_error c = None"

definition entered :: "conn \<Rightarrow> conn" where
  "entered c = c\<lparr>in_tx := True, rollback_only := False, depth := 1\<rparr>"

lemma transaction_outermost:
  assumes "clean c" and "begin_error c = None"
  shows "transaction body c =
     (case body (entered c) of
        (Inl e, d) \<Rightarrow> rollback_after_failure e (d\<lparr>depth := depth d - 1, rollback_only := True\<rparr>)
      | (Inr x, d) \<Rightarrow>
          (if rollback_only d
           then rollback_after_failure SqliteTransactionRollbackOnlyError (d\<lparr>depth := depth d - 1\<rparr>)
           else case db_commit (d\<lparr>depth := depth d - 1\<rparr>) of
             (Inl e, d') \<Rightarrow> rollback_after_failure e d'
           | (Inr _, d') \<Rightarrow> (Inr x, reset_transaction_state d')))"
  using assms
  by (auto simp: transaction_def clean_def db_begin_def entered_def Let_def split: prod.splits sum.splits)

lemma transaction_outcome:
  assumes "clean c" and "begin_error c = None" and "rollback_error c = None" and "disciplined body"
  obtains (commit) x d where "body (entered c) = (Inr x, d)" "\<not> rollback_only d" "commit_error c = None"
      "fst (transaction body c) = Inr x" "clean (snd (transaction body c))"
      "committed (snd (transaction body c)) = working d"
  | (rollback) e where "fst (transaction body c) = Inl e" "clean (snd (transaction body c))"
      "committed (snd (transaction body c)) = committed c"
      "\<forall>x d. body (entered c) = (Inr x, d) \<longrightarrow> rollback_only d \<or> commit_error c \<noteq> None"
proof -
  obtain r d where b: "body (entered c) = (r, d)" by fastforce
  have ok: "inside_ok (entered c) d"
    using disciplinedD [OF assms(4), of "entered c"] b by (simp add: entered_def)
  show ?thesis
  proof (cases r)
    case (Inl e)
    with b ok assms have "fst (transaction body c) = Inl e" "clean (snd (transaction body c))"
      "committed (snd (transaction body c)) = committed c"
      by (simp_all add: transaction_outermost rollback_after_failure_def db_rollback_def
          reset_transaction_state_def clean_def inside_ok_def same_faults_def entered_def)
    with b Inl show ?thesis by (intro rollback) auto
  next
    case (Inr x)
    show ?thesis
    proof (cases "rollback_only d \<or> commit_error c \<noteq> None")
      case True
      with b ok assms Inr have "\<exists>e. fst (transaction body c) = Inl e" "clean (snd (transaction body c))"
        "committed (snd (transaction body c)) = committed c"
        by (auto simp: transaction_outermost rollback_after_failure_def db_rollback_def db_commit_def
            reset_transaction_state_def clean_def inside_ok_def same_faults_def entered_def)
      with b True Inr show ?thesis by (auto intro: rollback)
    next
      case False
      with b ok assms Inr have "fst (transaction body c) = Inr x" "clean (snd (transaction body c))"
        "committed (snd (transaction body c)) = working d"
        by (auto simp: transaction_outermost db_commit_def reset_transaction_state_def clean_def
            inside_ok_def same_faults_def entered_def)
      with b False Inr show ?thesis by (intro commit) auto
    qed
  qed
qed

section \<open>The interface of a transaction\<close>

text \<open>
  What a repository relies on: a transaction that raises leaves the stored content as it was, and
  the store is ready for the next one. An invariant of the content kept by every successful body
  then holds after any sequence of transactions, whichever of them fail.
\<close>

locale all_or_nothing =
  fixes tx :: "('s, 'a) act \<Rightarrow> ('s, 'a) act"
    and db :: "'s \<Rightarrow> 'd"
    and idle :: "'s \<Rightarrow> bool"
    and body_ok :: "('s, 'a) act \<Rightarrow> bool"
  assumes tx_error: "idle s \<Longrightarrow> body_ok m \<Longrightarrow> tx m s = (Inl e, t) \<Longrightarrow> db t = db s"
    and tx_idle: "idle s \<Longrightarrow> body_ok m \<Longrightarrow> tx m s = (r, t) \<Longrightarrow> idle t"
begin

lemma tx_keeps:
  assumes "idle s" and "body_ok m" and "P (db s)"
    and "\<And>x t. tx m s = (Inr x, t) \<Longrightarrow> P (db t)"
  shows "P (db (snd (tx m s)))"
proof (cases "tx m s")
  case (Pair r t)
  with assms show ?thesis by (cases r) (auto dest: tx_error)
qed

lemma tx_sequence_keeps:
  assumes "\<And>m. m \<in> set ms \<Longrightarrow> body_ok m"
    and "\<And>m s x t. m \<in> set ms \<Longrightarrow> idle s \<Longrightarrow> P (db s) \<Longrightarrow> tx m s = (Inr x, t) \<Longrightarrow> P (db t)"
    and "idle s" and "P (db s)"
  shows "P (db (fold (\<lambda>m s. snd (tx m s)) ms s)) \<and> idle (fold (\<lambda>m s. snd (tx m s)) ms s)"
  using assms
proof (induction ms arbitrary: s)
  case (Cons m ms)
  have m: "m \<in> set (m # ms)" by simp
  have "P (db (snd (tx m s)))"
    by (rule tx_keeps [where P = P, OF Cons.prems(3) Cons.prems(1) [OF m] Cons.prems(4)])
      (rule Cons.prems(2) [OF m Cons.prems(3,4)])
  moreover have "idle (snd (tx m s))"
    by (rule tx_idle [OF Cons.prems(3) Cons.prems(1) [OF m]]) (rule prod.collapse [symmetric])
  moreover have "body_ok m'" if "m' \<in> set ms" for m'
    by (rule Cons.prems(1)) (simp add: that)
  moreover have "P (db u)" if "m' \<in> set ms" "idle v" "P (db v)" "tx m' v = (Inr x, u)" for m' v x u
    by (rule Cons.prems(2) [OF _ that(2-4)]) (simp add: that)
  ultimately show ?case by (simp add: Cons.IH)
qed simp

end

interpretation mem_tx: all_or_nothing atomic_act "\<lambda>s. s" "\<lambda>_. True" "\<lambda>_. True"
  by unfold_locales (auto simp: result_simps)

lemma transaction_begin_error:
  "clean c \<Longrightarrow> begin_error c = Some e \<Longrightarrow> transaction body c = (Inl e, c)"
  by (simp add: transaction_def clean_def db_begin_def)

lemma transaction_same_faults:
  assumes "clean c" and "disciplined body"
  shows "same_faults c (snd (transaction body c))"
proof (cases "begin_error c")
  case None
  obtain r d where b: "body (entered c) = (r, d)" by fastforce
  have "inside_ok (entered c) d"
    using disciplinedD [OF assms(2), of "entered c"] b by (simp add: entered_def)
  then show ?thesis
    using assms(1) None b
    by (auto simp: transaction_outermost rollback_after_failure_def db_rollback_def db_commit_def
        reset_transaction_state_def inside_ok_def same_faults_def entered_def
        split: sum.splits prod.splits option.splits)
next
  case (Some e)
  with assms(1) show ?thesis by (simp add: transaction_begin_error same_faults_def)
qed

interpretation sql_tx: all_or_nothing transaction committed
  "\<lambda>c. clean c \<and> rollback_error c = None" disciplined
proof unfold_locales
  fix c :: conn and m :: "(conn, 'a) act" and e t
  assume c: "clean c \<and> rollback_error c = None" and m: "disciplined m" and r: "transaction m c = (Inl e, t)"
  show "committed t = committed c"
  proof (cases "begin_error c")
    case None
    show ?thesis
      by (rule transaction_outcome [of c m]) (use c m None r in auto)
  next
    case (Some e)
    with c r show ?thesis by (simp add: transaction_begin_error)
  qed
next
  fix c :: conn and m :: "(conn, 'a) act" and r t
  assume c: "clean c \<and> rollback_error c = None" and m: "disciplined m" and r: "transaction m c = (r, t)"
  have "rollback_error t = None"
    using transaction_same_faults [of c m] c m r by (simp add: same_faults_def)
  moreover have "clean t"
  proof (cases "begin_error c")
    case None
    show ?thesis
      by (rule transaction_outcome [of c m]) (use c m None r in auto)
  next
    case (Some e)
    with c r show ?thesis by (simp add: transaction_begin_error)
  qed
  ultimately show "clean t \<and> rollback_error t = None" by simp
qed

section \<open>Refinement: the repositories' view of the tables\<close>

text \<open>
  The repositories below are modelled over the tables alone, with \<open>atomic_act\<close> for the backend's
  transaction. \<open>implements\<close> relates an operation on the connection to one on the tables.
\<close>

definition tab_get :: "string \<Rightarrow> string \<Rightarrow> (tables, pydict option) act" where
  "tab_get name key = lift_act (\<lambda>t. coll_get (t name) key)"

definition tab_list :: "string \<Rightarrow> (tables, pydict list) act" where
  "tab_list name = lift_act (\<lambda>t. Inr (coll_list (t name)))"

definition tab_find :: "string \<Rightarrow> (string \<times> string) list \<Rightarrow> (tables, pydict list) act" where
  "tab_find name filters t = (Inr (coll_find filters (t name)), t)"

definition tab_put :: "string \<Rightarrow> string \<Rightarrow> pydict \<Rightarrow> (tables, unit) act" where
  "tab_put name key value t =
     (case coll_put key value (t name) of
        Inl e \<Rightarrow> (Inl e, t)
      | Inr rows \<Rightarrow> (Inr (), t(name := rows)))"

definition tab_delete :: "string \<Rightarrow> string \<Rightarrow> (tables, unit) act" where
  "tab_delete name key = modify_act (\<lambda>t. t(name := coll_delete key (t name)))"

definition implements :: "(conn, 'a) act \<Rightarrow> (tables, 'a) act \<Rightarrow> bool" where
  "implements m a \<longleftrightarrow> disciplined m \<and>
     (\<forall>c. 1 \<le> depth c \<longrightarrow> in_tx c \<longrightarrow> \<not> rollback_only c \<longrightarrow>
        fst (m c) = fst (a (working c)) \<and> working (snd (m c)) = snd (a (working c)) \<and>
        (rollback_only (snd (m c)) \<longrightarrow> isl (fst (m c))))"

lemma implements_disciplined: "implements m a \<Longrightarrow> disciplined m"
  by (simp add: implements_def)

lemma implementsD:
  assumes "implements m a" and "1 \<le> depth c" and "in_tx c" and "\<not> rollback_only c"
  shows "fst (m c) = fst (a (working c))" and "working (snd (m c)) = snd (a (working c))"
    and "rollback_only (snd (m c)) \<Longrightarrow> isl (fst (m c))"
  using assms unfolding implements_def by blast+

lemma implements_ret: "implements (ret_act x) (ret_act x)"
  and implements_raise: "implements (raise_act e) (raise_act e)"
  and implements_lift: "implements (lift_act (\<lambda>_. r)) (lift_act (\<lambda>_. r))"
  and implements_get: "implements (sqlite_get name key) (tab_get name key)"
  and implements_list: "implements (sqlite_list name) (tab_list name)"
  by (simp_all add: implements_def disciplined_intros sqlite_get_def tab_get_def sqlite_list_def tab_list_def)

lemma implements_put: "implements (sqlite_put name key value) (tab_put name key value)"
  by (auto simp: implements_def disciplined_put sqlite_put_def tab_put_def commit_if_standalone_def
      split: sum.splits)

lemma implements_delete: "implements (sqlite_delete name key) (tab_delete name key)"
  by (auto simp: implements_def disciplined_delete sqlite_delete_def tab_delete_def commit_if_standalone_def)

lemma implements_bind:
  assumes m: "implements m a" and f: "\<And>x. implements (f x) (g x)"
  shows "implements (bind_act m f) (bind_act a g)"
proof -
  have "fst (bind_act m f c) = fst (bind_act a g (working c)) \<and>
    working (snd (bind_act m f c)) = snd (bind_act a g (working c)) \<and>
    (rollback_only (snd (bind_act m f c)) \<longrightarrow> isl (fst (bind_act m f c)))"
    if c: "1 \<le> depth c" "in_tx c" "\<not> rollback_only c" for c
  proof -
    obtain r d where md: "m c = (r, d)" by fastforce
    have a: "a (working c) = (r, working d)"
      using implementsD(1,2) [OF m c] md by (metis fst_conv snd_conv prod.collapse)
    have ok: "inside_ok c d"
      using disciplinedD [OF implements_disciplined [OF m] c(1,2)] md by simp
    show ?thesis
    proof (cases r)
      case (Inl e)
      with md a show ?thesis by (simp add: bind_act_def)
    next
      case (Inr x)
      have "1 \<le> depth d" "in_tx d" "\<not> rollback_only d"
        using ok c implementsD(3) [OF m c] md Inr by (auto simp: inside_ok_def)
      note i = implementsD [OF f this]
      show ?thesis using i [of x] md a Inr by (simp add: bind_act_def)
    qed
  qed
  then show ?thesis
    unfolding implements_def
    by (intro conjI disciplined_bind implements_disciplined [OF m] implements_disciplined [OF f]) blast
qed

lemma implements_nested:
  assumes m: "implements m a"
  shows "implements (transaction m) a"
proof -
  have "fst (transaction m c) = fst (a (working c)) \<and>
    working (snd (transaction m c)) = snd (a (working c)) \<and>
    (rollback_only (snd (transaction m c)) \<longrightarrow> isl (fst (transaction m c)))"
    if c: "1 \<le> depth c" "in_tx c" "\<not> rollback_only c" for c
  proof -
    let ?c = "c\<lparr>depth := depth c + 1\<rparr>"
    have c': "1 \<le> depth ?c" "in_tx ?c" "\<not> rollback_only ?c" using c by simp_all
    obtain r d where md: "m ?c = (r, d)" by fastforce
    have a: "a (working c) = (r, working d)"
      using implementsD(1,2) [OF m c'] md by (simp add: prod_eq_iff)
    have "rollback_only d \<Longrightarrow> isl r" using implementsD(3) [OF m c'] md by simp
    with a md c show ?thesis by (cases r) (auto simp: transaction_nested)
  qed
  then show ?thesis
    unfolding implements_def
    by (intro conjI disciplined_transaction implements_disciplined [OF m]) blast
qed

lemmas implements_intros =
  implements_ret implements_raise implements_lift implements_get implements_list implements_put implements_delete
  implements_bind implements_nested

lemma transaction_refines_atomic:
  assumes "clean c" and "healthy c" and m: "implements m a"
  shows "(fst (transaction m c), committed (snd (transaction m c))) = atomic_act a (committed c)"
proof -
  have h: "begin_error c = None" "commit_error c = None" "rollback_error c = None"
    using assms(2) by (simp_all add: healthy_def)
  obtain r d where md: "m (entered c) = (r, d)" by fastforce
  have e: "1 \<le> depth (entered c)" "in_tx (entered c)" "\<not> rollback_only (entered c)"
    "working (entered c) = committed c"
    using assms(1) by (simp_all add: entered_def clean_def)
  have a: "a (committed c) = (r, working d)" and nr: "rollback_only d \<Longrightarrow> isl r"
    using implementsD [OF m e(1,2,3)] md e(4) by (simp_all add: prod_eq_iff)
  have ok: "inside_ok (entered c) d"
    using disciplinedD [OF implements_disciplined [OF m] e(1,2)] md by simp
  show ?thesis
    using assms(1) h a nr md ok
    by (cases r) (auto simp: atomic_act_def transaction_outermost rollback_after_failure_def
        db_rollback_def db_commit_def reset_transaction_state_def inside_ok_def same_faults_def
        clean_def entered_def split: option.splits)
qed

section \<open>The interface of a keyed store\<close>

locale keyed_store =
  fixes lookup :: "'s \<Rightarrow> string \<Rightarrow> 'v option"
    and upsert :: "string \<Rightarrow> 'v \<Rightarrow> 's \<Rightarrow> 's"
    and remove :: "string \<Rightarrow> 's \<Rightarrow> 's"
    and wf :: "'s \<Rightarrow> bool"
  assumes lookup_upsert: "wf s \<Longrightarrow> lookup (upsert key v s) = (lookup s)(key \<mapsto> v)"
    and lookup_remove: "wf s \<Longrightarrow> lookup (remove key s) = (lookup s)(key := None)"
    and wf_upsert: "wf s \<Longrightarrow> wf (upsert key v s)"
    and wf_remove: "wf s \<Longrightarrow> wf (remove key s)"
begin

lemma every_upsert:
  assumes "wf s" and "\<And>k x. lookup s k = Some x \<Longrightarrow> P k x" and "P key v"
  shows "\<forall>k x. lookup (upsert key v s) k = Some x \<longrightarrow> P k x"
  using assms by (simp add: lookup_upsert)

lemma every_remove:
  assumes "wf s" and "\<And>k x. lookup s k = Some x \<Longrightarrow> P k x"
  shows "\<forall>k x. lookup (remove key s) k = Some x \<longrightarrow> P k x"
  using assms by (simp add: lookup_remove)

end

interpretation tbl: keyed_store map_of row_put row_del rows_ok
  by unfold_locales (simp_all add: row_get_put row_get_del)

section \<open>The interface of a record codec\<close>

text \<open>
  A domain record is written under its key as \<open>to_wire\<close> gives it and read back through
  \<open>from_wire\<close>. \<open>stored_ok\<close> says that every row of a collection was written from a valid record.
\<close>

definition load :: "(pydict \<Rightarrow> 'r result) \<Rightarrow> coll \<Rightarrow> string \<Rightarrow> 'r option result" where
  "load from_wire c key =
     bindE (coll_get c key) (\<lambda>w. case w of
        None \<Rightarrow> Inr None
      | Some w \<Rightarrow> bindE (from_wire w) (\<lambda>x. Inr (Some x)))"

definition stored_ok :: "('r \<Rightarrow> pydict) \<Rightarrow> ('r \<Rightarrow> string) \<Rightarrow> ('r \<Rightarrow> bool) \<Rightarrow> coll \<Rightarrow> bool" where
  "stored_ok to_wire key_of valid c \<longleftrightarrow> rows_ok c \<and>
     (\<forall>key p. map_of c key = Some p \<longrightarrow>
        (\<exists>x. valid x \<and> key_of x = key \<and> p = payload_of (to_wire x)))"

definition stored_records :: "(pydict \<Rightarrow> 'r result) \<Rightarrow> coll \<Rightarrow> 'r list" where
  "stored_records from_wire c = map (\<lambda>(key, p). projr (from_wire ((''id'', PStr key) # p))) c"

definition view :: "(pydict \<Rightarrow> 'r result) \<Rightarrow> coll \<Rightarrow> string \<Rightarrow> 'r option" where
  "view from_wire c key = (case load from_wire c key of Inr r \<Rightarrow> r | Inl _ \<Rightarrow> None)"

text \<open>An operation on one collection leaves the others alone.\<close>

lemma tab_frame:
  "always (\<lambda>t. t c = v) (tab_get name key) (\<lambda>_. True)"
  "always (\<lambda>t. t c = v) (tab_list name) (\<lambda>_. True)"
  "c \<noteq> name \<Longrightarrow> always (\<lambda>t. t c = v) (tab_put name key w) (\<lambda>_. True)"
  "c \<noteq> name \<Longrightarrow> always (\<lambda>t. t c = v) (tab_delete name key) (\<lambda>_. True)"
  by (auto simp: always_def tab_get_def tab_list_def tab_put_def tab_delete_def split: sum.splits)

text \<open>
  The three ways the repositories touch their collection. They reach it through the backend's
  interface, so the primitive \<open>get\<close>, \<open>list\<close> and \<open>put\<close> are arguments: with the \<open>tab_\<close> operations they
  run over the tables, with the \<open>sqlite_\<close> operations on the connection.
\<close>

definition repo_find ::
  "('s, pydict option) act \<Rightarrow> (pydict \<Rightarrow> 'r result) \<Rightarrow> ('s, 'r option) act" where
  "repo_find get from_wire =
     bind_act get (\<lambda>w. case w of
        None \<Rightarrow> ret_act None
      | Some w \<Rightarrow> lift_act (\<lambda>_. bindE (from_wire w) (\<lambda>x. Inr (Some x))))"

definition repo_get ::
  "('s, pydict option) act \<Rightarrow> (pydict \<Rightarrow> 'r result) \<Rightarrow> exn \<Rightarrow> ('s, 'r) act" where
  "repo_get get from_wire missing =
     bind_act get (\<lambda>w. case w of
        None \<Rightarrow> raise_act missing
      | Some w \<Rightarrow> lift_act (\<lambda>_. from_wire w))"

definition repo_list ::
  "('s, pydict list) act \<Rightarrow> (pydict \<Rightarrow> 'r result) \<Rightarrow> ('r \<Rightarrow> bool) \<Rightarrow> ('s, 'r list) act" where
  "repo_list scan from_wire keep =
     bind_act scan (\<lambda>ws. lift_act (\<lambda>_. bindE (decode_all from_wire ws) (\<lambda>xs. Inr (filter keep xs))))"

lemma repo_frame:
  "always (\<lambda>t. t c = v) (repo_find (tab_get name key) from_wire) (\<lambda>_. True)"
  "always (\<lambda>t. t c = v) (repo_get (tab_get name key) from_wire missing) (\<lambda>_. True)"
  "always (\<lambda>t. t c = v) (repo_list (tab_list name) from_wire keep) (\<lambda>_. True)"
  by (auto simp: repo_find_def repo_get_def repo_list_def intro!: always_bind [OF tab_frame(1)]
      always_bind [OF tab_frame(2)] always_intros always_lift split: option.splits)

lemmas wire_simps = dict_get_def read_string_def read_optional_string_def payload_of_def

lemma payload_no_id [simp]: "''id'' \<notin> fst ` set (payload_of w)"
  by (auto simp: payload_of_def)

lemma coll_decode_payload [simp]:
  "key \<noteq> '''' \<Longrightarrow> coll_decode (key, payload_of w) = Inr ((''id'', PStr key) # payload_of w)"
  by (simp add: coll_decode_def)

lemma stored_ok_Nil [simp]: "stored_ok to_wire key_of valid []"
  by (simp add: stored_ok_def)

locale record_codec =
  fixes to_wire :: "'r \<Rightarrow> pydict"
    and from_wire :: "pydict \<Rightarrow> 'r result"
    and key_of :: "'r \<Rightarrow> string"
    and valid :: "'r \<Rightarrow> bool"
  assumes key_nonempty: "valid x \<Longrightarrow> key_of x \<noteq> ''''"
    and wire_plain: "valid x \<Longrightarrow> json_dict (to_wire x)"
    and wire_id: "valid x \<Longrightarrow> dict_get (to_wire x) ''id'' \<in> {PNone, PStr (key_of x)}"
    and reload: "valid x \<Longrightarrow> from_wire ((''id'', PStr (key_of x)) # payload_of (to_wire x)) = Inr x"
begin

lemma put_row:
  assumes "valid x"
  shows "coll_put (key_of x) (to_wire x) c = Inr (row_put (key_of x) (payload_of (to_wire x)) c)"
proof -
  have "json_plain (PDict (to_wire x))" using wire_plain [OF assms] by (simp add: json_dict_def)
  from freeze_plain [OF this] obtain f where "freeze (PDict (to_wire x)) = Inr f" "thaw f = PDict (to_wire x)"
    by blast
  moreover have "raise_if (dict_get (to_wire x) ''id'' \<noteq> PNone \<and> dict_get (to_wire x) ''id'' \<noteq> PStr (key_of x))
      (ValueError ''storage record id must be a string matching its key'') = Inr ()"
    using wire_id [OF assms] by (auto simp: raise_if_def)
  ultimately show ?thesis by (simp add: coll_put_def del: freeze.simps)
qed

lemma stored_put:
  assumes "stored_ok to_wire key_of valid c" and "valid x"
  shows "stored_ok to_wire key_of valid (row_put (key_of x) (payload_of (to_wire x)) c)"
  using assms by (auto simp: stored_ok_def tbl.lookup_upsert)

lemma stored_delete:
  "stored_ok to_wire key_of valid c \<Longrightarrow> stored_ok to_wire key_of valid (coll_delete key c)"
  by (auto simp: stored_ok_def coll_delete_def tbl.lookup_remove)

lemma load_row:
  assumes "stored_ok to_wire key_of valid c" and "map_of c key = Some p"
  obtains x where "valid x" "key_of x = key" "p = payload_of (to_wire x)"
    "load from_wire c key = Inr (Some x)"
proof -
  from assms obtain x where x: "valid x" "key_of x = key" "p = payload_of (to_wire x)"
    by (auto simp: stored_ok_def)
  then have "load from_wire c key = Inr (Some x)"
    using assms(2) reload [of x] key_nonempty [of x] by (auto simp: load_def coll_get_def)
  with x show ?thesis by (rule that)
qed

lemma load_cases:
  assumes "stored_ok to_wire key_of valid c"
  obtains (missing) "map_of c key = None" "load from_wire c key = Inr None"
  | (found) x where "valid x" "key_of x = key" "map_of c key = Some (payload_of (to_wire x))"
      "load from_wire c key = Inr (Some x)"
proof (cases "map_of c key")
  case None
  then show ?thesis by (intro missing) (simp_all add: load_def coll_get_def)
next
  case (Some p)
  from load_row [OF assms Some] Some show ?thesis by (metis found)
qed

lemma load_put:
  assumes "stored_ok to_wire key_of valid c" and "valid x"
  shows "load from_wire (row_put (key_of x) (payload_of (to_wire x)) c) key =
    (if key = key_of x then Inr (Some x) else load from_wire c key)"
  using assms reload [of x] key_nonempty [of x]
  by (simp add: load_def coll_get_def tbl.lookup_upsert stored_ok_def)

lemma load_delete:
  "load from_wire (coll_delete key' c) key = (if key = key' then Inr None else load from_wire c key)"
  by (simp add: load_def coll_get_def coll_delete_def row_get_del)

lemma list_stored:
  assumes "stored_ok to_wire key_of valid c"
  shows "decode_all from_wire (coll_list c) = Inr (stored_records from_wire c)"
    and "map key_of (stored_records from_wire c) = map fst c"
    and "\<forall>x \<in> set (stored_records from_wire c). valid x"
proof -
  have "\<forall>r \<in> set c. \<exists>x. valid x \<and> key_of x = fst r \<and> snd r = payload_of (to_wire x)"
    using assms by (force simp: stored_ok_def rows_ok_mem)
  then have "decode_all from_wire (coll_list c) = Inr (stored_records from_wire c)
    \<and> map key_of (stored_records from_wire c) = map fst c
    \<and> (\<forall>x \<in> set (stored_records from_wire c). valid x)"
  proof (induction c)
    case Nil
    then show ?case by (simp add: stored_records_def)
  next
    case (Cons r c)
    then obtain x where x: "valid x" "r = (key_of x, payload_of (to_wire x))"
      by (metis list.set_intros(1) prod.collapse)
    with Cons reload [OF x(1)] key_nonempty [OF x(1)] show ?case
      by (simp add: stored_records_def decode_observed_record_def)
  qed
  then show "decode_all from_wire (coll_list c) = Inr (stored_records from_wire c)"
    and "map key_of (stored_records from_wire c) = map fst c"
    and "\<forall>x \<in> set (stored_records from_wire c). valid x"
    by blast+
qed

lemma list_stored_strict:
  assumes "stored_ok to_wire key_of valid c"
  shows "mapE from_wire (coll_list c) = Inr (stored_records from_wire c)"
proof -
  have "\<forall>r \<in> set c. \<exists>x. valid x \<and> key_of x = fst r \<and> snd r = payload_of (to_wire x)"
    using assms by (force simp: stored_ok_def rows_ok_mem)
  then show ?thesis
  proof (induction c)
    case Nil
    then show ?case by (simp add: stored_records_def)
  next
    case (Cons r c)
    then obtain x where x: "valid x" "r = (key_of x, payload_of (to_wire x))"
      by (metis list.set_intros(1) prod.collapse)
    with Cons reload [OF x(1)] key_nonempty [OF x(1)] show ?case by (simp add: stored_records_def)
  qed
qed

lemma mem_stored_records:
  assumes c: "stored_ok to_wire key_of valid c"
  shows "x \<in> set (stored_records from_wire c) \<longleftrightarrow> load from_wire c (key_of x) = Inr (Some x)"
proof
  assume "x \<in> set (stored_records from_wire c)"
  then obtain key p where r: "(key, p) \<in> set c" "x = projr (from_wire ((''id'', PStr key) # p))"
    by (auto simp: stored_records_def)
  then have "map_of c key = Some p" using c by (simp add: stored_ok_def rows_ok_mem)
  from load_row [OF c this] r reload show "load from_wire c (key_of x) = Inr (Some x)"
    by (metis sum.sel(2))
next
  assume l: "load from_wire c (key_of x) = Inr (Some x)"
  show "x \<in> set (stored_records from_wire c)"
  proof (rule load_cases [OF c, of "key_of x"])
    fix y
    assume y: "valid y" "key_of y = key_of x" "map_of c (key_of x) = Some (payload_of (to_wire y))"
      "load from_wire c (key_of x) = Inr (Some y)"
    from l y(4) have x: "x = y" by simp
    have "(key_of y, payload_of (to_wire y)) \<in> set c"
      using y(3) x by (simp add: map_of_SomeD)
    then have "(\<lambda>(key, p). projr (from_wire ((''id'', PStr key) # p))) (key_of y, payload_of (to_wire y)) \<in>
        set (stored_records from_wire c)"
      unfolding stored_records_def set_map by (rule imageI)
    then show ?thesis by (simp add: reload [OF y(1)] x)
  qed (use l in simp)
qed

lemma load_view:
  assumes "stored_ok to_wire key_of valid c"
  shows "load from_wire c key = Inr (view from_wire c key)"
  using assms by (rule load_cases [of c key]) (simp_all add: view_def)

lemma view_valid:
  assumes "stored_ok to_wire key_of valid c" and "view from_wire c key = Some x"
  shows "valid x \<and> key_of x = key"
  using assms(1) by (rule load_cases [of c key]) (use assms(2) in \<open>simp_all add: view_def\<close>)

lemma view_put:
  assumes "stored_ok to_wire key_of valid c" and "valid x"
  shows "view from_wire (row_put (key_of x) (payload_of (to_wire x)) c) = (view from_wire c)(key_of x \<mapsto> x)"
  using load_put [OF assms] by (auto simp: view_def fun_eq_iff)

lemma view_delete: "view from_wire (coll_delete key c) = (view from_wire c)(key := None)"
  by (auto simp: view_def fun_eq_iff load_delete)

lemma mem_view:
  assumes "stored_ok to_wire key_of valid c"
  shows "x \<in> set (stored_records from_wire c) \<longleftrightarrow> view from_wire c (key_of x) = Some x"
  using mem_stored_records [OF assms] load_view [OF assms] by simp

lemma ran_view:
  assumes "stored_ok to_wire key_of valid c"
  shows "set (stored_records from_wire c) = ran (view from_wire c)"
  using mem_view [OF assms] view_valid [OF assms] by (auto simp: ran_def)

lemma view_inject:
  assumes "stored_ok to_wire key_of valid c" and "x \<in> ran (view from_wire c)" and "y \<in> ran (view from_wire c)"
    and "key_of x = key_of y"
  shows "x = y"
  using view_valid [OF assms(1)] assms(2-) by (fastforce simp: ran_def)

text \<open>The same facts for the operations of a repository over the tables.\<close>

definition repo_stored :: "string \<Rightarrow> tables \<Rightarrow> bool" where
  "repo_stored name t \<longleftrightarrow> stored_ok to_wire key_of valid (t name)"

definition repo_view :: "string \<Rightarrow> tables \<Rightarrow> string \<Rightarrow> 'r option" where
  "repo_view name t = view from_wire (t name)"

lemma repo_stored_empty [simp]: "t name = [] \<Longrightarrow> repo_stored name t"
  by (simp add: repo_stored_def)

lemma repo_view_empty [simp]: "t name = [] \<Longrightarrow> repo_view name t = Map.empty"
  by (simp add: repo_view_def view_def load_def coll_get_def fun_eq_iff)

lemma repo_stored_cong: "t' name = t name \<Longrightarrow> repo_stored name t' = repo_stored name t"
  and repo_view_cong: "t' name = t name \<Longrightarrow> repo_view name t' = repo_view name t"
  by (simp_all add: repo_stored_def repo_view_def)

lemma repo_view_valid:
  "repo_stored name t \<Longrightarrow> repo_view name t key = Some x \<Longrightarrow> valid x \<and> key_of x = key"
  unfolding repo_stored_def repo_view_def by (rule view_valid)

lemma repo_raw_view:
  assumes "repo_stored name t"
  shows "tab_get name key t =
    (Inr (map_option (\<lambda>x. (''id'', PStr key) # payload_of (to_wire x)) (repo_view name t key)), t)"
proof (rule load_cases [OF assms [unfolded repo_stored_def], of key])
  assume "map_of (t name) key = None" "load from_wire (t name) key = Inr None"
  then show ?thesis by (simp add: tab_get_def coll_get_def repo_view_def view_def)
next
  fix x
  assume "valid x" "key_of x = key" "map_of (t name) key = Some (payload_of (to_wire x))"
    "load from_wire (t name) key = Inr (Some x)"
  then show ?thesis using key_nonempty [of x] by (simp add: tab_get_def coll_get_def repo_view_def view_def)
qed

lemma raw_inject:
  assumes "repo_stored name t" and "repo_stored name u"
  shows "map_option (\<lambda>x. (''id'', PStr key) # payload_of (to_wire x)) (repo_view name t key) =
      map_option (\<lambda>x. (''id'', PStr key) # payload_of (to_wire x)) (repo_view name u key)
    \<longleftrightarrow> repo_view name t key = repo_view name u key"
proof
  assume eq: "map_option (\<lambda>x. (''id'', PStr key) # payload_of (to_wire x)) (repo_view name t key) =
      map_option (\<lambda>x. (''id'', PStr key) # payload_of (to_wire x)) (repo_view name u key)"
  show "repo_view name t key = repo_view name u key"
  proof (cases "repo_view name t key")
    case None
    with eq show ?thesis by simp
  next
    case (Some x)
    with eq [symmetric] obtain y where y: "repo_view name u key = Some y" "payload_of (to_wire x) = payload_of (to_wire y)"
      by auto
    have "valid x" "valid y" "key_of x = key" "key_of y = key"
      using repo_view_valid [OF assms(1) Some] repo_view_valid [OF assms(2) y(1)] by simp_all
    with reload [of x] reload [of y] y(2) Some y(1) show ?thesis by simp
  qed
qed simp

lemma repo_find_view:
  assumes "repo_stored name t"
  shows "repo_find (tab_get name key) from_wire t = (Inr (repo_view name t key), t)"
  using load_view [OF assms [unfolded repo_stored_def], of key]
  by (auto simp: repo_find_def bind_act_def tab_get_def load_def repo_view_def result_simps
      split: sum.splits option.splits)

lemma repo_get_view:
  assumes "repo_stored name t"
  shows "repo_get (tab_get name key) from_wire missing t =
    (case repo_view name t key of None \<Rightarrow> (Inl missing, t) | Some x \<Rightarrow> (Inr x, t))"
  using load_view [OF assms [unfolded repo_stored_def], of key]
  by (auto simp: repo_get_def bind_act_def tab_get_def load_def repo_view_def result_simps
      split: sum.splits option.splits)

lemma repo_list_stored:
  assumes "repo_stored name t"
  shows "repo_list (tab_list name) from_wire keep t =
    (Inr (filter keep (stored_records from_wire (t name))), t)"
  using list_stored(1) [OF assms [unfolded repo_stored_def]]
  by (simp add: repo_list_def bind_act_def tab_list_def)

lemma set_repo_list:
  "repo_stored name t \<Longrightarrow> set (stored_records from_wire (t name)) = ran (repo_view name t)"
  unfolding repo_stored_def repo_view_def by (rule ran_view)

lemma repo_list_keys:
  "repo_stored name t \<Longrightarrow> map key_of (stored_records from_wire (t name)) = map fst (t name)"
  unfolding repo_stored_def by (rule list_stored(2))

lemma repo_put:
  assumes "repo_stored name t" and "valid x"
  obtains t' where "tab_put name (key_of x) (to_wire x) t = (Inr (), t')" "repo_stored name t'"
    "repo_view name t' = (repo_view name t)(key_of x \<mapsto> x)" "\<And>c. c \<noteq> name \<Longrightarrow> t' c = t c"
  using assms put_row [OF assms(2)] stored_put [OF _ assms(2)] view_put [OF _ assms(2)]
  by (intro that [of "t(name := row_put (key_of x) (payload_of (to_wire x)) (t name))"])
    (simp_all add: tab_put_def repo_stored_def repo_view_def)

lemma repo_delete:
  assumes "repo_stored name t"
  obtains t' where "tab_delete name key t = (Inr (), t')" "repo_stored name t'"
    "repo_view name t' = (repo_view name t)(key := None)" "\<And>c. c \<noteq> name \<Longrightarrow> t' c = t c"
  using assms
  by (intro that [of "t(name := coll_delete key (t name))"])
    (simp_all add: tab_delete_def repo_stored_def repo_view_def stored_delete view_delete)

end

end
