(* ===== verification/InboxStore.thy ===== *)
theory InboxStore
  imports SqliteStore
begin

text \<open>
  The Inbox: the item record and its wire codec (\<open>inbox/model.py\<close>) and the service over the
  \<open>inbox_items\<close> collection (\<open>inbox/service.py\<close>), with its abstract specification as a finite map
  from identifiers to items.
\<close>

section \<open>Items and their codec\<close>

datatype InboxStatus = InboxPending | InboxRead | InboxDismissed | InboxResolved

datatype InboxClearStatus = ClearDismissed | ClearResolved | AllTerminal

record InboxItem =
  inbox_id :: string
  inbox_title :: string
  inbox_body :: string
  inbox_kind :: string
  inbox_source_id :: string
  inbox_status :: InboxStatus
  inbox_idempotency_key :: string
  inbox_deep_link :: "string option"
  inbox_created_at :: string
  inbox_updated_at :: string
  inbox_context :: RuntimeContext

fun inbox_status_str :: "InboxStatus \<Rightarrow> string" where
  "inbox_status_str InboxPending = ''pending''"
| "inbox_status_str InboxRead = ''read''"
| "inbox_status_str InboxDismissed = ''dismissed''"
| "inbox_status_str InboxResolved = ''resolved''"

definition inbox_status_of :: "string \<Rightarrow> InboxStatus result" where
  "inbox_status_of s =
     (if s = ''pending'' then Inr InboxPending else if s = ''read'' then Inr InboxRead
      else if s = ''dismissed'' then Inr InboxDismissed else if s = ''resolved'' then Inr InboxResolved
      else Inl (ValueError ''unsupported Inbox status''))"

lemma inbox_status_roundtrip [simp]: "inbox_status_of (inbox_status_str s) = Inr s"
  by (cases s) (simp_all add: inbox_status_of_def)

text \<open>\<open>__post_init__\<close>, which every construction and every \<open>replace\<close> runs.\<close>

definition make_inbox_item :: "iso_parser \<Rightarrow> InboxItem \<Rightarrow> InboxItem result" where
  "make_inbox_item fromiso x =
     (if inbox_id x = '''' \<or> inbox_kind x = '''' \<or> inbox_source_id x = '''' \<or> inbox_title x = ''''
         \<or> inbox_idempotency_key x = ''''
      then Inl (ValueError ''Inbox field must be non-empty'')
      else bindE (aware fromiso (inbox_created_at x)) (\<lambda>_.
           bindE (aware fromiso (inbox_updated_at x)) (\<lambda>_. Inr x)))"

definition inbox_valid :: "iso_parser \<Rightarrow> InboxItem \<Rightarrow> bool" where
  "inbox_valid fromiso x \<longleftrightarrow>
     inbox_id x \<noteq> '''' \<and> inbox_kind x \<noteq> '''' \<and> inbox_source_id x \<noteq> '''' \<and> inbox_title x \<noteq> ''''
     \<and> inbox_idempotency_key x \<noteq> '''' \<and> is_aware fromiso (inbox_created_at x)
     \<and> is_aware fromiso (inbox_updated_at x) \<and> context_valid (inbox_context x)"

lemma make_inbox_item_valid [simp]: "inbox_valid fromiso x \<Longrightarrow> make_inbox_item fromiso x = Inr x"
  by (simp add: make_inbox_item_def inbox_valid_def)

lemma make_inbox_item_Inr:
  "make_inbox_item fromiso x = Inr y \<Longrightarrow> context_valid (inbox_context x) \<Longrightarrow> y = x \<and> inbox_valid fromiso x"
  by (auto simp: make_inbox_item_def inbox_valid_def result_simps split: if_splits)

definition inbox_to_wire :: "InboxItem \<Rightarrow> pydict" where
  "inbox_to_wire x =
     [(''id'', PStr (inbox_id x)), (''kind'', PStr (inbox_kind x)), (''source_id'', PStr (inbox_source_id x)),
      (''title'', PStr (inbox_title x)), (''body'', PStr (inbox_body x)),
      (''status'', PStr (inbox_status_str (inbox_status x))),
      (''idempotency_key'', PStr (inbox_idempotency_key x)), (''created_at'', PStr (inbox_created_at x)),
      (''updated_at'', PStr (inbox_updated_at x)), (''context'', PDict (context_to_record (inbox_context x)))]
     @ (case inbox_deep_link x of None \<Rightarrow> [] | Some link \<Rightarrow> [(''deep_link'', PStr link)])"

definition inbox_from_wire :: "iso_parser \<Rightarrow> pydict \<Rightarrow> InboxItem result" where
  "inbox_from_wire fromiso w =
     (let context = (case dget w ''context'' of None \<Rightarrow> PDict [] | Some v \<Rightarrow> v) in
      bindE (case context of PDict _ \<Rightarrow> Inr () | PProxy _ \<Rightarrow> Inr () | PIntMap _ \<Rightarrow> Inr ()
             | _ \<Rightarrow> Inl (TypeError ''field context must be an object'')) (\<lambda>_.
      bindE (read_string w ''status'') (\<lambda>status.
      bindE (inbox_status_of status) (\<lambda>status.
      bindE (read_optional_string w ''deep_link'') (\<lambda>deep_link.
      bindE (read_string w ''id'') (\<lambda>iid.
      bindE (read_string w ''kind'') (\<lambda>kind.
      bindE (read_string w ''source_id'') (\<lambda>source_id.
      bindE (read_string w ''title'') (\<lambda>title.
      bindE (read_string w ''body'') (\<lambda>body.
      bindE (read_string w ''idempotency_key'') (\<lambda>key.
      bindE (read_string w ''created_at'') (\<lambda>created_at.
      bindE (read_string w ''updated_at'') (\<lambda>updated_at.
      bindE (context_of_wire (TypeError ''field context must be an object'') context) (\<lambda>ctx.
        make_inbox_item fromiso
          \<lparr>inbox_id = iid, inbox_title = title, inbox_body = body, inbox_kind = kind,
           inbox_source_id = source_id, inbox_status = status, inbox_idempotency_key = key,
           inbox_deep_link = deep_link, inbox_created_at = created_at, inbox_updated_at = updated_at,
           inbox_context = ctx\<rparr>))))))))))))))"

lemma inbox_reload:
  assumes "inbox_valid fromiso x"
  shows "inbox_from_wire fromiso ((''id'', PStr (inbox_id x)) # payload_of (inbox_to_wire x)) = Inr x"
proof -
  have c: "context_valid (inbox_context x)" using assms by (simp add: inbox_valid_def)
  show ?thesis
    using assms c by (cases x; cases "inbox_deep_link x") (simp_all add: inbox_from_wire_def inbox_to_wire_def wire_simps)
qed

interpretation inbox: record_codec inbox_to_wire "inbox_from_wire fromiso" inbox_id "inbox_valid fromiso"
  for fromiso
proof unfold_locales
  fix x
  assume x: "inbox_valid fromiso x"
  show "inbox_id x \<noteq> ''''" using x by (simp add: inbox_valid_def)
  show "json_dict (inbox_to_wire x)"
    by (simp add: json_dict_def inbox_to_wire_def context_to_record_def split: option.splits)
  show "dict_get (inbox_to_wire x) ''id'' \<in> {PNone, PStr (inbox_id x)}"
    by (simp add: inbox_to_wire_def wire_simps)
  show "inbox_from_wire fromiso ((''id'', PStr (inbox_id x)) # payload_of (inbox_to_wire x)) = Inr x"
    using x by (rule inbox_reload)
qed


section \<open>The service\<close>

text \<open>
  The code reaches its collection through the backend's interface; \<open>add\<close>, which the refinement at
  the end of this theory runs on a connection, takes the scan and the put as arguments.
\<close>

definition inbox_list :: "iso_parser \<Rightarrow> InboxStatus option \<Rightarrow> (tables, InboxItem list) act" where
  "inbox_list fromiso status =
     repo_list (tab_list ''inbox_items'') (inbox_from_wire fromiso)
       (\<lambda>x. status = None \<or> Some (inbox_status x) = status)"

definition inbox_get :: "iso_parser \<Rightarrow> string \<Rightarrow> (tables, InboxItem) act" where
  "inbox_get fromiso item_id =
     repo_get (tab_get ''inbox_items'' item_id) (inbox_from_wire fromiso) (InboxItemNotFound item_id)"

definition inbox_add_with ::
  "('s, pydict list) act \<Rightarrow> (string \<Rightarrow> pydict \<Rightarrow> ('s, unit) act) \<Rightarrow> iso_parser \<Rightarrow> InboxItem \<Rightarrow> ('s, InboxItem) act" where
  "inbox_add_with scan put fromiso item =
     bind_act (repo_list scan (inbox_from_wire fromiso) (\<lambda>_. True)) (\<lambda>items.
       case List.find (\<lambda>x. inbox_idempotency_key x = inbox_idempotency_key item) items of
         Some existing \<Rightarrow> ret_act existing
       | None \<Rightarrow> bind_act (put (inbox_id item) (inbox_to_wire item)) (\<lambda>_. ret_act item))"

definition inbox_add :: "iso_parser \<Rightarrow> InboxItem \<Rightarrow> (tables, InboxItem) act" where
  "inbox_add fromiso item =
     atomic_act (inbox_add_with (tab_list ''inbox_items'') (tab_put ''inbox_items'') fromiso item)"

definition inbox_transition :: "iso_parser \<Rightarrow> string \<Rightarrow> string \<Rightarrow> InboxStatus \<Rightarrow> (tables, InboxItem) act" where
  "inbox_transition fromiso now item_id status = atomic_act
     (bind_act (inbox_get fromiso item_id) (\<lambda>item.
      bind_act (lift_act (\<lambda>_. make_inbox_item fromiso
                  (item\<lparr>inbox_status := status, inbox_updated_at := now\<rparr>))) (\<lambda>updated.
      bind_act (tab_put ''inbox_items'' (inbox_id item) (inbox_to_wire updated)) (\<lambda>_.
      ret_act updated))))"

definition inbox_mark_read :: "iso_parser \<Rightarrow> string \<Rightarrow> string \<Rightarrow> (tables, InboxItem) act" where
  "inbox_mark_read fromiso now item_id = inbox_transition fromiso now item_id InboxRead"

definition inbox_dismiss :: "iso_parser \<Rightarrow> string \<Rightarrow> string \<Rightarrow> (tables, InboxItem) act" where
  "inbox_dismiss fromiso now item_id = inbox_transition fromiso now item_id InboxDismissed"

definition inbox_resolve :: "iso_parser \<Rightarrow> string \<Rightarrow> string \<Rightarrow> (tables, InboxItem) act" where
  "inbox_resolve fromiso now item_id = inbox_transition fromiso now item_id InboxResolved"

fun cleared :: "InboxClearStatus \<Rightarrow> InboxStatus \<Rightarrow> bool" where
  "cleared ClearDismissed s = (s = InboxDismissed)"
| "cleared ClearResolved s = (s = InboxResolved)"
| "cleared AllTerminal s = (s = InboxDismissed \<or> s = InboxResolved)"

fun inbox_remove_all :: "InboxClearStatus \<Rightarrow> InboxItem list \<Rightarrow> (tables, nat) act" where
  "inbox_remove_all status [] = ret_act 0"
| "inbox_remove_all status (x # xs) =
     (if cleared status (inbox_status x)
      then bind_act (tab_delete ''inbox_items'' (inbox_id x)) (\<lambda>_.
           bind_act (inbox_remove_all status xs) (\<lambda>n. ret_act (Suc n)))
      else inbox_remove_all status xs)"

definition inbox_clear :: "iso_parser \<Rightarrow> InboxClearStatus \<Rightarrow> (tables, nat) act" where
  "inbox_clear fromiso status = atomic_act
     (bind_act (inbox_list fromiso None) (inbox_remove_all status))"

section \<open>The store as a finite map\<close>

text \<open>
  \<open>inbox_view\<close> reads a state of the tables as a map from identifiers to items. \<open>inbox_ok\<close> is what
  the service keeps: every row was written from a valid item under its own identifier, and no two
  items carry the same idempotency key.
\<close>

definition inbox_view :: "iso_parser \<Rightarrow> tables \<Rightarrow> string \<Rightarrow> InboxItem option" where
  "inbox_view fromiso t = view (inbox_from_wire fromiso) (t ''inbox_items'')"

definition inbox_stored :: "iso_parser \<Rightarrow> tables \<Rightarrow> bool" where
  "inbox_stored fromiso t \<longleftrightarrow> stored_ok inbox_to_wire inbox_id (inbox_valid fromiso) (t ''inbox_items'')"

definition inbox_items :: "iso_parser \<Rightarrow> tables \<Rightarrow> InboxItem list" where
  "inbox_items fromiso t = stored_records (inbox_from_wire fromiso) (t ''inbox_items'')"

definition inbox_ok :: "iso_parser \<Rightarrow> tables \<Rightarrow> bool" where
  "inbox_ok fromiso t \<longleftrightarrow> inbox_stored fromiso t \<and>
     distinct (map inbox_idempotency_key (inbox_items fromiso t))"

lemma inbox_repo [simp]:
  "inbox.repo_stored fromiso ''inbox_items'' t = inbox_stored fromiso t"
  "inbox.repo_view fromiso ''inbox_items'' t = inbox_view fromiso t"
  by (simp_all add: inbox.repo_stored_def inbox.repo_view_def inbox_stored_def inbox_view_def)

lemmas inbox_facts =
  inbox.repo_get_view [of fromiso "''inbox_items''", unfolded inbox_repo]
  inbox.repo_list_stored [of fromiso "''inbox_items''", unfolded inbox_repo, folded inbox_items_def]
  for fromiso

lemma inbox_list_stored:
  "inbox_stored fromiso t \<Longrightarrow> inbox_list fromiso status t =
    (Inr (filter (\<lambda>x. status = None \<or> Some (inbox_status x) = status) (inbox_items fromiso t)), t)"
  by (simp add: inbox_list_def inbox_facts)

lemma inbox_get_view:
  "inbox_stored fromiso t \<Longrightarrow> inbox_get fromiso item_id t =
    (case inbox_view fromiso t item_id of
       None \<Rightarrow> (Inl (InboxItemNotFound item_id), t)
     | Some x \<Rightarrow> (Inr x, t))"
  by (simp add: inbox_get_def inbox_facts)

lemmas inbox_put = inbox.repo_put [of fromiso "''inbox_items''", unfolded inbox_repo] for fromiso
lemmas inbox_view_valid = inbox.repo_view_valid [of fromiso "''inbox_items''", unfolded inbox_repo] for fromiso
lemmas set_inbox_items =
  inbox.set_repo_list [of fromiso "''inbox_items''", unfolded inbox_repo, folded inbox_items_def] for fromiso
lemmas inbox_items_ids =
  inbox.repo_list_keys [of fromiso "''inbox_items''", unfolded inbox_repo, folded inbox_items_def] for fromiso

lemma distinct_inbox_items:
  assumes "inbox_stored fromiso t"
  shows "distinct (inbox_items fromiso t)"
proof -
  have "distinct (map fst (t ''inbox_items''))"
    using assms by (simp add: inbox_stored_def stored_ok_def rows_ok_distinct)
  then show ?thesis using inbox_items_ids [OF assms] by (metis distinct_map)
qed

lemma inbox_ok_iff:
  "inbox_ok fromiso t \<longleftrightarrow> inbox_stored fromiso t \<and>
     inj_on inbox_idempotency_key (ran (inbox_view fromiso t))"
  using distinct_inbox_items [of fromiso t] set_inbox_items [of fromiso t]
  by (auto simp: inbox_ok_def distinct_map)


section \<open>The operations on the finite map\<close>

lemma inj_on_fun_upd:
  assumes "inj_on f (ran m)" and "\<And>y. y \<in> ran (m(key := None)) \<Longrightarrow> f y \<noteq> f x"
  shows "inj_on f (ran (m(key \<mapsto> x)))"
proof -
  have "ran (m(key \<mapsto> x)) = insert x (ran (m(key := None)))"
    by (auto simp: ran_def)
  moreover have "ran (m(key := None)) \<subseteq> ran m"
    by (auto simp: ran_def split: if_splits)
  ultimately show ?thesis
    using assms(2) inj_on_subset [OF assms(1)] by (auto simp: inj_on_insert) (metis assms(2))
qed

lemma inbox_add_result:
  assumes t: "inbox_ok fromiso t" and x: "inbox_valid fromiso item"
  obtains (existing) y where "y \<in> ran (inbox_view fromiso t)"
      "inbox_idempotency_key y = inbox_idempotency_key item" "inbox_add fromiso item t = (Inr y, t)"
  | (added) t' where "\<forall>y \<in> ran (inbox_view fromiso t). inbox_idempotency_key y \<noteq> inbox_idempotency_key item"
      "inbox_add fromiso item t = (Inr item, t')" "inbox_ok fromiso t'"
      "inbox_view fromiso t' = (inbox_view fromiso t)(inbox_id item \<mapsto> item)"
proof -
  have s: "inbox_stored fromiso t" using t by (simp add: inbox_ok_def)
  note items = set_inbox_items [OF s]
  have scan: "repo_list (tab_list ''inbox_items'') (inbox_from_wire fromiso) (\<lambda>_. True) t = (Inr (inbox_items fromiso t), t)"
    using s by (simp add: inbox_facts)
  show ?thesis
  proof (cases "List.find (\<lambda>x. inbox_idempotency_key x = inbox_idempotency_key item) (inbox_items fromiso t)")
    case None
    from inbox_put [OF s x] obtain t' where t':
      "tab_put ''inbox_items'' (inbox_id item) (inbox_to_wire item) t = (Inr (), t')"
      "inbox_stored fromiso t'" "inbox_view fromiso t' = (inbox_view fromiso t)(inbox_id item \<mapsto> item)"
      by blast
    have new: "\<forall>y \<in> ran (inbox_view fromiso t). inbox_idempotency_key y \<noteq> inbox_idempotency_key item"
      using None items by (auto simp: find_None_iff)
    have "inj_on inbox_idempotency_key (ran (inbox_view fromiso t'))"
      unfolding t'(3) using t new
      by (intro inj_on_fun_upd) (auto simp: inbox_ok_iff ran_def split: if_splits)
    with t' new None scan show ?thesis
      by (intro added) (auto simp: inbox_ok_iff inbox_add_def inbox_add_with_def atomic_act_def bind_act_def)
  next
    case (Some y)
    then have "y \<in> set (inbox_items fromiso t)" "inbox_idempotency_key y = inbox_idempotency_key item"
      by (auto simp: find_Some_iff)
    with Some items scan show ?thesis
      by (intro existing) (auto simp: inbox_add_def inbox_add_with_def atomic_act_def bind_act_def)
  qed
qed

definition with_status :: "string \<Rightarrow> InboxStatus \<Rightarrow> InboxItem \<Rightarrow> InboxItem" where
  "with_status now status x = x\<lparr>inbox_status := status, inbox_updated_at := now\<rparr>"

lemma with_status_simps [simp]:
  "inbox_id (with_status now status x) = inbox_id x"
  "inbox_idempotency_key (with_status now status x) = inbox_idempotency_key x"
  "inbox_status (with_status now status x) = status"
  by (simp_all add: with_status_def)

lemma inbox_valid_with_status [simp]:
  "inbox_valid fromiso x \<Longrightarrow> is_aware fromiso now \<Longrightarrow> inbox_valid fromiso (with_status now status x)"
  by (simp add: inbox_valid_def with_status_def)

lemma inbox_transition_missing:
  assumes "inbox_stored fromiso t" and "inbox_view fromiso t item_id = None"
  shows "inbox_transition fromiso now item_id status t = (Inl (InboxItemNotFound item_id), t)"
  using inbox_get_view [OF assms(1), of item_id] assms(2)
  by (simp add: inbox_transition_def atomic_act_def bind_act_def)

lemma inbox_transition_found:
  assumes t: "inbox_ok fromiso t" and v: "inbox_view fromiso t item_id = Some x" and now: "is_aware fromiso now"
  obtains t' where "inbox_transition fromiso now item_id status t = (Inr (with_status now status x), t')"
    "inbox_ok fromiso t'" "inbox_view fromiso t' = (inbox_view fromiso t)(item_id \<mapsto> with_status now status x)"
proof -
  let ?x = "with_status now status x"
  have s: "inbox_stored fromiso t" using t by (simp add: inbox_ok_def)
  have x: "inbox_valid fromiso x" "inbox_id x = item_id" using inbox_view_valid [OF s v] by simp_all
  have valid: "inbox_valid fromiso ?x" using x now by simp
  from inbox_put [OF s this] x obtain t' where t':
    "tab_put ''inbox_items'' item_id (inbox_to_wire ?x) t = (Inr (), t')"
    "inbox_stored fromiso t'" "inbox_view fromiso t' = (inbox_view fromiso t)(item_id \<mapsto> ?x)"
    by auto
  have "inj_on inbox_idempotency_key (ran (inbox_view fromiso t'))"
    unfolding t'(3)
  proof (rule inj_on_fun_upd)
    show inj: "inj_on inbox_idempotency_key (ran (inbox_view fromiso t))" using t by (simp add: inbox_ok_iff)
    fix y
    assume y: "y \<in> ran ((inbox_view fromiso t)(item_id := None))"
    then obtain key where "key \<noteq> item_id" "inbox_view fromiso t key = Some y"
      by (auto simp: ran_def split: if_splits)
    then have "y \<noteq> x" "y \<in> ran (inbox_view fromiso t)"
      using inbox_view_valid [OF s] x by (auto simp: ran_def)
    moreover have "x \<in> ran (inbox_view fromiso t)" using v by (rule ranI)
    ultimately show "inbox_idempotency_key y \<noteq> inbox_idempotency_key ?x"
      using inj by (auto dest: inj_onD)
  qed
  moreover have "make_inbox_item fromiso (x\<lparr>inbox_status := status, inbox_updated_at := now\<rparr>) = Inr ?x"
    using make_inbox_item_valid [OF valid] by (simp add: with_status_def)
  ultimately show ?thesis
    using t' x inbox_get_view [OF s, of item_id] v
    by (intro that [of t']) (simp_all add: inbox_ok_iff inbox_transition_def atomic_act_def bind_act_def)
qed

text \<open>\<open>clear\<close> removes exactly the selected items and returns their number.\<close>

lemma inbox_remove_all_run:
  "inbox_stored fromiso t \<Longrightarrow>
   \<exists>t'. inbox_remove_all status xs t =
        (Inr (length (filter (\<lambda>x. cleared status (inbox_status x)) xs)), t')
    \<and> inbox_stored fromiso t'
    \<and> inbox_view fromiso t' = (\<lambda>key. if \<exists>x \<in> set xs. cleared status (inbox_status x) \<and> inbox_id x = key
         then None else inbox_view fromiso t key)"
proof (induction xs arbitrary: t)
  case Nil
  then show ?case by simp
next
  case (Cons x xs)
  show ?case
  proof (cases "cleared status (inbox_status x)")
    case True
    let ?t = "t(''inbox_items'' := coll_delete (inbox_id x) (t ''inbox_items''))"
    have t: "inbox_stored fromiso ?t"
      using Cons.prems by (simp add: inbox_stored_def inbox.stored_delete)
    have v: "inbox_view fromiso ?t = (inbox_view fromiso t)(inbox_id x := None)"
      by (simp add: inbox_view_def inbox.view_delete)
    have "tab_delete ''inbox_items'' (inbox_id x) t = (Inr (), ?t)"
      by (simp add: tab_delete_def)
    moreover from Cons.IH [OF t] obtain t' where "inbox_remove_all status xs ?t =
        (Inr (length (filter (\<lambda>x. cleared status (inbox_status x)) xs)), t')"
      "inbox_stored fromiso t'"
      "inbox_view fromiso t' = (\<lambda>key. if \<exists>x \<in> set xs. cleared status (inbox_status x) \<and> inbox_id x = key
         then None else inbox_view fromiso ?t key)"
      by blast
    ultimately show ?thesis using True v
      by (intro exI [of _ t']) (auto simp: bind_act_def fun_eq_iff)
  next
    case False
    with Cons show ?thesis by simp
  qed
qed

lemma inbox_clear_run:
  assumes t: "inbox_ok fromiso t"
  obtains t' where "inbox_clear fromiso status t =
      (Inr (length (filter (\<lambda>x. cleared status (inbox_status x)) (inbox_items fromiso t))), t')"
    "inbox_ok fromiso t'"
    "inbox_view fromiso t' = (\<lambda>key. case inbox_view fromiso t key of
        None \<Rightarrow> None | Some x \<Rightarrow> if cleared status (inbox_status x) then None else Some x)"
proof -
  have s: "inbox_stored fromiso t" using t by (simp add: inbox_ok_def)
  obtain t' where t': "inbox_remove_all status (inbox_items fromiso t) t =
      (Inr (length (filter (\<lambda>x. cleared status (inbox_status x)) (inbox_items fromiso t))), t')"
    "inbox_stored fromiso t'"
    "inbox_view fromiso t' = (\<lambda>key. if \<exists>x \<in> set (inbox_items fromiso t). cleared status (inbox_status x) \<and> inbox_id x = key
       then None else inbox_view fromiso t key)"
    using inbox_remove_all_run [OF s, of status "inbox_items fromiso t"] by blast
  have v: "inbox_view fromiso t' = (\<lambda>key. case inbox_view fromiso t key of
        None \<Rightarrow> None | Some x \<Rightarrow> if cleared status (inbox_status x) then None else Some x)"
    unfolding t'(3) set_inbox_items [OF s] fun_eq_iff
    using inbox_view_valid [OF s] by (force simp: ran_def split: option.splits)
  have "ran (inbox_view fromiso t') \<subseteq> ran (inbox_view fromiso t)"
    unfolding v by (auto simp: ran_def split: option.splits if_splits)
  then have "inj_on inbox_idempotency_key (ran (inbox_view fromiso t'))"
    using t by (auto simp: inbox_ok_iff intro: inj_on_subset)
  with t' v s show ?thesis
    using inbox_list_stored [OF s, of None]
    by (intro that [of t']) (simp_all add: inbox_ok_iff inbox_clear_def atomic_act_def bind_act_def)
qed


section \<open>What clients of the Inbox rely on\<close>

text \<open>
  C13: Adding is idempotent by key: once \<open>add\<close> has returned an item, every later \<open>add\<close> of an item
  with the same idempotency key, whatever its other fields, returns that stored item and changes
  nothing.
\<close>

theorem inbox_add_idempotent:
  assumes "inbox_ok fromiso t" and "inbox_valid fromiso item"
    and "inbox_add fromiso item t = (Inr x, t')"
    and "inbox_valid fromiso again" and "inbox_idempotency_key again = inbox_idempotency_key item"
  shows "inbox_add fromiso again t' = (Inr x, t')"
proof -
  have "inbox_ok fromiso t' \<and> x \<in> ran (inbox_view fromiso t') \<and>
      inbox_idempotency_key x = inbox_idempotency_key again"
    by (rule inbox_add_result [OF assms(1,2)]) (use assms in \<open>auto simp: ran_def\<close>)
  then have t': "inbox_ok fromiso t'" and x: "x \<in> ran (inbox_view fromiso t')"
    "inbox_idempotency_key x = inbox_idempotency_key again" by simp_all
  show ?thesis
  proof (rule inbox_add_result [OF t' assms(4)])
    fix y
    assume y: "y \<in> ran (inbox_view fromiso t')" "inbox_idempotency_key y = inbox_idempotency_key again"
      "inbox_add fromiso again t' = (Inr y, t')"
    have "inj_on inbox_idempotency_key (ran (inbox_view fromiso t'))" using t' by (simp add: inbox_ok_iff)
    then have "y = x" using x y(1,2) by (metis inj_onD)
    with y(3) show ?thesis by simp
  qed (use x in blast)
qed

text \<open>
  A status operation on a stored item answers with that item under the new status and time
  and updates exactly its entry; on an unknown identifier it raises \<open>InboxItemNotFound\<close> and
  changes nothing.
\<close>

theorem inbox_transition_spec:
  assumes "inbox_ok fromiso t" and "is_aware fromiso now"
    and op: "(op, status) \<in> {(inbox_mark_read, InboxRead), (inbox_dismiss, InboxDismissed), (inbox_resolve, InboxResolved)}"
  shows "case inbox_view fromiso t item_id of
      None \<Rightarrow> op fromiso now item_id t = (Inl (InboxItemNotFound item_id), t)
    | Some x \<Rightarrow> fst (op fromiso now item_id t) = Inr (with_status now status x)
        \<and> inbox_view fromiso (snd (op fromiso now item_id t)) =
            (inbox_view fromiso t)(item_id \<mapsto> with_status now status x)"
proof -
  have op: "op fromiso now item_id = inbox_transition fromiso now item_id status"
    using op by (auto simp: inbox_mark_read_def inbox_dismiss_def inbox_resolve_def)
  show ?thesis
  proof (cases "inbox_view fromiso t item_id")
    case None
    with inbox_transition_missing assms(1) op show ?thesis by (simp add: inbox_ok_def)
  next
    case (Some x)
    show ?thesis
      by (rule inbox_transition_found [OF assms(1) Some assms(2), of status]) (simp add: op Some)
  qed
qed

text \<open>
  \<open>clear\<close> removes exactly the items whose status is selected, keeps every other one as it
  was, and returns how many it removed.
\<close>

theorem inbox_clear_spec:
  assumes "inbox_ok fromiso t"
  shows "fst (inbox_clear fromiso status t) = Inr (card {x \<in> ran (inbox_view fromiso t). cleared status (inbox_status x)})
    \<and> ran (inbox_view fromiso (snd (inbox_clear fromiso status t)))
        = {x \<in> ran (inbox_view fromiso t). \<not> cleared status (inbox_status x)}"
proof -
  have s: "inbox_stored fromiso t" using assms by (simp add: inbox_ok_def)
  have "length (filter (\<lambda>x. cleared status (inbox_status x)) (inbox_items fromiso t))
      = card (set (filter (\<lambda>x. cleared status (inbox_status x)) (inbox_items fromiso t)))"
    using distinct_inbox_items [OF s] by (intro distinct_card [symmetric]) simp
  also have "\<dots> = card {x \<in> ran (inbox_view fromiso t). cleared status (inbox_status x)}"
    by (simp add: set_inbox_items [OF s])
  finally have n: "length (filter (\<lambda>x. cleared status (inbox_status x)) (inbox_items fromiso t))
      = card {x \<in> ran (inbox_view fromiso t). cleared status (inbox_status x)}" .
  show ?thesis
    by (rule inbox_clear_run [OF assms, of status])
      (auto simp: n ran_def split: option.splits if_splits)
qed

section \<open>Histories\<close>

inductive inbox_step :: "iso_parser \<Rightarrow> tables \<Rightarrow> tables \<Rightarrow> bool" for fromiso where
  Added: "inbox_valid fromiso item \<Longrightarrow> inbox_step fromiso t (snd (inbox_add fromiso item t))"
| Moved: "is_aware fromiso now \<Longrightarrow> inbox_step fromiso t (snd (inbox_transition fromiso now item_id status t))"
| Cleared: "inbox_step fromiso t (snd (inbox_clear fromiso status t))"

lemma inbox_step_ok:
  assumes "inbox_step fromiso t t'" and "inbox_ok fromiso t"
  shows "inbox_ok fromiso t'"
  using assms
proof cases
  case (Added item)
  show ?thesis unfolding Added(1)
    by (rule inbox_add_result [OF assms(2) Added(2)]) (simp_all add: assms(2))
next
  case (Moved now item_id status)
  show ?thesis
  proof (cases "inbox_view fromiso t item_id")
    case None
    then show ?thesis
      using inbox_transition_missing assms(2) unfolding Moved(1) by (simp add: inbox_ok_def)
  next
    case (Some x)
    show ?thesis unfolding Moved(1)
      by (rule inbox_transition_found [OF assms(2) Some Moved(2), of status]) simp
  qed
next
  case (Cleared status)
  show ?thesis unfolding Cleared(1)
    by (rule inbox_clear_run [OF assms(2), of status]) simp
qed

lemma inbox_remove_all_frame:
  "c \<noteq> ''inbox_items'' \<Longrightarrow> always (\<lambda>t. t c = v) (inbox_remove_all status xs) (\<lambda>_. True)"
  by (induction xs) (auto intro!: always_intros always_bind [OF tab_frame(4)] intro: always_bind)

lemma inbox_frame:
  assumes "c \<noteq> ''inbox_items''"
  shows "always (\<lambda>t. t c = v) (inbox_add fromiso item) (\<lambda>_. True)"
    and "always (\<lambda>t. t c = v) (inbox_transition fromiso now item_id status) (\<lambda>_. True)"
    and "always (\<lambda>t. t c = v) (inbox_clear fromiso selected) (\<lambda>_. True)"
  using assms
  by (auto simp: inbox_add_def inbox_add_with_def inbox_transition_def inbox_get_def inbox_clear_def inbox_list_def
      intro!: always_atomic always_bind [OF repo_frame(2)] always_bind [OF repo_frame(3)]
        always_bind [OF tab_frame(3)] always_ret inbox_remove_all_frame
        always_bind [OF always_lift [where Q = "\<lambda>_. True"]] split: option.splits)

lemma inbox_step_frame:
  assumes "inbox_step fromiso t t'" and "c \<noteq> ''inbox_items''"
  shows "t' c = t c"
  using assms(1) by cases (simp_all add: alwaysD [OF inbox_frame(1)] alwaysD [OF inbox_frame(2)]
      alwaysD [OF inbox_frame(3)] assms(2))

lemma inbox_ok_empty [simp]: "t ''inbox_items'' = [] \<Longrightarrow> inbox_ok fromiso t"
  by (simp add: inbox_ok_def inbox_stored_def inbox_items_def stored_records_def)

text \<open>
  After any history of operations on an initially empty Inbox the scan decodes every row,
  no two listed items carry the same idempotency key, and listing a status is the filtered scan.
\<close>

theorem inbox_history_unique:
  assumes "(inbox_step fromiso)\<^sup>*\<^sup>* (\<lambda>_. []) t"
  shows "\<exists>items. inbox_list fromiso None t = (Inr items, t)
    \<and> map inbox_id items = map fst (t ''inbox_items'')
    \<and> distinct (map inbox_idempotency_key items)
    \<and> inbox_list fromiso (Some status) t = (Inr (filter (\<lambda>x. inbox_status x = status) items), t)"
proof -
  have "inbox_ok fromiso t"
    using assms by (induction rule: rtranclp_induct) (auto intro: inbox_step_ok)
  then have s: "inbox_stored fromiso t" and d: "distinct (map inbox_idempotency_key (inbox_items fromiso t))"
    by (simp_all add: inbox_ok_def)
  show ?thesis
    using inbox_list_stored [OF s] inbox_items_ids [OF s] d
    by (intro exI [of _ "inbox_items fromiso t"]) simp
qed

definition inbox_add_sql :: "iso_parser \<Rightarrow> InboxItem \<Rightarrow> (conn, InboxItem) act" where
  "inbox_add_sql fromiso item =
     transaction (inbox_add_with (sqlite_list ''inbox_items'') (sqlite_put ''inbox_items'') fromiso item)"

lemma implements_inbox_add:
  "implements (inbox_add_with (sqlite_list name) (sqlite_put name) fromiso item)
     (inbox_add_with (tab_list name) (tab_put name) fromiso item)"
  unfolding inbox_add_with_def repo_list_def
  by (intro implements_intros) (auto intro!: implements_intros split: option.splits)

text \<open>
  C4: Run on the SQLite connection, \<open>add\<close> is the operation above: on a connection that refuses
  nothing it gives the same answer and the same durable content; and whatever \<open>COMMIT\<close> answers,
  an \<open>add\<close> that raises leaves the durable content as it was and the connection between
  transactions.
\<close>

theorem inbox_add_on_sqlite:
  assumes "clean c" and "begin_error c = None" and "rollback_error c = None"
  shows "clean (snd (inbox_add_sql fromiso item c))
    \<and> (if commit_error c = None
       then (fst (inbox_add_sql fromiso item c), committed (snd (inbox_add_sql fromiso item c)))
              = inbox_add fromiso item (committed c)
       else isl (fst (inbox_add_sql fromiso item c)) \<and> committed (snd (inbox_add_sql fromiso item c)) = committed c)"
proof -
  note i = implements_inbox_add [of "''inbox_items''" fromiso item]
  have "clean (snd (inbox_add_sql fromiso item c)) \<and> (commit_error c \<noteq> None \<longrightarrow>
      isl (fst (inbox_add_sql fromiso item c)) \<and> committed (snd (inbox_add_sql fromiso item c)) = committed c)"
    unfolding inbox_add_sql_def
    by (rule transaction_outcome [OF assms(1-3) implements_disciplined [OF i]]) auto
  then show ?thesis
    using transaction_refines_atomic [OF assms(1) _ i] assms
    by (auto simp: inbox_add_sql_def inbox_add_def healthy_def)
qed


section \<open>Concrete runs\<close>

definition any_iso :: iso_parser where
  "any_iso s = IsoAware 0"

definition sample_item :: "string \<Rightarrow> string \<Rightarrow> InboxItem" where
  "sample_item iid key = \<lparr>inbox_id = iid, inbox_title = ''t'', inbox_body = '''', inbox_kind = ''system'',
     inbox_source_id = ''s'', inbox_status = InboxPending, inbox_idempotency_key = key,
     inbox_deep_link = None, inbox_created_at = ''c'', inbox_updated_at = ''u'', inbox_context = empty_context\<rparr>"

definition inbox_row :: "InboxItem \<Rightarrow> coll \<Rightarrow> coll" where
  "inbox_row x c = row_put (inbox_id x) (payload_of (inbox_to_wire x)) c"

definition sample_tables :: tables where
  "sample_tables = (\<lambda>_. [])(''inbox_items'' :=
     inbox_row (with_status ''u'' InboxResolved (sample_item ''b'' ''l'')) (inbox_row (sample_item ''a'' ''k'') []))"

lemma is_aware_any [simp]: "is_aware any_iso s"
  by (simp add: is_aware_def any_iso_def)

lemma sample_item_valid [simp]: "iid \<noteq> '''' \<Longrightarrow> key \<noteq> '''' \<Longrightarrow> inbox_valid any_iso (sample_item iid key)"
  by (simp add: inbox_valid_def sample_item_def)

lemma sample_item_simps [simp]:
  "inbox_id (sample_item iid key) = iid" "inbox_idempotency_key (sample_item iid key) = key"
  "inbox_status (sample_item iid key) = InboxPending"
  by (simp_all add: sample_item_def)

lemma sample_added: "inbox_add any_iso (sample_item ''a'' ''k'') (\<lambda>_. []) =
    (Inr (sample_item ''a'' ''k''),
     (\<lambda>_. [])(''inbox_items'' := [(''a'', payload_of (inbox_to_wire (sample_item ''a'' ''k'')))]))"
  using inbox.put_row [of any_iso "sample_item ''a'' ''k''" "[]"]
  by (simp add: inbox_add_def inbox_add_with_def repo_list_def tab_list_def atomic_act_def
      bind_act_def tab_put_def)

lemma inbox_row_stored:
  "stored_ok inbox_to_wire inbox_id (inbox_valid fromiso) c \<Longrightarrow> inbox_valid fromiso x \<Longrightarrow>
   stored_ok inbox_to_wire inbox_id (inbox_valid fromiso) (inbox_row x c)"
  unfolding inbox_row_def by (rule inbox.stored_put)

lemma inbox_row_view:
  "stored_ok inbox_to_wire inbox_id (inbox_valid fromiso) c \<Longrightarrow> inbox_valid fromiso x \<Longrightarrow>
   view (inbox_from_wire fromiso) (inbox_row x c) = (view (inbox_from_wire fromiso) c)(inbox_id x \<mapsto> x)"
  unfolding inbox_row_def by (rule inbox.view_put)

lemma inbox_view_Nil [simp]: "view (inbox_from_wire fromiso) [] = Map.empty"
  by (simp add: view_def load_def coll_get_def fun_eq_iff)

lemma sample_stored: "stored_ok inbox_to_wire inbox_id (inbox_valid any_iso) (sample_tables ''inbox_items'')"
  by (simp add: sample_tables_def inbox_row_stored)

lemma sample_view: "inbox_view any_iso sample_tables =
    [''a'' \<mapsto> sample_item ''a'' ''k'', ''b'' \<mapsto> with_status ''u'' InboxResolved (sample_item ''b'' ''l'')]"
  by (simp add: inbox_view_def sample_tables_def inbox_row_view inbox_row_stored)

lemma sample_tables_ok: "inbox_ok any_iso sample_tables"
  using sample_stored by (auto simp: inbox_ok_iff inbox_stored_def sample_view ran_def inj_on_def split: if_splits)

lemma inbox_add_idempotent_witness:
  "inbox_add any_iso (sample_item ''b'' ''k'')
     ((\<lambda>_. [])(''inbox_items'' := [(''a'', payload_of (inbox_to_wire (sample_item ''a'' ''k'')))])) =
   (Inr (sample_item ''a'' ''k''),
     (\<lambda>_. [])(''inbox_items'' := [(''a'', payload_of (inbox_to_wire (sample_item ''a'' ''k'')))]))"
  by (rule inbox_add_idempotent [OF _ _ sample_added]) simp_all

lemma inbox_transition_spec_witness:
  "fst (inbox_mark_read any_iso ''now'' ''b'' sample_tables)
     = Inr (with_status ''now'' InboxRead (sample_item ''b'' ''l''))
   \<and> inbox_mark_read any_iso ''now'' ''c'' sample_tables = (Inl (InboxItemNotFound ''c''), sample_tables)"
  using inbox_transition_spec [OF sample_tables_ok, of "''now''" inbox_mark_read InboxRead "''b''"]
    inbox_transition_spec [OF sample_tables_ok, of "''now''" inbox_mark_read InboxRead "''c''"]
  by (simp add: sample_view with_status_def)

lemma inbox_clear_spec_witness:
  "fst (inbox_clear any_iso AllTerminal sample_tables) = Inr 1
   \<and> ran (inbox_view any_iso (snd (inbox_clear any_iso AllTerminal sample_tables))) = {sample_item ''a'' ''k''}"
proof -
  have r: "ran (inbox_view any_iso sample_tables)
      = {with_status ''u'' InboxResolved (sample_item ''b'' ''l''), sample_item ''a'' ''k''}"
    by (simp add: sample_view)
  have f: "{x \<in> {a, b}. P x} = (if P a then {a} else {}) \<union> (if P b then {b} else {})"
    for P :: "InboxItem \<Rightarrow> bool" and a b by auto
  show ?thesis
    using inbox_clear_spec [OF sample_tables_ok, of AllTerminal] unfolding r f by simp
qed

lemma inbox_history_unique_witness:
  "\<exists>items. fst (inbox_list any_iso None (snd (inbox_add any_iso (sample_item ''a'' ''k'') (\<lambda>_. []))))
     = Inr items \<and> map inbox_id items = [''a'']"
proof -
  have "(inbox_step any_iso)\<^sup>*\<^sup>* (\<lambda>_. []) (snd (inbox_add any_iso (sample_item ''a'' ''k'') (\<lambda>_. [])))"
    by (intro r_into_rtranclp inbox_step.Added) simp
  from inbox_history_unique [OF this, of InboxRead] show ?thesis
    by (auto simp: sample_added)
qed

lemma inbox_add_on_sqlite_witness:
  "let c = \<lparr>committed = \<lambda>_. [], working = \<lambda>_. [], in_tx = False, depth = 0, rollback_only = False,
       begin_error = None, commit_error = Some (OtherException ''disk full''), rollback_error = None\<rparr>;
     run = inbox_add_sql any_iso (sample_item ''a'' ''k'') in
   isl (fst (run c)) \<and> committed (snd (run c)) = (\<lambda>_. []) \<and>
   committed (snd (run (c\<lparr>commit_error := None\<rparr>)))
     = (\<lambda>_. [])(''inbox_items'' := [(''a'', payload_of (inbox_to_wire (sample_item ''a'' ''k'')))])"
proof -
  define c where "c = \<lparr>committed = \<lambda>_. [], working = \<lambda>_. [], in_tx = False, depth = 0, rollback_only = False,
       begin_error = None, commit_error = Some (OtherException ''disk full''), rollback_error = None\<rparr>"
  have "clean c" "clean (c\<lparr>commit_error := None\<rparr>)" by (simp_all add: c_def clean_def)
  with inbox_add_on_sqlite [of c any_iso "sample_item ''a'' ''k''"]
    inbox_add_on_sqlite [of "c\<lparr>commit_error := None\<rparr>" any_iso "sample_item ''a'' ''k''"]
  have "isl (fst (inbox_add_sql any_iso (sample_item ''a'' ''k'') c))"
    "committed (snd (inbox_add_sql any_iso (sample_item ''a'' ''k'') c)) = (\<lambda>_. [])"
    "committed (snd (inbox_add_sql any_iso (sample_item ''a'' ''k'') (c\<lparr>commit_error := None\<rparr>)))
     = (\<lambda>_. [])(''inbox_items'' := [(''a'', payload_of (inbox_to_wire (sample_item ''a'' ''k'')))])"
    by (simp_all add: c_def sample_added)
  then show ?thesis by (simp add: c_def Let_def)
qed

end
