(* ===== verification/DeliveryFlow.thy ===== *)
theory DeliveryFlow
  imports InboxStore
begin

text \<open>
  Delivery of Inbox items through adapters: the record and its codec (\<open>delivery/model.py\<close>), the
  store's transitions (\<open>delivery/store.py\<close>, reached through \<open>delivery/service.py\<close>) and the loop that
  drives them (\<open>delivery/loop.py\<close>). An adapter's \<open>send\<close> is an argument: it may answer anything, or
  raise, depending on every send that happened before.
\<close>

section \<open>Records and their codec\<close>

datatype DeliveryStatus = DPending | DSent | DFailed

datatype AdapterStatus = APending | ADelivering | ASent | AFailed | AUncertain

record AdapterResult =
  ar_status :: AdapterStatus
  ar_attempts :: int
  ar_sent_at :: "string option"

record DeliveryRecord =
  d_id :: string
  d_item_id :: string
  d_status :: DeliveryStatus
  d_required_adapters :: "string list"
  d_results :: "(string \<times> AdapterResult) list"
  d_created_at :: string
  d_context :: RuntimeContext

fun delivery_status_str :: "DeliveryStatus \<Rightarrow> string" where
  "delivery_status_str DPending = ''pending''"
| "delivery_status_str DSent = ''sent''"
| "delivery_status_str DFailed = ''failed''"

definition delivery_status_of :: "string \<Rightarrow> DeliveryStatus result" where
  "delivery_status_of s =
     (if s = ''pending'' then Inr DPending else if s = ''sent'' then Inr DSent
      else if s = ''failed'' then Inr DFailed else Inl (ValueError ''unsupported delivery status''))"

fun adapter_status_str :: "AdapterStatus \<Rightarrow> string" where
  "adapter_status_str APending = ''pending''"
| "adapter_status_str ADelivering = ''delivering''"
| "adapter_status_str ASent = ''sent''"
| "adapter_status_str AFailed = ''failed''"
| "adapter_status_str AUncertain = ''uncertain''"

definition adapter_status_of :: "string \<Rightarrow> AdapterStatus result" where
  "adapter_status_of s =
     (if s = ''pending'' then Inr APending else if s = ''delivering'' then Inr ADelivering
      else if s = ''sent'' then Inr ASent else if s = ''failed'' then Inr AFailed
      else if s = ''uncertain'' then Inr AUncertain else Inl (ValueError ''unsupported adapter status''))"

lemma delivery_status_roundtrip [simp]: "delivery_status_of (delivery_status_str s) = Inr s"
  by (cases s) (simp_all add: delivery_status_of_def)

lemma adapter_status_roundtrip [simp]: "adapter_status_of (adapter_status_str s) = Inr s"
  by (cases s) (simp_all add: adapter_status_of_def)

definition make_adapter_result :: "iso_parser \<Rightarrow> AdapterStatus \<Rightarrow> int \<Rightarrow> string option \<Rightarrow> AdapterResult result" where
  "make_adapter_result fromiso status attempts sent_at =
     (if attempts < 0 then Inl (ValueError ''adapter attempts must be a non-negative integer'')
      else if status = ASent \<and> sent_at = None then Inl (ValueError ''sent adapter result requires sent_at'')
      else if status \<noteq> ASent \<and> sent_at \<noteq> None then Inl (ValueError ''only a sent adapter result may have sent_at'')
      else bindE (case sent_at of None \<Rightarrow> Inr () | Some v \<Rightarrow> aware fromiso v) (\<lambda>_.
        Inr \<lparr>ar_status = status, ar_attempts = attempts, ar_sent_at = sent_at\<rparr>))"

definition adapter_valid :: "iso_parser \<Rightarrow> AdapterResult \<Rightarrow> bool" where
  "adapter_valid fromiso r \<longleftrightarrow> 0 \<le> ar_attempts r \<and>
     (case ar_sent_at r of None \<Rightarrow> ar_status r \<noteq> ASent | Some v \<Rightarrow> ar_status r = ASent \<and> is_aware fromiso v)"

definition adapter_to_wire :: "AdapterResult \<Rightarrow> pydict" where
  "adapter_to_wire r =
     [(''status'', PStr (adapter_status_str (ar_status r))), (''attempts'', PInt (ar_attempts r))]
     @ (case ar_sent_at r of None \<Rightarrow> [] | Some v \<Rightarrow> [(''sent_at'', PStr v)])"

definition adapter_from_wire :: "iso_parser \<Rightarrow> pydict \<Rightarrow> AdapterResult result" where
  "adapter_from_wire fromiso w =
     bindE (read_string w ''status'') (\<lambda>status.
     bindE (adapter_status_of status) (\<lambda>status.
     bindE (case dict_get w ''attempts'' of
              PInt n \<Rightarrow> if n < 0 then Inl (ValueError ''adapter attempts must be a non-negative integer'') else Inr n
            | _ \<Rightarrow> Inl (ValueError ''adapter attempts must be a non-negative integer'')) (\<lambda>attempts.
     bindE (read_optional_string w ''sent_at'') (\<lambda>sent_at.
       make_adapter_result fromiso status attempts sent_at))))"

text \<open>
  \<open>__post_init__\<close> of the record. A dict is the list of its entries in insertion order, with
  distinct keys.
\<close>

definition make_delivery_record :: "iso_parser \<Rightarrow> DeliveryRecord \<Rightarrow> DeliveryRecord result" where
  "make_delivery_record fromiso x =
     bindE (raise_if (d_id x = '''' \<or> d_item_id x = '''') (ValueError ''delivery id and item_id must be non-empty'')) (\<lambda>_.
     bindE (aware fromiso (d_created_at x)) (\<lambda>_.
     bindE (raise_if (list_ex (\<lambda>v. v = '''') (d_required_adapters x) \<or> \<not> distinct (d_required_adapters x))
              (ValueError ''required adapter IDs must be non-empty and unique'')) (\<lambda>_.
     bindE (raise_if (set (map fst (d_results x)) \<noteq> set (d_required_adapters x))
              (ValueError ''adapter results must exactly match required adapters'')) (\<lambda>_.
       Inr x))))"

definition result_at :: "DeliveryRecord \<Rightarrow> string \<Rightarrow> AdapterResult result" where
  "result_at x key = (case map_of (d_results x) key of None \<Rightarrow> Inl (KeyError key) | Some r \<Rightarrow> Inr r)"

definition delivery_to_wire :: "DeliveryRecord \<Rightarrow> pydict" where
  "delivery_to_wire x =
     [(''id'', PStr (d_id x)), (''item_id'', PStr (d_item_id x)),
      (''status'', PStr (delivery_status_str (d_status x))),
      (''required_adapters'', PList (map PStr (d_required_adapters x))),
      (''results'', PDict (map (\<lambda>key. (key, PDict (adapter_to_wire (the (map_of (d_results x) key)))))
                      (d_required_adapters x))),
      (''created_at'', PStr (d_created_at x)), (''context'', PDict (context_to_record (d_context x)))]"

fun adapter_entry :: "iso_parser \<Rightarrow> string \<times> pyobj \<Rightarrow> (string \<times> AdapterResult) result" where
  "adapter_entry fromiso (key, PDict d) = bindE (adapter_from_wire fromiso d) (\<lambda>r. Inr (key, r))"
| "adapter_entry fromiso (key, PIntMap d) = bindE (adapter_from_wire fromiso []) (\<lambda>r. Inr (key, r))"
| "adapter_entry fromiso (key, _) = Inl (ValueError ''results must map adapter IDs to objects'')"

definition results_of_wire :: "iso_parser \<Rightarrow> pyobj \<Rightarrow> (string \<times> AdapterResult) list result" where
  "results_of_wire fromiso v =
     (case v of
        PDict d \<Rightarrow> mapE (adapter_entry fromiso) d
      | PProxy d \<Rightarrow> mapE (adapter_entry fromiso) d
      | PIntMap d \<Rightarrow> (if d = [] then Inr [] else Inl (ValueError ''results must map adapter IDs to objects''))
      | _ \<Rightarrow> Inl (ValueError ''results must be an object''))"

definition delivery_from_wire :: "iso_parser \<Rightarrow> pydict \<Rightarrow> DeliveryRecord result" where
  "delivery_from_wire fromiso w =
     bindE (read_string w ''status'') (\<lambda>status.
     bindE (delivery_status_of status) (\<lambda>status.
     bindE (case (case dget w ''required_adapters'' of None \<Rightarrow> PList [] | Some v \<Rightarrow> v) of
              PList vs \<Rightarrow> (case str_list vs of
                 Some adapters \<Rightarrow> Inr adapters
               | None \<Rightarrow> Inl (ValueError ''required_adapters must be a string list''))
            | _ \<Rightarrow> Inl (ValueError ''required_adapters must be a string list'')) (\<lambda>adapters.
     bindE (results_of_wire fromiso (case dget w ''results'' of None \<Rightarrow> PDict [] | Some v \<Rightarrow> v)) (\<lambda>results.
     (let context = (case dget w ''context'' of None \<Rightarrow> PDict [] | Some v \<Rightarrow> v) in
     bindE (case context of PDict _ \<Rightarrow> Inr () | PProxy _ \<Rightarrow> Inr () | PIntMap _ \<Rightarrow> Inr ()
            | _ \<Rightarrow> Inl (ValueError ''context must be an object'')) (\<lambda>_.
     bindE (read_string w ''id'') (\<lambda>rid.
     bindE (read_string w ''item_id'') (\<lambda>item_id.
     bindE (read_string w ''created_at'') (\<lambda>created_at.
     bindE (context_of_wire (ValueError ''context must be an object'') context) (\<lambda>ctx.
       make_delivery_record fromiso
         \<lparr>d_id = rid, d_item_id = item_id, d_status = status, d_required_adapters = adapters,
          d_results = results, d_created_at = created_at, d_context = ctx\<rparr>))))))))))"

text \<open>
  A valid record is one its constructor accepts, with results in the order of the required
  adapters: the order in which \<open>prepare\<close> builds them and every later update keeps them.
\<close>

definition delivery_valid :: "iso_parser \<Rightarrow> DeliveryRecord \<Rightarrow> bool" where
  "delivery_valid fromiso x \<longleftrightarrow>
     d_id x \<noteq> '''' \<and> d_item_id x \<noteq> '''' \<and> is_aware fromiso (d_created_at x)
     \<and> '''' \<notin> set (d_required_adapters x) \<and> distinct (d_required_adapters x)
     \<and> map fst (d_results x) = d_required_adapters x
     \<and> (\<forall>r \<in> snd ` set (d_results x). adapter_valid fromiso r) \<and> context_valid (d_context x)"

lemma make_delivery_record_valid [simp]: "delivery_valid fromiso x \<Longrightarrow> make_delivery_record fromiso x = Inr x"
  by (auto simp: make_delivery_record_def delivery_valid_def list_ex_iff raise_if_def)

lemma make_adapter_result_valid:
  "adapter_valid fromiso r \<Longrightarrow>
   make_adapter_result fromiso (ar_status r) (ar_attempts r) (ar_sent_at r) = Inr r"
  by (auto simp: make_adapter_result_def adapter_valid_def split: option.splits)

lemma adapter_reload: "adapter_valid fromiso r \<Longrightarrow> adapter_from_wire fromiso (adapter_to_wire r) = Inr r"
  using make_adapter_result_valid [of fromiso r]
  by (auto simp: adapter_from_wire_def adapter_to_wire_def wire_simps adapter_valid_def split: option.splits)

lemma results_reload:
  assumes "distinct (map fst rs)" and "\<forall>r \<in> snd ` set rs. adapter_valid fromiso r"
  shows "mapE (adapter_entry fromiso)
     (map (\<lambda>key. (key, PDict (adapter_to_wire (the (map_of rs key))))) (map fst rs)) = Inr rs"
proof -
  have "adapter_entry fromiso (fst r, PDict (adapter_to_wire (the (map_of rs (fst r))))) = Inr r"
    if "r \<in> set rs" for r
  proof -
    have "map_of rs (fst r) = Some (snd r)" using assms(1) that by (simp add: map_of_is_SomeI)
    then show ?thesis using assms(2) that by (simp add: adapter_reload)
  qed
  then show ?thesis by (simp add: mapE_map mapE_all_Inr [where g = "\<lambda>r. r"] o_def)
qed

lemma delivery_reload:
  assumes "delivery_valid fromiso x"
  shows "delivery_from_wire fromiso ((''id'', PStr (d_id x)) # payload_of (delivery_to_wire x)) = Inr x"
proof -
  have "mapE (adapter_entry fromiso)
     (map (\<lambda>key. (key, PDict (adapter_to_wire (the (map_of (d_results x) key))))) (d_required_adapters x)) = Inr (d_results x)"
    using results_reload [of "d_results x" fromiso] assms unfolding delivery_valid_def by metis
  moreover have "context_valid (d_context x)" using assms by (simp add: delivery_valid_def)
  ultimately show ?thesis
    using assms by (cases x) (simp add: delivery_from_wire_def delivery_to_wire_def wire_simps results_of_wire_def Let_def)
qed

lemma json_plain_adapter [simp]: "list_all (\<lambda>(key, x). json_plain x) (adapter_to_wire r)"
  by (simp add: adapter_to_wire_def split: option.splits)

interpretation delivery: record_codec delivery_to_wire "delivery_from_wire fromiso" d_id "delivery_valid fromiso"
  for fromiso
proof unfold_locales
  fix x
  assume x: "delivery_valid fromiso x"
  show "d_id x \<noteq> ''''" using x by (simp add: delivery_valid_def)
  show "json_dict (delivery_to_wire x)"
    by (simp add: json_dict_def delivery_to_wire_def list.pred_map o_def list.pred_True context_to_record_def)
  show "dict_get (delivery_to_wire x) ''id'' \<in> {PNone, PStr (d_id x)}"
    by (simp add: delivery_to_wire_def wire_simps)
  show "delivery_from_wire fromiso ((''id'', PStr (d_id x)) # payload_of (delivery_to_wire x)) = Inr x"
    using x by (rule delivery_reload)
qed


section \<open>The store's transitions\<close>

definition delivery_list :: "iso_parser \<Rightarrow> DeliveryStatus option \<Rightarrow> (tables, DeliveryRecord list) act" where
  "delivery_list fromiso status =
     repo_list (tab_list ''delivery_records'') (delivery_from_wire fromiso)
       (\<lambda>x. status = None \<or> Some (d_status x) = status)"

definition delivery_get :: "iso_parser \<Rightarrow> string \<Rightarrow> (tables, DeliveryRecord) act" where
  "delivery_get fromiso record_id =
     repo_get (tab_get ''delivery_records'' record_id) (delivery_from_wire fromiso) (KeyError record_id)"

definition delivery_save :: "DeliveryRecord \<Rightarrow> (tables, unit) act" where
  "delivery_save x = tab_put ''delivery_records'' (d_id x) (delivery_to_wire x)"

text \<open>The tail of most transitions: rebuild the record, save it and return it.\<close>

definition delivery_update :: "iso_parser \<Rightarrow> DeliveryRecord result \<Rightarrow> (tables, DeliveryRecord) act" where
  "delivery_update fromiso r =
     bind_act (lift_act (\<lambda>_. bindE r (make_delivery_record fromiso))) (\<lambda>updated.
     bind_act (delivery_save updated) (\<lambda>_. ret_act updated))"

definition delivery_request ::
  "iso_parser \<Rightarrow> string \<Rightarrow> string \<Rightarrow> RuntimeContext \<Rightarrow> (tables, DeliveryRecord) act" where
  "delivery_request fromiso now item_id context =
     (let record_id = ''delivery-'' @ item_id in atomic_act
       (bind_act (repo_find (tab_get ''delivery_records'' record_id) (delivery_from_wire fromiso)) (\<lambda>existing.
        case existing of
          Some x \<Rightarrow> ret_act x
        | None \<Rightarrow> delivery_update fromiso (Inr
            \<lparr>d_id = record_id, d_item_id = item_id, d_status = DPending, d_required_adapters = [],
             d_results = [], d_created_at = now, d_context = context\<rparr>))))"

definition fresh_result :: AdapterResult where
  "fresh_result = \<lparr>ar_status = APending, ar_attempts = 0, ar_sent_at = None\<rparr>"

definition delivery_prepare :: "iso_parser \<Rightarrow> string \<Rightarrow> string list \<Rightarrow> (tables, DeliveryRecord) act" where
  "delivery_prepare fromiso record_id adapters = atomic_act
     (bind_act (delivery_get fromiso record_id) (\<lambda>x.
        if d_required_adapters x \<noteq> [] then ret_act x
        else delivery_update fromiso (Inr (x\<lparr>d_required_adapters := adapters,
               d_results := map (\<lambda>key. (key, fresh_result)) adapters\<rparr>))))"

definition recover_result :: "AdapterResult \<Rightarrow> AdapterResult" where
  "recover_result r = (if ar_status r = ADelivering then r\<lparr>ar_status := AUncertain\<rparr> else r)"

definition delivery_recover :: "iso_parser \<Rightarrow> string \<Rightarrow> (tables, DeliveryRecord) act" where
  "delivery_recover fromiso record_id = atomic_act
     (bind_act (delivery_get fromiso record_id) (\<lambda>x.
        if list_ex (\<lambda>(key, r). ar_status r = ADelivering) (d_results x)
        then delivery_update fromiso
               (Inr (x\<lparr>d_results := map (\<lambda>(key, r). (key, recover_result r)) (d_results x)\<rparr>))
        else ret_act x))"

text \<open>\<open>results[adapter] = ...\<close> on a key that is already there keeps its place.\<close>

definition set_result :: "string \<Rightarrow> AdapterResult \<Rightarrow> DeliveryRecord \<Rightarrow> DeliveryRecord" where
  "set_result adapter r x =
     x\<lparr>d_results := map (\<lambda>(key, v). (key, if key = adapter then r else v)) (d_results x)\<rparr>"

definition delivery_begin :: "iso_parser \<Rightarrow> string \<Rightarrow> string \<Rightarrow> (tables, DeliveryRecord) act" where
  "delivery_begin fromiso record_id adapter = atomic_act
     (bind_act (delivery_get fromiso record_id) (\<lambda>x.
      bind_act (lift_act (\<lambda>_. result_at x adapter)) (\<lambda>r.
        if ar_status r \<noteq> APending then ret_act x
        else delivery_update fromiso
          (bindE (make_adapter_result fromiso ADelivering (ar_attempts r + 1) None) (\<lambda>r'.
             Inr (set_result adapter r' x))))))"

definition delivery_finish_adapter ::
  "iso_parser \<Rightarrow> string \<Rightarrow> string \<Rightarrow> string \<Rightarrow> bool \<Rightarrow> (tables, DeliveryRecord) act" where
  "delivery_finish_adapter fromiso now record_id adapter success = atomic_act
     (bind_act (delivery_get fromiso record_id) (\<lambda>x.
      bind_act (lift_act (\<lambda>_. result_at x adapter)) (\<lambda>r.
        delivery_update fromiso
          (bindE (make_adapter_result fromiso (if success then ASent else AFailed) (ar_attempts r)
                   (if success then Some now else None)) (\<lambda>r'.
             Inr (set_result adapter r' x))))))"

definition final_status :: "AdapterStatus list \<Rightarrow> DeliveryStatus" where
  "final_status states =
     (if states = [] \<or> list_ex (\<lambda>s. s = APending \<or> s = ADelivering) states then DPending
      else if list_all (\<lambda>s. s = ASent) states then DSent
      else DFailed)"

definition delivery_finalize :: "iso_parser \<Rightarrow> string \<Rightarrow> (tables, DeliveryRecord) act" where
  "delivery_finalize fromiso record_id = atomic_act
     (bind_act (delivery_get fromiso record_id) (\<lambda>x.
        delivery_update fromiso
          (Inr (x\<lparr>d_status := final_status (map (\<lambda>(key, r). ar_status r) (d_results x))\<rparr>))))"

section \<open>The loop\<close>

text \<open>
  The world of the loop: the stored tables and the sends that adapters were asked for, newest
  first, each with the adapter, the item and the attempt number it was passed.
\<close>

type_synonym send = "string \<times> string \<times> int"

record world =
  w_tables :: tables
  w_sends :: "send list"

definition on_tables :: "(tables, 'a) act \<Rightarrow> (world, 'a) act" where
  "on_tables m w = (case m (w_tables w) of (r, t) \<Rightarrow> (r, w\<lparr>w_tables := t\<rparr>))"

text \<open>
  What an adapter answers to a send, given the sends before it: \<open>True\<close>, \<open>False\<close> or an exception.
  An exception stands as well for the end of the process in the middle of a send.
\<close>

type_synonym adapter_send = "send list \<Rightarrow> string \<Rightarrow> InboxItem \<Rightarrow> int \<Rightarrow> bool result"

definition call_send :: "adapter_send \<Rightarrow> string \<Rightarrow> InboxItem \<Rightarrow> int \<Rightarrow> (world, bool) act" where
  "call_send send adapter item attempt w =
     (send (w_sends w) adapter item attempt,
      w\<lparr>w_sends := (adapter, inbox_id item, attempt) # w_sends w\<rparr>)"

fun index_adapters :: "pyobj list \<Rightarrow> string list \<Rightarrow> string list result" where
  "index_adapters [] known = Inr known"
| "index_adapters (PStr a # as) known =
     (if a = '''' then Inl (ValueError ''delivery adapter ID must be a non-empty string'')
      else if a \<in> set known then Inl (ValueError ''duplicate delivery adapter ID'')
      else index_adapters as (known @ [a]))"
| "index_adapters (_ # as) known = Inl (ValueError ''delivery adapter ID must be a non-empty string'')"

fun fail_missing_item ::
  "iso_parser \<Rightarrow> (string \<Rightarrow> string) \<Rightarrow> string \<Rightarrow> string list \<Rightarrow> (world, unit) act" where
  "fail_missing_item fromiso now record_id [] = ret_act ()"
| "fail_missing_item fromiso now record_id (adapter # rest) =
     bind_act (on_tables (delivery_get fromiso record_id)) (\<lambda>current.
     bind_act (lift_act (\<lambda>_. result_at current adapter)) (\<lambda>r.
     bind_act
       (if ar_status r = APending
        then bind_act (on_tables (delivery_begin fromiso record_id adapter)) (\<lambda>_.
             bind_act (on_tables (delivery_finish_adapter fromiso (now adapter) record_id adapter False)) (\<lambda>_.
             ret_act ()))
        else ret_act ()) (\<lambda>_.
     fail_missing_item fromiso now record_id rest)))"

fun send_pending ::
  "iso_parser \<Rightarrow> (string \<Rightarrow> string) \<Rightarrow> adapter_send \<Rightarrow> string list \<Rightarrow> InboxItem \<Rightarrow> string \<Rightarrow> string list \<Rightarrow> (world, unit) act" where
  "send_pending fromiso now send adapters item record_id [] = ret_act ()"
| "send_pending fromiso now send adapters item record_id (adapter # rest) =
     bind_act (on_tables (delivery_get fromiso record_id)) (\<lambda>current.
     bind_act (lift_act (\<lambda>_. result_at current adapter)) (\<lambda>r.
     bind_act
       (if ar_status r \<noteq> APending then ret_act ()
        else bind_act (on_tables (delivery_begin fromiso record_id adapter)) (\<lambda>started.
             bind_act (lift_act (\<lambda>_. result_at started adapter)) (\<lambda>s.
             bind_act (if adapter \<in> set adapters then call_send send adapter item (ar_attempts s)
                       else ret_act False) (\<lambda>success.
             bind_act (on_tables (delivery_finish_adapter fromiso (now adapter) record_id adapter success)) (\<lambda>_.
             ret_act ()))))) (\<lambda>_.
     send_pending fromiso now send adapters item record_id rest)))"

text \<open>
  \<open>deliver\<close>, under the record's lock: the lock's name is validated, and no other delivery of the
  record runs meanwhile.
\<close>

definition deliver ::
  "iso_parser \<Rightarrow> (string \<Rightarrow> string) \<Rightarrow> adapter_send \<Rightarrow> string list \<Rightarrow> string \<Rightarrow> (world, DeliveryRecord) act" where
  "deliver fromiso now send adapters record_id =
     bind_act (lift_act (\<lambda>_. validate_storage_key record_id)) (\<lambda>_.
     bind_act (on_tables (delivery_get fromiso record_id)) (\<lambda>x.
       if d_status x \<noteq> DPending then ret_act x
       else
         bind_act (on_tables (delivery_prepare fromiso (d_id x) adapters)) (\<lambda>x.
         bind_act (on_tables (delivery_recover fromiso (d_id x))) (\<lambda>x.
         (\<lambda>w. case inbox_get fromiso (d_item_id x) (w_tables w) of
             (Inl (InboxItemNotFound _), _) \<Rightarrow>
               bind_act (fail_missing_item fromiso now (d_id x) (d_required_adapters x)) (\<lambda>_.
                 on_tables (delivery_finalize fromiso (d_id x))) w
           | (Inl e, _) \<Rightarrow> (Inl e, w)
           | (Inr item, _) \<Rightarrow>
               bind_act (send_pending fromiso now send adapters item (d_id x) (d_required_adapters x)) (\<lambda>_.
                 on_tables (delivery_finalize fromiso (d_id x))) w)))))"

fun run_records ::
  "iso_parser \<Rightarrow> (string \<Rightarrow> string) \<Rightarrow> adapter_send \<Rightarrow> string list \<Rightarrow> DeliveryRecord list \<Rightarrow> nat
   \<Rightarrow> (world, nat) ctx_act" where
  "run_records fromiso now send adapters [] delivered = ret_act delivered"
| "run_records fromiso now send adapters (x # xs) delivered =
     bind_act (lift_act (\<lambda>_. make_context ((d_context x)\<lparr>ctx_source := Some ''daemon.worker.delivery''\<rparr>))) (\<lambda>c.
     bind_act (use_runtime_context c (\<lambda>(amb, w). case deliver fromiso now send adapters (d_id x) w of
         (r, w') \<Rightarrow> (r, (amb, w')))) (\<lambda>y.
     run_records fromiso now send adapters xs (if d_status y = DSent then Suc delivered else delivered)))"

definition run_once ::
  "iso_parser \<Rightarrow> (string \<Rightarrow> string) \<Rightarrow> adapter_send \<Rightarrow> string list \<Rightarrow> (world, nat) ctx_act" where
  "run_once fromiso now send adapters =
     bind_act (\<lambda>(amb, w). case on_tables (delivery_list fromiso (Some DPending)) w of (r, w') \<Rightarrow> (r, (amb, w')))
       (\<lambda>xs. run_records fromiso now send adapters xs 0)"


section \<open>The transitions on valid records\<close>

definition delivery_view :: "iso_parser \<Rightarrow> tables \<Rightarrow> string \<Rightarrow> DeliveryRecord option" where
  "delivery_view fromiso t = view (delivery_from_wire fromiso) (t ''delivery_records'')"

definition delivery_stored :: "iso_parser \<Rightarrow> tables \<Rightarrow> bool" where
  "delivery_stored fromiso t \<longleftrightarrow>
     stored_ok delivery_to_wire d_id (delivery_valid fromiso) (t ''delivery_records'')"

lemma delivery_repo [simp]:
  "delivery.repo_stored fromiso ''delivery_records'' t = delivery_stored fromiso t"
  "delivery.repo_view fromiso ''delivery_records'' t = delivery_view fromiso t"
  by (simp_all add: delivery.repo_stored_def delivery.repo_view_def delivery_stored_def delivery_view_def)

lemmas delivery_put = delivery.repo_put [of fromiso "''delivery_records''", unfolded delivery_repo] for fromiso
lemmas delivery_view_valid =
  delivery.repo_view_valid [of fromiso "''delivery_records''", unfolded delivery_repo] for fromiso

lemma delivery_get_view:
  "delivery_stored fromiso t \<Longrightarrow> delivery_get fromiso key t =
    (case delivery_view fromiso t key of None \<Rightarrow> (Inl (KeyError key), t) | Some x \<Rightarrow> (Inr x, t))"
  using delivery.repo_get_view [of fromiso "''delivery_records''" t] by (simp add: delivery_get_def)

text \<open>\<open>saved t x t'\<close>: the content of \<open>t'\<close> is that of \<open>t\<close> with the valid record \<open>x\<close> under its key.\<close>

definition saved :: "iso_parser \<Rightarrow> tables \<Rightarrow> DeliveryRecord \<Rightarrow> tables \<Rightarrow> bool" where
  "saved fromiso t x t' \<longleftrightarrow> delivery_valid fromiso x \<and> delivery_stored fromiso t'
     \<and> delivery_view fromiso t' = (delivery_view fromiso t)(d_id x \<mapsto> x)
     \<and> (\<forall>c. c \<noteq> ''delivery_records'' \<longrightarrow> t' c = t c)"

lemma saved_refl:
  "delivery_stored fromiso t \<Longrightarrow> delivery_view fromiso t key = Some x \<Longrightarrow> saved fromiso t x t"
  using delivery_view_valid [of fromiso t key x] by (auto simp: saved_def)

lemma delivery_update_run:
  assumes "delivery_stored fromiso t" and "delivery_valid fromiso x"
  obtains t' where "delivery_update fromiso (Inr x) t = (Inr x, t')" "saved fromiso t x t'"
  by (rule delivery_put [OF assms])
    (auto intro!: that simp: delivery_update_def delivery_save_def bind_act_def saved_def assms(2))

text \<open>The new record of each transition.\<close>

definition prepared :: "string list \<Rightarrow> DeliveryRecord \<Rightarrow> DeliveryRecord" where
  "prepared adapters x = (if d_required_adapters x \<noteq> [] then x
     else x\<lparr>d_required_adapters := adapters, d_results := map (\<lambda>key. (key, fresh_result)) adapters\<rparr>)"

definition recovered :: "DeliveryRecord \<Rightarrow> DeliveryRecord" where
  "recovered x = x\<lparr>d_results := map (\<lambda>(key, r). (key, recover_result r)) (d_results x)\<rparr>"

definition begun :: "string \<Rightarrow> AdapterResult \<Rightarrow> DeliveryRecord \<Rightarrow> DeliveryRecord" where
  "begun adapter r x = (if ar_status r \<noteq> APending then x
     else set_result adapter \<lparr>ar_status = ADelivering, ar_attempts = ar_attempts r + 1, ar_sent_at = None\<rparr> x)"

definition finished :: "string \<Rightarrow> string \<Rightarrow> bool \<Rightarrow> AdapterResult \<Rightarrow> DeliveryRecord \<Rightarrow> DeliveryRecord" where
  "finished now adapter success r x =
     set_result adapter \<lparr>ar_status = (if success then ASent else AFailed), ar_attempts = ar_attempts r,
       ar_sent_at = (if success then Some now else None)\<rparr> x"

definition finalized :: "DeliveryRecord \<Rightarrow> DeliveryRecord" where
  "finalized x = x\<lparr>d_status := final_status (map (\<lambda>(key, r). ar_status r) (d_results x))\<rparr>"

lemma transition_keeps_id [simp]:
  "d_id (prepared as x) = d_id x" "d_id (recovered x) = d_id x" "d_id (begun a r x) = d_id x"
  "d_id (finished n a s r x) = d_id x" "d_id (finalized x) = d_id x" "d_id (set_result a r x) = d_id x"
  "d_item_id (prepared as x) = d_item_id x" "d_item_id (recovered x) = d_item_id x"
  "d_item_id (begun a r x) = d_item_id x" "d_item_id (finished n a s r x) = d_item_id x"
  "d_item_id (finalized x) = d_item_id x" "d_item_id (set_result a r x) = d_item_id x"
  by (simp_all add: prepared_def recovered_def begun_def finished_def finalized_def set_result_def)

lemma transition_required [simp]:
  "d_required_adapters (recovered x) = d_required_adapters x"
  "d_required_adapters (begun a r x) = d_required_adapters x"
  "d_required_adapters (finished n a s r x) = d_required_adapters x"
  "d_required_adapters (finalized x) = d_required_adapters x"
  "d_required_adapters (set_result a r x) = d_required_adapters x"
  by (simp_all add: recovered_def begun_def finished_def finalized_def set_result_def)

lemma results_set_result [simp]:
  "map_of (d_results (set_result a r x)) key =
     (case map_of (d_results x) key of None \<Rightarrow> None | Some v \<Rightarrow> Some (if key = a then r else v))"
  using lookup_map_rows [where f = "\<lambda>k v. if k = a then r else v" and rs = "d_results x" and key = key]
  by (auto simp: set_result_def split: option.splits)

lemma results_recovered [simp]:
  "map_of (d_results (recovered x)) key = map_option recover_result (map_of (d_results x) key)"
  by (simp add: recovered_def map_of_map)

lemma valid_set_result:
  "delivery_valid fromiso x \<Longrightarrow> adapter_valid fromiso r \<Longrightarrow> delivery_valid fromiso (set_result a r x)"
  by (auto simp: delivery_valid_def set_result_def comp_def case_prod_beta)

lemma adapter_valid_recover [simp]: "adapter_valid fromiso r \<Longrightarrow> adapter_valid fromiso (recover_result r)"
  by (auto simp: adapter_valid_def recover_result_def split: option.splits)

lemma valid_recovered: "delivery_valid fromiso x \<Longrightarrow> delivery_valid fromiso (recovered x)"
  by (auto simp: delivery_valid_def recovered_def comp_def case_prod_beta)

lemma valid_finalized: "delivery_valid fromiso x \<Longrightarrow> delivery_valid fromiso (finalized x)"
  by (simp add: delivery_valid_def finalized_def)

lemma valid_prepared:
  "delivery_valid fromiso x \<Longrightarrow> distinct as \<Longrightarrow> '''' \<notin> set as \<Longrightarrow> delivery_valid fromiso (prepared as x)"
  by (auto simp: delivery_valid_def prepared_def adapter_valid_def fresh_result_def comp_def)

lemma recovered_id: "\<not> list_ex (\<lambda>(key, r). ar_status r = ADelivering) (d_results x) \<Longrightarrow> recovered x = x"
proof -
  assume n: "\<not> list_ex (\<lambda>(key, r). ar_status r = ADelivering) (d_results x)"
  have "map (\<lambda>(key, r). (key, recover_result r)) (d_results x) = d_results x"
    using n by (intro map_idI) (auto simp: recover_result_def list_ex_iff)
  then show ?thesis by (simp add: recovered_def)
qed

lemma result_valid:
  "delivery_valid fromiso x \<Longrightarrow> map_of (d_results x) a = Some r \<Longrightarrow> adapter_valid fromiso r"
  by (force simp: delivery_valid_def dest: map_of_SomeD)

text \<open>What each transition does on a stored record.\<close>

lemma prepare_run:
  assumes t: "delivery_stored fromiso t" "delivery_view fromiso t key = Some x"
  shows "distinct adapters \<Longrightarrow> '''' \<notin> set adapters \<Longrightarrow>
      \<exists>t'. delivery_prepare fromiso key adapters t = (Inr (prepared adapters x), t') \<and> saved fromiso t (prepared adapters x) t'"
    and "\<not> (distinct adapters \<and> '''' \<notin> set adapters) \<Longrightarrow> d_required_adapters x = [] \<Longrightarrow>
      \<exists>e. delivery_prepare fromiso key adapters t = (Inl e, t)"
proof -
  have x: "delivery_valid fromiso x" using delivery_view_valid [OF t] by simp
  assume a: "distinct adapters" "'''' \<notin> set adapters"
  show "\<exists>t'. delivery_prepare fromiso key adapters t = (Inr (prepared adapters x), t') \<and> saved fromiso t (prepared adapters x) t'"
  proof (cases "d_required_adapters x = []")
    case True
    from delivery_update_run [OF t(1) valid_prepared [OF x a]] obtain t' where
      "delivery_update fromiso (Inr (prepared adapters x)) t = (Inr (prepared adapters x), t')"
      "saved fromiso t (prepared adapters x) t'" .
    with True t show ?thesis
      by (intro exI [of _ t']) (simp add: delivery_prepare_def delivery_get_view atomic_act_def bind_act_def prepared_def)
  next
    case False
    with t saved_refl [OF t] show ?thesis
      by (simp add: delivery_prepare_def delivery_get_view atomic_act_def bind_act_def prepared_def)
  qed
next
  assume a: "\<not> (distinct adapters \<and> '''' \<notin> set adapters)" and e: "d_required_adapters x = []"
  have x: "delivery_valid fromiso x" using delivery_view_valid [OF t] by simp
  have "\<exists>e. make_delivery_record fromiso (x\<lparr>d_required_adapters := adapters,
      d_results := map (\<lambda>key. (key, fresh_result)) adapters\<rparr>) = Inl e"
    using x a by (auto simp: make_delivery_record_def delivery_valid_def list_ex_iff raise_if_def)
  with t e show "\<exists>e. delivery_prepare fromiso key adapters t = (Inl e, t)"
    by (auto simp: delivery_prepare_def delivery_get_view delivery_update_def atomic_act_def bind_act_def)
qed

lemma recover_run:
  assumes t: "delivery_stored fromiso t" "delivery_view fromiso t key = Some x"
  shows "\<exists>t'. delivery_recover fromiso key t = (Inr (recovered x), t') \<and> saved fromiso t (recovered x) t'"
proof (cases "list_ex (\<lambda>(key, r). ar_status r = ADelivering) (d_results x)")
  case True
  have x: "delivery_valid fromiso x" using delivery_view_valid [OF t] by simp
  from delivery_update_run [OF t(1) valid_recovered [OF x]] obtain t' where
    "delivery_update fromiso (Inr (recovered x)) t = (Inr (recovered x), t')" "saved fromiso t (recovered x) t'" .
  with True t show ?thesis
    by (intro exI [of _ t']) (simp add: delivery_recover_def delivery_get_view atomic_act_def bind_act_def recovered_def)
next
  case False
  with t saved_refl [OF t] show ?thesis
    by (simp add: delivery_recover_def delivery_get_view atomic_act_def bind_act_def recovered_id)
qed

lemma begin_run:
  assumes t: "delivery_stored fromiso t" "delivery_view fromiso t key = Some x"
    and r: "map_of (d_results x) adapter = Some r"
  shows "\<exists>t'. delivery_begin fromiso key adapter t = (Inr (begun adapter r x), t') \<and> saved fromiso t (begun adapter r x) t'"
proof (cases "ar_status r = APending")
  case True
  have x: "delivery_valid fromiso x" using delivery_view_valid [OF t] by simp
  have "0 \<le> ar_attempts r" using result_valid [OF x r] by (simp add: adapter_valid_def)
  then have mk: "make_adapter_result fromiso ADelivering (ar_attempts r + 1) None =
      Inr \<lparr>ar_status = ADelivering, ar_attempts = ar_attempts r + 1, ar_sent_at = None\<rparr>"
    and v: "adapter_valid fromiso \<lparr>ar_status = ADelivering, ar_attempts = ar_attempts r + 1, ar_sent_at = None\<rparr>"
    by (simp_all add: make_adapter_result_def adapter_valid_def)
  from delivery_update_run [OF t(1) valid_set_result [OF x v, of adapter]] obtain t' where
    "delivery_update fromiso (Inr (begun adapter r x)) t = (Inr (begun adapter r x), t')"
    "saved fromiso t (begun adapter r x) t'"
    using True by (auto simp: begun_def)
  with True t r mk show ?thesis
    by (intro exI [of _ t'])
      (simp add: delivery_begin_def delivery_get_view atomic_act_def bind_act_def begun_def result_at_def)
next
  case False
  with t r saved_refl [OF t] show ?thesis
    by (simp add: delivery_begin_def delivery_get_view atomic_act_def bind_act_def begun_def result_at_def)
qed

lemma finish_run:
  assumes t: "delivery_stored fromiso t" "delivery_view fromiso t key = Some x"
    and r: "map_of (d_results x) adapter = Some r" and now: "success \<longrightarrow> is_aware fromiso now"
  shows "\<exists>t'. delivery_finish_adapter fromiso now key adapter success t = (Inr (finished now adapter success r x), t')
    \<and> saved fromiso t (finished now adapter success r x) t'"
proof -
  have x: "delivery_valid fromiso x" using delivery_view_valid [OF t] by simp
  let ?r = "\<lparr>ar_status = (if success then ASent else AFailed), ar_attempts = ar_attempts r,
       ar_sent_at = (if success then Some now else None)\<rparr>"
  have "0 \<le> ar_attempts r" using result_valid [OF x r] by (simp add: adapter_valid_def)
  then have mk: "make_adapter_result fromiso (if success then ASent else AFailed) (ar_attempts r)
      (if success then Some now else None) = Inr ?r"
    and v: "adapter_valid fromiso ?r"
    using now by (simp_all add: make_adapter_result_def adapter_valid_def)
  from delivery_update_run [OF t(1) valid_set_result [OF x v, of adapter]] obtain t' where
    "delivery_update fromiso (Inr (finished now adapter success r x)) t = (Inr (finished now adapter success r x), t')"
    "saved fromiso t (finished now adapter success r x) t'"
    unfolding finished_def .
  with t r mk show ?thesis
    by (intro exI [of _ t'])
      (simp add: delivery_finish_adapter_def delivery_get_view atomic_act_def bind_act_def finished_def result_at_def)
qed

lemma finalize_run:
  assumes t: "delivery_stored fromiso t" "delivery_view fromiso t key = Some x"
  shows "\<exists>t'. delivery_finalize fromiso key t = (Inr (finalized x), t') \<and> saved fromiso t (finalized x) t'"
proof -
  have x: "delivery_valid fromiso x" using delivery_view_valid [OF t] by simp
  from delivery_update_run [OF t(1) valid_finalized [OF x]] obtain t' where
    "delivery_update fromiso (Inr (finalized x)) t = (Inr (finalized x), t')" "saved fromiso t (finalized x) t'" .
  with t show ?thesis
    by (intro exI [of _ t']) (simp add: delivery_finalize_def delivery_get_view atomic_act_def bind_act_def finalized_def)
qed


section \<open>At most one send\<close>

text \<open>
  \<open>allowance\<close> bounds the sends an adapter may have been asked for an item: none while the item's
  record does not list the adapter or lists it as pending, one afterwards.
\<close>

definition record_key :: "string \<Rightarrow> string" where
  "record_key item_id = ''delivery-'' @ item_id"

definition allowance :: "iso_parser \<Rightarrow> tables \<Rightarrow> string \<Rightarrow> string \<Rightarrow> nat" where
  "allowance fromiso t adapter item_id =
     (case delivery_view fromiso t (record_key item_id) of
        None \<Rightarrow> 0
      | Some x \<Rightarrow> (case map_of (d_results x) adapter of
          None \<Rightarrow> 0
        | Some r \<Rightarrow> if ar_status r = APending then 0 else 1))"

definition send_count :: "send list \<Rightarrow> string \<Rightarrow> string \<Rightarrow> nat" where
  "send_count sends adapter item_id = length (filter (\<lambda>(a, i, n). a = adapter \<and> i = item_id) sends)"

definition delivery_wf :: "iso_parser \<Rightarrow> tables \<Rightarrow> bool" where
  "delivery_wf fromiso t \<longleftrightarrow> delivery_stored fromiso t \<and> inbox_ok fromiso t
     \<and> (\<forall>x \<in> ran (delivery_view fromiso t). d_id x = record_key (d_item_id x))"

definition sends_ok :: "iso_parser \<Rightarrow> world \<Rightarrow> bool" where
  "sends_ok fromiso w \<longleftrightarrow> delivery_wf fromiso (w_tables w)
     \<and> (\<forall>a i. send_count (w_sends w) a i \<le> allowance fromiso (w_tables w) a i)"

text \<open>An operation on the tables that never lowers an allowance.\<close>

definition raises :: "iso_parser \<Rightarrow> tables \<Rightarrow> tables \<Rightarrow> bool" where
  "raises fromiso t t' \<longleftrightarrow> delivery_wf fromiso t' \<and> (\<forall>a i. allowance fromiso t a i \<le> allowance fromiso t' a i)"

lemma raises_refl: "delivery_wf fromiso t \<Longrightarrow> raises fromiso t t"
  by (simp add: raises_def)

lemma sends_ok_raises: "sends_ok fromiso w \<Longrightarrow> raises fromiso (w_tables w) t' \<Longrightarrow> sends_ok fromiso (w\<lparr>w_tables := t'\<rparr>)"
  unfolding sends_ok_def raises_def by (simp del: One_nat_def) (meson order_trans)

lemma wf_saved:
  assumes "delivery_wf fromiso t" and "saved fromiso t x t'" and "d_id x = record_key (d_item_id x)"
  shows "delivery_wf fromiso t'"
  using assms by (auto simp: delivery_wf_def saved_def inbox_ok_def inbox_stored_def inbox_items_def ran_def)

lemma raises_saved:
  assumes t: "delivery_wf fromiso t" and s: "saved fromiso t y t'"
    and k: "d_id y = record_key (d_item_id y)"
    and le: "\<And>x a r. delivery_view fromiso t (d_id y) = Some x \<Longrightarrow> map_of (d_results x) a = Some r \<Longrightarrow>
      ar_status r \<noteq> APending \<Longrightarrow> \<exists>r'. map_of (d_results y) a = Some r' \<and> ar_status r' \<noteq> APending"
  shows "raises fromiso t t'"
proof -
  have v: "delivery_view fromiso t' = (delivery_view fromiso t)(d_id y \<mapsto> y)" using s by (simp add: saved_def)
  have "allowance fromiso t a i \<le> allowance fromiso t' a i" for a i
    using le [of _ a] by (cases "record_key i = d_id y") (fastforce simp: allowance_def v split: option.splits)+
  then show ?thesis using wf_saved [OF t s k] by (simp add: raises_def)
qed

definition raising :: "iso_parser \<Rightarrow> (tables, 'a) act \<Rightarrow> bool" where
  "raising fromiso m \<longleftrightarrow> (\<forall>t. delivery_wf fromiso t \<longrightarrow> raises fromiso t (snd (m t)))"

lemma raisingI: "(\<And>t. delivery_wf fromiso t \<Longrightarrow> raises fromiso t (snd (m t))) \<Longrightarrow> raising fromiso m"
  by (simp add: raising_def)

definition progress :: "iso_parser \<Rightarrow> tables \<Rightarrow> DeliveryRecord \<Rightarrow> tables \<Rightarrow> bool" where
  "progress fromiso t x t' \<longleftrightarrow> t' = t \<or> (\<exists>y. saved fromiso t y t' \<and> d_id y = d_id x \<and> d_item_id y = d_item_id x
     \<and> (\<forall>a r. map_of (d_results x) a = Some r \<longrightarrow> ar_status r \<noteq> APending \<longrightarrow>
          (\<exists>r'. map_of (d_results y) a = Some r' \<and> ar_status r' \<noteq> APending)))"

lemma progress_refl [simp]: "progress fromiso t x t"
  by (simp add: progress_def)

lemma progressI:
  "saved fromiso t y t' \<Longrightarrow> d_id y = d_id x \<Longrightarrow> d_item_id y = d_item_id x \<Longrightarrow>
   (\<And>a r. map_of (d_results x) a = Some r \<Longrightarrow> ar_status r \<noteq> APending \<Longrightarrow>
      \<exists>r'. map_of (d_results y) a = Some r' \<and> ar_status r' \<noteq> APending) \<Longrightarrow> progress fromiso t x t'"
  by (auto simp: progress_def)

text \<open>A transition of a stored record that loses no progress is raising; so is one that does nothing.\<close>

lemma raising_step:
  assumes missing: "\<And>t. delivery_wf fromiso t \<Longrightarrow> delivery_view fromiso t key = None \<Longrightarrow> snd (m t) = t"
    and found: "\<And>t x. delivery_wf fromiso t \<Longrightarrow> delivery_view fromiso t key = Some x \<Longrightarrow>
      progress fromiso t x (snd (m t))"
  shows "raising fromiso m"
proof (rule raisingI)
  fix t
  assume t: "delivery_wf fromiso t"
  show "raises fromiso t (snd (m t))"
  proof (cases "delivery_view fromiso t key")
    case None
    with missing t show ?thesis by (simp add: raises_refl)
  next
    case (Some x)
    have s: "delivery_stored fromiso t" and c: "d_id x = record_key (d_item_id x)"
      using t Some by (auto simp: delivery_wf_def intro: ranI)
    have k: "d_id x = key" using delivery_view_valid [OF s Some] by simp
    from found [OF t Some] consider "snd (m t) = t"
      | y where "saved fromiso t y (snd (m t))" "d_id y = d_id x" "d_item_id y = d_item_id x"
          "\<forall>a r. map_of (d_results x) a = Some r \<longrightarrow> ar_status r \<noteq> APending \<longrightarrow>
              (\<exists>r'. map_of (d_results y) a = Some r' \<and> ar_status r' \<noteq> APending)" by (auto simp: progress_def)
    then show ?thesis
    proof cases
      case 1
      with t show ?thesis by (simp add: raises_refl)
    next
      case (2 y)
      with Some k c show ?thesis by (intro raises_saved [OF t 2(1)]) auto
    qed
  qed
qed

lemma wf_stored: "delivery_wf fromiso t \<Longrightarrow> delivery_stored fromiso t"
  by (simp add: delivery_wf_def)

lemma missing_run:
  assumes "delivery_wf fromiso t" and "delivery_view fromiso t key = None"
  shows "delivery_prepare fromiso key as t = (Inl (KeyError key), t)"
    and "delivery_recover fromiso key t = (Inl (KeyError key), t)"
    and "delivery_begin fromiso key a t = (Inl (KeyError key), t)"
    and "delivery_finish_adapter fromiso now key a b t = (Inl (KeyError key), t)"
    and "delivery_finalize fromiso key t = (Inl (KeyError key), t)"
    and "delivery_get fromiso key t = (Inl (KeyError key), t)"
  using assms
  by (simp_all add: wf_stored delivery_get_view atomic_act_def bind_act_def delivery_prepare_def
      delivery_recover_def delivery_begin_def delivery_finish_adapter_def delivery_finalize_def)

lemma raising_prepare: "raising fromiso (delivery_prepare fromiso key as)"
proof (rule raising_step [where key = key])
  fix t x
  assume t: "delivery_wf fromiso t" and v: "delivery_view fromiso t key = Some x"
  note run = prepare_run [OF wf_stored [OF t] v, of as]
  have x: "delivery_valid fromiso x" using delivery_view_valid [OF wf_stored [OF t] v] by simp
  show "progress fromiso t x (snd (delivery_prepare fromiso key as t))"
  proof (cases "d_required_adapters x = []")
    case True
    then have "d_results x = []" using x by (auto simp: delivery_valid_def)
    show ?thesis
    proof (cases "distinct as \<and> '''' \<notin> set as")
      case True
      with run(1) \<open>d_results x = []\<close> show ?thesis by (auto intro!: progressI [of _ _ "prepared as x"])
    next
      case False
      from run(2) [OF this \<open>d_required_adapters x = []\<close>] show ?thesis by auto
    qed
  next
    case False
    then show ?thesis
      using v t by (simp add: delivery_prepare_def delivery_get_view wf_stored atomic_act_def bind_act_def)
  qed
qed (simp add: missing_run)

lemma raising_recover: "raising fromiso (delivery_recover fromiso key)"
proof (rule raising_step [where key = key])
  fix t x
  assume t: "delivery_wf fromiso t" and v: "delivery_view fromiso t key = Some x"
  from recover_run [OF wf_stored [OF t] v]
  show "progress fromiso t x (snd (delivery_recover fromiso key t))"
    by (auto intro!: progressI [of _ _ "recovered x"] simp: recover_result_def)
qed (simp add: missing_run)

lemma raising_begin: "raising fromiso (delivery_begin fromiso key a)"
proof (rule raising_step [where key = key])
  fix t x
  assume t: "delivery_wf fromiso t" and v: "delivery_view fromiso t key = Some x"
  show "progress fromiso t x (snd (delivery_begin fromiso key a t))"
  proof (cases "map_of (d_results x) a")
    case None
    then show ?thesis
      using v t by (simp add: delivery_begin_def delivery_get_view wf_stored atomic_act_def bind_act_def result_at_def)
  next
    case (Some r)
    from begin_run [OF wf_stored [OF t] v Some] show ?thesis
      by (auto intro!: progressI [of _ _ "begun a r x"] simp: begun_def)
  qed
qed (simp add: missing_run)

lemma raising_finish: "raising fromiso (delivery_finish_adapter fromiso now key a b)"
proof (rule raising_step [where key = key])
  fix t x
  assume t: "delivery_wf fromiso t" and v: "delivery_view fromiso t key = Some x"
  show "progress fromiso t x (snd (delivery_finish_adapter fromiso now key a b t))"
  proof (cases "map_of (d_results x) a")
    case None
    then show ?thesis
      using v t by (simp add: delivery_finish_adapter_def delivery_get_view wf_stored atomic_act_def bind_act_def result_at_def)
  next
    case (Some r)
    have nn: "0 \<le> ar_attempts r"
      using result_valid [OF _ Some] delivery_view_valid [OF wf_stored [OF t] v] by (auto simp: adapter_valid_def)
    show ?thesis
    proof (cases "b \<longrightarrow> is_aware fromiso now")
      case True
      from finish_run [OF wf_stored [OF t] v Some this] show ?thesis
        by (auto intro!: progressI [of _ _ "finished now a b r x"] simp: finished_def)
    next
      case False
      then have "\<exists>e. make_adapter_result fromiso (if b then ASent else AFailed) (ar_attempts r) (if b then Some now else None) = Inl e"
        using nn by (auto simp: make_adapter_result_def aware_def is_aware_def split: iso.splits)
      then show ?thesis
        using v t Some by (auto simp: delivery_finish_adapter_def delivery_get_view wf_stored atomic_act_def bind_act_def
            result_at_def delivery_update_def)
    qed
  qed
qed (simp add: missing_run)

lemma raising_finalize: "raising fromiso (delivery_finalize fromiso key)"
proof (rule raising_step [where key = key])
  fix t x
  assume t: "delivery_wf fromiso t" and v: "delivery_view fromiso t key = Some x"
  from finalize_run [OF wf_stored [OF t] v]
  show "progress fromiso t x (snd (delivery_finalize fromiso key t))"
    by (auto intro!: progressI [of _ _ "finalized x"] simp: finalized_def)
qed (simp add: missing_run)


section \<open>The loop keeps the bound\<close>

definition linked :: "DeliveryRecord \<Rightarrow> bool" where
  "linked x \<longleftrightarrow> d_id x = record_key (d_item_id x)"

lemma record_key_inject [simp]: "record_key i = record_key j \<longleftrightarrow> i = j"
  by (simp add: record_key_def)

lemma wf_linked: "delivery_wf fromiso t \<Longrightarrow> delivery_view fromiso t key = Some x \<Longrightarrow> linked x \<and> d_id x = key"
  using delivery_view_valid [of fromiso t key x] by (auto simp: delivery_wf_def linked_def intro: ranI)

lemma raising_get: "raising fromiso (delivery_get fromiso key)"
  by (rule raisingI) (simp add: wf_stored delivery_get_view raises_refl split: option.splits)

lemma keeps_on_tables:
  assumes "raising fromiso m" and "\<And>t x. delivery_wf fromiso t \<Longrightarrow> fst (m t) = Inr x \<Longrightarrow> Q x"
  shows "always (sends_ok fromiso) (on_tables m) Q"
proof (rule alwaysI)
  fix w r w'
  assume w: "sends_ok fromiso w" and r: "on_tables m w = (r, w')"
  then have t: "delivery_wf fromiso (w_tables w)" by (simp add: sends_ok_def)
  have "r = fst (m (w_tables w))" "w' = w\<lparr>w_tables := snd (m (w_tables w))\<rparr>"
    using r by (auto simp: on_tables_def split: prod.splits)
  moreover have "raises fromiso (w_tables w) (snd (m (w_tables w)))"
    using assms(1) t by (simp add: raising_def)
  ultimately show "sends_ok fromiso w' \<and> (\<forall>x. r = Inr x \<longrightarrow> Q x)"
    using sends_ok_raises [OF w] assms(2) [OF t] by simp
qed

text \<open>What \<open>get\<close>, \<open>prepare\<close> and \<open>recover\<close> return is a record linked to the key they were given.\<close>

lemma get_linked: "always (sends_ok fromiso) (on_tables (delivery_get fromiso key)) (\<lambda>x. linked x \<and> d_id x = key)"
  by (rule keeps_on_tables [OF raising_get])
    (auto simp: wf_stored delivery_get_view split: option.splits dest: wf_linked)

lemma prepare_linked:
  "always (sends_ok fromiso) (on_tables (delivery_prepare fromiso key as)) (\<lambda>x. linked x \<and> d_id x = key)"
proof (rule keeps_on_tables [OF raising_prepare])
  fix t x
  assume t: "delivery_wf fromiso t" and r: "fst (delivery_prepare fromiso key as t) = Inr x"
  show "linked x \<and> d_id x = key"
  proof (cases "delivery_view fromiso t key")
    case None
    with t r show ?thesis by (simp add: missing_run)
  next
    case (Some y)
    note y = wf_linked [OF t Some] and run = prepare_run [OF wf_stored [OF t] Some, of as]
    consider "distinct as \<and> '''' \<notin> set as" | "\<not> (distinct as \<and> '''' \<notin> set as)" "d_required_adapters y = []"
      | "d_required_adapters y \<noteq> []" by blast
    then show ?thesis
    proof cases
      case 1
      with run(1) r y show ?thesis by (force simp: linked_def)
    next
      case 2
      with run(2) r show ?thesis by force
    next
      case 3
      with r y Some t show ?thesis
        by (simp add: delivery_prepare_def delivery_get_view wf_stored atomic_act_def bind_act_def)
    qed
  qed
qed

lemma recover_linked:
  "always (sends_ok fromiso) (on_tables (delivery_recover fromiso key)) (\<lambda>x. linked x \<and> d_id x = key)"
proof (rule keeps_on_tables [OF raising_recover])
  fix t x
  assume t: "delivery_wf fromiso t" and r: "fst (delivery_recover fromiso key t) = Inr x"
  show "linked x \<and> d_id x = key"
  proof (cases "delivery_view fromiso t key")
    case None
    with t r show ?thesis by (simp add: missing_run)
  next
    case (Some y)
    with wf_linked [OF t Some] recover_run [OF wf_stored [OF t] Some] r show ?thesis
      by (force simp: linked_def)
  qed
qed

lemmas keeps_table_ops =
  keeps_on_tables [OF raising_get, where Q = "\<lambda>_. True"] keeps_on_tables [OF raising_begin, where Q = "\<lambda>_. True"]
  keeps_on_tables [OF raising_finish, where Q = "\<lambda>_. True"] keeps_on_tables [OF raising_finalize, where Q = "\<lambda>_. True"]

lemma keeps_fail_missing_item:
  "always (sends_ok fromiso) (fail_missing_item fromiso now key as) (\<lambda>_. True)"
proof (induction as)
  case Nil
  show ?case unfolding fail_missing_item.simps by (rule always_ret) simp
next
  case (Cons a as)
  show ?case
    unfolding fail_missing_item.simps
    by (intro always_bind [where Q = "\<lambda>_. True"] always_if always_ret always_lift Cons.IH keeps_table_ops TrueI)
qed

text \<open>
  The heart of the matter: the send of a pending adapter is preceded by the transition that takes
  it out of pending.
\<close>

definition send_one ::
  "iso_parser \<Rightarrow> (string \<Rightarrow> string) \<Rightarrow> adapter_send \<Rightarrow> string list \<Rightarrow> InboxItem \<Rightarrow> string \<Rightarrow> string \<Rightarrow> (world, unit) act" where
  "send_one fromiso now send adapters item record_id adapter =
     bind_act (on_tables (delivery_get fromiso record_id)) (\<lambda>current.
     bind_act (lift_act (\<lambda>_. result_at current adapter)) (\<lambda>r.
       if ar_status r \<noteq> APending then ret_act ()
       else bind_act (on_tables (delivery_begin fromiso record_id adapter)) (\<lambda>started.
            bind_act (lift_act (\<lambda>_. result_at started adapter)) (\<lambda>s.
            bind_act (if adapter \<in> set adapters then call_send send adapter item (ar_attempts s)
                      else ret_act False) (\<lambda>success.
            bind_act (on_tables (delivery_finish_adapter fromiso (now adapter) record_id adapter success)) (\<lambda>_.
            ret_act ()))))))"

lemma send_pending_Cons:
  "send_pending fromiso now send adapters item record_id (adapter # rest) =
     bind_act (send_one fromiso now send adapters item record_id adapter) (\<lambda>_.
       send_pending fromiso now send adapters item record_id rest)"
  by (rule ext) (auto simp: send_one_def bind_act_def split: sum.splits prod.splits)

lemma sends_ok_send:
  assumes w: "sends_ok fromiso w" and v: "delivery_view fromiso (w_tables w) (record_key (inbox_id item)) = Some x"
    and r: "map_of (d_results x) a = Some r" "ar_status r = APending"
    and t: "raises fromiso (w_tables w) t'" "allowance fromiso t' a (inbox_id item) = 1"
  shows "sends_ok fromiso \<lparr>w_tables = t', w_sends = (a, inbox_id item, n) # w_sends w\<rparr>"
proof -
  have "send_count (w_sends w) a (inbox_id item) \<le> allowance fromiso (w_tables w) a (inbox_id item)"
    using w by (simp add: sends_ok_def)
  then have z: "send_count (w_sends w) a (inbox_id item) = 0" using v r by (simp add: allowance_def)
  have "send_count ((a, inbox_id item, n) # w_sends w) b i \<le> allowance fromiso t' b i" for b i
  proof (cases "b = a \<and> i = inbox_id item")
    case True
    with z t(2) show ?thesis by (simp add: send_count_def)
  next
    case False
    then have "send_count ((a, inbox_id item, n) # w_sends w) b i = send_count (w_sends w) b i"
      by (auto simp: send_count_def)
    also have "\<dots> \<le> allowance fromiso (w_tables w) b i" using w by (simp add: sends_ok_def)
    also have "\<dots> \<le> allowance fromiso t' b i" using t(1) by (simp add: raises_def)
    finally show ?thesis .
  qed
  with t(1) show ?thesis by (simp add: sends_ok_def raises_def)
qed

lemma begin_allows:
  assumes "delivery_wf fromiso t" and "delivery_view fromiso t (record_key i) = Some x"
    and "map_of (d_results x) a = Some r" and "ar_status r = APending"
  obtains t' where "delivery_begin fromiso (record_key i) a t = (Inr (begun a r x), t')"
    "raises fromiso t t'" "allowance fromiso t' a i = 1" "result_at (begun a r x) a =
      Inr \<lparr>ar_status = ADelivering, ar_attempts = ar_attempts r + 1, ar_sent_at = None\<rparr>"
proof -
  from begin_run [OF wf_stored [OF assms(1)] assms(2,3)] obtain t' where
    t': "delivery_begin fromiso (record_key i) a t = (Inr (begun a r x), t')" "saved fromiso t (begun a r x) t'"
    by blast
  have "raises fromiso t t'"
    using raising_begin [of fromiso "record_key i" a] assms(1) t'(1) unfolding raising_def by (metis snd_conv)
  moreover have "allowance fromiso t' a i = 1"
    using t'(2) assms wf_linked [OF assms(1,2)] by (simp add: allowance_def saved_def begun_def)
  ultimately show ?thesis
    using t'(1) assms by (intro that [of t']) (simp_all add: begun_def result_at_def)
qed

lemma keeps_send_one:
  "always (sends_ok fromiso) (send_one fromiso now send adapters item (record_key (inbox_id item)) a) (\<lambda>_. True)"
proof (rule alwaysI)
  fix w r w'
  let ?key = "record_key (inbox_id item)" and ?rest = "\<lambda>success.
    bind_act (on_tables (delivery_finish_adapter fromiso (now a) (record_key (inbox_id item)) a success)) (\<lambda>_. ret_act ())"
  assume w: "sends_ok fromiso w" and run: "send_one fromiso now send adapters item ?key a w = (r, w')"
  have wf: "delivery_wf fromiso (w_tables w)" using w by (simp add: sends_ok_def)
  have fin: "sends_ok fromiso (snd (?rest b u))" if "sends_ok fromiso u" for b u
    by (rule alwaysD [where P = "sends_ok fromiso" and Q = "\<lambda>_. True", OF _ that])
      (intro always_bind [where Q = "\<lambda>_. True"] always_ret keeps_table_ops TrueI)
  show "sends_ok fromiso w' \<and> (\<forall>x. r = Inr x \<longrightarrow> True)"
  proof (cases "\<exists>x s. delivery_view fromiso (w_tables w) ?key = Some x \<and> map_of (d_results x) a = Some s
      \<and> ar_status s = APending")
    case False
    then have "w' = w"
      using run by (auto simp: send_one_def bind_act_def on_tables_def delivery_get_view wf_stored [OF wf] result_at_def
          split: option.splits if_splits)
    with w show ?thesis by simp
  next
    case True
    then obtain x s where x: "delivery_view fromiso (w_tables w) ?key = Some x" "map_of (d_results x) a = Some s"
      "ar_status s = APending" by blast
    from begin_allows [OF wf x] obtain t' where
      t': "delivery_begin fromiso ?key a (w_tables w) = (Inr (begun a s x), t')"
      "raises fromiso (w_tables w) t'" "allowance fromiso t' a (inbox_id item) = 1" "result_at (begun a s x) a =
        Inr \<lparr>ar_status = ADelivering, ar_attempts = ar_attempts s + 1, ar_sent_at = None\<rparr>" by blast
    let ?w = "w\<lparr>w_tables := t'\<rparr>" and ?n = "ar_attempts s + 1"
    have ok: "sends_ok fromiso ?w" using sends_ok_raises [OF w t'(2)] .
    have sent: "sends_ok fromiso (?w\<lparr>w_sends := (a, inbox_id item, ?n) # w_sends w\<rparr>)"
      using sends_ok_send [OF w x t'(2,3), of ?n] by (cases w) simp
    have "send_one fromiso now send adapters item ?key a w =
        bind_act (if a \<in> set adapters then call_send send a item ?n else ret_act False) ?rest ?w"
      using x t' by (simp add: send_one_def bind_act_def on_tables_def delivery_get_view wf_stored [OF wf] result_at_def)
    then have "w' = snd (bind_act (if a \<in> set adapters then call_send send a item ?n else ret_act False) ?rest ?w)"
      using run by (metis snd_conv)
    moreover have "bind_act (call_send send a item ?n) ?rest ?w =
        (case send (w_sends w) a item ?n of
           Inl e \<Rightarrow> (Inl e, ?w\<lparr>w_sends := (a, inbox_id item, ?n) # w_sends w\<rparr>)
         | Inr b \<Rightarrow> ?rest b (?w\<lparr>w_sends := (a, inbox_id item, ?n) # w_sends w\<rparr>))"
      by (simp add: bind_act_def [of "call_send send a item ?n"] call_send_def)
    moreover have "bind_act (ret_act False) ?rest ?w = ?rest False ?w"
      by (simp add: bind_act_def [of "ret_act False"])
    ultimately show ?thesis
      using fin [OF ok] fin [OF sent] sent by (cases "a \<in> set adapters") (auto split: sum.splits)
  qed
qed


lemma keeps_send_pending:
  "always (sends_ok fromiso) (send_pending fromiso now send adapters item (record_key (inbox_id item)) as) (\<lambda>_. True)"
proof (induction as)
  case Nil
  show ?case unfolding send_pending.simps by (rule always_ret) simp
next
  case (Cons a as)
  show ?case unfolding send_pending_Cons by (intro always_bind [OF keeps_send_one] Cons.IH)
qed

lemma keeps_deliver_tail:
  assumes x: "linked x"
  shows "always (sends_ok fromiso) (\<lambda>w. case inbox_get fromiso (d_item_id x) (w_tables w) of
       (Inl (InboxItemNotFound _), _) \<Rightarrow>
         bind_act (fail_missing_item fromiso now (d_id x) (d_required_adapters x)) (\<lambda>_.
           on_tables (delivery_finalize fromiso (d_id x))) w
     | (Inl e, _) \<Rightarrow> (Inl e, w)
     | (Inr item, _) \<Rightarrow>
         bind_act (send_pending fromiso now send adapters item (d_id x) (d_required_adapters x)) (\<lambda>_.
           on_tables (delivery_finalize fromiso (d_id x))) w) (\<lambda>_. True)"
proof (rule alwaysI, goal_cases)
  case (1 w r w')
  then have w: "sends_ok fromiso w" and s: "inbox_stored fromiso (w_tables w)"
    by (simp_all add: sends_ok_def delivery_wf_def inbox_ok_def)
  have fin: "always (sends_ok fromiso) (on_tables (delivery_finalize fromiso (d_id x))) (\<lambda>_. True)"
    by (intro keeps_table_ops TrueI)
  show ?case
  proof (cases "inbox_view fromiso (w_tables w) (d_item_id x)")
    case None
    have "always (sends_ok fromiso) (bind_act (fail_missing_item fromiso now (d_id x) (d_required_adapters x)) (\<lambda>_.
           on_tables (delivery_finalize fromiso (d_id x)))) (\<lambda>_. True)"
      by (intro always_bind [OF keeps_fail_missing_item] fin)
    from alwaysD [OF this w] 1 None show ?thesis by (simp add: inbox_get_view [OF s])
  next
    case (Some item)
    then have "d_id x = record_key (inbox_id item)"
      using inbox_view_valid [OF s Some] x by (simp add: linked_def)
    then have "always (sends_ok fromiso) (bind_act (send_pending fromiso now send adapters item (d_id x) (d_required_adapters x)) (\<lambda>_.
           on_tables (delivery_finalize fromiso (d_id x)))) (\<lambda>_. True)"
      using always_bind [OF keeps_send_pending fin] by simp
    from alwaysD [OF this w] 1 Some show ?thesis by (simp add: inbox_get_view [OF s])
  qed
qed

lemma keeps_deliver: "always (sends_ok fromiso) (deliver fromiso now send adapters record_id) (\<lambda>_. True)"
  unfolding deliver_def
  by (intro always_bind [OF always_lift [where Q = "\<lambda>_. True"]] always_bind [OF get_linked]
      always_bind [OF prepare_linked] always_bind [OF recover_linked] always_if always_ret keeps_deliver_tail) auto

lemma keeps_run_records:
  "always (\<lambda>(amb, w). sends_ok fromiso w) (run_records fromiso now send adapters xs n) (\<lambda>_. True)"
proof (induction xs arbitrary: n)
  case Nil
  show ?case unfolding run_records.simps by (rule always_ret) simp
next
  case (Cons x xs)
  have d: "always (\<lambda>(amb, w). sends_ok fromiso w) (use_runtime_context c (\<lambda>(amb, w).
      case deliver fromiso now send adapters (d_id x) w of (r, w') \<Rightarrow> (r, (amb, w')))) (\<lambda>_. True)" for c
    using alwaysD [OF keeps_deliver, of fromiso _ now send adapters "d_id x"]
    by (force simp: always_def use_runtime_context_def split: prod.splits)
  show ?case unfolding run_records.simps
    by (intro always_bind [OF always_lift [where Q = "\<lambda>_. True"]] always_bind [OF d] Cons.IH TrueI)
qed

lemma keeps_run_once:
  "always (\<lambda>(amb, w). sends_ok fromiso w) (run_once fromiso now send adapters) (\<lambda>_. True)"
proof -
  have "on_tables (delivery_list fromiso status) w = (fst (delivery_list fromiso status (w_tables w)), w)" for status w
    by (simp add: delivery_list_def repo_list_def tab_list_def bind_act_def on_tables_def)
  then have "always (\<lambda>(amb, w). sends_ok fromiso w)
      (\<lambda>(amb, w). case on_tables (delivery_list fromiso (Some DPending)) w of (r, w') \<Rightarrow> (r, (amb, w'))) (\<lambda>_. True)"
    by (auto simp: always_def)
  then show ?thesis unfolding run_once_def by (rule always_bind) (rule keeps_run_records)
qed

lemma raising_request:
  assumes "context_valid context"
  shows "raising fromiso (delivery_request fromiso now item_id context)"
proof (rule raisingI)
  fix t
  assume t: "delivery_wf fromiso t"
  let ?x = "\<lparr>d_id = record_key item_id, d_item_id = item_id, d_status = DPending, d_required_adapters = [],
             d_results = [], d_created_at = now, d_context = context\<rparr>"
  have find: "repo_find (tab_get ''delivery_records'' (record_key item_id)) (delivery_from_wire fromiso) t
      = (Inr (delivery_view fromiso t (record_key item_id)), t)"
    using delivery.repo_find_view [of fromiso "''delivery_records''" t "record_key item_id"] wf_stored [OF t] by simp
  show "raises fromiso t (snd (delivery_request fromiso now item_id context t))"
  proof (cases "delivery_view fromiso t (record_key item_id)")
    case (Some x)
    then have "snd (delivery_request fromiso now item_id context t) = t"
      using find by (simp add: delivery_request_def Let_def record_key_def [symmetric] atomic_act_def bind_act_def
          del: append.simps append_Cons)
    with t show ?thesis by (simp add: raises_refl)
  next
    case None
    then have step: "delivery_request fromiso now item_id context t = atomic_act (delivery_update fromiso (Inr ?x)) t"
      using find by (simp add: delivery_request_def Let_def record_key_def [symmetric] atomic_act_def bind_act_def
          del: append.simps append_Cons)
    show ?thesis
    proof (cases "delivery_valid fromiso ?x")
      case True
      from delivery_update_run [OF wf_stored [OF t] True] obtain t' where
        t': "delivery_update fromiso (Inr ?x) t = (Inr ?x, t')" "saved fromiso t ?x t'" .
      have "raises fromiso t t'" by (rule raises_saved [OF t t'(2)]) (simp_all add: None)
      with t' step show ?thesis by (simp add: atomic_act_def)
    next
      case False
      then have "\<exists>e. make_delivery_record fromiso ?x = Inl e"
        using assms by (auto simp: delivery_valid_def make_delivery_record_def raise_if_def aware_def is_aware_def split: iso.splits)
      with step t show ?thesis
        by (auto simp: atomic_act_def delivery_update_def bind_act_def raises_refl)
    qed
  qed
qed

section \<open>What clients of delivery rely on\<close>

text \<open>
  A history of the delivery system: requests, deliveries of single records and runs of the loop,
  with any configured adapters, any clock and any behaviour of the adapters, between arbitrary
  Inbox operations.
\<close>

inductive delivery_step :: "iso_parser \<Rightarrow> world \<Rightarrow> world \<Rightarrow> bool" for fromiso where
  Requested: "context_valid context \<Longrightarrow>
    delivery_step fromiso w (snd (on_tables (delivery_request fromiso now item_id context) w))"
| Delivered: "delivery_step fromiso w (snd (deliver fromiso now send adapters record_id w))"
| Ran: "delivery_step fromiso w (snd (snd (run_once fromiso now send adapters (amb, w))))"
| Inbox: "inbox_step fromiso (w_tables w) t \<Longrightarrow> delivery_step fromiso w (w\<lparr>w_tables := t\<rparr>)"

definition empty_world :: world where
  "empty_world = \<lparr>w_tables = (\<lambda>_. []), w_sends = []\<rparr>"

lemma sends_ok_empty: "sends_ok fromiso empty_world"
proof -
  have "delivery_view fromiso (\<lambda>_. []) = Map.empty"
    by (simp add: delivery_view_def view_def load_def coll_get_def fun_eq_iff)
  then show ?thesis
    by (simp add: sends_ok_def empty_world_def delivery_wf_def delivery_stored_def send_count_def)
qed

lemma wf_inbox_step:
  assumes "inbox_step fromiso t t'" and "delivery_wf fromiso t"
  shows "raises fromiso t t'"
proof -
  have "t' ''delivery_records'' = t ''delivery_records''"
    using inbox_step_frame [OF assms(1)] by simp
  then show ?thesis
    using inbox_step_ok [OF assms(1)] assms(2)
    by (simp add: raises_def delivery_wf_def delivery_stored_def delivery_view_def allowance_def)
qed

lemma delivery_step_ok:
  assumes "delivery_step fromiso w w'" and "sends_ok fromiso w"
  shows "sends_ok fromiso w'"
  using assms
proof cases
  case (Requested ctx now item_id)
  have "always (sends_ok fromiso) (on_tables (delivery_request fromiso now item_id ctx)) (\<lambda>_. True)"
    by (rule keeps_on_tables [OF raising_request [OF Requested(2)]]) simp
  with Requested assms(2) show ?thesis by (simp add: alwaysD)
next
  case Delivered
  with assms(2) show ?thesis by (simp add: alwaysD [OF keeps_deliver])
next
  case (Ran now send adapters amb)
  with alwaysD [OF keeps_run_once, of fromiso "(amb, w)" now send adapters] assms(2) show ?thesis
    by (simp add: case_prod_beta)
next
  case (Inbox t)
  from assms(2) have "delivery_wf fromiso (w_tables w)" by (simp add: sends_ok_def)
  from sends_ok_raises [OF assms(2) wf_inbox_step [OF Inbox(2) this]] Inbox(1) show ?thesis by simp
qed

text \<open>
  C1: In every history, whatever the adapters do, answer or raise in the middle of a send, an
  adapter is asked at most once to deliver an item.
\<close>

theorem at_most_one_send:
  assumes "(delivery_step fromiso)\<^sup>*\<^sup>* empty_world w"
  shows "send_count (w_sends w) adapter item_id \<le> 1"
proof -
  have "sends_ok fromiso w"
    using assms by (induction rule: rtranclp_induct) (auto intro: delivery_step_ok sends_ok_empty)
  then have "send_count (w_sends w) adapter item_id \<le> allowance fromiso (w_tables w) adapter item_id"
    by (simp add: sends_ok_def)
  also have "\<dots> \<le> 1" by (simp add: allowance_def split: option.splits)
  finally show ?thesis .
qed


section \<open>Delivery as a function of the record\<close>

text \<open>
  The reference: what one delivery does with the results of a recovered record, in order, when no
  send raises. \<open>outcome\<close> is the result an attempt leaves.
\<close>

definition outcome :: "string \<Rightarrow> bool \<Rightarrow> AdapterResult \<Rightarrow> AdapterResult" where
  "outcome now success r = \<lparr>ar_status = (if success then ASent else AFailed), ar_attempts = ar_attempts r + 1,
     ar_sent_at = (if success then Some now else None)\<rparr>"

definition answer :: "bool result \<Rightarrow> bool" where
  "answer r = (case r of Inr b \<Rightarrow> b | Inl _ \<Rightarrow> False)"

fun deliver_results ::
  "(string \<Rightarrow> string) \<Rightarrow> adapter_send \<Rightarrow> string list \<Rightarrow> InboxItem \<Rightarrow> (string \<times> AdapterResult) list \<Rightarrow> send list
   \<Rightarrow> (string \<times> AdapterResult) list \<times> send list" where
  "deliver_results now send adapters item [] sends = ([], sends)"
| "deliver_results now send adapters item ((a, r) # rs) sends =
     (if ar_status r \<noteq> APending
      then (case deliver_results now send adapters item rs sends of (rs', s) \<Rightarrow> ((a, r) # rs', s))
      else if a \<in> set adapters
      then (case deliver_results now send adapters item rs ((a, inbox_id item, ar_attempts r + 1) # sends) of
              (rs', s) \<Rightarrow> ((a, outcome (now a) (answer (send sends a item (ar_attempts r + 1))) r) # rs', s))
      else (case deliver_results now send adapters item rs sends of
              (rs', s) \<Rightarrow> ((a, outcome (now a) False r) # rs', s)))"

lemma saved_trans: "saved fromiso t x t' \<Longrightarrow> saved fromiso t' y t'' \<Longrightarrow> d_id y = d_id x \<Longrightarrow> saved fromiso t y t''"
  by (auto simp: saved_def)

lemma saved_view: "saved fromiso t x t' \<Longrightarrow> delivery_view fromiso t' (d_id x) = Some x"
  by (simp add: saved_def)

lemma saved_stored: "saved fromiso t x t' \<Longrightarrow> delivery_stored fromiso t'"
  by (simp add: saved_def)

lemma set_result_twice [simp]: "set_result a r (set_result a s x) = set_result a r x"
  by (cases x) (auto simp: set_result_def)

lemma set_result_append:
  assumes "distinct (map fst (ds @ (a, r) # ps))" and "d_results x = ds @ (a, r) # ps"
  shows "d_results (set_result a r' x) = ds @ (a, r') # ps"
proof -
  have "map (\<lambda>(key, v). (key, if key = a then r' else v)) qs = qs" if "a \<notin> fst ` set qs" for qs :: "(string \<times> AdapterResult) list"
    using that by (induction qs) auto
  with assms show ?thesis by (auto simp: set_result_def)
qed

lemma attempt_run:
  assumes t: "delivery_stored fromiso t" "delivery_view fromiso t key = Some x"
    and r: "map_of (d_results x) a = Some r" "ar_status r = APending" and now: "is_aware fromiso (now a)"
  obtains t1 t2 where "delivery_begin fromiso key a t = (Inr (begun a r x), t1)"
    "result_at (begun a r x) a = Inr \<lparr>ar_status = ADelivering, ar_attempts = ar_attempts r + 1, ar_sent_at = None\<rparr>"
    "delivery_finish_adapter fromiso (now a) key a b t1 = (Inr (set_result a (outcome (now a) b r) x), t2)"
    "saved fromiso t (set_result a (outcome (now a) b r) x) t2"
proof -
  let ?r = "\<lparr>ar_status = ADelivering, ar_attempts = ar_attempts r + 1, ar_sent_at = None\<rparr>"
  have k: "d_id x = key" using delivery_view_valid [OF t] by simp
  from begin_run [OF t r(1)] obtain t1 where t1: "delivery_begin fromiso key a t = (Inr (begun a r x), t1)"
    "saved fromiso t (begun a r x) t1" by blast
  have v1: "delivery_view fromiso t1 key = Some (begun a r x)" using saved_view [OF t1(2)] k by simp
  have r1: "map_of (d_results (begun a r x)) a = Some ?r" using r by (simp add: begun_def)
  from finish_run [OF saved_stored [OF t1(2)] v1 r1, where now = "now a" and success = b] now obtain t2 where
    t2: "delivery_finish_adapter fromiso (now a) key a b t1 = (Inr (finished (now a) a b ?r (begun a r x)), t2)"
    "saved fromiso t1 (finished (now a) a b ?r (begun a r x)) t2" by blast
  have e: "finished (now a) a b ?r (begun a r x) = set_result a (outcome (now a) b r) x"
    using r by (simp add: finished_def begun_def outcome_def)
  show ?thesis
    using t1 t2 r1 saved_trans [OF t1(2) t2(2)] by (intro that [of t1 t2]) (simp_all add: e result_at_def)
qed

lemma send_pending_run:
  assumes "delivery_stored fromiso (w_tables w)" and "delivery_view fromiso (w_tables w) key = Some x"
    and "d_results x = ds @ ps" and "\<And>a. is_aware fromiso (now a)" and "\<And>l a n. \<not> isl (send l a item n)"
  shows "\<exists>t'. send_pending fromiso now send adapters item key (map fst ps) w =
      (Inr (), \<lparr>w_tables = t', w_sends = snd (deliver_results now send adapters item ps (w_sends w))\<rparr>)
    \<and> saved fromiso (w_tables w)
        (x\<lparr>d_results := ds @ fst (deliver_results now send adapters item ps (w_sends w))\<rparr>) t'"
  using assms(1-3)
proof (induction ps arbitrary: w x ds)
  case Nil
  then show ?case using saved_refl [OF Nil(1,2)]
    by (intro exI [of _ "w_tables w"]) (cases w, cases x, simp)
next
  case (Cons p ps)
  obtain a r where p: "p = (a, r)" by fastforce
  have x: "delivery_valid fromiso x" "d_id x = key" using delivery_view_valid [OF Cons.prems(1,2)] by simp_all
  have d: "distinct (map fst (ds @ (a, r) # ps))" "d_results x = ds @ (a, r) # ps"
    using x(1) Cons.prems(3) p by (auto simp: delivery_valid_def)
  have m: "map_of (d_results x) a = Some r" using d(1) unfolding d(2) by (intro map_of_is_SomeI) auto
  show ?case
  proof (cases "ar_status r = APending")
    case False
    have one: "send_one fromiso now send adapters item key a w = (Inr (), w)"
      using False m Cons.prems by (simp add: send_one_def bind_act_def on_tables_def delivery_get_view result_at_def)
    have ds: "d_results x = (ds @ [(a, r)]) @ ps" using d by simp
    from Cons.IH [OF Cons.prems(1,2) ds] one False show ?thesis
      by (auto simp: p send_pending_Cons bind_act_def split: prod.splits simp del: send_pending.simps)
  next
    case True
    define ok where "ok = answer (send (w_sends w) a item (ar_attempts r + 1))"
    define b where "b = (if a \<in> set adapters then ok else False)"
    define s where "s = (if a \<in> set adapters then (a, inbox_id item, ar_attempts r + 1) # w_sends w else w_sends w)"
    define y where "y = set_result a (outcome (now a) b r) x"
    from attempt_run [where now = now and a = a and b = b, OF Cons.prems(1,2) m True assms(4), folded y_def] obtain t1 t2 where
      t1: "delivery_begin fromiso key a (w_tables w) = (Inr (begun a r x), t1)"
      "result_at (begun a r x) a = Inr \<lparr>ar_status = ADelivering, ar_attempts = ar_attempts r + 1, ar_sent_at = None\<rparr>"
      and t2: "delivery_finish_adapter fromiso (now a) key a b t1 = (Inr y, t2)" "saved fromiso (w_tables w) y t2"
      .
    have "send (w_sends w) a item (ar_attempts r + 1) = Inr ok"
      using assms(5) [of "w_sends w" a "ar_attempts r + 1"]
      by (cases "send (w_sends w) a item (ar_attempts r + 1)") (simp_all add: ok_def answer_def)
    then have one: "send_one fromiso now send adapters item key a w = (Inr (), \<lparr>w_tables = t2, w_sends = s\<rparr>)"
      using True m Cons.prems(1,2) t1 t2(1)
      by (cases w; cases "a \<in> set adapters")
        (simp_all add: send_one_def bind_act_def on_tables_def delivery_get_view result_at_def call_send_def b_def s_def)
    have y: "d_id y = key" "d_results y = (ds @ [(a, outcome (now a) b r)]) @ ps"
      using set_result_append [OF d] x by (simp_all add: y_def)
    let ?w = "\<lparr>w_tables = t2, w_sends = s\<rparr>"
    have "delivery_stored fromiso (w_tables ?w)" "delivery_view fromiso (w_tables ?w) key = Some y"
      using saved_stored [OF t2(2)] saved_view [OF t2(2)] y(1) by simp_all
    from Cons.IH [OF this y(2)] obtain t' where
      t': "send_pending fromiso now send adapters item key (map fst ps) ?w =
        (Inr (), \<lparr>w_tables = t', w_sends = snd (deliver_results now send adapters item ps s)\<rparr>)"
      "saved fromiso t2 (y\<lparr>d_results := (ds @ [(a, outcome (now a) b r)])
         @ fst (deliver_results now send adapters item ps s)\<rparr>) t'" by auto
    have res: "deliver_results now send adapters item (p # ps) (w_sends w) =
        ((a, outcome (now a) b r) # fst (deliver_results now send adapters item ps s),
         snd (deliver_results now send adapters item ps s))"
      using True by (simp add: p b_def s_def ok_def case_prod_beta)
    have yx: "y\<lparr>d_results := rs\<rparr> = x\<lparr>d_results := rs\<rparr>" for rs
      by (simp add: y_def set_result_def)
    show ?thesis
      using one t' saved_trans [OF t2(2) t'(2)] y(1) x(2)
      by (intro exI [of _ t']) (simp add: p send_pending_Cons bind_act_def res [unfolded p] yx
          del: send_pending.simps deliver_results.simps)
  qed
qed


definition fail_pending :: "(string \<Rightarrow> string) \<Rightarrow> string \<times> AdapterResult \<Rightarrow> string \<times> AdapterResult" where
  "fail_pending now = (\<lambda>(a, r). (a, if ar_status r = APending then outcome (now a) False r else r))"

lemma fail_missing_run:
  assumes "delivery_stored fromiso (w_tables w)" and "delivery_view fromiso (w_tables w) key = Some x"
    and "d_results x = ds @ ps" and "\<And>a. is_aware fromiso (now a)"
  shows "\<exists>t'. fail_missing_item fromiso now key (map fst ps) w = (Inr (), w\<lparr>w_tables := t'\<rparr>)
    \<and> saved fromiso (w_tables w) (x\<lparr>d_results := ds @ map (fail_pending now) ps\<rparr>) t'"
  using assms(1-3)
proof (induction ps arbitrary: w x ds)
  case Nil
  then show ?case using saved_refl [OF Nil(1,2)]
    by (intro exI [of _ "w_tables w"]) (cases x, simp)
next
  case (Cons p ps)
  obtain a r where p: "p = (a, r)" by fastforce
  have x: "delivery_valid fromiso x" "d_id x = key" using delivery_view_valid [OF Cons.prems(1,2)] by simp_all
  have d: "distinct (map fst (ds @ (a, r) # ps))" "d_results x = ds @ (a, r) # ps"
    using x(1) Cons.prems(3) p by (auto simp: delivery_valid_def)
  have m: "map_of (d_results x) a = Some r" using d(1) unfolding d(2) by (intro map_of_is_SomeI) auto
  show ?case
  proof (cases "ar_status r = APending")
    case False
    have ds: "d_results x = (ds @ [(a, r)]) @ ps" using d by simp
    from Cons.IH [OF Cons.prems(1,2) ds] False m Cons.prems(1,2) show ?thesis
      by (auto simp: p bind_act_def on_tables_def delivery_get_view result_at_def fail_pending_def)
  next
    case True
    define y where "y = set_result a (outcome (now a) False r) x"
    from attempt_run [where now = now and a = a and b = False, OF Cons.prems(1,2) m True assms(4), folded y_def] obtain t1 t2 where
      t1: "delivery_begin fromiso key a (w_tables w) = (Inr (begun a r x), t1)"
      "result_at (begun a r x) a = Inr \<lparr>ar_status = ADelivering, ar_attempts = ar_attempts r + 1, ar_sent_at = None\<rparr>"
      and t2: "delivery_finish_adapter fromiso (now a) key a False t1 = (Inr y, t2)" "saved fromiso (w_tables w) y t2" .
    have y: "d_id y = key" "d_results y = (ds @ [(a, outcome (now a) False r)]) @ ps"
      using set_result_append [OF d] x by (simp_all add: y_def)
    let ?w = "w\<lparr>w_tables := t2\<rparr>"
    have "delivery_stored fromiso (w_tables ?w)" "delivery_view fromiso (w_tables ?w) key = Some y"
      using saved_stored [OF t2(2)] saved_view [OF t2(2)] y(1) by simp_all
    from Cons.IH [OF this y(2)] obtain t' where
      t': "fail_missing_item fromiso now key (map fst ps) ?w = (Inr (), w\<lparr>w_tables := t'\<rparr>)"
      "saved fromiso t2 (y\<lparr>d_results := (ds @ [(a, outcome (now a) False r)]) @ map (fail_pending now) ps\<rparr>) t'" by auto
    have yx: "y\<lparr>d_results := rs\<rparr> = x\<lparr>d_results := rs\<rparr>" for rs
      by (simp add: y_def set_result_def)
    have fp: "fail_pending now (a, r) = (a, outcome (now a) False r)"
      using True by (simp add: fail_pending_def)
    show ?thesis
      using True m Cons.prems(1,2) t1 t2(1) t' saved_trans [OF t2(2) t'(2)] y(1) x(2)
      by (intro exI [of _ t']) (simp add: p bind_act_def on_tables_def delivery_get_view result_at_def fp yx)
  qed
qed

text \<open>One delivery of a pending record, as a function.\<close>

definition deliver_record ::
  "(string \<Rightarrow> string) \<Rightarrow> adapter_send \<Rightarrow> string list \<Rightarrow> InboxItem option \<Rightarrow> DeliveryRecord \<Rightarrow> send list
   \<Rightarrow> DeliveryRecord \<times> send list" where
  "deliver_record now send adapters item x sends =
     (let y = recovered (prepared adapters x) in
      case item of
        None \<Rightarrow> (finalized (y\<lparr>d_results := map (fail_pending now) (d_results y)\<rparr>), sends)
      | Some item \<Rightarrow> (case deliver_results now send adapters item (d_results y) sends of
          (rs, sends') \<Rightarrow> (finalized (y\<lparr>d_results := rs\<rparr>), sends')))"

text \<open>
  C14: A delivery in which no adapter raises implements that function: it ends, it returns the
  record the function gives and stores exactly that record, it asks for exactly the sends the
  function lists, and a record already sent or failed is returned untouched.
\<close>

theorem deliver_refines:
  assumes "delivery_wf fromiso (w_tables w)" and "delivery_view fromiso (w_tables w) key = Some x"
    and "validate_storage_key key = Inr ()" and "distinct adapters" and "'''' \<notin> set adapters"
    and "\<And>a. is_aware fromiso (now a)" and "\<And>s a item n. \<not> isl (send s a item n)"
  defines "spec \<equiv> deliver_record now send adapters (inbox_view fromiso (w_tables w) (d_item_id x)) x (w_sends w)"
  shows "if d_status x \<noteq> DPending then deliver fromiso now send adapters key w = (Inr x, w)
    else \<exists>w'. deliver fromiso now send adapters key w = (Inr (fst spec), w') \<and> w_sends w' = snd spec
      \<and> delivery_view fromiso (w_tables w') = (delivery_view fromiso (w_tables w))(key \<mapsto> fst spec)"
proof (cases "d_status x = DPending")
  case False
  with assms(1-3) show ?thesis
    by (simp add: deliver_def bind_act_def on_tables_def delivery_get_view wf_stored)
next
  case True
  note t = wf_stored [OF assms(1)] assms(2)
  have inb: "inbox_stored fromiso (w_tables w)" using assms(1) by (simp add: delivery_wf_def inbox_ok_def)
  have k: "d_id x = key" using delivery_view_valid [OF t] by simp
  let ?p = "prepared adapters x" let ?y = "recovered ?p"
  from prepare_run(1) [OF t assms(4,5)] obtain t1 where
    t1: "delivery_prepare fromiso key adapters (w_tables w) = (Inr ?p, t1)" "saved fromiso (w_tables w) ?p t1" by blast
  have v1: "delivery_view fromiso t1 key = Some ?p" using saved_view [OF t1(2)] k by simp
  from recover_run [OF saved_stored [OF t1(2)] v1] obtain t2 where
    t2: "delivery_recover fromiso key t1 = (Inr ?y, t2)" "saved fromiso t1 ?y t2" by blast
  have s2: "saved fromiso (w_tables w) ?y t2" using saved_trans [OF t1(2) t2(2)] by simp
  let ?w = "w\<lparr>w_tables := t2\<rparr>"
  have w2: "delivery_stored fromiso (w_tables ?w)" "delivery_view fromiso (w_tables ?w) key = Some ?y"
    using saved_stored [OF t2(2)] saved_view [OF t2(2)] k by simp_all
  have req: "d_required_adapters ?y = map fst (d_results ?y)"
    using delivery_view_valid [OF w2] by (simp add: delivery_valid_def)
  have same: "t2 ''inbox_items'' = w_tables w ''inbox_items''" using s2 by (simp add: saved_def)
  have inb2: "inbox_stored fromiso t2" "inbox_view fromiso t2 = inbox_view fromiso (w_tables w)"
    using inb same by (simp_all add: inbox_stored_def inbox_view_def)
  show ?thesis
  proof (cases "inbox_view fromiso (w_tables w) (d_item_id x)")
    case None
    obtain t3 where
      t3: "fail_missing_item fromiso now key (d_required_adapters ?y) ?w = (Inr (), w\<lparr>w_tables := t3\<rparr>)"
      "saved fromiso t2 (?y\<lparr>d_results := map (fail_pending now) (d_results ?y)\<rparr>) t3"
      using fail_missing_run [OF w2, of "[]" "d_results ?y" now] assms(6) unfolding req append_Nil by auto
    let ?z = "?y\<lparr>d_results := map (fail_pending now) (d_results ?y)\<rparr>"
    have v3: "delivery_view fromiso t3 key = Some ?z" using saved_view [OF t3(2)] k by simp
    from finalize_run [OF saved_stored [OF t3(2)] v3] obtain t4 where
      t4: "delivery_finalize fromiso key t3 = (Inr (finalized ?z), t4)" "saved fromiso t3 (finalized ?z) t4" by blast
    have "saved fromiso (w_tables w) (finalized ?z) t4"
      using saved_trans [OF saved_trans [OF s2 t3(2)] t4(2)] by simp
    with True k t t1(1) t2(1) t3(1) t4(1) None assms(3) inb2 show ?thesis
      by (simp add: deliver_def bind_act_def on_tables_def delivery_get_view inbox_get_view spec_def
          deliver_record_def saved_def Let_def)
  next
    case (Some item)
    let ?rs = "deliver_results now send adapters item (d_results ?y) (w_sends w)"
    obtain t3 where
      t3: "send_pending fromiso now send adapters item key (d_required_adapters ?y) ?w =
          (Inr (), \<lparr>w_tables = t3, w_sends = snd ?rs\<rparr>)"
      "saved fromiso t2 (?y\<lparr>d_results := fst ?rs\<rparr>) t3"
      using send_pending_run [OF w2, of "[]" "d_results ?y" now send item adapters] assms(6,7)
      unfolding req append_Nil by auto
    let ?z = "?y\<lparr>d_results := fst ?rs\<rparr>"
    have v3: "delivery_view fromiso t3 key = Some ?z" using saved_view [OF t3(2)] k by simp
    from finalize_run [OF saved_stored [OF t3(2)] v3] obtain t4 where
      t4: "delivery_finalize fromiso key t3 = (Inr (finalized ?z), t4)" "saved fromiso t3 (finalized ?z) t4" by blast
    have "saved fromiso (w_tables w) (finalized ?z) t4"
      using saved_trans [OF saved_trans [OF s2 t3(2)] t4(2)] by simp
    with True k t t1(1) t2(1) t3(1) t4(1) Some assms(3) inb2 show ?thesis
      by (simp add: deliver_def bind_act_def on_tables_def delivery_get_view inbox_get_view spec_def
          deliver_record_def saved_def Let_def case_prod_beta)
  qed
qed

lemma deliver_results_keys: "map fst (fst (deliver_results now send adapters item rs sends)) = map fst rs"
  by (induction rs arbitrary: sends) (auto simp: case_prod_beta)

lemma deliver_results_decided:
  "map_of rs a = Some r \<Longrightarrow> ar_status r \<noteq> APending \<Longrightarrow>
   map_of (fst (deliver_results now send adapters item rs sends)) a = Some r"
  by (induction rs arbitrary: sends) (auto simp: case_prod_beta split: if_splits)

lemma deliver_results_status:
  "(a, r) \<in> set (fst (deliver_results now send adapters item rs sends)) \<Longrightarrow>
   ar_status r \<in> {ASent, AFailed} \<or> (a, r) \<in> set rs \<and> ar_status r \<noteq> APending"
  by (induction rs arbitrary: sends) (auto simp: case_prod_beta outcome_def split: if_splits, metis+)

lemma deliver_results_sends:
  "distinct (map fst rs) \<Longrightarrow> \<forall>r. map_of rs a = Some r \<longrightarrow> ar_status r \<noteq> APending \<Longrightarrow>
   send_count (snd (deliver_results now send adapters item rs sends)) a i = send_count sends a i"
proof (induction rs arbitrary: sends)
  case (Cons p rs)
  obtain b r where p: "p = (b, r)" by fastforce
  have rest: "distinct (map fst rs)" "\<forall>r. map_of rs a = Some r \<longrightarrow> ar_status r \<noteq> APending"
    using Cons.prems p by (auto split: if_splits simp: map_of_eq_None_iff) (metis fst_conv image_eqI map_of_SomeD)+
  have ih: "send_count (snd (deliver_results now send adapters item rs s)) a i = send_count s a i" for s
    using Cons.IH [OF rest] .
  have "b \<noteq> a \<or> ar_status r \<noteq> APending" using Cons.prems(2) p by auto
  with ih show ?case by (auto simp: p case_prod_beta send_count_def)
qed simp

text \<open>
  What that function decides: no adapter of a delivered record stays pending or in flight; an
  earlier result that was already decided is kept; a send that was in flight when the process died
  becomes uncertain and is not repeated; and the record is sent exactly if every adapter is.
\<close>

theorem deliver_record_decides:
  assumes "delivery_valid fromiso x" and "distinct adapters" and "adapters \<noteq> []"
    and "deliver_record now send adapters item x sends = (y, sends')"
  shows "d_status y \<noteq> DPending
    \<and> (d_status y = DSent \<longleftrightarrow> (\<forall>(a, r) \<in> set (d_results y). ar_status r = ASent))
    \<and> (\<forall>a r. map_of (d_results x) a = Some r \<longrightarrow> ar_status r \<noteq> APending \<longrightarrow>
         map_of (d_results y) a = Some (recover_result r) \<and>
         send_count sends' a item_id = send_count sends a item_id)"
proof -
  let ?z = "recovered (prepared adapters x)"
  have zv: "map fst (d_results ?z) = d_required_adapters ?z" "d_required_adapters ?z \<noteq> []" "distinct (map fst (d_results ?z))"
    using assms(1-3) by (auto simp: delivery_valid_def recovered_def prepared_def comp_def case_prod_beta)
  have zs: "\<forall>(a, r) \<in> set (d_results ?z). ar_status r \<noteq> ADelivering"
    by (auto simp: recovered_def recover_result_def split: if_splits)
  have zx: "map_of (d_results ?z) a = Some (recover_result r)" "ar_status (recover_result r) \<noteq> APending"
    if "map_of (d_results x) a = Some r" "ar_status r \<noteq> APending" for a r
    using that assms(1) by (auto simp: prepared_def recover_result_def delivery_valid_def)
  define rs where "rs = (case item of None \<Rightarrow> map (fail_pending now) (d_results ?z)
    | Some i \<Rightarrow> fst (deliver_results now send adapters i (d_results ?z) sends))"
  have y: "y = finalized (?z\<lparr>d_results := rs\<rparr>)"
    using assms(4) by (auto simp: deliver_record_def rs_def Let_def split: option.splits prod.splits)
  have keys: "map fst rs = map fst (d_results ?z)"
    by (simp add: rs_def deliver_results_keys fail_pending_def comp_def case_prod_beta split: option.splits)
  have st: "ar_status r \<notin> {APending, ADelivering}" if "(a, r) \<in> set rs" for a r
    using that zs by (auto simp: rs_def fail_pending_def outcome_def split: option.splits if_splits
        dest!: deliver_results_status)
  have dec: "map_of rs a = Some r" if "map_of (d_results ?z) a = Some r" "ar_status r \<noteq> APending" for a r
    using that deliver_results_decided [OF that]
      lookup_map_rows [where f = "\<lambda>k v. if ar_status v = APending then outcome (now k) False v else v"
        and rs = "d_results ?z" and key = a]
    by (auto simp: rs_def fail_pending_def split: option.splits)
  have cnt: "send_count sends' a item_id = send_count sends a item_id"
    if "map_of (d_results ?z) a = Some r" "ar_status r \<noteq> APending" for a r
    using assms(4) deliver_results_sends [OF zv(3), of a] that
    by (auto simp: deliver_record_def Let_def case_prod_beta split: option.splits)
  have "rs \<noteq> []" using keys zv by auto
  then have fin: "d_status y \<noteq> DPending" "d_status y = DSent \<longleftrightarrow> (\<forall>(a, r) \<in> set (d_results y). ar_status r = ASent)"
    using st by (auto simp: y finalized_def final_status_def list_ex_iff list_all_iff)
  have "d_results y = rs" by (simp add: y finalized_def)
  with fin dec [OF zx] cnt [OF zx] show ?thesis by auto
qed


section \<open>Concrete runs\<close>

definition sample_record :: DeliveryRecord where
  "sample_record = \<lparr>d_id = record_key ''a'', d_item_id = ''a'', d_status = DPending,
     d_required_adapters = [''log'', ''mail''],
     d_results = [(''log'', \<lparr>ar_status = ADelivering, ar_attempts = 1, ar_sent_at = None\<rparr>), (''mail'', fresh_result)],
     d_created_at = ''c'', d_context = empty_context\<rparr>"

definition sample_world :: world where
  "sample_world = \<lparr>w_tables = sample_tables(''delivery_records'' :=
     row_put (d_id sample_record) (payload_of (delivery_to_wire sample_record)) []),
     w_sends = [(''log'', ''a'', 1)]\<rparr>"

lemma sample_record_valid: "delivery_valid any_iso sample_record"
  by (simp add: delivery_valid_def sample_record_def adapter_valid_def fresh_result_def record_key_def)

lemma sample_delivery:
  "delivery_stored any_iso (w_tables sample_world)"
  "delivery_view any_iso (w_tables sample_world) = [record_key ''a'' \<mapsto> sample_record]"
proof -
  have e: "view (delivery_from_wire any_iso) [] = Map.empty"
    by (simp add: view_def load_def coll_get_def fun_eq_iff)
  show "delivery_stored any_iso (w_tables sample_world)"
    using delivery.stored_put [OF _ sample_record_valid, of "[]"]
    by (simp add: delivery_stored_def sample_world_def del: row_put.simps)
  show "delivery_view any_iso (w_tables sample_world) = [record_key ''a'' \<mapsto> sample_record]"
    using delivery.view_put [OF _ sample_record_valid, of "[]"]
    by (simp add: delivery_view_def sample_world_def e del: row_put.simps) (simp add: sample_record_def)
qed

lemma sample_world_wf: "delivery_wf any_iso (w_tables sample_world)"
proof -
  have "inbox_ok any_iso (w_tables sample_world)"
    using sample_tables_ok by (simp add: inbox_ok_def inbox_stored_def inbox_items_def sample_world_def)
  then show ?thesis
    by (simp add: delivery_wf_def sample_delivery) (simp add: sample_record_def)
qed

lemma sample_inbox_view: "inbox_view any_iso (w_tables sample_world) ''a'' = Some (sample_item ''a'' ''k'')"
proof -
  have "inbox_view any_iso (w_tables sample_world) = inbox_view any_iso sample_tables"
    by (simp add: inbox_view_def sample_world_def)
  then show ?thesis by (simp add: sample_view)
qed

lemma at_most_one_send_witness:
  "let crash = (\<lambda>_ _ _ _. Inl (OtherException ''killed'')); yes = (\<lambda>_ _ _ _. Inr True);
     w1 = snd (on_tables (delivery_request any_iso ''now'' ''a'' empty_context) empty_world);
     w2 = snd (deliver any_iso (\<lambda>_. ''now'') crash [''log''] ''delivery-a'' w1);
     w3 = snd (deliver any_iso (\<lambda>_. ''now'') yes [''log''] ''delivery-a'' w2) in
   send_count (w_sends w3) ''log'' ''a'' \<le> 1"
proof -
  let ?w1 = "snd (on_tables (delivery_request any_iso ''now'' ''a'' empty_context) empty_world)"
  have "(delivery_step any_iso)\<^sup>*\<^sup>* empty_world ?w1"
    by (intro r_into_rtranclp delivery_step.Requested) simp
  then have "(delivery_step any_iso)\<^sup>*\<^sup>* empty_world (snd (deliver any_iso now' send' as' key'
      (snd (deliver any_iso now send as key ?w1))))" for now' send' as' key' now send as key
    by (meson delivery_step.Delivered rtranclp.rtrancl_into_rtrancl)
  from at_most_one_send [OF this] show ?thesis unfolding Let_def .
qed

lemma deliver_refines_witness:
  "\<exists>w' y. deliver any_iso (\<lambda>_. ''now'') (\<lambda>_ _ _ _. Inr True) [''log''] ''delivery-a'' sample_world = (Inr y, w')
    \<and> d_status y = DFailed \<and> w_sends w' = [(''log'', ''a'', 1)]
    \<and> map (\<lambda>(a, r). (a, ar_status r)) (d_results y) = [(''log'', AUncertain), (''mail'', AFailed)]"
proof -
  let ?spec = "deliver_record (\<lambda>_. ''now'') (\<lambda>_ _ _ _. Inr True) [''log''] (Some (sample_item ''a'' ''k'')) sample_record
    (w_sends sample_world)"
  have v: "delivery_view any_iso (w_tables sample_world) ''delivery-a'' = Some sample_record"
    by (simp add: sample_delivery record_key_def)
  have k: "validate_storage_key ''delivery-a'' = Inr ()" by (simp add: validate_storage_key_def raise_if_def)
  have i: "inbox_view any_iso (w_tables sample_world) (d_item_id sample_record) = Some (sample_item ''a'' ''k'')"
    using sample_inbox_view by (simp add: sample_record_def)
  have p: "d_status sample_record = DPending" by (simp add: sample_record_def)
  from deliver_refines [OF sample_world_wf v k, of "[''log'']" "\<lambda>_. ''now''" "\<lambda>_ _ _ _. Inr True"] obtain w' where
    "deliver any_iso (\<lambda>_. ''now'') (\<lambda>_ _ _ _. Inr True) [''log''] ''delivery-a'' sample_world = (Inr (fst ?spec), w')"
    "w_sends w' = snd ?spec"
    by (auto simp: i p)
  moreover have "d_status (fst ?spec) = DFailed" "snd ?spec = [(''log'', ''a'', 1)]"
    "map (\<lambda>(a, r). (a, ar_status r)) (d_results (fst ?spec)) = [(''log'', AUncertain), (''mail'', AFailed)]"
    by (simp_all add: deliver_record_def sample_record_def sample_world_def prepared_def recovered_def recover_result_def
        fresh_result_def finalized_def final_status_def outcome_def)
  ultimately show ?thesis
    by (intro exI [of _ w'] exI [of _ "fst ?spec"]) (simp only: simp_thms)
qed

lemma deliver_record_decides_witness:
  "d_status (fst (deliver_record (\<lambda>_. ''now'') (\<lambda>_ _ _ _. Inr True) [''log''] None sample_record [])) \<noteq> DPending
   \<and> map_of (d_results (fst (deliver_record (\<lambda>_. ''now'') (\<lambda>_ _ _ _. Inr True) [''log''] None sample_record []))) ''log''
     = Some \<lparr>ar_status = AUncertain, ar_attempts = 1, ar_sent_at = None\<rparr>"
proof -
  have "map_of (d_results sample_record) ''log'' = Some \<lparr>ar_status = ADelivering, ar_attempts = 1, ar_sent_at = None\<rparr>"
    by (simp add: sample_record_def)
  with deliver_record_decides [OF sample_record_valid, of "[''log'']" "\<lambda>_. ''now''" "\<lambda>_ _ _ _. Inr True" None "[]"]
  show ?thesis
    by (cases "deliver_record (\<lambda>_. ''now'') (\<lambda>_ _ _ _. Inr True) [''log''] None sample_record []")
      (fastforce simp: recover_result_def)
qed

end
