(* ===== verification/ConversationStore.thy ===== *)
theory ConversationStore
  imports SqliteStore
begin

text \<open>
  Conversations: the state and its codec (\<open>conversation/model.py\<close>), the store with its stable-turn
  protocol (\<open>conversation/store.py\<close>, reached through \<open>conversation/service.py\<close>) and the bounded
  history view (\<open>conversation/history.py\<close>). SHA-256 is an argument, as is the update callback, which
  may change the stored tables: the model and its tools run inside it.
\<close>

section \<open>State and codec\<close>

datatype ConversationRole = RoleUser | RoleAssistant

record PendingTurn =
  pt_turn_id :: string
  pt_input_digest :: string

record ConversationMessage =
  msg_role :: ConversationRole
  msg_content :: string
  msg_turn_id :: "string option"

record ConversationState =
  cs_id :: string
  cs_summary :: string
  cs_messages :: "ConversationMessage list"
  cs_start :: int
  cs_next :: int
  cs_archived :: bool
  cs_pending :: "PendingTurn list"

type_synonym digest = "string \<Rightarrow> string"

definition pending_from_message :: "digest \<Rightarrow> string \<Rightarrow> string \<Rightarrow> PendingTurn" where
  "pending_from_message sha turn_id message = \<lparr>pt_turn_id = turn_id, pt_input_digest = sha message\<rparr>"

definition pending_to_wire :: "PendingTurn \<Rightarrow> pydict" where
  "pending_to_wire p = [(''turn_id'', PStr (pt_turn_id p)), (''input_digest'', PStr (pt_input_digest p))]"

definition hex_digest :: "string \<Rightarrow> bool" where
  "hex_digest s \<longleftrightarrow> length s = 64 \<and> list_all (\<lambda>c. c \<in> set ''0123456789abcdef'') s"

definition pending_from_wire :: "pydict \<Rightarrow> PendingTurn result" where
  "pending_from_wire w =
     (if set (map fst w) \<noteq> {''turn_id'', ''input_digest''} then Inl (ValueError ''pending turn fields are invalid'')
      else case dict_get w ''turn_id'' of
        PStr turn_id \<Rightarrow>
          (if turn_id = '''' then Inl (ValueError ''pending turn ID must be a non-empty string'')
           else case dict_get w ''input_digest'' of
             PStr d \<Rightarrow> (if hex_digest d then Inr \<lparr>pt_turn_id = turn_id, pt_input_digest = d\<rparr>
                        else Inl (ValueError ''pending turn input digest is invalid''))
           | _ \<Rightarrow> Inl (ValueError ''pending turn input digest is invalid''))
      | _ \<Rightarrow> Inl (ValueError ''pending turn ID must be a non-empty string''))"

fun role_str :: "ConversationRole \<Rightarrow> string" where
  "role_str RoleUser = ''user''"
| "role_str RoleAssistant = ''assistant''"

definition message_to_wire :: "ConversationMessage \<Rightarrow> pydict" where
  "message_to_wire m =
     [(''role'', PStr (role_str (msg_role m))), (''content'', PStr (msg_content m))]
     @ (case msg_turn_id m of None \<Rightarrow> [] | Some i \<Rightarrow> [(''turn_id'', PStr i)])"

text \<open>A membership test in a set of strings hashes the value: a list or dict raises \<open>TypeError\<close>.\<close>

definition read_role :: "pyobj \<Rightarrow> ConversationRole result" where
  "read_role v =
     (case v of
        PStr s \<Rightarrow> (if s = ''user'' then Inr RoleUser else if s = ''assistant'' then Inr RoleAssistant
                  else Inl (ValueError ''conversation message role must be user or assistant''))
      | PList _ \<Rightarrow> Inl (TypeError ''unhashable type'')
      | PDict _ \<Rightarrow> Inl (TypeError ''unhashable type'')
      | _ \<Rightarrow> Inl (ValueError ''conversation message role must be user or assistant''))"

definition message_from_wire :: "pydict \<Rightarrow> ConversationMessage result" where
  "message_from_wire w =
     bindE (raise_if (\<exists>key \<in> set (map fst w). key \<notin> {''role'', ''content'', ''turn_id''})
              (ValueError ''conversation message contains unsupported fields'')) (\<lambda>_.
     bindE (read_role (dict_get w ''role'')) (\<lambda>role.
     bindE (case dict_get w ''content'' of PStr s \<Rightarrow> Inr s
            | _ \<Rightarrow> Inl (ValueError ''conversation message content must be a string'')) (\<lambda>content.
     bindE (case dict_get w ''turn_id'' of PNone \<Rightarrow> Inr None | PStr s \<Rightarrow> Inr (Some s)
            | _ \<Rightarrow> Inl (ValueError ''conversation message turn_id must be a string when present'')) (\<lambda>turn_id.
       Inr \<lparr>msg_role = role, msg_content = content, msg_turn_id = turn_id\<rparr>))))"

definition validate_indexes :: "ConversationState \<Rightarrow> unit result" where
  "validate_indexes x =
     (if cs_start x < 0 then Inl (ValueError ''message_start_index must be a non-negative integer'')
      else if cs_next x < 0 then Inl (ValueError ''next_message_index must be a non-negative integer'')
      else if cs_next x \<noteq> cs_start x + int (length (cs_messages x))
      then Inl (ValueError ''next_message_index must equal message_start_index plus the message count'')
      else Inr ())"

text \<open>\<open>__post_init__\<close>: a missing next index is filled in, then everything is validated.\<close>

definition make_conversation :: "ConversationState \<Rightarrow> ConversationState result" where
  "make_conversation x =
     (let y = (if cs_next x = cs_start x \<and> cs_messages x \<noteq> []
               then x\<lparr>cs_next := cs_start x + int (length (cs_messages x))\<rparr> else x) in
      bindE (validate_indexes y) (\<lambda>_.
      if \<not> distinct (map pt_turn_id (cs_pending y)) then Inl (ValueError ''pending turn IDs must be unique'')
      else Inr y))"

definition empty_conversation :: "string \<Rightarrow> ConversationState" where
  "empty_conversation i = \<lparr>cs_id = i, cs_summary = '''', cs_messages = [], cs_start = 0, cs_next = 0,
     cs_archived = False, cs_pending = []\<rparr>"

definition conversation_wire :: "ConversationState \<Rightarrow> pydict" where
  "conversation_wire x =
     [(''conversation_id'', PStr (cs_id x)), (''summary'', PStr (cs_summary x)),
      (''messages'', PList (map (\<lambda>m. PDict (message_to_wire m)) (cs_messages x))),
      (''message_start_index'', PInt (cs_start x)), (''next_message_index'', PInt (cs_next x)),
      (''archived'', PBool (cs_archived x))]
     @ (if cs_pending x = [] then []
        else [(''pending_turns'', PList (map (\<lambda>p. PDict (pending_to_wire p)) (cs_pending x)))])"

definition conversation_to_wire :: "ConversationState \<Rightarrow> pydict result" where
  "conversation_to_wire x = bindE (validate_indexes x) (\<lambda>_. Inr (conversation_wire x))"

definition read_index :: "exn \<Rightarrow> pyobj \<Rightarrow> int result" where
  "read_index e v = (case v of PInt n \<Rightarrow> (if n < 0 then Inl e else Inr n) | _ \<Rightarrow> Inl e)"

definition conversation_from_wire :: "pydict \<Rightarrow> ConversationState result" where
  "conversation_from_wire w =
     bindE (case dict_get w ''conversation_id'' of PStr s \<Rightarrow> Inr s
            | _ \<Rightarrow> Inl (ValueError ''conversation_id must be a string'')) (\<lambda>cid.
     bindE (case dict_get w ''summary'' of PStr s \<Rightarrow> Inr s
            | _ \<Rightarrow> Inl (ValueError ''summary must be a string'')) (\<lambda>summary.
     bindE (case dict_get w ''messages'' of PList vs \<Rightarrow> Inr vs
            | _ \<Rightarrow> Inl (ValueError ''messages must be a list'')) (\<lambda>messages.
     bindE (read_index (ValueError ''message_start_index must be a non-negative integer'')
              (case dget w ''message_start_index'' of None \<Rightarrow> PInt 0 | Some v \<Rightarrow> v)) (\<lambda>start.
     bindE (read_objects (ValueError ''messages must be a list'')
              (ValueError ''every conversation message must be an object'') (PList messages)) (\<lambda>items.
     bindE (mapE message_from_wire items) (\<lambda>parsed.
     bindE (read_index (ValueError ''next_message_index must be a non-negative integer'')
              (case dict_get w ''next_message_index'' of PNone \<Rightarrow> PInt (start + int (length parsed)) | v \<Rightarrow> v)) (\<lambda>next.
     bindE (case (case dget w ''archived'' of None \<Rightarrow> PBool False | Some v \<Rightarrow> v) of PBool b \<Rightarrow> Inr b
            | _ \<Rightarrow> Inl (ValueError ''archived must be a boolean'')) (\<lambda>archived.
     bindE (read_objects (ValueError ''pending_turns must be an object list'')
              (ValueError ''pending_turns must be an object list'')
              (case dget w ''pending_turns'' of None \<Rightarrow> PList [] | Some v \<Rightarrow> v)) (\<lambda>pending_items.
     bindE (mapE pending_from_wire pending_items) (\<lambda>pending.
     bindE (raise_if (\<not> distinct (map pt_turn_id pending)) (ValueError ''pending turn IDs must be unique'')) (\<lambda>_.
     bindE (raise_if (next \<noteq> start + int (length parsed))
              (ValueError ''next_message_index must equal message_start_index plus the message count'')) (\<lambda>_.
       make_conversation
         \<lparr>cs_id = cid, cs_summary = summary, cs_messages = parsed, cs_start = start, cs_next = next,
          cs_archived = archived, cs_pending = pending\<rparr>))))))))))))"

definition pending_ok :: "PendingTurn \<Rightarrow> bool" where
  "pending_ok p \<longleftrightarrow> pt_turn_id p \<noteq> '''' \<and> hex_digest (pt_input_digest p)"

definition indexes_ok :: "ConversationState \<Rightarrow> bool" where
  "indexes_ok x \<longleftrightarrow> 0 \<le> cs_start x \<and> cs_next x = cs_start x + int (length (cs_messages x))"

definition conversation_valid :: "ConversationState \<Rightarrow> bool" where
  "conversation_valid x \<longleftrightarrow> cs_id x \<noteq> '''' \<and> indexes_ok x
     \<and> distinct (map pt_turn_id (cs_pending x)) \<and> list_all pending_ok (cs_pending x)"

lemma validate_indexes_iff: "validate_indexes x = Inr () \<longleftrightarrow> indexes_ok x"
  by (auto simp: validate_indexes_def indexes_ok_def)

lemma make_conversation_ok [simp]:
  "indexes_ok x \<Longrightarrow> distinct (map pt_turn_id (cs_pending x)) \<Longrightarrow> make_conversation x = Inr x"
  using validate_indexes_iff [of x] by (auto simp: make_conversation_def indexes_ok_def Let_def)

lemma conversation_to_wire_ok [simp]: "indexes_ok x \<Longrightarrow> conversation_to_wire x = Inr (conversation_wire x)"
  using validate_indexes_iff [of x] by (simp add: conversation_to_wire_def)

lemma pending_reload [simp]: "pending_ok p \<Longrightarrow> pending_from_wire (pending_to_wire p) = Inr p"
  by (auto simp: pending_from_wire_def pending_to_wire_def dict_get_def pending_ok_def)

lemma message_reload [simp]: "message_from_wire (message_to_wire m) = Inr m"
  by (cases "msg_role m"; cases "msg_turn_id m")
    (auto simp: message_from_wire_def message_to_wire_def dict_get_def read_role_def raise_if_def)

lemma mapE_reload: "list_all (\<lambda>x. g (f x) = Inr x) xs \<Longrightarrow> mapE g (map f xs) = Inr xs"
  by (induction xs) simp_all

lemma messages_reload [simp]: "mapE message_from_wire (map message_to_wire ms) = Inr ms"
  by (rule mapE_reload) (simp add: list_all_iff)

lemma pendings_reload [simp]: "list_all pending_ok ps \<Longrightarrow> mapE pending_from_wire (map pending_to_wire ps) = Inr ps"
  by (rule mapE_reload) (simp add: list_all_iff)

lemma conversation_reload:
  assumes "conversation_valid x"
  shows "conversation_from_wire ((''id'', PStr (cs_id x)) # payload_of (conversation_wire x)) = Inr x"
proof -
  have "0 \<le> cs_start x" "cs_next x = cs_start x + int (length (cs_messages x))" "0 \<le> cs_next x"
    "distinct (map pt_turn_id (cs_pending x))" "list_all pending_ok (cs_pending x)" "indexes_ok x"
    using assms by (simp_all add: conversation_valid_def indexes_ok_def)
  then show ?thesis
    by (cases x) (auto simp: conversation_from_wire_def conversation_wire_def wire_simps
        read_objects_def read_index_def raise_if_def)
qed

lemma json_plain_parts [simp]:
  "list_all (\<lambda>(key, x). json_plain x) (message_to_wire m)" "list_all (\<lambda>(key, x). json_plain x) (pending_to_wire p)"
  by (simp_all add: message_to_wire_def pending_to_wire_def split: option.splits)

interpretation conversation: record_codec conversation_wire conversation_from_wire cs_id conversation_valid
proof unfold_locales
  fix x
  assume x: "conversation_valid x"
  show "cs_id x \<noteq> ''''" using x by (simp add: conversation_valid_def)
  show "json_dict (conversation_wire x)"
    by (simp add: json_dict_def conversation_wire_def list.pred_map o_def list.pred_True)
  show "dict_get (conversation_wire x) ''id'' \<in> {PNone, PStr (cs_id x)}"
    by (simp add: conversation_wire_def wire_simps)
  show "conversation_from_wire ((''id'', PStr (cs_id x)) # payload_of (conversation_wire x)) = Inr x"
    using x by (rule conversation_reload)
qed


section \<open>The store\<close>

definition validate_conversation_id :: "string \<Rightarrow> unit result" where
  "validate_conversation_id i =
     raise_if (i = '''' \<or> CHR ''/'' \<in> set i \<or> CHR 0x5C \<in> set i \<or> i \<in> {''.'', ''..''})
       (ValueError ''invalid conversation id'')"

text \<open>
  Each operation runs under a file lock per conversation. \<open>locked_many\<close> is the order in which an
  operation on several conversations takes their locks: sorted and without repetition, hence the
  same for every caller.
\<close>

definition locked_many :: "string list \<Rightarrow> string list result" where
  "locked_many ids = bindE (mapE validate_conversation_id (sort (remdups ids))) (\<lambda>_. Inr (sort (remdups ids)))"

definition conversation_raw :: "string \<Rightarrow> (tables, pydict option) act" where
  "conversation_raw cid = tab_get ''conversations'' cid"

definition conversation_load :: "string \<Rightarrow> (tables, ConversationState) act" where
  "conversation_load cid =
     bind_act (lift_act (\<lambda>_. validate_conversation_id cid)) (\<lambda>_.
     bind_act (repo_find (conversation_raw cid) conversation_from_wire) (\<lambda>x.
     ret_act (case x of None \<Rightarrow> empty_conversation cid | Some x \<Rightarrow> x)))"

definition save_unlocked :: "ConversationState \<Rightarrow> (tables, unit) act" where
  "save_unlocked x =
     bind_act (lift_act (\<lambda>_. conversation_to_wire x)) (\<lambda>w. tab_put ''conversations'' (cs_id x) w)"

definition conversation_save :: "ConversationState \<Rightarrow> (tables, unit) act" where
  "conversation_save x =
     bind_act (lift_act (\<lambda>_. validate_conversation_id (cs_id x))) (\<lambda>_. atomic_act (save_unlocked x))"

definition begin_turn_attempt ::
  "digest \<Rightarrow> ConversationState \<Rightarrow> string \<Rightarrow> string \<Rightarrow> bool \<Rightarrow> ConversationState result" where
  "begin_turn_attempt sha x turn_id message resume_pending =
     (let attempted = pending_from_message sha turn_id message in
      case List.find (\<lambda>p. pt_turn_id p = turn_id) (cs_pending x) of
        Some p \<Rightarrow>
          (if pt_input_digest p \<noteq> pt_input_digest attempted
           then Inl (ConversationTurnConflictError ''turn ID is already bound to different input'')
           else if resume_pending then Inr x
           else Inl (ConversationTurnIncompleteError ''turn ID has an unfinished prior execution''))
      | None \<Rightarrow> make_conversation (x\<lparr>cs_pending := cs_pending x @ [attempted]\<rparr>))"

definition finish_turn_attempt :: "ConversationState \<Rightarrow> string option \<Rightarrow> ConversationState result" where
  "finish_turn_attempt x turn_id =
     (case turn_id of
        None \<Rightarrow> Inr x
      | Some i \<Rightarrow> make_conversation (x\<lparr>cs_pending := filter (\<lambda>p. pt_turn_id p \<noteq> i) (cs_pending x)\<rparr>))"

definition answered :: "ConversationState \<Rightarrow> string \<Rightarrow> bool" where
  "answered x turn_id \<longleftrightarrow>
     list_ex (\<lambda>m. msg_turn_id m = Some turn_id \<and> msg_role m = RoleAssistant) (cs_messages x)"

text \<open>
  \<open>update\<close>. The callback \<open>upd\<close> runs between two transactions, outside both; \<open>observed\<close> is what the
  commit observer answers (\<open>Inr ()\<close> where there is none).
\<close>

definition conversation_update ::
  "digest \<Rightarrow> (ConversationState \<Rightarrow> (tables, ConversationState \<times> 'r) act) \<Rightarrow> string option \<Rightarrow> string option \<Rightarrow> bool
   \<Rightarrow> unit result \<Rightarrow> string \<Rightarrow> (tables, 'r) act" where
  "conversation_update sha upd turn_id user_message continue_pending observed cid =
     bind_act (lift_act (\<lambda>_. validate_conversation_id cid)) (\<lambda>_.
     bind_act (lift_act (\<lambda>_. raise_if ((turn_id = None) \<noteq> (user_message = None))
                 (ValueError ''turn_id and user_message must be supplied together''))) (\<lambda>_.
     bind_act (conversation_raw cid) (\<lambda>original.
     bind_act (lift_act (\<lambda>_. case original of None \<Rightarrow> Inr (empty_conversation cid)
                           | Some w \<Rightarrow> conversation_from_wire w)) (\<lambda>state.
     bind_act
       (case (turn_id, user_message) of
          (Some i, Some message) \<Rightarrow>
            (if answered state i then ret_act (state, original)
             else bind_act (lift_act (\<lambda>_. begin_turn_attempt sha state i message continue_pending)) (\<lambda>begun.
                  bind_act (atomic_act (save_unlocked begun)) (\<lambda>_.
                  bind_act (conversation_raw cid) (\<lambda>original. ret_act (begun, original)))))
        | _ \<Rightarrow> ret_act (state, original)) (\<lambda>(state, original).
     bind_act (upd state) (\<lambda>(updated, r).
     bind_act (lift_act (\<lambda>_. raise_if (cs_id updated \<noteq> cid)
                 (ValueError ''conversation update cannot change conversation identity''))) (\<lambda>_.
     bind_act
       (atomic_act
         (bind_act (conversation_raw cid) (\<lambda>now.
          bind_act (lift_act (\<lambda>_. raise_if (now \<noteq> original)
                      (ValueError ''conversation changed concurrently; retry the turn''))) (\<lambda>_.
          bind_act (lift_act (\<lambda>_. finish_turn_attempt updated turn_id)) save_unlocked)))) (\<lambda>_.
     bind_act (lift_act (\<lambda>_. observed)) (\<lambda>_. ret_act r)))))))))"

definition conversation_states :: "(tables, ConversationState list) act" where
  "conversation_states =
     bind_act (tab_list ''conversations'') (\<lambda>ws. lift_act (\<lambda>_. mapE conversation_from_wire ws))"

definition conversation_list :: "(tables, string list) act" where
  "conversation_list =
     bind_act conversation_states (\<lambda>xs. ret_act (sort (map cs_id (filter (\<lambda>x. \<not> cs_archived x) xs))))"

definition conversation_list_archived :: "(tables, string list) act" where
  "conversation_list_archived =
     bind_act conversation_states (\<lambda>xs. ret_act (sort (map cs_id (filter cs_archived xs))))"

definition conversation_rename :: "string \<Rightarrow> string \<Rightarrow> (tables, unit) act" where
  "conversation_rename old new =
     (if old = new then ret_act ()
      else bind_act (lift_act (\<lambda>_. validate_conversation_id old)) (\<lambda>_.
           bind_act (lift_act (\<lambda>_. validate_conversation_id new)) (\<lambda>_.
           bind_act (lift_act (\<lambda>_. locked_many [old, new])) (\<lambda>_.
           atomic_act
             (bind_act (conversation_raw old) (\<lambda>raw. case raw of
                None \<Rightarrow> raise_act (ValueError ''conversation not found'')
              | Some w \<Rightarrow>
                  bind_act (conversation_raw new) (\<lambda>existing.
                  bind_act (lift_act (\<lambda>_. raise_if (existing \<noteq> None)
                              (ValueError ''conversation already exists''))) (\<lambda>_.
                  bind_act (lift_act (\<lambda>_. conversation_from_wire w)) (\<lambda>state.
                  bind_act (lift_act (\<lambda>_. make_conversation (state\<lparr>cs_id := new\<rparr>))) (\<lambda>renamed.
                  bind_act (save_unlocked renamed) (\<lambda>_.
                  tab_delete ''conversations'' old)))))))))))"

definition conversation_branch :: "string \<Rightarrow> string \<Rightarrow> int option \<Rightarrow> (tables, ConversationState) act" where
  "conversation_branch source new message_index =
     bind_act (lift_act (\<lambda>_. validate_conversation_id source)) (\<lambda>_.
     bind_act (lift_act (\<lambda>_. validate_conversation_id new)) (\<lambda>_.
     bind_act (lift_act (\<lambda>_. locked_many [source, new])) (\<lambda>_.
     atomic_act
       (bind_act (conversation_raw source) (\<lambda>raw. case raw of
          None \<Rightarrow> raise_act (ValueError ''source conversation not found'')
        | Some w \<Rightarrow>
            bind_act (conversation_raw new) (\<lambda>existing.
            bind_act (lift_act (\<lambda>_. raise_if (existing \<noteq> None)
                        (ValueError ''conversation already exists''))) (\<lambda>_.
            bind_act (lift_act (\<lambda>_. conversation_from_wire w)) (\<lambda>x.
            (let index = (case message_index of None \<Rightarrow> int (length (cs_messages x)) | Some i \<Rightarrow> i) in
             bind_act (lift_act (\<lambda>_. raise_if (index < 0 \<or> int (length (cs_messages x)) < index)
                         (ValueError ''branch index out of range''))) (\<lambda>_.
             bind_act (lift_act (\<lambda>_. make_conversation
                 \<lparr>cs_id = new, cs_summary = cs_summary x, cs_messages = take (nat index) (cs_messages x),
                  cs_start = cs_start x, cs_next = cs_start x + index, cs_archived = False, cs_pending = []\<rparr>)) (\<lambda>branched.
             bind_act (save_unlocked branched) (\<lambda>_. ret_act branched))))))))))))"

text \<open>\<open>archive\<close> and \<open>unarchive\<close> differ in the flag they set and the errors they raise.\<close>

definition set_archived :: "bool \<Rightarrow> string \<Rightarrow> string \<Rightarrow> string \<Rightarrow> (tables, unit) act" where
  "set_archived flag not_found already cid =
     bind_act (lift_act (\<lambda>_. validate_conversation_id cid)) (\<lambda>_.
     atomic_act
       (bind_act (conversation_raw cid) (\<lambda>raw. case raw of
          None \<Rightarrow> raise_act (ValueError not_found)
        | Some w \<Rightarrow>
            bind_act (lift_act (\<lambda>_. conversation_from_wire w)) (\<lambda>x.
            bind_act (lift_act (\<lambda>_. raise_if (cs_archived x = flag) (ValueError already))) (\<lambda>_.
            bind_act (lift_act (\<lambda>_. make_conversation (x\<lparr>cs_archived := flag\<rparr>))) save_unlocked)))))"

definition conversation_archive :: "string \<Rightarrow> (tables, unit) act" where
  "conversation_archive = set_archived True ''conversation not found'' ''archived conversation already exists''"

definition conversation_unarchive :: "string \<Rightarrow> (tables, unit) act" where
  "conversation_unarchive = set_archived False ''archived conversation not found'' ''conversation already exists''"

definition conversation_delete :: "string \<Rightarrow> (tables, unit) act" where
  "conversation_delete cid =
     bind_act (lift_act (\<lambda>_. validate_conversation_id cid)) (\<lambda>_.
     atomic_act
       (bind_act (conversation_raw cid) (\<lambda>raw. case raw of
          None \<Rightarrow> raise_act (ValueError ''conversation not found'')
        | Some w \<Rightarrow> tab_delete ''conversations'' cid)))"

section \<open>The history view\<close>

text \<open>Python's \<open>xs[-n:]\<close> for a positive \<open>n\<close>: the last \<open>n\<close> elements, or all of them.\<close>

definition last_n :: "int \<Rightarrow> 'a list \<Rightarrow> 'a list" where
  "last_n n xs = drop (length xs - nat n) xs"

record ConversationHistoryExcerpt =
  ex_id :: string
  ex_messages :: "(ConversationRole \<times> string) list"

fun excerpts :: "int \<Rightarrow> string list \<Rightarrow> (tables, ConversationHistoryExcerpt list) act" where
  "excerpts n [] = ret_act []"
| "excerpts n (cid # cids) =
     bind_act (conversation_load cid) (\<lambda>x.
     bind_act (excerpts n cids) (\<lambda>es.
     ret_act (\<lparr>ex_id = cid, ex_messages = map (\<lambda>m. (msg_role m, msg_content m)) (last_n n (cs_messages x))\<rparr> # es)))"

definition history_recent :: "int \<Rightarrow> int \<Rightarrow> (tables, ConversationHistoryExcerpt list) act" where
  "history_recent limit messages_per_conversation =
     bind_act (lift_act (\<lambda>_. raise_if (limit < 1 \<or> messages_per_conversation < 1)
                 (ValueError ''conversation history limits must be positive''))) (\<lambda>_.
     bind_act conversation_list (\<lambda>ids. excerpts messages_per_conversation (rev (last_n limit ids))))"


section \<open>The store as a finite map\<close>

definition conv_view :: "tables \<Rightarrow> string \<Rightarrow> ConversationState option" where
  "conv_view t = view conversation_from_wire (t ''conversations'')"

definition conv_stored :: "tables \<Rightarrow> bool" where
  "conv_stored t \<longleftrightarrow> stored_ok conversation_wire cs_id conversation_valid (t ''conversations'')"

lemma conversation_repo [simp]:
  "conversation.repo_stored ''conversations'' t = conv_stored t"
  "conversation.repo_view ''conversations'' t = conv_view t"
  by (simp_all add: conversation.repo_stored_def conversation.repo_view_def conv_stored_def conv_view_def)

lemmas conv_view_valid = conversation.repo_view_valid [of "''conversations''", unfolded conversation_repo]
lemmas conv_put = conversation.repo_put [of "''conversations''", unfolded conversation_repo]
lemmas conv_delete = conversation.repo_delete [of "''conversations''", unfolded conversation_repo]

definition raw_of :: "string \<Rightarrow> ConversationState option \<Rightarrow> pydict option" where
  "raw_of cid = map_option (\<lambda>x. (''id'', PStr cid) # payload_of (conversation_wire x))"

lemma conv_raw: "conv_stored t \<Longrightarrow> conversation_raw cid t = (Inr (raw_of cid (conv_view t cid)), t)"
  using conversation.repo_raw_view [of "''conversations''" t cid] by (simp add: conversation_raw_def raw_of_def)

lemma raw_of_eq:
  "conv_stored t \<Longrightarrow> conv_stored u \<Longrightarrow> raw_of cid (conv_view t cid) = raw_of cid (conv_view u cid) \<longleftrightarrow> conv_view t cid = conv_view u cid"
  using conversation.raw_inject [of "''conversations''" t u cid] by (simp add: raw_of_def)

lemma raw_of_None [simp]: "raw_of cid x = None \<longleftrightarrow> x = None" "None = raw_of cid x \<longleftrightarrow> x = None"
  by (auto simp: raw_of_def)

lemma raw_of_absent [simp]: "raw_of cid None = None"
  by simp

lemma raw_of_Some: "raw_of cid (Some x) = Some ((''id'', PStr cid) # payload_of (conversation_wire x))"
  by (simp add: raw_of_def)

lemma raw_decode:
  "conv_stored t \<Longrightarrow> conv_view t cid = Some x \<Longrightarrow>
   conversation_from_wire ((''id'', PStr cid) # payload_of (conversation_wire x)) = Inr x"
  using conv_view_valid [of t cid x] conversation_reload [of x] by auto

lemma conv_find: "conv_stored t \<Longrightarrow> repo_find (conversation_raw cid) conversation_from_wire t = (Inr (conv_view t cid), t)"
  using conversation.repo_find_view [of "''conversations''" t cid] by (simp add: conversation_raw_def)

lemma save_run:
  assumes "conv_stored t" and "conversation_valid x"
  obtains t' where "save_unlocked x t = (Inr (), t')" "conv_stored t'" "conv_view t' = (conv_view t)(cs_id x \<mapsto> x)"
  using assms by (rule conv_put) (use assms(2) in \<open>auto simp: save_unlocked_def bind_act_def conversation_valid_def intro: that\<close>)

lemma conversation_load_view:
  assumes "conv_stored t" and "validate_conversation_id cid = Inr ()"
  shows "conversation_load cid t =
    (Inr (case conv_view t cid of None \<Rightarrow> empty_conversation cid | Some x \<Rightarrow> x), t)"
  using conv_find [OF assms(1), of cid] assms(2) by (simp add: conversation_load_def bind_act_def)

lemma valid_id_nonempty: "validate_conversation_id cid = Inr u \<Longrightarrow> cid \<noteq> ''''"
  by (auto simp: validate_conversation_id_def raise_if_def split: if_splits)

section \<open>The stable-turn protocol\<close>

definition current_state :: "tables \<Rightarrow> string \<Rightarrow> ConversationState" where
  "current_state t cid = (case conv_view t cid of None \<Rightarrow> empty_conversation cid | Some x \<Rightarrow> x)"

definition with_pending :: "digest \<Rightarrow> string \<Rightarrow> string \<Rightarrow> ConversationState \<Rightarrow> ConversationState" where
  "with_pending sha turn_id message x =
     x\<lparr>cs_pending := cs_pending x @ [pending_from_message sha turn_id message]\<rparr>"

definition without_pending :: "string \<Rightarrow> ConversationState \<Rightarrow> ConversationState" where
  "without_pending turn_id x = x\<lparr>cs_pending := filter (\<lambda>p. pt_turn_id p \<noteq> turn_id) (cs_pending x)\<rparr>"

definition pending_of :: "string \<Rightarrow> ConversationState \<Rightarrow> PendingTurn option" where
  "pending_of turn_id x = List.find (\<lambda>p. pt_turn_id p = turn_id) (cs_pending x)"

lemma current_state_valid:
  "conv_stored t \<Longrightarrow> validate_conversation_id cid = Inr () \<Longrightarrow>
   conversation_valid (current_state t cid) \<and> cs_id (current_state t cid) = cid"
  using conv_view_valid [of t cid] valid_id_nonempty [of cid]
  by (auto simp: current_state_def conversation_valid_def empty_conversation_def indexes_ok_def split: option.splits)

lemma valid_with_pending:
  "conversation_valid x \<Longrightarrow> pending_of turn_id x = None \<Longrightarrow> turn_id \<noteq> '''' \<Longrightarrow> hex_digest (sha message) \<Longrightarrow>
   conversation_valid (with_pending sha turn_id message x)"
  by (auto simp: conversation_valid_def with_pending_def pending_from_message_def pending_of_def find_None_iff
      pending_ok_def indexes_ok_def)

lemma valid_without_pending: "conversation_valid x \<Longrightarrow> conversation_valid (without_pending turn_id x)"
  by (auto simp: conversation_valid_def without_pending_def indexes_ok_def list_all_iff distinct_map_filter)

lemma begin_new:
  assumes "conversation_valid x" and "pending_of turn_id x = None" and "turn_id \<noteq> ''''" and "hex_digest (sha message)"
  shows "begin_turn_attempt sha x turn_id message b = Inr (with_pending sha turn_id message x)"
  using valid_with_pending [where sha = sha and message = message, OF assms] assms(2)
  by (simp add: begin_turn_attempt_def pending_of_def with_pending_def Let_def conversation_valid_def)

lemma finish_valid:
  "conversation_valid x \<Longrightarrow> finish_turn_attempt x (Some i) = Inr (without_pending i x)"
  using valid_without_pending [of x i] by (simp add: finish_turn_attempt_def without_pending_def conversation_valid_def)

lemma conversation_state_of_raw:
  "conv_stored t \<Longrightarrow>
   (case raw_of cid (conv_view t cid) of None \<Rightarrow> Inr (empty_conversation cid) | Some w \<Rightarrow> conversation_from_wire w)
     = Inr (current_state t cid)"
  using raw_decode [of t cid] by (cases "conv_view t cid") (auto simp: raw_of_def current_state_def)

text \<open>
  What follows the attempt's record: the callback, the identity check, and the commit under the
  condition that the stored conversation is still the one the callback started from.
\<close>

definition commit_turn ::
  "string option \<Rightarrow> unit result \<Rightarrow> string \<Rightarrow> pydict option \<Rightarrow> ConversationState \<times> 'r \<Rightarrow> (tables, 'r) act" where
  "commit_turn turn_id observed cid original res = (case res of (updated, r) \<Rightarrow>
     bind_act (lift_act (\<lambda>_. raise_if (cs_id updated \<noteq> cid)
                 (ValueError ''conversation update cannot change conversation identity''))) (\<lambda>_.
     bind_act
       (atomic_act
         (bind_act (conversation_raw cid) (\<lambda>now.
          bind_act (lift_act (\<lambda>_. raise_if (now \<noteq> original)
                      (ValueError ''conversation changed concurrently; retry the turn''))) (\<lambda>_.
          bind_act (lift_act (\<lambda>_. finish_turn_attempt updated turn_id)) save_unlocked)))) (\<lambda>_.
     bind_act (lift_act (\<lambda>_. observed)) (\<lambda>_. ret_act r))))"

lemma commit_turn_run:
  assumes t: "conv_stored t" "conv_stored u" and y: "conversation_valid y" "cs_id y = cid"
  shows "conv_view t cid \<noteq> conv_view u cid \<Longrightarrow>
      commit_turn (Some i) observed cid (raw_of cid (conv_view u cid)) (y, r) t =
        (Inl (ValueError ''conversation changed concurrently; retry the turn''), t)"
    and "conv_view t cid = conv_view u cid \<Longrightarrow>
      \<exists>t'. commit_turn (Some i) observed cid (raw_of cid (conv_view u cid)) (y, r) t =
          (case observed of Inl e \<Rightarrow> Inl e | Inr _ \<Rightarrow> Inr r, t')
        \<and> conv_stored t' \<and> conv_view t' = (conv_view t)(cid \<mapsto> without_pending i y)"
proof -
  assume "conv_view t cid \<noteq> conv_view u cid"
  then show "commit_turn (Some i) observed cid (raw_of cid (conv_view u cid)) (y, r) t =
        (Inl (ValueError ''conversation changed concurrently; retry the turn''), t)"
    using raw_of_eq [OF t] y by (simp add: commit_turn_def bind_act_def atomic_act_def conv_raw t)
next
  assume "conv_view t cid = conv_view u cid"
  moreover from save_run [OF t(1) valid_without_pending [OF y(1), of i]] y(2) obtain t' where
    "save_unlocked (without_pending i y) t = (Inr (), t')" "conv_stored t'"
    "conv_view t' = (conv_view t)(cid \<mapsto> without_pending i y)" by (auto simp: without_pending_def)
  ultimately show "\<exists>t'. commit_turn (Some i) observed cid (raw_of cid (conv_view u cid)) (y, r) t =
          (case observed of Inl e \<Rightarrow> Inl e | Inr _ \<Rightarrow> Inr r, t')
        \<and> conv_stored t' \<and> conv_view t' = (conv_view t)(cid \<mapsto> without_pending i y)"
    using y by (intro exI [of _ t'])
      (simp add: commit_turn_def bind_act_def atomic_act_def conv_raw t finish_valid split: sum.splits)
qed

lemma update_new_turn:
  assumes t: "conv_stored t" and id: "validate_conversation_id cid = Inr ()"
    and new: "\<not> answered (current_state t cid) i" "pending_of i (current_state t cid) = None"
    and i: "i \<noteq> ''''" "hex_digest (sha message)"
  obtains t1 where "conv_stored t1"
    "conv_view t1 = (conv_view t)(cid \<mapsto> with_pending sha i message (current_state t cid))"
    "conversation_update sha upd (Some i) (Some message) b observed cid t =
      bind_act (upd (with_pending sha i message (current_state t cid)))
        (commit_turn (Some i) observed cid (raw_of cid (conv_view t1 cid))) t1"
proof -
  let ?x = "current_state t cid" let ?y = "with_pending sha i message ?x"
  have x: "conversation_valid ?x" "cs_id ?x = cid" using current_state_valid [OF t id] by simp_all
  have y: "conversation_valid ?y" "cs_id ?y = cid"
    using valid_with_pending [where sha = sha and message = message, OF x(1) new(2) i] x(2) by (simp_all add: with_pending_def)
  from save_run [OF t y(1)] y(2) obtain t1 where t1: "save_unlocked ?y t = (Inr (), t1)" "conv_stored t1"
    "conv_view t1 = (conv_view t)(cid \<mapsto> ?y)" by auto
  have "conversation_update sha upd (Some i) (Some message) b observed cid t =
      bind_act (upd ?y) (commit_turn (Some i) observed cid (raw_of cid (conv_view t1 cid))) t1"
    using new(1) begin_new [where sha = sha and message = message and b = b, OF x(1) new(2) i] t1(1) id conv_raw [OF t, of cid] conv_raw [OF t1(2), of cid]
      conversation_state_of_raw [OF t, of cid]
    by (simp add: conversation_update_def bind_act_def [of "lift_act _"] bind_act_def [of "conversation_raw _"]
        bind_act_def [of "bind_act _ _"] bind_act_def [of "atomic_act _"] bind_act_def [of "ret_act _"]
        atomic_act_def commit_turn_def [abs_def] del: raw_of_None)
  with t1 show ?thesis by (intro that)
qed


text \<open>
  C6: A new turn. Before the callback runs, the attempt is durable: the stored conversation is the
  one the callback is given, with the turn pending. If the callback raises, that is what stays. If
  it returns, its state is committed without the pending turn, provided the conversation was not
  changed meanwhile; if it was, the update raises and overwrites nothing.
\<close>

theorem turn_commits:
  fixes upd :: "ConversationState \<Rightarrow> (tables, ConversationState \<times> 'r) act" and b :: bool
  assumes "conv_stored t" and "validate_conversation_id cid = Inr ()"
    and "\<not> answered (current_state t cid) i" and "pending_of i (current_state t cid) = None"
    and "i \<noteq> ''''" and "hex_digest (sha message)"
  defines "st \<equiv> with_pending sha i message (current_state t cid)"
    and "run \<equiv> conversation_update sha upd (Some i) (Some message) b (Inr ()) cid t"
  shows "\<exists>t1. conv_stored t1 \<and> conv_view t1 = (conv_view t)(cid \<mapsto> st)
    \<and> (\<forall>e t2. upd st t1 = (Inl e, t2) \<longrightarrow> run = (Inl e, t2))
    \<and> (\<forall>y r t2. upd st t1 = (Inr (y, r), t2) \<and> conv_stored t2 \<and> conversation_valid y \<and> cs_id y = cid \<longrightarrow>
         (if conv_view t2 cid = Some st
          then fst run = Inr r \<and> conv_view (snd run) = (conv_view t2)(cid \<mapsto> without_pending i y)
          else run = (Inl (ValueError ''conversation changed concurrently; retry the turn''), t2)))"
proof (rule update_new_turn [where sha = sha and message = message and upd = upd and b = b and observed = "Inr ()",
        OF assms(1-6)])
  fix t1
  assume t1: "conv_stored t1" "conv_view t1 = (conv_view t)(cid \<mapsto> with_pending sha i message (current_state t cid))"
    "conversation_update sha upd (Some i) (Some message) b (Inr ()) cid t =
      bind_act (upd (with_pending sha i message (current_state t cid)))
        (commit_turn (Some i) (Inr ()) cid (raw_of cid (conv_view t1 cid))) t1"
  have v: "conv_view t1 = (conv_view t)(cid \<mapsto> st)" and run: "run = bind_act (upd st)
        (commit_turn (Some i) (Inr ()) cid (raw_of cid (conv_view t1 cid))) t1"
    using t1 by (simp_all add: st_def run_def)
  have "if conv_view t2 cid = Some st
      then fst run = Inr r \<and> conv_view (snd run) = (conv_view t2)(cid \<mapsto> without_pending i y)
      else run = (Inl (ValueError ''conversation changed concurrently; retry the turn''), t2)"
    if u: "upd st t1 = (Inr (y, r), t2)" "conv_stored t2" "conversation_valid y" "cs_id y = cid" for y r t2
  proof -
    have "run = commit_turn (Some i) (Inr ()) cid (raw_of cid (conv_view t1 cid)) (y, r) t2"
      using run u(1) by (simp add: bind_act_def)
    moreover have "conv_view t1 cid = Some st" using v by simp
    ultimately show ?thesis
      using commit_turn_run [OF u(2) t1(1) u(3,4), of i "Inr ()" r] by auto
  qed
  then show ?thesis
    using t1(1) v run by (intro exI [of _ t1]) (auto simp: bind_act_def)
qed

text \<open>
  C15: A turn whose execution was interrupted is not silently repeated. While it is pending, the
  same turn with other input is a conflict, and with the same input it is refused unless the
  caller asks to continue it; in either case the callback does not run and nothing changes.
\<close>

theorem interrupted_turn_refused:
  assumes "conv_stored t" and "validate_conversation_id cid = Inr ()"
    and "conv_view t cid = Some x" and "pending_of i x = Some p" and "\<not> answered x i"
  shows "conversation_update sha upd (Some i) (Some message) continue_pending observed cid t =
      (if sha message \<noteq> pt_input_digest p
       then (Inl (ConversationTurnConflictError ''turn ID is already bound to different input''), t)
       else if \<not> continue_pending
       then (Inl (ConversationTurnIncompleteError ''turn ID has an unfinished prior execution''), t)
       else bind_act (atomic_act (save_unlocked x)) (\<lambda>_. bind_act (upd x)
              (commit_turn (Some i) observed cid (raw_of cid (Some x)))) t)"
proof -
  have x: "conversation_valid x" "cs_id x = cid" using conv_view_valid [OF assms(1,3)] by simp_all
  from save_run [OF assms(1) x(1)] x(2) obtain t1 where t1: "save_unlocked x t = (Inr (), t1)" "conv_stored t1"
    "conv_view t1 = (conv_view t)(cid \<mapsto> x)" by auto
  have c: "current_state t cid = x" using assms(3) by (simp add: current_state_def)
  have b: "begin_turn_attempt sha x i message continue_pending =
      (if sha message \<noteq> pt_input_digest p
       then Inl (ConversationTurnConflictError ''turn ID is already bound to different input'')
       else if continue_pending then Inr x
       else Inl (ConversationTurnIncompleteError ''turn ID has an unfinished prior execution''))"
    using assms(4) by (simp add: begin_turn_attempt_def pending_of_def pending_from_message_def)
  show ?thesis
    using assms(5) b t1 assms(2) conv_raw [OF assms(1), of cid] conv_raw [OF t1(2), of cid]
      conversation_state_of_raw [OF assms(1), of cid] c
    by (simp add: conversation_update_def bind_act_def [of "lift_act _"] bind_act_def [of "conversation_raw _"]
        bind_act_def [of "bind_act _ _"] bind_act_def [of "atomic_act _"] bind_act_def [of "ret_act _"]
        atomic_act_def commit_turn_def [abs_def] del: raw_of_None)
qed

section \<open>Managing conversations\<close>

lemma rename_run:
  assumes t: "conv_stored t" and ids: "validate_conversation_id old = Inr ()" "validate_conversation_id new = Inr ()"
    and ne: "old \<noteq> new" and x: "conv_view t old = Some x" and free: "conv_view t new = None"
  obtains t' where "conversation_rename old new t = (Inr (), t')" "conv_stored t'"
    "conv_view t' = (conv_view t)(new \<mapsto> x\<lparr>cs_id := new\<rparr>, old := None)"
proof -
  let ?y = "x\<lparr>cs_id := new\<rparr>"
  have "conversation_valid x" using conv_view_valid [OF t x] by simp
  then have y: "conversation_valid ?y" "make_conversation ?y = Inr ?y"
    using valid_id_nonempty [OF ids(2)] by (simp_all add: conversation_valid_def indexes_ok_def)
  from save_run [OF t y(1)] obtain t1 where t1: "save_unlocked ?y t = (Inr (), t1)" "conv_stored t1"
    "conv_view t1 = (conv_view t)(new \<mapsto> ?y)" by auto
  from conv_delete [OF t1(2), of old] obtain t2 where t2: "tab_delete ''conversations'' old t1 = (Inr (), t2)"
    "conv_stored t2" "conv_view t2 = (conv_view t1)(old := None)" by blast
  have lk: "locked_many [old, new] = Inr (sort (remdups [old, new]))"
  proof -
    have "mapE validate_conversation_id (sort (remdups [old, new])) = Inr (map (\<lambda>_. ()) (sort (remdups [old, new])))"
      by (rule mapE_all_Inr) (use ids in \<open>auto split: if_splits\<close>)
    then show ?thesis by (simp add: locked_many_def del: remdups.simps)
  qed
  have "conversation_rename old new t = (Inr (), t2)"
    using ne ids lk x free t1(1) t2(1) y(2) raw_decode [OF t x] conv_raw [OF t, of old] conv_raw [OF t, of new]
    by (simp add: conversation_rename_def bind_act_def atomic_act_def raw_of_Some del: remdups.simps)
  with t2 t1(3) show ?thesis by (intro that) simp_all
qed


lemma branch_run:
  assumes t: "conv_stored t" and ids: "validate_conversation_id source = Inr ()" "validate_conversation_id new = Inr ()"
    and x: "conv_view t source = Some x" and free: "conv_view t new = None"
    and n: "n \<le> length (cs_messages x)" "index = None \<and> n = length (cs_messages x) \<or> index = Some (int n)"
  obtains t' y where "conversation_branch source new index t = (Inr y, t')" "conv_stored t'"
    "conv_view t' = (conv_view t)(new \<mapsto> y)"
    "y = \<lparr>cs_id = new, cs_summary = cs_summary x, cs_messages = take n (cs_messages x), cs_start = cs_start x,
       cs_next = cs_start x + int n, cs_archived = False, cs_pending = []\<rparr>"
proof -
  let ?y = "\<lparr>cs_id = new, cs_summary = cs_summary x, cs_messages = take n (cs_messages x), cs_start = cs_start x,
       cs_next = cs_start x + int n, cs_archived = False, cs_pending = []\<rparr>"
  have "conversation_valid x" using conv_view_valid [OF t x] by simp
  then have y: "conversation_valid ?y" "make_conversation ?y = Inr ?y"
    using valid_id_nonempty [OF ids(2)] n(1) by (simp_all add: conversation_valid_def indexes_ok_def)
  from save_run [OF t y(1)] obtain t1 where t1: "save_unlocked ?y t = (Inr (), t1)" "conv_stored t1"
    "conv_view t1 = (conv_view t)(new \<mapsto> ?y)" by auto
  have lk: "locked_many [source, new] = Inr (sort (remdups [source, new]))"
  proof -
    have "mapE validate_conversation_id (sort (remdups [source, new])) = Inr (map (\<lambda>_. ()) (sort (remdups [source, new])))"
      by (rule mapE_all_Inr) (use ids in \<open>auto split: if_splits\<close>)
    then show ?thesis by (simp add: locked_many_def del: remdups.simps)
  qed
  have ix: "(case index of None \<Rightarrow> int (length (cs_messages x)) | Some i \<Rightarrow> i) = int n"
    using n(2) by auto
  have "conversation_branch source new index t = (Inr ?y, t1)"
    using ids lk x free t1(1) y(2) n(1) raw_decode [OF t x] conv_raw [OF t, of source] conv_raw [OF t, of new]
    by (simp add: conversation_branch_def bind_act_def atomic_act_def raw_of_Some ix Let_def del: remdups.simps)
  with t1 show ?thesis by (intro that) simp_all
qed

lemma set_archived_run:
  assumes t: "conv_stored t" and id: "validate_conversation_id cid = Inr ()"
  shows "case conv_view t cid of
      None \<Rightarrow> set_archived flag not_found already cid t = (Inl (ValueError not_found), t)
    | Some x \<Rightarrow>
        if cs_archived x = flag then set_archived flag not_found already cid t = (Inl (ValueError already), t)
        else \<exists>t'. set_archived flag not_found already cid t = (Inr (), t') \<and> conv_stored t'
          \<and> conv_view t' = (conv_view t)(cid \<mapsto> x\<lparr>cs_archived := flag\<rparr>)"
proof (cases "conv_view t cid")
  case None
  then show ?thesis
    using id conv_raw [OF t, of cid]
    by (simp add: set_archived_def bind_act_def atomic_act_def raw_of_def)
next
  case (Some x)
  let ?y = "x\<lparr>cs_archived := flag\<rparr>"
  have x: "conversation_valid x" "cs_id x = cid" using conv_view_valid [OF t Some] by simp_all
  then have y: "conversation_valid ?y" "make_conversation ?y = Inr ?y" "cs_id ?y = cid"
    by (simp_all add: conversation_valid_def indexes_ok_def)
  from save_run [OF t y(1)] y(3) obtain t1 where "save_unlocked ?y t = (Inr (), t1)" "conv_stored t1"
    "conv_view t1 = (conv_view t)(cid \<mapsto> ?y)" by auto
  with Some id y(2) raw_decode [OF t Some] conv_raw [OF t, of cid] show ?thesis
    by (auto simp: set_archived_def bind_act_def atomic_act_def raw_of_Some)
qed

lemma delete_run:
  assumes t: "conv_stored t" and id: "validate_conversation_id cid = Inr ()"
  shows "case conv_view t cid of
      None \<Rightarrow> conversation_delete cid t = (Inl (ValueError ''conversation not found''), t)
    | Some x \<Rightarrow> \<exists>t'. conversation_delete cid t = (Inr (), t') \<and> conv_stored t' \<and> conv_view t' = (conv_view t)(cid := None)"
proof (cases "conv_view t cid")
  case None
  then show ?thesis
    using id conv_raw [OF t, of cid] by (simp add: conversation_delete_def bind_act_def atomic_act_def raw_of_def)
next
  case (Some x)
  from conv_delete [OF t, of cid] obtain t1 where "tab_delete ''conversations'' cid t = (Inr (), t1)" "conv_stored t1"
    "conv_view t1 = (conv_view t)(cid := None)" by blast
  with Some id conv_raw [OF t, of cid] show ?thesis
    by (simp add: conversation_delete_def bind_act_def atomic_act_def raw_of_Some)
qed

text \<open>
  \<open>rename\<close> moves one conversation, complete, to a free name and changes nothing else; renaming
  an absent conversation, or onto a taken name, raises and changes nothing.
\<close>

theorem rename_spec:
  assumes "conv_stored t" and "validate_conversation_id old = Inr ()" and "validate_conversation_id new = Inr ()"
    and "old \<noteq> new"
  shows "case conv_view t old of
      None \<Rightarrow> conversation_rename old new t = (Inl (ValueError ''conversation not found''), t)
    | Some x \<Rightarrow>
        if conv_view t new \<noteq> None
        then conversation_rename old new t = (Inl (ValueError ''conversation already exists''), t)
        else fst (conversation_rename old new t) = Inr ()
          \<and> conv_view (snd (conversation_rename old new t)) = (conv_view t)(new \<mapsto> x\<lparr>cs_id := new\<rparr>, old := None)"
proof -
  have "mapE validate_conversation_id (sort (remdups [old, new])) = Inr (map (\<lambda>_. ()) (sort (remdups [old, new])))"
    by (rule mapE_all_Inr) (use assms(2,3) in \<open>auto split: if_splits\<close>)
  then have lk: "locked_many [old, new] = Inr (sort (remdups [old, new]))" by (simp add: locked_many_def del: remdups.simps)
  show ?thesis
  proof (cases "conv_view t old")
    case None
    with assms lk conv_raw [OF assms(1), of old] show ?thesis
      by (simp add: conversation_rename_def bind_act_def atomic_act_def raw_of_def del: remdups.simps)
  next
    case (Some x)
    show ?thesis
    proof (cases "conv_view t new")
      case None
      from rename_run [OF assms Some None] obtain t' where "conversation_rename old new t = (Inr (), t')"
        "conv_view t' = (conv_view t)(new \<mapsto> x\<lparr>cs_id := new\<rparr>, old := None)" by blast
      with Some None show ?thesis by simp
    next
      case (Some y)
      with \<open>conv_view t old = Some x\<close> assms lk conv_raw [OF assms(1), of old] conv_raw [OF assms(1), of new]
      show ?thesis
        by (simp add: conversation_rename_def bind_act_def atomic_act_def raw_of_Some del: remdups.simps)
    qed
  qed
qed

text \<open>
  \<open>branch\<close> stores, under a free name, exactly the first messages of the source up to the given
  index, at the source's own start index and with no pending turn; the source is not changed.
\<close>

theorem branch_spec:
  assumes "conv_stored t" and "validate_conversation_id source = Inr ()" and "validate_conversation_id new = Inr ()"
    and "conv_view t source = Some x" and "conv_view t new = None" and "n \<le> length (cs_messages x)"
  shows "\<exists>y t'. conversation_branch source new (Some (int n)) t = (Inr y, t')
    \<and> conv_view t' = (conv_view t)(new \<mapsto> y) \<and> cs_messages y @ drop n (cs_messages x) = cs_messages x
    \<and> cs_next y = cs_start y + int n \<and> cs_start y = cs_start x \<and> cs_pending y = [] \<and> cs_id y = new"
  by (rule branch_run [OF assms(1-6), of "Some (int n)"]) (use assms(6) in auto)

section \<open>Histories\<close>

lemma always_raw: "always conv_stored (conversation_raw cid)
    (\<lambda>w. \<forall>v x. w = Some v \<longrightarrow> conversation_from_wire v = Inr x \<longrightarrow> conversation_valid x)"
  by (rule alwaysI) (auto simp: conv_raw raw_of_def raw_decode dest: conv_view_valid)

lemma always_save: "conversation_valid x \<Longrightarrow> always conv_stored (save_unlocked x) (\<lambda>_. True)"
  by (rule alwaysI) (metis save_run prod.inject)

lemma always_tab_delete: "always conv_stored (tab_delete ''conversations'' cid) (\<lambda>_. True)"
  by (rule alwaysI) (metis conv_delete prod.inject)

lemmas always_check = always_bind [OF always_lift [where Q = "\<lambda>_. True"]]

lemma begin_valid:
  "begin_turn_attempt sha x i message b = Inr y \<Longrightarrow> conversation_valid x \<Longrightarrow> i \<noteq> '''' \<Longrightarrow> hex_digest (sha message) \<Longrightarrow>
   conversation_valid y"
  using begin_new [of x i sha message b] valid_with_pending [of x i sha message]
  by (cases "pending_of i x") (auto simp: begin_turn_attempt_def pending_of_def Let_def split: if_splits)

lemma finish_keeps_valid: "finish_turn_attempt x i = Inr y \<Longrightarrow> conversation_valid x \<Longrightarrow> conversation_valid y"
  using finish_valid [of x] valid_without_pending [of x] by (cases i) (auto simp: finish_turn_attempt_def)

lemma update_keeps:
  assumes upd: "\<And>x. conversation_valid x \<Longrightarrow> always conv_stored (upd x) (\<lambda>(y, r). conversation_valid y)"
    and sha: "\<And>m. hex_digest (sha m)" and i: "i \<noteq> Some ''''"
  shows "always conv_stored (conversation_update sha upd i message b observed cid) (\<lambda>_. True)"
proof -
  have commit: "always conv_stored (atomic_act
         (bind_act (conversation_raw cid) (\<lambda>now.
          bind_act (lift_act (\<lambda>_. raise_if (now \<noteq> original)
                      (ValueError ''conversation changed concurrently; retry the turn''))) (\<lambda>_.
          bind_act (lift_act (\<lambda>_. finish_turn_attempt y i)) save_unlocked)))) (\<lambda>_. True)"
    if "conversation_valid y" for original y
    using finish_keeps_valid [OF _ that]
    by (intro always_atomic always_bind [OF always_raw] always_check
        always_bind [OF always_lift [where Q = conversation_valid]] always_save) auto
  have begun: "always conv_stored (bind_act (lift_act (\<lambda>_. begin_turn_attempt sha x j m b)) (\<lambda>begun.
      bind_act (atomic_act (save_unlocked begun)) (\<lambda>_.
      bind_act (conversation_raw cid) (\<lambda>original. ret_act (begun, original))))) (\<lambda>(x, _). conversation_valid x)"
    if "conversation_valid x" "j \<noteq> ''''" for x j m
    using begin_valid [where sha = sha and message = m, OF _ that sha]
    by (intro always_bind [OF always_lift [where Q = conversation_valid]] always_bind [OF always_atomic [OF always_save]]
        always_bind [OF always_raw] always_ret) auto
  have middle: "always conv_stored (case (i, message) of
          (Some j, Some m) \<Rightarrow>
            (if answered x j then ret_act (x, original)
             else bind_act (lift_act (\<lambda>_. begin_turn_attempt sha x j m b)) (\<lambda>begun.
                  bind_act (atomic_act (save_unlocked begun)) (\<lambda>_.
                  bind_act (conversation_raw cid) (\<lambda>original. ret_act (begun, original)))))
        | _ \<Rightarrow> ret_act (x, original)) (\<lambda>(x, _). conversation_valid x)"
    if "conversation_valid x" for x original
    using begun [OF that] that i by (auto split: option.splits intro!: always_ret always_if simp del: ret_act_apply)
  have finish: "always conv_stored (case p of (state, original) \<Rightarrow>
         bind_act (upd state) (\<lambda>(updated, r).
         bind_act (lift_act (\<lambda>_. raise_if (cs_id updated \<noteq> cid)
                 (ValueError ''conversation update cannot change conversation identity''))) (\<lambda>_.
         bind_act
           (atomic_act
             (bind_act (conversation_raw cid) (\<lambda>now.
              bind_act (lift_act (\<lambda>_. raise_if (now \<noteq> original)
                      (ValueError ''conversation changed concurrently; retry the turn''))) (\<lambda>_.
              bind_act (lift_act (\<lambda>_. finish_turn_attempt updated i)) save_unlocked)))) (\<lambda>_.
         bind_act (lift_act (\<lambda>_. observed)) (\<lambda>_. ret_act r))))) (\<lambda>_. True)"
    if "case p of (x, _) \<Rightarrow> conversation_valid x" for p
    using that
    by (cases p) (auto intro!: always_bind [OF upd] always_check always_bind [OF commit] always_ret simp del: ret_act_apply)
  have state: "conversation_valid x"
    if "cid \<noteq> ''''" "\<forall>v x. w = Some v \<longrightarrow> conversation_from_wire v = Inr x \<longrightarrow> conversation_valid x"
      "(case w of None \<Rightarrow> Inr (empty_conversation cid) | Some w \<Rightarrow> conversation_from_wire w) = Inr x" for w x
    using that by (auto simp: conversation_valid_def empty_conversation_def indexes_ok_def split: option.splits)
  show ?thesis
    unfolding conversation_update_def
    by (rule always_bind_lift, drule valid_id_nonempty, rule always_bind_lift, rule always_bind [OF always_raw],
        rule always_bind_lift, rule always_bind [OF middle], erule (2) state, rule finish)
qed

text \<open>
  A history of the store. An update's callback may do anything to the stored tables that keeps the
  conversations well formed, which every operation of the store does.
\<close>

inductive conv_step :: "tables \<Rightarrow> tables \<Rightarrow> bool" where
  Saved: "conversation_valid x \<Longrightarrow> conv_step t (snd (conversation_save x t))"
| Updated: "(\<And>x. conversation_valid x \<Longrightarrow> always conv_stored (upd x) (\<lambda>(y, r :: unit). conversation_valid y)) \<Longrightarrow>
    (\<And>m. hex_digest (sha m)) \<Longrightarrow> i \<noteq> Some '''' \<Longrightarrow>
    conv_step t (snd (conversation_update sha upd i message b observed cid t))"
| Renamed: "conv_step t (snd (conversation_rename old new t))"
| Branched: "conv_step t (snd (conversation_branch source new index t))"
| Archived: "conv_step t (snd (conversation_archive cid t))"
| Unarchived: "conv_step t (snd (conversation_unarchive cid t))"
| Deleted: "conv_step t (snd (conversation_delete cid t))"

lemma make_keeps_valid:
  "make_conversation x = Inr y \<Longrightarrow> indexes_ok x \<Longrightarrow> cs_id x \<noteq> '''' \<Longrightarrow> list_all pending_ok (cs_pending x) \<Longrightarrow>
   conversation_valid y"
  using validate_indexes_iff [of x]
  by (auto simp: make_conversation_def conversation_valid_def indexes_ok_def Let_def split: if_splits)

lemma archived_keeps: "always conv_stored (set_archived flag a b cid) (\<lambda>_. True)"
proof (rule alwaysI)
  fix t r t'
  assume t: "conv_stored t" and run: "set_archived flag a b cid t = (r, t')"
  show "conv_stored t' \<and> (\<forall>x. r = Inr x \<longrightarrow> True)"
  proof (cases "validate_conversation_id cid")
    case (Inl e)
    with run t show ?thesis by (auto simp: set_archived_def bind_act_def)
  next
    case (Inr u)
    with set_archived_run [OF t, of cid flag a b] run t show ?thesis by (auto split: option.splits if_splits)
  qed
qed

lemma delete_keeps: "always conv_stored (conversation_delete cid) (\<lambda>_. True)"
proof (rule alwaysI)
  fix t r t'
  assume t: "conv_stored t" and run: "conversation_delete cid t = (r, t')"
  show "conv_stored t' \<and> (\<forall>x. r = Inr x \<longrightarrow> True)"
  proof (cases "validate_conversation_id cid")
    case (Inl e)
    with run t show ?thesis by (auto simp: conversation_delete_def bind_act_def)
  next
    case (Inr u)
    with delete_run [OF t, of cid] run t show ?thesis by (auto split: option.splits)
  qed
qed

lemma rename_keeps: "always conv_stored (conversation_rename old new) (\<lambda>_. True)"
proof -
  have body: "always conv_stored (case raw of
                None \<Rightarrow> raise_act (ValueError ''conversation not found'')
              | Some w \<Rightarrow>
                  bind_act (conversation_raw new) (\<lambda>existing.
                  bind_act (lift_act (\<lambda>_. raise_if (existing \<noteq> None)
                              (ValueError ''conversation already exists''))) (\<lambda>_.
                  bind_act (lift_act (\<lambda>_. conversation_from_wire w)) (\<lambda>state.
                  bind_act (lift_act (\<lambda>_. make_conversation (state\<lparr>cs_id := new\<rparr>))) (\<lambda>renamed.
                  bind_act (save_unlocked renamed) (\<lambda>_.
                  tab_delete ''conversations'' old)))))) (\<lambda>_. True)"
    if new: "new \<noteq> ''''" and raw: "\<forall>v x. raw = Some v \<longrightarrow> conversation_from_wire v = Inr x \<longrightarrow> conversation_valid x" for raw
  proof (cases raw)
    case None
    then show ?thesis by (simp add: always_raise del: raise_act_apply)
  next
    case (Some w)
    have "conversation_valid y" if "make_conversation (x\<lparr>cs_id := new\<rparr>) = Inr y" "conversation_valid x" for x y
      by (rule make_keeps_valid [OF that(1)]) (use that(2) new in \<open>auto simp: conversation_valid_def indexes_ok_def\<close>)
    moreover have "conversation_valid x" if "conversation_from_wire w = Inr x" for x using raw Some that by blast
    ultimately show ?thesis unfolding Some option.case
      by (intro always_bind [OF always_raw] always_bind_lift always_bind [OF always_save] always_tab_delete) blast
  qed
  show ?thesis
    unfolding conversation_rename_def
    by (rule always_if, rule always_ret, rule TrueI,
        rule always_bind_lift, rule always_bind_lift, drule valid_id_nonempty, drule valid_id_nonempty,
        rule always_bind_lift, rule always_atomic, rule always_bind [OF always_raw], erule body, assumption)
qed

lemma branch_keeps: "always conv_stored (conversation_branch source new index) (\<lambda>_. True)"
proof -
  have body: "always conv_stored (case raw of
          None \<Rightarrow> raise_act (ValueError ''source conversation not found'')
        | Some w \<Rightarrow>
            bind_act (conversation_raw new) (\<lambda>existing.
            bind_act (lift_act (\<lambda>_. raise_if (existing \<noteq> None)
                        (ValueError ''conversation already exists''))) (\<lambda>_.
            bind_act (lift_act (\<lambda>_. conversation_from_wire w)) (\<lambda>x.
            (let index = (case index of None \<Rightarrow> int (length (cs_messages x)) | Some i \<Rightarrow> i) in
             bind_act (lift_act (\<lambda>_. raise_if (index < 0 \<or> int (length (cs_messages x)) < index)
                         (ValueError ''branch index out of range''))) (\<lambda>_.
             bind_act (lift_act (\<lambda>_. make_conversation
                 \<lparr>cs_id = new, cs_summary = cs_summary x, cs_messages = take (nat index) (cs_messages x),
                  cs_start = cs_start x, cs_next = cs_start x + index, cs_archived = False, cs_pending = []\<rparr>)) (\<lambda>branched.
             bind_act (save_unlocked branched) (\<lambda>_. ret_act branched)))))))) (\<lambda>_. True)"
    if new: "new \<noteq> ''''" and raw: "\<forall>v x. raw = Some v \<longrightarrow> conversation_from_wire v = Inr x \<longrightarrow> conversation_valid x" for raw
  proof (cases raw)
    case None
    then show ?thesis by (simp add: always_raise del: raise_act_apply)
  next
    case (Some w)
    have v: "conversation_valid y"
      if "make_conversation \<lparr>cs_id = new, cs_summary = cs_summary x, cs_messages = take (nat n) (cs_messages x),
            cs_start = cs_start x, cs_next = cs_start x + n, cs_archived = False, cs_pending = []\<rparr> = Inr y"
        "conversation_valid x" "\<not> (n < 0 \<or> int (length (cs_messages x)) < n)" for x y n
      by (rule make_keeps_valid [OF that(1)]) (use that(2,3) new in \<open>auto simp: conversation_valid_def indexes_ok_def\<close>)
    have x: "conversation_valid x" if "conversation_from_wire w = Inr x" for x using raw Some that by blast
    show ?thesis unfolding Some option.case Let_def
      by (rule always_bind [OF always_raw], rule always_bind_lift, rule always_bind_lift, drule x, rule always_bind_lift,
          rule always_bind_lift, rule always_bind [OF always_save], erule v, assumption,
          simp add: raise_if_eq_Inr, rule always_ret, rule TrueI)
  qed
  show ?thesis
    unfolding conversation_branch_def
    by (rule always_bind_lift, rule always_bind_lift, drule valid_id_nonempty, drule valid_id_nonempty,
        rule always_bind_lift, rule always_atomic, rule always_bind [OF always_raw], erule body, assumption)
qed

lemma conv_step_stored:
  assumes "conv_step t t'" and "conv_stored t"
  shows "conv_stored t'"
  using assms
proof cases
  case (Saved x)
  have "always conv_stored (conversation_save x) (\<lambda>_. True)"
    unfolding conversation_save_def by (intro always_check always_atomic always_save Saved) auto
  with Saved assms(2) show ?thesis by (simp add: alwaysD)
next
  case (Updated upd sha i message b observed cid)
  have "always conv_stored (conversation_update sha upd i message b observed cid) (\<lambda>_. True)"
    using Updated(2-4) by (rule update_keeps)
  with Updated(1) assms(2) show ?thesis by (simp add: alwaysD)
next
  case (Renamed old new)
  with assms(2) show ?thesis by (simp add: alwaysD [OF rename_keeps])
next
  case (Branched source new index)
  with assms(2) show ?thesis by (simp add: alwaysD [OF branch_keeps])
next
  case (Archived cid)
  with assms(2) show ?thesis by (simp add: conversation_archive_def alwaysD [OF archived_keeps])
next
  case (Unarchived cid)
  with assms(2) show ?thesis by (simp add: conversation_unarchive_def alwaysD [OF archived_keeps])
next
  case (Deleted cid)
  with assms(2) show ?thesis by (simp add: alwaysD [OF delete_keeps])
qed

lemma conv_states_run:
  assumes "conv_stored t"
  shows "conversation_states t = (Inr (stored_records conversation_from_wire (t ''conversations'')), t)"
proof -
  let ?xs = "stored_records conversation_from_wire (t ''conversations'')"
  have "mapE conversation_from_wire (coll_list (t ''conversations'')) = Inr ?xs"
    using assms by (simp add: conv_stored_def conversation.list_stored_strict)
  then show ?thesis by (simp add: conversation_states_def bind_act_def tab_list_def)
qed



text \<open>
  After any history that starts from an empty store, every stored conversation decodes; the
  two listings are sorted, disjoint, and together exactly the stored identifiers; and every stored
  conversation has consistent message indexes and at most one pending attempt per turn.
\<close>

theorem conversation_history:
  assumes "conv_step\<^sup>*\<^sup>* (\<lambda>_. []) t"
  shows "\<exists>open archived. conversation_list t = (Inr open, t) \<and> conversation_list_archived t = (Inr archived, t)
    \<and> sorted open \<and> sorted archived \<and> set open \<inter> set archived = {} \<and> set open \<union> set archived = dom (conv_view t)
    \<and> (\<forall>x \<in> ran (conv_view t). cs_next x = cs_start x + int (length (cs_messages x)) \<and> 0 \<le> cs_start x
        \<and> distinct (map pt_turn_id (cs_pending x)))"
proof -
  have t: "conv_stored t"
    using assms
  proof (induction rule: rtranclp_induct)
    case base
    show ?case by (simp add: conv_stored_def)
  qed (rule conv_step_stored)
  let ?xs = "stored_records conversation_from_wire (t ''conversations'')"
  have mem: "x \<in> set ?xs \<longleftrightarrow> conv_view t (cs_id x) = Some x" for x
    using conversation.mem_view [OF t [unfolded conv_stored_def], of x] by (simp add: conv_view_def)
  have valid: "conversation_valid x \<and> cs_id x = key" if "conv_view t key = Some x" for key x
    using conv_view_valid [OF t that] .
  let ?open = "map cs_id (filter (\<lambda>x. \<not> cs_archived x) ?xs)" and ?arch = "map cs_id (filter cs_archived ?xs)"
  have disj: "set ?open \<inter> set ?arch = {}"
  proof -
    have "x = y" if "x \<in> set ?xs" "y \<in> set ?xs" "cs_id x = cs_id y" for x y
      using mem [of x] mem [of y] that by simp
    then have "cs_id x \<noteq> cs_id y" if "x \<in> set ?xs" "y \<in> set ?xs" "\<not> cs_archived x" "cs_archived y" for x y
      using that by blast
    then show ?thesis by auto
  qed
  have union: "set ?open \<union> set ?arch = dom (conv_view t)"
  proof -
    have "key \<in> dom (conv_view t) \<longleftrightarrow> (\<exists>x \<in> set ?xs. cs_id x = key)" for key
    proof
      assume "key \<in> dom (conv_view t)"
      then obtain x where x: "conv_view t key = Some x" by blast
      then have "cs_id x = key" using valid by simp
      with x mem [of x] show "\<exists>x \<in> set ?xs. cs_id x = key" by blast
    next
      assume "\<exists>x \<in> set ?xs. cs_id x = key"
      then obtain x where "x \<in> set ?xs" "cs_id x = key" by blast
      with mem [of x] show "key \<in> dom (conv_view t)" by blast
    qed
    then have "dom (conv_view t) = cs_id ` set ?xs" by (simp add: set_eq_iff image_iff eq_commute)
    moreover have "set ?open \<union> set ?arch = cs_id ` set ?xs" by auto
    ultimately show ?thesis by simp
  qed
  have "conversation_list t = (Inr (sort ?open), t)" "conversation_list_archived t = (Inr (sort ?arch), t)"
    by (simp_all add: conversation_list_def conversation_list_archived_def bind_act_def conv_states_run [OF t])
  then show ?thesis
    using disj union valid
    by (intro exI [of _ "sort ?open"] exI [of _ "sort ?arch"])
      (auto simp: conversation_valid_def indexes_ok_def ran_def)
qed

section \<open>Concrete runs\<close>

definition sample_sha :: digest where
  "sample_sha m = (if m = ''hi'' then replicate 64 (CHR ''0'') else replicate 64 (CHR ''1''))"

lemma hex_sample [simp]: "hex_digest (sample_sha m)"
  by (simp add: hex_digest_def sample_sha_def list_all_length)

definition sample_conversation :: ConversationState where
  "sample_conversation = \<lparr>cs_id = ''main'', cs_summary = '''',
     cs_messages = [\<lparr>msg_role = RoleUser, msg_content = ''a'', msg_turn_id = None\<rparr>,
                    \<lparr>msg_role = RoleAssistant, msg_content = ''b'', msg_turn_id = None\<rparr>],
     cs_start = 3, cs_next = 5, cs_archived = False,
     cs_pending = [\<lparr>pt_turn_id = ''t1'', pt_input_digest = sample_sha ''hi''\<rparr>]\<rparr>"

definition sample_conversations :: tables where
  "sample_conversations = (\<lambda>_. [])(''conversations'' :=
     row_put (cs_id sample_conversation) (payload_of (conversation_wire sample_conversation)) [])"

lemma sample_conversation_valid: "conversation_valid sample_conversation"
  by (simp add: conversation_valid_def sample_conversation_def indexes_ok_def pending_ok_def)

lemma sample_conversations_ok:
  "conv_stored sample_conversations"
  "conv_view sample_conversations = [''main'' \<mapsto> sample_conversation]"
proof -
  show "conv_stored sample_conversations"
    using conversation.stored_put [OF _ sample_conversation_valid, of "[]"]
    by (simp add: conv_stored_def sample_conversations_def del: row_put.simps)
  have "view conversation_from_wire [] = Map.empty" by (simp add: view_def load_def coll_get_def fun_eq_iff)
  then show "conv_view sample_conversations = [''main'' \<mapsto> sample_conversation]"
    using conversation.view_put [OF _ sample_conversation_valid, of "[]"]
    by (simp add: conv_view_def sample_conversations_def del: row_put.simps) (simp add: sample_conversation_def)
qed

lemma sample_ids [simp]:
  "validate_conversation_id ''main'' = Inr ()" "validate_conversation_id ''copy'' = Inr ()"
  by (simp_all add: validate_conversation_id_def raise_if_def)

lemma turn_commits_witness:
  "\<exists>t1. conv_stored t1 \<and> conversation_update sample_sha (\<lambda>_. raise_act (OtherException ''model down'')) (Some ''t2'') (Some ''yo'')
     False (Inr ()) ''main'' sample_conversations = (Inl (OtherException ''model down'') :: unit result, t1)
   \<and> map_option cs_pending (conv_view t1 ''main'') =
       Some [\<lparr>pt_turn_id = ''t1'', pt_input_digest = sample_sha ''hi''\<rparr>, \<lparr>pt_turn_id = ''t2'', pt_input_digest = sample_sha ''yo''\<rparr>]"
proof -
  have c: "current_state sample_conversations ''main'' = sample_conversation"
    by (simp add: current_state_def sample_conversations_ok)
  have n: "\<not> answered (current_state sample_conversations ''main'') ''t2''"
    "pending_of ''t2'' (current_state sample_conversations ''main'') = None"
    unfolding c by (simp_all add: sample_conversation_def answered_def pending_of_def)
  from turn_commits [OF sample_conversations_ok(1) sample_ids(1) n, where sha = sample_sha and message = "''yo''"
      and upd = "\<lambda>_. raise_act (OtherException ''model down'') :: (tables, ConversationState \<times> unit) act" and b = False]
  obtain t1 where t1: "conv_stored t1" "conv_view t1 = (conv_view sample_conversations)
      (''main'' \<mapsto> with_pending sample_sha ''t2'' ''yo'' sample_conversation)"
    "conversation_update sample_sha (\<lambda>_. raise_act (OtherException ''model down'')) (Some ''t2'') (Some ''yo'')
     False (Inr ()) ''main'' sample_conversations = (Inl (OtherException ''model down'') :: unit result, t1)"
    by (auto simp: c)
  then show ?thesis
    by (intro exI [of _ t1]) (simp add: with_pending_def pending_from_message_def sample_conversation_def)
qed

lemma interrupted_turn_refused_witness:
  "let upd = (\<lambda>_. raise_act (OtherException ''not run'')) :: ConversationState \<Rightarrow> (tables, ConversationState \<times> unit) act in
   conversation_update sample_sha upd (Some ''t1'') (Some ''hi'') False (Inr ()) ''main'' sample_conversations
     = (Inl (ConversationTurnIncompleteError ''turn ID has an unfinished prior execution''), sample_conversations)
   \<and> conversation_update sample_sha upd (Some ''t1'') (Some ''other'') True (Inr ()) ''main'' sample_conversations
     = (Inl (ConversationTurnConflictError ''turn ID is already bound to different input''), sample_conversations)"
proof -
  have v: "conv_view sample_conversations ''main'' = Some sample_conversation"
    by (simp add: sample_conversations_ok)
  have p: "pending_of ''t1'' sample_conversation = Some \<lparr>pt_turn_id = ''t1'', pt_input_digest = sample_sha ''hi''\<rparr>"
    "\<not> answered sample_conversation ''t1''"
    by (simp_all add: pending_of_def answered_def sample_conversation_def)
  have "sample_sha ''other'' \<noteq> sample_sha ''hi''" by (simp add: sample_sha_def numeral_eq_Suc)
  then show ?thesis
    using interrupted_turn_refused [OF sample_conversations_ok(1) sample_ids(1) v p, of sample_sha
      "(\<lambda>_. raise_act (OtherException ''not run'')) :: ConversationState \<Rightarrow> (tables, ConversationState \<times> unit) act"]
    unfolding Let_def by simp
qed

lemma rename_spec_witness:
  "fst (conversation_rename ''main'' ''copy'' sample_conversations) = Inr ()
   \<and> conv_view (snd (conversation_rename ''main'' ''copy'' sample_conversations)) ''main'' = None
   \<and> map_option cs_messages (conv_view (snd (conversation_rename ''main'' ''copy'' sample_conversations)) ''copy'')
       = Some (cs_messages sample_conversation)"
  using rename_spec [OF sample_conversations_ok(1) sample_ids] by (simp add: sample_conversations_ok)

lemma branch_spec_witness:
  "\<exists>y t'. conversation_branch ''main'' ''copy'' (Some 1) sample_conversations = (Inr y, t')
    \<and> cs_next y = 4 \<and> length (cs_messages y) = 1"
proof -
  have v: "conv_view sample_conversations ''main'' = Some sample_conversation"
    "conv_view sample_conversations ''copy'' = None" by (simp_all add: sample_conversations_ok)
  have "1 \<le> length (cs_messages sample_conversation)" by (simp add: sample_conversation_def)
  from branch_spec [OF sample_conversations_ok(1) sample_ids v this] obtain y t' where
    y: "conversation_branch ''main'' ''copy'' (Some (int 1)) sample_conversations = (Inr y, t')"
    "cs_messages y @ drop 1 (cs_messages sample_conversation) = cs_messages sample_conversation"
    "cs_next y = cs_start y + int 1" "cs_start y = cs_start sample_conversation" by blast
  have "cs_messages y = take 1 (cs_messages sample_conversation)" using y(2) by (metis append_same_eq append_take_drop_id)
  with y show ?thesis by (intro exI [of _ y] exI [of _ t']) (simp add: sample_conversation_def)
qed

lemma conversation_history_witness:
  "\<exists>open. conversation_list (snd (conversation_save sample_conversation (\<lambda>_. [])))
     = (Inr open, snd (conversation_save sample_conversation (\<lambda>_. []))) \<and> sorted open"
proof -
  have "conv_step\<^sup>*\<^sup>* (\<lambda>_. []) (snd (conversation_save sample_conversation (\<lambda>_. [])))"
    by (intro r_into_rtranclp conv_step.Saved sample_conversation_valid)
  from conversation_history [OF this] show ?thesis by blast
qed

end
