(* ===== verification/TaskScheduler.thy ===== *)
theory TaskScheduler
  imports RuntimeCtx "HOL-Library.Product_Lexorder" "HOL-Library.Multiset"
begin

text \<open>
  The daemon's scheduler (\<open>daemon/scheduler.py\<close>) and the closed task catalog (\<open>daemon/tasks.py\<close>):
  admission with coalescing and a bound, the choice of the next task, resource exclusion, periodic
  re-admission and shutdown. Every critical section of the code is one function here; a step
  relation interleaves them freely.
\<close>

section \<open>Tasks\<close>

definition daemon_task_kinds :: "string list" where
  "daemon_task_kinds =
     [''memory.scan'', ''memory.curate'', ''conversation.scan'', ''chat.turn'', ''conversation.compress'',
      ''reflection.check'', ''reason.check'', ''delivery.run'', ''reason.export'']"

record DaemonTask =
  task_kind :: string
  task_identity :: string
  task_resource :: string
  task_payload :: pyobj
  task_priority :: int
  task_context :: RuntimeContext

definition make_task :: "DaemonTask \<Rightarrow> DaemonTask result" where
  "make_task t =
     (if blank (task_kind t) \<or> blank (task_identity t) \<or> blank (task_resource t)
      then Inl (ValueError ''daemon task field must not be blank'') else Inr t)"

definition daemon_task ::
  "string \<Rightarrow> string \<Rightarrow> string \<Rightarrow> pyobj \<Rightarrow> int \<Rightarrow> RuntimeContext option \<Rightarrow> RuntimeContext \<Rightarrow> DaemonTask result" where
  "daemon_task kind identity resource payload priority context ambient =
     make_task \<lparr>task_kind = kind, task_identity = identity, task_resource = resource, task_payload = payload,
       task_priority = priority, task_context = (case context of Some c \<Rightarrow> c | None \<Rightarrow> ambient)\<rparr>"

text \<open>
  A completion is a future; it is named by its number, and its state is looked up in the list of
  all futures the scheduler has created. Times are exact.
\<close>

datatype future_state = FuturePending | FutureResult pyobj | FutureError exn | FutureCancelled

record queued =
  q_task :: DaemonTask
  q_completion :: nat
  q_run_at :: rat
  q_sequence :: nat
  q_interval :: "rat option"

datatype SchedulerPhase = PhaseCreated | PhaseRunning | PhaseStopping | PhaseStopped

datatype dispatcher = NotStarted | Alive | Exited

text \<open>
  \<open>in_executor\<close> is the tasks handed to the thread pool and not yet completed: the code keeps them
  in the pool's threads and their done callbacks. \<open>active\<close> is a dict, in insertion order.
\<close>

record scheduler =
  handlers :: "string list"
  max_concurrency :: nat
  queue_capacity :: nat
  pending :: "queued list"
  active :: "(string \<times> queued) list"
  busy_resources :: "string list"
  next_sequence :: nat
  phase :: SchedulerPhase
  last_error :: "(string \<times> exn) option"
  dispatcher_thread :: dispatcher
  in_executor :: "queued list"
  futures :: "future_state list"

definition make_scheduler :: "string list \<Rightarrow> int \<Rightarrow> int \<Rightarrow> scheduler result" where
  "make_scheduler kinds concurrency capacity =
     (if kinds = [] then Inl (ValueError ''daemon scheduler requires at least one handler'')
      else if concurrency < 1 then Inl (ValueError ''max_concurrency must be positive'')
      else if capacity < 1 then Inl (ValueError ''queue_capacity must be positive'')
      else if list_ex blank kinds then Inl (ValueError ''daemon task kinds must not be blank'')
      else Inr \<lparr>handlers = kinds, max_concurrency = nat concurrency, queue_capacity = nat capacity,
        pending = [], active = [], busy_resources = [], next_sequence = 0, phase = PhaseCreated,
        last_error = None, dispatcher_thread = NotStarted, in_executor = [], futures = []\<rparr>)"

section \<open>Admission\<close>

definition start :: "(scheduler, unit) act" where
  "start s =
     (case phase s of
        PhaseCreated \<Rightarrow> (Inr (), s\<lparr>phase := PhaseRunning, dispatcher_thread := Alive\<rparr>)
      | PhaseRunning \<Rightarrow> (Inr (), s)
      | _ \<Rightarrow> (Inl (DaemonSchedulerStoppedError ''daemon scheduler has already stopped''), s))"

definition accepting :: "scheduler \<Rightarrow> bool" where
  "accepting s \<longleftrightarrow> phase s = PhaseCreated \<or> phase s = PhaseRunning"

text \<open>A new queue entry with a new completion; shared by admission and periodic re-admission.\<close>

definition enqueue :: "DaemonTask \<Rightarrow> rat \<Rightarrow> rat option \<Rightarrow> scheduler \<Rightarrow> scheduler" where
  "enqueue task run_at interval s =
     (let q = \<lparr>q_task = task, q_completion = length (futures s), q_run_at = run_at,
                q_sequence = next_sequence s, q_interval = interval\<rparr> in
      s\<lparr>futures := futures s @ [FuturePending], next_sequence := next_sequence s + 1,
        pending := pending s @ [q], active := active s @ [(task_identity task, q)]\<rparr>)"

definition submit :: "rat \<Rightarrow> DaemonTask \<Rightarrow> rat \<Rightarrow> rat option \<Rightarrow> (scheduler, nat) act" where
  "submit now task delay interval s =
     (if delay < 0 then (Inl (ValueError ''task delay must not be negative''), s)
      else if (case interval of None \<Rightarrow> False | Some i \<Rightarrow> i \<le> 0)
      then (Inl (ValueError ''task interval must be positive''), s)
      else if \<not> accepting s then (Inl (DaemonSchedulerStoppedError ''daemon scheduler is not accepting tasks''), s)
      else if task_kind task \<notin> set (handlers s) then (Inl (ValueError ''unknown daemon task kind''), s)
      else case map_of (active s) (task_identity task) of
        Some existing \<Rightarrow> (Inr (q_completion existing), s)
      | None \<Rightarrow>
          (if queue_capacity s \<le> length (active s)
           then (Inl (DaemonSchedulerCapacityError ''daemon scheduler admission is full''), s)
           else (Inr (length (futures s)), enqueue task (now + delay) interval s)))"

record DaemonSchedulerSnapshot =
  snap_running :: bool
  snap_accepting :: bool
  snap_pending :: nat
  snap_in_flight :: nat
  snap_capacity :: nat
  snap_last_error :: "(string \<times> exn) option"

definition snapshot :: "scheduler \<Rightarrow> DaemonSchedulerSnapshot" where
  "snapshot s = \<lparr>snap_running = (phase s = PhaseRunning \<and> dispatcher_thread s = Alive),
     snap_accepting = accepting s, snap_pending = length (pending s),
     snap_in_flight = length (busy_resources s), snap_capacity = max_concurrency s,
     snap_last_error = last_error s\<rparr>"

section \<open>Dispatch\<close>

definition sort_key :: "queued \<Rightarrow> int \<times> rat \<times> nat" where
  "sort_key q = (task_priority (q_task q), q_run_at q, q_sequence q)"

text \<open>\<open>min(..., key=..., default=None)\<close>: the first element with the least key.\<close>

fun min_by :: "('a \<Rightarrow> 'k :: linorder) \<Rightarrow> 'a list \<Rightarrow> 'a option" where
  "min_by key [] = None"
| "min_by key (x # xs) =
     (case min_by key xs of None \<Rightarrow> Some x | Some y \<Rightarrow> if key x \<le> key y then Some x else Some y)"

definition eligible :: "rat \<Rightarrow> scheduler \<Rightarrow> queued \<Rightarrow> bool" where
  "eligible now s q \<longleftrightarrow> q_run_at q \<le> now \<and> task_resource (q_task q) \<notin> set (busy_resources s)"

definition next_runnable :: "rat \<Rightarrow> scheduler \<Rightarrow> queued option" where
  "next_runnable now s =
     (if max_concurrency s \<le> length (busy_resources s) then None
      else min_by sort_key (filter (eligible now s) (pending s)))"

definition wait_timeout :: "rat \<Rightarrow> scheduler \<Rightarrow> rat option" where
  "wait_timeout now s =
     (if max_concurrency s \<le> length (busy_resources s) then None
      else case map q_run_at (filter (\<lambda>q. task_resource (q_task q) \<notin> set (busy_resources s)) (pending s)) of
        [] \<Rightarrow> None
      | t # ts \<Rightarrow> Some (max 0 (foldl min t ts - now)))"

text \<open>
  One turn of the dispatcher's loop: hand the next runnable task to the pool, or exit once the
  scheduler stops and nothing runs, or wait.
\<close>

definition dispatch_step :: "rat \<Rightarrow> scheduler \<Rightarrow> scheduler" where
  "dispatch_step now s =
     (case next_runnable now s of
        Some q \<Rightarrow> s\<lparr>pending := remove1 q (pending s),
                    busy_resources := busy_resources s @ [task_resource (q_task q)],
                    in_executor := in_executor s @ [q]\<rparr>
      | None \<Rightarrow>
          (if phase s = PhaseStopping \<and> busy_resources s = [] then s\<lparr>dispatcher_thread := Exited\<rparr> else s))"

section \<open>Execution\<close>

text \<open>
  \<open>_run\<close> in a pool thread: the task's own context with the source of the work plane, the handler
  between its two events. An event is its name and status; \<open>handler\<close> is the registered one.
\<close>

type_synonym task_event = "string \<times> string"

definition run_context :: "DaemonTask \<Rightarrow> RuntimeContext" where
  "run_context task = (task_context task)\<lparr>ctx_source := Some (''daemon.task.'' @ task_kind task)\<rparr>"

definition publish_task_event :: "string \<Rightarrow> string \<Rightarrow> ((task_event list \<times> 's), unit) ctx_act" where
  "publish_task_event name status = modify_act (\<lambda>(amb, es, s). (amb, es @ [(name, status)], s))"

definition run_task ::
  "(string \<Rightarrow> DaemonTask \<Rightarrow> (task_event list \<times> 's, pyobj) ctx_act) \<Rightarrow> DaemonTask
   \<Rightarrow> (task_event list \<times> 's, pyobj) ctx_act" where
  "run_task handler task =
     bind_act (lift_act (\<lambda>_. make_context (run_context task))) (\<lambda>context.
     use_runtime_context context
       (bind_act (publish_task_event ''task.started'' ''started'') (\<lambda>_.
        (\<lambda>st. case handler (task_kind task) task st of
           (Inl e, st') \<Rightarrow> bind_act (publish_task_event ''task.failed'' ''error'') (\<lambda>_. raise_act e) st'
         | (Inr r, st') \<Rightarrow> bind_act (publish_task_event ''task.completed'' ''completed'') (\<lambda>_. ret_act r) st'))))"

definition set_future :: "nat \<Rightarrow> future_state \<Rightarrow> scheduler \<Rightarrow> scheduler" where
  "set_future i f s = s\<lparr>futures := (futures s)[i := f]\<rparr>"

definition complete :: "rat \<Rightarrow> queued \<Rightarrow> pyobj result \<Rightarrow> scheduler \<Rightarrow> scheduler" where
  "complete now q executed s =
     (let s1 = s\<lparr>busy_resources := remove1 (task_resource (q_task q)) (busy_resources s),
                 active := filter (\<lambda>p. fst p \<noteq> task_identity (q_task q)) (active s),
                 in_executor := remove1 q (in_executor s),
                 last_error := (case executed of Inl e \<Rightarrow> Some (task_kind (q_task q), e) | Inr _ \<Rightarrow> None)\<rparr>;
          s2 = (case q_interval q of
                  Some i \<Rightarrow> (if phase s1 = PhaseRunning then enqueue (q_task q) (now + i) (Some i) s1 else s1)
                | None \<Rightarrow> s1) in
      set_future (q_completion q) (case executed of Inl e \<Rightarrow> FutureError e | Inr r \<Rightarrow> FutureResult r) s2)"

section \<open>Shutdown\<close>

text \<open>
  The critical section that closes admission, and the one that ends the shutdown after the join
  and the executor's own shutdown. A join that runs out of time raises and leaves the phase.
\<close>

definition cancel_all :: "queued list \<Rightarrow> scheduler \<Rightarrow> scheduler" where
  "cancel_all qs s =
     s\<lparr>pending := [],
       active := filter (\<lambda>p. fst p \<notin> (\<lambda>q. task_identity (q_task q)) ` set qs) (active s),
       futures := foldl (\<lambda>fs q. fs[q_completion q := FutureCancelled]) (futures s) qs\<rparr>"

definition shutdown_begin :: "rat \<Rightarrow> bool \<Rightarrow> (scheduler, unit) act" where
  "shutdown_begin timeout cancel_pending s =
     (if timeout < 0 then (Inl (ValueError ''scheduler shutdown timeout must not be negative''), s)
      else if phase s = PhaseStopped then (Inr (), s)
      else (let s1 = s\<lparr>phase := PhaseStopping\<rparr> in
            (Inr (), if cancel_pending then cancel_all (pending s1) s1 else s1)))"

definition shutdown_end :: "(scheduler, unit) act" where
  "shutdown_end s =
     (if phase s = PhaseStopped then (Inr (), s)
      else if dispatcher_thread s = Alive
      then (Inl (TimeoutError ''daemon scheduler did not stop within its deadline''), s)
      else (Inr (), s\<lparr>phase := PhaseStopped\<rparr>))"

text \<open>
  The interleavings: callers submit, start and shut down; the dispatcher turns while it is alive;
  a task in the pool completes at any time with any outcome; a shutdown ends when its join returns.
\<close>

inductive sched_step :: "scheduler \<Rightarrow> scheduler \<Rightarrow> bool" where
  Start: "sched_step s (snd (start s))"
| Submit: "sched_step s (snd (submit now task delay interval s))"
| Dispatch: "dispatcher_thread s = Alive \<Longrightarrow> sched_step s (dispatch_step now s)"
| Complete: "q \<in> set (in_executor s) \<Longrightarrow> sched_step s (complete now q executed s)"
| ShutdownBegin: "sched_step s (snd (shutdown_begin timeout cancel_pending s))"
| ShutdownEnd: "phase s = PhaseStopping \<Longrightarrow> sched_step s (snd (shutdown_end s))"


section \<open>The invariant\<close>

text \<open>
  \<open>live\<close> is every task that is waiting or running. \<open>live_ok\<close>: the live tasks have distinct sequence
  numbers, identities and completions, the index of active tasks is exactly theirs, and the
  unresolved completions are exactly theirs.
\<close>

abbreviation ident :: "queued \<Rightarrow> string" where
  "ident q \<equiv> task_identity (q_task q)"

abbreviation resource :: "queued \<Rightarrow> string" where
  "resource q \<equiv> task_resource (q_task q)"

definition live :: "scheduler \<Rightarrow> queued list" where
  "live s = pending s @ in_executor s"

definition unresolved :: "scheduler \<Rightarrow> nat set" where
  "unresolved s = {c. c < length (futures s) \<and> futures s ! c = FuturePending}"

definition live_ok :: "queued list \<Rightarrow> scheduler \<Rightarrow> bool" where
  "live_ok qs s \<longleftrightarrow>
     distinct (map q_sequence qs) \<and> (\<forall>q \<in> set qs. q_sequence q < next_sequence s)
     \<and> distinct (map ident qs) \<and> distinct (map fst (active s))
     \<and> set (active s) = (\<lambda>q. (ident q, q)) ` set qs
     \<and> distinct (map q_completion qs) \<and> unresolved s = q_completion ` set qs"

definition pool_ok :: "scheduler \<Rightarrow> bool" where
  "pool_ok s \<longleftrightarrow> busy_resources s = map resource (in_executor s) \<and> distinct (busy_resources s)
     \<and> length (busy_resources s) \<le> max_concurrency s"

definition phase_ok :: "scheduler \<Rightarrow> bool" where
  "phase_ok s \<longleftrightarrow> (dispatcher_thread s \<noteq> Alive \<longrightarrow> in_executor s = [])
     \<and> (phase s = PhaseStopped \<longrightarrow> dispatcher_thread s \<noteq> Alive)
     \<and> (phase s = PhaseCreated \<longrightarrow> dispatcher_thread s = NotStarted)
     \<and> (phase s = PhaseRunning \<longrightarrow> dispatcher_thread s = Alive)"

definition sched_inv :: "scheduler \<Rightarrow> bool" where
  "sched_inv s \<longleftrightarrow> live_ok (live s) s \<and> pool_ok s \<and> phase_ok s \<and> length (active s) \<le> queue_capacity s"

lemma live_ok_mset: "mset qs = mset qs' \<Longrightarrow> live_ok qs s \<Longrightarrow> live_ok qs' s"
proof -
  assume m: "mset qs = mset qs'" and ok: "live_ok qs s"
  have d: "distinct (map f qs) = distinct (map f qs')" for f :: "queued \<Rightarrow> 'b"
    by (rule mset_eq_imp_distinct_iff) (simp add: m)
  have st: "set qs = set qs'" using m by (rule mset_eq_setD)
  show ?thesis using ok by (simp add: live_ok_def d st)
qed

lemma live_ok_cong:
  "active s' = active s \<Longrightarrow> next_sequence s' = next_sequence s \<Longrightarrow> futures s' = futures s \<Longrightarrow>
   live_ok qs s' = live_ok qs s"
  by (simp add: live_ok_def unresolved_def)

lemma live_ok_distinct: "live_ok qs s \<Longrightarrow> distinct qs"
  by (auto simp: live_ok_def distinct_map)

lemma length_active: "live_ok qs s \<Longrightarrow> length (active s) = length qs"
proof -
  assume ok: "live_ok qs s"
  then have "distinct (active s)" "distinct qs" by (auto simp: live_ok_def distinct_map)
  moreover have "inj_on (\<lambda>q. (ident q, q)) (set qs)" by (auto simp: inj_on_def)
  ultimately show ?thesis
    using ok by (metis (no_types, lifting) card_image distinct_card live_ok_def)
qed

lemma active_lookup: "live_ok qs s \<Longrightarrow> map_of (active s) i = None \<longleftrightarrow> i \<notin> ident ` set qs"
  by (auto simp: live_ok_def map_of_eq_None_iff image_iff)

lemma unresolved_append: "unresolved (s\<lparr>futures := futures s @ [FuturePending]\<rparr>) = insert (length (futures s)) (unresolved s)"
  by (auto simp: unresolved_def nth_append)

lemma enqueue_simps [simp]:
  "pending (enqueue task r i s) = pending s @ [\<lparr>q_task = task, q_completion = length (futures s), q_run_at = r,
     q_sequence = next_sequence s, q_interval = i\<rparr>]"
  "in_executor (enqueue task r i s) = in_executor s" "busy_resources (enqueue task r i s) = busy_resources s"
  "max_concurrency (enqueue task r i s) = max_concurrency s" "queue_capacity (enqueue task r i s) = queue_capacity s"
  "phase (enqueue task r i s) = phase s" "dispatcher_thread (enqueue task r i s) = dispatcher_thread s"
  "length (active (enqueue task r i s)) = Suc (length (active s))"
  "handlers (enqueue task r i s) = handlers s"
  by (simp_all add: enqueue_def Let_def)

lemma live_ok_enqueue:
  assumes ok: "live_ok qs s" and new: "task_identity task \<notin> ident ` set qs"
  shows "live_ok (qs @ [\<lparr>q_task = task, q_completion = length (futures s), q_run_at = r,
     q_sequence = next_sequence s, q_interval = i\<rparr>]) (enqueue task r i s)"
proof -
  have u: "unresolved (enqueue task r i s) = insert (length (futures s)) (unresolved s)"
    by (auto simp: unresolved_def enqueue_def Let_def nth_append)
  have "length (futures s) \<notin> q_completion ` set qs"
    using ok by (auto simp: live_ok_def unresolved_def)
  then show ?thesis
    using ok new by (auto simp: live_ok_def u) (auto simp: enqueue_def Let_def image_iff)
qed

lemma distinct_map_remove1: "distinct (map g xs) \<Longrightarrow> distinct (map g (remove1 x xs))"
  by (induction xs) (auto dest: notin_set_remove1 simp: image_iff)

lemma map_remove1_distinct:
  "distinct (map g xs) \<Longrightarrow> x \<in> set xs \<Longrightarrow> map g (remove1 x xs) = remove1 (g x) (map g xs)"
  by (induction xs) (auto simp: image_iff)

lemma live_ok_resolve:
  assumes ok: "live_ok qs s" and q: "q \<in> set qs" and f: "f \<noteq> FuturePending"
  shows "live_ok (remove1 q qs) (s\<lparr>active := filter (\<lambda>p. fst p \<noteq> ident q) (active s),
     futures := (futures s)[q_completion q := f]\<rparr>)"
proof -
  have d: "distinct qs" "distinct (map ident qs)" "distinct (map q_completion qs)" "distinct (map q_sequence qs)"
    using ok live_ok_distinct [OF ok] by (simp_all add: live_ok_def)
  have other: "ident p \<noteq> ident q" "q_completion p \<noteq> q_completion q" if "p \<in> set qs" "p \<noteq> q" for p
    using d that q by (auto simp: distinct_map dest: inj_onD)
  have "unresolved (s\<lparr>active := filter (\<lambda>p. fst p \<noteq> ident q) (active s), futures := (futures s)[q_completion q := f]\<rparr>)
      = unresolved s - {q_completion q}"
    using f by (auto simp: unresolved_def) (metis nth_list_update_eq nth_list_update_neq)
  moreover have "unresolved s - {q_completion q} = q_completion ` (set qs - {q})"
    using ok other q by (auto simp: live_ok_def)
  moreover have "set (filter (\<lambda>p. fst p \<noteq> ident q) (active s)) = (\<lambda>p. (ident p, p)) ` (set qs - {q})"
    using ok other q by (auto simp: live_ok_def)
  ultimately show ?thesis
    using ok d by (simp add: live_ok_def distinct_map_filter distinct_map_remove1)
qed

lemma lex3_le:
  "(a, b, c) \<le> (a', b', c') \<longleftrightarrow> a < a' \<or> a = a' \<and> (b < b' \<or> b = b' \<and> c \<le> c')"
  for a :: "'a :: linorder" and b :: "'b :: linorder" and c :: "'c :: linorder"
  by auto

lemma sched_inv_make: "make_scheduler kinds concurrency capacity = Inr s \<Longrightarrow> sched_inv s"
  by (auto simp: make_scheduler_def sched_inv_def live_ok_def live_def pool_ok_def phase_ok_def unresolved_def
      split: if_splits)

lemma sched_inv_start: "sched_inv s \<Longrightarrow> sched_inv (snd (start s))"
proof (cases "phase s")
  case PhaseCreated
  assume inv: "sched_inv s"
  with PhaseCreated show ?thesis
    by (auto simp: start_def sched_inv_def pool_ok_def phase_ok_def live_def
        live_ok_cong [of "s\<lparr>phase := PhaseRunning, dispatcher_thread := Alive\<rparr>" s])
qed (simp_all add: start_def)

lemma submit_cases:
  "(\<exists>r. submit now task delay interval s = (r, s)) \<or>
   submit now task delay interval s = (Inr (length (futures s)), enqueue task (now + delay) interval s)
   \<and> map_of (active s) (task_identity task) = None \<and> length (active s) < queue_capacity s \<and> accepting s
   \<and> task_kind task \<in> set (handlers s)"
  by (auto simp: submit_def split: option.splits)

lemma sched_inv_submit:
  assumes "sched_inv s"
  shows "sched_inv (snd (submit now task delay interval s))"
proof (cases "\<exists>r. submit now task delay interval s = (r, s)")
  case True
  with assms show ?thesis by auto
next
  case False
  then have new: "submit now task delay interval s = (Inr (length (futures s)), enqueue task (now + delay) interval s)"
    "map_of (active s) (task_identity task) = None" "length (active s) < queue_capacity s" "accepting s"
    using submit_cases [of now task delay interval s] by auto
  let ?q = "\<lparr>q_task = task, q_completion = length (futures s), q_run_at = now + delay,
     q_sequence = next_sequence s, q_interval = interval\<rparr>"
  let ?s = "enqueue task (now + delay) interval s"
  have ok: "live_ok (live s) s" using assms by (simp add: sched_inv_def)
  have "live_ok (live s @ [?q]) ?s"
    using live_ok_enqueue [OF ok] active_lookup [OF ok] new(2) by simp
  then have "live_ok (live ?s) ?s"
    by (rule live_ok_mset [rotated]) (simp add: live_def)
  then show ?thesis
    using assms new by (auto simp: sched_inv_def pool_ok_def phase_ok_def)
qed

lemma min_by_mem: "min_by key xs = Some x \<Longrightarrow> x \<in> set xs"
  by (induction xs arbitrary: x) (auto split: option.splits if_splits)

lemma min_by_least: "min_by key xs = Some x \<Longrightarrow> y \<in> set xs \<Longrightarrow> key x \<le> key y"
proof (induction xs arbitrary: x y)
  case (Cons a xs)
  show ?case
  proof (cases "min_by key xs")
    case None
    then have "xs = []" by (cases xs) (auto split: option.splits if_splits)
    with Cons.prems show ?thesis by simp
  next
    case (Some z)
    have le: "key z \<le> key w" if "w \<in> set xs" for w using Cons.IH [OF Some that] .
    show ?thesis using Cons.prems Some le by (auto split: if_splits intro: order_trans)
  qed
qed simp

lemma min_by_None: "min_by key xs = None \<longleftrightarrow> xs = []"
  by (cases xs) (auto split: option.splits)

lemma next_runnable_Some:
  "next_runnable now s = Some q \<Longrightarrow>
   q \<in> set (pending s) \<and> eligible now s q \<and> length (busy_resources s) < max_concurrency s"
  by (auto simp: next_runnable_def split: if_splits dest: min_by_mem)

lemma sched_inv_dispatch:
  assumes inv: "sched_inv s" and alive: "dispatcher_thread s = Alive"
  shows "sched_inv (dispatch_step now s)"
proof (cases "next_runnable now s")
  case None
  with inv alive show ?thesis
    by (auto simp: dispatch_step_def sched_inv_def pool_ok_def phase_ok_def live_def
        live_ok_cong [of "s\<lparr>dispatcher_thread := Exited\<rparr>" s])
next
  case (Some q)
  let ?s = "s\<lparr>pending := remove1 q (pending s), busy_resources := busy_resources s @ [resource q],
      in_executor := in_executor s @ [q]\<rparr>"
  note q = next_runnable_Some [OF Some]
  have "live_ok (live s) ?s"
    using inv by (simp add: sched_inv_def live_ok_cong [of ?s s])
  then have "live_ok (live ?s) ?s"
    by (rule live_ok_mset [rotated]) (use q in \<open>simp add: live_def\<close>)
  then show ?thesis
    using inv q alive Some
    by (auto simp: dispatch_step_def sched_inv_def pool_ok_def phase_ok_def eligible_def)
qed

lemma complete_simps [simp]:
  "phase (complete now q r s) = phase s" "dispatcher_thread (complete now q r s) = dispatcher_thread s"
  "max_concurrency (complete now q r s) = max_concurrency s" "queue_capacity (complete now q r s) = queue_capacity s"
  "in_executor (complete now q r s) = remove1 q (in_executor s)"
  "busy_resources (complete now q r s) = remove1 (resource q) (busy_resources s)"
  by (simp_all add: complete_def Let_def set_future_def split: option.splits)

text \<open>The completion of a task, without and with its re-admission.\<close>

definition released :: "queued \<Rightarrow> pyobj result \<Rightarrow> scheduler \<Rightarrow> scheduler" where
  "released q executed s = s\<lparr>busy_resources := remove1 (resource q) (busy_resources s),
     active := filter (\<lambda>p. fst p \<noteq> ident q) (active s), in_executor := remove1 q (in_executor s),
     last_error := (case executed of Inl e \<Rightarrow> Some (task_kind (q_task q), e) | Inr _ \<Rightarrow> None),
     futures := (futures s)[q_completion q := (case executed of Inl e \<Rightarrow> FutureError e | Inr r \<Rightarrow> FutureResult r)]\<rparr>"

lemma complete_released:
  assumes "q_completion q < length (futures s)"
  shows "complete now q executed s =
    (case q_interval q of
       Some i \<Rightarrow> if phase s = PhaseRunning then enqueue (q_task q) (now + i) (Some i) (released q executed s)
                else released q executed s
     | None \<Rightarrow> released q executed s)"
  using assms by (auto simp: complete_def released_def enqueue_def set_future_def Let_def list_update_append
      split: option.splits)

lemma live_ok_released:
  assumes inv: "sched_inv s" and q: "q \<in> set (in_executor s)"
  shows "live_ok (live (released q executed s)) (released q executed s)"
    and "ident q \<notin> ident ` set (live (released q executed s))"
    and "length (active (released q executed s)) < length (active s)"
proof -
  have ok: "live_ok (live s) s" using inv by (simp add: sched_inv_def)
  have m: "q \<in> set (live s)" using q by (simp add: live_def)
  let ?f = "case executed of Inl e \<Rightarrow> FutureError e | Inr r \<Rightarrow> FutureResult r"
  have "live_ok (remove1 q (live s)) (released q executed s)"
    using live_ok_resolve [OF ok m, of ?f]
    by (simp add: released_def live_ok_def unresolved_def split: sum.splits)
  moreover have "mset (remove1 q (live s)) = mset (live (released q executed s))"
    using m q by (simp add: live_def released_def)
  ultimately show *: "live_ok (live (released q executed s)) (released q executed s)"
    by (rule live_ok_mset [rotated])
  show "ident q \<notin> ident ` set (live (released q executed s))"
  proof -
    have "set (active (released q executed s)) = (\<lambda>p. (ident p, p)) ` set (live (released q executed s))"
      using * by (simp only: live_ok_def)
    then have "ident ` set (live (released q executed s)) = fst ` set (active (released q executed s))"
      by (simp add: image_image)
    moreover have "ident q \<notin> fst ` set (active (released q executed s))"
      by (auto simp: released_def)
    ultimately show ?thesis by simp
  qed
  have "(ident q, q) \<in> set (active s)" using ok m by (auto simp: live_ok_def)
  then show "length (active (released q executed s)) < length (active s)"
    using length_filter_less [of "(ident q, q)" "active s" "\<lambda>p. fst p \<noteq> ident q"] by (simp add: released_def)
qed

lemma sched_inv_complete:
  assumes inv: "sched_inv s" and q: "q \<in> set (in_executor s)"
  shows "sched_inv (complete now q executed s)"
proof -
  note rel = live_ok_released [OF inv q, of executed]
  have "q_completion q \<in> unresolved s"
    using inv q by (auto simp: sched_inv_def live_ok_def live_def)
  then have c: "q_completion q < length (futures s)" by (simp add: unresolved_def)
  have pool: "pool_ok (complete now q executed s)"
    using inv q map_remove1_distinct [of resource "in_executor s" q]
    by (auto simp: sched_inv_def pool_ok_def length_remove1 intro: distinct_remove1)
  have ph: "phase_ok (complete now q executed s)"
    using inv by (auto simp: sched_inv_def phase_ok_def)
  let ?r = "released q executed s"
  consider i where "q_interval q = Some i" "phase s = PhaseRunning"
    "complete now q executed s = enqueue (q_task q) (now + i) (Some i) ?r"
    | "complete now q executed s = ?r"
    using complete_released [OF c] by (cases "q_interval q"; cases "phase s = PhaseRunning") auto
  then show ?thesis
  proof cases
    case (1 i)
    have "live_ok (live ?r @ [\<lparr>q_task = q_task q, q_completion = length (futures ?r), q_run_at = now + i,
       q_sequence = next_sequence ?r, q_interval = Some i\<rparr>]) (complete now q executed s)"
      unfolding 1 by (rule live_ok_enqueue [OF rel(1,2)])
    then have "live_ok (live (complete now q executed s)) (complete now q executed s)"
      by (rule live_ok_mset [rotated]) (simp add: live_def 1)
    then show ?thesis
      using inv pool ph rel(3) by (simp add: sched_inv_def 1) (simp add: released_def)
  next
    case 2
    then show ?thesis
      using inv pool ph rel by (simp add: sched_inv_def 2 released_def)
  qed
qed


lemma futures_cancelled:
  "length (foldl (\<lambda>fs q. fs[q_completion q := FutureCancelled]) fs qs) = length fs \<and>
   (c < length fs \<longrightarrow> foldl (\<lambda>fs q. fs[q_completion q := FutureCancelled]) fs qs ! c =
      (if c \<in> q_completion ` set qs then FutureCancelled else fs ! c))"
proof (induction qs arbitrary: fs)
  case (Cons q qs)
  show ?case
    using Cons.IH [of "fs[q_completion q := FutureCancelled]"] by (auto simp: nth_list_update)
qed simp

lemma live_ok_cancel:
  assumes ok: "live_ok (qs @ rest) s"
  shows "live_ok rest (s\<lparr>active := filter (\<lambda>p. fst p \<notin> ident ` set qs) (active s),
     futures := foldl (\<lambda>fs q. fs[q_completion q := FutureCancelled]) (futures s) qs\<rparr>)"
proof -
  let ?s = "s\<lparr>active := filter (\<lambda>p. fst p \<notin> ident ` set qs) (active s),
     futures := foldl (\<lambda>fs q. fs[q_completion q := FutureCancelled]) (futures s) qs\<rparr>"
  have dj: "ident p \<notin> ident ` set qs" "q_completion p \<notin> q_completion ` set qs" if "p \<in> set rest" for p
  proof -
    have "ident ` set qs \<inter> ident ` set rest = {}" "q_completion ` set qs \<inter> q_completion ` set rest = {}"
      using ok by (simp_all add: live_ok_def)
    with that show "ident p \<notin> ident ` set qs" "q_completion p \<notin> q_completion ` set qs" by blast+
  qed
  have "unresolved ?s = unresolved s - q_completion ` set qs"
    by (auto simp: unresolved_def futures_cancelled split: if_splits)
  moreover have "unresolved s - q_completion ` set qs = q_completion ` set rest"
    using ok dj(2) by (auto simp: live_ok_def)
  moreover have "set (active ?s) = (\<lambda>p. (ident p, p)) ` set rest"
  proof -
    have "set (active ?s) = {p \<in> (\<lambda>p. (ident p, p)) ` (set qs \<union> set rest). fst p \<notin> ident ` set qs}"
      using ok by (simp add: live_ok_def)
    then show ?thesis using dj(1) by force
  qed
  ultimately show ?thesis
    using ok by (simp add: live_ok_def distinct_map_filter)
qed

lemma sched_inv_shutdown_begin:
  assumes "sched_inv s"
  shows "sched_inv (snd (shutdown_begin timeout cancel_pending s))"
proof -
  let ?s = "s\<lparr>phase := PhaseStopping\<rparr>"
  have s: "sched_inv ?s"
    using assms live_ok_cong [of ?s s] by (auto simp: sched_inv_def pool_ok_def phase_ok_def live_def)
  have c: "sched_inv (cancel_all (pending ?s) ?s)"
  proof -
    let ?c = "cancel_all (pending ?s) ?s"
    have "live_ok (in_executor ?s) (?s\<lparr>active := filter (\<lambda>p. fst p \<notin> ident ` set (pending ?s)) (active ?s),
     futures := foldl (\<lambda>fs q. fs[q_completion q := FutureCancelled]) (futures ?s) (pending ?s)\<rparr>)"
      using s by (intro live_ok_cancel) (simp only: sched_inv_def live_def)
    then have "live_ok (live ?c) ?c"
      by (simp add: cancel_all_def live_def live_ok_def unresolved_def)
    moreover have "length (active s) \<le> queue_capacity s" using assms by (simp only: sched_inv_def)
    then have "length (active ?c) \<le> queue_capacity ?c"
      by (simp add: cancel_all_def order_trans [OF length_filter_le])
    ultimately have "live_ok (live ?c) ?c" "length (active ?c) \<le> queue_capacity ?c" by simp_all
    then show ?thesis
      using s unfolding sched_inv_def by (auto simp: pool_ok_def phase_ok_def cancel_all_def)
  qed
  show ?thesis using assms s c by (simp add: shutdown_begin_def Let_def)
qed

lemma sched_inv_shutdown_end:
  assumes "sched_inv s" and "phase s = PhaseStopping"
  shows "sched_inv (snd (shutdown_end s))"
proof -
  have "live_ok (live (s\<lparr>phase := PhaseStopped\<rparr>)) (s\<lparr>phase := PhaseStopped\<rparr>)"
    using assms(1) live_ok_cong [of "s\<lparr>phase := PhaseStopped\<rparr>" s] by (simp add: sched_inv_def live_def)
  with assms show ?thesis
    unfolding shutdown_end_def sched_inv_def
    by (cases "dispatcher_thread s = Alive") (clarsimp simp: pool_ok_def phase_ok_def live_def)+
qed

lemma sched_inv_step: "sched_step s s' \<Longrightarrow> sched_inv s \<Longrightarrow> sched_inv s'"
  by (induction rule: sched_step.induct)
    (simp_all only: sched_inv_start sched_inv_submit sched_inv_dispatch sched_inv_complete
      sched_inv_shutdown_begin sched_inv_shutdown_end)

definition reachable :: "scheduler \<Rightarrow> bool" where
  "reachable s \<longleftrightarrow> (\<exists>kinds n m s0. make_scheduler kinds n m = Inr s0 \<and> sched_step\<^sup>*\<^sup>* s0 s)"

lemma reachable_inv:
  assumes "reachable s"
  shows "sched_inv s"
proof -
  obtain kinds n m s0 where s0: "make_scheduler kinds n m = Inr s0" "sched_step\<^sup>*\<^sup>* s0 s"
    using assms by (auto simp: reachable_def)
  from s0(2) sched_inv_make [OF s0(1)] show ?thesis
    by (induction rule: rtranclp_induct) (auto intro: sched_inv_step)
qed

section \<open>What the daemon relies on\<close>

text \<open>
  C5: In every reachable state, tasks in execution hold pairwise different resources and are at
  most the concurrency limit; waiting and running tasks have pairwise different identities; and
  they never exceed the admission bound, periodic re-admission included.
\<close>

theorem scheduler_safety:
  assumes "reachable s"
  shows "distinct (map (\<lambda>q. task_resource (q_task q)) (in_executor s))
    \<and> length (in_executor s) \<le> max_concurrency s
    \<and> distinct (map (\<lambda>q. task_identity (q_task q)) (pending s @ in_executor s))
    \<and> length (pending s @ in_executor s) \<le> queue_capacity s"
proof -
  have inv: "sched_inv s" using assms by (rule reachable_inv)
  then have "length (active s) = length (live s)" by (simp add: sched_inv_def length_active)
  with inv show ?thesis
    by (auto simp: sched_inv_def pool_ok_def live_ok_def live_def simp del: map_append)
qed

lemma unresolved_reachable:
  assumes "reachable s" and "q \<in> set (pending s @ in_executor s)"
  shows "futures s ! q_completion q = FuturePending"
  using reachable_inv [OF assms(1)] assms(2)
  by (auto simp: sched_inv_def live_ok_def live_def unresolved_def)

text \<open>
  C16: No completion is lost or resolved twice over: in every reachable state the unresolved
  completions are exactly those of the waiting and running tasks, one each. In a stopped scheduler
  nothing runs, so what can be left unresolved is what still waits.
\<close>

theorem completions_accounted:
  assumes "reachable s"
  shows "{c. c < length (futures s) \<and> futures s ! c = FuturePending} = q_completion ` set (pending s @ in_executor s)
    \<and> distinct (map q_completion (pending s @ in_executor s))
    \<and> (phase s = PhaseStopped \<longrightarrow> in_executor s = [])"
  using reachable_inv [OF assms]
  by (auto simp: sched_inv_def live_ok_def live_def unresolved_def phase_ok_def)

text \<open>
  The next task is the one of least priority number, then earliest due time, then earliest
  admission, among the due tasks whose resource is free; none is chosen exactly if the pool is
  full or no such task waits.
\<close>

theorem next_runnable_spec:
  "case next_runnable now s of
     Some q \<Rightarrow> q \<in> set (pending s) \<and> q_run_at q \<le> now \<and> task_resource (q_task q) \<notin> set (busy_resources s)
       \<and> length (busy_resources s) < max_concurrency s
       \<and> (\<forall>p \<in> set (pending s). q_run_at p \<le> now \<and> task_resource (q_task p) \<notin> set (busy_resources s) \<longrightarrow>
            task_priority (q_task q) < task_priority (q_task p) \<or>
            task_priority (q_task q) = task_priority (q_task p) \<and>
              (q_run_at q < q_run_at p \<or> q_run_at q = q_run_at p \<and> q_sequence q \<le> q_sequence p))
   | None \<Rightarrow> max_concurrency s \<le> length (busy_resources s) \<or>
       (\<forall>p \<in> set (pending s). now < q_run_at p \<or> task_resource (q_task p) \<in> set (busy_resources s))"
proof (cases "next_runnable now s")
  case None
  then show ?thesis by (auto simp: next_runnable_def min_by_None filter_empty_conv eligible_def split: if_splits)
next
  case (Some q)
  then have "min_by sort_key (filter (eligible now s) (pending s)) = Some q"
    by (simp add: next_runnable_def split: if_splits)
  from min_by_least [OF this] next_runnable_Some [OF Some] Some show ?thesis
    by (auto simp: eligible_def sort_key_def lex3_le simp del: less_eq_prod_simp)
qed


lemma foldl_min: "foldl min t ts \<in> set (t # ts) \<and> (\<forall>u \<in> set (t # ts). foldl min t ts \<le> (u :: 'a :: linorder))"
proof (induction ts arbitrary: t)
  case (Cons u ts)
  have m: "min t u = t \<or> min t u = u" by (simp add: min_def)
  have "foldl min (min t u) ts \<in> set (min t u # ts)" "foldl min (min t u) ts \<le> min t u"
    "\<forall>v \<in> set ts. foldl min (min t u) ts \<le> v"
    using Cons.IH [of "min t u"] by auto
  with m show ?case by (auto simp: min_le_iff_disj)
qed simp

text \<open>
  The dispatcher never sleeps through work: while nothing is runnable, a finite wait ends
  exactly when the first waiting task becomes runnable, and not before; and it waits without a
  limit only when no passage of time alone can make a task runnable.
\<close>

theorem wait_timeout_exact:
  assumes "next_runnable now s = None"
  shows "case wait_timeout now s of
      Some d \<Rightarrow> 0 < d \<and> next_runnable (now + d) s \<noteq> None
        \<and> (\<forall>e. 0 \<le> e \<and> e < d \<longrightarrow> next_runnable (now + e) s = None)
    | None \<Rightarrow> (\<forall>e. next_runnable (now + e) s = None)"
proof (cases "max_concurrency s \<le> length (busy_resources s)")
  case True
  then show ?thesis by (simp add: wait_timeout_def next_runnable_def)
next
  case False
  let ?free = "filter (\<lambda>q. task_resource (q_task q) \<notin> set (busy_resources s)) (pending s)"
  have nr: "next_runnable t s = None \<longleftrightarrow> (\<forall>q \<in> set ?free. t < q_run_at q)" for t
    using False by (auto simp: next_runnable_def min_by_None filter_empty_conv eligible_def not_le)
  show ?thesis
  proof (cases "map q_run_at ?free")
    case Nil
    then have w: "wait_timeout now s = None" using False by (simp add: wait_timeout_def)
    have "?free = []" using Nil by (simp only: map_is_Nil_conv)
    then have "next_runnable t s = None" for t unfolding nr by (simp only: empty_iff set_simps ball_empty)
    then show ?thesis unfolding w by simp
  next
    case (Cons u us)
    define m where "m = foldl min u us"
    have w: "wait_timeout now s = Some (max 0 (m - now))"
      using False Cons unfolding m_def by (simp only: wait_timeout_def if_False list.case)
    have set: "q_run_at ` set ?free = set (u # us)" using Cons by (metis list.set_map)
    have m: "m \<in> q_run_at ` set ?free" "\<forall>q \<in> set ?free. m \<le> q_run_at q"
      using foldl_min [of u us] unfolding set [symmetric] m_def by blast+
    then obtain q where q: "q \<in> set ?free" "q_run_at q = m" by blast
    have "now < m" using assms q unfolding nr by auto
    then have "0 < max 0 (m - now)" "now + max 0 (m - now) = m" by auto
    moreover have "next_runnable m s \<noteq> None" using q unfolding nr by auto
    moreover have "next_runnable t s = None" if "t < m" for t
      using m(2) that unfolding nr by force
    ultimately show ?thesis unfolding w option.case by (metis add_less_cancel_left)
  qed
qed

text \<open>
  A periodic task that completes while the scheduler runs is admitted again at once, under the
  same identity, with a new completion and a due time one interval after its end; the finished
  completion has its outcome. While the scheduler stops, it is not admitted again.
\<close>

theorem periodic_readmission:
  assumes "reachable s" and "q \<in> set (in_executor s)" and "q_interval q = Some i"
  shows "futures (complete now q executed s) ! q_completion q =
        (case executed of Inl e \<Rightarrow> FutureError e | Inr r \<Rightarrow> FutureResult r)
    \<and> (if phase s = PhaseRunning
       then \<exists>p. pending (complete now q executed s) = pending s @ [p] \<and> q_task p = q_task q
          \<and> q_run_at p = now + i \<and> q_interval p = Some i \<and> q_completion p = length (futures s)
          \<and> map_of (active (complete now q executed s)) (task_identity (q_task q)) = Some p
       else pending (complete now q executed s) = pending s
          \<and> map_of (active (complete now q executed s)) (task_identity (q_task q)) = None)"
proof -
  have "q_completion q \<in> unresolved s"
    using reachable_inv [OF assms(1)] assms(2) by (auto simp: sched_inv_def live_ok_def live_def)
  then have c: "q_completion q < length (futures s)" by (simp add: unresolved_def)
  have n: "map_of (filter (\<lambda>p. fst p \<noteq> k) xs) k = None" for k and xs :: "(string \<times> queued) list"
    by (auto simp: map_of_eq_None_iff)
  show ?thesis
    unfolding complete_released [OF c] using c assms(3) n
    by (simp add: released_def enqueue_def Let_def nth_append map_add_def)
qed

lemma stopped_final:
  assumes "sched_step s s'" and "phase s = PhaseStopped" and "dispatcher_thread s = Exited" and "in_executor s = []"
  shows "s' = s"
  using assms by cases
    (auto simp: start_def submit_def accepting_def shutdown_begin_def split: option.splits)

definition sample_task :: "string \<Rightarrow> DaemonTask" where
  "sample_task identity = \<lparr>task_kind = ''memory.scan'', task_identity = identity, task_resource = ''memory'',
     task_payload = PNone, task_priority = 100, task_context = empty_context\<rparr>"

definition fresh_scheduler :: scheduler where
  "fresh_scheduler = \<lparr>handlers = [''memory.scan''], max_concurrency = 2, queue_capacity = 8, pending = [], active = [],
     busy_resources = [], next_sequence = 0, phase = PhaseCreated, last_error = None, dispatcher_thread = NotStarted,
     in_executor = [], futures = []\<rparr>"

lemma fresh_made: "make_scheduler [''memory.scan''] 2 8 = Inr fresh_scheduler"
  by (simp add: make_scheduler_def fresh_scheduler_def blank_def py_space_def)

lemma reachable_fresh: "reachable fresh_scheduler"
  using fresh_made by (auto simp: reachable_def)

lemma reachable_step: "reachable s \<Longrightarrow> sched_step s s' \<Longrightarrow> reachable s'"
  by (meson reachable_def rtranclp.rtrancl_into_rtrancl)

text \<open>A delayed task is admitted, the scheduler runs and is shut down without cancelling it.\<close>

definition delayed_entry :: queued where
  "delayed_entry = \<lparr>q_task = sample_task ''scan'', q_completion = 0, q_run_at = 10, q_sequence = 0, q_interval = None\<rparr>"

definition stopping_scheduler :: scheduler where
  "stopping_scheduler = fresh_scheduler\<lparr>futures := [FuturePending], next_sequence := 1, pending := [delayed_entry],
     active := [(''scan'', delayed_entry)], phase := PhaseStopping, dispatcher_thread := Alive\<rparr>"

lemma reachable_stopping: "reachable stopping_scheduler"
proof -
  let ?s1 = "snd (start fresh_scheduler)"
  let ?s2 = "snd (submit 0 (sample_task ''scan'') 10 None ?s1)"
  let ?s3 = "snd (shutdown_begin 30 False ?s2)"
  have "reachable ?s3"
    by (intro reachable_step [OF _ sched_step.ShutdownBegin] reachable_step [OF _ sched_step.Submit]
        reachable_step [OF _ sched_step.Start] reachable_fresh)
  moreover have "?s3 = stopping_scheduler"
    by (simp add: start_def submit_def shutdown_begin_def accepting_def enqueue_def fresh_scheduler_def
        stopping_scheduler_def delayed_entry_def sample_task_def Let_def)
  ultimately show ?thesis by simp
qed

text \<open>
  C17: A shutdown that is asked to keep the pending work strands what is not yet due. Take any scheduler that
  runs, with nothing in the pool and only tasks which are due later. A shutdown with
  \<open>cancel_pending=False\<close> and one turn of the dispatcher before the tasks are due end it: the dispatcher exits,
  the shutdown returns, and every one of these tasks is still pending in the stopped scheduler, where its
  completion is unresolved and stays so in every later state.
\<close>

theorem shutdown_strands_delayed:
  assumes "reachable s" and "phase s = PhaseRunning" and "in_executor s = []"
    and "0 \<le> timeout" and "\<forall>q \<in> set (pending s). now < q_run_at q"
    and "s1 = snd (shutdown_begin timeout False s)" and "s2 = dispatch_step now s1" and "shutdown_end s2 = (r, s3)"
  shows "reachable s3 \<and> dispatcher_thread s2 = Exited \<and> r = Inr () \<and> phase s3 = PhaseStopped \<and> pending s3 = pending s
    \<and> (\<forall>q \<in> set (pending s). \<forall>s'. sched_step\<^sup>*\<^sup>* s3 s' \<longrightarrow> futures s' ! q_completion q = FuturePending)"
proof -
  have busy: "busy_resources s = []" and alive: "dispatcher_thread s = Alive"
    using reachable_inv [OF assms(1)] assms(2,3) by (simp_all add: sched_inv_def pool_ok_def phase_ok_def)
  have s1: "s1 = s\<lparr>phase := PhaseStopping\<rparr>" using assms(2,4,6) by (simp add: shutdown_begin_def)
  have "next_runnable now s1 = None"
  proof -
    have "filter (eligible now s1) (pending s1) = []"
      using assms(5) unfolding s1 by (auto simp: filter_empty_conv eligible_def)
    then show ?thesis unfolding next_runnable_def by (simp only: min_by.simps if_cancel)
  qed
  then have s2: "s2 = s\<lparr>phase := PhaseStopping, dispatcher_thread := Exited\<rparr>"
    using busy unfolding assms(7) s1 by (simp add: dispatch_step_def)
  then have s3: "r = Inr ()" "s3 = s\<lparr>phase := PhaseStopped, dispatcher_thread := Exited\<rparr>"
    using assms(8) unfolding s2 by (auto simp: shutdown_end_def)
  have "sched_step s s1" unfolding assms(6) by (rule sched_step.ShutdownBegin)
  moreover have "sched_step s1 s2" unfolding assms(7) by (rule sched_step.Dispatch) (simp add: s1 alive)
  moreover have "sched_step s2 s3" using sched_step.ShutdownEnd [of s2] assms(8) by (simp add: s2)
  ultimately have reach: "reachable s3" using assms(1) reachable_step by blast
  have final: "s' = s3" if "sched_step\<^sup>*\<^sup>* s3 s'" for s'
    using that
  proof (induction rule: rtranclp_induct)
    case (step y z)
    then have "sched_step s3 z" by simp
    then show ?case by (rule stopped_final) (simp_all add: s3 assms(3))
  qed simp
  have "futures s3 ! q_completion q = FuturePending" if "q \<in> set (pending s)" for q
    using unresolved_reachable [OF reach, of q] that by (simp add: s3)
  then have "\<forall>q \<in> set (pending s). \<forall>s'. sched_step\<^sup>*\<^sup>* s3 s' \<longrightarrow> futures s' ! q_completion q = FuturePending"
    using final by blast
  then show ?thesis using reach s3 s2 by simp
qed

section \<open>Concrete runs\<close>

lemma scheduler_safety_witness:
  "length (pending stopping_scheduler @ in_executor stopping_scheduler) \<le> 8"
  using scheduler_safety [OF reachable_stopping] by (simp add: stopping_scheduler_def fresh_scheduler_def)

lemma completions_accounted_witness:
  "{c. c < length (futures stopping_scheduler) \<and> futures stopping_scheduler ! c = FuturePending} = {0}"
  using completions_accounted [OF reachable_stopping]
  by (simp add: stopping_scheduler_def fresh_scheduler_def delayed_entry_def)

lemma wait_timeout_exact_witness:
  "wait_timeout 4 stopping_scheduler = Some 6 \<and> next_runnable (4 + 6) stopping_scheduler \<noteq> None"
proof -
  have n: "next_runnable 4 stopping_scheduler = None" and w: "wait_timeout 4 stopping_scheduler = Some 6"
    by (simp_all add: next_runnable_def wait_timeout_def eligible_def stopping_scheduler_def fresh_scheduler_def
        delayed_entry_def)
  from wait_timeout_exact [OF n] w show ?thesis by simp
qed

definition periodic_entry :: queued where
  "periodic_entry = \<lparr>q_task = sample_task ''scan'', q_completion = 0, q_run_at = 0, q_sequence = 0, q_interval = Some 60\<rparr>"

definition running_scheduler :: scheduler where
  "running_scheduler = fresh_scheduler\<lparr>futures := [FuturePending], next_sequence := 1,
     active := [(''scan'', periodic_entry)], phase := PhaseRunning, dispatcher_thread := Alive,
     in_executor := [periodic_entry], busy_resources := [''memory'']\<rparr>"

lemma reachable_running: "reachable running_scheduler"
proof -
  let ?s1 = "snd (start fresh_scheduler)"
  let ?s2 = "snd (submit 0 (sample_task ''scan'') 0 (Some 60) ?s1)"
  have s2: "?s2 = fresh_scheduler\<lparr>futures := [FuturePending], next_sequence := 1, pending := [periodic_entry],
      active := [(''scan'', periodic_entry)], phase := PhaseRunning, dispatcher_thread := Alive\<rparr>"
    by (simp add: start_def submit_def accepting_def enqueue_def fresh_scheduler_def periodic_entry_def sample_task_def Let_def)
  have "reachable ?s2"
    by (intro reachable_step [OF _ sched_step.Submit] reachable_step [OF _ sched_step.Start] reachable_fresh)
  then have "reachable (dispatch_step 0 ?s2)"
    by (rule reachable_step [OF _ sched_step.Dispatch]) (unfold s2, simp)
  moreover have "dispatch_step 0 ?s2 = running_scheduler"
    unfolding s2 by (simp add: dispatch_step_def next_runnable_def eligible_def fresh_scheduler_def
        running_scheduler_def periodic_entry_def sample_task_def)
  ultimately show ?thesis by simp
qed

lemma periodic_readmission_witness:
  "\<exists>p. pending (complete 5 periodic_entry (Inr PNone) running_scheduler) = [p] \<and> q_run_at p = 65"
  using periodic_readmission [OF reachable_running, of periodic_entry 60 5 "Inr PNone"]
  by (auto simp: running_scheduler_def fresh_scheduler_def periodic_entry_def)

text \<open>At time 10 the delayed task of the stopping scheduler is the one the dispatcher takes.\<close>

lemma next_runnable_spec_witness:
  "next_runnable 10 stopping_scheduler = Some delayed_entry \<and> delayed_entry \<in> set (pending stopping_scheduler)
     \<and> length (busy_resources stopping_scheduler) < max_concurrency stopping_scheduler"
proof -
  have "next_runnable 10 stopping_scheduler = Some delayed_entry"
    by (simp add: next_runnable_def eligible_def stopping_scheduler_def fresh_scheduler_def delayed_entry_def)
  with next_runnable_spec [where now = 10 and s = stopping_scheduler] show ?thesis by simp
qed

lemma shutdown_strands_delayed_witness:
  "\<exists>s. reachable s \<and> phase s = PhaseStopped \<and> pending s = [delayed_entry]
     \<and> (\<forall>s'. sched_step\<^sup>*\<^sup>* s s' \<longrightarrow> futures s' ! 0 = FuturePending)"
proof -
  let ?s0 = "fresh_scheduler\<lparr>futures := [FuturePending], next_sequence := 1, pending := [delayed_entry],
    active := [(''scan'', delayed_entry)], phase := PhaseRunning, dispatcher_thread := Alive\<rparr>"
  have "?s0 = snd (submit 0 (sample_task ''scan'') 10 None (snd (start fresh_scheduler)))"
    by (simp add: start_def submit_def accepting_def enqueue_def fresh_scheduler_def delayed_entry_def sample_task_def Let_def)
  then have "reachable ?s0"
    using reachable_step [OF _ sched_step.Submit] reachable_step [OF reachable_fresh sched_step.Start] by metis
  moreover obtain r s3 where "shutdown_end (dispatch_step 0 (snd (shutdown_begin 30 False ?s0))) = (r, s3)" by fastforce
  ultimately have "phase s3 = PhaseStopped \<and> pending s3 = [delayed_entry] \<and> reachable s3
    \<and> (\<forall>q \<in> {delayed_entry}. \<forall>s'. sched_step\<^sup>*\<^sup>* s3 s' \<longrightarrow> futures s' ! q_completion q = FuturePending)"
    using shutdown_strands_delayed [of ?s0 30 0, OF _ _ _ _ _ refl refl, of r s3]
    by (simp only:) (simp add: fresh_scheduler_def delayed_entry_def)
  then show ?thesis by (intro exI [of _ s3]) (simp add: delayed_entry_def)
qed

end
