(* ===== verification/VisibleHandles.thy ===== *)
theory VisibleHandles
  imports PyValues
begin

text \<open>
  The visible-index handles of \<open>runtime/handles.py\<close>: what the user types to address the objects of
  a listing by position (\<open>3\<close>, \<open>0,2-4,8\<close>) or by their stable identifiers. The label arguments of the
  code only enter the messages and are left out.
\<close>

section \<open>Numerals\<close>

definition ascii_digit :: "char \<Rightarrow> bool" where
  "ascii_digit c \<longleftrightarrow> 48 \<le> (of_char c :: nat) \<and> (of_char c :: nat) \<le> 57"

definition digit_val :: "char \<Rightarrow> nat" where
  "digit_val c = of_char c - 48"

text \<open>\<open>str.isdigit\<close>: on code points below 256 the ASCII digits and the three superscripts.\<close>

definition py_isdigit :: "string \<Rightarrow> bool" where
  "py_isdigit s \<longleftrightarrow> s \<noteq> [] \<and> list_all (\<lambda>c. ascii_digit c \<or> (of_char c :: nat) \<in> {178, 179, 185}) s"

text \<open>
  \<open>int(value)\<close>: surrounding whitespace (which is not \<open>str.isspace\<close>), a sign, digits with single
  underscores between them, and at most \<open>sys.int_info.default_max_str_digits\<close> digits.
\<close>

definition int_space :: "char \<Rightarrow> bool" where
  "int_space c \<longleftrightarrow> (of_char c :: nat) \<in> {9, 10, 11, 12, 13, 32, 133, 160}"

definition int_max_str_digits :: nat where
  "int_max_str_digits = 4300"

fun digits_val :: "nat \<Rightarrow> string \<Rightarrow> nat" where
  "digits_val acc [] = acc"
| "digits_val acc (c # cs) = digits_val (10 * acc + digit_val c) cs"

fun int_groups :: "string \<Rightarrow> string option" where
  "int_groups [] = None"
| "int_groups (c # cs) =
     (if \<not> ascii_digit c then None
      else case cs of
        [] \<Rightarrow> Some [c]
      | d # ds \<Rightarrow>
          map_option (Cons c) (if d = CHR ''_'' then int_groups ds else int_groups cs))"

definition int_digits :: "string \<Rightarrow> nat result" where
  "int_digits s =
     (case int_groups s of
        None \<Rightarrow> Inl (ValueError ''invalid literal for int()'')
      | Some ds \<Rightarrow> (if int_max_str_digits < length ds
                   then Inl (ValueError ''Exceeds the limit for integer string conversion'')
                   else Inr (digits_val 0 ds)))"

definition py_int :: "string \<Rightarrow> int result" where
  "py_int s =
     (let t = rev (dropWhile int_space (rev (dropWhile int_space s))) in
      if take 1 t = ''-'' then bindE (int_digits (tl t)) (\<lambda>n. Inr (- int n))
      else bindE (int_digits (if take 1 t = ''+'' then tl t else t)) (\<lambda>n. Inr (int n)))"

lemma int_max_pos: "0 < int_max_str_digits"
  by (simp add: int_max_str_digits_def)

section \<open>Indexes and selections\<close>

definition looks_like_visible_index :: "string \<Rightarrow> bool" where
  "looks_like_visible_index value = py_isdigit value"

definition uses_visible_selection_syntax :: "string \<Rightarrow> bool" where
  "uses_visible_selection_syntax value \<longleftrightarrow>
     CHR '','' \<in> set value \<or> py_isdigit (take 1 value) \<and> CHR ''-'' \<in> set value"

definition check_index :: "int \<Rightarrow> nat \<Rightarrow> unit result" where
  "check_index index count =
     raise_if (index < 0 \<or> int count \<le> index) (VisibleHandleError ''Invalid index'')"

definition parse_visible_index :: "string \<Rightarrow> nat \<Rightarrow> int result" where
  "parse_visible_index value count =
     bindE (case py_int value of
              Inl (ValueError m) \<Rightarrow> Inl (VisibleHandleError ''Invalid index'')
            | r \<Rightarrow> r) (\<lambda>index.
     bindE (check_index index count) (\<lambda>_. Inr index))"

text \<open>\<open>_INDEX_SELECTION_RE.fullmatch\<close>, by comma-separated tokens \<open>\d+(?:-\d+)?\<close>.\<close>

definition digits_only :: "string \<Rightarrow> bool" where
  "digits_only s \<longleftrightarrow> s \<noteq> [] \<and> list_all ascii_digit s"

definition token_syntax :: "string \<Rightarrow> bool" where
  "token_syntax token \<longleftrightarrow>
     (let (a, b) = (takeWhile ascii_digit token, dropWhile ascii_digit token) in
      a \<noteq> [] \<and> (b = [] \<or> hd b = CHR ''-'' \<and> digits_only (tl b)))"

definition selection_syntax :: "string \<Rightarrow> bool" where
  "selection_syntax value \<longleftrightarrow> list_all token_syntax (split_on CHR '','' value)"

text \<open>One token: the range of indexes it stands for, as the code's \<open>range(start, end + 1)\<close>.\<close>

definition expand_token :: "string \<Rightarrow> int list result" where
  "expand_token token =
     (if CHR ''-'' \<in> set token
      then bindE (py_int (takeWhile (\<lambda>c. c \<noteq> CHR ''-'') token)) (\<lambda>start.
           bindE (py_int (tl (dropWhile (\<lambda>c. c \<noteq> CHR ''-'') token))) (\<lambda>end.
           bindE (raise_if (end < start) (VisibleHandleError ''Range start must be <= end'')) (\<lambda>_.
             Inr [start..end])))
      else bindE (py_int token) (\<lambda>i. Inr [i..i]))"

fun collect_indexes :: "nat \<Rightarrow> int list \<Rightarrow> int list \<times> int set \<Rightarrow> (int list \<times> int set) result" where
  "collect_indexes count [] acc = Inr acc"
| "collect_indexes count (i # is) (indexes, seen) =
     bindE (check_index i count) (\<lambda>_.
       collect_indexes count is (if i \<notin> seen then (indexes @ [i], insert i seen) else (indexes, seen)))"

fun collect_tokens :: "nat \<Rightarrow> string list \<Rightarrow> int list \<times> int set \<Rightarrow> (int list \<times> int set) result" where
  "collect_tokens count [] acc = Inr acc"
| "collect_tokens count (token # tokens) acc =
     bindE (expand_token token) (\<lambda>expanded.
     bindE (collect_indexes count expanded acc) (\<lambda>acc'. collect_tokens count tokens acc'))"

definition parse_visible_index_selection :: "string \<Rightarrow> nat \<Rightarrow> int list result" where
  "parse_visible_index_selection value count =
     (if \<not> selection_syntax value
      then Inl (VisibleHandleError ''Invalid index selection'')
      else bindE (collect_tokens count (split_on CHR '','' value) ([], {})) (\<lambda>(indexes, seen). Inr indexes))"

definition resolve_visible_item :: "string \<Rightarrow> 'a list \<Rightarrow> 'a option result" where
  "resolve_visible_item value items =
     (if \<not> looks_like_visible_index value then Inr None
      else bindE (parse_visible_index value (length items)) (\<lambda>i. Inr (Some (items ! nat i))))"

definition resolve_visible_handle :: "string \<Rightarrow> 'a list \<Rightarrow> ('a \<Rightarrow> string) \<Rightarrow> string result" where
  "resolve_visible_handle value items get_id =
     bindE (resolve_visible_item value items) (\<lambda>item.
       case item of None \<Rightarrow> Inr value | Some x \<Rightarrow> Inr (get_id x))"

definition resolve_visible_handle_selection :: "string \<Rightarrow> 'a list \<Rightarrow> ('a \<Rightarrow> string) \<Rightarrow> string list result" where
  "resolve_visible_handle_selection value items get_id =
     (if \<not> looks_like_visible_index value \<and> \<not> uses_visible_selection_syntax value then Inr [value]
      else if looks_like_visible_index value
      then bindE (parse_visible_index value (length items)) (\<lambda>i. Inr [get_id (items ! nat i)])
      else bindE (parse_visible_index_selection value (length items)) (\<lambda>is.
             Inr (map (\<lambda>i. get_id (items ! nat i)) is)))"

section \<open>Decimal numerals\<close>

lemma digits_val_append: "digits_val acc (xs @ ys) = digits_val (digits_val acc xs) ys"
  by (induction xs arbitrary: acc) simp_all

lemma digit_char:
  assumes "d < 10"
  shows "ascii_digit (char_of (48 + d))" and "digit_val (char_of (48 + d)) = d"
  using assms by (simp_all add: ascii_digit_def digit_val_def)

lemma dec_nat_digits: "digits_only (dec_nat n)"
proof (induction n rule: dec_nat.induct)
  case (1 n)
  have "ascii_digit (char_of (48 + n mod 10))" by (rule digit_char) simp
  then show ?case using 1 digit_char(1) [of n] by (subst dec_nat.simps) (auto simp: digits_only_def)
qed

lemma digits_val_dec_nat: "digits_val 0 (dec_nat n) = n"
proof (induction n rule: dec_nat.induct)
  case (1 n)
  show ?case
  proof (cases "n < 10")
    case True
    then show ?thesis by (subst dec_nat.simps) (simp add: digit_char)
  next
    case False
    with 1 show ?thesis
      by (subst dec_nat.simps) (simp add: digits_val_append digit_char(2) [of "n mod 10"])
  qed
qed

lemma length_dec_nat: "n < 10 ^ k \<Longrightarrow> 0 < k \<Longrightarrow> length (dec_nat n) \<le> k"
proof (induction n arbitrary: k rule: dec_nat.induct)
  case (1 n)
  show ?case
  proof (cases "n < 10")
    case True
    then show ?thesis using 1 by (subst dec_nat.simps) simp
  next
    case False
    with 1(2) obtain k' where k: "k = Suc k'" "k' \<noteq> 0" by (cases k; cases "k - 1") auto
    with 1(2) have "n div 10 < 10 ^ k'" by (simp add: less_mult_imp_div_less mult.commute)
    with 1(1) False k have "length (dec_nat (n div 10)) \<le> k'" by simp
    with False k show ?thesis by (subst dec_nat.simps) simp
  qed
qed

section \<open>Reading numerals\<close>

lemma ascii_digit_not [simp]:
  "\<not> ascii_digit (CHR '','')" "\<not> ascii_digit (CHR ''-'')" "\<not> ascii_digit (CHR ''_'')" "\<not> ascii_digit (CHR ''+'')"
  by (simp_all add: ascii_digit_def)

lemma ascii_digit_not_space: "ascii_digit c \<Longrightarrow> \<not> int_space c"
  by (auto simp: ascii_digit_def int_space_def)

lemma int_groups_digits: "digits_only s \<Longrightarrow> int_groups s = Some s"
proof (induction s)
  case (Cons c s)
  show ?case
  proof (cases s)
    case Nil
    with Cons.prems show ?thesis by (simp add: digits_only_def)
  next
    case (Cons d ds)
    with Cons.prems have "digits_only s" "ascii_digit c" "d \<noteq> CHR ''_''" by (auto simp: digits_only_def)
    with Cons Cons.IH show ?thesis by simp
  qed
qed (simp add: digits_only_def)

definition short_number :: "string \<Rightarrow> bool" where
  "short_number s \<longleftrightarrow> length s \<le> int_max_str_digits"

lemma strip_digits:
  assumes "digits_only s"
  shows "rev (dropWhile int_space (rev (dropWhile int_space s))) = s"
proof -
  have all: "\<forall>c \<in> set s. \<not> int_space c"
    using assms ascii_digit_not_space by (auto simp: digits_only_def list_all_iff)
  have drop: "dropWhile int_space xs = xs" if "\<forall>c \<in> set xs. \<not> int_space c" for xs
    using that by (cases xs) simp_all
  from all show ?thesis by (simp add: drop)
qed

lemma py_int_digits:
  assumes "digits_only s"
  shows "py_int s = (if short_number s then Inr (int (digits_val 0 s))
    else Inl (ValueError ''Exceeds the limit for integer string conversion''))"
proof -
  obtain c cs where s: "s = c # cs" "ascii_digit c" using assms by (cases s) (auto simp: digits_only_def)
  then have "c \<noteq> CHR ''-''" "c \<noteq> CHR ''+''" by auto
  with s have "py_int s = bindE (int_digits s) (\<lambda>n. Inr (int n))"
    unfolding py_int_def strip_digits [OF assms] by simp
  with int_groups_digits [OF assms] show ?thesis by (simp add: int_digits_def short_number_def)
qed

section \<open>What a selection denotes\<close>

text \<open>
  A syntactically valid token denotes a range of natural numbers; \<open>firsts\<close> keeps the first
  occurrence of each element of a list.
\<close>

definition token_range :: "string \<Rightarrow> nat \<times> nat" where
  "token_range token =
     (let a = takeWhile ascii_digit token; b = dropWhile ascii_digit token in
      (digits_val 0 a, digits_val 0 (if b = [] then a else tl b)))"

definition token_short :: "string \<Rightarrow> bool" where
  "token_short token \<longleftrightarrow>
     short_number (takeWhile ascii_digit token) \<and> short_number (tl (dropWhile ascii_digit token))"

definition range_list :: "nat \<times> nat \<Rightarrow> int list" where
  "range_list r = [int (fst r)..int (snd r)]"

definition firsts :: "'a list \<Rightarrow> 'a list" where
  "firsts xs = rev (remdups (rev xs))"

lemma firsts_snoc: "firsts (xs @ [x]) = (if x \<in> set xs then firsts xs else firsts xs @ [x])"
  by (simp add: firsts_def)

lemma set_firsts [simp]: "set (firsts xs) = set xs"
  by (simp add: firsts_def)

lemma distinct_firsts [simp]: "distinct (firsts xs)"
  by (simp add: firsts_def)

lemma collect_indexes_run:
  "collect_indexes count is (firsts xs, set xs) =
     (if \<forall>i \<in> set is. 0 \<le> i \<and> i < int count then Inr (firsts (xs @ is), set (xs @ is))
      else Inl (VisibleHandleError ''Invalid index''))"
proof (induction "is" arbitrary: xs)
  case (Cons i "is")
  show ?case
  proof (cases "0 \<le> i \<and> i < int count")
    case True
    have "(if i \<notin> set xs then (firsts xs @ [i], insert i (set xs)) else (firsts xs, set xs))
        = (firsts (xs @ [i]), set (xs @ [i]))"
      by (auto simp: firsts_snoc)
    with Cons [of "xs @ [i]"] True show ?thesis by (simp add: check_index_def)
  next
    case False
    then show ?thesis by (auto simp: check_index_def)
  qed
qed simp

lemma token_cases:
  assumes "token_syntax token"
  obtains (single) "digits_only token" "CHR ''-'' \<notin> set token" "token_range token = (digits_val 0 token, digits_val 0 token)"
      "token_short token = short_number token"
  | (range) a b where "token = a @ CHR ''-'' # b" "digits_only a" "digits_only b" "CHR ''-'' \<notin> set a"
      "token_range token = (digits_val 0 a, digits_val 0 b)" "token_short token = (short_number a \<and> short_number b)"
proof -
  let ?a = "takeWhile ascii_digit token" and ?b = "dropWhile ascii_digit token"
  have a: "digits_only ?a" and b: "?b = [] \<or> hd ?b = CHR ''-'' \<and> digits_only (tl ?b)"
    using assms by (auto simp: token_syntax_def Let_def digits_only_def list_all_iff dest: set_takeWhileD)
  have no: "CHR ''-'' \<notin> set xs" if "digits_only xs" for xs
    using that by (auto simp: digits_only_def list_all_iff)
  show ?thesis
  proof (cases "?b = []")
    case True
    then have d: "?a = token" by (metis append_Nil2 takeWhile_dropWhile_id)
    have "token_range token = (digits_val 0 token, digits_val 0 token)" "token_short token = short_number token"
      by (simp_all only: token_range_def token_short_def short_number_def Let_def True d if_True list.sel
          list.size le0 simp_thms)
    with a no [OF a] show ?thesis by (intro single) (simp_all only: d simp_thms)
  next
    case False
    with b have "?b = CHR ''-'' # tl ?b" by (cases ?b) simp_all
    then have "token = ?a @ CHR ''-'' # tl ?b" by (metis takeWhile_dropWhile_id)
    moreover have "digits_only (tl ?b)" using b False by blast
    moreover have "token_range token = (digits_val 0 ?a, digits_val 0 (tl ?b))"
      by (simp only: token_range_def Let_def False if_False)
    ultimately show ?thesis
      using a no [OF a] by (intro range [of ?a "tl ?b"]) (simp_all only: token_short_def simp_thms)
  qed
qed

lemma split_first:
  assumes "sep \<notin> set a"
  shows "takeWhile (\<lambda>c. c \<noteq> sep) (a @ sep # b) = a" and "dropWhile (\<lambda>c. c \<noteq> sep) (a @ sep # b) = sep # b"
  using assms by (induction a) auto

lemma expand_token_run:
  assumes "token_syntax token"
  shows "(\<exists>is. expand_token token = Inr is) \<longleftrightarrow> token_short token \<and> fst (token_range token) \<le> snd (token_range token)"
    and "expand_token token = Inr is \<Longrightarrow> is = range_list (token_range token)"
proof -
  have "((\<exists>is. expand_token token = Inr is) \<longleftrightarrow> token_short token \<and> fst (token_range token) \<le> snd (token_range token))
    \<and> (expand_token token = Inr is \<longrightarrow> is = range_list (token_range token))"
    using assms
  proof (cases rule: token_cases)
    case single
    then show ?thesis by (auto simp: expand_token_def py_int_digits range_list_def)
  next
    case (range a b)
    have "takeWhile (\<lambda>c. c \<noteq> CHR ''-'') token = a" "tl (dropWhile (\<lambda>c. c \<noteq> CHR ''-'') token) = b"
      using range(1,4) by (simp_all add: split_first)
    with range show ?thesis
      by (auto simp: expand_token_def py_int_digits range_list_def result_simps raise_if_def)
  qed
  then show "(\<exists>is. expand_token token = Inr is) \<longleftrightarrow> token_short token \<and> fst (token_range token) \<le> snd (token_range token)"
    and "expand_token token = Inr is \<Longrightarrow> is = range_list (token_range token)"
    by blast+
qed

lemma expand_tokens_run:
  assumes "list_all token_syntax tokens"
  shows "collect_tokens count tokens (firsts xs, set xs) = Inr acc \<longleftrightarrow>
    (\<forall>t \<in> set tokens. token_short t \<and> fst (token_range t) \<le> snd (token_range t) \<and> snd (token_range t) < count)
    \<and> acc = (firsts (xs @ concat (map (\<lambda>t. range_list (token_range t)) tokens)),
             set (xs @ concat (map (\<lambda>t. range_list (token_range t)) tokens)))"
  using assms
proof (induction tokens arbitrary: xs)
  case (Cons t ts)
  let ?r = "token_range t"
  have t: "token_syntax t" using Cons.prems by simp
  show ?case
  proof (cases "token_short t \<and> fst ?r \<le> snd ?r")
    case False
    then obtain e where "expand_token t = Inl e" using expand_token_run(1) [OF t] by (cases "expand_token t") auto
    with False show ?thesis by auto
  next
    case True
    then obtain "is" where e: "expand_token t = Inr is" using expand_token_run(1) [OF t] by blast
    note r = expand_token_run(2) [OF t e]
    have "(\<forall>i \<in> set is. 0 \<le> i \<and> i < int count) \<longleftrightarrow> snd ?r < count"
      using True by (auto simp: r range_list_def dest: bspec [where x = "int (snd ?r)"])
    with Cons.IH [of "xs @ is"] Cons.prems True show ?thesis
      by (simp add: e collect_indexes_run r [symmetric])
  qed
qed auto

lemma selection_accepted:
  "parse_visible_index_selection value count = Inr is \<longleftrightarrow>
     selection_syntax value
     \<and> (\<forall>t \<in> set (split_on CHR '','' value).
          token_short t \<and> fst (token_range t) \<le> snd (token_range t) \<and> snd (token_range t) < count)
     \<and> is = firsts (concat (map (\<lambda>t. range_list (token_range t)) (split_on CHR '','' value)))"
proof (cases "selection_syntax value")
  case False
  then show ?thesis by (simp add: parse_visible_index_selection_def)
next
  case True
  then have "list_all token_syntax (split_on CHR '','' value)" by (simp add: selection_syntax_def)
  from expand_tokens_run [OF this, of count "[]"] True show ?thesis
    by (auto simp: parse_visible_index_selection_def result_simps firsts_def)
qed

text \<open>
  A selection is read exactly as it denotes: it is accepted if and only if it has the compact
  form, every range is ascending and every index is below the count, and then yields the indexes
  of its ranges in the order written, each one once.
\<close>

theorem selection_exact:
  "parse_visible_index_selection value count = Inr is \<longleftrightarrow>
     selection_syntax value
     \<and> (\<forall>t \<in> set (split_on CHR '','' value).
          token_short t \<and> fst (token_range t) \<le> snd (token_range t) \<and> snd (token_range t) < count)
     \<and> is = firsts (concat (map (\<lambda>t. range_list (token_range t)) (split_on CHR '','' value)))"
  by (rule selection_accepted)

section \<open>Writing selections\<close>

definition render_range :: "nat \<times> nat \<Rightarrow> string" where
  "render_range r = (if fst r = snd r then dec_nat (fst r) else dec_nat (fst r) @ ''-'' @ dec_nat (snd r))"

fun render_selection :: "(nat \<times> nat) list \<Rightarrow> string" where
  "render_selection [] = []"
| "render_selection [r] = render_range r"
| "render_selection (r # rs) = render_range r @ '','' @ render_selection rs"

lemma digits_scan:
  assumes "digits_only a" and "b = [] \<or> \<not> ascii_digit (hd b)"
  shows "takeWhile ascii_digit (a @ b) = a" and "dropWhile ascii_digit (a @ b) = b"
proof -
  have "list_all ascii_digit a" using assms(1) by (simp add: digits_only_def)
  with assms(2) show "takeWhile ascii_digit (a @ b) = a" "dropWhile ascii_digit (a @ b) = b"
    by (induction a; cases b; simp)+
qed

lemma render_range_scan:
  "takeWhile ascii_digit (render_range r) = dec_nat (fst r)"
  "dropWhile ascii_digit (render_range r) = (if fst r = snd r then [] else CHR ''-'' # dec_nat (snd r))"
  using digits_scan [OF dec_nat_digits, of "[]" "fst r"]
    digits_scan [OF dec_nat_digits, of "CHR ''-'' # dec_nat (snd r)" "fst r"]
  by (simp_all add: render_range_def)

lemma render_range_token:
  "token_syntax (render_range r)" "token_range (render_range r) = r" "CHR '','' \<notin> set (render_range r)"
proof -
  show "token_syntax (render_range r)"
    using dec_nat_digits [of "fst r"] dec_nat_digits [of "snd r"]
    by (simp add: token_syntax_def render_range_scan digits_only_def)
  show "token_range (render_range r) = r"
    by (simp add: token_range_def render_range_scan digits_val_dec_nat prod_eq_iff)
  show "CHR '','' \<notin> set (render_range r)"
    using dec_nat_digits [of "fst r"] dec_nat_digits [of "snd r"]
    by (auto simp: render_range_def digits_only_def list_all_iff)
qed

lemma split_render: "rs \<noteq> [] \<Longrightarrow> split_on CHR '','' (render_selection rs) = map render_range rs"
  by (induction rs rule: render_selection.induct)
    (simp_all add: split_on_single split_on_Cons render_range_token)

text \<open>
  Round trip: a non-empty list of ranges, written in the compact form, is read back as the
  indexes of the ranges in order without repetition.
\<close>

theorem selection_roundtrip:
  assumes "rs \<noteq> []" and "\<forall>(a, b) \<in> set rs. a \<le> b \<and> b < count" and "count \<le> 10 ^ int_max_str_digits"
  shows "parse_visible_index_selection (render_selection rs) count = Inr (firsts (concat (map range_list rs)))"
proof -
  have short: "length (dec_nat n) \<le> int_max_str_digits" if "n < count" for n
    by (rule length_dec_nat [OF less_le_trans [OF that assms(3)] int_max_pos])
  have "selection_syntax (render_selection rs)"
    by (simp add: selection_syntax_def split_render [OF assms(1)] list_all_iff render_range_token)
  moreover have "token_short (render_range r)" if "r \<in> set rs" for r
    using that assms(2) short [of "fst r"] short [of "snd r"]
    by (auto simp: token_short_def render_range_scan short_number_def)
  ultimately show ?thesis
    using assms(2) unfolding selection_accepted split_render [OF assms(1)]
    by (auto simp: render_range_token comp_def)
qed

text \<open>
  Resolution never reaches outside the listing: it answers with the text itself when that is
  not an index or a selection, and otherwise with the identifiers of items of the listing, no
  position twice.
\<close>

theorem selection_resolves:
  assumes "resolve_visible_handle_selection value items get_id = Inr ids"
  shows "(ids = [value] \<and> \<not> looks_like_visible_index value \<and> \<not> uses_visible_selection_syntax value)
    \<or> (\<exists>ps. distinct ps \<and> (\<forall>p \<in> set ps. p < length items) \<and> ids = map (\<lambda>p. get_id (items ! p)) ps)"
proof -
  consider "ids = [value]" "\<not> looks_like_visible_index value" "\<not> uses_visible_selection_syntax value"
    | i where "parse_visible_index value (length items) = Inr i" "ids = [get_id (items ! nat i)]"
    | "is" where "parse_visible_index_selection value (length items) = Inr is"
        "ids = map (\<lambda>i. get_id (items ! nat i)) is"
    using assms by (auto simp: resolve_visible_handle_selection_def result_simps split: if_splits)
  then show ?thesis
  proof cases
    case (2 i)
    then have "0 \<le> i" "nat i < length items"
      by (auto simp: parse_visible_index_def check_index_def result_simps)
    with 2 show ?thesis by (intro disjI2 exI [of _ "[nat i]"]) simp
  next
    case (3 "is")
    then have d: "distinct is" "\<forall>i \<in> set is. 0 \<le> i \<and> i < int (length items)"
      unfolding selection_accepted by (auto simp: range_list_def)
    then have "inj_on nat (set is)" by (auto simp: inj_on_def eq_nat_nat_iff)
    with d 3 show ?thesis
      by (intro disjI2 exI [of _ "map nat is"]) (auto simp: distinct_map nat_less_iff)
  qed simp
qed

lemma selection_exact_witness:
  "parse_visible_index_selection ''0,2-4,3'' 9 = Inr [0, 2, 3, 4]"
  by (subst selection_exact) code_simp

lemma selection_roundtrip_witness:
  "parse_visible_index_selection (render_selection [(0, 0), (2, 4)]) 5 = Inr [0, 2, 3, 4]"
proof -
  have "(5 :: nat) \<le> 10 ^ 1" by simp
  also have "\<dots> \<le> 10 ^ int_max_str_digits"
    using int_max_pos by (intro power_increasing) simp_all
  finally show ?thesis
    using selection_roundtrip [of "[(0, 0), (2, 4)]" 5] by (simp add: range_list_def firsts_def upto.simps)
qed

lemma selection_resolves_witness:
  "resolve_visible_handle_selection ''1'' [''a'', ''b''] (\<lambda>x. x) = Inr [''b''] \<and> ''b'' \<noteq> ''1''"
proof -
  have r: "resolve_visible_handle_selection ''1'' [''a'', ''b''] (\<lambda>x. x) = Inr [''b'']" by code_simp
  from selection_resolves [OF r] show ?thesis using r by simp
qed

end
