(* ===== verification/RuntimeMessages.thy ===== *)
theory RuntimeMessages
  imports RuntimeCtx
begin

text \<open>
  The messages of the runtime: the versioned envelope and its record codec
  (\<open>runtime/messages.py\<close>), the job payload and job message inside it (\<open>runtime/job/message.py\<close>),
  the log payload of an event (\<open>runtime/event/payload.py\<close>) and the lexical contracts of event names
  (\<open>runtime/identities.py\<close>). A mapping that arrives from outside is any \<open>pyobj\<close>; one that the code
  has already decoded is its list of fields.
\<close>

section \<open>Mappings\<close>

definition is_mapping :: "pyobj \<Rightarrow> bool" where
  "is_mapping v \<longleftrightarrow> (case v of PDict d \<Rightarrow> True | PProxy d \<Rightarrow> True | PIntMap d \<Rightarrow> True | _ \<Rightarrow> False)"

lemma is_mapping_dict [simp]: "is_mapping (PDict d)" "is_mapping (PProxy d)"
  by (simp_all add: is_mapping_def)

text \<open>\<open>set(record)\<close> must be exactly the given field names.\<close>

definition exact_fields :: "string list \<Rightarrow> exn \<Rightarrow> pydict \<Rightarrow> unit result" where
  "exact_fields names e d = raise_if (set (map fst d) \<noteq> set names) e"

definition field :: "pydict \<Rightarrow> string \<Rightarrow> pyobj result" where
  "field d key = (case dget d key of None \<Rightarrow> Inl (KeyError key) | Some v \<Rightarrow> Inr v)"

lemma field_simps [simp]:
  "field ((k, v) # d) key = (if key = k then Inr v else field d key)"
  by (simp add: field_def)

section \<open>Event identities\<close>

definition lower_char :: "char \<Rightarrow> bool" where
  "lower_char c \<longleftrightarrow> 97 \<le> (of_char c :: nat) \<and> (of_char c :: nat) \<le> 122"

definition slug_char :: "char \<Rightarrow> bool" where
  "slug_char c \<longleftrightarrow> lower_char c \<or> 48 \<le> (of_char c :: nat) \<and> (of_char c :: nat) \<le> 57 \<or> c = CHR ''_''"

definition identity_segment :: "string \<Rightarrow> bool" where
  "identity_segment s \<longleftrightarrow> s \<noteq> [] \<and> lower_char (hd s) \<and> list_all slug_char (tl s)"

definition require_identity_segment :: "pyobj \<Rightarrow> string result" where
  "require_identity_segment v =
     (case v of
        PStr s \<Rightarrow> (if identity_segment s then Inr s else Inl (ValueError ''identity is invalid''))
      | _ \<Rightarrow> Inl (ValueError ''identity is invalid''))"

definition require_runtime_event_name :: "pyobj \<Rightarrow> string result" where
  "require_runtime_event_name v =
     (case v of
        PStr s \<Rightarrow>
          (let segments = split_on (CHR ''.'') s in
           if length segments < 2 \<or> \<not> list_all identity_segment segments
           then Inl (ValueError ''runtime event name is invalid'')
           else Inr s)
      | _ \<Rightarrow> Inl (ValueError ''runtime event name is invalid''))"

definition require_audit_event_name :: "pyobj \<Rightarrow> string result" where
  "require_audit_event_name v = require_identity_segment v"

definition require_persisted_event_name :: "pyobj \<Rightarrow> string result" where
  "require_persisted_event_name v =
     (case v of
        PStr s \<Rightarrow> (if CHR ''.'' \<in> set s then require_runtime_event_name v else require_audit_event_name v)
      | _ \<Rightarrow> require_audit_event_name v)"

section \<open>Envelopes\<close>

definition message_kinds :: "string list" where
  "message_kinds = [''event'', ''job'', ''audit'']"

definition envelope_fields :: "string list" where
  "envelope_fields =
     [''message_id'', ''schema_version'', ''kind'', ''name'', ''producer'', ''created_at'', ''context'', ''payload'']"

definition runtime_schema_version :: int where
  "runtime_schema_version = 1"

record RuntimeEnvelope =
  env_kind :: string
  env_name :: string
  env_producer :: string
  env_message_id :: string
  env_schema_version :: int
  env_created_at :: string
  env_context :: RuntimeContext
  env_payload :: pyobj

text \<open>\<open>__post_init__\<close>: the checks in the code's order, then the payload is frozen.\<close>

definition make_envelope :: "iso_parser \<Rightarrow> RuntimeEnvelope \<Rightarrow> RuntimeEnvelope result" where
  "make_envelope fromiso x =
     bindE (raise_if (env_kind x \<notin> set message_kinds) (ValueError ''runtime envelope kind is invalid'')) (\<lambda>_.
     bindE (raise_if (env_schema_version x \<noteq> runtime_schema_version)
              (ValueError ''runtime envelope schema version is unsupported'')) (\<lambda>_.
     bindE (raise_if (list_ex blank [env_message_id x, env_name x, env_producer x, env_created_at x])
              (ValueError ''runtime envelope field must be a non-blank string'')) (\<lambda>_.
     bindE (aware fromiso (env_created_at x)) (\<lambda>_.
     bindE (raise_if (\<not> is_mapping (env_payload x)) (TypeError ''runtime envelope payload must be a mapping'')) (\<lambda>_.
     bindE (freeze (env_payload x)) (\<lambda>payload. Inr (x\<lparr>env_payload := payload\<rparr>)))))))"

definition envelope_to_record :: "RuntimeEnvelope \<Rightarrow> pydict" where
  "envelope_to_record x =
     [(''message_id'', PStr (env_message_id x)), (''schema_version'', PInt (env_schema_version x)),
      (''kind'', PStr (env_kind x)), (''name'', PStr (env_name x)), (''producer'', PStr (env_producer x)),
      (''created_at'', PStr (env_created_at x)), (''context'', PDict (context_to_record (env_context x))),
      (''payload'', thaw (env_payload x))]"

definition record_string :: "pydict \<Rightarrow> string \<Rightarrow> string result" where
  "record_string d key =
     bindE (field d key) (\<lambda>v. case v of
       PStr s \<Rightarrow> Inr s | _ \<Rightarrow> Inl (ValueError ''runtime envelope field must be a string''))"

definition envelope_from_record :: "iso_parser \<Rightarrow> pydict \<Rightarrow> RuntimeEnvelope result" where
  "envelope_from_record fromiso d =
     bindE (exact_fields envelope_fields (ValueError ''runtime envelope fields are invalid'') d) (\<lambda>_.
     bindE (field d ''kind'') (\<lambda>kind.
     bindE (case kind of
              PStr s \<Rightarrow> (if s \<in> set message_kinds then Inr s else Inl (ValueError ''runtime envelope kind is invalid''))
            | _ \<Rightarrow> Inl (ValueError ''runtime envelope kind is invalid'')) (\<lambda>kind.
     bindE (field d ''schema_version'') (\<lambda>version.
     bindE (case version of PInt i \<Rightarrow> Inr i
            | _ \<Rightarrow> Inl (ValueError ''runtime envelope schema version must be an integer'')) (\<lambda>version.
     bindE (field d ''context'') (\<lambda>context.
     bindE (raise_if (\<not> is_mapping context) (TypeError ''runtime envelope context must be a mapping'')) (\<lambda>_.
     bindE (field d ''payload'') (\<lambda>payload.
     bindE (raise_if (\<not> is_mapping payload) (TypeError ''runtime envelope payload must be a mapping'')) (\<lambda>_.
     bindE (record_string d ''name'') (\<lambda>name.
     bindE (record_string d ''producer'') (\<lambda>producer.
     bindE (record_string d ''message_id'') (\<lambda>message_id.
     bindE (record_string d ''created_at'') (\<lambda>created_at.
     bindE (context_of_wire (TypeError ''runtime envelope context must be a mapping'') context) (\<lambda>ctx.
       make_envelope fromiso
         \<lparr>env_kind = kind, env_name = name, env_producer = producer, env_message_id = message_id,
          env_schema_version = version, env_created_at = created_at, env_context = ctx,
          env_payload = payload\<rparr>))))))))))))))"

definition envelope_valid :: "iso_parser \<Rightarrow> RuntimeEnvelope \<Rightarrow> bool" where
  "envelope_valid fromiso x \<longleftrightarrow>
     env_kind x \<in> set message_kinds \<and> env_schema_version x = runtime_schema_version
     \<and> \<not> list_ex blank [env_message_id x, env_name x, env_producer x, env_created_at x]
     \<and> is_aware fromiso (env_created_at x) \<and> is_mapping (env_payload x) \<and> frozen (env_payload x)
     \<and> context_valid (env_context x)"

lemma frozen_mapping: "is_mapping v \<Longrightarrow> frozen v \<Longrightarrow> \<exists>d. v = PProxy d"
  by (cases v) (simp_all add: is_mapping_def)

lemma freeze_mapping: "is_mapping v \<Longrightarrow> freeze v = Inr w \<Longrightarrow> is_mapping w"
  by (cases v) (auto simp: is_mapping_def result_simps split: if_splits)

lemma make_envelope_valid:
  assumes "make_envelope fromiso x = Inr y" and "context_valid (env_context x)"
  shows "envelope_valid fromiso y"
  using assms freeze_frozen [of "env_payload x"] freeze_mapping [of "env_payload x"]
  by (auto simp: make_envelope_def envelope_valid_def result_simps)

lemma make_envelope_again: "envelope_valid fromiso x \<Longrightarrow> make_envelope fromiso x = Inr x"
  by (simp add: make_envelope_def envelope_valid_def freeze_frozen_id)

lemma envelope_reload:
  assumes "make_envelope fromiso x = Inr y" and "context_valid (env_context x)"
  shows "envelope_from_record fromiso (envelope_to_record y) = Inr y \<and> json_dict (envelope_to_record y)"
proof
  note v = make_envelope_valid [OF assms]
  then have f: "frozen (env_payload y)" "is_mapping (env_payload y)" and c: "context_valid (env_context y)"
    by (simp_all add: envelope_valid_def)
  from frozen_mapping [OF f(2,1)] obtain d where d: "env_payload y = PProxy d" ..
  have m: "is_mapping (thaw (env_payload y))" by (simp add: d is_mapping_def)
  have "make_envelope fromiso \<lparr>env_kind = env_kind y, env_name = env_name y, env_producer = env_producer y,
      env_message_id = env_message_id y, env_schema_version = runtime_schema_version,
      env_created_at = env_created_at y, env_context = env_context y, env_payload = thaw (env_payload y)\<rparr> = Inr y"
    using v m freeze_thaw [OF f(1)] by (simp add: make_envelope_def envelope_valid_def)
  with v m c show "envelope_from_record fromiso (envelope_to_record y) = Inr y"
    by (simp add: envelope_from_record_def envelope_to_record_def exact_fields_def envelope_fields_def
        record_string_def envelope_valid_def insert_commute)
  have "json_plain (thaw (env_payload y))"
    using freeze_thaw [OF f(1)] thaw_freeze_plain by blast
  then show "json_dict (envelope_to_record y)"
    by (simp add: envelope_to_record_def json_dict_def context_to_record_def)
qed

text \<open>
  Round trip of the envelope: whatever the constructor accepts is, after freezing, restored
  exactly from its detached record; and the record is plain JSON.
\<close>

theorem envelope_roundtrip:
  assumes "make_envelope fromiso x = Inr y" and "context_valid (env_context x)"
  shows "envelope_from_record fromiso (envelope_to_record y) = Inr y \<and> json_dict (envelope_to_record y)"
  using assms by (rule envelope_reload)

section \<open>Job messages\<close>

definition mapping_fields :: "pyobj \<Rightarrow> pydict" where
  "mapping_fields v = (case v of PDict d \<Rightarrow> d | PProxy d \<Rightarrow> d | _ \<Rightarrow> [])"

record JobPayload =
  job_resource_id :: string
  job_data :: pyobj

definition make_job_payload :: "JobPayload \<Rightarrow> JobPayload result" where
  "make_job_payload p =
     bindE (raise_if (blank (job_resource_id p)) (ValueError ''job payload resource_id must not be blank'')) (\<lambda>_.
     bindE (raise_if (\<not> is_mapping (job_data p)) (TypeError ''job payload data must be a mapping'')) (\<lambda>_. Inr p))"

definition job_payload_to_mapping :: "JobPayload \<Rightarrow> pydict" where
  "job_payload_to_mapping p = [(''resource_id'', PStr (job_resource_id p)), (''data'', job_data p)]"

definition job_payload_from_mapping :: "pydict \<Rightarrow> JobPayload result" where
  "job_payload_from_mapping d =
     bindE (exact_fields [''resource_id'', ''data''] (ValueError ''job payload fields are invalid'') d) (\<lambda>_.
     bindE (field d ''resource_id'') (\<lambda>v.
     bindE (case v of PStr s \<Rightarrow> Inr s | _ \<Rightarrow> Inl (TypeError ''job payload resource_id must be a string'')) (\<lambda>resource_id.
     bindE (field d ''data'') (\<lambda>data.
     bindE (raise_if (\<not> is_mapping data) (TypeError ''job payload data must be a mapping'')) (\<lambda>_.
       make_job_payload \<lparr>job_resource_id = resource_id, job_data = data\<rparr>)))))"

record JobMessage =
  jm_envelope :: RuntimeEnvelope
  jm_payload :: JobPayload

definition make_job_message :: "RuntimeEnvelope \<Rightarrow> JobMessage result" where
  "make_job_message env =
     bindE (raise_if (env_kind env \<noteq> ''job'') (ValueError ''job message requires a job envelope'')) (\<lambda>_.
     bindE (raise_if (ctx_job_id (env_context env) = None) (ValueError ''job envelope context requires job_id'')) (\<lambda>_.
     bindE (job_payload_from_mapping (mapping_fields (env_payload env))) (\<lambda>p.
       Inr \<lparr>jm_envelope = env, jm_payload = p\<rparr>)))"

section \<open>The log payload of an event\<close>

record RuntimeLogEventPayload =
  lp_message :: "string option"
  lp_level :: string
  lp_node :: "string option"
  lp_duration_ms :: "int option"
  lp_status :: "string option"
  lp_error :: "string option"
  lp_metadata :: "pyobj option"

definition log_payload_fields :: "string list" where
  "log_payload_fields = [''message'', ''level'', ''node'', ''duration_ms'', ''status'', ''error'', ''metadata'']"

definition make_log_payload :: "RuntimeLogEventPayload \<Rightarrow> RuntimeLogEventPayload result" where
  "make_log_payload p =
     bindE (raise_if (lp_level p \<notin> {''debug'', ''info'', ''warning'', ''error''})
              (ValueError ''runtime event log level is invalid'')) (\<lambda>_.
     bindE (raise_if (case lp_duration_ms p of None \<Rightarrow> False | Some i \<Rightarrow> i < 0)
              (TypeError ''runtime event log duration_ms must be a non-negative integer'')) (\<lambda>_.
     bindE (raise_if (case lp_metadata p of None \<Rightarrow> False | Some v \<Rightarrow> \<not> is_mapping v)
              (TypeError ''runtime event log metadata must be a mapping'')) (\<lambda>_. Inr p)))"

definition opt_field :: "string \<Rightarrow> pyobj option \<Rightarrow> pydict" where
  "opt_field key v = (case v of None \<Rightarrow> [] | Some x \<Rightarrow> [(key, x)])"

definition log_payload_to_mapping :: "RuntimeLogEventPayload \<Rightarrow> pydict" where
  "log_payload_to_mapping p =
     [(''level'', PStr (lp_level p))]
     @ opt_field ''message'' (map_option PStr (lp_message p)) @ opt_field ''node'' (map_option PStr (lp_node p))
     @ opt_field ''duration_ms'' (map_option PInt (lp_duration_ms p)) @ opt_field ''status'' (map_option PStr (lp_status p))
     @ opt_field ''error'' (map_option PStr (lp_error p)) @ opt_field ''metadata'' (lp_metadata p)"

definition optional_string :: "pydict \<Rightarrow> string \<Rightarrow> string option result" where
  "optional_string d key =
     (case dict_get d key of
        PNone \<Rightarrow> Inr None
      | PStr s \<Rightarrow> Inr (Some s)
      | _ \<Rightarrow> Inl (TypeError ''runtime event log field must be a string''))"

definition optional_integer :: "pydict \<Rightarrow> string \<Rightarrow> int option result" where
  "optional_integer d key =
     (case dict_get d key of
        PNone \<Rightarrow> Inr None
      | PInt i \<Rightarrow> Inr (Some i)
      | _ \<Rightarrow> Inl (TypeError ''runtime event log field must be an integer''))"

definition optional_mapping :: "pydict \<Rightarrow> string \<Rightarrow> pyobj option result" where
  "optional_mapping d key =
     (let v = dict_get d key in
      if v = PNone then Inr None
      else if is_mapping v then Inr (Some v)
      else Inl (TypeError ''runtime event log field must be a mapping''))"

definition log_payload_from_mapping :: "pydict \<Rightarrow> RuntimeLogEventPayload result" where
  "log_payload_from_mapping d =
     bindE (raise_if (\<not> set (map fst d) \<subseteq> set log_payload_fields)
              (ValueError ''runtime event log payload has unknown fields'')) (\<lambda>_.
     bindE (case dget d ''level'' of
              None \<Rightarrow> Inr ''info''
            | Some (PStr s) \<Rightarrow> Inr s
            | Some _ \<Rightarrow> Inl (TypeError ''runtime event log level must be a string'')) (\<lambda>level.
     bindE (optional_string d ''message'') (\<lambda>message.
     bindE (optional_string d ''node'') (\<lambda>node.
     bindE (optional_integer d ''duration_ms'') (\<lambda>duration.
     bindE (optional_string d ''status'') (\<lambda>status.
     bindE (optional_string d ''error'') (\<lambda>error.
     bindE (optional_mapping d ''metadata'') (\<lambda>metadata.
       make_log_payload
         \<lparr>lp_message = message, lp_level = level, lp_node = node, lp_duration_ms = duration,
          lp_status = status, lp_error = error, lp_metadata = metadata\<rparr>))))))))"

definition validate_runtime_log_event_payload :: "pydict \<Rightarrow> unit result" where
  "validate_runtime_log_event_payload d = bindE (log_payload_from_mapping d) (\<lambda>_. Inr ())"

lemma opt_field_keys: "fst ` set (opt_field key v) \<subseteq> {key}"
  by (auto simp: opt_field_def split: option.splits)

lemma dict_get_opt_field [simp]:
  "dict_get (opt_field key v @ d) k = (if k = key then (case v of None \<Rightarrow> dict_get d k | Some x \<Rightarrow> x) else dict_get d k)"
  "dict_get (opt_field key v) k = (if k = key then (case v of None \<Rightarrow> PNone | Some x \<Rightarrow> x) else PNone)"
  by (auto simp: opt_field_def dict_get_def split: option.splits)

lemma log_payload_roundtrip:
  assumes "make_log_payload p = Inr p"
  shows "log_payload_from_mapping (log_payload_to_mapping p) = Inr p"
proof -
  have keys: "set (map fst (log_payload_to_mapping p)) \<subseteq> set log_payload_fields"
    using opt_field_keys by (fastforce simp: log_payload_to_mapping_def log_payload_fields_def)
  have level: "dget (log_payload_to_mapping p) ''level'' = Some (PStr (lp_level p))"
    by (simp add: log_payload_to_mapping_def)
  let ?d = "log_payload_to_mapping p"
  have get: "dict_get ((k, v) # d) key = (if key = k then v else dict_get d key)" for k v d key
    by (simp add: dict_get_def)
  have "optional_string ?d ''message'' = Inr (lp_message p)" "optional_string ?d ''node'' = Inr (lp_node p)"
    "optional_string ?d ''status'' = Inr (lp_status p)" "optional_string ?d ''error'' = Inr (lp_error p)"
    "optional_integer ?d ''duration_ms'' = Inr (lp_duration_ms p)"
    by (auto simp: optional_string_def optional_integer_def log_payload_to_mapping_def get split: option.splits)
  moreover have "optional_mapping ?d ''metadata'' = Inr (lp_metadata p)"
    using assms
    by (auto simp: optional_mapping_def log_payload_to_mapping_def get make_log_payload_def result_simps
        is_mapping_def split: option.splits)
  moreover have "make_log_payload \<lparr>lp_message = lp_message p, lp_level = lp_level p, lp_node = lp_node p,
      lp_duration_ms = lp_duration_ms p, lp_status = lp_status p, lp_error = lp_error p,
      lp_metadata = lp_metadata p\<rparr> = Inr p" using assms by (cases p) simp
  ultimately show ?thesis
    using keys level by (simp add: log_payload_from_mapping_def)
qed

text \<open>A concrete envelope, for the witnesses.\<close>

definition sample_iso :: iso_parser where
  "sample_iso s = (if s = ''2026-01-01T00:00:00+00:00'' then IsoAware 0 else IsoInvalid)"

definition sample_envelope :: RuntimeEnvelope where
  "sample_envelope = \<lparr>env_kind = ''event'', env_name = ''task.started'', env_producer = ''daemon'',
     env_message_id = ''m1'', env_schema_version = 1, env_created_at = ''2026-01-01T00:00:00+00:00'',
     env_context = empty_context, env_payload = PDict [(''level'', PStr ''info''), (''metadata'', PDict [(''ids'', PList [PInt 1, PInt 2])])]\<rparr>"

lemma envelope_roundtrip_witness:
  "\<exists>y. make_envelope sample_iso sample_envelope = Inr y
     \<and> envelope_from_record sample_iso (envelope_to_record y) = Inr y
     \<and> env_payload y = PProxy [(''level'', PStr ''info''), (''metadata'', PProxy [(''ids'', PTuple [PInt 1, PInt 2])])]"
proof -
  let ?y = "sample_envelope\<lparr>env_payload := PProxy [(''level'', PStr ''info''), (''metadata'', PProxy [(''ids'', PTuple [PInt 1, PInt 2])])]\<rparr>"
  have m: "make_envelope sample_iso sample_envelope = Inr ?y" by code_simp
  have "context_valid (env_context sample_envelope)" by code_simp
  from envelope_roundtrip [OF m this] m show ?thesis by (simp add: sample_envelope_def)
qed

end
