(* ===== verification/Registries.thy ===== *)
theory Registries
  imports RuntimeMessages
begin

text \<open>
  The registries of the runtime, composed once and then sealed: the generic definition registry
  (\<open>runtime/definitions.py\<close>), the event and job definitions over it (\<open>runtime/event/definition.py\<close>,
  \<open>runtime/job/definition.py\<close>), and the handler registry with its middleware
  (\<open>runtime/handlers.py\<close>). The checks that an argument is callable hold by typing.
\<close>

section \<open>Definition registries\<close>

record ('k, 'd) DefinitionRegistry =
  dr_entries :: "('k \<times> 'd) list"
  dr_sealed :: bool

definition make_registry :: "string \<Rightarrow> ('k, 'd) DefinitionRegistry result" where
  "make_registry namespace =
     (if namespace = '''' then Inl (ValueError ''definition registry namespace must not be empty'')
      else Inr \<lparr>dr_entries = [], dr_sealed = False\<rparr>)"

definition dr_register :: "('d \<Rightarrow> 'k) \<Rightarrow> 'd \<Rightarrow> (('k, 'd) DefinitionRegistry, unit) act" where
  "dr_register key_of d r =
     (if dr_sealed r then (Inl DefinitionRegistrySealedError, r)
      else if key_of d \<in> fst ` set (dr_entries r) then (Inl DuplicateDefinitionError, r)
      else (Inr (), r\<lparr>dr_entries := dr_entries r @ [(key_of d, d)]\<rparr>))"

definition dr_resolve :: "'k \<Rightarrow> ('k, 'd) DefinitionRegistry \<Rightarrow> 'd result" where
  "dr_resolve key r =
     (if \<not> dr_sealed r then Inl DefinitionRegistryUnsealedError
      else case map_of (dr_entries r) key of None \<Rightarrow> Inl UnknownDefinitionError | Some d \<Rightarrow> Inr d)"

definition dr_seal :: "('k, 'd) DefinitionRegistry \<Rightarrow> ('k, 'd) DefinitionRegistry" where
  "dr_seal r = r\<lparr>dr_sealed := True\<rparr>"

definition dr_definitions :: "('k, 'd) DefinitionRegistry \<Rightarrow> 'd list" where
  "dr_definitions r = map snd (dr_entries r)"

text \<open>\<open>except ... raise ... from exc\<close>: a domain registry renames what the generic one raises.\<close>

definition translate :: "(exn \<Rightarrow> exn) \<Rightarrow> 'a result \<Rightarrow> 'a result" where
  "translate rename r = (case r of Inl e \<Rightarrow> Inl (rename e) | Inr x \<Rightarrow> Inr x)"

lemma translate_simps [simp]: "translate f (Inl e) = Inl (f e)" "translate f (Inr x) = Inr x"
  by (simp_all add: translate_def)

section \<open>Event definitions\<close>

record RuntimeEventDefinition =
  ed_producer :: string
  ed_name :: string
  ed_description :: string
  ed_validator :: "(pydict \<Rightarrow> unit result) option"

definition make_event_definition :: "RuntimeEventDefinition \<Rightarrow> RuntimeEventDefinition result" where
  "make_event_definition d =
     bindE (require_identity_segment (PStr (ed_producer d))) (\<lambda>_.
     bindE (require_runtime_event_name (PStr (ed_name d))) (\<lambda>_.
     bindE (raise_if (ed_description d = '''') (ValueError ''event definition description must not be empty'')) (\<lambda>_.
       Inr d)))"

definition event_validate_payload :: "RuntimeEventDefinition \<Rightarrow> pydict \<Rightarrow> unit result" where
  "event_validate_payload d payload = (case ed_validator d of None \<Rightarrow> Inr () | Some check \<Rightarrow> check payload)"

type_synonym EventDefinitionRegistry = "(string \<times> string, RuntimeEventDefinition) DefinitionRegistry"

definition event_key :: "RuntimeEventDefinition \<Rightarrow> string \<times> string" where
  "event_key d = (ed_producer d, ed_name d)"

fun event_registry_error :: "exn \<Rightarrow> exn" where
  "event_registry_error DefinitionRegistrySealedError = EventDefinitionRegistrySealedError"
| "event_registry_error DuplicateDefinitionError = DuplicateEventDefinitionError"
| "event_registry_error DefinitionRegistryUnsealedError = EventDefinitionRegistryUnsealedError"
| "event_registry_error UnknownDefinitionError = UnknownEventDefinitionError"
| "event_registry_error e = e"

definition event_register :: "RuntimeEventDefinition \<Rightarrow> (EventDefinitionRegistry, unit) act" where
  "event_register d r = (case dr_register event_key d r of (out, r') \<Rightarrow> (translate event_registry_error out, r'))"

definition event_resolve :: "string \<Rightarrow> string \<Rightarrow> EventDefinitionRegistry \<Rightarrow> RuntimeEventDefinition result" where
  "event_resolve producer name r = translate event_registry_error (dr_resolve (producer, name) r)"

definition event_require_sealed :: "EventDefinitionRegistry \<Rightarrow> unit result" where
  "event_require_sealed r = raise_if (\<not> dr_sealed r) EventDefinitionRegistryUnsealedError"

definition core_event :: "string \<Rightarrow> string \<Rightarrow> string \<Rightarrow> RuntimeEventDefinition" where
  "core_event producer name description =
     \<lparr>ed_producer = producer, ed_name = name, ed_description = description,
      ed_validator = Some validate_runtime_log_event_payload\<rparr>"

definition core_event_definitions :: "RuntimeEventDefinition list" where
  "core_event_definitions =
     [core_event ''chat'' ''feature.started'' ''A declared observed feature started.'',
      core_event ''chat'' ''feature.completed'' ''A declared observed feature completed.'',
      core_event ''chat'' ''feature.failed'' ''A declared observed feature failed.'',
      core_event ''daemon'' ''worker.started'' ''A daemon worker entered its run loop.'',
      core_event ''daemon'' ''worker.stopped'' ''A daemon worker exited its run loop.'',
      core_event ''daemon'' ''worker.failed'' ''A daemon worker iteration failed.'',
      core_event ''daemon'' ''task.started'' ''A unified daemon scheduler task started.'',
      core_event ''daemon'' ''task.completed'' ''A unified daemon scheduler task completed.'',
      core_event ''daemon'' ''task.failed'' ''A unified daemon scheduler task failed.'',
      core_event ''daemon'' ''task.deferred'' ''A durable follow-up wake-up was deferred.'',
      core_event ''chat'' ''turn.started'' ''A logical chat turn started.'',
      core_event ''chat'' ''turn.completed'' ''A logical chat turn completed.'',
      core_event ''chat'' ''turn.failed'' ''A logical chat turn failed.'',
      core_event ''chat'' ''turn.reused'' ''A completed logical chat turn was returned idempotently.'',
      core_event ''chat'' ''tool.activity'' ''An agent tool emitted live activity.'',
      core_event ''reasoning'' ''feature.started'' ''A declared Reason Tool feature started.'',
      core_event ''reasoning'' ''feature.completed'' ''A declared Reason Tool feature completed.'',
      core_event ''reasoning'' ''feature.failed'' ''A declared Reason Tool feature failed.'',
      core_event ''reasoning'' ''tool.activity'' ''A Reason Tool emitted live activity.'']"

fun event_register_all :: "RuntimeEventDefinition list \<Rightarrow> (EventDefinitionRegistry, unit) act" where
  "event_register_all [] = ret_act ()"
| "event_register_all (d # ds) = bind_act (event_register d) (\<lambda>_. event_register_all ds)"

text \<open>The composition: the core definitions, constructed where the module is loaded, then the extensions.\<close>

definition build_event_definition_registry :: "RuntimeEventDefinition list \<Rightarrow> EventDefinitionRegistry result" where
  "build_event_definition_registry extensions =
     bindE (mapE make_event_definition core_event_definitions) (\<lambda>core.
     bindE (make_registry ''runtime event'') (\<lambda>r.
     case event_register_all (core @ extensions) r of
       (Inl e, _) \<Rightarrow> Inl e
     | (Inr _, r') \<Rightarrow> Inr (dr_seal r')))"

definition event_definition_ok :: "RuntimeEventDefinition \<Rightarrow> bool" where
  "event_definition_ok d \<longleftrightarrow>
     identity_segment (ed_producer d) \<and> ed_description d \<noteq> ''''
     \<and> 2 \<le> length (split_on (CHR ''.'') (ed_name d)) \<and> list_all identity_segment (split_on (CHR ''.'') (ed_name d))"

lemma make_event_definition_iff: "make_event_definition d = Inr d' \<longleftrightarrow> d' = d \<and> event_definition_ok d"
  by (auto simp: make_event_definition_def event_definition_ok_def require_identity_segment_def
      require_runtime_event_name_def Let_def result_simps)

lemma core_definitions_made: "mapE make_event_definition core_event_definitions = Inr core_event_definitions"
proof -
  have "list_all event_definition_ok core_event_definitions"
    by (simp add: core_event_definitions_def core_event_def event_definition_ok_def identity_segment_def
        lower_char_def slug_char_def)
  then have "mapE make_event_definition core_event_definitions = Inr (map (\<lambda>d. d) core_event_definitions)"
    by (intro mapE_all_Inr) (simp add: list_all_iff make_event_definition_iff)
  then show ?thesis by simp
qed

lemma event_register_all_run:
  assumes "\<not> dr_sealed r"
  shows "fst (event_register_all ds r) =
      (if distinct (map event_key ds) \<and> set (map event_key ds) \<inter> fst ` set (dr_entries r) = {}
       then Inr () else Inl DuplicateEventDefinitionError)"
    and "fst (event_register_all ds r) = Inr () \<Longrightarrow>
      snd (event_register_all ds r) = r\<lparr>dr_entries := dr_entries r @ map (\<lambda>d. (event_key d, d)) ds\<rparr>"
proof -
  have "fst (event_register_all ds r) =
      (if distinct (map event_key ds) \<and> set (map event_key ds) \<inter> fst ` set (dr_entries r) = {}
       then Inr () else Inl DuplicateEventDefinitionError)
    \<and> (fst (event_register_all ds r) = Inr () \<longrightarrow>
      snd (event_register_all ds r) = r\<lparr>dr_entries := dr_entries r @ map (\<lambda>d. (event_key d, d)) ds\<rparr>)"
    using assms
  proof (induction ds arbitrary: r)
    case (Cons d ds)
    show ?case
    proof (cases "event_key d \<in> fst ` set (dr_entries r)")
      case True
      then show ?thesis using Cons.prems by (auto simp: bind_act_def event_register_def dr_register_def)
    next
      case False
      then have "event_register d r = (Inr (), r\<lparr>dr_entries := dr_entries r @ [(event_key d, d)]\<rparr>)"
        using Cons.prems by (simp add: event_register_def dr_register_def)
      with Cons.IH [of "r\<lparr>dr_entries := dr_entries r @ [(event_key d, d)]\<rparr>"] Cons.prems False
      show ?thesis by (auto simp: bind_act_Inr)
    qed
  qed simp
  then show "fst (event_register_all ds r) =
      (if distinct (map event_key ds) \<and> set (map event_key ds) \<inter> fst ` set (dr_entries r) = {}
       then Inr () else Inl DuplicateEventDefinitionError)"
    and "fst (event_register_all ds r) = Inr () \<Longrightarrow>
      snd (event_register_all ds r) = r\<lparr>dr_entries := dr_entries r @ map (\<lambda>d. (event_key d, d)) ds\<rparr>"
    by blast+
qed

text \<open>
  The composition of the event registry succeeds exactly if the extensions have pairwise
  different identities, none of them a core one. Then every core and extension event resolves to
  its own definition, no other identity resolves, and nothing can be registered any more.
\<close>

theorem event_registry_composition:
  "case build_event_definition_registry ext of
     Inr r \<Rightarrow> distinct (map event_key ext) \<and> set (map event_key ext) \<inter> set (map event_key core_event_definitions) = {}
       \<and> (\<forall>d \<in> set (core_event_definitions @ ext). event_resolve (ed_producer d) (ed_name d) r = Inr d)
       \<and> (\<forall>producer name. (producer, name) \<notin> event_key ` set (core_event_definitions @ ext) \<longrightarrow>
            event_resolve producer name r = Inl UnknownEventDefinitionError)
       \<and> (\<forall>d. event_register d r = (Inl EventDefinitionRegistrySealedError, r))
   | Inl e \<Rightarrow> e = DuplicateEventDefinitionError
       \<and> \<not> (distinct (map event_key ext) \<and> set (map event_key ext) \<inter> set (map event_key core_event_definitions) = {})"
proof -
  let ?all = "core_event_definitions @ ext"
  let ?fresh = "\<lparr>dr_entries = [], dr_sealed = False\<rparr> :: EventDefinitionRegistry"
  have core: "distinct (map event_key core_event_definitions)"
    by (simp add: core_event_definitions_def core_event_def event_key_def)
  have build: "build_event_definition_registry ext =
      (case event_register_all ?all ?fresh of (Inl e, _) \<Rightarrow> Inl e | (Inr _, r') \<Rightarrow> Inr (dr_seal r'))"
    by (simp add: build_event_definition_registry_def core_definitions_made make_registry_def)
  note run = event_register_all_run [of ?fresh ?all]
  show ?thesis
  proof (cases "distinct (map event_key ext) \<and> set (map event_key ext) \<inter> set (map event_key core_event_definitions) = {}")
    case False
    then have "fst (event_register_all ?all ?fresh) = Inl DuplicateEventDefinitionError" using run(1) core by auto
    then show ?thesis using False by (cases "event_register_all ?all ?fresh") (simp add: build)
  next
    case True
    then have d: "distinct (map event_key ?all)" using core by auto
    then have ok: "fst (event_register_all ?all ?fresh) = Inr ()" using run(1) by simp
    let ?r = "dr_seal (?fresh\<lparr>dr_entries := map (\<lambda>d. (event_key d, d)) ?all\<rparr>)"
    have r: "build_event_definition_registry ext = Inr ?r"
      using ok run(2) by (cases "event_register_all ?all ?fresh") (simp add: build)
    have dk: "distinct (map fst (map (\<lambda>d. (event_key d, d)) ?all))" using d by (simp add: comp_def)
    have e: "dr_entries ?r = map (\<lambda>d. (event_key d, d)) ?all" by (simp add: dr_seal_def)
    have look: "map_of (dr_entries ?r) (event_key d) = Some d" if "d \<in> set ?all" for d
      unfolding e by (rule map_of_is_SomeI [OF dk]) (use that in auto)
    have none: "map_of (dr_entries ?r) key = None" if "key \<notin> event_key ` set ?all" for key
      unfolding e using that by (simp only: map_of_eq_None_iff set_map image_image fst_conv not_False_eq_True)
    have sealed: "dr_sealed ?r" by (simp add: dr_seal_def)
    have "\<forall>d \<in> set ?all. event_resolve (ed_producer d) (ed_name d) ?r = Inr d"
      using look sealed by (simp add: event_resolve_def dr_resolve_def event_key_def)
    moreover have "\<forall>producer name. (producer, name) \<notin> event_key ` set ?all \<longrightarrow>
        event_resolve producer name ?r = Inl UnknownEventDefinitionError"
      using none sealed by (simp add: event_resolve_def dr_resolve_def)
    moreover have "\<forall>d. event_register d ?r = (Inl EventDefinitionRegistrySealedError, ?r)"
      using sealed by (simp add: event_register_def dr_register_def)
    ultimately show ?thesis unfolding r sum.case using True by blast
  qed
qed

lemma event_registry_composition_witness:
  "(\<exists>r. build_event_definition_registry [core_event ''memory'' ''entry.added'' ''An entry.''] = Inr r
      \<and> event_resolve ''chat'' ''turn.started'' r = Inr (core_event ''chat'' ''turn.started'' ''A logical chat turn started.''))
   \<and> build_event_definition_registry [core_event ''chat'' ''turn.started'' ''Again.''] = Inl DuplicateEventDefinitionError"
proof
  let ?new = "[core_event ''memory'' ''entry.added'' ''An entry.'']"
  have keys: "set (map event_key ?new) \<inter> set (map event_key core_event_definitions) = {}" "distinct (map event_key ?new)"
    by (simp_all add: core_event_definitions_def core_event_def event_key_def)
  then obtain r where r: "build_event_definition_registry ?new = Inr r"
    using event_registry_composition [of ?new] by (cases "build_event_definition_registry ?new") auto
  have "core_event ''chat'' ''turn.started'' ''A logical chat turn started.'' \<in> set core_event_definitions"
    by (simp add: core_event_definitions_def)
  then have "event_resolve ''chat'' ''turn.started'' r = Inr (core_event ''chat'' ''turn.started'' ''A logical chat turn started.'')"
    using event_registry_composition [of ?new] r by (force simp: core_event_def)
  with r show "\<exists>r. build_event_definition_registry ?new = Inr r
      \<and> event_resolve ''chat'' ''turn.started'' r = Inr (core_event ''chat'' ''turn.started'' ''A logical chat turn started.'')"
    by blast
  let ?old = "[core_event ''chat'' ''turn.started'' ''Again.'']"
  have "set (map event_key ?old) \<inter> set (map event_key core_event_definitions) \<noteq> {}"
    by (simp add: core_event_definitions_def core_event_def event_key_def)
  then show "build_event_definition_registry ?old = Inl DuplicateEventDefinitionError"
    using event_registry_composition [of ?old] by (cases "build_event_definition_registry ?old") auto
qed

section \<open>Job definitions\<close>

text \<open>
  The producers of a job definition are a set, here listed.
\<close>

record RuntimeJobDefinition =
  jd_name :: string
  jd_description :: string
  jd_producers :: "string list"
  jd_validator :: "(string \<Rightarrow> pydict \<Rightarrow> unit result) option"

definition make_job_definition :: "RuntimeJobDefinition \<Rightarrow> RuntimeJobDefinition result" where
  "make_job_definition d =
     bindE (require_runtime_event_name (PStr (jd_name d))) (\<lambda>_.
     bindE (raise_if (jd_description d = '''') (ValueError ''job definition description must not be empty'')) (\<lambda>_.
     bindE (raise_if (jd_producers d = []) (ValueError ''job definition requires at least one producer'')) (\<lambda>_.
     bindE (mapE (\<lambda>p. require_identity_segment (PStr p)) (jd_producers d)) (\<lambda>_. Inr d))))"

definition job_definition_validate :: "RuntimeJobDefinition \<Rightarrow> string \<Rightarrow> pydict \<Rightarrow> unit result" where
  "job_definition_validate d producer data =
     bindE (raise_if (producer \<notin> set (jd_producers d)) (ValueError ''runtime job producer is not allowed'')) (\<lambda>_.
       case jd_validator d of None \<Rightarrow> Inr () | Some check \<Rightarrow> check producer data)"

type_synonym JobDefinitionRegistry = "(string, RuntimeJobDefinition) DefinitionRegistry"

fun job_registry_error :: "exn \<Rightarrow> exn" where
  "job_registry_error DefinitionRegistrySealedError = JobDefinitionRegistrySealedError"
| "job_registry_error DuplicateDefinitionError = DuplicateJobDefinitionError"
| "job_registry_error DefinitionRegistryUnsealedError = JobDefinitionRegistryUnsealedError"
| "job_registry_error UnknownDefinitionError = UnknownJobDefinitionError"
| "job_registry_error e = e"

definition job_register :: "RuntimeJobDefinition \<Rightarrow> (JobDefinitionRegistry, unit) act" where
  "job_register d r = (case dr_register jd_name d r of (out, r') \<Rightarrow> (translate job_registry_error out, r'))"

definition job_resolve :: "string \<Rightarrow> JobDefinitionRegistry \<Rightarrow> RuntimeJobDefinition result" where
  "job_resolve name r = translate job_registry_error (dr_resolve name r)"

definition job_validate :: "JobDefinitionRegistry \<Rightarrow> JobMessage \<Rightarrow> unit result" where
  "job_validate r m =
     bindE (raise_if (\<not> dr_sealed r) JobDefinitionRegistryUnsealedError) (\<lambda>_.
     bindE (job_resolve (env_name (jm_envelope m)) r) (\<lambda>d.
       job_definition_validate d (env_producer (jm_envelope m)) (mapping_fields (job_data (jm_payload m)))))"

text \<open>
  \<open>create\<close>: \<open>amb\<close> is the ambient context, \<open>message_id\<close> and \<open>now\<close> are what \<open>uuid4\<close> and the clock
  give to the new envelope.
\<close>

definition job_create ::
  "iso_parser \<Rightarrow> RuntimeContext option \<Rightarrow> string \<Rightarrow> string \<Rightarrow> JobDefinitionRegistry \<Rightarrow> string \<Rightarrow> string \<Rightarrow> string \<Rightarrow> string
   \<Rightarrow> pydict option \<Rightarrow> JobMessage result" where
  "job_create fromiso amb message_id now r name producer job_id resource_id payload =
     bindE (raise_if (\<not> dr_sealed r) JobDefinitionRegistryUnsealedError) (\<lambda>_.
     bindE (make_context ((current_runtime_context amb)\<lparr>ctx_job_id := Some job_id\<rparr>)) (\<lambda>context.
     bindE (make_job_payload \<lparr>job_resource_id = resource_id,
              job_data = PDict (case payload of None \<Rightarrow> [] | Some d \<Rightarrow> d)\<rparr>) (\<lambda>p.
     bindE (make_envelope fromiso
              \<lparr>env_kind = ''job'', env_name = name, env_producer = producer, env_message_id = message_id,
               env_schema_version = runtime_schema_version, env_created_at = now, env_context = context,
               env_payload = PDict (job_payload_to_mapping p)\<rparr>) (\<lambda>env.
     bindE (make_job_message env) (\<lambda>m.
     bindE (job_validate r m) (\<lambda>_. Inr m))))))"

fun job_register_all :: "RuntimeJobDefinition list \<Rightarrow> (JobDefinitionRegistry, unit) act" where
  "job_register_all [] = ret_act ()"
| "job_register_all (d # ds) = bind_act (job_register d) (\<lambda>_. job_register_all ds)"

definition build_job_definition_registry :: "RuntimeJobDefinition list \<Rightarrow> JobDefinitionRegistry result" where
  "build_job_definition_registry ds =
     bindE (make_registry ''runtime job'') (\<lambda>r.
       case job_register_all ds r of (Inl e, _) \<Rightarrow> Inl e | (Inr _, r') \<Rightarrow> Inr (dr_seal r'))"

text \<open>
  A job that the registry creates is authorised: its name is registered and its producer
  allowed. It carries the given job and resource identifiers in the ambient context and a frozen
  copy of the payload; and it survives the queue: its envelope is restored from its record, and
  the job message is restored from the envelope.
\<close>

theorem job_create_spec:
  assumes "job_create fromiso amb message_id now r name producer job_id resource_id payload = Inr m"
  shows "(\<exists>d. job_resolve name r = Inr d \<and> producer \<in> set (jd_producers d))
    \<and> env_context (jm_envelope m) = (current_runtime_context amb)\<lparr>ctx_job_id := Some job_id\<rparr>
    \<and> job_resource_id (jm_payload m) = resource_id
    \<and> freeze (PDict (case payload of None \<Rightarrow> [] | Some d \<Rightarrow> d)) = Inr (job_data (jm_payload m))
    \<and> envelope_from_record fromiso (envelope_to_record (jm_envelope m)) = Inr (jm_envelope m)
    \<and> make_job_message (jm_envelope m) = Inr m"
proof -
  let ?ctx = "(current_runtime_context amb)\<lparr>ctx_job_id := Some job_id\<rparr>"
  let ?p = "\<lparr>job_resource_id = resource_id, job_data = PDict (case payload of None \<Rightarrow> [] | Some d \<Rightarrow> d)\<rparr>"
  let ?x = "\<lparr>env_kind = ''job'', env_name = name, env_producer = producer, env_message_id = message_id,
      env_schema_version = runtime_schema_version, env_created_at = now, env_context = ?ctx,
      env_payload = PDict (job_payload_to_mapping ?p)\<rparr>"
  obtain env where ctx: "context_valid ?ctx" and env: "make_envelope fromiso ?x = Inr env"
    and m: "make_job_message env = Inr m" and v: "job_validate r m = Inr ()"
    using assms by (auto simp: job_create_def make_context_def make_job_payload_def result_simps split: if_splits)
  from env obtain pl where pl: "freeze (PDict (job_payload_to_mapping ?p)) = Inr pl" "env = ?x\<lparr>env_payload := pl\<rparr>"
    by (auto simp: make_envelope_def result_simps)
  then obtain f where f: "freeze (job_data ?p) = Inr f"
      "pl = PProxy [(''resource_id'', PStr resource_id), (''data'', f)]"
    by (auto simp: job_payload_to_mapping_def result_simps)
  have e: "jm_envelope m = env" "jm_payload m = \<lparr>job_resource_id = resource_id, job_data = f\<rparr>"
    using m f(2) by (auto simp: make_job_message_def job_payload_from_mapping_def make_job_payload_def
        mapping_fields_def pl(2) result_simps)
  have "\<exists>d. job_resolve name r = Inr d \<and> producer \<in> set (jd_producers d)"
    using v by (auto simp: job_validate_def job_definition_validate_def e pl(2) result_simps)
  moreover have "envelope_from_record fromiso (envelope_to_record env) = Inr env"
    using envelope_reload [OF env] ctx by simp
  ultimately show ?thesis using e m f pl(2) by simp
qed

definition sample_job_registry :: JobDefinitionRegistry where
  "sample_job_registry = \<lparr>dr_entries = [(''reason.export'', \<lparr>jd_name = ''reason.export'', jd_description = ''Export.'',
     jd_producers = [''reason''], jd_validator = None\<rparr>)], dr_sealed = True\<rparr>"

lemma job_create_spec_witness:
  "\<exists>m. job_create sample_iso None ''m1'' ''2026-01-01T00:00:00+00:00'' sample_job_registry ''reason.export'' ''reason'' ''j1'' ''r1''
        (Some [(''pages'', PList [PInt 1])]) = Inr m
     \<and> job_data (jm_payload m) = PProxy [(''pages'', PTuple [PInt 1])]"
proof -
  let ?run = "job_create sample_iso None ''m1'' ''2026-01-01T00:00:00+00:00'' sample_job_registry ''reason.export'' ''reason'' ''j1'' ''r1''
      (Some [(''pages'', PList [PInt 1])])"
  have "\<exists>m. ?run = Inr m"
    by (simp add: job_create_def sample_job_registry_def make_context_def context_valid_def context_pairs_def
        current_runtime_context_def empty_context_def make_job_payload_def make_envelope_def message_kinds_def
        runtime_schema_version_def job_payload_to_mapping_def make_job_message_def mapping_fields_def
        job_payload_from_mapping_def exact_fields_def job_validate_def job_resolve_def dr_resolve_def
        job_definition_validate_def aware_def sample_iso_def blank_def py_space_def)
  then obtain m where m: "?run = Inr m" ..
  from job_create_spec [OF m] m show ?thesis by (auto simp: result_simps)
qed

section \<open>Handler registries\<close>

text \<open>
  A handler maps its argument to what it answers; a middleware gets the key, the next handler and
  the argument. Keys are strings, as in every registry of the program.
\<close>

type_synonym ('a, 'r) middleware = "string \<Rightarrow> ('a \<Rightarrow> 'r) \<Rightarrow> 'a \<Rightarrow> 'r"

record ('a, 'r) HandlerRegistry =
  hr_handlers :: "(string \<times> ('a \<Rightarrow> 'r)) list"
  hr_middleware :: "('a, 'r) middleware list"
  hr_sealed :: bool
  hr_dispatch_handlers :: "(string \<times> ('a \<Rightarrow> 'r)) list option"

definition make_handler_registry :: "('a, 'r) middleware list \<Rightarrow> ('a, 'r) HandlerRegistry" where
  "make_handler_registry middleware =
     \<lparr>hr_handlers = [], hr_middleware = middleware, hr_sealed = False, hr_dispatch_handlers = None\<rparr>"

definition hr_register :: "string \<Rightarrow> ('a \<Rightarrow> 'r) \<Rightarrow> (('a, 'r) HandlerRegistry, unit) act" where
  "hr_register key h r =
     (if hr_sealed r then (Inl HandlerRegistrySealedError, r)
      else if key \<in> fst ` set (hr_handlers r) then (Inl DuplicateHandlerError, r)
      else (Inr (), r\<lparr>hr_handlers := hr_handlers r @ [(key, h)]\<rparr>))"

definition hr_use :: "('a, 'r) middleware \<Rightarrow> (('a, 'r) HandlerRegistry, unit) act" where
  "hr_use m r =
     (if hr_sealed r then (Inl HandlerRegistrySealedError, r)
      else (Inr (), r\<lparr>hr_middleware := hr_middleware r @ [m]\<rparr>))"

definition wrap_handler :: "string \<Rightarrow> ('a, 'r) middleware \<Rightarrow> ('a \<Rightarrow> 'r) \<Rightarrow> 'a \<Rightarrow> 'r" where
  "wrap_handler key m next_handler = (\<lambda>a. m key next_handler a)"

text \<open>The loop \<open>for wrapper in reversed(self._middleware)\<close> around one handler.\<close>

definition wrap_all :: "('a, 'r) middleware list \<Rightarrow> string \<Rightarrow> ('a \<Rightarrow> 'r) \<Rightarrow> 'a \<Rightarrow> 'r" where
  "wrap_all ms key h = foldl (\<lambda>handler m. wrap_handler key m handler) h (rev ms)"

text \<open>The coverage error carries the missing and the extra keys, in order and without repetition.\<close>

definition key_difference :: "string list \<Rightarrow> string list \<Rightarrow> string list" where
  "key_difference xs ys = sort (remdups (filter (\<lambda>k. k \<notin> set ys) xs))"

definition hr_seal :: "string list option \<Rightarrow> (('a, 'r) HandlerRegistry, unit) act" where
  "hr_seal expected_keys r =
     (let actual = map fst (hr_handlers r);
          missing = (case expected_keys of None \<Rightarrow> [] | Some expected \<Rightarrow> key_difference expected actual);
          extra = (case expected_keys of None \<Rightarrow> [] | Some expected \<Rightarrow> key_difference actual expected) in
      if missing \<noteq> [] \<or> extra \<noteq> [] then (Inl (HandlerRegistryCoverageError missing extra), r)
      else if hr_sealed r then (Inr (), r)
      else (Inr (), r\<lparr>hr_dispatch_handlers :=
                        Some (map (\<lambda>(key, h). (key, wrap_all (hr_middleware r) key h)) (hr_handlers r)),
                      hr_sealed := True\<rparr>))"

definition hr_resolve :: "string \<Rightarrow> ('a, 'r) HandlerRegistry \<Rightarrow> ('a \<Rightarrow> 'r) result" where
  "hr_resolve key r =
     (if hr_sealed r then Inl HandlerRegistrySealedError
      else case map_of (hr_handlers r) key of None \<Rightarrow> Inl UnknownHandlerError | Some h \<Rightarrow> Inr h)"

definition hr_dispatch :: "string \<Rightarrow> 'a \<Rightarrow> ('a, 'r) HandlerRegistry \<Rightarrow> 'r result" where
  "hr_dispatch key a r =
     (case hr_dispatch_handlers r of
        None \<Rightarrow> Inl HandlerRegistryUnsealedError
      | Some hs \<Rightarrow> (case map_of hs key of None \<Rightarrow> Inl UnknownHandlerError | Some h \<Rightarrow> Inr (h a)))"

inductive hr_step :: "('a, 'r) HandlerRegistry \<Rightarrow> ('a, 'r) HandlerRegistry \<Rightarrow> bool" where
  HrRegister: "hr_step r (snd (hr_register key h r))"
| HrUse: "hr_step r (snd (hr_use m r))"
| HrSeal: "hr_step r (snd (hr_seal expected r))"

inductive_cases hr_stepE: "hr_step r r'"

text \<open>The onion of a list of middlewares around a handler: the first one is the outermost.\<close>

fun onion :: "('a, 'r) middleware list \<Rightarrow> string \<Rightarrow> ('a \<Rightarrow> 'r) \<Rightarrow> 'a \<Rightarrow> 'r" where
  "onion [] key h a = h a"
| "onion (m # ms) key h a = m key (onion ms key h) a"

lemma wrap_all_onion: "wrap_all ms key h = onion ms key h"
proof (induction ms)
  case (Cons m ms)
  have "wrap_all (m # ms) key h = m key (wrap_all ms key h)"
    by (simp add: wrap_all_def wrap_handler_def)
  then have "wrap_all (m # ms) key h = m key (onion ms key h)" by (simp only: Cons)
  then show ?case by (intro ext) simp
qed (simp add: wrap_all_def fun_eq_iff)

lemma hr_steps_snoc: "hr_step\<^sup>*\<^sup>* r s \<Longrightarrow> hr_step s s' \<Longrightarrow> hr_step\<^sup>*\<^sup>* r s'"
  by (rule rtranclp.rtrancl_into_rtrancl)

definition hr_inv :: "('a, 'r) HandlerRegistry \<Rightarrow> bool" where
  "hr_inv r \<longleftrightarrow> distinct (map fst (hr_handlers r)) \<and>
     hr_dispatch_handlers r =
       (if hr_sealed r then Some (map (\<lambda>(key, h). (key, wrap_all (hr_middleware r) key h)) (hr_handlers r)) else None)"

lemma hr_inv_init: "hr_inv (make_handler_registry ms)"
  by (simp add: hr_inv_def make_handler_registry_def)

lemma hr_inv_step: "hr_step r r' \<Longrightarrow> hr_inv r \<Longrightarrow> hr_inv r'"
  by (erule hr_stepE) (auto simp: hr_inv_def hr_register_def hr_use_def hr_seal_def Let_def)

lemma hr_reachable_inv: "hr_step\<^sup>*\<^sup>* (make_handler_registry ms) r \<Longrightarrow> hr_inv r"
  by (induction rule: rtranclp_induct) (auto intro: hr_inv_init hr_inv_step)

lemma hr_sealed_step: "hr_step r r' \<Longrightarrow> hr_sealed r \<Longrightarrow> r' = r"
  by (erule hr_stepE) (auto simp: hr_register_def hr_use_def hr_seal_def Let_def)

lemma hr_sealed_steps: "hr_step\<^sup>*\<^sup>* r r' \<Longrightarrow> hr_sealed r \<Longrightarrow> r' = r"
  by (induction rule: rtranclp_induct) (auto dest: hr_sealed_step)

lemma key_difference_Nil: "key_difference xs ys = [] \<longleftrightarrow> set xs \<subseteq> set ys"
proof -
  have "sort zs = [] \<longleftrightarrow> zs = []" for zs :: "string list"
    by (metis length_0_conv length_sort)
  then show ?thesis by (auto simp: key_difference_def filter_empty_conv)
qed

text \<open>
  In every reachable registry, dispatch is refused until it is sealed and then runs, for exactly
  the registered keys, the registered handler inside its middlewares, the one added first
  outermost. Sealing against a closed catalog succeeds exactly if the registered keys are the
  catalog, and keeps handlers and middlewares; once sealed, no operation changes anything.
\<close>

theorem sealed_dispatch:
  assumes "hr_step\<^sup>*\<^sup>* (make_handler_registry ms) r"
  shows "(\<forall>key a. hr_dispatch key a r =
      (if \<not> hr_sealed r then Inl HandlerRegistryUnsealedError
       else case map_of (hr_handlers r) key of
         None \<Rightarrow> Inl UnknownHandlerError
       | Some h \<Rightarrow> Inr (onion (hr_middleware r) key h a)))
    \<and> (hr_sealed r \<longrightarrow> (\<forall>later. hr_step\<^sup>*\<^sup>* r later \<longrightarrow> later = r))
    \<and> (case hr_seal (Some catalog) r of
         (Inl e, r') \<Rightarrow> r' = r \<and> set catalog \<noteq> set (map fst (hr_handlers r))
       | (Inr _, r') \<Rightarrow> set catalog = set (map fst (hr_handlers r)) \<and> hr_sealed r'
           \<and> hr_handlers r' = hr_handlers r \<and> hr_middleware r' = hr_middleware r)"
proof (intro conjI allI impI)
  note inv = hr_reachable_inv [OF assms, unfolded hr_inv_def]
  show "hr_dispatch key a r = (if \<not> hr_sealed r then Inl HandlerRegistryUnsealedError
       else case map_of (hr_handlers r) key of
         None \<Rightarrow> Inl UnknownHandlerError
       | Some h \<Rightarrow> Inr (onion (hr_middleware r) key h a))" for key a
    using inv by (simp add: hr_dispatch_def lookup_map_rows wrap_all_onion split: option.splits)
  show "later = r" if "hr_sealed r" "hr_step\<^sup>*\<^sup>* r later" for later
    using hr_sealed_steps that by blast
  show "case hr_seal (Some catalog) r of
         (Inl e, r') \<Rightarrow> r' = r \<and> set catalog \<noteq> set (map fst (hr_handlers r))
       | (Inr _, r') \<Rightarrow> set catalog = set (map fst (hr_handlers r)) \<and> hr_sealed r'
           \<and> hr_handlers r' = hr_handlers r \<and> hr_middleware r' = hr_middleware r"
    by (auto simp: hr_seal_def Let_def key_difference_Nil)
qed

definition upper_middleware :: "(int, int list) middleware" where
  "upper_middleware key next_handler a = [100] @ next_handler (a + 1) @ [101]"

definition lower_middleware :: "(int, int list) middleware" where
  "lower_middleware key next_handler a = [200] @ next_handler (a * 2) @ [201]"

definition sample_handlers :: "(int, int list) HandlerRegistry" where
  "sample_handlers = snd (hr_use lower_middleware
     (snd (hr_register ''chat'' (\<lambda>a. [a]) (make_handler_registry [upper_middleware]))))"

lemma sealed_dispatch_witness:
  "hr_dispatch ''chat'' 3 (snd (hr_seal (Some [''chat'']) sample_handlers)) = Inr [100, 200, 8, 201, 101]"
proof -
  let ?sealed = "snd (hr_seal (Some [''chat'']) sample_handlers)"
  have "hr_step\<^sup>*\<^sup>* (make_handler_registry [upper_middleware]) ?sealed"
    unfolding sample_handlers_def
    by (intro hr_steps_snoc [OF _ hr_step.HrSeal] hr_steps_snoc [OF _ hr_step.HrUse]
        hr_steps_snoc [OF _ hr_step.HrRegister] rtranclp.rtrancl_refl)
  from sealed_dispatch [OF this] have "hr_dispatch ''chat'' 3 ?sealed =
      (if \<not> hr_sealed ?sealed then Inl HandlerRegistryUnsealedError
       else case map_of (hr_handlers ?sealed) ''chat'' of
         None \<Rightarrow> Inl UnknownHandlerError
       | Some h \<Rightarrow> Inr (onion (hr_middleware ?sealed) ''chat'' h 3))" by blast
  then show ?thesis
    by (simp add: sample_handlers_def hr_seal_def hr_use_def hr_register_def make_handler_registry_def Let_def
        key_difference_def upper_middleware_def lower_middleware_def)
qed

end
