(* ===== verification/EventBus.thy ===== *)
theory EventBus
  imports Registries
begin

text \<open>
  Steps that run in isolation of one another's failures: the lifecycle cleanup of
  \<open>runtime/cleanup.py\<close>, the cancellation token of \<open>runtime/execution.py\<close> and the event publisher of
  \<open>runtime/event/publisher.py\<close>. Steps, closers and projections act on a state of their own; that
  they change the publisher or the token that runs them is left out.
\<close>

section \<open>Isolated steps\<close>

text \<open>Attempt every named step once, in order, and keep the failures with their names.\<close>

fun run_isolated :: "('i \<times> ('s, unit) act) list \<Rightarrow> 's \<Rightarrow> ('i \<times> exn) list \<times> 's" where
  "run_isolated [] s = ([], s)"
| "run_isolated ((i, m) # ms) s =
     (case m s of
        (Inl e, t) \<Rightarrow> (case run_isolated ms t of (failures, u) \<Rightarrow> ((i, e) # failures, u))
      | (Inr _, t) \<Rightarrow> run_isolated ms t)"

definition run_cleanup_steps :: "(string \<times> ('s, unit) act) list \<Rightarrow> 's \<Rightarrow> (string \<times> exn) list \<times> 's" where
  "run_cleanup_steps steps = run_isolated steps"

text \<open>The state in which each step runs, and what then fails, read off step by step.\<close>

definition after_steps :: "('i \<times> ('s, unit) act) list \<Rightarrow> 's \<Rightarrow> 's" where
  "after_steps ms s = foldl (\<lambda>s m. snd (snd m s)) s ms"

definition failed :: "'i \<Rightarrow> unit result \<Rightarrow> ('i \<times> exn) list" where
  "failed i r = (case r of Inl e \<Rightarrow> [(i, e)] | Inr _ \<Rightarrow> [])"

definition failures_of :: "('i \<times> ('s, unit) act) list \<Rightarrow> 's \<Rightarrow> ('i \<times> exn) list" where
  "failures_of ms s =
     concat (map (\<lambda>k. failed (fst (ms ! k)) (fst (snd (ms ! k) (after_steps (take k ms) s)))) [0..<length ms])"

lemma failed_simps [simp]: "failed i (Inl e) = [(i, e)]" "failed i (Inr u) = []"
  by (simp_all add: failed_def)

lemma failed_eq_Nil: "failed i r = [] \<longleftrightarrow> r = Inr ()"
  by (cases r) simp_all

lemma after_steps_simps [simp]:
  "after_steps [] s = s"
  "after_steps (m # ms) s = after_steps ms (snd (snd m s))"
  by (simp_all add: after_steps_def)

lemma failures_of_Cons:
  "failures_of (m # ms) s = failed (fst m) (fst (snd m s)) @ failures_of ms (snd (snd m s))"
proof -
  have "[0..<length (m # ms)] = 0 # map Suc [0..<length ms]"
    by (simp add: upt_conv_Cons map_Suc_upt del: upt_Suc)
  then show ?thesis by (simp add: failures_of_def comp_def del: upt_Suc)
qed

lemma run_isolated_eq: "run_isolated ms s = (failures_of ms s, after_steps ms s)"
proof (induction ms arbitrary: s)
  case (Cons m ms)
  obtain i f where m: "m = (i, f)" by fastforce
  obtain r t where f: "f s = (r, t)" by fastforce
  with Cons [of t] m show ?case by (cases r) (simp_all add: failures_of_Cons)
qed (simp add: failures_of_def)

lemma failures_of_names: "set (map fst (failures_of ms s)) \<subseteq> set (map fst ms)"
proof (induction ms arbitrary: s)
  case (Cons m ms)
  from Cons [of "snd (snd m s)"] show ?case by (auto simp: failures_of_Cons failed_def split: sum.splits)
qed (simp add: failures_of_def)

lemma failures_of_Nil: "failures_of ms s = [] \<longleftrightarrow>
    (\<forall>k < length ms. fst (snd (ms ! k) (after_steps (take k ms) s)) = Inr ())"
  by (auto simp: failures_of_def failed_eq_Nil)

section \<open>Cancellation\<close>

record 'c CancellationToken =
  ct_cancelled :: bool
  ct_callbacks :: "'c list"

definition new_token :: "'c CancellationToken" where
  "new_token = \<lparr>ct_cancelled = False, ct_callbacks = []\<rparr>"

definition token_cancel :: "('c \<Rightarrow> ('s, unit) act) \<Rightarrow> ('c CancellationToken \<times> 's, bool) act" where
  "token_cancel close = (\<lambda>(tok, s).
     if ct_cancelled tok then (Inr False, (tok, s))
     else (case run_isolated (map (\<lambda>c. (c, close c)) (ct_callbacks tok)) s of (failures, t) \<Rightarrow>
       (if failures \<noteq> [] then Inl (CancellationCleanupError (map snd failures)) else Inr True,
        (tok\<lparr>ct_cancelled := True, ct_callbacks := []\<rparr>, t))))"

text \<open>On a cancelled token the closer runs at once, and what it raises escapes.\<close>

definition token_register :: "('c \<Rightarrow> ('s, unit) act) \<Rightarrow> 'c \<Rightarrow> ('c CancellationToken \<times> 's, unit) act" where
  "token_register close c = (\<lambda>(tok, s).
     if \<not> ct_cancelled tok then (Inr (), (tok\<lparr>ct_callbacks := ct_callbacks tok @ [c]\<rparr>, s))
     else (case close c s of (r, t) \<Rightarrow> (r, (tok, t))))"

text \<open>The removal callback; the one that a cancelled token returns does nothing.\<close>

definition token_discard :: "'c \<Rightarrow> 'c CancellationToken \<times> 's \<Rightarrow> 'c CancellationToken \<times> 's" where
  "token_discard c = (\<lambda>(tok, s). (tok\<lparr>ct_callbacks := remove1 c (ct_callbacks tok)\<rparr>, s))"

text \<open>A closer that notes that it ran and then may fail.\<close>

definition logging_close :: "('c \<Rightarrow> exn option) \<Rightarrow> 'c \<Rightarrow> ('c list, unit) act" where
  "logging_close broken c trail = (case broken c of None \<Rightarrow> Inr () | Some e \<Rightarrow> Inl e, trail @ [c])"

inductive token_step :: "('c \<Rightarrow> exn option) \<Rightarrow> 'c CancellationToken \<times> 'c list \<Rightarrow> 'c list \<times> 'c list
    \<Rightarrow> 'c CancellationToken \<times> 'c list \<Rightarrow> 'c list \<times> 'c list \<Rightarrow> bool" for broken where
  TokRegister: "c \<notin> set given \<Longrightarrow>
    token_step broken st (given, gone) (snd (token_register (logging_close broken) c st)) (given @ [c], gone)"
| TokDiscard: "c \<in> set given \<Longrightarrow>
    token_step broken st (given, gone) (token_discard c st)
      (given, if c \<in> set (ct_callbacks (fst st)) then gone @ [c] else gone)"
| TokCancel: "token_step broken st book (snd (token_cancel (logging_close broken) st)) book"

inductive token_run :: "('c \<Rightarrow> exn option) \<Rightarrow> 'c CancellationToken \<times> 'c list \<Rightarrow> 'c list \<times> 'c list \<Rightarrow> bool" for broken where
  TokStart: "token_run broken (new_token, []) ([], [])"
| TokStep: "token_run broken st book \<Longrightarrow> token_step broken st book st' book' \<Longrightarrow> token_run broken st' book'"

lemma run_closers:
  "after_steps (map (\<lambda>c. (c, logging_close broken c)) cs) trail = trail @ cs"
  "failures_of (map (\<lambda>c. (c, logging_close broken c)) cs) trail =
     concat (map (\<lambda>c. case broken c of None \<Rightarrow> [] | Some e \<Rightarrow> [(c, e)]) cs)"
proof -
  show "after_steps (map (\<lambda>c. (c, logging_close broken c)) cs) trail = trail @ cs"
    by (induction cs arbitrary: trail) (simp_all add: logging_close_def)
  show "failures_of (map (\<lambda>c. (c, logging_close broken c)) cs) trail =
      concat (map (\<lambda>c. case broken c of None \<Rightarrow> [] | Some e \<Rightarrow> [(c, e)]) cs)"
  proof (induction cs arbitrary: trail)
    case (Cons c cs)
    then show ?case by (simp add: failures_of_Cons logging_close_def split: option.splits)
  qed (simp add: failures_of_def)
qed

definition token_inv :: "'c CancellationToken \<times> 'c list \<Rightarrow> 'c list \<times> 'c list \<Rightarrow> bool" where
  "token_inv st book \<longleftrightarrow>
     distinct (fst book) \<and> distinct (snd book @ ct_callbacks (fst st) @ snd st)
     \<and> set (fst book) = set (snd book @ ct_callbacks (fst st) @ snd st)
     \<and> (if ct_cancelled (fst st) then ct_callbacks (fst st) = [] else snd st = [])"

lemma token_inv_step:
  assumes "token_step broken st book st' book'" and "token_inv st book"
  shows "token_inv st' book'"
  using assms
proof (cases rule: token_step.cases)
  case (TokRegister c given gone)
  then show ?thesis using assms(2)
    by (cases st) (auto simp: token_inv_def token_register_def logging_close_def split: if_splits)
next
  case (TokDiscard c given gone)
  then show ?thesis using assms(2)
    by (cases st) (auto simp: token_inv_def token_discard_def remove1_idem)
next
  case TokCancel
  then show ?thesis using assms(2)
    by (cases st) (auto simp: token_inv_def token_cancel_def run_isolated_eq run_closers split: if_splits)
qed

lemma token_run_inv: "token_run broken st book \<Longrightarrow> token_inv st book"
proof (induction rule: token_run.induct)
  case TokStart
  then show ?case by (simp add: token_inv_def new_token_def)
next
  case (TokStep st book st' book')
  then show ?case by (blast intro: token_inv_step)
qed

text \<open>
  However a token is used and whichever closers raise, a closer never runs before the
  cancellation and never twice; after it, exactly the closers that were registered and not
  discarded in time have run; and only one request cancels, all later ones answer \<open>False\<close>.
\<close>

theorem cancellation_once:
  assumes "token_run broken (tok, trail) (given, gone)"
  shows "distinct trail \<and> set trail \<subseteq> set given - set gone
    \<and> (if ct_cancelled tok then set trail = set given - set gone else trail = [])
    \<and> fst (token_cancel (logging_close broken) (tok, trail)) =
        (if ct_cancelled tok then Inr False
         else if \<exists>c \<in> set (ct_callbacks tok). broken c \<noteq> None
         then Inl (CancellationCleanupError (List.map_filter broken (ct_callbacks tok)))
         else Inr True)"
proof -
  have inv: "token_inv (tok, trail) (given, gone)" using assms by (rule token_run_inv)
  have errors: "map snd (concat (map (\<lambda>c. case broken c of None \<Rightarrow> [] | Some e \<Rightarrow> [(c, e)]) cs)) = List.map_filter broken cs" for cs
    by (induction cs) (auto simp: List.map_filter_simps split: option.splits)
  have none: "concat (map (\<lambda>c. case broken c of None \<Rightarrow> [] | Some e \<Rightarrow> [(c, e)]) cs) = [] \<longleftrightarrow> (\<forall>c \<in> set cs. broken c = None)" for cs
    by (auto split: option.splits)
  have "fst (token_cancel (logging_close broken) (tok, trail)) =
      (if ct_cancelled tok then Inr False
       else if \<exists>c \<in> set (ct_callbacks tok). broken c \<noteq> None
       then Inl (CancellationCleanupError (List.map_filter broken (ct_callbacks tok)))
       else Inr True)"
    by (auto simp only: token_cancel_def run_isolated_eq run_closers errors none prod.case fst_conv split: if_split)
  moreover have "distinct trail \<and> set trail \<subseteq> set given - set gone
      \<and> (if ct_cancelled tok then set trail = set given - set gone else trail = [])"
    using inv by (auto simp: token_inv_def split: if_splits)
  ultimately show ?thesis by blast
qed

section \<open>The event publisher\<close>

type_synonym 's projection = "RuntimeEnvelope \<Rightarrow> ('s, unit) act"

record 's EventPublisher =
  pub_definitions :: EventDefinitionRegistry
  pub_id :: string
  pub_next_id :: nat
  pub_projections :: "(nat \<times> (string \<times> string) option \<times> 's projection) list"

record EventProjectionHandle =
  ph_publisher_id :: string
  ph_projection_id :: nat

definition make_publisher :: "string \<Rightarrow> EventDefinitionRegistry \<Rightarrow> 's EventPublisher result" where
  "make_publisher uuid definitions =
     bindE (event_require_sealed definitions) (\<lambda>_.
       Inr \<lparr>pub_definitions = definitions, pub_id = uuid, pub_next_id = 1, pub_projections = []\<rparr>)"

definition attach_projection ::
  "'s projection \<Rightarrow> string option \<Rightarrow> string option \<Rightarrow> ('s EventPublisher, EventProjectionHandle) act" where
  "attach_projection projection producer name pub =
     (case bindE (raise_if ((producer = None) \<noteq> (name = None))
                    (ValueError ''event projection producer and name must be supplied together'')) (\<lambda>_.
             case (producer, name) of
               (Some p, Some n) \<Rightarrow> bindE (event_resolve p n (pub_definitions pub)) (\<lambda>_. Inr (Some (p, n)))
             | _ \<Rightarrow> Inr None) of
        Inl e \<Rightarrow> (Inl e, pub)
      | Inr selector \<Rightarrow>
          (Inr \<lparr>ph_publisher_id = pub_id pub, ph_projection_id = pub_next_id pub\<rparr>,
           pub\<lparr>pub_next_id := pub_next_id pub + 1,
               pub_projections := pub_projections pub @ [(pub_next_id pub, selector, projection)]\<rparr>))"

definition detach_projection :: "EventProjectionHandle \<Rightarrow> ('s EventPublisher, bool) act" where
  "detach_projection h pub =
     (if ph_publisher_id h \<noteq> pub_id pub then (Inr False, pub)
      else (Inr (map_of (pub_projections pub) (ph_projection_id h) \<noteq> None),
            pub\<lparr>pub_projections := filter (\<lambda>p. fst p \<noteq> ph_projection_id h) (pub_projections pub)\<rparr>))"

definition selected :: "RuntimeEnvelope \<Rightarrow> (string \<times> string) option \<Rightarrow> bool" where
  "selected event selector \<longleftrightarrow> selector = None \<or> selector = Some (env_producer event, env_name event)"

definition matching :: "'s EventPublisher \<Rightarrow> RuntimeEnvelope \<Rightarrow> (nat \<times> ('s, unit) act) list" where
  "matching pub event =
     map (\<lambda>(i, selector, projection). (i, projection event))
       (filter (\<lambda>(i, selector, projection). selected event selector) (pub_projections pub))"

definition deliver_validated_envelope :: "'s EventPublisher \<Rightarrow> RuntimeEnvelope \<Rightarrow> ('s, unit) act" where
  "deliver_validated_envelope pub event s =
     (case run_isolated (matching pub event) s of (failures, t) \<Rightarrow>
        (if failures \<noteq> [] then Inl (EventDeliveryError failures) else Inr (), t))"

definition publish_envelope :: "'s EventPublisher \<Rightarrow> RuntimeEnvelope \<Rightarrow> ('s, unit) act" where
  "publish_envelope pub event =
     bind_act (lift_act (\<lambda>_. raise_if (env_kind event \<noteq> ''event'')
                 (ValueError ''event publisher requires an event envelope''))) (\<lambda>_.
     bind_act (lift_act (\<lambda>_. event_resolve (env_producer event) (env_name event) (pub_definitions pub))) (\<lambda>d.
     bind_act (lift_act (\<lambda>_. event_validate_payload d (mapping_fields (env_payload event)))) (\<lambda>_.
       deliver_validated_envelope pub event)))"

definition publish_event ::
  "iso_parser \<Rightarrow> RuntimeContext option \<Rightarrow> string \<Rightarrow> string \<Rightarrow> 's EventPublisher \<Rightarrow> string \<Rightarrow> string \<Rightarrow> pydict option
   \<Rightarrow> ('s, RuntimeEnvelope) act" where
  "publish_event fromiso amb message_id now pub name producer payload =
     bind_act (lift_act (\<lambda>_. event_resolve producer name (pub_definitions pub))) (\<lambda>d.
     bind_act (lift_act (\<lambda>_. make_envelope fromiso
         \<lparr>env_kind = ''event'', env_name = name, env_producer = producer, env_message_id = message_id,
          env_schema_version = runtime_schema_version, env_created_at = now,
          env_context = current_runtime_context amb,
          env_payload = PDict (case payload of None \<Rightarrow> [] | Some p \<Rightarrow> p)\<rparr>)) (\<lambda>event.
     bind_act (lift_act (\<lambda>_. event_validate_payload d (mapping_fields (env_payload event)))) (\<lambda>_.
     bind_act (deliver_validated_envelope pub event) (\<lambda>_. ret_act event))))"

inductive pub_step :: "'s EventPublisher \<Rightarrow> 's EventPublisher \<Rightarrow> bool" where
  PubAttach: "pub_step pub (snd (attach_projection projection producer name pub))"
| PubDetach: "pub_step pub (snd (detach_projection h pub))"

definition pub_inv :: "'s EventPublisher \<Rightarrow> bool" where
  "pub_inv pub \<longleftrightarrow> sorted_wrt (<) (map fst (pub_projections pub))
     \<and> (\<forall>i \<in> fst ` set (pub_projections pub). i < pub_next_id pub)"

lemma pub_inv_attach: "pub_inv pub \<Longrightarrow> pub_inv (snd (attach_projection projection producer name pub))"
  by (auto simp: pub_inv_def attach_projection_def sorted_wrt_append split: sum.splits intro: less_SucI)

lemma pub_inv_detach: "pub_inv pub \<Longrightarrow> pub_inv (snd (detach_projection h pub))"
  by (auto simp: pub_inv_def detach_projection_def sorted_wrt_map intro: sorted_wrt_filter)

lemma pub_run_inv:
  assumes "make_publisher uuid definitions = Inr fresh" and "pub_step\<^sup>*\<^sup>* fresh pub"
  shows "pub_inv pub"
  using assms(2)
proof (induction rule: rtranclp_induct)
  case base
  then show ?case using assms(1) by (auto simp: make_publisher_def pub_inv_def result_simps)
next
  case (step y z)
  then show ?case by (auto elim!: pub_step.cases intro: pub_inv_attach pub_inv_detach)
qed

text \<open>
  Publication is isolated: an event that is refused reaches no projection; one that is
  accepted reaches every matching projection once, in the order of attachment, each in the state
  its predecessors left, whether those raised or not; and the error then lists exactly the
  projections that raised, with what they raised.
\<close>

theorem publish_isolated:
  "publish_envelope pub event s =
     (if env_kind event \<noteq> ''event'' then (Inl (ValueError ''event publisher requires an event envelope''), s)
      else case event_resolve (env_producer event) (env_name event) (pub_definitions pub) of
        Inl e \<Rightarrow> (Inl e, s)
      | Inr d \<Rightarrow>
          (case event_validate_payload d (mapping_fields (env_payload event)) of
             Inl e \<Rightarrow> (Inl e, s)
           | Inr _ \<Rightarrow>
               (if \<forall>k < length (matching pub event).
                     fst (snd (matching pub event ! k) (after_steps (take k (matching pub event)) s)) = Inr ()
                then Inr () else Inl (EventDeliveryError (failures_of (matching pub event) s)),
                after_steps (matching pub event) s)))"
  by (auto simp: publish_envelope_def deliver_validated_envelope_def run_isolated_eq failures_of_Nil bind_act_def
      raise_if_def split: sum.splits)

lemma fresh_projection_id: "pub_inv pub \<Longrightarrow> map_of (pub_projections pub) (pub_next_id pub) = None"
  by (auto simp: pub_inv_def map_of_eq_None_iff)

text \<open>
  Subscriptions: an attached projection gets an identifier no other one has, receives, after
  all others, exactly the events it selected, and is removed by its handle, once; the handles of
  other publishers remove nothing.
\<close>

theorem publisher_subscriptions:
  assumes "make_publisher uuid definitions = Inr fresh" and "pub_step\<^sup>*\<^sup>* fresh pub"
    and "attach_projection projection producer name pub = (Inr h, pub')"
  shows "map_of (pub_projections pub) (ph_projection_id h) = None
    \<and> (\<forall>event. matching pub' event = matching pub event @
         (if producer = None \<or> producer = Some (env_producer event) \<and> name = Some (env_name event)
          then [(ph_projection_id h, projection event)] else []))
    \<and> detach_projection h pub' = (Inr True, pub\<lparr>pub_next_id := pub_next_id pub'\<rparr>)
    \<and> fst (detach_projection h (snd (detach_projection h pub'))) = Inr False
    \<and> (\<forall>other. ph_publisher_id other \<noteq> pub_id pub \<longrightarrow> detach_projection other pub' = (Inr False, pub'))"
proof -
  note none = fresh_projection_id [OF pub_run_inv [OF assms(1,2)]]
  from assms(3) obtain selector where sel:
    "selector = (case (producer, name) of (Some p, Some n) \<Rightarrow> Some (p, n) | _ \<Rightarrow> None)"
    "(producer = None) = (name = None)"
    and h: "h = \<lparr>ph_publisher_id = pub_id pub, ph_projection_id = pub_next_id pub\<rparr>"
    and p: "pub' = pub\<lparr>pub_next_id := pub_next_id pub + 1,
               pub_projections := pub_projections pub @ [(pub_next_id pub, selector, projection)]\<rparr>"
    by (auto simp: attach_projection_def result_simps split: sum.splits option.splits)
  have keep: "filter (\<lambda>p. fst p \<noteq> pub_next_id pub) (pub_projections pub) = pub_projections pub"
    using none by (force simp: map_of_eq_None_iff filter_id_conv)
  have "selected event selector \<longleftrightarrow>
      producer = None \<or> producer = Some (env_producer event) \<and> name = Some (env_name event)" for event
    using sel by (auto simp: selected_def split: option.splits)
  then show ?thesis
    using none keep by (simp add: h p matching_def detach_projection_def)
qed

section \<open>Concrete runs\<close>


lemma cancellation_once_witness:
  "fst (token_cancel (logging_close (\<lambda>c :: nat. if c = 2 then Some (OtherException ''closed'') else None))
     (\<lparr>ct_cancelled = False, ct_callbacks = [1, 2, 3]\<rparr>, [])) = Inl (CancellationCleanupError [OtherException ''closed''])"
proof -
  let ?broken = "\<lambda>c :: nat. if c = 2 then Some (OtherException ''closed'') else None"
  have "token_run ?broken (\<lparr>ct_cancelled = False, ct_callbacks = [1, 2, 3]\<rparr>, []) ([1, 2, 3], [])"
    using TokStep [OF TokStep [OF TokStep [OF TokStart TokRegister [of 1]] TokRegister [of 2]] TokRegister [of 3], of ?broken]
    by (simp add: token_register_def new_token_def)
  from cancellation_once [OF this] show ?thesis by (auto simp: List.map_filter_simps)
qed

definition sample_definitions :: EventDefinitionRegistry where
  "sample_definitions = \<lparr>dr_entries = [((''daemon'', ''task.started''), core_event ''daemon'' ''task.started'' ''Started.'')],
     dr_sealed = True\<rparr>"

definition sample_publisher :: "nat list EventPublisher" where
  "sample_publisher = \<lparr>pub_definitions = sample_definitions, pub_id = ''p'', pub_next_id = 4, pub_projections =
     [(1, None, \<lambda>event s. (Inl (OtherException ''disk full''), s @ [1])),
      (2, Some (''chat'', ''turn.started''), \<lambda>event s. (Inr (), s @ [2])),
      (3, Some (''daemon'', ''task.started''), \<lambda>event s. (Inr (), s @ [3]))]\<rparr>"

definition sample_event :: RuntimeEnvelope where
  "sample_event = sample_envelope\<lparr>env_payload := PProxy [(''level'', PStr ''info'')]\<rparr>"

lemma publish_isolated_witness:
  "publish_envelope sample_publisher sample_event [] = (Inl (EventDeliveryError [(1, OtherException ''disk full'')]), [1, 3])"
proof -
  have m: "matching sample_publisher sample_event =
      [(1, \<lambda>s. (Inl (OtherException ''disk full''), s @ [1])), (3, \<lambda>s. (Inr (), s @ [3]))]"
    by (simp add: matching_def sample_publisher_def sample_event_def sample_envelope_def selected_def)
  have d: "event_resolve (env_producer sample_event) (env_name sample_event) (pub_definitions sample_publisher) =
      Inr (core_event ''daemon'' ''task.started'' ''Started.'')"
    by (simp add: event_resolve_def dr_resolve_def sample_event_def sample_envelope_def sample_publisher_def sample_definitions_def)
  have v: "event_validate_payload (core_event ''daemon'' ''task.started'' ''Started.'') (mapping_fields (env_payload sample_event)) = Inr ()"
    by (simp add: event_validate_payload_def core_event_def sample_event_def mapping_fields_def
        validate_runtime_log_event_payload_def log_payload_from_mapping_def log_payload_fields_def dict_get_def
        optional_string_def optional_integer_def optional_mapping_def make_log_payload_def)
  have k: "env_kind sample_event = ''event''" by (simp add: sample_event_def sample_envelope_def)
  have f: "failures_of [] s = []" for s :: "nat list" by (simp add: failures_of_def)
  show ?thesis
    unfolding publish_isolated d m sum.case v k by (simp add: failures_of_Cons f All_less_Suc2)
qed

lemma publisher_subscriptions_witness:
  "\<exists>fresh pub h. make_publisher ''p'' sample_definitions = Inr fresh
     \<and> attach_projection (\<lambda>event s. (Inr (), s + (1 :: nat))) None None fresh = (Inr h, pub)
     \<and> fst (detach_projection h pub) = Inr True"
proof -
  let ?fresh = "\<lparr>pub_definitions = sample_definitions, pub_id = ''p'', pub_next_id = 1, pub_projections = []\<rparr>"
  have m: "make_publisher ''p'' sample_definitions = Inr ?fresh"
    by (simp add: make_publisher_def event_require_sealed_def sample_definitions_def)
  obtain h pub where a: "attach_projection (\<lambda>event s. (Inr (), s + (1 :: nat))) None None ?fresh = (Inr h, pub)"
    by (simp add: attach_projection_def)
  from publisher_subscriptions [OF m rtranclp.rtrancl_refl a] m a show ?thesis by fastforce
qed

end
