(* ===== verification/TraceStore.thy ===== *)
theory TraceStore
  imports SqliteStore VisibleHandles "HOL-Library.Product_Lexorder"
begin

text \<open>
  Thought provenance: the trace and link records (\<open>trace/model.py\<close>), their repository over the
  \<open>trace_nodes\<close> and \<open>trace_edges\<close> collections (\<open>trace/repository.py\<close>) and the recorder that other
  components call (\<open>trace/service.py\<close>).
\<close>

section \<open>Records\<close>

datatype TraceKind =
    TkChatTurn | TkMemoryUpdate | TkReflection | TkReasonThread | TkReasonStep | TkPromotion | TkDecision
  | TkPersonaPromptCreated | TkPersonaDisabled | TkPersonaEnabled

datatype TraceVisibility = VisPrivate | VisShareable | VisInternal

datatype TraceRelation =
    RelSupports | RelDerived | RelContradicts | RelRevises | RelSummarizes | RelTriggered | RelCites

fun trace_kind_str :: "TraceKind \<Rightarrow> string" where
  "trace_kind_str TkChatTurn = ''chat_turn''"
| "trace_kind_str TkMemoryUpdate = ''memory_update''"
| "trace_kind_str TkReflection = ''reflection''"
| "trace_kind_str TkReasonThread = ''reason_thread''"
| "trace_kind_str TkReasonStep = ''reason_step''"
| "trace_kind_str TkPromotion = ''promotion''"
| "trace_kind_str TkDecision = ''decision''"
| "trace_kind_str TkPersonaPromptCreated = ''persona_prompt_created''"
| "trace_kind_str TkPersonaDisabled = ''persona_disabled''"
| "trace_kind_str TkPersonaEnabled = ''persona_enabled''"

definition trace_kinds :: "TraceKind list" where
  "trace_kinds = [TkChatTurn, TkMemoryUpdate, TkReflection, TkReasonThread, TkReasonStep, TkPromotion, TkDecision,
     TkPersonaPromptCreated, TkPersonaDisabled, TkPersonaEnabled]"

fun trace_visibility_str :: "TraceVisibility \<Rightarrow> string" where
  "trace_visibility_str VisPrivate = ''private''"
| "trace_visibility_str VisShareable = ''shareable''"
| "trace_visibility_str VisInternal = ''internal''"

definition trace_visibilities :: "TraceVisibility list" where
  "trace_visibilities = [VisPrivate, VisShareable, VisInternal]"

fun trace_relation_str :: "TraceRelation \<Rightarrow> string" where
  "trace_relation_str RelSupports = ''supports''"
| "trace_relation_str RelDerived = ''derived''"
| "trace_relation_str RelContradicts = ''contradicts''"
| "trace_relation_str RelRevises = ''revises''"
| "trace_relation_str RelSummarizes = ''summarizes''"
| "trace_relation_str RelTriggered = ''triggered''"
| "trace_relation_str RelCites = ''cites''"

definition trace_relations :: "TraceRelation list" where
  "trace_relations = [RelSupports, RelDerived, RelContradicts, RelRevises, RelSummarizes, RelTriggered, RelCites]"

record ThoughtTrace =
  tr_id :: string
  tr_kind :: TraceKind
  tr_title :: string
  tr_summary :: string
  tr_inputs :: "string list"
  tr_evidence_refs :: "string list"
  tr_derived_from :: "string list"
  tr_outputs :: "string list"
  tr_participants :: "string list"
  tr_decision_points :: "string list"
  tr_conversation_id :: "string option"
  tr_visibility :: TraceVisibility
  tr_created_at :: string
  tr_metadata :: pyobj

record TraceLink =
  tl_id :: string
  tl_source_id :: string
  tl_target_id :: string
  tl_relation :: TraceRelation
  tl_summary :: string
  tl_created_at :: string
  tl_metadata :: pyobj

definition freeze_metadata :: "pyobj \<Rightarrow> pyobj result" where
  "freeze_metadata v =
     (case v of
        PDict d \<Rightarrow> freeze v | PProxy d \<Rightarrow> freeze v | PIntMap d \<Rightarrow> freeze v
      | _ \<Rightarrow> Inl (TypeError ''field metadata must be a mapping''))"

definition make_trace :: "ThoughtTrace \<Rightarrow> ThoughtTrace result" where
  "make_trace x =
     bindE (raise_if (blank (tr_title x)) (ValueError ''trace title must not be empty'')) (\<lambda>_.
     bindE (raise_if (blank (tr_summary x)) (ValueError ''trace summary must not be empty'')) (\<lambda>_.
     bindE (freeze_metadata (tr_metadata x)) (\<lambda>metadata. Inr (x\<lparr>tr_metadata := metadata\<rparr>))))"

definition trace_to_wire :: "ThoughtTrace \<Rightarrow> pydict" where
  "trace_to_wire x =
     [(''id'', PStr (tr_id x)), (''kind'', PStr (trace_kind_str (tr_kind x))), (''title'', PStr (tr_title x)),
      (''summary'', PStr (tr_summary x)), (''inputs'', strs_obj (tr_inputs x)),
      (''evidence_refs'', strs_obj (tr_evidence_refs x)), (''derived_from'', strs_obj (tr_derived_from x)),
      (''outputs'', strs_obj (tr_outputs x)), (''participants'', strs_obj (tr_participants x)),
      (''decision_points'', strs_obj (tr_decision_points x)), (''conversation_id'', opt_str (tr_conversation_id x)),
      (''visibility'', PStr (trace_visibility_str (tr_visibility x))), (''created_at'', PStr (tr_created_at x)),
      (''metadata'', thaw (tr_metadata x))]"

definition optional_str_list :: "pydict \<Rightarrow> string \<Rightarrow> string list result" where
  "optional_str_list d key =
     (case dict_get d key of
        PNone \<Rightarrow> Inr []
      | v \<Rightarrow> read_strs (ValueError ''field must be a list of strings'') v)"

definition optional_dict :: "pydict \<Rightarrow> string \<Rightarrow> pyobj result" where
  "optional_dict d key =
     (case dict_get d key of
        PNone \<Rightarrow> Inr (PDict [])
      | PDict m \<Rightarrow> Inr (PDict m)
      | _ \<Rightarrow> Inl (ValueError ''field must be an object''))"

definition trace_from_wire :: "pydict \<Rightarrow> ThoughtTrace result" where
  "trace_from_wire d =
     bindE (read_string d ''id'') (\<lambda>i.
     bindE (read_enum trace_kind_str trace_kinds (ValueError ''field must be a trace kind'') d ''kind'') (\<lambda>kind.
     bindE (read_string d ''title'') (\<lambda>title.
     bindE (read_string d ''summary'') (\<lambda>summary.
     bindE (optional_str_list d ''inputs'') (\<lambda>inputs.
     bindE (optional_str_list d ''evidence_refs'') (\<lambda>evidence_refs.
     bindE (optional_str_list d ''derived_from'') (\<lambda>derived_from.
     bindE (optional_str_list d ''outputs'') (\<lambda>outputs.
     bindE (optional_str_list d ''participants'') (\<lambda>participants.
     bindE (optional_str_list d ''decision_points'') (\<lambda>decision_points.
     bindE (read_optional_string d ''conversation_id'') (\<lambda>conversation_id.
     bindE (read_enum trace_visibility_str trace_visibilities (ValueError ''field must be a trace visibility'') d ''visibility'') (\<lambda>visibility.
     bindE (read_string d ''created_at'') (\<lambda>created_at.
     bindE (optional_dict d ''metadata'') (\<lambda>metadata.
       make_trace
         \<lparr>tr_id = i, tr_kind = kind, tr_title = title, tr_summary = summary, tr_inputs = inputs,
          tr_evidence_refs = evidence_refs, tr_derived_from = derived_from, tr_outputs = outputs,
          tr_participants = participants, tr_decision_points = decision_points,
          tr_conversation_id = conversation_id, tr_visibility = visibility, tr_created_at = created_at,
          tr_metadata = metadata\<rparr>))))))))))))))"

definition make_trace_link :: "TraceLink \<Rightarrow> TraceLink result" where
  "make_trace_link x =
     bindE (raise_if (blank (tl_source_id x)) (ValueError ''trace link source_id must not be empty'')) (\<lambda>_.
     bindE (raise_if (blank (tl_target_id x)) (ValueError ''trace link target_id must not be empty'')) (\<lambda>_.
     bindE (raise_if (blank (tl_summary x)) (ValueError ''trace link summary must not be empty'')) (\<lambda>_.
     bindE (freeze_metadata (tl_metadata x)) (\<lambda>metadata. Inr (x\<lparr>tl_metadata := metadata\<rparr>)))))"

definition trace_link_to_wire :: "TraceLink \<Rightarrow> pydict" where
  "trace_link_to_wire x =
     [(''id'', PStr (tl_id x)), (''source_id'', PStr (tl_source_id x)), (''target_id'', PStr (tl_target_id x)),
      (''relation'', PStr (trace_relation_str (tl_relation x))), (''summary'', PStr (tl_summary x)),
      (''created_at'', PStr (tl_created_at x)), (''metadata'', thaw (tl_metadata x))]"

definition trace_link_from_wire :: "pydict \<Rightarrow> TraceLink result" where
  "trace_link_from_wire d =
     bindE (read_string d ''id'') (\<lambda>i.
     bindE (read_string d ''source_id'') (\<lambda>source_id.
     bindE (read_string d ''target_id'') (\<lambda>target_id.
     bindE (read_enum trace_relation_str trace_relations (ValueError ''field must be a trace relation'') d ''relation'') (\<lambda>relation.
     bindE (read_string d ''summary'') (\<lambda>summary.
     bindE (read_string d ''created_at'') (\<lambda>created_at.
     bindE (optional_dict d ''metadata'') (\<lambda>metadata.
       make_trace_link
         \<lparr>tl_id = i, tl_source_id = source_id, tl_target_id = target_id, tl_relation = relation,
          tl_summary = summary, tl_created_at = created_at, tl_metadata = metadata\<rparr>)))))))"

section \<open>The codecs restore what they wrote\<close>

definition metadata_ok :: "pyobj \<Rightarrow> bool" where
  "metadata_ok v \<longleftrightarrow> frozen v \<and> (\<exists>d. v = PProxy d)"

definition trace_valid :: "ThoughtTrace \<Rightarrow> bool" where
  "trace_valid x \<longleftrightarrow> tr_id x \<noteq> '''' \<and> \<not> blank (tr_title x) \<and> \<not> blank (tr_summary x) \<and> metadata_ok (tr_metadata x)"

definition trace_link_valid :: "TraceLink \<Rightarrow> bool" where
  "trace_link_valid x \<longleftrightarrow> tl_id x \<noteq> '''' \<and> \<not> blank (tl_source_id x) \<and> \<not> blank (tl_target_id x)
     \<and> \<not> blank (tl_summary x) \<and> metadata_ok (tl_metadata x)"

lemma freeze_metadata_ok: "freeze_metadata v = Inr w \<Longrightarrow> metadata_ok w"
proof -
  assume f: "freeze_metadata v = Inr w"
  then have "freeze v = Inr w" by (auto simp: freeze_metadata_def split: pyobj.splits)
  then have "frozen w" by (rule freeze_frozen)
  with f show ?thesis
    by (auto simp: freeze_metadata_def metadata_ok_def result_simps split: pyobj.splits if_splits)
qed

lemma freeze_metadata_id [simp]: "metadata_ok v \<Longrightarrow> freeze_metadata v = Inr v"
  by (auto simp: metadata_ok_def freeze_metadata_def freeze_frozen_id simp del: freeze.simps)

lemma thaw_metadata:
  assumes "metadata_ok v"
  obtains d where "thaw v = PDict d" "freeze_metadata (PDict d) = Inr v" "json_plain (PDict d)"
proof -
  from assms obtain d where d: "v = PProxy d" "frozen v" by (auto simp: metadata_ok_def)
  let ?d = "map (\<lambda>(key, x). (key, thaw x)) d"
  have t: "thaw v = PDict ?d" by (simp add: d(1))
  from freeze_thaw [OF d(2)] have f: "freeze (PDict ?d) = Inr v" by (simp only: t)
  have "json_plain (thaw v)" using freeze_thaw [OF d(2)] thaw_freeze_plain by blast
  with t f show ?thesis by (intro that [of ?d]) (simp_all add: freeze_metadata_def del: freeze.simps json_plain.simps)
qed

lemma make_trace_valid: "make_trace x = Inr y \<Longrightarrow> tr_id x \<noteq> '''' \<Longrightarrow> trace_valid y"
  by (auto simp: make_trace_def trace_valid_def result_simps intro: freeze_metadata_ok)

lemma make_trace_link_valid: "make_trace_link x = Inr y \<Longrightarrow> tl_id x \<noteq> '''' \<Longrightarrow> trace_link_valid y"
  by (auto simp: make_trace_link_def trace_link_valid_def result_simps intro: freeze_metadata_ok)

interpretation trace_kinds: vocabulary trace_kind_str trace_kinds
proof
  show "k \<in> set trace_kinds" for k by (cases k) (simp_all add: trace_kinds_def)
qed (simp add: trace_kinds_def)

interpretation trace_visibilities: vocabulary trace_visibility_str trace_visibilities
proof
  show "k \<in> set trace_visibilities" for k by (cases k) (simp_all add: trace_visibilities_def)
qed (simp add: trace_visibilities_def)

interpretation trace_relations: vocabulary trace_relation_str trace_relations
proof
  show "k \<in> set trace_relations" for k by (cases k) (simp_all add: trace_relations_def)
qed (simp add: trace_relations_def)

lemma trace_reload:
  assumes "trace_valid x"
  shows "trace_from_wire ((''id'', PStr (tr_id x)) # payload_of (trace_to_wire x)) = Inr x"
proof -
  from assms have m: "metadata_ok (tr_metadata x)" by (simp add: trace_valid_def)
  then obtain d where d: "thaw (tr_metadata x) = PDict d" "freeze_metadata (PDict d) = Inr (tr_metadata x)"
    by (rule thaw_metadata)
  have "make_trace (x\<lparr>tr_metadata := PDict d\<rparr>) = Inr x"
    using assms d(2) by (simp add: make_trace_def trace_valid_def)
  then have "make_trace \<lparr>tr_id = tr_id x, tr_kind = tr_kind x, tr_title = tr_title x, tr_summary = tr_summary x,
      tr_inputs = tr_inputs x, tr_evidence_refs = tr_evidence_refs x, tr_derived_from = tr_derived_from x,
      tr_outputs = tr_outputs x, tr_participants = tr_participants x, tr_decision_points = tr_decision_points x,
      tr_conversation_id = tr_conversation_id x, tr_visibility = tr_visibility x, tr_created_at = tr_created_at x,
      tr_metadata = PDict d\<rparr> = Inr x" by (cases x) simp
  then show ?thesis
    by (cases "tr_conversation_id x")
      (simp_all add: trace_from_wire_def trace_to_wire_def wire_simps d(1) read_enum_def optional_str_list_def
        optional_dict_def strs_obj_def read_strs_def)
qed

lemma trace_link_reload:
  assumes "trace_link_valid x"
  shows "trace_link_from_wire ((''id'', PStr (tl_id x)) # payload_of (trace_link_to_wire x)) = Inr x"
proof -
  from assms have m: "metadata_ok (tl_metadata x)" by (simp add: trace_link_valid_def)
  then obtain d where d: "thaw (tl_metadata x) = PDict d" "freeze_metadata (PDict d) = Inr (tl_metadata x)"
    by (rule thaw_metadata)
  have "make_trace_link \<lparr>tl_id = tl_id x, tl_source_id = tl_source_id x, tl_target_id = tl_target_id x,
      tl_relation = tl_relation x, tl_summary = tl_summary x, tl_created_at = tl_created_at x,
      tl_metadata = PDict d\<rparr> = Inr x"
    using assms d(2) by (cases x) (simp add: make_trace_link_def trace_link_valid_def)
  then show ?thesis
    by (simp add: trace_link_from_wire_def trace_link_to_wire_def wire_simps d(1) read_enum_def optional_dict_def)
qed

interpretation traces: record_codec trace_to_wire trace_from_wire tr_id trace_valid
proof unfold_locales
  fix x
  assume x: "trace_valid x"
  show "tr_id x \<noteq> ''''" using x by (simp add: trace_valid_def)
  have "metadata_ok (tr_metadata x)" using x by (simp add: trace_valid_def)
  then have "json_plain (thaw (tr_metadata x))" by (metis thaw_metadata)
  then show "json_dict (trace_to_wire x)"
    by (simp add: json_dict_def trace_to_wire_def)
  show "dict_get (trace_to_wire x) ''id'' \<in> {PNone, PStr (tr_id x)}"
    by (simp add: trace_to_wire_def wire_simps)
  show "trace_from_wire ((''id'', PStr (tr_id x)) # payload_of (trace_to_wire x)) = Inr x"
    using x by (rule trace_reload)
qed

interpretation trace_links: record_codec trace_link_to_wire trace_link_from_wire tl_id trace_link_valid
proof unfold_locales
  fix x
  assume x: "trace_link_valid x"
  show "tl_id x \<noteq> ''''" using x by (simp add: trace_link_valid_def)
  have "metadata_ok (tl_metadata x)" using x by (simp add: trace_link_valid_def)
  then have "json_plain (thaw (tl_metadata x))" by (metis thaw_metadata)
  then show "json_dict (trace_link_to_wire x)"
    by (simp add: json_dict_def trace_link_to_wire_def)
  show "dict_get (trace_link_to_wire x) ''id'' \<in> {PNone, PStr (tl_id x)}"
    by (simp add: trace_link_to_wire_def wire_simps)
  show "trace_link_from_wire ((''id'', PStr (tl_id x)) # payload_of (trace_link_to_wire x)) = Inr x"
    using x by (rule trace_link_reload)
qed

section \<open>The repository\<close>

datatype TraceVisibilityFilter = FilterDefault | FilterAll | FilterOnly TraceVisibility

fun trace_visible :: "TraceVisibility \<Rightarrow> TraceVisibilityFilter \<Rightarrow> bool" where
  "trace_visible v FilterAll = True"
| "trace_visible v FilterDefault = (v \<in> {VisPrivate, VisShareable})"
| "trace_visible v (FilterOnly w) = (v = w)"

definition save_trace :: "ThoughtTrace \<Rightarrow> (tables, ThoughtTrace) act" where
  "save_trace x = bind_act (tab_put ''trace_nodes'' (tr_id x) (trace_to_wire x)) (\<lambda>_. ret_act x)"

definition get_trace :: "string \<Rightarrow> (tables, ThoughtTrace) act" where
  "get_trace trace_id = repo_get (tab_get ''trace_nodes'' trace_id) trace_from_wire (TraceNotFound trace_id)"

definition list_traces :: "TraceKind option \<Rightarrow> TraceVisibilityFilter \<Rightarrow> (tables, ThoughtTrace list) act" where
  "list_traces kind visibility =
     bind_act (repo_list (tab_list ''trace_nodes'') trace_from_wire
                 (\<lambda>x. (kind = None \<or> Some (tr_kind x) = kind) \<and> trace_visible (tr_visibility x) visibility)) (\<lambda>xs.
       ret_act (sort_key (\<lambda>x. (tr_created_at x, tr_id x)) xs))"

definition trace_search_fields :: "ThoughtTrace \<Rightarrow> string list" where
  "trace_search_fields x =
     [tr_title x, tr_summary x] @ tr_inputs x @ tr_evidence_refs x @ tr_derived_from x @ tr_outputs x
     @ tr_participants x @ tr_decision_points x"

definition trace_search_score :: "ThoughtTrace \<Rightarrow> string \<Rightarrow> int" where
  "trace_search_score x query =
     foldl (\<lambda>score field. if contains_text query (casefold field) then score + 1 else score) 0 (trace_search_fields x)"

definition search_traces :: "string \<Rightarrow> TraceKind option \<Rightarrow> TraceVisibilityFilter \<Rightarrow> (tables, ThoughtTrace list) act" where
  "search_traces query kind visibility =
     (let normalized = strip (casefold query) in
      bind_act (list_traces kind visibility) (\<lambda>traces.
        if normalized = '''' then ret_act traces
        else (let scored = filter (\<lambda>(score, x). score > 0) (map (\<lambda>x. (trace_search_score x normalized, x)) traces) in
              ret_act (map snd (sort_key (\<lambda>(score, x). (- score, tr_created_at x, tr_id x)) scored)))))"

text \<open>Whether a metadata value mentions an artifact: a \<open>str\<close> is compared, not searched.\<close>

fun metadata_mentions :: "pyobj \<Rightarrow> string \<Rightarrow> bool" where
  "metadata_mentions (PStr s) ref = (s = ref)"
| "metadata_mentions (PList xs) ref = list_ex (\<lambda>x. metadata_mentions x ref) xs"
| "metadata_mentions (PTuple xs) ref = list_ex (\<lambda>x. metadata_mentions x ref) xs"
| "metadata_mentions (PDict d) ref = list_ex (\<lambda>(key, x). metadata_mentions x ref) d"
| "metadata_mentions (PProxy d) ref = list_ex (\<lambda>(key, x). metadata_mentions x ref) d"
| "metadata_mentions (PIntMap d) ref = list_ex (\<lambda>(key, x). metadata_mentions x ref) d"
| "metadata_mentions v ref = False"

definition trace_mentions_artifact :: "ThoughtTrace \<Rightarrow> string \<Rightarrow> bool" where
  "trace_mentions_artifact x ref \<longleftrightarrow>
     list_ex (\<lambda>field. ref \<in> set field) [tr_inputs x, tr_evidence_refs x, tr_derived_from x, tr_outputs x]
     \<or> metadata_mentions (tr_metadata x) ref"

definition traces_for_artifact :: "string \<Rightarrow> TraceVisibilityFilter \<Rightarrow> (tables, ThoughtTrace list) act" where
  "traces_for_artifact ref visibility =
     (let normalized = strip ref in
      if normalized = '''' then ret_act []
      else bind_act (list_traces None visibility) (\<lambda>xs.
             ret_act (filter (\<lambda>x. trace_mentions_artifact x normalized) xs)))"

text \<open>
  By identifier, or else by the position in the listing; a position that does not exist is an
  unknown trace. Any other exception, of a stored record that does not decode, escapes.
\<close>

definition resolve_trace :: "string \<Rightarrow> TraceKind option \<Rightarrow> TraceVisibilityFilter \<Rightarrow> (tables, ThoughtTrace) act" where
  "resolve_trace id_or_index kind visibility =
     (\<lambda>t. case get_trace id_or_index t of
        (Inl (TraceNotFound i), t') \<Rightarrow>
          bind_act (list_traces kind visibility) (\<lambda>xs.
            lift_act (\<lambda>_. case resolve_visible_item id_or_index xs of
                Inl (VisibleHandleError m) \<Rightarrow> Inl (TraceNotFound id_or_index)
              | Inl e \<Rightarrow> Inl e
              | Inr None \<Rightarrow> Inl (TraceNotFound id_or_index)
              | Inr (Some x) \<Rightarrow> Inr x)) t'
      | r \<Rightarrow> r)"

definition save_link :: "TraceLink \<Rightarrow> (tables, TraceLink) act" where
  "save_link x = bind_act (tab_put ''trace_edges'' (tl_id x) (trace_link_to_wire x)) (\<lambda>_. ret_act x)"

definition links_for :: "string \<Rightarrow> (tables, TraceLink list) act" where
  "links_for trace_id =
     bind_act (repo_list (tab_list ''trace_edges'') trace_link_from_wire
                 (\<lambda>x. tl_source_id x = trace_id \<or> tl_target_id x = trace_id)) (\<lambda>xs.
       ret_act (sort_key (\<lambda>x. (tl_created_at x, tl_id x)) xs))"

definition links_for_artifact :: "string \<Rightarrow> (tables, TraceLink list) act" where
  "links_for_artifact ref =
     (let normalized = strip ref in
      if normalized = '''' then ret_act [] else links_for normalized)"

section \<open>The recorder\<close>

text \<open>
  Every record operation constructs one trace, with a new identifier \<open>i\<close> and time \<open>now\<close>, and
  saves it. \<open>short_text\<close> is \<open>_short\<close>.
\<close>

definition rstrip :: "string \<Rightarrow> string" where
  "rstrip s = rev (dropWhile py_space (rev s))"

definition short_text :: "string \<Rightarrow> string" where
  "short_text value =
     (let normalized = join_with '' '' (split_words value) in
      if length normalized \<le> 80 then normalized else rstrip (take 79 normalized) @ ''...'')"

definition dict_merge :: "pydict \<Rightarrow> pydict \<Rightarrow> pydict" where
  "dict_merge d e = foldl (\<lambda>d (key, v). AList.update key v d) d e"

lemma json_dict_merge:
  assumes "json_dict d" and "json_dict e"
  shows "json_dict (dict_merge d e)"
proof -
  have up: "json_dict (AList.update key v d)" if "json_dict d" "json_plain v" for key v d
    using that by (induction d) (auto simp: json_dict_def)
  have parts: "json_dict ((key, v) # e) \<longleftrightarrow> json_plain v \<and> json_dict e" for key v e
    by (simp add: json_dict_def)
  show ?thesis
    unfolding dict_merge_def using assms
  proof (induction e arbitrary: d)
    case (Cons p e)
    then show ?case by (cases p) (simp add: parts up)
  qed simp
qed

definition record_trace :: "ThoughtTrace \<Rightarrow> (tables, ThoughtTrace) act" where
  "record_trace x = bind_act (lift_act (\<lambda>_. make_trace x)) save_trace"

definition blank_trace :: "string \<Rightarrow> string \<Rightarrow> TraceKind \<Rightarrow> string \<Rightarrow> string \<Rightarrow> pydict \<Rightarrow> ThoughtTrace" where
  "blank_trace i now kind title summary metadata =
     \<lparr>tr_id = i, tr_kind = kind, tr_title = title, tr_summary = summary, tr_inputs = [], tr_evidence_refs = [],
      tr_derived_from = [], tr_outputs = [], tr_participants = [], tr_decision_points = [],
      tr_conversation_id = None, tr_visibility = VisPrivate, tr_created_at = now, tr_metadata = PDict metadata\<rparr>"

definition record_chat_turn ::
  "string \<Rightarrow> string \<Rightarrow> string \<Rightarrow> string \<Rightarrow> string \<Rightarrow> string \<Rightarrow> string \<Rightarrow> string list \<Rightarrow> string list \<Rightarrow> string list \<Rightarrow> pydict
   \<Rightarrow> (tables, ThoughtTrace) act" where
  "record_chat_turn i now title summary user_input assistant_output conversation_id evidence participants decisions metadata =
     record_trace ((blank_trace i now TkChatTurn title summary metadata)
       \<lparr>tr_inputs := [user_input], tr_outputs := [assistant_output], tr_evidence_refs := evidence,
        tr_participants := participants, tr_decision_points := decisions, tr_conversation_id := Some conversation_id\<rparr>)"

definition record_reason_thread_created ::
  "string \<Rightarrow> string \<Rightarrow> string \<Rightarrow> string \<Rightarrow> string \<Rightarrow> string list \<Rightarrow> string list \<Rightarrow> pydict \<Rightarrow> (tables, ThoughtTrace) act" where
  "record_reason_thread_created i now thread_id topic status mandates source_trace_ids metadata =
     record_trace ((blank_trace i now TkReasonThread (''Reason thread created: '' @ short_text topic)
         (''Created a durable reasoning thread for: '' @ topic)
         (dict_merge [(''thread_id'', PStr thread_id), (''status'', PStr status), (''mandates'', strs_obj mandates)] metadata))
       \<lparr>tr_inputs := [topic], tr_derived_from := source_trace_ids, tr_outputs := [''reason:'' @ thread_id],
        tr_participants := [''reason''],
        tr_decision_points := [''User-approved long-run reasoning thread creation.'']\<rparr>)"

definition record_reason_step ::
  "string \<Rightarrow> string \<Rightarrow> string \<Rightarrow> string \<Rightarrow> string \<Rightarrow> string \<Rightarrow> string \<Rightarrow> string list \<Rightarrow> string \<Rightarrow> string \<Rightarrow> pydict
   \<Rightarrow> (tables, ThoughtTrace) act" where
  "record_reason_step i now thread_id topic step_id step_kind summary evidence terminal_status terminal_reason metadata =
     record_trace ((blank_trace i now TkReasonStep (''Reason step: '' @ short_text topic) summary
         (dict_merge [(''thread_id'', PStr thread_id), (''step_id'', PStr step_id), (''step_kind'', PStr step_kind)] metadata))
       \<lparr>tr_inputs := [''reason:'' @ thread_id], tr_evidence_refs := evidence,
        tr_outputs := [''reason:'' @ thread_id, ''reason_step:'' @ step_id], tr_participants := [''reason''],
        tr_decision_points :=
          (if terminal_status \<noteq> ''continue'' \<and> terminal_reason \<noteq> '''' then [terminal_status @ '': '' @ terminal_reason] else [])\<rparr>)"

definition record_reflection_created ::
  "string \<Rightarrow> string \<Rightarrow> string \<Rightarrow> string \<Rightarrow> string \<Rightarrow> string \<Rightarrow> pyobj \<Rightarrow> bool option \<Rightarrow> string option \<Rightarrow> string list \<Rightarrow> pydict
   \<Rightarrow> (tables, ThoughtTrace) act" where
  "record_reflection_created i now reflection_id title body candidate_type score approved conversation_id decisions metadata =
     record_trace ((blank_trace i now TkReflection title body
         (dict_merge [(''candidate_type'', PStr candidate_type), (''composite_score'', score),
            (''discussion_approved'', case approved of None \<Rightarrow> PNone | Some b \<Rightarrow> PBool b)] metadata))
       \<lparr>tr_outputs := [''reflection:'' @ reflection_id], tr_participants := [''reflection''],
        tr_conversation_id := conversation_id, tr_decision_points := decisions\<rparr>)"

text \<open>
  \<open>f"{x:.2f}"\<close> for a float: the exact value, rounded half to even in its second decimal place.
\<close>

definition round_half_even :: "rat \<Rightarrow> int" where
  "round_half_even q =
     (let n = \<lfloor>q\<rfloor>; r = q - of_int n in
      if r < 1 / 2 then n else if 1 / 2 < r then n + 1 else if even n then n else n + 1)"

definition format_2f :: "pyfloat \<Rightarrow> string" where
  "format_2f x =
     (case x of
        Finite q \<Rightarrow>
          (let n = round_half_even (\<bar>q\<bar> * 100) in
           (if q < 0 then ''-'' else '''') @ dec_int (n div 100) @ ''.''
           @ (if n mod 100 < 10 then ''0'' else '''') @ dec_int (n mod 100))
      | PosInf \<Rightarrow> ''inf''
      | NegInf \<Rightarrow> ''-inf''
      | NaN \<Rightarrow> ''nan'')"

definition record_memory_update ::
  "string \<Rightarrow> string \<Rightarrow> string \<Rightarrow> string \<Rightarrow> string \<Rightarrow> string \<Rightarrow> string \<Rightarrow> pyfloat \<Rightarrow> string option \<Rightarrow> string list \<Rightarrow> pydict
   \<Rightarrow> (tables, ThoughtTrace) act" where
  "record_memory_update i now memory_id title summary memory_type action confidence source_trace_id participants metadata =
     record_trace ((blank_trace i now TkMemoryUpdate title summary
         (dict_merge [(''memory_type'', PStr memory_type), (''action'', PStr action), (''confidence'', PFloat confidence)]
           metadata))
       \<lparr>tr_outputs := [''memory:'' @ memory_id],
        tr_evidence_refs := (case source_trace_id of None \<Rightarrow> []
                             | Some s \<Rightarrow> if s = '''' then [] else [''trace:'' @ s]),
        tr_participants := (if participants = [] then [''memory_curator''] else participants),
        tr_decision_points := [''curator action: '' @ action @ '' (confidence='' @ format_2f confidence
                                @ '', type='' @ memory_type @ '')'']\<rparr>)"

text \<open>The three persona events differ in kind, wording and default participant.\<close>

definition record_persona ::
  "TraceKind \<Rightarrow> string \<Rightarrow> string \<Rightarrow> string \<Rightarrow> string \<Rightarrow> string \<Rightarrow> string \<Rightarrow> string \<Rightarrow> string list \<Rightarrow> pydict
   \<Rightarrow> (tables, ThoughtTrace) act" where
  "record_persona kind title summary usual i now prompt_id name participants metadata =
     record_trace ((blank_trace i now kind (title @ name) (summary @ name)
         (dict_merge [(''prompt_id'', PStr prompt_id), (''name'', PStr name)] metadata))
       \<lparr>tr_outputs := [''persona_prompt:'' @ prompt_id],
        tr_participants := (if participants = [] then [usual] else participants)\<rparr>)"

definition record_persona_prompt_created ::
  "string \<Rightarrow> string \<Rightarrow> string \<Rightarrow> string \<Rightarrow> string list \<Rightarrow> pydict \<Rightarrow> (tables, ThoughtTrace) act" where
  "record_persona_prompt_created = record_persona TkPersonaPromptCreated ''Persona prompt: ''
     ''Created or updated dynamic thinking persona: '' ''chat''"

definition record_persona_disabled ::
  "string \<Rightarrow> string \<Rightarrow> string \<Rightarrow> string \<Rightarrow> string list \<Rightarrow> pydict \<Rightarrow> (tables, ThoughtTrace) act" where
  "record_persona_disabled = record_persona TkPersonaDisabled ''Persona disabled: ''
     ''Disabled dynamic thinking persona: '' ''cli''"

definition record_persona_enabled ::
  "string \<Rightarrow> string \<Rightarrow> string \<Rightarrow> string \<Rightarrow> string list \<Rightarrow> pydict \<Rightarrow> (tables, ThoughtTrace) act" where
  "record_persona_enabled = record_persona TkPersonaEnabled ''Persona enabled: ''
     ''Enabled dynamic thinking persona: '' ''cli''"

definition record_reflection_promoted ::
  "string \<Rightarrow> string \<Rightarrow> string \<Rightarrow> string \<Rightarrow> string \<Rightarrow> string \<Rightarrow> string \<Rightarrow> string \<Rightarrow> string list \<Rightarrow> pydict
   \<Rightarrow> (tables, ThoughtTrace) act" where
  "record_reflection_promoted i now link_id link_now reflection_id reflection_title thread_id topic evidence metadata =
     bind_act (record_trace ((blank_trace i now TkPromotion (''Reflection promoted: '' @ short_text reflection_title)
         (''Promoted reflection into reason thread: '' @ topic)
         (dict_merge [(''reflection_id'', PStr reflection_id), (''thread_id'', PStr thread_id)] metadata))
       \<lparr>tr_inputs := [''reflection:'' @ reflection_id],
        tr_evidence_refs := (''reflection:'' @ reflection_id) # evidence, tr_outputs := [''reason:'' @ thread_id],
        tr_participants := [''reflection'', ''reason''],
        tr_decision_points := [''Reflection selected for durable long-run reasoning.'']\<rparr>)) (\<lambda>trace.
     bind_act (lift_act (\<lambda>_. make_trace_link
         \<lparr>tl_id = link_id, tl_source_id = ''reflection:'' @ reflection_id, tl_target_id = ''reason:'' @ thread_id,
          tl_relation = RelTriggered, tl_summary = ''Reflection promotion created this reason thread.'',
          tl_created_at = link_now, tl_metadata = PDict []\<rparr>)) (\<lambda>link.
     bind_act (save_link link) (\<lambda>_. ret_act trace)))"

section \<open>The store as finite maps\<close>

definition trace_view :: "tables \<Rightarrow> string \<Rightarrow> ThoughtTrace option" where
  "trace_view t = view trace_from_wire (t ''trace_nodes'')"

definition trace_link_view :: "tables \<Rightarrow> string \<Rightarrow> TraceLink option" where
  "trace_link_view t = view trace_link_from_wire (t ''trace_edges'')"

definition trace_stored :: "tables \<Rightarrow> bool" where
  "trace_stored t \<longleftrightarrow> stored_ok trace_to_wire tr_id trace_valid (t ''trace_nodes'')
     \<and> stored_ok trace_link_to_wire tl_id trace_link_valid (t ''trace_edges'')"

lemma trace_repo [simp]:
  "traces.repo_view ''trace_nodes'' t = trace_view t"
  "trace_links.repo_view ''trace_edges'' t = trace_link_view t"
  "trace_stored t \<Longrightarrow> traces.repo_stored ''trace_nodes'' t"
  "trace_stored t \<Longrightarrow> trace_links.repo_stored ''trace_edges'' t"
  by (simp_all add: traces.repo_view_def trace_links.repo_view_def trace_view_def trace_link_view_def
      traces.repo_stored_def trace_links.repo_stored_def trace_stored_def)

lemma trace_stored_iff:
  "trace_stored t \<longleftrightarrow> traces.repo_stored ''trace_nodes'' t \<and> trace_links.repo_stored ''trace_edges'' t"
  by (simp add: traces.repo_stored_def trace_links.repo_stored_def trace_stored_def)

lemma distinct_map_sort: "distinct (map f (sort_key k xs)) \<longleftrightarrow> distinct (map f xs)"
  by (simp add: distinct_map)

lemma list_traces_run:
  assumes "trace_stored t"
  obtains xs where "list_traces kind visibility t = (Inr xs, t)"
    "set xs = {x \<in> ran (trace_view t). (kind = None \<or> Some (tr_kind x) = kind) \<and> trace_visible (tr_visibility x) visibility}"
    "sorted (map (\<lambda>x. (tr_created_at x, tr_id x)) xs)" "distinct (map tr_id xs)"
proof -
  let ?keep = "\<lambda>x. (kind = None \<or> Some (tr_kind x) = kind) \<and> trace_visible (tr_visibility x) visibility"
  let ?all = "stored_records trace_from_wire (t ''trace_nodes'')"
  let ?xs = "sort_key (\<lambda>x. (tr_created_at x, tr_id x)) (filter ?keep ?all)"
  have s: "traces.repo_stored ''trace_nodes'' t" using assms by simp
  have "list_traces kind visibility t = (Inr ?xs, t)"
    by (simp add: list_traces_def bind_act_def traces.repo_list_stored [OF s])
  moreover have "set ?xs = {x \<in> ran (trace_view t). ?keep x}"
    using traces.set_repo_list [OF s] by auto
  moreover have "distinct (map tr_id ?xs)"
  proof -
    have "distinct (map fst (t ''trace_nodes''))"
      using assms by (simp add: trace_stored_def stored_ok_def rows_ok_distinct)
    then have "distinct (map tr_id ?all)" using traces.repo_list_keys [OF s] by simp
    then have "distinct (map tr_id (filter ?keep ?all))" by (rule distinct_map_filter)
    then show ?thesis by (simp only: distinct_map_sort)
  qed
  ultimately show ?thesis by (intro that [of ?xs]) simp_all
qed

lemma keyed_pairs:
  fixes f :: "'a \<Rightarrow> int"
  assumes "\<forall>p \<in> set zs. fst p = f (snd p)"
  shows "map (\<lambda>x. (- f x, g x)) (map snd zs) = map (\<lambda>(s, x). (- s, g x)) zs"
  using assms by (induction zs) auto

lemma score_count:
  "foldl (\<lambda>score field. if p field then score + 1 else score) n texts = n + int (length (filter p texts))" for n :: int
  by (induction texts arbitrary: n) simp_all

text \<open>
  C18: A search with a non-blank query answers exactly the traces of the given kind and visibility
  of which some text field contains the case-folded query, each once, those with more matching
  fields first and equally good ones in order of creation.
\<close>

theorem trace_search_spec:
  assumes "trace_stored t" and "strip (casefold query) \<noteq> ''''"
  shows "\<exists>xs. search_traces query kind visibility t = (Inr xs, t)
    \<and> set xs = {x \<in> ran (trace_view t). (kind = None \<or> Some (tr_kind x) = kind) \<and> trace_visible (tr_visibility x) visibility
         \<and> (\<exists>field \<in> set (trace_search_fields x). contains_text (strip (casefold query)) (casefold field))}
    \<and> distinct (map tr_id xs)
    \<and> sorted (map (\<lambda>x. (- trace_search_score x (strip (casefold query)), tr_created_at x, tr_id x)) xs)"
proof -
  let ?q = "strip (casefold query)"
  let ?key = "\<lambda>(score :: int, x). (- score, tr_created_at x, tr_id x)"
  obtain xs where run: "list_traces kind visibility t = (Inr xs, t)"
    and set: "set xs = {x \<in> ran (trace_view t). (kind = None \<or> Some (tr_kind x) = kind) \<and> trace_visible (tr_visibility x) visibility}"
    and dist: "distinct (map tr_id xs)"
    by (rule list_traces_run [OF assms(1)])
  let ?scored = "filter (\<lambda>(score, x). score > 0) (map (\<lambda>x. (trace_search_score x ?q, x)) xs)"
  let ?ys = "map snd (sort_key ?key ?scored)"
  have scored: "?scored = map (\<lambda>x. (trace_search_score x ?q, x)) (filter (\<lambda>x. trace_search_score x ?q > 0) xs)"
    by (induction xs) simp_all
  have pos: "trace_search_score x ?q > 0 \<longleftrightarrow> (\<exists>field \<in> set (trace_search_fields x). contains_text ?q (casefold field))" for x
    unfolding trace_search_score_def score_count by (auto simp: filter_empty_conv)
  have pairs: "\<forall>p \<in> set (sort_key ?key ?scored). fst p = trace_search_score (snd p) ?q"
    unfolding set_sort by auto
  have "search_traces query kind visibility t = (Inr ?ys, t)"
    using assms(2) by (simp add: search_traces_def Let_def bind_act_def run)
  moreover have "set ?ys = {x \<in> ran (trace_view t). (kind = None \<or> Some (tr_kind x) = kind) \<and> trace_visible (tr_visibility x) visibility
      \<and> (\<exists>field \<in> set (trace_search_fields x). contains_text ?q (casefold field))}"
  proof -
    have "set ?ys = {x \<in> set xs. \<exists>field \<in> set (trace_search_fields x). contains_text ?q (casefold field)}"
      unfolding set_map set_sort scored by (simp add: image_image pos)
    then show ?thesis unfolding set by blast
  qed
  moreover have "distinct (map tr_id ?ys)"
  proof -
    have "map snd ?scored = filter (\<lambda>x. trace_search_score x ?q > 0) xs"
      unfolding scored map_map comp_def by simp
    then have "distinct (map (tr_id \<circ> snd) ?scored)"
      using distinct_map_filter [OF dist] unfolding map_map [symmetric] by (simp only:)
    then have "distinct (map (tr_id \<circ> snd) (sort_key ?key ?scored))" by (simp only: distinct_map_sort)
    then show ?thesis by (simp only: map_map)
  qed
  moreover have "sorted (map (\<lambda>x. (- trace_search_score x ?q, tr_created_at x, tr_id x)) ?ys)"
  proof -
    have "map (\<lambda>x. (- trace_search_score x ?q, tr_created_at x, tr_id x)) ?ys = map ?key (sort_key ?key ?scored)"
      using pairs by (rule keyed_pairs)
    then show ?thesis by (simp only: sorted_sort_key)
  qed
  ultimately show ?thesis by blast
qed

text \<open>What a record operation leaves: the new trace under its identifier, frozen, and nothing else changed.\<close>

lemma record_trace_run:
  assumes "trace_stored t" and "tr_id x \<noteq> ''''" and "make_trace x = Inr y"
  obtains t' where "record_trace x t = (Inr y, t')" "trace_stored t'" "trace_view t' = (trace_view t)(tr_id x \<mapsto> y)"
    "\<And>c. c \<noteq> ''trace_nodes'' \<Longrightarrow> t' c = t c"
proof -
  have v: "trace_valid y" using make_trace_valid [OF assms(3,2)] .
  have i: "tr_id y = tr_id x" using assms(3) by (auto simp: make_trace_def result_simps)
  obtain t' where t': "tab_put ''trace_nodes'' (tr_id y) (trace_to_wire y) t = (Inr (), t')"
    "traces.repo_stored ''trace_nodes'' t'" "traces.repo_view ''trace_nodes'' t' = (traces.repo_view ''trace_nodes'' t)(tr_id y \<mapsto> y)"
    "\<And>c. c \<noteq> ''trace_nodes'' \<Longrightarrow> t' c = t c"
    using traces.repo_put [OF trace_repo(3) [OF assms(1)] v] by blast
  moreover have "trace_stored t'"
    using assms(1) t'(2,4) by (simp add: trace_stored_iff trace_links.repo_stored_def)
  ultimately show ?thesis using assms(3) i by (intro that [of t']) (simp_all add: record_trace_def save_trace_def bind_act_def)
qed

lemma save_link_run:
  assumes "trace_stored t" and "trace_link_valid x"
  obtains t' where "save_link x t = (Inr x, t')" "trace_stored t'" "trace_link_view t' = (trace_link_view t)(tl_id x \<mapsto> x)"
    "\<And>c. c \<noteq> ''trace_edges'' \<Longrightarrow> t' c = t c"
proof -
  obtain t' where t': "tab_put ''trace_edges'' (tl_id x) (trace_link_to_wire x) t = (Inr (), t')"
    "trace_links.repo_stored ''trace_edges'' t'"
    "trace_links.repo_view ''trace_edges'' t' = (trace_links.repo_view ''trace_edges'' t)(tl_id x \<mapsto> x)"
    "\<And>c. c \<noteq> ''trace_edges'' \<Longrightarrow> t' c = t c"
    using trace_links.repo_put [OF trace_repo(4) [OF assms(1)] assms(2)] by blast
  moreover have "trace_stored t'"
    using assms(1) t'(2,4) by (simp add: trace_stored_iff traces.repo_stored_def)
  ultimately show ?thesis by (intro that [of t']) (simp_all add: save_link_def bind_act_def)
qed

lemma links_for_run:
  assumes "trace_stored t"
  obtains xs where "links_for ref t = (Inr xs, t)"
    "set xs = {x \<in> ran (trace_link_view t). tl_source_id x = ref \<or> tl_target_id x = ref}"
    "sorted (map (\<lambda>x. (tl_created_at x, tl_id x)) xs)"
proof -
  have s: "trace_links.repo_stored ''trace_edges'' t" using assms by simp
  let ?xs = "sort_key (\<lambda>x. (tl_created_at x, tl_id x)) (filter (\<lambda>x. tl_source_id x = ref \<or> tl_target_id x = ref)
      (stored_records trace_link_from_wire (t ''trace_edges'')))"
  have "links_for ref t = (Inr ?xs, t)"
    by (simp add: links_for_def bind_act_def trace_links.repo_list_stored [OF s])
  moreover have "set ?xs = {x \<in> ran (trace_link_view t). tl_source_id x = ref \<or> tl_target_id x = ref}"
    using trace_links.set_repo_list [OF s] by auto
  ultimately show ?thesis by (intro that [of ?xs]) simp_all
qed

lemma link_found:
  assumes "trace_stored t" and "trace_link_view t link_id = Some link"
    and "tl_source_id link = ref \<or> tl_target_id link = ref"
  shows "\<exists>xs. links_for ref t = (Inr xs, t) \<and> link \<in> set xs"
proof (rule links_for_run [OF assms(1), of ref])
  fix xs
  assume "links_for ref t = (Inr xs, t)"
    and "set xs = {x \<in> ran (trace_link_view t). tl_source_id x = ref \<or> tl_target_id x = ref}"
  moreover have "link \<in> ran (trace_link_view t)" using assms(2) by (rule ranI)
  ultimately show ?thesis using assms(3) by simp
qed

text \<open>
  A promotion is recorded so that both of its ends find it: with two fresh identifiers, the
  trace of the promotion is stored with its evidence, the reflection and the reason thread are
  linked, and the link is among the links of either artifact; every other trace and link stays.
\<close>

theorem promotion_recorded:
  assumes "trace_stored t" and "i \<noteq> ''''" and "link_id \<noteq> ''''" and "json_dict metadata"
  shows "\<exists>x link t' xs ys. record_reflection_promoted i now link_id link_now rid title thread_id topic evidence metadata t = (Inr x, t')
    \<and> trace_stored t' \<and> trace_view t' = (trace_view t)(i \<mapsto> x) \<and> trace_link_view t' = (trace_link_view t)(link_id \<mapsto> link)
    \<and> tr_kind x = TkPromotion \<and> tr_evidence_refs x = (''reflection:'' @ rid) # evidence
    \<and> links_for (''reflection:'' @ rid) t' = (Inr xs, t') \<and> link \<in> set xs
    \<and> links_for (''reason:'' @ thread_id) t' = (Inr ys, t') \<and> link \<in> set ys"
proof -
  let ?meta = "dict_merge [(''reflection_id'', PStr rid), (''thread_id'', PStr thread_id)] metadata"
  let ?x = "(blank_trace i now TkPromotion (''Reflection promoted: '' @ short_text title)
         (''Promoted reflection into reason thread: '' @ topic) ?meta)
       \<lparr>tr_inputs := [''reflection:'' @ rid], tr_evidence_refs := (''reflection:'' @ rid) # evidence,
        tr_outputs := [''reason:'' @ thread_id], tr_participants := [''reflection'', ''reason''],
        tr_decision_points := [''Reflection selected for durable long-run reasoning.'']\<rparr>"
  let ?link = "\<lparr>tl_id = link_id, tl_source_id = ''reflection:'' @ rid, tl_target_id = ''reason:'' @ thread_id,
          tl_relation = RelTriggered, tl_summary = ''Reflection promotion created this reason thread.'',
          tl_created_at = link_now, tl_metadata = PProxy []\<rparr>"
  have "json_dict ?meta" using assms(4) by (intro json_dict_merge) (simp_all add: json_dict_def)
  then obtain m where m: "freeze_metadata (PDict ?meta) = Inr m"
    using freeze_plain [of "PDict ?meta"] by (auto simp: freeze_metadata_def json_dict_def)
  then have y: "make_trace ?x = Inr (?x\<lparr>tr_metadata := m\<rparr>)"
    by (simp add: make_trace_def blank_trace_def blank_def py_space_def)
  have "tr_id ?x = i" by (simp add: blank_trace_def)
  with record_trace_run [OF assms(1) _ y] assms(2) obtain t1 where
    t1: "record_trace ?x t = (Inr (?x\<lparr>tr_metadata := m\<rparr>), t1)" "trace_stored t1"
      "trace_view t1 = (trace_view t)(i \<mapsto> ?x\<lparr>tr_metadata := m\<rparr>)" "\<And>c. c \<noteq> ''trace_nodes'' \<Longrightarrow> t1 c = t c"
    by auto
  have link: "make_trace_link (?link\<lparr>tl_metadata := PDict []\<rparr>) = Inr ?link" "trace_link_valid ?link"
    using assms(3) by (simp_all add: make_trace_link_def trace_link_valid_def metadata_ok_def blank_def py_space_def
        freeze_metadata_def)
  then obtain t2 where
    t2: "save_link ?link t1 = (Inr ?link, t2)" "trace_stored t2" "trace_link_view t2 = (trace_link_view t1)(link_id \<mapsto> ?link)"
      "\<And>c. c \<noteq> ''trace_edges'' \<Longrightarrow> t2 c = t1 c"
    using save_link_run [OF t1(2), of ?link] by auto
  have run: "record_reflection_promoted i now link_id link_now rid title thread_id topic evidence metadata t
      = (Inr (?x\<lparr>tr_metadata := m\<rparr>), t2)"
    using t1(1) link(1) t2(1) by (simp add: record_reflection_promoted_def bind_act_def)
  have views: "trace_view t2 = (trace_view t)(i \<mapsto> ?x\<lparr>tr_metadata := m\<rparr>)"
      "trace_link_view t2 = (trace_link_view t)(link_id \<mapsto> ?link)"
    using t1(3,4) t2(3,4) by (simp_all add: trace_view_def trace_link_view_def)
  have stored: "trace_link_view t2 link_id = Some ?link" unfolding views(2) by simp
  obtain xs where xs: "links_for (''reflection:'' @ rid) t2 = (Inr xs, t2)" "?link \<in> set xs"
    using link_found [OF t2(2) stored] by auto
  obtain ys where ys: "links_for (''reason:'' @ thread_id) t2 = (Inr ys, t2)" "?link \<in> set ys"
    using link_found [OF t2(2) stored] by auto
  have "tr_kind (?x\<lparr>tr_metadata := m\<rparr>) = TkPromotion" "tr_evidence_refs (?x\<lparr>tr_metadata := m\<rparr>) = (''reflection:'' @ rid) # evidence"
    by (simp_all add: blank_trace_def)
  with run t2(2) views xs ys show ?thesis by blast
qed

section \<open>Concrete runs\<close>

lemma trace_stored_empty: "trace_stored (\<lambda>_. [])"
  and trace_view_empty: "trace_view (\<lambda>_. []) = Map.empty"
  by (simp_all add: trace_stored_def trace_view_def view_def load_def coll_get_def fun_eq_iff)

lemma trace_search_spec_witness:
  "\<exists>t x xs. trace_view t = [''t1'' \<mapsto> x] \<and> tr_title x = ''Evening walk'' \<and> search_traces '' WALK '' None FilterDefault t = (Inr xs, t)
     \<and> set xs = {x}"
proof -
  let ?x = "blank_trace ''t1'' ''2026-01-01'' TkDecision ''Evening walk'' ''Went out.'' []"
  let ?y = "?x\<lparr>tr_metadata := PProxy []\<rparr>"
  have "make_trace ?x = Inr ?y"
    by (simp add: make_trace_def blank_trace_def blank_def py_space_def freeze_metadata_def)
  then obtain t where t: "trace_stored t" "trace_view t = [''t1'' \<mapsto> ?y]"
    using record_trace_run [OF trace_stored_empty, of ?x ?y] by (auto simp: blank_trace_def trace_view_empty)
  have q: "strip (casefold '' WALK '') = ''walk''" by code_simp
  then have "strip (casefold '' WALK '') \<noteq> ''''" by simp
  from trace_search_spec [OF t(1) this, of None FilterDefault] obtain xs where xs:
    "search_traces '' WALK '' None FilterDefault t = (Inr xs, t)"
    "set xs = {x \<in> ran (trace_view t). (None = None \<or> Some (tr_kind x) = None) \<and> trace_visible (tr_visibility x) FilterDefault
         \<and> (\<exists>field \<in> set (trace_search_fields x). contains_text (strip (casefold '' WALK '')) (casefold field))}" by blast
  have "contains_text ''walk'' (casefold ''Evening walk'')" by code_simp
  then have "set xs = {?y}" unfolding xs(2) t(2) q by (auto simp: trace_search_fields_def blank_trace_def)
  with t xs(1) show ?thesis
    by (intro exI [of _ t] exI [of _ ?y] exI [of _ xs]) (simp add: blank_trace_def)
qed

lemma promotion_recorded_witness:
  "\<exists>x t' xs link. record_reflection_promoted ''t1'' ''n'' ''l1'' ''n'' ''r9'' ''A title'' ''th4'' ''A topic'' [] [] (\<lambda>_. []) = (Inr x, t')
     \<and> links_for ''reason:th4'' t' = (Inr xs, t') \<and> link \<in> set xs"
proof -
  have d: "''t1'' \<noteq> ''''" "''l1'' \<noteq> ''''" "json_dict []" by (simp_all add: json_dict_def)
  from promotion_recorded [OF trace_stored_empty d, of "''n''" "''n''" "''r9''" "''A title''" "''th4''" "''A topic''" "[]"]
  show ?thesis by auto
qed

end
