(* ===== verification/ReasonModel.thy ===== *)
theory ReasonModel
  imports InboxStore TraceStore
begin

text \<open>
  The records of the Reason subsystem (\<open>reason/model.py\<close>): long-running reasoning threads, the steps
  that advance them and the tracked items both carry, with their constructors and wire codecs.
\<close>

section \<open>Vocabularies\<close>

datatype ReasonStatus = RsActive | RsPaused | RsResolved | RsArchived

datatype StepKind = SkProgress | SkNoChange | SkQuestion | SkSynthesis | SkContradiction | SkResolution | SkPlanning

datatype ReasonPriority = PrNormal | PrHigh

datatype TerminalStatus = TsContinue | TsSuggestResolved | TsSuggestPaused

fun reason_status_str :: "ReasonStatus \<Rightarrow> string" where
  "reason_status_str RsActive = ''active''"
| "reason_status_str RsPaused = ''paused''"
| "reason_status_str RsResolved = ''resolved''"
| "reason_status_str RsArchived = ''archived''"

definition reason_statuses :: "ReasonStatus list" where
  "reason_statuses = [RsActive, RsPaused, RsResolved, RsArchived]"

definition active_statuses :: "ReasonStatus list" where
  "active_statuses = [RsActive, RsPaused]"

fun step_kind_str :: "StepKind \<Rightarrow> string" where
  "step_kind_str SkProgress = ''progress''"
| "step_kind_str SkNoChange = ''no_change''"
| "step_kind_str SkQuestion = ''question''"
| "step_kind_str SkSynthesis = ''synthesis''"
| "step_kind_str SkContradiction = ''contradiction''"
| "step_kind_str SkResolution = ''resolution''"
| "step_kind_str SkPlanning = ''planning''"

definition step_kinds :: "StepKind list" where
  "step_kinds = [SkProgress, SkNoChange, SkQuestion, SkSynthesis, SkContradiction, SkResolution, SkPlanning]"

fun reason_priority_str :: "ReasonPriority \<Rightarrow> string" where
  "reason_priority_str PrNormal = ''normal''"
| "reason_priority_str PrHigh = ''high''"

definition reason_priorities :: "ReasonPriority list" where
  "reason_priorities = [PrNormal, PrHigh]"

fun terminal_status_str :: "TerminalStatus \<Rightarrow> string" where
  "terminal_status_str TsContinue = ''continue''"
| "terminal_status_str TsSuggestResolved = ''suggest_resolved''"
| "terminal_status_str TsSuggestPaused = ''suggest_paused''"

definition terminal_statuses :: "TerminalStatus list" where
  "terminal_statuses = [TsContinue, TsSuggestResolved, TsSuggestPaused]"

interpretation reason_statuses: vocabulary reason_status_str reason_statuses
proof
  show "k \<in> set reason_statuses" for k by (cases k) (simp_all add: reason_statuses_def)
qed (simp add: reason_statuses_def)

interpretation step_kinds: vocabulary step_kind_str step_kinds
proof
  show "k \<in> set step_kinds" for k by (cases k) (simp_all add: step_kinds_def)
qed (simp add: step_kinds_def)

interpretation reason_priorities: vocabulary reason_priority_str reason_priorities
proof
  show "k \<in> set reason_priorities" for k by (cases k) (simp_all add: reason_priorities_def)
qed (simp add: reason_priorities_def)

interpretation terminal_statuses: vocabulary terminal_status_str terminal_statuses
proof
  show "k \<in> set terminal_statuses" for k by (cases k) (simp_all add: terminal_statuses_def)
qed (simp add: terminal_statuses_def)

section \<open>Tracked items\<close>

record TrackedItem =
  ti_label :: string
  ti_description :: string
  ti_kind :: string
  ti_status :: string

definition tracked_to_wire :: "TrackedItem \<Rightarrow> pydict" where
  "tracked_to_wire x =
     [(''label'', PStr (ti_label x)), (''description'', PStr (ti_description x)), (''kind'', PStr (ti_kind x)),
      (''status'', PStr (ti_status x))]"

definition string_or :: "pydict \<Rightarrow> string \<Rightarrow> string \<Rightarrow> string result" where
  "string_or d key usual =
     (case dget d key of
        None \<Rightarrow> Inr usual
      | Some (PStr s) \<Rightarrow> Inr s
      | Some _ \<Rightarrow> Inl (ValueError ''tracked item field must be a string''))"

definition tracked_from_wire :: "pydict \<Rightarrow> TrackedItem result" where
  "tracked_from_wire d =
     bindE (case dict_get d ''label'' of
              PStr s \<Rightarrow> (if blank s then Inl (ValueError ''tracked item field label must be a non-empty string'') else Inr s)
            | _ \<Rightarrow> Inl (ValueError ''tracked item field label must be a non-empty string'')) (\<lambda>label.
     bindE (string_or d ''description'' '''') (\<lambda>description.
     bindE (string_or d ''kind'' '''') (\<lambda>kind.
     bindE (string_or d ''status'' ''active'') (\<lambda>status.
       Inr \<lparr>ti_label = label, ti_description = description, ti_kind = kind, ti_status = status\<rparr>))))"

lemma tracked_reload: "\<not> blank (ti_label x) \<Longrightarrow> tracked_from_wire (tracked_to_wire x) = Inr x"
  by (cases x) (simp add: tracked_from_wire_def tracked_to_wire_def string_or_def dict_get_def)

section \<open>Threads\<close>

text \<open>
  The item lists hold read-only mappings, as \<open>__post_init__\<close> leaves them; their contents are not
  validated before a \<open>TrackedItem\<close> is read from them.
\<close>

record ReasoningThread =
  th_id :: string
  th_topic :: string
  th_status :: ReasonStatus
  th_working_summary :: string
  th_evidence_refs :: "string list"
  th_priority :: ReasonPriority
  th_last_advanced_at :: "string option"
  th_next_review_after :: "string option"
  th_skip_until :: "string option"
  th_created_at :: string
  th_updated_at :: string
  th_active_items :: "pyobj list"
  th_pending_items :: "pyobj list"
  th_next_steps :: "pyobj list"
  th_mandates :: "string list"
  th_reasoning_prompt :: string

record ReasoningStep =
  st_id :: string
  st_thread_id :: string
  st_kind :: StepKind
  st_summary :: string
  st_delta :: string
  st_evidence_refs :: "string list"
  st_output :: string
  st_tool_logs :: "pyobj list"
  st_confidence :: "pyfloat option"
  st_created_at :: string
  st_new_findings :: "pyobj list"
  st_new_pending :: "pyobj list"
  st_retired_findings :: "pyobj list"
  st_next_steps :: "pyobj list"
  st_terminal_status :: TerminalStatus
  st_terminal_reason :: string

fun is_proxy :: "pyobj \<Rightarrow> bool" where
  "is_proxy (PProxy d) = True"
| "is_proxy v = False"

lemma is_proxy_iff: "is_proxy v \<longleftrightarrow> (\<exists>d. v = PProxy d)"
  by (cases v) simp_all

definition freeze_mapping_sequence :: "pyobj list \<Rightarrow> pyobj list result" where
  "freeze_mapping_sequence xs =
     bindE (freeze_items xs) (\<lambda>ys.
     bindE (raise_if (\<not> list_all is_proxy ys)
              (TypeError ''field must contain mappings'')) (\<lambda>_. Inr ys))"

definition validate_aware_iso :: "iso_parser \<Rightarrow> string \<Rightarrow> unit result" where
  "validate_aware_iso fromiso v =
     bindE (raise_if (blank v) (ValueError ''field must be an ISO-8601 timestamp'')) (\<lambda>_. aware fromiso v)"

definition validate_optional_aware_iso :: "iso_parser \<Rightarrow> string option \<Rightarrow> unit result" where
  "validate_optional_aware_iso fromiso v = (case v of None \<Rightarrow> Inr () | Some s \<Rightarrow> validate_aware_iso fromiso s)"

definition make_thread :: "iso_parser \<Rightarrow> ReasoningThread \<Rightarrow> ReasoningThread result" where
  "make_thread fromiso x =
     bindE (raise_if (blank (th_topic x)) (ValueError ''reason topic must not be empty'')) (\<lambda>_.
     bindE (validate_aware_iso fromiso (th_created_at x)) (\<lambda>_.
     bindE (validate_aware_iso fromiso (th_updated_at x)) (\<lambda>_.
     bindE (validate_optional_aware_iso fromiso (th_last_advanced_at x)) (\<lambda>_.
     bindE (validate_optional_aware_iso fromiso (th_next_review_after x)) (\<lambda>_.
     bindE (validate_optional_aware_iso fromiso (th_skip_until x)) (\<lambda>_.
     bindE (freeze_mapping_sequence (th_active_items x)) (\<lambda>active.
     bindE (freeze_mapping_sequence (th_pending_items x)) (\<lambda>pending.
     bindE (freeze_mapping_sequence (th_next_steps x)) (\<lambda>next_steps.
       Inr (x\<lparr>th_active_items := active, th_pending_items := pending, th_next_steps := next_steps\<rparr>))))))))))"

definition items_obj :: "pyobj list \<Rightarrow> pyobj" where
  "items_obj xs = PList (map thaw xs)"

definition thread_to_wire :: "ReasoningThread \<Rightarrow> pydict" where
  "thread_to_wire x =
     [(''id'', PStr (th_id x)), (''topic'', PStr (th_topic x)), (''status'', PStr (reason_status_str (th_status x))),
      (''working_summary'', PStr (th_working_summary x)), (''active_items_data'', items_obj (th_active_items x)),
      (''pending_items_data'', items_obj (th_pending_items x)), (''next_steps_data'', items_obj (th_next_steps x)),
      (''mandates_data'', strs_obj (th_mandates x)), (''reasoning_prompt'', PStr (th_reasoning_prompt x)),
      (''evidence_refs'', strs_obj (th_evidence_refs x)), (''priority'', PStr (reason_priority_str (th_priority x))),
      (''last_advanced_at'', opt_str (th_last_advanced_at x)), (''skip_next_advance_until'', opt_str (th_skip_until x)),
      (''next_review_after'', opt_str (th_next_review_after x)), (''created_at'', PStr (th_created_at x)),
      (''updated_at'', PStr (th_updated_at x))]"

text \<open>Unlike the readers of the other codecs, an optional field must be present.\<close>

definition expect_optional_str :: "pydict \<Rightarrow> string \<Rightarrow> string option result" where
  "expect_optional_str d key =
     (case dget d key of
        Some PNone \<Rightarrow> Inr None
      | Some (PStr s) \<Rightarrow> Inr (Some s)
      | _ \<Rightarrow> Inl (ValueError ''field must be a string or null''))"

definition expect_str_list :: "pydict \<Rightarrow> string \<Rightarrow> string list result" where
  "expect_str_list d key = read_strs (ValueError ''field must be a list of strings'') (dict_get d key)"

definition expect_tracked_items :: "pydict \<Rightarrow> string \<Rightarrow> pyobj list result" where
  "expect_tracked_items d key =
     bindE (read_objects (ValueError ''field must be a list'') (ValueError ''field must contain objects'')
              (dict_get d key)) (\<lambda>ds. Inr (map PDict ds))"

definition thread_from_wire :: "iso_parser \<Rightarrow> pydict \<Rightarrow> ReasoningThread result" where
  "thread_from_wire fromiso d =
     bindE (read_string d ''id'') (\<lambda>i.
     bindE (read_string d ''topic'') (\<lambda>topic.
     bindE (read_enum reason_status_str reason_statuses (ValueError ''field must be a reason status'') d ''status'') (\<lambda>status.
     bindE (read_string d ''working_summary'') (\<lambda>working_summary.
     bindE (expect_str_list d ''evidence_refs'') (\<lambda>evidence_refs.
     bindE (read_enum reason_priority_str reason_priorities (ValueError ''field must be a reason priority'') d ''priority'') (\<lambda>priority.
     bindE (expect_optional_str d ''last_advanced_at'') (\<lambda>last_advanced_at.
     bindE (expect_optional_str d ''next_review_after'') (\<lambda>next_review_after.
     bindE (expect_optional_str d ''skip_next_advance_until'') (\<lambda>skip_until.
     bindE (read_string d ''created_at'') (\<lambda>created_at.
     bindE (read_string d ''updated_at'') (\<lambda>updated_at.
     bindE (expect_tracked_items d ''active_items_data'') (\<lambda>active_items.
     bindE (expect_tracked_items d ''pending_items_data'') (\<lambda>pending_items.
     bindE (expect_tracked_items d ''next_steps_data'') (\<lambda>next_steps.
     bindE (expect_str_list d ''mandates_data'') (\<lambda>mandates.
     bindE (read_string d ''reasoning_prompt'') (\<lambda>reasoning_prompt.
       make_thread fromiso
         \<lparr>th_id = i, th_topic = topic, th_status = status, th_working_summary = working_summary,
          th_evidence_refs = evidence_refs, th_priority = priority, th_last_advanced_at = last_advanced_at,
          th_next_review_after = next_review_after, th_skip_until = skip_until, th_created_at = created_at,
          th_updated_at = updated_at, th_active_items = active_items, th_pending_items = pending_items,
          th_next_steps = next_steps, th_mandates = mandates, th_reasoning_prompt = reasoning_prompt\<rparr>))))))))))))))))"

definition thread_with_status :: "iso_parser \<Rightarrow> string \<Rightarrow> ReasonStatus \<Rightarrow> ReasoningThread \<Rightarrow> ReasoningThread result" where
  "thread_with_status fromiso now status x = make_thread fromiso (x\<lparr>th_status := status, th_updated_at := now\<rparr>)"

section \<open>Steps\<close>

definition make_step :: "ReasoningStep \<Rightarrow> ReasoningStep result" where
  "make_step x =
     bindE (raise_if (blank (st_thread_id x)) (ValueError ''step thread_id must not be empty'')) (\<lambda>_.
     bindE (raise_if (blank (st_summary x)) (ValueError ''step summary must not be empty'')) (\<lambda>_.
     bindE (freeze_mapping_sequence (st_tool_logs x)) (\<lambda>tool_logs.
     bindE (freeze_mapping_sequence (st_new_findings x)) (\<lambda>new_findings.
     bindE (freeze_mapping_sequence (st_new_pending x)) (\<lambda>new_pending.
     bindE (freeze_mapping_sequence (st_retired_findings x)) (\<lambda>retired.
     bindE (freeze_mapping_sequence (st_next_steps x)) (\<lambda>next_steps.
       Inr (x\<lparr>st_tool_logs := tool_logs, st_new_findings := new_findings, st_new_pending := new_pending,
              st_retired_findings := retired, st_next_steps := next_steps\<rparr>))))))))"

fun opt_float :: "pyfloat option \<Rightarrow> pyobj" where
  "opt_float None = PNone"
| "opt_float (Some x) = PFloat x"

definition step_to_wire :: "ReasoningStep \<Rightarrow> pydict" where
  "step_to_wire x =
     [(''id'', PStr (st_id x)), (''thread_id'', PStr (st_thread_id x)), (''kind'', PStr (step_kind_str (st_kind x))),
      (''summary'', PStr (st_summary x)), (''delta'', PStr (st_delta x)),
      (''evidence_refs'', strs_obj (st_evidence_refs x)), (''output'', PStr (st_output x)),
      (''tool_logs'', items_obj (st_tool_logs x)), (''confidence'', opt_float (st_confidence x)),
      (''created_at'', PStr (st_created_at x)), (''new_findings_data'', items_obj (st_new_findings x)),
      (''new_pending_data'', items_obj (st_new_pending x)),
      (''retired_findings_data'', items_obj (st_retired_findings x)),
      (''next_steps_data'', items_obj (st_next_steps x)),
      (''terminal_status'', PStr (terminal_status_str (st_terminal_status x))),
      (''terminal_reason'', PStr (st_terminal_reason x))]"

definition expect_optional_float :: "pydict \<Rightarrow> string \<Rightarrow> pyfloat option result" where
  "expect_optional_float d key =
     (case dget d key of
        Some PNone \<Rightarrow> Inr None
      | Some (PInt i) \<Rightarrow> bindE (float_of_int i) (\<lambda>x. Inr (Some x))
      | Some (PFloat x) \<Rightarrow> Inr (Some x)
      | _ \<Rightarrow> Inl (ValueError ''field must be a number or null''))"

definition step_from_wire :: "pydict \<Rightarrow> ReasoningStep result" where
  "step_from_wire d =
     bindE (read_string d ''id'') (\<lambda>i.
     bindE (read_string d ''thread_id'') (\<lambda>thread_id.
     bindE (read_enum step_kind_str step_kinds (ValueError ''field must be a step kind'') d ''kind'') (\<lambda>kind.
     bindE (read_string d ''summary'') (\<lambda>summary.
     bindE (read_string d ''delta'') (\<lambda>delta.
     bindE (expect_str_list d ''evidence_refs'') (\<lambda>evidence_refs.
     bindE (read_string d ''output'') (\<lambda>output.
     bindE (expect_tracked_items d ''tool_logs'') (\<lambda>tool_logs.
     bindE (expect_optional_float d ''confidence'') (\<lambda>confidence.
     bindE (read_string d ''created_at'') (\<lambda>created_at.
     bindE (expect_tracked_items d ''new_findings_data'') (\<lambda>new_findings.
     bindE (expect_tracked_items d ''new_pending_data'') (\<lambda>new_pending.
     bindE (expect_tracked_items d ''retired_findings_data'') (\<lambda>retired_findings.
     bindE (expect_tracked_items d ''next_steps_data'') (\<lambda>next_steps.
     bindE (read_enum terminal_status_str terminal_statuses (ValueError ''field must be a terminal status'') d ''terminal_status'') (\<lambda>terminal_status.
     bindE (read_string d ''terminal_reason'') (\<lambda>terminal_reason.
       make_step
         \<lparr>st_id = i, st_thread_id = thread_id, st_kind = kind, st_summary = summary, st_delta = delta,
          st_evidence_refs = evidence_refs, st_output = output, st_tool_logs = tool_logs, st_confidence = confidence,
          st_created_at = created_at, st_new_findings = new_findings, st_new_pending = new_pending,
          st_retired_findings = retired_findings, st_next_steps = next_steps,
          st_terminal_status = terminal_status, st_terminal_reason = terminal_reason\<rparr>))))))))))))))))"

text \<open>\<open>range(0, len(items), size)\<close> and the slices at its positions.\<close>

function chunks :: "nat \<Rightarrow> 'a list \<Rightarrow> 'a list list" where
  "chunks n items = (if n = 0 \<or> items = [] then [] else take n items # chunks n (drop n items))"
  by pat_completeness auto
termination by (relation "measure (\<lambda>(n, items). length items)") auto

declare chunks.simps [simp del]

definition partition_steps :: "ReasoningStep list \<Rightarrow> int \<Rightarrow> ReasoningStep list list result" where
  "partition_steps items segment =
     (if segment < 1 then Inl (ValueError ''segment_size must be a positive integer'')
      else Inr (chunks (nat segment) items))"

section \<open>The codecs restore what they wrote\<close>

definition items_ok :: "pyobj list \<Rightarrow> bool" where
  "items_ok xs \<longleftrightarrow> list_all metadata_ok xs"

definition thread_valid :: "iso_parser \<Rightarrow> ReasoningThread \<Rightarrow> bool" where
  "thread_valid fromiso x \<longleftrightarrow> th_id x \<noteq> '''' \<and> \<not> blank (th_topic x)
     \<and> validate_aware_iso fromiso (th_created_at x) = Inr () \<and> validate_aware_iso fromiso (th_updated_at x) = Inr ()
     \<and> validate_optional_aware_iso fromiso (th_last_advanced_at x) = Inr ()
     \<and> validate_optional_aware_iso fromiso (th_next_review_after x) = Inr ()
     \<and> validate_optional_aware_iso fromiso (th_skip_until x) = Inr ()
     \<and> items_ok (th_active_items x) \<and> items_ok (th_pending_items x) \<and> items_ok (th_next_steps x)"

definition step_valid :: "ReasoningStep \<Rightarrow> bool" where
  "step_valid x \<longleftrightarrow> st_id x \<noteq> '''' \<and> \<not> blank (st_thread_id x) \<and> \<not> blank (st_summary x)
     \<and> (\<forall>c. st_confidence x = Some c \<longrightarrow> (\<exists>q. c = Finite q))
     \<and> items_ok (st_tool_logs x) \<and> items_ok (st_new_findings x) \<and> items_ok (st_new_pending x)
     \<and> items_ok (st_retired_findings x) \<and> items_ok (st_next_steps x)"

lemma items_ok_simps [simp]:
  "items_ok []" "items_ok (x # xs) \<longleftrightarrow> metadata_ok x \<and> items_ok xs" "items_ok (xs @ ys) \<longleftrightarrow> items_ok xs \<and> items_ok ys"
  by (simp_all add: items_ok_def)

lemma items_ok_filter: "items_ok xs \<Longrightarrow> items_ok (filter p xs)"
  by (auto simp: items_ok_def list_all_iff)

lemma freeze_mapping_sequence_ok:
  assumes "freeze_mapping_sequence xs = Inr ys"
  shows "items_ok ys"
proof -
  from assms have "freeze_items xs = Inr ys" "list_all is_proxy ys"
    by (auto simp: freeze_mapping_sequence_def result_simps)
  with freeze_frozen_all(2) [OF this(1)] show ?thesis
    by (auto simp: items_ok_def metadata_ok_def list_all_iff is_proxy_iff)
qed

lemma freeze_mapping_sequence_id [simp]: "items_ok xs \<Longrightarrow> freeze_mapping_sequence xs = Inr xs"
proof -
  assume ok: "items_ok xs"
  then have "list_all frozen xs" "list_all is_proxy xs"
    by (auto simp: items_ok_def metadata_ok_def list_all_iff is_proxy_iff)
  with freeze_frozen_id_all(2) [OF this(1)] show ?thesis by (simp add: freeze_mapping_sequence_def)
qed

lemma items_obj_reload:
  assumes "items_ok xs"
  obtains ds where "map thaw xs = map PDict ds" "freeze_mapping_sequence (map PDict ds) = Inr xs"
    "list_all json_plain (map PDict ds)"
proof -
  have "\<exists>ds. map thaw xs = map PDict ds \<and> freeze_items (map PDict ds) = Inr xs \<and> list_all json_plain (map PDict ds)"
    using assms
  proof (induction xs)
    case (Cons x xs)
    then obtain ds where ds: "map thaw xs = map PDict ds" "freeze_items (map PDict ds) = Inr xs"
      "list_all json_plain (map PDict ds)" by auto
    from Cons have "metadata_ok x" by simp
    then obtain d where d: "thaw x = PDict d" "freeze_metadata (PDict d) = Inr x" "json_plain (PDict d)"
      by (rule thaw_metadata)
    then have "freeze (PDict d) = Inr x" by (simp add: freeze_metadata_def del: freeze.simps)
    with ds d show ?case
      by (intro exI [of _ "d # ds"]) (simp del: freeze.simps json_plain.simps)
  qed (intro exI [of _ "[]"], simp)
  then obtain ds where ds: "map thaw xs = map PDict ds" "freeze_items (map PDict ds) = Inr xs"
    "list_all json_plain (map PDict ds)" by auto
  from freeze_mapping_sequence_id [OF assms] assms
  have "list_all is_proxy xs"
    by (auto simp: items_ok_def metadata_ok_def list_all_iff is_proxy_iff)
  with ds show ?thesis by (intro that [of ds]) (simp_all add: freeze_mapping_sequence_def)
qed

lemma json_plain_items [simp]: "items_ok xs \<Longrightarrow> json_plain (items_obj xs)"
  unfolding items_obj_def by (metis items_obj_reload json_plain.simps(2))

lemma expect_items_reload:
  assumes "items_ok xs"
  obtains ys where "\<And>d key. dget d key = Some (items_obj xs) \<Longrightarrow> expect_tracked_items d key = Inr ys"
    "freeze_mapping_sequence ys = Inr xs"
proof -
  from assms obtain ds where ds: "map thaw xs = map PDict ds" "freeze_mapping_sequence (map PDict ds) = Inr xs"
    by (rule items_obj_reload)
  then show ?thesis
    by (intro that [of "map PDict ds"])
      (simp_all add: expect_tracked_items_def read_objects_def items_obj_def dict_get_def object_list_map [of "\<lambda>x. x"])
qed

lemma make_thread_valid:
  "make_thread fromiso x = Inr y \<Longrightarrow> th_id x \<noteq> '''' \<Longrightarrow> thread_valid fromiso y"
  by (auto simp: make_thread_def thread_valid_def result_simps dest: freeze_mapping_sequence_ok)

lemma make_thread_id [simp]: "thread_valid fromiso x \<Longrightarrow> make_thread fromiso x = Inr x"
  by (simp add: make_thread_def thread_valid_def)

lemma make_step_valid:
  "make_step x = Inr y \<Longrightarrow> st_id x \<noteq> '''' \<Longrightarrow> (\<And>c. st_confidence x = Some c \<Longrightarrow> \<exists>q. c = Finite q) \<Longrightarrow> step_valid y"
  by (auto simp: make_step_def step_valid_def result_simps dest: freeze_mapping_sequence_ok)

lemma expect_optional_str_opt [simp]: "dget d key = Some (opt_str v) \<Longrightarrow> expect_optional_str d key = Inr v"
  by (cases v) (simp_all add: expect_optional_str_def)

lemma expect_optional_float_opt [simp]: "dget d key = Some (opt_float v) \<Longrightarrow> expect_optional_float d key = Inr v"
  by (cases v) (simp_all add: expect_optional_float_def)

lemma expect_str_list_obj [simp]: "dget d key = Some (strs_obj v) \<Longrightarrow> expect_str_list d key = Inr v"
  by (simp add: expect_str_list_def dict_get_def)

lemma thread_reload:
  assumes "thread_valid fromiso x"
  shows "thread_from_wire fromiso ((''id'', PStr (th_id x)) # payload_of (thread_to_wire x)) = Inr x"
proof -
  let ?d = "(''id'', PStr (th_id x)) # payload_of (thread_to_wire x)"
  have lookups: "dget ?d ''active_items_data'' = Some (items_obj (th_active_items x))"
    "dget ?d ''pending_items_data'' = Some (items_obj (th_pending_items x))"
    "dget ?d ''next_steps_data'' = Some (items_obj (th_next_steps x))"
    by (simp_all add: thread_to_wire_def payload_of_def)
  from assms have ok: "items_ok (th_active_items x)" "items_ok (th_pending_items x)" "items_ok (th_next_steps x)"
    by (simp_all add: thread_valid_def)
  obtain a where a: "expect_tracked_items ?d ''active_items_data'' = Inr a" "freeze_mapping_sequence a = Inr (th_active_items x)"
    using expect_items_reload [OF ok(1)] lookups(1) by metis
  obtain p where p: "expect_tracked_items ?d ''pending_items_data'' = Inr p" "freeze_mapping_sequence p = Inr (th_pending_items x)"
    using expect_items_reload [OF ok(2)] lookups(2) by metis
  obtain n where n: "expect_tracked_items ?d ''next_steps_data'' = Inr n" "freeze_mapping_sequence n = Inr (th_next_steps x)"
    using expect_items_reload [OF ok(3)] lookups(3) by metis
  have "thread_from_wire fromiso ?d = make_thread fromiso (x\<lparr>th_active_items := a, th_pending_items := p, th_next_steps := n\<rparr>)"
    unfolding thread_from_wire_def a(1) p(1) n(1)
    by (cases x) (simp add: thread_to_wire_def payload_of_def read_enum_def)
  also have "\<dots> = Inr x"
    using assms a(2) p(2) n(2) by (cases x) (simp add: make_thread_def thread_valid_def)
  finally show ?thesis .
qed

lemma step_reload:
  assumes "step_valid x"
  shows "step_from_wire ((''id'', PStr (st_id x)) # payload_of (step_to_wire x)) = Inr x"
proof -
  let ?d = "(''id'', PStr (st_id x)) # payload_of (step_to_wire x)"
  have lookups: "dget ?d ''tool_logs'' = Some (items_obj (st_tool_logs x))"
    "dget ?d ''new_findings_data'' = Some (items_obj (st_new_findings x))"
    "dget ?d ''new_pending_data'' = Some (items_obj (st_new_pending x))"
    "dget ?d ''retired_findings_data'' = Some (items_obj (st_retired_findings x))"
    "dget ?d ''next_steps_data'' = Some (items_obj (st_next_steps x))"
    by (simp_all add: step_to_wire_def payload_of_def)
  from assms have ok: "items_ok (st_tool_logs x)" "items_ok (st_new_findings x)" "items_ok (st_new_pending x)"
    "items_ok (st_retired_findings x)" "items_ok (st_next_steps x)"
    by (simp_all add: step_valid_def)
  obtain l where l: "expect_tracked_items ?d ''tool_logs'' = Inr l" "freeze_mapping_sequence l = Inr (st_tool_logs x)"
    using expect_items_reload [OF ok(1)] lookups(1) by metis
  obtain f where f: "expect_tracked_items ?d ''new_findings_data'' = Inr f" "freeze_mapping_sequence f = Inr (st_new_findings x)"
    using expect_items_reload [OF ok(2)] lookups(2) by metis
  obtain p where p: "expect_tracked_items ?d ''new_pending_data'' = Inr p" "freeze_mapping_sequence p = Inr (st_new_pending x)"
    using expect_items_reload [OF ok(3)] lookups(3) by metis
  obtain r where r: "expect_tracked_items ?d ''retired_findings_data'' = Inr r" "freeze_mapping_sequence r = Inr (st_retired_findings x)"
    using expect_items_reload [OF ok(4)] lookups(4) by metis
  obtain n where n: "expect_tracked_items ?d ''next_steps_data'' = Inr n" "freeze_mapping_sequence n = Inr (st_next_steps x)"
    using expect_items_reload [OF ok(5)] lookups(5) by metis
  have "step_from_wire ?d = make_step (x\<lparr>st_tool_logs := l, st_new_findings := f, st_new_pending := p,
      st_retired_findings := r, st_next_steps := n\<rparr>)"
    unfolding step_from_wire_def l(1) f(1) p(1) r(1) n(1)
    by (cases x) (simp add: step_to_wire_def payload_of_def read_enum_def)
  also have "\<dots> = Inr x"
    using assms l(2) f(2) p(2) r(2) n(2) by (cases x) (simp add: make_step_def step_valid_def)
  finally show ?thesis .
qed

interpretation threads: record_codec thread_to_wire "thread_from_wire fromiso" th_id "thread_valid fromiso"
  for fromiso
proof unfold_locales
  fix x
  assume x: "thread_valid fromiso x"
  show "th_id x \<noteq> ''''" using x by (simp add: thread_valid_def)
  show "json_dict (thread_to_wire x)" using x by (simp add: json_dict_def thread_to_wire_def thread_valid_def)
  show "dict_get (thread_to_wire x) ''id'' \<in> {PNone, PStr (th_id x)}" by (simp add: thread_to_wire_def wire_simps)
  show "thread_from_wire fromiso ((''id'', PStr (th_id x)) # payload_of (thread_to_wire x)) = Inr x"
    using x by (rule thread_reload)
qed

lemma json_plain_opt_float: "step_valid x \<Longrightarrow> json_plain (opt_float (st_confidence x))"
  by (cases "st_confidence x") (auto simp: step_valid_def)

interpretation steps: record_codec step_to_wire step_from_wire st_id step_valid
proof unfold_locales
  fix x
  assume x: "step_valid x"
  show "st_id x \<noteq> ''''" using x by (simp add: step_valid_def)
  show "json_dict (step_to_wire x)"
    using x json_plain_opt_float [OF x] by (simp add: json_dict_def step_to_wire_def step_valid_def)
  show "dict_get (step_to_wire x) ''id'' \<in> {PNone, PStr (st_id x)}" by (simp add: step_to_wire_def wire_simps)
  show "step_from_wire ((''id'', PStr (st_id x)) # payload_of (step_to_wire x)) = Inr x"
    using x by (rule step_reload)
qed

end
