(* ===== verification/ReasonFlow.thy ===== *)
theory ReasonFlow
  imports ReasonModel
begin

text \<open>
  Long-running reasoning: the repository of threads and steps (\<open>reason/repository.py\<close>), the service
  with its status transitions and the merge of a step into its thread (\<open>reason/service.py\<close>), and the
  scheduler that advances one thread per run (\<open>reason/scheduler.py\<close>).
\<close>

section \<open>The repository\<close>

definition save_thread :: "ReasoningThread \<Rightarrow> (tables, ReasoningThread) act" where
  "save_thread x = bind_act (tab_put ''reason_threads'' (th_id x) (thread_to_wire x)) (\<lambda>_. ret_act x)"

definition get_thread :: "iso_parser \<Rightarrow> string \<Rightarrow> (tables, ReasoningThread) act" where
  "get_thread fromiso thread_id =
     repo_get (tab_get ''reason_threads'' thread_id) (thread_from_wire fromiso) (ReasonNotFound thread_id)"

text \<open>\<open>None\<close> selects the unfinished threads, \<open>''all''\<close> all of them, any other string one status.\<close>

definition thread_selected :: "string option \<Rightarrow> ReasoningThread \<Rightarrow> bool" where
  "thread_selected status x \<longleftrightarrow>
     (case status of
        None \<Rightarrow> th_status x \<in> set active_statuses
      | Some s \<Rightarrow> s = ''all'' \<or> reason_status_str (th_status x) = s)"

definition list_threads :: "iso_parser \<Rightarrow> string option \<Rightarrow> (tables, ReasoningThread list) act" where
  "list_threads fromiso status =
     bind_act (repo_list (tab_list ''reason_threads'') (thread_from_wire fromiso) (thread_selected status)) (\<lambda>xs.
       ret_act (sort_key (\<lambda>x. (th_created_at x, th_id x)) xs))"

definition resolve_thread :: "iso_parser \<Rightarrow> string \<Rightarrow> string option \<Rightarrow> (tables, ReasoningThread) act" where
  "resolve_thread fromiso id_or_index status =
     (\<lambda>t. case get_thread fromiso id_or_index t of
        (Inl (ReasonNotFound i), t') \<Rightarrow>
          bind_act (list_threads fromiso status) (\<lambda>xs.
            lift_act (\<lambda>_. case resolve_visible_item id_or_index xs of
                Inl (VisibleHandleError m) \<Rightarrow> Inl (ReasonNotFound id_or_index)
              | Inl e \<Rightarrow> Inl e
              | Inr None \<Rightarrow> Inl (ReasonNotFound id_or_index)
              | Inr (Some x) \<Rightarrow> Inr x)) t'
      | r \<Rightarrow> r)"

fun delete_steps :: "pydict list \<Rightarrow> (tables, unit) act" where
  "delete_steps [] = ret_act ()"
| "delete_steps (raw # raws) =
     (case dict_get raw ''id'' of
        PStr sid \<Rightarrow> bind_act (tab_delete ''reason_steps'' sid) (\<lambda>_. delete_steps raws)
      | _ \<Rightarrow> delete_steps raws)"

definition delete_thread_rows :: "string \<Rightarrow> (tables, unit) act" where
  "delete_thread_rows thread_id =
     bind_act (tab_delete ''reason_threads'' thread_id) (\<lambda>_.
     bind_act (tab_find ''reason_steps'' [(''thread_id'', thread_id)]) delete_steps)"

definition save_step :: "ReasoningStep \<Rightarrow> (tables, ReasoningStep) act" where
  "save_step x = bind_act (tab_put ''reason_steps'' (st_id x) (step_to_wire x)) (\<lambda>_. ret_act x)"

definition list_steps :: "string \<Rightarrow> (tables, ReasoningStep list) act" where
  "list_steps thread_id =
     bind_act (repo_list (tab_find ''reason_steps'' [(''thread_id'', thread_id)]) step_from_wire (\<lambda>_. True)) (\<lambda>xs.
       ret_act (sort_key (\<lambda>x. (st_created_at x, st_id x)) xs))"

section \<open>Merging a step into its thread\<close>

text \<open>\<open>merged[-max_items:]\<close> for a positive bound.\<close>

definition merge_str_lists :: "string list \<Rightarrow> string list \<Rightarrow> nat \<Rightarrow> string list" where
  "merge_str_lists existing new_items max_items =
     (let merged = existing @ filter (\<lambda>item. item \<notin> set existing) new_items in
      drop (length merged - max_items) merged)"

definition item_label :: "pyobj \<Rightarrow> pyobj" where
  "item_label d =
     (case d of
        PProxy m \<Rightarrow> (case dget m ''label'' of None \<Rightarrow> PStr '''' | Some v \<Rightarrow> v)
      | _ \<Rightarrow> PStr '''')"

text \<open>The label as an element of a set: an unhashable one raises, in a lookup as well as in an insertion.\<close>

definition label_key :: "pyobj \<Rightarrow> pyobj result" where
  "label_key d =
     (if hashable (item_label d) then Inr (hash_key (item_label d)) else Inl (TypeError ''unhashable type''))"

fun keep_items :: "pyobj list \<Rightarrow> pyobj list \<Rightarrow> pyobj list result" where
  "keep_items retired [] = Inr []"
| "keep_items retired (d # ds) =
     bindE (label_key d) (\<lambda>key.
     bindE (keep_items retired ds) (\<lambda>kept. Inr (if key \<notin> set retired then d # kept else kept)))"

fun add_items :: "pyobj list \<Rightarrow> pyobj list \<Rightarrow> pyobj list \<Rightarrow> pyobj list result" where
  "add_items merged seen [] = Inr merged"
| "add_items merged seen (d # ds) =
     (if \<not> truthy (item_label d) then add_items merged seen ds
      else bindE (label_key d) (\<lambda>key.
             if key \<notin> set seen then add_items (merged @ [d]) (key # seen) ds
             else add_items merged seen ds))"

definition merge_tracked_items :: "pyobj list \<Rightarrow> pyobj list \<Rightarrow> pyobj list \<Rightarrow> pyobj list result" where
  "merge_tracked_items existing new_items retired =
     bindE (mapE label_key retired) (\<lambda>retired_labels.
     bindE (keep_items retired_labels existing) (\<lambda>merged.
     bindE (mapE label_key merged) (\<lambda>seen. add_items merged seen new_items)))"

section \<open>The service\<close>

text \<open>
  The values a call draws from the clock and the identifier generators, the prompt generator, the
  advancer (both ask a language model) and the workspace path enter as arguments. \<open>observed\<close> runs an
  operation whose failure is only logged.
\<close>

record ReasonEnv =
  re_now :: string
  re_updated :: string
  re_inbox_created :: string
  re_inbox_updated :: string
  re_trace_id :: string
  re_trace_now :: string
  re_context :: RuntimeContext

definition observed :: "('s, 'a) act \<Rightarrow> ('s, unit) act" where
  "observed m s = (Inr (), snd (m s))"

definition validate_segment :: "string \<Rightarrow> unit result" where
  "validate_segment value =
     raise_if (value = '''' \<or> CHR ''/'' \<in> set value \<or> value \<in> {''.'', ''..''}) (ValueError ''invalid workspace owner id'')"

definition start_thread ::
  "iso_parser \<Rightarrow> ReasonEnv \<Rightarrow> (string \<Rightarrow> string list \<Rightarrow> pydict list \<Rightarrow> string result) \<Rightarrow> (string \<Rightarrow> string)
   \<Rightarrow> string \<Rightarrow> string \<Rightarrow> string \<Rightarrow> string list \<Rightarrow> string list \<Rightarrow> string \<Rightarrow> pydict list \<Rightarrow> string list
   \<Rightarrow> (tables, ReasoningThread) act" where
  "start_thread fromiso env prompt_generator workspace_root new_id topic working_summary evidence_refs
     source_trace_ids priority active_items mandates =
     bind_act (lift_act (\<lambda>_. prompt_generator topic mandates active_items)) (\<lambda>generated.
     bind_act (lift_act (\<lambda>_. raise_if (strip generated = '''')
                (ReasonPromptError ''reasoning prompt generation returned empty output''))) (\<lambda>_.
     bind_act (lift_act (\<lambda>_. make_thread fromiso
         \<lparr>th_id = new_id, th_topic = strip topic, th_status = RsActive, th_working_summary = strip working_summary,
          th_evidence_refs = evidence_refs, th_priority = (if priority = ''high'' then PrHigh else PrNormal),
          th_last_advanced_at = None, th_next_review_after = None, th_skip_until = None,
          th_created_at = re_now env, th_updated_at = re_updated env, th_active_items = map PDict active_items,
          th_pending_items = [], th_next_steps = [], th_mandates = mandates, th_reasoning_prompt = strip generated\<rparr>)) (\<lambda>thread.
     bind_act (save_thread thread) (\<lambda>saved.
     bind_act (lift_act (\<lambda>_. validate_segment (th_id thread))) (\<lambda>_.
     bind_act (observed (record_reason_thread_created (re_trace_id env) (re_trace_now env) (th_id saved) (th_topic saved)
         (reason_status_str (th_status saved)) (th_mandates saved) source_trace_ids
         [(''workspace'', PStr (workspace_root (th_id thread))), (''mandates'', strs_obj (th_mandates thread))])) (\<lambda>_.
     ret_act saved))))))"

fun status_from_terminal_status :: "TerminalStatus \<Rightarrow> ReasonStatus option" where
  "status_from_terminal_status TsSuggestResolved = Some RsResolved"
| "status_from_terminal_status TsSuggestPaused = Some RsPaused"
| "status_from_terminal_status TsContinue = None"

definition step_requires_attention :: "ReasoningStep \<Rightarrow> bool" where
  "step_requires_attention step \<longleftrightarrow> st_kind step \<noteq> SkNoChange
     \<and> (strip (st_summary step) \<noteq> '''' \<or> st_new_findings step \<noteq> [] \<or> st_new_pending step \<noteq> []
        \<or> terminal_status_str (st_terminal_status step) \<noteq> '''')"

definition max_evidence_refs :: nat where
  "max_evidence_refs = 20"

definition advanced_thread :: "iso_parser \<Rightarrow> string \<Rightarrow> ReasoningThread \<Rightarrow> ReasoningStep \<Rightarrow> ReasoningThread result" where
  "advanced_thread fromiso now thread step =
     bindE (merge_tracked_items (th_active_items thread) (st_new_findings step) (st_retired_findings step)) (\<lambda>active.
     bindE (merge_tracked_items (th_pending_items thread) (st_new_pending step) []) (\<lambda>pending.
     make_thread fromiso (thread
       \<lparr>th_status := (case status_from_terminal_status (st_terminal_status step) of None \<Rightarrow> th_status thread | Some s \<Rightarrow> s),
        th_working_summary := (if st_summary step \<noteq> '''' then st_summary step else th_working_summary thread),
        th_evidence_refs := merge_str_lists (th_evidence_refs thread) (st_evidence_refs step) max_evidence_refs,
        th_last_advanced_at := Some now, th_updated_at := now, th_active_items := active, th_pending_items := pending,
        th_next_steps := (if st_next_steps step \<noteq> [] then st_next_steps step else th_next_steps thread)\<rparr>)))"

definition reason_step_item :: "ReasonEnv \<Rightarrow> ReasoningThread \<Rightarrow> ReasoningStep \<Rightarrow> InboxItem" where
  "reason_step_item env updated step =
     \<lparr>inbox_id = ''inbox-reason-step-'' @ st_id step, inbox_title = ''Reason update: '' @ th_topic updated,
      inbox_body = st_summary step, inbox_kind = ''reason_step'', inbox_source_id = st_id step,
      inbox_status = InboxPending, inbox_idempotency_key = ''reason-step-'' @ st_id step, inbox_deep_link = None,
      inbox_created_at = re_inbox_created env, inbox_updated_at = re_inbox_updated env, inbox_context = re_context env\<rparr>"

definition choose_step ::
  "ReasoningStep option \<Rightarrow> (ReasoningThread \<Rightarrow> ReasoningStep option result) option \<Rightarrow> ReasoningThread \<Rightarrow> ReasoningStep result" where
  "choose_step step advancer thread =
     (case step of
        Some s \<Rightarrow> Inr s
      | None \<Rightarrow>
          (case advancer of
             None \<Rightarrow> Inl (ReasonAdvanceError ''no reason advancer configured'')
           | Some advance \<Rightarrow> bindE (advance thread) (\<lambda>generated.
               case generated of
                 None \<Rightarrow> Inl (ReasonAdvanceError ''advancer did not produce a structured step'')
               | Some s \<Rightarrow> Inr s)))"

text \<open>
  An operation on a thread first reads it and later writes a rebuilt record. No transaction spans both, and a
  language model may be asked in between, so the two parts are definitions of their own: what is
  written depends on the thread as it was read, whatever has been stored since.
\<close>

definition begin_advance :: "iso_parser \<Rightarrow> string \<Rightarrow> (tables, ReasoningThread) act" where
  "begin_advance fromiso id_or_index =
     bind_act (resolve_thread fromiso id_or_index (Some ''all'')) (\<lambda>thread.
     bind_act (lift_act (\<lambda>_. raise_if (th_status thread \<noteq> RsActive) (ReasonAdvanceError ''expected active''))) (\<lambda>_.
       ret_act thread))"

definition finish_advance ::
  "iso_parser \<Rightarrow> ReasonEnv \<Rightarrow> ReasoningStep option \<Rightarrow> (ReasoningThread \<Rightarrow> ReasoningStep option result) option
   \<Rightarrow> ReasoningThread \<Rightarrow> (tables, ReasoningThread) act" where
  "finish_advance fromiso env given advancer thread =
     bind_act (lift_act (\<lambda>_. choose_step given advancer thread)) (\<lambda>step.
     bind_act (lift_act (\<lambda>_. advanced_thread fromiso (re_now env) thread step)) (\<lambda>updated.
     bind_act (atomic_act (bind_act (save_step step) (\<lambda>_. save_thread updated))) (\<lambda>_.
     bind_act (if step_requires_attention step
               then bind_act (lift_act (\<lambda>_. make_inbox_item fromiso (reason_step_item env updated step))) (inbox_add fromiso)
               else ret_act (reason_step_item env updated step)) (\<lambda>_.
     bind_act (observed (record_reason_step (re_trace_id env) (re_trace_now env) (th_id updated) (th_topic updated) (st_id step)
         (step_kind_str (st_kind step)) (st_summary step) (st_evidence_refs step)
         (terminal_status_str (st_terminal_status step)) (st_terminal_reason step) [])) (\<lambda>_.
     ret_act updated)))))"

definition advance_thread ::
  "iso_parser \<Rightarrow> ReasonEnv \<Rightarrow> string \<Rightarrow> ReasoningStep option \<Rightarrow> (ReasoningThread \<Rightarrow> ReasoningStep option result) option
   \<Rightarrow> (tables, ReasoningThread) act" where
  "advance_thread fromiso env id_or_index given advancer =
     bind_act (begin_advance fromiso id_or_index) (finish_advance fromiso env given advancer)"

fun allowed_transitions :: "ReasonStatus \<Rightarrow> ReasonStatus list" where
  "allowed_transitions RsActive = [RsPaused, RsResolved, RsArchived]"
| "allowed_transitions RsPaused = [RsActive, RsResolved, RsArchived]"
| "allowed_transitions RsResolved = [RsArchived]"
| "allowed_transitions RsArchived = []"

definition finish_transition :: "iso_parser \<Rightarrow> string \<Rightarrow> ReasonStatus \<Rightarrow> ReasoningThread \<Rightarrow> (tables, ReasoningThread) act" where
  "finish_transition fromiso now new_status thread =
     bind_act (lift_act (\<lambda>_. raise_if (new_status \<notin> set (allowed_transitions (th_status thread)))
                (ReasonTransitionError ''Cannot transition thread''))) (\<lambda>_.
     bind_act (lift_act (\<lambda>_. thread_with_status fromiso now new_status thread)) save_thread)"

definition reason_transition :: "iso_parser \<Rightarrow> string \<Rightarrow> ReasonStatus \<Rightarrow> string \<Rightarrow> (tables, ReasoningThread) act" where
  "reason_transition fromiso now new_status id_or_index =
     bind_act (resolve_thread fromiso id_or_index (Some ''all'')) (finish_transition fromiso now new_status)"

definition pause_thread :: "iso_parser \<Rightarrow> string \<Rightarrow> string \<Rightarrow> (tables, ReasoningThread) act" where
  "pause_thread fromiso now = reason_transition fromiso now RsPaused"

definition resume_thread :: "iso_parser \<Rightarrow> string \<Rightarrow> string \<Rightarrow> (tables, ReasoningThread) act" where
  "resume_thread fromiso now = reason_transition fromiso now RsActive"

definition settle_thread :: "iso_parser \<Rightarrow> string \<Rightarrow> string \<Rightarrow> (tables, ReasoningThread) act" where
  "settle_thread fromiso now = reason_transition fromiso now RsResolved"

definition archive_thread :: "iso_parser \<Rightarrow> string \<Rightarrow> string \<Rightarrow> (tables, ReasoningThread) act" where
  "archive_thread fromiso now = reason_transition fromiso now RsArchived"

text \<open>The removal of the workspace directory is outside the store.\<close>

definition delete_thread :: "iso_parser \<Rightarrow> string \<Rightarrow> (tables, string) act" where
  "delete_thread fromiso id_or_index =
     bind_act (resolve_thread fromiso id_or_index (Some ''all'')) (\<lambda>thread.
     bind_act (lift_act (\<lambda>_. validate_segment (th_id thread))) (\<lambda>_.
     bind_act (delete_thread_rows (th_id thread)) (\<lambda>_. ret_act (th_id thread))))"

definition finish_deferral :: "iso_parser \<Rightarrow> string \<Rightarrow> ReasoningThread \<Rightarrow> (tables, ReasoningThread) act" where
  "finish_deferral fromiso until thread =
     bind_act (lift_act (\<lambda>_. make_thread fromiso (thread\<lparr>th_skip_until := Some until\<rparr>))) save_thread"

definition defer_advancement :: "iso_parser \<Rightarrow> string \<Rightarrow> string \<Rightarrow> (tables, ReasoningThread) act" where
  "defer_advancement fromiso until id_or_index =
     bind_act (resolve_thread fromiso id_or_index (Some ''all'')) (finish_deferral fromiso until)"

section \<open>The scheduler\<close>

text \<open>
  \<open>isoformat\<close> renders an instant; \<open>now\<close> is read before the advancer runs and \<open>later\<close> when the cooldown
  is set. A cooldown that is not in force does not keep a thread from being chosen.
\<close>

definition on_cooldown :: "iso_parser \<Rightarrow> int \<Rightarrow> ReasoningThread \<Rightarrow> bool result" where
  "on_cooldown fromiso now x =
     (case th_skip_until x of
        None \<Rightarrow> Inr False
      | Some s \<Rightarrow>
          (if s = '''' then Inr False
           else case fromiso s of
             IsoInvalid \<Rightarrow> Inl (ValueError ''Invalid isoformat string'')
           | IsoNaive _ \<Rightarrow> Inl (TypeError ''can't compare offset-naive and offset-aware datetimes'')
           | IsoAware ending \<Rightarrow> Inr (now < ending)))"

fun first_candidate :: "iso_parser \<Rightarrow> int \<Rightarrow> ReasoningThread list \<Rightarrow> ReasoningThread option result" where
  "first_candidate fromiso now [] = Inr None"
| "first_candidate fromiso now (x # xs) =
     bindE (on_cooldown fromiso now x) (\<lambda>cooling. if cooling then first_candidate fromiso now xs else Inr (Some x))"

definition apply_cooldown :: "iso_parser \<Rightarrow> (int \<Rightarrow> string) \<Rightarrow> int \<Rightarrow> int \<Rightarrow> ReasoningThread \<Rightarrow> (tables, unit) act" where
  "apply_cooldown fromiso isoformat interval_seconds later x =
     bind_act (defer_advancement fromiso (isoformat (later + interval_seconds * 1000000)) (th_id x)) (\<lambda>_. ret_act ())"

definition scheduler_context :: "RuntimeContext \<Rightarrow> ReasoningThread \<Rightarrow> RuntimeContext result" where
  "scheduler_context c x = make_context (c\<lparr>ctx_reason_id := Some (th_id x), ctx_source := Some ''reason_scheduler''\<rparr>)"

definition reason_run_once ::
  "iso_parser \<Rightarrow> (int \<Rightarrow> string) \<Rightarrow> ReasonEnv \<Rightarrow> int \<Rightarrow> int \<Rightarrow> int \<Rightarrow> (ReasoningThread \<Rightarrow> ReasoningStep option result)
   \<Rightarrow> (tables, unit) act" where
  "reason_run_once fromiso isoformat env interval_seconds now later advancer =
     bind_act (list_threads fromiso None) (\<lambda>threads.
     bind_act (lift_act (\<lambda>_. first_candidate fromiso now (filter (\<lambda>x. th_status x = RsActive) threads))) (\<lambda>candidate.
       case candidate of
         None \<Rightarrow> ret_act ()
       | Some x \<Rightarrow>
           bind_act (lift_act (\<lambda>_. scheduler_context (re_context env) x)) (\<lambda>context.
             case advancer x of
               Inl e \<Rightarrow> apply_cooldown fromiso isoformat interval_seconds later x
             | Inr None \<Rightarrow> apply_cooldown fromiso isoformat interval_seconds later x
             | Inr (Some step) \<Rightarrow>
                 bind_act (advance_thread fromiso (env\<lparr>re_context := context\<rparr>) (th_id x) (Some step) None) (\<lambda>updated.
                   apply_cooldown fromiso isoformat interval_seconds later updated))))"

section \<open>The store as finite maps\<close>

definition thread_view :: "iso_parser \<Rightarrow> tables \<Rightarrow> string \<Rightarrow> ReasoningThread option" where
  "thread_view fromiso t = view (thread_from_wire fromiso) (t ''reason_threads'')"

definition step_view :: "tables \<Rightarrow> string \<Rightarrow> ReasoningStep option" where
  "step_view t = view step_from_wire (t ''reason_steps'')"

definition reason_stored :: "iso_parser \<Rightarrow> tables \<Rightarrow> bool" where
  "reason_stored fromiso t \<longleftrightarrow> stored_ok thread_to_wire th_id (thread_valid fromiso) (t ''reason_threads'')
     \<and> stored_ok step_to_wire st_id step_valid (t ''reason_steps'')"

lemma reason_repo [simp]:
  "threads.repo_view fromiso ''reason_threads'' t = thread_view fromiso t"
  "steps.repo_view ''reason_steps'' t = step_view t"
  by (simp_all add: threads.repo_view_def steps.repo_view_def thread_view_def step_view_def)

lemma reason_stored_iff:
  "reason_stored fromiso t \<longleftrightarrow> threads.repo_stored fromiso ''reason_threads'' t \<and> steps.repo_stored ''reason_steps'' t"
  by (simp add: threads.repo_stored_def steps.repo_stored_def reason_stored_def)

lemma reason_frame:
  assumes "t' ''reason_threads'' = t ''reason_threads''" and "t' ''reason_steps'' = t ''reason_steps''"
  shows "reason_stored fromiso t' = reason_stored fromiso t" "thread_view fromiso t' = thread_view fromiso t"
    "step_view t' = step_view t"
  using assms by (simp_all add: reason_stored_def thread_view_def step_view_def)

lemma inbox_same:
  assumes "t' ''inbox_items'' = t ''inbox_items''"
  shows "inbox_ok fromiso t' = inbox_ok fromiso t" "inbox_view fromiso t' = inbox_view fromiso t"
  using assms by (simp_all add: inbox_ok_def inbox_stored_def inbox_items_def inbox_view_def)

lemma thread_view_valid:
  assumes "reason_stored fromiso t" and "thread_view fromiso t i = Some x"
  shows "thread_valid fromiso x" "th_id x = i"
  using threads.repo_view_valid [of fromiso "''reason_threads''" t i x] assms by (simp_all add: reason_stored_iff)

lemma get_thread_view:
  "reason_stored fromiso t \<Longrightarrow> get_thread fromiso i t =
    (case thread_view fromiso t i of None \<Rightarrow> (Inl (ReasonNotFound i), t) | Some x \<Rightarrow> (Inr x, t))"
  using threads.repo_get_view [of fromiso "''reason_threads''" t i] by (simp add: get_thread_def reason_stored_iff)

lemma list_threads_run:
  assumes "reason_stored fromiso t"
  obtains xs where "list_threads fromiso status t = (Inr xs, t)"
    "set xs = {x \<in> ran (thread_view fromiso t). thread_selected status x}"
    "sorted (map (\<lambda>x. (th_created_at x, th_id x)) xs)" "distinct (map th_id xs)"
proof -
  let ?all = "stored_records (thread_from_wire fromiso) (t ''reason_threads'')"
  let ?xs = "sort_key (\<lambda>x. (th_created_at x, th_id x)) (filter (thread_selected status) ?all)"
  have s: "threads.repo_stored fromiso ''reason_threads'' t" using assms by (simp add: reason_stored_iff)
  have "list_threads fromiso status t = (Inr ?xs, t)"
    by (simp add: list_threads_def bind_act_def threads.repo_list_stored [OF s])
  moreover have "set ?xs = {x \<in> ran (thread_view fromiso t). thread_selected status x}"
    using threads.set_repo_list [OF s] by auto
  moreover have "distinct (map th_id ?xs)"
  proof -
    have "distinct (map fst (t ''reason_threads''))"
      using assms by (simp add: reason_stored_def stored_ok_def rows_ok_distinct)
    then have "distinct (map th_id ?all)" using threads.repo_list_keys [OF s] by simp
    then have "distinct (map th_id (filter (thread_selected status) ?all))" by (rule distinct_map_filter)
    then show ?thesis by (simp only: distinct_map_sort)
  qed
  ultimately show ?thesis by (intro that [of ?xs]) simp_all
qed

lemma resolve_thread_by_id:
  "reason_stored fromiso t \<Longrightarrow> thread_view fromiso t i = Some x \<Longrightarrow> resolve_thread fromiso i status t = (Inr x, t)"
  by (simp add: resolve_thread_def get_thread_view)

lemma resolve_visible_item_mem:
  assumes "resolve_visible_item value items = Inr (Some x)"
  shows "x \<in> set items"
  using assms
  by (auto simp: resolve_visible_item_def parse_visible_index_def check_index_def result_simps intro!: nth_mem
      split: if_splits)

lemma resolve_thread_found:
  assumes t: "reason_stored fromiso t" and r: "resolve_thread fromiso i status t = (r, t')"
  shows "t' = t" and "r = Inr x \<Longrightarrow> thread_view fromiso t (th_id x) = Some x"
proof -
  obtain xs where xs: "list_threads fromiso status t = (Inr xs, t)"
    "set xs = {x \<in> ran (thread_view fromiso t). thread_selected status x}"
    by (rule list_threads_run [OF t])
  have "t' = t \<and> (r = Inr x \<longrightarrow> thread_view fromiso t (th_id x) = Some x)"
  proof (cases "thread_view fromiso t i")
    case (Some y)
    with r thread_view_valid [OF t Some] show ?thesis by (auto simp: resolve_thread_by_id [OF t])
  next
    case None
    then have res: "resolve_thread fromiso i status t = ((case resolve_visible_item i xs of
                Inl (VisibleHandleError m) \<Rightarrow> Inl (ReasonNotFound i)
              | Inl e \<Rightarrow> Inl e
              | Inr None \<Rightarrow> Inl (ReasonNotFound i)
              | Inr (Some x) \<Rightarrow> Inr x), t)"
      by (simp add: resolve_thread_def get_thread_view [OF t] bind_act_def xs(1))
    have mem: "y \<in> set xs" if "resolve_visible_item i xs = Inr (Some y)" for y
      using that by (rule resolve_visible_item_mem)
    show ?thesis
      using r res mem xs(2) thread_view_valid [OF t]
      by (auto simp: ran_def split: sum.splits option.splits exn.splits)
  qed
  then show "t' = t" and "r = Inr x \<Longrightarrow> thread_view fromiso t (th_id x) = Some x" by simp_all
qed


text \<open>What a write of a thread or a step does: \<open>others\<close> says which collections it leaves alone.\<close>

definition others :: "string set \<Rightarrow> tables \<Rightarrow> tables \<Rightarrow> bool" where
  "others cs t t' \<longleftrightarrow> (\<forall>c. c \<notin> cs \<longrightarrow> t' c = t c)"

lemma others_refl [simp]: "others cs t t"
  by (simp add: others_def)

lemma others_trans: "others cs t u \<Longrightarrow> others ds u v \<Longrightarrow> cs \<subseteq> es \<Longrightarrow> ds \<subseteq> es \<Longrightarrow> others es t v"
  unfolding others_def by (metis subsetD)

lemma save_thread_run:
  assumes t: "reason_stored fromiso t" and x: "thread_valid fromiso x"
  obtains t' where "save_thread x t = (Inr x, t')" "reason_stored fromiso t'"
    "thread_view fromiso t' = (thread_view fromiso t)(th_id x \<mapsto> x)" "step_view t' = step_view t"
    "others {''reason_threads''} t t'"
proof -
  have "threads.repo_stored fromiso ''reason_threads'' t" using t by (simp add: reason_stored_iff)
  from threads.repo_put [OF this x] obtain t' where t':
    "tab_put ''reason_threads'' (th_id x) (thread_to_wire x) t = (Inr (), t')"
    "threads.repo_stored fromiso ''reason_threads'' t'"
    "threads.repo_view fromiso ''reason_threads'' t' = (threads.repo_view fromiso ''reason_threads'' t)(th_id x \<mapsto> x)"
    "\<And>c. c \<noteq> ''reason_threads'' \<Longrightarrow> t' c = t c" by blast
  moreover have "t' ''reason_steps'' = t ''reason_steps''" by (rule t'(4)) simp
  ultimately show ?thesis
    using t by (intro that [of t'])
      (simp_all add: save_thread_def bind_act_def reason_stored_def threads.repo_stored_def step_view_def others_def)
qed

lemma save_step_run:
  assumes t: "reason_stored fromiso t" and x: "step_valid x"
  obtains t' where "save_step x t = (Inr x, t')" "reason_stored fromiso t'"
    "step_view t' = (step_view t)(st_id x \<mapsto> x)" "thread_view fromiso t' = thread_view fromiso t"
    "others {''reason_steps''} t t'"
proof -
  have "steps.repo_stored ''reason_steps'' t" using t by (simp add: reason_stored_iff)
  from steps.repo_put [OF this x] obtain t' where t':
    "tab_put ''reason_steps'' (st_id x) (step_to_wire x) t = (Inr (), t')" "steps.repo_stored ''reason_steps'' t'"
    "steps.repo_view ''reason_steps'' t' = (steps.repo_view ''reason_steps'' t)(st_id x \<mapsto> x)"
    "\<And>c. c \<noteq> ''reason_steps'' \<Longrightarrow> t' c = t c" by blast
  moreover have "t' ''reason_threads'' = t ''reason_threads''" by (rule t'(4)) simp
  ultimately show ?thesis
    using t by (intro that [of t'])
      (simp_all add: save_step_def bind_act_def reason_stored_def steps.repo_stored_def thread_view_def others_def)
qed

section \<open>What a merge does\<close>

definition item_keys :: "pyobj list \<Rightarrow> pyobj set" where
  "item_keys xs = (\<lambda>d. hash_key (item_label d)) ` set xs"

definition new_keys :: "pyobj list \<Rightarrow> pyobj set" where
  "new_keys xs = item_keys (filter (\<lambda>d. truthy (item_label d)) xs)"

lemma label_key_Inr [result_simps]:
  "label_key d = Inr key \<longleftrightarrow> hashable (item_label d) \<and> key = hash_key (item_label d)"
  by (auto simp: label_key_def)

lemma mapE_label_key: "mapE label_key xs = Inr keys \<Longrightarrow> keys = map (\<lambda>d. hash_key (item_label d)) xs"
  by (induction xs arbitrary: keys) (auto simp: result_simps)

lemma keep_items_run:
  "keep_items retired xs = Inr ys \<Longrightarrow> ys = filter (\<lambda>d. hash_key (item_label d) \<notin> set retired) xs"
  by (induction xs arbitrary: ys) (auto simp: result_simps)

lemma add_items_run:
  assumes "add_items merged seen xs = Inr ys" and "set seen = item_keys merged"
  shows "item_keys ys = item_keys merged \<union> new_keys xs \<and> (\<exists>zs. ys = merged @ zs \<and> set zs \<subseteq> set xs)
    \<and> (distinct (map (\<lambda>d. hash_key (item_label d)) merged) \<longrightarrow> distinct (map (\<lambda>d. hash_key (item_label d)) ys))"
  using assms
proof (induction xs arbitrary: merged seen)
  case (Cons d ds)
  let ?key = "hash_key (item_label d)"
  consider (skip) "\<not> truthy (item_label d)" "add_items merged seen ds = Inr ys"
    | (old) "truthy (item_label d)" "?key \<in> set seen" "add_items merged seen ds = Inr ys"
    | (new) "truthy (item_label d)" "?key \<notin> set seen" "add_items (merged @ [d]) (?key # seen) ds = Inr ys"
    using Cons.prems by (auto simp: result_simps split: if_splits)
  then show ?case
  proof cases
    case skip
    with Cons.IH [OF skip(2) Cons.prems(2)] show ?thesis by (auto simp: new_keys_def)
  next
    case old
    with Cons.IH [OF old(3) Cons.prems(2)] Cons.prems(2) show ?thesis by (auto simp: new_keys_def item_keys_def)
  next
    case new
    have "set (?key # seen) = item_keys (merged @ [d])" using Cons.prems(2) by (auto simp: item_keys_def)
    with Cons.IH [OF new(3)] new Cons.prems(2) show ?thesis by (auto simp: new_keys_def item_keys_def)
  qed
qed (auto simp: new_keys_def item_keys_def)

lemma merge_tracked_items_run:
  assumes "merge_tracked_items existing new_items retired = Inr ys"
  shows "item_keys ys = (item_keys existing - item_keys retired) \<union> new_keys new_items"
    and "\<exists>zs. ys = filter (\<lambda>d. hash_key (item_label d) \<notin> item_keys retired) existing @ zs \<and> set zs \<subseteq> set new_items"
    and "distinct (map (\<lambda>d. hash_key (item_label d)) existing) \<Longrightarrow> distinct (map (\<lambda>d. hash_key (item_label d)) ys)"
proof -
  let ?merged = "filter (\<lambda>d. hash_key (item_label d) \<notin> item_keys retired) existing"
  obtain seen where run: "add_items ?merged seen new_items = Inr ys" "set seen = item_keys ?merged"
    using assms
    by (auto simp: merge_tracked_items_def result_simps item_keys_def dest!: mapE_label_key keep_items_run)
  have keys: "item_keys ?merged = item_keys existing - item_keys retired" by (auto simp: item_keys_def)
  note added = add_items_run [OF run, unfolded keys]
  then show "item_keys ys = (item_keys existing - item_keys retired) \<union> new_keys new_items"
    and "\<exists>zs. ys = ?merged @ zs \<and> set zs \<subseteq> set new_items"
    and "distinct (map (\<lambda>d. hash_key (item_label d)) existing) \<Longrightarrow> distinct (map (\<lambda>d. hash_key (item_label d)) ys)"
    using distinct_map_filter [of "\<lambda>d. hash_key (item_label d)" existing] by blast+
qed

lemma merge_items_ok:
  assumes "merge_tracked_items existing new_items retired = Inr ys" and "items_ok existing" and "items_ok new_items"
  shows "items_ok ys"
  using merge_tracked_items_run(2) [OF assms(1)] assms(2,3) unfolding items_ok_def list_all_iff by fastforce

lemma merge_str_lists_spec:
  "length (merge_str_lists xs ys n) \<le> n" "set (merge_str_lists xs ys n) \<subseteq> set xs \<union> set ys"
  by (auto simp: merge_str_lists_def Let_def dest: in_set_dropD)

lemma make_thread_items:
  assumes "make_thread fromiso x = Inr y" and "items_ok (th_active_items x)" and "items_ok (th_pending_items x)"
    and "items_ok (th_next_steps x)"
  shows "y = x"
  using assms by (cases x) (auto simp: make_thread_def result_simps)

lemma advanced_thread_run:
  assumes "advanced_thread fromiso now x step = Inr y" and x: "thread_valid fromiso x" and s: "step_valid step"
  obtains active pending where
    "merge_tracked_items (th_active_items x) (st_new_findings step) (st_retired_findings step) = Inr active"
    "merge_tracked_items (th_pending_items x) (st_new_pending step) [] = Inr pending"
    "y = x\<lparr>th_status := (case status_from_terminal_status (st_terminal_status step) of None \<Rightarrow> th_status x | Some s \<Rightarrow> s),
       th_working_summary := st_summary step,
       th_evidence_refs := merge_str_lists (th_evidence_refs x) (st_evidence_refs step) max_evidence_refs,
       th_last_advanced_at := Some now, th_updated_at := now, th_active_items := active, th_pending_items := pending,
       th_next_steps := (if st_next_steps step \<noteq> [] then st_next_steps step else th_next_steps x)\<rparr>"
    "thread_valid fromiso y"
proof -
  from assms(1) obtain active pending where m:
    "merge_tracked_items (th_active_items x) (st_new_findings step) (st_retired_findings step) = Inr active"
    "merge_tracked_items (th_pending_items x) (st_new_pending step) [] = Inr pending"
    "make_thread fromiso (x\<lparr>th_status := (case status_from_terminal_status (st_terminal_status step) of None \<Rightarrow> th_status x | Some s \<Rightarrow> s),
        th_working_summary := (if st_summary step \<noteq> '''' then st_summary step else th_working_summary x),
        th_evidence_refs := merge_str_lists (th_evidence_refs x) (st_evidence_refs step) max_evidence_refs,
        th_last_advanced_at := Some now, th_updated_at := now, th_active_items := active, th_pending_items := pending,
        th_next_steps := (if st_next_steps step \<noteq> [] then st_next_steps step else th_next_steps x)\<rparr>) = Inr y"
    by (auto simp: advanced_thread_def result_simps)
  have "st_summary step \<noteq> ''''" using s by (auto simp: step_valid_def)
  moreover have "items_ok active" "items_ok pending"
    using merge_items_ok [OF m(1)] merge_items_ok [OF m(2)] x s by (simp_all add: thread_valid_def step_valid_def)
  moreover have "thread_valid fromiso y" by (rule make_thread_valid [OF m(3)]) (use x in \<open>simp add: thread_valid_def\<close>)
  ultimately show ?thesis
    using m make_thread_items [OF m(3)] x s by (intro that [of active pending]) (simp_all add: thread_valid_def step_valid_def)
qed

section \<open>Advancing a thread\<close>

text \<open>
  C19: What a step does to its thread: identity, topic, priority, mandates, prompt and cooldown stay;
  the status follows the step's recommendation; at most twenty evidence references are kept; of the
  tracked items exactly the retired ones leave and those with a new non-empty label join, behind the
  others, and items with distinct labels keep distinct labels.
\<close>

theorem advanced_thread_spec:
  assumes "advanced_thread fromiso now x step = Inr y" and "thread_valid fromiso x" and "step_valid step"
  shows "thread_valid fromiso y
    \<and> (th_id y, th_topic y, th_priority y, th_created_at y, th_mandates y, th_reasoning_prompt y, th_skip_until y)
      = (th_id x, th_topic x, th_priority x, th_created_at x, th_mandates x, th_reasoning_prompt x, th_skip_until x)
    \<and> th_status y = (case st_terminal_status step of TsContinue \<Rightarrow> th_status x | TsSuggestPaused \<Rightarrow> RsPaused | TsSuggestResolved \<Rightarrow> RsResolved)
    \<and> length (th_evidence_refs y) \<le> 20 \<and> set (th_evidence_refs y) \<subseteq> set (th_evidence_refs x) \<union> set (st_evidence_refs step)
    \<and> item_keys (th_active_items y) = (item_keys (th_active_items x) - item_keys (st_retired_findings step)) \<union> new_keys (st_new_findings step)
    \<and> (\<exists>zs. th_active_items y = filter (\<lambda>d. hash_key (item_label d) \<notin> item_keys (st_retired_findings step)) (th_active_items x) @ zs)
    \<and> item_keys (th_pending_items y) = item_keys (th_pending_items x) \<union> new_keys (st_new_pending step)
    \<and> (distinct (map (\<lambda>d. hash_key (item_label d)) (th_active_items x)) \<longrightarrow>
         distinct (map (\<lambda>d. hash_key (item_label d)) (th_active_items y)))"
proof -
  obtain active pending where m:
    "merge_tracked_items (th_active_items x) (st_new_findings step) (st_retired_findings step) = Inr active"
    "merge_tracked_items (th_pending_items x) (st_new_pending step) [] = Inr pending"
    "y = x\<lparr>th_status := (case status_from_terminal_status (st_terminal_status step) of None \<Rightarrow> th_status x | Some s \<Rightarrow> s),
       th_working_summary := st_summary step,
       th_evidence_refs := merge_str_lists (th_evidence_refs x) (st_evidence_refs step) max_evidence_refs,
       th_last_advanced_at := Some now, th_updated_at := now, th_active_items := active, th_pending_items := pending,
       th_next_steps := (if st_next_steps step \<noteq> [] then st_next_steps step else th_next_steps x)\<rparr>"
    "thread_valid fromiso y"
    by (rule advanced_thread_run [OF assms])
  have "item_keys [] = {}" by (simp add: item_keys_def)
  with merge_tracked_items_run [OF m(1)] merge_tracked_items_run(1) [OF m(2)] m(4)
    merge_str_lists_spec [of "th_evidence_refs x" "st_evidence_refs step" max_evidence_refs]
  show ?thesis
    unfolding m(3) by (cases "st_terminal_status step") (auto simp: max_evidence_refs_def)
qed

text \<open>The values drawn from the clock and the ambient context are well formed.\<close>

definition env_ok :: "iso_parser \<Rightarrow> ReasonEnv \<Rightarrow> bool" where
  "env_ok fromiso env \<longleftrightarrow> is_aware fromiso (re_inbox_created env) \<and> is_aware fromiso (re_inbox_updated env)
     \<and> context_valid (re_context env)"

lemma reason_step_item_valid:
  "env_ok fromiso env \<Longrightarrow> step_valid step \<Longrightarrow> inbox_valid fromiso (reason_step_item env y step)"
  by (simp add: env_ok_def step_valid_def inbox_valid_def reason_step_item_def)

lemma requires_attention: "step_valid step \<Longrightarrow> step_requires_attention step \<longleftrightarrow> st_kind step \<noteq> SkNoChange"
  by (auto simp: step_requires_attention_def step_valid_def strip_eq_Nil)

lemma record_trace_frame: "others {''trace_nodes''} t (snd (record_trace x t))"
  by (auto simp: record_trace_def save_trace_def bind_act_def tab_put_def others_def split: sum.splits)

lemma observed_run [simp]: "observed m t = (Inr (), snd (m t))"
  by (simp add: observed_def)

lemma reason_others:
  assumes "others cs t t'" and "''reason_threads'' \<notin> cs" and "''reason_steps'' \<notin> cs"
  shows "reason_stored fromiso t' = reason_stored fromiso t" "thread_view fromiso t' = thread_view fromiso t"
    "step_view t' = step_view t"
  using assms by (auto intro!: reason_frame simp: others_def)

lemma inbox_others:
  assumes "others cs t t'" and "''inbox_items'' \<notin> cs"
  shows "inbox_ok fromiso t' = inbox_ok fromiso t" "inbox_view fromiso t' = inbox_view fromiso t"
  using assms by (auto intro!: inbox_same simp: others_def)

lemma inbox_add_frame: "others {''inbox_items''} t (snd (inbox_add fromiso item t))"
  by (auto simp: inbox_add_def inbox_add_with_def atomic_act_def bind_act_def repo_list_def tab_list_def tab_put_def others_def
      split: sum.splits option.splits)

text \<open>What the attention notice does to the Inbox: nothing, or one item under the step's own key.\<close>

definition notified :: "iso_parser \<Rightarrow> InboxItem \<Rightarrow> tables \<Rightarrow> tables \<Rightarrow> bool" where
  "notified fromiso item t t' \<longleftrightarrow>
     (if \<exists>z \<in> ran (inbox_view fromiso t). inbox_idempotency_key z = inbox_idempotency_key item
      then inbox_view fromiso t' = inbox_view fromiso t
      else inbox_view fromiso t' = (inbox_view fromiso t)(inbox_id item \<mapsto> item))"

lemma inbox_add_notified:
  assumes "inbox_ok fromiso t" and "inbox_valid fromiso item"
  obtains z t' where "inbox_add fromiso item t = (Inr z, t')" "inbox_ok fromiso t'" "notified fromiso item t t'"
proof (rule inbox_add_result [OF assms])
  fix y
  assume "y \<in> ran (inbox_view fromiso t)" "inbox_idempotency_key y = inbox_idempotency_key item"
    "inbox_add fromiso item t = (Inr y, t)"
  with assms(1) show ?thesis by (intro that [of y t]) (auto simp: notified_def)
next
  fix t'
  assume "\<forall>y \<in> ran (inbox_view fromiso t). inbox_idempotency_key y \<noteq> inbox_idempotency_key item"
    "inbox_add fromiso item t = (Inr item, t')" "inbox_ok fromiso t'"
    "inbox_view fromiso t' = (inbox_view fromiso t)(inbox_id item \<mapsto> item)"
  then show ?thesis by (intro that [of item t']) (auto simp: notified_def)
qed

lemma save_both_run:
  assumes t: "reason_stored fromiso t" and s: "step_valid step" and y: "thread_valid fromiso y"
  obtains t' where "atomic_act (bind_act (save_step step) (\<lambda>_. save_thread y)) t = (Inr y, t')" "reason_stored fromiso t'"
    "thread_view fromiso t' = (thread_view fromiso t)(th_id y \<mapsto> y)" "step_view t' = (step_view t)(st_id step \<mapsto> step)"
    "others {''reason_threads'', ''reason_steps''} t t'"
proof -
  obtain u where u: "save_step step t = (Inr step, u)" "reason_stored fromiso u"
    "step_view u = (step_view t)(st_id step \<mapsto> step)" "thread_view fromiso u = thread_view fromiso t"
    "others {''reason_steps''} t u"
    by (rule save_step_run [OF t s])
  obtain t' where t': "save_thread y u = (Inr y, t')" "reason_stored fromiso t'"
    "thread_view fromiso t' = (thread_view fromiso u)(th_id y \<mapsto> y)" "step_view t' = step_view u"
    "others {''reason_threads''} u t'"
    by (rule save_thread_run [OF u(2) y])
  have "others {''reason_threads'', ''reason_steps''} t t'" by (rule others_trans [OF u(5) t'(5)]) simp_all
  with u t' show ?thesis by (intro that [of t']) (simp_all add: atomic_act_def bind_act_def)
qed

text \<open>An advancement of a thread that was read some time ago, with a given step.\<close>

lemma finish_advance_cases:
  assumes t: "reason_stored fromiso t" "inbox_ok fromiso t" and env: "env_ok fromiso env" and s: "step_valid step"
    and x: "thread_valid fromiso x"
  obtains (failed) e where "advanced_thread fromiso (re_now env) x step = Inl e"
      "finish_advance fromiso env (Some step) adv x t = (Inl e, t)"
  | (advanced) y t' where "advanced_thread fromiso (re_now env) x step = Inr y" "thread_valid fromiso y"
      "th_id y = th_id x" "finish_advance fromiso env (Some step) adv x t = (Inr y, t')" "reason_stored fromiso t'" "inbox_ok fromiso t'"
      "thread_view fromiso t' = (thread_view fromiso t)(th_id x \<mapsto> y)" "step_view t' = (step_view t)(st_id step \<mapsto> step)"
      "if st_kind step = SkNoChange then inbox_view fromiso t' = inbox_view fromiso t
       else notified fromiso (reason_step_item env y step) t t'"
      "others {''reason_threads'', ''reason_steps'', ''inbox_items'', ''trace_nodes''} t t'"
proof -
  consider e where "advanced_thread fromiso (re_now env) x step = Inl e"
    | y where "advanced_thread fromiso (re_now env) x step = Inr y"
    by (cases "advanced_thread fromiso (re_now env) x step") auto
  then show ?thesis
  proof cases
    case 1
    then show ?thesis by (intro failed [of e]) (simp_all add: finish_advance_def bind_act_def choose_step_def)
  next
    case (2 y)
    let ?item = "reason_step_item env y step"
    let ?rec = "record_reason_step (re_trace_id env) (re_trace_now env) (th_id y) (th_topic y) (st_id step)
         (step_kind_str (st_kind step)) (st_summary step) (st_evidence_refs step)
         (terminal_status_str (st_terminal_status step)) (st_terminal_reason step) []"
    obtain yv: "thread_valid fromiso y" and yi: "th_id y = th_id x"
      by (rule advanced_thread_run [OF 2 x s]) simp
    obtain u where u: "atomic_act (bind_act (save_step step) (\<lambda>_. save_thread y)) t = (Inr y, u)" "reason_stored fromiso u"
      "thread_view fromiso u = (thread_view fromiso t)(th_id y \<mapsto> y)" "step_view u = (step_view t)(st_id step \<mapsto> step)"
      "others {''reason_threads'', ''reason_steps''} t u"
      by (rule save_both_run [OF t(1) s yv])
    have iu: "inbox_ok fromiso u" "inbox_view fromiso u = inbox_view fromiso t"
      using inbox_others [OF u(5)] t(2) by simp_all
    have item: "inbox_valid fromiso ?item" using env s by (rule reason_step_item_valid)
    obtain z v where v: "(if step_requires_attention step
               then bind_act (lift_act (\<lambda>_. make_inbox_item fromiso ?item)) (inbox_add fromiso)
               else ret_act ?item) u = (Inr z, v)" "inbox_ok fromiso v"
      "if st_kind step = SkNoChange then inbox_view fromiso v = inbox_view fromiso u else notified fromiso ?item u v"
      "others {''inbox_items''} u v"
    proof (cases "st_kind step = SkNoChange")
      case True
      then show ?thesis using iu requires_attention [OF s] by (intro that [of ?item u]) simp_all
    next
      case False
      from inbox_add_notified [OF iu(1) item] obtain z v where
        v: "inbox_add fromiso ?item u = (Inr z, v)" "inbox_ok fromiso v" "notified fromiso ?item u v" by blast
      moreover have "others {''inbox_items''} u v" using inbox_add_frame [of u fromiso ?item] v(1) by simp
      ultimately show ?thesis
        using False requires_attention [OF s] item by (intro that [of z v]) (simp_all add: bind_act_def)
    qed
    let ?t = "snd (?rec v)"
    have f: "others {''trace_nodes''} v ?t" unfolding record_reason_step_def by (rule record_trace_frame)
    have run: "finish_advance fromiso env (Some step) adv x t = (Inr y, ?t)"
      using 2 u(1) v(1) by (simp add: finish_advance_def bind_act_def choose_step_def split del: if_split)
    have ut: "others {''inbox_items'', ''trace_nodes''} u ?t" by (rule others_trans [OF v(4) f]) auto
    show ?thesis
    proof (rule advanced [OF 2 yv yi run])
      show "reason_stored fromiso ?t" "thread_view fromiso ?t = (thread_view fromiso t)(th_id x \<mapsto> y)"
        "step_view ?t = (step_view t)(st_id step \<mapsto> step)"
        using reason_others [OF ut] u yi by simp_all
      show "inbox_ok fromiso ?t" using inbox_others [OF f] v(2) by simp
      show "if st_kind step = SkNoChange then inbox_view fromiso ?t = inbox_view fromiso t else notified fromiso ?item t ?t"
        using inbox_others(2) [OF f, of fromiso] v(3) iu(2) by (simp add: notified_def split: if_splits)
      show "others {''reason_threads'', ''reason_steps'', ''inbox_items'', ''trace_nodes''} t ?t"
        by (rule others_trans [OF u(5) ut]) auto
    qed
  qed
qed

lemma finish_choice: "choose_step given adv x = Inr step \<Longrightarrow> finish_advance fromiso env given adv x = finish_advance fromiso env (Some step) adv x"
  by (rule ext) (simp add: finish_advance_def bind_act_def choose_step_def)

text \<open>An advancement with a given step, once the thread is resolved.\<close>

lemma advance_resolved:
  assumes t: "reason_stored fromiso t" "inbox_ok fromiso t" and env: "env_ok fromiso env" and s: "step_valid step"
    and r: "resolve_thread fromiso i (Some ''all'') t = (Inr x, t)" and x: "thread_view fromiso t (th_id x) = Some x"
  obtains (inactive) "th_status x \<noteq> RsActive"
      "advance_thread fromiso env i (Some step) adv t = (Inl (ReasonAdvanceError ''expected active''), t)"
  | (failed) e where "th_status x = RsActive" "advanced_thread fromiso (re_now env) x step = Inl e"
      "advance_thread fromiso env i (Some step) adv t = (Inl e, t)"
  | (advanced) y t' where "th_status x = RsActive" "advanced_thread fromiso (re_now env) x step = Inr y" "thread_valid fromiso y"
      "th_id y = th_id x" "advance_thread fromiso env i (Some step) adv t = (Inr y, t')" "reason_stored fromiso t'" "inbox_ok fromiso t'"
      "thread_view fromiso t' = (thread_view fromiso t)(th_id x \<mapsto> y)" "step_view t' = (step_view t)(st_id step \<mapsto> step)"
      "if st_kind step = SkNoChange then inbox_view fromiso t' = inbox_view fromiso t
       else notified fromiso (reason_step_item env y step) t t'"
      "others {''reason_threads'', ''reason_steps'', ''inbox_items'', ''trace_nodes''} t t'"
proof (cases "th_status x = RsActive")
  case False
  then show ?thesis by (intro inactive) (simp_all add: advance_thread_def begin_advance_def bind_act_def r)
next
  case True
  have run: "advance_thread fromiso env i (Some step) adv t = finish_advance fromiso env (Some step) adv x t"
    using True by (simp add: advance_thread_def begin_advance_def bind_act_def r)
  show ?thesis
    by (rule finish_advance_cases [OF t env s thread_view_valid(1) [OF t(1) x], of adv])
      (use True run in \<open>auto intro: failed advanced\<close>)
qed

text \<open>
  Advancing a stored thread with a valid step is refused without any change unless the thread is
  active and the step can be merged. Otherwise step and merged thread are stored together, every
  other thread and step stays, and the Inbox gets at most one notice for the step, ever: none for a
  step that changed nothing, and none if an item with the step's key is already there.
\<close>

theorem advance_thread_spec:
  assumes "reason_stored fromiso t" and "inbox_ok fromiso t" and "env_ok fromiso env" and "step_valid step"
    and "thread_view fromiso t i = Some x"
  shows "case advance_thread fromiso env i (Some step) adv t of
      (Inl e, t') \<Rightarrow> t' = t \<and> (if th_status x \<noteq> RsActive then e = ReasonAdvanceError ''expected active''
         else advanced_thread fromiso (re_now env) x step = Inl e)
    | (Inr y, t') \<Rightarrow> th_status x = RsActive \<and> advanced_thread fromiso (re_now env) x step = Inr y
         \<and> thread_view fromiso t' = (thread_view fromiso t)(i \<mapsto> y) \<and> step_view t' = (step_view t)(st_id step \<mapsto> step)
         \<and> inbox_view fromiso t' =
             (if st_kind step = SkNoChange
                \<or> (\<exists>z \<in> ran (inbox_view fromiso t). inbox_idempotency_key z = ''reason-step-'' @ st_id step)
              then inbox_view fromiso t
              else (inbox_view fromiso t)(''inbox-reason-step-'' @ st_id step \<mapsto> reason_step_item env y step))
         \<and> reason_stored fromiso t' \<and> inbox_ok fromiso t'"
proof -
  have x: "th_id x = i" using thread_view_valid [OF assms(1,5)] by simp
  have r: "resolve_thread fromiso i (Some ''all'') t = (Inr x, t)" using assms(1,5) by (rule resolve_thread_by_id)
  show ?thesis
    by (rule advance_resolved [OF assms(1-4) r, of adv]) (use assms(5) x in
        \<open>auto simp: notified_def reason_step_item_def split: if_splits\<close>)
qed

section \<open>Transitions, deferral, deletion\<close>

lemma resolve_cases:
  assumes "reason_stored fromiso t"
  obtains (missing) e where "resolve_thread fromiso i status t = (Inl e, t)"
  | (found) x where "resolve_thread fromiso i status t = (Inr x, t)" "thread_view fromiso t (th_id x) = Some x"
    "thread_valid fromiso x"
proof (cases "resolve_thread fromiso i status t")
  case (Pair r u)
  have u: "u = t" by (rule resolve_thread_found(1) [OF assms Pair])
  show ?thesis
  proof (cases r)
    case (Inl e)
    with Pair u show ?thesis by (intro missing) simp
  next
    case (Inr x)
    have "thread_view fromiso t (th_id x) = Some x" by (rule resolve_thread_found(2) [OF assms Pair Inr])
    with Pair u Inr thread_view_valid [OF assms this] show ?thesis by (intro found [of x]) simp_all
  qed
qed

lemma thread_with_status_run:
  assumes "thread_valid fromiso x" and "thread_with_status fromiso now s x = Inr y"
  shows "y = x\<lparr>th_status := s, th_updated_at := now\<rparr>" "thread_valid fromiso y"
proof -
  from assms show y: "y = x\<lparr>th_status := s, th_updated_at := now\<rparr>"
    by (simp add: thread_with_status_def thread_valid_def make_thread_items)
  from assms show "thread_valid fromiso y"
    unfolding thread_with_status_def by (intro make_thread_valid) (auto simp: thread_valid_def)
qed

lemma reason_transition_run:
  assumes t: "reason_stored fromiso t" and run: "reason_transition fromiso now s i t = (r, t')"
  obtains (failed) e where "r = Inl e" "t' = t"
  | (moved) x y where "r = Inr y" "resolve_thread fromiso i (Some ''all'') t = (Inr x, t)"
      "thread_view fromiso t (th_id x) = Some x" "s \<in> set (allowed_transitions (th_status x))"
      "y = x\<lparr>th_status := s, th_updated_at := now\<rparr>" "reason_stored fromiso t'"
      "thread_view fromiso t' = (thread_view fromiso t)(th_id x \<mapsto> y)" "others {''reason_threads''} t t'"
proof (cases rule: resolve_cases [OF t, of i "Some ''all''"])
  case (1 e)
  with run show ?thesis by (intro failed [of e]) (simp_all add: reason_transition_def finish_transition_def bind_act_def)
next
  case x: (2 x)
  show ?thesis
  proof (cases "s \<in> set (allowed_transitions (th_status x))")
    case False
    with x run show ?thesis
      by (intro failed [of "ReasonTransitionError ''Cannot transition thread''"])
        (auto simp: reason_transition_def finish_transition_def bind_act_def)
  next
    case True
    show ?thesis
    proof (cases "thread_with_status fromiso now s x")
      case (Inl e)
      with True x run show ?thesis by (intro failed [of e]) (auto simp: reason_transition_def finish_transition_def bind_act_def)
    next
      case (Inr y)
      note y = thread_with_status_run [OF x(3) Inr]
      from save_thread_run [OF t y(2)] obtain u where u: "save_thread y t = (Inr y, u)" "reason_stored fromiso u"
        "thread_view fromiso u = (thread_view fromiso t)(th_id y \<mapsto> y)" "others {''reason_threads''} t u" by blast
      with True x run Inr y show ?thesis
        by (intro moved [of y x]) (auto simp: reason_transition_def finish_transition_def bind_act_def)
    qed
  qed
qed

lemma defer_advancement_run:
  assumes t: "reason_stored fromiso t" and run: "defer_advancement fromiso until i t = (r, t')"
  obtains (failed) e where "r = Inl e" "t' = t"
  | (deferred) x y where "r = Inr y" "resolve_thread fromiso i (Some ''all'') t = (Inr x, t)"
      "thread_view fromiso t (th_id x) = Some x" "y = x\<lparr>th_skip_until := Some until\<rparr>" "reason_stored fromiso t'"
      "thread_view fromiso t' = (thread_view fromiso t)(th_id x \<mapsto> y)" "others {''reason_threads''} t t'"
proof (cases rule: resolve_cases [OF t, of i "Some ''all''"])
  case (1 e)
  with run show ?thesis by (intro failed [of e]) (simp_all add: defer_advancement_def finish_deferral_def bind_act_def)
next
  case x: (2 x)
  show ?thesis
  proof (cases "make_thread fromiso (x\<lparr>th_skip_until := Some until\<rparr>)")
    case (Inl e)
    with x run show ?thesis by (intro failed [of e]) (auto simp: defer_advancement_def finish_deferral_def bind_act_def)
  next
    case (Inr y)
    have y: "y = x\<lparr>th_skip_until := Some until\<rparr>"
      using make_thread_items [OF Inr] x(3) by (simp add: thread_valid_def)
    have "thread_valid fromiso y" using make_thread_valid [OF Inr] x(3) by (simp add: thread_valid_def)
    from save_thread_run [OF t this] obtain u where u: "save_thread y t = (Inr y, u)" "reason_stored fromiso u"
      "thread_view fromiso u = (thread_view fromiso t)(th_id y \<mapsto> y)" "others {''reason_threads''} t u" by blast
    with x run Inr y show ?thesis
      by (intro deferred [of y x]) (auto simp: defer_advancement_def finish_deferral_def bind_act_def)
  qed
qed

lemma delete_steps_run:
  assumes "reason_stored fromiso t"
  obtains t' where "delete_steps raws t = (Inr (), t')" "reason_stored fromiso t'"
    "thread_view fromiso t' = thread_view fromiso t" "others {''reason_steps''} t t'"
    "step_view t' = (\<lambda>k. if \<exists>raw \<in> set raws. dict_get raw ''id'' = PStr k then None else step_view t k)"
  using assms
proof (induction raws arbitrary: t thesis)
  case Nil
  then show ?case by (intro Nil(1) [of t]) simp_all
next
  case (Cons raw raws)
  show ?case
  proof (cases "\<exists>sid. dict_get raw ''id'' = PStr sid")
    case False
    obtain t' where "delete_steps raws t = (Inr (), t')" "reason_stored fromiso t'"
      "thread_view fromiso t' = thread_view fromiso t" "others {''reason_steps''} t t'"
      "step_view t' = (\<lambda>k. if \<exists>raw \<in> set raws. dict_get raw ''id'' = PStr k then None else step_view t k)"
      by (rule Cons.IH [OF _ Cons.prems(2)])
    with False show ?thesis by (intro Cons.prems(1) [of t']) (auto split: pyobj.splits)
  next
    case True
    then obtain sid where sid: "dict_get raw ''id'' = PStr sid" by blast
    have "steps.repo_stored ''reason_steps'' t" using Cons.prems(2) by (simp add: reason_stored_iff)
    from steps.repo_delete [OF this] obtain u where u:
      "tab_delete ''reason_steps'' sid t = (Inr (), u)" "steps.repo_stored ''reason_steps'' u"
      "steps.repo_view ''reason_steps'' u = (steps.repo_view ''reason_steps'' t)(sid := None)"
      "\<And>c. c \<noteq> ''reason_steps'' \<Longrightarrow> u c = t c" by blast
    have thr: "u ''reason_threads'' = t ''reason_threads''" by (rule u(4)) simp
    then have us: "reason_stored fromiso u"
      using Cons.prems(2) u(2) by (simp add: reason_stored_def steps.repo_stored_def)
    obtain t' where "delete_steps raws u = (Inr (), t')" "reason_stored fromiso t'"
      "thread_view fromiso t' = thread_view fromiso u" "others {''reason_steps''} u t'"
      "step_view t' = (\<lambda>k. if \<exists>raw \<in> set raws. dict_get raw ''id'' = PStr k then None else step_view u k)"
      by (rule Cons.IH [OF _ us])
    with u sid thr show ?thesis
      by (intro Cons.prems(1) [of t']) (auto simp: bind_act_def thread_view_def others_def fun_eq_iff)
  qed
qed

lemma find_steps:
  assumes "reason_stored fromiso t"
  shows "(\<exists>raw \<in> set (coll_find [(''thread_id'', i)] (t ''reason_steps'')). dict_get raw ''id'' = PStr k)
    \<longleftrightarrow> (\<exists>s. step_view t k = Some s \<and> st_thread_id s = i)"
proof -
  let ?c = "t ''reason_steps''"
  have ok: "stored_ok step_to_wire st_id step_valid ?c" using assms by (simp add: reason_stored_def)
  have rows: "coll_decode (key, p) = Inr ((''id'', PStr key) # p)
      \<and> (\<exists>s. step_view t key = Some s \<and> dict_get ((''id'', PStr key) # p) ''thread_id'' = PStr (st_thread_id s))"
    if "(key, p) \<in> set ?c" for key p
  proof -
    from that ok have "map_of ?c key = Some p" by (simp add: stored_ok_def rows_ok_mem)
    from steps.load_row [OF ok this] obtain s where s: "step_valid s" "st_id s = key" "p = payload_of (step_to_wire s)"
      "load step_from_wire ?c key = Inr (Some s)" .
    have "key \<noteq> ''''" using s by (auto simp: step_valid_def)
    with s show ?thesis by (simp add: step_view_def view_def dict_get_def payload_of_def step_to_wire_def coll_decode_def)
  qed
  have list: "coll_list c = map (\<lambda>(key, p). (''id'', PStr key) # p) c"
    if "\<forall>(key, p) \<in> set c. coll_decode (key, p) = Inr ((''id'', PStr key) # p)" for c
    using that by (induction c rule: coll_list.induct) auto
  have all: "coll_list ?c = map (\<lambda>(key, p). (''id'', PStr key) # p) ?c" by (rule list) (use rows in blast)
  have stored: "(\<exists>p. (k, p) \<in> set ?c) \<longleftrightarrow> (\<exists>s. step_view t k = Some s)"
  proof -
    have "rows_ok ?c" using ok by (simp add: stored_ok_def)
    then have "(\<exists>p. (k, p) \<in> set ?c) \<longleftrightarrow> (\<exists>p. map_of ?c k = Some p)" by (simp add: rows_ok_mem)
    moreover have "(\<exists>p. map_of ?c k = Some p) \<longleftrightarrow> (\<exists>s. step_view t k = Some s)"
      by (rule steps.load_cases [OF ok, of k]) (simp_all add: step_view_def view_def)
    ultimately show ?thesis by simp
  qed
  have "(\<exists>raw \<in> set (coll_find [(''thread_id'', i)] ?c). dict_get raw ''id'' = PStr k)
    \<longleftrightarrow> (\<exists>p. (k, p) \<in> set ?c \<and> dict_get ((''id'', PStr k) # p) ''thread_id'' = PStr i)"
    by (force simp: coll_find_def all dict_get_def)
  also have "\<dots> \<longleftrightarrow> (\<exists>s. step_view t k = Some s \<and> st_thread_id s = i)"
  proof
    assume "\<exists>p. (k, p) \<in> set ?c \<and> dict_get ((''id'', PStr k) # p) ''thread_id'' = PStr i"
    then obtain p where p: "(k, p) \<in> set ?c" "dict_get ((''id'', PStr k) # p) ''thread_id'' = PStr i" by blast
    with rows [OF p(1)] show "\<exists>s. step_view t k = Some s \<and> st_thread_id s = i" by auto
  next
    assume "\<exists>s. step_view t k = Some s \<and> st_thread_id s = i"
    then obtain s where s: "step_view t k = Some s" "st_thread_id s = i" by blast
    with stored obtain p where p: "(k, p) \<in> set ?c" by blast
    with rows [OF p] s show "\<exists>p. (k, p) \<in> set ?c \<and> dict_get ((''id'', PStr k) # p) ''thread_id'' = PStr i" by auto
  qed
  finally show ?thesis .
qed

lemma delete_thread_run:
  assumes t: "reason_stored fromiso t" and run: "delete_thread fromiso i t = (r, t')"
  obtains (failed) e where "r = Inl e" "t' = t"
  | (deleted) x where "r = Inr (th_id x)" "thread_view fromiso t (th_id x) = Some x" "reason_stored fromiso t'"
      "thread_view fromiso t' = (thread_view fromiso t)(th_id x := None)" "others {''reason_threads'', ''reason_steps''} t t'"
      "step_view t' = (\<lambda>k. case step_view t k of None \<Rightarrow> None | Some s \<Rightarrow> if st_thread_id s = th_id x then None else Some s)"
proof (cases rule: resolve_cases [OF t, of i "Some ''all''"])
  case (1 e)
  with run show ?thesis by (intro failed [of e]) (simp_all add: delete_thread_def bind_act_def)
next
  case x: (2 x)
  show ?thesis
  proof (cases "validate_segment (th_id x)")
    case (Inl e)
    with x run show ?thesis by (intro failed [of e]) (auto simp: delete_thread_def bind_act_def)
  next
    case (Inr ok)
    have "threads.repo_stored fromiso ''reason_threads'' t" using t by (simp add: reason_stored_iff)
    from threads.repo_delete [OF this] obtain u where u:
      "tab_delete ''reason_threads'' (th_id x) t = (Inr (), u)" "threads.repo_stored fromiso ''reason_threads'' u"
      "threads.repo_view fromiso ''reason_threads'' u = (threads.repo_view fromiso ''reason_threads'' t)(th_id x := None)"
      "\<And>c. c \<noteq> ''reason_threads'' \<Longrightarrow> u c = t c" by blast
    have st: "u ''reason_steps'' = t ''reason_steps''" by (rule u(4)) simp
    with t u(2) have us: "reason_stored fromiso u" by (simp add: reason_stored_def threads.repo_stored_def)
    let ?raws = "coll_find [(''thread_id'', th_id x)] (u ''reason_steps'')"
    from delete_steps_run [OF us, of ?raws] obtain v where v: "delete_steps ?raws u = (Inr (), v)"
      "reason_stored fromiso v" "thread_view fromiso v = thread_view fromiso u" "others {''reason_steps''} u v"
      "step_view v = (\<lambda>k. if \<exists>raw \<in> set ?raws. dict_get raw ''id'' = PStr k then None else step_view u k)" by blast
    have "delete_thread fromiso i t = (Inr (th_id x), v)"
      using x u(1) v(1) Inr by (simp add: delete_thread_def delete_thread_rows_def bind_act_def tab_find_def)
    moreover have "others {''reason_threads'', ''reason_steps''} t v"
      by (rule others_trans [OF _ v(4), of "{''reason_threads''}"]) (use u(4) in \<open>auto simp: others_def\<close>)
    moreover have "step_view v = (\<lambda>k. case step_view t k of None \<Rightarrow> None | Some s \<Rightarrow> if st_thread_id s = th_id x then None else Some s)"
      unfolding v(5) find_steps [OF us] using st by (auto simp: step_view_def fun_eq_iff split: option.splits)
    ultimately show ?thesis using run x v u(3) by (intro deleted [of x]) simp_all
  qed
qed

section \<open>The lifecycle of a thread\<close>

text \<open>
  A history is any interleaving of the parts of the operations, with the set of identifiers used so far (a
  new thread gets one that was never used) and the threads that operations have read and not yet written
  back. \<open>looked\<close> is the read of an operation (an advance can only go on with a thread that passed the check of
  \<open>begin_advance\<close> when it was read), \<open>dropped\<close> the end of one that raises or writes nothing; \<open>elsewhere\<close> is
  any change of other collections, such as the Inbox's own operations.
\<close>

type_synonym reason_state = "tables \<times> string set \<times> ReasoningThread list"

inductive reason_event :: "iso_parser \<Rightarrow> reason_state \<Rightarrow> reason_state \<Rightarrow> bool" for fromiso where
  started: "new_id \<notin> used \<Longrightarrow> new_id \<noteq> '''' \<Longrightarrow>
     start_thread fromiso env gen rootpath new_id topic summary evidence sources priority items mandates t = (r, t') \<Longrightarrow>
     reason_event fromiso (t, used, held) (t', insert new_id used, held)"
| looked: "resolve_thread fromiso i (Some ''all'') t = (Inr x, t) \<Longrightarrow> reason_event fromiso (t, used, held) (t, used, x # held)"
| dropped: "reason_event fromiso (t, used, held) (t, used, remove1 x held)"
| advanced: "env_ok fromiso env \<Longrightarrow> (\<And>x s. choose_step given adv x = Inr s \<Longrightarrow> step_valid s) \<Longrightarrow>
     x \<in> set held \<Longrightarrow> begin_advance fromiso i t0 = (Inr x, t0) \<Longrightarrow> finish_advance fromiso env given adv x t = (r, t') \<Longrightarrow>
     reason_event fromiso (t, used, held) (t', used, remove1 x held)"
| moved: "x \<in> set held \<Longrightarrow> finish_transition fromiso now s x t = (r, t') \<Longrightarrow>
     reason_event fromiso (t, used, held) (t', used, remove1 x held)"
| deferred: "x \<in> set held \<Longrightarrow> finish_deferral fromiso until x t = (r, t') \<Longrightarrow>
     reason_event fromiso (t, used, held) (t', used, remove1 x held)"
| deleted: "delete_thread fromiso i t = (r, t') \<Longrightarrow> reason_event fromiso (t, used, held) (t', used, held)"
| elsewhere: "others cs t t' \<Longrightarrow> ''reason_threads'' \<notin> cs \<Longrightarrow> ''reason_steps'' \<notin> cs \<Longrightarrow> inbox_ok fromiso t' \<Longrightarrow>
     reason_event fromiso (t, used, held) (t', used, held)"

fun may_become :: "ReasonStatus \<Rightarrow> ReasonStatus \<Rightarrow> bool" where
  "may_become RsArchived s = (s = RsArchived)"
| "may_become RsResolved s = (s = RsResolved \<or> s = RsArchived)"
| "may_become _ s = True"

lemma may_become_refl [simp]: "may_become s s"
  by (cases s) simp_all

lemma may_become_trans: "may_become a b \<Longrightarrow> may_become b c \<Longrightarrow> may_become a c"
  by (cases a; cases b) auto

lemma may_become_allowed: "s' \<in> set (allowed_transitions s) \<Longrightarrow> may_become s s'"
  by (cases s) auto

definition descends :: "ReasoningThread \<Rightarrow> ReasoningThread \<Rightarrow> bool" where
  "descends x y \<longleftrightarrow> may_become (th_status x) (th_status y) \<and> th_topic y = th_topic x \<and> th_created_at y = th_created_at x
     \<and> th_mandates y = th_mandates x \<and> th_reasoning_prompt y = th_reasoning_prompt x \<and> th_priority y = th_priority x"

lemma descends_refl [simp]: "descends x x"
  by (simp add: descends_def)

lemma descends_trans: "descends x y \<Longrightarrow> descends y z \<Longrightarrow> descends x z"
  by (auto simp: descends_def intro: may_become_trans)

text \<open>
  A version of a thread is what is stored or what an operation holds. What a history does to the threads whose
  identifiers were used before it: every later version descends from an earlier one.
\<close>

definition version :: "iso_parser \<Rightarrow> tables \<Rightarrow> ReasoningThread list \<Rightarrow> string \<Rightarrow> ReasoningThread \<Rightarrow> bool" where
  "version fromiso t held i x \<longleftrightarrow> thread_view fromiso t i = Some x \<or> x \<in> set held \<and> th_id x = i"

definition lifecycle_ok :: "iso_parser \<Rightarrow> reason_state \<Rightarrow> bool" where
  "lifecycle_ok fromiso = (\<lambda>(t, used, held). reason_stored fromiso t \<and> inbox_ok fromiso t \<and> dom (thread_view fromiso t) \<subseteq> used
     \<and> (\<forall>x \<in> set held. thread_valid fromiso x \<and> th_id x \<in> used))"

definition lifecycle :: "iso_parser \<Rightarrow> reason_state \<Rightarrow> reason_state \<Rightarrow> bool" where
  "lifecycle fromiso = (\<lambda>(t, used, held) (t', used', held'). used \<subseteq> used' \<and>
     (\<forall>i \<in> used. \<forall>y. version fromiso t' held' i y \<longrightarrow> (\<exists>x. version fromiso t held i x \<and> descends x y)))"

lemma lifecycle_trans:
  assumes "lifecycle fromiso a b" and "lifecycle fromiso b c"
  shows "lifecycle fromiso a c"
proof -
  obtain t used p u used1 q v used2 w where s: "a = (t, used, p)" "b = (u, used1, q)" "c = (v, used2, w)"
    by (metis prod.exhaust)
  show ?thesis
    unfolding s lifecycle_def split_conv
  proof (intro conjI ballI allI impI)
    show "used \<subseteq> used2" using assms by (auto simp: s lifecycle_def)
    fix i z
    assume i: "i \<in> used" and z: "version fromiso v w i z"
    have "i \<in> used1" using assms(1) i by (auto simp: s lifecycle_def)
    with assms(2) z obtain y where y: "version fromiso u q i y" "descends y z"
      unfolding s lifecycle_def split_conv by blast
    with assms(1) i obtain x where "version fromiso t p i x" "descends x y"
      unfolding s lifecycle_def split_conv by blast
    with y(2) descends_trans show "\<exists>x. version fromiso t p i x \<and> descends x z" by blast
  qed
qed

text \<open>The steps of a history: fewer versions, and a written one that descends from one that was held.\<close>

lemma lifecycle_fewer:
  assumes "lifecycle_ok fromiso (t, used, p)" and "reason_stored fromiso t'" and "inbox_ok fromiso t'"
    and "\<And>i x. thread_view fromiso t' i = Some x \<Longrightarrow> thread_view fromiso t i = Some x" and "set q \<subseteq> set p" and "used \<subseteq> used'"
  shows "lifecycle_ok fromiso (t', used', q) \<and> lifecycle fromiso (t, used, p) (t', used', q)"
proof -
  have "version fromiso t' q i y \<Longrightarrow> version fromiso t p i y" for i y using assms(4,5) by (auto simp: version_def)
  then have "lifecycle fromiso (t, used, p) (t', used', q)"
    unfolding lifecycle_def split_conv using assms(6) descends_refl by blast
  moreover have "dom (thread_view fromiso t') \<subseteq> used'" using assms(1,4,6) by (fastforce simp: lifecycle_ok_def dom_def)
  ultimately show ?thesis using assms by (auto simp: lifecycle_ok_def)
qed

lemma lifecycle_written:
  assumes "lifecycle_ok fromiso (t, used, p)" and "reason_stored fromiso t'" and "inbox_ok fromiso t'"
    and "thread_view fromiso t' = (thread_view fromiso t)(th_id x \<mapsto> y)" and "x \<in> set p" and "descends x y"
  shows "lifecycle_ok fromiso (t', used, remove1 x p) \<and> lifecycle fromiso (t, used, p) (t', used, remove1 x p)"
proof -
  have sub: "set (remove1 x p) \<subseteq> set p" by (rule set_remove1_subset)
  have "\<exists>z. version fromiso t p i z \<and> descends z y'" if "version fromiso t' (remove1 x p) i y'" for i y'
  proof (cases "thread_view fromiso t' i = Some y' \<and> i = th_id x")
    case True
    then have "y' = y" using assms(4) by (auto split: if_splits)
    then show ?thesis using True assms(5,6) by (auto simp: version_def)
  next
    case False
    then have "version fromiso t p i y'" using that assms(4) sub by (auto simp: version_def split: if_splits)
    then show ?thesis using descends_refl by blast
  qed
  moreover have "dom (thread_view fromiso t') \<subseteq> used" using assms(1,4,5) by (auto simp: lifecycle_ok_def)
  ultimately show ?thesis using assms(1-3) sub by (auto simp: lifecycle_ok_def lifecycle_def)
qed

lemma start_thread_run:
  assumes t: "reason_stored fromiso t" and i: "new_id \<noteq> ''''"
    and run: "start_thread fromiso env gen rootpath new_id topic summary evidence sources priority items mandates t = (r, t')"
  obtains (failed) e where "r = Inl e" "t' = t"
  | (started) y where "th_id y = new_id" "th_status y = RsActive" "reason_stored fromiso t'"
      "thread_view fromiso t' = (thread_view fromiso t)(new_id \<mapsto> y)" "others {''reason_threads'', ''trace_nodes''} t t'"
proof (cases "gen topic mandates items")
  case (Inl e)
  with run show ?thesis by (intro failed [of e]) (simp_all add: start_thread_def bind_act_def)
next
  case gen: (Inr generated)
  let ?x = "\<lparr>th_id = new_id, th_topic = strip topic, th_status = RsActive, th_working_summary = strip summary,
          th_evidence_refs = evidence, th_priority = (if priority = ''high'' then PrHigh else PrNormal),
          th_last_advanced_at = None, th_next_review_after = None, th_skip_until = None,
          th_created_at = re_now env, th_updated_at = re_updated env, th_active_items = map PDict items,
          th_pending_items = [], th_next_steps = [], th_mandates = mandates, th_reasoning_prompt = strip generated\<rparr>"
  show ?thesis
  proof (cases "strip generated = ''''")
    case True
    with run gen show ?thesis
      by (intro failed [of "ReasonPromptError ''reasoning prompt generation returned empty output''"])
        (simp_all add: start_thread_def bind_act_def)
  next
    case nonempty: False
    show ?thesis
    proof (cases "make_thread fromiso ?x")
      case (Inl e)
      with run gen nonempty show ?thesis by (intro failed [of e]) (simp_all add: start_thread_def bind_act_def)
    next
      case (Inr y)
      have y: "th_id y = new_id" "th_status y = RsActive" using Inr by (auto simp: make_thread_def result_simps)
      have "thread_valid fromiso y" using make_thread_valid [OF Inr] i by simp
      from save_thread_run [OF t this] obtain u where u: "save_thread y t = (Inr y, u)" "reason_stored fromiso u"
        "thread_view fromiso u = (thread_view fromiso t)(th_id y \<mapsto> y)" "others {''reason_threads''} t u" by blast
      let ?rec = "record_reason_thread_created (re_trace_id env) (re_trace_now env) (th_id y) (th_topic y)
         (reason_status_str (th_status y)) (th_mandates y) sources
         [(''workspace'', PStr (rootpath (th_id y))), (''mandates'', strs_obj (th_mandates y))]"
      have f: "others {''trace_nodes''} u (snd (?rec u))"
        unfolding record_reason_thread_created_def by (rule record_trace_frame)
      have "t' = u \<or> t' = snd (?rec u)"
        using run gen nonempty Inr u(1)
        by (cases "validate_segment (th_id y)") (auto simp: start_thread_def bind_act_def)
      then have f: "others {''trace_nodes''} u t'" using f by auto
      have "others {''reason_threads'', ''trace_nodes''} t t'" by (rule others_trans [OF u(4) f]) auto
      then show ?thesis
        using reason_others [OF f] u y by (intro started [of y]) simp_all
    qed
  qed
qed

lemma advanced_descends:
  assumes "advanced_thread fromiso now x step = Inr y" and "thread_valid fromiso x" and "step_valid step"
    and "th_status x = RsActive"
  shows "descends x y"
  by (rule advanced_thread_run [OF assms(1-3)]) (use assms(4) in \<open>simp add: descends_def\<close>)

lemma finish_transition_cases:
  assumes "reason_stored fromiso t" and "thread_valid fromiso x" and "finish_transition fromiso now s x t = (r, t')"
  obtains (failed) e where "r = Inl e" "t' = t"
  | (moved) y where "r = Inr y" "descends x y" "th_id y = th_id x" "reason_stored fromiso t'"
      "thread_view fromiso t' = (thread_view fromiso t)(th_id x \<mapsto> y)" "others {''reason_threads''} t t'"
proof (cases "s \<in> set (allowed_transitions (th_status x))")
  case False
  with assms(3) show ?thesis
    by (intro failed [of "ReasonTransitionError ''Cannot transition thread''"]) (auto simp: finish_transition_def bind_act_def)
next
  case True
  show ?thesis
  proof (cases "thread_with_status fromiso now s x")
    case (Inl e)
    with True assms(3) show ?thesis by (intro failed [of e]) (auto simp: finish_transition_def bind_act_def)
  next
    case (Inr y)
    note y = thread_with_status_run [OF assms(2) Inr]
    from save_thread_run [OF assms(1) y(2)] obtain u where u: "save_thread y t = (Inr y, u)" "reason_stored fromiso u"
      "thread_view fromiso u = (thread_view fromiso t)(th_id y \<mapsto> y)" "others {''reason_threads''} t u" by blast
    with True assms(3) Inr y show ?thesis
      by (intro moved [of y]) (auto simp: finish_transition_def bind_act_def descends_def may_become_allowed)
  qed
qed

lemma finish_deferral_cases:
  assumes "reason_stored fromiso t" and "thread_valid fromiso x" and "finish_deferral fromiso until x t = (r, t')"
  obtains (failed) e where "r = Inl e" "t' = t"
  | (deferred) y where "r = Inr y" "descends x y" "th_id y = th_id x" "reason_stored fromiso t'"
      "thread_view fromiso t' = (thread_view fromiso t)(th_id x \<mapsto> y)" "others {''reason_threads''} t t'"
proof (cases "make_thread fromiso (x\<lparr>th_skip_until := Some until\<rparr>)")
  case (Inl e)
  with assms(3) show ?thesis by (intro failed [of e]) (auto simp: finish_deferral_def bind_act_def)
next
  case (Inr y)
  have y: "y = x\<lparr>th_skip_until := Some until\<rparr>"
    using make_thread_items [OF Inr] assms(2) by (simp add: thread_valid_def)
  have "thread_valid fromiso y" using make_thread_valid [OF Inr] assms(2) by (simp add: thread_valid_def)
  from save_thread_run [OF assms(1) this] obtain u where u: "save_thread y t = (Inr y, u)" "reason_stored fromiso u"
    "thread_view fromiso u = (thread_view fromiso t)(th_id y \<mapsto> y)" "others {''reason_threads''} t u" by blast
  with assms(3) Inr y show ?thesis
    by (intro deferred [of y]) (auto simp: finish_deferral_def bind_act_def descends_def)
qed

lemma finish_advance_run:
  assumes t: "reason_stored fromiso t" "inbox_ok fromiso t" and env: "env_ok fromiso env" and x: "thread_valid fromiso x"
    and s: "\<And>x s. choose_step given adv x = Inr s \<Longrightarrow> step_valid s" and active: "th_status x = RsActive"
    and run: "finish_advance fromiso env given adv x t = (r, t')"
  obtains (failed) e where "r = Inl e" "t' = t"
  | (advanced) y where "r = Inr y" "descends x y" "reason_stored fromiso t'" "inbox_ok fromiso t'"
      "thread_view fromiso t' = (thread_view fromiso t)(th_id x \<mapsto> y)"
proof (cases "choose_step given adv x")
  case (Inl e)
  with run show ?thesis by (intro failed [of e]) (simp_all add: finish_advance_def bind_act_def)
next
  case (Inr step)
  have sv: "step_valid step" using s [OF Inr] .
  show ?thesis
  proof (rule finish_advance_cases [OF t env sv x, of adv])
    fix e
    assume "finish_advance fromiso env (Some step) adv x t = (Inl e, t)"
    then show ?thesis using run finish_choice [OF Inr] by (intro failed [of e]) simp_all
  next
    fix y u
    assume "advanced_thread fromiso (re_now env) x step = Inr y" "finish_advance fromiso env (Some step) adv x t = (Inr y, u)"
      "reason_stored fromiso u" "inbox_ok fromiso u" "thread_view fromiso u = (thread_view fromiso t)(th_id x \<mapsto> y)"
    then show ?thesis
      using run finish_choice [OF Inr] advanced_descends [OF _ x sv active] by (intro advanced [of y]) simp_all
  qed
qed

lemma lifecycle_event:
  assumes "reason_event fromiso a b" and ok: "lifecycle_ok fromiso a"
  shows "lifecycle_ok fromiso b \<and> lifecycle fromiso a b"
  using assms(1)
proof cases
  case (started new_id used env gen rootpath topic summary evidence sources priority items mandates t r t' p)
  have t: "reason_stored fromiso t" "inbox_ok fromiso t" "dom (thread_view fromiso t) \<subseteq> used"
    and held: "\<forall>x \<in> set p. thread_valid fromiso x \<and> th_id x \<in> used" using ok started(1) by (simp_all add: lifecycle_ok_def)
  from t(1) started(4,5) show ?thesis
  proof (cases rule: start_thread_run)
    case (failed e)
    with started(1,2) show ?thesis using lifecycle_fewer [OF ok [unfolded started(1)] t(1,2) _ subset_refl subset_insertI] by simp
  next
    case (started y)
    have "inbox_ok fromiso t'" using inbox_others [OF started(5)] t(2) by simp
    moreover have "lifecycle fromiso a b"
      using started \<open>a = _\<close> \<open>b = _\<close> \<open>new_id \<notin> used\<close> by (auto simp: lifecycle_def version_def)
    ultimately show ?thesis using started t(3) held \<open>b = _\<close> by (auto simp: lifecycle_ok_def)
  qed
next
  case (looked i t x used p)
  have t: "reason_stored fromiso t" "inbox_ok fromiso t" "dom (thread_view fromiso t) \<subseteq> used" using ok looked(1) by (simp_all add: lifecycle_ok_def)
  have x: "thread_view fromiso t (th_id x) = Some x \<and> thread_valid fromiso x"
    by (cases rule: resolve_cases [OF t(1), of i "Some ''all''"]) (use looked(3) in auto)
  have "version fromiso t (x # p) i' y \<Longrightarrow> version fromiso t p i' y" for i' y using x by (auto simp: version_def)
  then have "lifecycle fromiso a b" unfolding looked(1,2) lifecycle_def split_conv using descends_refl by blast
  moreover have "lifecycle_ok fromiso b" using ok looked(1,2) x t(3) by (auto simp: lifecycle_ok_def)
  ultimately show ?thesis by blast
next
  case (dropped t used p x)
  then show ?thesis using ok lifecycle_fewer [of fromiso t used p t "remove1 x p" used] set_remove1_subset [of x p]
    by (simp add: lifecycle_ok_def)
next
  case (advanced env given adv x p i t0 t r t' used)
  have t: "reason_stored fromiso t" "inbox_ok fromiso t" "thread_valid fromiso x" using ok advanced(1,5) by (simp_all add: lifecycle_ok_def)
  have active: "th_status x = RsActive"
    using advanced(6) by (auto simp: begin_advance_def bind_act_eq_Inr raise_if_def split: if_splits)
  show ?thesis
  proof (rule finish_advance_run [OF t(1,2) advanced(3) t(3) advanced(4) active advanced(7)])
    fix e
    assume "t' = t"
    then show ?thesis using lifecycle_fewer [OF ok [unfolded advanced(1)] t(1,2) _ set_remove1_subset] advanced(1,2) by simp
  next
    fix y
    assume "descends x y" "reason_stored fromiso t'" "inbox_ok fromiso t'" "thread_view fromiso t' = (thread_view fromiso t)(th_id x \<mapsto> y)"
    then show ?thesis using lifecycle_written [OF ok [unfolded advanced(1)]] advanced(1,2,5) by blast
  qed
next
  case (moved x p now s t r t' used)
  have t: "reason_stored fromiso t" "inbox_ok fromiso t" "thread_valid fromiso x" using ok moved(1,3) by (simp_all add: lifecycle_ok_def)
  from t(1,3) moved(4) show ?thesis
  proof (cases rule: finish_transition_cases)
    case (failed e)
    then show ?thesis using lifecycle_fewer [OF ok [unfolded moved(1)] t(1,2) _ set_remove1_subset] moved(1,2) by simp
  next
    case (moved y)
    have "inbox_ok fromiso t'" using inbox_others [OF moved(6)] t(2) by simp
    then show ?thesis using lifecycle_written [OF ok [unfolded \<open>a = _\<close>]] moved \<open>a = _\<close> \<open>b = _\<close> \<open>x \<in> set p\<close> by blast
  qed
next
  case (deferred x p until t r t' used)
  have t: "reason_stored fromiso t" "inbox_ok fromiso t" "thread_valid fromiso x" using ok deferred(1,3) by (simp_all add: lifecycle_ok_def)
  from t(1,3) deferred(4) show ?thesis
  proof (cases rule: finish_deferral_cases)
    case (failed e)
    then show ?thesis using lifecycle_fewer [OF ok [unfolded deferred(1)] t(1,2) _ set_remove1_subset] deferred(1,2) by simp
  next
    case (deferred y)
    have "inbox_ok fromiso t'" using inbox_others [OF deferred(6)] t(2) by simp
    then show ?thesis using lifecycle_written [OF ok [unfolded \<open>a = _\<close>]] deferred \<open>a = _\<close> \<open>b = _\<close> \<open>x \<in> set p\<close> by blast
  qed
next
  case (deleted i t r t' used p)
  have t: "reason_stored fromiso t" "inbox_ok fromiso t" using ok deleted(1) by (simp_all add: lifecycle_ok_def)
  from t(1) deleted(3) show ?thesis
  proof (cases rule: delete_thread_run)
    case (failed e)
    then show ?thesis using lifecycle_fewer [OF ok [unfolded deleted(1)] t] deleted(1,2) by simp
  next
    case (deleted x)
    have "inbox_ok fromiso t'" using inbox_others [OF deleted(5)] t(2) by simp
    moreover have "thread_view fromiso t i = Some z" if "thread_view fromiso t' i = Some z" for i z
      using that deleted(4) by (auto split: if_splits)
    ultimately show ?thesis
      using lifecycle_fewer [OF ok [unfolded \<open>a = _\<close>] deleted(3) _ _ subset_refl subset_refl] \<open>a = _\<close> \<open>b = _\<close> by simp
  qed
next
  case (elsewhere cs t t' used p)
  have t: "reason_stored fromiso t" using ok elsewhere(1) by (simp add: lifecycle_ok_def)
  show ?thesis
    using lifecycle_fewer [OF ok [unfolded elsewhere(1)] _ elsewhere(6)] reason_others [OF elsewhere(3-5)] t elsewhere(1,2) by auto
qed

lemma lifecycle_run: "(reason_event fromiso)\<^sup>*\<^sup>* a b \<Longrightarrow> lifecycle_ok fromiso a \<Longrightarrow> lifecycle_ok fromiso b \<and> lifecycle fromiso a b"
proof (induction rule: rtranclp_induct)
  case base
  have "lifecycle fromiso a a" by (cases a) (auto simp: lifecycle_def intro: descends_refl)
  with base show ?case by blast
qed (blast dest: lifecycle_event intro: lifecycle_trans)

text \<open>
  C20: However the parts of the operations interleave, topic, mandates, prompt, priority and creation
  time of a thread never change, and every stored thread and step decodes. From the moment at which no
  operation holds a copy of a thread that it has read, the thread's fate is final: deleted it never comes back, archived it
  stays archived, and resolved it stays resolved or archived, until it is deleted.
\<close>

theorem reason_lifecycle:
  assumes "lifecycle_ok fromiso (t, used, held)" and "(reason_event fromiso)\<^sup>*\<^sup>* (t, used, held) (t', used', held')" and "i \<in> used"
  shows "reason_stored fromiso t'
    \<and> (\<forall>y. thread_view fromiso t' i = Some y \<longrightarrow> (\<exists>x. version fromiso t held i x
          \<and> (th_topic y, th_mandates y, th_reasoning_prompt y, th_priority y, th_created_at y)
            = (th_topic x, th_mandates x, th_reasoning_prompt x, th_priority x, th_created_at x)))
    \<and> (i \<notin> th_id ` set held \<longrightarrow>
        (case thread_view fromiso t i of
           None \<Rightarrow> thread_view fromiso t' i = None
         | Some x \<Rightarrow> \<forall>y. thread_view fromiso t' i = Some y \<longrightarrow>
             (th_status x = RsArchived \<longrightarrow> th_status y = RsArchived)
             \<and> (th_status x = RsResolved \<longrightarrow> th_status y \<in> {RsResolved, RsArchived})))"
proof -
  have ok: "lifecycle_ok fromiso (t', used', held')" "lifecycle fromiso (t, used, held) (t', used', held')"
    using lifecycle_run [OF assms(2,1)] by simp_all
  have origin: "\<exists>x. version fromiso t held i x \<and> descends x y" if "thread_view fromiso t' i = Some y" for y
    using ok(2) assms(3) that unfolding lifecycle_def split_conv version_def by blast
  show ?thesis
  proof (intro conjI allI impI)
    show "reason_stored fromiso t'" using ok(1) by (simp add: lifecycle_ok_def)
    show "\<exists>x. version fromiso t held i x \<and> (th_topic y, th_mandates y, th_reasoning_prompt y, th_priority y, th_created_at y)
            = (th_topic x, th_mandates x, th_reasoning_prompt x, th_priority x, th_created_at x)"
      if "thread_view fromiso t' i = Some y" for y
      using origin [OF that] by (auto simp: descends_def)
    assume alone: "i \<notin> th_id ` set held"
    have "thread_view fromiso t i = Some x" if "version fromiso t held i x" for x using that alone by (auto simp: version_def)
    then show "case thread_view fromiso t i of
           None \<Rightarrow> thread_view fromiso t' i = None
         | Some x \<Rightarrow> \<forall>y. thread_view fromiso t' i = Some y \<longrightarrow>
             (th_status x = RsArchived \<longrightarrow> th_status y = RsArchived)
             \<and> (th_status x = RsResolved \<longrightarrow> th_status y \<in> {RsResolved, RsArchived})"
      using origin by (cases "thread_view fromiso t' i"; cases "thread_view fromiso t i") (fastforce simp: descends_def)+
  qed
qed

text \<open>
  Without that the fate is not final: an advance that read the thread before it was archived or deleted
  stores it again, as active as it was.
\<close>

lemma stale_advance_revives:
  assumes "reason_stored fromiso t" and "inbox_ok fromiso t" and "env_ok fromiso env" and "step_valid step"
    and "thread_valid fromiso x" and "advanced_thread fromiso (re_now env) x step = Inr y"
  shows "\<exists>t'. finish_advance fromiso env (Some step) adv x t = (Inr y, t') \<and> thread_view fromiso t' (th_id x) = Some y"
  by (rule finish_advance_cases [OF assms(1-5), of adv]) (use assms(6) in auto)

section \<open>One run of the scheduler\<close>

text \<open>The threads that may be advanced at an instant.\<close>

definition due :: "iso_parser \<Rightarrow> int \<Rightarrow> ReasoningThread \<Rightarrow> bool" where
  "due fromiso now x \<longleftrightarrow> th_status x = RsActive
     \<and> (case th_skip_until x of
          None \<Rightarrow> True
        | Some s \<Rightarrow> (case fromiso s of IsoAware ending \<Rightarrow> ending \<le> now | _ \<Rightarrow> False))"

lemma validate_aware_iso_aware:
  "validate_aware_iso fromiso s = Inr () \<Longrightarrow> s \<noteq> '''' \<and> (\<exists>ending. fromiso s = IsoAware ending)"
  by (auto simp: validate_aware_iso_def result_simps is_aware_def split: iso.splits)

lemma on_cooldown_run:
  assumes "thread_valid fromiso x" and "th_status x = RsActive"
  shows "on_cooldown fromiso now x = Inr (\<not> due fromiso now x)"
proof (cases "th_skip_until x")
  case None
  with assms show ?thesis by (simp add: on_cooldown_def due_def)
next
  case (Some s)
  with assms have "validate_aware_iso fromiso s = Inr ()"
    by (simp add: thread_valid_def validate_optional_aware_iso_def)
  with Some assms(2) validate_aware_iso_aware [of fromiso s] show ?thesis
    by (auto simp: on_cooldown_def due_def)
qed

lemma first_candidate_run:
  assumes "\<forall>x \<in> set xs. thread_valid fromiso x \<and> th_status x = RsActive"
  shows "first_candidate fromiso now xs = Inr (List.find (due fromiso now) xs)"
  using assms by (induction xs) (simp_all add: on_cooldown_run)

lemma first_in_order:
  assumes "List.find p xs = Some x" and "sorted (map f xs)"
  shows "x \<in> set xs \<and> p x \<and> (\<forall>y \<in> set xs. p y \<longrightarrow> f x \<le> f y)"
  using assms by (induction xs) (auto split: if_splits)

lemma apply_cooldown_run:
  assumes t: "reason_stored fromiso t" and x: "thread_view fromiso t (th_id y) = Some y"
    and iso: "fromiso (isoformat (later + interval * 1000000)) = IsoAware (later + interval * 1000000)"
      "\<not> blank (isoformat (later + interval * 1000000))"
  obtains t' where "apply_cooldown fromiso isoformat interval later y t = (Inr (), t')" "reason_stored fromiso t'"
    "thread_view fromiso t' = (thread_view fromiso t)(th_id y \<mapsto> y\<lparr>th_skip_until := Some (isoformat (later + interval * 1000000))\<rparr>)"
    "step_view t' = step_view t" "others {''reason_threads''} t t'"
proof -
  let ?y = "y\<lparr>th_skip_until := Some (isoformat (later + interval * 1000000))\<rparr>"
  have v: "thread_valid fromiso y" using thread_view_valid [OF t x] by simp
  then have y: "thread_valid fromiso ?y"
    using iso by (simp add: thread_valid_def validate_optional_aware_iso_def validate_aware_iso_def is_aware_def)
  from save_thread_run [OF t this] obtain u where u: "save_thread ?y t = (Inr ?y, u)" "reason_stored fromiso u"
    "thread_view fromiso u = (thread_view fromiso t)(th_id ?y \<mapsto> ?y)" "step_view u = step_view t" "others {''reason_threads''} t u" by blast
  have "apply_cooldown fromiso isoformat interval later y t = (Inr (), u)"
    using u(1) y by (simp add: apply_cooldown_def defer_advancement_def finish_deferral_def bind_act_def resolve_thread_by_id [OF t x])
  with u show ?thesis by (intro that [of u]) simp_all
qed

text \<open>
  C21: A run of the scheduler touches at most one thread: the earliest created among the active ones
  whose cooldown is over. If there is none it changes nothing; it fails, and then changes
  nothing, only if the step cannot be merged or the identifier cannot be a correlation; and otherwise
  the thread rests until the interval has passed, whether or not the advancer produced a step or raised.
\<close>

theorem scheduler_run_spec:
  assumes "reason_stored fromiso t" and "inbox_ok fromiso t" and "env_ok fromiso env"
    and "\<And>i. fromiso (isoformat i) = IsoAware i \<and> \<not> blank (isoformat i)"
    and "\<And>x s. advancer x = Inr (Some s) \<Longrightarrow> step_valid s"
  shows "case reason_run_once fromiso isoformat env interval now later advancer t of (r, t') \<Rightarrow>
      (if \<forall>x \<in> ran (thread_view fromiso t). \<not> due fromiso now x then r = Inr () \<and> t' = t
       else \<exists>x \<in> ran (thread_view fromiso t). due fromiso now x
         \<and> (\<forall>y \<in> ran (thread_view fromiso t). due fromiso now y \<longrightarrow> (th_created_at x, th_id x) \<le> (th_created_at y, th_id y))
         \<and> (case r of
              Inl e \<Rightarrow> t' = t \<and> (scheduler_context (re_context env) x = Inl e
                \<or> (\<exists>step. advancer x = Inr (Some step) \<and> advanced_thread fromiso (re_now env) x step = Inl e))
            | Inr _ \<Rightarrow> (\<exists>y. thread_view fromiso t' = (thread_view fromiso t)(th_id x \<mapsto> y) \<and> th_id y = th_id x
                \<and> th_skip_until y = Some (isoformat (later + interval * 1000000)))))"
proof -
  obtain xs where xs: "list_threads fromiso None t = (Inr xs, t)"
    "set xs = {x \<in> ran (thread_view fromiso t). thread_selected None x}"
    "sorted (map (\<lambda>x. (th_created_at x, th_id x)) xs)"
    by (rule list_threads_run [OF assms(1)])
  let ?active = "filter (\<lambda>x. th_status x = RsActive) xs"
  have act: "set ?active = {x \<in> ran (thread_view fromiso t). th_status x = RsActive}"
    using xs(2) by (auto simp: thread_selected_def active_statuses_def)
  have mem: "thread_view fromiso t (th_id x) = Some x \<and> thread_valid fromiso x" if "x \<in> ran (thread_view fromiso t)" for x
    using that thread_view_valid [OF assms(1)] by (auto simp: ran_def)
  have first: "first_candidate fromiso now ?active = Inr (List.find (due fromiso now) ?active)"
    by (rule first_candidate_run) (use act mem in auto)
  show ?thesis
  proof (cases "List.find (due fromiso now) ?active")
    case None
    then have "\<forall>x \<in> ran (thread_view fromiso t). \<not> due fromiso now x"
      using act by (auto simp: find_None_iff due_def)
    then show ?thesis using None xs(1) first by (simp add: reason_run_once_def bind_act_def)
  next
    case (Some x)
    from first_in_order [OF Some, of "\<lambda>x. (th_created_at x, th_id x)"] xs(3)
    have x: "x \<in> set ?active" "due fromiso now x"
      "\<forall>y \<in> set ?active. due fromiso now y \<longrightarrow> (th_created_at x, th_id x) \<le> (th_created_at y, th_id y)"
      by (simp_all add: sorted_filter)
    have ran: "x \<in> ran (thread_view fromiso t)" using x(1) act by auto
    have least: "\<forall>y \<in> ran (thread_view fromiso t). due fromiso now y \<longrightarrow> (th_created_at x, th_id x) \<le> (th_created_at y, th_id y)"
      using x(3) act by (auto simp: due_def)
    note cool = apply_cooldown_run [where isoformat = isoformat and later = later and interval = interval]
    have iso: "fromiso (isoformat (later + interval * 1000000)) = IsoAware (later + interval * 1000000)"
      "\<not> blank (isoformat (later + interval * 1000000))" using assms(4) by simp_all
    let ?outcome = "\<lambda>(r, t'). case r of
              Inl e \<Rightarrow> t' = t \<and> (scheduler_context (re_context env) x = Inl e
                \<or> (\<exists>step. advancer x = Inr (Some step) \<and> advanced_thread fromiso (re_now env) x step = Inl e))
            | Inr _ \<Rightarrow> (\<exists>y. thread_view fromiso t' = (thread_view fromiso t)(th_id x \<mapsto> y) \<and> th_id y = th_id x
                \<and> th_skip_until y = Some (isoformat (later + interval * 1000000)))"
    have rest: "?outcome (apply_cooldown fromiso isoformat interval later x t)"
      by (rule cool [OF assms(1) _ iso, of x]) (use mem [OF ran] in auto)
    have "?outcome (reason_run_once fromiso isoformat env interval now later advancer t)"
    proof (cases "scheduler_context (re_context env) x")
      case (Inl e)
      then show ?thesis using xs(1) first Some by (simp add: reason_run_once_def bind_act_def)
    next
      case (Inr c)
      then have env: "env_ok fromiso (env\<lparr>re_context := c\<rparr>)"
        using assms(3) by (auto simp: env_ok_def scheduler_context_def make_context_def split: if_splits)
      have run: "reason_run_once fromiso isoformat env interval now later advancer t = (case advancer x of
               Inl e \<Rightarrow> apply_cooldown fromiso isoformat interval later x
             | Inr None \<Rightarrow> apply_cooldown fromiso isoformat interval later x
             | Inr (Some step) \<Rightarrow>
                 bind_act (advance_thread fromiso (env\<lparr>re_context := c\<rparr>) (th_id x) (Some step) None) (\<lambda>updated.
                   apply_cooldown fromiso isoformat interval later updated)) t"
        using xs(1) first Some Inr by (simp add: reason_run_once_def bind_act_def)
      show ?thesis
      proof (cases "\<exists>step. advancer x = Inr (Some step)")
        case False
        then show ?thesis using rest unfolding run by (cases "advancer x") (auto split: option.splits)
      next
        case True
        then obtain step where step: "advancer x = Inr (Some step)" by blast
        have r: "resolve_thread fromiso (th_id x) (Some ''all'') t = (Inr x, t)"
          using mem [OF ran] by (simp add: resolve_thread_by_id [OF assms(1)])
        show ?thesis
        proof (cases rule: advance_resolved [OF assms(1,2) env assms(5) [OF step] r conjunct1 [OF mem [OF ran]], of None])
          case 1
          then show ?thesis using x(2) by (simp add: due_def)
        next
          case (2 e)
          then show ?thesis unfolding run by (simp add: step bind_act_def)
        next
          case (3 y u)
          obtain v where v: "apply_cooldown fromiso isoformat interval later y u = (Inr (), v)"
            "thread_view fromiso v = (thread_view fromiso u)(th_id y \<mapsto> y\<lparr>th_skip_until := Some (isoformat (later + interval * 1000000))\<rparr>)"
            by (rule cool [OF 3(6) _ iso, of y]) (use 3 in auto)
          show ?thesis unfolding run
            by (simp add: step bind_act_def 3(5) v 3(8) 3(4))
              (intro exI [of _ "y\<lparr>th_skip_until := Some (isoformat (later + interval * 1000000))\<rparr>"], simp add: 3(4))
        qed
      qed
    qed
    with ran x(2) least show ?thesis by (auto simp: case_prod_beta)
  qed
qed

section \<open>Instances\<close>

text \<open>A parser that reads every string as an instant, with a rendering it inverts.\<close>

definition tally :: "int \<Rightarrow> string" where
  "tally i = replicate (if i < 0 then nat (- 2 * i) else nat (2 * i + 1)) CHR ''x''"

definition tally_iso :: iso_parser where
  "tally_iso s = IsoAware (if even (length s) then - int (length s div 2) else int (length s div 2))"

lemma tally_ok: "tally_iso (tally i) = IsoAware i \<and> \<not> blank (tally i)"
proof
  show "tally_iso (tally i) = IsoAware i"
  proof (cases "i < 0")
    case True
    then obtain n where "i = - int n" "0 < n" by (metis neg_int_cases)
    then show ?thesis by (simp add: tally_iso_def tally_def nat_mult_distrib)
  next
    case False
    then obtain n where "i = int n" by (metis not_less nonneg_int_cases)
    then show ?thesis by (simp add: tally_iso_def tally_def nat_add_distrib nat_mult_distrib)
  qed
  show "\<not> blank (tally i)" by (auto simp: tally_def blank_def py_space_def list_all_iff set_replicate_conv_if)
qed

lemma tally_aware [simp]: "is_aware tally_iso s"
  by (simp add: is_aware_def tally_iso_def)

definition sample_thread :: ReasoningThread where
  "sample_thread = \<lparr>th_id = ''r1'', th_topic = ''topic'', th_status = RsActive, th_working_summary = '''', th_evidence_refs = [],
     th_priority = PrNormal, th_last_advanced_at = None, th_next_review_after = None, th_skip_until = None,
     th_created_at = ''n'', th_updated_at = ''n'', th_active_items = [PProxy [(''label'', PStr ''old'')]],
     th_pending_items = [], th_next_steps = [], th_mandates = [], th_reasoning_prompt = ''p''\<rparr>"

definition sample_step :: ReasoningStep where
  "sample_step = \<lparr>st_id = ''s1'', st_thread_id = ''r1'', st_kind = SkProgress, st_summary = ''found'', st_delta = '''',
     st_evidence_refs = [], st_output = '''', st_tool_logs = [], st_confidence = Some (Finite 1), st_created_at = ''n'',
     st_new_findings = [PProxy [(''label'', PStr ''new'')]], st_new_pending = [],
     st_retired_findings = [PProxy [(''label'', PStr ''old'')]], st_next_steps = [],
     st_terminal_status = TsSuggestPaused, st_terminal_reason = ''''\<rparr>"

definition sample_env :: ReasonEnv where
  "sample_env = \<lparr>re_now = ''m'', re_updated = ''m'', re_inbox_created = ''m'', re_inbox_updated = ''m'', re_trace_id = ''t1'',
     re_trace_now = ''m'', re_context = empty_context\<rparr>"

lemma sample_valid:
  "thread_valid tally_iso sample_thread" "step_valid sample_step" "env_ok tally_iso sample_env"
  by (simp_all add: thread_valid_def sample_thread_def step_valid_def sample_step_def env_ok_def sample_env_def blank_def
      py_space_def validate_aware_iso_def validate_optional_aware_iso_def metadata_ok_def)

lemma sample_tables_run:
  obtains t where "reason_stored tally_iso t" "inbox_ok tally_iso t" "thread_view tally_iso t = [''r1'' \<mapsto> sample_thread]"
proof -
  have e: "reason_stored tally_iso (\<lambda>_. [])" by (simp add: reason_stored_def)
  from save_thread_run [OF e sample_valid(1)] obtain t where t: "reason_stored tally_iso t"
    "thread_view tally_iso t = (thread_view tally_iso (\<lambda>_. []))(th_id sample_thread \<mapsto> sample_thread)"
    "others {''reason_threads''} (\<lambda>_. []) t" by blast
  have "thread_view tally_iso (\<lambda>_. []) = Map.empty"
    by (simp add: thread_view_def view_def load_def coll_get_def fun_eq_iff)
  moreover have "inbox_ok tally_iso t"
    using t(3) by (simp add: others_def inbox_ok_def inbox_stored_def inbox_items_def stored_records_def)
  ultimately show ?thesis using t by (intro that [of t]) (simp_all add: sample_thread_def)
qed

lemma sample_merge: "advanced_thread tally_iso ''m'' sample_thread sample_step = Inr (sample_thread
  \<lparr>th_status := RsPaused, th_working_summary := ''found'', th_last_advanced_at := Some ''m'', th_updated_at := ''m'',
   th_active_items := [PProxy [(''label'', PStr ''new'')]]\<rparr>)"
  by (simp add: advanced_thread_def sample_thread_def sample_step_def merge_tracked_items_def label_key_def item_label_def
      merge_str_lists_def make_thread_def blank_def py_space_def validate_aware_iso_def validate_optional_aware_iso_def
      freeze_mapping_sequence_def)

lemma advanced_thread_spec_witness:
  "\<exists>y. advanced_thread tally_iso ''m'' sample_thread sample_step = Inr y \<and> th_topic y = ''topic'' \<and> th_status y = RsPaused
     \<and> item_keys (th_active_items y) = {PStr ''new''}"
  using sample_merge advanced_thread_spec [OF sample_merge sample_valid(1,2)]
  by (intro exI [of _ "projr (advanced_thread tally_iso ''m'' sample_thread sample_step)"])
    (simp add: sample_thread_def sample_step_def item_keys_def new_keys_def item_label_def)

lemma advance_thread_spec_witness:
  "\<exists>t y t'. thread_view tally_iso t = [''r1'' \<mapsto> sample_thread]
     \<and> advance_thread tally_iso sample_env ''r1'' (Some sample_step) None t = (Inr y, t') \<and> th_status y = RsPaused
     \<and> thread_view tally_iso t' = [''r1'' \<mapsto> y] \<and> step_view t' ''s1'' = Some sample_step"
proof -
  obtain t where t: "reason_stored tally_iso t" "inbox_ok tally_iso t" "thread_view tally_iso t = [''r1'' \<mapsto> sample_thread]"
    by (rule sample_tables_run)
  then have v: "thread_view tally_iso t ''r1'' = Some sample_thread" by simp
  have m: "advanced_thread tally_iso (re_now sample_env) sample_thread sample_step = Inr (sample_thread
    \<lparr>th_status := RsPaused, th_working_summary := ''found'', th_last_advanced_at := Some ''m'', th_updated_at := ''m'',
     th_active_items := [PProxy [(''label'', PStr ''new'')]]\<rparr>)" using sample_merge by (simp add: sample_env_def)
  have st: "th_status sample_thread = RsActive" "st_id sample_step = ''s1''" by (simp_all add: sample_thread_def sample_step_def)
  obtain r t' where r: "advance_thread tally_iso sample_env ''r1'' (Some sample_step) None t = (r, t')" by fastforce
  from advance_thread_spec [OF t(1,2) sample_valid(3,2) v, of None] r m st t(3) show ?thesis
    by (intro exI [of _ t] exI [of _ "projr r"] exI [of _ t']) (auto split: sum.splits)
qed

lemma reason_lifecycle_witness:
  "\<exists>t t' y. (reason_event tally_iso)\<^sup>*\<^sup>* (t, {''r1''}, []) (t', {''r1''}, []) \<and> thread_view tally_iso t ''r1'' = Some sample_thread
     \<and> thread_view tally_iso t' ''r1'' = Some y \<and> th_status y = RsArchived \<and> th_topic y = ''topic''"
proof -
  obtain t where t: "reason_stored tally_iso t" "inbox_ok tally_iso t" "thread_view tally_iso t = [''r1'' \<mapsto> sample_thread]"
    by (rule sample_tables_run)
  then have v: "thread_view tally_iso t ''r1'' = Some sample_thread" by simp
  let ?y = "sample_thread\<lparr>th_status := RsArchived, th_updated_at := ''m''\<rparr>"
  have y: "thread_with_status tally_iso ''m'' RsArchived sample_thread = Inr ?y"
    unfolding thread_with_status_def by (rule make_thread_id)
      (use sample_valid(1) in \<open>simp add: thread_valid_def validate_aware_iso_def blank_def py_space_def\<close>)
  have yv: "thread_valid tally_iso ?y" by (rule thread_with_status_run(2) [OF sample_valid(1) y])
  from save_thread_run [OF t(1) yv] obtain t' where t': "save_thread ?y t = (Inr ?y, t')"
    "thread_view tally_iso t' = (thread_view tally_iso t)(th_id ?y \<mapsto> ?y)" by blast
  have i: "th_id sample_thread = ''r1''" "th_status sample_thread = RsActive" "th_topic sample_thread = ''topic''"
    by (simp_all add: sample_thread_def)
  have "reason_event tally_iso (t, {''r1''}, []) (t, {''r1''}, [sample_thread])"
    by (rule reason_event.looked [of tally_iso "''r1''"]) (rule resolve_thread_by_id [OF t(1) v])
  moreover have "finish_transition tally_iso ''m'' RsArchived sample_thread t = (Inr ?y, t')"
    using y t'(1) i by (simp add: finish_transition_def bind_act_def)
  then have "reason_event tally_iso (t, {''r1''}, [sample_thread]) (t', {''r1''}, remove1 sample_thread [sample_thread])"
    by (rule reason_event.moved [rotated]) simp
  ultimately have run: "(reason_event tally_iso)\<^sup>*\<^sup>* (t, {''r1''}, []) (t', {''r1''}, [])" by simp
  have ok: "lifecycle_ok tally_iso (t, {''r1''}, [])" using t by (simp add: lifecycle_ok_def)
  from reason_lifecycle [OF ok run, of "''r1''"] t' i v run show ?thesis
    by (intro exI [of _ t] exI [of _ t'] exI [of _ ?y]) (simp add: version_def)
qed

lemma scheduler_run_spec_witness:
  "\<exists>t t' y. thread_view tally_iso t = [''r1'' \<mapsto> sample_thread]
     \<and> reason_run_once tally_iso tally sample_env 0 1 5 (\<lambda>_. Inr None) t = (Inr (), t')
     \<and> thread_view tally_iso t' = [''r1'' \<mapsto> y] \<and> th_skip_until y = Some (tally 5)"
proof -
  obtain t where t: "reason_stored tally_iso t" "inbox_ok tally_iso t" "thread_view tally_iso t = [''r1'' \<mapsto> sample_thread]"
    by (rule sample_tables_run)
  have d: "due tally_iso 1 sample_thread" by (simp add: due_def sample_thread_def)
  have i: "th_id sample_thread = ''r1''" by (simp add: sample_thread_def)
  obtain r t' where r: "reason_run_once tally_iso tally sample_env 0 1 5 (\<lambda>_. Inr None) t = (r, t')" by fastforce
  have "scheduler_context (re_context sample_env) sample_thread =
      Inr (empty_context\<lparr>ctx_reason_id := Some ''r1'', ctx_source := Some ''reason_scheduler''\<rparr>)"
    by (simp add: scheduler_context_def sample_env_def sample_thread_def make_context_def context_valid_def context_pairs_def
        empty_context_def blank_def py_space_def)
  with scheduler_run_spec [OF t(1,2) sample_valid(3) tally_ok, where interval = 0 and now = 1 and later = 5
      and advancer = "\<lambda>_. Inr None"] r t(3) d i
  have "\<exists>y. r = Inr () \<and> thread_view tally_iso t' = [''r1'' \<mapsto> y] \<and> th_skip_until y = Some (tally 5)"
    by (cases r) auto
  with r t(3) show ?thesis by blast
qed

end
