(* ===== verification/ReflectionModel.thy ===== *)
theory ReflectionModel
  imports ReasonFlow DeliveryFlow "HOL-Library.Multiset"
begin

text \<open>
  The records of the Reflection subsystem (\<open>reflection/model.py\<close>, \<open>reflection/repository.py\<close>): the
  ideas a candidate generator proposes, their relevance scores and the entries kept for review, with
  their codecs; and the deep link an entry carries (\<open>inbox/link.py\<close>).
\<close>

section \<open>Candidates and scores\<close>

datatype IdeaCandidateType = IcContradiction | IcConnection | IcQuestion | IcAction | IcProfileUpdate | IcShareBundle

fun candidate_type_str :: "IdeaCandidateType \<Rightarrow> string" where
  "candidate_type_str IcContradiction = ''contradiction''"
| "candidate_type_str IcConnection = ''connection''"
| "candidate_type_str IcQuestion = ''question''"
| "candidate_type_str IcAction = ''action''"
| "candidate_type_str IcProfileUpdate = ''profile_update''"
| "candidate_type_str IcShareBundle = ''share_bundle''"

definition candidate_types :: "IdeaCandidateType list" where
  "candidate_types = [IcContradiction, IcConnection, IcQuestion, IcAction, IcProfileUpdate, IcShareBundle]"

interpretation candidate_types: vocabulary candidate_type_str candidate_types
proof
  show "k \<in> set candidate_types" for k by (cases k) (simp_all add: candidate_types_def)
qed (simp add: candidate_types_def)

record IdeaCandidate =
  ic_id :: string
  ic_title :: string
  ic_body :: string
  ic_type :: IdeaCandidateType
  ic_confidence :: pyfloat
  ic_novelty :: pyfloat
  ic_urgency :: pyfloat
  ic_interruption_cost :: pyfloat
  ic_evidence_refs :: "string list"
  ic_source_summary :: string
  ic_created_at :: string

record RelevanceScore =
  rel_passes :: bool
  rel_novelty :: pyfloat
  rel_confidence :: pyfloat
  rel_urgency :: pyfloat
  rel_interruption_cost :: pyfloat
  rel_cooldown_ok :: bool
  rel_composite :: pyfloat
  rel_reasons :: "string list"

fun nonblank_strings :: "pyobj list \<Rightarrow> string list" where
  "nonblank_strings [] = []"
| "nonblank_strings (PStr s # vs) =
     (if strip s \<noteq> '''' then strip s # nonblank_strings vs else nonblank_strings vs)"
| "nonblank_strings (_ # vs) = nonblank_strings vs"

definition string_tuple :: "pyobj \<Rightarrow> string list" where
  "string_tuple v = (case v of PList vs \<Rightarrow> nonblank_strings vs | _ \<Rightarrow> [])"

definition candidate_to_wire :: "IdeaCandidate \<Rightarrow> pydict" where
  "candidate_to_wire x =
     [(''id'', PStr (ic_id x)), (''title'', PStr (ic_title x)), (''body'', PStr (ic_body x)),
      (''candidate_type'', PStr (candidate_type_str (ic_type x))), (''confidence'', PFloat (ic_confidence x)),
      (''novelty'', PFloat (ic_novelty x)), (''urgency'', PFloat (ic_urgency x)),
      (''interruption_cost'', PFloat (ic_interruption_cost x)), (''evidence_refs'', strs_obj (ic_evidence_refs x)),
      (''source_summary'', PStr (ic_source_summary x)), (''created_at'', PStr (ic_created_at x))]"

definition candidate_from_wire :: "pydict \<Rightarrow> IdeaCandidate result" where
  "candidate_from_wire d =
     bindE (read_string d ''id'') (\<lambda>i.
     bindE (read_string d ''title'') (\<lambda>title.
     bindE (read_string d ''body'') (\<lambda>body.
     bindE (read_enum candidate_type_str candidate_types (ValueError ''unsupported candidate type'') d ''candidate_type'') (\<lambda>kind.
     bindE (expect_float d ''confidence'') (\<lambda>confidence.
     bindE (expect_float d ''novelty'') (\<lambda>novelty.
     bindE (expect_float d ''urgency'') (\<lambda>urgency.
     bindE (expect_float d ''interruption_cost'') (\<lambda>interruption_cost.
     bindE (read_string d ''source_summary'') (\<lambda>source_summary.
     bindE (read_string d ''created_at'') (\<lambda>created_at.
       Inr \<lparr>ic_id = i, ic_title = title, ic_body = body, ic_type = kind, ic_confidence = confidence,
            ic_novelty = novelty, ic_urgency = urgency, ic_interruption_cost = interruption_cost,
            ic_evidence_refs = string_tuple (dict_get d ''evidence_refs''), ic_source_summary = source_summary,
            ic_created_at = created_at\<rparr>))))))))))"

definition score_to_wire :: "RelevanceScore \<Rightarrow> pydict" where
  "score_to_wire x =
     [(''passes'', PBool (rel_passes x)), (''novelty'', PFloat (rel_novelty x)),
      (''confidence'', PFloat (rel_confidence x)), (''urgency'', PFloat (rel_urgency x)),
      (''interruption_cost'', PFloat (rel_interruption_cost x)), (''cooldown_ok'', PBool (rel_cooldown_ok x)),
      (''composite'', PFloat (rel_composite x)), (''reasons'', strs_obj (rel_reasons x))]"

definition score_from_wire :: "pydict \<Rightarrow> RelevanceScore result" where
  "score_from_wire d =
     bindE (expect_bool d ''passes'') (\<lambda>passes.
     bindE (expect_float d ''novelty'') (\<lambda>novelty.
     bindE (expect_float d ''confidence'') (\<lambda>confidence.
     bindE (expect_float d ''urgency'') (\<lambda>urgency.
     bindE (expect_float d ''interruption_cost'') (\<lambda>interruption_cost.
     bindE (expect_bool d ''cooldown_ok'') (\<lambda>cooldown_ok.
     bindE (expect_float d ''composite'') (\<lambda>composite.
       Inr \<lparr>rel_passes = passes, rel_novelty = novelty, rel_confidence = confidence, rel_urgency = urgency,
            rel_interruption_cost = interruption_cost, rel_cooldown_ok = cooldown_ok, rel_composite = composite,
            rel_reasons = string_tuple (dict_get d ''reasons'')\<rparr>)))))))"

lemma string_tuple_obj: "string_tuple (strs_obj ss) = filter (\<lambda>s. s \<noteq> '''') (map strip ss)"
  by (simp add: string_tuple_def strs_obj_def) (induction ss, simp_all)

text \<open>What a candidate and a score become when they are written and read back.\<close>

lemma candidate_reload:
  "candidate_from_wire (candidate_to_wire x) =
     Inr (x\<lparr>ic_evidence_refs := filter (\<lambda>s. s \<noteq> '''') (map strip (ic_evidence_refs x))\<rparr>)"
  by (cases x) (simp add: candidate_from_wire_def candidate_to_wire_def read_enum_def dict_get_def string_tuple_obj)

lemma score_reload:
  "score_from_wire (score_to_wire x) =
     Inr (x\<lparr>rel_reasons := filter (\<lambda>s. s \<noteq> '''') (map strip (rel_reasons x))\<rparr>)"
  by (cases x) (simp add: score_from_wire_def score_to_wire_def dict_get_def string_tuple_obj)

section \<open>Entries\<close>

text \<open>
  An entry as the scheduler and the organizer build it. The repository reads entries back without
  validating their fields; that reader is not modelled.
\<close>

datatype EntryStatus = EsPending | EsDismissed | EsArchived

fun entry_status_str :: "EntryStatus \<Rightarrow> string" where
  "entry_status_str EsPending = ''pending''"
| "entry_status_str EsDismissed = ''dismissed''"
| "entry_status_str EsArchived = ''archived''"

record ReflectionEntry =
  rf_id :: string
  rf_title :: string
  rf_body :: string
  rf_candidate_type :: string
  rf_confidence :: pyfloat
  rf_novelty :: pyfloat
  rf_urgency :: pyfloat
  rf_interruption_cost :: pyfloat
  rf_composite_score :: pyfloat
  rf_status :: EntryStatus
  rf_discussion_approved :: "bool option"
  rf_discussion_trace :: "string list"
  rf_deep_link :: string
  rf_created_at :: string
  rf_reviewed_at :: "string option"

fun opt_bool :: "bool option \<Rightarrow> pyobj" where
  "opt_bool None = PNone"
| "opt_bool (Some b) = PBool b"

definition entry_to_wire :: "ReflectionEntry \<Rightarrow> pydict" where
  "entry_to_wire x =
     [(''id'', PStr (rf_id x)), (''title'', PStr (rf_title x)), (''body'', PStr (rf_body x)),
      (''candidate_type'', PStr (rf_candidate_type x)), (''confidence'', PFloat (rf_confidence x)),
      (''novelty'', PFloat (rf_novelty x)), (''urgency'', PFloat (rf_urgency x)),
      (''interruption_cost'', PFloat (rf_interruption_cost x)), (''composite_score'', PFloat (rf_composite_score x)),
      (''status'', PStr (entry_status_str (rf_status x))), (''discussion_approved'', opt_bool (rf_discussion_approved x)),
      (''discussion_trace'', strs_obj (rf_discussion_trace x)), (''deep_link'', PStr (rf_deep_link x)),
      (''created_at'', PStr (rf_created_at x)), (''reviewed_at'', opt_str (rf_reviewed_at x))]"

definition entry_with_status :: "string \<Rightarrow> EntryStatus \<Rightarrow> ReflectionEntry \<Rightarrow> ReflectionEntry" where
  "entry_with_status now status x =
     x\<lparr>rf_status := status, rf_reviewed_at := (if status \<noteq> EsPending then Some now else None)\<rparr>"

definition save_entry :: "ReflectionEntry \<Rightarrow> (tables, ReflectionEntry) act" where
  "save_entry x = bind_act (tab_put ''reflection_entries'' (rf_id x) (entry_to_wire x)) (\<lambda>_. ret_act x)"

section \<open>Deep links\<close>

text \<open>
  \<open>urllib.parse.quote\<close> with no safe characters besides the unreserved ones: every other character
  becomes the percent-encoded bytes of its UTF-8 encoding.
\<close>

definition hex_digit :: "nat \<Rightarrow> char" where
  "hex_digit n = char_of (if n < 10 then 48 + n else 55 + n)"

definition percent_byte :: "nat \<Rightarrow> string" where
  "percent_byte b = [CHR ''%'', hex_digit (b div 16), hex_digit (b mod 16)]"

definition unreserved :: "char \<Rightarrow> bool" where
  "unreserved c \<longleftrightarrow>
     (let n = of_char c :: nat in
      48 \<le> n \<and> n \<le> 57 \<or> 65 \<le> n \<and> n \<le> 90 \<or> 97 \<le> n \<and> n \<le> 122 \<or> n \<in> {45, 46, 95, 126})"

definition quote_char :: "char \<Rightarrow> string" where
  "quote_char c =
     (let n = of_char c :: nat in
      if unreserved c then [c]
      else if n < 128 then percent_byte n
      else percent_byte (192 + n div 64) @ percent_byte (128 + n mod 64))"

definition quote_text :: "string \<Rightarrow> string" where
  "quote_text s = concat (map quote_char s)"

definition encode_query :: "(string \<times> string) list \<Rightarrow> string" where
  "encode_query params = join_with ''&'' (map (\<lambda>(key, v). quote_text key @ ''='' @ quote_text v) params)"

datatype LinkAction = OpenConversation | NewConversation

record DeepLink =
  dl_action :: LinkAction
  dl_conversation_id :: "string option"
  dl_title :: "string option"
  dl_message :: "string option"
  dl_candidate_id :: "string option"

definition link_param :: "string \<Rightarrow> string option \<Rightarrow> (string \<times> string) list" where
  "link_param key v = (case v of None \<Rightarrow> [] | Some s \<Rightarrow> [(key, s)])"

definition link_to_url :: "DeepLink \<Rightarrow> string result" where
  "link_to_url x =
     (case dl_action x of
        OpenConversation \<Rightarrow>
          (case dl_conversation_id x of
             None \<Rightarrow> Inl (ValueError ''open_conversation deep link requires conversation_id'')
           | Some i \<Rightarrow> Inr (''nuself://conversation/'' @ quote_text i @
               (case dl_message x of None \<Rightarrow> [] | Some m \<Rightarrow> ''?'' @ encode_query [(''message'', m)])))
      | NewConversation \<Rightarrow>
          (let params = link_param ''title'' (dl_title x) @ link_param ''message'' (dl_message x)
                 @ link_param ''candidate_id'' (dl_candidate_id x) in
           Inr (''nuself://new-conversation'' @ (if params \<noteq> [] then ''?'' @ encode_query params else []))))"

definition link_for_new_conversation :: "string option \<Rightarrow> string option \<Rightarrow> string option \<Rightarrow> DeepLink" where
  "link_for_new_conversation title message candidate_id =
     \<lparr>dl_action = NewConversation, dl_conversation_id = None, dl_title = title, dl_message = message,
      dl_candidate_id = candidate_id\<rparr>"

section \<open>Organizing similar entries\<close>

text \<open>
  \<open>re.findall\<close> of word characters over the case-folded text; the ranges and stop words beyond code
  point 255 have no characters here. The quotient of the two cardinalities is at least \<open>0.48\<close> exactly
  if \<open>12 * union \<le> 25 * overlap\<close>: a float quotient of small integers is on the same side of it.
\<close>

definition token_char :: "char \<Rightarrow> bool" where
  "token_char c \<longleftrightarrow>
     (let n = of_char c :: nat in 48 \<le> n \<and> n \<le> 57 \<or> 65 \<le> n \<and> n \<le> 90 \<or> 97 \<le> n \<and> n \<le> 122 \<or> n = 95)"

fun runs_from :: "string \<Rightarrow> string \<Rightarrow> string list" where
  "runs_from run [] = (if run = [] then [] else [run])"
| "runs_from run (c # cs) =
     (if token_char c then runs_from (run @ [c]) cs
      else if run = [] then runs_from [] cs else run # runs_from [] cs)"

definition stopwords :: "string list" where
  "stopwords = [''the'', ''and'', ''for'', ''with'', ''that'', ''this'', ''your'', ''you'', ''are'']"

definition tokens :: "string \<Rightarrow> string list" where
  "tokens text = remdups (filter (\<lambda>w. 2 \<le> length w \<and> w \<notin> set stopwords) (runs_from [] (casefold text)))"

definition similar :: "ReflectionEntry \<Rightarrow> ReflectionEntry \<Rightarrow> bool" where
  "similar l r \<longleftrightarrow>
     (let a = tokens (rf_title l @ '' '' @ rf_body l); b = tokens (rf_title r @ '' '' @ rf_body r) in
      if a = [] \<or> b = [] then False
      else 12 * card (set a \<union> set b) \<le> 25 * card (set a \<inter> set b))"

fun take_similar :: "ReflectionEntry \<Rightarrow> string list \<Rightarrow> ReflectionEntry list \<Rightarrow> ReflectionEntry list \<times> string list" where
  "take_similar entry assigned [] = ([], assigned)"
| "take_similar entry assigned (other # rest) =
     (if rf_id other \<in> set assigned then take_similar entry assigned rest
      else if similar entry other
      then (case take_similar entry (rf_id other # assigned) rest of (grp, a) \<Rightarrow> (other # grp, a))
      else take_similar entry assigned rest)"

fun groups_from :: "ReflectionEntry list \<Rightarrow> string list \<Rightarrow> ReflectionEntry list \<Rightarrow> ReflectionEntry list list" where
  "groups_from entries assigned [] = []"
| "groups_from entries assigned (entry # rest) =
     (if rf_id entry \<in> set assigned then groups_from entries assigned rest
      else (case take_similar entry (rf_id entry # assigned) entries of
              (grp, a) \<Rightarrow> (entry # grp) # groups_from entries a rest))"

definition similar_groups :: "ReflectionEntry list \<Rightarrow> ReflectionEntry list list" where
  "similar_groups entries = groups_from entries [] entries"

text \<open>\<open>max\<close> and \<open>min\<close> keep the first of several equal values.\<close>

definition entry_key :: "ReflectionEntry \<Rightarrow> pyfloat \<times> pyfloat \<times> string \<times> string" where
  "entry_key x = (rf_composite_score x, rf_confidence x, rf_created_at x, rf_id x)"

definition primary_entry :: "ReflectionEntry \<Rightarrow> ReflectionEntry list \<Rightarrow> ReflectionEntry" where
  "primary_entry x xs = foldl (\<lambda>best y. if entry_key best < entry_key y then y else best) x xs"

definition snippet :: "string \<Rightarrow> string" where
  "snippet body =
     (let s = join_with '' '' (split_words body) in
      if 180 < length s then rstrip (take 177 s) @ ''...'' else s)"

definition merge_note :: "ReflectionEntry \<Rightarrow> string" where
  "merge_note x = ''- '' @ rf_title x @ '': '' @ snippet (rf_body x)"

definition newline :: string where
  "newline = [char_of (10 :: nat)]"

definition merge_entries :: "ReflectionEntry \<Rightarrow> ReflectionEntry list \<Rightarrow> ReflectionEntry" where
  "merge_entries primary duplicates =
     (let notes = map merge_note (sort_key (\<lambda>x. (rf_created_at x, rf_id x)) duplicates);
          appended = newline @ newline @ ''Merged similar reflection notes:'' @ newline @ join_with newline notes;
          body = (if notes \<noteq> [] then (if rf_body primary = '''' then appended else rf_body primary @ appended)
                  else rf_body primary) in
      primary\<lparr>rf_body := body,
        rf_confidence := Max (set (rf_confidence primary # map rf_confidence duplicates)),
        rf_novelty := Max (set (rf_novelty primary # map rf_novelty duplicates)),
        rf_urgency := Max (set (rf_urgency primary # map rf_urgency duplicates)),
        rf_interruption_cost := Min (set (rf_interruption_cost primary # map rf_interruption_cost duplicates)),
        rf_composite_score := Max (set (rf_composite_score primary # map rf_composite_score duplicates)),
        rf_status := EsPending, rf_reviewed_at := None\<rparr>)"

text \<open>The pass over the pending entries; \<open>stamp\<close> is the time at which an entry is archived.\<close>

fun save_archived :: "(string \<Rightarrow> string) \<Rightarrow> ReflectionEntry list \<Rightarrow> (tables, unit) act" where
  "save_archived stamp [] = ret_act ()"
| "save_archived stamp (x # xs) =
     bind_act (save_entry (entry_with_status (stamp (rf_id x)) EsArchived x)) (\<lambda>_. save_archived stamp xs)"

fun organize_groups :: "(string \<Rightarrow> string) \<Rightarrow> ReflectionEntry list list \<Rightarrow> nat \<Rightarrow> (tables, nat) act" where
  "organize_groups stamp [] archived = ret_act archived"
| "organize_groups stamp ([] # groups) archived = organize_groups stamp groups archived"
| "organize_groups stamp ((x # xs) # groups) archived =
     (let primary = primary_entry x xs;
          duplicates = filter (\<lambda>y. rf_id y \<noteq> rf_id primary) (x # xs) in
      if duplicates = [] then organize_groups stamp groups archived
      else bind_act (save_entry (merge_entries primary duplicates)) (\<lambda>_.
           bind_act (save_archived stamp duplicates) (\<lambda>_.
             organize_groups stamp groups (archived + length duplicates))))"

text \<open>\<open>organize_pending\<close> once the pending entries are listed: merged groups and archived entries.\<close>

definition organize_pending :: "(string \<Rightarrow> string) \<Rightarrow> ReflectionEntry list \<Rightarrow> (tables, nat \<times> nat) act" where
  "organize_pending stamp pending =
     (let groups = similar_groups pending in
      bind_act (organize_groups stamp groups 0) (\<lambda>archived.
        ret_act (length (filter (\<lambda>g. 1 < length g) groups), archived)))"

text \<open>The groups partition the entries, around heads no two of which are similar.\<close>

lemma take_similar_run:
  assumes "take_similar entry assigned xs = (grp, a)" and "distinct (map rf_id xs)"
  shows "grp = filter (\<lambda>y. rf_id y \<notin> set assigned \<and> similar entry y) xs \<and> set a = set assigned \<union> rf_id ` set grp"
  using assms
proof (induction xs arbitrary: assigned grp a)
  case (Cons y ys)
  show ?case
  proof (cases "rf_id y \<notin> set assigned \<and> similar entry y")
    case True
    obtain g b where g: "take_similar entry (rf_id y # assigned) ys = (g, b)" by fastforce
    have "filter (\<lambda>z. rf_id z \<notin> set (rf_id y # assigned) \<and> similar entry z) ys =
        filter (\<lambda>z. rf_id z \<notin> set assigned \<and> similar entry z) ys"
      using Cons.prems(2) by (intro filter_cong refl) (auto simp: image_iff dest: sym)
    with Cons.IH [OF g] Cons.prems g True show ?thesis by auto
  next
    case False
    then have "take_similar entry assigned ys = (grp, a)" using Cons.prems(1) by (auto split: if_splits)
    from Cons.IH [OF this] Cons.prems(2) False show ?thesis by auto
  qed
qed simp

lemma groups_from_run:
  assumes "distinct (map rf_id entries)" and "set rest \<subseteq> set entries"
    and "\<forall>x \<in> set entries. rf_id x \<notin> set assigned \<longrightarrow> x \<in> set rest"
  shows "set (concat (groups_from entries assigned rest)) = {x \<in> set entries. rf_id x \<notin> set assigned}
    \<and> distinct (map rf_id (concat (groups_from entries assigned rest)))
    \<and> (\<forall>g \<in> set (groups_from entries assigned rest). g \<noteq> [] \<and> (\<forall>y \<in> set (tl g). similar (hd g) y))
    \<and> sorted_wrt (\<lambda>g h. \<not> similar (hd g) (hd h)) (groups_from entries assigned rest)"
  using assms(2,3)
proof (induction rest arbitrary: assigned)
  case (Cons entry rest)
  show ?case
  proof (cases "rf_id entry \<in> set assigned")
    case True
    with Cons show ?thesis by auto
  next
    case False
    obtain grp a where g: "take_similar entry (rf_id entry # assigned) entries = (grp, a)" by fastforce
    from take_similar_run [OF this assms(1)]
    have grp: "grp = filter (\<lambda>y. rf_id y \<notin> set (rf_id entry # assigned) \<and> similar entry y) entries"
      and a: "set a = set (rf_id entry # assigned) \<union> rf_id ` set grp" by simp_all
    let ?gs = "groups_from entries a rest"
    have inj: "x = y" if "x \<in> set entries" "y \<in> set entries" "rf_id x = rf_id y" for x y
      using assms(1) that by (auto simp: distinct_map inj_on_def)
    have IH: "set (concat ?gs) = {x \<in> set entries. rf_id x \<notin> set a}" "distinct (map rf_id (concat ?gs))"
      "\<forall>g \<in> set ?gs. g \<noteq> [] \<and> (\<forall>y \<in> set (tl g). similar (hd g) y)" "sorted_wrt (\<lambda>g h. \<not> similar (hd g) (hd h)) ?gs"
      using Cons.IH [of a] Cons.prems a by auto
    have run: "groups_from entries assigned (entry # rest) = (entry # grp) # ?gs"
      using False g by simp
    have "set (concat ((entry # grp) # ?gs)) = {x \<in> set entries. rf_id x \<notin> set assigned}"
      using IH(1) a False Cons.prems(1) inj by (auto simp: grp) blast
    moreover have "distinct (map rf_id (concat ((entry # grp) # ?gs)))"
    proof -
      have "distinct (map rf_id grp)" unfolding grp by (rule distinct_map_filter [OF assms(1)])
      moreover have "rf_id entry \<notin> rf_id ` set grp" by (auto simp: grp)
      moreover have "rf_id ` set (entry # grp) \<inter> rf_id ` set (concat ?gs) = {}" unfolding IH(1) using a by (force simp: image_iff)
      ultimately show ?thesis using IH(2) by auto
    qed
    moreover have "\<not> similar entry (hd h)" if "h \<in> set ?gs" for h
    proof -
      from IH(3) that have "hd h \<in> set (concat ?gs)" by (auto intro!: bexI [of _ h] hd_in_set)
      then have "hd h \<in> set entries" "rf_id (hd h) \<notin> set a" using IH(1) by auto
      with a show ?thesis by (auto simp: grp)
    qed
    ultimately show ?thesis unfolding run using IH(3,4) by (simp add: grp del: groups_from.simps)
  qed
qed simp

lemma similar_groups_run:
  assumes "distinct (map rf_id entries)"
  shows "mset (concat (similar_groups entries)) = mset entries"
    and "\<forall>g \<in> set (similar_groups entries). g \<noteq> [] \<and> (\<forall>y \<in> set (tl g). similar (hd g) y)"
    and "sorted_wrt (\<lambda>g h. \<not> similar (hd g) (hd h)) (similar_groups entries)"
proof -
  note run = groups_from_run [OF assms, of entries "[]", simplified]
  show "mset (concat (similar_groups entries)) = mset entries"
  proof -
    have "distinct (concat (similar_groups entries))" "distinct entries"
      using run assms by (auto simp: similar_groups_def distinct_map)
    then show ?thesis
      using run by (subst set_eq_iff_mset_eq_distinct [symmetric]) (auto simp: similar_groups_def)
  qed
  show "\<forall>g \<in> set (similar_groups entries). g \<noteq> [] \<and> (\<forall>y \<in> set (tl g). similar (hd g) y)"
    and "sorted_wrt (\<lambda>g h. \<not> similar (hd g) (hd h)) (similar_groups entries)"
    using run by (simp_all add: similar_groups_def)
qed

lemma primary_entry_run:
  "primary_entry x xs \<in> set (x # xs) \<and> (\<forall>y \<in> set (x # xs). entry_key y \<le> entry_key (primary_entry x xs))"
  unfolding primary_entry_def
proof (induction xs arbitrary: x)
  case (Cons z zs)
  let ?b = "if entry_key x < entry_key z then z else x"
  have b: "entry_key x \<le> entry_key ?b" "entry_key z \<le> entry_key ?b" by auto
  from Cons.IH [of ?b] b show ?case by (auto intro: order_trans)
qed simp

lemma length_duplicates:
  assumes "distinct (map rf_id xs)" and "p \<in> set xs"
  shows "Suc (length (filter (\<lambda>y. rf_id y \<noteq> rf_id p) xs)) = length xs"
  using assms
proof (induction xs)
  case (Cons x xs)
  show ?case
  proof (cases "rf_id x = rf_id p")
    case True
    with Cons.prems have "\<forall>y \<in> set xs. rf_id y \<noteq> rf_id p" by (auto simp: image_iff dest: sym)
    with True show ?thesis by simp
  qed (use Cons in auto)
qed simp

lemma organize_groups_count:
  assumes "organize_groups stamp gs n t = (Inr k, t')" and "\<forall>g \<in> set gs. g \<noteq> [] \<and> distinct (map rf_id g)"
  shows "k + length gs = n + length (concat gs)"
  using assms
proof (induction stamp gs n arbitrary: t rule: organize_groups.induct)
  case (3 stamp x xs groups archived)
  let ?p = "primary_entry x xs"
  let ?d = "filter (\<lambda>y. rf_id y \<noteq> rf_id ?p) (x # xs)"
  have d: "Suc (length ?d) = length (x # xs)"
    using 3(4) primary_entry_run [of x xs] by (intro length_duplicates) auto
  obtain u where "organize_groups stamp groups (archived + length ?d) u = (Inr k, t')"
  proof (cases "?d = []")
    case True
    with 3(3) that [of t] show ?thesis by (simp add: Let_def)
  next
    case False
    with 3(3) that show ?thesis by (auto simp: Let_def bind_act_eq_Inr)
  qed
  with 3(1,2) [OF refl refl] 3(4) d show ?case by (cases "?d = []") auto
qed auto

text \<open>
  The organizer partitions the pending entries into groups around heads no two of which are
  similar; every other member is similar to its head; the entry a group is merged into ranks highest;
  and a pass that succeeds archives every pending entry but one per group.
\<close>

theorem organizer_groups:
  assumes "distinct (map rf_id pending)"
  shows "mset (concat (similar_groups pending)) = mset pending
    \<and> (\<forall>g \<in> set (similar_groups pending). \<exists>x xs. g = x # xs \<and> (\<forall>y \<in> set xs. similar x y)
         \<and> primary_entry x xs \<in> set g \<and> (\<forall>y \<in> set g. entry_key y \<le> entry_key (primary_entry x xs)))
    \<and> sorted_wrt (\<lambda>g h. \<not> similar (hd g) (hd h)) (similar_groups pending)
    \<and> (case organize_pending stamp pending t of
         (Inr (merged, archived), t') \<Rightarrow> archived + length (similar_groups pending) = length pending
       | (Inl e, t') \<Rightarrow> True)"
proof -
  let ?gs = "similar_groups pending"
  note run = similar_groups_run [OF assms]
  have groups: "\<exists>x xs. g = x # xs \<and> (\<forall>y \<in> set xs. similar x y)
         \<and> primary_entry x xs \<in> set g \<and> (\<forall>y \<in> set g. entry_key y \<le> entry_key (primary_entry x xs))" if "g \<in> set ?gs" for g
  proof -
    from run(2) that have "g \<noteq> []" "\<forall>y \<in> set (tl g). similar (hd g) y" by auto
    then obtain x xs where g: "g = x # xs" "\<forall>y \<in> set xs. similar x y" by (cases g) auto
    with primary_entry_run [of x xs] show ?thesis by blast
  qed
  have len: "length (concat ?gs) = length pending" using arg_cong [OF run(1), of size] by simp
  have "mset (map rf_id (concat ?gs)) = mset (map rf_id pending)" using run(1) by simp
  then have "distinct (map rf_id (concat ?gs))" using assms by (metis mset_eq_imp_distinct_iff)
  then have dist: "\<forall>g \<in> set ?gs. g \<noteq> [] \<and> distinct (map rf_id g)"
    using run(2) by (auto simp: map_concat distinct_concat_iff)
  have "archived + length ?gs = length pending" if "organize_pending stamp pending t = (Inr (merged, archived), t')"
    for merged archived t'
    using that organize_groups_count [of stamp ?gs 0 t archived t'] dist len
    by (auto simp: organize_pending_def Let_def bind_act_eq_Inr)
  then show ?thesis using run(1,3) groups by (auto split: sum.splits prod.splits)
qed

definition sample_entry :: "string \<Rightarrow> string \<Rightarrow> ReflectionEntry" where
  "sample_entry i title = \<lparr>rf_id = i, rf_title = title, rf_body = '''', rf_candidate_type = ''question'', rf_confidence = Finite 1,
     rf_novelty = Finite 1, rf_urgency = Finite 1, rf_interruption_cost = Finite 1, rf_composite_score = Finite 1,
     rf_status = EsPending, rf_discussion_approved = None, rf_discussion_trace = [], rf_deep_link = '''',
     rf_created_at = ''n'', rf_reviewed_at = None\<rparr>"

lemma organizer_groups_witness:
  "mset (concat (similar_groups [sample_entry ''a'' ''walk home'', sample_entry ''b'' ''home walk'']))
     = {#sample_entry ''a'' ''walk home'', sample_entry ''b'' ''home walk''#}"
  using organizer_groups [of "[sample_entry ''a'' ''walk home'', sample_entry ''b'' ''home walk'']"]
  by (simp add: sample_entry_def)

end
