(* ===== verification/ReflectionFlow.thy ===== *)
theory ReflectionFlow
  imports ReflectionModel
begin

text \<open>
  When the daemon reflects (\<open>reflection/scheduler.py\<close>): the persisted schedule state
  (\<open>reflection/schedule_state.py\<close>), the gates it is checked against, and the cycle that turns one
  candidate into an entry, a trace, an Inbox item and a delivery request.
\<close>

section \<open>The schedule state\<close>

text \<open>
  The record is dumped and parsed by pydantic, a third-party package: \<open>dump\<close> and \<open>parse\<close> are
  arguments. \<open>schedule_codec\<close> is what the code relies on: a dumped state is JSON without an \<open>id\<close> of
  its own and parses back to itself, and no parsed state has a negative count (\<open>Field(ge=0)\<close>).
\<close>

record ScheduleState =
  ss_timestamp :: int
  ss_daily_count :: int
  ss_daily_date :: int
  ss_title :: "string option"
  ss_body :: "string option"

type_synonym schedule_parser = "pydict \<Rightarrow> ScheduleState option"
type_synonym schedule_dumper = "ScheduleState \<Rightarrow> pydict"

definition schedule_codec :: "schedule_dumper \<Rightarrow> schedule_parser \<Rightarrow> bool" where
  "schedule_codec dump parse \<longleftrightarrow>
     (\<forall>s. json_dict (dump s) \<and> dget (dump s) ''id'' = None \<and> (0 \<le> ss_daily_count s \<longrightarrow> parse (dump s) = Some s))
     \<and> (\<forall>d s. parse d = Some s \<longrightarrow> 0 \<le> ss_daily_count s)"

definition decode_schedule_state :: "schedule_parser \<Rightarrow> pydict option \<Rightarrow> ScheduleState option result" where
  "decode_schedule_state parse w =
     (case w of
        None \<Rightarrow> Inr None
      | Some d \<Rightarrow>
          (case parse (payload_of d) of
             None \<Rightarrow> Inl (ReflectionScheduleStateError ''reflection schedule state is malformed or unsupported'')
           | Some s \<Rightarrow> Inr (Some s)))"

definition schedule_state :: "schedule_parser \<Rightarrow> (tables, ScheduleState option) act" where
  "schedule_state parse =
     bind_act (tab_get ''scheduler_state'' ''reflection'') (\<lambda>w. lift_act (\<lambda>_. decode_schedule_state parse w))"

definition save_schedule_state :: "schedule_dumper \<Rightarrow> ScheduleState \<Rightarrow> (tables, unit) act" where
  "save_schedule_state dump s = tab_put ''scheduler_state'' ''reflection'' (dump s)"

section \<open>The gates\<close>

text \<open>
  Instants are microseconds since the epoch; the hour and the day of an instant in the system's time
  zone, and the value drawn for the jitter, are arguments.
\<close>

record ReflectionSettings =
  cfg_interval_seconds :: int
  cfg_cooldown_seconds :: int
  cfg_quiet_start_hour :: int
  cfg_quiet_end_hour :: int
  cfg_daily_cap :: int
  cfg_jitter_percent :: int
  cfg_relevance_threshold :: pyfloat
  cfg_discussion_threshold :: pyfloat
  cfg_auto_notify :: bool

record LocalTime =
  local_hour :: "int \<Rightarrow> int"
  local_date :: "int \<Rightarrow> int"

definition in_quiet_hours :: "ReflectionSettings \<Rightarrow> LocalTime \<Rightarrow> int \<Rightarrow> bool" where
  "in_quiet_hours cfg zone now =
     (let current = local_hour zone now; start = cfg_quiet_start_hour cfg; stop = cfg_quiet_end_hour cfg in
      if start = stop then False
      else if start < stop then start \<le> current \<and> current < stop
      else start \<le> current \<or> current < stop)"

definition elapsed_less :: "int \<Rightarrow> ScheduleState \<Rightarrow> int \<Rightarrow> bool" where
  "elapsed_less now s seconds \<longleftrightarrow> now - ss_timestamp s < seconds * 1000000"

definition in_cooldown :: "ReflectionSettings \<Rightarrow> int \<Rightarrow> ScheduleState option \<Rightarrow> bool" where
  "in_cooldown cfg now state = (case state of None \<Rightarrow> False | Some s \<Rightarrow> elapsed_less now s (cfg_cooldown_seconds cfg))"

definition jitter_bound :: "ReflectionSettings \<Rightarrow> int" where
  "jitter_bound cfg = cfg_interval_seconds cfg * cfg_jitter_percent cfg div 100"

definition jittered_interval :: "ReflectionSettings \<Rightarrow> int \<Rightarrow> int" where
  "jittered_interval cfg drawn =
     (if jitter_bound cfg = 0 then cfg_interval_seconds cfg else cfg_interval_seconds cfg + drawn)"

definition interval_not_elapsed :: "ReflectionSettings \<Rightarrow> int \<Rightarrow> int \<Rightarrow> ScheduleState option \<Rightarrow> bool" where
  "interval_not_elapsed cfg drawn now state =
     (case state of None \<Rightarrow> False | Some s \<Rightarrow> elapsed_less now s (jittered_interval cfg drawn))"

definition reflection_count_today :: "LocalTime \<Rightarrow> int \<Rightarrow> ScheduleState option \<Rightarrow> int" where
  "reflection_count_today zone now state =
     (case state of
        None \<Rightarrow> 0
      | Some s \<Rightarrow> if ss_daily_date s = local_date zone now then ss_daily_count s else 0)"

definition daily_cap_not_reached :: "ReflectionSettings \<Rightarrow> LocalTime \<Rightarrow> int \<Rightarrow> ScheduleState option \<Rightarrow> bool" where
  "daily_cap_not_reached cfg zone now state \<longleftrightarrow> reflection_count_today zone now state < cfg_daily_cap cfg"

definition gate_reason :: "ReflectionSettings \<Rightarrow> LocalTime \<Rightarrow> int \<Rightarrow> int \<Rightarrow> ScheduleState option \<Rightarrow> string option" where
  "gate_reason cfg zone drawn now state =
     (if \<not> daily_cap_not_reached cfg zone now state then Some ''daily_cap''
      else if in_cooldown cfg now state then Some ''cooldown''
      else if interval_not_elapsed cfg drawn now state then Some ''interval''
      else None)"

definition schedule_block_reason ::
  "schedule_parser \<Rightarrow> ReflectionSettings \<Rightarrow> LocalTime \<Rightarrow> int \<Rightarrow> int \<Rightarrow> (tables, string option) act" where
  "schedule_block_reason parse cfg zone drawn now =
     (if in_quiet_hours cfg zone now then ret_act (Some ''quiet_hours'')
      else (\<lambda>t. case schedule_state parse t of
              (Inl (ReflectionScheduleStateError m), t') \<Rightarrow> (Inr (Some ''state_corrupt''), t')
            | (Inl e, t') \<Rightarrow> (Inl e, t')
            | (Inr state, t') \<Rightarrow> (Inr (gate_reason cfg zone drawn now state), t')))"

definition should_reflect :: "schedule_parser \<Rightarrow> ReflectionSettings \<Rightarrow> LocalTime \<Rightarrow> int \<Rightarrow> int \<Rightarrow> (tables, bool) act" where
  "should_reflect parse cfg zone drawn now =
     bind_act (schedule_block_reason parse cfg zone drawn now) (\<lambda>reason. ret_act (reason = None))"

record ScheduleStatus =
  status_ready :: bool
  status_blocked_by :: "string option"
  status_last_run_at :: "int option"
  status_daily_count :: int

definition schedule_status :: "schedule_parser \<Rightarrow> ReflectionSettings \<Rightarrow> LocalTime \<Rightarrow> int \<Rightarrow> int \<Rightarrow> (tables, ScheduleStatus) act" where
  "schedule_status parse cfg zone drawn now =
     bind_act (schedule_block_reason parse cfg zone drawn now) (\<lambda>block_reason.
     bind_act (\<lambda>t. case schedule_state parse t of
                 (Inl (ReflectionScheduleStateError m), t') \<Rightarrow> (Inr None, t')
               | r \<Rightarrow> r) (\<lambda>state.
       ret_act \<lparr>status_ready = (block_reason = None), status_blocked_by = block_reason,
                status_last_run_at = map_option ss_timestamp state,
                status_daily_count = reflection_count_today zone now state\<rparr>))"

section \<open>The cycle\<close>

text \<open>
  The collaborators of a cycle. Generator, relevance gate and discussion ask a language model; the
  organizer's failure is only logged. \<open>isoformat\<close> renders an instant, and the two float formats
  (two decimals, and the shortest representation) render numbers for the trace.
\<close>

record Discussion =
  disc_approved :: bool
  disc_revised_title :: string
  disc_revised_body :: string
  disc_trace :: "string list"

record Collaborators =
  co_generate :: "IdeaCandidate list result"
  co_score :: "IdeaCandidate \<Rightarrow> RelevanceScore result"
  co_discuss :: "IdeaCandidate \<Rightarrow> Discussion result"
  co_organize :: "(tables, nat \<times> nat) act"
  co_isoformat :: "int \<Rightarrow> string"
  co_fixed2 :: "pyfloat \<Rightarrow> string"
  co_repr :: "pyfloat \<Rightarrow> string"

definition write_last_reflection ::
  "schedule_parser \<Rightarrow> schedule_dumper \<Rightarrow> LocalTime \<Rightarrow> int \<Rightarrow> string option \<Rightarrow> string option \<Rightarrow> (tables, unit) act" where
  "write_last_reflection parse dump zone now title body =
     bind_act (schedule_state parse) (\<lambda>current.
       save_schedule_state dump
         \<lparr>ss_timestamp = now, ss_daily_count = reflection_count_today zone now current + 1,
          ss_daily_date = local_date zone now, ss_title = title, ss_body = body\<rparr>)"

definition candidate_to_entry ::
  "IdeaCandidate \<Rightarrow> string \<Rightarrow> RelevanceScore \<Rightarrow> string \<Rightarrow> string \<Rightarrow> bool option \<Rightarrow> string list \<Rightarrow> ReflectionEntry result" where
  "candidate_to_entry candidate created_at score title body approved trace =
     bindE (link_to_url (link_for_new_conversation (Some (ic_title candidate)) (Some (ic_body candidate)) (Some (ic_id candidate)))) (\<lambda>url.
       Inr \<lparr>rf_id = ''reflection-'' @ ic_id candidate, rf_title = title, rf_body = body,
            rf_candidate_type = candidate_type_str (ic_type candidate), rf_confidence = ic_confidence candidate,
            rf_novelty = ic_novelty candidate, rf_urgency = ic_urgency candidate,
            rf_interruption_cost = ic_interruption_cost candidate, rf_composite_score = rel_composite score,
            rf_status = EsPending, rf_discussion_approved = approved, rf_discussion_trace = trace,
            rf_deep_link = url, rf_created_at = created_at, rf_reviewed_at = None\<rparr>)"

definition decision_points :: "Collaborators \<Rightarrow> ReflectionSettings \<Rightarrow> RelevanceScore \<Rightarrow> bool option \<Rightarrow> string list" where
  "decision_points co cfg score approved =
     [''Relevance gate passed: composite='' @ co_fixed2 co (rel_composite score) @ '' threshold='' @ co_repr co (cfg_relevance_threshold cfg),
      ''Novelty='' @ co_fixed2 co (rel_novelty score) @ '' confidence='' @ co_fixed2 co (rel_confidence score)
        @ '' urgency='' @ co_fixed2 co (rel_urgency score)]
     @ (case approved of
          Some b \<Rightarrow>
            [''Persona discussion threshold met (composite >= '' @ co_repr co (cfg_discussion_threshold cfg) @ '')'',
             ''Persona discussion '' @ (if b then ''approved'' else ''rejected'')]
        | None \<Rightarrow>
            [''Below persona discussion threshold ('' @ co_repr co (cfg_discussion_threshold cfg) @ ''), no discussion triggered''])"

definition reflection_item :: "ReasonEnv \<Rightarrow> ReflectionEntry \<Rightarrow> InboxItem" where
  "reflection_item env entry =
     \<lparr>inbox_id = ''inbox-'' @ rf_id entry, inbox_title = ''New reflection: '' @ rf_title entry, inbox_body = rf_body entry,
      inbox_kind = ''reflection'', inbox_source_id = rf_id entry, inbox_status = InboxPending,
      inbox_idempotency_key = ''reflection-'' @ rf_id entry, inbox_deep_link = Some (rf_deep_link entry),
      inbox_created_at = re_inbox_created env, inbox_updated_at = re_inbox_updated env, inbox_context = re_context env\<rparr>"

definition publish_inbox :: "iso_parser \<Rightarrow> ReasonEnv \<Rightarrow> ReflectionEntry \<Rightarrow> bool \<Rightarrow> (tables, unit) act" where
  "publish_inbox fromiso env entry notify =
     bind_act (bind_act (lift_act (\<lambda>_. make_inbox_item fromiso (reflection_item env entry))) (inbox_add fromiso)) (\<lambda>item.
       if notify then bind_act (delivery_request fromiso (re_now env) (inbox_id item) (inbox_context item)) (\<lambda>_. ret_act ())
       else ret_act ())"

text \<open>The persona discussion of a valuable candidate: \<open>None\<close> if it is rejected.\<close>

definition discussed ::
  "Collaborators \<Rightarrow> ReflectionSettings \<Rightarrow> IdeaCandidate \<Rightarrow> RelevanceScore
   \<Rightarrow> (string \<times> string \<times> bool option \<times> string list) option result" where
  "discussed co cfg best score =
     (if float_ge (rel_composite score) (cfg_discussion_threshold cfg)
      then bindE (co_discuss co best) (\<lambda>r.
             if \<not> disc_approved r then Inr None
             else Inr (Some (disc_revised_title r, disc_revised_body r, Some True, disc_trace r)))
      else Inr (Some (ic_title best, ic_body best, None, [])))"

definition publish_reflection ::
  "iso_parser \<Rightarrow> schedule_parser \<Rightarrow> schedule_dumper \<Rightarrow> ReflectionSettings \<Rightarrow> LocalTime \<Rightarrow> Collaborators \<Rightarrow> ReasonEnv \<Rightarrow> int
   \<Rightarrow> IdeaCandidate \<Rightarrow> RelevanceScore \<Rightarrow> string \<Rightarrow> string \<Rightarrow> bool option \<Rightarrow> string list \<Rightarrow> (tables, unit) act" where
  "publish_reflection fromiso parse dump cfg zone co env now best score title body approved trace =
     bind_act (lift_act (\<lambda>_. candidate_to_entry best (co_isoformat co now) score title body approved trace)) (\<lambda>entry.
     bind_act (save_entry entry) (\<lambda>_.
     bind_act (observed (record_reflection_created (re_trace_id env) (re_trace_now env) (rf_id entry) (rf_title entry) (rf_body entry)
         (rf_candidate_type entry) (PFloat (rf_composite_score entry)) (rf_discussion_approved entry) None
         (decision_points co cfg score approved) [])) (\<lambda>_.
     bind_act (observed (co_organize co)) (\<lambda>_.
     bind_act (write_last_reflection parse dump zone now (Some title) (Some body)) (\<lambda>_.
       publish_inbox fromiso env entry (cfg_auto_notify cfg))))))"

definition reflection_cycle ::
  "iso_parser \<Rightarrow> schedule_parser \<Rightarrow> schedule_dumper \<Rightarrow> ReflectionSettings \<Rightarrow> LocalTime \<Rightarrow> Collaborators \<Rightarrow> ReasonEnv \<Rightarrow> int
   \<Rightarrow> (tables, bool) act" where
  "reflection_cycle fromiso parse dump cfg zone co env now =
     bind_act (observed (co_organize co)) (\<lambda>_.
     bind_act (lift_act (\<lambda>_. co_generate co)) (\<lambda>candidates.
       case candidates of
         [] \<Rightarrow> ret_act False
       | best # _ \<Rightarrow>
           bind_act (lift_act (\<lambda>_. co_score co best)) (\<lambda>score.
             if \<not> rel_passes score then ret_act False
             else bind_act (lift_act (\<lambda>_. discussed co cfg best score)) (\<lambda>d.
               case d of
                 None \<Rightarrow> ret_act False
               | Some (title, body, approved, trace) \<Rightarrow>
                   bind_act (publish_reflection fromiso parse dump cfg zone co env now best score title body approved trace) (\<lambda>_.
                     ret_act True)))))"

definition reflect ::
  "iso_parser \<Rightarrow> schedule_parser \<Rightarrow> schedule_dumper \<Rightarrow> ReflectionSettings \<Rightarrow> LocalTime \<Rightarrow> Collaborators \<Rightarrow> ReasonEnv
   \<Rightarrow> int \<Rightarrow> int \<Rightarrow> bool \<Rightarrow> (tables, bool) act" where
  "reflect fromiso parse dump cfg zone co env drawn now force =
     bind_act (schedule_block_reason parse cfg zone drawn now) (\<lambda>block_reason.
       if block_reason \<noteq> None \<and> (\<not> force \<or> block_reason = Some ''state_corrupt'') then ret_act False
       else reflection_cycle fromiso parse dump cfg zone co env now)"

section \<open>The quiet hours\<close>

text \<open>
  An hour is quiet exactly if it lies in the circular interval of the day that starts at the
  quiet start hour and is as long as the distance to the quiet end hour, whether or not it passes
  midnight; equal hours mean no quiet hours.
\<close>

theorem quiet_hours_spec:
  assumes "0 \<le> cfg_quiet_start_hour cfg \<and> cfg_quiet_start_hour cfg < 24"
    and "0 \<le> cfg_quiet_end_hour cfg \<and> cfg_quiet_end_hour cfg < 24"
    and "0 \<le> local_hour zone now \<and> local_hour zone now < 24"
  shows "in_quiet_hours cfg zone now \<longleftrightarrow>
    (local_hour zone now - cfg_quiet_start_hour cfg) mod 24 < (cfg_quiet_end_hour cfg - cfg_quiet_start_hour cfg) mod 24"
proof -
  have m: "(a - b) mod 24 = (if b \<le> a then a - b else a - b + 24)" if "0 \<le> a" "a < 24" "0 \<le> b" "b < 24" for a b :: int
  proof (cases "b \<le> a")
    case False
    then have "(a - b) mod 24 = (a - b + 24) mod 24" by simp
    also have "\<dots> = a - b + 24" using that False by (intro mod_pos_pos_trivial) auto
    finally show ?thesis using False by simp
  qed (use that in simp)
  show ?thesis
    using assms m [of "local_hour zone now" "cfg_quiet_start_hour cfg"] m [of "cfg_quiet_end_hour cfg" "cfg_quiet_start_hour cfg"]
    by (auto simp: in_quiet_hours_def Let_def)
qed

section \<open>What a cycle does to the schedule state\<close>

lemma schedule_state_frame: "schedule_state parse t = (fst (schedule_state parse t), t)"
  by (auto simp: schedule_state_def bind_act_def tab_get_def split: sum.splits)

lemma schedule_state_cong:
  "t' ''scheduler_state'' = t ''scheduler_state'' \<Longrightarrow> fst (schedule_state parse t') = fst (schedule_state parse t)"
  by (auto simp: schedule_state_def bind_act_def tab_get_def split: sum.splits)

lemma schedule_state_others:
  "others cs t t' \<Longrightarrow> ''scheduler_state'' \<notin> cs \<Longrightarrow> fst (schedule_state parse t') = fst (schedule_state parse t)"
  by (rule schedule_state_cong) (simp add: others_def)

lemma saved_state_read:
  assumes c: "schedule_codec dump parse" and s: "0 \<le> ss_daily_count s" and rows: "rows_ok (t ''scheduler_state'')"
  obtains t' where "save_schedule_state dump s t = (Inr (), t')" "fst (schedule_state parse t') = Inr (Some s)"
    "others {''scheduler_state''} t t'" "rows_ok (t' ''scheduler_state'')"
proof -
  let ?c = "t ''scheduler_state''"
  from c have d: "json_dict (dump s)" "dget (dump s) ''id'' = None" "parse (dump s) = Some s"
    using s by (auto simp: schedule_codec_def)
  have "json_plain (PDict (dump s))" using d(1) by (simp add: json_dict_def)
  then obtain f where f: "freeze (PDict (dump s)) = Inr f" "thaw f = PDict (dump s)" using freeze_plain by blast
  have p: "payload_of (dump s) = dump s"
    using d(2) unfolding payload_of_def filter_id_conv by (force simp: map_of_eq_None_iff)
  have "coll_put ''reflection'' (dump s) ?c = Inr (row_put ''reflection'' (dump s) ?c)"
    using f d(2) p by (simp add: coll_put_def dict_get_def del: freeze.simps)
  then have run: "save_schedule_state dump s t = (Inr (), t(''scheduler_state'' := row_put ''reflection'' (dump s) ?c))"
    by (simp add: save_schedule_state_def tab_put_def)
  have id: "''id'' \<notin> fst ` set (dump s)" using d(2) by (simp add: map_of_eq_None_iff)
  have read: "fst (schedule_state parse (t(''scheduler_state'' := row_put ''reflection'' (dump s) ?c))) = Inr (Some s)"
    using rows id p d(3)
    by (simp add: schedule_state_def bind_act_def tab_get_def coll_get_def row_get_put coll_decode_def decode_schedule_state_def
        payload_of_def [of "(''id'', PStr ''reflection'') # dump s"] payload_of_def [of "dump s", symmetric])
  show ?thesis
    using run read rows
    by (intro that [of "t(''scheduler_state'' := row_put ''reflection'' (dump s) ?c)"]) (simp_all add: others_def)
qed

text \<open>What a cycle may rely on: the organizer touches only the entries.\<close>

definition tidy :: "Collaborators \<Rightarrow> bool" where
  "tidy co \<longleftrightarrow> (\<forall>t. others {''reflection_entries''} t (snd (co_organize co t)))"

lemma save_entry_frame: "others {''reflection_entries''} t (snd (save_entry x t))"
  by (auto simp: save_entry_def bind_act_def tab_put_def others_def split: sum.splits)

lemma delivery_request_frame: "others {''delivery_records''} t (snd (delivery_request fromiso now i c t))"
  by (auto simp: delivery_request_def Let_def atomic_act_def bind_act_def repo_find_def tab_get_def delivery_update_def
      delivery_save_def tab_put_def others_def split: sum.splits option.splits)

lemma publish_inbox_frame: "others {''inbox_items'', ''delivery_records''} t (snd (publish_inbox fromiso env entry notify t))"
proof (cases "make_inbox_item fromiso (reflection_item env entry)")
  case (Inl e)
  then show ?thesis by (simp add: publish_inbox_def bind_act_def)
next
  case (Inr item)
  obtain r u where a: "inbox_add fromiso item t = (r, u)" by fastforce
  have f: "others {''inbox_items''} t u" using inbox_add_frame [of t fromiso item] a by simp
  show ?thesis
  proof (cases r)
    case (Inl e)
    with Inr a f show ?thesis by (auto simp: publish_inbox_def bind_act_def others_def)
  next
    case (Inr x)
    let ?v = "snd (delivery_request fromiso (re_now env) (inbox_id x) (inbox_context x) u)"
    have "others {''inbox_items'', ''delivery_records''} t ?v"
      by (rule others_trans [OF f delivery_request_frame]) auto
    moreover have "others {''inbox_items'', ''delivery_records''} t u" using f by (auto simp: others_def)
    ultimately show ?thesis
      using Inr a \<open>make_inbox_item _ _ = Inr item\<close>
      by (cases "delivery_request fromiso (re_now env) (inbox_id x) (inbox_context x) u")
        (auto simp: publish_inbox_def bind_act_def split: sum.splits)
  qed
qed

definition new_state :: "LocalTime \<Rightarrow> int \<Rightarrow> ScheduleState option \<Rightarrow> string option \<Rightarrow> string option \<Rightarrow> ScheduleState" where
  "new_state zone now current title body =
     \<lparr>ss_timestamp = now, ss_daily_count = reflection_count_today zone now current + 1,
      ss_daily_date = local_date zone now, ss_title = title, ss_body = body\<rparr>"

definition schedule_ok :: "schedule_parser \<Rightarrow> tables \<Rightarrow> bool" where
  "schedule_ok parse t \<longleftrightarrow> rows_ok (t ''scheduler_state'')
     \<and> (case fst (schedule_state parse t) of Inr (Some s) \<Rightarrow> 0 \<le> ss_daily_count s | Inr None \<Rightarrow> True | Inl e \<Rightarrow> False)"

lemma count_nonneg:
  "(case state of Some s \<Rightarrow> 0 \<le> ss_daily_count s | None \<Rightarrow> True) \<Longrightarrow> 0 \<le> reflection_count_today zone now state"
  by (auto simp: reflection_count_today_def split: option.splits)

lemma publish_state:
  assumes codec: "schedule_codec dump parse" and co: "tidy co" and ok: "schedule_ok parse t"
    and cur: "fst (schedule_state parse t) = Inr current"
    and run: "publish_reflection fromiso parse dump cfg zone co env now best score title body approved trace t = (r, t')"
  shows "(t' ''scheduler_state'' = t ''scheduler_state'' \<and> r \<noteq> Inr ())
    \<or> (fst (schedule_state parse t') = Inr (Some (new_state zone now current (Some title) (Some body)))
       \<and> rows_ok (t' ''scheduler_state''))"
proof (cases "candidate_to_entry best (co_isoformat co now) score title body approved trace")
  case (Inl e)
  with run show ?thesis by (auto simp: publish_reflection_def bind_act_def)
next
  case entry: (Inr entry)
  obtain r1 u where u: "save_entry entry t = (r1, u)" by fastforce
  have fu: "others {''reflection_entries''} t u" using save_entry_frame [of t entry] u by simp
  show ?thesis
  proof (cases r1)
    case (Inl e)
    with entry u run fu show ?thesis by (auto simp: publish_reflection_def bind_act_def others_def)
  next
    case (Inr saved)
    let ?rec = "record_reflection_created (re_trace_id env) (re_trace_now env) (rf_id entry) (rf_title entry) (rf_body entry)
         (rf_candidate_type entry) (PFloat (rf_composite_score entry)) (rf_discussion_approved entry) None
         (decision_points co cfg score approved) []"
    define v where "v = snd (co_organize co (snd (?rec u)))"
    let ?cs = "{''reflection_entries'', ''trace_nodes''}"
    have fv: "others ?cs t v"
    proof -
      have "others {''trace_nodes''} u (snd (?rec u))" unfolding record_reflection_created_def by (rule record_trace_frame)
      from others_trans [OF fu this] have "others ?cs t (snd (?rec u))" by auto
      moreover have "others {''reflection_entries''} (snd (?rec u)) v" using co by (simp add: tidy_def v_def)
      ultimately show ?thesis by (rule others_trans) auto
    qed
    have sv: "v ''scheduler_state'' = t ''scheduler_state''" using fv by (simp add: others_def)
    have cv: "schedule_state parse v = (Inr current, v)"
      using schedule_state_frame [of parse v] schedule_state_cong [of v t parse] sv cur by simp
    have nonneg: "0 \<le> ss_daily_count (new_state zone now current (Some title) (Some body))"
      using ok cur count_nonneg [of current zone now] by (auto simp: schedule_ok_def new_state_def split: option.splits)
    have rows: "rows_ok (v ''scheduler_state'')" using ok sv by (simp add: schedule_ok_def)
    from saved_state_read [where t = v, OF codec nonneg rows] obtain w where
      w: "save_schedule_state dump (new_state zone now current (Some title) (Some body)) v = (Inr (), w)"
      "fst (schedule_state parse w) = Inr (Some (new_state zone now current (Some title) (Some body)))"
      "rows_ok (w ''scheduler_state'')" by blast
    have last: "write_last_reflection parse dump zone now (Some title) (Some body) v = (Inr (), w)"
      using w(1) cv by (simp add: write_last_reflection_def bind_act_def new_state_def)
    have t': "t' = snd (publish_inbox fromiso env entry (cfg_auto_notify cfg) w)"
      using run entry u Inr last by (simp add: publish_reflection_def bind_act_def v_def)
    have "others {''inbox_items'', ''delivery_records''} w t'" unfolding t' by (rule publish_inbox_frame)
    then have "t' ''scheduler_state'' = w ''scheduler_state''" by (simp add: others_def)
    with w(2,3) schedule_state_cong [of t' w parse] show ?thesis by simp
  qed
qed

lemma reflection_cycle_cases:
  assumes cyc: "reflection_cycle fromiso parse dump cfg zone co env now t = (r, t')"
  obtains (quit) "t' = snd (co_organize co t)" "r \<noteq> Inr True"
  | (publish) best score title body approved trace r' where
      "publish_reflection fromiso parse dump cfg zone co env now best score title body approved trace (snd (co_organize co t)) = (r', t')"
      "r = Inr True \<longrightarrow> r' = Inr ()"
proof (cases "co_generate co")
  case (Inl e)
  with cyc quit show ?thesis by (auto simp: reflection_cycle_def bind_act_def)
next
  case gen: (Inr candidates)
  show ?thesis
  proof (cases candidates)
    case Nil
    with gen cyc quit show ?thesis by (auto simp: reflection_cycle_def bind_act_def)
  next
    case (Cons best rest)
    show ?thesis
    proof (cases "co_score co best")
      case (Inl e)
      with gen Cons cyc quit show ?thesis by (auto simp: reflection_cycle_def bind_act_def)
    next
      case score: (Inr score)
      show ?thesis
      proof (cases "rel_passes score")
        case False
        with gen Cons score cyc quit show ?thesis by (auto simp: reflection_cycle_def bind_act_def)
      next
        case passes: True
        note start = gen Cons score passes cyc
        show ?thesis
        proof (cases "discussed co cfg best score")
          case (Inl e)
          with start quit show ?thesis by (auto simp: reflection_cycle_def bind_act_def)
        next
          case d: (Inr d)
          show ?thesis
          proof (cases d)
            case None
            with start d quit show ?thesis by (auto simp: reflection_cycle_def bind_act_def)
          next
            case (Some x)
            obtain title body approved trace where x: "x = (title, body, approved, trace)" by (cases x) auto
            obtain r' w where p: "publish_reflection fromiso parse dump cfg zone co env now best score title body approved trace (snd (co_organize co t)) = (r', w)"
              by fastforce
            have "w = t' \<and> (r = Inr True \<longrightarrow> r' = Inr ())"
              using start d Some x p
              by (cases r') (auto simp: reflection_cycle_def bind_act_def)
            with p publish show ?thesis by blast
          qed
        qed
      qed
    qed
  qed
qed

lemma reflect_state:
  assumes codec: "schedule_codec dump parse" and co: "tidy co" and ok: "schedule_ok parse t"
    and cur: "fst (schedule_state parse t) = Inr current"
    and run: "reflect fromiso parse dump cfg zone co env drawn now force t = (r, t')"
  shows "schedule_ok parse t' \<and>
    (fst (schedule_state parse t') = Inr current \<and> r \<noteq> Inr True
     \<or> (\<exists>title body. fst (schedule_state parse t') = Inr (Some (new_state zone now current title body)))
       \<and> (force \<or> \<not> in_quiet_hours cfg zone now \<and> gate_reason cfg zone drawn now current = None))"
proof -
  have s: "schedule_state parse t = (Inr current, t)" using schedule_state_frame [of parse t] cur by simp
  have reason: "schedule_block_reason parse cfg zone drawn now t =
      (Inr (if in_quiet_hours cfg zone now then Some ''quiet_hours'' else gate_reason cfg zone drawn now current), t)"
    using s by (simp add: schedule_block_reason_def)
  have same: "schedule_ok parse u \<and> fst (schedule_state parse u) = Inr current"
    if "u ''scheduler_state'' = t ''scheduler_state''" for u
    using ok cur schedule_state_cong [of u t parse] that by (simp add: schedule_ok_def)
  show ?thesis
  proof (cases "(if in_quiet_hours cfg zone now then Some ''quiet_hours'' else gate_reason cfg zone drawn now current) \<noteq> None \<and> \<not> force")
    case True
    then have "(r, t') = (Inr False, t)" using run reason by (auto simp: reflect_def bind_act_def)
    with ok cur show ?thesis by simp
  next
    case False
    then have open_gate: "force \<or> \<not> in_quiet_hours cfg zone now \<and> gate_reason cfg zone drawn now current = None"
      by (auto split: if_splits)
    have "gate_reason cfg zone drawn now current \<noteq> Some ''state_corrupt''" by (simp add: gate_reason_def)
    with False have cyc: "reflection_cycle fromiso parse dump cfg zone co env now t = (r, t')"
      using run reason by (auto simp: reflect_def bind_act_def split: if_splits)
    define u where "u = snd (co_organize co t)"
    have u: "u ''scheduler_state'' = t ''scheduler_state''" using co by (auto simp: tidy_def others_def u_def)
    note su = same [of u, OF u]
    from cyc show ?thesis
    proof (cases rule: reflection_cycle_cases)
      case quit
      with su show ?thesis by (simp add: u_def)
    next
      case (publish best score title body approved trace r')
      have ok: "schedule_ok parse u" and cu: "fst (schedule_state parse u) = Inr current" using su by simp_all
      have nonneg: "0 \<le> reflection_count_today zone now current"
        using ok cu count_nonneg [of current zone now] by (auto simp: schedule_ok_def split: option.splits)
      from publish_state [OF codec co ok cu publish(1) [folded u_def]] show ?thesis
      proof
        assume same': "t' ''scheduler_state'' = u ''scheduler_state'' \<and> r' \<noteq> Inr ()"
        then have "schedule_ok parse t' \<and> fst (schedule_state parse t') = Inr current" using same u by simp
        with same' publish(2) show ?thesis by auto
      next
        assume new: "fst (schedule_state parse t') = Inr (Some (new_state zone now current (Some title) (Some body)))
          \<and> rows_ok (t' ''scheduler_state'')"
        then have "schedule_ok parse t'" using nonneg by (simp add: schedule_ok_def new_state_def)
        with new open_gate show ?thesis by blast
      qed
    qed
  qed
qed

section \<open>Scheduled reflections over time\<close>

text \<open>
  A history of calls at non-decreasing times: the list of runs holds the times of the scheduled (not forced)
  cycles that published, the newest first. Forced cycles and changes of other collections may come
  between.
\<close>

inductive reflect_event ::
  "schedule_parser \<Rightarrow> schedule_dumper \<Rightarrow> ReflectionSettings \<Rightarrow> LocalTime \<Rightarrow> tables \<times> int list \<times> int \<Rightarrow> tables \<times> int list \<times> int \<Rightarrow> bool"
  for parse dump cfg zone where
  reflected: "clock \<le> now \<Longrightarrow> - jitter_bound cfg \<le> drawn \<Longrightarrow> drawn \<le> jitter_bound cfg \<Longrightarrow> tidy co \<Longrightarrow>
     reflect fromiso parse dump cfg zone co env drawn now force t = (r, t') \<Longrightarrow>
     reflect_event parse dump cfg zone (t, runs, clock) (t', if r = Inr True \<and> \<not> force then now # runs else runs, now)"
| elsewhere: "others cs t t' \<Longrightarrow> ''scheduler_state'' \<notin> cs \<Longrightarrow> reflect_event parse dump cfg zone (t, runs, clock) (t', runs, clock)"

definition on_day :: "LocalTime \<Rightarrow> int \<Rightarrow> int list \<Rightarrow> int" where
  "on_day zone d xs = int (length (filter (\<lambda>x. local_date zone x = d) xs))"

definition min_gap :: "ReflectionSettings \<Rightarrow> int" where
  "min_gap cfg = 1000000 * max (cfg_cooldown_seconds cfg) (cfg_interval_seconds cfg - jitter_bound cfg)"

definition cap_inv :: "schedule_parser \<Rightarrow> ReflectionSettings \<Rightarrow> LocalTime \<Rightarrow> tables \<times> int list \<times> int \<Rightarrow> bool" where
  "cap_inv parse cfg zone = (\<lambda>(t, runs, clock). schedule_ok parse t
     \<and> (\<forall>d. on_day zone d runs \<le> cfg_daily_cap cfg) \<and> sorted_wrt (\<lambda>y x. x + min_gap cfg \<le> y) runs
     \<and> (\<forall>x \<in> set runs. \<not> in_quiet_hours cfg zone x)
     \<and> (case fst (schedule_state parse t) of
          Inr (Some s) \<Rightarrow> ss_timestamp s \<le> clock \<and> ss_daily_date s = local_date zone (ss_timestamp s)
            \<and> (\<forall>x \<in> set runs. x \<le> ss_timestamp s) \<and> on_day zone (ss_daily_date s) runs \<le> ss_daily_count s
        | _ \<Rightarrow> runs = []))"

lemma gate_open:
  assumes "gate_reason cfg zone drawn now current = None" and "- jitter_bound cfg \<le> drawn"
  shows "reflection_count_today zone now current < cfg_daily_cap cfg"
    and "\<And>s. current = Some s \<Longrightarrow> ss_timestamp s + min_gap cfg \<le> now"
proof -
  show "reflection_count_today zone now current < cfg_daily_cap cfg"
    using assms(1) by (auto simp: gate_reason_def daily_cap_not_reached_def split: if_splits)
  fix s
  assume s: "current = Some s"
  then have "cfg_cooldown_seconds cfg * 1000000 \<le> now - ss_timestamp s"
    "jittered_interval cfg drawn * 1000000 \<le> now - ss_timestamp s"
    using assms(1)
    by (auto simp: gate_reason_def in_cooldown_def interval_not_elapsed_def elapsed_less_def split: if_splits)
  moreover have "cfg_interval_seconds cfg - jitter_bound cfg \<le> jittered_interval cfg drawn"
    using assms(2) by (simp add: jittered_interval_def)
  ultimately show "ss_timestamp s + min_gap cfg \<le> now" by (simp add: min_gap_def max_def)
qed

lemma today_bounds_log:
  assumes mono: "mono (local_date zone)" and now: "clock \<le> now"
    and inv: "case current of
          Some s \<Rightarrow> ss_timestamp s \<le> clock \<and> ss_daily_date s = local_date zone (ss_timestamp s)
            \<and> (\<forall>x \<in> set runs. x \<le> ss_timestamp s) \<and> on_day zone (ss_daily_date s) runs \<le> ss_daily_count s
        | None \<Rightarrow> runs = []"
  shows "on_day zone (local_date zone now) runs \<le> reflection_count_today zone now current"
proof (cases current)
  case None
  with inv show ?thesis by (simp add: reflection_count_today_def on_day_def)
next
  case (Some s)
  show ?thesis
  proof (cases "ss_daily_date s = local_date zone now")
    case True
    from inv Some have "on_day zone (ss_daily_date s) runs \<le> ss_daily_count s" by auto
    with True Some show ?thesis by (simp add: reflection_count_today_def)
  next
    case False
    have "local_date zone x \<noteq> local_date zone now" if "x \<in> set runs" for x
    proof -
      have "local_date zone x \<le> local_date zone (ss_timestamp s)" "local_date zone (ss_timestamp s) \<le> local_date zone now"
        using inv Some that now by (auto intro!: monoD [OF mono])
      with False inv Some show ?thesis by auto
    qed
    then have "filter (\<lambda>x. local_date zone x = local_date zone now) runs = []" by (auto simp: filter_empty_conv)
    with False Some show ?thesis by (simp add: reflection_count_today_def on_day_def)
  qed
qed

lemma cap_inv_event:
  assumes ev: "reflect_event parse dump cfg zone a b" and codec: "schedule_codec dump parse"
    and mono: "mono (local_date zone)" and inv: "cap_inv parse cfg zone a"
  shows "cap_inv parse cfg zone b"
  using ev
proof cases
  case (elsewhere cs t t' runs clock)
  have "t' ''scheduler_state'' = t ''scheduler_state''" using elsewhere(3,4) by (simp add: others_def)
  with schedule_state_cong [of t' t parse] inv elsewhere(1,2) show ?thesis
    by (simp add: cap_inv_def schedule_ok_def)
next
  case (reflected clock now drawn co fromiso env force t r t' runs)
  have ok: "schedule_ok parse t" using inv reflected(1) by (simp add: cap_inv_def)
  then obtain current where cur: "fst (schedule_state parse t) = Inr current"
    by (auto simp: schedule_ok_def split: sum.splits)
  have old: "case current of
          Some s \<Rightarrow> ss_timestamp s \<le> clock \<and> ss_daily_date s = local_date zone (ss_timestamp s)
            \<and> (\<forall>x \<in> set runs. x \<le> ss_timestamp s) \<and> on_day zone (ss_daily_date s) runs \<le> ss_daily_count s
        | None \<Rightarrow> runs = []"
    and cap: "\<forall>d. on_day zone d runs \<le> cfg_daily_cap cfg" and gap: "sorted_wrt (\<lambda>y x. x + min_gap cfg \<le> y) runs"
    and quiet: "\<forall>x \<in> set runs. \<not> in_quiet_hours cfg zone x"
    using inv reflected(1) cur by (auto simp: cap_inv_def split: option.splits)
  note today = today_bounds_log [OF mono reflected(3) old]
  have before: "x \<le> now" if "x \<in> set runs" for x
    using old that reflected(3) by (cases current) force+
  from reflect_state [OF codec reflected(6) ok cur reflected(7)] have okt: "schedule_ok parse t'"
    and res: "fst (schedule_state parse t') = Inr current \<and> r \<noteq> Inr True
     \<or> (\<exists>title body. fst (schedule_state parse t') = Inr (Some (new_state zone now current title body)))
       \<and> (force \<or> \<not> in_quiet_hours cfg zone now \<and> gate_reason cfg zone drawn now current = None)" by simp_all
  from res show ?thesis
  proof
    assume "fst (schedule_state parse t') = Inr current \<and> r \<noteq> Inr True"
    with okt cap gap quiet old reflected(2,3) show ?thesis
      by (cases current) (auto simp: cap_inv_def)
  next
    assume new: "(\<exists>title body. fst (schedule_state parse t') = Inr (Some (new_state zone now current title body)))
       \<and> (force \<or> \<not> in_quiet_hours cfg zone now \<and> gate_reason cfg zone drawn now current = None)"
    then obtain title body where st: "fst (schedule_state parse t') = Inr (Some (new_state zone now current title body))" by blast
    show ?thesis
    proof (cases "r = Inr True \<and> \<not> force")
      case False
      with okt cap gap quiet st today before reflected(2) show ?thesis
        by (auto simp: cap_inv_def new_state_def)
    next
      case True
      with new have g: "\<not> in_quiet_hours cfg zone now" "gate_reason cfg zone drawn now current = None" by simp_all
      note gate = gate_open [OF g(2) reflected(4)]
      have day: "on_day zone d (now # runs) = (if d = local_date zone now then 1 else 0) + on_day zone d runs" for d
        by (simp add: on_day_def)
      have "x + min_gap cfg \<le> now" if "x \<in> set runs" for x
        using old that gate(2) by (cases current) force+
      with okt cap gap quiet st today before gate(1) g(1) True reflected(2) show ?thesis
        by (auto simp: cap_inv_def new_state_def day)
    qed
  qed
qed

text \<open>
  C22: However often the scheduler is asked, and whatever is forced in between, the scheduled cycles
  that publish stay within the daily cap on every day, keep the cooldown and the interval less its
  jitter between any two of them, and never fall into the quiet hours.
\<close>

theorem daily_cap_safety:
  assumes "schedule_codec dump parse" and "mono (local_date zone)" and "1 \<le> cfg_daily_cap cfg"
    and "schedule_ok parse t" and "fst (schedule_state parse t) = Inr None"
    and "(reflect_event parse dump cfg zone)\<^sup>*\<^sup>* (t, [], clock) (t', runs, now)"
  shows "(\<forall>d. int (length (filter (\<lambda>x. local_date zone x = d) runs)) \<le> cfg_daily_cap cfg)
    \<and> sorted_wrt (\<lambda>later earlier. earlier + 1000000 * max (cfg_cooldown_seconds cfg)
        (cfg_interval_seconds cfg - cfg_interval_seconds cfg * cfg_jitter_percent cfg div 100) \<le> later) runs
    \<and> (\<forall>x \<in> set runs. \<not> in_quiet_hours cfg zone x)"
proof -
  have "cap_inv parse cfg zone (t, [], clock)" using assms(3-5) by (simp add: cap_inv_def on_day_def)
  with assms(6) have "cap_inv parse cfg zone (t', runs, now)"
    by (induction rule: rtranclp_induct) (auto intro: cap_inv_event [OF _ assms(1,2)])
  then show ?thesis by (simp add: cap_inv_def on_day_def min_gap_def jitter_bound_def)
qed

section \<open>A forced reflection\<close>

lemma save_entry_run:
  assumes "rows_ok (t ''reflection_entries'')" and "json_dict (entry_to_wire x)"
  shows "\<exists>t'. save_entry x t = (Inr x, t') \<and> map_of (t' ''reflection_entries'') (rf_id x) = Some (payload_of (entry_to_wire x))
    \<and> others {''reflection_entries''} t t'"
proof -
  let ?c = "t ''reflection_entries''"
  have "json_plain (PDict (entry_to_wire x))" using assms(2) by (simp add: json_dict_def)
  then obtain f where f: "freeze (PDict (entry_to_wire x)) = Inr f" "thaw f = PDict (entry_to_wire x)"
    using freeze_plain by blast
  have "dict_get (entry_to_wire x) ''id'' = PStr (rf_id x)" by (simp add: entry_to_wire_def dict_get_def)
  with f have "coll_put (rf_id x) (entry_to_wire x) ?c = Inr (row_put (rf_id x) (payload_of (entry_to_wire x)) ?c)"
    by (simp add: coll_put_def del: freeze.simps)
  then show ?thesis
    using assms(1)
    by (intro exI [of _ "t(''reflection_entries'' := row_put (rf_id x) (payload_of (entry_to_wire x)) ?c)"])
      (simp add: save_entry_def bind_act_def tab_put_def row_get_put others_def)
qed

definition finite_float :: "pyfloat \<Rightarrow> bool" where
  "finite_float x \<longleftrightarrow> (\<exists>q. x = Finite q)"

lemma entry_plain:
  assumes "candidate_to_entry best created score title body approved trace = Inr entry"
    and "list_all finite_float [ic_confidence best, ic_novelty best, ic_urgency best, ic_interruption_cost best, rel_composite score]"
  shows "json_dict (entry_to_wire entry)" "rf_id entry = ''reflection-'' @ ic_id best"
proof -
  have e: "\<exists>url. entry = \<lparr>rf_id = ''reflection-'' @ ic_id best, rf_title = title, rf_body = body,
            rf_candidate_type = candidate_type_str (ic_type best), rf_confidence = ic_confidence best,
            rf_novelty = ic_novelty best, rf_urgency = ic_urgency best,
            rf_interruption_cost = ic_interruption_cost best, rf_composite_score = rel_composite score,
            rf_status = EsPending, rf_discussion_approved = approved, rf_discussion_trace = trace,
            rf_deep_link = url, rf_created_at = created, rf_reviewed_at = None\<rparr>"
    using assms(1) by (auto simp: candidate_to_entry_def result_simps)
  have "json_plain (opt_bool approved)" by (cases approved) simp_all
  with e assms(2) show "json_dict (entry_to_wire entry)" "rf_id entry = ''reflection-'' @ ic_id best"
    by (auto simp: entry_to_wire_def json_dict_def finite_float_def)
qed

text \<open>
  A forced reflection is refused, without any change, when the schedule state is corrupt - but
  not during the quiet hours, which are checked first: then the cycle runs, saves its entry, and only
  fails when it records the run, so that the entry never reaches the Inbox.
\<close>

theorem forced_reflection_corrupt_state:
  assumes "fst (schedule_state parse t) = Inl (ReflectionScheduleStateError m)" and "rows_ok (t ''reflection_entries'')"
    and "co_generate co = Inr (best # rest) \<and> co_score co best = Inr score \<and> rel_passes score
      \<and> \<not> float_ge (rel_composite score) (cfg_discussion_threshold cfg)"
    and "list_all finite_float [ic_confidence best, ic_novelty best, ic_urgency best, ic_interruption_cost best, rel_composite score]"
    and "\<And>u. snd (co_organize co u) = u"
  shows "if in_quiet_hours cfg zone now
    then \<exists>entry t'. reflect fromiso parse dump cfg zone co env drawn now True t = (Inl (ReflectionScheduleStateError m), t')
      \<and> rf_id entry = ''reflection-'' @ ic_id best
      \<and> map_of (t' ''reflection_entries'') (rf_id entry) = Some (payload_of (entry_to_wire entry))
      \<and> t' ''inbox_items'' = t ''inbox_items''
    else reflect fromiso parse dump cfg zone co env drawn now True t = (Inr False, t)"
proof (cases "in_quiet_hours cfg zone now")
  case False
  have "schedule_state parse t = (Inl (ReflectionScheduleStateError m), t)"
    using schedule_state_frame [of parse t] assms(1) by simp
  with False show ?thesis by (simp add: reflect_def schedule_block_reason_def bind_act_def)
next
  case True
  obtain entry where e: "candidate_to_entry best (co_isoformat co now) score (ic_title best) (ic_body best) None [] = Inr entry"
    by (simp add: candidate_to_entry_def link_to_url_def link_for_new_conversation_def)
  note plain = entry_plain [OF e assms(4)]
  obtain u where u: "save_entry entry t = (Inr entry, u)"
    "map_of (u ''reflection_entries'') (rf_id entry) = Some (payload_of (entry_to_wire entry))" "others {''reflection_entries''} t u"
    using save_entry_run [where t = t, OF assms(2) plain(1)] by blast
  define v where "v = snd (record_reflection_created (re_trace_id env) (re_trace_now env) (rf_id entry) (rf_title entry) (rf_body entry)
         (rf_candidate_type entry) (PFloat (rf_composite_score entry)) (rf_discussion_approved entry) None
         (decision_points co cfg score None) [] u)"
  have v: "others {''trace_nodes''} u v" unfolding v_def record_reflection_created_def by (rule record_trace_frame)
  then have tv: "v ''scheduler_state'' = t ''scheduler_state''" "v ''inbox_items'' = t ''inbox_items''"
    "v ''reflection_entries'' = u ''reflection_entries''" using u(3) by (simp_all add: others_def)
  have "schedule_state parse v = (Inl (ReflectionScheduleStateError m), v)"
    using schedule_state_frame [of parse v] schedule_state_cong [of v t parse] tv(1) assms(1) by simp
  then have "publish_reflection fromiso parse dump cfg zone co env now best score (ic_title best) (ic_body best) None [] t =
      (Inl (ReflectionScheduleStateError m), v)"
    using e u(1) assms(5) by (simp add: publish_reflection_def bind_act_def write_last_reflection_def flip: v_def)
  then have "reflect fromiso parse dump cfg zone co env drawn now True t = (Inl (ReflectionScheduleStateError m), v)"
    using True assms(3,5)
    by (simp add: reflect_def schedule_block_reason_def bind_act_def reflection_cycle_def discussed_def)
  with True plain(2) u(2) tv show ?thesis by auto
qed

section \<open>Instances\<close>

text \<open>A cycle whose candidate passes the gate below the discussion threshold, without delivery.\<close>

lemma publish_succeeds:
  assumes codec: "schedule_codec dump parse" and ok: "schedule_ok parse t" and ib: "inbox_ok fromiso t"
    and rows: "rows_ok (t ''reflection_entries'')"
    and env: "is_aware fromiso (re_inbox_created env)" "is_aware fromiso (re_inbox_updated env)" "context_valid (re_context env)"
    and fin: "list_all finite_float [ic_confidence best, ic_novelty best, ic_urgency best, ic_interruption_cost best, rel_composite score]"
    and co: "\<And>u. snd (co_organize co u) = u" and quiet: "\<not> cfg_auto_notify cfg"
  shows "fst (publish_reflection fromiso parse dump cfg zone co env now best score title body approved trace t) = Inr ()"
proof -
  obtain entry where e: "candidate_to_entry best (co_isoformat co now) score title body approved trace = Inr entry"
    by (simp add: candidate_to_entry_def link_to_url_def link_for_new_conversation_def)
  note plain = entry_plain [OF e fin]
  obtain u where u: "save_entry entry t = (Inr entry, u)" "others {''reflection_entries''} t u"
    using save_entry_run [where t = t, OF rows plain(1)] by blast
  define v where "v = snd (record_reflection_created (re_trace_id env) (re_trace_now env) (rf_id entry) (rf_title entry) (rf_body entry)
         (rf_candidate_type entry) (PFloat (rf_composite_score entry)) (rf_discussion_approved entry) None
         (decision_points co cfg score approved) [] u)"
  have v: "others {''trace_nodes''} u v" unfolding v_def record_reflection_created_def by (rule record_trace_frame)
  then have tv: "v ''scheduler_state'' = t ''scheduler_state''" "v ''inbox_items'' = t ''inbox_items''"
    using u(2) by (simp_all add: others_def)
  from ok obtain current where cur: "fst (schedule_state parse t) = Inr current"
    by (auto simp: schedule_ok_def split: sum.splits)
  then have sv: "schedule_state parse v = (Inr current, v)"
    using schedule_state_frame [of parse v] schedule_state_cong [of v t parse] tv(1) by simp
  have nonneg: "0 \<le> ss_daily_count (new_state zone now current (Some title) (Some body))"
    using ok cur count_nonneg [of current zone now] by (auto simp: schedule_ok_def new_state_def split: option.splits)
  have rv: "rows_ok (v ''scheduler_state'')" using ok tv(1) by (simp add: schedule_ok_def)
  obtain w where w: "save_schedule_state dump (new_state zone now current (Some title) (Some body)) v = (Inr (), w)"
    "others {''scheduler_state''} v w"
    using saved_state_read [where t = v, OF codec nonneg rv] by metis
  have "inbox_ok fromiso w" using ib inbox_others(1) [OF w(2), of fromiso] inbox_same(1) [of v t fromiso] tv(2) by simp
  moreover have item: "inbox_valid fromiso (reflection_item env entry)"
    using env plain(2) by (simp add: inbox_valid_def reflection_item_def)
  ultimately obtain z w' where "inbox_add fromiso (reflection_item env entry) w = (Inr z, w')"
    by (rule inbox_add_notified)
  then have "fst (publish_inbox fromiso env entry (cfg_auto_notify cfg) w) = Inr ()"
    using item quiet by (simp add: publish_inbox_def bind_act_def)
  then show ?thesis
    using e u(1) sv w(1) co
    by (simp add: publish_reflection_def bind_act_def write_last_reflection_def new_state_def flip: v_def)
qed

definition sample_dump :: schedule_dumper where
  "sample_dump s = [(''timestamp'', PInt (ss_timestamp s)), (''daily_count'', PInt (ss_daily_count s)),
     (''daily_date'', PInt (ss_daily_date s)), (''title'', opt_str (ss_title s)), (''body'', opt_str (ss_body s))]"

definition sample_parse :: schedule_parser where
  "sample_parse d =
     (case (dget d ''timestamp'', dget d ''daily_count'', dget d ''daily_date'', read_optional_string d ''title'',
            read_optional_string d ''body'') of
        (Some (PInt ts), Some (PInt c), Some (PInt day), Inr title, Inr body) \<Rightarrow>
          (if 0 \<le> c then Some \<lparr>ss_timestamp = ts, ss_daily_count = c, ss_daily_date = day, ss_title = title, ss_body = body\<rparr>
           else None)
      | _ \<Rightarrow> None)"

lemma sample_codec: "schedule_codec sample_dump sample_parse"
proof -
  have "sample_parse (sample_dump s) = Some s" if "0 \<le> ss_daily_count s" for s
    using that by (cases s; cases "ss_title s"; cases "ss_body s")
      (simp_all add: sample_parse_def sample_dump_def read_optional_string_def dict_get_def)
  moreover have "0 \<le> ss_daily_count s" if "sample_parse d = Some s" for d s
    using that by (auto simp: sample_parse_def split: option.splits pyobj.splits sum.splits if_splits)
  ultimately show ?thesis by (auto simp: schedule_codec_def sample_dump_def json_dict_def)
qed

definition sample_cfg :: ReflectionSettings where
  "sample_cfg = \<lparr>cfg_interval_seconds = 3600, cfg_cooldown_seconds = 300, cfg_quiet_start_hour = 22, cfg_quiet_end_hour = 7,
     cfg_daily_cap = 5, cfg_jitter_percent = 20, cfg_relevance_threshold = Finite (2/5), cfg_discussion_threshold = Finite (3/5),
     cfg_auto_notify = False\<rparr>"

definition at_hour :: "int \<Rightarrow> LocalTime" where
  "at_hour h = \<lparr>local_hour = (\<lambda>_. h), local_date = (\<lambda>i. i div 86400000000)\<rparr>"

definition sample_candidate :: IdeaCandidate where
  "sample_candidate = \<lparr>ic_id = ''c1'', ic_title = ''A thought'', ic_body = ''Its body'', ic_type = IcQuestion,
     ic_confidence = Finite 1, ic_novelty = Finite 1, ic_urgency = Finite 0, ic_interruption_cost = Finite 0,
     ic_evidence_refs = [], ic_source_summary = '''', ic_created_at = ''n''\<rparr>"

definition sample_score :: RelevanceScore where
  "sample_score = \<lparr>rel_passes = True, rel_novelty = Finite 1, rel_confidence = Finite 1, rel_urgency = Finite 0,
     rel_interruption_cost = Finite 0, rel_cooldown_ok = True, rel_composite = Finite 0, rel_reasons = []\<rparr>"

definition sample_collaborators :: Collaborators where
  "sample_collaborators = \<lparr>co_generate = Inr [sample_candidate], co_score = (\<lambda>_. Inr sample_score),
     co_discuss = (\<lambda>_. Inl (RuntimeError '''')), co_organize = (\<lambda>t. (Inr (0, 0), t)), co_isoformat = tally,
     co_fixed2 = (\<lambda>_. ''0.50''), co_repr = (\<lambda>_. ''0.6'')\<rparr>"

lemma sample_facts:
  "co_generate sample_collaborators = Inr [sample_candidate]" "co_score sample_collaborators x = Inr sample_score"
  "snd (co_organize sample_collaborators u) = u" "rel_passes sample_score"
  "\<not> float_ge (rel_composite sample_score) (cfg_discussion_threshold sample_cfg)" "\<not> cfg_auto_notify sample_cfg"
  "list_all finite_float [ic_confidence sample_candidate, ic_novelty sample_candidate, ic_urgency sample_candidate,
     ic_interruption_cost sample_candidate, rel_composite sample_score]" "tidy sample_collaborators"
  by (simp_all add: sample_collaborators_def sample_score_def sample_cfg_def sample_candidate_def float_ge_def
      finite_float_def tidy_def)

lemma quiet_hours_spec_witness:
  "in_quiet_hours sample_cfg (at_hour 23) 0 \<and> \<not> in_quiet_hours sample_cfg (at_hour 12) 0"
  using quiet_hours_spec [of sample_cfg "at_hour 23" 0] quiet_hours_spec [of sample_cfg "at_hour 12" 0]
  by (simp add: sample_cfg_def at_hour_def)

lemma empty_schedule: "schedule_ok parse (\<lambda>_. [])" "fst (schedule_state parse (\<lambda>_. [])) = Inr None"
  by (simp_all add: schedule_ok_def schedule_state_def bind_act_def tab_get_def coll_get_def decode_schedule_state_def)

lemma daily_cap_safety_witness:
  "\<exists>t'. (reflect_event sample_parse sample_dump sample_cfg (at_hour 12))\<^sup>*\<^sup>* ((\<lambda>_. []), [], 0) (t', [7], 7)
     \<and> int (length (filter (\<lambda>x. local_date (at_hour 12) x = 0) [7])) \<le> cfg_daily_cap sample_cfg"
proof -
  let ?z = "at_hour 12"
  let ?t = "\<lambda>_. [] :: coll"
  have ib: "inbox_ok tally_iso ?t" by (simp add: inbox_ok_def inbox_stored_def inbox_items_def stored_records_def)
  have env: "is_aware tally_iso (re_inbox_created sample_env)" "is_aware tally_iso (re_inbox_updated sample_env)"
    "context_valid (re_context sample_env)" by (simp_all add: sample_env_def)
  have rows: "rows_ok (?t ''reflection_entries'')" by simp
  have pub: "fst (publish_reflection tally_iso sample_parse sample_dump sample_cfg ?z sample_collaborators sample_env 7
      sample_candidate sample_score (ic_title sample_candidate) (ic_body sample_candidate) None [] ?t) = Inr ()"
    by (rule publish_succeeds [where t = ?t, OF sample_codec empty_schedule(1) ib rows env sample_facts(7,3,6)])
  have gate: "schedule_block_reason sample_parse sample_cfg ?z 0 7 ?t = (Inr None, ?t)"
    using schedule_state_frame [of sample_parse ?t] empty_schedule(2) [of sample_parse]
    by (simp add: schedule_block_reason_def in_quiet_hours_def sample_cfg_def at_hour_def gate_reason_def
        daily_cap_not_reached_def reflection_count_today_def in_cooldown_def interval_not_elapsed_def)
  obtain r t' where r: "reflect tally_iso sample_parse sample_dump sample_cfg ?z sample_collaborators sample_env 0 7 False ?t = (r, t')"
    by fastforce
  have "r = Inr True"
  proof -
    obtain w where w: "publish_reflection tally_iso sample_parse sample_dump sample_cfg ?z sample_collaborators sample_env 7
      sample_candidate sample_score (ic_title sample_candidate) (ic_body sample_candidate) None [] ?t = (Inr (), w)"
      using pub by (metis prod.collapse)
    have "reflect tally_iso sample_parse sample_dump sample_cfg ?z sample_collaborators sample_env 0 7 False ?t = (Inr True, w)"
      using gate w by (simp add: reflect_def reflection_cycle_def bind_act_def discussed_def sample_facts)
    with r show ?thesis by simp
  qed
  then have run: "(reflect_event sample_parse sample_dump sample_cfg ?z)\<^sup>*\<^sup>* (?t, [], 0) (t', [7], 7)"
    using reflect_event.reflected [OF _ _ _ sample_facts(8) r, of 0 "[]"]
    by (intro r_into_rtranclp) (simp add: jitter_bound_def sample_cfg_def)
  have mono: "mono (local_date ?z)" by (intro monoI) (simp add: at_hour_def zdiv_mono1)
  have cap: "1 \<le> cfg_daily_cap sample_cfg" by (simp add: sample_cfg_def)
  from daily_cap_safety [where t = ?t, OF sample_codec mono cap empty_schedule run] run show ?thesis by blast
qed

lemma forced_reflection_corrupt_state_witness:
  "\<exists>t'. reflect tally_iso (\<lambda>_. None) sample_dump sample_cfg (at_hour 23) sample_collaborators sample_env 0 7 True
       ((\<lambda>_. [])(''scheduler_state'' := [(''reflection'', [])]))
     = (Inl (ReflectionScheduleStateError ''reflection schedule state is malformed or unsupported''), t')
   \<and> t' ''inbox_items'' = []"
proof -
  let ?t = "(\<lambda>_. [])(''scheduler_state'' := [(''reflection'', [])])"
  have c: "fst (schedule_state (\<lambda>_. None) ?t) =
      Inl (ReflectionScheduleStateError ''reflection schedule state is malformed or unsupported'')"
    by (simp add: schedule_state_def bind_act_def tab_get_def coll_get_def coll_decode_def decode_schedule_state_def)
  have q: "in_quiet_hours sample_cfg (at_hour 23) 7" by (simp add: in_quiet_hours_def sample_cfg_def at_hour_def)
  have rows: "rows_ok (?t ''reflection_entries'')" by simp
  have d: "co_generate sample_collaborators = Inr (sample_candidate # []) \<and> co_score sample_collaborators sample_candidate = Inr sample_score
      \<and> rel_passes sample_score \<and> \<not> float_ge (rel_composite sample_score) (cfg_discussion_threshold sample_cfg)"
    by (simp add: sample_facts)
  from forced_reflection_corrupt_state [where t = ?t, OF c rows d sample_facts(7,3), of "at_hour 23" 7 tally_iso sample_dump sample_env 0] q
  show ?thesis by auto
qed

end
