(* ===== verification/MemoryModel.thy ===== *)
theory MemoryModel
  imports SqliteStore
begin

text \<open>
  Long-term memory (\<open>memory/model.py\<close>): evidence, entries, reviewable candidates and the open typed
  envelope, with their codecs; the descriptors that own the behaviour of a memory type; and the
  relations between entries.
\<close>

section \<open>Vocabularies\<close>

datatype ReviewState = MDraft | MReviewed | MRejected | MQuarantined | MArchived

datatype PrivacyLevel = PlPrivate | PlShareable

datatype CandidateAction = CaCreate | CaUpdate | CaMerge | CaDelete

datatype CandidateReviewState = CrPending | CrAccepted | CrRejected

datatype EvidenceSource = EvObservation | EvManual | EvSource | EvOptimizer

fun review_state_str :: "ReviewState \<Rightarrow> string" where
  "review_state_str MDraft = ''draft''"
| "review_state_str MReviewed = ''reviewed''"
| "review_state_str MRejected = ''rejected''"
| "review_state_str MQuarantined = ''quarantined''"
| "review_state_str MArchived = ''archived''"

fun privacy_str :: "PrivacyLevel \<Rightarrow> string" where
  "privacy_str PlPrivate = ''private''"
| "privacy_str PlShareable = ''shareable''"

fun action_str :: "CandidateAction \<Rightarrow> string" where
  "action_str CaCreate = ''create''"
| "action_str CaUpdate = ''update''"
| "action_str CaMerge = ''merge''"
| "action_str CaDelete = ''delete''"

fun candidate_state_str :: "CandidateReviewState \<Rightarrow> string" where
  "candidate_state_str CrPending = ''pending''"
| "candidate_state_str CrAccepted = ''accepted''"
| "candidate_state_str CrRejected = ''rejected''"

fun evidence_source_str :: "EvidenceSource \<Rightarrow> string" where
  "evidence_source_str EvObservation = ''observation''"
| "evidence_source_str EvManual = ''manual''"
| "evidence_source_str EvSource = ''source''"
| "evidence_source_str EvOptimizer = ''optimizer''"

definition review_states :: "ReviewState list" where
  "review_states = [MDraft, MReviewed, MRejected, MQuarantined, MArchived]"

definition privacy_levels :: "PrivacyLevel list" where
  "privacy_levels = [PlPrivate, PlShareable]"

definition candidate_actions :: "CandidateAction list" where
  "candidate_actions = [CaCreate, CaUpdate, CaMerge, CaDelete]"

definition candidate_states :: "CandidateReviewState list" where
  "candidate_states = [CrPending, CrAccepted, CrRejected]"

definition evidence_sources :: "EvidenceSource list" where
  "evidence_sources = [EvObservation, EvManual, EvSource, EvOptimizer]"

interpretation review_states: vocabulary review_state_str review_states
proof
  show "k \<in> set review_states" for k by (cases k) (simp_all add: review_states_def)
qed (simp add: review_states_def)

interpretation privacy_levels: vocabulary privacy_str privacy_levels
proof
  show "k \<in> set privacy_levels" for k by (cases k) (simp_all add: privacy_levels_def)
qed (simp add: privacy_levels_def)

interpretation candidate_actions: vocabulary action_str candidate_actions
proof
  show "k \<in> set candidate_actions" for k by (cases k) (simp_all add: candidate_actions_def)
qed (simp add: candidate_actions_def)

interpretation candidate_states: vocabulary candidate_state_str candidate_states
proof
  show "k \<in> set candidate_states" for k by (cases k) (simp_all add: candidate_states_def)
qed (simp add: candidate_states_def)

interpretation evidence_sources: vocabulary evidence_source_str evidence_sources
proof
  show "k \<in> set evidence_sources" for k by (cases k) (simp_all add: evidence_sources_def)
qed (simp add: evidence_sources_def)

section \<open>Readers\<close>

definition optional_float :: "pydict \<Rightarrow> string \<Rightarrow> pyfloat option result" where
  "optional_float d key =
     (case dict_get d key of
        PNone \<Rightarrow> Inr None
      | PInt i \<Rightarrow> bindE (float_of_int i) (\<lambda>x. Inr (Some x))
      | PFloat x \<Rightarrow> Inr (Some x)
      | _ \<Rightarrow> Inl (ValueError ''field must be a number or null''))"

definition optional_float_default :: "pydict \<Rightarrow> string \<Rightarrow> pyfloat \<Rightarrow> pyfloat result" where
  "optional_float_default d key usual =
     bindE (optional_float d key) (\<lambda>v. Inr (case v of None \<Rightarrow> usual | Some x \<Rightarrow> x))"

definition optional_object :: "pydict \<Rightarrow> string \<Rightarrow> pydict result" where
  "optional_object d key =
     (case dict_get d key of
        PNone \<Rightarrow> Inr []
      | PDict v \<Rightarrow> Inr v
      | _ \<Rightarrow> Inl (ValueError ''field must be an object or null''))"

definition expect_dict :: "pydict \<Rightarrow> string \<Rightarrow> pydict result" where
  "expect_dict d key =
     (case dict_get d key of PDict v \<Rightarrow> Inr v | _ \<Rightarrow> Inl (ValueError ''field must be an object''))"

definition expect_strings :: "pydict \<Rightarrow> string \<Rightarrow> string list result" where
  "expect_strings d key = read_strs (ValueError ''field must be a list of strings'') (dict_get d key)"

text \<open>
  A \<open>Sequence\<close> that is not a string. The mapping variants of the readers work on the frozen payload
  of an envelope, whose lists are tuples and whose objects are read-only mappings.
\<close>

fun seq_items :: "pyobj \<Rightarrow> pyobj list option" where
  "seq_items (PList xs) = Some xs"
| "seq_items (PTuple xs) = Some xs"
| "seq_items v = None"

definition seq_strings :: "pyobj \<Rightarrow> string list result" where
  "seq_strings v =
     (case seq_items v of
        None \<Rightarrow> Inl (ValueError ''field must be a list'')
      | Some xs \<Rightarrow> (case str_list xs of None \<Rightarrow> Inl (ValueError ''field must contain only strings'') | Some ss \<Rightarrow> Inr ss))"

definition expect_mapping_strings :: "pydict \<Rightarrow> string \<Rightarrow> string list result" where
  "expect_mapping_strings d key = seq_strings (dict_get d key)"

definition optional_mapping_strings :: "pydict \<Rightarrow> string \<Rightarrow> string list result" where
  "optional_mapping_strings d key = (case dict_get d key of PNone \<Rightarrow> Inr [] | v \<Rightarrow> seq_strings v)"

definition optional_payload_str :: "pydict \<Rightarrow> string \<Rightarrow> string" where
  "optional_payload_str d key = (case dict_get d key of PStr s \<Rightarrow> s | _ \<Rightarrow> '''')"

fun mapping_items :: "pyobj \<Rightarrow> pydict option" where
  "mapping_items (PDict d) = Some d"
| "mapping_items (PProxy d) = Some d"
| "mapping_items v = None"

text \<open>\<open>value or other\<close> for a string and for an optional string: the empty string counts as missing.\<close>

definition or_empty :: "string option \<Rightarrow> string" where
  "or_empty s = (case s of None \<Rightarrow> '''' | Some t \<Rightarrow> t)"

definition or_else :: "string option \<Rightarrow> string option \<Rightarrow> string option" where
  "or_else a b = (case a of None \<Rightarrow> b | Some s \<Rightarrow> if s = '''' then b else a)"

section \<open>Relations\<close>

type_synonym relations = "(string \<times> string list) list"

definition relation_targets :: "relations \<Rightarrow> string \<Rightarrow> string list" where
  "relation_targets rel key = (case map_of rel key of None \<Rightarrow> [] | Some ts \<Rightarrow> ts)"

definition legacy_fields :: "string list" where
  "legacy_fields = [''supersedes'', ''related_memory_ids'']"

definition reject_legacy :: "pydict \<Rightarrow> unit result" where
  "reject_legacy d =
     raise_if (list_ex (\<lambda>f. map_of d f \<noteq> None) legacy_fields)
       (ValueError ''obsolete memory relation fields; use relations'')"

definition read_targets :: "(pyobj \<Rightarrow> string list result) \<Rightarrow> pydict \<Rightarrow> relations result" where
  "read_targets targets r = mapE (\<lambda>(key, v). bindE (targets v) (\<lambda>ts. Inr (key, ts))) r"

definition expect_relations :: "pydict \<Rightarrow> string \<Rightarrow> relations result" where
  "expect_relations d key =
     bindE (reject_legacy d) (\<lambda>_.
       case dget d key of
         None \<Rightarrow> Inl (ValueError ''missing required field'')
       | Some (PDict r) \<Rightarrow> read_targets (read_strs (ValueError ''field must be a list of strings'')) r
       | Some _ \<Rightarrow> Inl (ValueError ''field must be an object''))"

definition expect_mapping_relations :: "pydict \<Rightarrow> string \<Rightarrow> relations result" where
  "expect_mapping_relations d key =
     (case dget d key of
        None \<Rightarrow> Inl (ValueError ''missing required field'')
      | Some v \<Rightarrow> (case mapping_items v of
            None \<Rightarrow> Inl (ValueError ''field must be an object'')
          | Some r \<Rightarrow> read_targets seq_strings r))"

definition relations_obj :: "relations \<Rightarrow> pyobj" where
  "relations_obj rel = PDict (map (\<lambda>(key, ts). (key, strs_obj ts)) rel)"

text \<open>The targets of \<open>other\<close> are appended to those of \<open>base\<close>, each once; a relation without a new target adds no key.\<close>

definition add_targets :: "string list \<Rightarrow> string list \<Rightarrow> string list" where
  "add_targets known values = foldl (\<lambda>ts v. if v \<in> set ts then ts else ts @ [v]) known values"

definition merge_key :: "relations \<Rightarrow> string \<times> string list \<Rightarrow> relations" where
  "merge_key merged entry =
     (case entry of (key, values) \<Rightarrow>
        let known = relation_targets merged key; new = add_targets known values in
        if new = known then merged else AList.update key new merged)"

definition merge_relations :: "relations \<Rightarrow> relations \<Rightarrow> relations" where
  "merge_relations base other = foldl merge_key base other"

section \<open>Evidence\<close>

record MemoryEvidence =
  ev_source_type :: EvidenceSource
  ev_source_ref :: string
  ev_summary :: string
  ev_observed_at :: "string option"
  ev_quote :: string
  ev_created_at :: string

definition evidence_to_wire :: "MemoryEvidence \<Rightarrow> pydict" where
  "evidence_to_wire x =
     [(''source_type'', PStr (evidence_source_str (ev_source_type x))), (''source_ref'', PStr (ev_source_ref x)),
      (''summary'', PStr (ev_summary x)), (''observed_at'', opt_str (ev_observed_at x)),
      (''quote'', PStr (ev_quote x)), (''created_at'', PStr (ev_created_at x))]"

definition evidence_from_wire :: "pydict \<Rightarrow> MemoryEvidence result" where
  "evidence_from_wire d =
     bindE (read_enum evidence_source_str evidence_sources (ValueError ''unsupported evidence source type'') d
              ''source_type'') (\<lambda>source_type.
     bindE (read_string d ''source_ref'') (\<lambda>source_ref.
     bindE (read_optional_string d ''summary'') (\<lambda>summary.
     bindE (read_optional_string d ''observed_at'') (\<lambda>observed_at.
     bindE (read_optional_string d ''quote'') (\<lambda>quote.
     bindE (read_string d ''created_at'') (\<lambda>created_at.
       Inr \<lparr>ev_source_type = source_type, ev_source_ref = source_ref, ev_summary = or_empty summary,
            ev_observed_at = observed_at, ev_quote = or_empty quote, ev_created_at = created_at\<rparr>))))))"

definition evidence_obj :: "MemoryEvidence list \<Rightarrow> pyobj" where
  "evidence_obj xs = PList (map (\<lambda>x. PDict (evidence_to_wire x)) xs)"

fun evidence_items :: "(pyobj \<Rightarrow> pydict option) \<Rightarrow> pyobj list \<Rightarrow> MemoryEvidence list result" where
  "evidence_items object_of [] = Inr []"
| "evidence_items object_of (v # vs) =
     (case object_of v of
        None \<Rightarrow> Inl (ValueError ''field must contain only objects'')
      | Some d \<Rightarrow> bindE (evidence_from_wire d) (\<lambda>x. bindE (evidence_items object_of vs) (\<lambda>xs. Inr (x # xs))))"

fun as_dict :: "pyobj \<Rightarrow> pydict option" where
  "as_dict (PDict d) = Some d"
| "as_dict v = None"

definition optional_evidence :: "pydict \<Rightarrow> string \<Rightarrow> MemoryEvidence list result" where
  "optional_evidence d key =
     (case dict_get d key of
        PNone \<Rightarrow> Inr []
      | PList vs \<Rightarrow> evidence_items as_dict vs
      | _ \<Rightarrow> Inl (ValueError ''field must be a list''))"

text \<open>A frozen object is thawed before it is decoded.\<close>

definition thawed_dict :: "pyobj \<Rightarrow> pydict option" where
  "thawed_dict v = map_option (map (\<lambda>(key, x). (key, thaw x))) (mapping_items v)"

definition optional_mapping_evidence :: "pydict \<Rightarrow> string \<Rightarrow> MemoryEvidence list result" where
  "optional_mapping_evidence d key =
     (case dict_get d key of
        PNone \<Rightarrow> Inr []
      | v \<Rightarrow> (case seq_items v of
            None \<Rightarrow> Inl (ValueError ''field must be a list'')
          | Some vs \<Rightarrow> evidence_items thawed_dict vs))"

section \<open>The typed envelope\<close>

text \<open>Payload and metadata hold the contents of read-only mappings, as \<open>__post_init__\<close> leaves them.\<close>

record MemoryObject =
  mo_type :: string
  mo_payload :: pydict
  mo_metadata :: pydict
  mo_confidence :: pyfloat
  mo_importance :: pyfloat
  mo_source_refs :: "string list"
  mo_review_state :: ReviewState
  mo_privacy :: PrivacyLevel
  mo_id :: string
  mo_created_at :: string
  mo_updated_at :: string

definition make_object :: "MemoryObject \<Rightarrow> MemoryObject result" where
  "make_object x =
     bindE (freeze_fields (mo_payload x)) (\<lambda>payload.
     bindE (freeze_fields (mo_metadata x)) (\<lambda>metadata.
       Inr (x\<lparr>mo_payload := payload, mo_metadata := metadata\<rparr>)))"

definition object_to_wire :: "MemoryObject \<Rightarrow> pydict" where
  "object_to_wire x =
     [(''id'', PStr (mo_id x)), (''type'', PStr (mo_type x)), (''payload'', thaw (PProxy (mo_payload x))),
      (''metadata'', thaw (PProxy (mo_metadata x))), (''confidence'', PFloat (mo_confidence x)),
      (''importance'', PFloat (mo_importance x)), (''source_refs'', strs_obj (mo_source_refs x)),
      (''review_state'', PStr (review_state_str (mo_review_state x))), (''privacy'', PStr (privacy_str (mo_privacy x))),
      (''created_at'', PStr (mo_created_at x)), (''updated_at'', PStr (mo_updated_at x))]"

definition read_review_state :: "pydict \<Rightarrow> string \<Rightarrow> ReviewState result" where
  "read_review_state = read_enum review_state_str review_states (ValueError ''unsupported review state'')"

definition read_privacy :: "pydict \<Rightarrow> string \<Rightarrow> PrivacyLevel result" where
  "read_privacy = read_enum privacy_str privacy_levels (ValueError ''unsupported privacy level'')"

definition object_from_wire :: "pydict \<Rightarrow> MemoryObject result" where
  "object_from_wire d =
     bindE (read_string d ''id'') (\<lambda>i.
     bindE (read_string d ''type'') (\<lambda>kind.
     bindE (expect_dict d ''payload'') (\<lambda>payload.
     bindE (expect_dict d ''metadata'') (\<lambda>metadata.
     bindE (expect_float d ''confidence'') (\<lambda>confidence.
     bindE (optional_float_default d ''importance'' (Finite 1)) (\<lambda>importance.
     bindE (expect_strings d ''source_refs'') (\<lambda>source_refs.
     bindE (read_review_state d ''review_state'') (\<lambda>state.
     bindE (read_privacy d ''privacy'') (\<lambda>privacy.
     bindE (read_string d ''created_at'') (\<lambda>created_at.
     bindE (read_string d ''updated_at'') (\<lambda>updated_at.
       make_object \<lparr>mo_type = kind, mo_payload = payload, mo_metadata = metadata, mo_confidence = confidence,
            mo_importance = importance, mo_source_refs = source_refs, mo_review_state = state, mo_privacy = privacy,
            mo_id = i, mo_created_at = created_at, mo_updated_at = updated_at\<rparr>)))))))))))"

section \<open>Entries\<close>

record MemoryEntry =
  me_type :: string
  me_title :: string
  me_body :: string
  me_tags :: "string list"
  me_source_refs :: "string list"
  me_confidence :: pyfloat
  me_importance :: pyfloat
  me_privacy :: PrivacyLevel
  me_review_state :: ReviewState
  me_id :: string
  me_created_at :: string
  me_updated_at :: string
  me_revisit_at :: "string option"
  me_observed_at :: "string option"
  me_valid_from :: "string option"
  me_valid_until :: "string option"
  me_temporal_note :: string
  me_relations :: relations
  me_evidence :: "MemoryEvidence list"
  me_payload :: pydict

definition make_entry :: "MemoryEntry \<Rightarrow> MemoryEntry result" where
  "make_entry x = bindE (freeze_fields (me_payload x)) (\<lambda>payload. Inr (x\<lparr>me_payload := payload\<rparr>))"

definition mem_entry_to_wire :: "MemoryEntry \<Rightarrow> pydict" where
  "mem_entry_to_wire x =
     [(''id'', PStr (me_id x)), (''type'', PStr (me_type x)), (''title'', PStr (me_title x)), (''body'', PStr (me_body x)),
      (''tags'', strs_obj (me_tags x)), (''source_refs'', strs_obj (me_source_refs x)),
      (''confidence'', PFloat (me_confidence x)), (''importance'', PFloat (me_importance x)),
      (''privacy'', PStr (privacy_str (me_privacy x))), (''review_state'', PStr (review_state_str (me_review_state x))),
      (''created_at'', PStr (me_created_at x)), (''updated_at'', PStr (me_updated_at x)),
      (''revisit_at'', opt_str (me_revisit_at x)), (''observed_at'', opt_str (me_observed_at x)),
      (''valid_from'', opt_str (me_valid_from x)), (''valid_until'', opt_str (me_valid_until x)),
      (''temporal_note'', PStr (me_temporal_note x)), (''relations'', relations_obj (me_relations x)),
      (''evidence'', evidence_obj (me_evidence x))]
     @ (if me_payload x = [] then [] else [(''payload'', thaw (PProxy (me_payload x)))])"

definition memory_entry_from_wire :: "pydict \<Rightarrow> MemoryEntry result" where
  "memory_entry_from_wire d =
     bindE (read_string d ''id'') (\<lambda>i.
     bindE (read_string d ''type'') (\<lambda>kind.
     bindE (read_string d ''title'') (\<lambda>title.
     bindE (read_string d ''body'') (\<lambda>body.
     bindE (expect_strings d ''tags'') (\<lambda>tags.
     bindE (expect_strings d ''source_refs'') (\<lambda>source_refs.
     bindE (expect_float d ''confidence'') (\<lambda>confidence.
     bindE (optional_float_default d ''importance'' (Finite (1 / 2))) (\<lambda>importance.
     bindE (read_privacy d ''privacy'') (\<lambda>privacy.
     bindE (read_review_state d ''review_state'') (\<lambda>state.
     bindE (read_string d ''created_at'') (\<lambda>created_at.
     bindE (read_string d ''updated_at'') (\<lambda>updated_at.
     bindE (read_optional_string d ''revisit_at'') (\<lambda>revisit_at.
     bindE (read_optional_string d ''observed_at'') (\<lambda>observed_at.
     bindE (read_optional_string d ''valid_from'') (\<lambda>valid_from.
     bindE (read_optional_string d ''valid_until'') (\<lambda>valid_until.
     bindE (read_optional_string d ''temporal_note'') (\<lambda>note.
     bindE (expect_relations d ''relations'') (\<lambda>rel.
     bindE (optional_evidence d ''evidence'') (\<lambda>evidence.
     bindE (optional_object d ''payload'') (\<lambda>payload.
       make_entry \<lparr>me_type = kind, me_title = title, me_body = body, me_tags = tags, me_source_refs = source_refs,
            me_confidence = confidence, me_importance = importance, me_privacy = privacy, me_review_state = state,
            me_id = i, me_created_at = created_at, me_updated_at = updated_at, me_revisit_at = revisit_at,
            me_observed_at = observed_at, me_valid_from = valid_from, me_valid_until = valid_until,
            me_temporal_note = or_empty note, me_relations = rel, me_evidence = evidence,
            me_payload = payload\<rparr>))))))))))))))))))))"

text \<open>\<open>dict.update\<close>: known keys keep their place, new ones are appended.\<close>

definition dict_update :: "pydict \<Rightarrow> pydict \<Rightarrow> pydict" where
  "dict_update d e = foldl (\<lambda>acc (key, v). AList.update key v acc) d e"

definition entry_fields :: "string list" where
  "entry_fields =
     [''title'', ''body'', ''tags'', ''revisit_at'', ''observed_at'', ''valid_from'', ''valid_until'',
      ''temporal_note'', ''relations'', ''evidence'']"

definition entry_object_payload :: "MemoryEntry \<Rightarrow> pydict" where
  "entry_object_payload x =
     [(''title'', PStr (me_title x)), (''body'', PStr (me_body x)), (''tags'', PTuple (map PStr (me_tags x))),
      (''revisit_at'', opt_str (me_revisit_at x)), (''observed_at'', opt_str (me_observed_at x)),
      (''valid_from'', opt_str (me_valid_from x)), (''valid_until'', opt_str (me_valid_until x)),
      (''temporal_note'', PStr (me_temporal_note x)),
      (''relations'', PProxy (map (\<lambda>(key, ts). (key, PTuple (map PStr ts))) (me_relations x))),
      (''evidence'', evidence_obj (me_evidence x))]"

definition entry_to_object :: "MemoryEntry \<Rightarrow> MemoryObject result" where
  "entry_to_object x =
     make_object \<lparr>mo_type = me_type x, mo_payload = dict_update (entry_object_payload x) (me_payload x),
       mo_metadata = [(''entry_schema'', PStr ''MemoryEntry/v1'')], mo_confidence = me_confidence x,
       mo_importance = me_importance x, mo_source_refs = me_source_refs x, mo_review_state = me_review_state x,
       mo_privacy = me_privacy x, mo_id = me_id x, mo_created_at = me_created_at x, mo_updated_at = me_updated_at x\<rparr>"

definition memory_entry_types :: "string list" where
  "memory_entry_types =
     [''source_note'', ''profile_fact'', ''belief'', ''preference'', ''goal'', ''concept'', ''style_trait'',
      ''episode'', ''open_question'', ''instruction'', ''persona_instruction'']"

definition entry_from_object :: "MemoryObject \<Rightarrow> MemoryEntry result" where
  "entry_from_object m =
     (let d = mo_payload m in
      bindE (reject_legacy d) (\<lambda>_.
      bindE (expect_mapping_relations d ''relations'') (\<lambda>rel.
      bindE (raise_if (mo_type m \<notin> set memory_entry_types) (ValueError ''unsupported memory entry type'')) (\<lambda>_.
      bindE (read_string d ''title'') (\<lambda>title.
      bindE (read_string d ''body'') (\<lambda>body.
      bindE (expect_mapping_strings d ''tags'') (\<lambda>tags.
      bindE (read_optional_string d ''revisit_at'') (\<lambda>revisit_at.
      bindE (read_optional_string d ''observed_at'') (\<lambda>observed_at.
      bindE (read_optional_string d ''valid_from'') (\<lambda>valid_from.
      bindE (read_optional_string d ''valid_until'') (\<lambda>valid_until.
      bindE (optional_mapping_evidence d ''evidence'') (\<lambda>evidence.
        make_entry \<lparr>me_type = mo_type m, me_title = title, me_body = body, me_tags = tags,
          me_source_refs = mo_source_refs m, me_confidence = mo_confidence m, me_importance = mo_importance m,
          me_privacy = mo_privacy m, me_review_state = mo_review_state m, me_id = mo_id m,
          me_created_at = mo_created_at m, me_updated_at = mo_updated_at m, me_revisit_at = revisit_at,
          me_observed_at = observed_at, me_valid_from = valid_from, me_valid_until = valid_until,
          me_temporal_note = optional_payload_str d ''temporal_note'', me_relations = rel, me_evidence = evidence,
          me_payload = filter (\<lambda>(key, v). key \<notin> set entry_fields) d\<rparr>))))))))))))"

text \<open>A stored row may hold either schema; only the envelope has metadata.\<close>

definition entry_from_wire :: "pydict \<Rightarrow> MemoryEntry result" where
  "entry_from_wire d =
     (if map_of d ''metadata'' \<noteq> None then bindE (object_from_wire d) entry_from_object
      else memory_entry_from_wire d)"

text \<open>What \<open>with_updates\<close> may replace: a field that is not given stays.\<close>

record EntryUpdates =
  eu_title :: "string option"
  eu_body :: "string option"
  eu_tags :: "string list option"
  eu_confidence :: "pyfloat option"
  eu_importance :: "pyfloat option"
  eu_review_state :: "ReviewState option"
  eu_observed_at :: "string option"
  eu_valid_from :: "string option"
  eu_valid_until :: "string option"
  eu_temporal_note :: "string option"

definition no_entry_updates :: EntryUpdates where
  "no_entry_updates =
     \<lparr>eu_title = None, eu_body = None, eu_tags = None, eu_confidence = None, eu_importance = None,
      eu_review_state = None, eu_observed_at = None, eu_valid_from = None, eu_valid_until = None,
      eu_temporal_note = None\<rparr>"

definition given :: "'a option \<Rightarrow> 'a \<Rightarrow> 'a" where
  "given v old = (case v of None \<Rightarrow> old | Some x \<Rightarrow> x)"

definition given_opt :: "'a option \<Rightarrow> 'a option \<Rightarrow> 'a option" where
  "given_opt v old = (case v of None \<Rightarrow> old | Some x \<Rightarrow> Some x)"

definition entry_with_updates :: "string \<Rightarrow> EntryUpdates \<Rightarrow> MemoryEntry \<Rightarrow> MemoryEntry result" where
  "entry_with_updates now u x =
     make_entry (x\<lparr>me_title := given (eu_title u) (me_title x), me_body := given (eu_body u) (me_body x),
       me_tags := given (eu_tags u) (me_tags x), me_confidence := given (eu_confidence u) (me_confidence x),
       me_importance := given (eu_importance u) (me_importance x),
       me_review_state := given (eu_review_state u) (me_review_state x), me_updated_at := now,
       me_observed_at := given_opt (eu_observed_at u) (me_observed_at x),
       me_valid_from := given_opt (eu_valid_from u) (me_valid_from x),
       me_valid_until := given_opt (eu_valid_until u) (me_valid_until x),
       me_temporal_note := given (eu_temporal_note u) (me_temporal_note x)\<rparr>)"

section \<open>Candidates\<close>

record MemoryCandidate =
  mc_type :: string
  mc_title :: string
  mc_body :: string
  mc_action :: CandidateAction
  mc_tags :: "string list"
  mc_source_refs :: "string list"
  mc_confidence :: pyfloat
  mc_importance :: pyfloat
  mc_privacy :: PrivacyLevel
  mc_review_state :: CandidateReviewState
  mc_reason :: string
  mc_id :: string
  mc_created_at :: string
  mc_updated_at :: string
  mc_reviewed_at :: "string option"
  mc_target_entry_id :: "string option"
  mc_observed_at :: "string option"
  mc_valid_from :: "string option"
  mc_valid_until :: "string option"
  mc_temporal_note :: string
  mc_relations :: relations
  mc_evidence :: "MemoryEvidence list"

definition memory_candidate_to_wire :: "MemoryCandidate \<Rightarrow> pydict" where
  "memory_candidate_to_wire x =
     [(''id'', PStr (mc_id x)), (''action'', PStr (action_str (mc_action x))), (''type'', PStr (mc_type x)),
      (''title'', PStr (mc_title x)), (''body'', PStr (mc_body x)), (''tags'', strs_obj (mc_tags x)),
      (''source_refs'', strs_obj (mc_source_refs x)), (''confidence'', PFloat (mc_confidence x)),
      (''importance'', PFloat (mc_importance x)), (''privacy'', PStr (privacy_str (mc_privacy x))),
      (''review_state'', PStr (candidate_state_str (mc_review_state x))), (''reason'', PStr (mc_reason x)),
      (''created_at'', PStr (mc_created_at x)), (''updated_at'', PStr (mc_updated_at x)),
      (''reviewed_at'', opt_str (mc_reviewed_at x)), (''target_entry_id'', opt_str (mc_target_entry_id x)),
      (''observed_at'', opt_str (mc_observed_at x)), (''valid_from'', opt_str (mc_valid_from x)),
      (''valid_until'', opt_str (mc_valid_until x)), (''temporal_note'', PStr (mc_temporal_note x)),
      (''relations'', relations_obj (mc_relations x)), (''evidence'', evidence_obj (mc_evidence x))]"

definition memory_candidate_from_wire :: "pydict \<Rightarrow> MemoryCandidate result" where
  "memory_candidate_from_wire d =
     bindE (read_string d ''id'') (\<lambda>i.
     bindE (read_enum action_str candidate_actions (ValueError ''unsupported candidate action'') d ''action'') (\<lambda>action.
     bindE (read_string d ''type'') (\<lambda>kind.
     bindE (read_string d ''title'') (\<lambda>title.
     bindE (read_string d ''body'') (\<lambda>body.
     bindE (expect_strings d ''tags'') (\<lambda>tags.
     bindE (expect_strings d ''source_refs'') (\<lambda>source_refs.
     bindE (expect_float d ''confidence'') (\<lambda>confidence.
     bindE (optional_float_default d ''importance'' (Finite (1 / 2))) (\<lambda>importance.
     bindE (read_privacy d ''privacy'') (\<lambda>privacy.
     bindE (read_enum candidate_state_str candidate_states (ValueError ''unsupported candidate review state'') d
              ''review_state'') (\<lambda>state.
     bindE (read_optional_string d ''reason'') (\<lambda>reason.
     bindE (read_string d ''created_at'') (\<lambda>created_at.
     bindE (read_string d ''updated_at'') (\<lambda>updated_at.
     bindE (read_optional_string d ''reviewed_at'') (\<lambda>reviewed_at.
     bindE (read_optional_string d ''target_entry_id'') (\<lambda>target.
     bindE (read_optional_string d ''observed_at'') (\<lambda>observed_at.
     bindE (read_optional_string d ''valid_from'') (\<lambda>valid_from.
     bindE (read_optional_string d ''valid_until'') (\<lambda>valid_until.
     bindE (read_optional_string d ''temporal_note'') (\<lambda>note.
     bindE (expect_relations d ''relations'') (\<lambda>rel.
     bindE (optional_evidence d ''evidence'') (\<lambda>evidence.
       Inr \<lparr>mc_type = kind, mc_title = title, mc_body = body, mc_action = action, mc_tags = tags,
            mc_source_refs = source_refs, mc_confidence = confidence, mc_importance = importance,
            mc_privacy = privacy, mc_review_state = state, mc_reason = or_empty reason, mc_id = i,
            mc_created_at = created_at, mc_updated_at = updated_at, mc_reviewed_at = reviewed_at,
            mc_target_entry_id = target, mc_observed_at = observed_at, mc_valid_from = valid_from,
            mc_valid_until = valid_until, mc_temporal_note = or_empty note, mc_relations = rel,
            mc_evidence = evidence\<rparr>))))))))))))))))))))))"

record CandidateUpdates =
  cu_title :: "string option"
  cu_body :: "string option"
  cu_tags :: "string list option"
  cu_importance :: "pyfloat option"
  cu_review_state :: "CandidateReviewState option"
  cu_target_entry_id :: "string option"
  cu_observed_at :: "string option"
  cu_valid_from :: "string option"
  cu_valid_until :: "string option"
  cu_temporal_note :: "string option"

definition no_candidate_updates :: CandidateUpdates where
  "no_candidate_updates =
     \<lparr>cu_title = None, cu_body = None, cu_tags = None, cu_importance = None, cu_review_state = None,
      cu_target_entry_id = None, cu_observed_at = None, cu_valid_from = None, cu_valid_until = None,
      cu_temporal_note = None\<rparr>"

definition candidate_with_updates :: "string \<Rightarrow> string \<Rightarrow> CandidateUpdates \<Rightarrow> MemoryCandidate \<Rightarrow> MemoryCandidate" where
  "candidate_with_updates reviewed now u x =
     x\<lparr>mc_title := given (cu_title u) (mc_title x), mc_body := given (cu_body u) (mc_body x),
       mc_tags := given (cu_tags u) (mc_tags x), mc_importance := given (cu_importance u) (mc_importance x),
       mc_review_state := given (cu_review_state u) (mc_review_state x), mc_updated_at := now,
       mc_reviewed_at := (if cu_review_state u \<in> {Some CrAccepted, Some CrRejected} then Some reviewed
                          else mc_reviewed_at x),
       mc_target_entry_id := given_opt (cu_target_entry_id u) (mc_target_entry_id x),
       mc_observed_at := given_opt (cu_observed_at u) (mc_observed_at x),
       mc_valid_from := given_opt (cu_valid_from u) (mc_valid_from x),
       mc_valid_until := given_opt (cu_valid_until u) (mc_valid_until x),
       mc_temporal_note := given (cu_temporal_note u) (mc_temporal_note x)\<rparr>"

text \<open>
  The entry a candidate becomes. Its identifier and timestamps are new (\<open>fresh_id\<close>, \<open>created\<close>,
  \<open>updated\<close>), \<open>revisit_at\<close> and \<open>payload\<close> are the defaults of the class.
\<close>

definition candidate_to_memory_entry ::
  "string \<Rightarrow> string \<Rightarrow> string \<Rightarrow> ReviewState \<Rightarrow> MemoryCandidate \<Rightarrow> MemoryEntry result" where
  "candidate_to_memory_entry fresh_id created updated state x =
     bindE (raise_if (mc_action x = CaDelete)
              (ValueError ''delete candidates cannot be converted to memory entries'')) (\<lambda>_.
       make_entry \<lparr>me_type = mc_type x, me_title = mc_title x, me_body = mc_body x, me_tags = mc_tags x,
         me_source_refs = mc_source_refs x, me_confidence = mc_confidence x, me_importance = mc_importance x,
         me_privacy = mc_privacy x, me_review_state = state, me_id = fresh_id, me_created_at = created,
         me_updated_at = updated, me_revisit_at = None, me_observed_at = mc_observed_at x,
         me_valid_from = mc_valid_from x, me_valid_until = mc_valid_until x,
         me_temporal_note = mc_temporal_note x, me_relations = mc_relations x, me_evidence = mc_evidence x,
         me_payload = []\<rparr>)"

section \<open>Type descriptors\<close>

datatype MemoryTypeDescriptor =
    EntryPayloadDescriptor (desc_type: string) (desc_text: string) (desc_importance: pyfloat)
  | PersonaInstructionDescriptor (desc_importance: pyfloat)

fun descriptor_type :: "MemoryTypeDescriptor \<Rightarrow> string" where
  "descriptor_type (EntryPayloadDescriptor kind text importance) = kind"
| "descriptor_type (PersonaInstructionDescriptor importance) = ''persona_instruction''"

text \<open>A validation issue is the field and the message.\<close>

type_synonym issue = "string \<times> string"

definition issue_if :: "bool \<Rightarrow> string \<Rightarrow> string \<Rightarrow> issue list" where
  "issue_if b field message = (if b then [(field, message)] else [])"

definition text_missing :: "pydict \<Rightarrow> string \<Rightarrow> bool" where
  "text_missing d key = (case dict_get d key of PStr s \<Rightarrow> strip s = '''' | _ \<Rightarrow> True)"

definition not_strings :: "pyobj \<Rightarrow> bool" where
  "not_strings v = (case seq_items v of None \<Rightarrow> True | Some xs \<Rightarrow> str_list xs = None)"

definition not_text_or_none :: "pyobj \<Rightarrow> bool" where
  "not_text_or_none v = (case v of PNone \<Rightarrow> False | PStr s \<Rightarrow> False | _ \<Rightarrow> True)"

text \<open>\<open>payload.get(key, default)\<close>.\<close>

definition get_or :: "pydict \<Rightarrow> string \<Rightarrow> pyobj \<Rightarrow> pyobj" where
  "get_or d key usual = (case dget d key of None \<Rightarrow> usual | Some v \<Rightarrow> v)"

definition relation_issues :: "pyobj \<Rightarrow> issue list" where
  "relation_issues v =
     (case mapping_items v of
        None \<Rightarrow> [(''payload.relations'', ''must be an object'')]
      | Some r \<Rightarrow> concat (map (\<lambda>(key, x).
            issue_if (not_strings x) (''payload.relations.'' @ key) ''must be a list of strings'') r))"

definition validate_entry_payload :: "pydict \<Rightarrow> issue list" where
  "validate_entry_payload d =
     issue_if (text_missing d ''title'') ''payload.title'' ''must be a non-empty string''
     @ issue_if (text_missing d ''body'') ''payload.body'' ''must be a non-empty string''
     @ issue_if (not_strings (get_or d ''tags'' (PList []))) ''payload.tags'' ''must be a list of strings''
     @ issue_if (not_text_or_none (dict_get d ''revisit_at'')) ''payload.revisit_at'' ''must be a string or null''
     @ concat (map (\<lambda>f. issue_if (not_text_or_none (dict_get d f)) (''payload.'' @ f) ''must be a string or null'')
         [''observed_at'', ''valid_from'', ''valid_until'', ''temporal_note''])
     @ relation_issues (get_or d ''relations'' (PDict []))
     @ concat (map (\<lambda>f. issue_if (map_of d f \<noteq> None) (''payload.'' @ f) ''is obsolete; use payload.relations'')
         legacy_fields)
     @ issue_if (seq_items (get_or d ''evidence'' (PList [])) = None) ''payload.evidence'' ''must be a list''"

definition confidence_issues :: "pyfloat \<Rightarrow> issue list" where
  "confidence_issues c =
     issue_if (float_lt c (Finite 0) \<or> float_lt (Finite 1) c) ''confidence'' ''must be between 0 and 1''"

definition validate_persona_payload :: "pydict \<Rightarrow> issue list" where
  "validate_persona_payload d =
     issue_if (text_missing d ''persona_id'') ''payload.persona_id'' ''must be a non-empty string''
     @ issue_if (text_missing d ''description'') ''payload.description'' ''must be a non-empty string''
     @ issue_if (dict_get d ''routing_markers'' \<noteq> PNone \<and> not_strings (dict_get d ''routing_markers''))
         ''payload.routing_markers'' ''must be a list of strings''
     @ issue_if (not_text_or_none (dict_get d ''behavioral_notes'')) ''payload.behavioral_notes'' ''must be a string''"

fun descriptor_validate :: "MemoryTypeDescriptor \<Rightarrow> MemoryObject \<Rightarrow> issue list" where
  "descriptor_validate (EntryPayloadDescriptor kind text importance) m =
     validate_entry_payload (mo_payload m) @ confidence_issues (mo_confidence m)"
| "descriptor_validate (PersonaInstructionDescriptor importance) m =
     validate_persona_payload (mo_payload m) @ confidence_issues (mo_confidence m)"

text \<open>
  The default merge, which the persona descriptor repeats: payload and metadata of the incoming
  object win, references are united, identity and creation time stay; the importance is the
  class's default.
\<close>

definition default_merge :: "MemoryObject \<Rightarrow> MemoryObject \<Rightarrow> MemoryObject result" where
  "default_merge old new =
     make_object \<lparr>mo_type = mo_type old, mo_payload = dict_update (mo_payload old) (mo_payload new),
       mo_metadata = dict_update (mo_metadata old) (mo_metadata new), mo_confidence = mo_confidence new,
       mo_importance = Finite 1, mo_source_refs = add_targets [] (mo_source_refs old @ mo_source_refs new),
       mo_review_state = mo_review_state new, mo_privacy = mo_privacy new, mo_id = mo_id old,
       mo_created_at = mo_created_at old, mo_updated_at = mo_updated_at new\<rparr>"

definition entry_payload_merge :: "MemoryObject \<Rightarrow> MemoryObject \<Rightarrow> MemoryObject result" where
  "entry_payload_merge old new =
     bindE (optional_mapping_strings (mo_payload old) ''tags'') (\<lambda>old_tags.
     bindE (optional_mapping_strings (mo_payload new) ''tags'') (\<lambda>new_tags.
       make_object \<lparr>mo_type = mo_type old,
         mo_payload = AList.update ''tags'' (strs_obj (add_targets [] (old_tags @ new_tags)))
                        (dict_update (mo_payload old) (mo_payload new)),
         mo_metadata = dict_update (mo_metadata old) (mo_metadata new), mo_confidence = mo_confidence new,
         mo_importance = Finite 1, mo_source_refs = add_targets [] (mo_source_refs old @ mo_source_refs new),
         mo_review_state = mo_review_state new, mo_privacy = mo_privacy new, mo_id = mo_id old,
         mo_created_at = mo_created_at old, mo_updated_at = mo_updated_at new\<rparr>))"

definition same_text :: "string \<Rightarrow> MemoryObject \<Rightarrow> MemoryObject \<Rightarrow> bool" where
  "same_text key a b =
     (let s = optional_payload_str (mo_payload a) key; t = optional_payload_str (mo_payload b) key in
      s \<noteq> '''' \<and> t \<noteq> '''' \<and> py_lower (strip s) = py_lower (strip t))"

definition entry_payload_conflicts :: "MemoryObject \<Rightarrow> MemoryObject \<Rightarrow> bool" where
  "entry_payload_conflicts a b \<longleftrightarrow> same_text ''title'' a b \<or> mo_id a = mo_id b"

definition persona_conflicts :: "MemoryObject \<Rightarrow> MemoryObject \<Rightarrow> bool" where
  "persona_conflicts a b \<longleftrightarrow> same_text ''persona_id'' a b \<or> mo_id a = mo_id b"

fun descriptor_merge :: "MemoryTypeDescriptor \<Rightarrow> MemoryObject \<Rightarrow> MemoryObject \<Rightarrow> MemoryObject result" where
  "descriptor_merge (EntryPayloadDescriptor kind text importance) old new = entry_payload_merge old new"
| "descriptor_merge (PersonaInstructionDescriptor importance) old new = default_merge old new"

fun descriptor_conflicts :: "MemoryTypeDescriptor \<Rightarrow> MemoryObject \<Rightarrow> MemoryObject \<Rightarrow> bool" where
  "descriptor_conflicts (EntryPayloadDescriptor kind text importance) a b = entry_payload_conflicts a b"
| "descriptor_conflicts (PersonaInstructionDescriptor importance) a b = persona_conflicts a b"

text \<open>An importance of one is the class's default and stands for the type's own.\<close>

definition descriptor_importance :: "MemoryTypeDescriptor \<Rightarrow> MemoryObject \<Rightarrow> pyfloat" where
  "descriptor_importance desc m = (if mo_importance m = Finite 1 then desc_importance desc else mo_importance m)"

section \<open>Registries\<close>

type_synonym type_registry = "(string \<times> MemoryTypeDescriptor) list"

definition type_register :: "MemoryTypeDescriptor \<Rightarrow> type_registry \<Rightarrow> type_registry" where
  "type_register desc reg = AList.update (descriptor_type desc) desc reg"

definition make_type_registry :: "MemoryTypeDescriptor list \<Rightarrow> type_registry" where
  "make_type_registry descs = foldl (\<lambda>reg desc. type_register desc reg) [] descs"

definition registry_validate :: "type_registry \<Rightarrow> MemoryObject \<Rightarrow> unit result" where
  "registry_validate reg m =
     (case map_of reg (mo_type m) of
        None \<Rightarrow> raise_if (mo_review_state m \<noteq> MDraft) (MemoryValidationError (mo_type m))
      | Some desc \<Rightarrow> raise_if (descriptor_validate desc m \<noteq> []) (MemoryValidationError (mo_type m)))"

definition registry_names :: "type_registry \<Rightarrow> string list" where
  "registry_names reg = sort (map fst reg)"

definition registry_describe :: "type_registry \<Rightarrow> string \<Rightarrow> string" where
  "registry_describe reg kind =
     (case map_of reg kind of
        None \<Rightarrow> ''unknown type''
      | Some (EntryPayloadDescriptor k text importance) \<Rightarrow> text
      | Some (PersonaInstructionDescriptor importance) \<Rightarrow> ''persona instruction memory'')"

definition registry_merge :: "type_registry \<Rightarrow> MemoryObject \<Rightarrow> MemoryObject \<Rightarrow> MemoryObject result" where
  "registry_merge reg old new =
     (case map_of reg (mo_type old) of None \<Rightarrow> default_merge old new | Some desc \<Rightarrow> descriptor_merge desc old new)"

definition registry_conflicts :: "type_registry \<Rightarrow> MemoryObject \<Rightarrow> MemoryObject \<Rightarrow> bool" where
  "registry_conflicts reg a b =
     (case map_of reg (mo_type a) of None \<Rightarrow> mo_id a = mo_id b | Some desc \<Rightarrow> descriptor_conflicts desc a b)"

definition registry_importance :: "type_registry \<Rightarrow> MemoryObject \<Rightarrow> pyfloat" where
  "registry_importance reg m =
     (case map_of reg (mo_type m) of None \<Rightarrow> mo_importance m | Some desc \<Rightarrow> descriptor_importance desc m)"

text \<open>
  A decimal literal denotes the nearest binary fraction: \<open>0.4\<close> is 3602879701896397 divided by two to
  the power of 53, and so on.
\<close>

definition binary :: "int \<Rightarrow> nat \<Rightarrow> pyfloat" where
  "binary m k = Finite (of_int m / 2 ^ k)"

definition default_type_registry :: type_registry where
  "default_type_registry = make_type_registry
     [EntryPayloadDescriptor ''source_note'' ''a source-backed note'' (binary 3602879701896397 53),
      EntryPayloadDescriptor ''profile_fact'' ''a profile fact'' (binary 8106479329266893 53),
      EntryPayloadDescriptor ''belief'' ''a claim or stance'' (binary 3152519739159347 52),
      EntryPayloadDescriptor ''preference'' ''a durable preference'' (binary 5404319552844595 53),
      EntryPayloadDescriptor ''goal'' ''a desired future state'' (binary 3602879701896397 52),
      EntryPayloadDescriptor ''concept'' ''a concept definition or explanation'' (binary 1 1),
      EntryPayloadDescriptor ''style_trait'' ''a user style trait'' (binary 1 1),
      EntryPayloadDescriptor ''episode'' ''a concise event summary'' (binary 3602879701896397 53),
      EntryPayloadDescriptor ''open_question'' ''an unresolved question'' (binary 5404319552844595 54),
      EntryPayloadDescriptor ''instruction'' ''a behavior rule'' (binary 5404319552844595 53),
      PersonaInstructionDescriptor (binary 8106479329266893 53)]"

record RelationDescriptor =
  rd_name :: string
  rd_source_field :: string
  rd_domain :: "string list"
  rd_range :: "string list"
  rd_symmetric :: bool
  rd_transitive :: bool
  rd_inverse :: "string option"
  rd_temporal_policy :: string
  rd_confidence_policy :: string
  rd_retrieval_rule :: string

type_synonym relation_registry = "(string \<times> RelationDescriptor) list"

definition relation_register :: "RelationDescriptor \<Rightarrow> relation_registry \<Rightarrow> relation_registry" where
  "relation_register desc reg = AList.update (rd_name desc) desc reg"

definition relation_require :: "relation_registry \<Rightarrow> string \<Rightarrow> RelationDescriptor result" where
  "relation_require reg name =
     (case map_of reg name of None \<Rightarrow> Inl (KeyError ''unknown relation descriptor'') | Some desc \<Rightarrow> Inr desc)"

definition memory_node_types :: "string list" where
  "memory_node_types =
     [''source_note'', ''profile_fact'', ''belief'', ''preference'', ''goal'', ''concept'', ''style_trait'',
      ''episode'', ''open_question'', ''instruction'']"

definition builtin_relation ::
  "string \<Rightarrow> bool \<Rightarrow> bool \<Rightarrow> string \<Rightarrow> string \<Rightarrow> string \<Rightarrow> RelationDescriptor" where
  "builtin_relation name symmetric transitive inverse_name temporal_policy rule =
     \<lparr>rd_name = name, rd_source_field = name, rd_domain = memory_node_types, rd_range = memory_node_types,
      rd_symmetric = symmetric, rd_transitive = transitive, rd_inverse = Some inverse_name,
      rd_temporal_policy = temporal_policy, rd_confidence_policy = ''inherits_source'', rd_retrieval_rule = rule\<rparr>"

definition default_relation_registry :: relation_registry where
  "default_relation_registry =
     foldl (\<lambda>reg desc. relation_register desc reg) []
     [builtin_relation ''supersedes'' False False ''superseded_by'' ''source_validity_refines_target''
        ''include_both_current_and_superseded'',
      builtin_relation ''related_to'' True False ''related_to'' ''independent'' ''include_direct_neighbors'',
      builtin_relation ''supports'' False False ''supported_by'' ''independent'' ''include_direct_neighbors'',
      builtin_relation ''contradicts'' False False ''contradicted_by'' ''independent'' ''include_direct_neighbors'',
      builtin_relation ''refines'' False False ''refined_by'' ''source_validity_refines_target''
        ''include_direct_neighbors'',
      builtin_relation ''depends_on'' False True ''required_by'' ''independent'' ''include_direct_neighbors'']"

end
