(* ===== verification/MemoryCodec.thy ===== *)
theory MemoryCodec
  imports MemoryModel
begin

text \<open>
  The codecs of memory: what is written is read back, whichever of the two stored schemas of an entry
  was used, and what the repositories rely on as \<open>record_codec\<close>.
\<close>

section \<open>Fields\<close>

definition fields_frozen :: "pydict \<Rightarrow> bool" where
  "fields_frozen d \<longleftrightarrow> list_all (\<lambda>(key, x). frozen x) d"

definition finite_value :: "pyfloat \<Rightarrow> bool" where
  "finite_value x \<longleftrightarrow> (\<exists>q. x = Finite q)"

lemma fields_frozen_simps [simp]:
  "fields_frozen []" "fields_frozen ((key, v) # d) \<longleftrightarrow> frozen v \<and> fields_frozen d"
  "fields_frozen (d @ e) \<longleftrightarrow> fields_frozen d \<and> fields_frozen e"
  by (simp_all add: fields_frozen_def)

lemma freeze_fields_frozen: "freeze_fields d = Inr e \<Longrightarrow> fields_frozen e"
  using freeze_frozen_all(3) by (simp add: fields_frozen_def)

lemma freeze_fields_id [simp]: "fields_frozen d \<Longrightarrow> freeze_fields d = Inr d"
  using freeze_frozen_id_all(3) by (simp add: fields_frozen_def)

lemma thaw_fields:
  assumes "fields_frozen d"
  obtains e where "thaw (PProxy d) = PDict e" "freeze_fields e = Inr d" "json_plain (PDict e)" "map fst e = map fst d"
    "\<And>key. map_of e key = map_option thaw (map_of d key)"
proof -
  let ?e = "map (\<lambda>(key, x). (key, thaw x)) d"
  have f: "freeze_fields ?e = Inr d"
    using freeze_thaw_all(3) assms by (simp add: fields_frozen_def)
  then have "freeze (PDict ?e) = Inr (PProxy d)" by simp
  from thaw_freeze_plain [OF this] have "json_plain (PDict ?e)" by simp
  moreover have "map fst ?e = map fst d" by auto
  moreover have "map_of ?e key = map_option thaw (map_of d key)" for key
    using lookup_map_rows [of "\<lambda>_. thaw" d key] by simp
  ultimately show ?thesis using f by (intro that [of ?e]) (simp_all del: json_plain.simps)
qed

lemma finite_value_Finite [simp]: "finite_value (Finite q)"
  by (simp add: finite_value_def)

lemma finite_value_plain [simp]: "finite_value x \<Longrightarrow> json_plain (PFloat x)"
  by (auto simp: finite_value_def)

lemma read_optional_string_opt [simp]: "dget d key = Some (opt_str v) \<Longrightarrow> read_optional_string d key = Inr v"
  by (cases v) (simp_all add: read_optional_string_def dict_get_def)

lemma read_optional_string_str [simp]: "dget d key = Some (PStr s) \<Longrightarrow> read_optional_string d key = Inr (Some s)"
  by (simp add: read_optional_string_def dict_get_def)

lemma or_empty_Some [simp]: "or_empty (Some s) = s"
  by (simp add: or_empty_def)

lemma expect_strings_obj [simp]: "dget d key = Some (strs_obj ss) \<Longrightarrow> expect_strings d key = Inr ss"
  by (simp add: expect_strings_def dict_get_def)

lemma optional_float_default_float [simp]:
  "dget d key = Some (PFloat x) \<Longrightarrow> optional_float_default d key usual = Inr x"
  by (simp add: optional_float_default_def optional_float_def dict_get_def)

lemma expect_dict_dict [simp]: "dget d key = Some (PDict v) \<Longrightarrow> expect_dict d key = Inr v"
  by (simp add: expect_dict_def dict_get_def)

lemma optional_object_dict [simp]: "dget d key = Some (PDict v) \<Longrightarrow> optional_object d key = Inr v"
  by (simp add: optional_object_def dict_get_def)

lemma optional_object_missing [simp]: "dget d key = None \<Longrightarrow> optional_object d key = Inr []"
  by (simp add: optional_object_def dict_get_def)

lemma read_enum_name:
  assumes "vocabulary str names" and "dget d key = Some (PStr (str k))"
  shows "read_enum str names e d key = Inr k"
  using vocabulary.find_name [OF assms(1), of k] assms(2) by (simp add: read_enum_def)

lemmas enum_reads [simp] =
  read_enum_name [OF review_states.vocabulary_axioms] read_enum_name [OF privacy_levels.vocabulary_axioms]
  read_enum_name [OF candidate_actions.vocabulary_axioms] read_enum_name [OF candidate_states.vocabulary_axioms]
  read_enum_name [OF evidence_sources.vocabulary_axioms]

section \<open>Evidence and relations\<close>

lemma evidence_reload [simp]: "evidence_from_wire (evidence_to_wire x) = Inr x"
  by (cases x) (simp add: evidence_from_wire_def evidence_to_wire_def)

lemma evidence_plain [simp]: "json_plain (PDict (evidence_to_wire x))"
  by (simp add: evidence_to_wire_def)

lemma evidence_obj_plain [simp]: "json_plain (evidence_obj xs)"
  by (simp add: evidence_obj_def list_all_iff del: json_plain.simps(1))

lemma evidence_items_dicts [simp]: "evidence_items as_dict (map (\<lambda>x. PDict (evidence_to_wire x)) xs) = Inr xs"
  by (induction xs) simp_all

lemma optional_evidence_obj [simp]: "dget d key = Some (evidence_obj xs) \<Longrightarrow> optional_evidence d key = Inr xs"
  by (simp add: optional_evidence_def evidence_obj_def dict_get_def)

lemma relations_plain [simp]: "json_plain (relations_obj rel)"
  by (auto simp: relations_obj_def list_all_iff)

lemma read_targets_lists: "(\<And>ts. targets (f ts) = Inr ts) \<Longrightarrow> read_targets targets (map (\<lambda>(key, ts). (key, f ts)) rel) = Inr rel"
  unfolding read_targets_def by (induction rel) auto

lemma expect_relations_obj:
  assumes "reject_legacy d = Inr ()" and "dget d key = Some (relations_obj rel)"
  shows "expect_relations d key = Inr rel"
  using assms read_targets_lists [of "read_strs (ValueError ''field must be a list of strings'')" strs_obj rel]
  by (simp add: expect_relations_def relations_obj_def)

section \<open>Entries and candidates\<close>

definition entry_valid :: "MemoryEntry \<Rightarrow> bool" where
  "entry_valid x \<longleftrightarrow> me_id x \<noteq> '''' \<and> finite_value (me_confidence x) \<and> finite_value (me_importance x)
     \<and> fields_frozen (me_payload x)"

definition memory_candidate_valid :: "MemoryCandidate \<Rightarrow> bool" where
  "memory_candidate_valid x \<longleftrightarrow> mc_id x \<noteq> '''' \<and> finite_value (mc_confidence x) \<and> finite_value (mc_importance x)"

lemma make_entry_id [simp]: "fields_frozen (me_payload x) \<Longrightarrow> make_entry x = Inr x"
  by (simp add: make_entry_def)

lemma memory_entry_reload:
  assumes "fields_frozen (me_payload x)"
  shows "entry_from_wire ((''id'', PStr (me_id x)) # payload_of (mem_entry_to_wire x)) = Inr x"
proof -
  let ?d = "(''id'', PStr (me_id x)) # payload_of (mem_entry_to_wire x)"
  have none: "map_of ?d ''metadata'' = None" "reject_legacy ?d = Inr ()"
    by (simp_all add: mem_entry_to_wire_def payload_of_def reject_legacy_def legacy_fields_def)
  have rel: "expect_relations ?d ''relations'' = Inr (me_relations x)"
    by (rule expect_relations_obj [OF none(2)]) (simp add: mem_entry_to_wire_def payload_of_def)
  obtain e where e: "thaw (PProxy (me_payload x)) = PDict e" "freeze_fields e = Inr (me_payload x)"
    using thaw_fields [OF assms] by metis
  have "optional_object ?d ''payload'' = Inr (if me_payload x = [] then [] else e)"
    using e(1) by (simp add: mem_entry_to_wire_def payload_of_def del: thaw.simps)
  then obtain p where p: "optional_object ?d ''payload'' = Inr p" "freeze_fields p = Inr (me_payload x)"
    using e(2) by (cases "me_payload x = []") auto
  have "memory_entry_from_wire ?d = make_entry (x\<lparr>me_payload := p\<rparr>)"
    unfolding memory_entry_from_wire_def rel p(1)
    by (cases x) (simp add: mem_entry_to_wire_def payload_of_def read_privacy_def read_review_state_def del: thaw.simps)
  also have "\<dots> = Inr x" using p(2) by (cases x) (simp add: make_entry_def)
  finally show ?thesis using none(1) by (simp add: entry_from_wire_def)
qed

lemma entry_wire_plain:
  assumes "entry_valid x"
  shows "json_dict (mem_entry_to_wire x)"
proof -
  obtain e where "thaw (PProxy (me_payload x)) = PDict e" "json_plain (PDict e)"
    using thaw_fields assms unfolding entry_valid_def by metis
  then show ?thesis
    using assms by (simp add: json_dict_def mem_entry_to_wire_def entry_valid_def del: thaw.simps json_plain.simps(3))
qed

interpretation entries: record_codec mem_entry_to_wire entry_from_wire me_id entry_valid
proof unfold_locales
  fix x
  assume x: "entry_valid x"
  show "me_id x \<noteq> ''''" using x by (simp add: entry_valid_def)
  show "json_dict (mem_entry_to_wire x)" using x by (rule entry_wire_plain)
  show "dict_get (mem_entry_to_wire x) ''id'' \<in> {PNone, PStr (me_id x)}" by (simp add: mem_entry_to_wire_def wire_simps)
  show "entry_from_wire ((''id'', PStr (me_id x)) # payload_of (mem_entry_to_wire x)) = Inr x"
    using x by (intro memory_entry_reload) (simp add: entry_valid_def)
qed

lemma memory_candidate_reload:
  "memory_candidate_from_wire ((''id'', PStr (mc_id x)) # payload_of (memory_candidate_to_wire x)) = Inr x"
proof -
  let ?d = "(''id'', PStr (mc_id x)) # payload_of (memory_candidate_to_wire x)"
  have none: "reject_legacy ?d = Inr ()"
    by (simp add: memory_candidate_to_wire_def payload_of_def reject_legacy_def legacy_fields_def)
  have rel: "expect_relations ?d ''relations'' = Inr (mc_relations x)"
    by (rule expect_relations_obj [OF none]) (simp add: memory_candidate_to_wire_def payload_of_def)
  show ?thesis
    unfolding memory_candidate_from_wire_def rel
    by (cases x) (simp add: memory_candidate_to_wire_def payload_of_def read_privacy_def)
qed

interpretation memory_candidates:
  record_codec memory_candidate_to_wire memory_candidate_from_wire mc_id memory_candidate_valid
proof unfold_locales
  fix x
  assume x: "memory_candidate_valid x"
  show "mc_id x \<noteq> ''''" using x by (simp add: memory_candidate_valid_def)
  show "json_dict (memory_candidate_to_wire x)"
    using x by (simp add: json_dict_def memory_candidate_to_wire_def memory_candidate_valid_def del: json_plain.simps(3))
  show "dict_get (memory_candidate_to_wire x) ''id'' \<in> {PNone, PStr (mc_id x)}"
    by (simp add: memory_candidate_to_wire_def wire_simps)
  show "memory_candidate_from_wire ((''id'', PStr (mc_id x)) # payload_of (memory_candidate_to_wire x)) = Inr x"
    by (rule memory_candidate_reload)
qed

section \<open>The typed envelope of an entry\<close>

lemma AList_update_new: "key \<notin> fst ` set d \<Longrightarrow> AList.update key v d = d @ [(key, v)]"
  by (induction d) auto

lemma dict_update_append:
  "distinct (map fst e) \<Longrightarrow> fst ` set e \<inter> fst ` set d = {} \<Longrightarrow> dict_update d e = d @ e"
  unfolding dict_update_def by (induction e arbitrary: d) (auto simp: AList_update_new)

definition entry_fields_frozen :: "MemoryEntry \<Rightarrow> pydict" where
  "entry_fields_frozen x =
     AList.update ''evidence'' (PTuple (map (\<lambda>e. PProxy (evidence_to_wire e)) (me_evidence x))) (entry_object_payload x)"

lemma freeze_strings [simp]: "freeze_items (map PStr ss) = Inr (map PStr ss)"
  by (induction ss) simp_all

lemma freeze_opt_str [simp]: "freeze (opt_str s) = Inr (opt_str s)"
  by (cases s) simp_all

lemma thaw_opt_str [simp]: "thaw (opt_str s) = opt_str s"
  by (cases s) simp_all

lemma frozen_opt_str [simp]: "frozen (opt_str s)"
  by (cases s) simp_all

lemma freeze_evidence_wire [simp]: "freeze_fields (evidence_to_wire e) = Inr (evidence_to_wire e)"
  by (simp add: evidence_to_wire_def)

lemma freeze_evidence_items [simp]:
  "freeze_items (map (\<lambda>e. PDict (evidence_to_wire e)) es) = Inr (map (\<lambda>e. PProxy (evidence_to_wire e)) es)"
  by (induction es) simp_all

lemma freeze_relation_fields [simp]:
  "freeze_fields (map (\<lambda>(key, ts). (key, PTuple (map PStr ts))) rel) = Inr (map (\<lambda>(key, ts). (key, PTuple (map PStr ts))) rel)"
  by (induction rel) auto

lemma freeze_entry_object_payload: "freeze_fields (entry_object_payload x) = Inr (entry_fields_frozen x)"
  by (simp add: entry_object_payload_def entry_fields_frozen_def evidence_obj_def)

lemma entry_fields_frozen_keys: "map fst (entry_fields_frozen x) = entry_fields"
  by (simp add: entry_fields_frozen_def entry_object_payload_def entry_fields_def)

lemma freeze_fields_append:
  "freeze_fields (d @ e) = bindE (freeze_fields d) (\<lambda>f. bindE (freeze_fields e) (\<lambda>g. Inr (f @ g)))"
  by (induction d) (auto simp: bindE_def split: sum.splits)

lemma entry_object_payload_keys: "map fst (entry_object_payload x) = entry_fields"
  by (simp add: entry_object_payload_def entry_fields_def)

definition extension_ok :: "MemoryEntry \<Rightarrow> bool" where
  "extension_ok x \<longleftrightarrow> distinct (map fst (me_payload x))
     \<and> list_all (\<lambda>key. key \<notin> set entry_fields \<and> key \<notin> set legacy_fields) (map fst (me_payload x))"

definition object_of_entry :: "MemoryEntry \<Rightarrow> MemoryObject" where
  "object_of_entry x =
     \<lparr>mo_type = me_type x, mo_payload = entry_fields_frozen x @ me_payload x,
      mo_metadata = [(''entry_schema'', PStr ''MemoryEntry/v1'')], mo_confidence = me_confidence x,
      mo_importance = me_importance x, mo_source_refs = me_source_refs x, mo_review_state = me_review_state x,
      mo_privacy = me_privacy x, mo_id = me_id x, mo_created_at = me_created_at x, mo_updated_at = me_updated_at x\<rparr>"

lemma entry_to_object_ok:
  assumes "fields_frozen (me_payload x)" and "extension_ok x"
  shows "entry_to_object x = Inr (object_of_entry x)"
proof -
  have "fst ` set (me_payload x) \<inter> fst ` set (entry_object_payload x) = {}"
    using assms(2) by (force simp: extension_ok_def list_all_iff image_set entry_object_payload_keys simp del: set_map)
  then have "dict_update (entry_object_payload x) (me_payload x) = entry_object_payload x @ me_payload x"
    using assms(2) by (intro dict_update_append) (simp_all add: extension_ok_def)
  then show ?thesis
    using assms(1) by (simp add: entry_to_object_def make_object_def object_of_entry_def freeze_fields_append
        freeze_entry_object_payload)
qed

lemma evidence_items_thawed [simp]:
  "evidence_items thawed_dict (map (\<lambda>e. PProxy (evidence_to_wire e)) es) = Inr es"
proof (induction es)
  case (Cons e es)
  have "thawed_dict (PProxy (evidence_to_wire e)) = Some (evidence_to_wire e)"
    by (simp add: thawed_dict_def evidence_to_wire_def)
  with Cons show ?case by simp
qed simp

lemma seq_strings_tuple [simp]: "seq_strings (PTuple (map PStr ss)) = Inr ss"
  by (simp add: seq_strings_def)

lemma entry_from_object_of:
  assumes "fields_frozen (me_payload x)" and "extension_ok x" and "me_type x \<in> set memory_entry_types"
  shows "entry_from_object (object_of_entry x) = Inr x"
proof -
  let ?d = "entry_fields_frozen x @ me_payload x"
  have rel: "expect_mapping_relations ?d ''relations'' = Inr (me_relations x)"
    using read_targets_lists [of seq_strings "\<lambda>ts. PTuple (map PStr ts)"]
    by (simp add: expect_mapping_relations_def entry_fields_frozen_def entry_object_payload_def)
  have "map_of (me_payload x) f = None" if "f \<in> set legacy_fields" for f
    using that assms(2) by (force simp: extension_ok_def list_all_iff map_of_eq_None_iff)
  then have legacy: "reject_legacy ?d = Inr ()"
    by (simp add: reject_legacy_def legacy_fields_def entry_fields_frozen_def entry_object_payload_def raise_if_def)
  have evidence: "optional_mapping_evidence ?d ''evidence'' = Inr (me_evidence x)"
    by (simp add: optional_mapping_evidence_def dict_get_def entry_fields_frozen_def entry_object_payload_def)
  have "filter (\<lambda>(key, v). key \<notin> set entry_fields) (me_payload x) = me_payload x"
    using assms(2) by (intro filter_True) (force simp: extension_ok_def list_all_iff)
  moreover have "filter (\<lambda>(key, v). key \<notin> set entry_fields) (entry_fields_frozen x) = []"
    by (simp add: entry_fields_frozen_def entry_object_payload_def entry_fields_def)
  ultimately have extra: "filter (\<lambda>(key, v). key \<notin> set entry_fields) ?d = me_payload x" by simp
  have reads: "read_string ?d ''title'' = Inr (me_title x)" "read_string ?d ''body'' = Inr (me_body x)"
    "expect_mapping_strings ?d ''tags'' = Inr (me_tags x)"
    "read_optional_string ?d ''revisit_at'' = Inr (me_revisit_at x)"
    "read_optional_string ?d ''observed_at'' = Inr (me_observed_at x)"
    "read_optional_string ?d ''valid_from'' = Inr (me_valid_from x)"
    "read_optional_string ?d ''valid_until'' = Inr (me_valid_until x)"
    "optional_payload_str ?d ''temporal_note'' = me_temporal_note x"
    by (simp_all add: entry_fields_frozen_def entry_object_payload_def expect_mapping_strings_def
        optional_payload_str_def dict_get_def)
  show ?thesis
    using assms(1,3) legacy evidence rel reads extra
    by (cases x) (simp add: entry_from_object_def object_of_entry_def)
qed

lemma frozen_entry_fields: "fields_frozen (entry_fields_frozen x)"
  using freeze_fields_frozen [OF freeze_entry_object_payload] .

lemma object_reload:
  assumes "fields_frozen (mo_payload m)" and "fields_frozen (mo_metadata m)"
  shows "object_from_wire (object_to_wire m) = Inr m"
proof -
  obtain p where p: "thaw (PProxy (mo_payload m)) = PDict p" "freeze_fields p = Inr (mo_payload m)"
    using thaw_fields [OF assms(1)] by metis
  obtain q where q: "thaw (PProxy (mo_metadata m)) = PDict q" "freeze_fields q = Inr (mo_metadata m)"
    using thaw_fields [OF assms(2)] by metis
  have "object_from_wire (object_to_wire m) = make_object (m\<lparr>mo_payload := p, mo_metadata := q\<rparr>)"
    using p(1) q(1)
    by (cases m) (simp add: object_from_wire_def object_to_wire_def read_privacy_def read_review_state_def del: thaw.simps)
  also have "\<dots> = Inr m" using p(2) q(2) by (cases m) (simp add: make_object_def)
  finally show ?thesis .
qed

text \<open>
  C23: An entry is restored exactly from what is stored of it, in either schema: from its own record,
  and from the record of the typed envelope it converts to. For the envelope the type must be one of
  the known ones, and no key of the entry's own payload may be that of a field of the entry or of
  an obsolete one.
\<close>

theorem entry_schemas_agree:
  assumes "entry_valid x" and "extension_ok x" and "me_type x \<in> set memory_entry_types"
  shows "entry_from_wire (mem_entry_to_wire x) = Inr x
    \<and> (\<exists>m. entry_to_object x = Inr m \<and> entry_from_object m = Inr x \<and> entry_from_wire (object_to_wire m) = Inr x)"
proof (intro conjI exI)
  have frozen: "fields_frozen (me_payload x)" using assms(1) by (simp add: entry_valid_def)
  have "mem_entry_to_wire x = (''id'', PStr (me_id x)) # payload_of (mem_entry_to_wire x)"
    by (simp add: mem_entry_to_wire_def payload_of_def)
  with memory_entry_reload [OF frozen] show "entry_from_wire (mem_entry_to_wire x) = Inr x" by metis
  show "entry_to_object x = Inr (object_of_entry x)" using frozen assms(2) by (rule entry_to_object_ok)
  show restored: "entry_from_object (object_of_entry x) = Inr x" using frozen assms(2,3) by (rule entry_from_object_of)
  have "object_from_wire (object_to_wire (object_of_entry x)) = Inr (object_of_entry x)"
    using frozen frozen_entry_fields by (intro object_reload) (simp_all add: object_of_entry_def)
  moreover have "map_of (object_to_wire (object_of_entry x)) ''metadata'' \<noteq> None" by (simp add: object_to_wire_def)
  ultimately show "entry_from_wire (object_to_wire (object_of_entry x)) = Inr x"
    using restored by (simp add: entry_from_wire_def)
qed

definition sample_memory :: MemoryEntry where
  "sample_memory =
     \<lparr>me_type = ''goal'', me_title = ''Ship it'', me_body = ''Finish the model'', me_tags = [''work''], me_source_refs = [''s:1''],
      me_confidence = Finite 1, me_importance = Finite 1, me_privacy = PlPrivate, me_review_state = MReviewed,
      me_id = ''mem_1'', me_created_at = ''2024'', me_updated_at = ''2025'', me_revisit_at = None,
      me_observed_at = Some ''2023'', me_valid_from = None, me_valid_until = None, me_temporal_note = '''',
      me_relations = [(''supports'', [''mem_2''])],
      me_evidence = [\<lparr>ev_source_type = EvManual, ev_source_ref = ''r'', ev_summary = '''', ev_observed_at = None,
                      ev_quote = ''q'', ev_created_at = ''2024''\<rparr>],
      me_payload = [(''colour'', PTuple [PStr ''red'', PInt 3])]\<rparr>"

lemma entry_schemas_agree_witness:
  "\<exists>m. entry_to_object sample_memory = Inr m \<and> entry_from_wire (object_to_wire m) = Inr sample_memory"
proof -
  have "entry_valid sample_memory" "extension_ok sample_memory" "me_type sample_memory \<in> set memory_entry_types"
    by (simp_all add: sample_memory_def entry_valid_def finite_value_def extension_ok_def entry_fields_def
        legacy_fields_def memory_entry_types_def)
  from entry_schemas_agree [OF this] show ?thesis by blast
qed

end
