(* ===== verification/ProfileStore.thy ===== *)
theory ProfileStore
  imports MemoryCodec
begin

text \<open>
  The derived profile (\<open>profile/model.py\<close>, \<open>profile/repository.py\<close>): its items, which accepted
  profile-fact candidates become, and the repository over the \<open>profile_items\<close> collection. The
  name-based UUID of the standard library is an argument.
\<close>

section \<open>Items and their codec\<close>

record ProfileItem =
  pi_type :: string
  pi_title :: string
  pi_body :: string
  pi_tags :: "string list"
  pi_source_refs :: "string list"
  pi_confidence :: pyfloat
  pi_importance :: pyfloat
  pi_privacy :: PrivacyLevel
  pi_id :: string
  pi_created_at :: string
  pi_updated_at :: string
  pi_observed_at :: "string option"
  pi_valid_from :: "string option"
  pi_valid_until :: "string option"
  pi_temporal_note :: string
  pi_relations :: relations
  pi_evidence :: "MemoryEvidence list"

definition profile_to_wire :: "ProfileItem \<Rightarrow> pydict" where
  "profile_to_wire x =
     [(''id'', PStr (pi_id x)), (''type'', PStr (pi_type x)), (''title'', PStr (pi_title x)), (''body'', PStr (pi_body x)),
      (''tags'', strs_obj (pi_tags x)), (''source_refs'', strs_obj (pi_source_refs x)),
      (''confidence'', PFloat (pi_confidence x)), (''importance'', PFloat (pi_importance x)),
      (''privacy'', PStr (privacy_str (pi_privacy x))), (''created_at'', PStr (pi_created_at x)),
      (''updated_at'', PStr (pi_updated_at x)), (''observed_at'', opt_str (pi_observed_at x)),
      (''valid_from'', opt_str (pi_valid_from x)), (''valid_until'', opt_str (pi_valid_until x)),
      (''temporal_note'', PStr (pi_temporal_note x)), (''relations'', relations_obj (pi_relations x)),
      (''evidence'', evidence_obj (pi_evidence x))]"

text \<open>The relations are read before every other field; its reader differs from memory's only in where it looks for obsolete fields.\<close>

definition profile_from_wire :: "pydict \<Rightarrow> ProfileItem result" where
  "profile_from_wire d =
     bindE (expect_relations d ''relations'') (\<lambda>rel.
     bindE (read_string d ''id'') (\<lambda>i.
     bindE (read_string d ''type'') (\<lambda>kind.
     bindE (read_string d ''title'') (\<lambda>title.
     bindE (read_string d ''body'') (\<lambda>body.
     bindE (expect_strings d ''tags'') (\<lambda>tags.
     bindE (expect_strings d ''source_refs'') (\<lambda>source_refs.
     bindE (expect_float d ''confidence'') (\<lambda>confidence.
     bindE (optional_float_default d ''importance'' (Finite (1 / 2))) (\<lambda>importance.
     bindE (read_privacy d ''privacy'') (\<lambda>privacy.
     bindE (read_string d ''created_at'') (\<lambda>created_at.
     bindE (read_string d ''updated_at'') (\<lambda>updated_at.
     bindE (read_optional_string d ''observed_at'') (\<lambda>observed_at.
     bindE (read_optional_string d ''valid_from'') (\<lambda>valid_from.
     bindE (read_optional_string d ''valid_until'') (\<lambda>valid_until.
     bindE (read_optional_string d ''temporal_note'') (\<lambda>note.
     bindE (optional_evidence d ''evidence'') (\<lambda>evidence.
       Inr \<lparr>pi_type = kind, pi_title = title, pi_body = body, pi_tags = tags, pi_source_refs = source_refs,
            pi_confidence = confidence, pi_importance = importance, pi_privacy = privacy, pi_id = i,
            pi_created_at = created_at, pi_updated_at = updated_at, pi_observed_at = observed_at,
            pi_valid_from = valid_from, pi_valid_until = valid_until, pi_temporal_note = or_empty note,
            pi_relations = rel, pi_evidence = evidence\<rparr>)))))))))))))))))"

text \<open>Without a source reference the identifier is derived from the time.\<close>

definition new_profile_item_id :: "(string \<Rightarrow> string) \<Rightarrow> string \<Rightarrow> string option \<Rightarrow> string" where
  "new_profile_item_id uuid5 now source_ref =
     ''profile_'' @ uuid5 (case source_ref of None \<Rightarrow> now | Some s \<Rightarrow> s)"

definition first_ref :: "string list \<Rightarrow> string option" where
  "first_ref refs = (case refs of [] \<Rightarrow> None | s # _ \<Rightarrow> Some s)"

definition profile_from_candidate :: "(string \<Rightarrow> string) \<Rightarrow> string \<Rightarrow> string \<Rightarrow> string \<Rightarrow> MemoryCandidate \<Rightarrow> ProfileItem" where
  "profile_from_candidate uuid5 now created updated x =
     \<lparr>pi_type = mc_type x, pi_title = mc_title x, pi_body = mc_body x, pi_tags = mc_tags x,
      pi_source_refs = mc_source_refs x, pi_confidence = mc_confidence x, pi_importance = Finite (1 / 2),
      pi_privacy = mc_privacy x, pi_id = new_profile_item_id uuid5 now (first_ref (mc_source_refs x)),
      pi_created_at = created, pi_updated_at = updated, pi_observed_at = mc_observed_at x,
      pi_valid_from = mc_valid_from x, pi_valid_until = mc_valid_until x, pi_temporal_note = mc_temporal_note x,
      pi_relations = mc_relations x, pi_evidence = mc_evidence x\<rparr>"

section \<open>The repository\<close>

text \<open>\<open>sorted(xs, key=f, reverse=True)\<close> keeps the order of equal keys.\<close>

definition sort_desc :: "('a \<Rightarrow> 'k::linorder) \<Rightarrow> 'a list \<Rightarrow> 'a list" where
  "sort_desc f xs = rev (sort_key f (rev xs))"

definition list_profile :: "(tables, ProfileItem list) act" where
  "list_profile =
     bind_act (repo_list (tab_list ''profile_items'') profile_from_wire (\<lambda>_. True)) (\<lambda>xs.
       ret_act (sort_desc pi_updated_at xs))"

record ProfileSearchFilters =
  pf_type :: "string option"
  pf_tag :: "string option"
  pf_observed_from :: "string option"
  pf_observed_to :: "string option"
  pf_valid_on :: "string option"

definition matches_profile_text :: "string \<Rightarrow> ProfileItem \<Rightarrow> bool" where
  "matches_profile_text query x \<longleftrightarrow> query = ''''
     \<or> contains_text query (casefold (pi_title x)) \<or> contains_text query (casefold (pi_body x))
     \<or> list_ex (\<lambda>tag. contains_text query (casefold tag)) (pi_tags x)
     \<or> list_ex (\<lambda>r. contains_text query (casefold r)) (pi_source_refs x)"

text \<open>\<open>wanted p v\<close>: the filter is not given, or \<open>p\<close> holds of its value.\<close>

definition wanted :: "('a \<Rightarrow> bool) \<Rightarrow> 'a option \<Rightarrow> bool" where
  "wanted p v = (case v of None \<Rightarrow> True | Some x \<Rightarrow> p x)"

definition valid_during :: "string option \<Rightarrow> string option \<Rightarrow> string \<Rightarrow> bool" where
  "valid_during since until day \<longleftrightarrow> wanted (\<lambda>f. f \<le> day) since \<and> wanted (\<lambda>u. day \<le> u) until"

definition observed_since :: "string option \<Rightarrow> string \<Rightarrow> bool" where
  "observed_since observed day = (case observed of None \<Rightarrow> False | Some o_at \<Rightarrow> day \<le> o_at)"

definition observed_until :: "string option \<Rightarrow> string \<Rightarrow> bool" where
  "observed_until observed day = (case observed of None \<Rightarrow> False | Some o_at \<Rightarrow> o_at \<le> day)"

definition matches_profile_filters :: "ProfileSearchFilters option \<Rightarrow> ProfileItem \<Rightarrow> bool" where
  "matches_profile_filters filters x =
     wanted (\<lambda>f. wanted (\<lambda>t. pi_type x = t) (pf_type f) \<and> wanted (\<lambda>t. t \<in> set (pi_tags x)) (pf_tag f)
       \<and> wanted (observed_since (pi_observed_at x)) (pf_observed_from f)
       \<and> wanted (observed_until (pi_observed_at x)) (pf_observed_to f)
       \<and> wanted (valid_during (pi_valid_from x) (pi_valid_until x)) (pf_valid_on f)) filters"

definition search_profile :: "string \<Rightarrow> ProfileSearchFilters option \<Rightarrow> (tables, ProfileItem list) act" where
  "search_profile query filters =
     bind_act list_profile (\<lambda>xs.
       ret_act (filter (\<lambda>x. matches_profile_text (casefold query) x \<and> matches_profile_filters filters x) xs))"

definition get_profile :: "string \<Rightarrow> (tables, ProfileItem) act" where
  "get_profile item_id = repo_get (tab_get ''profile_items'' item_id) profile_from_wire (ProfileItemNotFound item_id)"

definition save_profile :: "ProfileItem \<Rightarrow> (tables, ProfileItem) act" where
  "save_profile x = bind_act (tab_put ''profile_items'' (pi_id x) (profile_to_wire x)) (\<lambda>_. ret_act x)"

definition delete_profile :: "string \<Rightarrow> (tables, unit) act" where
  "delete_profile item_id =
     bind_act (tab_get ''profile_items'' item_id) (\<lambda>w.
       case w of None \<Rightarrow> raise_act (ProfileItemNotFound item_id) | Some _ \<Rightarrow> tab_delete ''profile_items'' item_id)"

definition merged_profile :: "string \<Rightarrow> MemoryCandidate \<Rightarrow> ProfileItem \<Rightarrow> ProfileItem" where
  "merged_profile now c x =
     \<lparr>pi_type = pi_type x, pi_title = mc_title c, pi_body = mc_body c,
      pi_tags = (if mc_tags c \<noteq> [] then mc_tags c else pi_tags x), pi_source_refs = pi_source_refs x @ mc_source_refs c,
      pi_confidence = mc_confidence c, pi_importance = Finite (1 / 2), pi_privacy = pi_privacy x, pi_id = pi_id x,
      pi_created_at = pi_created_at x, pi_updated_at = now, pi_observed_at = or_else (mc_observed_at c) (pi_observed_at x),
      pi_valid_from = or_else (mc_valid_from c) (pi_valid_from x),
      pi_valid_until = or_else (mc_valid_until c) (pi_valid_until x),
      pi_temporal_note = (if mc_temporal_note c \<noteq> '''' then mc_temporal_note c else pi_temporal_note x),
      pi_relations = merge_relations (pi_relations x) (mc_relations c), pi_evidence = pi_evidence x @ mc_evidence c\<rparr>"

definition merge_profile :: "string \<Rightarrow> MemoryCandidate \<Rightarrow> string \<Rightarrow> (tables, ProfileItem) act" where
  "merge_profile now c item_id =
     bind_act (get_profile item_id) (\<lambda>x.
     bind_act (save_profile (merged_profile now c x)) (\<lambda>_. ret_act (merged_profile now c x)))"

definition accept_profile :: "(string \<Rightarrow> string) \<Rightarrow> (nat \<Rightarrow> string) \<Rightarrow> MemoryCandidate \<Rightarrow> (tables, ProfileItem) act" where
  "accept_profile uuid5 clock c = save_profile (profile_from_candidate uuid5 (clock 0) (clock 1) (clock 2) c)"

section \<open>The codec restores what it wrote\<close>

definition profile_valid :: "ProfileItem \<Rightarrow> bool" where
  "profile_valid x \<longleftrightarrow> pi_id x \<noteq> '''' \<and> finite_value (pi_confidence x) \<and> finite_value (pi_importance x)"

lemma profile_reload: "profile_from_wire ((''id'', PStr (pi_id x)) # payload_of (profile_to_wire x)) = Inr x"
proof -
  let ?d = "(''id'', PStr (pi_id x)) # payload_of (profile_to_wire x)"
  have "reject_legacy ?d = Inr ()"
    by (simp add: profile_to_wire_def payload_of_def reject_legacy_def legacy_fields_def)
  then have rel: "expect_relations ?d ''relations'' = Inr (pi_relations x)"
    by (rule expect_relations_obj) (simp add: profile_to_wire_def payload_of_def)
  show ?thesis
    unfolding profile_from_wire_def rel by (cases x) (simp add: profile_to_wire_def payload_of_def read_privacy_def)
qed

interpretation profile_items: record_codec profile_to_wire profile_from_wire pi_id profile_valid
proof unfold_locales
  fix x
  assume x: "profile_valid x"
  show "pi_id x \<noteq> ''''" using x by (simp add: profile_valid_def)
  show "json_dict (profile_to_wire x)"
    using x by (simp add: json_dict_def profile_to_wire_def profile_valid_def del: json_plain.simps(3))
  show "dict_get (profile_to_wire x) ''id'' \<in> {PNone, PStr (pi_id x)}" by (simp add: profile_to_wire_def wire_simps)
  show "profile_from_wire ((''id'', PStr (pi_id x)) # payload_of (profile_to_wire x)) = Inr x"
    by (rule profile_reload)
qed

lemma profile_from_candidate_valid:
  "finite_value (mc_confidence c) \<Longrightarrow> profile_valid (profile_from_candidate uuid5 now created updated c)"
  by (simp add: profile_valid_def profile_from_candidate_def new_profile_item_id_def)

lemma merged_profile_valid:
  "profile_valid x \<Longrightarrow> finite_value (mc_confidence c) \<Longrightarrow> profile_valid (merged_profile now c x)"
  by (simp add: profile_valid_def merged_profile_def)

end
