(* ===== verification/MemoryStore.thy ===== *)
theory MemoryStore
  imports ProfileStore
begin

text \<open>
  The repositories of memory (\<open>memory/repository.py\<close>): durable entries, and reviewable candidates with
  their promotion into entries or profile items. The descriptors of memory types are an argument
  (\<open>reg\<close>), as are the readings of the clock: \<open>clock n\<close> is the n-th reading an operation makes.
\<close>

section \<open>Entries\<close>

record MemorySearchFilters =
  msf_type :: "string option"
  msf_tag :: "string option"
  msf_review_state :: "string option"
  msf_observed_from :: "string option"
  msf_observed_to :: "string option"
  msf_valid_on :: "string option"
  msf_min_importance :: "pyfloat option"

definition matches_memory_text :: "string \<Rightarrow> MemoryEntry \<Rightarrow> bool" where
  "matches_memory_text query x \<longleftrightarrow> query = ''''
     \<or> contains_text query (casefold (me_title x)) \<or> contains_text query (casefold (me_body x))
     \<or> list_ex (\<lambda>tag. contains_text query (casefold tag)) (me_tags x)"

definition matches_memory_filters :: "MemorySearchFilters option \<Rightarrow> MemoryEntry \<Rightarrow> bool" where
  "matches_memory_filters filters x =
     wanted (\<lambda>f. wanted (\<lambda>t. me_type x = t) (msf_type f) \<and> wanted (\<lambda>t. t \<in> set (me_tags x)) (msf_tag f)
       \<and> wanted (\<lambda>s. review_state_str (me_review_state x) = s) (msf_review_state f)
       \<and> wanted (observed_since (me_observed_at x)) (msf_observed_from f)
       \<and> wanted (observed_until (me_observed_at x)) (msf_observed_to f)
       \<and> wanted (valid_during (me_valid_from x) (me_valid_until x)) (msf_valid_on f)
       \<and> wanted (\<lambda>m. \<not> float_lt (me_importance x) m) (msf_min_importance f)) filters"

definition list_memory :: "(tables, MemoryEntry list) act" where
  "list_memory =
     bind_act (repo_list (tab_list ''memory_entries'') entry_from_wire (\<lambda>_. True)) (\<lambda>xs.
       ret_act (sort_desc me_updated_at xs))"

definition search_memory :: "string \<Rightarrow> MemorySearchFilters option \<Rightarrow> (tables, MemoryEntry list) act" where
  "search_memory query filters =
     bind_act list_memory (\<lambda>xs.
       ret_act (filter (\<lambda>x. matches_memory_text (casefold query) x \<and> matches_memory_filters filters x) xs))"

definition get_memory :: "string \<Rightarrow> (tables, MemoryEntry) act" where
  "get_memory entry_id = repo_get (tab_get ''memory_entries'' entry_id) entry_from_wire (MemoryEntryNotFound entry_id)"

definition put_memory :: "MemoryEntry \<Rightarrow> (tables, MemoryEntry) act" where
  "put_memory x = bind_act (tab_put ''memory_entries'' (me_id x) (mem_entry_to_wire x)) (\<lambda>_. ret_act x)"

text \<open>A draft of a type without descriptor is quarantined; everything else must satisfy its descriptor.\<close>

definition checked_entry :: "type_registry \<Rightarrow> string \<Rightarrow> MemoryEntry \<Rightarrow> MemoryEntry result" where
  "checked_entry reg now x =
     (if map_of reg (me_type x) = None \<and> me_review_state x = MDraft
      then entry_with_updates now (no_entry_updates\<lparr>eu_review_state := Some MQuarantined\<rparr>) x
      else bindE (entry_to_object x) (\<lambda>m. bindE (registry_validate reg m) (\<lambda>_. Inr x)))"

definition save_memory :: "type_registry \<Rightarrow> string \<Rightarrow> MemoryEntry \<Rightarrow> (tables, MemoryEntry) act" where
  "save_memory reg now x = bind_act (lift_act (\<lambda>_. checked_entry reg now x)) put_memory"

definition unquarantine :: "string \<Rightarrow> string \<Rightarrow> (tables, MemoryEntry) act" where
  "unquarantine now entry_id =
     bind_act (get_memory entry_id) (\<lambda>x.
     bind_act (lift_act (\<lambda>_. raise_if (me_review_state x \<noteq> MQuarantined) (ValueError ''entry is not quarantined''))) (\<lambda>_.
     bind_act (lift_act (\<lambda>_. entry_with_updates now (no_entry_updates\<lparr>eu_review_state := Some MDraft\<rparr>) x)) put_memory))"

definition delete_memory :: "string \<Rightarrow> (tables, unit) act" where
  "delete_memory entry_id =
     bind_act (tab_get ''memory_entries'' entry_id) (\<lambda>w.
       case w of None \<Rightarrow> raise_act (MemoryEntryNotFound entry_id) | Some _ \<Rightarrow> tab_delete ''memory_entries'' entry_id)"

text \<open>Two operations of the service above (\<open>memory/service.py\<close>) that are more than a call of the repository.\<close>

definition archive_memory :: "type_registry \<Rightarrow> (nat \<Rightarrow> string) \<Rightarrow> string \<Rightarrow> (tables, MemoryEntry) act" where
  "archive_memory reg clock entry_id =
     bind_act (get_memory entry_id) (\<lambda>x.
     bind_act (lift_act (\<lambda>_. entry_with_updates (clock 0) (no_entry_updates\<lparr>eu_review_state := Some MArchived\<rparr>) x)) (\<lambda>y.
     bind_act (save_memory reg (clock 1) y) (\<lambda>_. ret_act y)))"

definition update_importance :: "type_registry \<Rightarrow> (nat \<Rightarrow> string) \<Rightarrow> pyfloat \<Rightarrow> string \<Rightarrow> (tables, MemoryEntry) act" where
  "update_importance reg clock importance entry_id =
     bind_act (lift_act (\<lambda>_. raise_if (\<not> (float_ge importance (Finite 0) \<and> float_ge (Finite 1) importance))
                 (ValueError ''importance must be between 0.0 and 1.0''))) (\<lambda>_.
     bind_act (get_memory entry_id) (\<lambda>x.
     bind_act (lift_act (\<lambda>_. entry_with_updates (clock 0) (no_entry_updates\<lparr>eu_importance := Some importance\<rparr>) x)) (\<lambda>y.
     bind_act (save_memory reg (clock 1) y) (\<lambda>_. ret_act y))))"

section \<open>Candidates\<close>

definition list_memory_candidates :: "bool \<Rightarrow> (tables, MemoryCandidate list) act" where
  "list_memory_candidates include_reviewed =
     bind_act (repo_list (tab_list ''memory_candidates'') memory_candidate_from_wire
                 (\<lambda>c. include_reviewed \<or> mc_review_state c = CrPending)) (\<lambda>cs.
       ret_act (sort_desc mc_updated_at cs))"

definition get_candidate :: "string \<Rightarrow> (tables, MemoryCandidate) act" where
  "get_candidate candidate_id =
     repo_get (tab_get ''memory_candidates'' candidate_id) memory_candidate_from_wire
       (MemoryCandidateNotFound candidate_id)"

definition save_candidate :: "MemoryCandidate \<Rightarrow> (tables, MemoryCandidate) act" where
  "save_candidate c =
     bind_act (tab_put ''memory_candidates'' (mc_id c) (memory_candidate_to_wire c)) (\<lambda>_. ret_act c)"

definition delete_candidate :: "string \<Rightarrow> (tables, unit) act" where
  "delete_candidate candidate_id =
     bind_act (tab_get ''memory_candidates'' candidate_id) (\<lambda>w.
       case w of None \<Rightarrow> raise_act (MemoryCandidateNotFound candidate_id)
       | Some _ \<Rightarrow> tab_delete ''memory_candidates'' candidate_id)"

text \<open>What a candidate is promoted into.\<close>

datatype MemoryTarget = EntryTarget MemoryEntry | ProfileTarget ProfileItem

fun target_id :: "MemoryTarget \<Rightarrow> string" where
  "target_id (EntryTarget x) = me_id x"
| "target_id (ProfileTarget x) = pi_id x"

definition to_entry_target :: "(tables, MemoryEntry) act \<Rightarrow> (tables, MemoryTarget) act" where
  "to_entry_target m = bind_act m (\<lambda>x. ret_act (EntryTarget x))"

definition to_profile_target :: "(tables, ProfileItem) act \<Rightarrow> (tables, MemoryTarget) act" where
  "to_profile_target m = bind_act m (\<lambda>x. ret_act (ProfileTarget x))"

definition new_target ::
  "(string \<Rightarrow> string) \<Rightarrow> (nat \<Rightarrow> string) \<Rightarrow> string \<Rightarrow> MemoryCandidate \<Rightarrow> MemoryTarget result" where
  "new_target uuid5 clock fresh_id c =
     (if mc_type c = ''profile_fact''
      then Inr (ProfileTarget (profile_from_candidate uuid5 (clock 0) (clock 1) (clock 2) c))
      else bindE (candidate_to_memory_entry fresh_id (clock 1) (clock 2) MDraft c) (\<lambda>x. Inr (EntryTarget x)))"

fun save_new_target :: "type_registry \<Rightarrow> string \<Rightarrow> MemoryTarget \<Rightarrow> (tables, MemoryTarget) act" where
  "save_new_target reg now (EntryTarget x) = to_entry_target (save_memory reg now x)"
| "save_new_target reg now (ProfileTarget x) = to_profile_target (save_profile x)"

text \<open>\<open>reviewed\<close> says that the target review state is \<open>reviewed\<close> rather than \<open>draft\<close>.\<close>

fun promote_target :: "type_registry \<Rightarrow> (nat \<Rightarrow> string) \<Rightarrow> bool \<Rightarrow> MemoryTarget \<Rightarrow> (tables, MemoryTarget) act" where
  "promote_target reg clock reviewed (ProfileTarget x) = ret_act (ProfileTarget x)"
| "promote_target reg clock reviewed (EntryTarget x) =
     (if \<not> reviewed \<or> me_review_state x = MQuarantined then ret_act (EntryTarget x)
      else bind_act (lift_act (\<lambda>_. entry_with_updates (clock 4)
                       (no_entry_updates\<lparr>eu_review_state := Some MReviewed\<rparr>) x)) (\<lambda>y.
           to_entry_target (save_memory reg (clock 5) y)))"

definition get_target :: "MemoryCandidate \<Rightarrow> string \<Rightarrow> (tables, MemoryTarget) act" where
  "get_target c i =
     (if mc_type c = ''profile_fact'' then to_profile_target (get_profile i) else to_entry_target (get_memory i))"

definition delete_target :: "MemoryCandidate \<Rightarrow> (tables, MemoryTarget) act" where
  "delete_target c =
     (let i = or_empty (mc_target_entry_id c) in
      if mc_type c = ''profile_fact''
      then bind_act (get_profile i) (\<lambda>x. bind_act (delete_profile (pi_id x)) (\<lambda>_. ret_act (ProfileTarget x)))
      else bind_act (get_memory i) (\<lambda>x. bind_act (delete_memory i) (\<lambda>_. ret_act (EntryTarget x))))"

text \<open>The constructor is called without a payload, so the merged entry has none.\<close>

definition merged_entry :: "string \<Rightarrow> MemoryCandidate \<Rightarrow> MemoryEntry \<Rightarrow> MemoryEntry" where
  "merged_entry now c x =
     \<lparr>me_type = me_type x, me_title = mc_title c, me_body = mc_body c,
      me_tags = (if mc_tags c \<noteq> [] then mc_tags c else me_tags x), me_source_refs = me_source_refs x @ mc_source_refs c,
      me_confidence = mc_confidence c, me_importance = mc_importance c, me_privacy = me_privacy x,
      me_review_state = MDraft, me_id = me_id x, me_created_at = me_created_at x, me_updated_at = now,
      me_revisit_at = me_revisit_at x, me_observed_at = or_else (mc_observed_at c) (me_observed_at x),
      me_valid_from = or_else (mc_valid_from c) (me_valid_from x),
      me_valid_until = or_else (mc_valid_until c) (me_valid_until x),
      me_temporal_note = (if mc_temporal_note c \<noteq> '''' then mc_temporal_note c else me_temporal_note x),
      me_relations = merge_relations (me_relations x) (mc_relations c), me_evidence = me_evidence x @ mc_evidence c,
      me_payload = []\<rparr>"

definition merge_target ::
  "type_registry \<Rightarrow> (nat \<Rightarrow> string) \<Rightarrow> MemoryCandidate \<Rightarrow> string \<Rightarrow> (tables, MemoryTarget) act" where
  "merge_target reg clock c i =
     (if mc_type c = ''profile_fact'' then to_profile_target (merge_profile (clock 1) c i)
      else bind_act (get_memory i) (\<lambda>x.
           bind_act (save_memory reg (clock 3) (merged_entry (clock 1) c x)) (\<lambda>_.
             ret_act (EntryTarget (merged_entry (clock 1) c x)))))"

definition mark_accepted :: "(nat \<Rightarrow> string) \<Rightarrow> MemoryCandidate \<Rightarrow> string \<Rightarrow> MemoryCandidate" where
  "mark_accepted clock c i =
     candidate_with_updates (clock 6) (clock 7)
       (no_candidate_updates\<lparr>cu_review_state := Some CrAccepted, cu_target_entry_id := Some i\<rparr>) c"

definition check_pending :: "MemoryCandidate \<Rightarrow> (tables, unit) act" where
  "check_pending c = lift_act (\<lambda>_. raise_if (mc_review_state c \<noteq> CrPending) (ValueError ''candidate is already reviewed''))"

text \<open>
  The read and the check that come before the transaction. They are separate steps of the code: another
  writer may change the candidate between them and the transaction, which does not look at it again.
\<close>

definition checked_candidate :: "string \<Rightarrow> (tables, MemoryCandidate) act" where
  "checked_candidate candidate_id =
     bind_act (get_candidate candidate_id) (\<lambda>c. bind_act (check_pending c) (\<lambda>_. ret_act c))"

definition merge_accepted ::
  "type_registry \<Rightarrow> (nat \<Rightarrow> string) \<Rightarrow> bool \<Rightarrow> MemoryCandidate \<Rightarrow> string \<Rightarrow> (tables, MemoryTarget) act" where
  "merge_accepted reg clock reviewed c entry_id =
     bind_act (merge_target reg clock c entry_id) (\<lambda>merged.
     bind_act (promote_target reg clock reviewed merged) (\<lambda>merged.
     bind_act (save_candidate (mark_accepted clock c entry_id)) (\<lambda>_. ret_act merged)))"

definition merge_candidate ::
  "type_registry \<Rightarrow> (nat \<Rightarrow> string) \<Rightarrow> bool \<Rightarrow> string \<Rightarrow> string \<Rightarrow> (tables, MemoryTarget) act" where
  "merge_candidate reg clock reviewed candidate_id entry_id =
     bind_act (checked_candidate candidate_id) (\<lambda>c. atomic_act (merge_accepted reg clock reviewed c entry_id))"

definition delete_accepted :: "(nat \<Rightarrow> string) \<Rightarrow> MemoryCandidate \<Rightarrow> string \<Rightarrow> (tables, MemoryTarget) act" where
  "delete_accepted clock c i =
     bind_act (get_target c i) (\<lambda>x.
     bind_act (delete_target c) (\<lambda>_.
     bind_act (save_candidate (mark_accepted clock c (target_id x))) (\<lambda>_. ret_act x)))"

definition create_accepted ::
  "type_registry \<Rightarrow> (string \<Rightarrow> string) \<Rightarrow> (nat \<Rightarrow> string) \<Rightarrow> string \<Rightarrow> bool \<Rightarrow> MemoryCandidate \<Rightarrow> (tables, MemoryTarget) act" where
  "create_accepted reg uuid5 clock fresh_id reviewed c =
     bind_act (lift_act (\<lambda>_. new_target uuid5 clock fresh_id c)) (\<lambda>x.
     bind_act (save_new_target reg (clock 3) x) (\<lambda>x.
     bind_act (promote_target reg clock reviewed x) (\<lambda>x.
     bind_act (save_candidate (mark_accepted clock c (target_id x))) (\<lambda>_. ret_act x))))"

text \<open>
  \<open>accept\<close> in its steps: the check; for an update or a merge with a target the second check that \<open>merge\<close>
  makes; and the transaction, on the candidate as it was last read.
\<close>

definition rechecked_candidate :: "string \<Rightarrow> MemoryCandidate \<Rightarrow> (tables, MemoryCandidate) act" where
  "rechecked_candidate candidate_id c =
     (if (mc_action c = CaUpdate \<or> mc_action c = CaMerge) \<and> mc_target_entry_id c \<noteq> None
      then checked_candidate candidate_id else ret_act c)"

definition accept_transaction ::
  "type_registry \<Rightarrow> (string \<Rightarrow> string) \<Rightarrow> (nat \<Rightarrow> string) \<Rightarrow> string \<Rightarrow> bool \<Rightarrow> CandidateAction \<Rightarrow> string option
     \<Rightarrow> MemoryCandidate \<Rightarrow> (tables, MemoryTarget) act" where
  "accept_transaction reg uuid5 clock fresh_id reviewed action target c =
     (case action of
        CaDelete \<Rightarrow>
          (case target of
             None \<Rightarrow> raise_act (ValueError ''delete candidate requires target_entry_id'')
           | Some i \<Rightarrow> atomic_act (delete_accepted clock c i))
      | CaCreate \<Rightarrow> atomic_act (create_accepted reg uuid5 clock fresh_id reviewed c)
      | _ \<Rightarrow>
          (case target of
             None \<Rightarrow> raise_act (ValueError ''candidate requires target_entry_id'')
           | Some i \<Rightarrow> atomic_act (merge_accepted reg clock reviewed c i)))"

definition accept_candidate ::
  "type_registry \<Rightarrow> (string \<Rightarrow> string) \<Rightarrow> (nat \<Rightarrow> string) \<Rightarrow> string \<Rightarrow> bool \<Rightarrow> string \<Rightarrow> (tables, MemoryTarget) act" where
  "accept_candidate reg uuid5 clock fresh_id reviewed candidate_id =
     bind_act (checked_candidate candidate_id) (\<lambda>c.
     bind_act (rechecked_candidate candidate_id c) (\<lambda>d.
       accept_transaction reg uuid5 clock fresh_id reviewed (mc_action c) (mc_target_entry_id c) d))"

definition reject_candidate :: "(nat \<Rightarrow> string) \<Rightarrow> string \<Rightarrow> (tables, MemoryCandidate) act" where
  "reject_candidate clock candidate_id =
     bind_act (get_candidate candidate_id) (\<lambda>c.
       save_candidate (candidate_with_updates (clock 0) (clock 1)
         (no_candidate_updates\<lparr>cu_review_state := Some CrRejected\<rparr>) c))"

text \<open>Neither the review state nor the target can be edited.\<close>

definition edit_candidate :: "(nat \<Rightarrow> string) \<Rightarrow> CandidateUpdates \<Rightarrow> string \<Rightarrow> (tables, MemoryCandidate) act" where
  "edit_candidate clock u candidate_id =
     bind_act (get_candidate candidate_id) (\<lambda>c.
       save_candidate (candidate_with_updates (clock 0) (clock 1)
         (u\<lparr>cu_review_state := None, cu_target_entry_id := None\<rparr>) c))"

section \<open>The store as finite maps\<close>

definition entry_view :: "tables \<Rightarrow> string \<Rightarrow> MemoryEntry option" where
  "entry_view t = view entry_from_wire (t ''memory_entries'')"

definition candidate_view :: "tables \<Rightarrow> string \<Rightarrow> MemoryCandidate option" where
  "candidate_view t = view memory_candidate_from_wire (t ''memory_candidates'')"

definition profile_view :: "tables \<Rightarrow> string \<Rightarrow> ProfileItem option" where
  "profile_view t = view profile_from_wire (t ''profile_items'')"

definition memory_stored :: "tables \<Rightarrow> bool" where
  "memory_stored t \<longleftrightarrow> entries.repo_stored ''memory_entries'' t
     \<and> memory_candidates.repo_stored ''memory_candidates'' t \<and> profile_items.repo_stored ''profile_items'' t"

lemma memory_repo [simp]:
  "entries.repo_view ''memory_entries'' t = entry_view t"
  "memory_candidates.repo_view ''memory_candidates'' t = candidate_view t"
  "profile_items.repo_view ''profile_items'' t = profile_view t"
  by (simp_all add: entries.repo_view_def entry_view_def memory_candidates.repo_view_def candidate_view_def
      profile_items.repo_view_def profile_view_def)

lemma entry_view_valid: "memory_stored t \<Longrightarrow> entry_view t i = Some x \<Longrightarrow> entry_valid x \<and> me_id x = i"
  using entries.repo_view_valid [of "''memory_entries''" t i x] by (simp add: memory_stored_def)

lemma candidate_view_valid: "memory_stored t \<Longrightarrow> candidate_view t i = Some c \<Longrightarrow> memory_candidate_valid c \<and> mc_id c = i"
  using memory_candidates.repo_view_valid [of "''memory_candidates''" t i c] by (simp add: memory_stored_def)

lemma profile_view_valid: "memory_stored t \<Longrightarrow> profile_view t i = Some x \<Longrightarrow> profile_valid x \<and> pi_id x = i"
  using profile_items.repo_view_valid [of "''profile_items''" t i x] by (simp add: memory_stored_def)

lemma get_memory_view:
  "memory_stored t \<Longrightarrow> get_memory i t =
    (case entry_view t i of None \<Rightarrow> (Inl (MemoryEntryNotFound i), t) | Some x \<Rightarrow> (Inr x, t))"
  using entries.repo_get_view [of "''memory_entries''" t i] by (simp add: get_memory_def memory_stored_def)

lemma get_candidate_view:
  "memory_stored t \<Longrightarrow> get_candidate i t =
    (case candidate_view t i of None \<Rightarrow> (Inl (MemoryCandidateNotFound i), t) | Some c \<Rightarrow> (Inr c, t))"
  using memory_candidates.repo_get_view [of "''memory_candidates''" t i] by (simp add: get_candidate_def memory_stored_def)

lemma get_profile_view:
  "memory_stored t \<Longrightarrow> get_profile i t =
    (case profile_view t i of None \<Rightarrow> (Inl (ProfileItemNotFound i), t) | Some x \<Rightarrow> (Inr x, t))"
  using profile_items.repo_get_view [of "''profile_items''" t i] by (simp add: get_profile_def memory_stored_def)

text \<open>What the three tables hold, as one value; each write changes one of its components at one key.\<close>

type_synonym memory =
  "(string \<Rightarrow> MemoryEntry option) \<times> (string \<Rightarrow> ProfileItem option) \<times> (string \<Rightarrow> MemoryCandidate option)"

definition memory_view :: "tables \<Rightarrow> memory" where
  "memory_view t = (entry_view t, profile_view t, candidate_view t)"

lemma memory_cong:
  assumes "\<And>c. c \<in> {''memory_entries'', ''memory_candidates'', ''profile_items''} \<Longrightarrow> t' c = t c"
  shows "memory_stored t' = memory_stored t" "memory_view t' = memory_view t"
  using assms by (simp_all add: memory_stored_def memory_view_def entry_view_def candidate_view_def profile_view_def
      entries.repo_stored_def memory_candidates.repo_stored_def profile_items.repo_stored_def)

lemma put_memory_run:
  assumes "memory_stored t" and "entry_valid x"
  obtains t' where "put_memory x t = (Inr x, t')" "memory_stored t'"
    "memory_view t' = ((entry_view t)(me_id x \<mapsto> x), profile_view t, candidate_view t)"
proof -
  obtain t' where t': "tab_put ''memory_entries'' (me_id x) (mem_entry_to_wire x) t = (Inr (), t')"
    "entries.repo_stored ''memory_entries'' t'" "entry_view t' = (entry_view t)(me_id x \<mapsto> x)"
    "\<And>c. c \<noteq> ''memory_entries'' \<Longrightarrow> t' c = t c"
    using entries.repo_put [of "''memory_entries''" t x] assms by (auto simp: memory_stored_def)
  then show ?thesis
    using assms(1) by (intro that [of t'])
      (simp_all add: put_memory_def bind_act_def memory_stored_def memory_view_def candidate_view_def profile_view_def
        memory_candidates.repo_stored_def profile_items.repo_stored_def)
qed

lemma save_candidate_run:
  assumes "memory_stored t" and "memory_candidate_valid c"
  obtains t' where "save_candidate c t = (Inr c, t')" "memory_stored t'"
    "memory_view t' = (entry_view t, profile_view t, (candidate_view t)(mc_id c \<mapsto> c))"
proof -
  obtain t' where t': "tab_put ''memory_candidates'' (mc_id c) (memory_candidate_to_wire c) t = (Inr (), t')"
    "memory_candidates.repo_stored ''memory_candidates'' t'" "candidate_view t' = (candidate_view t)(mc_id c \<mapsto> c)"
    "\<And>n. n \<noteq> ''memory_candidates'' \<Longrightarrow> t' n = t n"
    using memory_candidates.repo_put [of "''memory_candidates''" t c] assms by (auto simp: memory_stored_def)
  then show ?thesis
    using assms(1) by (intro that [of t'])
      (simp_all add: save_candidate_def bind_act_def memory_stored_def memory_view_def entry_view_def profile_view_def
        entries.repo_stored_def profile_items.repo_stored_def)
qed

lemma save_profile_run:
  assumes "memory_stored t" and "profile_valid x"
  obtains t' where "save_profile x t = (Inr x, t')" "memory_stored t'"
    "memory_view t' = (entry_view t, (profile_view t)(pi_id x \<mapsto> x), candidate_view t)"
proof -
  obtain t' where t': "tab_put ''profile_items'' (pi_id x) (profile_to_wire x) t = (Inr (), t')"
    "profile_items.repo_stored ''profile_items'' t'" "profile_view t' = (profile_view t)(pi_id x \<mapsto> x)"
    "\<And>c. c \<noteq> ''profile_items'' \<Longrightarrow> t' c = t c"
    using profile_items.repo_put [of "''profile_items''" t x] assms by (auto simp: memory_stored_def)
  then show ?thesis
    using assms(1) by (intro that [of t'])
      (simp_all add: save_profile_def bind_act_def memory_stored_def memory_view_def entry_view_def candidate_view_def
        memory_candidates.repo_stored_def entries.repo_stored_def)
qed

lemma delete_memory_run:
  assumes "memory_stored t" and "entry_view t i = Some x"
  obtains t' where "delete_memory i t = (Inr (), t')" "memory_stored t'"
    "memory_view t' = ((entry_view t)(i := None), profile_view t, candidate_view t)"
proof -
  have raw: "tab_get ''memory_entries'' i t = (Inr (Some ((''id'', PStr i) # payload_of (mem_entry_to_wire x))), t)"
    using entries.repo_raw_view [of "''memory_entries''" t i] assms by (simp add: memory_stored_def)
  obtain t' where t': "tab_delete ''memory_entries'' i t = (Inr (), t')"
    "entries.repo_stored ''memory_entries'' t'" "entry_view t' = (entry_view t)(i := None)"
    "\<And>c. c \<noteq> ''memory_entries'' \<Longrightarrow> t' c = t c"
    using entries.repo_delete [of "''memory_entries''" t i] assms by (auto simp: memory_stored_def)
  then show ?thesis
    using assms(1) raw by (intro that [of t'])
      (simp_all add: delete_memory_def bind_act_def memory_stored_def memory_view_def candidate_view_def profile_view_def
        memory_candidates.repo_stored_def profile_items.repo_stored_def)
qed

lemma delete_profile_run:
  assumes "memory_stored t" and "profile_view t i = Some x"
  obtains t' where "delete_profile i t = (Inr (), t')" "memory_stored t'"
    "memory_view t' = (entry_view t, (profile_view t)(i := None), candidate_view t)"
proof -
  have raw: "tab_get ''profile_items'' i t = (Inr (Some ((''id'', PStr i) # payload_of (profile_to_wire x))), t)"
    using profile_items.repo_raw_view [of "''profile_items''" t i] assms by (simp add: memory_stored_def)
  obtain t' where t': "tab_delete ''profile_items'' i t = (Inr (), t')"
    "profile_items.repo_stored ''profile_items'' t'" "profile_view t' = (profile_view t)(i := None)"
    "\<And>c. c \<noteq> ''profile_items'' \<Longrightarrow> t' c = t c"
    using profile_items.repo_delete [of "''profile_items''" t i] assms by (auto simp: memory_stored_def)
  then show ?thesis
    using assms(1) raw by (intro that [of t'])
      (simp_all add: delete_profile_def bind_act_def memory_stored_def memory_view_def entry_view_def candidate_view_def
        memory_candidates.repo_stored_def entries.repo_stored_def)
qed

section \<open>What is saved\<close>

text \<open>How an entry is stored: as it is, or quarantined if its type has no descriptor.\<close>

definition quarantined :: "type_registry \<Rightarrow> MemoryEntry \<Rightarrow> bool" where
  "quarantined reg x \<longleftrightarrow> map_of reg (me_type x) = None \<and> me_review_state x = MDraft"

definition stored_form :: "type_registry \<Rightarrow> string \<Rightarrow> MemoryEntry \<Rightarrow> MemoryEntry" where
  "stored_form reg now x =
     (if quarantined reg x then x\<lparr>me_review_state := MQuarantined, me_updated_at := now\<rparr> else x)"

lemma stored_form_id [simp]: "me_id (stored_form reg now x) = me_id x"
  by (simp add: stored_form_def)

lemma stored_form_valid: "entry_valid x \<Longrightarrow> entry_valid (stored_form reg now x)"
  by (simp add: stored_form_def entry_valid_def)

lemma with_review_state:
  "entry_valid x \<Longrightarrow> entry_with_updates now (no_entry_updates\<lparr>eu_review_state := Some s\<rparr>) x =
    Inr (x\<lparr>me_review_state := s, me_updated_at := now\<rparr>)"
  by (cases x) (simp add: entry_with_updates_def no_entry_updates_def given_def given_opt_def entry_valid_def)

lemma checked_entry_form:
  assumes "entry_valid x" and "checked_entry reg now x = Inr y"
  shows "y = stored_form reg now x"
  using assms by (auto simp: checked_entry_def stored_form_def quarantined_def with_review_state result_simps split: if_splits)

lemma save_memory_run:
  assumes t: "memory_stored t" and x: "entry_valid x"
  obtains (refused) e where "checked_entry reg now x = Inl e" "save_memory reg now x t = (Inl e, t)"
  | (saved) t' where "checked_entry reg now x = Inr (stored_form reg now x)"
      "save_memory reg now x t = (Inr (stored_form reg now x), t')" "memory_stored t'"
      "memory_view t' = ((entry_view t)(me_id x \<mapsto> stored_form reg now x), profile_view t, candidate_view t)"
proof (cases "checked_entry reg now x")
  case (Inl e)
  then show ?thesis by (intro refused [of e]) (simp_all add: save_memory_def bind_act_def)
next
  case (Inr y)
  then have y: "y = stored_form reg now x" using checked_entry_form [OF x] by simp
  obtain t' where t': "put_memory y t = (Inr y, t')" "memory_stored t'"
    "memory_view t' = ((entry_view t)(me_id y \<mapsto> y), profile_view t, candidate_view t)"
    using put_memory_run [OF t, of y] stored_form_valid [OF x] y by metis
  with Inr y show ?thesis by (intro saved [of t']) (simp_all add: save_memory_def bind_act_def)
qed

section \<open>Accepting a candidate\<close>

fun target_valid :: "MemoryTarget \<Rightarrow> bool" where
  "target_valid (EntryTarget x) = entry_valid x"
| "target_valid (ProfileTarget x) = profile_valid x"

fun put_target :: "MemoryTarget \<Rightarrow> memory \<Rightarrow> memory" where
  "put_target (EntryTarget x) (es, ps, cs) = (es(me_id x \<mapsto> x), ps, cs)"
| "put_target (ProfileTarget x) (es, ps, cs) = (es, ps(pi_id x \<mapsto> x), cs)"

fun remove_target :: "MemoryTarget \<Rightarrow> memory \<Rightarrow> memory" where
  "remove_target (EntryTarget x) (es, ps, cs) = (es(me_id x := None), ps, cs)"
| "remove_target (ProfileTarget x) (es, ps, cs) = (es, ps(pi_id x := None), cs)"

fun settle :: "MemoryCandidate \<Rightarrow> memory \<Rightarrow> memory" where
  "settle c (es, ps, cs) = (es, ps, cs(mc_id c \<mapsto> c))"

text \<open>How a target is stored; see \<open>stored_form\<close>.\<close>

fun stored_target :: "type_registry \<Rightarrow> string \<Rightarrow> MemoryTarget \<Rightarrow> MemoryTarget" where
  "stored_target reg now (EntryTarget x) = EntryTarget (stored_form reg now x)"
| "stored_target reg now (ProfileTarget x) = ProfileTarget x"

fun same_slot :: "MemoryTarget \<Rightarrow> MemoryTarget \<Rightarrow> bool" where
  "same_slot (EntryTarget x) (EntryTarget y) = (me_id x = me_id y)"
| "same_slot (ProfileTarget x) (ProfileTarget y) = (pi_id x = pi_id y)"
| "same_slot _ _ = False"

lemma same_slot_refl [simp]: "same_slot x x"
  by (cases x) simp_all

lemma same_slot_stored [simp]: "same_slot (stored_target reg now x) x"
  by (cases x) simp_all

lemma same_slot_id: "same_slot x y \<Longrightarrow> target_id x = target_id y"
  by (cases "(x, y)" rule: same_slot.cases) simp_all

lemma same_slot_trans: "same_slot x y \<Longrightarrow> same_slot y z \<Longrightarrow> same_slot x z"
  by (cases x; cases y; cases z) simp_all

lemma put_target_twice: "same_slot x y \<Longrightarrow> put_target x (put_target y m) = put_target x m"
  by (cases m; cases "(x, y)" rule: same_slot.cases) simp_all

lemma save_target_run:
  assumes "memory_stored t" and "target_valid x"
  obtains (refused) e where "save_new_target reg now x t = (Inl e, t)"
  | (saved) t' where "save_new_target reg now x t = (Inr (stored_target reg now x), t')" "memory_stored t'"
      "memory_view t' = put_target (stored_target reg now x) (memory_view t)"
proof (cases x)
  case (EntryTarget y)
  with assms have "entry_valid y" by simp
  from save_memory_run [OF assms(1) this, of reg now] show ?thesis
    using EntryTarget refused saved by cases (simp_all add: to_entry_target_def bind_act_def memory_view_def)
next
  case (ProfileTarget p)
  with assms have "profile_valid p" by simp
  then obtain t' where "save_profile p t = (Inr p, t')" "memory_stored t'"
    "memory_view t' = (entry_view t, (profile_view t)(pi_id p \<mapsto> p), candidate_view t)"
    by (rule save_profile_run [OF assms(1)])
  with ProfileTarget show ?thesis
    by (intro saved [of t']) (simp_all add: to_profile_target_def bind_act_def memory_view_def)
qed

text \<open>\<open>y\<close> is what is stored for \<open>x\<close>; promotion stores the reviewed entry in its place.\<close>

lemma promote_target_run:
  assumes t: "memory_stored t" and x: "target_valid x" and y: "same_slot y x" "memory_view t = put_target y m"
  obtains (refused) e where "promote_target reg clock reviewed x t = (Inl e, t)"
  | (kept) "promote_target reg clock reviewed x t = (Inr x, t)"
  | (promoted) x' t' where "promote_target reg clock reviewed x t = (Inr x', t')" "memory_stored t'" "same_slot x' x"
      "memory_view t' = put_target x' m"
proof (cases x)
  case (ProfileTarget p)
  then show ?thesis by (intro kept) simp
next
  case (EntryTarget z)
  show ?thesis
  proof (cases "\<not> reviewed \<or> me_review_state z = MQuarantined")
    case True
    with EntryTarget show ?thesis by (intro kept) simp
  next
    case False
    let ?z = "z\<lparr>me_review_state := MReviewed, me_updated_at := clock 4\<rparr>"
    have z: "entry_valid z" "entry_valid ?z" using x EntryTarget by (simp_all add: entry_valid_def)
    have run: "promote_target reg clock reviewed x t = save_new_target reg (clock 5) (EntryTarget ?z) t"
      using False EntryTarget with_review_state [OF z(1), of "clock 4" MReviewed] by (simp add: bind_act_def)
    have slot: "same_slot (stored_target reg (clock 5) (EntryTarget ?z)) y"
      using y(1) EntryTarget by (cases y) simp_all
    have "target_valid (EntryTarget ?z)" using z(2) by simp
    with t show ?thesis
    proof (cases rule: save_target_run [where reg = reg and now = "clock 5"])
      case (refused e)
      with run show ?thesis by (intro that(1)) simp
    next
      case (saved t')
      with run slot y(2) EntryTarget show ?thesis
        by (intro promoted [of "stored_target reg (clock 5) (EntryTarget ?z)" t'])
          (simp_all add: put_target_twice del: stored_target.simps add: same_slot_trans [OF same_slot_stored])
    qed
  qed
qed

lemma mark_accepted_valid:
  "memory_candidate_valid c \<Longrightarrow> memory_candidate_valid (mark_accepted clock c i) \<and> mc_id (mark_accepted clock c i) = mc_id c"
  by (simp add: memory_candidate_valid_def mark_accepted_def candidate_with_updates_def no_candidate_updates_def given_def)

lemma settle_run:
  assumes "memory_stored t" and "memory_candidate_valid c"
  obtains t' where "save_candidate (mark_accepted clock c i) t = (Inr (mark_accepted clock c i), t')" "memory_stored t'"
    "memory_view t' = settle (mark_accepted clock c i) (memory_view t)"
  using save_candidate_run [OF assms(1) conjunct1 [OF mark_accepted_valid [OF assms(2)]], of clock i]
  by (auto simp: memory_view_def)

text \<open>
  The common end of creation and merge: \<open>x\<close> is returned and \<open>y\<close> is stored, for one and the same slot.
\<close>

definition settled ::
  "(nat \<Rightarrow> string) \<Rightarrow> MemoryCandidate \<Rightarrow> MemoryTarget \<Rightarrow> MemoryTarget \<Rightarrow> tables \<Rightarrow> tables \<Rightarrow> bool" where
  "settled clock c x y t t' \<longleftrightarrow> memory_stored t' \<and> same_slot y x
     \<and> memory_view t' = settle (mark_accepted clock c (target_id x)) (put_target y (memory_view t))"

lemma promote_and_settle:
  assumes t: "memory_stored u" and x: "target_valid x" and y: "same_slot y x" "memory_view u = put_target y (memory_view t)"
    and c: "memory_candidate_valid c"
    and run: "bind_act (promote_target reg clock reviewed x) (\<lambda>x'.
      bind_act (save_candidate (mark_accepted clock c (f x'))) (\<lambda>_. ret_act x')) u = (Inr x', t')"
    and f: "\<And>z. same_slot z x \<Longrightarrow> f z = target_id z"
  shows "same_slot x' x \<and> (x' = x \<and> settled clock c x y t t' \<or> settled clock c x' x' t t')"
  using t x y
proof (cases rule: promote_target_run [where reg = reg and clock = clock and reviewed = reviewed])
  case (refused e)
  with run show ?thesis by (simp add: bind_act_def)
next
  case kept
  obtain w where w: "save_candidate (mark_accepted clock c (f x)) u = (Inr (mark_accepted clock c (f x)), w)" "memory_stored w"
    "memory_view w = settle (mark_accepted clock c (f x)) (memory_view u)"
    by (rule settle_run [OF t c])
  with run kept f [of x] y show ?thesis by (simp add: bind_act_def settled_def)
next
  case (promoted z u')
  obtain w where w: "save_candidate (mark_accepted clock c (f z)) u' = (Inr (mark_accepted clock c (f z)), w)" "memory_stored w"
    "memory_view w = settle (mark_accepted clock c (f z)) (memory_view u')"
    by (rule settle_run [OF promoted(2) c])
  with run promoted f [of z] show ?thesis by (simp add: bind_act_def settled_def)
qed

lemma new_target_valid:
  assumes "new_target uuid5 clock fresh_id c = Inr x" and "memory_candidate_valid c" and "fresh_id \<noteq> ''''"
  shows "target_valid x"
proof (cases "mc_type c = ''profile_fact''")
  case True
  with assms profile_from_candidate_valid show ?thesis by (auto simp: new_target_def memory_candidate_valid_def)
next
  case False
  with assms show ?thesis
    by (auto simp: new_target_def candidate_to_memory_entry_def result_simps entry_valid_def memory_candidate_valid_def)
qed

lemma merged_entry_valid: "entry_valid x \<Longrightarrow> memory_candidate_valid c \<Longrightarrow> entry_valid (merged_entry now c x)"
  by (simp add: entry_valid_def memory_candidate_valid_def merged_entry_def)

lemma create_run:
  assumes t: "memory_stored t" and c: "memory_candidate_valid c" and id: "fresh_id \<noteq> ''''"
    and run: "create_accepted reg uuid5 clock fresh_id reviewed c t = (Inr x, t')"
  shows "settled clock c x x t t' \<and> (\<exists>x0. new_target uuid5 clock fresh_id c = Inr x0 \<and> same_slot x x0)"
proof -
  obtain x0 where x0: "new_target uuid5 clock fresh_id c = Inr x0"
    using run by (auto simp: create_accepted_def result_simps)
  have v: "target_valid x0" by (rule new_target_valid [OF x0 c id])
  let ?rest = "\<lambda>x. bind_act (promote_target reg clock reviewed x) (\<lambda>x.
      bind_act (save_candidate (mark_accepted clock c (target_id x))) (\<lambda>_. ret_act x))"
  have run': "bind_act (save_new_target reg (clock 3) x0) ?rest t = (Inr x, t')"
    using run x0 by (simp add: create_accepted_def bind_act_def)
  from t v show ?thesis
  proof (cases rule: save_target_run [where reg = reg and now = "clock 3"])
    case (refused e)
    with run' show ?thesis by (simp add: bind_act_def)
  next
    case (saved u)
    let ?y = "stored_target reg (clock 3) x0"
    have y: "target_valid ?y" using v by (cases x0) (simp_all add: stored_form_valid)
    have rest: "?rest ?y u = (Inr x, t')" using run' saved(1) by (simp add: bind_act_def)
    have "settled clock c x x t t' \<and> same_slot x ?y"
      using promote_and_settle [OF saved(2) y same_slot_refl saved(3) c rest same_slot_id] by auto
    with x0 show ?thesis using same_slot_trans [OF _ same_slot_stored] by blast
  qed
qed

lemma merge_target_run:
  assumes t: "memory_stored t" and c: "memory_candidate_valid c"
    and run: "merge_target reg clock c i t = (Inr x, u)"
  shows "memory_stored u \<and> target_valid x \<and> target_id x = i
    \<and> memory_view u = put_target (stored_target reg (clock 3) x) (memory_view t)"
proof (cases "mc_type c = ''profile_fact''")
  case True
  with run t obtain p where p: "profile_view t i = Some p" "x = ProfileTarget (merged_profile (clock 1) c p)"
    and put: "save_profile (merged_profile (clock 1) c p) t = (Inr (merged_profile (clock 1) c p), u)"
    by (auto simp: merge_target_def to_profile_target_def merge_profile_def result_simps get_profile_view save_profile_def
        split: option.splits)
  have v: "profile_valid p" "pi_id p = i" using profile_view_valid [OF t p(1)] by simp_all
  then have "profile_valid (merged_profile (clock 1) c p)"
    using c by (simp add: merged_profile_valid memory_candidate_valid_def)
  then obtain t' where "save_profile (merged_profile (clock 1) c p) t = (Inr (merged_profile (clock 1) c p), t')"
    "memory_stored t'" "memory_view t' = (entry_view t, (profile_view t)(pi_id (merged_profile (clock 1) c p) \<mapsto>
      merged_profile (clock 1) c p), candidate_view t)"
    by (rule save_profile_run [OF t])
  with put p(2) v \<open>profile_valid (merged_profile (clock 1) c p)\<close> show ?thesis
    by (simp add: memory_view_def) (simp add: merged_profile_def)
next
  case False
  with run t obtain z where z: "entry_view t i = Some z" "x = EntryTarget (merged_entry (clock 1) c z)"
    and put: "\<exists>y. save_memory reg (clock 3) (merged_entry (clock 1) c z) t = (Inr y, u)"
    by (auto simp: merge_target_def result_simps get_memory_view split: option.splits)
  have v: "entry_valid z" "me_id z = i" using entry_view_valid [OF t z(1)] by simp_all
  have m: "entry_valid (merged_entry (clock 1) c z)" "me_id (merged_entry (clock 1) c z) = i"
    using merged_entry_valid [OF v(1) c] v(2) by (simp_all add: merged_entry_def)
  from t m(1) show ?thesis
  proof (cases rule: save_memory_run [where reg = reg and now = "clock 3"])
    case (saved t')
    with put z(2) m show ?thesis by (simp add: memory_view_def)
  qed (use put in simp)
qed

lemma merge_run:
  assumes t: "memory_stored t" and cv: "memory_candidate_valid c"
    and run: "merge_accepted reg clock reviewed c i t = (Inr x, t')"
  shows "\<exists>y. settled clock c x y t t' \<and> target_id x = i \<and> (y = x \<or> y = stored_target reg (clock 3) x)"
proof -
  let ?rest = "\<lambda>x. bind_act (promote_target reg clock reviewed x) (\<lambda>x.
      bind_act (save_candidate (mark_accepted clock c i)) (\<lambda>_. ret_act x))"
  from run obtain x0 u where x0: "merge_target reg clock c i t = (Inr x0, u)" and rest: "?rest x0 u = (Inr x, t')"
    by (auto simp: merge_accepted_def result_simps)
  have m: "memory_stored u" "target_valid x0" "target_id x0 = i"
    "memory_view u = put_target (stored_target reg (clock 3) x0) (memory_view t)"
    using merge_target_run [OF t cv x0] by simp_all
  have ids: "same_slot z x0 \<Longrightarrow> i = target_id z" for z using same_slot_id m(3) by metis
  from promote_and_settle [OF m(1) m(2) same_slot_stored m(4) cv rest ids] show ?thesis
    using same_slot_id m(3) by metis
qed

definition target_in :: "MemoryTarget \<Rightarrow> memory \<Rightarrow> bool" where
  "target_in x m = (case x of EntryTarget z \<Rightarrow> fst m (me_id z) = Some z | ProfileTarget p \<Rightarrow> fst (snd m) (pi_id p) = Some p)"

lemma delete_accepted_run:
  assumes t: "memory_stored t" and c: "memory_candidate_valid c" and i: "mc_target_entry_id c = Some i"
    and run: "delete_accepted clock c i t = (Inr x, t')"
  shows "memory_stored t' \<and> target_in x (memory_view t) \<and> target_id x = i
    \<and> memory_view t' = settle (mark_accepted clock c i) (remove_target x (memory_view t))"
proof -
  from run obtain u where u: "get_target c i t = (Inr x, t)" "\<exists>y. delete_target c t = (Inr y, u)"
    "\<exists>d. save_candidate (mark_accepted clock c (target_id x)) u = (Inr d, t')"
    using t by (cases "mc_type c = ''profile_fact''")
      (auto simp: delete_accepted_def result_simps get_target_def to_profile_target_def to_entry_target_def
        get_profile_view get_memory_view split: option.splits)
  have d: "memory_stored u \<and> target_in x (memory_view t) \<and> target_id x = i \<and> memory_view u = remove_target x (memory_view t)"
  proof (cases "mc_type c = ''profile_fact''")
    case True
    with u(1) t obtain p where p: "profile_view t i = Some p" "x = ProfileTarget p"
      by (auto simp: get_target_def to_profile_target_def result_simps get_profile_view split: option.splits)
    obtain t'' where d: "delete_profile i t = (Inr (), t'')" "memory_stored t''"
      "memory_view t'' = (entry_view t, (profile_view t)(i := None), candidate_view t)"
      by (rule delete_profile_run [OF t p(1)])
    with p profile_view_valid [OF t p(1)] u(2) True i t show ?thesis
      by (auto simp: delete_target_def or_empty_def result_simps get_profile_view target_in_def memory_view_def Let_def)
  next
    case False
    with u(1) t obtain z where z: "entry_view t i = Some z" "x = EntryTarget z"
      by (auto simp: get_target_def to_entry_target_def result_simps get_memory_view split: option.splits)
    obtain t'' where d: "delete_memory i t = (Inr (), t'')" "memory_stored t''"
      "memory_view t'' = ((entry_view t)(i := None), profile_view t, candidate_view t)"
      by (rule delete_memory_run [OF t z(1)])
    with z entry_view_valid [OF t z(1)] u(2) False i t show ?thesis
      by (auto simp: delete_target_def or_empty_def result_simps get_memory_view target_in_def memory_view_def Let_def)
  qed
  then have "memory_stored u" by simp
  then obtain w where "save_candidate (mark_accepted clock c i) u = (Inr (mark_accepted clock c i), w)" "memory_stored w"
    "memory_view w = settle (mark_accepted clock c i) (memory_view u)"
    by (rule settle_run [OF _ c])
  with d u(3) show ?thesis by simp
qed

text \<open>Acceptance runs its writes in a transaction, and raises before it or inside it.\<close>

lemma get_candidate_same: "get_candidate i t = (r, t') \<Longrightarrow> t' = t"
  by (auto simp: get_candidate_def repo_get_def bind_act_def tab_get_def split: sum.splits option.splits)

lemma checked_candidate_view:
  "memory_stored t \<Longrightarrow> checked_candidate i t =
     (case candidate_view t i of None \<Rightarrow> (Inl (MemoryCandidateNotFound i), t)
      | Some c \<Rightarrow> if mc_review_state c = CrPending then (Inr c, t) else (Inl (ValueError ''candidate is already reviewed''), t))"
  by (simp add: checked_candidate_def get_candidate_view check_pending_def result_simps split: option.splits)

lemma checked_candidate_same: "checked_candidate i t = (r, t') \<Longrightarrow> t' = t"
  by (auto simp: checked_candidate_def check_pending_def bind_act_def lift_act_def ret_act_def dest: get_candidate_same
      split: prod.splits sum.splits)

lemma checked_candidateD:
  "memory_stored t \<Longrightarrow> checked_candidate i t = (Inr c, t') \<Longrightarrow>
     t' = t \<and> candidate_view t i = Some c \<and> mc_review_state c = CrPending \<and> memory_candidate_valid c \<and> mc_id c = i"
  using candidate_view_valid by (auto simp: checked_candidate_view split: option.splits if_splits)

lemma rechecked_candidateD:
  assumes "memory_stored t" and "rechecked_candidate i c t = (Inr d, t')"
    and "mc_review_state c = CrPending \<and> memory_candidate_valid c \<and> mc_id c = i"
  shows "t' = t \<and> (d = c \<or> candidate_view t i = Some d) \<and> mc_review_state d = CrPending \<and> memory_candidate_valid d \<and> mc_id d = i"
  using assms checked_candidateD [OF assms(1)]
  by (auto simp: rechecked_candidate_def result_simps split: if_splits)

lemma accept_transaction_atomic:
  "accept_transaction reg uuid5 clock fresh_id reviewed action target c t = (Inl e, t') \<Longrightarrow> t' = t"
  by (auto simp: accept_transaction_def result_simps split: CandidateAction.splits option.splits)

lemma accept_candidate_atomic: "accept_candidate reg uuid5 clock fresh_id reviewed i t = (Inl e, t') \<Longrightarrow> t' = t"
  by (auto simp: accept_candidate_def rechecked_candidate_def result_simps dest: checked_candidate_same accept_transaction_atomic
      split: if_splits)

lemma accept_reviewed:
  assumes "memory_stored t" and "candidate_view t i = Some c" and "mc_review_state c \<noteq> CrPending"
  shows "accept_candidate reg uuid5 clock fresh_id reviewed i t = (Inl (ValueError ''candidate is already reviewed''), t)"
  using assms by (simp add: accept_candidate_def checked_candidate_view bind_act_def)

lemma accept_pending:
  assumes "memory_stored t" and "candidate_view t i = Some c" and "mc_review_state c = CrPending"
  shows "accept_candidate reg uuid5 clock fresh_id reviewed i t =
    accept_transaction reg uuid5 clock fresh_id reviewed (mc_action c) (mc_target_entry_id c) c t"
  using assms by (simp add: accept_candidate_def rechecked_candidate_def checked_candidate_view bind_act_def)

text \<open>
  The outcome of an acceptance, by the action and the target of the candidate when it was checked, from the
  candidate as it was last read.
\<close>

definition accepted_by ::
  "type_registry \<Rightarrow> (string \<Rightarrow> string) \<Rightarrow> (nat \<Rightarrow> string) \<Rightarrow> string \<Rightarrow> CandidateAction \<Rightarrow> string option \<Rightarrow> MemoryCandidate
     \<Rightarrow> MemoryTarget \<Rightarrow> memory \<Rightarrow> memory \<Rightarrow> bool" where
  "accepted_by reg uuid5 clock fresh_id action target c x m m' \<longleftrightarrow>
     (case action of
        CaDelete \<Rightarrow> target_in x m \<and> target = Some (target_id x)
          \<and> m' = settle (mark_accepted clock c (target_id x)) (remove_target x m)
      | CaCreate \<Rightarrow> m' = settle (mark_accepted clock c (target_id x)) (put_target x m)
          \<and> (\<exists>x0. new_target uuid5 clock fresh_id c = Inr x0 \<and> same_slot x x0)
      | _ \<Rightarrow> target = Some (target_id x)
          \<and> (m' = settle (mark_accepted clock c (target_id x)) (put_target x m)
             \<or> m' = settle (mark_accepted clock c (target_id x)) (put_target (stored_target reg (clock 3) x) m)))"

definition accepted_as ::
  "type_registry \<Rightarrow> (string \<Rightarrow> string) \<Rightarrow> (nat \<Rightarrow> string) \<Rightarrow> string \<Rightarrow> MemoryCandidate \<Rightarrow> MemoryTarget \<Rightarrow> memory \<Rightarrow> memory \<Rightarrow> bool" where
  "accepted_as reg uuid5 clock fresh_id c = accepted_by reg uuid5 clock fresh_id (mc_action c) (mc_target_entry_id c) c"

lemma accept_transaction_outcome:
  assumes t: "memory_stored t" and id: "fresh_id \<noteq> ''''" and cv: "memory_candidate_valid c"
    and target: "action = CaDelete \<longrightarrow> target = mc_target_entry_id c"
    and run: "accept_transaction reg uuid5 clock fresh_id reviewed action target c t = (Inr x, t')"
  shows "memory_stored t' \<and> accepted_by reg uuid5 clock fresh_id action target c x (memory_view t) (memory_view t')"
proof (cases action)
  case CaCreate
  with run have "create_accepted reg uuid5 clock fresh_id reviewed c t = (Inr x, t')"
    by (auto simp: accept_transaction_def result_simps)
  from create_run [OF t cv id this] CaCreate show ?thesis by (auto simp: settled_def accepted_by_def)
next
  case CaDelete
  with run target obtain j where j: "mc_target_entry_id c = Some j" "target = Some j" "delete_accepted clock c j t = (Inr x, t')"
    by (auto simp: accept_transaction_def result_simps split: option.splits)
  from delete_accepted_run [OF t cv j(1,3)] j(2) CaDelete show ?thesis by (auto simp: accepted_by_def)
next
  case CaUpdate
  with run obtain j where j: "target = Some j" "merge_accepted reg clock reviewed c j t = (Inr x, t')"
    by (auto simp: accept_transaction_def result_simps split: option.splits)
  from merge_run [OF t cv j(2)] j(1) CaUpdate show ?thesis by (auto simp: settled_def accepted_by_def)
next
  case CaMerge
  with run obtain j where j: "target = Some j" "merge_accepted reg clock reviewed c j t = (Inr x, t')"
    by (auto simp: accept_transaction_def result_simps split: option.splits)
  from merge_run [OF t cv j(2)] j(1) CaMerge show ?thesis by (auto simp: settled_def accepted_by_def)
qed

lemma accept_outcome:
  assumes t: "memory_stored t" and id: "fresh_id \<noteq> ''''"
    and run: "accept_candidate reg uuid5 clock fresh_id reviewed i t = (Inr x, t')"
  shows "\<exists>c. candidate_view t i = Some c \<and> mc_review_state c = CrPending \<and> memory_stored t'
    \<and> accepted_as reg uuid5 clock fresh_id c x (memory_view t) (memory_view t')"
proof -
  from run t obtain c where c: "candidate_view t i = Some c" and pending: "mc_review_state c = CrPending"
    by (auto simp: accept_candidate_def checked_candidate_view bind_act_def split: option.splits if_splits)
  have cv: "memory_candidate_valid c" using candidate_view_valid [OF t c] by simp
  from run have "accept_transaction reg uuid5 clock fresh_id reviewed (mc_action c) (mc_target_entry_id c) c t = (Inr x, t')"
    by (simp add: accept_pending [OF t c pending])
  with accept_transaction_outcome [OF t id cv _ this] c pending show ?thesis by (auto simp: accepted_as_def)
qed

lemma candidate_settled:
  assumes "memory_view t' = settle (mark_accepted clock c i) m" and "mc_id c = k"
  shows "candidate_view t' k = Some (mark_accepted clock c i)"
  using assms by (cases m) (auto simp: memory_view_def mark_accepted_def candidate_with_updates_def)

lemma accepted_by_settled:
  assumes "accepted_by reg uuid5 clock fresh_id action target c x m m'"
  shows "\<exists>m0. m' = settle (mark_accepted clock c (target_id x)) m0"
  using assms by (cases action) (auto simp: accepted_by_def simp del: split_paired_Ex)

text \<open>Rejection does not look at the state: an accepted candidate is rejected, while its entry stays.\<close>

lemma reject_run:
  assumes "memory_stored t" and "candidate_view t i = Some c"
  obtains t' where "reject_candidate clock i t = (Inr (candidate_with_updates (clock 0) (clock 1)
      (no_candidate_updates\<lparr>cu_review_state := Some CrRejected\<rparr>) c), t')"
    "memory_view t' = settle (candidate_with_updates (clock 0) (clock 1)
      (no_candidate_updates\<lparr>cu_review_state := Some CrRejected\<rparr>) c) (memory_view t)"
proof -
  let ?c = "candidate_with_updates (clock 0) (clock 1) (no_candidate_updates\<lparr>cu_review_state := Some CrRejected\<rparr>) c"
  have "memory_candidate_valid ?c"
    using candidate_view_valid [OF assms] by (auto simp: memory_candidate_valid_def candidate_with_updates_def
        no_candidate_updates_def given_def)
  from save_candidate_run [OF assms(1) this] obtain t' where "save_candidate ?c t = (Inr ?c, t')"
    "memory_view t' = (entry_view t, profile_view t, (candidate_view t)(mc_id ?c \<mapsto> ?c))" by metis
  with assms show ?thesis
    by (intro that [of t']) (simp_all add: reject_candidate_def bind_act_def get_candidate_view memory_view_def)
qed

lemma rejection_overrides:
  assumes "memory_stored t" and "candidate_view t i = Some c"
  shows "\<exists>c' t'. reject_candidate clock i t = (Inr c', t') \<and> mc_review_state c' = CrRejected \<and> candidate_view t' i = Some c'"
proof -
  let ?c = "candidate_with_updates (clock 0) (clock 1) (no_candidate_updates\<lparr>cu_review_state := Some CrRejected\<rparr>) c"
  have "mc_review_state ?c = CrRejected" "mc_id ?c = i"
    using candidate_view_valid [OF assms] by (auto simp: candidate_with_updates_def no_candidate_updates_def given_def)
  moreover obtain t' where "reject_candidate clock i t = (Inr ?c, t')" "memory_view t' = settle ?c (memory_view t)"
    by (rule reject_run [OF assms])
  ultimately show ?thesis by (auto simp: memory_view_def)
qed

lemma mark_accepted_state [simp]: "mc_review_state (mark_accepted clock c i) = CrAccepted"
  by (simp add: mark_accepted_def candidate_with_updates_def given_def)

text \<open>
  C7: An acceptance whose check, second check and transaction find the store in any three states (other
  writers may come between them) either raises and changes nothing, or settles the candidate as it was last
  read, when it was pending: a created entry or profile item is stored under its new identifier, an updated
  or merged one in the place of its target, a deleted one is removed; the candidate is marked accepted with
  that target, and no other entry, profile item or candidate changes. Every acceptance that is checked in the
  state after it is refused; a rejection there is not, and marks the candidate rejected.
\<close>

theorem accept_settles:
  assumes "memory_stored t0" and "checked_candidate i t0 = (Inr c, u0)"
    and "memory_stored t1" and "rechecked_candidate i c t1 = (Inr d, u1)"
    and "memory_stored t" and "fresh_id \<noteq> ''''"
    and "accept_transaction reg uuid5 clock fresh_id reviewed (mc_action c) (mc_target_entry_id c) d t = (r, t')"
  shows "u0 = t0 \<and> candidate_view t0 i = Some c \<and> mc_review_state c = CrPending
    \<and> u1 = t1 \<and> (d = c \<or> candidate_view t1 i = Some d) \<and> mc_review_state d = CrPending
    \<and> (case r of
      Inl e \<Rightarrow> t' = t
    | Inr x \<Rightarrow> memory_stored t'
        \<and> accepted_by reg uuid5 clock fresh_id (mc_action c) (mc_target_entry_id c) d x (memory_view t) (memory_view t')
        \<and> accept_candidate reg' uuid5' clock' fresh_id' reviewed' i t' =
            (Inl (ValueError ''candidate is already reviewed''), t')
        \<and> (\<exists>c' t''. reject_candidate clock' i t' = (Inr c', t'') \<and> mc_review_state c' = CrRejected
            \<and> candidate_view t'' i = Some c'))"
proof -
  note first = checked_candidateD [OF assms(1,2)]
  note second = rechecked_candidateD [OF assms(3,4)]
  have d: "u1 = t1" "d = c \<or> candidate_view t1 i = Some d" "mc_review_state d = CrPending" "memory_candidate_valid d" "mc_id d = i"
    using second first by simp_all
  have del: "mc_action c = CaDelete \<longrightarrow> d = c"
    using assms(4) by (auto simp: rechecked_candidate_def result_simps)
  show ?thesis
  proof (cases r)
    case (Inl e)
    with assms(7) accept_transaction_atomic first d show ?thesis by auto
  next
    case (Inr x)
    with accept_transaction_outcome [OF assms(5,6) d(4) _ assms(7) [unfolded Inr]] del
    have t': "memory_stored t'"
      "accepted_by reg uuid5 clock fresh_id (mc_action c) (mc_target_entry_id c) d x (memory_view t) (memory_view t')" by auto
    obtain m where "memory_view t' = settle (mark_accepted clock d (target_id x)) m"
      using accepted_by_settled [OF t'(2)] by blast
    then have now: "candidate_view t' i = Some (mark_accepted clock d (target_id x))"
      by (rule candidate_settled) (rule d(5))
    with accept_reviewed [OF t'(1)] rejection_overrides [OF t'(1) now] first d t' Inr show ?thesis by simp
  qed
qed

definition sample_memory_candidate :: MemoryCandidate where
  "sample_memory_candidate =
     \<lparr>mc_type = ''goal'', mc_title = ''Ship'', mc_body = ''Finish'', mc_action = CaCreate, mc_tags = [], mc_source_refs = [],
      mc_confidence = Finite 1, mc_importance = Finite 1, mc_privacy = PlPrivate, mc_review_state = CrPending,
      mc_reason = '''', mc_id = ''c1'', mc_created_at = ''1'', mc_updated_at = ''1'', mc_reviewed_at = None,
      mc_target_entry_id = None, mc_observed_at = None, mc_valid_from = None, mc_valid_until = None,
      mc_temporal_note = '''', mc_relations = [], mc_evidence = []\<rparr>"

definition sample_memory_tables :: tables where
  "sample_memory_tables = (\<lambda>_. [])(''memory_candidates'' := [(''c1'', payload_of (memory_candidate_to_wire sample_memory_candidate))])"

lemma sample_memory_stored: "memory_stored sample_memory_tables"
proof -
  have "memory_candidate_valid sample_memory_candidate" by (simp add: memory_candidate_valid_def sample_memory_candidate_def)
  then have "memory_candidates.repo_stored ''memory_candidates'' sample_memory_tables"
    by (auto simp: memory_candidates.repo_stored_def sample_memory_tables_def stored_ok_def rows_ok_def sample_memory_candidate_def)
  then show ?thesis by (simp add: memory_stored_def sample_memory_tables_def)
qed

lemma sample_memory_candidate_view: "candidate_view sample_memory_tables ''c1'' = Some sample_memory_candidate"
proof -
  have "mc_id sample_memory_candidate = ''c1''" by (simp add: sample_memory_candidate_def)
  with memory_candidate_reload [of sample_memory_candidate] show ?thesis
    by (simp add: candidate_view_def sample_memory_tables_def view_def load_def coll_get_def)
qed

definition sample_registry :: type_registry where
  "sample_registry = [(''goal'', EntryPayloadDescriptor ''goal'' ''a desired future state'' (Finite 1))]"

lemma goal_checked:
  "new_target (\<lambda>s. s) (\<lambda>n. ''2'') ''m1'' sample_memory_candidate = Inr (EntryTarget x) \<Longrightarrow> checked_entry sample_registry ''2'' x = Inr x"
  by (auto simp: new_target_def sample_memory_candidate_def candidate_to_memory_entry_def checked_entry_def sample_registry_def
      entry_to_object_def make_object_def dict_update_def entry_object_payload_def evidence_obj_def registry_validate_def
      validate_entry_payload_def issue_if_def text_missing_def get_or_def dict_get_def not_strings_def not_text_or_none_def
      relation_issues_def legacy_fields_def confidence_issues_def float_lt_def less_pyfloat_def strip_def py_space_def)

lemma sample_accepted:
  "\<exists>x t'. accept_candidate sample_registry (\<lambda>s. s) (\<lambda>n. ''2'') ''m1'' False ''c1'' sample_memory_tables = (Inr (EntryTarget x), t')"
proof -
  let ?t = sample_memory_tables
  obtain x where x: "new_target (\<lambda>s. s) (\<lambda>n. ''2'') ''m1'' sample_memory_candidate = Inr (EntryTarget x)"
    by (simp add: new_target_def sample_memory_candidate_def candidate_to_memory_entry_def)
  have cv: "memory_candidate_valid sample_memory_candidate" by (simp add: memory_candidate_valid_def sample_memory_candidate_def)
  have v: "entry_valid x" using new_target_valid [OF x cv] by simp
  have form: "stored_form sample_registry ''2'' x = x"
    using x by (auto simp: stored_form_def quarantined_def new_target_def sample_memory_candidate_def candidate_to_memory_entry_def
        sample_registry_def)
  from sample_memory_stored v obtain u where u: "save_memory sample_registry ''2'' x ?t = (Inr x, u)" "memory_stored u"
    by (cases rule: save_memory_run [where reg = sample_registry and now = "''2''"]) (auto simp: goal_checked [OF x] form)
  obtain w where "save_candidate (mark_accepted (\<lambda>n. ''2'') sample_memory_candidate (me_id x)) u =
      (Inr (mark_accepted (\<lambda>n. ''2'') sample_memory_candidate (me_id x)), w)"
    by (rule settle_run [OF u(2) cv])
  with x u have "create_accepted sample_registry (\<lambda>s. s) (\<lambda>n. ''2'') ''m1'' False sample_memory_candidate ?t = (Inr (EntryTarget x), w)"
    by (simp add: create_accepted_def bind_act_def to_entry_target_def)
  moreover have "mc_action sample_memory_candidate = CaCreate" "mc_review_state sample_memory_candidate = CrPending"
    by (simp_all add: sample_memory_candidate_def)
  ultimately show ?thesis
    using sample_memory_stored sample_memory_candidate_view
    by (simp add: accept_pending [OF sample_memory_stored sample_memory_candidate_view] accept_transaction_def atomic_act_def)
qed

lemma accept_settles_witness:
  "\<exists>x t'. accept_candidate sample_registry (\<lambda>s. s) (\<lambda>n. ''2'') ''m1'' False ''c1'' sample_memory_tables = (Inr x, t')
    \<and> memory_stored t'
    \<and> accept_candidate sample_registry (\<lambda>s. s) (\<lambda>n. ''3'') ''m2'' True ''c1'' t' =
        (Inl (ValueError ''candidate is already reviewed''), t')"
proof -
  let ?t = sample_memory_tables and ?c = sample_memory_candidate
  have pending: "mc_review_state ?c = CrPending" "mc_action ?c = CaCreate" by (simp_all add: sample_memory_candidate_def)
  obtain x t' where run: "accept_candidate sample_registry (\<lambda>s. s) (\<lambda>n. ''2'') ''m1'' False ''c1'' ?t = (Inr (EntryTarget x), t')"
    using sample_accepted by blast
  then have last: "accept_transaction sample_registry (\<lambda>s. s) (\<lambda>n. ''2'') ''m1'' False (mc_action ?c) (mc_target_entry_id ?c) ?c ?t =
      (Inr (EntryTarget x), t')"
    by (simp add: accept_pending [OF sample_memory_stored sample_memory_candidate_view pending(1)])
  have first: "checked_candidate ''c1'' ?t = (Inr ?c, ?t)"
    by (simp add: checked_candidate_view [OF sample_memory_stored] sample_memory_candidate_view pending)
  have second: "rechecked_candidate ''c1'' ?c ?t = (Inr ?c, ?t)" by (simp add: rechecked_candidate_def pending result_simps)
  from accept_settles [OF sample_memory_stored first sample_memory_stored second sample_memory_stored _ last,
      where reg' = sample_registry and uuid5' = "\<lambda>s. s" and clock' = "\<lambda>n. ''3''" and fresh_id' = "''m2''" and reviewed' = True] run
  show ?thesis by auto
qed

section \<open>Candidates that cannot be accepted, and decisions that are overridden\<close>

lemma persona_descriptor:
  "map_of default_type_registry ''persona_instruction'' = Some (PersonaInstructionDescriptor (binary 8106479329266893 53))"
  by (simp add: default_type_registry_def make_type_registry_def type_register_def)

lemma persona_refused:
  assumes "me_type x = ''persona_instruction''" and "me_payload x = []"
  shows "checked_entry default_type_registry now x = Inl (MemoryValidationError ''persona_instruction'')"
proof -
  have m: "entry_to_object x = Inr (object_of_entry x)"
    using assms(2) by (intro entry_to_object_ok) (simp_all add: extension_ok_def)
  have "text_missing (mo_payload (object_of_entry x)) ''persona_id''"
    using assms(2) by (simp add: text_missing_def dict_get_def object_of_entry_def entry_fields_frozen_def entry_object_payload_def)
  then have "validate_persona_payload (mo_payload (object_of_entry x)) \<noteq> []"
    by (simp add: validate_persona_payload_def issue_if_def)
  then show ?thesis
    using m assms(1) persona_descriptor by (simp add: checked_entry_def registry_validate_def) (simp add: object_of_entry_def)
qed

text \<open>
  C24: A pending candidate whose action is to create a memory of type \<open>persona_instruction\<close> cannot be
  accepted: the entry it becomes has no payload, which the type's descriptor requires. The acceptance raises
  the validation error and changes nothing, whatever the clock, the identifier and the target state are, so
  that the candidate stays pending. (Candidates of that type with another action are not meant: they have a
  target, which decides the type of what is stored.)
\<close>

theorem persona_candidate_stuck:
  assumes "memory_stored t" and "candidate_view t i = Some c" and "mc_review_state c = CrPending"
    and "mc_type c = ''persona_instruction''" and "mc_action c = CaCreate"
  shows "accept_candidate default_type_registry uuid5 clock fresh_id reviewed i t =
    (Inl (MemoryValidationError ''persona_instruction''), t)"
proof -
  obtain x where x: "new_target uuid5 clock fresh_id c = Inr (EntryTarget x)" "me_type x = ''persona_instruction''" "me_payload x = []"
    using assms(4,5) by (simp add: new_target_def candidate_to_memory_entry_def make_entry_def)
  then have "create_accepted default_type_registry uuid5 clock fresh_id reviewed c t =
      (Inl (MemoryValidationError ''persona_instruction''), t)"
    using persona_refused [OF x(2,3)]
    by (simp add: create_accepted_def bind_act_def to_entry_target_def save_memory_def)
  with assms show ?thesis
    by (simp add: accept_pending [OF assms(1-3)] accept_transaction_def atomic_act_def)
qed

lemma persona_candidate_stuck_witness:
  "\<exists>t. accept_candidate default_type_registry (\<lambda>s. s) (\<lambda>n. ''2'') ''m1'' True ''c1'' t =
    (Inl (MemoryValidationError ''persona_instruction''), t) \<and> map_option mc_review_state (candidate_view t ''c1'') = Some CrPending"
proof -
  let ?c = "sample_memory_candidate\<lparr>mc_type := ''persona_instruction''\<rparr>"
  let ?t = "(\<lambda>_. [])(''memory_candidates'' := [(''c1'', payload_of (memory_candidate_to_wire ?c))])"
  have c: "mc_id ?c = ''c1''" "mc_review_state ?c = CrPending" "mc_action ?c = CaCreate" "memory_candidate_valid ?c"
    by (simp_all add: sample_memory_candidate_def memory_candidate_valid_def)
  have "memory_candidates.repo_stored ''memory_candidates'' ?t"
    using c by (auto simp: memory_candidates.repo_stored_def stored_ok_def rows_ok_def)
  then have t: "memory_stored ?t" by (simp add: memory_stored_def)
  have v: "candidate_view ?t ''c1'' = Some ?c"
    using memory_candidate_reload [of ?c] c(1) by (simp add: candidate_view_def view_def load_def coll_get_def)
  show ?thesis
    using persona_candidate_stuck [OF t v c(2) _ c(3), of "\<lambda>s. s" "\<lambda>n. ''2''" "''m1''" True] c
    by (intro exI [of _ ?t]) (simp add: v)
qed

text \<open>
  A merge into an entry whose type has no descriptor returns the draft it built, while what is stored
  is quarantined: the outcome of the save is dropped.
\<close>

lemma merge_reports_draft:
  assumes "memory_stored t" and "memory_candidate_valid c" and "mc_type c \<noteq> ''profile_fact''"
    and "entry_view t i = Some x" and "map_of reg (me_type x) = None"
  shows "\<exists>u. merge_target reg clock c i t = (Inr (EntryTarget (merged_entry (clock 1) c x)), u)
    \<and> me_review_state (merged_entry (clock 1) c x) = MDraft
    \<and> map_option me_review_state (entry_view u i) = Some MQuarantined"
proof -
  let ?m = "merged_entry (clock 1) c x"
  have x: "entry_valid x" "me_id x = i" using entry_view_valid [OF assms(1,4)] by simp_all
  have m: "entry_valid ?m" "me_id ?m = i" "me_type ?m = me_type x" "me_review_state ?m = MDraft"
    using merged_entry_valid [OF x(1) assms(2)] x(2) by (simp_all add: merged_entry_def)
  then have q: "quarantined reg ?m" using assms(5) by (simp add: quarantined_def)
  then have ok: "checked_entry reg (clock 3) ?m = Inr (stored_form reg (clock 3) ?m)"
    using m by (simp add: checked_entry_def stored_form_def quarantined_def with_review_state)
  from assms(1) m(1) obtain u where u: "save_memory reg (clock 3) ?m t = (Inr (stored_form reg (clock 3) ?m), u)"
    "memory_view u = ((entry_view t)(i \<mapsto> stored_form reg (clock 3) ?m), profile_view t, candidate_view t)"
    using m(2) ok by (cases rule: save_memory_run [where reg = reg and now = "clock 3"]) auto
  have "merge_target reg clock c i t = (Inr (EntryTarget ?m), u)"
    using u(1) assms(1,3,4) by (simp add: merge_target_def bind_act_def get_memory_view)
  moreover have "entry_view u i = Some (stored_form reg (clock 3) ?m)" using u(2) by (simp add: memory_view_def)
  ultimately show ?thesis using q m(4) by (simp add: stored_form_def)
qed

end
