(* ===== verification/MemoryGraph.thy ===== *)
theory MemoryGraph
  imports MemoryStore
begin

text \<open>
  The symbolic graph derived from the relations between memory entries (\<open>memory/repository.py\<close>): its
  nodes and edges, search with expansion, shortest paths and transitive closures. The code iterates
  over sets of identifiers, in an order the language leaves open; here such a set is a list without
  repetition and \<open>order\<close> is the order of iteration.
\<close>

section \<open>Records and their readers\<close>

record MemoryRelationIndexRecord =
  ri_source_id :: string
  ri_target_id :: string
  ri_relation :: string
  ri_inverse_relation :: "string option"
  ri_symmetric :: bool
  ri_transitive :: bool
  ri_temporal_policy :: string
  ri_confidence_policy :: string
  ri_retrieval_rule :: string
  ri_source_type :: string
  ri_target_type :: "string option"
  ri_source_title :: string
  ri_target_title :: "string option"
  ri_target_exists :: bool
  ri_confidence :: pyfloat
  ri_source_updated_at :: string

record MemoryRelationFilters =
  rf_relation :: "string option"
  rf_source_id :: "string option"
  rf_target_id :: "string option"

record SymbolicGraphNode =
  gn_id :: string
  gn_kind :: string
  gn_type :: string
  gn_label :: string
  gn_body :: string
  gn_tags :: "string list"

record SymbolicGraphEdge =
  ge_id :: string
  ge_relation :: string
  ge_source :: string
  ge_target :: string
  ge_confidence :: pyfloat

record SymbolicGraphSearchResult =
  gs_nodes :: "SymbolicGraphNode list"
  gs_edges :: "SymbolicGraphEdge list"

definition optional_bool :: "pydict \<Rightarrow> string \<Rightarrow> bool result" where
  "optional_bool d key =
     (case dict_get d key of
        PNone \<Rightarrow> Inr False
      | PBool b \<Rightarrow> Inr b
      | _ \<Rightarrow> Inl (ValueError ''field must be a boolean or null''))"

definition optional_strings :: "pydict \<Rightarrow> string \<Rightarrow> string list result" where
  "optional_strings d key =
     (case dict_get d key of
        PNone \<Rightarrow> Inr []
      | v \<Rightarrow> read_strs (ValueError ''field must be a list of strings or null'') v)"

text \<open>\<open>_optional_str(data, key) or usual\<close>.\<close>

definition string_or_usual :: "pydict \<Rightarrow> string \<Rightarrow> string \<Rightarrow> string result" where
  "string_or_usual d key usual =
     bindE (read_optional_string d key) (\<lambda>s. Inr (case s of None \<Rightarrow> usual | Some t \<Rightarrow> if t = '''' then usual else t))"

definition last_by :: "('a \<Rightarrow> string) \<Rightarrow> 'a list \<Rightarrow> string \<Rightarrow> 'a option" where
  "last_by key xs = map_of (rev (map (\<lambda>x. (key x, x)) xs))"

definition relation_index_record ::
  "MemoryEntry \<Rightarrow> string \<Rightarrow> RelationDescriptor \<Rightarrow> (string \<Rightarrow> MemoryEntry option) \<Rightarrow> pydict" where
  "relation_index_record x i desc by_id =
     (let target = by_id i in
     [(''source_id'', PStr (me_id x)), (''target_id'', PStr i), (''relation'', PStr (rd_name desc)),
      (''inverse_relation'', opt_str (rd_inverse desc)), (''symmetric'', PBool (rd_symmetric desc)),
      (''transitive'', PBool (rd_transitive desc)), (''temporal_policy'', PStr (rd_temporal_policy desc)),
      (''confidence_policy'', PStr (rd_confidence_policy desc)), (''retrieval_rule'', PStr (rd_retrieval_rule desc)),
      (''source_type'', PStr (me_type x)), (''target_type'', opt_str (map_option me_type target)),
      (''source_title'', PStr (me_title x)), (''target_title'', opt_str (map_option me_title target)),
      (''target_exists'', PBool (target \<noteq> None)), (''confidence'', PFloat (me_confidence x)),
      (''source_updated_at'', PStr (me_updated_at x))])"

definition relation_index_records :: "relation_registry \<Rightarrow> (string \<Rightarrow> MemoryEntry option) \<Rightarrow> MemoryEntry \<Rightarrow> pydict list" where
  "relation_index_records reg by_id x =
     concat (map (\<lambda>(name, desc). map (\<lambda>i. relation_index_record x i desc by_id)
       (relation_targets (me_relations x) (rd_source_field desc))) reg)"

definition relation_record_from_wire :: "pydict \<Rightarrow> MemoryRelationIndexRecord result" where
  "relation_record_from_wire d =
     bindE (read_string d ''source_id'') (\<lambda>source.
     bindE (read_string d ''target_id'') (\<lambda>target.
     bindE (read_string d ''relation'') (\<lambda>relation.
     bindE (read_optional_string d ''inverse_relation'') (\<lambda>inverse_name.
     bindE (optional_bool d ''symmetric'') (\<lambda>symmetric.
     bindE (optional_bool d ''transitive'') (\<lambda>transitive.
     bindE (string_or_usual d ''temporal_policy'' ''inherits_source'') (\<lambda>temporal_policy.
     bindE (string_or_usual d ''confidence_policy'' ''inherits_source'') (\<lambda>confidence_policy.
     bindE (string_or_usual d ''retrieval_rule'' ''include_direct_neighbors'') (\<lambda>rule.
     bindE (read_string d ''source_type'') (\<lambda>source_type.
     bindE (read_optional_string d ''target_type'') (\<lambda>target_type.
     bindE (read_string d ''source_title'') (\<lambda>source_title.
     bindE (read_optional_string d ''target_title'') (\<lambda>target_title.
     bindE (expect_bool d ''target_exists'') (\<lambda>target_exists.
     bindE (expect_float d ''confidence'') (\<lambda>confidence.
     bindE (read_string d ''source_updated_at'') (\<lambda>updated.
       Inr \<lparr>ri_source_id = source, ri_target_id = target, ri_relation = relation, ri_inverse_relation = inverse_name,
            ri_symmetric = symmetric, ri_transitive = transitive, ri_temporal_policy = temporal_policy,
            ri_confidence_policy = confidence_policy, ri_retrieval_rule = rule, ri_source_type = source_type,
            ri_target_type = target_type, ri_source_title = source_title, ri_target_title = target_title,
            ri_target_exists = target_exists, ri_confidence = confidence,
            ri_source_updated_at = updated\<rparr>))))))))))))))))"

definition symbolic_node_record :: "MemoryEntry \<Rightarrow> pydict" where
  "symbolic_node_record x =
     [(''id'', PStr (me_id x)), (''kind'', PStr ''Memory''), (''type'', PStr (me_type x)), (''label'', PStr (me_title x)),
      (''payload'', PDict
        [(''body'', PStr (me_body x)), (''tags'', strs_obj (me_tags x)),
         (''review_state'', PStr (review_state_str (me_review_state x))), (''confidence'', PFloat (me_confidence x)),
         (''privacy'', PStr (privacy_str (me_privacy x))), (''observed_at'', opt_str (me_observed_at x)),
         (''valid_from'', opt_str (me_valid_from x)), (''valid_until'', opt_str (me_valid_until x))]),
      (''source_refs'', strs_obj (me_source_refs x))]"

definition symbolic_node_from_wire :: "pydict \<Rightarrow> SymbolicGraphNode result" where
  "symbolic_node_from_wire d =
     bindE (expect_dict d ''payload'') (\<lambda>payload.
     bindE (read_string d ''id'') (\<lambda>i.
     bindE (read_string d ''kind'') (\<lambda>kind.
     bindE (read_string d ''type'') (\<lambda>type_name.
     bindE (read_string d ''label'') (\<lambda>label.
     bindE (read_optional_string payload ''body'') (\<lambda>body.
     bindE (optional_strings payload ''tags'') (\<lambda>tags.
       Inr \<lparr>gn_id = i, gn_kind = kind, gn_type = type_name, gn_label = label, gn_body = or_empty body,
            gn_tags = tags\<rparr>)))))))"

definition symbolic_edge_record :: "pydict \<Rightarrow> pydict result" where
  "symbolic_edge_record d =
     bindE (read_string d ''source_id'') (\<lambda>source.
     bindE (read_string d ''target_id'') (\<lambda>target.
     bindE (read_string d ''relation'') (\<lambda>relation.
     bindE (read_optional_string d ''inverse_relation'') (\<lambda>inverse_name.
     bindE (optional_bool d ''symmetric'') (\<lambda>symmetric.
     bindE (optional_bool d ''transitive'') (\<lambda>transitive.
     bindE (string_or_usual d ''temporal_policy'' ''inherits_source'') (\<lambda>temporal_policy.
     bindE (string_or_usual d ''confidence_policy'' ''inherits_source'') (\<lambda>confidence_policy.
     bindE (string_or_usual d ''retrieval_rule'' ''include_direct_neighbors'') (\<lambda>rule.
     bindE (optional_bool d ''target_exists'') (\<lambda>target_exists.
     bindE (expect_float d ''confidence'') (\<lambda>confidence.
       Inr [(''id'', PStr (source @ '':'' @ relation @ '':'' @ target)), (''relation'', PStr relation),
            (''source'', PStr source), (''target'', PStr target),
            (''payload'', PDict
              [(''inverse_relation'', opt_str inverse_name), (''symmetric'', PBool symmetric),
               (''transitive'', PBool transitive), (''temporal_policy'', PStr temporal_policy),
               (''confidence_policy'', PStr confidence_policy), (''retrieval_rule'', PStr rule),
               (''target_exists'', PBool target_exists)]),
            (''confidence'', PFloat confidence), (''source_refs'', strs_obj [source, target])])))))))))))"

definition symbolic_edge_from_wire :: "pydict \<Rightarrow> SymbolicGraphEdge result" where
  "symbolic_edge_from_wire d =
     bindE (read_string d ''id'') (\<lambda>i.
     bindE (read_string d ''relation'') (\<lambda>relation.
     bindE (read_string d ''source'') (\<lambda>source.
     bindE (read_string d ''target'') (\<lambda>target.
     bindE (expect_float d ''confidence'') (\<lambda>confidence.
       Inr \<lparr>ge_id = i, ge_relation = relation, ge_source = source, ge_target = target, ge_confidence = confidence\<rparr>)))))"

section \<open>The graph\<close>

type_synonym graph = "SymbolicGraphNode list \<times> SymbolicGraphEdge list"

definition relation_records :: "relation_registry \<Rightarrow> MemoryEntry list \<Rightarrow> pydict list" where
  "relation_records reg xs = concat (map (relation_index_records reg (last_by me_id xs)) xs)"

definition matches_relation_filters :: "MemoryRelationFilters option \<Rightarrow> MemoryRelationIndexRecord \<Rightarrow> bool" where
  "matches_relation_filters filters r =
     wanted (\<lambda>f. wanted (\<lambda>s. ri_relation r = s) (rf_relation f) \<and> wanted (\<lambda>s. ri_source_id r = s) (rf_source_id f)
       \<and> wanted (\<lambda>s. ri_target_id r = s) (rf_target_id f)) filters"

definition list_relations ::
  "relation_registry \<Rightarrow> MemoryRelationFilters option \<Rightarrow> (tables, MemoryRelationIndexRecord list) act" where
  "list_relations reg filters =
     bind_act list_memory (\<lambda>xs. lift_act (\<lambda>_.
       bindE (mapE relation_record_from_wire (relation_records reg xs)) (\<lambda>rs.
         Inr (filter (matches_relation_filters filters) rs))))"

definition compute_graph :: "relation_registry \<Rightarrow> (tables, graph) act" where
  "compute_graph reg =
     bind_act list_memory (\<lambda>xs. lift_act (\<lambda>_.
       bindE (mapE (\<lambda>x. symbolic_node_from_wire (symbolic_node_record x)) xs) (\<lambda>nodes.
       bindE (mapE (\<lambda>r. bindE (symbolic_edge_record r) symbolic_edge_from_wire) (relation_records reg xs)) (\<lambda>edges.
         Inr (nodes, edges)))))"

definition matches_graph_node :: "string option \<Rightarrow> SymbolicGraphNode \<Rightarrow> bool" where
  "matches_graph_node node_type n = wanted (\<lambda>t. gn_type n = t) node_type"

definition matches_graph_edge :: "MemoryRelationFilters option \<Rightarrow> SymbolicGraphEdge \<Rightarrow> bool" where
  "matches_graph_edge filters e =
     wanted (\<lambda>f. wanted (\<lambda>s. ge_relation e = s) (rf_relation f) \<and> wanted (\<lambda>s. ge_source e = s) (rf_source_id f)
       \<and> wanted (\<lambda>s. ge_target e = s) (rf_target_id f)) filters"

definition matches_graph_text :: "string \<Rightarrow> SymbolicGraphNode \<Rightarrow> bool" where
  "matches_graph_text query n \<longleftrightarrow>
     (let normalized = strip (casefold query) in
      normalized = '''' \<or> contains_text normalized (casefold (gn_label n)) \<or> contains_text normalized (casefold (gn_body n))
      \<or> list_ex (\<lambda>tag. contains_text normalized (casefold tag)) (gn_tags n))"

definition list_graph_nodes :: "relation_registry \<Rightarrow> string option \<Rightarrow> (tables, SymbolicGraphNode list) act" where
  "list_graph_nodes reg node_type =
     bind_act (compute_graph reg) (\<lambda>(nodes, edges). ret_act (filter (matches_graph_node node_type) nodes))"

definition list_graph_edges :: "relation_registry \<Rightarrow> MemoryRelationFilters option \<Rightarrow> (tables, SymbolicGraphEdge list) act" where
  "list_graph_edges reg filters =
     bind_act (compute_graph reg) (\<lambda>(nodes, edges). ret_act (filter (matches_graph_edge filters) edges))"

section \<open>Adjacency\<close>

type_synonym adjacency = "(string \<times> (string \<times> SymbolicGraphEdge) list) list"

definition neighbors :: "adjacency \<Rightarrow> string \<Rightarrow> (string \<times> SymbolicGraphEdge) list" where
  "neighbors adj a = (case map_of adj a of None \<Rightarrow> [] | Some arcs \<Rightarrow> arcs)"

definition add_arc :: "string \<Rightarrow> string \<times> SymbolicGraphEdge \<Rightarrow> adjacency \<Rightarrow> adjacency" where
  "add_arc a arc adj = AList.update a (neighbors adj a @ [arc]) adj"

definition both_ways :: "relation_registry \<Rightarrow> bool \<Rightarrow> SymbolicGraphEdge \<Rightarrow> bool" where
  "both_ways reg bidirectional e \<longleftrightarrow> bidirectional
     \<or> (case map_of reg (ge_relation e) of None \<Rightarrow> False | Some desc \<Rightarrow> rd_symmetric desc)"

definition add_edge :: "relation_registry \<Rightarrow> string option \<Rightarrow> bool \<Rightarrow> SymbolicGraphEdge \<Rightarrow> adjacency \<Rightarrow> adjacency" where
  "add_edge reg relation bidirectional e adj =
     (if \<not> wanted (\<lambda>r. ge_relation e = r) relation then adj
      else let adj = add_arc (ge_source e) (ge_target e, e) adj in
        if both_ways reg bidirectional e then add_arc (ge_target e) (ge_source e, e) adj else adj)"

definition build_adjacency :: "relation_registry \<Rightarrow> string option \<Rightarrow> bool \<Rightarrow> SymbolicGraphEdge list \<Rightarrow> adjacency" where
  "build_adjacency reg relation bidirectional es = foldl (\<lambda>adj e. add_edge reg relation bidirectional e adj) [] es"

section \<open>Traversals\<close>

record traversal =
  tv_frontier :: "string list"
  tv_visited :: "string list"
  tv_result :: "string list"
  tv_edges :: "SymbolicGraphEdge list"
  tv_seen :: "string list"

definition start_at :: "string list \<Rightarrow> traversal" where
  "start_at ids = \<lparr>tv_frontier = ids, tv_visited = ids, tv_result = ids, tv_edges = [], tv_seen = []\<rparr>"

definition visit :: "traversal \<Rightarrow> string \<times> SymbolicGraphEdge \<Rightarrow> traversal" where
  "visit s arc =
     (case arc of (b, e) \<Rightarrow>
       let s = (if b \<notin> set (tv_visited s)
                then s\<lparr>tv_frontier := tv_frontier s @ [b], tv_visited := tv_visited s @ [b], tv_result := tv_result s @ [b]\<rparr>
                else s) in
       if ge_id e \<notin> set (tv_seen s) then s\<lparr>tv_seen := tv_seen s @ [ge_id e], tv_edges := tv_edges s @ [e]\<rparr> else s)"

text \<open>One round: all arcs out of the old frontier; the new frontier is what it discovers.\<close>

definition expand :: "(string list \<Rightarrow> string list) \<Rightarrow> adjacency \<Rightarrow> traversal \<Rightarrow> traversal" where
  "expand order adj s =
     foldl (\<lambda>s a. foldl visit s (neighbors adj a)) (s\<lparr>tv_frontier := []\<rparr>) (order (tv_frontier s))"

definition slice_to :: "int \<Rightarrow> 'a list \<Rightarrow> 'a list" where
  "slice_to n xs = take (nat (if n < 0 then int (length xs) + n else n)) xs"

definition found_nodes :: "SymbolicGraphNode list \<Rightarrow> string list \<Rightarrow> SymbolicGraphNode list" where
  "found_nodes nodes ids = List.map_filter (last_by gn_id nodes) (sort ids)"

definition graph_search ::
  "(string list \<Rightarrow> string list) \<Rightarrow> relation_registry \<Rightarrow> graph \<Rightarrow> string \<Rightarrow> string option \<Rightarrow> int \<Rightarrow> int \<Rightarrow> SymbolicGraphSearchResult" where
  "graph_search order reg g query node_type limit levels =
     (case g of (nodes, edges) \<Rightarrow>
       let matched = slice_to limit (filter (\<lambda>n. matches_graph_node node_type n \<and> matches_graph_text query n) nodes) in
       if levels \<le> 0 then \<lparr>gs_nodes = matched, gs_edges = []\<rparr>
       else let adj = build_adjacency reg None True edges;
           s = (expand order adj ^^ nat levels) (start_at (remdups (map gn_id matched))) in
         \<lparr>gs_nodes = matched @ found_nodes nodes (filter (\<lambda>i. i \<notin> set (map gn_id matched)) (tv_result s)),
          gs_edges = tv_edges s\<rparr>)"

definition search_graph ::
  "(string list \<Rightarrow> string list) \<Rightarrow> relation_registry \<Rightarrow> string \<Rightarrow> string option \<Rightarrow> int \<Rightarrow> int \<Rightarrow> (tables, SymbolicGraphSearchResult) act" where
  "search_graph order reg query node_type limit levels =
     bind_act (compute_graph reg) (\<lambda>g. ret_act (graph_search order reg g query node_type limit levels))"

text \<open>
  What a step over some arcs does to a traversal: it discovers their ends and collects their edges,
  one for each identifier.
\<close>

definition arc_ends :: "(string \<times> SymbolicGraphEdge) list \<Rightarrow> string set" where
  "arc_ends arcs = fst ` set arcs"

definition arc_ids :: "(string \<times> SymbolicGraphEdge) list \<Rightarrow> string set" where
  "arc_ids arcs = ge_id ` snd ` set arcs"

definition traversal_ok :: "traversal \<Rightarrow> bool" where
  "traversal_ok s \<longleftrightarrow> distinct (tv_visited s) \<and> tv_result s = tv_visited s \<and> set (tv_frontier s) \<subseteq> set (tv_visited s)
     \<and> distinct (tv_seen s) \<and> map ge_id (tv_edges s) = tv_seen s"

lemma visit_all:
  "traversal_ok s \<Longrightarrow> traversal_ok (foldl visit s arcs)
    \<and> set (tv_visited (foldl visit s arcs)) = set (tv_visited s) \<union> arc_ends arcs
    \<and> set (tv_frontier (foldl visit s arcs)) = set (tv_frontier s) \<union> (arc_ends arcs - set (tv_visited s))
    \<and> set (tv_seen (foldl visit s arcs)) = set (tv_seen s) \<union> arc_ids arcs
    \<and> set (tv_edges (foldl visit s arcs)) \<subseteq> set (tv_edges s) \<union> snd ` set arcs"
proof (induction arcs arbitrary: s)
  case (Cons arc arcs)
  obtain b e where arc: "arc = (b, e)" by fastforce
  have step: "traversal_ok (visit s arc)" "set (tv_visited (visit s arc)) = insert b (set (tv_visited s))"
    "set (tv_frontier (visit s arc)) = set (tv_frontier s) \<union> ({b} - set (tv_visited s))"
    "set (tv_seen (visit s arc)) = insert (ge_id e) (set (tv_seen s))"
    "set (tv_edges (visit s arc)) \<subseteq> insert e (set (tv_edges s))"
    using Cons.prems arc by (auto simp: visit_def traversal_ok_def Let_def)
  from Cons.IH [OF step(1)] step(2-) show ?case
    by (auto simp: arc arc_ends_def arc_ids_def)
qed (simp add: arc_ends_def arc_ids_def)

definition all_arcs :: "adjacency \<Rightarrow> string list \<Rightarrow> (string \<times> SymbolicGraphEdge) list" where
  "all_arcs adj ids = concat (map (neighbors adj) ids)"

lemma visit_nodes: "foldl (\<lambda>s a. foldl visit s (neighbors adj a)) s ids = foldl visit s (all_arcs adj ids)"
  by (induction ids arbitrary: s) (simp_all add: all_arcs_def)

lemma expand_all:
  assumes "traversal_ok s"
  shows "traversal_ok (expand order adj s)"
    and "set (tv_visited (expand order adj s)) = set (tv_visited s) \<union> arc_ends (all_arcs adj (order (tv_frontier s)))"
    and "set (tv_frontier (expand order adj s)) = arc_ends (all_arcs adj (order (tv_frontier s))) - set (tv_visited s)"
    and "set (tv_seen (expand order adj s)) = set (tv_seen s) \<union> arc_ids (all_arcs adj (order (tv_frontier s)))"
    and "set (tv_edges (expand order adj s)) \<subseteq> set (tv_edges s) \<union> snd ` set (all_arcs adj (order (tv_frontier s)))"
proof -
  have "traversal_ok (s\<lparr>tv_frontier := []\<rparr>)" using assms by (simp add: traversal_ok_def)
  note facts = visit_all [OF this, of "all_arcs adj (order (tv_frontier s))"]
  show "traversal_ok (expand order adj s)"
    and "set (tv_visited (expand order adj s)) = set (tv_visited s) \<union> arc_ends (all_arcs adj (order (tv_frontier s)))"
    and "set (tv_frontier (expand order adj s)) = arc_ends (all_arcs adj (order (tv_frontier s))) - set (tv_visited s)"
    and "set (tv_seen (expand order adj s)) = set (tv_seen s) \<union> arc_ids (all_arcs adj (order (tv_frontier s)))"
    and "set (tv_edges (expand order adj s)) \<subseteq> set (tv_edges s) \<union> snd ` set (all_arcs adj (order (tv_frontier s)))"
    using facts by (simp_all add: expand_def visit_nodes)
qed

section \<open>Closures and paths\<close>

text \<open>
  A round that discovers nothing ends the loop, and every other one discovers an end of an arc. The
  bound on what is left to discover does not depend on the order of iteration.
\<close>

definition ends :: "adjacency \<Rightarrow> string set" where
  "ends adj = (\<Union>(a, arcs) \<in> set adj. arc_ends arcs)"

lemma finite_ends [simp]: "finite (ends adj)"
  by (auto simp: ends_def arc_ends_def)

lemma neighbors_ends: "arc_ends (neighbors adj a) \<subseteq> ends adj"
proof (cases "map_of adj a")
  case (Some arcs)
  then have "(a, arcs) \<in> set adj" by (rule map_of_SomeD)
  then have "arc_ends arcs \<subseteq> ends adj" by (auto simp: ends_def)
  with Some show ?thesis by (simp add: neighbors_def)
qed (simp add: neighbors_def arc_ends_def)

lemma all_arcs_ends: "arc_ends (all_arcs adj ids) \<subseteq> ends adj"
  using neighbors_ends [of adj] by (fastforce simp: all_arcs_def arc_ends_def)

lemma visited_grows:
  "set (tv_visited s) \<subseteq> set (tv_visited (foldl visit s arcs))
    \<and> set (tv_frontier (foldl visit s arcs)) \<subseteq> set (tv_frontier s) \<union> (arc_ends arcs \<inter> (set (tv_visited (foldl visit s arcs)) - set (tv_visited s)))"
proof (induction arcs arbitrary: s)
  case (Cons arc arcs)
  obtain b e where arc: "arc = (b, e)" by fastforce
  have step: "set (tv_visited (visit s arc)) = insert b (set (tv_visited s))"
    "set (tv_frontier (visit s arc)) = set (tv_frontier s) \<union> ({b} - set (tv_visited s))"
    using arc by (auto simp: visit_def Let_def)
  note IH = Cons.IH [of "visit s arc", unfolded step]
  have "set (tv_visited s) \<subseteq> set (tv_visited (foldl visit s (arc # arcs)))" using IH by simp
  moreover have "set (tv_frontier (foldl visit s (arc # arcs))) \<subseteq> set (tv_frontier s) \<union>
      (arc_ends (arc # arcs) \<inter> (set (tv_visited (foldl visit s (arc # arcs))) - set (tv_visited s)))"
    using IH arc by (auto simp: arc_ends_def)
  ultimately show ?case by simp
qed simp

function closure_loop :: "(string list \<Rightarrow> string list) \<Rightarrow> adjacency \<Rightarrow> traversal \<Rightarrow> traversal" where
  "closure_loop order adj s = (if tv_frontier s = [] then s else closure_loop order adj (expand order adj s))"
  by pat_completeness auto

termination
proof (relation "measure (\<lambda>(order, adj, s). card (ends adj - set (tv_visited s)) + (if tv_frontier s = [] then 0 else 1))")
  fix order adj and s :: traversal
  assume front: "tv_frontier s \<noteq> []"
  let ?s = "expand order adj s"
  have grow: "set (tv_visited s) \<subseteq> set (tv_visited ?s)"
    and new: "set (tv_frontier ?s) \<subseteq> ends adj \<inter> (set (tv_visited ?s) - set (tv_visited s))"
    using visited_grows [of "s\<lparr>tv_frontier := []\<rparr>" "all_arcs adj (order (tv_frontier s))"] all_arcs_ends [of adj]
    by (auto simp: expand_def visit_nodes)
  show "((order, adj, ?s), (order, adj, s)) \<in>
      measure (\<lambda>(order, adj, s). card (ends adj - set (tv_visited s)) + (if tv_frontier s = [] then 0 else 1))"
  proof (cases "tv_frontier ?s")
    case Nil
    have "card (ends adj - set (tv_visited ?s)) \<le> card (ends adj - set (tv_visited s))"
      using grow by (intro card_mono) auto
    with Nil front show ?thesis by simp
  next
    case (Cons b bs)
    have "ends adj - set (tv_visited ?s) \<subset> ends adj - set (tv_visited s)" using grow new Cons by auto
    then have "card (ends adj - set (tv_visited ?s)) < card (ends adj - set (tv_visited s))"
      by (intro psubset_card_mono) simp_all
    with Cons front show ?thesis by simp
  qed
qed simp

declare closure_loop.simps [simp del]

definition transitive_closure_from ::
  "(string list \<Rightarrow> string list) \<Rightarrow> relation_registry \<Rightarrow> graph \<Rightarrow> string \<Rightarrow> string \<Rightarrow> SymbolicGraphSearchResult" where
  "transitive_closure_from order reg g node_id relation =
     (case g of (nodes, edges) \<Rightarrow>
       let s = closure_loop order (build_adjacency reg (Some relation) False edges) (start_at [node_id]) in
       \<lparr>gs_nodes = found_nodes nodes (tv_result s), gs_edges = tv_edges s\<rparr>)"

definition transitive_closure ::
  "(string list \<Rightarrow> string list) \<Rightarrow> relation_registry \<Rightarrow> string \<Rightarrow> string \<Rightarrow> (tables, SymbolicGraphSearchResult) act" where
  "transitive_closure order reg node_id relation =
     bind_act (compute_graph reg) (\<lambda>g. ret_act (transitive_closure_from order reg g node_id relation))"

type_synonym path_queue = "(string \<times> SymbolicGraphEdge list) list"

definition push_neighbor ::
  "SymbolicGraphEdge list \<Rightarrow> path_queue \<times> string list \<Rightarrow> string \<times> SymbolicGraphEdge \<Rightarrow> path_queue \<times> string list" where
  "push_neighbor path state arc =
     (case (state, arc) of ((queue, visited), (b, e)) \<Rightarrow>
        if b \<notin> set visited then (queue @ [(b, path @ [e])], visited @ [b]) else (queue, visited))"

lemma push_neighbor_simps [simp]:
  "b \<in> set visited \<Longrightarrow> push_neighbor path (queue, visited) (b, e) = (queue, visited)"
  "b \<notin> set visited \<Longrightarrow> push_neighbor path (queue, visited) (b, e) = (queue @ [(b, path @ [e])], visited @ [b])"
  by (simp_all add: push_neighbor_def)

lemma push_all:
  "foldl (push_neighbor path) (queue, visited) arcs = (queue', visited') \<Longrightarrow>
    (\<exists>new. queue' = queue @ new \<and> visited' = visited @ map fst new \<and> distinct (map fst new)
      \<and> set (map fst new) = arc_ends arcs - set visited \<and> (\<forall>(b, p) \<in> set new. \<exists>e. (b, e) \<in> set arcs \<and> p = path @ [e]))"
proof (induction arcs arbitrary: queue visited)
  case (Cons arc arcs)
  obtain b e where arc: "arc = (b, e)" by fastforce
  show ?case
  proof (cases "b \<in> set visited")
    case True
    with Cons.prems arc have "foldl (push_neighbor path) (queue, visited) arcs = (queue', visited')"
      by simp
    from Cons.IH [OF this] True arc show ?thesis by (fastforce simp: arc_ends_def)
  next
    case False
    with Cons.prems arc have "foldl (push_neighbor path) (queue @ [(b, path @ [e])], visited @ [b]) arcs = (queue', visited')"
      by simp
    from Cons.IH [OF this] obtain new where "queue' = (queue @ [(b, path @ [e])]) @ new"
      "visited' = (visited @ [b]) @ map fst new" "distinct (map fst new)"
      "set (map fst new) = arc_ends arcs - set (visited @ [b])"
      "\<forall>(b, p) \<in> set new. \<exists>e. (b, e) \<in> set arcs \<and> p = path @ [e]" by blast
    with False arc show ?thesis by (intro exI [of _ "(b, path @ [e]) # new"]) (auto simp: arc_ends_def)
  qed
qed (auto simp: arc_ends_def)

function path_loop :: "adjacency \<Rightarrow> string \<Rightarrow> path_queue \<Rightarrow> string list \<Rightarrow> SymbolicGraphEdge list" where
  "path_loop adj to_id [] visited = []"
| "path_loop adj to_id ((current, path) # queue) visited =
     (if current = to_id then path
      else case foldl (push_neighbor path) (queue, visited) (neighbors adj current) of
        (queue', visited') \<Rightarrow> path_loop adj to_id queue' visited')"
  by pat_completeness auto

termination
proof (relation "measures [\<lambda>(adj, to_id, queue, visited). card (ends adj - set visited),
    \<lambda>(adj, to_id, queue, visited). length queue]")
  fix adj :: adjacency and to_id current :: string and path queue visited queue' visited'
  assume "current \<noteq> to_id" and "(queue', visited') = foldl (push_neighbor path) (queue, visited) (neighbors adj current)"
  then obtain new where new: "queue' = queue @ new" "visited' = visited @ map fst new"
    "set (map fst new) = arc_ends (neighbors adj current) - set visited"
    using push_all [of path queue visited "neighbors adj current" queue' visited'] by metis
  show "((adj, to_id, queue', visited'), (adj, to_id, (current, path) # queue, visited)) \<in>
      measures [\<lambda>(adj, to_id, queue, visited). card (ends adj - set visited), \<lambda>(adj, to_id, queue, visited). length queue]"
  proof (cases "new = []")
    case True
    with new show ?thesis by simp
  next
    case False
    then obtain b where "b \<in> set (map fst new)" by (cases new) auto
    then have "b \<in> ends adj - set visited" "b \<notin> ends adj - set visited'"
      using new neighbors_ends [of adj current] by auto
    then have "ends adj - set visited' \<subset> ends adj - set visited" using new(2) by auto
    then have "card (ends adj - set visited') < card (ends adj - set visited)"
      by (intro psubset_card_mono) simp_all
    then show ?thesis by simp
  qed
qed simp

definition path_in_graph :: "relation_registry \<Rightarrow> SymbolicGraphEdge list \<Rightarrow> string \<Rightarrow> string \<Rightarrow> SymbolicGraphEdge list" where
  "path_in_graph reg edges from_id to_id =
     (let adj = build_adjacency reg None True edges in
      if map_of adj from_id = None then [] else path_loop adj to_id [(from_id, [])] [from_id])"

definition find_path :: "relation_registry \<Rightarrow> string \<Rightarrow> string \<Rightarrow> (tables, SymbolicGraphEdge list) act" where
  "find_path reg from_id to_id =
     bind_act (compute_graph reg) (\<lambda>(nodes, edges). ret_act (path_in_graph reg edges from_id to_id))"

end
