(* ===== verification/GraphReach.thy ===== *)
theory GraphReach
  imports MemoryGraph
begin

text \<open>
  What the traversals of the symbolic graph compute: closures are the nodes reachable over a relation,
  an expansion of some depth reaches exactly that far, and paths are shortest paths.
\<close>

section \<open>The graph of a store\<close>

definition node_of :: "MemoryEntry \<Rightarrow> SymbolicGraphNode" where
  "node_of x = \<lparr>gn_id = me_id x, gn_kind = ''Memory'', gn_type = me_type x, gn_label = me_title x, gn_body = me_body x,
    gn_tags = me_tags x\<rparr>"

definition edge_of :: "MemoryEntry \<Rightarrow> string \<Rightarrow> string \<Rightarrow> SymbolicGraphEdge" where
  "edge_of x relation i = \<lparr>ge_id = me_id x @ '':'' @ relation @ '':'' @ i, ge_relation = relation, ge_source = me_id x,
    ge_target = i, ge_confidence = me_confidence x\<rparr>"

lemma node_record [simp]: "symbolic_node_from_wire (symbolic_node_record x) = Inr (node_of x)"
  by (simp add: symbolic_node_from_wire_def symbolic_node_record_def node_of_def optional_strings_def dict_get_def
      strs_obj_def read_strs_def)

lemma optional_bool_obj [simp]: "dget d key = Some (PBool b) \<Longrightarrow> optional_bool d key = Inr b"
  by (simp add: optional_bool_def dict_get_def)

lemma string_or_usual_obj [simp]:
  "dget d key = Some (PStr s) \<Longrightarrow> string_or_usual d key usual = Inr (if s = '''' then usual else s)"
  by (simp add: string_or_usual_def)

lemma edge_record [simp]:
  "bindE (symbolic_edge_record (relation_index_record x i desc by_id)) symbolic_edge_from_wire =
    Inr (edge_of x (rd_name desc) i)"
  by (simp add: symbolic_edge_record_def relation_index_record_def symbolic_edge_from_wire_def edge_of_def Let_def)

lemma relation_record_total: "\<exists>r. relation_record_from_wire (relation_index_record x i desc by_id) = Inr r
    \<and> ri_source_id r = me_id x \<and> ri_target_id r = i \<and> ri_relation r = rd_name desc \<and> ri_target_exists r = (by_id i \<noteq> None)"
  by (simp add: relation_record_from_wire_def relation_index_record_def Let_def)

definition graph_of :: "relation_registry \<Rightarrow> MemoryEntry list \<Rightarrow> graph" where
  "graph_of reg xs =
     (map node_of xs,
      concat (map (\<lambda>x. concat (map (\<lambda>(name, desc). map (edge_of x (rd_name desc))
        (relation_targets (me_relations x) (rd_source_field desc))) reg)) xs))"

lemma mapE_concat: "(\<And>x. x \<in> set xs \<Longrightarrow> mapE f (g x) = Inr (h x)) \<Longrightarrow> mapE f (concat (map g xs)) = Inr (concat (map h xs))"
proof (induction xs)
  case (Cons x xs)
  have "mapE f (ys @ zs) = bindE (mapE f ys) (\<lambda>us. bindE (mapE f zs) (\<lambda>vs. Inr (us @ vs)))" for ys zs
    by (induction ys) (auto simp: bindE_def split: sum.splits)
  with Cons show ?case by simp
qed simp

lemma graph_total:
  "bindE (mapE (\<lambda>x. symbolic_node_from_wire (symbolic_node_record x)) xs) (\<lambda>nodes.
     bindE (mapE (\<lambda>r. bindE (symbolic_edge_record r) symbolic_edge_from_wire) (relation_records reg xs)) (\<lambda>edges.
       Inr (nodes, edges))) = Inr (graph_of reg xs)"
proof -
  have "mapE (\<lambda>r. bindE (symbolic_edge_record r) symbolic_edge_from_wire) (relation_records reg xs) = Inr (snd (graph_of reg xs))"
    unfolding relation_records_def relation_index_records_def graph_of_def snd_conv
    by (intro mapE_concat) (auto simp: mapE_map mapE_all_Inr split: prod.splits)
  then show ?thesis by (simp add: mapE_all_Inr [of _ _ node_of] graph_of_def)
qed

lemma set_sort_desc [simp]: "set (sort_desc f xs) = set xs"
  by (simp add: sort_desc_def)

lemma distinct_sort_desc [simp]: "distinct (map g (sort_desc f xs)) = distinct (map g xs)"
  by (simp add: sort_desc_def distinct_map)

text \<open>
  On a store that decodes the graph is always computed: its nodes are the stored entries, with distinct
  identifiers, so that the theorems about the traversals below apply.
\<close>

lemma compute_graph_run:
  assumes "memory_stored t"
  obtains xs where "compute_graph reg t = (Inr (graph_of reg xs), t)" "set xs = ran (entry_view t)"
    "distinct (map gn_id (fst (graph_of reg xs)))"
proof -
  let ?all = "stored_records entry_from_wire (t ''memory_entries'')"
  have stored: "entries.repo_stored ''memory_entries'' t" using assms by (simp add: memory_stored_def)
  have "list_memory t = (Inr (sort_desc me_updated_at ?all), t)"
    using entries.repo_list_stored [OF stored] by (simp add: list_memory_def bind_act_def)
  then have run: "compute_graph reg t = (Inr (graph_of reg (sort_desc me_updated_at ?all)), t)"
    by (simp add: compute_graph_def bind_act_def graph_total [unfolded node_record])
  have "set ?all = ran (entry_view t)" using entries.set_repo_list [OF stored] by simp
  moreover have "distinct (map me_id ?all)"
    using entries.repo_list_keys [OF stored] stored by (simp add: entries.repo_stored_def stored_ok_def rows_ok_distinct)
  moreover have "map gn_id (fst (graph_of reg xs)) = map me_id xs" for xs by (simp add: graph_of_def node_of_def)
  ultimately show ?thesis using run by (intro that [of "sort_desc me_updated_at ?all"]) simp_all
qed

section \<open>Arcs\<close>

definition arcs_of :: "adjacency \<Rightarrow> (string \<times> SymbolicGraphEdge \<times> string) set" where
  "arcs_of adj = {(a, e, b). (b, e) \<in> set (neighbors adj a)}"

definition steps :: "adjacency \<Rightarrow> (string \<times> string) set" where
  "steps adj = {(a, b). \<exists>e. (a, e, b) \<in> arcs_of adj}"

text \<open>The arcs an edge gives: from its source to its target, and back if it goes both ways.\<close>

definition edge_arcs ::
  "relation_registry \<Rightarrow> string option \<Rightarrow> bool \<Rightarrow> SymbolicGraphEdge \<Rightarrow> (string \<times> SymbolicGraphEdge \<times> string) set" where
  "edge_arcs reg relation bidirectional e =
     (if \<not> wanted (\<lambda>r. ge_relation e = r) relation then {}
      else {(ge_source e, e, ge_target e)}
        \<union> (if both_ways reg bidirectional e then {(ge_target e, e, ge_source e)} else {}))"

lemma in_edge_arcs:
  "(a, e, b) \<in> edge_arcs reg relation bidirectional e' \<longleftrightarrow> e = e' \<and> wanted (\<lambda>r. ge_relation e = r) relation
     \<and> (a = ge_source e \<and> b = ge_target e \<or> both_ways reg bidirectional e \<and> a = ge_target e \<and> b = ge_source e)"
  by (auto simp: edge_arcs_def)

lemma neighbors_add_arc: "neighbors (add_arc a arc adj) b = (if b = a then neighbors adj a @ [arc] else neighbors adj b)"
  by (simp add: neighbors_def add_arc_def update_conv')

lemma arcs_of_Nil [simp]: "arcs_of [] = {}"
  by (simp add: arcs_of_def neighbors_def)

lemma arcs_add_arc: "arcs_of (add_arc a (b, e) adj) = insert (a, e, b) (arcs_of adj)"
  by (auto simp: arcs_of_def neighbors_add_arc split: if_splits)

lemma arcs_add_edge: "arcs_of (add_edge reg relation bidirectional e adj) = arcs_of adj \<union> edge_arcs reg relation bidirectional e"
  by (auto simp: add_edge_def edge_arcs_def arcs_add_arc Let_def)

lemma arcs_build: "arcs_of (build_adjacency reg relation bidirectional es) = (\<Union>e \<in> set es. edge_arcs reg relation bidirectional e)"
proof -
  have "arcs_of (foldl (\<lambda>adj e. add_edge reg relation bidirectional e adj) adj es) =
      arcs_of adj \<union> (\<Union>e \<in> set es. edge_arcs reg relation bidirectional e)" for adj
    by (induction es arbitrary: adj) (auto simp: arcs_add_edge)
  then show ?thesis by (simp add: build_adjacency_def)
qed

lemma ends_steps: "arc_ends (neighbors adj a) = steps adj `` {a}"
  by (force simp: arc_ends_def steps_def arcs_of_def)

lemma all_arcs_steps: "arc_ends (all_arcs adj ids) = steps adj `` set ids"
  by (force simp: arc_ends_def all_arcs_def steps_def arcs_of_def)

section \<open>Distances\<close>

fun reach_in :: "('a \<times> 'a) set \<Rightarrow> 'a set \<Rightarrow> nat \<Rightarrow> 'a set" where
  "reach_in r A 0 = A"
| "reach_in r A (Suc n) = reach_in r A n \<union> r `` reach_in r A n"

lemma reach_in_mono: "m \<le> n \<Longrightarrow> reach_in r A m \<subseteq> reach_in r A n"
  by (induction n) (auto simp: le_Suc_eq)

lemma reach_in_relpow: "b \<in> reach_in r A n \<longleftrightarrow> (\<exists>k \<le> n. \<exists>a \<in> A. (a, b) \<in> r ^^ k)"
proof (induction n arbitrary: b)
  case (Suc n)
  show ?case
  proof
    assume "b \<in> reach_in r A (Suc n)"
    then consider "b \<in> reach_in r A n" | c where "c \<in> reach_in r A n" "(c, b) \<in> r" by auto
    then show "\<exists>k \<le> Suc n. \<exists>a \<in> A. (a, b) \<in> r ^^ k"
    proof cases
      case 1
      with Suc show ?thesis by (meson le_SucI)
    next
      case 2
      with Suc obtain k a where "k \<le> n" "a \<in> A" "(a, c) \<in> r ^^ k" by blast
      with 2(2) show ?thesis by (intro exI [of _ "Suc k"]) auto
    qed
  next
    assume "\<exists>k \<le> Suc n. \<exists>a \<in> A. (a, b) \<in> r ^^ k"
    then obtain k a where k: "k \<le> Suc n" "a \<in> A" "(a, b) \<in> r ^^ k" by blast
    show "b \<in> reach_in r A (Suc n)"
    proof (cases "k \<le> n")
      case True
      with k Suc show ?thesis by auto
    next
      case False
      with k have "k = Suc n" by simp
      with k(3) obtain c where c: "(a, c) \<in> r ^^ n" "(c, b) \<in> r" by auto
      with k(2) Suc [of c] have "c \<in> reach_in r A n" by blast
      with c(2) show ?thesis by auto
    qed
  qed
qed auto

lemma reach_in_rtrancl: "(\<Union>n. reach_in r A n) = r\<^sup>* `` A"
proof (rule set_eqI)
  fix b
  have "b \<in> (\<Union>n. reach_in r A n) \<longleftrightarrow> (\<exists>n. \<exists>k \<le> n. \<exists>a \<in> A. (a, b) \<in> r ^^ k)"
    by (simp add: reach_in_relpow)
  also have "\<dots> \<longleftrightarrow> (\<exists>k. \<exists>a \<in> A. (a, b) \<in> r ^^ k)" by blast
  also have "\<dots> \<longleftrightarrow> b \<in> r\<^sup>* `` A" by (simp add: rtrancl_is_UN_relpow Image_iff) blast
  finally show "b \<in> (\<Union>n. reach_in r A n) \<longleftrightarrow> b \<in> r\<^sup>* `` A" .
qed

lemma reach_in_closed:
  assumes "r `` reach_in r A n \<subseteq> reach_in r A n"
  shows "reach_in r A n = r\<^sup>* `` A"
proof
  show "reach_in r A n \<subseteq> r\<^sup>* `` A" using reach_in_rtrancl [of r A] by blast
  have "reach_in r A m \<subseteq> reach_in r A n" for m
    using assms reach_in_mono [of 0 n r A] by (induction m) auto
  then show "r\<^sup>* `` A \<subseteq> reach_in r A n" using reach_in_rtrancl [of r A] by blast
qed

section \<open>Rounds\<close>

lemma start_ok: "distinct ids \<Longrightarrow> traversal_ok (start_at ids)"
  by (simp add: traversal_ok_def start_at_def)

text \<open>The edges collected in the first \<open>n\<close> rounds are those out of the nodes reached one round before.\<close>

definition edges_from :: "adjacency \<Rightarrow> string set \<Rightarrow> SymbolicGraphEdge set" where
  "edges_from adj A = {e. \<exists>a \<in> A. \<exists>b. (a, e, b) \<in> arcs_of adj}"

definition before :: "adjacency \<Rightarrow> string set \<Rightarrow> nat \<Rightarrow> string set" where
  "before adj A n = (case n of 0 \<Rightarrow> {} | Suc m \<Rightarrow> reach_in (steps adj) A m)"

lemma edges_from_Un: "edges_from adj (A \<union> B) = edges_from adj A \<union> edges_from adj B"
  by (auto simp: edges_from_def)

lemma all_arcs_edges: "snd ` set (all_arcs adj ids) = edges_from adj (set ids)"
  by (force simp: all_arcs_def edges_from_def arcs_of_def)

lemma rounds:
  assumes ids: "distinct ids" and order: "\<And>xs. set (order xs) = set xs"
  shows "let s = (expand order adj ^^ n) (start_at ids) in traversal_ok s
    \<and> set (tv_visited s) = reach_in (steps adj) (set ids) n
    \<and> set (tv_frontier s) = reach_in (steps adj) (set ids) n - before adj (set ids) n
    \<and> set (tv_seen s) = ge_id ` edges_from adj (before adj (set ids) n)
    \<and> set (tv_edges s) \<subseteq> edges_from adj (before adj (set ids) n)"
proof (induction n)
  case 0
  then show ?case using start_ok [OF ids] by (simp add: Let_def start_at_def before_def edges_from_def)
next
  case (Suc n)
  let ?s = "(expand order adj ^^ n) (start_at ids)"
  let ?A = "set ids" and ?W = "reach_in (steps adj) (set ids)"
  have IH: "traversal_ok ?s" "set (tv_visited ?s) = ?W n" "set (tv_frontier ?s) = ?W n - before adj ?A n"
    "set (tv_seen ?s) = ge_id ` edges_from adj (before adj ?A n)" "set (tv_edges ?s) \<subseteq> edges_from adj (before adj ?A n)"
    using Suc by (simp_all add: Let_def)
  note e = expand_all [OF IH(1), of order adj]
  have front: "set (order (tv_frontier ?s)) = ?W n - before adj ?A n" using IH(3) order by simp
  have sub: "before adj ?A n \<subseteq> ?W n"
    by (cases n) (auto simp: before_def)
  have old: "steps adj `` before adj ?A n \<subseteq> ?W n"
    by (cases n) (auto simp: before_def)
  have ends: "arc_ends (all_arcs adj (order (tv_frontier ?s))) = steps adj `` (?W n - before adj ?A n)"
    by (simp add: all_arcs_steps front)
  have edges: "snd ` set (all_arcs adj (order (tv_frontier ?s))) = edges_from adj (?W n - before adj ?A n)"
    by (simp add: all_arcs_edges front)
  have whole: "edges_from adj (before adj ?A n) \<union> edges_from adj (?W n - before adj ?A n) = edges_from adj (?W n)"
    using sub by (simp add: edges_from_Un [symmetric] Un_absorb1)
  have all: "?W n \<union> steps adj `` (?W n - before adj ?A n) = ?W (Suc n)" using old by auto
  have "set (tv_visited (expand order adj ?s)) = ?W (Suc n)" using e(2) IH(2) ends all by simp
  moreover have "set (tv_frontier (expand order adj ?s)) = ?W (Suc n) - before adj ?A (Suc n)"
    using e(3) IH(2) ends all by (auto simp: before_def)
  moreover have "set (tv_seen (expand order adj ?s)) = ge_id ` edges_from adj (before adj ?A (Suc n))"
    using e(4) IH(4) whole edges by (simp add: arc_ids_def before_def image_Un [symmetric])
  moreover have "set (tv_edges (expand order adj ?s)) \<subseteq> edges_from adj (before adj ?A (Suc n))"
    using e(5) IH(5) whole edges by (auto simp: before_def)
  ultimately show ?case using e(1) by (simp add: Let_def)
qed

lemma closure_loop_rounds:
  "\<exists>n. closure_loop order adj s = (expand order adj ^^ n) s \<and> tv_frontier ((expand order adj ^^ n) s) = []"
proof (induction order adj s rule: closure_loop.induct)
  case (1 order adj s)
  show ?case
  proof (cases "tv_frontier s = []")
    case True
    then show ?thesis by (intro exI [of _ 0]) (simp add: closure_loop.simps)
  next
    case False
    with 1 obtain n where "closure_loop order adj (expand order adj s) = (expand order adj ^^ n) (expand order adj s)"
      "tv_frontier ((expand order adj ^^ n) (expand order adj s)) = []" by blast
    with False show ?thesis
      by (intro exI [of _ "Suc n"]) (simp add: closure_loop.simps [of order adj s] funpow_swap1)
  qed
qed

lemma closure_loop_reaches:
  assumes "distinct ids" and "\<And>xs. set (order xs) = set xs"
  shows "let s = closure_loop order adj (start_at ids); R = (steps adj)\<^sup>* `` set ids in
    traversal_ok s \<and> set (tv_result s) = R \<and> set (tv_seen s) = ge_id ` edges_from adj R \<and> set (tv_edges s) \<subseteq> edges_from adj R"
proof -
  obtain n where n: "closure_loop order adj (start_at ids) = (expand order adj ^^ n) (start_at ids)"
    "tv_frontier ((expand order adj ^^ n) (start_at ids)) = []"
    using closure_loop_rounds by blast
  let ?s = "(expand order adj ^^ n) (start_at ids)" and ?W = "reach_in (steps adj) (set ids)"
  have r: "traversal_ok ?s" "set (tv_visited ?s) = ?W n" "set (tv_frontier ?s) = ?W n - before adj (set ids) n"
    "set (tv_seen ?s) = ge_id ` edges_from adj (before adj (set ids) n)"
    "set (tv_edges ?s) \<subseteq> edges_from adj (before adj (set ids) n)"
    using rounds [where adj = adj and n = n, OF assms] by (simp_all add: Let_def)
  have "before adj (set ids) n \<subseteq> ?W n" "steps adj `` before adj (set ids) n \<subseteq> ?W n"
    by (cases n; auto simp: before_def)+
  moreover have "?W n \<subseteq> before adj (set ids) n" using r(3) n(2) by auto
  ultimately have b: "before adj (set ids) n = ?W n" and "steps adj `` ?W n \<subseteq> ?W n" by auto
  then have "?W n = (steps adj)\<^sup>* `` set ids" by (intro reach_in_closed)
  with r b n(1) show ?thesis by (simp add: Let_def traversal_ok_def)
qed

section \<open>Nodes found\<close>

lemma last_by_Some:
  assumes "distinct (map gn_id nodes)"
  shows "last_by gn_id nodes i = Some n \<longleftrightarrow> n \<in> set nodes \<and> gn_id n = i"
proof -
  have "map fst (rev (map (\<lambda>x. (gn_id x, x)) nodes)) = rev (map gn_id nodes)" by (simp add: rev_map comp_def)
  with assms have "distinct (map fst (rev (map (\<lambda>x. (gn_id x, x)) nodes)))" by (metis distinct_rev)
  from map_of_eq_Some_iff [OF this] show ?thesis by (auto simp: last_by_def)
qed

lemma in_map_filter: "y \<in> set (List.map_filter f xs) \<longleftrightarrow> (\<exists>x \<in> set xs. f x = Some y)"
  by (induction xs) (auto simp: List.map_filter_def)

lemma found_nodes_spec:
  assumes "distinct (map gn_id nodes)" and "distinct ids"
  shows "set (found_nodes nodes ids) = {n \<in> set nodes. gn_id n \<in> set ids}"
    and "sorted_wrt (<) (map gn_id (found_nodes nodes ids))"
proof -
  show "set (found_nodes nodes ids) = {n \<in> set nodes. gn_id n \<in> set ids}"
    using last_by_Some [OF assms(1)] by (auto simp: found_nodes_def in_map_filter)
  have "map gn_id (List.map_filter (last_by gn_id nodes) is) = filter (\<lambda>i. \<exists>n. last_by gn_id nodes i = Some n) is" for "is"
  proof (induction "is")
    case (Cons i "is")
    then show ?case
      using last_by_Some [OF assms(1), of i] by (cases "last_by gn_id nodes i") (auto simp: List.map_filter_def)
  qed (simp add: List.map_filter_def)
  moreover have "sorted_wrt (<) (sort ids)" using assms(2) by (simp add: strict_sorted_iff)
  ultimately show "sorted_wrt (<) (map gn_id (found_nodes nodes ids))"
    by (simp add: found_nodes_def sorted_wrt_filter)
qed

section \<open>Closures\<close>

text \<open>One step over a relation: along an edge, or against it if the relation is symmetric.\<close>

definition relation_steps :: "relation_registry \<Rightarrow> string \<Rightarrow> SymbolicGraphEdge list \<Rightarrow> (string \<times> string) set" where
  "relation_steps reg relation es =
     {(a, b). \<exists>e \<in> set es. ge_relation e = relation \<and> (ge_source e = a \<and> ge_target e = b
        \<or> both_ways reg False e \<and> ge_target e = a \<and> ge_source e = b)}"

lemma steps_relation: "steps (build_adjacency reg (Some relation) False es) = relation_steps reg relation es"
  unfolding steps_def arcs_build relation_steps_def by (simp add: in_edge_arcs wanted_def) blast

definition leaves :: "relation_registry \<Rightarrow> string option \<Rightarrow> bool \<Rightarrow> string set \<Rightarrow> SymbolicGraphEdge \<Rightarrow> bool" where
  "leaves reg relation bidirectional A e \<longleftrightarrow> wanted (\<lambda>r. ge_relation e = r) relation
     \<and> (ge_source e \<in> A \<or> both_ways reg bidirectional e \<and> ge_target e \<in> A)"

lemma edges_from_build:
  "edges_from (build_adjacency reg relation bidirectional es) A = {e \<in> set es. leaves reg relation bidirectional A e}"
  unfolding edges_from_def arcs_build by (simp add: in_edge_arcs leaves_def) blast

text \<open>
  C25: The transitive closure of a relation from a node always returns, and answers exactly the nodes of
  the graph that the relation reaches in any number of steps, symmetric relations being followed both
  ways, in the order of their identifiers; of the relation's edges that leave a reached node it
  answers one for each edge identifier. The order in which the sets are iterated does not matter.
\<close>

theorem closure_exact:
  assumes "\<And>xs. set (order xs) = set xs" and "distinct (map gn_id nodes)"
  shows "let R = (relation_steps reg relation edges)\<^sup>* `` {i};
      res = transitive_closure_from order reg (nodes, edges) i relation in
    set (gs_nodes res) = {n \<in> set nodes. gn_id n \<in> R}
    \<and> sorted_wrt (<) (map gn_id (gs_nodes res))
    \<and> distinct (map ge_id (gs_edges res))
    \<and> set (gs_edges res) \<subseteq> {e \<in> set edges. leaves reg (Some relation) False R e}
    \<and> ge_id ` set (gs_edges res) = ge_id ` {e \<in> set edges. leaves reg (Some relation) False R e}"
proof -
  let ?adj = "build_adjacency reg (Some relation) False edges"
  let ?s = "closure_loop order ?adj (start_at [i])"
  let ?R = "(relation_steps reg relation edges)\<^sup>* `` {i}"
  have res: "transitive_closure_from order reg (nodes, edges) i relation =
      \<lparr>gs_nodes = found_nodes nodes (tv_result ?s), gs_edges = tv_edges ?s\<rparr>"
    by (simp add: transitive_closure_from_def Let_def)
  have s: "traversal_ok ?s" "set (tv_result ?s) = ?R" "set (tv_seen ?s) = ge_id ` edges_from ?adj ?R"
    "set (tv_edges ?s) \<subseteq> edges_from ?adj ?R"
    using closure_loop_reaches [where ids = "[i]" and adj = ?adj, OF _ assms(1)]
    by (simp_all add: Let_def steps_relation)
  have d: "distinct (tv_result ?s)" "map ge_id (tv_edges ?s) = tv_seen ?s" "distinct (tv_seen ?s)"
    using s(1) by (auto simp: traversal_ok_def)
  have "ge_id ` set (tv_edges ?s) = set (tv_seen ?s)" using d(2) by (metis set_map)
  with found_nodes_spec [OF assms(2) d(1)] s d show ?thesis
    by (simp add: res edges_from_build Let_def)
qed

section \<open>Search\<close>

lemma steps_any: "steps (build_adjacency reg None True es) =
    {(a, b). \<exists>e \<in> set es. ge_source e = a \<and> ge_target e = b \<or> ge_target e = a \<and> ge_source e = b}"
  unfolding steps_def arcs_build by (simp add: in_edge_arcs wanted_def both_ways_def) blast

definition touching :: "SymbolicGraphEdge list \<Rightarrow> (string \<times> string) set" where
  "touching es = {(a, b). \<exists>e \<in> set es. ge_source e = a \<and> ge_target e = b \<or> ge_target e = a \<and> ge_source e = b}"

text \<open>
  A graph search answers first the matching nodes, up to the limit, then exactly the other nodes
  within the given number of steps of them, whatever the direction of the edges, in the order of
  their identifiers; its edges are, one for each edge identifier, those that touch a node closer than
  that. Without a positive depth it answers the matching nodes only.
\<close>

theorem search_reaches_depth:
  assumes "\<And>xs. set (order xs) = set xs" and "distinct (map gn_id nodes)"
    and matched: "matched = slice_to limit (filter (\<lambda>n. matches_graph_node node_type n \<and> matches_graph_text query n) nodes)"
    and near: "near = reach_in (touching edges) (gn_id ` set matched)"
    and result: "res = graph_search order reg (nodes, edges) query node_type limit levels"
  shows "(levels \<le> 0 \<longrightarrow> gs_nodes res = matched \<and> gs_edges res = [])
    \<and> (0 < levels \<longrightarrow> (\<exists>extra. gs_nodes res = matched @ extra
        \<and> set extra = {n \<in> set nodes. gn_id n \<in> near (nat levels)} - set matched
        \<and> sorted_wrt (<) (map gn_id extra) \<and> distinct (map ge_id (gs_edges res))
        \<and> ge_id ` set (gs_edges res) =
            ge_id ` {e \<in> set edges. ge_source e \<in> near (nat levels - 1) \<or> ge_target e \<in> near (nat levels - 1)}))"
proof (intro conjI impI)
  assume "levels \<le> 0"
  then show "gs_nodes res = matched" "gs_edges res = []" by (simp_all add: result graph_search_def matched Let_def)
next
  assume pos: "0 < levels"
  let ?adj = "build_adjacency reg None True edges"
  let ?ids = "remdups (map gn_id matched)"
  let ?s = "(expand order ?adj ^^ nat levels) (start_at ?ids)"
  let ?new = "filter (\<lambda>i. i \<notin> set (map gn_id matched)) (tv_result ?s)"
  have steps: "steps ?adj = touching edges" by (simp add: steps_any touching_def)
  have before: "before ?adj (set ?ids) (nat levels) = near (nat levels - 1)"
    using pos by (simp add: before_def near steps split: nat.splits)
  have s: "traversal_ok ?s" "set (tv_visited ?s) = near (nat levels)"
    "set (tv_seen ?s) = ge_id ` edges_from ?adj (near (nat levels - 1))"
    using rounds [where ids = ?ids and adj = ?adj and n = "nat levels", OF distinct_remdups assms(1)] before
    by (simp_all add: Let_def near steps)
  have d: "distinct ?new" "set (tv_result ?s) = near (nat levels)" "map ge_id (tv_edges ?s) = tv_seen ?s" "distinct (tv_seen ?s)"
    using s by (auto simp: traversal_ok_def)
  have res: "res = \<lparr>gs_nodes = matched @ found_nodes nodes ?new, gs_edges = tv_edges ?s\<rparr>"
    using pos by (simp add: result graph_search_def matched Let_def)
  have sub: "set matched \<subseteq> set nodes"
    using set_take_subset unfolding matched slice_to_def by fastforce
  have "{n \<in> set nodes. gn_id n \<in> set ?new} = {n \<in> set nodes. gn_id n \<in> near (nat levels)} - set matched"
    using d(2) sub assms(2) by (auto simp: distinct_map inj_on_def)
  moreover have "ge_id ` set (tv_edges ?s) = set (tv_seen ?s)" using d(3) by (metis set_map)
  ultimately show "\<exists>extra. gs_nodes res = matched @ extra
        \<and> set extra = {n \<in> set nodes. gn_id n \<in> near (nat levels)} - set matched
        \<and> sorted_wrt (<) (map gn_id extra) \<and> distinct (map ge_id (gs_edges res))
        \<and> ge_id ` set (gs_edges res) =
            ge_id ` {e \<in> set edges. ge_source e \<in> near (nat levels - 1) \<or> ge_target e \<in> near (nat levels - 1)}"
    using found_nodes_spec [OF assms(2) d(1)] d s(3)
    by (intro exI [of _ "found_nodes nodes ?new"])
      (simp add: res edges_from_build leaves_def wanted_def both_ways_def)
qed

section \<open>Paths\<close>

text \<open>A path follows edges in either direction.\<close>

fun connects :: "SymbolicGraphEdge list \<Rightarrow> string \<Rightarrow> SymbolicGraphEdge list \<Rightarrow> string \<Rightarrow> bool" where
  "connects es a [] b = (a = b)"
| "connects es a (e # p) b =
     (e \<in> set es \<and> (ge_source e = a \<and> connects es (ge_target e) p b \<or> ge_target e = a \<and> connects es (ge_source e) p b))"

lemma connects_snoc:
  "connects es a p c \<Longrightarrow> e \<in> set es \<Longrightarrow> ge_source e = c \<and> ge_target e = b \<or> ge_target e = c \<and> ge_source e = b
    \<Longrightarrow> connects es a (p @ [e]) b"
  by (induction p arbitrary: a) auto

lemma connects_relpow: "connects es a p b \<Longrightarrow> (a, b) \<in> touching es ^^ length p"
proof (induction p arbitrary: a)
  case (Cons e p)
  then obtain c where "(a, c) \<in> touching es" "connects es c p b" by (auto simp: touching_def)
  with Cons.IH have "(a, b) \<in> touching es O touching es ^^ length p" by auto
  then show ?case by (simp add: relpow_commute)
qed simp

lemma relpow_connects: "(a, b) \<in> touching es ^^ n \<Longrightarrow> \<exists>p. connects es a p b \<and> length p = n"
proof (induction n arbitrary: b)
  case (Suc n)
  then obtain c where c: "(a, c) \<in> touching es ^^ n" "(c, b) \<in> touching es" by auto
  from Suc.IH [OF c(1)] obtain p where p: "connects es a p c" "length p = n" by blast
  from c(2) obtain e where "e \<in> set es" "ge_source e = c \<and> ge_target e = b \<or> ge_target e = c \<and> ge_source e = b"
    by (auto simp: touching_def)
  from connects_snoc [OF p(1) this] p(2) show ?case by (intro exI [of _ "p @ [e]"]) simp
qed simp

definition reached_before :: "SymbolicGraphEdge list \<Rightarrow> string \<Rightarrow> nat \<Rightarrow> string set" where
  "reached_before es a k = (case k of 0 \<Rightarrow> {} | Suc m \<Rightarrow> reach_in (touching es) {a} m)"

text \<open>
  The queue holds nodes at distance \<open>k\<close> (\<open>q1\<close>) and then nodes at the next distance (\<open>q2\<close>); visited are
  the nodes up to distance \<open>k\<close> and the neighbors of those among them that have left the queue.
\<close>

definition path_inv ::
  "SymbolicGraphEdge list \<Rightarrow> string \<Rightarrow> string \<Rightarrow> nat \<Rightarrow> path_queue \<Rightarrow> path_queue \<Rightarrow> string list \<Rightarrow> bool" where
  "path_inv es a b k q1 q2 visited \<longleftrightarrow>
     (let W = reach_in (touching es) {a} k; d = W - fst ` set q1 in
      (\<forall>(x, p) \<in> set q1. connects es a p x \<and> length p = k) \<and> (\<forall>(x, p) \<in> set q2. connects es a p x \<and> length p = Suc k)
      \<and> distinct (map fst (q1 @ q2)) \<and> fst ` set q1 \<subseteq> W - reached_before es a k
      \<and> set visited = W \<union> touching es `` d \<and> fst ` set q2 = set visited - W \<and> b \<notin> d)"

lemma path_inv_start: "path_inv es a b 0 [(a, [])] [] [a]"
  by (simp add: path_inv_def reached_before_def Let_def)

lemma path_inv_next_level:
  assumes "path_inv es a b k [] q2 visited"
  shows "path_inv es a b (Suc k) q2 [] visited"
proof -
  let ?W = "reach_in (touching es) {a}"
  from assms have v: "set visited = ?W (Suc k)" and q2: "fst ` set q2 = ?W (Suc k) - ?W k" and b: "b \<notin> ?W k"
    by (auto simp: path_inv_def Let_def)
  have rest: "?W (Suc k) - fst ` set q2 = ?W k" using q2 by auto
  have "set visited = ?W (Suc k) \<union> touching es `` ?W k" using v by auto
  with assms rest v q2 b show ?thesis by (simp add: path_inv_def Let_def reached_before_def)
qed

lemma path_inv_step:
  assumes inv: "path_inv es a b k ((x, p) # q1) q2 visited" and "x \<noteq> b"
    and push: "foldl (push_neighbor p) (q1 @ q2, visited) (neighbors (build_adjacency reg None True es) x) = (queue, visited')"
  shows "\<exists>new. queue = q1 @ (q2 @ new) \<and> path_inv es a b k q1 (q2 @ new) visited'"
proof -
  let ?adj = "build_adjacency reg None True es" and ?W = "reach_in (touching es) {a} k" and ?r = "touching es"
  have steps: "steps ?adj = ?r" by (simp add: steps_any touching_def)
  obtain new where new: "queue = (q1 @ q2) @ new" "visited' = visited @ map fst new" "distinct (map fst new)"
    "set (map fst new) = ?r `` {x} - set visited" "\<forall>(y, p') \<in> set new. \<exists>e. (y, e) \<in> set (neighbors ?adj x) \<and> p' = p @ [e]"
    using push_all [OF push] by (auto simp: ends_steps steps)
  have i: "\<forall>(y, p') \<in> set ((x, p) # q1). connects es a p' y \<and> length p' = k" "x \<in> ?W" "x \<notin> fst ` set q1"
    "set visited = ?W \<union> ?r `` (?W - insert x (fst ` set q1))" "fst ` set q2 = set visited - ?W"
    "b \<notin> ?W - insert x (fst ` set q1)"
    using inv by (simp_all add: path_inv_def Let_def)
  have more: "?W - fst ` set q1 = insert x (?W - insert x (fst ` set q1))" using i(2,3) by auto
  have vis: "set visited' = ?W \<union> ?r `` (?W - fst ` set q1)" using new(2,4) i(4) more by auto
  have ext: "connects es a p' y \<and> length p' = Suc k" if "(y, p') \<in> set new" for y p'
  proof -
    from new(5) that obtain e where e: "(x, e, y) \<in> arcs_of ?adj" "p' = p @ [e]" by (auto simp: arcs_of_def)
    then have "e \<in> set es" "ge_source e = x \<and> ge_target e = y \<or> ge_target e = x \<and> ge_source e = y"
      by (auto simp: arcs_build in_edge_arcs)
    with i(1) e(2) show ?thesis by (auto intro: connects_snoc)
  qed
  have sub: "fst ` set (q1 @ q2) \<subseteq> set visited" using inv by (auto simp: path_inv_def Let_def)
  then have "distinct (map fst (q1 @ q2 @ new))"
    using inv new(3,4) by (auto simp: path_inv_def Let_def)
  moreover have "fst ` set q2 \<union> set (map fst new) = set visited' - ?W"
    unfolding i(5) new(4) using new(2,4) i(4) by auto
  then have "fst ` set (q2 @ new) = set visited' - ?W" by (simp add: image_Un)
  moreover have "b \<notin> ?W - fst ` set q1" using more i(6) assms(2) by auto
  ultimately have "path_inv es a b k q1 (q2 @ new) visited'"
    using inv ext vis by (auto simp: path_inv_def Let_def)
  with new(1) show ?thesis by auto
qed

definition shortest :: "SymbolicGraphEdge list \<Rightarrow> string \<Rightarrow> SymbolicGraphEdge list \<Rightarrow> string \<Rightarrow> bool" where
  "shortest es a p b \<longleftrightarrow> connects es a p b \<and> (\<forall>q. connects es a q b \<longrightarrow> length p \<le> length q)"

lemma path_inv_found:
  assumes "path_inv es a b k ((b, p) # q1) q2 visited"
  shows "shortest es a p b"
proof -
  from assms have p: "connects es a p b" "length p = k" and far: "b \<notin> reached_before es a k"
    by (auto simp: path_inv_def Let_def)
  have "k \<le> length q" if "connects es a q b" for q
  proof (rule ccontr)
    assume "\<not> k \<le> length q"
    then obtain m where m: "k = Suc m" "length q \<le> m" by (cases k) auto
    with connects_relpow [OF that] have "b \<in> reach_in (touching es) {a} m" by (auto simp: reach_in_relpow)
    with far m(1) show False by (simp add: reached_before_def)
  qed
  with p show ?thesis by (simp add: shortest_def)
qed

lemma path_inv_empty:
  assumes "path_inv es a b k [] [] visited"
  shows "\<not> connects es a q b"
proof
  assume "connects es a q b"
  then have "(a, b) \<in> touching es ^^ length q" by (rule connects_relpow)
  then have "b \<in> (touching es)\<^sup>* `` {a}" by (auto simp: rtrancl_power)
  moreover have "touching es `` reach_in (touching es) {a} k \<subseteq> reach_in (touching es) {a} k" and "b \<notin> reach_in (touching es) {a} k"
    using assms by (auto simp: path_inv_def Let_def)
  ultimately show False using reach_in_closed by blast
qed

lemma path_loop_shortest:
  "queue = q1 @ q2 \<Longrightarrow> path_inv es a b k q1 q2 visited \<Longrightarrow>
    (let p = path_loop (build_adjacency reg None True es) b queue visited in
     shortest es a p b \<or> p = [] \<and> (\<forall>q. \<not> connects es a q b))"
proof (induction "build_adjacency reg None True es" b queue visited arbitrary: k q1 q2 rule: path_loop.induct)
  case (1 to_id visited)
  then show ?case using path_inv_empty by (simp add: Let_def)
next
  case (2 to_id x p queue visited)
  obtain k' r1 r2 where r: "queue = r1 @ r2" "path_inv es a to_id k' ((x, p) # r1) r2 visited"
  proof (cases q1)
    case Nil
    with "2.prems" path_inv_next_level [of es a to_id k q2 visited] show thesis
      by (intro that [of queue "[]" "Suc k"]) simp_all
  next
    case (Cons y ys)
    with "2.prems" show thesis by (intro that [of ys q2 k]) simp_all
  qed
  show ?case
  proof (cases "x = to_id")
    case True
    with path_inv_found r(2) show ?thesis by (simp add: Let_def)
  next
    case False
    obtain queue' visited' where push: "foldl (push_neighbor p) (queue, visited) (neighbors (build_adjacency reg None True es) x) = (queue', visited')"
      by fastforce
    from path_inv_step [OF r(2) False push [unfolded r(1)]] obtain new where
      "queue' = r1 @ (r2 @ new)" "path_inv es a to_id k' r1 (r2 @ new) visited'" by blast
    from "2.hyps" [OF False push [symmetric] this] False push show ?thesis by (simp add: Let_def)
  qed
qed

text \<open>
  C26: A path search always returns. It answers a shortest path between the two nodes, edges being
  followed in either direction, if there is any path; the empty path it answers otherwise is also the
  answer for a node and itself.
\<close>

theorem find_path_shortest:
  "let p = path_in_graph reg edges a b in
   (connects edges a p b \<and> (\<forall>q. connects edges a q b \<longrightarrow> length p \<le> length q))
   \<or> (p = [] \<and> (\<forall>q. \<not> connects edges a q b))"
proof (cases "map_of (build_adjacency reg None True edges) a = None")
  case True
  then have "neighbors (build_adjacency reg None True edges) a = []" by (simp add: neighbors_def)
  then have "touching edges `` {a} = {}"
    using ends_steps [of "build_adjacency reg None True edges" a] by (simp add: arc_ends_def steps_any touching_def)
  then have "\<not> connects edges a (e # q) b" for e q by (auto simp: touching_def)
  then have "\<not> connects edges a q b" if "a \<noteq> b" for q using that by (cases q) auto
  with True show ?thesis by (cases "a = b") (simp_all add: path_in_graph_def Let_def)
next
  case False
  have "let p = path_loop (build_adjacency reg None True edges) b [(a, [])] [a] in
      shortest edges a p b \<or> p = [] \<and> (\<forall>q. \<not> connects edges a q b)"
    by (rule path_loop_shortest [OF _ path_inv_start]) simp
  with False show ?thesis by (auto simp: path_in_graph_def Let_def shortest_def simp del: path_loop.simps)
qed

section \<open>Instances\<close>

definition sample_node :: "string \<Rightarrow> SymbolicGraphNode" where
  "sample_node i = \<lparr>gn_id = i, gn_kind = ''Memory'', gn_type = ''goal'', gn_label = i, gn_body = '''', gn_tags = []\<rparr>"

definition sample_edge :: "string \<Rightarrow> string \<Rightarrow> SymbolicGraphEdge" where
  "sample_edge a b =
     \<lparr>ge_id = a @ '':depends_on:'' @ b, ge_relation = ''depends_on'', ge_source = a, ge_target = b, ge_confidence = Finite 1\<rparr>"

definition sample_graph :: graph where
  "sample_graph = (map sample_node [''c'', ''a'', ''b'', ''d''], [sample_edge ''a'' ''b'', sample_edge ''b'' ''c'', sample_edge ''d'' ''a''])"

lemma sample_node_simps [simp]: "gn_id (sample_node i) = i" "sample_node i = sample_node j \<longleftrightarrow> i = j"
  by (simp_all add: sample_node_def)

lemma sample_nodes_distinct: "distinct (map gn_id (fst sample_graph))"
  by (simp add: sample_graph_def sample_node_def)

lemma closure_exact_witness:
  "sample_node ''c'' \<in> set (gs_nodes (transitive_closure_from rev default_relation_registry
     (fst sample_graph, snd sample_graph) ''a'' ''depends_on''))"
proof -
  let ?r = "relation_steps default_relation_registry ''depends_on'' (snd sample_graph)"
  have "(''a'', ''b'') \<in> ?r" "(''b'', ''c'') \<in> ?r"
    by (simp_all add: relation_steps_def sample_graph_def sample_edge_def)
  then have "(''a'', ''c'') \<in> ?r\<^sup>*" by (meson converse_rtrancl_into_rtrancl rtrancl.rtrancl_refl)
  moreover have "sample_node ''c'' \<in> set (fst sample_graph)" "gn_id (sample_node ''c'') = ''c''"
    by (simp_all add: sample_graph_def sample_node_def)
  ultimately show ?thesis
    using closure_exact [OF set_rev sample_nodes_distinct, of default_relation_registry "''depends_on''" "snd sample_graph" "''a''"]
    by (simp add: Let_def)
qed

lemma search_reaches_depth_witness:
  "set (gs_nodes (graph_search rev default_relation_registry (fst sample_graph, snd sample_graph) ''b'' None 1 1)) =
     {sample_node ''a'', sample_node ''b'', sample_node ''c''}"
proof -
  let ?m = "[sample_node ''b'']"
  have m: "?m = slice_to 1 (filter (\<lambda>n. matches_graph_node None n \<and> matches_graph_text ''b'' n) (fst sample_graph))"
    by (simp add: sample_graph_def sample_node_def matches_graph_node_def matches_graph_text_def wanted_def slice_to_def
        strip_def casefold_def casefold_char_def py_space_def)
  have near: "reach_in (touching (snd sample_graph)) (gn_id ` set ?m) (nat 1) = {''a'', ''b'', ''c''}"
  proof -
    have "touching (snd sample_graph) =
        {(''a'', ''b''), (''b'', ''a''), (''b'', ''c''), (''c'', ''b''), (''d'', ''a''), (''a'', ''d'')}"
      by (auto simp: touching_def sample_graph_def sample_edge_def)
    then have "touching (snd sample_graph) `` {''b''} = {''a'', ''c''}" by auto
    then show ?thesis by (auto simp: sample_node_def)
  qed
  from mp [OF conjunct2 [OF search_reaches_depth [where edges = "snd sample_graph"
      and reg = default_relation_registry and levels = 1, OF set_rev sample_nodes_distinct m refl refl]] zero_less_one]
  obtain extra where "gs_nodes (graph_search rev default_relation_registry (fst sample_graph, snd sample_graph) ''b'' None 1 1) = ?m @ extra"
    "set extra = {n \<in> set (fst sample_graph). gn_id n \<in> {''a'', ''b'', ''c''}} - set ?m"
    unfolding near by (elim exE conjE) (rule that)
  moreover have "{n \<in> set (fst sample_graph). gn_id n \<in> {''a'', ''b'', ''c''}} - set ?m = {sample_node ''a'', sample_node ''c''}"
    by (auto simp: sample_graph_def)
  ultimately show ?thesis by auto
qed

lemma find_path_shortest_witness:
  "length (path_in_graph default_relation_registry (snd sample_graph) ''d'' ''c'') = 3"
proof -
  have "path_in_graph default_relation_registry (snd sample_graph) ''d'' ''c'' =
      [sample_edge ''d'' ''a'', sample_edge ''a'' ''b'', sample_edge ''b'' ''c'']"
    by (simp add: path_in_graph_def sample_graph_def sample_edge_def build_adjacency_def add_edge_def wanted_def both_ways_def
        add_arc_def neighbors_def push_neighbor_def)
  moreover have "connects (snd sample_graph) ''d'' (path_in_graph default_relation_registry (snd sample_graph) ''d'' ''c'') ''c''"
    using find_path_shortest [of default_relation_registry "snd sample_graph" "''d''" "''c''"] calculation by (auto simp: Let_def)
  ultimately show ?thesis by simp
qed

end
