(* ===== verification/DaemonProtocol.thy ===== *)
theory DaemonProtocol
  imports PyValues
begin

text \<open>
  \<open>daemon/protocol.py\<close>: the one-line JSON frames between the command line and the daemon, their
  envelopes, and the checks made on what is written and on what is read. A byte is a character.

  \<open>json.dumps\<close> is written out, except for the decimal notation of a float (\<open>frepr\<close>). Of \<open>json.loads\<close>
  the hooks the code installs are written out; what its grammar (and the UTF-8 decoder before it) makes of a line is the
  argument \<open>parse\<close>, which answers the document with its object members in order.
\<close>

section \<open>Documents as the decoder meets them\<close>

datatype json_doc =
    JNull
  | JBool bool
  | JInt int
  | JFloat pyfloat
  | JStr string
  | JConstant string
  | JArray "json_doc list"
  | JObject "(string \<times> json_doc) list"

text \<open>\<open>_reject_json_constant\<close> and \<open>_decode_object_pairs\<close>, the hooks given to \<open>json.loads\<close>.\<close>

definition reject_json_constant :: "string \<Rightarrow> pyobj result" where
  "reject_json_constant c = Inl (ValueError (''invalid JSON constant: '' @ c))"

fun decode_object_pairs :: "pydict \<Rightarrow> pydict \<Rightarrow> pydict result" where
  "decode_object_pairs value [] = Inr value"
| "decode_object_pairs value ((key, item) # pairs) =
     (if key \<in> dkeys value then Inl (ProtocolError (''duplicate JSON object field: '' @ key))
      else decode_object_pairs (value @ [(key, item)]) pairs)"

fun build_json :: "json_doc \<Rightarrow> pyobj result"
  and build_items :: "json_doc list \<Rightarrow> pyobj list result"
  and build_members :: "(string \<times> json_doc) list \<Rightarrow> pydict result" where
  "build_json JNull = Inr PNone"
| "build_json (JBool b) = Inr (PBool b)"
| "build_json (JInt i) = Inr (PInt i)"
| "build_json (JFloat x) = Inr (PFloat x)"
| "build_json (JStr s) = Inr (PStr s)"
| "build_json (JConstant c) = reject_json_constant c"
| "build_json (JArray xs) = bindE (build_items xs) (\<lambda>ys. Inr (PList ys))"
| "build_json (JObject ms) =
     bindE (build_members ms) (\<lambda>pairs. bindE (decode_object_pairs [] pairs) (\<lambda>d. Inr (PDict d)))"
| "build_items [] = Inr []"
| "build_items (x # xs) = bindE (build_json x) (\<lambda>y. bindE (build_items xs) (\<lambda>ys. Inr (y # ys)))"
| "build_members [] = Inr []"
| "build_members ((key, x) # ms) =
     bindE (build_json x) (\<lambda>y. bindE (build_members ms) (\<lambda>ys. Inr ((key, y) # ys)))"

section \<open>Writing JSON\<close>

text \<open>
  \<open>json.dumps(wire, separators=(",", ":"), allow_nan=False)\<close>. Characters other than printable ASCII
  are escaped, so the text is ASCII and its encoding is itself. The conversion of an integer of more
  than 4300 digits raises. A tuple is written as a list; only a \<open>dict\<close> is an object.
\<close>

definition escape_hex :: "nat \<Rightarrow> char" where
  "escape_hex n = char_of (if n < 10 then 48 + n else 87 + n)"

definition escape_char :: "char \<Rightarrow> string" where
  "escape_char c =
     (let n = of_char c :: nat in
      if n = 34 then [char_of (92::nat), char_of (34::nat)]
      else if n = 92 then [char_of (92::nat), char_of (92::nat)]
      else if n = 10 then [char_of (92::nat), CHR ''n'']
      else if n = 13 then [char_of (92::nat), CHR ''r'']
      else if n = 9 then [char_of (92::nat), CHR ''t'']
      else if n = 12 then [char_of (92::nat), CHR ''f'']
      else if n = 8 then [char_of (92::nat), CHR ''b'']
      else if 32 \<le> n \<and> n \<le> 126 then [c]
      else [char_of (92::nat), CHR ''u'', CHR ''0'', CHR ''0'', escape_hex (n div 16), escape_hex (n mod 16)])"

definition quote :: "string \<Rightarrow> string" where
  "quote s = char_of (34::nat) # concat (map escape_char s) @ [char_of (34::nat)]"

fun commas :: "string list \<Rightarrow> string" where
  "commas [] = []"
| "commas [t] = t"
| "commas (t # ts) = t @ CHR '','' # commas ts"

definition json_int :: "int \<Rightarrow> string result" where
  "json_int i =
     (if 4300 < length (dec_nat (nat (abs i))) then Inl (ValueError ''Exceeds the limit for integer string conversion'')
      else Inr (dec_int i))"

fun json_text :: "(rat \<Rightarrow> string) \<Rightarrow> pyobj \<Rightarrow> string result"
  and json_texts :: "(rat \<Rightarrow> string) \<Rightarrow> pyobj list \<Rightarrow> string list result"
  and json_members :: "(rat \<Rightarrow> string) \<Rightarrow> (string \<times> pyobj) list \<Rightarrow> string list result"
  and json_int_members :: "(rat \<Rightarrow> string) \<Rightarrow> (int \<times> pyobj) list \<Rightarrow> string list result" where
  "json_text frepr PNone = Inr ''null''"
| "json_text frepr (PBool b) = Inr (if b then ''true'' else ''false'')"
| "json_text frepr (PInt i) = json_int i"
| "json_text frepr (PFloat x) =
     (case x of Finite q \<Rightarrow> Inr (frepr q) | _ \<Rightarrow> Inl (ValueError ''Out of range float values are not JSON compliant''))"
| "json_text frepr (PStr s) = Inr (quote s)"
| "json_text frepr (PList xs) = bindE (json_texts frepr xs) (\<lambda>ts. Inr (CHR ''['' # commas ts @ '']''))"
| "json_text frepr (PTuple xs) = bindE (json_texts frepr xs) (\<lambda>ts. Inr (CHR ''['' # commas ts @ '']''))"
| "json_text frepr (PDict d) = bindE (json_members frepr d) (\<lambda>ts. Inr (CHR ''{'' # commas ts @ ''}''))"
| "json_text frepr (PIntMap d) = bindE (json_int_members frepr d) (\<lambda>ts. Inr (CHR ''{'' # commas ts @ ''}''))"
| "json_text frepr (PProxy d) = Inl (TypeError ''Object of type mappingproxy is not JSON serializable'')"
| "json_text frepr (POther c) = Inl (TypeError (''Object is not JSON serializable: '' @ c))"
| "json_texts frepr [] = Inr []"
| "json_texts frepr (x # xs) = bindE (json_text frepr x) (\<lambda>t. bindE (json_texts frepr xs) (\<lambda>ts. Inr (t # ts)))"
| "json_members frepr [] = Inr []"
| "json_members frepr ((key, x) # d) =
     bindE (json_text frepr x) (\<lambda>t. bindE (json_members frepr d) (\<lambda>ts. Inr ((quote key @ CHR '':'' # t) # ts)))"
| "json_int_members frepr [] = Inr []"
| "json_int_members frepr ((key, x) # d) =
     bindE (json_int key) (\<lambda>k. bindE (json_text frepr x) (\<lambda>t. bindE (json_int_members frepr d) (\<lambda>ts.
       Inr ((quote k @ CHR '':'' # t) # ts))))"


section \<open>Frames\<close>

definition MAX_DAEMON_FRAME_BYTES :: nat where
  "MAX_DAEMON_FRAME_BYTES = 1024 * 1024"

abbreviation newline :: char where
  "newline \<equiv> CHR 0x0A"

definition encode_json_line :: "(rat \<Rightarrow> string) \<Rightarrow> pydict \<Rightarrow> string result" where
  "encode_json_line frepr wire =
     (case json_text frepr (PDict wire) of
        Inl e \<Rightarrow> if is_type_error e \<or> is_value_error e then Inl (ProtocolError ''daemon frame is not valid JSON'') else Inl e
      | Inr t \<Rightarrow>
          let frame = t @ [newline] in
          if MAX_DAEMON_FRAME_BYTES < length frame then Inl DaemonFrameTooLarge else Inr frame)"

definition validate_json_line_frame :: "string \<Rightarrow> unit result" where
  "validate_json_line_frame line =
     bindE (raise_if (line = []) DaemonPeerDisconnected) (\<lambda>_.
     bindE (raise_if (MAX_DAEMON_FRAME_BYTES < length line) DaemonFrameTooLarge) (\<lambda>_.
     bindE (raise_if (last line \<noteq> newline) DaemonIncompleteFrame) (\<lambda>_.
       raise_if (newline \<in> set (butlast line)) DaemonExtraFrameData)))"

text \<open>
  \<open>_validate_json_value\<close>: a copy of the value, or a refusal of what JSON does not have. A read-only
  mapping is not a \<open>dict\<close>, a tuple is not a \<open>list\<close>. The function calls itself for every nested value and runs
  on Python's stack; \<open>validate_json_value\<close> is what it computes when the stack is deep enough, \<open>validate_within\<close>
  with room for \<open>n\<close> nested calls, and \<open>calls\<close> the room that a value needs.
\<close>

fun validate_json_value :: "pyobj \<Rightarrow> pyobj result"
  and validate_json_items :: "pyobj list \<Rightarrow> pyobj list result"
  and validate_json_members :: "(string \<times> pyobj) list \<Rightarrow> (string \<times> pyobj) list result" where
  "validate_json_value PNone = Inr PNone"
| "validate_json_value (PStr s) = Inr (PStr s)"
| "validate_json_value (PBool b) = Inr (PBool b)"
| "validate_json_value (PInt i) = Inr (PInt i)"
| "validate_json_value (PFloat x) =
     (case x of Finite q \<Rightarrow> Inr (PFloat x) | _ \<Rightarrow> Inl (ProtocolError ''field contains a non-finite number''))"
| "validate_json_value (PList xs) = bindE (validate_json_items xs) (\<lambda>ys. Inr (PList ys))"
| "validate_json_value (PDict d) = bindE (validate_json_members d) (\<lambda>f. Inr (PDict f))"
| "validate_json_value (PIntMap d) =
     (if d = [] then Inr (PDict []) else Inl (ProtocolError ''field contains a non-string object key''))"
| "validate_json_value (PTuple xs) = Inl (ProtocolError ''field contains non-JSON value tuple'')"
| "validate_json_value (PProxy d) = Inl (ProtocolError ''field contains non-JSON value mappingproxy'')"
| "validate_json_value (POther c) = Inl (ProtocolError (''field contains non-JSON value '' @ c))"
| "validate_json_items [] = Inr []"
| "validate_json_items (x # xs) =
     bindE (validate_json_value x) (\<lambda>y. bindE (validate_json_items xs) (\<lambda>ys. Inr (y # ys)))"
| "validate_json_members [] = Inr []"
| "validate_json_members ((key, x) # d) =
     bindE (validate_json_value x) (\<lambda>y. bindE (validate_json_members d) (\<lambda>f. Inr ((key, y) # f)))"

abbreviation RecursionError :: exn where
  "RecursionError \<equiv> OtherException ''RecursionError''"

fun validate_within :: "nat \<Rightarrow> pyobj \<Rightarrow> pyobj result" where
  "validate_within 0 v = Inl RecursionError"
| "validate_within (Suc n) v =
     (case v of
        PList xs \<Rightarrow> bindE (mapE (validate_within n) xs) (\<lambda>ys. Inr (PList ys))
      | PDict d \<Rightarrow> bindE (mapE (\<lambda>(key, x). bindE (validate_within n x) (\<lambda>y. Inr (key, y))) d) (\<lambda>f. Inr (PDict f))
      | _ \<Rightarrow> validate_json_value v)"

fun calls :: "pyobj \<Rightarrow> nat" where
  "calls (PList xs) = Suc (foldr max (map calls xs) 0)"
| "calls (PDict d) = Suc (foldr max (map (\<lambda>(key, x). calls x) d) 0)"
| "calls v = 1"

text \<open>
  \<open>_decode_json_object\<close>, by the check of the value; every \<open>ValueError\<close> of the decoder is reported as a
  \<open>ProtocolError\<close>.
\<close>

definition decode_json_object_by :: "(pyobj \<Rightarrow> pyobj result) \<Rightarrow> (string \<Rightarrow> json_doc result) \<Rightarrow> string \<Rightarrow> pydict result" where
  "decode_json_object_by check parse line =
     bindE (validate_json_line_frame line) (\<lambda>_.
       case bindE (parse line) build_json of
         Inl e \<Rightarrow>
           (if e = UnicodeDecodeError then Inl (ProtocolError ''frame is not valid UTF-8'')
            else if is_protocol_error e then Inl e
            else if is_value_error e then Inl (ProtocolError ''invalid json'')
            else Inl e)
       | Inr value \<Rightarrow>
           (case value of
              PDict d \<Rightarrow> bindE (check value) (\<lambda>_. Inr d)
            | _ \<Rightarrow> Inl (ProtocolError ''payload must be a JSON object'')))"

definition decode_json_object :: "(string \<Rightarrow> json_doc result) \<Rightarrow> string \<Rightarrow> pydict result" where
  "decode_json_object = decode_json_object_by validate_json_value"

section \<open>Envelope checks\<close>

definition PROTOCOL_VERSION :: int where
  "PROTOCOL_VERSION = 1"

definition REQUEST_TYPES :: "string list" where
  "REQUEST_TYPES =
     [''ping'', ''health'', ''chat'', ''shutdown'', ''activity_open'', ''activity_next'', ''activity_close'']"

definition REQUEST_FIELDS :: "string list" where
  "REQUEST_FIELDS = [''version'', ''request_id'', ''type'', ''payload'']"

definition RESPONSE_REQUIRED_FIELDS :: "string list" where
  "RESPONSE_REQUIRED_FIELDS = [''version'', ''request_id'', ''status'', ''payload'']"

definition RESPONSE_OPTIONAL_FIELDS :: "string list" where
  "RESPONSE_OPTIONAL_FIELDS = [''error'']"

definition frame_fields :: "pydict \<Rightarrow> string list \<Rightarrow> string list \<Rightarrow> unit result" where
  "frame_fields raw required optional =
     raise_if (\<not> dkeys raw \<subseteq> set required \<union> set optional) (ProtocolError ''unknown envelope field(s)'')"

definition frame_str :: "pydict \<Rightarrow> string \<Rightarrow> string result" where
  "frame_str raw key =
     (case dict_get raw key of PStr s \<Rightarrow> Inr s | _ \<Rightarrow> Inl (ProtocolError (''field must be a string: '' @ key)))"

definition frame_non_empty_str :: "pydict \<Rightarrow> string \<Rightarrow> string result" where
  "frame_non_empty_str raw key =
     bindE (frame_str raw key) (\<lambda>s.
     bindE (raise_if (blank s) (ProtocolError (''field must be a non-empty string: '' @ key))) (\<lambda>_. Inr s))"

definition frame_int :: "pydict \<Rightarrow> string \<Rightarrow> int result" where
  "frame_int raw key =
     (case dict_get raw key of PInt i \<Rightarrow> Inr i | _ \<Rightarrow> Inl (ProtocolError (''field must be an integer: '' @ key)))"

text \<open>An envelope's payload has string keys: it was decoded from JSON, or is typed so.\<close>

definition frame_object :: "pydict \<Rightarrow> string \<Rightarrow> pydict result" where
  "frame_object raw key =
     (case dict_get raw key of
        PDict d \<Rightarrow> Inr d
      | _ \<Rightarrow> Inl (ProtocolError (''field must be an object: '' @ key)))"

definition frame_version :: "pydict \<Rightarrow> int result" where
  "frame_version raw =
     bindE (frame_int raw ''version'') (\<lambda>version.
     bindE (raise_if (version \<noteq> PROTOCOL_VERSION) (ProtocolError ''unsupported protocol version'')) (\<lambda>_. Inr version))"

definition frame_request_type :: "pydict \<Rightarrow> string \<Rightarrow> string result" where
  "frame_request_type raw key =
     bindE (frame_str raw key) (\<lambda>s.
     bindE (raise_if (s \<notin> set REQUEST_TYPES) (ProtocolError (''unsupported request type: '' @ s))) (\<lambda>_. Inr s))"

definition frame_response_status :: "pydict \<Rightarrow> string \<Rightarrow> string result" where
  "frame_response_status raw key =
     bindE (frame_str raw key) (\<lambda>s.
     bindE (raise_if (s \<noteq> ''ok'' \<and> s \<noteq> ''error'') (ProtocolError (''unsupported response status: '' @ s))) (\<lambda>_. Inr s))"


section \<open>Requests and responses\<close>

record DaemonRequest =
  rq_type :: string
  rq_payload :: pydict
  rq_request_id :: string
  rq_version :: int

record DaemonResponse =
  rs_request_id :: string
  rs_status :: string
  rs_payload :: pydict
  rs_error :: "string option"
  rs_version :: int

definition request_to_wire :: "DaemonRequest \<Rightarrow> pydict" where
  "request_to_wire r =
     [(''version'', PInt (rq_version r)), (''request_id'', PStr (rq_request_id r)),
      (''type'', PStr (rq_type r)), (''payload'', PDict (rq_payload r))]"

definition response_to_wire :: "DaemonResponse \<Rightarrow> pydict" where
  "response_to_wire r =
     [(''version'', PInt (rs_version r)), (''request_id'', PStr (rs_request_id r)),
      (''status'', PStr (rs_status r)), (''payload'', PDict (rs_payload r))] @
     (case rs_error r of None \<Rightarrow> [] | Some e \<Rightarrow> [(''error'', PStr e)])"

definition validate_request_wire_by :: "(pyobj \<Rightarrow> pyobj result) \<Rightarrow> pydict \<Rightarrow> DaemonRequest result" where
  "validate_request_wire_by check raw =
     bindE (frame_fields raw REQUEST_FIELDS []) (\<lambda>_.
     bindE (frame_version raw) (\<lambda>version.
     bindE (frame_non_empty_str raw ''request_id'') (\<lambda>request_id.
     bindE (frame_request_type raw ''type'') (\<lambda>request_type.
     bindE (frame_object raw ''payload'') (\<lambda>payload.
     bindE (check (PDict payload)) (\<lambda>_.
       Inr \<lparr>rq_type = request_type, rq_payload = payload, rq_request_id = request_id, rq_version = version\<rparr>))))))"

definition validate_request_wire :: "pydict \<Rightarrow> DaemonRequest result" where
  "validate_request_wire = validate_request_wire_by validate_json_value"

definition validate_response_wire :: "pydict \<Rightarrow> DaemonResponse result" where
  "validate_response_wire raw =
     bindE (frame_fields raw RESPONSE_REQUIRED_FIELDS RESPONSE_OPTIONAL_FIELDS) (\<lambda>_.
     bindE (frame_version raw) (\<lambda>version.
     bindE (frame_non_empty_str raw ''request_id'') (\<lambda>request_id.
     bindE (frame_response_status raw ''status'') (\<lambda>status.
     bindE (frame_object raw ''payload'') (\<lambda>payload.
     bindE (validate_json_value (PDict payload)) (\<lambda>_.
     bindE (if status = ''ok''
            then bindE (raise_if (''error'' \<in> dkeys raw) (ProtocolError ''field 'error' must be absent for an ok response''))
                   (\<lambda>_. Inr None)
            else bindE (frame_non_empty_str raw ''error'') (\<lambda>e. Inr (Some e))) (\<lambda>error_value.
       Inr \<lparr>rs_request_id = request_id, rs_status = status, rs_payload = payload, rs_error = error_value,
            rs_version = version\<rparr>)))))))"

definition request_to_json_line :: "(rat \<Rightarrow> string) \<Rightarrow> DaemonRequest \<Rightarrow> string result" where
  "request_to_json_line frepr r =
     (let wire = request_to_wire r in
      bindE (validate_request_wire wire) (\<lambda>_. encode_json_line frepr wire))"

definition request_from_json_line :: "(string \<Rightarrow> json_doc result) \<Rightarrow> string \<Rightarrow> DaemonRequest result" where
  "request_from_json_line parse line = bindE (decode_json_object parse line) validate_request_wire"

text \<open>The same reader on a stack with room for \<open>n\<close> nested calls of the check.\<close>

definition request_from_json_line_within :: "nat \<Rightarrow> (string \<Rightarrow> json_doc result) \<Rightarrow> string \<Rightarrow> DaemonRequest result" where
  "request_from_json_line_within n parse line =
     bindE (decode_json_object_by (validate_within n) parse line) (validate_request_wire_by (validate_within n))"

definition response_to_json_line :: "(rat \<Rightarrow> string) \<Rightarrow> DaemonResponse \<Rightarrow> string result" where
  "response_to_json_line frepr r =
     (let wire = response_to_wire r in
      bindE (validate_response_wire wire) (\<lambda>_. encode_json_line frepr wire))"

definition response_from_json_line :: "(string \<Rightarrow> json_doc result) \<Rightarrow> string \<Rightarrow> DaemonResponse result" where
  "response_from_json_line parse line = bindE (decode_json_object parse line) validate_response_wire"

definition response_ok :: "DaemonRequest \<Rightarrow> pydict \<Rightarrow> DaemonResponse" where
  "response_ok r payload =
     \<lparr>rs_request_id = rq_request_id r, rs_status = ''ok'', rs_payload = payload, rs_error = None,
      rs_version = PROTOCOL_VERSION\<rparr>"

definition response_fail :: "string \<Rightarrow> string \<Rightarrow> DaemonResponse" where
  "response_fail request_id e =
     \<lparr>rs_request_id = request_id, rs_status = ''error'', rs_payload = [],
      rs_error = Some (if strip e = [] then ''daemon request failed'' else strip e),
      rs_version = PROTOCOL_VERSION\<rparr>"


section \<open>What the writer produces\<close>

text \<open>One line of text: no escaped character is a line break, whatever the strings and keys are.\<close>

lemma escape_hex_printable: "n < 16 \<Longrightarrow> escape_hex n \<noteq> newline"
proof
  assume n: "n < 16" and h: "escape_hex n = newline"
  have "of_char (escape_hex n) = (if n < 10 then 48 + n else 87 + n)"
    using n by (simp add: escape_hex_def of_char_of)
  with h n show False by (simp split: if_splits)
qed

lemma of_char_less: "(of_char c :: nat) < 256"
  by simp

lemma escape_char_line: "newline \<notin> set (escape_char c)"
proof -
  have "(of_char newline :: nat) = 10" by simp
  then have "(of_char c :: nat) = 10 \<longleftrightarrow> c = newline"
    by (metis of_char_eq_iff)
  moreover have "escape_hex ((of_char c :: nat) div 16) \<noteq> newline" "escape_hex ((of_char c :: nat) mod 16) \<noteq> newline"
    using of_char_less [of c] by (simp_all add: escape_hex_printable div_less_iff_less_mult)
  moreover have "char_of (92::nat) \<noteq> newline" "char_of (34::nat) \<noteq> newline"
    by (simp_all add: char_of_def)
  ultimately show ?thesis
    by (auto simp: escape_char_def Let_def split: if_splits)
qed

lemma quote_line: "newline \<notin> set (quote s)"
  using escape_char_line by (auto simp: quote_def char_of_def)

lemma dec_nat_line: "newline \<notin> set (dec_nat n)"
proof (induction n rule: dec_nat.induct)
  case (1 n)
  have d: "char_of (48 + k) \<noteq> newline" if "k < 10" for k :: nat
  proof
    assume "char_of (48 + k) = newline"
    then have "of_char (char_of (48 + k) :: char) = (of_char newline :: nat)" by simp
    then show False using that by (simp add: of_char_of)
  qed
  show ?case
    using 1 d [of n] d [of "n mod 10"] by (subst dec_nat.simps) auto
qed

lemma json_int_line: "json_int i = Inr t \<Longrightarrow> newline \<notin> set t"
  using dec_nat_line by (auto simp: json_int_def dec_int_def split: if_splits)

lemma commas_line: "(\<And>t. t \<in> set ts \<Longrightarrow> newline \<notin> set t) \<Longrightarrow> newline \<notin> set (commas ts)"
  by (induction ts rule: commas.induct) auto

lemma json_text_line_all:
  assumes "\<And>q. newline \<notin> set (frepr q)"
  shows "json_text frepr v = Inr t \<Longrightarrow> newline \<notin> set t"
    and "json_texts frepr xs = Inr ts \<Longrightarrow> \<forall>t \<in> set ts. newline \<notin> set t"
    and "json_members frepr d = Inr ts \<Longrightarrow> \<forall>t \<in> set ts. newline \<notin> set t"
    and "json_int_members frepr m = Inr ts \<Longrightarrow> \<forall>t \<in> set ts. newline \<notin> set t"
  using assms
  by (induction frepr v and frepr xs and frepr d and frepr m arbitrary: t and ts and ts and ts
      rule: json_text_json_texts_json_members_json_int_members.induct)
    (auto simp: result_simps quote_line json_int_line commas_line split: pyfloat.splits if_splits)

lemma encode_json_line_frame:
  assumes "encode_json_line frepr wire = Inr frame" and "\<And>q. newline \<notin> set (frepr q)"
  obtains t where "json_text frepr (PDict wire) = Inr t" "frame = t @ [newline]"
    "length frame \<le> MAX_DAEMON_FRAME_BYTES" "newline \<notin> set t"
proof -
  obtain t where t: "json_text frepr (PDict wire) = Inr t" "frame = t @ [newline]"
    "length frame \<le> MAX_DAEMON_FRAME_BYTES"
    using assms(1) by (auto simp: encode_json_line_def Let_def simp del: json_text.simps split: sum.splits if_splits)
  with that json_text_line_all(1) [of frepr, OF assms(2) t(1)] show thesis by blast
qed

lemma validate_frame_ok:
  "length t < MAX_DAEMON_FRAME_BYTES \<Longrightarrow> newline \<notin> set t \<Longrightarrow> validate_json_line_frame (t @ [newline]) = Inr ()"
  by (simp add: validate_json_line_frame_def)

section \<open>What the reader restores\<close>

text \<open>The document of a JSON value, and dictionaries without repeated keys, as every \<open>dict\<close> is.\<close>

fun doc_of :: "pyobj \<Rightarrow> json_doc" where
  "doc_of (PBool b) = JBool b"
| "doc_of (PInt i) = JInt i"
| "doc_of (PFloat x) = JFloat x"
| "doc_of (PStr s) = JStr s"
| "doc_of (PList xs) = JArray (map doc_of xs)"
| "doc_of (PDict d) = JObject (map (\<lambda>(key, x). (key, doc_of x)) d)"
| "doc_of v = JNull"

fun distinct_keys :: "pyobj \<Rightarrow> bool" where
  "distinct_keys (PList xs) \<longleftrightarrow> list_all distinct_keys xs"
| "distinct_keys (PDict d) \<longleftrightarrow> distinct (map fst d) \<and> list_all (\<lambda>(key, x). distinct_keys x) d"
| "distinct_keys v \<longleftrightarrow> True"

lemma dkeys_simps [simp]:
  "dkeys [] = {}" "dkeys ((key, x) # d) = insert key (dkeys d)" "dkeys (d @ e) = dkeys d \<union> dkeys e"
  by (auto simp: dkeys_def)

lemma dkeys_fst: "dkeys d = set (map fst d)"
  by (simp add: dkeys_def)

lemma decode_object_pairs_distinct:
  "distinct (map fst (seen @ pairs)) \<Longrightarrow> decode_object_pairs seen pairs = Inr (seen @ pairs)"
  by (induction seen pairs rule: decode_object_pairs.induct) (auto simp: dkeys_fst)

lemma decode_object_pairs_Inr:
  "decode_object_pairs seen pairs = Inr d \<Longrightarrow> d = seen @ pairs \<and> dkeys seen \<inter> dkeys pairs = {} \<and> distinct (map fst pairs)"
  by (induction seen pairs rule: decode_object_pairs.induct) (auto simp: dkeys_fst split: if_splits)

lemma build_doc_all:
  "json_plain v \<Longrightarrow> distinct_keys v \<Longrightarrow> build_json (doc_of v) = Inr v"
  "list_all json_plain xs \<Longrightarrow> list_all distinct_keys xs \<Longrightarrow> build_items (map doc_of xs) = Inr xs"
  "list_all (\<lambda>(key, x). json_plain x) d \<Longrightarrow> list_all (\<lambda>(key, x). distinct_keys x) d \<Longrightarrow>
    build_members (map (\<lambda>(key, x). (key, doc_of x)) d) = Inr d"
  by (induction v and xs and d rule: freeze_freeze_items_freeze_fields.induct)
    (auto simp: decode_object_pairs_distinct split: pyfloat.splits)

lemma validate_plain:
  "json_plain v \<Longrightarrow> validate_json_value v = Inr v"
  "list_all json_plain xs \<Longrightarrow> validate_json_items xs = Inr xs"
  "list_all (\<lambda>(key, x). json_plain x) d \<Longrightarrow> validate_json_members d = Inr d"
  by (induction v and xs and d rule: freeze_freeze_items_freeze_fields.induct)
    (auto split: pyfloat.splits)


text \<open>Refusals of the decoder are protocol errors, provided that its grammar only raises a \<open>ValueError\<close>.\<close>

lemma build_json_errors:
  "build_json j = Inl e \<Longrightarrow> is_value_error e"
  "build_items js = Inl e \<Longrightarrow> is_value_error e"
  "build_members ms = Inl e \<Longrightarrow> is_value_error e"
proof -
  have pairs: "decode_object_pairs seen d = Inl e \<Longrightarrow> is_value_error e" for seen d
    by (induction seen d rule: decode_object_pairs.induct) (auto split: if_splits)
  show "build_json j = Inl e \<Longrightarrow> is_value_error e"
    and "build_items js = Inl e \<Longrightarrow> is_value_error e"
    and "build_members ms = Inl e \<Longrightarrow> is_value_error e"
    by (induction j and js and ms rule: build_json_build_items_build_members.induct)
      (auto simp: result_simps reject_json_constant_def dest: pairs)
qed

lemma validate_json_errors:
  "validate_json_value v = Inl e \<Longrightarrow> is_protocol_error e"
  "validate_json_items xs = Inl e \<Longrightarrow> is_protocol_error e"
  "validate_json_members d = Inl e \<Longrightarrow> is_protocol_error e"
  by (induction v and xs and d rule: validate_json_value_validate_json_items_validate_json_members.induct)
    (auto simp: result_simps split: pyfloat.splits if_splits)

lemma validate_frame_errors: "validate_json_line_frame line = Inl e \<Longrightarrow> is_protocol_error e"
  by (auto simp: validate_json_line_frame_def result_simps)

lemma decode_json_object_errors:
  assumes "decode_json_object parse line = Inl e" and "\<And>e. parse line = Inl e \<Longrightarrow> is_value_error e"
  shows "is_protocol_error e"
proof -
  have value_errors: "is_value_error e'" if "bindE (parse line) build_json = Inl e'" for e'
    using that assms(2) build_json_errors(1) by (auto simp: result_simps)
  show ?thesis
    using assms(1) value_errors validate_frame_errors validate_json_errors
    by (auto simp: decode_json_object_def decode_json_object_by_def result_simps split: sum.splits if_splits pyobj.splits)
qed

lemma decode_json_object_frame:
  assumes "validate_json_line_frame line = Inr ()" and "parse line = Inr (doc_of (PDict d))"
    and "json_plain (PDict d)" and "distinct_keys (PDict d)"
  shows "decode_json_object parse line = Inr d"
  using assms build_doc_all(1) [of "PDict d"] validate_plain(1) [of "PDict d"]
  by (simp add: decode_json_object_def decode_json_object_by_def del: doc_of.simps json_plain.simps distinct_keys.simps
      validate_json_value.simps)

section \<open>The interface of a wire codec\<close>

text \<open>
  What the frame layer asks of an envelope, and an envelope of its payloads: a valid record is
  restored from its wire form, which JSON can carry. A strict codec refuses with protocol errors only,
  the ones its callers handle.
\<close>

locale wire_codec =
  fixes to_wire :: "'r \<Rightarrow> pydict"
    and from_wire :: "pydict \<Rightarrow> 'r result"
    and valid :: "'r \<Rightarrow> bool"
  assumes restored: "valid x \<Longrightarrow> from_wire (to_wire x) = Inr x"
    and plain: "valid x \<Longrightarrow> json_plain (PDict (to_wire x))"
    and keyed: "valid x \<Longrightarrow> distinct_keys (PDict (to_wire x))"
begin

lemma read_back:
  assumes "valid x" and "encode_json_line frepr (to_wire x) = Inr frame" and "\<And>q. newline \<notin> set (frepr q)"
    and "parse frame = Inr (doc_of (PDict (to_wire x)))"
  shows "bindE (decode_json_object parse frame) from_wire = Inr x"
    and "validate_json_line_frame frame = Inr ()"
proof -
  obtain t where t: "frame = t @ [newline]" "length frame \<le> MAX_DAEMON_FRAME_BYTES" "newline \<notin> set t"
    using assms(2,3) by (rule encode_json_line_frame)
  then show frame: "validate_json_line_frame frame = Inr ()" by (simp add: validate_frame_ok)
  have "decode_json_object parse frame = Inr (to_wire x)"
    using frame assms(4) plain [OF assms(1)] keyed [OF assms(1)] by (rule decode_json_object_frame)
  with assms(1) show "bindE (decode_json_object parse frame) from_wire = Inr x" by (simp add: restored)
qed

lemma inject: "valid x \<Longrightarrow> valid y \<Longrightarrow> to_wire x = to_wire y \<Longrightarrow> x = y"
  using restored by (metis sum.inject(2))

end

locale strict_codec = wire_codec +
  assumes refused: "from_wire d = Inl e \<Longrightarrow> is_protocol_error e"
begin

lemma line_refused:
  assumes "bindE (decode_json_object parse line) from_wire = Inl e"
    and "\<And>e. parse line = Inl e \<Longrightarrow> is_value_error e"
  shows "is_protocol_error e"
  using assms(1) refused decode_json_object_errors [OF _ assms(2)] by (auto simp: result_simps)

end

section \<open>The envelopes satisfy it\<close>

definition request_valid :: "DaemonRequest \<Rightarrow> bool" where
  "request_valid r \<longleftrightarrow>
     rq_version r = PROTOCOL_VERSION \<and> \<not> blank (rq_request_id r) \<and> rq_type r \<in> set REQUEST_TYPES \<and>
     json_plain (PDict (rq_payload r)) \<and> distinct_keys (PDict (rq_payload r))"

definition response_valid :: "DaemonResponse \<Rightarrow> bool" where
  "response_valid r \<longleftrightarrow>
     rs_version r = PROTOCOL_VERSION \<and> \<not> blank (rs_request_id r) \<and>
     (case rs_error r of None \<Rightarrow> rs_status r = ''ok'' | Some e \<Rightarrow> rs_status r = ''error'' \<and> \<not> blank e) \<and>
     json_plain (PDict (rs_payload r)) \<and> distinct_keys (PDict (rs_payload r))"

lemmas frame_defs = frame_fields_def frame_str_def frame_non_empty_str_def frame_int_def
  frame_object_def frame_version_def frame_request_type_def frame_response_status_def dict_get_def

lemma frame_errors:
  "frame_str d key = Inl e \<Longrightarrow> is_protocol_error e"
  "frame_non_empty_str d key = Inl e \<Longrightarrow> is_protocol_error e"
  "frame_int d key = Inl e \<Longrightarrow> is_protocol_error e"
  "frame_object d key = Inl e \<Longrightarrow> is_protocol_error e"
  "frame_version d = Inl e \<Longrightarrow> is_protocol_error e"
  "frame_request_type d key = Inl e \<Longrightarrow> is_protocol_error e"
  "frame_response_status d key = Inl e \<Longrightarrow> is_protocol_error e"
  "frame_fields d required optional = Inl e \<Longrightarrow> is_protocol_error e"
  by (auto simp: frame_defs result_simps split: option.splits pyobj.splits)

interpretation request_frames: strict_codec request_to_wire validate_request_wire request_valid
proof
  fix d e
  assume "validate_request_wire d = Inl e"
  then show "is_protocol_error e"
    by (auto simp: validate_request_wire_def validate_request_wire_by_def result_simps simp del: validate_json_value.simps
        dest: frame_errors validate_json_errors(1))
next
  fix x
  assume x: "request_valid x"
  then have "validate_json_value (PDict (rq_payload x)) = Inr (PDict (rq_payload x))"
    by (simp only: validate_plain(1) request_valid_def)
  with x show "validate_request_wire (request_to_wire x) = Inr x"
    by (simp add: request_valid_def validate_request_wire_def validate_request_wire_by_def request_to_wire_def frame_defs REQUEST_FIELDS_def
        del: validate_json_value.simps)
qed (auto simp: request_valid_def request_to_wire_def)

interpretation response_frames: strict_codec response_to_wire validate_response_wire response_valid
proof
  fix d e
  assume "validate_response_wire d = Inl e"
  then show "is_protocol_error e"
    by (auto simp: validate_response_wire_def result_simps simp del: validate_json_value.simps
        dest: frame_errors validate_json_errors(1) split: if_splits)
next
  fix x
  assume x: "response_valid x"
  then have "validate_json_value (PDict (rs_payload x)) = Inr (PDict (rs_payload x))"
    by (simp only: validate_plain(1) response_valid_def)
  with x show "validate_response_wire (response_to_wire x) = Inr x"
    by (cases "rs_error x")
      (simp_all add: response_valid_def validate_response_wire_def response_to_wire_def frame_defs
        RESPONSE_REQUIRED_FIELDS_def RESPONSE_OPTIONAL_FIELDS_def del: validate_json_value.simps)
qed (auto simp: response_valid_def response_to_wire_def split: option.splits)


section \<open>Round trip and refusal\<close>

lemma plain_member: "json_plain (PDict d) \<Longrightarrow> (key, v) \<in> set d \<Longrightarrow> json_plain v"
  and keyed_member: "distinct_keys (PDict d) \<Longrightarrow> (key, v) \<in> set d \<Longrightarrow> distinct_keys v"
  by (auto simp: list_all_iff)

lemma validate_request_Inr:
  assumes "validate_request_wire raw = Inr r" and "json_plain (PDict raw)" and "distinct_keys (PDict raw)"
  shows "request_valid r"
proof -
  have "dget raw ''payload'' = Some (PDict (rq_payload r))" "rq_version r = PROTOCOL_VERSION"
    "\<not> blank (rq_request_id r)" "rq_type r \<in> set REQUEST_TYPES"
    using assms(1)
    by (auto simp: validate_request_wire_def validate_request_wire_by_def frame_defs result_simps simp del: validate_json_value.simps
        split: option.splits pyobj.splits)
  moreover from this(1) have "(''payload'', PDict (rq_payload r)) \<in> set raw" by (rule map_of_SomeD)
  ultimately show ?thesis
    using plain_member [OF assms(2)] keyed_member [OF assms(3)] by (simp only: request_valid_def) blast
qed

lemma validated_plain:
  "build_json j = Inr v \<Longrightarrow> validate_json_value v = Inr w \<Longrightarrow> json_plain v \<and> distinct_keys v"
  "build_items js = Inr vs \<Longrightarrow> validate_json_items vs = Inr ws \<Longrightarrow> list_all json_plain vs \<and> list_all distinct_keys vs"
  "build_members ms = Inr d \<Longrightarrow> validate_json_members d = Inr f \<Longrightarrow>
     list_all (\<lambda>(key, x). json_plain x) d \<and> list_all (\<lambda>(key, x). distinct_keys x) d"
proof (induction j and js and ms arbitrary: v w and vs ws and d f rule: build_json_build_items_build_members.induct)
  case (8 ms)
  then obtain d where d: "build_members ms = Inr d" "distinct (map fst d)" "v = PDict d"
    by (auto simp: result_simps dest!: decode_object_pairs_Inr)
  with 8 show ?case by (auto simp: result_simps dest!: decode_object_pairs_Inr)
qed (auto simp: result_simps reject_json_constant_def split: pyfloat.splits)

lemma decode_json_object_Inr:
  assumes "decode_json_object parse line = Inr d"
  shows "validate_json_line_frame line = Inr ()" and "json_plain (PDict d)" and "distinct_keys (PDict d)"
proof -
  from assms obtain j w where "validate_json_line_frame line = Inr ()" "build_json j = Inr (PDict d)"
      "validate_json_value (PDict d) = Inr w"
    by (auto simp: decode_json_object_def decode_json_object_by_def result_simps simp del: validate_json_value.simps
        split: sum.splits if_splits pyobj.splits)
  with validated_plain(1) show "validate_json_line_frame line = Inr ()" "json_plain (PDict d)" "distinct_keys (PDict d)"
    by blast+
qed

lemma request_written:
  assumes "request_to_json_line frepr r = Inr frame"
    and "json_plain (PDict (rq_payload r))" and "distinct_keys (PDict (rq_payload r))"
  shows "request_valid r" and "encode_json_line frepr (request_to_wire r) = Inr frame"
proof -
  from assms(1) obtain x where x: "validate_request_wire (request_to_wire r) = Inr x"
    and line: "encode_json_line frepr (request_to_wire r) = Inr frame"
    by (auto simp: request_to_json_line_def Let_def result_simps)
  have "json_plain (PDict (request_to_wire r))" "distinct_keys (PDict (request_to_wire r))"
    using assms(2,3) by (simp_all add: request_to_wire_def)
  from validate_request_Inr [OF x this] x show "request_valid r"
    by (auto simp: request_valid_def validate_request_wire_def validate_request_wire_by_def request_to_wire_def frame_defs result_simps
        simp del: validate_json_value.simps)
  show "encode_json_line frepr (request_to_wire r) = Inr frame" by (rule line)
qed

lemma response_written:
  assumes "response_to_json_line frepr r = Inr frame"
    and "json_plain (PDict (rs_payload r))" and "distinct_keys (PDict (rs_payload r))"
  shows "response_valid r" and "encode_json_line frepr (response_to_wire r) = Inr frame"
proof -
  from assms(1) obtain x where x: "validate_response_wire (response_to_wire r) = Inr x"
    and line: "encode_json_line frepr (response_to_wire r) = Inr frame"
    by (auto simp: response_to_json_line_def Let_def result_simps)
  from x assms(2,3) show "response_valid r"
    by (auto simp: response_valid_def validate_response_wire_def response_to_wire_def frame_defs result_simps
        simp del: validate_json_value.simps json_plain.simps distinct_keys.simps split: option.splits if_splits)
  show "encode_json_line frepr (response_to_wire r) = Inr frame" by (rule line)
qed

text \<open>
  A request that is written as a frame is read back as it was: the frame is one line within the
  size limit, whatever the payload's strings hold, and the reader's checks pass. The payload is a JSON object;
  that the JSON decoder restores the document that was written is the only assumption on it.
\<close>

theorem request_frame_roundtrip:
  assumes "request_to_json_line frepr r = Inr frame"
    and "json_plain (PDict (rq_payload r))" and "distinct_keys (PDict (rq_payload r))"
    and "\<And>q. newline \<notin> set (frepr q)"
    and "parse frame = Inr (doc_of (PDict (request_to_wire r)))"
  shows "request_from_json_line parse frame = Inr r \<and>
    last frame = newline \<and> newline \<notin> set (butlast frame) \<and> length frame \<le> MAX_DAEMON_FRAME_BYTES"
proof -
  note written = request_written [OF assms(1-3)]
  from written assms(4,5) have "request_from_json_line parse frame = Inr r"
    unfolding request_from_json_line_def by (rule request_frames.read_back(1))
  moreover have "last frame = newline \<and> newline \<notin> set (butlast frame) \<and> length frame \<le> MAX_DAEMON_FRAME_BYTES"
    using written(2) assms(4) by (rule encode_json_line_frame) simp
  ultimately show ?thesis by blast
qed

definition sample_request :: DaemonRequest where
  "sample_request =
     \<lparr>rq_type = ''chat'', rq_payload = [(''message'', PStr [CHR ''a'', newline, CHR ''b'']), (''weight'', PFloat (Finite 0))],
      rq_request_id = ''r1'', rq_version = 1\<rparr>"

lemma request_frame_roundtrip_witness:
  "\<exists>frame. request_to_json_line (\<lambda>_. ''0.0'') sample_request = Inr frame \<and>
     request_from_json_line (\<lambda>_. Inr (doc_of (PDict (request_to_wire sample_request)))) frame = Inr sample_request"
proof -
  have "isl (request_to_json_line (\<lambda>_. ''0.0'') sample_request) = False"
    by (simp add: request_to_json_line_def sample_request_def validate_request_wire_def validate_request_wire_by_def request_to_wire_def
        frame_defs REQUEST_FIELDS_def REQUEST_TYPES_def PROTOCOL_VERSION_def blank_def py_space_def
        encode_json_line_def MAX_DAEMON_FRAME_BYTES_def quote_def escape_char_def json_int_def dec_int_def
        dec_nat.simps [of 1] dec_nat.simps [of "Suc 0"])
  then obtain frame where frame: "request_to_json_line (\<lambda>_. ''0.0'') sample_request = Inr frame"
    by (cases "request_to_json_line (\<lambda>_. ''0.0'') sample_request") auto
  moreover have "json_plain (PDict (rq_payload sample_request))" "distinct_keys (PDict (rq_payload sample_request))"
    by (simp_all add: sample_request_def)
  ultimately show ?thesis
    using request_frame_roundtrip [of "\<lambda>_. ''0.0''" sample_request frame
        "\<lambda>_. Inr (doc_of (PDict (request_to_wire sample_request)))"] by auto
qed

section \<open>The room that the check needs\<close>

lemma calls_pos: "0 < calls v"
  by (cases v) simp_all

lemma foldr_max_ge: "x \<in> set xs \<Longrightarrow> x \<le> foldr max xs (0 :: nat)"
  by (induction xs) auto

lemma calls_item: "x \<in> set xs \<Longrightarrow> calls x < calls (PList xs)"
  using foldr_max_ge [of "calls x" "map calls xs"] by simp

lemma calls_member: "(key, x) \<in> set d \<Longrightarrow> calls x < calls (PDict d)"
  using foldr_max_ge [of "calls x" "map (\<lambda>(key, x). calls x) d"] by force

lemma validate_items_map: "validate_json_items xs = mapE validate_json_value xs"
  by (induction xs) simp_all

lemma validate_members_map:
  "validate_json_members d = mapE (\<lambda>(key, x). bindE (validate_json_value x) (\<lambda>y. Inr (key, y))) d"
proof (induction d)
  case (Cons p d)
  then show ?case by (cases p; cases "validate_json_value (snd p)") simp_all
qed simp

lemma mapE_cong: "(\<And>x. x \<in> set xs \<Longrightarrow> f x = g x) \<Longrightarrow> mapE f xs = mapE g xs"
  by (induction xs) simp_all

lemma mapE_Inr_cong: "mapE f xs = Inr ys \<Longrightarrow> (\<And>x y. x \<in> set xs \<Longrightarrow> f x = Inr y \<Longrightarrow> g x = Inr y) \<Longrightarrow> mapE g xs = Inr ys"
  by (induction xs arbitrary: ys) (auto simp: result_simps)

lemma mapE_Inl_from: "mapE f xs = Inl e \<Longrightarrow> \<exists>x \<in> set xs. f x = Inl e"
  by (induction xs) (auto simp: result_simps)

lemma within_enough: "calls v \<le> n \<Longrightarrow> validate_within n v = validate_json_value v"
proof (induction n arbitrary: v)
  case 0
  then show ?case using calls_pos [of v] by simp
next
  case (Suc n)
  have items: "validate_within n x = validate_json_value x" if "calls x < calls v" for x
    using Suc that by (meson le_trans less_Suc_eq_le order_less_le_trans)
  show ?case
  proof (cases v)
    case (PList xs)
    then have "mapE (validate_within n) xs = mapE validate_json_value xs"
      by (intro mapE_cong items) (simp only: calls_item)
    then show ?thesis by (simp add: PList validate_items_map)
  next
    case (PDict d)
    then have "mapE (\<lambda>(key, x). bindE (validate_within n x) (\<lambda>y. Inr (key, y))) d =
        mapE (\<lambda>(key, x). bindE (validate_json_value x) (\<lambda>y. Inr (key, y))) d"
      by (intro mapE_cong) (auto simp only: items calls_member split: prod.splits)
    then show ?thesis by (simp add: PDict validate_members_map)
  qed simp_all
qed

lemma within_Inr: "validate_within n v = Inr w \<Longrightarrow> validate_json_value v = Inr w"
proof (induction n arbitrary: v w)
  case (Suc n)
  show ?case
  proof (cases v)
    case (PList xs)
    with Suc.prems obtain ys where ys: "mapE (validate_within n) xs = Inr ys" "w = PList ys" by (auto simp: result_simps)
    from mapE_Inr_cong [OF ys(1), of validate_json_value] Suc.IH have "mapE validate_json_value xs = Inr ys" by blast
    then show ?thesis by (simp add: PList ys(2) validate_items_map)
  next
    case (PDict d)
    with Suc.prems obtain f where f: "mapE (\<lambda>(key, x). bindE (validate_within n x) (\<lambda>y. Inr (key, y))) d = Inr f" "w = PDict f"
      by (auto simp: result_simps)
    have "mapE (\<lambda>(key, x). bindE (validate_json_value x) (\<lambda>y. Inr (key, y))) d = Inr f"
      by (rule mapE_Inr_cong [OF f(1)]) (auto simp: result_simps dest: Suc.IH)
    then show ?thesis by (simp add: PDict f(2) validate_members_map)
  qed (use Suc.prems in auto)
qed simp

lemma within_errors: "validate_within n v = Inl e \<Longrightarrow> is_protocol_error e \<or> e = RecursionError \<and> n < calls v"
proof (induction n arbitrary: v e)
  case 0
  then show ?case using calls_pos [of v] by simp
next
  case (Suc n)
  show ?case
  proof (cases v)
    case (PList xs)
    with Suc.prems obtain x where x: "x \<in> set xs" "validate_within n x = Inl e"
      by (auto simp: result_simps dest: mapE_Inl_from)
    then show ?thesis using Suc.IH [OF x(2)] calls_item [OF x(1)] PList by auto
  next
    case (PDict d)
    with Suc.prems obtain key x where x: "(key, x) \<in> set d" "validate_within n x = Inl e"
      by (fastforce simp: result_simps dest: mapE_Inl_from)
    then show ?thesis using Suc.IH [OF x(2)] calls_member [OF x(1)] PDict by auto
  qed (use Suc.prems validate_json_errors(1) [of v e] in simp_all)
qed

lemma decode_within_Inl:
  assumes "decode_json_object_by (validate_within n) parse line = Inl e"
    and "\<And>e. parse line = Inl e \<Longrightarrow> is_value_error e \<or> e = RecursionError"
  shows "is_protocol_error e \<or> e = RecursionError \<and> (parse line = Inl RecursionError
           \<or> (\<exists>doc v. parse line = Inr doc \<and> build_json doc = Inr v \<and> n < calls v))"
proof (cases "bindE (parse line) build_json")
  case (Inl e')
  then have "is_value_error e' \<or> e' = RecursionError \<and> parse line = Inl RecursionError"
    using assms(2) build_json_errors(1) by (auto simp: result_simps)
  with assms(1) Inl show ?thesis
    using validate_frame_errors by (auto simp: decode_json_object_by_def result_simps split: if_splits)
next
  case (Inr v)
  then obtain doc where doc: "parse line = Inr doc" "build_json doc = Inr v" by (auto simp: result_simps)
  from assms(1) Inr have "is_protocol_error e \<or> validate_within n v = Inl e"
    using validate_frame_errors
    by (auto simp: decode_json_object_by_def result_simps simp del: validate_within.simps split: pyobj.splits)
  with within_errors doc show ?thesis by blast
qed

lemma decode_within_Inr:
  assumes "decode_json_object_by (validate_within n) parse line = Inr d"
  shows "decode_json_object parse line = Inr d
    \<and> (\<exists>doc. parse line = Inr doc \<and> build_json doc = Inr (PDict d))"
proof -
  from assms obtain w doc where w: "validate_within n (PDict d) = Inr w" "parse line = Inr doc" "build_json doc = Inr (PDict d)"
    "validate_json_line_frame line = Inr ()"
    by (auto simp: decode_json_object_by_def result_simps simp del: validate_within.simps split: sum.splits if_splits pyobj.splits)
  with within_Inr [OF w(1)] show ?thesis
    by (simp add: decode_json_object_def decode_json_object_by_def del: validate_json_value.simps)
qed

lemma wire_within:
  "validate_request_wire_by (validate_within n) d = Inr r \<Longrightarrow> validate_request_wire d = Inr r"
  "validate_request_wire_by (validate_within n) d = Inl e \<Longrightarrow> is_protocol_error e \<or> e = RecursionError \<and> n < calls (PDict d)"
proof -
  show "validate_request_wire_by (validate_within n) d = Inr r \<Longrightarrow> validate_request_wire d = Inr r"
    by (auto simp: validate_request_wire_def validate_request_wire_by_def result_simps
        simp del: validate_within.simps validate_json_value.simps dest: within_Inr)
  show "is_protocol_error e \<or> e = RecursionError \<and> n < calls (PDict d)"
    if "validate_request_wire_by (validate_within n) d = Inl e"
  proof -
    from that have "is_protocol_error e \<or> (\<exists>p. frame_object d ''payload'' = Inr p \<and> validate_within n (PDict p) = Inl e)"
      by (auto simp: validate_request_wire_by_def result_simps simp del: validate_within.simps dest: frame_errors)
    then show ?thesis
    proof
      assume "\<exists>p. frame_object d ''payload'' = Inr p \<and> validate_within n (PDict p) = Inl e"
      then obtain p where p: "frame_object d ''payload'' = Inr p" "validate_within n (PDict p) = Inl e" by blast
      then have "(''payload'', PDict p) \<in> set d"
        by (auto simp: frame_object_def dict_get_def split: pyobj.splits option.splits dest: map_of_SomeD)
      with calls_member within_errors [OF p(2)] show ?thesis by (meson less_trans)
    qed simp
  qed
qed

lemma request_within_Inl:
  assumes "request_from_json_line_within n parse line = Inl e"
    and "\<And>e. parse line = Inl e \<Longrightarrow> is_value_error e \<or> e = RecursionError"
  shows "is_protocol_error e \<or> e = RecursionError \<and> (parse line = Inl RecursionError
           \<or> (\<exists>doc v. parse line = Inr doc \<and> build_json doc = Inr v \<and> n < calls v))"
proof -
  from assms(1) consider "decode_json_object_by (validate_within n) parse line = Inl e"
    | d where "decode_json_object_by (validate_within n) parse line = Inr d" "validate_request_wire_by (validate_within n) d = Inl e"
    by (auto simp: request_from_json_line_within_def result_simps)
  then show ?thesis
  proof cases
    case 1
    then show ?thesis using decode_within_Inl assms(2) by blast
  next
    case (2 d)
    with decode_within_Inr [OF 2(1)] wire_within(2) [OF 2(2)] show ?thesis by blast
  qed
qed

lemma request_within_Inr: "request_from_json_line_within n parse line = Inr r \<Longrightarrow> request_from_json_line parse line = Inr r"
  using decode_within_Inr wire_within(1)
  by (auto simp: request_from_json_line_within_def request_from_json_line_def result_simps)

lemma request_within_enough:
  assumes "parse line = Inr doc" and "build_json doc = Inr v" and "calls v \<le> n"
  shows "request_from_json_line_within n parse line = request_from_json_line parse line"
proof (cases "request_from_json_line_within n parse line")
  case (Inr r)
  then show ?thesis using request_within_Inr by simp
next
  case (Inl e)
  have dec: "decode_json_object_by (validate_within n) parse line = decode_json_object parse line"
    using assms within_enough [OF assms(3)]
    by (auto simp: decode_json_object_def decode_json_object_by_def simp del: validate_json_value.simps validate_within.simps split: pyobj.splits)
  show ?thesis
  proof (cases "decode_json_object parse line")
    case (Inl e)
    then show ?thesis by (simp add: request_from_json_line_within_def request_from_json_line_def dec)
  next
    case (Inr d)
    then have "v = PDict d" using decode_within_Inr [of n parse line d] dec assms(1,2) by simp
    then have "validate_within n (PDict p) = validate_json_value (PDict p)" if "frame_object d ''payload'' = Inr p" for p
    proof -
      have "(''payload'', PDict p) \<in> set d" using that
        by (auto simp: frame_object_def dict_get_def split: pyobj.splits option.splits dest: map_of_SomeD)
      then show ?thesis using within_enough calls_member assms(3) \<open>v = PDict d\<close> by (meson le_trans less_imp_le)
    qed
    then have "validate_request_wire_by (validate_within n) d = validate_request_wire d"
      by (cases "frame_object d ''payload''")
        (simp_all add: validate_request_wire_def validate_request_wire_by_def del: validate_json_value.simps validate_within.simps)
    then show ?thesis by (simp add: request_from_json_line_within_def request_from_json_line_def dec Inr)
  qed
qed

text \<open>
  C29: Whatever line arrives, reading it as a request on a stack with room for \<open>n\<close> nested calls answers one of
  three things: a request for which every check of the envelope holds (the version is supported, the
  identifier is not blank, the type is known and the payload is JSON, without repeated keys and without an
  infinite number, such as the literal 1e999 decodes to); a protocol error, which the server reports to the
  client; or a \<open>RecursionError\<close>, which is no protocol error, and then the decoder raised it or the document is
  nested more deeply than the stack allows. A document that is not is read as on a stack without bounds.
\<close>

theorem request_line_checked:
  assumes "\<And>e. parse line = Inl e \<Longrightarrow> is_value_error e \<or> e = RecursionError"
  shows "(case request_from_json_line_within n parse line of
           Inl e \<Rightarrow> is_protocol_error e
             \<or> e = RecursionError \<and> (parse line = Inl RecursionError
                 \<or> (\<exists>doc v. parse line = Inr doc \<and> build_json doc = Inr v \<and> n < calls v))
         | Inr r \<Rightarrow> request_valid r \<and> validate_json_line_frame line = Inr () \<and> request_from_json_line parse line = Inr r)
    \<and> (\<forall>doc v. parse line = Inr doc \<and> build_json doc = Inr v \<and> calls v \<le> n \<longrightarrow>
         request_from_json_line_within n parse line = request_from_json_line parse line)"
proof
  show "case request_from_json_line_within n parse line of
           Inl e \<Rightarrow> is_protocol_error e
             \<or> e = RecursionError \<and> (parse line = Inl RecursionError
                 \<or> (\<exists>doc v. parse line = Inr doc \<and> build_json doc = Inr v \<and> n < calls v))
         | Inr r \<Rightarrow> request_valid r \<and> validate_json_line_frame line = Inr () \<and> request_from_json_line parse line = Inr r"
  proof (cases "request_from_json_line_within n parse line")
    case (Inl e)
    then show ?thesis using request_within_Inl [OF Inl assms] by simp
  next
    case (Inr r)
    then have whole: "request_from_json_line parse line = Inr r" by (rule request_within_Inr)
    then obtain d where d: "decode_json_object parse line = Inr d" "validate_request_wire d = Inr r"
      by (auto simp: request_from_json_line_def result_simps)
    with decode_json_object_Inr [OF d(1)] validate_request_Inr [OF d(2)] Inr whole show ?thesis by simp
  qed
  show "\<forall>doc v. parse line = Inr doc \<and> build_json doc = Inr v \<and> calls v \<le> n \<longrightarrow>
         request_from_json_line_within n parse line = request_from_json_line parse line"
    using request_within_enough by blast
qed

definition overflow_request :: json_doc where
  "overflow_request = JObject
     [(''version'', JInt 1), (''request_id'', JStr ''r1''), (''type'', JStr ''ping''),
      (''payload'', JObject [(''x'', JFloat PosInf)])]"

text \<open>On a stack for two calls the check of this request fails before it reaches the infinite number.\<close>

lemma request_line_checked_witness:
  "(\<exists>e. request_from_json_line_within 3 (\<lambda>_. Inr overflow_request) ''1e999\<newline>'' = Inl e \<and> is_protocol_error e)
   \<and> request_from_json_line_within 2 (\<lambda>_. Inr overflow_request) ''1e999\<newline>'' = Inl RecursionError"
proof -
  have three: "request_from_json_line_within 3 (\<lambda>_. Inr overflow_request) ''1e999\<newline>'' =
      Inl (ProtocolError ''field contains a non-finite number'')"
    by (simp add: request_from_json_line_within_def decode_json_object_by_def overflow_request_def validate_json_line_frame_def
        MAX_DAEMON_FRAME_BYTES_def numeral_3_eq_3)
  have two: "request_from_json_line_within 2 (\<lambda>_. Inr overflow_request) ''1e999\<newline>'' = Inl RecursionError"
    by (simp add: request_from_json_line_within_def decode_json_object_by_def overflow_request_def validate_json_line_frame_def
        MAX_DAEMON_FRAME_BYTES_def numeral_2_eq_2)
  from request_line_checked [of "\<lambda>_. Inr overflow_request" "''1e999\<newline>''" 3] three two show ?thesis by auto
qed

end
