(* ===== verification/FeatureApproval.thy ===== *)
theory FeatureApproval
  imports DaemonProtocol
begin

text \<open>
  \<open>runtime/feature/protocol.py\<close>, the records of \<open>runtime/feature/approval.py\<close> and the wire codecs of
  \<open>runtime/feature/codec.py\<close>. The program has one family of tool effects, approval, so a tool effect
  request is an approval request and the tests of its class hold.
\<close>

section \<open>Requests and decisions\<close>

datatype ApprovalRisk = Reversible | Destructive | External

datatype ApprovalInput = Affirmative | Declined | Eof | Interrupted | Unavailable

fun risk_name :: "ApprovalRisk \<Rightarrow> string" where
  "risk_name Reversible = ''reversible''"
| "risk_name Destructive = ''destructive''"
| "risk_name External = ''external''"

fun input_name :: "ApprovalInput \<Rightarrow> string" where
  "input_name Affirmative = ''affirmative''"
| "input_name Declined = ''declined''"
| "input_name Eof = ''eof''"
| "input_name Interrupted = ''interrupt''"
| "input_name Unavailable = ''unavailable''"

definition risks :: "ApprovalRisk list" where
  "risks = [Reversible, Destructive, External]"

definition inputs :: "ApprovalInput list" where
  "inputs = [Affirmative, Declined, Eof, Interrupted, Unavailable]"

interpretation risk: vocabulary risk_name risks
proof
  show "k \<in> set risks" for k by (cases k) (simp_all add: risks_def)
qed (simp add: risks_def)

interpretation input: vocabulary input_name inputs
proof
  show "k \<in> set inputs" for k by (cases k) (simp_all add: inputs_def)
qed (simp add: inputs_def)

record ApprovalEffectRequest =
  aq_component :: string
  aq_operation :: string
  aq_action :: string
  aq_resource :: string
  aq_risk :: ApprovalRisk
  aq_summary :: string

definition make_tool_effect_request :: "ApprovalEffectRequest \<Rightarrow> unit result" where
  "make_tool_effect_request q =
     bindE (raise_if (blank (aq_component q)) (ValueError ''Tool effect component must not be blank'')) (\<lambda>_.
       raise_if (blank (aq_operation q)) (ValueError ''Tool effect operation must not be blank''))"

definition make_approval_request :: "ApprovalEffectRequest \<Rightarrow> ApprovalEffectRequest result" where
  "make_approval_request q =
     bindE (make_tool_effect_request q) (\<lambda>_.
     bindE (raise_if (blank (aq_action q)) (ValueError ''approval action must not be blank'')) (\<lambda>_.
     bindE (raise_if (blank (aq_resource q)) (ValueError ''approval resource must not be blank'')) (\<lambda>_.
     bindE (raise_if (blank (aq_summary q)) (ValueError ''approval summary must not be blank'')) (\<lambda>_. Inr q))))"

record ApprovalEffectDecision =
  ad_approved :: bool
  ad_approver :: "string option"
  ad_input_kind :: ApprovalInput

definition make_decision :: "ApprovalEffectDecision \<Rightarrow> ApprovalEffectDecision result" where
  "make_decision d =
     (if ad_approved d then
        bindE (raise_if (ad_input_kind d \<noteq> Affirmative) (ValueError ''approved decision requires affirmative input'')) (\<lambda>_.
        bindE (raise_if (case ad_approver d of None \<Rightarrow> True | Some a \<Rightarrow> blank a)
                 (ValueError ''approved decision requires an approver'')) (\<lambda>_. Inr d))
      else if ad_input_kind d = Affirmative then Inl (ValueError ''declined decision cannot have affirmative input'')
      else Inr d)"

record ApprovalEffectResolution =
  an_request :: ApprovalEffectRequest
  an_decision :: ApprovalEffectDecision

section \<open>Reading wire values\<close>

definition effect_mapping :: "pyobj \<Rightarrow> pydict result" where
  "effect_mapping v =
     (case v of
        PDict d \<Rightarrow> Inr d
      | PProxy d \<Rightarrow> Inr d
      | PIntMap d \<Rightarrow> if d = [] then Inr [] else Inl (ToolEffectCodecError ''must be an object'')
      | _ \<Rightarrow> Inl (ToolEffectCodecError ''must be an object''))"

definition effect_fields :: "pydict \<Rightarrow> string list \<Rightarrow> unit result" where
  "effect_fields d required =
     raise_if (dkeys d \<noteq> set required) (ToolEffectCodecError ''Tool effect fields are invalid'')"

definition effect_string :: "pydict \<Rightarrow> string \<Rightarrow> string result" where
  "effect_string d key =
     (case dict_get d key of
        PStr s \<Rightarrow> if blank s then Inl (ToolEffectCodecError (''field must be a non-blank string: '' @ key)) else Inr s
      | _ \<Rightarrow> Inl (ToolEffectCodecError (''field must be a non-blank string: '' @ key)))"

definition effect_word :: "('e \<Rightarrow> string) \<Rightarrow> 'e list \<Rightarrow> pydict \<Rightarrow> string \<Rightarrow> 'e result" where
  "effect_word str words d key =
     bindE (effect_string d key) (\<lambda>s.
       case List.find (\<lambda>k. str k = s) words of
         None \<Rightarrow> Inl (ToolEffectCodecError (''field is invalid: '' @ key))
       | Some k \<Rightarrow> Inr k)"

text \<open>\<open>_codec_for_kind\<close> over \<open>DEFAULT_TOOL_EFFECT_CODECS\<close>, whose kinds these are.\<close>

definition codec_kinds :: "string list" where
  "codec_kinds = [''approval'']"

definition codec_for_kind :: "pydict \<Rightarrow> string list \<Rightarrow> string result" where
  "codec_for_kind d kinds =
     bindE (effect_string d ''kind'') (\<lambda>kind.
       case filter (\<lambda>k. k = kind) kinds of
         [k] \<Rightarrow> Inr k
       | _ \<Rightarrow> Inl (ToolEffectCodecError ''unsupported or ambiguous Tool effect kind''))"

section \<open>The approval codec\<close>

definition encode_request :: "ApprovalEffectRequest \<Rightarrow> pydict" where
  "encode_request q =
     [(''kind'', PStr ''approval''), (''component'', PStr (aq_component q)), (''operation'', PStr (aq_operation q)),
      (''action'', PStr (aq_action q)), (''resource'', PStr (aq_resource q)), (''risk'', PStr (risk_name (aq_risk q))),
      (''summary'', PStr (aq_summary q))]"

definition decode_request :: "pydict \<Rightarrow> ApprovalEffectRequest result" where
  "decode_request d =
     bindE (effect_fields d [''kind'', ''component'', ''operation'', ''action'', ''resource'', ''risk'', ''summary'']) (\<lambda>_.
     bindE (effect_word risk_name risks d ''risk'') (\<lambda>risk.
     bindE (effect_string d ''component'') (\<lambda>component.
     bindE (effect_string d ''operation'') (\<lambda>operation.
     bindE (effect_string d ''action'') (\<lambda>action.
     bindE (effect_string d ''resource'') (\<lambda>resource.
     bindE (effect_string d ''summary'') (\<lambda>summary.
       make_approval_request
         \<lparr>aq_component = component, aq_operation = operation, aq_action = action, aq_resource = resource,
          aq_risk = risk, aq_summary = summary\<rparr>)))))))"

definition encode_resolution :: "ApprovalEffectResolution \<Rightarrow> pydict" where
  "encode_resolution n =
     [(''kind'', PStr ''approval''), (''request'', PDict (encode_request (an_request n))),
      (''decision'', PDict
        [(''approved'', PBool (ad_approved (an_decision n))), (''approver'', opt_str (ad_approver (an_decision n))),
         (''input_kind'', PStr (input_name (ad_input_kind (an_decision n))))])]"

definition effect_bool :: "pydict \<Rightarrow> string \<Rightarrow> bool result" where
  "effect_bool d key =
     (case dict_get d key of PBool b \<Rightarrow> Inr b | _ \<Rightarrow> Inl (ToolEffectCodecError (''field must be a boolean: '' @ key)))"

definition effect_optional_string :: "pydict \<Rightarrow> string \<Rightarrow> string option result" where
  "effect_optional_string d key =
     (case dict_get d key of
        PNone \<Rightarrow> Inr None
      | PStr s \<Rightarrow> Inr (Some s)
      | _ \<Rightarrow> Inl (ToolEffectCodecError (''field must be a string or null: '' @ key)))"

definition checked_decision :: "ApprovalEffectDecision \<Rightarrow> ApprovalEffectDecision result" where
  "checked_decision d =
     (case make_decision d of
        Inl e \<Rightarrow> if is_value_error e then Inl (ToolEffectCodecError ''approval decision is invalid'') else Inl e
      | Inr d \<Rightarrow> Inr d)"

definition decode_resolution :: "pydict \<Rightarrow> ApprovalEffectResolution result" where
  "decode_resolution d =
     bindE (effect_fields d [''kind'', ''request'', ''decision'']) (\<lambda>_.
     bindE (bindE (effect_mapping (dict_get d ''request'')) decode_request) (\<lambda>request.
     bindE (effect_mapping (dict_get d ''decision'')) (\<lambda>decision.
     bindE (effect_fields decision [''approved'', ''approver'', ''input_kind'']) (\<lambda>_.
     bindE (effect_bool decision ''approved'') (\<lambda>approved.
     bindE (effect_optional_string decision ''approver'') (\<lambda>approver.
     bindE (effect_word input_name inputs decision ''input_kind'') (\<lambda>input_kind.
     bindE (checked_decision \<lparr>ad_approved = approved, ad_approver = approver, ad_input_kind = input_kind\<rparr>) (\<lambda>decision.
       Inr \<lparr>an_request = request, an_decision = decision\<rparr>))))))))"

definition decode_effect_request :: "pyobj \<Rightarrow> ApprovalEffectRequest result" where
  "decode_effect_request v =
     bindE (effect_mapping v) (\<lambda>d. bindE (codec_for_kind d codec_kinds) (\<lambda>_. decode_request d))"

definition decode_effect_resolution :: "pyobj \<Rightarrow> ApprovalEffectResolution result" where
  "decode_effect_resolution v =
     bindE (effect_mapping v) (\<lambda>d. bindE (codec_for_kind d codec_kinds) (\<lambda>_. decode_resolution d))"

section \<open>Round trips and refusals\<close>

definition request_ok :: "ApprovalEffectRequest \<Rightarrow> bool" where
  "request_ok q \<longleftrightarrow> \<not> blank (aq_component q) \<and> \<not> blank (aq_operation q) \<and> \<not> blank (aq_action q) \<and>
     \<not> blank (aq_resource q) \<and> \<not> blank (aq_summary q)"

definition decision_ok :: "ApprovalEffectDecision \<Rightarrow> bool" where
  "decision_ok d \<longleftrightarrow>
     (if ad_approved d
      then ad_input_kind d = Affirmative \<and> (case ad_approver d of None \<Rightarrow> False | Some a \<Rightarrow> \<not> blank a)
      else ad_input_kind d \<noteq> Affirmative)"

definition resolution_ok :: "ApprovalEffectResolution \<Rightarrow> bool" where
  "resolution_ok n \<longleftrightarrow> request_ok (an_request n) \<and> decision_ok (an_decision n)"

definition codec_error :: "exn \<Rightarrow> bool" where
  "codec_error e \<longleftrightarrow> (case e of ToolEffectCodecError _ \<Rightarrow> True | _ \<Rightarrow> False)"

lemma make_approval_request_Inr [result_simps]: "make_approval_request q = Inr q' \<longleftrightarrow> q' = q \<and> request_ok q"
  by (auto simp: make_approval_request_def make_tool_effect_request_def request_ok_def result_simps)

lemma make_decision_Inr [result_simps]: "make_decision d = Inr d' \<longleftrightarrow> d' = d \<and> decision_ok d"
  by (auto simp: make_decision_def decision_ok_def result_simps split: option.splits)

lemma make_decision_error: "make_decision d = Inl e \<Longrightarrow> is_value_error e"
  by (auto simp: make_decision_def result_simps split: if_splits)

lemma checked_decision_Inr [result_simps]: "checked_decision d = Inr d' \<longleftrightarrow> d' = d \<and> decision_ok d"
  using make_decision_Inr [of d d'] by (auto simp: checked_decision_def split: sum.splits)

lemma checked_decision_error: "checked_decision d = Inl e \<Longrightarrow> codec_error e"
  using make_decision_error by (auto simp: checked_decision_def codec_error_def split: sum.splits)

lemma effect_word_name:
  "vocabulary str words \<Longrightarrow> dget d key = Some (PStr (str k)) \<Longrightarrow> \<not> blank (str k) \<Longrightarrow> effect_word str words d key = Inr k"
  by (simp add: effect_word_def effect_string_def dict_get_def vocabulary.find_name)

lemma effect_string_PStr:
  "dget d key = Some (PStr s) \<Longrightarrow> \<not> blank s \<Longrightarrow> effect_string d key = Inr s"
  by (simp add: effect_string_def dict_get_def)

lemma effect_string_Inr: "effect_string d key = Inr s \<Longrightarrow> \<not> blank s"
  by (auto simp: effect_string_def split: pyobj.splits if_splits)

lemma names_not_blank [simp]: "\<not> blank (risk_name k)" "\<not> blank (input_name i)"
  by (cases k; simp add: blank_def py_space_def) (cases i; simp add: blank_def py_space_def)

lemma effect_errors:
  "effect_mapping v = Inl e \<Longrightarrow> codec_error e"
  "effect_fields d required = Inl e \<Longrightarrow> codec_error e"
  "effect_string d key = Inl e \<Longrightarrow> codec_error e"
  "effect_word str words d key = Inl e \<Longrightarrow> codec_error e"
  "effect_bool d key = Inl e \<Longrightarrow> codec_error e"
  "effect_optional_string d key = Inl e \<Longrightarrow> codec_error e"
  "codec_for_kind d kinds = Inl e \<Longrightarrow> codec_error e"
  by (auto simp: effect_mapping_def effect_fields_def effect_string_def effect_word_def effect_bool_def
      effect_optional_string_def codec_for_kind_def codec_error_def result_simps
      split: pyobj.splits if_splits option.splits list.splits)

text \<open>The checks of the reader leave nothing for the constructor to refuse.\<close>

lemma decode_request_cases:
  assumes "decode_request d = r"
  shows "(\<exists>e. r = Inl e \<and> codec_error e) \<or> (\<exists>q. r = Inr q \<and> request_ok q)"
proof (cases r)
  case (Inr q)
  with assms show ?thesis by (auto simp: decode_request_def result_simps)
next
  case (Inl e)
  with assms have "codec_error e"
    by (auto simp: decode_request_def make_approval_request_def make_tool_effect_request_def result_simps
        dest: effect_errors effect_string_Inr)
  with Inl show ?thesis by simp
qed

lemma decode_resolution_cases:
  assumes "decode_resolution d = r"
  shows "(\<exists>e. r = Inl e \<and> codec_error e) \<or> (\<exists>n. r = Inr n \<and> resolution_ok n)"
proof (cases r)
  case (Inr n)
  with assms show ?thesis
    by (auto simp: decode_resolution_def result_simps resolution_ok_def dest!: decode_request_cases)
next
  case (Inl e)
  with assms have "codec_error e"
    by (auto simp: decode_resolution_def result_simps dest: effect_errors checked_decision_error decode_request_cases)
  with Inl show ?thesis by simp
qed

lemma decode_request_encode: "request_ok q \<Longrightarrow> decode_request (encode_request q) = Inr q"
  by (simp add: decode_request_def encode_request_def effect_fields_def request_ok_def insert_commute
      effect_word_name [OF risk.vocabulary_axioms, of _ _ "aq_risk q"] effect_string_PStr result_simps)

lemma decode_resolution_encode:
  assumes "resolution_ok n"
  shows "decode_resolution (encode_resolution n) = Inr n"
proof -
  have "checked_decision \<lparr>ad_approved = ad_approved (an_decision n), ad_approver = ad_approver (an_decision n),
      ad_input_kind = ad_input_kind (an_decision n)\<rparr> = Inr (an_decision n)"
    using assms by (cases "an_decision n") (simp add: resolution_ok_def result_simps)
  moreover have "effect_optional_string d key = Inr x" if "dget d key = Some (opt_str x)" for d key x
    using that by (cases x) (simp_all add: effect_optional_string_def dict_get_def)
  ultimately show ?thesis
    using assms decode_request_encode [of "an_request n"]
    by (simp add: decode_resolution_def encode_resolution_def effect_fields_def resolution_ok_def insert_commute
        effect_mapping_def effect_bool_def dict_get_def
        effect_word_name [OF input.vocabulary_axioms, of _ _ "ad_input_kind (an_decision n)"])
qed

text \<open>
  What the wire can say about an approval. A valid resolution survives encoding and decoding. Any other
  value decodes to a codec error, never to an exception of the records' own checks; or to a resolution that is valid:
  if it approves, the input was affirmative and an approver is named, so that no crafted message approves an
  action in nobody's name.
\<close>

theorem wire_approval_sound:
  assumes "resolution_ok n"
  shows "decode_effect_resolution (PDict (encode_resolution n)) = Inr n \<and>
    (case decode_effect_resolution v of
       Inl e \<Rightarrow> codec_error e
     | Inr n \<Rightarrow> request_ok (an_request n) \<and>
         (ad_approved (an_decision n) \<longleftrightarrow> ad_input_kind (an_decision n) = Affirmative) \<and>
         (ad_approved (an_decision n) \<longrightarrow> (\<exists>a. ad_approver (an_decision n) = Some a \<and> \<not> blank a)))"
proof
  have "codec_for_kind (encode_resolution n) codec_kinds = Inr ''approval''"
    by (simp add: codec_for_kind_def effect_string_def encode_resolution_def dict_get_def codec_kinds_def
        blank_def py_space_def)
  with decode_resolution_encode [OF assms] show "decode_effect_resolution (PDict (encode_resolution n)) = Inr n"
    by (simp add: decode_effect_resolution_def effect_mapping_def)
  show "case decode_effect_resolution v of
       Inl e \<Rightarrow> codec_error e
     | Inr n \<Rightarrow> request_ok (an_request n) \<and>
         (ad_approved (an_decision n) \<longleftrightarrow> ad_input_kind (an_decision n) = Affirmative) \<and>
         (ad_approved (an_decision n) \<longrightarrow> (\<exists>a. ad_approver (an_decision n) = Some a \<and> \<not> blank a))"
  proof (cases "decode_effect_resolution v")
    case (Inl e)
    then show ?thesis
      by (auto simp: decode_effect_resolution_def result_simps dest: effect_errors decode_resolution_cases)
  next
    case (Inr n)
    then have "resolution_ok n"
      by (auto simp: decode_effect_resolution_def result_simps dest: decode_resolution_cases)
    with Inr show ?thesis by (auto simp: resolution_ok_def decision_ok_def split: if_splits option.splits)
  qed
qed

definition sample_approval :: ApprovalEffectRequest where
  "sample_approval = \<lparr>aq_component = ''memory'', aq_operation = ''forget'', aq_action = ''delete'',
     aq_resource = ''note'', aq_risk = Destructive, aq_summary = ''delete note''\<rparr>"

definition sample_resolution :: ApprovalEffectResolution where
  "sample_resolution = \<lparr>an_request = sample_approval,
     an_decision = \<lparr>ad_approved = True, ad_approver = Some ''user'', ad_input_kind = Affirmative\<rparr>\<rparr>"

lemma wire_approval_sound_witness:
  "decode_effect_resolution (PDict (encode_resolution sample_resolution)) = Inr sample_resolution \<and>
   (case decode_effect_resolution (PList []) of Inl e \<Rightarrow> codec_error e | Inr n \<Rightarrow> False)"
proof -
  have "resolution_ok sample_resolution"
    by (simp add: resolution_ok_def request_ok_def decision_ok_def sample_resolution_def sample_approval_def
        blank_def py_space_def)
  from wire_approval_sound [OF this, of "PList []"] show ?thesis
    by (simp add: decode_effect_resolution_def effect_mapping_def)
qed

end
