(* ===== verification/FeaturePolicy.thy ===== *)
theory FeaturePolicy
  imports FeatureApproval RuntimeMessages
begin

text \<open>
  \<open>runtime/feature/policy.py\<close>, \<open>runtime/feature/effect.py\<close>, the bound effects of
  \<open>runtime/feature/approval.py\<close>, \<open>runtime/feature/observation.py\<close> and \<open>runtime/feature/audit.py\<close>, and
  \<open>runtime/feature/execution.py\<close>: what a feature function declares, and how its call is surrounded by
  the effects it declared.
\<close>

section \<open>Declarations\<close>

datatype Execution = Readonly | Mutating

fun execution_name :: "Execution \<Rightarrow> string" where
  "execution_name Readonly = ''readonly''"
| "execution_name Mutating = ''mutating''"

text \<open>\<open>'x\<close> is the type of a call's arguments, from which a declared summary is built.\<close>

record 'x ApprovalEffect =
  ae_action :: string
  ae_resource :: string
  ae_risk :: ApprovalRisk
  ae_summary :: "('x \<Rightarrow> string result) option"

datatype 'x FeatureEffect =
    Approval "'x ApprovalEffect"
  | Observation
  | Audit string

fun cardinality_key :: "'x FeatureEffect \<Rightarrow> string option" where
  "cardinality_key (Approval a) = Some ''interaction.approval''"
| "cardinality_key Observation = Some ''projection.observation''"
| "cardinality_key (Audit e) = Some ''projection.audit''"

definition make_approval_effect :: "'x ApprovalEffect \<Rightarrow> 'x ApprovalEffect result" where
  "make_approval_effect a =
     bindE (raise_if (blank (ae_action a)) (ValueError ''confirmation action must not be blank'')) (\<lambda>_.
     bindE (raise_if (blank (ae_resource a)) (ValueError ''confirmation resource must not be blank'')) (\<lambda>_. Inr a))"

definition make_audit_effect :: "string \<Rightarrow> string result" where
  "make_audit_effect event =
     bindE (raise_if (blank event) (ValueError ''audit event must not be blank'')) (\<lambda>_. Inr event)"

definition validate_execution :: "'x ApprovalEffect \<Rightarrow> Execution option \<Rightarrow> unit result" where
  "validate_execution a execution =
     raise_if (execution = Some Readonly) (ValueError ''readonly feature cannot require confirmation'')"

record ToolPolicy =
  tp_name :: "string option"
  tp_description :: "string option"

record 'x FeatureSpec =
  fs_tool :: "ToolPolicy option"
  fs_component :: "string option"
  fs_execution :: "Execution option"
  fs_effects :: "'x FeatureEffect list"
  fs_compact :: bool

definition empty_spec :: "'x FeatureSpec" where
  "empty_spec = \<lparr>fs_tool = None, fs_component = None, fs_execution = None, fs_effects = [], fs_compact = False\<rparr>"

text \<open>Only the approval effect is an \<open>ExecutionConstraint\<close>.\<close>

fun validate_constraints :: "Execution option \<Rightarrow> 'x FeatureEffect list \<Rightarrow> unit result" where
  "validate_constraints execution [] = Inr ()"
| "validate_constraints execution (Approval a # es) =
     bindE (validate_execution a execution) (\<lambda>_. validate_constraints execution es)"
| "validate_constraints execution (_ # es) = validate_constraints execution es"

definition cardinalities :: "'x FeatureEffect list \<Rightarrow> string list" where
  "cardinalities es = List.map_filter cardinality_key es"

definition validate_spec :: "'x FeatureSpec \<Rightarrow> unit result" where
  "validate_spec s =
     bindE (raise_if (case fs_component s of None \<Rightarrow> False | Some c \<Rightarrow> blank c)
              (ValueError ''feature component must not be blank'')) (\<lambda>_.
     bindE (raise_if (\<not> distinct (cardinalities (fs_effects s)))
              (FeaturePolicyConflictError ''unique feature effects may be declared only once'')) (\<lambda>_.
       case validate_constraints (fs_execution s) (fs_effects s) of
         Inl e \<Rightarrow> if is_value_error e then Inl (FeaturePolicyConflictError ''readonly feature cannot require confirmation'') else Inl e
       | Inr _ \<Rightarrow> Inr ()))"

text \<open>
  A decorator acts on the specification attached to the function it decorates; a function without one
  has the empty specification. Where it raises, the attribute is left as it was.
\<close>

type_synonym 'x decorator = "('x FeatureSpec, unit) act"

definition attach :: "('x FeatureSpec \<Rightarrow> 'x FeatureSpec) \<Rightarrow> 'x decorator" where
  "attach change current =
     (let updated = change current in
      case validate_spec updated of Inl e \<Rightarrow> (Inl e, current) | Inr _ \<Rightarrow> (Inr (), updated))"

definition append_effect :: "'x FeatureEffect \<Rightarrow> 'x decorator" where
  "append_effect eff = attach (\<lambda>s. s\<lparr>fs_effects := fs_effects s @ [eff]\<rparr>)"

definition blank_option :: "string option \<Rightarrow> bool" where
  "blank_option x = (case x of None \<Rightarrow> False | Some s \<Rightarrow> blank s)"

definition tool :: "string option \<Rightarrow> string option \<Rightarrow> 'x decorator" where
  "tool name description =
     bind_act (lift_act (\<lambda>_. raise_if (blank_option name) (ValueError ''tool name must not be blank''))) (\<lambda>_.
     bind_act (lift_act (\<lambda>_. raise_if (blank_option description) (ValueError ''tool description must not be blank''))) (\<lambda>_.
       attach (\<lambda>s. s\<lparr>fs_tool := Some \<lparr>tp_name = name, tp_description = description\<rparr>\<rparr>)))"

definition feature_component :: "string \<Rightarrow> 'x decorator" where
  "feature_component name =
     bind_act (lift_act (\<lambda>_. raise_if (blank name) (ValueError ''feature component must not be blank''))) (\<lambda>_.
       attach (\<lambda>s. s\<lparr>fs_component := Some name\<rparr>))"

definition readonly :: "'x decorator" where
  "readonly =
     bind_act (lift_act (\<lambda>s. raise_if (fs_execution s = Some Mutating)
       (FeaturePolicyConflictError ''feature cannot be both readonly and mutating''))) (\<lambda>_.
       attach (\<lambda>s. s\<lparr>fs_execution := Some Readonly\<rparr>))"

definition mutating :: "'x decorator" where
  "mutating =
     bind_act (lift_act (\<lambda>s. raise_if (fs_execution s = Some Readonly)
       (FeaturePolicyConflictError ''feature cannot be both readonly and mutating''))) (\<lambda>_.
       attach (\<lambda>s. s\<lparr>fs_execution := Some Mutating\<rparr>))"

definition requires_confirmation :: "'x ApprovalEffect \<Rightarrow> 'x decorator" where
  "requires_confirmation a =
     bind_act (lift_act (\<lambda>_. make_approval_effect a)) (\<lambda>policy. append_effect (Approval policy))"

definition feature_observed :: "'x decorator" where
  "feature_observed = append_effect Observation"

definition feature_compact :: "'x decorator" where
  "feature_compact = attach (\<lambda>s. s\<lparr>fs_compact := True\<rparr>)"

definition audited :: "string \<Rightarrow> 'x decorator" where
  "audited event =
     bind_act (lift_act (\<lambda>_. make_audit_effect event)) (\<lambda>event. append_effect (Audit event))"

definition require_tool_spec :: "'x FeatureSpec \<Rightarrow> 'x FeatureSpec result" where
  "require_tool_spec s =
     bindE (raise_if (fs_tool s = None) (ValueError ''feature function is not declared as a tool'')) (\<lambda>_.
     bindE (raise_if (fs_component s = None) (ValueError ''tool feature requires a component'')) (\<lambda>_.
     bindE (raise_if (fs_execution s = None) (ValueError ''tool feature requires an execution declaration'')) (\<lambda>_.
     bindE (validate_constraints (fs_execution s) (fs_effects s)) (\<lambda>_. Inr s))))"


section \<open>What every declaration satisfies\<close>

definition spec_ok :: "'x FeatureSpec \<Rightarrow> bool" where
  "spec_ok s \<longleftrightarrow>
     (\<forall>c. fs_component s = Some c \<longrightarrow> \<not> blank c) \<and> distinct (cardinalities (fs_effects s)) \<and>
     (fs_execution s = Some Readonly \<longrightarrow> (\<forall>a. Approval a \<notin> set (fs_effects s))) \<and>
     (\<forall>a. Approval a \<in> set (fs_effects s) \<longrightarrow> \<not> blank (ae_action a) \<and> \<not> blank (ae_resource a)) \<and>
     (\<forall>e. Audit e \<in> set (fs_effects s) \<longrightarrow> \<not> blank e) \<and>
     (\<forall>t. fs_tool s = Some t \<longrightarrow> \<not> blank_option (tp_name t) \<and> \<not> blank_option (tp_description t))"

inductive declared :: "'x FeatureSpec \<Rightarrow> bool" where
  Undeclared: "declared empty_spec"
| Tool: "declared s \<Longrightarrow> declared (snd (tool name description s))"
| Component: "declared s \<Longrightarrow> declared (snd (feature_component name s))"
| Readonly: "declared s \<Longrightarrow> declared (snd (readonly s))"
| Mutating: "declared s \<Longrightarrow> declared (snd (mutating s))"
| Confirmed: "declared s \<Longrightarrow> declared (snd (requires_confirmation a s))"
| Observed: "declared s \<Longrightarrow> declared (snd (feature_observed s))"
| Compact: "declared s \<Longrightarrow> declared (snd (feature_compact s))"
| Audited: "declared s \<Longrightarrow> declared (snd (audited event s))"

lemma validate_constraints_Inr:
  "validate_constraints execution es = Inr () \<longleftrightarrow> (execution = Some Readonly \<longrightarrow> (\<forall>a. Approval a \<notin> set es))"
  by (induction execution es rule: validate_constraints.induct) (auto simp: validate_execution_def result_simps)

lemma validate_spec_Inr:
  "validate_spec s = Inr u \<longleftrightarrow>
     (\<forall>c. fs_component s = Some c \<longrightarrow> \<not> blank c) \<and> distinct (cardinalities (fs_effects s)) \<and>
     (fs_execution s = Some Readonly \<longrightarrow> (\<forall>a. Approval a \<notin> set (fs_effects s)))"
  using validate_constraints_Inr [of "fs_execution s" "fs_effects s"]
  by (cases "validate_constraints (fs_execution s) (fs_effects s)")
    (auto simp: validate_spec_def result_simps split: option.splits)

text \<open>What the attached change may break is what \<open>validate_spec\<close> checks.\<close>

lemma attach_always:
  assumes "\<And>s. spec_ok s \<Longrightarrow> validate_spec (change s) = Inr () \<Longrightarrow> spec_ok (change s)"
  shows "always spec_ok (attach change) (\<lambda>_. True)"
  using assms by (auto intro!: alwaysI simp: attach_def Let_def split: sum.splits)

lemma append_always:
  assumes "\<And>a. eff = Approval a \<Longrightarrow> \<not> blank (ae_action a) \<and> \<not> blank (ae_resource a)"
    and "\<And>e. eff = Audit e \<Longrightarrow> \<not> blank e"
  shows "always spec_ok (append_effect eff) (\<lambda>_. True)"
  unfolding append_effect_def using assms
  by (intro attach_always) (auto simp: spec_ok_def validate_spec_Inr)

lemma decorators_always:
  "always spec_ok (tool name description) (\<lambda>_. True)"
  "always spec_ok (feature_component c) (\<lambda>_. True)"
  "always spec_ok readonly (\<lambda>_. True)"
  "always spec_ok mutating (\<lambda>_. True)"
  "always spec_ok (requires_confirmation a) (\<lambda>_. True)"
  "always spec_ok feature_observed (\<lambda>_. True)"
  "always spec_ok feature_compact (\<lambda>_. True)"
  "always spec_ok (audited event) (\<lambda>_. True)"
proof -
  show "always spec_ok (tool name description) (\<lambda>_. True)"
    unfolding tool_def
    by (intro always_bind_lift attach_always) (auto simp: spec_ok_def validate_spec_Inr result_simps)
  show "always spec_ok (feature_component c) (\<lambda>_. True)" "always spec_ok readonly (\<lambda>_. True)"
    "always spec_ok mutating (\<lambda>_. True)" "always spec_ok feature_compact (\<lambda>_. True)"
    unfolding feature_component_def readonly_def mutating_def feature_compact_def
    by (intro always_bind_lift attach_always; auto simp: spec_ok_def validate_spec_Inr result_simps)+
  show "always spec_ok (requires_confirmation a) (\<lambda>_. True)" "always spec_ok (audited event) (\<lambda>_. True)"
    unfolding requires_confirmation_def audited_def
    by (intro always_bind_lift append_always; auto simp: make_approval_effect_def make_audit_effect_def result_simps)+
  show "always spec_ok feature_observed (\<lambda>_. True)"
    unfolding feature_observed_def by (intro append_always) auto
qed

lemma declared_ok: "declared s \<Longrightarrow> spec_ok s"
proof (induction rule: declared.induct)
  case Undeclared
  show ?case by (simp add: spec_ok_def empty_spec_def cardinalities_def List.map_filter_simps)
qed (auto intro: alwaysD [OF decorators_always(1)] alwaysD [OF decorators_always(2)] alwaysD [OF decorators_always(3)]
    alwaysD [OF decorators_always(4)] alwaysD [OF decorators_always(5)] alwaysD [OF decorators_always(6)]
    alwaysD [OF decorators_always(7)] alwaysD [OF decorators_always(8)])

text \<open>
  However a feature is decorated, in any order and with any of the decorators refused, what is
  attached is consistent: each kind of effect is declared at most once, names are not blank, and a feature declared
  read-only requires no approval, whichever was declared first. A tool is then complete exactly if its
  tool policy, its component and its execution are declared.
\<close>

theorem declared_spec_consistent:
  assumes "declared s"
  shows "spec_ok s \<and>
    (require_tool_spec s = Inr s \<longleftrightarrow> fs_tool s \<noteq> None \<and> fs_component s \<noteq> None \<and> fs_execution s \<noteq> None)"
proof -
  have ok: "spec_ok s" using assms by (rule declared_ok)
  then show ?thesis
    using validate_constraints_Inr [of "fs_execution s" "fs_effects s"]
    by (auto simp: require_tool_spec_def result_simps spec_ok_def)
qed

lemma declared_spec_consistent_witness:
  "\<exists>s :: unit FeatureSpec. declared s \<and> fs_execution s = None \<and> fs_effects s \<noteq> [] \<and>
     fst (readonly s) = Inl (FeaturePolicyConflictError ''readonly feature cannot require confirmation'') \<and>
     spec_ok (snd (readonly s))"
proof -
  let ?a = "\<lparr>ae_action = ''delete'', ae_resource = ''note'', ae_risk = Destructive, ae_summary = None\<rparr> :: unit ApprovalEffect"
  let ?s = "snd (requires_confirmation ?a empty_spec)"
  have s: "?s = empty_spec\<lparr>fs_effects := [Approval ?a]\<rparr>"
    by (simp add: requires_confirmation_def bind_act_def make_approval_effect_def blank_def py_space_def
        append_effect_def attach_def Let_def validate_spec_def empty_spec_def cardinalities_def List.map_filter_simps
        validate_execution_def)
  have d: "declared ?s" by (intro Confirmed Undeclared)
  then have "spec_ok (snd (readonly ?s))" using declared_spec_consistent [OF Readonly [OF d]] by blast
  moreover have "fst (readonly ?s) = Inl (FeaturePolicyConflictError ''readonly feature cannot require confirmation'')"
    unfolding s by (simp add: readonly_def bind_act_def attach_def Let_def validate_spec_def empty_spec_def cardinalities_def
        List.map_filter_simps validate_execution_def)
  moreover have "fs_execution ?s = None \<and> fs_effects ?s \<noteq> []" unfolding s by (simp add: empty_spec_def)
  ultimately show ?thesis using d by blast
qed

end
