(* ===== verification/FeatureExecution.thy ===== *)
theory FeatureExecution
  imports FeaturePolicy
begin

text \<open>
  \<open>runtime/feature/execution.py\<close> with the bound effects it runs (\<open>approval.py\<close>, \<open>observation.py\<close>,
  \<open>audit.py\<close>, \<open>effect.py\<close>), and the effect ports of \<open>runtime/feature/protocol.py\<close> and
  \<open>agent/effect.py\<close>. The feature function, the effect port, the event publisher and the audit sink act on a
  state of their own; the publisher and the sink may raise, which their callers ignore.
\<close>

section \<open>Operations that may ask for an effect\<close>

text \<open>Besides the exceptions of the program, a feature may end with \<open>ToolEffectRequired\<close>, which carries its request.\<close>

datatype raised = ToolEffectRequired ApprovalEffectRequest | Raised exn

type_synonym ('s, 'a) feature_act = "'s \<Rightarrow> (raised + 'a) \<times> 's"

definition then_do :: "('s, 'a) feature_act \<Rightarrow> ('a \<Rightarrow> ('s, 'b) feature_act) \<Rightarrow> ('s, 'b) feature_act" where
  "then_do m f s = (case m s of (Inl e, t) \<Rightarrow> (Inl e, t) | (Inr x, t) \<Rightarrow> f x t)"

definition of_result :: "'a result \<Rightarrow> ('s, 'a) feature_act" where
  "of_result r s = ((case r of Inl e \<Rightarrow> Inl (Raised e) | Inr x \<Rightarrow> Inr x), s)"

section \<open>Environment and invocation\<close>

record FeatureAuditRecord =
  fa_component :: string
  fa_event :: string
  fa_operation :: string
  fa_outcome :: string
  fa_error_type :: "string option"

text \<open>
  \<open>ee_events\<close> takes the name, the producer and the payload of an event. The callback given to the port
  publishes the request.
\<close>

type_synonym 's effect_port = "ApprovalEffectRequest \<Rightarrow> ('s \<Rightarrow> 's) \<Rightarrow> ('s, ApprovalEffectResolution) feature_act"

record 's EffectEnvironment =
  ee_producer :: string
  ee_port :: "'s effect_port"
  ee_events :: "(string \<Rightarrow> string \<Rightarrow> pydict \<Rightarrow> ('s, unit) act) option"
  ee_audits :: "(FeatureAuditRecord \<Rightarrow> ('s, unit) act) option"

definition reject_unavailable :: "'s effect_port" where
  "reject_unavailable request on_requested s = (Inl (ToolEffectRequired request), on_requested s)"

text \<open>
  \<open>GraphToolEffectPort\<close>: what LangGraph's \<open>interrupt\<close> does on a request is the argument \<open>interrupt\<close>. A value it
  resumes with is a resolution or something else.
\<close>

datatype interruption = GraphInterrupt | RuntimeFailure | Resumed "ApprovalEffectResolution option"

definition graph_port :: "(ApprovalEffectRequest \<Rightarrow> 's \<Rightarrow> interruption \<times> 's) \<Rightarrow> 's effect_port" where
  "graph_port interrupt request on_requested s =
     (case interrupt request s of
        (GraphInterrupt, t) \<Rightarrow> (Inl (Raised (OtherException ''GraphInterrupt'')), on_requested t)
      | (RuntimeFailure, t) \<Rightarrow> (Inl (ToolEffectRequired request), on_requested t)
      | (Resumed None, t) \<Rightarrow>
          (Inl (Raised (TypeError ''Tool effect checkpoint resumed without a typed resolution'')), t)
      | (Resumed (Some n), t) \<Rightarrow>
          if an_request n \<noteq> request then (Inl (ToolEffectRequired request), t) else (Inr n, t))"

text \<open>\<open>EffectEnvironment.__post_init__\<close> and \<open>FeatureExecutor.__init__\<close>.\<close>

definition make_executor ::
  "string \<Rightarrow> 's effect_port option \<Rightarrow> (string \<Rightarrow> string \<Rightarrow> pydict \<Rightarrow> ('s, unit) act) option
   \<Rightarrow> (FeatureAuditRecord \<Rightarrow> ('s, unit) act) option \<Rightarrow> 's EffectEnvironment result" where
  "make_executor producer port events audits =
     bindE (raise_if (blank producer) (ValueError ''Tool effect producer must not be blank'')) (\<lambda>_.
       Inr \<lparr>ee_producer = producer, ee_port = (case port of None \<Rightarrow> reject_unavailable | Some p \<Rightarrow> p),
            ee_events = events, ee_audits = audits\<rparr>)"

record 'x FeatureInvocation =
  fi_component :: string
  fi_operation :: string
  fi_execution :: "Execution option"
  fi_arguments :: 'x
  fi_started_at :: rat

definition from_call :: "string \<Rightarrow> string option \<Rightarrow> string option \<Rightarrow> Execution option \<Rightarrow> 'x \<Rightarrow> rat \<Rightarrow> 'x FeatureInvocation" where
  "from_call function_name component operation execution arguments now =
     \<lparr>fi_component = (case component of None \<Rightarrow> ''runtime'' | Some c \<Rightarrow> if c = '''' then ''runtime'' else c),
      fi_operation = (case operation of None \<Rightarrow> function_name | Some n \<Rightarrow> if n = '''' then function_name else n),
      fi_execution = execution, fi_arguments = arguments, fi_started_at = now\<rparr>"

text \<open>The clock is read from the state.\<close>

definition duration_ms :: "('s \<Rightarrow> rat) \<Rightarrow> 'x FeatureInvocation \<Rightarrow> 's \<Rightarrow> int" where
  "duration_ms clock fi s = max 0 \<lfloor>(clock s - fi_started_at fi) * 1000\<rfloor>"

section \<open>Bound effects\<close>

definition quietly :: "('s, unit) act \<Rightarrow> 's \<Rightarrow> 's" where
  "quietly m s = snd (m s)"

definition publish_approval :: "'s EffectEnvironment \<Rightarrow> 'x FeatureInvocation \<Rightarrow> string \<Rightarrow> string \<Rightarrow> pydict \<Rightarrow> 's \<Rightarrow> 's" where
  "publish_approval env fi frontend_event status extra s =
     (case ee_events env of
        None \<Rightarrow> s
      | Some publish \<Rightarrow>
          quietly (publish ''tool.activity'' (ee_producer env) (log_payload_to_mapping
            \<lparr>lp_message = Some ((if frontend_event = ''approval_requested'' then ''Approval requested'' else ''Approval decided'')
                @ '' for '' @ fi_operation fi),
             lp_level = ''info'', lp_node = None, lp_duration_ms = None, lp_status = Some status, lp_error = None,
             lp_metadata = Some (PDict ([(''frontend_event'', PStr frontend_event),
               (''service_component'', PStr (fi_component fi)), (''operation'', PStr (fi_operation fi))] @ extra))\<rparr>)) s)"

definition approval_request :: "'x FeatureInvocation \<Rightarrow> 'x ApprovalEffect \<Rightarrow> ApprovalEffectRequest result" where
  "approval_request fi a =
     bindE (case ae_summary a of
              Some build \<Rightarrow> build (fi_arguments fi)
            | None \<Rightarrow> Inr (ae_action a @ '' '' @ ae_resource a)) (\<lambda>summary.
       make_approval_request
         \<lparr>aq_component = fi_component fi, aq_operation = fi_operation fi, aq_action = ae_action a,
          aq_resource = ae_resource a, aq_risk = ae_risk a, aq_summary = summary\<rparr>)"

definition resolve_approval :: "'s EffectEnvironment \<Rightarrow> 'x FeatureInvocation \<Rightarrow> ApprovalEffectRequest
    \<Rightarrow> ('s, ApprovalEffectResolution) feature_act" where
  "resolve_approval env fi q =
     ee_port env q (publish_approval env fi ''approval_requested'' ''pending''
       [(''action'', PStr (aq_action q)), (''resource'', PStr (aq_resource q)),
        (''risk'', PStr (risk_name (aq_risk q))), (''summary'', PStr (aq_summary q))])"

text \<open>\<open>_BoundApprovalEffect.before\<close>\<close>

definition approval_before :: "'s EffectEnvironment \<Rightarrow> 'x FeatureInvocation \<Rightarrow> 'x ApprovalEffect \<Rightarrow> ('s, unit) feature_act" where
  "approval_before env fi a =
     then_do (of_result (approval_request fi a)) (\<lambda>q.
     then_do (resolve_approval env fi q) (\<lambda>n s.
       if an_request n \<noteq> q then (Inl (ToolEffectRequired q), s)
       else
         let d = an_decision n;
             t = publish_approval env fi ''approval_decided'' ''decided''
                   [(''approved'', PBool (ad_approved d)), (''approver'', opt_str (ad_approver d)),
                    (''input_kind'', PStr (input_name (ad_input_kind d)))] s in
         if \<not> ad_approved d \<and> ad_input_kind d = Unavailable then (Inl (ToolEffectRequired q), t)
         else if \<not> ad_approved d
           then (Inl (Raised (FeatureEffectRejected ''Action was not approved; no changes were made.'')), t)
         else (Inr (), t)))"

text \<open>\<open>_BoundObservationEffect\<close>; the name of an exception's class is given by \<open>class_of\<close>.\<close>

definition publish_observation :: "(raised \<Rightarrow> string) \<Rightarrow> ('s \<Rightarrow> rat) \<Rightarrow> 's EffectEnvironment \<Rightarrow> 'x FeatureInvocation \<Rightarrow> string \<Rightarrow> string \<Rightarrow> string
    \<Rightarrow> raised option \<Rightarrow> 's \<Rightarrow> 's" where
  "publish_observation class_of clock env fi name message outcome error s =
     (case ee_events env of
        None \<Rightarrow> s
      | Some publish \<Rightarrow>
          quietly (publish name (ee_producer env) (log_payload_to_mapping
            \<lparr>lp_message = Some message, lp_level = (if error = None then ''info'' else ''error''), lp_node = None,
             lp_duration_ms = None, lp_status = Some outcome, lp_error = None,
             lp_metadata = Some (PDict ([(''service_component'', PStr (fi_component fi)),
               (''operation'', PStr (fi_operation fi)),
               (''execution'', opt_str (map_option execution_name (fi_execution fi))),
               (''duration_ms'', PInt (duration_ms clock fi s))] @
               (case error of None \<Rightarrow> [] | Some e \<Rightarrow> [(''error_type'', PStr (class_of e))])))\<rparr>)) s)"

definition publish_lifecycle :: "(raised \<Rightarrow> string) \<Rightarrow> ('s \<Rightarrow> rat) \<Rightarrow> 's EffectEnvironment \<Rightarrow> 'x FeatureInvocation \<Rightarrow> string \<Rightarrow> raised option \<Rightarrow> 's \<Rightarrow> 's" where
  "publish_lifecycle class_of clock env fi outcome error =
     publish_observation class_of clock env fi (''feature.'' @ outcome)
       (''feature '' @ outcome @ '': '' @ fi_operation fi) outcome error"

definition publish_outcome :: "(raised \<Rightarrow> string) \<Rightarrow> ('s \<Rightarrow> rat) \<Rightarrow> 's EffectEnvironment \<Rightarrow> 'x FeatureInvocation \<Rightarrow> string \<Rightarrow> raised option \<Rightarrow> 's \<Rightarrow> 's" where
  "publish_outcome class_of clock env fi outcome error =
     publish_observation class_of clock env fi ''tool.activity'' ''Tool outcome observed'' outcome error"

definition write_audit :: "'s EffectEnvironment \<Rightarrow> 'x FeatureInvocation \<Rightarrow> string \<Rightarrow> 's \<Rightarrow> 's" where
  "write_audit env fi event s =
     (case ee_audits env of
        None \<Rightarrow> s
      | Some sink \<Rightarrow> quietly (sink \<lparr>fa_component = fi_component fi, fa_event = event, fa_operation = fi_operation fi,
          fa_outcome = ''completed'', fa_error_type = None\<rparr>) s)"

fun before_priority :: "'x FeatureEffect \<Rightarrow> nat" where
  "before_priority (Approval a) = 10"
| "before_priority Observation = 20"
| "before_priority (Audit e) = 100"

fun after_priority :: "'x FeatureEffect \<Rightarrow> nat" where
  "after_priority (Approval a) = 100"
| "after_priority Observation = 20"
| "after_priority (Audit e) = 10"

fun failure_priority :: "'x FeatureEffect \<Rightarrow> nat" where
  "failure_priority (Approval a) = 100"
| "failure_priority Observation = 20"
| "failure_priority (Audit e) = 100"

fun effect_before :: "(raised \<Rightarrow> string) \<Rightarrow> ('s \<Rightarrow> rat) \<Rightarrow> 's EffectEnvironment \<Rightarrow> 'x FeatureInvocation \<Rightarrow> 'x FeatureEffect \<Rightarrow> ('s, unit) feature_act" where
  "effect_before class_of clock env fi (Approval a) s = approval_before env fi a s"
| "effect_before class_of clock env fi Observation s = (Inr (), publish_lifecycle class_of clock env fi ''started'' None s)"
| "effect_before class_of clock env fi (Audit e) s = (Inr (), s)"

fun effect_after :: "(raised \<Rightarrow> string) \<Rightarrow> ('s \<Rightarrow> rat) \<Rightarrow> 's EffectEnvironment \<Rightarrow> 'x FeatureInvocation \<Rightarrow> 'x FeatureEffect \<Rightarrow> 's \<Rightarrow> 's" where
  "effect_after class_of clock env fi (Approval a) s = s"
| "effect_after class_of clock env fi Observation s =
     publish_outcome class_of clock env fi ''completed'' None (publish_lifecycle class_of clock env fi ''completed'' None s)"
| "effect_after class_of clock env fi (Audit e) s = write_audit env fi e s"

fun effect_failed :: "(raised \<Rightarrow> string) \<Rightarrow> ('s \<Rightarrow> rat) \<Rightarrow> 's EffectEnvironment \<Rightarrow> 'x FeatureInvocation \<Rightarrow> raised \<Rightarrow> 'x FeatureEffect \<Rightarrow> 's \<Rightarrow> 's" where
  "effect_failed class_of clock env fi error Observation s =
     publish_outcome class_of clock env fi ''failed'' (Some error) (publish_lifecycle class_of clock env fi ''failed'' (Some error) s)"
| "effect_failed class_of clock env fi error _ s = s"

section \<open>The executor\<close>

fun run_before :: "(raised \<Rightarrow> string) \<Rightarrow> ('s \<Rightarrow> rat) \<Rightarrow> 's EffectEnvironment \<Rightarrow> 'x FeatureInvocation \<Rightarrow> 'x FeatureEffect list \<Rightarrow> ('s, unit) feature_act" where
  "run_before class_of clock env fi [] s = (Inr (), s)"
| "run_before class_of clock env fi (e # es) s = then_do (effect_before class_of clock env fi e) (\<lambda>_. run_before class_of clock env fi es) s"

text \<open>\<open>invoke\<close>: the arguments are part of \<open>call\<close>, the application of the function to them.\<close>

definition invocation_of :: "string \<Rightarrow> 'x FeatureSpec \<Rightarrow> 'x \<Rightarrow> rat \<Rightarrow> 'x FeatureInvocation" where
  "invocation_of function_name spec arguments now =
     from_call function_name (fs_component spec) (case fs_tool spec of None \<Rightarrow> None | Some p \<Rightarrow> tp_name p)
       (fs_execution spec) arguments now"

definition invoke :: "(raised \<Rightarrow> string) \<Rightarrow> ('s \<Rightarrow> rat) \<Rightarrow> 's EffectEnvironment \<Rightarrow> string \<Rightarrow> 'x FeatureSpec \<Rightarrow> 'x \<Rightarrow> ('s, 'r) feature_act
    \<Rightarrow> ('s, 'r) feature_act" where
  "invoke class_of clock env function_name spec arguments call s =
     (let fi = invocation_of function_name spec arguments (clock s);
          before = sort_key before_priority (fs_effects spec);
          after = sort_key after_priority (fs_effects spec);
          failed = sort_key failure_priority (fs_effects spec) in
      then_do (run_before class_of clock env fi before) (\<lambda>_ s.
        case call s of
          (Inl error, t) \<Rightarrow> (Inl error, fold (effect_failed class_of clock env fi error) failed t)
        | (Inr result, t) \<Rightarrow> (Inr result, fold (effect_after class_of clock env fi) after t)) s)"


section \<open>The approval gate\<close>

text \<open>The port answered the very request of this call, and the answer approves it.\<close>

definition granted :: "'s EffectEnvironment \<Rightarrow> 'x FeatureInvocation \<Rightarrow> 'x ApprovalEffect \<Rightarrow> 's \<Rightarrow> bool" where
  "granted env fi a s =
     (case approval_request fi a of
        Inl e \<Rightarrow> False
      | Inr q \<Rightarrow>
          (case resolve_approval env fi q s of
             (Inl e, t) \<Rightarrow> False
           | (Inr n, t) \<Rightarrow> an_request n = q \<and> ad_approved (an_decision n)))"

lemma approval_before_granted:
  "if granted env fi a s then \<exists>t. approval_before env fi a s = (Inr (), t)
   else \<exists>e t. approval_before env fi a s = (Inl e, t)"
proof (cases "approval_request fi a")
  case (Inl e)
  then show ?thesis by (simp add: granted_def approval_before_def then_do_def of_result_def)
next
  case (Inr q)
  obtain r t where "resolve_approval env fi q s = (r, t)" by fastforce
  with Inr show ?thesis
    by (cases r) (simp_all add: granted_def approval_before_def then_do_def of_result_def Let_def)
qed

text \<open>Without approvals, what runs before the function does not raise.\<close>

lemma run_before_quiet:
  "\<forall>a. Approval a \<notin> set es \<Longrightarrow> \<exists>t. run_before class_of clock env fi es s = (Inr (), t)"
proof (induction es arbitrary: s)
  case (Cons e es)
  then show ?case by (cases e) (auto simp: then_do_def)
qed simp

lemma unique_key:
  "distinct (List.map_filter f xs) \<Longrightarrow> x \<in> set xs \<Longrightarrow> f x = Some k \<Longrightarrow> filter (\<lambda>y. f y = Some k) xs = [x]"
proof (induction xs)
  case (Cons y ys)
  have mem: "k \<in> set (List.map_filter f ys) \<longleftrightarrow> (\<exists>z \<in> set ys. f z = Some k)"
    by (induction ys) (auto simp: List.map_filter_simps split: option.splits)
  show ?case
  proof (cases "x = y")
    case True
    with Cons.prems mem show ?thesis by (auto simp: List.map_filter_simps filter_empty_conv)
  next
    case False
    with Cons.prems mem have "f y \<noteq> Some k" by (auto simp: List.map_filter_simps)
    with False Cons show ?thesis by (auto simp: List.map_filter_simps split: option.splits)
  qed
qed simp

text \<open>The approval runs first, whatever was declared before it, and it is the only one.\<close>

lemma approval_runs_first:
  assumes "distinct (cardinalities es)" and "Approval a \<in> set es"
  obtains rest where "sort_key before_priority es = Approval a # rest" "\<forall>a'. Approval a' \<notin> set rest"
proof -
  let ?ys = "sort_key before_priority es"
  have is_approval: "before_priority e = 10 \<longleftrightarrow> cardinality_key e = Some ''interaction.approval''"
    "10 \<le> before_priority e" for e :: "'a FeatureEffect"
    by (cases e; simp)+
  have "filter (\<lambda>e. before_priority e = 10) es = [Approval a]"
    using unique_key [of cardinality_key es "Approval a" "''interaction.approval''"] assms
    by (simp add: cardinalities_def is_approval(1))
  then have only: "filter (\<lambda>e. before_priority e = 10) ?ys = [Approval a]"
    by (simp add: filter_sort)
  have mem: "Approval a \<in> set ?ys" using assms(2) by simp
  then obtain y rest where ys: "?ys = y # rest" by (cases ?ys) auto
  have "sorted (map before_priority ?ys)" by simp
  then have "before_priority y \<le> before_priority (Approval a)" using mem ys by auto
  then have "before_priority y = 10" using is_approval(2) [of y] by simp
  with only ys have "y = Approval a" "filter (\<lambda>e. before_priority e = 10) rest = []" by simp_all
  then have "\<forall>a'. Approval a' \<notin> set rest" by (auto simp: filter_empty_conv)
  with that ys \<open>y = Approval a\<close> show thesis by simp
qed

text \<open>
  C3: A feature that requires approval is not run without one. If the port does not answer the very request
  of the call with an approval, whether it suspends, answers another request, declines or raises, the call ends with the same
  exception and the same state whatever the function is: it was not called. If it does, the function is called once,
  in a state that does not depend on it, its outcome is the outcome of the call, and the effects that
  follow only act on the state it left.
\<close>

theorem approval_gate:
  fixes spec :: "'x FeatureSpec" and s :: 's
  assumes "declared spec" and "Approval a \<in> set (fs_effects spec)"
  shows "if granted env (invocation_of name spec arguments (clock s)) a s
    then \<exists>t f g. \<forall>call :: ('s, 'r) feature_act. invoke class_of clock env name spec arguments call s =
        (case call t of (Inl e, u) \<Rightarrow> (Inl e, f e u) | (Inr x, u) \<Rightarrow> (Inr x, g u))
    else \<exists>e t. \<forall>call :: ('s, 'r) feature_act. invoke class_of clock env name spec arguments call s = (Inl e, t)"
proof -
  let ?fi = "invocation_of name spec arguments (clock s)"
  have "distinct (cardinalities (fs_effects spec))" using declared_ok [OF assms(1)] by (simp add: spec_ok_def)
  then obtain rest where sorted: "sort_key before_priority (fs_effects spec) = Approval a # rest"
    and rest: "\<forall>a'. Approval a' \<notin> set rest"
    using assms(2) by (rule approval_runs_first)
  show ?thesis
  proof (cases "granted env ?fi a s")
    case True
    with approval_before_granted [of env ?fi a s] obtain t where "approval_before env ?fi a s = (Inr (), t)" by auto
    moreover obtain u where "run_before class_of clock env ?fi rest t = (Inr (), u)"
      using run_before_quiet [OF rest, of class_of clock env ?fi t] by blast
    ultimately have before: "run_before class_of clock env ?fi (sort_key before_priority (fs_effects spec)) s = (Inr (), u)"
      by (simp add: sorted then_do_def)
    let ?f = "\<lambda>e. fold (effect_failed class_of clock env ?fi e) (sort_key failure_priority (fs_effects spec))"
    let ?g = "fold (effect_after class_of clock env ?fi) (sort_key after_priority (fs_effects spec))"
    have "\<forall>call :: ('s, 'r) feature_act. invoke class_of clock env name spec arguments call s =
        (case call u of (Inl e, t) \<Rightarrow> (Inl e, ?f e t) | (Inr x, t) \<Rightarrow> (Inr x, ?g t))"
      by (simp only: invoke_def Let_def then_do_def before prod.case sum.case) simp
    then have "\<exists>t f g. \<forall>call :: ('s, 'r) feature_act. invoke class_of clock env name spec arguments call s =
        (case call t of (Inl e, u) \<Rightarrow> (Inl e, f e u) | (Inr x, u) \<Rightarrow> (Inr x, g u))"
      by (intro exI [of _ u] exI [of _ ?f] exI [of _ ?g])
    with True show ?thesis by (simp only: if_True)
  next
    case False
    with approval_before_granted [of env ?fi a s] obtain e t where "approval_before env ?fi a s = (Inl e, t)" by auto
    then have "run_before class_of clock env ?fi (sort_key before_priority (fs_effects spec)) s = (Inl e, t)"
      by (simp add: sorted then_do_def)
    then have "\<forall>call :: ('s, 'r) feature_act. invoke class_of clock env name spec arguments call s = (Inl e, t)"
      by (simp add: invoke_def Let_def then_do_def)
    with False show ?thesis by auto
  qed
qed

text \<open>Without a port, the executor never runs such a feature.\<close>

lemma reject_unavailable_denies: "ee_port env = reject_unavailable \<Longrightarrow> \<not> granted env fi a s"
  by (auto simp: granted_def resolve_approval_def reject_unavailable_def split: sum.splits)

definition sample_effect :: "unit ApprovalEffect" where
  "sample_effect = \<lparr>ae_action = ''delete'', ae_resource = ''note'', ae_risk = Destructive, ae_summary = None\<rparr>"

definition sample_environment :: "bool \<Rightarrow> nat EffectEnvironment" where
  "sample_environment approve =
     \<lparr>ee_producer = ''chat'',
      ee_port = (\<lambda>q on_requested s. (Inr \<lparr>an_request = q, an_decision =
        (if approve then \<lparr>ad_approved = True, ad_approver = Some ''user'', ad_input_kind = Affirmative\<rparr>
         else \<lparr>ad_approved = False, ad_approver = None, ad_input_kind = Declined\<rparr>)\<rparr>, on_requested s)),
      ee_events = None, ee_audits = None\<rparr>"

definition sample_spec :: "unit FeatureSpec" where
  "sample_spec = snd (feature_observed (snd (requires_confirmation sample_effect empty_spec)))"

lemma sample_spec_eq: "sample_spec = empty_spec\<lparr>fs_effects := [Approval sample_effect, Observation]\<rparr>"
  by (simp add: sample_spec_def sample_effect_def requires_confirmation_def feature_observed_def bind_act_def
      make_approval_effect_def blank_def py_space_def append_effect_def attach_def Let_def validate_spec_def
      empty_spec_def cardinalities_def List.map_filter_simps validate_execution_def)

lemma approval_gate_witness:
  "(\<exists>t f g. \<forall>call :: (nat, unit) feature_act. invoke (\<lambda>_. ''E'') (\<lambda>_. 0) (sample_environment True) ''forget'' sample_spec () call 0 =
       (case call t of (Inl e, u) \<Rightarrow> (Inl e, f e u) | (Inr x, u) \<Rightarrow> (Inr x, g u))) \<and>
   (\<exists>e t. \<forall>call :: (nat, unit) feature_act. invoke (\<lambda>_. ''E'') (\<lambda>_. 0) (sample_environment False) ''forget'' sample_spec () call 0 = (Inl e, t))"
proof -
  have d: "declared sample_spec" unfolding sample_spec_def by (intro Observed Confirmed Undeclared)
  have a: "Approval sample_effect \<in> set (fs_effects sample_spec)" by (simp add: sample_spec_eq)
  let ?fi = "invocation_of ''forget'' sample_spec () 0"
  have "granted (sample_environment b) ?fi sample_effect 0 = b" for b
    by (cases b) (simp_all add: granted_def approval_request_def sample_effect_def make_approval_request_def
        make_tool_effect_request_def invocation_of_def from_call_def sample_spec_eq empty_spec_def blank_def py_space_def
        resolve_approval_def sample_environment_def)
  with approval_gate [OF d a, of "sample_environment True" "''forget''" "()" "\<lambda>_. 0" 0 "\<lambda>_. ''E''", where ?'r = unit]
    approval_gate [OF d a, of "sample_environment False" "''forget''" "()" "\<lambda>_. 0" 0 "\<lambda>_. ''E''", where ?'r = unit]
  show ?thesis by simp
qed

end
