(* ===== verification/DaemonTransport.thy ===== *)
theory DaemonTransport
  imports DaemonProtocol
begin

text \<open>
  \<open>daemon/transport.py\<close>: one frame received from a socket in chunks, and one frame written to a stream
  in parts. What successive calls of \<open>recv\<close> answer is a list: a chunk, which is empty at the end of the
  stream, or the exception raised. A list that runs out stands for a call that has not returned, so that
  a reader still waiting for its peer has the value \<open>None\<close>.
\<close>

section \<open>Receiving a frame\<close>

type_synonym recvs = "string result list"

fun is_timeout :: "exn \<Rightarrow> bool" where
  "is_timeout (TimeoutError _) = True"
| "is_timeout _ = False"

text \<open>\<open>retry n\<close> is the answer of the caller's \<open>retry_timeout\<close> to its call number \<open>n\<close>.\<close>

definition retries :: "(nat \<Rightarrow> bool) option \<Rightarrow> nat \<Rightarrow> bool" where
  "retries retry n = (case retry of None \<Rightarrow> False | Some f \<Rightarrow> f n)"

fun read_loop :: "(nat \<Rightarrow> bool) option \<Rightarrow> nat \<Rightarrow> string \<Rightarrow> recvs \<Rightarrow> (string result \<times> recvs) option" where
  "read_loop retry n buffer [] = None"
| "read_loop retry n buffer (Inl e # outs) =
     (if is_timeout e \<and> retries retry n then read_loop retry (Suc n) buffer outs else Some (Inl e, outs))"
| "read_loop retry n buffer (Inr chunk # outs) =
     (if chunk = [] then
        Some (Inl (if buffer = [] then DaemonPeerDisconnected else DaemonIncompleteFrame), outs)
      else if newline \<in> set chunk then
        (let head = takeWhile (\<lambda>c. c \<noteq> newline) chunk @ [newline]; buffer = buffer @ head in
         if MAX_DAEMON_FRAME_BYTES < length buffer then Some (Inl DaemonFrameTooLarge, outs)
         else if drop (length head) chunk \<noteq> [] then Some (Inl DaemonExtraFrameData, outs)
         else Some (Inr buffer, outs))
      else
        (let buffer = buffer @ chunk in
         if MAX_DAEMON_FRAME_BYTES \<le> length buffer then Some (Inl DaemonFrameTooLarge, outs)
         else read_loop retry n buffer outs))"

definition read_socket_frame :: "(nat \<Rightarrow> bool) option \<Rightarrow> recvs \<Rightarrow> (string result \<times> recvs) option" where
  "read_socket_frame retry outs = read_loop retry 0 [] outs"

section \<open>Writing a frame\<close>

text \<open>
  \<open>wr n data\<close> is what the stream's call number \<open>n\<close> answers: the number of bytes it took, \<open>None\<close> when
  it would block, or an exception. The second component of the result is what the peer is sent.
\<close>

type_synonym writer = "nat \<Rightarrow> string \<Rightarrow> int option result"

function write_loop :: "writer \<Rightarrow> nat \<Rightarrow> nat \<Rightarrow> string \<Rightarrow> unit result \<times> string" where
  "write_loop wr n offset frame =
     (if length frame \<le> offset then (Inr (), [])
      else case wr n (drop offset frame) of
        Inl e \<Rightarrow> (Inl e, [])
      | Inr None \<Rightarrow> (Inl (OSError ''daemon response stream made no write progress''), [])
      | Inr (Some written) \<Rightarrow>
          if written \<le> 0 then (Inl (OSError ''daemon response stream made no write progress''), [])
          else
            let (r, sent) = write_loop wr (Suc n) (offset + nat written) frame
            in (r, take (nat written) (drop offset frame) @ sent))"
  by pat_completeness auto

termination
  by (relation "measure (\<lambda>(wr, n, offset, frame). length frame - offset)") auto

declare write_loop.simps [simp del]

definition write_stream_frame :: "writer \<Rightarrow> unit result \<Rightarrow> string \<Rightarrow> unit result \<times> string" where
  "write_stream_frame wr flush frame =
     (case write_loop wr 0 0 frame of
        (Inl e, sent) \<Rightarrow> (Inl e, sent)
      | (Inr _, sent) \<Rightarrow> (flush, sent))"

section \<open>Any chunking gives the same frame\<close>

definition chunk_of :: "string result \<Rightarrow> string" where
  "chunk_of x = (case x of Inl e \<Rightarrow> [] | Inr chunk \<Rightarrow> chunk)"

definition received :: "recvs \<Rightarrow> string" where
  "received outs = concat (map chunk_of outs)"

text \<open>The peer is alive: chunks are not empty, and a timeout is one the caller retries.\<close>

fun alive :: "(nat \<Rightarrow> bool) option \<Rightarrow> nat \<Rightarrow> recvs \<Rightarrow> bool" where
  "alive retry n [] = True"
| "alive retry n (Inl e # outs) = (is_timeout e \<and> retries retry n \<and> alive retry (Suc n) outs)"
| "alive retry n (Inr chunk # outs) = (chunk \<noteq> [] \<and> alive retry n outs)"

lemma received_simps [simp]:
  "received [] = []"
  "received (Inl e # outs) = received outs"
  "received (Inr chunk # outs) = chunk @ received outs"
  by (simp_all add: received_def chunk_of_def)

lemma alive_received_Nil: "alive retry n outs \<Longrightarrow> received outs = [] \<Longrightarrow> \<forall>x \<in> set outs. isl x"
  by (induction retry n outs rule: alive.induct) auto

lemma takeWhile_newline:
  "newline \<notin> set t \<Longrightarrow> takeWhile (\<lambda>c. c \<noteq> newline) (t @ newline # s) = t"
  by (induction t) auto

lemma split_newline:
  assumes "a @ b = t @ [newline]" and "newline \<notin> set t" and "newline \<in> set a"
  shows "a = t @ [newline]" and "b = []"
proof -
  from assms(3) obtain u v where a: "a = u @ newline # v" and u: "newline \<notin> set u"
    using split_list_first [of newline a] by blast
  then have eq: "u @ newline # v @ b = t @ newline # []" using assms(1) by simp
  then have "u = t"
    using takeWhile_newline [OF u, of "v @ b"] takeWhile_newline [OF assms(2), of "[]"] by simp
  with eq a show "a = t @ [newline]" and "b = []" by simp_all
qed

lemma before_newline:
  assumes "a @ b = t @ [newline]" and "newline \<notin> set a"
  obtains u where "t = a @ u" "b = u @ [newline]"
  using assms by (auto simp: append_eq_append_conv2 append_eq_Cons_conv)

lemma read_loop_line:
  assumes "alive retry n outs" and "received outs = t @ [newline]" and "newline \<notin> set t"
    and "length buffer < MAX_DAEMON_FRAME_BYTES"
  shows "\<exists>rest. read_loop retry n buffer outs =
    Some (if length (buffer @ t) < MAX_DAEMON_FRAME_BYTES then Inr (buffer @ t @ [newline]) else Inl DaemonFrameTooLarge, rest)"
  using assms
proof (induction retry n buffer outs arbitrary: t rule: read_loop.induct)
  case (3 retry n buffer chunk outs)
  show ?case
  proof (cases "newline \<in> set chunk")
    case True
    from split_newline [OF _ "3.prems"(3) True] "3.prems"(2) have "chunk = t @ [newline]" by simp
    with "3.prems" show ?thesis by (auto simp: takeWhile_newline [of t "[]"])
  next
    case False
    obtain u where u: "t = chunk @ u" "received outs = u @ [newline]"
      using "3.prems"(2) False by (auto elim: before_newline)
    show ?thesis
    proof (cases "MAX_DAEMON_FRAME_BYTES \<le> length (buffer @ chunk)")
      case True
      with False u "3.prems" show ?thesis by auto
    next
      case small: False
      with False u "3.prems" "3.IH" [of "buffer @ chunk" u] show ?thesis by auto
    qed
  qed
qed auto


lemma read_frame_line:
  assumes "alive retry 0 outs" and "received outs = t @ [newline]" and "newline \<notin> set t"
  shows "\<exists>rest. read_socket_frame retry outs =
    Some (if length (t @ [newline]) \<le> MAX_DAEMON_FRAME_BYTES then Inr (t @ [newline]) else Inl DaemonFrameTooLarge, rest)"
proof -
  have "length ([] :: string) < MAX_DAEMON_FRAME_BYTES" by (simp add: MAX_DAEMON_FRAME_BYTES_def)
  from read_loop_line [OF assms this] show ?thesis
    by (auto simp: read_socket_frame_def Suc_le_eq split: if_splits)
qed

text \<open>
  C30: A frame is received as it was sent, in whatever chunks the socket delivers it: when the
  chunks concatenate to a line and its line break, the answer is this frame, unless it exceeds the size
  limit, in which case it is refused. The two different comparisons of the loop with the limit, one for a chunk
  with the line break and one without, agree.
\<close>

theorem frame_any_chunking:
  assumes "alive retry 0 outs" and "received outs = t @ [newline]" and "newline \<notin> set t"
  shows "\<exists>rest. read_socket_frame retry outs =
    Some (if length (t @ [newline]) \<le> MAX_DAEMON_FRAME_BYTES then Inr (t @ [newline]) else Inl DaemonFrameTooLarge, rest)"
  using assms by (rule read_frame_line)

lemma frame_any_chunking_witness:
  "\<exists>rest. read_socket_frame (Some (\<lambda>n. n < 1)) [Inr ''{'', Inl (TimeoutError ''''), Inr ''}\<newline>''] =
    Some (if length (''{}'' @ [newline]) \<le> MAX_DAEMON_FRAME_BYTES then Inr (''{}'' @ [newline]) else Inl DaemonFrameTooLarge, rest)"
  using frame_any_chunking [of "Some (\<lambda>n. n < 1)" "[Inr ''{'', Inl (TimeoutError ''''), Inr ''}\<newline>'']" "''{}''"]
  by (simp add: retries_def)

section \<open>The reader ends, in bounded memory\<close>

text \<open>
  Every chunk that does not end the loop adds a byte to a buffer below the limit. The buffer an iteration
  starts with is the state \<open>read_loop\<close> passes; its size is bounded by the limit and one chunk.
\<close>

definition answers :: "recvs \<Rightarrow> nat" where
  "answers outs = length (filter (\<lambda>x. \<not> isl x) outs)"

lemma answers_simps [simp]:
  "answers [] = 0"
  "answers (Inl e # outs) = answers outs"
  "answers (Inr chunk # outs) = Suc (answers outs)"
  by (simp_all add: answers_def)

lemma read_loop_ends:
  assumes "MAX_DAEMON_FRAME_BYTES \<le> length buffer + answers outs" and "length buffer < MAX_DAEMON_FRAME_BYTES"
  shows "read_loop retry n buffer outs \<noteq> None"
  using assms
proof (induction retry n buffer outs rule: read_loop.induct)
  case (3 retry n buffer chunk outs)
  have "MAX_DAEMON_FRAME_BYTES \<le> length (buffer @ chunk) + answers outs" if "chunk \<noteq> []"
    using "3.prems"(1) that by (cases chunk) auto
  with 3 show ?case by (auto simp: Let_def not_le)
qed auto

lemma read_loop_bounded:
  "read_loop retry n buffer outs = Some (Inr frame, rest) \<Longrightarrow>
     length frame \<le> MAX_DAEMON_FRAME_BYTES \<and> (\<exists>t. frame = t @ [newline])"
  by (induction retry n buffer outs rule: read_loop.induct) (auto simp: Let_def split: if_splits)

lemma read_loop_stops_reading:
  "read_loop retry n buffer outs = Some (r, rest) \<Longrightarrow> length buffer < MAX_DAEMON_FRAME_BYTES \<Longrightarrow>
   \<forall>x \<in> set outs. length (chunk_of x) \<le> 4096 \<Longrightarrow>
   \<exists>taken. outs = taken @ rest \<and> length (received taken) < MAX_DAEMON_FRAME_BYTES - length buffer + 4096"
proof (induction retry n buffer outs rule: read_loop.induct)
  case (2 retry n buffer e outs)
  show ?case
  proof (cases "is_timeout e \<and> retries retry n")
    case True
    with 2 obtain taken where "outs = taken @ rest"
        "length (received taken) < MAX_DAEMON_FRAME_BYTES - length buffer + 4096" by auto
    then show ?thesis by (intro exI [of _ "Inl e # taken"]) simp
  next
    case False
    with 2 show ?thesis by (intro exI [of _ "[Inl e]"]) auto
  qed
next
  case (3 retry n buffer chunk outs)
  have chunk: "length chunk \<le> 4096" using "3.prems"(3) by (simp add: chunk_of_def)
  show ?case
  proof (cases "chunk = [] \<or> newline \<in> set chunk \<or> MAX_DAEMON_FRAME_BYTES \<le> length (buffer @ chunk)")
    case True
    with "3.prems"(1) have "outs = rest" by (auto simp: Let_def split: if_splits)
    with chunk "3.prems"(2) show ?thesis by (intro exI [of _ "[Inr chunk]"]) auto
  next
    case False
    with "3.prems" "3.IH" [of "buffer @ chunk"] obtain taken where "outs = taken @ rest"
        "length (received taken) < MAX_DAEMON_FRAME_BYTES - length (buffer @ chunk) + 4096"
      by (auto simp: not_le)
    with False show ?thesis by (intro exI [of _ "Inr chunk # taken"]) auto
  qed
qed simp

text \<open>
  Receiving a frame ends. Once the socket has answered as often as the limit has bytes, the call has
  returned, whatever came in and however often it timed out; it has then read less than the limit
  and one chunk of 4096 bytes, so that a peer cannot make the daemon read or hold an unbounded amount.
\<close>

theorem read_frame_returns:
  assumes "MAX_DAEMON_FRAME_BYTES \<le> answers outs" and "\<forall>x \<in> set outs. length (chunk_of x) \<le> 4096"
  shows "\<exists>r taken rest. read_socket_frame retry outs = Some (r, rest) \<and> outs = taken @ rest \<and>
    length (received taken) < MAX_DAEMON_FRAME_BYTES + 4096 \<and>
    (\<forall>frame. r = Inr frame \<longrightarrow> length frame \<le> MAX_DAEMON_FRAME_BYTES)"
proof -
  have small: "length ([] :: string) < MAX_DAEMON_FRAME_BYTES" by (simp add: MAX_DAEMON_FRAME_BYTES_def)
  with read_loop_ends [of "[]" outs] assms(1)
  obtain r rest where r: "read_loop retry 0 [] outs = Some (r, rest)" by fastforce
  with read_loop_stops_reading [OF r small assms(2)] read_loop_bounded show ?thesis
    by (fastforce simp: read_socket_frame_def)
qed

lemma read_frame_returns_witness:
  "\<exists>r taken rest. read_socket_frame None (replicate (1024 * 1024) (Inr ''x'')) = Some (r, rest) \<and>
    replicate (1024 * 1024) (Inr ''x'') = taken @ rest \<and>
    length (received taken) < MAX_DAEMON_FRAME_BYTES + 4096 \<and>
    (\<forall>frame. r = Inr frame \<longrightarrow> length frame \<le> MAX_DAEMON_FRAME_BYTES)"
proof (rule read_frame_returns)
  have "answers (replicate k (Inr ''x'')) = k" for k by (induction k) simp_all
  then show "MAX_DAEMON_FRAME_BYTES \<le> answers (replicate (1024 * 1024) (Inr ''x''))"
    by (simp add: MAX_DAEMON_FRAME_BYTES_def)
qed (simp add: chunk_of_def)

section \<open>The writer\<close>

text \<open>
  What the peer is sent is a prefix of the frame, all of it if the call returns. A stream takes at
  most the bytes it is offered.
\<close>

lemma write_loop_prefix:
  assumes "\<And>k data written. wr k data = Inr (Some written) \<Longrightarrow> written \<le> int (length data)"
  shows "\<exists>rest. drop offset frame = snd (write_loop wr n offset frame) @ rest \<and>
    (fst (write_loop wr n offset frame) = Inr () \<longrightarrow> rest = [])"
  using assms
proof (induction wr n offset frame rule: write_loop.induct)
  case (1 wr n offset frame)
  show ?case
  proof (cases "length frame \<le> offset")
    case True
    then show ?thesis by (simp add: write_loop.simps)
  next
    case False
    show ?thesis
    proof (cases "\<exists>written. wr n (drop offset frame) = Inr (Some written) \<and> 0 < written")
      case True
      then obtain written where w: "wr n (drop offset frame) = Inr (Some written)" "\<not> written \<le> 0" by auto
      obtain r sent where later: "write_loop wr (Suc n) (offset + nat written) frame = (r, sent)" by fastforce
      with "1.IH" [OF False w(1) refl w(2)] "1.prems" obtain rest where
        "drop (offset + nat written) frame = sent @ rest" "r = Inr () \<longrightarrow> rest = []" by auto
      moreover have "drop offset frame = take (nat written) (drop offset frame) @ drop (offset + nat written) frame"
        by (metis add.commute append_take_drop_id drop_drop)
      ultimately show ?thesis
        using False w later by (auto simp: write_loop.simps [of wr n offset frame])
    next
      case stuck: False
      then show ?thesis
        using False by (auto simp: write_loop.simps [of wr n offset frame] split: sum.splits option.splits)
    qed
  qed
qed

lemma write_stream_frame_prefix:
  assumes "\<And>k data written. wr k data = Inr (Some written) \<Longrightarrow> written \<le> int (length data)"
  shows "\<exists>rest. frame = snd (write_stream_frame wr flush frame) @ rest \<and>
    (fst (write_stream_frame wr flush frame) = Inr () \<longrightarrow> rest = [])"
proof -
  obtain r sent where loop: "write_loop wr 0 0 frame = (r, sent)" by fastforce
  have "\<exists>rest. drop 0 frame = sent @ rest \<and> (r = Inr () \<longrightarrow> rest = [])"
    using write_loop_prefix [of wr 0 frame 0] loop assms by simp
  with loop show ?thesis by (auto simp: write_stream_frame_def split: sum.splits)
qed

end
