(* ===== verification/LogRecord.thy ===== *)
theory LogRecord
  imports RuntimeMessages
begin

text \<open>
  \<open>log/record.py\<close> and the component vocabulary of \<open>runtime/audit/types.py\<close>: the structured log event
  and its record codec.
\<close>

section \<open>Events\<close>

definition LOG_COMPONENTS :: "string list" where
  "LOG_COMPONENTS =
     [''daemon'', ''chat'', ''memory'', ''persona'', ''inbox'', ''delivery'', ''reflection'', ''reasoning'', ''storage'']"

definition log_levels :: "string list" where
  "log_levels = [''debug'', ''info'', ''warning'', ''error'']"

record LogEvent =
  lg_time :: string
  lg_level :: string
  lg_component :: string
  lg_event :: string
  lg_message :: string
  lg_event_id :: "string option"
  lg_schema_version :: "int option"
  lg_conversation_id :: "string option"
  lg_reason_id :: "string option"
  lg_request_id :: "string option"
  lg_turn_id :: "string option"
  lg_job_id :: "string option"
  lg_trace_id :: "string option"
  lg_source :: "string option"
  lg_node :: "string option"
  lg_duration_ms :: "int option"
  lg_status :: "string option"
  lg_error :: "string option"
  lg_metadata :: "pyobj option"

definition require_log_identity :: "string \<Rightarrow> string \<Rightarrow> unit result" where
  "require_log_identity component event =
     bindE (raise_if (component \<notin> set LOG_COMPONENTS) (ValueError ''log component is invalid'')) (\<lambda>_.
       case require_persisted_event_name (PStr event) of
         Inl e \<Rightarrow> if is_value_error e then Inl (ValueError ''log event name is invalid'') else Inl e
       | Inr _ \<Rightarrow> Inr ())"

text \<open>The instant of a log time, or none for the empty time of a legacy event.\<close>

definition parse_log_timestamp :: "iso_parser \<Rightarrow> string \<Rightarrow> bool \<Rightarrow> int option result" where
  "parse_log_timestamp fromiso v allow_empty =
     (if v = '''' then
        (if allow_empty then Inr None else Inl (ValueError ''structured log time must not be empty''))
      else case fromiso v of
        IsoInvalid \<Rightarrow> Inl (ValueError ''log time must be an ISO-8601 timestamp'')
      | IsoNaive _ \<Rightarrow> Inl (ValueError ''log time must include a timezone'')
      | IsoAware t \<Rightarrow> Inr (Some t))"

text \<open>
  \<open>__post_init__\<close>. The types of the fields make its checks of types; \<open>allow_empty\<close> is the argument
  \<open>_allow_empty_time\<close>. The metadata are frozen.
\<close>

definition legacy_event :: "LogEvent \<Rightarrow> bool" where
  "legacy_event e \<longleftrightarrow> lg_event e = ''legacy'' \<and> lg_event_id e = None \<and> lg_schema_version e = None"

definition make_log_event :: "iso_parser \<Rightarrow> bool \<Rightarrow> LogEvent \<Rightarrow> LogEvent result" where
  "make_log_event fromiso allow_empty e =
     bindE (raise_if (lg_level e \<notin> set log_levels) (ValueError ''log level is invalid'')) (\<lambda>_.
     bindE (raise_if (lg_component e \<notin> set LOG_COMPONENTS) (ValueError ''log component is invalid'')) (\<lambda>_.
     bindE (raise_if ((lg_event_id e = None) \<noteq> (lg_schema_version e = None))
              (ValueError ''log event_id and schema_version must both be present or absent'')) (\<lambda>_.
     bindE (raise_if (case lg_event_id e of None \<Rightarrow> False | Some s \<Rightarrow> blank s) (ValueError ''log event_id must not be blank'')) (\<lambda>_.
     bindE (raise_if (case lg_schema_version e of None \<Rightarrow> False | Some v \<Rightarrow> v \<noteq> runtime_schema_version)
              (ValueError ''log schema_version is unsupported'')) (\<lambda>_.
     bindE (parse_log_timestamp fromiso (lg_time e) (allow_empty \<and> legacy_event e)) (\<lambda>_.
     bindE (raise_if (case lg_duration_ms e of None \<Rightarrow> False | Some n \<Rightarrow> n < 0)
              (TypeError ''log duration_ms must be a non-negative integer'')) (\<lambda>_.
     bindE (if lg_schema_version e = None then Inr () else require_log_identity (lg_component e) (lg_event e)) (\<lambda>_.
       case lg_metadata e of
         None \<Rightarrow> Inr e
       | Some m \<Rightarrow>
           bindE (raise_if (\<not> is_mapping m) (TypeError ''log event metadata must be a mapping'')) (\<lambda>_.
           bindE (freeze m) (\<lambda>m. Inr (e\<lparr>lg_metadata := Some m\<rparr>)))))))))))"

text \<open>\<open>chronological_key\<close>: events without a time come first.\<close>

definition chronological_key :: "iso_parser \<Rightarrow> LogEvent \<Rightarrow> (nat \<times> int) result" where
  "chronological_key fromiso e =
     bindE (parse_log_timestamp fromiso (lg_time e) True) (\<lambda>t.
       Inr (case t of None \<Rightarrow> (0, 0) | Some i \<Rightarrow> (1, i)))"

section \<open>Records\<close>

fun present :: "(string \<times> pyobj option) list \<Rightarrow> pydict" where
  "present [] = []"
| "present ((key, None) # ps) = present ps"
| "present ((key, Some v) # ps) = (key, thaw v) # present ps"

definition log_optional :: "LogEvent \<Rightarrow> (string \<times> pyobj option) list" where
  "log_optional e =
     [(''event_id'', map_option PStr (lg_event_id e)), (''schema_version'', map_option PInt (lg_schema_version e)),
      (''conversation_id'', map_option PStr (lg_conversation_id e)), (''reason_id'', map_option PStr (lg_reason_id e)),
      (''request_id'', map_option PStr (lg_request_id e)), (''turn_id'', map_option PStr (lg_turn_id e)),
      (''job_id'', map_option PStr (lg_job_id e)), (''trace_id'', map_option PStr (lg_trace_id e)),
      (''source'', map_option PStr (lg_source e)), (''node'', map_option PStr (lg_node e)),
      (''duration_ms'', map_option PInt (lg_duration_ms e)), (''status'', map_option PStr (lg_status e)),
      (''error'', map_option PStr (lg_error e)), (''metadata'', lg_metadata e)]"

definition log_to_record :: "LogEvent \<Rightarrow> pydict" where
  "log_to_record e =
     [(''time'', PStr (lg_time e)), (''level'', PStr (lg_level e)), (''component'', PStr (lg_component e)),
      (''event'', PStr (lg_event e)), (''message'', PStr (lg_message e))] @ present (log_optional e)"

definition record_optional_str :: "pydict \<Rightarrow> string \<Rightarrow> string option result" where
  "record_optional_str d key =
     (case dict_get d key of
        PNone \<Rightarrow> Inr None
      | PStr s \<Rightarrow> Inr (Some s)
      | _ \<Rightarrow> Inl (TypeError (''log field must be a string: '' @ key)))"

definition record_optional_int :: "pydict \<Rightarrow> string \<Rightarrow> int option result" where
  "record_optional_int d key =
     (case dict_get d key of
        PNone \<Rightarrow> Inr None
      | PInt i \<Rightarrow> Inr (Some i)
      | _ \<Rightarrow> Inl (TypeError (''log field must be an integer: '' @ key)))"

definition record_optional_mapping :: "pydict \<Rightarrow> string \<Rightarrow> pyobj option result" where
  "record_optional_mapping d key =
     (let v = dict_get d key in
      if v = PNone then Inr None
      else if is_mapping v then Inr (Some v)
      else Inl (TypeError (''log field must be a mapping: '' @ key)))"

text \<open>
  \<open>from_record\<close>. The level is looked up in a set, which raises for an unhashable value; the component in a
  tuple, which does not.
\<close>

definition record_text :: "pydict \<Rightarrow> string \<Rightarrow> string result" where
  "record_text d key =
     (case dict_get d key of PStr s \<Rightarrow> Inr s | _ \<Rightarrow> Inl (ValueError ''log event fields are invalid''))"

definition record_level :: "pydict \<Rightarrow> string result" where
  "record_level d =
     (if \<not> hashable (dict_get d ''level'') then Inl (TypeError ''unhashable type'')
      else case dict_get d ''level'' of
        PStr s \<Rightarrow> if s \<in> set log_levels then Inr s else Inl (ValueError ''log level is invalid'')
      | _ \<Rightarrow> Inl (ValueError ''log level is invalid''))"

definition record_component :: "pydict \<Rightarrow> string result" where
  "record_component d =
     (case dict_get d ''component'' of
        PStr s \<Rightarrow> if s \<in> set LOG_COMPONENTS then Inr s else Inl (ValueError ''log component is invalid'')
      | _ \<Rightarrow> Inl (ValueError ''log component is invalid''))"

definition log_from_record :: "iso_parser \<Rightarrow> pydict \<Rightarrow> LogEvent result" where
  "log_from_record fromiso d =
     bindE (record_component d) (\<lambda>component.
     bindE (record_level d) (\<lambda>level.
     bindE (record_text d ''event'') (\<lambda>event.
     bindE (record_text d ''message'') (\<lambda>message.
     bindE (record_text d ''time'') (\<lambda>timestamp.
     bindE (record_optional_str d ''event_id'') (\<lambda>event_id.
     bindE (record_optional_int d ''schema_version'') (\<lambda>schema_version.
     bindE (record_optional_str d ''conversation_id'') (\<lambda>conversation_id.
     bindE (record_optional_str d ''reason_id'') (\<lambda>reason_id.
     bindE (record_optional_str d ''request_id'') (\<lambda>request_id.
     bindE (record_optional_str d ''turn_id'') (\<lambda>turn_id.
     bindE (record_optional_str d ''job_id'') (\<lambda>job_id.
     bindE (record_optional_str d ''trace_id'') (\<lambda>trace_id.
     bindE (record_optional_str d ''source'') (\<lambda>src.
     bindE (record_optional_str d ''node'') (\<lambda>node.
     bindE (record_optional_int d ''duration_ms'') (\<lambda>duration_ms.
     bindE (record_optional_str d ''status'') (\<lambda>status.
     bindE (record_optional_str d ''error'') (\<lambda>err.
     bindE (record_optional_mapping d ''metadata'') (\<lambda>metadata.
       make_log_event fromiso False
         \<lparr>lg_time = timestamp, lg_level = level, lg_component = component, lg_event = event, lg_message = message,
          lg_event_id = event_id, lg_schema_version = schema_version, lg_conversation_id = conversation_id,
          lg_reason_id = reason_id, lg_request_id = request_id, lg_turn_id = turn_id, lg_job_id = job_id,
          lg_trace_id = trace_id, lg_source = src, lg_node = node, lg_duration_ms = duration_ms,
          lg_status = status, lg_error = err, lg_metadata = metadata\<rparr>)))))))))))))))))))"

section \<open>Round trip\<close>

definition log_valid :: "iso_parser \<Rightarrow> LogEvent \<Rightarrow> bool" where
  "log_valid fromiso e \<longleftrightarrow>
     make_log_event fromiso False e = Inr e \<and> (\<forall>m. lg_metadata e = Some m \<longrightarrow> is_mapping m \<and> frozen m)"

lemma dget_present:
  "distinct (map fst ps) \<Longrightarrow>
   dget (present ps) key = (case map_of ps key of None \<Rightarrow> None | Some v \<Rightarrow> map_option thaw v)"
proof (induction ps rule: present.induct)
  case (2 k ps)
  then have "map_of ps k = None" by (auto simp: map_of_eq_None_iff)
  with 2 show ?case by auto
qed simp_all

lemma log_optional_distinct: "distinct (map fst (log_optional e))"
  by (simp add: log_optional_def)

lemma log_optional_other:
  "key \<notin> fst ` set (log_optional e) \<Longrightarrow> dget (present (log_optional e)) key = None"
  by (simp add: dget_present [OF log_optional_distinct] map_of_eq_None_iff [THEN iffD2])

lemma dget_log:
  "dget (log_to_record e) ''time'' = Some (PStr (lg_time e))"
  "dget (log_to_record e) ''level'' = Some (PStr (lg_level e))"
  "dget (log_to_record e) ''component'' = Some (PStr (lg_component e))"
  "dget (log_to_record e) ''event'' = Some (PStr (lg_event e))"
  "dget (log_to_record e) ''message'' = Some (PStr (lg_message e))"
  "dget (log_to_record e) ''event_id'' = map_option PStr (lg_event_id e)"
  "dget (log_to_record e) ''schema_version'' = map_option PInt (lg_schema_version e)"
  "dget (log_to_record e) ''conversation_id'' = map_option PStr (lg_conversation_id e)"
  "dget (log_to_record e) ''reason_id'' = map_option PStr (lg_reason_id e)"
  "dget (log_to_record e) ''request_id'' = map_option PStr (lg_request_id e)"
  "dget (log_to_record e) ''turn_id'' = map_option PStr (lg_turn_id e)"
  "dget (log_to_record e) ''job_id'' = map_option PStr (lg_job_id e)"
  "dget (log_to_record e) ''trace_id'' = map_option PStr (lg_trace_id e)"
  "dget (log_to_record e) ''source'' = map_option PStr (lg_source e)"
  "dget (log_to_record e) ''node'' = map_option PStr (lg_node e)"
  "dget (log_to_record e) ''duration_ms'' = map_option PInt (lg_duration_ms e)"
  "dget (log_to_record e) ''status'' = map_option PStr (lg_status e)"
  "dget (log_to_record e) ''error'' = map_option PStr (lg_error e)"
  "dget (log_to_record e) ''metadata'' = map_option thaw (lg_metadata e)"
proof -
  note optional = dget_present [OF log_optional_distinct, of e]
  have thaw_str: "map_option thaw (map_option PStr x) = map_option PStr x" for x
    by (cases x) simp_all
  have thaw_int: "map_option thaw (map_option PInt x) = map_option PInt x" for x
    by (cases x) simp_all
  show "dget (log_to_record e) ''time'' = Some (PStr (lg_time e))"
    "dget (log_to_record e) ''level'' = Some (PStr (lg_level e))"
    "dget (log_to_record e) ''component'' = Some (PStr (lg_component e))"
    "dget (log_to_record e) ''event'' = Some (PStr (lg_event e))"
    "dget (log_to_record e) ''message'' = Some (PStr (lg_message e))"
    by (simp_all add: log_to_record_def)
  show "dget (log_to_record e) ''event_id'' = map_option PStr (lg_event_id e)"
    "dget (log_to_record e) ''schema_version'' = map_option PInt (lg_schema_version e)"
    "dget (log_to_record e) ''conversation_id'' = map_option PStr (lg_conversation_id e)"
    "dget (log_to_record e) ''reason_id'' = map_option PStr (lg_reason_id e)"
    "dget (log_to_record e) ''request_id'' = map_option PStr (lg_request_id e)"
    "dget (log_to_record e) ''turn_id'' = map_option PStr (lg_turn_id e)"
    "dget (log_to_record e) ''job_id'' = map_option PStr (lg_job_id e)"
    "dget (log_to_record e) ''trace_id'' = map_option PStr (lg_trace_id e)"
    "dget (log_to_record e) ''source'' = map_option PStr (lg_source e)"
    "dget (log_to_record e) ''node'' = map_option PStr (lg_node e)"
    "dget (log_to_record e) ''duration_ms'' = map_option PInt (lg_duration_ms e)"
    "dget (log_to_record e) ''status'' = map_option PStr (lg_status e)"
    "dget (log_to_record e) ''error'' = map_option PStr (lg_error e)"
    "dget (log_to_record e) ''metadata'' = map_option thaw (lg_metadata e)"
    by (simp_all add: log_to_record_def optional, simp_all add: log_optional_def thaw_str thaw_int)
qed

lemma record_optional_simps [simp]:
  "dget d key = map_option PStr x \<Longrightarrow> record_optional_str d key = Inr x"
  "dget d key = map_option PInt n \<Longrightarrow> record_optional_int d key = Inr n"
  by (cases x; simp add: record_optional_str_def dict_get_def)
    (cases n; simp add: record_optional_int_def dict_get_def)

lemma make_log_event_thawed:
  assumes "log_valid fromiso e"
  shows "make_log_event fromiso False (e\<lparr>lg_metadata := map_option thaw (lg_metadata e)\<rparr>) = Inr e"
proof (cases "lg_metadata e")
  case None
  then have "e\<lparr>lg_metadata := None\<rparr> = e" by (cases e) simp
  then show ?thesis
    using assms unfolding log_valid_def None option.map by (simp only:)
next
  case (Some m)
  with assms have m: "is_mapping m" "frozen m" and e: "make_log_event fromiso False e = Inr e"
    by (auto simp: log_valid_def)
  have "is_mapping (thaw m)" using m(1) by (cases m) (simp_all add: is_mapping_def)
  moreover have "e\<lparr>lg_metadata := Some m\<rparr> = e" using Some by (cases e) simp
  ultimately show ?thesis
    using e Some m freeze_thaw [OF m(2)]
    by (auto simp: make_log_event_def legacy_event_def result_simps freeze_frozen_id split: if_splits)
qed

lemma log_reload:
  assumes "log_valid fromiso e"
  shows "log_from_record fromiso (log_to_record e) = Inr e"
proof -
  have ok: "lg_level e \<in> set log_levels" "lg_component e \<in> set LOG_COMPONENTS"
    using assms by (auto simp: log_valid_def make_log_event_def result_simps)
  have meta: "record_optional_mapping (log_to_record e) ''metadata'' = Inr (map_option thaw (lg_metadata e))"
  proof (cases "lg_metadata e")
    case None
    then show ?thesis by (simp add: record_optional_mapping_def dict_get_def dget_log)
  next
    case (Some m)
    with assms have "is_mapping m" by (simp add: log_valid_def)
    with Some show ?thesis
      by (cases m) (simp_all add: record_optional_mapping_def dict_get_def dget_log is_mapping_def)
  qed
  have "log_from_record fromiso (log_to_record e)
      = make_log_event fromiso False (e\<lparr>lg_metadata := map_option thaw (lg_metadata e)\<rparr>)"
    using ok meta
    by (cases e) (simp add: log_from_record_def dget_log record_component_def record_level_def record_text_def
        dict_get_def)
  with make_log_event_thawed [OF assms] show ?thesis by simp
qed

lemma Some_eq_map_option: "Some v = map_option f x \<longleftrightarrow> (\<exists>y. x = Some y \<and> v = f y)"
  by (cases x) simp_all

lemma present_plain: "list_all (\<lambda>(key, x). json_plain x) (present ps)"
  if "\<forall>v. (\<exists>key. (key, Some v) \<in> set ps) \<longrightarrow> json_plain (thaw v)"
  using that by (induction ps rule: present.induct) auto

lemma log_record_plain:
  assumes "log_valid fromiso e"
  shows "json_plain (PDict (log_to_record e))"
proof -
  have "json_plain (thaw m)" if "lg_metadata e = Some m" for m
    using assms that freeze_thaw [of m] thaw_freeze_plain [of "thaw m" m] by (auto simp: log_valid_def)
  then show ?thesis
    by (auto simp: log_to_record_def log_optional_def Some_eq_map_option intro!: present_plain)
qed

end
