(* ===== verification/DaemonPayloads.thy ===== *)
theory DaemonPayloads
  imports FeatureApproval LogRecord
begin

text \<open>
  \<open>daemon/payloads.py\<close>: the payloads of the daemon's requests and responses. Each codec is an instance
  of \<open>wire_codec\<close>; those that refuse with protocol errors only are instances of \<open>strict_codec\<close>.
\<close>

section \<open>Field readers\<close>

definition payload_fields :: "pydict \<Rightarrow> string list \<Rightarrow> string list \<Rightarrow> unit result" where
  "payload_fields d required optional =
     bindE (raise_if (\<not> set required \<subseteq> dkeys d) (ProtocolError ''missing payload field(s)'')) (\<lambda>_.
       raise_if (\<not> dkeys d \<subseteq> set required \<union> set optional) (ProtocolError ''unknown payload field(s)''))"

definition required_string :: "pydict \<Rightarrow> string \<Rightarrow> bool \<Rightarrow> string result" where
  "required_string d key allow_blank =
     (case dict_get d key of
        PStr s \<Rightarrow> if \<not> allow_blank \<and> blank s then Inl (ProtocolError (''field must be a non-blank string: '' @ key)) else Inr s
      | _ \<Rightarrow> Inl (ProtocolError (''field must be a string: '' @ key)))"

definition payload_optional_integer :: "pydict \<Rightarrow> string \<Rightarrow> int \<Rightarrow> int result" where
  "payload_optional_integer d key standard =
     (case dget d key of
        None \<Rightarrow> Inr standard
      | Some (PInt i) \<Rightarrow> Inr i
      | _ \<Rightarrow> Inl (ProtocolError (''activity field must be an integer: '' @ key)))"

definition required_integer :: "pydict \<Rightarrow> string \<Rightarrow> int result" where
  "required_integer d key =
     (case dict_get d key of PInt i \<Rightarrow> Inr i | _ \<Rightarrow> Inl (ProtocolError (''field must be an integer: '' @ key)))"

definition required_bool :: "pydict \<Rightarrow> string \<Rightarrow> bool result" where
  "required_bool d key =
     (case dict_get d key of PBool b \<Rightarrow> Inr b | _ \<Rightarrow> Inl (ProtocolError (''field must be a boolean: '' @ key)))"

definition required_nullable_string :: "pydict \<Rightarrow> string \<Rightarrow> string option result" where
  "required_nullable_string d key =
     (case dict_get d key of
        PNone \<Rightarrow> Inr None
      | PStr s \<Rightarrow> Inr (Some s)
      | _ \<Rightarrow> Inl (ProtocolError (''field must be a string or null: '' @ key)))"

section \<open>Payloads\<close>

definition empty_from_wire :: "pydict \<Rightarrow> unit result" where
  "empty_from_wire d = payload_fields d [] []"

definition empty_to_wire :: "unit \<Rightarrow> pydict" where
  "empty_to_wire p = []"

record DaemonIdentityPayload =
  di_authority_id :: string

definition identity_to_wire :: "DaemonIdentityPayload \<Rightarrow> pydict" where
  "identity_to_wire p = [(''authority_id'', PStr (di_authority_id p))]"

definition identity_from_wire :: "pydict \<Rightarrow> DaemonIdentityPayload result" where
  "identity_from_wire d =
     bindE (payload_fields d [''authority_id''] []) (\<lambda>_.
     bindE (required_string d ''authority_id'' False) (\<lambda>s. Inr \<lparr>di_authority_id = s\<rparr>))"

text \<open>A codec error of a tool effect is reported as a protocol error.\<close>

definition as_protocol :: "'a result \<Rightarrow> 'a result" where
  "as_protocol r =
     (case r of Inl (ToolEffectCodecError m) \<Rightarrow> Inl (ProtocolError m) | Inl e \<Rightarrow> Inl e | Inr x \<Rightarrow> Inr x)"

record ChatRequestPayload =
  cq_message :: string
  cq_conversation_id :: string
  cq_turn_id :: "string option"
  cq_effect_resolution :: "ApprovalEffectResolution option"

definition chat_request_to_wire :: "ChatRequestPayload \<Rightarrow> pydict" where
  "chat_request_to_wire p =
     [(''message'', PStr (cq_message p)), (''conversation_id'', PStr (cq_conversation_id p))] @
     (case cq_turn_id p of None \<Rightarrow> [] | Some t \<Rightarrow> [(''turn_id'', PStr t)]) @
     (case cq_effect_resolution p of None \<Rightarrow> [] | Some n \<Rightarrow> [(''effect_resolution'', PDict (encode_resolution n))])"

definition chat_request_from_wire :: "pydict \<Rightarrow> ChatRequestPayload result" where
  "chat_request_from_wire d =
     bindE (payload_fields d [''message''] [''conversation_id'', ''turn_id'', ''effect_resolution'']) (\<lambda>_.
     bindE (required_string d ''message'' True) (\<lambda>message.
     bindE (if ''conversation_id'' \<in> dkeys d then required_string d ''conversation_id'' False else Inr ''default'') (\<lambda>conversation_id.
     bindE (if ''turn_id'' \<in> dkeys d then bindE (required_string d ''turn_id'' False) (\<lambda>t. Inr (Some t)) else Inr None) (\<lambda>turn_id.
     bindE (if ''effect_resolution'' \<in> dkeys d
            then bindE (as_protocol (decode_effect_resolution (dict_get d ''effect_resolution''))) (\<lambda>n. Inr (Some n))
            else Inr None) (\<lambda>resolution.
       Inr \<lparr>cq_message = message, cq_conversation_id = conversation_id, cq_turn_id = turn_id,
            cq_effect_resolution = resolution\<rparr>)))))"

record SchedulerHealthPayload =
  sh_running :: bool
  sh_accepting :: bool
  sh_pending :: int
  sh_in_flight :: int
  sh_capacity :: int
  sh_last_error :: "string option"

definition health_to_wire :: "SchedulerHealthPayload \<Rightarrow> pydict" where
  "health_to_wire p =
     [(''running'', PBool (sh_running p)), (''accepting'', PBool (sh_accepting p)), (''pending'', PInt (sh_pending p)),
      (''in_flight'', PInt (sh_in_flight p)), (''capacity'', PInt (sh_capacity p)), (''last_error'', opt_str (sh_last_error p))]"

definition health_from_wire :: "pydict \<Rightarrow> SchedulerHealthPayload result" where
  "health_from_wire d =
     bindE (payload_fields d [''running'', ''accepting'', ''pending'', ''in_flight'', ''capacity'', ''last_error''] []) (\<lambda>_.
     bindE (required_integer d ''pending'') (\<lambda>pending_count.
     bindE (required_integer d ''in_flight'') (\<lambda>in_flight.
     bindE (required_integer d ''capacity'') (\<lambda>capacity.
     bindE (raise_if (pending_count < 0 \<or> in_flight < 0 \<or> capacity < 0 \<or> capacity < 1)
              (ProtocolError ''scheduler health counts are invalid'')) (\<lambda>_.
     bindE (required_bool d ''running'') (\<lambda>running.
     bindE (required_bool d ''accepting'') (\<lambda>accepting.
     bindE (required_nullable_string d ''last_error'') (\<lambda>e.
       Inr \<lparr>sh_running = running, sh_accepting = accepting, sh_pending = pending_count, sh_in_flight = in_flight,
            sh_capacity = capacity, sh_last_error = e\<rparr>))))))))"

record ChatResponsePayload =
  cp_answer :: string
  cp_conversation_id :: string
  cp_evidence_references :: "string list"
  cp_epistemic_status :: "string option"
  cp_confidence :: "pyfloat option"

definition epistemic_statuses :: "string option list" where
  "epistemic_statuses = [None, Some ''grounded'', Some ''inferred'', Some ''uncertain'', Some ''unsupported'']"

definition chat_response_to_wire :: "ChatResponsePayload \<Rightarrow> pydict" where
  "chat_response_to_wire p =
     [(''answer'', PStr (cp_answer p)), (''conversation_id'', PStr (cp_conversation_id p)),
      (''evidence_references'', strs_obj (cp_evidence_references p)),
      (''epistemic_status'', opt_str (cp_epistemic_status p))] @
     (case cp_confidence p of None \<Rightarrow> [] | Some c \<Rightarrow> [(''confidence'', PFloat c)])"

text \<open>The confidence of a response: \<open>float\<close> of a number of arbitrary size.\<close>

definition confidence_of :: "pydict \<Rightarrow> pyfloat option result" where
  "confidence_of d =
     (case dget d ''confidence'' of
        None \<Rightarrow> Inr None
      | Some v \<Rightarrow>
          bindE (case v of
                   PInt i \<Rightarrow> float_of_int i
                 | PFloat x \<Rightarrow> Inr x
                 | _ \<Rightarrow> Inl (ProtocolError ''chat response field 'confidence' must be a number'')) (\<lambda>c.
          bindE (raise_if (\<not> (float_ge c (Finite 0) \<and> float_ge (Finite 1) c))
                   (ProtocolError ''chat response field 'confidence' must be between 0 and 1'')) (\<lambda>_. Inr (Some c))))"

definition chat_response_from_wire :: "pydict \<Rightarrow> ChatResponsePayload result" where
  "chat_response_from_wire d =
     bindE (payload_fields d [''answer'', ''conversation_id'', ''evidence_references'', ''epistemic_status''] [''confidence'']) (\<lambda>_.
     bindE (read_strs (ProtocolError ''chat response field 'evidence_references' must be a string list'')
              (dict_get d ''evidence_references'')) (\<lambda>evidence.
     bindE (required_nullable_string d ''epistemic_status'') (\<lambda>status.
     bindE (raise_if (status \<notin> set epistemic_statuses)
              (ProtocolError ''chat response field 'epistemic_status' is invalid'')) (\<lambda>_.
     bindE (confidence_of d) (\<lambda>confidence.
     bindE (required_string d ''answer'' True) (\<lambda>answer.
     bindE (required_string d ''conversation_id'' False) (\<lambda>conversation_id.
       Inr \<lparr>cp_answer = answer, cp_conversation_id = conversation_id, cp_evidence_references = evidence,
            cp_epistemic_status = status, cp_confidence = confidence\<rparr>)))))))"

record ChatToolEffectPayload =
  ce_conversation_id :: string
  ce_request :: ApprovalEffectRequest

definition tool_effect_to_wire :: "ChatToolEffectPayload \<Rightarrow> pydict" where
  "tool_effect_to_wire p =
     [(''conversation_id'', PStr (ce_conversation_id p)), (''tool_effect'', PDict (encode_request (ce_request p)))]"

definition tool_effect_from_wire :: "pydict \<Rightarrow> ChatToolEffectPayload result" where
  "tool_effect_from_wire d =
     bindE (payload_fields d [''conversation_id'', ''tool_effect''] []) (\<lambda>_.
     bindE (required_string d ''conversation_id'' False) (\<lambda>conversation_id.
     bindE (as_protocol (decode_effect_request (dict_get d ''tool_effect''))) (\<lambda>q.
       Inr \<lparr>ce_conversation_id = conversation_id, ce_request = q\<rparr>)))"

definition decode_chat_payload :: "pydict \<Rightarrow> (ChatToolEffectPayload + ChatResponsePayload) result" where
  "decode_chat_payload d =
     (if ''tool_effect'' \<in> dkeys d then bindE (tool_effect_from_wire d) (\<lambda>p. Inr (Inl p))
      else bindE (chat_response_from_wire d) (\<lambda>p. Inr (Inr p)))"

record ActivityOpenRequestPayload =
  ao_turn_id :: string

definition activity_open_from_wire :: "pydict \<Rightarrow> ActivityOpenRequestPayload result" where
  "activity_open_from_wire d =
     bindE (payload_fields d [''turn_id''] []) (\<lambda>_.
     bindE (required_string d ''turn_id'' False) (\<lambda>t. Inr \<lparr>ao_turn_id = t\<rparr>))"

record ActivityNextRequestPayload =
  ax_subscription_id :: string
  ax_timeout_ms :: int
  ax_limit :: int

definition activity_next_from_wire :: "pydict \<Rightarrow> ActivityNextRequestPayload result" where
  "activity_next_from_wire d =
     bindE (payload_fields d [''subscription_id''] [''timeout_ms'', ''limit'']) (\<lambda>_.
     bindE (payload_optional_integer d ''timeout_ms'' 200) (\<lambda>timeout_ms.
     bindE (payload_optional_integer d ''limit'' 50) (\<lambda>limit.
     bindE (raise_if (\<not> (0 \<le> timeout_ms \<and> timeout_ms \<le> 5000)) (ProtocolError ''activity timeout_ms must be between 0 and 5000'')) (\<lambda>_.
     bindE (raise_if (\<not> (1 \<le> limit \<and> limit \<le> 256)) (ProtocolError ''activity limit must be between 1 and 256'')) (\<lambda>_.
     bindE (required_string d ''subscription_id'' False) (\<lambda>s.
       Inr \<lparr>ax_subscription_id = s, ax_timeout_ms = timeout_ms, ax_limit = limit\<rparr>))))))"

record ActivitySubscriptionPayload =
  ay_subscription_id :: string

definition subscription_to_wire :: "ActivitySubscriptionPayload \<Rightarrow> pydict" where
  "subscription_to_wire p = [(''subscription_id'', PStr (ay_subscription_id p))]"

definition subscription_from_wire :: "pydict \<Rightarrow> ActivitySubscriptionPayload result" where
  "subscription_from_wire d =
     bindE (payload_fields d [''subscription_id''] []) (\<lambda>_.
     bindE (required_string d ''subscription_id'' False) (\<lambda>s. Inr \<lparr>ay_subscription_id = s\<rparr>))"

record ActivityEventsResponsePayload =
  av_events :: "LogEvent list"
  av_dropped_count :: int

definition make_activity_events :: "ActivityEventsResponsePayload \<Rightarrow> ActivityEventsResponsePayload result" where
  "make_activity_events p =
     bindE (raise_if (av_dropped_count p < 0) (ValueError ''activity dropped_count must be a non-negative integer'')) (\<lambda>_. Inr p)"

definition activity_events_to_wire :: "ActivityEventsResponsePayload \<Rightarrow> pydict" where
  "activity_events_to_wire p =
     [(''events'', PList (map (\<lambda>e. PDict (log_to_record e)) (av_events p))), (''dropped_count'', PInt (av_dropped_count p))]"

text \<open>One event of the response; only a \<open>ValueError\<close> of its codec is reported as a protocol error.\<close>

definition activity_event_of :: "iso_parser \<Rightarrow> pyobj \<Rightarrow> LogEvent result" where
  "activity_event_of fromiso v =
     (case v of
        PDict d \<Rightarrow>
          (case log_from_record fromiso d of
             Inl e \<Rightarrow> if is_value_error e then Inl (ProtocolError ''activity response event is invalid'') else Inl e
           | Inr e \<Rightarrow> Inr e)
      | _ \<Rightarrow> Inl (ProtocolError ''activity response event must be an object''))"

definition activity_events_from_wire :: "iso_parser \<Rightarrow> pydict \<Rightarrow> ActivityEventsResponsePayload result" where
  "activity_events_from_wire fromiso d =
     bindE (payload_fields d [''events'', ''dropped_count''] []) (\<lambda>_.
     bindE (case dict_get d ''events'' of
              PList vs \<Rightarrow> Inr vs
            | _ \<Rightarrow> Inl (ProtocolError ''activity response field 'events' must be a list'')) (\<lambda>vs.
     bindE (case dict_get d ''dropped_count'' of
              PInt i \<Rightarrow> if i < 0 then Inl (ProtocolError ''activity response field 'dropped_count' must be a non-negative integer'') else Inr i
            | _ \<Rightarrow> Inl (ProtocolError ''activity response field 'dropped_count' must be a non-negative integer'')) (\<lambda>dropped.
     bindE (mapE (activity_event_of fromiso) vs) (\<lambda>events.
       make_activity_events \<lparr>av_events = events, av_dropped_count = dropped\<rparr>))))"


section \<open>The codecs\<close>

lemmas payload_readers = payload_fields_def required_string_def payload_optional_integer_def required_integer_def
  required_bool_def required_nullable_string_def dict_get_def

lemma payload_errors:
  "payload_fields d required optional = Inl e \<Longrightarrow> is_protocol_error e"
  "required_string d key b = Inl e \<Longrightarrow> is_protocol_error e"
  "payload_optional_integer d key n = Inl e \<Longrightarrow> is_protocol_error e"
  "required_integer d key = Inl e \<Longrightarrow> is_protocol_error e"
  "required_bool d key = Inl e \<Longrightarrow> is_protocol_error e"
  "required_nullable_string d key = Inl e \<Longrightarrow> is_protocol_error e"
  by (auto simp: payload_readers result_simps split: pyobj.splits option.splits if_splits)

lemma as_protocol_errors:
  "as_protocol (decode_effect_request v) = Inl e \<Longrightarrow> is_protocol_error e"
  "as_protocol (decode_effect_resolution v) = Inl e \<Longrightarrow> is_protocol_error e"
proof -
  have request: "codec_error e'" if "decode_effect_request v = Inl e'" for e'
    using that by (auto simp: decode_effect_request_def result_simps dest: effect_errors decode_request_cases)
  have resolution: "codec_error e'" if "decode_effect_resolution v = Inl e'" for e'
    using that by (auto simp: decode_effect_resolution_def result_simps dest: effect_errors decode_resolution_cases)
  have protocol: "is_protocol_error e" if "as_protocol r = Inl e" and "\<And>e'. r = Inl e' \<Longrightarrow> codec_error e'"
    for r :: "'a result"
    using that by (cases r) (auto simp: as_protocol_def codec_error_def split: exn.splits)
  show "as_protocol (decode_effect_request v) = Inl e \<Longrightarrow> is_protocol_error e"
    using protocol request by blast
  show "as_protocol (decode_effect_resolution v) = Inl e \<Longrightarrow> is_protocol_error e"
    by (cases "decode_effect_resolution v") (use resolution in \<open>auto simp: as_protocol_def codec_error_def split: exn.splits\<close>)
qed

lemma effect_codecs:
  "request_ok q \<Longrightarrow> decode_effect_request (PDict (encode_request q)) = Inr q"
  "resolution_ok n \<Longrightarrow> decode_effect_resolution (PDict (encode_resolution n)) = Inr n"
  by (simp_all add: decode_effect_request_def decode_effect_resolution_def effect_mapping_def codec_for_kind_def
      codec_kinds_def decode_request_encode decode_resolution_encode)
    (simp_all add: effect_string_def encode_request_def encode_resolution_def dict_get_def blank_def py_space_def)

lemma effects_plain:
  "json_plain (PDict (encode_request q))" "distinct_keys (PDict (encode_request q))"
  "json_plain (PDict (encode_resolution n))" "distinct_keys (PDict (encode_resolution n))"
  by (simp_all add: encode_request_def encode_resolution_def opt_str.simps split: option.splits)
    (cases "ad_approver (an_decision n)"; simp)+

lemmas effects_members [simp] = effects_plain [unfolded json_plain.simps distinct_keys.simps]

lemma opt_str_simps [simp]:
  "distinct_keys (opt_str x)"
  "dget d key = Some (opt_str x) \<Longrightarrow> required_nullable_string d key = Inr x"
  by (cases x; simp add: payload_readers)+

interpretation identities: strict_codec identity_to_wire identity_from_wire "\<lambda>p. \<not> blank (di_authority_id p)"
proof
  fix d e assume "identity_from_wire d = Inl e"
  then show "is_protocol_error e" by (auto simp: identity_from_wire_def result_simps dest: payload_errors)
qed (auto simp: identity_to_wire_def identity_from_wire_def payload_fields_def required_string_def dict_get_def)

interpretation healths: strict_codec health_to_wire health_from_wire
  "\<lambda>p. 0 \<le> sh_pending p \<and> 0 \<le> sh_in_flight p \<and> 1 \<le> sh_capacity p"
proof
  fix d e assume "health_from_wire d = Inl e"
  then show "is_protocol_error e" by (auto simp: health_from_wire_def result_simps dest: payload_errors)
qed (auto simp: health_to_wire_def health_from_wire_def payload_fields_def required_integer_def required_bool_def dict_get_def)

definition chat_request_ok :: "ChatRequestPayload \<Rightarrow> bool" where
  "chat_request_ok p \<longleftrightarrow> \<not> blank (cq_conversation_id p) \<and>
     (case cq_turn_id p of None \<Rightarrow> True | Some t \<Rightarrow> \<not> blank t) \<and>
     (case cq_effect_resolution p of None \<Rightarrow> True | Some n \<Rightarrow> resolution_ok n)"

interpretation chat_requests: strict_codec chat_request_to_wire chat_request_from_wire chat_request_ok
proof
  fix d e assume "chat_request_from_wire d = Inl e"
  then show "is_protocol_error e"
    by (auto simp: chat_request_from_wire_def result_simps dest: payload_errors as_protocol_errors split: if_splits)
next
  fix p assume "chat_request_ok p"
  then show "chat_request_from_wire (chat_request_to_wire p) = Inr p"
    by (cases p) (auto simp: chat_request_from_wire_def chat_request_to_wire_def chat_request_ok_def payload_fields_def
        required_string_def dict_get_def effect_codecs as_protocol_def split: option.splits)
qed (auto simp: chat_request_to_wire_def split: option.splits)

interpretation tool_effects: strict_codec tool_effect_to_wire tool_effect_from_wire
  "\<lambda>p. \<not> blank (ce_conversation_id p) \<and> request_ok (ce_request p)"
proof
  fix d e assume "tool_effect_from_wire d = Inl e"
  then show "is_protocol_error e"
    by (auto simp: tool_effect_from_wire_def result_simps dest: payload_errors as_protocol_errors)
qed (auto simp: tool_effect_to_wire_def tool_effect_from_wire_def payload_fields_def required_string_def dict_get_def
    effect_codecs as_protocol_def)

interpretation subscriptions: strict_codec subscription_to_wire subscription_from_wire "\<lambda>p. \<not> blank (ay_subscription_id p)"
proof
  fix d e assume "subscription_from_wire d = Inl e"
  then show "is_protocol_error e" by (auto simp: subscription_from_wire_def result_simps dest: payload_errors)
qed (auto simp: subscription_to_wire_def subscription_from_wire_def payload_fields_def required_string_def dict_get_def)

text \<open>The two responses whose codecs may raise something else.\<close>

definition chat_response_ok :: "ChatResponsePayload \<Rightarrow> bool" where
  "chat_response_ok p \<longleftrightarrow> \<not> blank (cp_conversation_id p) \<and> cp_epistemic_status p \<in> set epistemic_statuses \<and>
     (case cp_confidence p of None \<Rightarrow> True | Some c \<Rightarrow> (\<exists>q. c = Finite q \<and> 0 \<le> q \<and> q \<le> 1))"

interpretation chat_responses: wire_codec chat_response_to_wire chat_response_from_wire chat_response_ok
proof
  fix p assume p: "chat_response_ok p"
  have "confidence_of (chat_response_to_wire p) = Inr (cp_confidence p)"
    using p by (auto simp: confidence_of_def chat_response_to_wire_def chat_response_ok_def float_ge_def split: option.splits)
  moreover have "payload_fields (chat_response_to_wire p)
      [''answer'', ''conversation_id'', ''evidence_references'', ''epistemic_status''] [''confidence''] = Inr ()"
    by (auto simp: payload_fields_def chat_response_to_wire_def split: option.splits)
  ultimately show "chat_response_from_wire (chat_response_to_wire p) = Inr p"
    using p by (cases p) (simp add: chat_response_from_wire_def, simp add: chat_response_to_wire_def chat_response_ok_def
        required_string_def dict_get_def)
qed (auto simp: chat_response_to_wire_def chat_response_ok_def strs_obj_def list_all_iff split: option.splits)


lemma activity_event_reload: "log_valid fromiso e \<Longrightarrow> activity_event_of fromiso (PDict (log_to_record e)) = Inr e"
  by (simp add: activity_event_of_def log_reload)

lemma present_keys: "dkeys (present ps) \<subseteq> fst ` set ps" "distinct (map fst ps) \<Longrightarrow> distinct (map fst (present ps))"
  by (induction ps rule: present.induct) (auto simp: dkeys_fst)

lemma log_record_keys: "distinct (map fst (log_to_record e))"
proof -
  have "dkeys (present (log_optional e)) \<inter> {''time'', ''level'', ''component'', ''event'', ''message''} = {}"
    using present_keys(1) [of "log_optional e"] by (auto simp: log_optional_def)
  then show ?thesis
    using present_keys(2) [OF log_optional_distinct, of e] by (auto simp: log_to_record_def dkeys_fst)
qed

definition events_ok :: "iso_parser \<Rightarrow> ActivityEventsResponsePayload \<Rightarrow> bool" where
  "events_ok fromiso p \<longleftrightarrow> 0 \<le> av_dropped_count p \<and>
     (\<forall>e \<in> set (av_events p). log_valid fromiso e \<and> (\<forall>m. lg_metadata e = Some m \<longrightarrow> distinct_keys (thaw m)))"

lemma present_distinct: "list_all (\<lambda>(key, x). distinct_keys x) (present ps)"
  if "\<forall>v. (\<exists>key. (key, Some v) \<in> set ps) \<longrightarrow> distinct_keys (thaw v)"
  using that by (induction ps rule: present.induct) auto

lemma log_record_distinct:
  assumes "\<forall>m. lg_metadata e = Some m \<longrightarrow> distinct_keys (thaw m)"
  shows "distinct_keys (PDict (log_to_record e))"
proof -
  have "list_all (\<lambda>(key, x). distinct_keys x) (present (log_optional e))"
    using assms by (intro present_distinct) (auto simp: log_optional_def Some_eq_map_option)
  then show ?thesis using log_record_keys [of e] by (simp add: log_to_record_def)
qed

interpretation activity_events: wire_codec activity_events_to_wire "activity_events_from_wire fromiso" "events_ok fromiso"
  for fromiso
proof
  fix p assume p: "events_ok fromiso p"
  have "mapE (activity_event_of fromiso) (map (\<lambda>e. PDict (log_to_record e)) (av_events p)) = Inr (av_events p)"
    using p mapE_all_Inr [of "av_events p" "\<lambda>e. activity_event_of fromiso (PDict (log_to_record e))" "\<lambda>e. e"]
    by (simp add: mapE_map events_ok_def activity_event_reload)
  with p show "activity_events_from_wire fromiso (activity_events_to_wire p) = Inr p"
    by (simp add: activity_events_from_wire_def activity_events_to_wire_def payload_fields_def dict_get_def
        make_activity_events_def events_ok_def)
next
  fix p assume p: "events_ok fromiso p"
  then have "\<forall>e \<in> set (av_events p). json_plain (PDict (log_to_record e))"
    using log_record_plain unfolding events_ok_def by blast
  then show "json_plain (PDict (activity_events_to_wire p))"
    by (simp add: activity_events_to_wire_def list_all_iff)
  from p have "\<forall>e \<in> set (av_events p). distinct_keys (PDict (log_to_record e))"
    using log_record_distinct unfolding events_ok_def by blast
  then show "distinct_keys (PDict (activity_events_to_wire p))"
    by (simp add: activity_events_to_wire_def list_all_iff)
qed

section \<open>Properties\<close>

lemma decode_chat_restored:
  assumes "case p of Inl t \<Rightarrow> \<not> blank (ce_conversation_id t) \<and> request_ok (ce_request t) | Inr c \<Rightarrow> chat_response_ok c"
  shows "decode_chat_payload (case p of Inl t \<Rightarrow> tool_effect_to_wire t | Inr c \<Rightarrow> chat_response_to_wire c) = Inr p"
proof (cases p)
  case (Inl t)
  with assms tool_effects.restored [of t] show ?thesis
    by (simp add: decode_chat_payload_def tool_effect_to_wire_def)
next
  case (Inr c)
  have "''tool_effect'' \<notin> dkeys (chat_response_to_wire c)"
    by (auto simp: chat_response_to_wire_def split: option.splits)
  with Inr assms chat_responses.restored [of c] show ?thesis by (simp add: decode_chat_payload_def)
qed

text \<open>
  The answer to a chat request says what it is: a turn that paused for an approval and a turn that
  completed are decoded as what was sent, never as one another, and with the same content.
\<close>

theorem chat_payload_roundtrip:
  assumes "case p of Inl t \<Rightarrow> \<not> blank (ce_conversation_id t) \<and> request_ok (ce_request t) | Inr c \<Rightarrow> chat_response_ok c"
  shows "decode_chat_payload (case p of Inl t \<Rightarrow> tool_effect_to_wire t | Inr c \<Rightarrow> chat_response_to_wire c) = Inr p"
  using assms by (rule decode_chat_restored)

definition sample_answer :: ChatResponsePayload where
  "sample_answer = \<lparr>cp_answer = ''yes'', cp_conversation_id = ''default'', cp_evidence_references = [''m1''],
     cp_epistemic_status = Some ''grounded'', cp_confidence = Some (Finite 1)\<rparr>"

lemma chat_payload_roundtrip_witness:
  "decode_chat_payload (chat_response_to_wire sample_answer) = Inr (Inr sample_answer) \<and>
   decode_chat_payload (tool_effect_to_wire \<lparr>ce_conversation_id = ''c1'', ce_request = sample_approval\<rparr>)
     = Inr (Inl \<lparr>ce_conversation_id = ''c1'', ce_request = sample_approval\<rparr>)"
proof -
  have "chat_response_ok sample_answer"
    by (simp add: chat_response_ok_def sample_answer_def epistemic_statuses_def blank_def py_space_def)
  moreover have "request_ok sample_approval"
    by (simp add: request_ok_def sample_approval_def blank_def py_space_def)
  ultimately show ?thesis
    using chat_payload_roundtrip [of "Inr sample_answer"]
      chat_payload_roundtrip [of "Inl \<lparr>ce_conversation_id = ''c1'', ce_request = sample_approval\<rparr>"]
    by (simp add: blank_def py_space_def)
qed

lemma if_Inl: "(if b then Inl e else Inr y) = Inl x \<Longrightarrow> x = e"
  by (cases b) simp_all

lemma float_of_int_error: "float_of_int i = Inl x \<Longrightarrow> x = OverflowError ''int too large to convert to float''"
  unfolding float_of_int_def Let_def by (erule if_Inl)

text \<open>
  C31: Decoding a response of the daemon can escape its callers' error handling, which expects a protocol error. A
  log event with a field of the wrong type makes the event codec raise a \<open>TypeError\<close>, where only a
  \<open>ValueError\<close> is converted; and an integer confidence beyond the range of a float makes \<open>float\<close>
  raise before the range is checked. Otherwise, both messages are well-formed.
\<close>

theorem response_error_escapes:
  assumes "log_valid fromiso e" and "lg_request_id e = None" and "chat_response_ok c" and "cp_confidence c = None"
    and "float_of_int i = Inl x"
  shows "activity_events_from_wire fromiso
      [(''events'', PList [PDict (log_to_record e @ [(''request_id'', PInt n)])]), (''dropped_count'', PInt 0)]
      = Inl (TypeError ''log field must be a string: request_id'') \<and>
    chat_response_from_wire (chat_response_to_wire c @ [(''confidence'', PInt i)]) = Inl x \<and>
    \<not> is_protocol_error (TypeError ''log field must be a string: request_id'') \<and> \<not> is_protocol_error x"
proof (intro conjI)
  let ?d = "log_to_record e @ [(''request_id'', PInt n)]"
  have core: "lg_level e \<in> set log_levels" "lg_component e \<in> set LOG_COMPONENTS"
    using assms(1) by (auto simp: log_valid_def make_log_event_def result_simps)
  have "log_from_record fromiso ?d = Inl (TypeError ''log field must be a string: request_id'')"
    using core assms(2)
    by (simp add: log_from_record_def record_component_def record_level_def record_text_def record_optional_str_def
        record_optional_int_def dict_get_def map_add_def dget_log split: option.splits)
  then show "activity_events_from_wire fromiso [(''events'', PList [PDict ?d]), (''dropped_count'', PInt 0)]
      = Inl (TypeError ''log field must be a string: request_id'')"
    by (simp add: activity_events_from_wire_def payload_fields_def dict_get_def activity_event_of_def)
  show "chat_response_from_wire (chat_response_to_wire c @ [(''confidence'', PInt i)]) = Inl x"
    using assms(3-5)
    by (cases "cp_epistemic_status c")
      (simp_all add: chat_response_from_wire_def chat_response_to_wire_def chat_response_ok_def payload_fields_def
        confidence_of_def required_nullable_string_def dict_get_def)
  show "\<not> is_protocol_error x" using float_of_int_error [OF assms(5)] by simp
qed simp


lemma bit_length_power: "bit_length (2 ^ k) = Suc k"
proof (induction k)
  case 0
  show ?case by (simp add: bit_length.simps [of 1] bit_length.simps [of "Suc 0"] bit_length.simps [of 0])
next
  case (Suc k)
  have "bit_length (2 ^ Suc k) = Suc (bit_length (2 ^ k))" by (subst bit_length.simps) simp
  with Suc show ?case by simp
qed

lemma float_of_power_overflow:
  assumes "1024 \<le> k"
  shows "float_of_int (2 ^ k) = Inl (OverflowError ''int too large to convert to float'')"
proof -
  define j where "j = k - 52"
  have k: "k = 52 + j" "0 < j" using assms by (simp_all add: j_def)
  then have n: "nat (abs (2 ^ k :: int)) = 2 ^ 52 * 2 ^ j" by (simp add: power_add nat_mult_distrib nat_power_eq)
  have "(2 :: nat) ^ j div 2 \<noteq> 0" using k(2) by (cases j) simp_all
  moreover have "(2 :: nat) ^ 1024 \<le> 2 ^ 52 * 2 ^ j"
    using power_increasing [of 1024 k "2 :: nat"] assms unfolding k(1) by (simp only: power_add)
  moreover have "bit_length (2 ^ 52 * 2 ^ j) - 53 = j"
    using bit_length_power [of "52 + j"] by (simp add: power_add)
  ultimately show ?thesis
    unfolding float_of_int_def Let_def n by (simp only: mod_mult_self2_is_0 mod_mult_self1_is_0, simp)
qed

definition sample_activity :: LogEvent where
  "sample_activity =
     \<lparr>lg_time = ''2026-01-01T00:00:00+00:00'', lg_level = ''info'', lg_component = ''chat'', lg_event = ''turn'',
      lg_message = ''started'', lg_event_id = Some ''e1'', lg_schema_version = Some 1, lg_conversation_id = None,
      lg_reason_id = None, lg_request_id = None, lg_turn_id = Some ''t1'', lg_job_id = None, lg_trace_id = None,
      lg_source = None, lg_node = None, lg_duration_ms = None, lg_status = None, lg_error = None, lg_metadata = None\<rparr>"

lemma response_error_escapes_witness:
  "activity_events_from_wire sample_iso
      [(''events'', PList [PDict (log_to_record sample_activity @ [(''request_id'', PInt 5)])]), (''dropped_count'', PInt 0)]
      = Inl (TypeError ''log field must be a string: request_id'') \<and>
    chat_response_from_wire (chat_response_to_wire (sample_answer\<lparr>cp_confidence := None\<rparr>) @ [(''confidence'', PInt (2 ^ 1024))])
      = Inl (OverflowError ''int too large to convert to float'')"
proof -
  have valid: "log_valid sample_iso sample_activity"
    by (simp add: log_valid_def make_log_event_def sample_activity_def log_levels_def LOG_COMPONENTS_def blank_def
        py_space_def runtime_schema_version_def parse_log_timestamp_def sample_iso_def require_log_identity_def
        require_persisted_event_name_def require_audit_event_name_def require_identity_segment_def
        identity_segment_def lower_char_def slug_char_def)
  have request: "lg_request_id sample_activity = None" by (simp add: sample_activity_def)
  have answer: "chat_response_ok (sample_answer\<lparr>cp_confidence := None\<rparr>)" "cp_confidence (sample_answer\<lparr>cp_confidence := None\<rparr>) = None"
    by (simp_all add: chat_response_ok_def sample_answer_def epistemic_statuses_def blank_def py_space_def)
  have "float_of_int (2 ^ 1024) = Inl (OverflowError ''int too large to convert to float'')"
    by (rule float_of_power_overflow) (rule order_refl)
  from response_error_escapes [OF valid request answer this, of 5] show ?thesis by (elim conjE) (intro conjI)
qed

end
