(* ===== verification/ActivityBroker.thy ===== *)
theory ActivityBroker
  imports LogRecord
begin

text \<open>
  \<open>daemon/activity.py\<close>: bounded queues that fan out the log events of a turn to the clients that
  follow it. The critical sections under the condition's lock are functions of the broker and of the readings
  of the monotonic clock they make; a history interleaves them.
\<close>

section \<open>State\<close>

record ActivitySubscription =
  as_turn_id :: string
  as_events :: "LogEvent list"
  as_dropped_count :: nat
  as_last_access_at :: rat

record ActivityBroker =
  ab_max_events :: int
  ab_ttl_seconds :: rat
  ab_subscriptions :: "(string \<times> ActivitySubscription) list"

definition make_broker :: "int \<Rightarrow> rat \<Rightarrow> ActivityBroker result" where
  "make_broker max_events ttl =
     bindE (raise_if (max_events < 1) (ValueError ''activity queue bound must be positive'')) (\<lambda>_.
     bindE (raise_if (ttl \<le> 0) (ValueError ''activity subscription TTL must be positive'')) (\<lambda>_.
       Inr \<lparr>ab_max_events = max_events, ab_ttl_seconds = ttl, ab_subscriptions = []\<rparr>))"

section \<open>Operations\<close>

definition expire_locked :: "rat \<Rightarrow> ActivityBroker \<Rightarrow> ActivityBroker" where
  "expire_locked now b =
     (let cutoff = now - ab_ttl_seconds b in
      b\<lparr>ab_subscriptions := filter (\<lambda>(i, s). \<not> as_last_access_at s < cutoff) (ab_subscriptions b)\<rparr>)"

text \<open>\<open>open\<close>: the identifier is fresh, as \<open>uuid4\<close> gives it; \<open>now'\<close> is read when the subscription is made.\<close>

definition open_subscription :: "rat \<Rightarrow> rat \<Rightarrow> string \<Rightarrow> string \<Rightarrow> (ActivityBroker, string) act" where
  "open_subscription now now' subscription_id turn_id b =
     (if turn_id = '''' then (Inl (ValueError ''activity turn_id must not be empty''), b)
      else
        let b = expire_locked now b in
        (Inr subscription_id,
         b\<lparr>ab_subscriptions := AList.update subscription_id
              \<lparr>as_turn_id = turn_id, as_events = [], as_dropped_count = 0, as_last_access_at = now'\<rparr>
              (ab_subscriptions b)\<rparr>))"

text \<open>The loop that drops the oldest events of a queue over its bound; the bound is positive, so that the queue is
  not empty when it drops.\<close>

function drop_oldest :: "int \<Rightarrow> ActivitySubscription \<Rightarrow> ActivitySubscription" where
  "drop_oldest max_events s =
     (if max_events < int (length (as_events s)) \<and> as_events s \<noteq> []
      then drop_oldest max_events
             (s\<lparr>as_events := tl (as_events s), as_dropped_count := Suc (as_dropped_count s)\<rparr>)
      else s)"
  by pat_completeness auto

termination
  by (relation "measure (\<lambda>(m, s). length (as_events s))") auto

declare drop_oldest.simps [simp del]

definition offer_event :: "int \<Rightarrow> LogEvent \<Rightarrow> ActivitySubscription \<Rightarrow> ActivitySubscription" where
  "offer_event max_events e s = drop_oldest max_events (s\<lparr>as_events := as_events s @ [e]\<rparr>)"

definition publish_activity :: "rat \<Rightarrow> LogEvent \<Rightarrow> ActivityBroker \<Rightarrow> ActivityBroker" where
  "publish_activity now e b =
     (case lg_turn_id e of
        None \<Rightarrow> b
      | Some turn_id \<Rightarrow>
          let b = expire_locked now b in
          b\<lparr>ab_subscriptions := map (\<lambda>(i, s).
              (i, if as_turn_id s \<noteq> turn_id then s else offer_event (ab_max_events b) e s)) (ab_subscriptions b)\<rparr>)"

text \<open>
  One pass through the loop of \<open>next_events\<close>, with the three clock readings it makes. The lock is
  released while it waits.
\<close>

datatype poll = Batch "LogEvent list" nat | SubscriptionNotFound | Waiting

definition poll_once :: "rat \<Rightarrow> rat \<Rightarrow> rat \<Rightarrow> rat \<Rightarrow> string \<Rightarrow> int \<Rightarrow> ActivityBroker \<Rightarrow> poll \<times> ActivityBroker" where
  "poll_once deadline now now' now'' subscription_id limit b =
     (let b = expire_locked now b in
      case map_of (ab_subscriptions b) subscription_id of
        None \<Rightarrow> (SubscriptionNotFound, b)
      | Some s \<Rightarrow>
          let s = s\<lparr>as_last_access_at := now'\<rparr>;
              put = (\<lambda>s. b\<lparr>ab_subscriptions := AList.update subscription_id s (ab_subscriptions b)\<rparr>) in
          if as_events s \<noteq> [] then
            let count = min (nat limit) (length (as_events s)) in
            (Batch (take count (as_events s)) (as_dropped_count s),
             put (s\<lparr>as_events := drop count (as_events s), as_dropped_count := 0\<rparr>))
          else if deadline - now'' \<le> 0 then (Batch [] 0, put s)
          else (Waiting, put s))"

text \<open>
  The loop. Each element of the list holds the readings of one pass and what other threads do to
  the broker while it waits after it. A list that runs out stands for a wait that has not ended.
\<close>

type_synonym pass = "(rat \<times> rat \<times> rat) \<times> (ActivityBroker \<Rightarrow> ActivityBroker)"

fun poll_loop :: "rat \<Rightarrow> string \<Rightarrow> int \<Rightarrow> pass list \<Rightarrow> ActivityBroker
    \<Rightarrow> ((LogEvent list \<times> nat) result \<times> ActivityBroker) option" where
  "poll_loop deadline subscription_id limit [] b = None"
| "poll_loop deadline subscription_id limit (((now, now', now''), others) # passes) b =
     (case poll_once deadline now now' now'' subscription_id limit b of
        (Batch events dropped, b) \<Rightarrow> Some (Inr (events, dropped), b)
      | (SubscriptionNotFound, b) \<Rightarrow> Some (Inl (ActivitySubscriptionNotFound subscription_id), b)
      | (Waiting, b) \<Rightarrow> poll_loop deadline subscription_id limit passes (others b))"

definition next_events :: "rat \<Rightarrow> string \<Rightarrow> rat \<Rightarrow> int \<Rightarrow> pass list \<Rightarrow> ActivityBroker
    \<Rightarrow> ((LogEvent list \<times> nat) result \<times> ActivityBroker) option" where
  "next_events started subscription_id timeout_seconds limit passes b =
     (if timeout_seconds < 0 then Some (Inl (ValueError ''activity timeout must not be negative''), b)
      else if limit < 1 then Some (Inl (ValueError ''activity batch limit must be positive''), b)
      else poll_loop (started + timeout_seconds) subscription_id limit passes b)"

definition close_subscription :: "string \<Rightarrow> ActivityBroker \<Rightarrow> ActivityBroker" where
  "close_subscription subscription_id b =
     b\<lparr>ab_subscriptions := AList.delete subscription_id (ab_subscriptions b)\<rparr>"

section \<open>Dropping the oldest events\<close>

lemma drop_oldest_spec:
  assumes "0 \<le> m"
  shows "as_events (drop_oldest m s) = drop (length (as_events s) - nat m) (as_events s)
    \<and> as_dropped_count (drop_oldest m s) = as_dropped_count s + (length (as_events s) - nat m)
    \<and> as_turn_id (drop_oldest m s) = as_turn_id s"
  using assms
proof (induction m s rule: drop_oldest.induct)
  case (1 m s)
  show ?case
  proof (cases "m < int (length (as_events s)) \<and> as_events s \<noteq> []")
    case True
    then obtain e es where es: "as_events s = e # es" by (cases "as_events s") auto
    have "length (as_events s) - nat m = Suc (length es - nat m)" using True es by auto
    moreover have "drop_oldest m s =
        drop_oldest m (s\<lparr>as_events := es, as_dropped_count := Suc (as_dropped_count s)\<rparr>)"
      using True es by (subst drop_oldest.simps) simp
    ultimately show ?thesis using 1 True es by simp
  next
    case False
    then have "length (as_events s) - nat m = 0" by auto
    moreover have "drop_oldest m s = s" using False by (metis drop_oldest.simps)
    ultimately show ?thesis by simp
  qed
qed

section \<open>Histories\<close>

text \<open>
  What happened to each subscription since it was opened: the events published for its turn, and
  the batches its client was answered. \<open>replay\<close> reads the batches off the published events: each skips as
  many events as the client is told were dropped, and answers the next ones. It gives what is left.
\<close>

record history =
  h_broker :: ActivityBroker
  h_published :: "string \<Rightarrow> LogEvent list"
  h_answered :: "string \<Rightarrow> (LogEvent list \<times> nat) list"

fun replay :: "LogEvent list \<Rightarrow> (LogEvent list \<times> nat) list \<Rightarrow> LogEvent list option" where
  "replay published [] = Some published"
| "replay published ((events, dropped) # batches) =
     (let rest = drop dropped published in
      if dropped \<le> length published \<and> take (length events) rest = events
      then replay (drop (length events) rest) batches else None)"

lemma replay_append: "replay p (xs @ ys) = Option.bind (replay p xs) (\<lambda>q. replay q ys)"
  by (induction p xs rule: replay.induct) (auto simp: Let_def)

lemma replay_more: "replay p bs = Some q \<Longrightarrow> replay (p @ news) bs = Some (q @ news)"
proof (induction p bs rule: replay.induct)
  case (2 p events dropped batches)
  then have ok: "dropped \<le> length p" "take (length events) (drop dropped p) = events"
    "replay (drop (length events) (drop dropped p)) batches = Some q"
    by (auto simp: Let_def split: if_splits)
  from arg_cong [OF ok(2), of length] have "length events \<le> length p - dropped" by simp
  with 2 ok show ?case by simp
qed simp

abbreviation sub_of :: "ActivityBroker \<Rightarrow> string \<Rightarrow> ActivitySubscription option" where
  "sub_of b \<equiv> map_of (ab_subscriptions b)"

definition subscribed :: "ActivityBroker \<Rightarrow> string \<Rightarrow> string \<Rightarrow> bool" where
  "subscribed b turn_id i \<longleftrightarrow> (case sub_of b i of None \<Rightarrow> False | Some s \<Rightarrow> as_turn_id s = turn_id)"

inductive broker_history :: "int \<Rightarrow> rat \<Rightarrow> history \<Rightarrow> bool" for m ttl where
  Start: "make_broker m ttl = Inr b \<Longrightarrow>
    broker_history m ttl \<lparr>h_broker = b, h_published = (\<lambda>_. []), h_answered = (\<lambda>_. [])\<rparr>"
| Open: "broker_history m ttl h \<Longrightarrow> open_subscription now now' i turn_id (h_broker h) = (Inr i, b) \<Longrightarrow>
    sub_of (h_broker h) i = None \<Longrightarrow>
    broker_history m ttl \<lparr>h_broker = b, h_published = (h_published h)(i := []), h_answered = (h_answered h)(i := [])\<rparr>"
| Publish: "broker_history m ttl h \<Longrightarrow> lg_turn_id e = Some turn_id \<Longrightarrow> b = publish_activity now e (h_broker h) \<Longrightarrow>
    broker_history m ttl (h\<lparr>h_broker := b, h_published :=
      (\<lambda>i. if subscribed (expire_locked now (h_broker h)) turn_id i then h_published h i @ [e] else h_published h i)\<rparr>)"
| Poll: "broker_history m ttl h \<Longrightarrow> poll_once deadline now now' now'' i limit (h_broker h) = (r, b) \<Longrightarrow>
    broker_history m ttl (h\<lparr>h_broker := b, h_answered := (h_answered h)(i := h_answered h i @
      (case r of Batch events dropped \<Rightarrow> [(events, dropped)] | _ \<Rightarrow> []))\<rparr>)"
| Close: "broker_history m ttl h \<Longrightarrow> broker_history m ttl (h\<lparr>h_broker := close_subscription i (h_broker h)\<rparr>)"

definition accounted :: "history \<Rightarrow> string \<Rightarrow> ActivitySubscription \<Rightarrow> bool" where
  "accounted h i s \<longleftrightarrow>
     (\<exists>skipped. replay (h_published h i) (h_answered h i) = Some (skipped @ as_events s) \<and>
        length skipped = as_dropped_count s) \<and>
     int (length (as_events s)) \<le> ab_max_events (h_broker h) \<and>
     (as_dropped_count s \<noteq> 0 \<longrightarrow> as_events s \<noteq> [])"

definition broker_ok :: "history \<Rightarrow> bool" where
  "broker_ok h \<longleftrightarrow> 1 \<le> ab_max_events (h_broker h) \<and> distinct (map fst (ab_subscriptions (h_broker h))) \<and>
     (\<forall>i s. sub_of (h_broker h) i = Some s \<longrightarrow> accounted h i s)"

lemma expire_simps [simp]:
  "ab_max_events (expire_locked now b) = ab_max_events b"
  "ab_ttl_seconds (expire_locked now b) = ab_ttl_seconds b"
  "distinct (map fst (ab_subscriptions b)) \<Longrightarrow> distinct (map fst (ab_subscriptions (expire_locked now b)))"
  by (simp_all add: expire_locked_def Let_def distinct_map_filter)

lemma expire_sub:
  "distinct (map fst (ab_subscriptions b)) \<Longrightarrow> sub_of (expire_locked now b) i = Some s \<Longrightarrow> sub_of b i = Some s"
  by (auto simp: expire_locked_def Let_def dest!: map_of_SomeD)

lemma broker_ok_expire:
  assumes "broker_ok h"
  shows "distinct (map fst (ab_subscriptions (expire_locked now (h_broker h))))"
    and "sub_of (expire_locked now (h_broker h)) i = Some s \<Longrightarrow> accounted h i s"
  using assms expire_sub [of "h_broker h" now i s] by (simp_all add: broker_ok_def del: map_of_eq_Some_iff)

lemma publish_sub:
  assumes "lg_turn_id e = Some turn_id"
  shows "ab_subscriptions (publish_activity now e b) = map (\<lambda>(i, s).
      (i, if as_turn_id s \<noteq> turn_id then s else offer_event (ab_max_events b) e s)) (ab_subscriptions (expire_locked now b))"
    and "ab_max_events (publish_activity now e b) = ab_max_events b"
  using assms by (simp_all add: publish_activity_def Let_def split_def)

lemma accounted_offer:
  assumes "replay p bs = Some (skipped @ as_events s)" and "length skipped = as_dropped_count s" and "1 \<le> m"
  shows "\<exists>skipped. replay (p @ [e]) bs = Some (skipped @ as_events (offer_event m e s)) \<and>
      length skipped = as_dropped_count (offer_event m e s)"
    and "int (length (as_events (offer_event m e s))) \<le> m"
    and "as_events (offer_event m e s) \<noteq> []"
proof -
  let ?q = "as_events s @ [e]"
  let ?n = "length ?q - nat m"
  have spec: "as_events (offer_event m e s) = drop ?n ?q" "as_dropped_count (offer_event m e s) = as_dropped_count s + ?n"
    using drop_oldest_spec [of m "s\<lparr>as_events := ?q\<rparr>"] assms(3) by (simp_all add: offer_event_def)
  have "replay (p @ [e]) bs = Some ((skipped @ take ?n ?q) @ drop ?n ?q)"
    using replay_more [OF assms(1), of "[e]"] by (simp only: append_assoc append_take_drop_id)
  then show "\<exists>skipped. replay (p @ [e]) bs = Some (skipped @ as_events (offer_event m e s)) \<and>
      length skipped = as_dropped_count (offer_event m e s)"
    using assms(2,3) spec by (intro exI [of _ "skipped @ take ?n ?q"]) auto
  show "int (length (as_events (offer_event m e s))) \<le> m" "as_events (offer_event m e s) \<noteq> []"
    using assms(3) by (auto simp: spec(1))
qed

lemma broker_ok_publish:
  assumes ok: "broker_ok h" and turn: "lg_turn_id e = Some turn_id"
  shows "broker_ok (h\<lparr>h_broker := publish_activity now e (h_broker h), h_published :=
      (\<lambda>i. if subscribed (expire_locked now (h_broker h)) turn_id i then h_published h i @ [e] else h_published h i)\<rparr>)"
proof -
  let ?b = "h_broker h"
  note publish = publish_sub [OF turn, of now ?b]
  have m: "1 \<le> ab_max_events ?b" using ok by (simp add: broker_ok_def)
  note ex = m broker_ok_expire [OF ok]
  have "accounted (h\<lparr>h_broker := publish_activity now e ?b, h_published :=
      (\<lambda>i. if subscribed (expire_locked now ?b) turn_id i then h_published h i @ [e] else h_published h i)\<rparr>) i s'"
    if s': "sub_of (publish_activity now e ?b) i = Some s'" for i s'
  proof -
    from s' obtain s where s: "sub_of (expire_locked now ?b) i = Some s"
      and eq: "s' = (if as_turn_id s \<noteq> turn_id then s else offer_event (ab_max_events ?b) e s)"
      by (auto simp: publish(1) map_of_map simp del: map_of_eq_Some_iff)
    from ex(3) [OF s] obtain skipped where r: "replay (h_published h i) (h_answered h i) = Some (skipped @ as_events s)"
        "length skipped = as_dropped_count s" by (auto simp: accounted_def)
    show ?thesis
    proof (cases "as_turn_id s = turn_id")
      case True
      with accounted_offer [OF r m, of e] s eq show ?thesis
        by (simp add: accounted_def subscribed_def publish(2) del: map_of_eq_Some_iff)
    next
      case False
      with ex(3) [OF s] s eq show ?thesis
        by (simp add: accounted_def subscribed_def publish(2) del: map_of_eq_Some_iff)
    qed
  qed
  moreover have "map fst (ab_subscriptions (publish_activity now e ?b)) = map fst (ab_subscriptions (expire_locked now ?b))"
    by (simp add: publish(1) comp_def split_def)
  ultimately show ?thesis
    using ex(1,2) by (simp add: broker_ok_def publish(2) del: map_of_eq_Some_iff)
qed

text \<open>A poll answers a prefix of the queue with the count of what was dropped before it.\<close>

lemma AList_update_sub [simp]:
  "map_of (AList.update i s xs) j = (if j = i then Some s else map_of xs j)"
  by (simp add: update_conv')

lemma accounted_poll:
  assumes "replay p bs = Some (skipped @ as_events s)" and "length skipped = as_dropped_count s"
  shows "replay p (bs @ [(take n (as_events s), as_dropped_count s)]) = Some (drop n (as_events s))"
proof -
  have "take (length (take n (as_events s))) (as_events s) = take n (as_events s)"
    by (metis append_eq_conv_conj append_take_drop_id)
  moreover have "drop (length (take n (as_events s))) (as_events s) = drop n (as_events s)"
    by (metis append_eq_conv_conj append_take_drop_id)
  ultimately show ?thesis using assms by (simp add: replay_append Let_def del: length_take)
qed

lemma broker_ok_poll:
  assumes ok: "broker_ok h" and poll: "poll_once deadline now now' now'' i limit (h_broker h) = (r, b)"
  shows "broker_ok (h\<lparr>h_broker := b, h_answered := (h_answered h)(i := h_answered h i @
      (case r of Batch events dropped \<Rightarrow> [(events, dropped)] | _ \<Rightarrow> []))\<rparr>)"
proof -
  let ?e = "expire_locked now (h_broker h)"
  have m: "1 \<le> ab_max_events (h_broker h)" using ok by (simp add: broker_ok_def)
  note ex = broker_ok_expire [OF ok]
  show ?thesis
  proof (cases "sub_of ?e i")
    case None
    with poll have "r = SubscriptionNotFound" "b = ?e" by (simp_all add: poll_once_def Let_def)
    with m ex show ?thesis by (simp add: broker_ok_def accounted_def del: map_of_eq_Some_iff)
  next
    case (Some s)
    define n where "n = min (nat limit) (length (as_events s))"
    from ex(2) [OF Some] obtain skipped where a: "replay (h_published h i) (h_answered h i) = Some (skipped @ as_events s)"
        "length skipped = as_dropped_count s" "int (length (as_events s)) \<le> ab_max_events (h_broker h)"
        "as_dropped_count s \<noteq> 0 \<longrightarrow> as_events s \<noteq> []" by (auto simp: accounted_def)
    have other: "accounted h j s'" if "sub_of ?e j = Some s'" for j s' using ex(2) that .
    consider "as_events s \<noteq> []" "r = Batch (take n (as_events s)) (as_dropped_count s)"
        "b = ?e\<lparr>ab_subscriptions := AList.update i (s\<lparr>as_last_access_at := now', as_events := drop n (as_events s),
           as_dropped_count := 0\<rparr>) (ab_subscriptions ?e)\<rparr>"
      | "as_events s = []" "r = Batch [] 0 \<or> r = Waiting"
        "b = ?e\<lparr>ab_subscriptions := AList.update i (s\<lparr>as_last_access_at := now'\<rparr>) (ab_subscriptions ?e)\<rparr>"
      using poll Some by (cases "as_events s = []") (auto simp: poll_once_def Let_def n_def split: if_splits)
    then show ?thesis
    proof cases
      case 1
      with m ex(1) a other accounted_poll [OF a(1,2), of n] show ?thesis
        by (simp add: broker_ok_def accounted_def distinct_update del: map_of_eq_Some_iff)
    next
      case 2
      with a have "as_dropped_count s = 0" "skipped = []" by auto
      with 2 m ex(1) a other show ?thesis
        by (auto simp: broker_ok_def accounted_def distinct_update replay_append simp del: map_of_eq_Some_iff)
    qed
  qed
qed

lemma broker_history_ok: "broker_history m ttl h \<Longrightarrow> broker_ok h \<and> ab_max_events (h_broker h) = m"
proof (induction rule: broker_history.induct)
  case (Start b)
  then show ?case by (auto simp: make_broker_def result_simps broker_ok_def)
next
  case (Open h now now' i turn_id b)
  then have ok: "broker_ok h" by simp
  from Open have b: "b = (expire_locked now (h_broker h))\<lparr>ab_subscriptions := AList.update i
      \<lparr>as_turn_id = turn_id, as_events = [], as_dropped_count = 0, as_last_access_at = now'\<rparr>
      (ab_subscriptions (expire_locked now (h_broker h)))\<rparr>"
    by (auto simp: open_subscription_def Let_def split: if_splits)
  from Open broker_ok_expire [OF ok] show ?case
    by (simp add: b broker_ok_def accounted_def distinct_update del: map_of_eq_Some_iff)
next
  case (Publish h e turn_id b now)
  then show ?case using broker_ok_publish [of h e turn_id now] publish_sub(2) [of e turn_id now] by simp
next
  case (Poll h deadline now now' now'' i limit r b)
  then have "ab_max_events b = ab_max_events (h_broker h)"
    by (auto simp: poll_once_def Let_def split: option.splits if_splits)
  with Poll broker_ok_poll [OF _ Poll.hyps(2)] show ?case by simp
next
  case (Close h i)
  then show ?case
    by (auto simp: broker_ok_def accounted_def close_subscription_def delete_conv' distinct_delete
        simp del: map_of_eq_Some_iff)
qed

text \<open>
  C8: No activity is lost silently. Whatever the interleaving of publications, polls, expiry and
  closing, the batches a client was answered replay the events published for its turn since it
  subscribed, in order, each batch skipping exactly as many events as its drop count says; what remains is what was
  dropped since the last batch, whose number is kept for the next one, and then the queue. The queue stays
  within its bound, and a pending drop count is never left without an event to report it with.
\<close>

theorem activity_accounted:
  assumes "broker_history m ttl h" and "sub_of (h_broker h) i = Some s"
  shows "(\<exists>skipped. replay (h_published h i) (h_answered h i) = Some (skipped @ as_events s) \<and>
        length skipped = as_dropped_count s) \<and>
     int (length (as_events s)) \<le> m \<and> (as_dropped_count s \<noteq> 0 \<longrightarrow> as_events s \<noteq> [])"
  using broker_history_ok [OF assms(1)] assms(2)
  by (auto simp: broker_ok_def accounted_def simp del: map_of_eq_Some_iff)

definition sample_log_event :: "string \<Rightarrow> LogEvent" where
  "sample_log_event message =
     \<lparr>lg_time = ''2026-01-01T00:00:00+00:00'', lg_level = ''info'', lg_component = ''chat'', lg_event = ''turn'',
      lg_message = message, lg_event_id = Some ''e1'', lg_schema_version = Some 1, lg_conversation_id = None,
      lg_reason_id = None, lg_request_id = None, lg_turn_id = Some ''t1'', lg_job_id = None, lg_trace_id = None,
      lg_source = None, lg_node = None, lg_duration_ms = None, lg_status = None, lg_error = None, lg_metadata = None\<rparr>"

text \<open>A queue of one event, with two events published and one poll: the first event is reported as dropped.\<close>

lemma activity_accounted_witness:
  "\<exists>h s. broker_history 1 300 h \<and> sub_of (h_broker h) ''s1'' = Some s \<and>
     h_published h ''s1'' = [sample_log_event ''a'', sample_log_event ''b''] \<and>
     h_answered h ''s1'' = [([sample_log_event ''b''], 1)] \<and>
     (\<exists>skipped. replay (h_published h ''s1'') (h_answered h ''s1'') = Some (skipped @ as_events s) \<and>
        length skipped = as_dropped_count s)"
proof -
  define s where "s events dropped = \<lparr>as_turn_id = ''t1'', as_events = events, as_dropped_count = dropped,
      as_last_access_at = 0\<rparr>" for events dropped
  define b where "b subs = \<lparr>ab_max_events = 1, ab_ttl_seconds = 300, ab_subscriptions = subs\<rparr>"
    for subs :: "(string \<times> ActivitySubscription) list"
  define h where "h x published answered = \<lparr>h_broker = b [(''s1'', x)],
      h_published = (\<lambda>i. if i = ''s1'' then published else []),
      h_answered = (\<lambda>i. if i = ''s1'' then answered else [])\<rparr>" for x published answered
  have expire: "expire_locked 0 (b []) = b []" "expire_locked 0 (b [(i, s es n)]) = b [(i, s es n)]" for i es n
    by (simp_all add: expire_locked_def b_def s_def)
  have offer: "offer_event 1 e (s [] 0) = s [e] 0" "offer_event 1 e (s [e'] 0) = s [e] 1" for e e'
    by (simp_all add: offer_event_def s_def drop_oldest.simps)
  have turn: "lg_turn_id (sample_log_event m) = Some ''t1''" for m by (simp add: sample_log_event_def)
  have subscribed: "subscribed (b [(''s1'', s es n)]) ''t1'' i \<longleftrightarrow> i = ''s1''" for es n i
    by (simp add: subscribed_def b_def s_def)
  have publish: "publish_activity 0 (sample_log_event m) (b [(''s1'', s es n)])
      = b [(''s1'', offer_event 1 (sample_log_event m) (s es n))]" for m es n
    by (simp add: publish_activity_def turn expire, simp add: b_def s_def)
  have "broker_history 1 300 \<lparr>h_broker = b [], h_published = (\<lambda>_. []), h_answered = (\<lambda>_. [])\<rparr>"
    by (rule Start) (simp add: make_broker_def b_def)
  moreover have "open_subscription 0 0 ''s1'' ''t1'' (b []) = (Inr ''s1'', b [(''s1'', s [] 0)])"
    by (simp add: open_subscription_def expire, simp add: b_def s_def)
  ultimately have "broker_history 1 300 (h (s [] 0) [] [])"
    using Open [of 1 300 "\<lparr>h_broker = b [], h_published = (\<lambda>_. []), h_answered = (\<lambda>_. [])\<rparr>" 0 0 "''s1''" "''t1''"
        "b [(''s1'', s [] 0)]"] by (simp add: h_def) (simp add: b_def fun_upd_def)
  from Publish [OF this turn refl, of 0 "''a''"]
  have "broker_history 1 300 (h (s [sample_log_event ''a''] 0) [sample_log_event ''a''] [])"
    by (simp add: h_def publish expire subscribed offer cong: if_cong)
  from Publish [OF this turn refl, of 0 "''b''"]
  have two: "broker_history 1 300 (h (s [sample_log_event ''b''] 1) [sample_log_event ''a'', sample_log_event ''b''] [])"
    by (simp add: h_def publish expire subscribed offer cong: if_cong)
  have "poll_once 0 0 0 0 ''s1'' 5 (b [(''s1'', s [sample_log_event ''b''] 1)])
      = (Batch [sample_log_event ''b''] 1, b [(''s1'', s [] 0)])"
    by (simp add: poll_once_def expire Let_def, simp add: b_def s_def)
  from Poll [OF two, of 0 0 0 0 "''s1''" 5 "Batch [sample_log_event ''b''] 1" "b [(''s1'', s [] 0)]"] this
  have run: "broker_history 1 300 (h (s [] 0) [sample_log_event ''a'', sample_log_event ''b''] [([sample_log_event ''b''], 1)])"
    by (simp add: h_def fun_upd_def cong: if_cong)
  have sub: "sub_of (h_broker (h (s [] 0) p a)) ''s1'' = Some (s [] 0)" for p a by (simp add: h_def b_def)
  from activity_accounted [OF run sub] run sub show ?thesis
    by (intro exI [of _ "h (s [] 0) [sample_log_event ''a'', sample_log_event ''b''] [([sample_log_event ''b''], 1)]"]
        exI [of _ "s [] 0"]) (simp add: h_def del: map_of_eq_Some_iff)
qed

text \<open>A poll ends: the pass that reads a clock past the deadline answers, if none before it did.\<close>

lemma poll_loop_ends:
  "\<exists>p \<in> set passes. deadline \<le> snd (snd (fst p)) \<Longrightarrow>
   poll_loop deadline i limit passes b \<noteq> None"
proof (induction deadline i limit passes b rule: poll_loop.induct)
  case (2 deadline i limit now now' now'' others passes b)
  obtain r c where p: "poll_once deadline now now' now'' i limit b = (r, c)" by fastforce
  have "r \<noteq> Waiting" if "deadline \<le> now''"
    using p that by (auto simp: poll_once_def Let_def split: option.splits if_splits)
  with 2 p show ?case by (cases r) auto
qed simp

end
