(* ===== verification/DaemonServer.thy ===== *)
theory DaemonServer
  imports DaemonTransport DaemonPayloads ActivityBroker Registries TaskScheduler
begin

text \<open>
  \<open>daemon/request_handlers.py\<close>, \<open>daemon/socket_server.py\<close> and the request path of \<open>daemon/client.py\<close>: a
  request crosses the socket, is dispatched through the sealed registry of handlers, and its response crosses
  back.

  What a diagnostic says of an exception (\<open>describe\<close>, with or without the chain of its causes), the
  conversation runtime behind \<open>run_chat\<close>, and what publishing an audit record does to the daemon (through the
  projection to the activity broker) are arguments. The ambient context the registry's middleware sets is read by
  log events only.
\<close>

section \<open>The daemon as its handlers see it\<close>

record 's daemon =
  dm_authority_id :: string
  dm_shutdown_requested :: bool
  dm_activity_broker :: ActivityBroker
  dm_scheduler :: scheduler
  dm_runtime :: 's

text \<open>The fields of \<open>ChatResult\<close> that a response carries.\<close>

record ChatResult =
  ct_answer :: string
  ct_conversation_id :: string
  ct_evidence_references :: "string list"
  ct_epistemic_status :: string
  ct_confidence :: "pyfloat option"

datatype chat_outcome = ChatCompleted ChatResult | ChatPaused ApprovalEffectRequest | ChatRaised exn

text \<open>\<open>he_clock\<close>: the readings of the monotonic clock of one request; \<open>he_passes\<close>: those of a poll's loop.\<close>

record 's handler_env =
  he_describe :: "bool \<Rightarrow> exn \<Rightarrow> string"
  he_class_of :: "exn \<Rightarrow> string"
  he_run_chat :: "string \<Rightarrow> string \<Rightarrow> string option \<Rightarrow> ApprovalEffectResolution option \<Rightarrow> 's daemon \<Rightarrow> chat_outcome \<times> 's daemon"
  he_audit :: "string \<Rightarrow> DaemonRequest \<Rightarrow> 's daemon \<Rightarrow> 's daemon"
  he_fresh_id :: string
  he_clock :: "rat \<times> rat"
  he_passes :: "pass list"

definition fail_from_exception :: "(bool \<Rightarrow> exn \<Rightarrow> string) \<Rightarrow> bool \<Rightarrow> string \<Rightarrow> exn \<Rightarrow> DaemonResponse" where
  "fail_from_exception describe include_chain request_id e = response_fail request_id (describe include_chain e)"

section \<open>Handlers\<close>

text \<open>A handler may wait for events, so it may not have returned yet (\<open>None\<close>).\<close>

type_synonym 's handled = "(DaemonResponse result \<times> 's daemon) option"
type_synonym 's handler = "DaemonRequest \<times> 's daemon \<Rightarrow> 's handled"

definition decode_request_payload :: "(bool \<Rightarrow> exn \<Rightarrow> string) \<Rightarrow> (pydict \<Rightarrow> 'p result) \<Rightarrow> pydict \<Rightarrow> 'p result" where
  "decode_request_payload describe decoder payload =
     (case decoder payload of
        Inl e \<Rightarrow> if is_protocol_error e then Inl (DaemonRequestPayloadError (describe False e)) else Inl e
      | Inr p \<Rightarrow> Inr p)"

definition handle_ping :: "'s handler_env \<Rightarrow> 's handler" where
  "handle_ping env = (\<lambda>(r, d). Some
     (bindE (decode_request_payload (he_describe env) empty_from_wire (rq_payload r)) (\<lambda>_.
        Inr (response_ok r (identity_to_wire \<lparr>di_authority_id = dm_authority_id d\<rparr>))), d))"

text \<open>The scheduler keeps its last error as the task's kind and the exception, of which \<open>he_class_of\<close> names the class.\<close>

definition health_payload :: "(exn \<Rightarrow> string) \<Rightarrow> scheduler \<Rightarrow> SchedulerHealthPayload" where
  "health_payload class_of s =
     (let snap = snapshot s in
      \<lparr>sh_running = snap_running snap, sh_accepting = snap_accepting snap, sh_pending = int (snap_pending snap),
       sh_in_flight = int (snap_in_flight snap), sh_capacity = int (snap_capacity snap),
       sh_last_error = map_option (\<lambda>(kind, e). kind @ '':'' @ class_of e) (snap_last_error snap)\<rparr>)"

definition handle_health :: "'s handler_env \<Rightarrow> 's handler" where
  "handle_health env = (\<lambda>(r, d). Some
     (bindE (decode_request_payload (he_describe env) empty_from_wire (rq_payload r)) (\<lambda>_.
        Inr (response_ok r (health_to_wire (health_payload (he_class_of env) (dm_scheduler d))))), d))"

definition chat_response_of :: "ChatResult \<Rightarrow> ChatResponsePayload" where
  "chat_response_of c =
     \<lparr>cp_answer = ct_answer c, cp_conversation_id = ct_conversation_id c,
      cp_evidence_references = ct_evidence_references c, cp_epistemic_status = Some (ct_epistemic_status c),
      cp_confidence = ct_confidence c\<rparr>"

definition handle_chat :: "'s handler_env \<Rightarrow> 's handler" where
  "handle_chat env = (\<lambda>(r, d). Some
     (case decode_request_payload (he_describe env) chat_request_from_wire (rq_payload r) of
        Inl e \<Rightarrow> (Inl e, d)
      | Inr p \<Rightarrow>
          (case he_run_chat env (cq_message p) (cq_conversation_id p) (cq_turn_id p) (cq_effect_resolution p) d of
             (ChatPaused q, d) \<Rightarrow>
               (Inr (response_ok r (tool_effect_to_wire \<lparr>ce_conversation_id = cq_conversation_id p, ce_request = q\<rparr>)), d)
           | (ChatRaised e, d) \<Rightarrow>
               if is_runtime_error e
               then (Inr (fail_from_exception (he_describe env) True (rq_request_id r) e), he_audit env ''chat_turn_failed'' r d)
               else (Inl e, d)
           | (ChatCompleted c, d) \<Rightarrow>
               (Inr (response_ok r (chat_response_to_wire (chat_response_of c))), he_audit env ''chat_turn_completed'' r d))))"

definition handle_shutdown :: "'s handler_env \<Rightarrow> 's handler" where
  "handle_shutdown env = (\<lambda>(r, d). Some
     (case decode_request_payload (he_describe env) empty_from_wire (rq_payload r) of
        Inl e \<Rightarrow> (Inl e, d)
      | Inr _ \<Rightarrow>
          (Inr (response_ok r (empty_to_wire ())), he_audit env ''shutdown_requested'' r (d\<lparr>dm_shutdown_requested := True\<rparr>))))"

definition handle_activity_open :: "'s handler_env \<Rightarrow> 's handler" where
  "handle_activity_open env = (\<lambda>(r, d). Some
     (case decode_request_payload (he_describe env) activity_open_from_wire (rq_payload r) of
        Inl e \<Rightarrow> (Inl e, d)
      | Inr p \<Rightarrow>
          (case open_subscription (fst (he_clock env)) (snd (he_clock env)) (he_fresh_id env) (ao_turn_id p) (dm_activity_broker d) of
             (Inl e, b) \<Rightarrow> (Inl e, d\<lparr>dm_activity_broker := b\<rparr>)
           | (Inr i, b) \<Rightarrow>
               (Inr (response_ok r (subscription_to_wire \<lparr>ay_subscription_id = i\<rparr>)), d\<lparr>dm_activity_broker := b\<rparr>))))"

definition handle_activity_next :: "'s handler_env \<Rightarrow> 's handler" where
  "handle_activity_next env = (\<lambda>(r, d).
     case decode_request_payload (he_describe env) activity_next_from_wire (rq_payload r) of
       Inl e \<Rightarrow> Some (Inl e, d)
     | Inr p \<Rightarrow>
         (case next_events (fst (he_clock env)) (ax_subscription_id p) (of_int (ax_timeout_ms p) / 1000) (ax_limit p)
                 (he_passes env) (dm_activity_broker d) of
            None \<Rightarrow> None
          | Some (Inl (ActivitySubscriptionNotFound i), b) \<Rightarrow>
              Some (Inr (fail_from_exception (he_describe env) False (rq_request_id r) (ActivitySubscriptionNotFound i)),
                d\<lparr>dm_activity_broker := b\<rparr>)
          | Some (Inl e, b) \<Rightarrow> Some (Inl e, d\<lparr>dm_activity_broker := b\<rparr>)
          | Some (Inr (events, dropped), b) \<Rightarrow>
              Some (bindE (make_activity_events \<lparr>av_events = events, av_dropped_count = int dropped\<rparr>) (\<lambda>p.
                Inr (response_ok r (activity_events_to_wire p))), d\<lparr>dm_activity_broker := b\<rparr>)))"

definition handle_activity_close :: "'s handler_env \<Rightarrow> 's handler" where
  "handle_activity_close env = (\<lambda>(r, d). Some
     (case decode_request_payload (he_describe env) subscription_from_wire (rq_payload r) of
        Inl e \<Rightarrow> (Inl e, d)
      | Inr p \<Rightarrow>
          (Inr (response_ok r (empty_to_wire ())),
           d\<lparr>dm_activity_broker := close_subscription (ay_subscription_id p) (dm_activity_broker d)\<rparr>)))"

section \<open>The registry\<close>

definition daemon_request_scope :: "(DaemonRequest \<times> 's daemon, 's handled) middleware" where
  "daemon_request_scope request_type next_handler a = next_handler a"

definition build_daemon_request_registry ::
  "'s handler_env \<Rightarrow> unit result \<times> (DaemonRequest \<times> 's daemon, 's handled) HandlerRegistry" where
  "build_daemon_request_registry env =
     bind_act (hr_use daemon_request_scope) (\<lambda>_.
     bind_act (hr_register ''ping'' (handle_ping env)) (\<lambda>_.
     bind_act (hr_register ''health'' (handle_health env)) (\<lambda>_.
     bind_act (hr_register ''chat'' (handle_chat env)) (\<lambda>_.
     bind_act (hr_register ''shutdown'' (handle_shutdown env)) (\<lambda>_.
     bind_act (hr_register ''activity_open'' (handle_activity_open env)) (\<lambda>_.
     bind_act (hr_register ''activity_next'' (handle_activity_next env)) (\<lambda>_.
     bind_act (hr_register ''activity_close'' (handle_activity_close env)) (\<lambda>_.
       hr_seal (Some REQUEST_TYPES)))))))))
     (make_handler_registry [])"

definition handle_request :: "'s handler_env \<Rightarrow> DaemonRequest \<Rightarrow> 's daemon \<Rightarrow> 's handled" where
  "handle_request env r d =
     (case hr_dispatch (rq_type r) (r, d) (snd (build_daemon_request_registry env)) of
        Inl e \<Rightarrow> Some (Inl e, d)
      | Inr None \<Rightarrow> None
      | Inr (Some (Inl (DaemonRequestPayloadError m), d)) \<Rightarrow>
          Some (Inr (fail_from_exception (he_describe env) False (rq_request_id r) (DaemonRequestPayloadError m)),
            he_audit env ''request_rejected'' r d)
      | Inr (Some (res, d)) \<Rightarrow> Some (res, d))"


section \<open>The socket server\<close>

text \<open>
  What \<open>RequestHandler.handle\<close> decides on before it answers: nothing, when the peer left; a response, with the
  identifier of the request if one was read; or an exception that it does not catch.
\<close>

datatype reaction = Closed | Respond "string option" DaemonResponse | Escape exn

definition react :: "'s handler_env \<Rightarrow> (string \<Rightarrow> json_doc result) \<Rightarrow> recvs \<Rightarrow> 's daemon \<Rightarrow> (reaction \<times> 's daemon) option" where
  "react env parse outs d =
     (case read_socket_frame None outs of
        None \<Rightarrow> None
      | Some (Inl e, _) \<Rightarrow> Some
          (if e = DaemonPeerDisconnected then Closed
           else if is_protocol_error e then Respond None (fail_from_exception (he_describe env) False ''unknown'' e)
           else if is_os_error e then Respond None (fail_from_exception (he_describe env) True ''unknown'' e)
           else Escape e, d)
      | Some (Inr line, _) \<Rightarrow>
          (case request_from_json_line parse line of
             Inl e \<Rightarrow> Some
               (if is_protocol_error e then Respond None (fail_from_exception (he_describe env) False ''unknown'' e)
                else Escape e, d)
           | Inr r \<Rightarrow>
               (case handle_request env r d of
                  None \<Rightarrow> None
                | Some (Inl e, d) \<Rightarrow>
                    Some (Respond (Some (rq_request_id r)) (fail_from_exception (he_describe env) True (rq_request_id r) e), d)
                | Some (Inr resp, d) \<Rightarrow> Some (Respond (Some (rq_request_id r)) resp, d))))"

text \<open>The response, or one that says that it could not be encoded.\<close>

definition fallback_response :: "string option \<Rightarrow> DaemonResponse" where
  "fallback_response request_id =
     response_fail (case request_id of None \<Rightarrow> ''unknown'' | Some i \<Rightarrow> if i = '''' then ''unknown'' else i)
       ''daemon response encoding failed''"

definition encode_response :: "(rat \<Rightarrow> string) \<Rightarrow> string option \<Rightarrow> DaemonResponse \<Rightarrow> string result" where
  "encode_response frepr request_id resp =
     (case response_to_json_line frepr resp of
        Inr frame \<Rightarrow> Inr frame
      | Inl e \<Rightarrow>
          if is_protocol_error e then response_to_json_line frepr (fallback_response request_id) else Inl e)"

text \<open>\<open>handle\<close>: its outcome and what the client is sent. A failing write is reported, not raised.\<close>

definition serve :: "(rat \<Rightarrow> string) \<Rightarrow> 's handler_env \<Rightarrow> (string \<Rightarrow> json_doc result) \<Rightarrow> recvs \<Rightarrow> writer \<Rightarrow> unit result
    \<Rightarrow> 's daemon \<Rightarrow> ((unit result \<times> string) \<times> 's daemon) option" where
  "serve frepr env parse outs wr flush d =
     (case react env parse outs d of
        None \<Rightarrow> None
      | Some (Closed, d) \<Rightarrow> Some ((Inr (), ''''), d)
      | Some (Escape e, d) \<Rightarrow> Some ((Inl e, ''''), d)
      | Some (Respond request_id resp, d) \<Rightarrow> Some
          (case encode_response frepr request_id resp of
             Inl e \<Rightarrow> (Inl e, '''')
           | Inr frame \<Rightarrow>
               (case write_stream_frame wr flush frame of
                  (Inl e, sent) \<Rightarrow> (if is_os_error e then Inr () else Inl e, sent)
                | (Inr _, sent) \<Rightarrow> (Inr (), sent)), d))"

section \<open>The client\<close>

datatype DaemonConnectionPhase =
    Connect
  | RequestEncode
  | Send
  | Receive
  | ResponseDecode
  | ResponseIdentity
  | PayloadDecode
  | UnknownPhase

definition retryable :: "DaemonConnectionPhase \<Rightarrow> bool" where
  "retryable p \<longleftrightarrow> p \<notin> {RequestEncode, PayloadDecode}"

definition request_may_have_completed :: "DaemonConnectionPhase \<Rightarrow> bool" where
  "request_may_have_completed p \<longleftrightarrow>
     p \<in> {Send, Receive, ResponseDecode, ResponseIdentity, PayloadDecode, UnknownPhase}"

datatype client_error =
    DaemonConnectionError DaemonConnectionPhase exn
  | DaemonApplicationError string
  | ActivityStreamGapError int
  | Unclassified exn

text \<open>The \<open>except\<close> clause of \<open>_request\<close>.\<close>

definition classify :: "DaemonConnectionPhase \<Rightarrow> exn \<Rightarrow> client_error" where
  "classify p e = (if is_os_error e \<or> is_protocol_error e then DaemonConnectionError p e else Unclassified e)"

text \<open>
  \<open>_request\<close>. The socket is given by what \<open>connect\<close> and \<open>sendall\<close> answer and by what is received after a frame was
  sent. The second component is the frame handed to \<open>sendall\<close>, if any.
\<close>

definition client_request ::
  "(rat \<Rightarrow> string) \<Rightarrow> (string \<Rightarrow> json_doc result) \<Rightarrow> string \<Rightarrow> string \<Rightarrow> pydict \<Rightarrow> pyfloat \<Rightarrow> (nat \<Rightarrow> bool) option
   \<Rightarrow> unit result \<Rightarrow> (string \<Rightarrow> unit result) \<Rightarrow> (string \<Rightarrow> recvs)
   \<Rightarrow> ((client_error + DaemonResponse) \<times> string option) option" where
  "client_request frepr parse request_id request_type payload timeout retry connect sendall incoming =
     (if (case timeout of Finite q \<Rightarrow> q \<le> 0 | _ \<Rightarrow> True)
      then Some (Inl (Unclassified (ValueError ''daemon request timeout must be positive and finite'')), None)
      else
        let r = \<lparr>rq_type = request_type, rq_payload = payload, rq_request_id = request_id, rq_version = PROTOCOL_VERSION\<rparr> in
        case connect of
          Inl e \<Rightarrow> Some (Inl (classify Connect e), None)
        | Inr _ \<Rightarrow>
        (case request_to_json_line frepr r of
           Inl e \<Rightarrow> Some (Inl (classify RequestEncode e), None)
         | Inr frame \<Rightarrow>
        (case sendall frame of
           Inl e \<Rightarrow> Some (Inl (classify Send e), Some frame)
         | Inr _ \<Rightarrow>
        (case read_socket_frame retry (incoming frame) of
           None \<Rightarrow> None
         | Some (Inl e, _) \<Rightarrow>
             Some (Inl (classify (if is_protocol_error e then ResponseDecode else Receive) e), Some frame)
         | Some (Inr line, _) \<Rightarrow>
        (case response_from_json_line parse line of
           Inl e \<Rightarrow> Some (Inl (classify ResponseDecode e), Some frame)
         | Inr resp \<Rightarrow> Some
             (if rs_request_id resp \<noteq> request_id
              then Inl (classify ResponseIdentity (ProtocolError ''daemon response request_id does not match request''))
              else Inr resp, Some frame))))))"

text \<open>\<open>_decode_response\<close>\<close>

definition decode_response :: "string \<Rightarrow> DaemonResponse \<Rightarrow> (pydict \<Rightarrow> 'p result) \<Rightarrow> client_error + 'p" where
  "decode_response operation resp decoder =
     (if rs_status resp = ''error'' then
        Inl (DaemonApplicationError
          (case rs_error resp of
             None \<Rightarrow> ''daemon '' @ operation @ '' failed''
           | Some e \<Rightarrow> if e = '''' then ''daemon '' @ operation @ '' failed'' else e))
      else case decoder (rs_payload resp) of
        Inl e \<Rightarrow> Inl (if is_protocol_error e then DaemonConnectionError PayloadDecode e else Unclassified e)
      | Inr p \<Rightarrow> Inr p)"

section \<open>Dispatch\<close>

definition daemon_handlers :: "'s handler_env \<Rightarrow> (string \<times> 's handler) list" where
  "daemon_handlers env =
     [(''ping'', handle_ping env), (''health'', handle_health env), (''chat'', handle_chat env),
      (''shutdown'', handle_shutdown env), (''activity_open'', handle_activity_open env),
      (''activity_next'', handle_activity_next env), (''activity_close'', handle_activity_close env)]"

lemma registry_dispatch:
  "hr_dispatch t a (snd (build_daemon_request_registry env)) =
     (case map_of (daemon_handlers env) t of None \<Rightarrow> Inl UnknownHandlerError | Some h \<Rightarrow> Inr (h a))"
proof -
  let ?r = "\<lparr>hr_handlers = daemon_handlers env, hr_middleware = [daemon_request_scope], hr_sealed = False,
      hr_dispatch_handlers = None\<rparr>"
  have scope: "daemon_request_scope k h = h" for k :: string and h :: "'s handler"
    by (simp add: fun_eq_iff daemon_request_scope_def)
  have names: "map fst (daemon_handlers env) = REQUEST_TYPES" by (simp add: daemon_handlers_def REQUEST_TYPES_def)
  have "build_daemon_request_registry env = hr_seal (Some REQUEST_TYPES) ?r"
    by (simp add: build_daemon_request_registry_def bind_act_def hr_use_def hr_register_def make_handler_registry_def
        daemon_handlers_def)
  also have "\<dots> = (Inr (), ?r\<lparr>hr_dispatch_handlers :=
        Some (map (\<lambda>(key, h). (key, wrap_all [daemon_request_scope] key h)) (daemon_handlers env)), hr_sealed := True\<rparr>)"
    by (simp add: hr_seal_def Let_def names key_difference_Nil)
  finally have "hr_dispatch_handlers (snd (build_daemon_request_registry env)) =
      Some (map (\<lambda>(key, h). (key, h)) (daemon_handlers env))"
    by (simp add: wrap_all_def wrap_handler_def scope split_def)
  then show ?thesis by (simp add: hr_dispatch_def)
qed

lemma response_ids [simp]:
  "rs_request_id (response_ok r payload) = rq_request_id r"
  "rs_request_id (response_fail i m) = i"
  "rs_request_id (fail_from_exception describe chain i e) = i"
  by (simp_all add: response_ok_def response_fail_def fail_from_exception_def)

text \<open>Every response answers its request.\<close>

lemma handlers_identity:
  assumes "(t, h) \<in> set (daemon_handlers env)" and "h (r, d) = Some (Inr resp, d')"
  shows "rs_request_id resp = rq_request_id r"
  using assms
  by (auto simp: daemon_handlers_def handle_ping_def handle_health_def handle_chat_def handle_shutdown_def
      handle_activity_open_def handle_activity_next_def handle_activity_close_def result_simps
      split: sum.splits prod.splits chat_outcome.splits if_splits option.splits exn.splits)

lemma handle_request_identity:
  assumes "handle_request env r d = Some (Inr resp, d')"
  shows "rs_request_id resp = rq_request_id r"
proof (cases "map_of (daemon_handlers env) (rq_type r)")
  case None
  with assms show ?thesis by (simp add: handle_request_def registry_dispatch)
next
  case (Some h)
  from map_of_SomeD [OF Some] have mem: "(rq_type r, h) \<in> set (daemon_handlers env)" .
  from assms Some consider m where "resp = fail_from_exception (he_describe env) False (rq_request_id r) (DaemonRequestPayloadError m)"
    | e where "h (r, d) = Some (Inr resp, e)"
    by (auto simp: handle_request_def registry_dispatch split: option.splits sum.splits prod.splits exn.splits)
  then show ?thesis by cases (auto dest: handlers_identity [OF mem])
qed


section \<open>A call across the socket\<close>

lemma react_request:
  assumes "request_to_json_line frepr r = Inr frame"
    and "json_plain (PDict (rq_payload r))" and "distinct_keys (PDict (rq_payload r))"
    and "\<And>q. newline \<notin> set (frepr q)"
    and "parse frame = Inr (doc_of (PDict (request_to_wire r)))"
    and "alive None 0 outs" and "received outs = frame"
    and "handle_request env r d = Some (Inr resp, d')"
  shows "react env parse outs d = Some (Respond (Some (rq_request_id r)) resp, d')"
proof -
  note written = request_written [OF assms(1-3)]
  from written assms(4,5) have read: "request_from_json_line parse frame = Inr r"
    unfolding request_from_json_line_def by (rule request_frames.read_back(1))
  obtain t where t: "frame = t @ [newline]" "length frame \<le> MAX_DAEMON_FRAME_BYTES" "newline \<notin> set t"
    using written(2) assms(4) by (rule encode_json_line_frame)
  with assms(6,7) read_frame_line [of None outs t]
  obtain rest where "read_socket_frame None outs = Some (Inr frame, rest)" by auto
  with read assms(8) show ?thesis by (simp add: react_def)
qed

lemma client_response:
  assumes "request_to_json_line frepr r = Inr frame" and "rq_version r = PROTOCOL_VERSION"
    and "response_to_json_line frepr resp = Inr answer"
    and "json_plain (PDict (rs_payload resp))" and "distinct_keys (PDict (rs_payload resp))"
    and "\<And>q. newline \<notin> set (frepr q)"
    and "parse answer = Inr (doc_of (PDict (response_to_wire resp)))"
    and "alive retry 0 (incoming frame)" and "received (incoming frame) = answer"
    and "rs_request_id resp = rq_request_id r" and "sendall frame = Inr ()" and "0 < q"
  shows "client_request frepr parse (rq_request_id r) (rq_type r) (rq_payload r) (Finite q) retry (Inr ()) sendall incoming
    = Some (Inr resp, Some frame)"
proof -
  note written = response_written [OF assms(3-5)]
  from written assms(6,7) have read: "response_from_json_line parse answer = Inr resp"
    unfolding response_from_json_line_def by (rule response_frames.read_back(1))
  obtain u where u: "answer = u @ [newline]" "length answer \<le> MAX_DAEMON_FRAME_BYTES" "newline \<notin> set u"
    using written(2) assms(6) by (rule encode_json_line_frame)
  with assms(8,9) read_frame_line [of retry "incoming frame" u]
  obtain rest where "read_socket_frame retry (incoming frame) = Some (Inr answer, rest)" by auto
  moreover have "\<lparr>rq_type = rq_type r, rq_payload = rq_payload r, rq_request_id = rq_request_id r,
      rq_version = PROTOCOL_VERSION\<rparr> = r" using assms(2) by simp
  ultimately show ?thesis using read assms(1,10-12) by (simp add: client_request_def Let_def)
qed

text \<open>
  C2: A call of the daemon implements a local call of its handler. When the handler answers a request
  with a response that can be written, the server sends the response's frame and changes its state as the
  handler does, and the client, which receives what the server sent, returns this very response. It is so
  for every way the two sockets cut the frames into chunks and the stream takes them in parts; of the JSON decoder it is
  assumed that it restores the two documents.
\<close>

theorem rpc_refines:
  assumes "request_to_json_line frepr r = Inr frame"
    and "json_plain (PDict (rq_payload r))" and "distinct_keys (PDict (rq_payload r))"
    and "\<And>q. newline \<notin> set (frepr q)"
    and "parse frame = Inr (doc_of (PDict (request_to_wire r)))"
    and "alive None 0 outs" and "received outs = frame"
    and "handle_request env r d = Some (Inr resp, d')"
    and "response_to_json_line frepr resp = Inr answer"
    and "json_plain (PDict (rs_payload resp))" and "distinct_keys (PDict (rs_payload resp))"
    and "parse answer = Inr (doc_of (PDict (response_to_wire resp)))"
    and "\<And>k data written. wr k data = Inr (Some written) \<Longrightarrow> written \<le> int (length data)"
    and "write_stream_frame wr (Inr ()) answer = (Inr (), sent)"
    and "sendall frame = Inr ()" and "alive retry 0 (incoming frame)" and "received (incoming frame) = sent" and "0 < q"
  shows "serve frepr env parse outs wr (Inr ()) d = Some ((Inr (), answer), d') \<and>
    client_request frepr parse (rq_request_id r) (rq_type r) (rq_payload r) (Finite q) retry (Inr ()) sendall incoming
      = Some (Inr resp, Some frame)"
proof
  from write_stream_frame_prefix [of wr answer "Inr ()"] assms(13,14) have sent: "sent = answer" by auto
  have "react env parse outs d = Some (Respond (Some (rq_request_id r)) resp, d')"
    using assms(1-8) by (rule react_request)
  with assms(9,14) show "serve frepr env parse outs wr (Inr ()) d = Some ((Inr (), answer), d')"
    by (simp add: serve_def encode_response_def sent)
  have version: "rq_version r = PROTOCOL_VERSION"
    using request_written(1) [OF assms(1-3)] by (simp add: request_valid_def)
  have whole: "received (incoming frame) = answer" using assms(17) sent by simp
  show "client_request frepr parse (rq_request_id r) (rq_type r) (rq_payload r) (Finite q) retry (Inr ()) sendall incoming
      = Some (Inr resp, Some frame)"
    using assms(1) version assms(9-11,4,12,16) whole handle_request_identity [OF assms(8)] assms(15,18)
    by (rule client_response)
qed


text \<open>A health check, by a handler environment that is not used otherwise.\<close>

definition idle_handlers :: "unit handler_env" where
  "idle_handlers =
     \<lparr>he_describe = (\<lambda>_ _. ''error''), he_class_of = (\<lambda>_. ''Error''), he_run_chat = (\<lambda>_ _ _ _ d. (ChatRaised (RuntimeError ''''), d)),
      he_audit = (\<lambda>_ _ d. d), he_fresh_id = ''s1'', he_clock = (0, 0), he_passes = []\<rparr>"

definition sample_daemon :: "unit daemon" where
  "sample_daemon =
     \<lparr>dm_authority_id = ''home'', dm_shutdown_requested = False,
      dm_activity_broker = \<lparr>ab_max_events = 8, ab_ttl_seconds = 60, ab_subscriptions = []\<rparr>,
      dm_scheduler = fresh_scheduler, dm_runtime = ()\<rparr>"

definition ping :: "string \<Rightarrow> DaemonRequest" where
  "ping i = \<lparr>rq_type = ''ping'', rq_payload = [], rq_request_id = i, rq_version = PROTOCOL_VERSION\<rparr>"

definition pong :: "string \<Rightarrow> DaemonResponse" where
  "pong i = response_ok (ping i) [(''authority_id'', PStr ''home'')]"

lemma ping_handled: "handle_request idle_handlers (ping i) sample_daemon = Some (Inr (pong i), sample_daemon)"
  by (simp add: handle_request_def registry_dispatch daemon_handlers_def handle_ping_def ping_def pong_def idle_handlers_def
      sample_daemon_def decode_request_payload_def empty_from_wire_def payload_fields_def identity_to_wire_def)

lemma dec_one: "json_int PROTOCOL_VERSION = Inr ''1''"
  by (simp add: PROTOCOL_VERSION_def json_int_def dec_int_def dec_nat.simps [of 1] dec_nat.simps [of "Suc 0"] char_of_def
      bit_Suc_0_iff)

lemma ping_frame:
  assumes "\<not> blank i" and "length (quote i) + 55 \<le> MAX_DAEMON_FRAME_BYTES"
  shows "\<exists>frame. request_to_json_line frepr (ping i) = Inr frame"
proof -
  have "validate_request_wire (request_to_wire (ping i)) = Inr (ping i)"
    by (rule request_frames.restored) (simp add: request_valid_def ping_def assms REQUEST_TYPES_def)
  with assms(2) show ?thesis
    by (simp add: request_to_json_line_def request_to_wire_def ping_def encode_json_line_def dec_one Let_def
        quote_def [of "''version''"] quote_def [of "''request_id''"] quote_def [of "''type''"] quote_def [of "''payload''"]
        quote_def [of "''ping''"] escape_char_def)
qed

lemma pong_frame:
  assumes "\<not> blank i"
  shows "response_to_json_line frepr (pong i) \<noteq> Inl DaemonFrameTooLarge \<longleftrightarrow> length (quote i) + 76 \<le> MAX_DAEMON_FRAME_BYTES"
    and "length (quote i) + 76 \<le> MAX_DAEMON_FRAME_BYTES \<Longrightarrow> \<exists>frame. response_to_json_line frepr (pong i) = Inr frame"
proof -
  have "validate_response_wire (response_to_wire (pong i)) = Inr (pong i)"
    by (rule response_frames.restored) (simp add: response_valid_def pong_def ping_def response_ok_def assms)
  then show "response_to_json_line frepr (pong i) \<noteq> Inl DaemonFrameTooLarge \<longleftrightarrow> length (quote i) + 76 \<le> MAX_DAEMON_FRAME_BYTES"
    and "length (quote i) + 76 \<le> MAX_DAEMON_FRAME_BYTES \<Longrightarrow> \<exists>frame. response_to_json_line frepr (pong i) = Inr frame"
    by (simp_all add: response_to_json_line_def response_to_wire_def pong_def ping_def response_ok_def encode_json_line_def
        dec_one Let_def quote_def [of "''version''"] quote_def [of "''request_id''"] quote_def [of "''status''"]
        quote_def [of "''payload''"] quote_def [of "''ok''"] quote_def [of "''authority_id''"] quote_def [of "''home''"]
        escape_char_def not_le)
qed

lemma rpc_refines_witness:
  "\<exists>frame answer. request_to_json_line (\<lambda>_. ''0.0'') (ping ''r1'') = Inr frame \<and>
     serve (\<lambda>_. ''0.0'') idle_handlers
       (\<lambda>line. if line = frame then Inr (doc_of (PDict (request_to_wire (ping ''r1''))))
                else Inr (doc_of (PDict (response_to_wire (pong ''r1'')))))
       (map (\<lambda>c. Inr [c]) frame) (\<lambda>k data. Inr (Some (min 1 (int (length data))))) (Inr ()) sample_daemon = Some ((Inr (), answer), sample_daemon) \<and>
     client_request (\<lambda>_. ''0.0'')
       (\<lambda>line. if line = frame then Inr (doc_of (PDict (request_to_wire (ping ''r1''))))
                else Inr (doc_of (PDict (response_to_wire (pong ''r1'')))))
       (rq_request_id (ping ''r1'')) (rq_type (ping ''r1'')) (rq_payload (ping ''r1''))
       (Finite 2) None (Inr ()) (\<lambda>_. Inr ()) (\<lambda>_. map (\<lambda>c. Inr [c]) answer) = Some (Inr (pong ''r1''), Some frame)"
proof -
  obtain frame where frame: "request_to_json_line (\<lambda>_. ''0.0'') (ping ''r1'') = Inr frame"
    using ping_frame [of "''r1''" "\<lambda>_. ''0.0''"]
    by (auto simp: blank_def py_space_def MAX_DAEMON_FRAME_BYTES_def quote_def escape_char_def)
  obtain answer where answer: "response_to_json_line (\<lambda>_. ''0.0'') (pong ''r1'') = Inr answer"
    using pong_frame(2) [of "''r1''" "\<lambda>_. ''0.0''"]
    by (auto simp: blank_def py_space_def MAX_DAEMON_FRAME_BYTES_def quote_def escape_char_def)
  let ?parse = "\<lambda>line. if line = frame then Inr (doc_of (PDict (request_to_wire (ping ''r1''))))
                else Inr (doc_of (PDict (response_to_wire (pong ''r1''))))"
  have differ: "answer \<noteq> frame"
    using frame answer
    by (auto simp: request_to_json_line_def response_to_json_line_def request_to_wire_def response_to_wire_def
        ping_def pong_def response_ok_def encode_json_line_def dec_one Let_def quote_def escape_char_def result_simps
        split: if_splits)
  have bytes: "alive None n (map (\<lambda>c. Inr [c]) s)" "received (map (\<lambda>c. Inr [c]) s) = s" for n s
    by (induction s) simp_all
  have parts: "write_loop (\<lambda>k data. Inr (Some (min 1 (int (length data))))) n m s = (Inr (), drop m s)" for n m s
  proof (induction "length s - m" arbitrary: n m)
    case (Suc k)
    then have "drop m s = s ! m # drop (Suc m) s" by (simp add: Cons_nth_drop_Suc)
    with Suc show ?case by (simp add: write_loop.simps [of _ n m s])
  qed (simp add: write_loop.simps)
  have "serve (\<lambda>_. ''0.0'') idle_handlers ?parse (map (\<lambda>c. Inr [c]) frame) (\<lambda>k data. Inr (Some (min 1 (int (length data))))) (Inr ()) sample_daemon
        = Some ((Inr (), answer), sample_daemon) \<and>
      client_request (\<lambda>_. ''0.0'') ?parse (rq_request_id (ping ''r1'')) (rq_type (ping ''r1'')) (rq_payload (ping ''r1''))
        (Finite 2) None (Inr ()) (\<lambda>_. Inr ()) (\<lambda>_. map (\<lambda>c. Inr [c]) answer) = Some (Inr (pong ''r1''), Some frame)"
    by (rule rpc_refines [where sent = answer, OF frame _ _ _ _ _ _ ping_handled answer])
      (auto simp: differ bytes parts write_stream_frame_def ping_def pong_def response_ok_def)
  with frame show ?thesis by blast
qed

section \<open>Every request is answered, but for one\<close>

lemma json_text_errors:
  "json_text frepr v = Inl e \<Longrightarrow> is_type_error e \<or> is_value_error e"
  "json_texts frepr xs = Inl e \<Longrightarrow> is_type_error e \<or> is_value_error e"
  "json_members frepr d = Inl e \<Longrightarrow> is_type_error e \<or> is_value_error e"
  "json_int_members frepr m = Inl e \<Longrightarrow> is_type_error e \<or> is_value_error e"
  by (induction frepr v and frepr xs and frepr d and frepr m arbitrary: e and e and e and e
      rule: json_text_json_texts_json_members_json_int_members.induct)
    (auto simp: result_simps json_int_def split: pyfloat.splits if_splits)

lemma response_line_errors: "response_to_json_line frepr resp = Inl e \<Longrightarrow> is_protocol_error e"
  by (auto simp: response_to_json_line_def Let_def result_simps encode_json_line_def simp del: json_text.simps
      split: sum.splits if_splits dest: response_frames.refused json_text_errors(1))

definition answered_id :: "string option \<Rightarrow> string" where
  "answered_id request_id = (case request_id of None \<Rightarrow> ''unknown'' | Some i \<Rightarrow> i)"

lemma fallback_frame:
  assumes "\<not> blank (answered_id request_id)"
  shows "\<exists>frame. length frame = length (quote (answered_id request_id)) + 100 \<and>
    response_to_json_line frepr (fallback_response request_id) =
      (if length frame \<le> MAX_DAEMON_FRAME_BYTES then Inr frame else Inl DaemonFrameTooLarge)"
proof -
  have i: "fallback_response request_id = response_fail (answered_id request_id) ''daemon response encoding failed''"
    using assms by (auto simp: fallback_response_def answered_id_def blank_def split: option.splits)
  have fail: "rs_error (fallback_response request_id) = Some ''daemon response encoding failed''"
    "rs_status (fallback_response request_id) = ''error''" "rs_payload (fallback_response request_id) = []"
    "rs_request_id (fallback_response request_id) = answered_id request_id"
    "rs_version (fallback_response request_id) = PROTOCOL_VERSION"
    by (simp_all add: i response_fail_def strip_def py_space_def)
  have "validate_response_wire (response_to_wire (fallback_response request_id)) = Inr (fallback_response request_id)"
    by (rule response_frames.restored) (simp add: response_valid_def fail assms, simp add: blank_def py_space_def)
  moreover obtain written where "json_text frepr (PDict (response_to_wire (fallback_response request_id))) = Inr written"
      "length written = length (quote (answered_id request_id)) + 99"
    by (simp add: response_to_wire_def fail dec_one quote_def [of "''version''"] quote_def [of "''request_id''"]
        quote_def [of "''status''"] quote_def [of "''payload''"] quote_def [of "''error''"]
        quote_def [of "''daemon response encoding failed''"] escape_char_def)
  ultimately show ?thesis
    by (intro exI [of _ "written @ [newline]"])
      (simp add: response_to_json_line_def encode_json_line_def Let_def del: json_text.simps)
qed

lemma react_identified:
  assumes "react env parse outs d = Some (Respond (Some i) resp, d')"
  shows "\<not> blank i \<and> rs_request_id resp = i"
proof -
  obtain line rest r where r: "read_socket_frame None outs = Some (Inr line, rest)"
      "request_from_json_line parse line = Inr r" "i = rq_request_id r"
    using assms by (auto simp: react_def split: option.splits prod.splits sum.splits if_splits)
  then obtain raw where raw: "decode_json_object parse line = Inr raw" "validate_request_wire raw = Inr r"
    by (auto simp: request_from_json_line_def result_simps)
  from validate_request_Inr [OF raw(2)] decode_json_object_Inr [OF raw(1)] have "\<not> blank i"
    by (simp add: request_valid_def r(3))
  moreover have "rs_request_id resp = i"
    using assms r handle_request_identity [of env r d]
    by (auto simp: react_def split: option.splits sum.splits)
  ultimately show ?thesis ..
qed


text \<open>
  C27: Once a request was reacted to, its client is answered: with the response, if it can be written, and
  else with an error under the identifier of the request. The exception is a request whose identifier alone fills a frame:
  the replacement response is too large as well, the second failure is not caught, and although the handler
  ran, the client is sent nothing.
\<close>

theorem server_answers:
  assumes "react env parse outs d = Some (Respond request_id resp, d')"
    and "\<And>frame. write_stream_frame wr flush frame = (Inr (), frame)"
  shows "case response_to_json_line frepr resp of
      Inr frame \<Rightarrow> serve frepr env parse outs wr flush d = Some ((Inr (), frame), d')
    | Inl e \<Rightarrow>
        (if length (quote (answered_id request_id)) + 100 \<le> MAX_DAEMON_FRAME_BYTES
         then \<exists>frame. response_to_json_line frepr (fallback_response request_id) = Inr frame \<and>
                rs_request_id (fallback_response request_id) = answered_id request_id \<and>
                serve frepr env parse outs wr flush d = Some ((Inr (), frame), d')
         else serve frepr env parse outs wr flush d = Some ((Inl DaemonFrameTooLarge, ''''), d'))"
proof (cases "response_to_json_line frepr resp")
  case (Inr frame)
  with assms show ?thesis by (simp add: serve_def encode_response_def)
next
  case (Inl e)
  have some: "\<not> blank (answered_id request_id)"
    using assms(1) react_identified [of env parse outs d] by (cases request_id) (auto simp: answered_id_def blank_def py_space_def)
  then have "rs_request_id (fallback_response request_id) = answered_id request_id"
    by (auto simp: fallback_response_def answered_id_def blank_def split: option.splits)
  moreover from fallback_frame [OF some, of frepr] obtain frame
    where "length frame = length (quote (answered_id request_id)) + 100"
      "response_to_json_line frepr (fallback_response request_id) =
        (if length frame \<le> MAX_DAEMON_FRAME_BYTES then Inr frame else Inl DaemonFrameTooLarge)" by blast
  ultimately show ?thesis
    using Inl assms response_line_errors [OF Inl] by (auto simp: serve_def encode_response_def split: if_splits)
qed

text \<open>A health check with such an identifier, which is a frame of the protocol.\<close>

definition long_id :: string where
  "long_id = replicate (1024 * 1024 - 62) CHR ''x''"

lemma long_id_frame: "\<not> blank long_id" "length (quote long_id) = 1024 * 1024 - 60"
proof -
  have "escape_char CHR ''x'' = ''x''" by (simp add: escape_char_def)
  then have "length (concat (map escape_char (replicate n CHR ''x''))) = n" for n by (induction n) simp_all
  then show "length (quote long_id) = 1024 * 1024 - 60" by (simp add: quote_def long_id_def)
  have "\<not> py_space CHR ''x''" by (simp add: py_space_def)
  moreover have "CHR ''x'' \<in> set long_id" by (simp add: long_id_def)
  ultimately show "\<not> blank long_id" by (auto simp: blank_def list_all_iff)
qed

lemma server_answers_witness:
  "\<exists>frame. request_to_json_line (\<lambda>_. ''0.0'') (ping long_id) = Inr frame \<and>
     serve (\<lambda>_. ''0.0'') idle_handlers (\<lambda>_. Inr (doc_of (PDict (request_to_wire (ping long_id))))) [Inr frame]
       (\<lambda>k data. Inr (Some (int (length data)))) (Inr ()) sample_daemon = Some ((Inl DaemonFrameTooLarge, ''''), sample_daemon)"
proof -
  let ?parse = "\<lambda>_. Inr (doc_of (PDict (request_to_wire (ping long_id))))"
  obtain frame where frame: "request_to_json_line (\<lambda>_. ''0.0'') (ping long_id) = Inr frame"
    using ping_frame [OF long_id_frame(1), of "\<lambda>_. ''0.0''"] by (auto simp: long_id_frame MAX_DAEMON_FRAME_BYTES_def)
  have wrote: "write_stream_frame (\<lambda>k data. Inr (Some (int (length data)))) (Inr ()) s = (Inr (), s)" for s
    by (simp add: write_stream_frame_def write_loop.simps)
  from frame have "frame \<noteq> []"
    by (auto simp: request_to_json_line_def encode_json_line_def Let_def result_simps split: sum.splits if_splits)
  then have react: "react idle_handlers ?parse [Inr frame] sample_daemon
      = Some (Respond (Some (rq_request_id (ping long_id))) (pong long_id), sample_daemon)"
    by (intro react_request [OF frame _ _ _ _ _ _ ping_handled]) (auto simp: ping_def)
  have "isl (response_to_json_line (\<lambda>_. ''0.0'') (pong long_id))"
    using pong_frame(1) [OF long_id_frame(1), of "\<lambda>_. ''0.0''"]
    by (cases "response_to_json_line (\<lambda>_. ''0.0'') (pong long_id)") (auto simp: long_id_frame MAX_DAEMON_FRAME_BYTES_def)
  with server_answers [OF react wrote, of "\<lambda>_. ''0.0''"] frame show ?thesis
    by (auto simp: answered_id_def ping_def long_id_frame MAX_DAEMON_FRAME_BYTES_def split: sum.splits)
qed

end
