(* ===== verification/DaemonClient.thy ===== *)
theory DaemonClient
  imports DaemonServer
begin

text \<open>
  The typed operations of \<open>daemon/client.py\<close>. They speak to the daemon through \<open>_request\<close>, which is the argument
  \<open>ask\<close>; \<open>DaemonServer\<close> defines it as \<open>client_request\<close> and shows that over the socket it answers what the daemon's
  handler answers.
\<close>

section \<open>Operations\<close>

type_synonym ask = "string \<Rightarrow> pydict \<Rightarrow> pyfloat \<Rightarrow> (client_error + DaemonResponse) option"

definition ask_typed :: "ask \<Rightarrow> string \<Rightarrow> string \<Rightarrow> pydict \<Rightarrow> pyfloat \<Rightarrow> (pydict \<Rightarrow> 'p result) \<Rightarrow> (client_error + 'p) option" where
  "ask_typed ask operation request_type payload timeout decoder =
     (case ask request_type payload timeout of
        None \<Rightarrow> None
      | Some (Inl e) \<Rightarrow> Some (Inl e)
      | Some (Inr resp) \<Rightarrow> Some (decode_response operation resp decoder))"

fun is_unclassified :: "client_error \<Rightarrow> bool" where
  "is_unclassified (Unclassified e) = True"
| "is_unclassified _ = False"

definition client_ping :: "ask \<Rightarrow> string \<Rightarrow> pyfloat \<Rightarrow> (client_error + bool) option" where
  "client_ping ask expected_id timeout =
     (case ask_typed ask ''ping'' ''ping'' [] timeout identity_from_wire of
        None \<Rightarrow> None
      | Some (Inl e) \<Rightarrow> Some (if is_unclassified e then Inl e else Inr False)
      | Some (Inr p) \<Rightarrow> Some (Inr (di_authority_id p = expected_id)))"

definition client_health :: "ask \<Rightarrow> pyfloat \<Rightarrow> (client_error + SchedulerHealthPayload) option" where
  "client_health ask timeout = ask_typed ask ''health'' ''health'' [] timeout health_from_wire"

definition client_chat :: "ask \<Rightarrow> string \<Rightarrow> string \<Rightarrow> string option \<Rightarrow> pyfloat \<Rightarrow> ApprovalEffectResolution option
    \<Rightarrow> (client_error + (ChatToolEffectPayload + ChatResponsePayload)) option" where
  "client_chat ask message conversation_id turn_id timeout effect_resolution =
     ask_typed ask ''chat'' ''chat''
       (chat_request_to_wire \<lparr>cq_message = message, cq_conversation_id = conversation_id, cq_turn_id = turn_id,
         cq_effect_resolution = effect_resolution\<rparr>) timeout decode_chat_payload"

definition client_shutdown :: "ask \<Rightarrow> pyfloat \<Rightarrow> (client_error + unit) option" where
  "client_shutdown ask timeout = ask_typed ask ''shutdown'' ''shutdown'' [] timeout empty_from_wire"

definition open_activity :: "ask \<Rightarrow> string \<Rightarrow> (client_error + string) option" where
  "open_activity ask turn_id =
     map_option (map_sum id ay_subscription_id)
       (ask_typed ask ''activity open'' ''activity_open'' [(''turn_id'', PStr turn_id)] (Finite 2) subscription_from_wire)"

text \<open>The timeout of a poll is computed in floats; its rounding only moves the end of the wait.\<close>

definition next_activity :: "iso_parser \<Rightarrow> ask \<Rightarrow> string \<Rightarrow> int \<Rightarrow> int \<Rightarrow> (client_error + LogEvent list) option" where
  "next_activity fromiso ask subscription_id timeout_ms limit =
     (case ask_typed ask ''activity next'' ''activity_next''
         [(''subscription_id'', PStr subscription_id), (''timeout_ms'', PInt timeout_ms), (''limit'', PInt limit)]
         (Finite (max 1 (of_int timeout_ms / 1000 + 1/2))) (activity_events_from_wire fromiso) of
        None \<Rightarrow> None
      | Some (Inl e) \<Rightarrow> Some (Inl e)
      | Some (Inr p) \<Rightarrow> Some
          (if av_dropped_count p \<noteq> 0 then Inl (ActivityStreamGapError (av_dropped_count p)) else Inr (av_events p)))"

definition close_activity :: "ask \<Rightarrow> string \<Rightarrow> (client_error + unit) option" where
  "close_activity ask subscription_id =
     ask_typed ask ''activity close'' ''activity_close'' [(''subscription_id'', PStr subscription_id)] (Finite 2) empty_from_wire"


section \<open>What an operation answers\<close>

text \<open>The answer of the daemon's handler, as the server puts it into a response.\<close>

definition ask_handler :: "'s handler_env \<Rightarrow> string \<Rightarrow> 's daemon \<Rightarrow> ask" where
  "ask_handler env i d request_type payload timeout =
     (case handle_request env \<lparr>rq_type = request_type, rq_payload = payload, rq_request_id = i, rq_version = PROTOCOL_VERSION\<rparr> d of
        None \<Rightarrow> None
      | Some (Inl e, _) \<Rightarrow> Some (Inr (fail_from_exception (he_describe env) True i e))
      | Some (Inr resp, _) \<Rightarrow> Some (Inr resp))"

lemma decode_ok: "decode_response operation (response_ok r payload) decoder =
    (case decoder payload of
       Inl e \<Rightarrow> Inl (if is_protocol_error e then DaemonConnectionError PayloadDecode e else Unclassified e)
     | Inr p \<Rightarrow> Inr p)"
  by (simp add: decode_response_def response_ok_def)

definition failure_message :: "string \<Rightarrow> string" where
  "failure_message m = (if strip m = [] then ''daemon request failed'' else strip m)"

lemma decode_fail: "decode_response operation (fail_from_exception describe chain i e) decoder =
    Inl (DaemonApplicationError (failure_message (describe chain e)))"
  by (simp add: decode_response_def fail_from_exception_def response_fail_def failure_message_def)

lemma ping_answers:
  assumes "\<not> blank (dm_authority_id d)"
  shows "client_ping (ask_handler env i d) expected_id timeout = Some (Inr (dm_authority_id d = expected_id))"
  using assms identities.restored [of "\<lparr>di_authority_id = dm_authority_id d\<rparr>"]
  by (simp add: client_ping_def ask_typed_def ask_handler_def handle_request_def registry_dispatch daemon_handlers_def
      handle_ping_def decode_request_payload_def empty_from_wire_def payload_fields_def decode_ok)

lemma health_answers:
  assumes "1 \<le> max_concurrency (dm_scheduler d)"
  shows "client_health (ask_handler env i d) timeout = Some (Inr (health_payload (he_class_of env) (dm_scheduler d)))"
  using assms healths.restored [of "health_payload (he_class_of env) (dm_scheduler d)"]
  by (simp add: client_health_def ask_typed_def ask_handler_def handle_request_def registry_dispatch daemon_handlers_def
      handle_health_def decode_request_payload_def empty_from_wire_def payload_fields_def decode_ok health_payload_def
      snapshot_def Let_def)

definition explained :: "exn \<Rightarrow> bool" where
  "explained e = (case e of DaemonRequestPayloadError _ \<Rightarrow> False | _ \<Rightarrow> True)"

text \<open>
  C28: A chat through the daemon is the turn it runs: the client gets the answer, the request for an
  approval, or the reason of the failure, as the conversation runtime produced it for exactly the message,
  conversation, turn and approval the client passed.
\<close>

theorem chat_call:
  assumes "chat_request_ok p"
    and "he_run_chat env (cq_message p) (cq_conversation_id p) (cq_turn_id p) (cq_effect_resolution p) d = (outcome, d')"
    and "\<And>c. outcome = ChatCompleted c \<Longrightarrow> chat_response_ok (chat_response_of c)"
    and "\<And>q. outcome = ChatPaused q \<Longrightarrow> request_ok q"
  shows "client_chat (ask_handler env i d) (cq_message p) (cq_conversation_id p) (cq_turn_id p) timeout (cq_effect_resolution p)
    = Some (case outcome of
        ChatCompleted c \<Rightarrow> Inr (Inr (chat_response_of c))
      | ChatPaused q \<Rightarrow> Inr (Inl \<lparr>ce_conversation_id = cq_conversation_id p, ce_request = q\<rparr>)
      | ChatRaised e \<Rightarrow> Inl (DaemonApplicationError (failure_message (he_describe env (explained e) e))))"
proof -
  have p: "\<lparr>cq_message = cq_message p, cq_conversation_id = cq_conversation_id p, cq_turn_id = cq_turn_id p,
      cq_effect_resolution = cq_effect_resolution p\<rparr> = p" by simp
  have read: "decode_request_payload (he_describe env) chat_request_from_wire (chat_request_to_wire p) = Inr p"
    using chat_requests.restored [OF assms(1)] by (simp add: decode_request_payload_def)
  note handled = client_chat_def ask_typed_def ask_handler_def handle_request_def registry_dispatch daemon_handlers_def
    handle_chat_def read assms(2) p
  show ?thesis
  proof (cases outcome)
    case (ChatCompleted c)
    with decode_chat_restored [of "Inr (chat_response_of c)"] assms(3) show ?thesis by (simp add: handled decode_ok)
  next
    case (ChatPaused q)
    with decode_chat_restored [of "Inl \<lparr>ce_conversation_id = cq_conversation_id p, ce_request = q\<rparr>"] assms(1,4)
    show ?thesis by (simp add: handled decode_ok chat_request_ok_def)
  next
    case (ChatRaised e)
    then show ?thesis by (cases e) (simp_all add: handled decode_fail explained_def)
  qed
qed

definition sample_turn :: ChatRequestPayload where
  "sample_turn = \<lparr>cq_message = ''hello'', cq_conversation_id = ''default'', cq_turn_id = Some ''t1'', cq_effect_resolution = None\<rparr>"

definition sample_completed :: ChatResult where
  "sample_completed = \<lparr>ct_answer = ''yes'', ct_conversation_id = ''default'', ct_evidence_references = [''m1''],
     ct_epistemic_status = ''grounded'', ct_confidence = Some (Finite 1)\<rparr>"

lemma chat_call_witness:
  "client_chat (ask_handler (idle_handlers\<lparr>he_run_chat := \<lambda>_ _ _ _ d. (ChatCompleted sample_completed, d)\<rparr>) ''r1'' sample_daemon)
     ''hello'' ''default'' (Some ''t1'') (Finite 30) None = Some (Inr (Inr sample_answer)) \<and>
   client_chat (ask_handler idle_handlers ''r1'' sample_daemon) ''hello'' ''default'' (Some ''t1'') (Finite 30) None
     = Some (Inl (DaemonApplicationError ''error''))"
proof -
  let ?env = "idle_handlers\<lparr>he_run_chat := \<lambda>_ _ _ _ d. (ChatCompleted sample_completed, d)\<rparr>"
  have turn: "chat_request_ok sample_turn" by (simp add: chat_request_ok_def sample_turn_def blank_def py_space_def)
  have answer: "chat_response_of sample_completed = sample_answer"
    by (simp add: chat_response_of_def sample_completed_def sample_answer_def)
  have ok: "chat_response_ok sample_answer"
    by (simp add: chat_response_ok_def sample_answer_def epistemic_statuses_def blank_def py_space_def)
  show ?thesis
    using chat_call [OF turn, of ?env sample_daemon "ChatCompleted sample_completed" sample_daemon "''r1''" "Finite 30"]
      chat_call [OF turn, of idle_handlers sample_daemon "ChatRaised (RuntimeError '''')" sample_daemon "''r1''" "Finite 30"]
    by (simp add: sample_turn_def answer ok idle_handlers_def failure_message_def strip_def py_space_def)
qed

end
