(* ===== verification/CuratorPlan.thy ===== *)
theory CuratorPlan
  imports MemoryStore TraceStore
begin

text \<open>
  The inputs and the recovery plans of the memory curator: observations, which producers publish and
  the curator consumes (\<open>memory/observation.py\<close>); the structured actions of its language model and
  their checks (\<open>memory/curator/contract.py\<close>, \<open>memory/text.py\<close>); and the durable plan of one decision
  with its lock (\<open>memory/curator/plan.py\<close>). \<open>uuid5\<close> is the hexadecimal name-based UUID of a name, and
  \<open>validate\<close> the validation of one action by the third-party model class.
\<close>

section \<open>Observations\<close>

datatype ObservationStatus = ObsPending | ObsProcessed

fun observation_status_str :: "ObservationStatus \<Rightarrow> string" where
  "observation_status_str ObsPending = ''pending''"
| "observation_status_str ObsProcessed = ''processed''"

definition observation_statuses :: "ObservationStatus list" where
  "observation_statuses = [ObsPending, ObsProcessed]"

interpretation observation_statuses: vocabulary observation_status_str observation_statuses
proof
  show "k \<in> set observation_statuses" for k by (cases k) (simp_all add: observation_statuses_def)
qed (simp add: observation_statuses_def)

record MemoryObservation =
  ob_id :: string
  ob_source_ref :: string
  ob_fragments :: "string list"
  ob_observed_at :: string
  ob_status :: ObservationStatus
  ob_source_trace_id :: "string option"

definition make_observation ::
  "(string \<Rightarrow> string) \<Rightarrow> string \<Rightarrow> string \<Rightarrow> string list \<Rightarrow> string option \<Rightarrow> MemoryObservation result" where
  "make_observation uuid5 now source_ref fragments source_trace_id =
     (let normalized = filter (\<lambda>f. f \<noteq> '''') (map strip fragments) in
      bindE (raise_if (normalized = []) (ValueError ''memory observation requires non-empty fragments'')) (\<lambda>_.
      bindE (raise_if (strip source_ref = '''') (ValueError ''memory observation source_ref must not be blank'')) (\<lambda>_.
        Inr \<lparr>ob_id = ''obs_'' @ uuid5 source_ref, ob_source_ref = source_ref, ob_fragments = normalized,
             ob_observed_at = now, ob_status = ObsPending, ob_source_trace_id = source_trace_id\<rparr>)))"

definition observation_fields :: "string list" where
  "observation_fields = [''id'', ''source_ref'', ''fragments'', ''observed_at'', ''status'', ''source_trace_id'']"

definition observation_to_wire :: "MemoryObservation \<Rightarrow> pydict" where
  "observation_to_wire x =
     [(''id'', PStr (ob_id x)), (''source_ref'', PStr (ob_source_ref x)), (''fragments'', strs_obj (ob_fragments x)),
      (''observed_at'', PStr (ob_observed_at x)), (''status'', PStr (observation_status_str (ob_status x))),
      (''source_trace_id'', opt_str (ob_source_trace_id x))]"

text \<open>A non-empty string; and the value of a field that is tested for membership in a set of strings, which must be hashable.\<close>

definition some_string :: "exn \<Rightarrow> pyobj \<Rightarrow> string result" where
  "some_string e v = (case v of PStr s \<Rightarrow> if s = '''' then Inl e else Inr s | _ \<Rightarrow> Inl e)"

definition read_fragments :: "pyobj \<Rightarrow> string list result" where
  "read_fragments v =
     (case v of
        PList vs \<Rightarrow>
          (if vs = [] then Inl (ValueError ''memory observation fragments are invalid'')
           else mapE (some_string (ValueError ''memory observation fragment is invalid'')) vs)
      | _ \<Rightarrow> Inl (ValueError ''memory observation fragments are invalid''))"

definition read_observation_status :: "pyobj \<Rightarrow> ObservationStatus result" where
  "read_observation_status v =
     (if \<not> hashable v then Inl (TypeError ''unhashable type'')
      else case List.find (\<lambda>s. PStr (observation_status_str s) = v) observation_statuses of
        None \<Rightarrow> Inl (ValueError ''memory observation status is invalid'')
      | Some s \<Rightarrow> Inr s)"

definition read_trace_ref :: "pyobj \<Rightarrow> string option result" where
  "read_trace_ref v =
     (case v of
        PNone \<Rightarrow> Inr None
      | PStr s \<Rightarrow> Inr (Some s)
      | _ \<Rightarrow> Inl (ValueError ''memory observation source_trace_id is invalid''))"

definition observation_from_wire :: "pydict \<Rightarrow> MemoryObservation result" where
  "observation_from_wire d =
     bindE (raise_if (dkeys d \<noteq> set observation_fields) (ValueError ''memory observation fields differ from schema'')) (\<lambda>_.
     bindE (case dict_get d ''id'' of
              PStr s \<Rightarrow> if starts_with ''obs_'' s then Inr s else Inl (ValueError ''memory observation id is invalid'')
            | _ \<Rightarrow> Inl (ValueError ''memory observation id is invalid'')) (\<lambda>i.
     bindE (some_string (ValueError ''memory observation source_ref is invalid'') (dict_get d ''source_ref'')) (\<lambda>source_ref.
     bindE (read_fragments (dict_get d ''fragments'')) (\<lambda>fragments.
     bindE (some_string (ValueError ''memory observation observed_at is invalid'') (dict_get d ''observed_at'')) (\<lambda>observed_at.
     bindE (read_observation_status (dict_get d ''status'')) (\<lambda>status.
     bindE (read_trace_ref (dict_get d ''source_trace_id'')) (\<lambda>source_trace_id.
       Inr \<lparr>ob_id = i, ob_source_ref = source_ref, ob_fragments = fragments, ob_observed_at = observed_at,
            ob_status = status, ob_source_trace_id = source_trace_id\<rparr>)))))))"

definition observation_valid :: "MemoryObservation \<Rightarrow> bool" where
  "observation_valid x \<longleftrightarrow> starts_with ''obs_'' (ob_id x) \<and> ob_source_ref x \<noteq> '''' \<and> ob_fragments x \<noteq> []
     \<and> '''' \<notin> set (ob_fragments x) \<and> ob_observed_at x \<noteq> ''''"

lemma starts_with_append [simp]: "starts_with xs (xs @ ys)"
  by (induction xs) simp_all

lemma make_observation_valid:
  "make_observation uuid5 now source_ref fragments trace = Inr x \<Longrightarrow> now \<noteq> '''' \<Longrightarrow> observation_valid x"
  by (auto simp: make_observation_def Let_def result_simps observation_valid_def strip_def)

lemma mapE_some_string: "'''' \<notin> set ss \<Longrightarrow> mapE (some_string e) (map PStr ss) = Inr ss"
  by (induction ss) (auto simp: some_string_def)

lemma read_status_str [simp]: "read_observation_status (PStr (observation_status_str s)) = Inr s"
  by (cases s) (simp_all add: read_observation_status_def observation_statuses_def)

lemma read_trace_ref_opt [simp]: "read_trace_ref (opt_str s) = Inr s"
  by (cases s) (simp_all add: read_trace_ref_def)

lemma observation_reload:
  assumes "observation_valid x"
  shows "observation_from_wire ((''id'', PStr (ob_id x)) # payload_of (observation_to_wire x)) = Inr x"
proof -
  have "read_fragments (strs_obj (ob_fragments x)) = Inr (ob_fragments x)"
    using assms by (simp add: read_fragments_def strs_obj_def mapE_some_string observation_valid_def)
  with assms show ?thesis
    by (simp add: observation_from_wire_def observation_to_wire_def payload_of_def dkeys_def observation_fields_def
        dict_get_def some_string_def observation_valid_def)
qed

interpretation observations: record_codec observation_to_wire observation_from_wire ob_id observation_valid
proof
  fix x :: MemoryObservation
  assume x: "observation_valid x"
  show "ob_id x \<noteq> ''''" using x by (auto simp: observation_valid_def)
  show "json_dict (observation_to_wire x)" by (simp add: json_dict_def observation_to_wire_def)
  show "dict_get (observation_to_wire x) ''id'' \<in> {PNone, PStr (ob_id x)}"
    by (simp add: dict_get_def observation_to_wire_def)
  show "observation_from_wire ((''id'', PStr (ob_id x)) # payload_of (observation_to_wire x)) = Inr x"
    by (rule observation_reload [OF x])
qed

section \<open>The inbox of observations\<close>

definition observe :: "MemoryObservation \<Rightarrow> (tables, MemoryObservation) act" where
  "observe x =
     atomic_act (bind_act (tab_get ''memory_observations'' (ob_id x)) (\<lambda>w. case w of
        None \<Rightarrow> bind_act (tab_put ''memory_observations'' (ob_id x) (observation_to_wire x)) (\<lambda>_. ret_act x)
      | Some raw \<Rightarrow> lift_act (\<lambda>_. bindE (observation_from_wire raw) (\<lambda>y.
          bindE (raise_if (ob_source_ref y \<noteq> ob_source_ref x \<or> ob_fragments y \<noteq> ob_fragments x)
                   (ValueError ''memory observation identity collision'')) (\<lambda>_. Inr y)))))"

definition get_observation :: "string \<Rightarrow> (tables, MemoryObservation) act" where
  "get_observation i = repo_get (tab_get ''memory_observations'' i) observation_from_wire (KeyError i)"

definition pending_observations :: "(tables, MemoryObservation list) act" where
  "pending_observations =
     bind_act (tab_find ''memory_observations'' [(''status'', ''pending'')]) (\<lambda>raws.
     bind_act (lift_act (\<lambda>_. mapE observation_from_wire raws)) (\<lambda>xs.
       ret_act (sort_key (\<lambda>x. (ob_observed_at x, ob_id x)) xs)))"

definition list_observations :: "(tables, MemoryObservation list) act" where
  "list_observations =
     bind_act (tab_list ''memory_observations'') (\<lambda>raws. lift_act (\<lambda>_. mapE observation_from_wire raws))"

definition mark_processed :: "string \<Rightarrow> (tables, unit) act" where
  "mark_processed i =
     atomic_act (bind_act (get_observation i) (\<lambda>x.
       tab_put ''memory_observations'' i (observation_to_wire (x\<lparr>ob_status := ObsProcessed\<rparr>))))"

section \<open>The actions of a decision\<close>

datatype MemoryActionType = ActCreate | ActUpdate | ActIgnore

fun memory_action_str :: "MemoryActionType \<Rightarrow> string" where
  "memory_action_str ActCreate = ''create''"
| "memory_action_str ActUpdate = ''update''"
| "memory_action_str ActIgnore = ''ignore''"

text \<open>What the language model answers, and what the checks make of it.\<close>

record CuratorActionItem =
  ci_action :: MemoryActionType
  ci_title :: string
  ci_body :: string
  ci_type :: string
  ci_tags :: "string list"
  ci_entry_id :: "string option"
  ci_confidence :: pyfloat
  ci_reason :: string

text \<open>
  The declaration of the model class, whose reader belongs to a third-party library: it accepts no field
  but the declared ones, needs \<open>action\<close>, fills in the default of any other field, and bounds the number of
  tags and the confidence. \<open>declared_item\<close> reads a mapping whose fields are there and have the declared types.
\<close>

definition declared_fields :: "string list" where
  "declared_fields =
     [''action'', ''title'', ''body'', ''type'', ''tags'', ''entry_id'', ''confidence'', ''reason'']"

definition declared_action :: "pyobj \<Rightarrow> MemoryActionType option" where
  "declared_action v =
     (if v = PStr ''create'' then Some ActCreate else if v = PStr ''update'' then Some ActUpdate
      else if v = PStr ''ignore'' then Some ActIgnore else None)"

definition declared_string :: "pyobj \<Rightarrow> string option" where
  "declared_string v = (case v of PStr s \<Rightarrow> Some s | _ \<Rightarrow> None)"

definition declared_tags :: "pyobj \<Rightarrow> string list option" where
  "declared_tags v = (case v of PList vs \<Rightarrow> (if length vs \<le> 4 then str_list vs else None) | _ \<Rightarrow> None)"

definition declared_entry_id :: "pyobj \<Rightarrow> string option option" where
  "declared_entry_id v = (case v of PNone \<Rightarrow> Some None | PStr s \<Rightarrow> Some (Some s) | _ \<Rightarrow> None)"

definition declared_confidence :: "pyobj \<Rightarrow> pyfloat option" where
  "declared_confidence v =
     (case v of PFloat (Finite q) \<Rightarrow> (if 0 \<le> q \<and> q \<le> 1 then Some (Finite q) else None) | _ \<Rightarrow> None)"

definition declared_item :: "pydict \<Rightarrow> CuratorActionItem option" where
  "declared_item d =
     (if \<not> dkeys d \<subseteq> set declared_fields then None
      else Option.bind (declared_action (dict_get d ''action'')) (\<lambda>action.
      Option.bind (declared_string (get_or d ''title'' (PStr ''''))) (\<lambda>title.
      Option.bind (declared_string (get_or d ''body'' (PStr ''''))) (\<lambda>body.
      Option.bind (declared_string (get_or d ''type'' (PStr ''episode''))) (\<lambda>kind.
      Option.bind (declared_tags (get_or d ''tags'' (PList []))) (\<lambda>tags.
      Option.bind (declared_entry_id (get_or d ''entry_id'' PNone)) (\<lambda>entry_id.
      Option.bind (declared_confidence (get_or d ''confidence'' (PFloat (binary 5404319552844595 53)))) (\<lambda>confidence.
      Option.bind (declared_string (get_or d ''reason'' (PStr ''''))) (\<lambda>reason.
        Some \<lparr>ci_action = action, ci_title = title, ci_body = body, ci_type = kind, ci_tags = tags,
              ci_entry_id = entry_id, ci_confidence = confidence, ci_reason = reason\<rparr>)))))))))"

definition item_bounded :: "CuratorActionItem \<Rightarrow> bool" where
  "item_bounded item \<longleftrightarrow> length (ci_tags item) \<le> 4
     \<and> (case ci_confidence item of Finite q \<Rightarrow> 0 \<le> q \<and> q \<le> 1 | _ \<Rightarrow> False)"

record MemoryAction =
  ma_action :: MemoryActionType
  ma_title :: string
  ma_body :: string
  ma_type :: string
  ma_tags :: "string list"
  ma_entry_id :: "string option"
  ma_confidence :: pyfloat
  ma_reason :: string

text \<open>\<open>s.count(q)\<close> for a non-empty \<open>q\<close>: the occurrences that do not overlap, from the left.\<close>

function count_text :: "string \<Rightarrow> string \<Rightarrow> nat" where
  "count_text q [] = 0"
| "count_text q (c # cs) =
     (if starts_with q (c # cs) then Suc (count_text q (drop (length q - 1) cs)) else count_text q cs)"
  by pat_completeness auto

termination by (relation "measure (\<lambda>(q, s). length s)") auto

definition looks_like_raw_transcript :: "string \<Rightarrow> bool" where
  "looks_like_raw_transcript body \<longleftrightarrow>
     2 \<le> count_text ''user:'' (casefold body) + count_text ''assistant:'' (casefold body)"

definition normalize_tags :: "string list \<Rightarrow> string list" where
  "normalize_tags tags =
     foldl (\<lambda>kept tag. if strip tag = '''' \<or> strip tag \<in> set kept then kept else kept @ [strip tag]) [] tags"

text \<open>An empty tuple of allowed types counts as none given.\<close>

definition checked_memory_type :: "string list option \<Rightarrow> string \<Rightarrow> string result" where
  "checked_memory_type allowed v =
     (let names = (case allowed of None \<Rightarrow> registry_names default_type_registry
                   | Some ns \<Rightarrow> if ns = [] then registry_names default_type_registry else ns) in
      if v \<in> set names then Inr v else Inl (ValueError ''unsupported memory type''))"

definition action_from_item :: "string list option \<Rightarrow> CuratorActionItem \<Rightarrow> MemoryAction result" where
  "action_from_item allowed item =
     (let title = strip (ci_title item); body = strip (ci_body item); tags = normalize_tags (ci_tags item);
          mutates = (ci_action item \<noteq> ActIgnore) in
      bindE (raise_if (mutates \<and> (title = '''' \<or> body = ''''))
               (ValueError ''memory mutation action requires title and body'')) (\<lambda>_.
      bindE (raise_if (mutates \<and> tags = []) (ValueError ''memory mutation action requires tags'')) (\<lambda>_.
      bindE (raise_if (mutates \<and> looks_like_raw_transcript body)
               (ValueError ''memory mutation action body must not be a transcript'')) (\<lambda>_.
      bindE (raise_if (ci_action item = ActUpdate
                 \<and> (case ci_entry_id item of None \<Rightarrow> True | Some i \<Rightarrow> strip i = ''''))
               (ValueError ''memory update action requires entry_id'')) (\<lambda>_.
      bindE (checked_memory_type allowed (ci_type item)) (\<lambda>kind.
        Inr \<lparr>ma_action = ci_action item, ma_title = title, ma_body = body, ma_type = kind, ma_tags = tags,
             ma_entry_id = ci_entry_id item, ma_confidence = ci_confidence item, ma_reason = ci_reason item\<rparr>))))))"

definition actions_from_output :: "string list option \<Rightarrow> CuratorActionItem list \<Rightarrow> MemoryAction list result" where
  "actions_from_output allowed items = mapE (action_from_item allowed) items"

section \<open>Plans\<close>

record MemoryCuratorPlan =
  cp_observation_id :: string
  cp_source_ref :: string
  cp_observed_at :: string
  cp_actions :: "MemoryAction list"

definition plan_candidate_id :: "(string \<Rightarrow> string) \<Rightarrow> MemoryCuratorPlan \<Rightarrow> int \<Rightarrow> string result" where
  "plan_candidate_id uuid5 p index =
     bindE (raise_if (index < 0 \<or> int (length (cp_actions p)) \<le> index)
              (IndexError ''curator plan action index is out of range'')) (\<lambda>_.
       Inr (''cand_'' @ uuid5 (cp_source_ref p @ '':'' @ dec_int index)))"

definition action_to_wire :: "MemoryAction \<Rightarrow> pydict" where
  "action_to_wire a =
     [(''action'', PStr (memory_action_str (ma_action a))), (''title'', PStr (ma_title a)), (''body'', PStr (ma_body a)),
      (''type'', PStr (ma_type a)), (''tags'', strs_obj (ma_tags a)), (''entry_id'', opt_str (ma_entry_id a)),
      (''confidence'', PFloat (ma_confidence a)), (''reason'', PStr (ma_reason a))]"

definition plan_to_wire :: "MemoryCuratorPlan \<Rightarrow> pydict" where
  "plan_to_wire p =
     [(''observation_id'', PStr (cp_observation_id p)), (''source_ref'', PStr (cp_source_ref p)),
      (''observed_at'', PStr (cp_observed_at p)), (''actions'', PList (map (\<lambda>a. PDict (action_to_wire a)) (cp_actions p)))]"

definition plan_fields :: "string list" where
  "plan_fields = [''observation_id'', ''source_ref'', ''observed_at'', ''actions'']"

definition plan_from_wire ::
  "(pyobj \<Rightarrow> CuratorActionItem result) \<Rightarrow> string list option \<Rightarrow> string \<Rightarrow> pydict \<Rightarrow> MemoryCuratorPlan result" where
  "plan_from_wire validate allowed expected d =
     bindE (raise_if (dkeys d \<noteq> set plan_fields) (ValueError ''curator plan fields differ from schema'')) (\<lambda>_.
     bindE (raise_if (dict_get d ''observation_id'' \<noteq> PStr expected)
              (ValueError ''curator plan observation identity mismatch'')) (\<lambda>_.
     bindE (some_string (ValueError ''curator plan source reference is invalid'') (dict_get d ''source_ref'')) (\<lambda>source_ref.
     bindE (some_string (ValueError ''curator plan observed_at is invalid'') (dict_get d ''observed_at'')) (\<lambda>observed_at.
     bindE (case dict_get d ''actions'' of
              PList vs \<Rightarrow>
                (if vs = [] then Inl (ValueError ''curator plan actions must be a non-empty list'')
                 else mapE (\<lambda>v. bindE (validate v) (action_from_item allowed)) vs)
            | _ \<Rightarrow> Inl (ValueError ''curator plan actions must be a non-empty list'')) (\<lambda>actions.
       Inr \<lparr>cp_observation_id = expected, cp_source_ref = source_ref, cp_observed_at = observed_at,
            cp_actions = actions\<rparr>)))))"

text \<open>
  A stored plan that cannot be decoded is reported as corrupt; any other exception escapes.
\<close>

definition get_plan ::
  "type_registry \<Rightarrow> (pyobj \<Rightarrow> CuratorActionItem result) \<Rightarrow> string \<Rightarrow> (tables, MemoryCuratorPlan option) act" where
  "get_plan reg validate i =
     try_act
       (bind_act (tab_get ''memory_curator_plans'' i) (\<lambda>w. case w of
          None \<Rightarrow> ret_act None
        | Some raw \<Rightarrow> lift_act (\<lambda>_.
            bindE (plan_from_wire validate (Some (registry_names reg)) i (payload_of raw)) (\<lambda>p. Inr (Some p)))))
       (\<lambda>e. raise_act (if is_type_error e \<or> is_value_error e then MemoryCuratorPlanCorruptError i else e))"

definition save_plan :: "MemoryCuratorPlan \<Rightarrow> (tables, MemoryCuratorPlan) act" where
  "save_plan p = bind_act (tab_put ''memory_curator_plans'' (cp_observation_id p) (plan_to_wire p)) (\<lambda>_. ret_act p)"

definition complete_plan :: "string \<Rightarrow> (tables, unit) act" where
  "complete_plan i = tab_delete ''memory_curator_plans'' i"

section \<open>The lock of an observation\<close>

text \<open>
  What the file system answers: \<open>lk_open\<close> to the creation and opening of the lock file, \<open>lk_flock\<close> to
  the request for the lock (\<open>BlockingIOError\<close> when another process holds it), \<open>lk_unlock\<close> and
  \<open>lk_close\<close> to its release and the closing of the handle. The lock's own state is whether it holds a
  handle.
\<close>

record lock_answers =
  lk_open :: "exn option"
  lk_flock :: "exn option"
  lk_unlock :: "exn option"
  lk_close :: "exn option"

definition lock_acquire :: "lock_answers \<Rightarrow> bool \<Rightarrow> unit result \<times> bool" where
  "lock_acquire a held =
     (if held then (Inr (), held)
      else case lk_open a of
        Some e \<Rightarrow> (Inl e, held)
      | None \<Rightarrow>
          (case lk_flock a of
             None \<Rightarrow> (Inr (), True)
           | Some e \<Rightarrow>
               (let primary = (if e = BlockingIOError then MemoryCuratorPlanLockContended else e) in
                case lk_close a of
                  None \<Rightarrow> (Inl primary, held)
                | Some c \<Rightarrow> (Inl (MemoryCuratorPlanLockCleanupError ''acquire'' primary c), held))))"

definition lock_release :: "lock_answers \<Rightarrow> bool \<Rightarrow> unit result \<times> bool" where
  "lock_release a held =
     (if \<not> held then (Inr (), held)
      else case lk_unlock a of
        Some e \<Rightarrow>
          (case lk_close a of
             None \<Rightarrow> (Inl e, False)
           | Some c \<Rightarrow> (Inl (MemoryCuratorPlanLockCleanupError ''release'' e c), False))
      | None \<Rightarrow> (case lk_close a of None \<Rightarrow> (Inr (), False) | Some c \<Rightarrow> (Inl c, False)))"

text \<open>\<open>with\<close>: an exception of the release replaces whatever the body did, whose writes stay.\<close>

definition with_lock :: "lock_answers \<Rightarrow> ('s, 'a) act \<Rightarrow> ('s, 'a) act" where
  "with_lock a body s =
     (case lock_acquire a False of
        (Inl e, _) \<Rightarrow> (Inl e, s)
      | (Inr _, held) \<Rightarrow>
          (case body s of (r, t) \<Rightarrow>
             (case lock_release a held of (Inl e, _) \<Rightarrow> (Inl e, t) | (Inr _, _) \<Rightarrow> (r, t))))"

definition plan_exclusive :: "lock_answers \<Rightarrow> string \<Rightarrow> ('s, 'a) act \<Rightarrow> ('s, 'a) act" where
  "plan_exclusive a i body =
     (if \<not> starts_with ''obs_'' i \<or> CHR ''/'' \<in> set i then raise_act (ValueError ''invalid observation id'')
      else with_lock a body)"

definition discard_plan :: "lock_answers \<Rightarrow> string \<Rightarrow> (tables, unit) act" where
  "discard_plan a i =
     plan_exclusive a i (atomic_act (bind_act (tab_get ''memory_curator_plans'' i) (\<lambda>w. case w of
        None \<Rightarrow> raise_act (MemoryCuratorPlanNotFound i)
      | Some _ \<Rightarrow> tab_delete ''memory_curator_plans'' i)))"

section \<open>The inbox accepts each piece of evidence once\<close>

definition observations_stored :: "tables \<Rightarrow> bool" where
  "observations_stored t \<longleftrightarrow> observations.repo_stored ''memory_observations'' t"

definition observation_view :: "tables \<Rightarrow> string \<Rightarrow> MemoryObservation option" where
  "observation_view t = observations.repo_view ''memory_observations'' t"

lemma observation_view_valid: "observations_stored t \<Longrightarrow> observation_view t i = Some x \<Longrightarrow> observation_valid x \<and> ob_id x = i"
  using observations.repo_view_valid by (simp add: observations_stored_def observation_view_def)

lemma get_observation_view:
  "observations_stored t \<Longrightarrow> get_observation i t =
    (case observation_view t i of None \<Rightarrow> (Inl (KeyError i), t) | Some x \<Rightarrow> (Inr x, t))"
  using observations.repo_get_view [of "''memory_observations''" t i]
  by (simp add: get_observation_def observations_stored_def observation_view_def)

lemma observation_put:
  assumes "observations_stored t" and "observation_valid x"
  obtains t' where "tab_put ''memory_observations'' (ob_id x) (observation_to_wire x) t = (Inr (), t')" "observations_stored t'"
    "observation_view t' = (observation_view t)(ob_id x \<mapsto> x)" "\<And>c. c \<noteq> ''memory_observations'' \<Longrightarrow> t' c = t c"
  using observations.repo_put [of "''memory_observations''" t x] assms
  by (auto simp: observations_stored_def observation_view_def)

lemma mark_processed_run:
  assumes "observations_stored t" and "observation_view t i = Some x"
  obtains t' where "mark_processed i t = (Inr (), t')" "observations_stored t'"
    "observation_view t' = (observation_view t)(i \<mapsto> x\<lparr>ob_status := ObsProcessed\<rparr>)"
    "\<And>c. c \<noteq> ''memory_observations'' \<Longrightarrow> t' c = t c"
proof -
  have x: "observation_valid x" "ob_id x = i" using observation_view_valid [OF assms] by simp_all
  then have v: "observation_valid (x\<lparr>ob_status := ObsProcessed\<rparr>)" by (simp add: observation_valid_def)
  obtain t' where "tab_put ''memory_observations'' i (observation_to_wire (x\<lparr>ob_status := ObsProcessed\<rparr>)) t = (Inr (), t')"
    "observations_stored t'" "observation_view t' = (observation_view t)(i \<mapsto> x\<lparr>ob_status := ObsProcessed\<rparr>)"
    "\<And>c. c \<noteq> ''memory_observations'' \<Longrightarrow> t' c = t c"
    by (rule observation_put [OF assms(1) v]) (use x(2) in simp)
  with assms show ?thesis
    by (intro that [of t']) (simp_all add: mark_processed_def atomic_act_def bind_act_def get_observation_view)
qed

text \<open>
  The inbox accepts each piece of evidence once. Publishing under a new identifier stores the
  observation; publishing the same source reference and fragments again, however often and whether or
  not the observation has been processed since, answers the stored one and changes nothing; other
  evidence under the same identifier is refused.
\<close>

theorem observe_once:
  assumes "observations_stored t" and "observation_valid x"
  shows "case observation_view t (ob_id x) of
      None \<Rightarrow> (\<exists>t'. observe x t = (Inr x, t') \<and> observations_stored t'
        \<and> observation_view t' = (observation_view t)(ob_id x \<mapsto> x) \<and> observe x t' = (Inr x, t')
        \<and> (\<exists>u. mark_processed (ob_id x) t' = (Inr (), u) \<and> observe x u = (Inr (x\<lparr>ob_status := ObsProcessed\<rparr>), u)))
    | Some y \<Rightarrow> observe x t =
        (if ob_source_ref y = ob_source_ref x \<and> ob_fragments y = ob_fragments x then Inr y
         else Inl (ValueError ''memory observation identity collision''), t)"
proof -
  have found: "observe x u = (if ob_source_ref y = ob_source_ref x \<and> ob_fragments y = ob_fragments x then Inr y
         else Inl (ValueError ''memory observation identity collision''), u)"
    if u: "observations_stored u" and y: "observation_view u (ob_id x) = Some y" for u y
  proof -
    have v: "observation_valid y" "ob_id y = ob_id x" using observation_view_valid [OF u y] by simp_all
    have "tab_get ''memory_observations'' (ob_id x) u = (Inr (Some ((''id'', PStr (ob_id y)) # payload_of (observation_to_wire y))), u)"
      using observations.repo_raw_view [of "''memory_observations''" u "ob_id x"] u y v
      by (simp add: observations_stored_def observation_view_def)
    then show ?thesis
      by (simp add: observe_def atomic_act_def bind_act_def observation_reload [OF v(1)] raise_if_def)
  qed
  show ?thesis
  proof (cases "observation_view t (ob_id x)")
    case None
    obtain t' where t': "tab_put ''memory_observations'' (ob_id x) (observation_to_wire x) t = (Inr (), t')" "observations_stored t'"
      "observation_view t' = (observation_view t)(ob_id x \<mapsto> x)" by (rule observation_put [OF assms])
    have raw: "tab_get ''memory_observations'' (ob_id x) t = (Inr None, t)"
      using observations.repo_raw_view [of "''memory_observations''" t "ob_id x"] assms(1) None
      by (simp add: observations_stored_def observation_view_def)
    have run: "observe x t = (Inr x, t')" using raw t'(1) by (simp add: observe_def atomic_act_def bind_act_def)
    obtain u where u: "mark_processed (ob_id x) t' = (Inr (), u)" "observations_stored u"
      "observation_view u = (observation_view t')(ob_id x \<mapsto> x\<lparr>ob_status := ObsProcessed\<rparr>)"
      by (rule mark_processed_run [OF t'(2), of "ob_id x" x]) (use t'(3) in simp_all)
    show ?thesis using None run t' u found [OF t'(2), of x] found [OF u(2), of "x\<lparr>ob_status := ObsProcessed\<rparr>"] by auto
  qed (use found [OF assms(1)] in simp)
qed

definition sample_observation :: MemoryObservation where
  "sample_observation =
     \<lparr>ob_id = ''obs_1'', ob_source_ref = ''chat:1'', ob_fragments = [''I prefer tea''], ob_observed_at = ''2026-01-01'',
      ob_status = ObsPending, ob_source_trace_id = None\<rparr>"

lemma sample_observation_valid: "observation_valid sample_observation"
  by (simp add: sample_observation_def observation_valid_def)

lemma observe_once_witness:
  "\<exists>t. observe sample_observation (\<lambda>_. []) = (Inr sample_observation, t) \<and> observe sample_observation t = (Inr sample_observation, t)
     \<and> (\<exists>u. mark_processed ''obs_1'' t = (Inr (), u)
          \<and> observe sample_observation u = (Inr (sample_observation\<lparr>ob_status := ObsProcessed\<rparr>), u))"
proof -
  have "observations_stored (\<lambda>_. [])" "observation_view (\<lambda>_. []) (ob_id sample_observation) = None"
    by (simp_all add: observations_stored_def observation_view_def)
  moreover have "ob_id sample_observation = ''obs_1''" by (simp add: sample_observation_def)
  ultimately show ?thesis using observe_once [of "\<lambda>_. []" sample_observation] sample_observation_valid by auto
qed

context record_codec
begin

lemma scan_stored:
  assumes "stored_ok to_wire key_of valid c"
  shows "coll_list c = map (\<lambda>x. (''id'', PStr (key_of x)) # payload_of (to_wire x)) (stored_records from_wire c)"
proof -
  have "\<forall>r \<in> set c. \<exists>x. valid x \<and> key_of x = fst r \<and> snd r = payload_of (to_wire x)"
    using assms by (force simp: stored_ok_def rows_ok_mem)
  then show ?thesis
  proof (induction c)
    case Nil
    then show ?case by (simp add: stored_records_def)
  next
    case (Cons r c)
    then obtain x where x: "valid x" "r = (key_of x, payload_of (to_wire x))"
      by (metis list.set_intros(1) prod.collapse)
    with Cons reload [OF x(1)] key_nonempty [OF x(1)] show ?case by (simp add: stored_records_def)
  qed
qed

text \<open>A filtered scan finds the records whose fields have the wanted values.\<close>

lemma find_stored:
  assumes "stored_ok to_wire key_of valid c"
  shows "mapE from_wire (coll_find filters c) =
    Inr (filter (\<lambda>x. list_all (\<lambda>(key, v). dict_get ((''id'', PStr (key_of x)) # payload_of (to_wire x)) key = PStr v) filters)
      (stored_records from_wire c))"
proof -
  let ?w = "\<lambda>x. (''id'', PStr (key_of x)) # payload_of (to_wire x)"
  have "mapE from_wire (map ?w xs) = Inr xs" if "\<forall>x \<in> set xs. valid x" for xs
    using that by (induction xs) (simp_all add: reload)
  moreover have "\<forall>x \<in> set (stored_records from_wire c). valid x" by (rule list_stored(3) [OF assms])
  ultimately show ?thesis by (simp add: coll_find_def scan_stored [OF assms] filter_map o_def)
qed

end

text \<open>What is pending: the unprocessed observations, the oldest first.\<close>

lemma pending_run:
  assumes "observations_stored t"
  obtains xs where "pending_observations t = (Inr xs, t)"
    "set xs = {x \<in> ran (observation_view t). ob_status x = ObsPending}"
    "sorted (map (\<lambda>x. (ob_observed_at x, ob_id x)) xs)" "distinct (map ob_id xs)"
proof -
  let ?rs = "stored_records observation_from_wire (t ''memory_observations'')"
  have ok: "stored_ok observation_to_wire ob_id observation_valid (t ''memory_observations'')"
    using assms by (simp add: observations_stored_def observations.repo_stored_def)
  have status: "dict_get ((''id'', PStr (ob_id x)) # payload_of (observation_to_wire x)) ''status'' = PStr ''pending''
      \<longleftrightarrow> ob_status x = ObsPending" for x
    by (cases "ob_status x") (simp_all add: dict_get_def payload_of_def observation_to_wire_def)
  let ?xs = "sort_key (\<lambda>x. (ob_observed_at x, ob_id x)) (filter (\<lambda>x. ob_status x = ObsPending) ?rs)"
  have "pending_observations t = (Inr ?xs, t)"
    by (simp add: pending_observations_def bind_act_def tab_find_def observations.find_stored [OF ok] status)
  moreover have "set ?xs = {x \<in> ran (observation_view t). ob_status x = ObsPending}"
    using observations.set_repo_list [of "''memory_observations''" t] assms
    by (auto simp: observations_stored_def observation_view_def)
  moreover have "distinct (map ob_id ?rs)"
    using observations.list_stored(2) [OF ok] ok by (simp add: stored_ok_def rows_ok_distinct)
  then have "distinct (map ob_id ?xs)" by (simp add: distinct_map_sort distinct_map_filter)
  ultimately show ?thesis using that by simp
qed

section \<open>A saved plan is the plan that is resumed\<close>

lemma strip_strip [simp]: "strip (strip s) = strip s"
proof -
  have idem: "dropWhile P (dropWhile P xs) = dropWhile P xs" for P and xs :: string
    by (induction xs) simp_all
  have keeps: "dropWhile P xs = xs" if "xs = [] \<or> \<not> P (hd xs)" for P and xs :: string
    using that by (cases xs) auto
  let ?a = "dropWhile py_space s"
  let ?b = "rev (dropWhile py_space (rev ?a))"
  have "?b = [] \<or> \<not> py_space (hd ?b)"
  proof (rule disjCI)
    assume b: "\<not> \<not> py_space (hd ?b)"
    obtain zs where zs: "rev ?a = takeWhile py_space (rev ?a) @ dropWhile py_space (rev ?a)" by simp
    then have a: "?a = ?b @ rev (takeWhile py_space (rev ?a))" by (metis rev_append rev_rev_ident)
    show "?b = []"
    proof (rule ccontr)
      assume n: "?b \<noteq> []"
      then have "hd ?a = hd ?b" "?a \<noteq> []" using a by (metis hd_append2, metis append_is_Nil_conv)
      with b hd_dropWhile [of py_space s] show False by simp
    qed
  qed
  then have "dropWhile py_space ?b = ?b" by (rule keeps)
  then show ?thesis by (simp add: strip_def idem)
qed

definition clean_tags :: "string list \<Rightarrow> bool" where
  "clean_tags tags \<longleftrightarrow> distinct tags \<and> (\<forall>t \<in> set tags. t \<noteq> '''' \<and> strip t = t)"

definition add_tag :: "string list \<Rightarrow> string \<Rightarrow> string list" where
  "add_tag kept tag = (if strip tag = '''' \<or> strip tag \<in> set kept then kept else kept @ [strip tag])"

lemma normalize_add: "normalize_tags tags = foldl add_tag [] tags"
  by (simp add: normalize_tags_def add_tag_def [abs_def])

lemma add_tag_clean: "clean_tags kept \<Longrightarrow> clean_tags (add_tag kept tag)"
  by (auto simp: clean_tags_def add_tag_def)

lemma normalize_tags_clean: "clean_tags (normalize_tags tags)"
proof -
  have "clean_tags (foldl add_tag kept tags)" if "clean_tags kept" for kept
    using that by (induction tags arbitrary: kept) (simp_all add: add_tag_clean)
  from this [of "[]"] show ?thesis by (simp add: normalize_add clean_tags_def)
qed

lemma normalize_clean:
  assumes "clean_tags tags"
  shows "normalize_tags tags = tags"
proof -
  have "foldl add_tag kept tags = kept @ tags" if "clean_tags (kept @ tags)" for kept
    using that
  proof (induction tags arbitrary: kept)
    case (Cons tag tags)
    then have "add_tag kept tag = kept @ [tag]" by (simp add: clean_tags_def add_tag_def)
    with Cons show ?case by simp
  qed simp
  from this [of "[]"] assms show ?thesis by (simp add: normalize_add)
qed

text \<open>The action as the model class reads it back.\<close>

definition item_of :: "MemoryAction \<Rightarrow> CuratorActionItem" where
  "item_of a =
     \<lparr>ci_action = ma_action a, ci_title = ma_title a, ci_body = ma_body a, ci_type = ma_type a, ci_tags = ma_tags a,
      ci_entry_id = ma_entry_id a, ci_confidence = ma_confidence a, ci_reason = ma_reason a\<rparr>"

lemma normalize_tags_length: "length (normalize_tags tags) \<le> length tags"
proof -
  have step: "length (add_tag kept tag) \<le> Suc (length kept)" for kept tag by (simp add: add_tag_def)
  have "length (foldl add_tag kept tags) \<le> length kept + length tags" for kept
  proof (induction tags arbitrary: kept)
    case (Cons tag tags)
    have "length (foldl add_tag (add_tag kept tag) tags) \<le> length (add_tag kept tag) + length tags" by (rule Cons)
    with step [of kept tag] show ?case by simp
  qed simp
  from this [of "[]"] show ?thesis by (simp add: normalize_add)
qed

text \<open>What an action is stored as is what the model class declares, and reads back as the same fields.\<close>

lemma declared_item_of:
  assumes "item_bounded (item_of a)"
  shows "declared_item (action_to_wire a) = Some (item_of a)"
proof -
  have "declared_action (PStr (memory_action_str (ma_action a))) = Some (ma_action a)"
    by (cases "ma_action a") (simp_all add: declared_action_def)
  moreover have "declared_entry_id (opt_str (ma_entry_id a)) = Some (ma_entry_id a)"
    by (cases "ma_entry_id a") (simp_all add: declared_entry_id_def)
  moreover have "declared_confidence (PFloat (ma_confidence a)) = Some (ma_confidence a)"
    "declared_tags (strs_obj (ma_tags a)) = Some (ma_tags a)"
    using assms by (auto simp: item_bounded_def item_of_def declared_confidence_def declared_tags_def strs_obj_def
        split: pyfloat.splits)
  ultimately show ?thesis
    by (simp add: declared_item_def action_to_wire_def dkeys_def declared_fields_def dict_get_def get_or_def
        declared_string_def item_of_def)
qed

lemma checked_type_same: "checked_memory_type allowed v = Inr w \<Longrightarrow> w = v"
  by (auto simp: checked_memory_type_def Let_def split: option.splits if_splits)

lemma action_from_item_again:
  assumes "action_from_item allowed item = Inr a"
  shows "action_from_item allowed (item_of a) = Inr a"
proof -
  obtain kind where kind: "checked_memory_type allowed (ci_type item) = Inr kind"
    and a: "a = \<lparr>ma_action = ci_action item, ma_title = strip (ci_title item), ma_body = strip (ci_body item), ma_type = kind,
      ma_tags = normalize_tags (ci_tags item), ma_entry_id = ci_entry_id item, ma_confidence = ci_confidence item,
      ma_reason = ci_reason item\<rparr>"
    using assms by (simp add: action_from_item_def Let_def bindE_eq_Inr) blast
  have "kind = ci_type item" using checked_type_same [OF kind] .
  with kind a assms show ?thesis
    by (simp add: action_from_item_def Let_def item_of_def normalize_clean [OF normalize_tags_clean])
qed

lemma actions_again:
  assumes "actions_from_output allowed items = Inr actions" and "a \<in> set actions"
  shows "action_from_item allowed (item_of a) = Inr a"
  using mapE_InrD [OF assms(1) [unfolded actions_from_output_def]] assms(2) action_from_item_again by blast

lemma actions_bounded:
  assumes "actions_from_output allowed items = Inr actions" and "list_all item_bounded items" and "a \<in> set actions"
  shows "item_bounded (item_of a)"
proof -
  obtain item where item: "item \<in> set items" "action_from_item allowed item = Inr a"
    using mapE_InrD [OF assms(1) [unfolded actions_from_output_def]] assms(3) by blast
  then have "ma_tags a = normalize_tags (ci_tags item)" "ma_confidence a = ci_confidence item"
    by (auto simp: action_from_item_def Let_def bindE_eq_Inr)
  moreover have "item_bounded item" using item(1) assms(2) by (simp add: list_all_iff)
  ultimately show ?thesis
    using normalize_tags_length [of "ci_tags item"] by (auto simp: item_bounded_def item_of_def split: pyfloat.splits)
qed

lemma save_get_plan:
  assumes "actions_from_output (Some (registry_names reg)) items = Inr actions" and "actions \<noteq> []"
    and "list_all item_bounded items" and "\<And>d item. declared_item d = Some item \<Longrightarrow> validate (PDict d) = Inr item"
    and "i \<noteq> ''''" and "source_ref \<noteq> ''''" and "observed_at \<noteq> ''''" and "rows_ok (t ''memory_curator_plans'')"
  shows "\<exists>t'. save_plan \<lparr>cp_observation_id = i, cp_source_ref = source_ref, cp_observed_at = observed_at, cp_actions = actions\<rparr> t
      = (Inr \<lparr>cp_observation_id = i, cp_source_ref = source_ref, cp_observed_at = observed_at, cp_actions = actions\<rparr>, t')
    \<and> get_plan reg validate i t'
      = (Inr (Some \<lparr>cp_observation_id = i, cp_source_ref = source_ref, cp_observed_at = observed_at, cp_actions = actions\<rparr>), t')
    \<and> (\<forall>c. c \<noteq> ''memory_curator_plans'' \<longrightarrow> t' c = t c)"
proof -
  let ?p = "\<lparr>cp_observation_id = i, cp_source_ref = source_ref, cp_observed_at = observed_at, cp_actions = actions\<rparr>"
  let ?w = "plan_to_wire ?p"
  have bounded: "item_bounded (item_of a)" if "a \<in> set actions" for a
    using actions_bounded [OF assms(1,3) that] .
  then have valid: "validate (PDict (action_to_wire a)) = Inr (item_of a)" if "a \<in> set actions" for a
    using assms(4) declared_item_of that by blast
  have plain: "json_plain (PDict (action_to_wire a))" if "a \<in> set actions" for a
    using bounded [OF that] by (cases "ma_confidence a") (simp_all add: action_to_wire_def item_bounded_def item_of_def del: json_plain.simps(3))
  then have "list_all json_plain (map (\<lambda>a. PDict (action_to_wire a)) actions)"
    by (simp add: list_all_iff del: json_plain.simps)
  then have "json_plain (PDict ?w)"
    by (simp add: plan_to_wire_def del: json_plain.simps(2) json_plain.simps(3)) simp
  then obtain f where "freeze (PDict ?w) = Inr f" "thaw f = PDict ?w"
    using freeze_plain by blast
  then have put: "coll_put i ?w c = Inr (row_put i (payload_of ?w) c)" for c
    by (simp add: coll_put_def plan_to_wire_def dict_get_def del: freeze.simps)
  have same: "payload_of ?w = ?w" by (simp add: payload_of_def plan_to_wire_def)
  let ?t = "t(''memory_curator_plans'' := row_put i ?w (t ''memory_curator_plans''))"
  have get: "tab_get ''memory_curator_plans'' i ?t = (Inr (Some ((''id'', PStr i) # ?w)), ?t)"
    using assms(5,8) by (simp add: tab_get_def coll_get_def row_get_put coll_decode_def plan_to_wire_def)
  have restored: "mapE (\<lambda>v. bindE (validate v) (action_from_item (Some (registry_names reg)))) (map (\<lambda>a. PDict (action_to_wire a)) bs) = Inr bs"
    if "set bs \<subseteq> set actions" for bs
    using that valid actions_again [OF assms(1)] by (induction bs) auto
  have "plan_from_wire validate (Some (registry_names reg)) i (payload_of ((''id'', PStr i) # ?w)) = Inr ?p"
    using restored [of actions] assms(2,6,7)
    by (auto simp: plan_from_wire_def plan_to_wire_def payload_of_def dkeys_def plan_fields_def dict_get_def some_string_def)
  with get have "get_plan reg validate i ?t = (Inr (Some ?p), ?t)"
    by (simp add: get_plan_def try_act_def bind_act_def)
  moreover have "save_plan ?p t = (Inr ?p, ?t)"
    by (simp add: save_plan_def bind_act_def tab_put_def put same)
  ultimately show ?thesis by (intro exI [of _ ?t]) simp
qed

text \<open>
  C39: A decision survives a restart as it is. Once the actions that were made of an answer of the language
  model are saved as the plan of an observation, the plan that is read back is the saved one: the record of
  an action has every field of the model class that reads it, with the type and the bounds which the class
  declares, and the checks that each action passes again (stripped texts, normalized tags, transcript and type
  checks) change nothing the second time. The hypothesis is what the third-party library documents of the
  class: a mapping of the declared fields is read as these fields.
\<close>

theorem plan_restored:
  assumes "actions_from_output (Some (registry_names reg)) items = Inr actions" and "actions \<noteq> []"
    and "list_all item_bounded items" and "\<And>d item. declared_item d = Some item \<Longrightarrow> validate (PDict d) = Inr item"
    and "i \<noteq> ''''" and "source_ref \<noteq> ''''" and "observed_at \<noteq> ''''" and "rows_ok (t ''memory_curator_plans'')"
  shows "\<exists>t'. save_plan \<lparr>cp_observation_id = i, cp_source_ref = source_ref, cp_observed_at = observed_at, cp_actions = actions\<rparr> t
      = (Inr \<lparr>cp_observation_id = i, cp_source_ref = source_ref, cp_observed_at = observed_at, cp_actions = actions\<rparr>, t')
    \<and> get_plan reg validate i t'
      = (Inr (Some \<lparr>cp_observation_id = i, cp_source_ref = source_ref, cp_observed_at = observed_at, cp_actions = actions\<rparr>), t')
    \<and> (\<forall>c. c \<noteq> ''memory_curator_plans'' \<longrightarrow> t' c = t c)"
  using assms by (rule save_get_plan)

definition sample_action :: MemoryAction where
  "sample_action =
     \<lparr>ma_action = ActCreate, ma_title = ''Tea'', ma_body = ''Prefers tea'', ma_type = ''goal'', ma_tags = [''drink''],
      ma_entry_id = None, ma_confidence = Finite (1 / 2), ma_reason = ''said so''\<rparr>"

definition declared_validate :: "pyobj \<Rightarrow> CuratorActionItem result" where
  "declared_validate v =
     (case v of PDict d \<Rightarrow> (case declared_item d of Some item \<Rightarrow> Inr item | None \<Rightarrow> Inl (ValueError ''validation error''))
      | _ \<Rightarrow> Inl (ValueError ''validation error''))"

lemma declared_validate_item: "declared_item d = Some item \<Longrightarrow> declared_validate (PDict d) = Inr item"
  by (simp add: declared_validate_def)

lemma plan_restored_witness:
  "\<exists>t. save_plan \<lparr>cp_observation_id = ''obs_1'', cp_source_ref = ''chat:1'', cp_observed_at = ''1'', cp_actions = [sample_action]\<rparr> (\<lambda>_. [])
      = (Inr \<lparr>cp_observation_id = ''obs_1'', cp_source_ref = ''chat:1'', cp_observed_at = ''1'', cp_actions = [sample_action]\<rparr>, t)
    \<and> get_plan sample_registry declared_validate ''obs_1'' t
      = (Inr (Some \<lparr>cp_observation_id = ''obs_1'', cp_source_ref = ''chat:1'', cp_observed_at = ''1'', cp_actions = [sample_action]\<rparr>), t)"
proof -
  let ?item = "item_of (sample_action\<lparr>ma_title := '' Tea '', ma_tags := ['' drink'', ''drink'']\<rparr>)"
  have made: "actions_from_output (Some (registry_names sample_registry)) [?item] = Inr [sample_action]"
    by code_simp
  have bounded: "list_all item_bounded [?item]"
    by (simp add: item_bounded_def item_of_def sample_action_def)
  have "\<exists>t'. save_plan \<lparr>cp_observation_id = ''obs_1'', cp_source_ref = ''chat:1'', cp_observed_at = ''1'', cp_actions = [sample_action]\<rparr> (\<lambda>_. [])
      = (Inr \<lparr>cp_observation_id = ''obs_1'', cp_source_ref = ''chat:1'', cp_observed_at = ''1'', cp_actions = [sample_action]\<rparr>, t')
    \<and> get_plan sample_registry declared_validate ''obs_1'' t'
      = (Inr (Some \<lparr>cp_observation_id = ''obs_1'', cp_source_ref = ''chat:1'', cp_observed_at = ''1'', cp_actions = [sample_action]\<rparr>), t')
    \<and> (\<forall>c. c \<noteq> ''memory_curator_plans'' \<longrightarrow> t' c = ((\<lambda>_. []) :: tables) c)"
    by (rule plan_restored [OF made _ bounded]) (simp_all add: declared_validate_item)
  then show ?thesis by blast
qed

end
