(* ===== verification/CuratorFlow.thy ===== *)
theory CuratorFlow
  imports CuratorPlan
begin

text \<open>
  The memory curator (\<open>memory/curator/worker.py\<close>): one run takes an observation under its lock, obtains
  a decision of the language model unless a plan of an interrupted run is stored, turns the plan's
  actions into candidates, accepts them, and marks the observation processed. Everything outside the
  repository enters through \<open>curator_env\<close>: the language model, the clock, the fresh identifiers.
\<close>

section \<open>The environment\<close>

text \<open>
  \<open>ce_agent\<close> answers to the source reference, the two contexts and the fragments. The clock readings
  and identifiers that an action needs are indexed by its candidate identifier: \<open>ce_evidence_at\<close>,
  \<open>ce_created\<close> and \<open>ce_updated\<close> are the times of a new candidate, \<open>ce_accept_clock\<close> and \<open>ce_entry_id\<close> those
  of its acceptance, \<open>ce_trace_id\<close> and \<open>ce_trace_now\<close> those of the trace of it.
\<close>

record curator_env =
  ce_registry :: type_registry
  ce_uuid5 :: "string \<Rightarrow> string"
  ce_validate :: "pyobj \<Rightarrow> CuratorActionItem result"
  ce_agent :: "string \<Rightarrow> string \<Rightarrow> string \<Rightarrow> string \<Rightarrow> CuratorActionItem list result"
  ce_min_quality_chars :: int
  ce_existing_limit :: int
  ce_auto_accept :: bool
  ce_lock :: lock_answers
  ce_object_id :: string
  ce_object_now :: string
  ce_evidence_at :: "string \<Rightarrow> string"
  ce_created :: "string \<Rightarrow> string"
  ce_updated :: "string \<Rightarrow> string"
  ce_accept_clock :: "string \<Rightarrow> nat \<Rightarrow> string"
  ce_entry_id :: "string \<Rightarrow> string"
  ce_trace_id :: "string \<Rightarrow> string"
  ce_trace_now :: "string \<Rightarrow> string"

record MemoryCuratorResult =
  cr_processed :: nat
  cr_created :: nat
  cr_updated :: nat
  cr_ignored :: nat

definition nothing_done :: MemoryCuratorResult where
  "nothing_done = \<lparr>cr_processed = 0, cr_created = 0, cr_updated = 0, cr_ignored = 0\<rparr>"

section \<open>The decision\<close>

text \<open>
  Text is a sequence of code points below 256, in which none of the Chinese and Japanese markers of
  the source can occur; these are the other ones.
\<close>

definition DURABLE_SIGNAL_MARKERS :: "string list" where
  "DURABLE_SIGNAL_MARKERS =
     [''prefer'', ''remember'', ''important'', ''decide'', ''decision'', ''should'', ''goal'', ''plan'', ''because'',
      ''why'', ''question'', ''always'', ''never'']"

definition has_memory_worthy_signal :: "string list \<Rightarrow> int \<Rightarrow> bool" where
  "has_memory_worthy_signal fragments min_quality_chars \<longleftrightarrow>
     (let body = join_with [char_of (10::nat)] fragments in
      min_quality_chars \<le> int (length (strip body))
      \<or> list_ex (\<lambda>marker. contains_text marker (casefold body)) DURABLE_SIGNAL_MARKERS)"

text \<open>\<open>xs[:n]\<close>.\<close>

definition py_take :: "int \<Rightarrow> 'a list \<Rightarrow> 'a list" where
  "py_take n xs = (if 0 \<le> n then take (nat n) xs else take (length xs - nat (- n)) xs)"

definition existing_memory_context :: "int \<Rightarrow> (tables, string) act" where
  "existing_memory_context limit =
     bind_act list_memory (\<lambda>xs.
       ret_act (join_with [char_of (10::nat)] (map (\<lambda>x.
         ''- id='' @ me_id x @ '' type='' @ me_type x @ '' title='' @ me_title x
         @ (if me_tags x = [] then '''' else '' tags='' @ join_with '','' (me_tags x)) @ '': '' @ me_body x)
         (py_take limit xs))))"

definition existing_profile_context :: "int \<Rightarrow> (tables, string) act" where
  "existing_profile_context limit =
     bind_act list_profile (\<lambda>xs.
       ret_act (join_with [char_of (10::nat)] (map (\<lambda>x.
         ''- id='' @ pi_id x @ '' type='' @ pi_type x @ '' title='' @ pi_title x
         @ (if pi_tags x = [] then '''' else '' tags='' @ join_with '','' (pi_tags x))
         @ (if pi_source_refs x = [] then '''' else '' sources='' @ join_with '','' (pi_source_refs x))
         @ '': '' @ pi_body x)
         (py_take limit xs))))"

text \<open>\<open>None\<close> is a deferred decision; a ready one has at least one action.\<close>

definition decide_actions :: "curator_env \<Rightarrow> MemoryObservation \<Rightarrow> (tables, MemoryAction list option) act" where
  "decide_actions env x =
     bind_act (existing_memory_context (ce_existing_limit env)) (\<lambda>memories.
     bind_act (existing_profile_context (ce_existing_limit env)) (\<lambda>items.
       case ce_agent env (ob_source_ref x) (if memories = '''' then ''(none)'' else memories)
              (if items = '''' then ''(none)'' else items) (join_with [char_of (10::nat)] (ob_fragments x)) of
         Inl e \<Rightarrow> (case e of AgentError m \<Rightarrow> ret_act None | _ \<Rightarrow> raise_act e)
       | Inr output \<Rightarrow>
           (case actions_from_output (Some (registry_names (ce_registry env))) output of
              Inl e \<Rightarrow> if is_value_error e then ret_act None else raise_act e
            | Inr [] \<Rightarrow> ret_act None
            | Inr actions \<Rightarrow> ret_act (Some actions))))"

section \<open>Candidates of the actions\<close>

text \<open>
  Acceptance and its trace are observed best-effort effects: any exception of either is logged and
  dropped.
\<close>

definition record_memory_update_trace ::
  "curator_env \<Rightarrow> string \<Rightarrow> MemoryEntry \<Rightarrow> CandidateAction \<Rightarrow> string option \<Rightarrow> (tables, unit) act" where
  "record_memory_update_trace env cid x action source_trace_id =
     try_act
       (bind_act (record_memory_update (ce_trace_id env cid) (ce_trace_now env cid) (me_id x) (me_title x) (me_body x)
          (me_type x) (action_str action) (me_confidence x) source_trace_id [] []) (\<lambda>_. ret_act ()))
       (\<lambda>_. ret_act ())"

definition auto_accept :: "curator_env \<Rightarrow> MemoryCandidate \<Rightarrow> string option \<Rightarrow> (tables, unit) act" where
  "auto_accept env c source_trace_id =
     (if \<not> ce_auto_accept env then ret_act ()
      else bind_act
        (try_act
           (bind_act (accept_candidate (ce_registry env) (ce_uuid5 env) (ce_accept_clock env (mc_id c))
              (ce_entry_id env (mc_id c)) True (mc_id c)) (\<lambda>x. ret_act (Some x)))
           (\<lambda>_. ret_act None)) (\<lambda>result.
        case result of
          Some (EntryTarget x) \<Rightarrow>
            (if me_review_state x \<noteq> MQuarantined
             then record_memory_update_trace env (mc_id c) x (mc_action c) source_trace_id else ret_act ())
        | _ \<Rightarrow> ret_act ()))"

text \<open>
  The candidate that an earlier, interrupted run staged for this action; a pending one is accepted
  again.
\<close>

definition staged_candidate ::
  "curator_env \<Rightarrow> string \<Rightarrow> string \<Rightarrow> string option \<Rightarrow> (tables, MemoryCandidate option) act" where
  "staged_candidate env cid source_ref source_trace_id =
     bind_act
       (try_act (bind_act (get_candidate cid) (\<lambda>c. ret_act (Some c)))
          (\<lambda>e. case e of MemoryCandidateNotFound i \<Rightarrow> ret_act None | _ \<Rightarrow> raise_act e)) (\<lambda>found.
     case found of
       None \<Rightarrow> ret_act None
     | Some c \<Rightarrow>
         bind_act (lift_act (\<lambda>_. raise_if (mc_source_refs c \<noteq> [source_ref])
                      (ValueError ''curator plan candidate source identity mismatch''))) (\<lambda>_.
         bind_act (if mc_review_state c = CrPending then auto_accept env c source_trace_id else ret_act ()) (\<lambda>_.
           ret_act (Some c))))"

definition curator_evidence :: "curator_env \<Rightarrow> string \<Rightarrow> MemoryAction \<Rightarrow> string \<Rightarrow> string \<Rightarrow> MemoryEvidence" where
  "curator_evidence env cid a source_ref observed_at =
     \<lparr>ev_source_type = EvObservation, ev_source_ref = source_ref, ev_summary = ma_reason a,
      ev_observed_at = Some observed_at, ev_quote = '''', ev_created_at = ce_evidence_at env cid\<rparr>"

definition new_candidate :: "curator_env \<Rightarrow> string \<Rightarrow> MemoryAction \<Rightarrow> string \<Rightarrow> string \<Rightarrow> MemoryCandidate" where
  "new_candidate env cid a source_ref observed_at =
     \<lparr>mc_type = ma_type a, mc_title = ma_title a, mc_body = ma_body a, mc_action = CaCreate, mc_tags = ma_tags a,
      mc_source_refs = [source_ref], mc_confidence = ma_confidence a, mc_importance = Finite (1 / 2),
      mc_privacy = PlPrivate, mc_review_state = CrPending, mc_reason = ma_reason a, mc_id = cid,
      mc_created_at = ce_created env cid, mc_updated_at = ce_updated env cid, mc_reviewed_at = None,
      mc_target_entry_id = None, mc_observed_at = Some observed_at, mc_valid_from = None, mc_valid_until = None,
      mc_temporal_note = '''', mc_relations = [], mc_evidence = [curator_evidence env cid a source_ref observed_at]\<rparr>"

text \<open>A candidate that updates an existing entry keeps its type, privacy, times and relations.\<close>

definition revision_candidate ::
  "curator_env \<Rightarrow> string \<Rightarrow> MemoryAction \<Rightarrow> string \<Rightarrow> string \<Rightarrow> MemoryEntry \<Rightarrow> string \<Rightarrow> string \<Rightarrow> string list \<Rightarrow> MemoryCandidate" where
  "revision_candidate env cid a source_ref observed_at x title body tags =
     \<lparr>mc_type = me_type x, mc_title = title, mc_body = body, mc_action = CaUpdate, mc_tags = tags,
      mc_source_refs = [source_ref], mc_confidence = ma_confidence a, mc_importance = Finite (1 / 2),
      mc_privacy = me_privacy x, mc_review_state = CrPending, mc_reason = ma_reason a, mc_id = cid,
      mc_created_at = ce_created env cid, mc_updated_at = ce_updated env cid, mc_reviewed_at = None,
      mc_target_entry_id = Some (me_id x), mc_observed_at = or_else (me_observed_at x) (Some observed_at),
      mc_valid_from = me_valid_from x, mc_valid_until = me_valid_until x, mc_temporal_note = me_temporal_note x,
      mc_relations = me_relations x, mc_evidence = [curator_evidence env cid a source_ref observed_at]\<rparr>"

definition stage_candidate :: "curator_env \<Rightarrow> MemoryCandidate \<Rightarrow> string option \<Rightarrow> (tables, unit) act" where
  "stage_candidate env c source_trace_id =
     bind_act (save_candidate c) (\<lambda>_. auto_accept env c source_trace_id)"

definition incoming_object :: "curator_env \<Rightarrow> MemoryAction \<Rightarrow> MemoryObject result" where
  "incoming_object env a =
     make_object \<lparr>mo_type = ma_type a,
       mo_payload = [(''title'', PStr (ma_title a)), (''body'', PStr (ma_body a)), (''tags'', strs_obj (ma_tags a))],
       mo_metadata = [], mo_confidence = ma_confidence a, mo_importance = Finite 1, mo_source_refs = [],
       mo_review_state = MDraft, mo_privacy = PlPrivate, mo_id = ce_object_id env, mo_created_at = ce_object_now env,
       mo_updated_at = ce_object_now env\<rparr>"

fun find_conflict :: "type_registry \<Rightarrow> MemoryObject \<Rightarrow> MemoryEntry list \<Rightarrow> (MemoryEntry \<times> MemoryObject) option result" where
  "find_conflict reg incoming [] = Inr None"
| "find_conflict reg incoming (x # xs) =
     bindE (entry_to_object x) (\<lambda>m.
       if registry_conflicts reg m incoming
       then bindE (registry_merge reg m incoming) (\<lambda>merged. Inr (Some (x, merged)))
       else find_conflict reg incoming xs)"

text \<open>
  A field of the merged payload. Title and body come from the action, so they are strings; the tags
  are frozen by the candidate, which refuses anything but strings.
\<close>

definition merged_string :: "MemoryObject \<Rightarrow> string \<Rightarrow> string \<Rightarrow> string" where
  "merged_string m key usual = (case get_or (mo_payload m) key (PStr usual) of PStr s \<Rightarrow> s | _ \<Rightarrow> usual)"

definition merged_tags :: "MemoryObject \<Rightarrow> string list \<Rightarrow> string list result" where
  "merged_tags m usual =
     (case seq_items (get_or (mo_payload m) ''tags'' (strs_obj usual)) of
        None \<Rightarrow> Inl (TypeError ''tags must be a sequence of strings'')
      | Some vs \<Rightarrow> (case str_list vs of None \<Rightarrow> Inl (TypeError ''tags must be a sequence of strings'') | Some ss \<Rightarrow> Inr ss))"

definition create_candidate ::
  "curator_env \<Rightarrow> MemoryAction \<Rightarrow> string \<Rightarrow> string \<Rightarrow> string \<Rightarrow> string option \<Rightarrow> (tables, MemoryActionType) act" where
  "create_candidate env a source_ref cid observed_at source_trace_id =
     bind_act (staged_candidate env cid source_ref source_trace_id) (\<lambda>staged. case staged of
       Some c \<Rightarrow> ret_act (if mc_action c \<in> {CaUpdate, CaMerge} then ActUpdate else ActCreate)
     | None \<Rightarrow>
         bind_act (lift_act (\<lambda>_. incoming_object env a)) (\<lambda>incoming.
         bind_act list_memory (\<lambda>xs.
         bind_act (lift_act (\<lambda>_. find_conflict (ce_registry env) incoming (py_take (ce_existing_limit env) xs))) (\<lambda>found.
         case found of
           Some (x, merged) \<Rightarrow>
             bind_act (lift_act (\<lambda>_. merged_tags merged (me_tags x))) (\<lambda>tags.
             bind_act (stage_candidate env (revision_candidate env cid a source_ref observed_at x
                 (merged_string merged ''title'' (ma_title a)) (merged_string merged ''body'' (ma_body a)) tags)
                 source_trace_id) (\<lambda>_. ret_act ActUpdate))
         | None \<Rightarrow>
             bind_act (stage_candidate env (new_candidate env cid a source_ref observed_at) source_trace_id) (\<lambda>_.
               ret_act ActCreate)))))"

definition update_candidate ::
  "curator_env \<Rightarrow> MemoryAction \<Rightarrow> string \<Rightarrow> string \<Rightarrow> string \<Rightarrow> string option \<Rightarrow> (tables, bool) act" where
  "update_candidate env a source_ref cid observed_at source_trace_id =
     bind_act (staged_candidate env cid source_ref source_trace_id) (\<lambda>staged. case staged of
       Some c \<Rightarrow> ret_act True
     | None \<Rightarrow>
         (case ma_entry_id a of
            None \<Rightarrow> ret_act False
          | Some i \<Rightarrow>
              bind_act
                (try_act (bind_act (get_memory i) (\<lambda>x. ret_act (Some x)))
                   (\<lambda>e. case e of MemoryEntryNotFound j \<Rightarrow> ret_act None | _ \<Rightarrow> raise_act e)) (\<lambda>found.
              case found of
                None \<Rightarrow> ret_act False
              | Some x \<Rightarrow>
                  bind_act (stage_candidate env (revision_candidate env cid a source_ref observed_at x
                      (if ma_title a = '''' then me_title x else ma_title a)
                      (if ma_body a = '''' then me_body x else ma_body a) (ma_tags a)) source_trace_id) (\<lambda>_.
                    ret_act True))))"

section \<open>One run\<close>

definition count_outcome :: "MemoryActionType \<Rightarrow> MemoryCuratorResult \<Rightarrow> MemoryCuratorResult" where
  "count_outcome outcome r =
     (case outcome of
        ActCreate \<Rightarrow> r\<lparr>cr_created := cr_created r + 1\<rparr>
      | ActUpdate \<Rightarrow> r\<lparr>cr_updated := cr_updated r + 1\<rparr>
      | ActIgnore \<Rightarrow> r\<lparr>cr_ignored := cr_ignored r + 1\<rparr>)"

definition run_action ::
  "curator_env \<Rightarrow> MemoryCuratorPlan \<Rightarrow> string option \<Rightarrow> nat \<Rightarrow> MemoryAction \<Rightarrow> (tables, MemoryActionType) act" where
  "run_action env p source_trace_id index a =
     bind_act (lift_act (\<lambda>_. plan_candidate_id (ce_uuid5 env) p (int index))) (\<lambda>cid.
       case ma_action a of
         ActCreate \<Rightarrow> create_candidate env a (cp_source_ref p) cid (cp_observed_at p) source_trace_id
       | ActUpdate \<Rightarrow>
           bind_act (update_candidate env a (cp_source_ref p) cid (cp_observed_at p) source_trace_id) (\<lambda>b.
             ret_act (if b then ActUpdate else ActIgnore))
       | ActIgnore \<Rightarrow> ret_act ActIgnore)"

fun run_actions ::
  "curator_env \<Rightarrow> MemoryCuratorPlan \<Rightarrow> string option \<Rightarrow> nat \<Rightarrow> MemoryAction list \<Rightarrow> MemoryCuratorResult
   \<Rightarrow> (tables, MemoryCuratorResult) act" where
  "run_actions env p source_trace_id index [] r = ret_act r"
| "run_actions env p source_trace_id index (a # rest) r =
     bind_act (run_action env p source_trace_id index a) (\<lambda>outcome.
       run_actions env p source_trace_id (Suc index) rest (count_outcome outcome r))"

definition finish_plan ::
  "curator_env \<Rightarrow> string \<Rightarrow> MemoryObservation \<Rightarrow> MemoryCuratorPlan \<Rightarrow> (tables, MemoryCuratorResult) act" where
  "finish_plan env i x p =
     bind_act (run_actions env p (ob_source_trace_id x) 0 (cp_actions p) nothing_done) (\<lambda>r.
     bind_act (mark_processed i) (\<lambda>_.
     bind_act (complete_plan i) (\<lambda>_.
       ret_act (r\<lparr>cr_processed := length (ob_fragments x)\<rparr>))))"

definition run_once_locked :: "curator_env \<Rightarrow> string \<Rightarrow> (tables, MemoryCuratorResult) act" where
  "run_once_locked env i =
     bind_act (get_observation i) (\<lambda>x.
       if ob_status x = ObsProcessed then ret_act nothing_done
       else bind_act (get_plan (ce_registry env) (ce_validate env) i) (\<lambda>stored. case stored of
         Some p \<Rightarrow> finish_plan env i x p
       | None \<Rightarrow>
           if \<not> has_memory_worthy_signal (ob_fragments x) (ce_min_quality_chars env)
           then bind_act (mark_processed i) (\<lambda>_. ret_act nothing_done)
           else bind_act (decide_actions env x) (\<lambda>decision. case decision of
             None \<Rightarrow> ret_act nothing_done
           | Some actions \<Rightarrow>
               bind_act (save_plan \<lparr>cp_observation_id = i, cp_source_ref = ob_source_ref x,
                 cp_observed_at = ob_observed_at x, cp_actions = actions\<rparr>) (\<lambda>p. finish_plan env i x p))))"

definition curator_run_once :: "curator_env \<Rightarrow> string \<Rightarrow> (tables, MemoryCuratorResult) act" where
  "curator_run_once env i =
     try_act (plan_exclusive (ce_lock env) i (run_once_locked env i))
       (\<lambda>e. if e = MemoryCuratorPlanLockContended then ret_act nothing_done else raise_act e)"

section \<open>What a run leaves alone\<close>

lemma always_try:
  assumes "always P m Q" and "\<And>e. always P (h e) Q"
  shows "always P (try_act m h) Q"
proof (rule alwaysI)
  fix s r t
  assume s: "P s" "try_act m h s = (r, t)"
  obtain r' u where m: "m s = (r', u)" by (cases "m s")
  show "P t \<and> (\<forall>x. r = Inr x \<longrightarrow> Q x)"
  proof (cases r')
    case (Inl e)
    with s m have "h e u = (r, t)" by (simp add: try_act_def)
    with assms(2) [of e] alwaysD [OF assms(1) s(1)] m show ?thesis unfolding always_def by (metis fst_conv snd_conv)
  next
    case (Inr x)
    with s m assms(1) show ?thesis unfolding always_def try_act_def by auto
  qed
qed

lemma always_True: "always P m Q \<Longrightarrow> always P m (\<lambda>_. True)"
  by (auto simp: always_def)

text \<open>The tables an acceptance writes; every other table is left as it is.\<close>

definition foreign :: "string \<Rightarrow> bool" where
  "foreign c \<longleftrightarrow> c \<notin> {''memory_entries'', ''memory_candidates'', ''profile_items''}"

lemmas act_frame = always_bind [where Q = "\<lambda>_. True"] always_ret always_raise always_lift always_atomic always_if
  always_try tab_frame repo_frame TrueI

lemma frame_rows:
  assumes "foreign c"
  shows frame_put_memory: "always (\<lambda>t. t c = v) (put_memory x) (\<lambda>_. True)"
    and frame_get_memory: "always (\<lambda>t. t c = v) (get_memory i) (\<lambda>_. True)"
    and frame_list_memory: "always (\<lambda>t. t c = v) list_memory (\<lambda>_. True)"
    and frame_list_profile: "always (\<lambda>t. t c = v) list_profile (\<lambda>_. True)"
    and frame_get_profile: "always (\<lambda>t. t c = v) (get_profile i) (\<lambda>_. True)"
    and frame_save_profile: "always (\<lambda>t. t c = v) (save_profile p) (\<lambda>_. True)"
    and frame_get_candidate: "always (\<lambda>t. t c = v) (get_candidate i) (\<lambda>_. True)"
    and frame_save_candidate: "always (\<lambda>t. t c = v) (save_candidate d) (\<lambda>_. True)"
  using assms
  by (auto simp: put_memory_def get_memory_def list_memory_def list_profile_def get_profile_def save_profile_def
      get_candidate_def save_candidate_def foreign_def intro!: act_frame)

lemma frame_deletes:
  assumes "foreign c"
  shows frame_delete_memory: "always (\<lambda>t. t c = v) (delete_memory i) (\<lambda>_. True)"
    and frame_delete_profile: "always (\<lambda>t. t c = v) (delete_profile i) (\<lambda>_. True)"
  using assms
  by (auto simp: delete_memory_def delete_profile_def foreign_def intro!: act_frame split: option.splits)

lemma frame_save_memory:
  assumes "foreign c"
  shows "always (\<lambda>t. t c = v) (save_memory reg now x) (\<lambda>_. True)"
  by (auto simp: save_memory_def intro!: act_frame frame_put_memory [OF assms])

lemma frame_save_target:
  assumes "foreign c"
  shows "always (\<lambda>t. t c = v) (save_new_target reg now x) (\<lambda>_. True)"
  by (cases x) (auto simp: to_entry_target_def to_profile_target_def intro!: act_frame frame_save_memory [OF assms] frame_save_profile [OF assms])

lemma frame_promote:
  assumes "foreign c"
  shows "always (\<lambda>t. t c = v) (promote_target reg clock reviewed x) (\<lambda>_. True)"
  by (cases x) (auto simp: to_entry_target_def intro!: act_frame frame_save_memory [OF assms])

lemma frame_merge_profile:
  assumes "foreign c"
  shows "always (\<lambda>t. t c = v) (merge_profile now d i) (\<lambda>_. True)"
  by (auto simp: merge_profile_def intro!: act_frame frame_get_profile [OF assms] frame_save_profile [OF assms])

lemma frame_merge:
  assumes "foreign c"
  shows "always (\<lambda>t. t c = v) (merge_accepted reg clock reviewed d j) (\<lambda>_. True)"
  by (auto simp: merge_accepted_def merge_target_def to_profile_target_def
      intro!: act_frame frame_get_candidate [OF assms] frame_get_memory [OF assms] frame_save_memory [OF assms] frame_promote [OF assms] frame_save_candidate [OF assms] frame_merge_profile [OF assms])

lemma frame_delete_accepted:
  assumes "foreign c"
  shows "always (\<lambda>t. t c = v) (delete_accepted clock d i) (\<lambda>_. True)"
  by (auto simp: delete_accepted_def get_target_def delete_target_def Let_def to_profile_target_def to_entry_target_def
      intro!: act_frame frame_get_profile [OF assms] frame_get_memory [OF assms] frame_delete_profile [OF assms] frame_delete_memory [OF assms] frame_save_candidate [OF assms])

lemma frame_accept:
  assumes "foreign c"
  shows "always (\<lambda>t. t c = v) (accept_candidate reg uuid5 clock fresh_id reviewed i) (\<lambda>_. True)"
  unfolding accept_candidate_def rechecked_candidate_def checked_candidate_def accept_transaction_def
  by (auto simp: check_pending_def create_accepted_def
      intro!: act_frame frame_get_candidate [OF assms] frame_merge [OF assms] frame_delete_accepted [OF assms] frame_save_target [OF assms] frame_promote [OF assms] frame_save_candidate [OF assms]
      split: CandidateAction.splits option.splits)

section \<open>Reviewed candidates stay as they are\<close>

text \<open>
  An operation that leaves the three memory tables alone keeps what they hold; so does one that only
  writes foreign tables.
\<close>

definition keeps :: "string \<Rightarrow> MemoryCandidate \<Rightarrow> tables \<Rightarrow> bool" where
  "keeps j c t \<longleftrightarrow> memory_stored t \<and> candidate_view t j = Some c"

lemma keeps_cong:
  assumes "foreign name" and "\<forall>d. d \<noteq> name \<longrightarrow> t' d = t d" and "keeps j c t"
  shows "keeps j c t'"
proof -
  have "t' d = t d" if "d \<in> {''memory_entries'', ''memory_candidates'', ''profile_items''}" for d
    using that assms(1,2) by (auto simp: foreign_def)
  from memory_cong [of t' t, OF this] show ?thesis using assms(3) by (simp add: keeps_def memory_view_def)
qed

lemma keeps_foreign:
  assumes "foreign name"
  shows "always (keeps j c) (tab_put name key w) (\<lambda>_. True)"
    and "always (keeps j c) (tab_delete name key) (\<lambda>_. True)"
proof -
  show "always (keeps j c) (tab_put name key w) (\<lambda>_. True)"
  proof (rule alwaysI)
    fix s r t
    assume s: "keeps j c s" "tab_put name key w s = (r, t)"
    then have "\<forall>d. d \<noteq> name \<longrightarrow> t d = s d" by (auto simp: tab_put_def split: sum.splits)
    then show "keeps j c t \<and> (\<forall>x. r = Inr x \<longrightarrow> True)" using keeps_cong [OF assms] s(1) by blast
  qed
  show "always (keeps j c) (tab_delete name key) (\<lambda>_. True)"
  proof (rule alwaysI)
    fix s r t
    assume s: "keeps j c s" "tab_delete name key s = (r, t)"
    then have "\<forall>d. d \<noteq> name \<longrightarrow> t d = s d" by (auto simp: tab_delete_def)
    then show "keeps j c t \<and> (\<forall>x. r = Inr x \<longrightarrow> True)" using keeps_cong [OF assms] s(1) by blast
  qed
qed

lemma keeps_reads:
  "always P (tab_get name key) (\<lambda>_. True)"
  "always P (tab_list name) (\<lambda>_. True)"
  "always P (tab_find name filters) (\<lambda>_. True)"
  by (simp_all add: always_def tab_get_def tab_list_def tab_find_def)

lemma always_repo:
  "always P (repo_get (tab_get name key) from_wire missing) (\<lambda>_. True)"
  "always P (repo_list (tab_list name) from_wire keep) (\<lambda>_. True)"
  by (auto simp: repo_get_def repo_list_def intro!: always_bind [OF keeps_reads(1)] always_bind [OF keeps_reads(2)]
      always_intros always_lift split: option.splits)

lemmas act_always = always_bind [where Q = "\<lambda>_. True"] always_ret always_raise always_lift always_atomic always_if
  always_try keeps_reads always_repo TrueI

text \<open>A candidate either is written as a valid record, or its float is refused by the store and nothing is written.\<close>

lemma freeze_fields_member: "freeze_fields d = Inr f \<Longrightarrow> (key, v) \<in> set d \<Longrightarrow> \<exists>w. freeze v = Inr w"
  by (induction d arbitrary: f) (auto simp: result_simps)

lemma save_candidate_cases:
  assumes "memory_stored t" and "mc_id d \<noteq> ''''" and "finite_value (mc_importance d)"
  obtains (refused) e where "save_candidate d t = (Inl e, t)"
  | (saved) t' where "memory_candidate_valid d" "save_candidate d t = (Inr d, t')" "memory_stored t'"
      "memory_view t' = (entry_view t, profile_view t, (candidate_view t)(mc_id d \<mapsto> d))"
proof (cases "finite_value (mc_confidence d)")
  case True
  with assms have "memory_candidate_valid d" by (simp add: memory_candidate_valid_def)
  with save_candidate_run [OF assms(1)] saved show ?thesis by metis
next
  case False
  have "(''confidence'', PFloat (mc_confidence d)) \<in> set (memory_candidate_to_wire d)"
    by (simp add: memory_candidate_to_wire_def)
  moreover have "\<nexists>w. freeze (PFloat (mc_confidence d)) = Inr w"
    using False by (auto simp: finite_value_def split: pyfloat.splits)
  ultimately have "\<nexists>f. freeze_fields (memory_candidate_to_wire d) = Inr f" by (metis freeze_fields_member)
  then obtain e where "freeze_fields (memory_candidate_to_wire d) = Inl e" by (metis sum.exhaust)
  then have "\<exists>e. coll_put (mc_id d) (memory_candidate_to_wire d) (t ''memory_candidates'') = Inl e"
    by (cases "raise_if (dict_get (memory_candidate_to_wire d) ''id'' \<noteq> PNone \<and> dict_get (memory_candidate_to_wire d) ''id'' \<noteq> PStr (mc_id d))
              (ValueError ''storage record id must be a string matching its key'')") (auto simp: coll_put_def)
  then show ?thesis using refused by (auto simp: save_candidate_def bind_act_def tab_put_def)
qed

lemma keeps_save:
  assumes "mc_id d \<noteq> ''''" and "finite_value (mc_importance d)" and "mc_id d \<noteq> j"
  shows "always (keeps j c) (save_candidate d) (\<lambda>_. True)"
proof (rule alwaysI)
  fix s r t
  assume s: "keeps j c s" "save_candidate d s = (r, t)"
  then have m: "memory_stored s" by (simp add: keeps_def)
  from m assms(1,2) show "keeps j c t \<and> (\<forall>x. r = Inr x \<longrightarrow> True)"
    by (cases rule: save_candidate_cases) (use s assms(3) in \<open>auto simp: keeps_def memory_view_def\<close>)
qed

text \<open>Acceptance settles the candidate it is called for and no other one.\<close>

lemma accepted_as_marked:
  assumes "accepted_as reg uuid5 clock fresh_id d x m m'"
  shows "\<exists>i. snd (snd m') = (snd (snd m))(mc_id d \<mapsto> mark_accepted clock d i)"
proof -
  have settle: "snd (snd (settle (mark_accepted clock d i) m0)) = (snd (snd m0))(mc_id d \<mapsto> mark_accepted clock d i)" for i m0
    by (cases m0) (simp add: mark_accepted_def candidate_with_updates_def)
  have put: "snd (snd (put_target z m)) = snd (snd m)" for z by (cases m; cases z) simp_all
  have remove: "snd (snd (remove_target z m)) = snd (snd m)" for z by (cases m; cases z) simp_all
  show ?thesis using assms by (cases "mc_action d") (auto simp: accepted_as_def accepted_by_def settle put remove)
qed

lemma keeps_accept:
  assumes "mc_review_state c \<noteq> CrPending" and "fresh_id \<noteq> ''''"
  shows "always (keeps j c) (accept_candidate reg uuid5 clock fresh_id reviewed i) (\<lambda>_. True)"
proof (rule alwaysI)
  fix s r t
  assume s: "keeps j c s" and run: "accept_candidate reg uuid5 clock fresh_id reviewed i s = (r, t)"
  show "keeps j c t \<and> (\<forall>x. r = Inr x \<longrightarrow> True)"
  proof (cases r)
    case (Inl e)
    with accept_candidate_atomic run s show ?thesis by blast
  next
    case (Inr x)
    have m: "memory_stored s" using s by (simp add: keeps_def)
    obtain d where d: "candidate_view s i = Some d" "mc_review_state d = CrPending" "memory_stored t"
      "accepted_as reg uuid5 clock fresh_id d x (memory_view s) (memory_view t)"
      using accept_outcome [OF m assms(2)] run Inr by blast
    obtain k where "candidate_view t = (candidate_view s)(mc_id d \<mapsto> mark_accepted clock d k)"
      using accepted_as_marked [OF d(4)] by (auto simp: memory_view_def)
    moreover have "mc_id d = i" using candidate_view_valid [OF m d(1)] by simp
    ultimately show ?thesis using s d assms(1) by (auto simp: keeps_def)
  qed
qed

lemma foreign_tables [simp]: "foreign ''trace_nodes''" "foreign ''memory_observations''" "foreign ''memory_curator_plans''"
  by (simp_all add: foreign_def)

lemma keeps_auto_accept:
  assumes "mc_review_state c \<noteq> CrPending" and "\<And>cid. ce_entry_id env cid \<noteq> ''''"
  shows "always (keeps j c) (auto_accept env d tr) (\<lambda>_. True)"
  unfolding auto_accept_def record_memory_update_trace_def record_memory_update_def record_trace_def save_trace_def
  by (auto intro!: act_always keeps_accept [OF assms(1) assms(2)] keeps_foreign split: option.splits MemoryTarget.splits)

lemma keeps_staged:
  assumes "mc_review_state c \<noteq> CrPending" and "\<And>cid. ce_entry_id env cid \<noteq> ''''"
  shows "always (keeps j c) (staged_candidate env cid source_ref tr) (\<lambda>r. cid = j \<longrightarrow> r \<noteq> None)"
proof (cases "cid = j")
  case True
  then have "snd (staged_candidate env cid source_ref tr s) = s \<and> fst (staged_candidate env cid source_ref tr s) \<noteq> Inr None"
    if "keeps j c s" for s
    using that assms(1) True
    by (simp add: staged_candidate_def keeps_def get_candidate_view try_act_def bind_act_def raise_if_def)
  then show ?thesis unfolding always_def by metis
next
  case False
  have "always (keeps j c) (staged_candidate env cid source_ref tr) (\<lambda>_. True)"
    unfolding staged_candidate_def get_candidate_def
    by (auto intro!: act_always keeps_auto_accept [OF assms] split: option.splits exn.splits)
  with False show ?thesis by (simp add: always_def)
qed

lemma keeps_stage:
  assumes "mc_review_state c \<noteq> CrPending" and "\<And>cid. ce_entry_id env cid \<noteq> ''''"
    and "mc_id d \<noteq> ''''" and "finite_value (mc_importance d)" and "mc_id d \<noteq> j"
  shows "always (keeps j c) (stage_candidate env d tr) (\<lambda>_. True)"
  unfolding stage_candidate_def
  by (intro act_always keeps_save [OF assms(3-5)] keeps_auto_accept [OF assms(1,2)])

lemma candidate_fields [simp]:
  "mc_id (new_candidate env cid a sr seen) = cid" "mc_importance (new_candidate env cid a sr seen) = Finite (1 / 2)"
  "mc_id (revision_candidate env cid a sr seen x title body tags) = cid"
  "mc_importance (revision_candidate env cid a sr seen x title body tags) = Finite (1 / 2)"
  "mc_source_refs (new_candidate env cid a sr seen) = [sr]"
  "mc_source_refs (revision_candidate env cid a sr seen x title body tags) = [sr]"
  by (simp_all add: new_candidate_def revision_candidate_def)

lemma keeps_create:
  assumes "mc_review_state c \<noteq> CrPending" and "\<And>cid. ce_entry_id env cid \<noteq> ''''" and "cid \<noteq> ''''"
  shows "always (keeps j c) (create_candidate env a sr cid seen tr) (\<lambda>_. True)"
  unfolding create_candidate_def list_memory_def
  by (rule always_bind [OF keeps_staged [OF assms(1,2)]])
    (use assms(3) in \<open>auto intro!: act_always keeps_stage [OF assms(1,2)] split: option.splits\<close>)

lemma keeps_update:
  assumes "mc_review_state c \<noteq> CrPending" and "\<And>cid. ce_entry_id env cid \<noteq> ''''" and "cid \<noteq> ''''"
  shows "always (keeps j c) (update_candidate env a sr cid seen tr) (\<lambda>_. True)"
  unfolding update_candidate_def get_memory_def
  by (rule always_bind [OF keeps_staged [OF assms(1,2)]])
    (use assms(3) in \<open>auto intro!: act_always keeps_stage [OF assms(1,2)] split: option.splits exn.splits\<close>)

lemma keeps_action:
  assumes "mc_review_state c \<noteq> CrPending" and "\<And>cid. ce_entry_id env cid \<noteq> ''''"
  shows "always (keeps j c) (run_action env p tr index a) (\<lambda>_. True)"
  unfolding run_action_def
proof (rule always_bind_lift)
  fix s cid
  assume "plan_candidate_id (ce_uuid5 env) p (int index) = Inr cid"
  then have "cid \<noteq> ''''" by (auto simp: plan_candidate_id_def result_simps)
  then show "always (keeps j c) (case ma_action a of
         ActCreate \<Rightarrow> create_candidate env a (cp_source_ref p) cid (cp_observed_at p) tr
       | ActUpdate \<Rightarrow>
           bind_act (update_candidate env a (cp_source_ref p) cid (cp_observed_at p) tr) (\<lambda>b.
             ret_act (if b then ActUpdate else ActIgnore))
       | ActIgnore \<Rightarrow> ret_act ActIgnore) (\<lambda>_. True)"
    by (auto intro!: act_always keeps_create [OF assms] keeps_update [OF assms] split: MemoryActionType.splits)
qed

lemma keeps_actions:
  assumes "mc_review_state c \<noteq> CrPending" and "\<And>cid. ce_entry_id env cid \<noteq> ''''"
  shows "always (keeps j c) (run_actions env p tr index actions r) (\<lambda>_. True)"
  by (induction actions arbitrary: index r) (auto intro!: act_always keeps_action [OF assms])

lemma keeps_finish:
  assumes "mc_review_state c \<noteq> CrPending" and "\<And>cid. ce_entry_id env cid \<noteq> ''''"
  shows "always (keeps j c) (finish_plan env i x p) (\<lambda>_. True)"
  unfolding finish_plan_def mark_processed_def complete_plan_def get_observation_def
  by (intro act_always keeps_actions [OF assms] keeps_foreign) simp_all

lemma always_with_lock: "always P m Q \<Longrightarrow> always P (with_lock a m) Q"
  by (auto simp: always_def with_lock_def split: prod.splits sum.splits)

lemma always_agent_error:
  assumes "always P m Q" and "always P n Q"
  shows "always P (case e of AgentError _ \<Rightarrow> m | _ \<Rightarrow> n) Q"
  using assms by (cases e) simp_all

lemma always_sum:
  "(\<And>e. always P (f e) Q) \<Longrightarrow> (\<And>x. always P (g x) Q) \<Longrightarrow> always P (case r of Inl e \<Rightarrow> f e | Inr x \<Rightarrow> g x) Q"
  by (cases r) simp_all

lemma always_list:
  "always P m Q \<Longrightarrow> (\<And>x xs. always P (f x xs) Q) \<Longrightarrow> always P (case ys of [] \<Rightarrow> m | x # xs \<Rightarrow> f x xs) Q"
  by (cases ys) simp_all

lemma always_contexts:
  "always P (existing_memory_context limit) (\<lambda>_. True)" "always P (existing_profile_context limit) (\<lambda>_. True)"
  unfolding existing_memory_context_def existing_profile_context_def list_memory_def list_profile_def
  by (intro act_always)+

lemma always_decide: "always P (decide_actions env x) (\<lambda>_. True)"
  unfolding decide_actions_def
  by (intro always_bind [OF always_contexts(1)] always_bind [OF always_contexts(2)] always_sum always_agent_error
      always_list always_if always_ret always_raise TrueI)

lemma always_get_plan: "always P (get_plan reg validate i) (\<lambda>_. True)"
  unfolding get_plan_def by (auto intro!: act_always split: option.splits)

lemma keeps_locked:
  assumes "mc_review_state c \<noteq> CrPending" and "\<And>cid. ce_entry_id env cid \<noteq> ''''"
  shows "always (keeps j c) (run_once_locked env i) (\<lambda>_. True)"
  unfolding run_once_locked_def get_observation_def mark_processed_def save_plan_def
  by (auto intro!: act_always always_bind [OF always_get_plan] always_bind [OF always_decide] keeps_finish [OF assms] keeps_foreign
      split: option.splits)

lemma keeps_curator_run_once:
  assumes "mc_review_state c \<noteq> CrPending" and "\<And>cid. ce_entry_id env cid \<noteq> ''''"
  shows "always (keeps j c) (curator_run_once env i) (\<lambda>_. True)"
  unfolding curator_run_once_def plan_exclusive_def
  by (intro always_try always_if always_raise always_ret always_with_lock keeps_locked [OF assms] TrueI)

text \<open>
  C12: A candidate that has been reviewed is final for the curator. Whatever run of it follows, for
  whatever observation, with whatever the language model answers, with a plan left behind by an
  interrupted run, and whether the run returns or raises, a candidate that was accepted or rejected
  stays exactly as it is.
\<close>

theorem reviewed_candidate_kept:
  assumes "memory_stored t" and "candidate_view t j = Some c" and "mc_review_state c \<noteq> CrPending"
    and "\<And>cid. ce_entry_id env cid \<noteq> ''''" and "curator_run_once env i t = (r, t')"
  shows "memory_stored t' \<and> candidate_view t' j = Some c"
  using alwaysD [OF keeps_curator_run_once [OF assms(3,4)], of j t i] assms(1,2,5) by (simp add: keeps_def)

definition accepted_sample :: MemoryCandidate where
  "accepted_sample = sample_memory_candidate\<lparr>mc_review_state := CrAccepted\<rparr>"

definition sample_curator_env :: curator_env where
  "sample_curator_env =
     \<lparr>ce_registry = sample_registry, ce_uuid5 = (\<lambda>s. s), ce_validate = declared_validate,
      ce_agent = (\<lambda>source_ref memories items fragments. Inr [item_of sample_action]), ce_min_quality_chars = 120,
      ce_existing_limit = 12, ce_auto_accept = True,
      ce_lock = \<lparr>lk_open = None, lk_flock = None, lk_unlock = None, lk_close = None\<rparr>, ce_object_id = ''mem_9'',
      ce_object_now = ''2'', ce_evidence_at = (\<lambda>_. ''2''), ce_created = (\<lambda>_. ''2''), ce_updated = (\<lambda>_. ''2''),
      ce_accept_clock = (\<lambda>_ _. ''3''), ce_entry_id = (\<lambda>cid. ''mem_'' @ cid), ce_trace_id = (\<lambda>cid. ''trace_'' @ cid),
      ce_trace_now = (\<lambda>_. ''3'')\<rparr>"

lemma memory_stored_none: "memory_stored (\<lambda>_. [])"
  by (simp add: memory_stored_def)

lemma reviewed_candidate_kept_witness:
  "\<exists>t. candidate_view t ''c1'' = Some accepted_sample
     \<and> candidate_view (snd (curator_run_once sample_curator_env ''obs_1'' t)) ''c1'' = Some accepted_sample"
proof -
  have v: "memory_candidate_valid accepted_sample" "mc_id accepted_sample = ''c1''" "mc_review_state accepted_sample \<noteq> CrPending"
    by (simp_all add: accepted_sample_def sample_memory_candidate_def memory_candidate_valid_def)
  obtain t where t: "memory_stored t" "memory_view t = (entry_view (\<lambda>_. []), profile_view (\<lambda>_. []),
      (candidate_view (\<lambda>_. []))(mc_id accepted_sample \<mapsto> accepted_sample))"
    by (rule save_candidate_run [OF memory_stored_none v(1)])
  then have j: "candidate_view t ''c1'' = Some accepted_sample" by (simp add: memory_view_def v(2))
  obtain r u where run: "curator_run_once sample_curator_env ''obs_1'' t = (r, u)" by fastforce
  have "candidate_view u ''c1'' = Some accepted_sample"
    by (rule conjunct2 [OF reviewed_candidate_kept [OF t(1) j v(3) _ run]]) (simp add: sample_curator_env_def)
  with j run show ?thesis by (intro exI [of _ t]) simp
qed

section \<open>An interrupted run is resumed where it stopped\<close>

text \<open>
  An action is settled when it is to be ignored, or when the candidate with its identifier is this
  plan's and has been reviewed. \<open>settled_outcome\<close> is what a run counts for it.
\<close>

definition action_cid :: "(string \<Rightarrow> string) \<Rightarrow> MemoryCuratorPlan \<Rightarrow> nat \<Rightarrow> string" where
  "action_cid uuid5 p k = ''cand_'' @ uuid5 (cp_source_ref p @ '':'' @ dec_int (int k))"

definition action_settled :: "(string \<Rightarrow> string) \<Rightarrow> MemoryCuratorPlan \<Rightarrow> tables \<Rightarrow> nat \<Rightarrow> bool" where
  "action_settled uuid5 p t k \<longleftrightarrow> ma_action (cp_actions p ! k) = ActIgnore
     \<or> (\<exists>c. candidate_view t (action_cid uuid5 p k) = Some c \<and> mc_source_refs c = [cp_source_ref p]
          \<and> mc_review_state c \<noteq> CrPending)"

definition settled_outcome :: "(string \<Rightarrow> string) \<Rightarrow> MemoryCuratorPlan \<Rightarrow> tables \<Rightarrow> nat \<Rightarrow> MemoryActionType" where
  "settled_outcome uuid5 p t k =
     (case ma_action (cp_actions p ! k) of
        ActCreate \<Rightarrow>
          (case candidate_view t (action_cid uuid5 p k) of
             Some c \<Rightarrow> if mc_action c \<in> {CaUpdate, CaMerge} then ActUpdate else ActCreate
           | None \<Rightarrow> ActCreate)
      | outcome \<Rightarrow> outcome)"

lemma plan_cid: "k < length (cp_actions p) \<Longrightarrow> plan_candidate_id uuid5 p (int k) = Inr (action_cid uuid5 p k)"
  by (simp add: plan_candidate_id_def action_cid_def)

lemma run_action_settled:
  assumes "memory_stored t" and "k < length (cp_actions p)" and "action_settled (ce_uuid5 env) p t k"
  shows "run_action env p tr k (cp_actions p ! k) t = (Inr (settled_outcome (ce_uuid5 env) p t k), t)"
proof (cases "ma_action (cp_actions p ! k) = ActIgnore")
  case True
  with assms(2) show ?thesis by (simp add: run_action_def bind_act_def plan_cid settled_outcome_def)
next
  case False
  with assms(3) obtain c where c: "candidate_view t (action_cid (ce_uuid5 env) p k) = Some c"
    "mc_source_refs c = [cp_source_ref p]" "mc_review_state c \<noteq> CrPending" by (auto simp: action_settled_def)
  have "staged_candidate env (action_cid (ce_uuid5 env) p k) (cp_source_ref p) tr t = (Inr (Some c), t)"
    using c assms(1) by (simp add: staged_candidate_def get_candidate_view try_act_def bind_act_def)
  with False c(1) assms(2) show ?thesis
    by (cases "ma_action (cp_actions p ! k)")
      (simp_all add: run_action_def bind_act_def plan_cid settled_outcome_def create_candidate_def update_candidate_def)
qed

lemma run_actions_skip:
  assumes "memory_stored t" and "k + d \<le> length (cp_actions p)"
    and "\<And>n. k \<le> n \<Longrightarrow> n < k + d \<Longrightarrow> action_settled (ce_uuid5 env) p t n"
  shows "run_actions env p tr k (drop k (cp_actions p)) r t =
    run_actions env p tr (k + d) (drop (k + d) (cp_actions p))
      (fold count_outcome (map (settled_outcome (ce_uuid5 env) p t) [k ..< k + d]) r) t"
  using assms(2,3)
proof (induction d arbitrary: k r)
  case 0
  then show ?case by simp
next
  case (Suc d)
  have k: "k < length (cp_actions p)" using Suc.prems(1) by simp
  then have "drop k (cp_actions p) = (cp_actions p ! k) # drop (Suc k) (cp_actions p)" by (rule Cons_nth_drop_Suc [symmetric])
  then have "run_actions env p tr k (drop k (cp_actions p)) r t =
    run_actions env p tr (Suc k) (drop (Suc k) (cp_actions p)) (count_outcome (settled_outcome (ce_uuid5 env) p t k) r) t"
    using run_action_settled [OF assms(1) k, of env tr] Suc.prems(2) [of k] by (simp add: bind_act_def)
  also have "\<dots> = run_actions env p tr (Suc k + d) (drop (Suc k + d) (cp_actions p))
      (fold count_outcome (map (settled_outcome (ce_uuid5 env) p t) [Suc k ..< Suc k + d])
        (count_outcome (settled_outcome (ce_uuid5 env) p t k) r)) t"
    by (rule Suc.IH) (use Suc.prems in auto)
  also have "fold count_outcome (map (settled_outcome (ce_uuid5 env) p t) [Suc k ..< Suc k + d])
      (count_outcome (settled_outcome (ce_uuid5 env) p t k) r) =
    fold count_outcome (map (settled_outcome (ce_uuid5 env) p t) [k ..< k + Suc d]) r"
    by (simp add: upt_conv_Cons del: upt_Suc)
  finally show ?case by simp
qed

text \<open>What a run does from action \<open>k\<close> on.\<close>

definition resume_plan ::
  "curator_env \<Rightarrow> string \<Rightarrow> MemoryObservation \<Rightarrow> MemoryCuratorPlan \<Rightarrow> nat \<Rightarrow> MemoryCuratorResult \<Rightarrow> (tables, MemoryCuratorResult) act" where
  "resume_plan env i x p k r =
     bind_act (run_actions env p (ob_source_trace_id x) k (drop k (cp_actions p)) r) (\<lambda>r.
     bind_act (mark_processed i) (\<lambda>_.
     bind_act (complete_plan i) (\<lambda>_.
       ret_act (r\<lparr>cr_processed := length (ob_fragments x)\<rparr>))))"

text \<open>
  C10: An interrupted run is resumed where it stopped. When the plan of a pending observation is stored
  and its first \<open>k\<close> actions are settled, the next run performs exactly the actions from \<open>k\<close> on, in the
  same order and under the same candidate identifiers, counting the settled ones as they were, and then
  completes the plan; the language model is not asked again, and no settled action is repeated.
\<close>

theorem curator_resumes:
  assumes "memory_stored t" and "observations_stored t" and "observation_view t i = Some x" and "ob_status x = ObsPending"
    and "get_plan (ce_registry env) (ce_validate env) i t = (Inr (Some p), t)" and "k \<le> length (cp_actions p)"
    and "\<And>n. n < k \<Longrightarrow> action_settled (ce_uuid5 env) p t n"
  shows "run_once_locked env i t =
    resume_plan env i x p k (fold count_outcome (map (settled_outcome (ce_uuid5 env) p t) [0 ..< k]) nothing_done) t"
proof -
  have "run_once_locked env i t = finish_plan env i x p t"
    using assms(2-5) by (simp add: run_once_locked_def bind_act_def get_observation_view)
  moreover have "finish_plan env i x p t = resume_plan env i x p 0 nothing_done t"
    by (simp add: finish_plan_def resume_plan_def)
  moreover have "run_actions env p (ob_source_trace_id x) 0 (drop 0 (cp_actions p)) nothing_done t =
    run_actions env p (ob_source_trace_id x) k (drop k (cp_actions p))
      (fold count_outcome (map (settled_outcome (ce_uuid5 env) p t) [0 ..< k]) nothing_done) t"
    using run_actions_skip [OF assms(1), of 0 k p env] assms(6,7) by simp
  ultimately show ?thesis by (simp add: resume_plan_def bind_act_def)
qed

definition ignored_action :: MemoryAction where
  "ignored_action =
     \<lparr>ma_action = ActIgnore, ma_title = '''', ma_body = '''', ma_type = ''goal'', ma_tags = [], ma_entry_id = None,
      ma_confidence = Finite 1, ma_reason = ''small talk''\<rparr>"

definition sample_plan :: MemoryCuratorPlan where
  "sample_plan =
     \<lparr>cp_observation_id = ''obs_1'', cp_source_ref = ''chat:1'', cp_observed_at = ''1'',
      cp_actions = [ignored_action, sample_action]\<rparr>"

definition resuming_env :: curator_env where
  "resuming_env = sample_curator_env"

lemma sample_plan_stored:
  obtains t where "memory_stored t" "observations_stored t" "observation_view t ''obs_1'' = Some sample_observation"
    "get_plan (ce_registry resuming_env) (ce_validate resuming_env) ''obs_1'' t = (Inr (Some sample_plan), t)"
    "t ''memory_entries'' = []" "t ''memory_candidates'' = []"
proof -
  have o: "observations_stored (\<lambda>_. [])" by (simp add: observations_stored_def)
  obtain u where u: "observations_stored u"
    "observation_view u = (observation_view (\<lambda>_. []))(ob_id sample_observation \<mapsto> sample_observation)"
    "\<And>c. c \<noteq> ''memory_observations'' \<Longrightarrow> u c = []"
    by (rule observation_put [OF o sample_observation_valid]) simp
  have "actions_from_output (Some (registry_names sample_registry)) [item_of ignored_action, item_of sample_action]
    = Inr [ignored_action, sample_action]" by code_simp
  then have "\<exists>t. save_plan sample_plan u = (Inr sample_plan, t)
    \<and> get_plan sample_registry (ce_validate resuming_env) ''obs_1'' t = (Inr (Some sample_plan), t)
    \<and> (\<forall>c. c \<noteq> ''memory_curator_plans'' \<longrightarrow> t c = u c)"
    unfolding sample_plan_def
    by (rule save_get_plan) (auto simp: u(3) resuming_env_def sample_curator_env_def ignored_action_def sample_action_def
        item_bounded_def item_of_def declared_validate_item)
  then obtain t where t: "get_plan sample_registry (ce_validate resuming_env) ''obs_1'' t = (Inr (Some sample_plan), t)"
    "\<And>c. c \<noteq> ''memory_curator_plans'' \<Longrightarrow> t c = u c" by blast
  have "t c = []" if "c \<in> {''memory_entries'', ''memory_candidates'', ''profile_items''}" for c
    using that t(2) [of c] u(3) [of c] by auto
  then have "memory_stored t" using memory_cong(1) [of t "\<lambda>_. []"] memory_stored_none by blast
  moreover have "observations_stored t" "observation_view t = observation_view u"
    using u(1) observations.repo_stored_cong [of t "''memory_observations''" u, OF t(2)]
      observations.repo_view_cong [of t "''memory_observations''" u, OF t(2)]
    by (simp_all add: observations_stored_def observation_view_def)
  moreover have "ob_id sample_observation = ''obs_1''" "ce_registry resuming_env = sample_registry"
    by (simp_all add: sample_observation_def resuming_env_def sample_curator_env_def)
  ultimately show ?thesis using that [of t] t u(2,3) by simp
qed

lemma curator_resumes_witness:
  "\<exists>t. observation_view t ''obs_1'' = Some sample_observation
     \<and> run_once_locked resuming_env ''obs_1'' t =
       resume_plan resuming_env ''obs_1'' sample_observation sample_plan 1 (nothing_done\<lparr>cr_ignored := 1\<rparr>) t"
proof -
  obtain t where t: "memory_stored t" "observations_stored t" "observation_view t ''obs_1'' = Some sample_observation"
    "get_plan (ce_registry resuming_env) (ce_validate resuming_env) ''obs_1'' t = (Inr (Some sample_plan), t)"
    by (rule sample_plan_stored)
  have "run_once_locked resuming_env ''obs_1'' t = resume_plan resuming_env ''obs_1'' sample_observation sample_plan 1
    (fold count_outcome (map (settled_outcome (ce_uuid5 resuming_env) sample_plan t) [0 ..< 1]) nothing_done) t"
    by (rule curator_resumes [OF t(1-3) _ t(4)])
      (simp_all add: sample_observation_def sample_plan_def action_settled_def ignored_action_def)
  moreover have "settled_outcome (ce_uuid5 resuming_env) sample_plan t 0 = ActIgnore"
    by (simp add: settled_outcome_def sample_plan_def ignored_action_def)
  ultimately show ?thesis using t(3) by (intro exI [of _ t]) (simp add: count_outcome_def nothing_done_def)
qed

lemma list_memory_same: "list_memory t = (r, t') \<Longrightarrow> t' = t"
  by (auto simp: list_memory_def repo_list_def bind_act_def tab_list_def split: prod.splits sum.splits)

section \<open>What a completed run has done\<close>

definition sourced :: "bool \<Rightarrow> string \<Rightarrow> string \<Rightarrow> tables \<Rightarrow> bool" where
  "sourced b cid sr t \<longleftrightarrow> memory_stored t
     \<and> (b \<longrightarrow> (\<exists>c. candidate_view t cid = Some c \<and> mc_source_refs c = [sr]))"

lemma sourced_cong:
  assumes "foreign name" and "\<forall>d. d \<noteq> name \<longrightarrow> t' d = t d" and "sourced b cid sr t"
  shows "sourced b cid sr t'"
proof -
  have "t' d = t d" if "d \<in> {''memory_entries'', ''memory_candidates'', ''profile_items''}" for d
    using that assms(1,2) by (auto simp: foreign_def)
  from memory_cong [of t' t, OF this] show ?thesis using assms(3) by (simp add: sourced_def memory_view_def)
qed

lemma sourced_put:
  assumes "foreign name"
  shows "always (sourced b cid sr) (tab_put name key w) (\<lambda>_. True)"
proof (rule alwaysI)
  fix s r t
  assume s: "sourced b cid sr s" "tab_put name key w s = (r, t)"
  then have "\<forall>d. d \<noteq> name \<longrightarrow> t d = s d" by (auto simp: tab_put_def split: sum.splits)
  then show "sourced b cid sr t \<and> (\<forall>x. r = Inr x \<longrightarrow> True)" using sourced_cong [OF assms] s(1) by blast
qed

lemma sourced_save:
  assumes "mc_id d \<noteq> ''''" and "finite_value (mc_importance d)" and "mc_source_refs d = [sr]"
  shows "always (sourced b cid sr) (save_candidate d) (\<lambda>_. True)"
proof (rule alwaysI)
  fix s r t
  assume s: "sourced b cid sr s" "save_candidate d s = (r, t)"
  then have m: "memory_stored s" by (simp add: sourced_def)
  from m assms(1,2) show "sourced b cid sr t \<and> (\<forall>x. r = Inr x \<longrightarrow> True)"
    by (cases rule: save_candidate_cases) (use s assms(3) in \<open>auto simp: sourced_def memory_view_def\<close>)
qed

lemma sourced_accept:
  assumes "fresh_id \<noteq> ''''"
  shows "always (sourced b cid sr) (accept_candidate reg uuid5 clock fresh_id reviewed i) (\<lambda>_. True)"
proof (rule alwaysI)
  fix s r t
  assume s: "sourced b cid sr s" and run: "accept_candidate reg uuid5 clock fresh_id reviewed i s = (r, t)"
  show "sourced b cid sr t \<and> (\<forall>x. r = Inr x \<longrightarrow> True)"
  proof (cases r)
    case (Inl e)
    with accept_candidate_atomic run s show ?thesis by blast
  next
    case (Inr x)
    have m: "memory_stored s" using s by (simp add: sourced_def)
    obtain d where d: "candidate_view s i = Some d" "memory_stored t"
      "accepted_as reg uuid5 clock fresh_id d x (memory_view s) (memory_view t)"
      using accept_outcome [OF m assms] run Inr by blast
    obtain k where "candidate_view t = (candidate_view s)(mc_id d \<mapsto> mark_accepted clock d k)"
      using accepted_as_marked [OF d(3)] by (auto simp: memory_view_def)
    moreover have "mc_id d = i" using candidate_view_valid [OF m d(1)] by simp
    moreover have "mc_source_refs (mark_accepted clock d k) = mc_source_refs d"
      by (simp add: mark_accepted_def candidate_with_updates_def)
    ultimately show ?thesis using s d by (auto simp: sourced_def)
  qed
qed

lemma sourced_auto_accept:
  assumes "\<And>cid. ce_entry_id env cid \<noteq> ''''"
  shows "always (sourced b cid sr) (auto_accept env d tr) (\<lambda>_. True)"
  unfolding auto_accept_def record_memory_update_trace_def record_memory_update_def record_trace_def save_trace_def
  by (auto intro!: act_always sourced_accept [OF assms] sourced_put split: option.splits MemoryTarget.splits)

lemma sourced_staged:
  assumes "\<And>cid. ce_entry_id env cid \<noteq> ''''"
  shows "always (sourced b cid sr) (staged_candidate env i source_ref tr) (\<lambda>_. True)"
  unfolding staged_candidate_def get_candidate_def
  by (auto intro!: act_always sourced_auto_accept [OF assms] split: option.splits exn.splits)

lemma sourced_stage:
  assumes "\<And>cid. ce_entry_id env cid \<noteq> ''''"
    and "mc_id d \<noteq> ''''" and "finite_value (mc_importance d)" and "mc_source_refs d = [sr]"
  shows "always (sourced b cid sr) (stage_candidate env d tr) (\<lambda>_. True)"
  unfolding stage_candidate_def by (intro act_always sourced_save [OF assms(2-4)] sourced_auto_accept [OF assms(1)])

lemma sourced_create:
  assumes "\<And>cid. ce_entry_id env cid \<noteq> ''''" and "i \<noteq> ''''"
  shows "always (sourced b cid sr) (create_candidate env a sr i seen tr) (\<lambda>_. True)"
  unfolding create_candidate_def list_memory_def
  by (rule always_bind [OF sourced_staged [OF assms(1)]])
    (use assms(2) in \<open>auto intro!: act_always sourced_stage [OF assms(1)] split: option.splits\<close>)

lemma sourced_update:
  assumes "\<And>cid. ce_entry_id env cid \<noteq> ''''" and "i \<noteq> ''''"
  shows "always (sourced b cid sr) (update_candidate env a sr i seen tr) (\<lambda>_. True)"
  unfolding update_candidate_def get_memory_def
  by (rule always_bind [OF sourced_staged [OF assms(1)]])
    (use assms(2) in \<open>auto intro!: act_always sourced_stage [OF assms(1)] split: option.splits exn.splits\<close>)

lemma sourced_action:
  assumes "\<And>cid. ce_entry_id env cid \<noteq> ''''"
  shows "always (sourced b cid (cp_source_ref p)) (run_action env p tr index a) (\<lambda>_. True)"
  unfolding run_action_def
proof (rule always_bind_lift)
  fix s i
  assume "plan_candidate_id (ce_uuid5 env) p (int index) = Inr i"
  then have "i \<noteq> ''''" by (auto simp: plan_candidate_id_def result_simps)
  then show "always (sourced b cid (cp_source_ref p)) (case ma_action a of
         ActCreate \<Rightarrow> create_candidate env a (cp_source_ref p) i (cp_observed_at p) tr
       | ActUpdate \<Rightarrow>
           bind_act (update_candidate env a (cp_source_ref p) i (cp_observed_at p) tr) (\<lambda>b.
             ret_act (if b then ActUpdate else ActIgnore))
       | ActIgnore \<Rightarrow> ret_act ActIgnore) (\<lambda>_. True)"
    by (auto intro!: act_always sourced_create [OF assms] sourced_update [OF assms] split: MemoryActionType.splits)
qed

text \<open>A creation that returns has staged its candidate.\<close>

lemma stage_done:
  assumes "\<And>cid. ce_entry_id env cid \<noteq> ''''" and "memory_stored s"
    and "mc_id d \<noteq> ''''" and "finite_value (mc_importance d)" and "mc_source_refs d = [sr]"
    and "stage_candidate env d tr s = (Inr u, t)"
  shows "sourced True (mc_id d) sr t"
proof -
  obtain s' where s': "save_candidate d s = (Inr d, s')" "auto_accept env d tr s' = (Inr u, t)"
    "memory_stored s'" "candidate_view s' (mc_id d) = Some d"
    using assms(2-4)
    by (cases rule: save_candidate_cases) (use assms(6) in \<open>auto simp: stage_candidate_def bind_act_def memory_view_def\<close>)
  then have "sourced True (mc_id d) sr s'" using assms(5) by (simp add: sourced_def)
  from alwaysD [where P = "sourced True (mc_id d) sr", OF sourced_auto_accept [OF assms(1)] this, of d tr] s'(2) show ?thesis by simp
qed

lemma staged_found:
  assumes "\<And>cid. ce_entry_id env cid \<noteq> ''''" and "memory_stored s" and "staged_candidate env i sr tr s = (Inr (Some c), u)"
  shows "sourced True i sr u"
proof -
  obtain c' where c': "candidate_view s i = Some c'" using assms(3)
    by (auto simp: staged_candidate_def get_candidate_view [OF assms(2)] try_act_def bind_act_def split: option.splits)
  with assms(3) have "mc_source_refs c' = [sr]"
    by (auto simp: staged_candidate_def get_candidate_view [OF assms(2)] try_act_def bind_act_def raise_if_def
        split: option.splits if_splits prod.splits sum.splits)
  with c' assms(2) have "sourced True i sr s" by (simp add: sourced_def)
  from alwaysD [where P = "sourced True i sr", OF sourced_staged [OF assms(1)] this, of i sr tr] assms(3) show ?thesis by simp
qed

lemma staged_none:
  assumes "memory_stored s" and "staged_candidate env i sr tr s = (Inr None, u)"
  shows "u = s"
  using assms(2) by (auto simp: staged_candidate_def get_candidate_view [OF assms(1)] try_act_def bind_act_def raise_if_def
      split: option.splits if_splits prod.splits sum.splits)

lemma create_done:
  assumes "\<And>cid. ce_entry_id env cid \<noteq> ''''" and "memory_stored s" and "i \<noteq> ''''"
    and run: "create_candidate env a sr i seen tr s = (Inr outcome, t)"
  shows "sourced True i sr t"
proof -
  obtain staged u where u: "staged_candidate env i sr tr s = (Inr staged, u)" using run
    by (auto simp: create_candidate_def bind_act_eq_Inr)
  have "sourced False i sr s" using assms(2) by (simp add: sourced_def)
  from alwaysD [where P = "sourced False i sr", OF sourced_staged [OF assms(1)] this, of i sr tr] u have m: "memory_stored u" by (simp add: sourced_def)
  show ?thesis
  proof (cases staged)
    case (Some c)
    have "sourced True i sr u" by (rule staged_found [OF assms(1,2) u [unfolded Some]])
    moreover have "t = u" using run u Some by (simp add: create_candidate_def bind_act_def)
    ultimately show ?thesis by simp
  next
    case None
    with run u have rest: "\<exists>d v. stage_candidate env d tr v = (Inr (), t) \<and> memory_stored v \<and> mc_id d = i
      \<and> mc_importance d = Finite (1 / 2) \<and> mc_source_refs d = [sr]"
      using m by (auto simp: create_candidate_def result_simps split: option.splits dest!: list_memory_same) fastforce+
    then show ?thesis using stage_done [OF assms(1), of _ _ sr tr "()" t] assms(3) by fastforce
  qed
qed

text \<open>An update that returns has staged its candidate, unless there is nothing to update.\<close>

definition nothing_to_update :: "MemoryAction \<Rightarrow> tables \<Rightarrow> bool" where
  "nothing_to_update a t \<longleftrightarrow> (case ma_entry_id a of None \<Rightarrow> True | Some j \<Rightarrow> entry_view t j = None)"

lemma update_done:
  assumes "\<And>cid. ce_entry_id env cid \<noteq> ''''" and m: "memory_stored s" and "i \<noteq> ''''"
    and run: "update_candidate env a sr i seen tr s = (Inr b, t)"
  shows "if b then sourced True i sr t else nothing_to_update a s \<and> t = s"
proof -
  obtain staged u where u: "staged_candidate env i sr tr s = (Inr staged, u)" using run
    by (auto simp: update_candidate_def bind_act_eq_Inr)
  show ?thesis
  proof (cases staged)
    case (Some c)
    with staged_found [OF assms(1) m] u have "sourced True i sr u" by blast
    moreover have "t = u" "b" using run u Some by (simp_all add: update_candidate_def bind_act_def)
    ultimately show ?thesis by simp
  next
    case None
    with u staged_none [OF m] have u': "staged_candidate env i sr tr s = (Inr None, s)" by blast
    show ?thesis
    proof (cases "nothing_to_update a s")
      case True
      with run u' show ?thesis
        by (auto simp: update_candidate_def bind_act_def nothing_to_update_def get_memory_view [OF m] try_act_def
            split: option.splits)
    next
      case False
      then obtain j x where j: "ma_entry_id a = Some j" "entry_view s j = Some x"
        by (auto simp: nothing_to_update_def split: option.splits)
      with run u' obtain d where d: "stage_candidate env d tr s = (Inr (), t)" "b" "mc_id d = i"
        "finite_value (mc_importance d)" "mc_source_refs d = [sr]"
        by (auto simp: update_candidate_def bind_act_def get_memory_view [OF m] try_act_def split: prod.splits sum.splits)
      have "sourced True (mc_id d) sr t"
        by (rule stage_done [OF assms(1) m _ d(4,5,1)]) (use d(3) assms(3) in simp)
      with d show ?thesis by simp
    qed
  qed
qed

text \<open>What a plan's actions leave behind: \<open>start\<close> is the state in which the plan began.\<close>

definition action_performed :: "curator_env \<Rightarrow> MemoryCuratorPlan \<Rightarrow> string option \<Rightarrow> tables \<Rightarrow> tables \<Rightarrow> nat \<Rightarrow> bool" where
  "action_performed env p tr start t n \<longleftrightarrow>
     (let a = cp_actions p ! n;
          staged = (\<exists>c. candidate_view t (action_cid (ce_uuid5 env) p n) = Some c \<and> mc_source_refs c = [cp_source_ref p]) in
      case ma_action a of
        ActCreate \<Rightarrow> staged
      | ActUpdate \<Rightarrow> staged \<or> (\<exists>r s. run_actions env p tr 0 (take n (cp_actions p)) nothing_done start = (Inr r, s)
                               \<and> nothing_to_update a s)
      | ActIgnore \<Rightarrow> True)"

definition total_actions :: "MemoryCuratorResult \<Rightarrow> nat" where
  "total_actions r = cr_created r + cr_updated r + cr_ignored r"

lemma total_count: "total_actions (count_outcome outcome r) = Suc (total_actions r)"
  by (cases outcome) (simp_all add: count_outcome_def total_actions_def)

lemma run_actions_append:
  "run_actions env p tr k (xs @ ys) r =
     bind_act (run_actions env p tr k xs r) (\<lambda>r'. run_actions env p tr (k + length xs) ys r')"
  by (induction xs arbitrary: k r) (auto simp: bind_act_def fun_eq_iff split: prod.splits sum.splits)

lemma keeps_sourced:
  assumes "\<And>cid. ce_entry_id env cid \<noteq> ''''"
  shows "always (sourced b i (cp_source_ref p)) (run_actions env p tr n rest x) (\<lambda>_. True)"
  by (induction rest arbitrary: n x) (auto intro!: act_always sourced_action [OF assms(1)])

text \<open>One action: what it leaves behind in the state after it.\<close>

lemma run_action_done:
  assumes "\<And>cid. ce_entry_id env cid \<noteq> ''''" and "memory_stored s" and k: "k < length (cp_actions p)"
    and u: "run_action env p tr k (cp_actions p ! k) s = (Inr outcome, u)"
  shows "case ma_action (cp_actions p ! k) of
      ActCreate \<Rightarrow> sourced True (action_cid (ce_uuid5 env) p k) (cp_source_ref p) u
    | ActUpdate \<Rightarrow> sourced True (action_cid (ce_uuid5 env) p k) (cp_source_ref p) u \<or> nothing_to_update (cp_actions p ! k) s
    | ActIgnore \<Rightarrow> True"
proof (cases "ma_action (cp_actions p ! k)")
  case ActCreate
  with u k have "create_candidate env (cp_actions p ! k) (cp_source_ref p) (action_cid (ce_uuid5 env) p k) (cp_observed_at p) tr s = (Inr outcome, u)"
    by (simp add: run_action_def bind_act_def plan_cid)
  then have "sourced True (action_cid (ce_uuid5 env) p k) (cp_source_ref p) u"
    by (rule create_done [OF assms(1,2), rotated]) (simp add: action_cid_def)
  with ActCreate show ?thesis by simp
next
  case ActUpdate
  with u k obtain b where "update_candidate env (cp_actions p ! k) (cp_source_ref p) (action_cid (ce_uuid5 env) p k) (cp_observed_at p) tr s = (Inr b, u)"
    by (auto simp: run_action_def bind_act_def plan_cid split: prod.splits sum.splits)
  from update_done [OF assms(1,2) _ this] ActUpdate show ?thesis by (auto simp: action_cid_def split: if_splits)
qed simp

lemma run_actions_done:
  assumes ids: "\<And>cid. ce_entry_id env cid \<noteq> ''''" and "memory_stored s" and "k \<le> length (cp_actions p)"
    and "run_actions env p tr 0 (take k (cp_actions p)) nothing_done s = (Inr r, t)"
  shows "memory_stored t \<and> total_actions r = k \<and> (\<forall>n < k. action_performed env p tr s t n)"
  using assms(3,4)
proof (induction k arbitrary: r t)
  case 0
  then show ?case using assms(2) by (auto simp: total_actions_def nothing_done_def)
next
  case (Suc k)
  let ?a = "cp_actions p ! k" and ?cid = "action_cid (ce_uuid5 env) p"
  have "take (Suc k) (cp_actions p) = take k (cp_actions p) @ [?a]" using Suc.prems(1) by (simp add: take_Suc_conv_app_nth)
  with Suc.prems obtain r0 s0 outcome where run: "run_actions env p tr 0 (take k (cp_actions p)) nothing_done s = (Inr r0, s0)"
    and last: "run_action env p tr k ?a s0 = (Inr outcome, t)" and r: "r = count_outcome outcome r0"
    by (auto simp: run_actions_append bind_act_eq_Inr)
  have IH: "memory_stored s0" "total_actions r0 = k" "\<And>n. n < k \<Longrightarrow> action_performed env p tr s s0 n"
    using Suc.IH [OF _ run] Suc.prems(1) by simp_all
  have "sourced False '''' (cp_source_ref p) s0" using IH(1) by (simp add: sourced_def)
  from alwaysD [where P = "sourced False '''' (cp_source_ref p)", OF sourced_action [OF ids] this, of tr k ?a] last
  have m: "memory_stored t" by (simp add: sourced_def)
  have keep: "sourced True i (cp_source_ref p) t" if "sourced True i (cp_source_ref p) s0" for i
    using alwaysD [where P = "sourced True i (cp_source_ref p)", OF sourced_action [OF ids] that, of tr k ?a] last by simp
  have "action_performed env p tr s t n" if "n < Suc k" for n
  proof (cases "n = k")
    case True
    then show ?thesis
      using run_action_done [OF ids IH(1) _ last] Suc.prems(1) run
      by (auto simp: action_performed_def Let_def sourced_def split: MemoryActionType.splits)
  next
    case False
    with that have "action_performed env p tr s s0 n" using IH(3) by simp
    then show ?thesis
      using keep [of "?cid n"] IH(1) by (auto simp: action_performed_def Let_def sourced_def split: MemoryActionType.splits)
  qed
  with m IH(2) r show ?case by (simp add: total_count)
qed

lemma frame_run_actions:
  assumes "foreign c" and "c \<noteq> ''trace_nodes''"
  shows "always (\<lambda>t. t c = v) (run_actions env p tr k actions r) (\<lambda>_. True)"
proof -
  have auto: "always (\<lambda>t. t c = v) (auto_accept env d tr) (\<lambda>_. True)" for d
    unfolding auto_accept_def record_memory_update_trace_def record_memory_update_def record_trace_def save_trace_def
    by (auto intro!: act_frame frame_accept [OF assms(1)] assms(2) split: option.splits MemoryTarget.splits)
  have staged: "always (\<lambda>t. t c = v) (staged_candidate env i sr tr) (\<lambda>_. True)" for i sr
    unfolding staged_candidate_def
    by (auto intro!: act_frame auto frame_get_candidate [OF assms(1)] split: option.splits exn.splits)
  have stage: "always (\<lambda>t. t c = v) (stage_candidate env d tr) (\<lambda>_. True)" for d
    unfolding stage_candidate_def by (intro act_frame auto frame_save_candidate [OF assms(1)])
  have "always (\<lambda>t. t c = v) (create_candidate env a sr i seen tr) (\<lambda>_. True)" for a sr i seen
    unfolding create_candidate_def
    by (auto intro!: act_frame staged stage frame_list_memory [OF assms(1)] split: option.splits)
  moreover have "always (\<lambda>t. t c = v) (update_candidate env a sr i seen tr) (\<lambda>_. True)" for a sr i seen
    unfolding update_candidate_def
    by (auto intro!: act_frame staged stage frame_get_memory [OF assms(1)] split: option.splits exn.splits)
  ultimately have "always (\<lambda>t. t c = v) (run_action env p tr k a) (\<lambda>_. True)" for k a
    unfolding run_action_def by (auto intro!: act_frame split: MemoryActionType.splits)
  then show ?thesis by (induction actions arbitrary: k r) (auto intro!: act_frame)
qed

lemma finish_runs:
  assumes "observations_stored t" and "observation_view t i = Some x"
    and "run_actions env p (ob_source_trace_id x) 0 (cp_actions p) nothing_done t = (Inr r, u)"
  obtains t' where "finish_plan env i x p t = (Inr (r\<lparr>cr_processed := length (ob_fragments x)\<rparr>), t')"
    "observation_view t' = (observation_view t)(i \<mapsto> x\<lparr>ob_status := ObsProcessed\<rparr>)"
    "t' ''memory_curator_plans'' = coll_delete i (u ''memory_curator_plans'')"
    "\<And>c. c \<notin> {''memory_observations'', ''memory_curator_plans''} \<Longrightarrow> t' c = u c"
proof -
  have "u ''memory_observations'' = t ''memory_observations''"
    using alwaysD [where P = "\<lambda>s. s ''memory_observations'' = t ''memory_observations''" and s = t,
        OF frame_run_actions [OF foreign_tables(2)], of env p "ob_source_trace_id x" 0 "cp_actions p" nothing_done] assms(3)
    by simp
  then have o: "observations_stored u" "observation_view u = observation_view t"
    using assms(1) by (simp_all add: observations_stored_def observation_view_def observations.repo_stored_def observations.repo_view_def)
  then have x: "observation_view u i = Some x" using assms(2) by simp
  obtain w where w: "mark_processed i u = (Inr (), w)" "observation_view w = (observation_view u)(i \<mapsto> x\<lparr>ob_status := ObsProcessed\<rparr>)"
    "\<And>c. c \<noteq> ''memory_observations'' \<Longrightarrow> w c = u c"
    using mark_processed_run [OF o(1) x] by metis
  let ?t = "w(''memory_curator_plans'' := coll_delete i (w ''memory_curator_plans''))"
  have "finish_plan env i x p t = (Inr (r\<lparr>cr_processed := length (ob_fragments x)\<rparr>), ?t)"
    using assms(3) w(1) by (simp add: finish_plan_def bind_act_def complete_plan_def tab_delete_def)
  then show ?thesis
    by (rule that) (use w(2,3) o(2) in \<open>simp_all add: observation_view_def observations.repo_view_def\<close>)
qed

text \<open>
  The plan that a run finishes, and the state in which it begins: a stored plan, or the plan which it makes
  of the decision and saves.
\<close>

definition planned :: "curator_env \<Rightarrow> string \<Rightarrow> MemoryObservation \<Rightarrow> tables \<Rightarrow> MemoryCuratorPlan \<Rightarrow> tables \<Rightarrow> bool" where
  "planned env i x t p start \<longleftrightarrow>
     get_plan (ce_registry env) (ce_validate env) i t = (Inr (Some p), t) \<and> start = t
     \<or> get_plan (ce_registry env) (ce_validate env) i t = (Inr None, t)
       \<and> has_memory_worthy_signal (ob_fragments x) (ce_min_quality_chars env)
       \<and> (\<exists>actions. decide_actions env x t = (Inr (Some actions), t)
            \<and> p = \<lparr>cp_observation_id = i, cp_source_ref = ob_source_ref x, cp_observed_at = ob_observed_at x, cp_actions = actions\<rparr>
            \<and> save_plan p t = (Inr p, start))"

lemma get_plan_same: "get_plan reg validate i t = (Inr p, t') \<Longrightarrow> t' = t"
  using alwaysD [where P = "\<lambda>s. s = t" and s = t, OF always_get_plan [of _ reg validate i]] by (metis snd_conv)

lemma decide_actions_same: "decide_actions env x t = (Inr d, t') \<Longrightarrow> t' = t"
  using alwaysD [where P = "\<lambda>s. s = t" and s = t, OF always_decide [of _ env x]] by (metis snd_conv)

lemma save_plan_start:
  assumes "save_plan p t = (Inr q, u)"
  shows "q = p \<and> (\<forall>c. c \<noteq> ''memory_curator_plans'' \<longrightarrow> u c = t c)"
  using assms by (auto simp: save_plan_def bind_act_def tab_put_def split: sum.splits prod.splits)

text \<open>The ways a run can return.\<close>

lemma run_once_cases:
  assumes "observations_stored t" and "observation_view t i = Some x" and "run_once_locked env i t = (Inr r, t')"
  obtains
    (processed) "ob_status x = ObsProcessed" "r = nothing_done" "t' = t"
  | (unworthy) "ob_status x \<noteq> ObsProcessed" "get_plan (ce_registry env) (ce_validate env) i t = (Inr None, t)"
      "\<not> has_memory_worthy_signal (ob_fragments x) (ce_min_quality_chars env)" "mark_processed i t = (Inr (), t')" "r = nothing_done"
  | (deferred) "ob_status x \<noteq> ObsProcessed" "get_plan (ce_registry env) (ce_validate env) i t = (Inr None, t)"
      "has_memory_worthy_signal (ob_fragments x) (ce_min_quality_chars env)" "decide_actions env x t = (Inr None, t)" "r = nothing_done" "t' = t"
  | (finished) p start where "ob_status x \<noteq> ObsProcessed" "planned env i x t p start" "finish_plan env i x p start = (Inr r, t')"
proof (cases "ob_status x = ObsProcessed")
  case True
  with assms show ?thesis by (intro processed) (auto simp: run_once_locked_def bind_act_def get_observation_view)
next
  case False
  with assms obtain stored u where stored: "get_plan (ce_registry env) (ce_validate env) i t = (Inr stored, u)"
    by (auto simp: run_once_locked_def bind_act_def get_observation_view split: prod.splits sum.splits)
  then have u: "u = t" by (rule get_plan_same)
  note run = assms(3) [unfolded run_once_locked_def bind_act_def get_observation_view [OF assms(1)]]
  show ?thesis
  proof (cases stored)
    case (Some p)
    with run stored u False assms(2) show ?thesis by (intro finished [of p t]) (simp_all add: planned_def)
  next
    case None
    note here = None stored u False assms(2)
    show ?thesis
    proof (cases "has_memory_worthy_signal (ob_fragments x) (ce_min_quality_chars env)")
      case False
      with run here show ?thesis by (intro unworthy) (auto split: prod.splits sum.splits)
    next
      case True
      with run here obtain d w where d: "decide_actions env x t = (Inr d, w)"
        by (auto split: prod.splits sum.splits)
      then have w: "w = t" by (rule decide_actions_same)
      show ?thesis
      proof (cases d)
        case None
        with run here True d w show ?thesis by (intro deferred) simp_all
      next
        case (Some actions)
        let ?p = "\<lparr>cp_observation_id = i, cp_source_ref = ob_source_ref x, cp_observed_at = ob_observed_at x, cp_actions = actions\<rparr>"
        from Some run here True d w obtain q start where q: "save_plan ?p t = (Inr q, start)" "finish_plan env i x q start = (Inr r, t')"
          by (auto split: prod.splits sum.splits)
        then have "q = ?p" using save_plan_start by blast
        with q Some here True d w show ?thesis by (intro finished [of ?p start]) (auto simp: planned_def)
      qed
    qed
  qed
qed

lemma planned_start:
  assumes "memory_stored t" and "observations_stored t" and "planned env i x t p start"
  shows "memory_stored start \<and> observations_stored start \<and> observation_view start = observation_view t"
proof -
  have same: "start c = t c" if "c \<noteq> ''memory_curator_plans''" for c
    using assms(3) save_plan_start that unfolding planned_def by metis
  have "start c = t c" if "c \<in> {''memory_entries'', ''memory_candidates'', ''profile_items''}" for c
    by (rule same) (use that in auto)
  then have "memory_stored start" using memory_cong(1) [of start t] assms(1) by blast
  with same assms(2) show ?thesis
    using observations.repo_stored_cong [of start "''memory_observations''" t] observations.repo_view_cong [of start "''memory_observations''" t]
    by (simp add: observations_stored_def observation_view_def)
qed

lemma finish_done:
  assumes "memory_stored start" and "observations_stored start" and "observation_view start i = Some x"
    and ids: "\<And>cid. ce_entry_id env cid \<noteq> ''''" and "finish_plan env i x p start = (Inr r, t')"
  shows "observation_view t' = (observation_view start)(i \<mapsto> x\<lparr>ob_status := ObsProcessed\<rparr>)
    \<and> get_plan (ce_registry env) (ce_validate env) i t' = (Inr None, t')
    \<and> cr_processed r = length (ob_fragments x) \<and> cr_created r + cr_updated r + cr_ignored r = length (cp_actions p)
    \<and> (\<forall>n < length (cp_actions p). action_performed env p (ob_source_trace_id x) start t' n)"
proof -
  obtain r0 u where u: "run_actions env p (ob_source_trace_id x) 0 (cp_actions p) nothing_done start = (Inr r0, u)"
    using assms(5) by (auto simp: finish_plan_def bind_act_eq_Inr)
  obtain t2 where t2: "finish_plan env i x p start = (Inr (r0\<lparr>cr_processed := length (ob_fragments x)\<rparr>), t2)"
    "observation_view t2 = (observation_view start)(i \<mapsto> x\<lparr>ob_status := ObsProcessed\<rparr>)"
    "t2 ''memory_curator_plans'' = coll_delete i (u ''memory_curator_plans'')"
    "\<And>c. c \<notin> {''memory_observations'', ''memory_curator_plans''} \<Longrightarrow> t2 c = u c"
    using finish_runs [OF assms(2,3) u] by metis
  have r: "r = r0\<lparr>cr_processed := length (ob_fragments x)\<rparr>" "t' = t2" using assms(5) t2(1) by simp_all
  have all: "total_actions r0 = length (cp_actions p)"
    "\<And>n. n < length (cp_actions p) \<Longrightarrow> action_performed env p (ob_source_trace_id x) start u n"
    using run_actions_done [OF ids assms(1) order_refl, of p "ob_source_trace_id x" r0 u] u by simp_all
  have "candidate_view t' = candidate_view u" using t2(4) by (simp add: r(2) candidate_view_def)
  then have "action_performed env p (ob_source_trace_id x) start t' n" if "n < length (cp_actions p)" for n
    using all(2) [OF that] by (simp add: action_performed_def)
  moreover have "get_plan (ce_registry env) (ce_validate env) i t' = (Inr None, t')"
    using t2(3) by (simp add: r(2) get_plan_def try_act_def bind_act_def tab_get_def coll_get_def coll_delete_def row_get_del)
  ultimately show ?thesis using t2(2) all(1) by (simp add: r total_actions_def)
qed

text \<open>
  C38: A run of the curator over an observation that returns has done one of four things. It found the
  observation processed and did nothing; it found no durable signal, made no plan and marked the observation
  processed; it got no decision, did nothing and left the observation pending; or it performed a plan, stored
  by an earlier run or made and saved by this one: the observation is processed, its plan is gone, every
  action has been counted once, every action that creates has its candidate stored under the action's
  identifier with the observation's source, and so has every action that updates, unless the entry that it
  names was missing when its turn came.
\<close>

theorem curator_run_complete:
  assumes "memory_stored t" and "observations_stored t" and "observation_view t i = Some x"
    and "\<And>cid. ce_entry_id env cid \<noteq> ''''" and "run_once_locked env i t = (Inr r, t')"
  shows "ob_status x = ObsProcessed \<and> r = nothing_done \<and> t' = t
    \<or> ob_status x = ObsPending \<and> get_plan (ce_registry env) (ce_validate env) i t = (Inr None, t) \<and> r = nothing_done
      \<and> (if has_memory_worthy_signal (ob_fragments x) (ce_min_quality_chars env)
         then decide_actions env x t = (Inr None, t) \<and> t' = t
         else observation_view t' = (observation_view t)(i \<mapsto> x\<lparr>ob_status := ObsProcessed\<rparr>)
           \<and> (\<forall>c. c \<noteq> ''memory_observations'' \<longrightarrow> t' c = t c))
    \<or> (\<exists>p start. ob_status x = ObsPending \<and> planned env i x t p start
      \<and> observation_view t' = (observation_view t)(i \<mapsto> x\<lparr>ob_status := ObsProcessed\<rparr>)
      \<and> get_plan (ce_registry env) (ce_validate env) i t' = (Inr None, t')
      \<and> cr_processed r = length (ob_fragments x) \<and> cr_created r + cr_updated r + cr_ignored r = length (cp_actions p)
      \<and> (\<forall>n < length (cp_actions p). action_performed env p (ob_source_trace_id x) start t' n))"
  using assms(2,3,5)
proof (cases rule: run_once_cases)
  case unworthy
  then have "ob_status x = ObsPending" by (cases "ob_status x") simp_all
  with unworthy mark_processed_run [OF assms(2,3)] show ?thesis by (metis Pair_inject)
next
  case deferred
  then have "ob_status x = ObsPending" by (cases "ob_status x") simp_all
  with deferred show ?thesis by simp
next
  case (finished p start)
  then have "ob_status x = ObsPending" by (cases "ob_status x") simp_all
  moreover note planned_start [OF assms(1,2) finished(2)]
  ultimately show ?thesis
    using finish_done [OF _ _ _ assms(4) finished(3)] assms(3) finished(2) by (intro disjI2 exI [of _ p] exI [of _ start]) simp
qed simp

lemma auto_accept_returns: "\<exists>t'. auto_accept env d tr t = (Inr (), t')"
proof -
  have trace: "\<exists>t'. record_memory_update_trace env cid x action tr t = (Inr (), t')" for cid x action t
    by (simp add: record_memory_update_trace_def try_act_def split: prod.splits sum.splits)
  show ?thesis
    by (auto simp: auto_accept_def bind_act_def try_act_def trace split: prod.splits sum.splits MemoryTarget.splits option.splits)
qed

lemma curator_run_complete_witness:
  "\<exists>t r t'. observation_view t ''obs_1'' = Some sample_observation \<and> run_once_locked resuming_env ''obs_1'' t = (Inr r, t')
     \<and> cr_processed r = 1 \<and> observation_view t' ''obs_1'' = Some (sample_observation\<lparr>ob_status := ObsProcessed\<rparr>)
     \<and> (\<exists>c. candidate_view t' ''cand_chat:1:1'' = Some c \<and> mc_source_refs c = [''chat:1''])"
proof -
  obtain t where t: "memory_stored t" "observations_stored t" "observation_view t ''obs_1'' = Some sample_observation"
    "get_plan (ce_registry resuming_env) (ce_validate resuming_env) ''obs_1'' t = (Inr (Some sample_plan), t)"
    "t ''memory_entries'' = []" "t ''memory_candidates'' = []"
    by (rule sample_plan_stored)
  let ?d = "new_candidate resuming_env ''cand_chat:1:1'' sample_action ''chat:1'' ''1''"
  have d: "memory_candidate_valid ?d"
    by (simp add: memory_candidate_valid_def new_candidate_def sample_action_def)
  obtain u where u: "save_candidate ?d t = (Inr ?d, u)" using save_candidate_run [OF t(1) d] by metis
  obtain v where v: "auto_accept resuming_env ?d None u = (Inr (), v)" using auto_accept_returns by blast
  have inc: "\<exists>m. incoming_object resuming_env sample_action = Inr m"
    by (simp add: incoming_object_def make_object_def sample_action_def strs_obj_def)
  have none: "get_candidate ''cand_chat:1:1'' t = (Inl (MemoryCandidateNotFound ''cand_chat:1:1''), t)"
    using t(6) by (simp add: get_candidate_def repo_get_def bind_act_def tab_get_def coll_get_def)
  have uuid: "ce_uuid5 resuming_env = (\<lambda>s. s)" by (simp add: resuming_env_def sample_curator_env_def)
  have d1: "dec_int 1 = ''1''" by code_simp
  have cid: "action_cid (ce_uuid5 resuming_env) sample_plan 1 = ''cand_chat:1:1''"
    by (simp add: action_cid_def uuid d1 sample_plan_def)
  have list: "list_memory t = (Inr [], t)"
    using t(5) by (simp add: list_memory_def repo_list_def bind_act_def tab_list_def sort_desc_def)
  have create: "create_candidate resuming_env sample_action ''chat:1'' ''cand_chat:1:1'' ''1'' None t = (Inr ActCreate, v)"
    using none inc list u v
    by (auto simp: create_candidate_def staged_candidate_def try_act_def bind_act_def py_take_def stage_candidate_def)
  have "run_action resuming_env sample_plan None 0 ignored_action t = (Inr ActIgnore, t)"
    using plan_cid [of 0 sample_plan "\<lambda>s. s"]
    by (simp add: run_action_def bind_act_def uuid ignored_action_def sample_plan_def)
  moreover have "run_action resuming_env sample_plan None 1 sample_action t = (Inr ActCreate, v)"
    using plan_cid [of 1 sample_plan "ce_uuid5 resuming_env"] cid create
    by (simp add: run_action_def bind_act_def sample_plan_def) (simp add: sample_action_def)
  ultimately have "run_actions resuming_env sample_plan (ob_source_trace_id sample_observation) 0 (cp_actions sample_plan) nothing_done t
    = (Inr (count_outcome ActCreate (count_outcome ActIgnore nothing_done)), v)"
    by (simp add: bind_act_def sample_plan_def sample_observation_def)
  then obtain t' where fin: "finish_plan resuming_env ''obs_1'' sample_observation sample_plan t =
      (Inr (count_outcome ActCreate (count_outcome ActIgnore nothing_done)\<lparr>cr_processed := length (ob_fragments sample_observation)\<rparr>), t')"
    using finish_runs [OF t(2,3)] by metis
  have pending: "ob_status sample_observation = ObsPending" by (simp add: sample_observation_def)
  have run: "run_once_locked resuming_env ''obs_1'' t =
      (Inr (count_outcome ActCreate (count_outcome ActIgnore nothing_done)\<lparr>cr_processed := length (ob_fragments sample_observation)\<rparr>), t')"
    using t(2-4) fin pending by (simp add: run_once_locked_def bind_act_def get_observation_view)
  have ids: "ce_entry_id resuming_env c \<noteq> ''''" for c by (simp add: resuming_env_def sample_curator_env_def)
  have "\<forall>n < length (cp_actions sample_plan). action_performed resuming_env sample_plan (ob_source_trace_id sample_observation) t t' n"
    "observation_view t' ''obs_1'' = Some (sample_observation\<lparr>ob_status := ObsProcessed\<rparr>)"
    using curator_run_complete [OF t(1-3) ids run] pending t(4) by (auto simp: planned_def)
  then have end_state: "\<exists>c. candidate_view t' ''cand_chat:1:1'' = Some c \<and> mc_source_refs c = [''chat:1'']"
    "observation_view t' ''obs_1'' = Some (sample_observation\<lparr>ob_status := ObsProcessed\<rparr>)"
    using cid by (auto simp: sample_plan_def sample_action_def All_less_Suc action_performed_def)
  show ?thesis
    by (rule exI [of _ t], rule exI, rule exI [of _ t'], intro conjI, rule t(3), rule run)
      (use end_state in \<open>simp_all add: sample_observation_def count_outcome_def nothing_done_def\<close>)
qed

end
