(* ===== verification/Diagnostics.thy ===== *)
theory Diagnostics
  imports PyValues
begin

text \<open>
  Diagnostic text that leaves the program (\<open>runtime/diagnostics.py\<close>): the redaction of credentials,
  with the regular expressions it uses and their leftmost, greedy matching; the sanitizing of
  metadata; and the rendering of exceptions.
\<close>

section \<open>Regular expressions\<close>

text \<open>
  The fragment of \<open>re\<close> in use. A repetition is always one of a character class, from a least number of
  times to an optional greatest one; \<open>Bound\<close> is the word boundary. \<open>lengths r prev s\<close> are the lengths of
  the matches of \<open>r\<close> at the start of \<open>s\<close>, in the order in which backtracking tries them, where \<open>prev\<close>
  is the preceding character.
\<close>

datatype rx = Eps | Bound | Rep "char \<Rightarrow> bool" nat "nat option" | Cat rx rx | Or rx rx

definition word_char :: "char \<Rightarrow> bool" where
  "word_char c \<longleftrightarrow>
     (let n = of_char c :: nat in
      48 \<le> n \<and> n \<le> 57 \<or> 65 \<le> n \<and> n \<le> 90 \<or> n = 95 \<or> 97 \<le> n \<and> n \<le> 122
      \<or> n \<in> {170, 178, 179, 181, 185, 186, 188, 189, 190} \<or> 192 \<le> n \<and> n \<noteq> 215 \<and> n \<noteq> 247)"

definition at_word :: "char option \<Rightarrow> bool" where
  "at_word c = (case c of None \<Rightarrow> False | Some x \<Rightarrow> word_char x)"

definition next_char :: "string \<Rightarrow> char option" where
  "next_char s = (case s of [] \<Rightarrow> None | c # _ \<Rightarrow> Some c)"

definition last_char :: "char option \<Rightarrow> string \<Rightarrow> char option" where
  "last_char prev s = (if s = [] then prev else Some (last s))"

fun lengths :: "rx \<Rightarrow> char option \<Rightarrow> string \<Rightarrow> nat list" where
  "lengths Eps prev s = [0]"
| "lengths Bound prev s = (if at_word prev \<noteq> at_word (next_char s) then [0] else [])"
| "lengths (Rep p least greatest) prev s =
     (let n = length (takeWhile p s) in
      rev [least ..< Suc (case greatest of None \<Rightarrow> n | Some g \<Rightarrow> min n g)])"
| "lengths (Cat a b) prev s =
     concat (map (\<lambda>n. map (\<lambda>k. n + k) (lengths b (last_char prev (take n s)) (drop n s))) (lengths a prev s))"
| "lengths (Or a b) prev s = lengths a prev s @ lengths b prev s"

text \<open>The first match of a pattern of two groups.\<close>

definition first_match :: "rx \<Rightarrow> rx \<Rightarrow> char option \<Rightarrow> string \<Rightarrow> (nat \<times> nat) option" where
  "first_match prefix v prev s =
     (case concat (map (\<lambda>n. map (\<lambda>k. (n, k)) (lengths v (last_char prev (take n s)) (drop n s))) (lengths prefix prev s)) of
        [] \<Rightarrow> None
      | m # _ \<Rightarrow> Some m)"

text \<open>\<open>pattern.sub(f, s)\<close> for a pattern without empty matches: from the left, without overlaps.\<close>

function re_sub :: "rx \<Rightarrow> rx \<Rightarrow> (string \<Rightarrow> string \<Rightarrow> string) \<Rightarrow> char option \<Rightarrow> string \<Rightarrow> string" where
  "re_sub prefix v f prev [] = []"
| "re_sub prefix v f prev (c # cs) =
     (case first_match prefix v prev (c # cs) of
        None \<Rightarrow> c # re_sub prefix v f (Some c) cs
      | Some (n, k) \<Rightarrow>
          (if n + k = 0 then c # re_sub prefix v f (Some c) cs
           else f (take n (c # cs)) (take k (drop n (c # cs)))
                @ re_sub prefix v f (last_char prev (take (n + k) (c # cs))) (drop (n + k) (c # cs))))"
  by pat_completeness auto

termination by (relation "measure (\<lambda>(prefix, v, f, prev, s). length s)") auto

definition lit :: "string \<Rightarrow> rx" where
  "lit s = foldr (\<lambda>c r. Cat (Rep (\<lambda>x. x = c) 1 (Some 1)) r) s Eps"

text \<open>With \<open>re.IGNORECASE\<close>.\<close>

definition lit_fold :: "string \<Rightarrow> rx" where
  "lit_fold s = foldr (\<lambda>c r. Cat (Rep (\<lambda>x. lower_char_of x = c) 1 (Some 1)) r) s Eps"

definition optional :: "rx \<Rightarrow> rx" where
  "optional r = Or r Eps"

definition one_of :: "string \<Rightarrow> rx" where
  "one_of cs = Rep (\<lambda>x. x \<in> set cs) 1 (Some 1)"

definition any_of :: "string list \<Rightarrow> rx" where
  "any_of ws = foldr (\<lambda>w r. Or (lit_fold w) r) ws (Or Eps Eps)"

definition ascii_alnum :: "char \<Rightarrow> bool" where
  "ascii_alnum c \<longleftrightarrow>
     (let n = of_char c :: nat in 48 \<le> n \<and> n \<le> 57 \<or> 65 \<le> n \<and> n \<le> 90 \<or> 97 \<le> n \<and> n \<le> 122)"

definition upper_digit :: "char \<Rightarrow> bool" where
  "upper_digit c \<longleftrightarrow> (let n = of_char c :: nat in 48 \<le> n \<and> n \<le> 57 \<or> 65 \<le> n \<and> n \<le> 90)"

section \<open>Redaction\<close>

definition newlines :: "char set" where
  "newlines = {CHR 0x0D, CHR 0x0A}"

definition quote_chars :: string where
  "quote_chars = [CHR 0x22, CHR 0x27]"

text \<open>A quoted value, or the longest run of characters that \<open>p\<close> allows.\<close>

definition quoted_or :: "(char \<Rightarrow> bool) \<Rightarrow> rx" where
  "quoted_or p =
     Or (Cat (one_of [CHR 0x22]) (Cat (Rep (\<lambda>c. c \<noteq> CHR 0x22 \<and> c \<notin> newlines) 0 None) (one_of [CHR 0x22])))
     (Or (Cat (one_of [CHR 0x27]) (Cat (Rep (\<lambda>c. c \<noteq> CHR 0x27 \<and> c \<notin> newlines) 0 None) (one_of [CHR 0x27])))
         (Rep p 1 None))"

text \<open>A label in optional quotes, followed by a colon or an equals sign.\<close>

definition labeled :: "rx \<Rightarrow> rx" where
  "labeled label =
     Cat (optional (one_of quote_chars)) (Cat label (Cat (optional (one_of quote_chars))
       (Cat (Rep py_space 0 None) (Cat (one_of '':='') (Rep py_space 0 None)))))"

definition RAW_CREDENTIAL_RE :: rx where
  "RAW_CREDENTIAL_RE =
     Or (Cat Bound (Cat
           (Or (Cat (lit ''sk-'') (optional (Or (lit ''proj-'') (lit ''ant-''))))
           (Or (Cat (lit ''xox'') (Cat (one_of ''baprs'') (lit ''-'')))
               (Cat (lit ''gh'') (Cat (one_of ''pousr'') (lit ''_'')))))
           (Cat (Rep (\<lambda>c. ascii_alnum c \<or> c \<in> set ''._-'') 8 None) Bound)))
        (Cat Bound (Cat (lit ''AKIA'') (Cat (Rep upper_digit 16 (Some 16)) Bound)))"

definition BEARER_CREDENTIAL_RE :: rx where
  "BEARER_CREDENTIAL_RE =
     Cat Bound (Cat (lit_fold ''bearer'') (Cat (Rep py_space 1 None)
       (Rep (\<lambda>c. ascii_alnum c \<or> c \<in> set ''._~+/=-'') 1 None)))"

definition AUTHORIZATION_LABEL :: rx where
  "AUTHORIZATION_LABEL = labeled (lit_fold ''authorization'')"

definition AUTHORIZATION_VALUE :: rx where
  "AUTHORIZATION_VALUE = quoted_or (\<lambda>c. c \<notin> newlines \<and> c \<notin> set '',;'')"

definition CREDENTIAL_LABEL :: rx where
  "CREDENTIAL_LABEL =
     labeled
       (Or (Cat (lit_fold ''api'') (Cat (optional (one_of ''_-'')) (lit_fold ''key'')))
       (Or (Cat (lit_fold ''access'') (Cat (optional (one_of ''_-'')) (lit_fold ''token'')))
       (Or (Cat (lit_fold ''client'') (Cat (optional (one_of ''_-'')) (lit_fold ''secret'')))
       (Or (lit_fold ''password'') (Or (lit_fold ''secret'') (lit_fold ''token''))))))"

definition CREDENTIAL_VALUE :: rx where
  "CREDENTIAL_VALUE = quoted_or (\<lambda>c. \<not> py_space c \<and> c \<notin> set '',;}&'')"

definition redact_labeled_value :: "string \<Rightarrow> string \<Rightarrow> string" where
  "redact_labeled_value prefix v =
     prefix @ (if 2 \<le> length v \<and> hd v = last v \<and> hd v \<in> set quote_chars then [hd v] @ ''***'' @ [last v] else ''***'')"

definition redact_sensitive_text :: "string \<Rightarrow> string" where
  "redact_sensitive_text message =
     re_sub CREDENTIAL_LABEL CREDENTIAL_VALUE redact_labeled_value None
       (re_sub AUTHORIZATION_LABEL AUTHORIZATION_VALUE redact_labeled_value None
         (re_sub Eps BEARER_CREDENTIAL_RE (\<lambda>_ _. ''Bearer ***'') None
           (re_sub Eps RAW_CREDENTIAL_RE (\<lambda>_ _. ''***'') None message)))"

section \<open>Metadata\<close>

definition SENSITIVE_METADATA_KEYS :: "string list" where
  "SENSITIVE_METADATA_KEYS =
     [''access_token'', ''accesstoken'', ''api_key'', ''apikey'', ''authorization'', ''client_secret'', ''clientsecret'',
      ''cookie'', ''credential'', ''credentials'', ''password'', ''private_key'', ''privatekey'', ''refresh_token'',
      ''refreshtoken'', ''secret'', ''set_cookie'', ''setcookie'', ''token'']"

definition is_sensitive_metadata_key :: "string \<Rightarrow> bool" where
  "is_sensitive_metadata_key key \<longleftrightarrow>
     last (split_on (CHR ''.'') (map (\<lambda>c. if c = CHR ''-'' then CHR ''_'' else c) (casefold key)))
       \<in> set SENSITIVE_METADATA_KEYS"

text \<open>
  A mapping with a key that is not a string is returned as it is, also when other keys of it are strings (a mapping
  that has no value in \<open>pyobj\<close>).
\<close>

fun sanitize_diagnostic_value :: "pyobj \<Rightarrow> pyobj" where
  "sanitize_diagnostic_value (PStr s) = PStr (redact_sensitive_text s)"
| "sanitize_diagnostic_value (PDict d) =
     PDict (foldl (\<lambda>m (key, v). AList.update key v m) []
       (map (\<lambda>(key, v). (redact_sensitive_text key,
          if is_sensitive_metadata_key key then PStr ''***'' else sanitize_diagnostic_value v)) d))"
| "sanitize_diagnostic_value (PProxy d) =
     PDict (foldl (\<lambda>m (key, v). AList.update key v m) []
       (map (\<lambda>(key, v). (redact_sensitive_text key,
          if is_sensitive_metadata_key key then PStr ''***'' else sanitize_diagnostic_value v)) d))"
| "sanitize_diagnostic_value (PIntMap d) = (if d = [] then PDict [] else PIntMap d)"
| "sanitize_diagnostic_value (PList xs) = PList (map sanitize_diagnostic_value xs)"
| "sanitize_diagnostic_value (PTuple xs) = PList (map sanitize_diagnostic_value xs)"
| "sanitize_diagnostic_value v = v"

definition sanitize_diagnostic_metadata :: "pyobj option \<Rightarrow> pyobj option result" where
  "sanitize_diagnostic_metadata metadata =
     (case metadata of
        None \<Rightarrow> Inr None
      | Some v \<Rightarrow>
          (case sanitize_diagnostic_value v of
             PDict d \<Rightarrow> Inr (Some (PDict d))
           | PIntMap d \<Rightarrow> Inr (Some (PIntMap d))
           | _ \<Rightarrow> Inl (TypeError ''diagnostic metadata must be a mapping'')))"

section \<open>Exceptions\<close>

text \<open>
  An exception as a diagnostic sees it: its class name, the text \<open>str\<close> gives (\<open>None\<close> when that raises),
  its cause, whether the context is suppressed, and its context.
\<close>

datatype raised_exception =
  Raised (raised_class: string) (raised_text: "string option") (raised_cause: "raised_exception option")
    (raised_suppress: bool) (raised_context: "raised_exception option")

definition safe_exception_message :: "string option \<Rightarrow> raised_exception \<Rightarrow> string" where
  "safe_exception_message usual x =
     (let fallback = (case usual of None \<Rightarrow> raised_class x | Some s \<Rightarrow> s) in
      case raised_text x of
        None \<Rightarrow> fallback
      | Some s \<Rightarrow> if strip s = '''' then fallback else strip s)"

definition diagnostic_exception_message :: "string option \<Rightarrow> raised_exception \<Rightarrow> string" where
  "diagnostic_exception_message usual x = redact_sensitive_text (safe_exception_message usual x)"

fun exception_chain :: "raised_exception \<Rightarrow> raised_exception list" where
  "exception_chain (Raised c s cause suppress context') =
     Raised c s cause suppress context' #
       (case cause of
          Some x \<Rightarrow> exception_chain x
        | None \<Rightarrow> if suppress then [] else (case context' of None \<Rightarrow> [] | Some x \<Rightarrow> exception_chain x))"

definition diagnostic_exception_chain :: "raised_exception \<Rightarrow> string" where
  "diagnostic_exception_chain x =
     redact_sensitive_text (join_with '' <- ''
       (foldl (\<lambda>ms m. if m \<in> set ms then ms else ms @ [m]) [] (map (safe_exception_message None) (exception_chain x))))"

section \<open>What sanitized metadata can reveal\<close>

text \<open>\<open>mask\<close> forgets what stands under a sensitive key; \<open>texts\<close> are all strings of a value, keys included.\<close>

fun mask :: "pyobj \<Rightarrow> pyobj" where
  "mask (PDict d) = PDict (map (\<lambda>(key, v). (key, if is_sensitive_metadata_key key then PNone else mask v)) d)"
| "mask (PProxy d) = PProxy (map (\<lambda>(key, v). (key, if is_sensitive_metadata_key key then PNone else mask v)) d)"
| "mask (PList xs) = PList (map mask xs)"
| "mask (PTuple xs) = PTuple (map mask xs)"
| "mask (PIntMap d) = PIntMap (map (\<lambda>(i, v). (i, mask v)) d)"
| "mask v = v"

fun texts :: "pyobj \<Rightarrow> string set" where
  "texts (PStr s) = {s}"
| "texts (PDict d) = (\<Union>(key, v) \<in> set d. insert key (texts v))"
| "texts (PProxy d) = (\<Union>(key, v) \<in> set d. insert key (texts v))"
| "texts (PList xs) = (\<Union>x \<in> set xs. texts x)"
| "texts (PTuple xs) = (\<Union>x \<in> set xs. texts x)"
| "texts (PIntMap d) = (\<Union>(key, v) \<in> set d. texts v)"
| "texts v = {}"

text \<open>No mapping inside has a key that is not a string; one such key makes the code keep the mapping as it is.\<close>

fun string_keys :: "pyobj \<Rightarrow> bool" where
  "string_keys (PDict d) = list_all (\<lambda>(key, v). string_keys v) d"
| "string_keys (PProxy d) = list_all (\<lambda>(key, v). string_keys v) d"
| "string_keys (PList xs) = list_all string_keys xs"
| "string_keys (PTuple xs) = list_all string_keys xs"
| "string_keys (PIntMap d) = (d = [])"
| "string_keys v = True"

lemma sanitize_mask: "string_keys (mask v) \<Longrightarrow> sanitize_diagnostic_value v = sanitize_diagnostic_value (mask v)"
proof (induction v rule: sanitize_diagnostic_value.induct)
  case (2 d)
  have "map (\<lambda>(key, v). (redact_sensitive_text key,
      if is_sensitive_metadata_key key then PStr ''***'' else sanitize_diagnostic_value v)) d =
    map (\<lambda>(key, v). (redact_sensitive_text key,
      if is_sensitive_metadata_key key then PStr ''***'' else sanitize_diagnostic_value v))
      (map (\<lambda>(key, v). (key, if is_sensitive_metadata_key key then PNone else mask v)) d)"
    unfolding list.map_comp by (rule map_cong [OF refl]) (use 2 in \<open>fastforce simp: list_all_iff split: if_splits\<close>)
  then show ?case by (simp only: mask.simps sanitize_diagnostic_value.simps)
next
  case (3 d)
  have "map (\<lambda>(key, v). (redact_sensitive_text key,
      if is_sensitive_metadata_key key then PStr ''***'' else sanitize_diagnostic_value v)) d =
    map (\<lambda>(key, v). (redact_sensitive_text key,
      if is_sensitive_metadata_key key then PStr ''***'' else sanitize_diagnostic_value v))
      (map (\<lambda>(key, v). (key, if is_sensitive_metadata_key key then PNone else mask v)) d)"
    unfolding list.map_comp by (rule map_cong [OF refl]) (use 3 in \<open>fastforce simp: list_all_iff split: if_splits\<close>)
  then show ?case by (simp only: mask.simps sanitize_diagnostic_value.simps)
qed (auto simp: list_all_iff)

lemma set_update: "set (AList.update key v m) \<subseteq> insert (key, v) (set m)"
  by (induction m) auto

lemma set_updates: "set (foldl (\<lambda>m (key, v). AList.update key v m) m ps) \<subseteq> set m \<union> set ps"
proof (induction ps arbitrary: m)
  case (Cons p ps)
  obtain key v where p: "p = (key, v)" by (cases p)
  have "set (foldl (\<lambda>m (key, v). AList.update key v m) m (p # ps)) \<subseteq> set (AList.update key v m) \<union> set ps"
    using Cons.IH [of "AList.update key v m"] p by simp
  also have "\<dots> \<subseteq> set m \<union> set (p # ps)" using set_update [of key v m] p by auto
  finally show ?case .
qed simp

definition redacted :: "string \<Rightarrow> bool" where
  "redacted s \<longleftrightarrow> s = ''***'' \<or> s \<in> range redact_sensitive_text"

lemma texts_fields:
  assumes "\<And>key v. (key, v) \<in> set d \<Longrightarrow> \<not> is_sensitive_metadata_key key \<Longrightarrow> string_keys (sanitize_diagnostic_value v) \<Longrightarrow>
    \<forall>s \<in> texts (sanitize_diagnostic_value v). redacted s"
    and "string_keys (PDict (foldl (\<lambda>m (key, v). AList.update key v m) []
       (map (\<lambda>(key, v). (redact_sensitive_text key,
          if is_sensitive_metadata_key key then PStr ''***'' else sanitize_diagnostic_value v)) d)))"
  shows "\<forall>s \<in> texts (PDict (foldl (\<lambda>m (key, v). AList.update key v m) []
       (map (\<lambda>(key, v). (redact_sensitive_text key,
          if is_sensitive_metadata_key key then PStr ''***'' else sanitize_diagnostic_value v)) d))). redacted s"
proof
  let ?ps = "map (\<lambda>(key, v). (redact_sensitive_text key,
          if is_sensitive_metadata_key key then PStr ''***'' else sanitize_diagnostic_value v)) d"
  fix s
  assume "s \<in> texts (PDict (foldl (\<lambda>m (key, v). AList.update key v m) [] ?ps))"
  then obtain key v where f: "(key, v) \<in> set (foldl (\<lambda>m (key, v). AList.update key v m) [] ?ps)" "s \<in> insert key (texts v)"
    by auto
  have keys: "string_keys v" using assms(2) f(1) by (auto simp: list_all_iff)
  have "(key, v) \<in> set ?ps" using set_updates [of "[]" ?ps] f(1) by auto
  then obtain k w where w: "(k, w) \<in> set d" "key = redact_sensitive_text k"
    "v = (if is_sensitive_metadata_key k then PStr ''***'' else sanitize_diagnostic_value w)" by auto
  show "redacted s" using f(2) w(2,3) assms(1) [OF w(1)] keys by (auto simp: redacted_def split: if_splits)
qed

lemma sanitize_texts: "string_keys (sanitize_diagnostic_value v) \<Longrightarrow> \<forall>s \<in> texts (sanitize_diagnostic_value v). redacted s"
proof (induction v rule: sanitize_diagnostic_value.induct)
  case (1 s)
  then show ?case by (simp add: redacted_def)
next
  case (2 d)
  show ?case unfolding sanitize_diagnostic_value.simps
    by (rule texts_fields) (use 2 in \<open>auto simp del: string_keys.simps texts.simps\<close>)
next
  case (3 d)
  show ?case unfolding sanitize_diagnostic_value.simps
    by (rule texts_fields) (use 3 in \<open>auto simp del: string_keys.simps texts.simps\<close>)
qed (auto simp: list_all_iff split: if_splits)

lemma updates_string_keys:
  assumes "\<And>key v. (key, v) \<in> set ps \<Longrightarrow> string_keys v"
  shows "string_keys (PDict (foldl (\<lambda>m (key, v). AList.update key v m) [] ps))"
  using assms set_updates [of "[]" ps] by (auto simp: list_all_iff)

lemma sanitize_string_keys: "string_keys (mask v) \<Longrightarrow> string_keys (sanitize_diagnostic_value v)"
proof (induction v rule: sanitize_diagnostic_value.induct)
  case (2 d)
  show ?case unfolding sanitize_diagnostic_value.simps
    by (rule updates_string_keys) (use 2 in \<open>fastforce simp: list_all_iff split: if_splits\<close>)
next
  case (3 d)
  show ?case unfolding sanitize_diagnostic_value.simps
    by (rule updates_string_keys) (use 3 in \<open>fastforce simp: list_all_iff split: if_splits\<close>)
qed (auto simp: list_all_iff)

text \<open>
  A mapping with a key that is not a string is handed on as it is, whatever stands in it: this is the one
  way past the redaction.
\<close>

lemma other_keys_escape:
  "sanitize_diagnostic_value (PDict [(''a'', PIntMap [(1, PDict [(''token'', PStr s)])])]) =
     PDict [(redact_sensitive_text ''a'', PIntMap [(1, PDict [(''token'', PStr s)])])]"
proof -
  have "\<not> is_sensitive_metadata_key ''a''" by code_simp
  then show ?thesis by simp
qed

text \<open>
  C37: Sanitized metadata reveal nothing that stands under a sensitive key, at any depth, as long as the
  mappings outside of what is hidden have keys that are strings: two values that differ only under sensitive
  keys are sanitized to the same one, and every string of the result, its keys included, is the replacement
  mark or has been through the redaction of credentials. The condition is needed: a mapping with another key
  is returned unchanged, with the secrets in it.
\<close>

theorem sanitize_noninterference:
  assumes "mask v = mask w" and "string_keys (mask v)"
  shows "sanitize_diagnostic_value v = sanitize_diagnostic_value w
    \<and> (\<forall>s \<in> texts (sanitize_diagnostic_value v). s = ''***'' \<or> s \<in> range redact_sensitive_text)"
  using assms sanitize_mask [of v] sanitize_mask [of w] sanitize_texts [of v] sanitize_string_keys [of v]
  by (simp add: redacted_def)

lemma sanitize_noninterference_witness:
  "sanitize_diagnostic_value (PDict [(''user'', PStr ''ada''), (''auth'', PDict [(''X.Api-Key'', PStr ''k1'')])]) =
   sanitize_diagnostic_value (PDict [(''user'', PStr ''ada''), (''auth'', PDict [(''X.Api-Key'', PList [PInt 7])])])"
proof -
  have "is_sensitive_metadata_key ''X.Api-Key''" "\<not> is_sensitive_metadata_key ''user''" "\<not> is_sensitive_metadata_key ''auth''"
    by code_simp+
  then show ?thesis by (intro conjunct1 [OF sanitize_noninterference]) simp_all
qed

end
