(* ===== verification/TerminalWarning.thy ===== *)
theory TerminalWarning
  imports Registries LogRecord Diagnostics
begin

text \<open>
  Warnings of last resort (\<open>runtime/warning.py\<close>, \<open>log/warning.py\<close>): what the logs could not do is told
  on the terminal, under a registered contract, in one line and without credentials.
\<close>

section \<open>Definitions\<close>

record TerminalWarningDefinition =
  tw_event :: string
  tw_fields :: "string list"
  tw_validator :: "pydict \<Rightarrow> unit result"
  tw_suffix :: "string option"

text \<open>\<open>_WARNING_IDENTITY_RE\<close>: two identity segments around a slash.\<close>

definition warning_identity :: "string \<Rightarrow> bool" where
  "warning_identity s \<longleftrightarrow> (let parts = split_on (CHR ''/'') s in length parts = 2 \<and> list_all identity_segment parts)"

text \<open>\<open>str.isidentifier\<close> on code points below 256.\<close>

definition identifier_start :: "char \<Rightarrow> bool" where
  "identifier_start c \<longleftrightarrow>
     (let n = of_char c :: nat in
      65 \<le> n \<and> n \<le> 90 \<or> n = 95 \<or> 97 \<le> n \<and> n \<le> 122 \<or> n \<in> {170, 181, 186} \<or> 192 \<le> n \<and> n \<noteq> 215 \<and> n \<noteq> 247)"

definition identifier_part :: "char \<Rightarrow> bool" where
  "identifier_part c \<longleftrightarrow> identifier_start c \<or> (let n = of_char c :: nat in 48 \<le> n \<and> n \<le> 57 \<or> n = 183)"

definition is_identifier :: "string \<Rightarrow> bool" where
  "is_identifier s \<longleftrightarrow> s \<noteq> [] \<and> identifier_start (hd s) \<and> list_all identifier_part (tl s)"

definition make_warning :: "TerminalWarningDefinition \<Rightarrow> TerminalWarningDefinition result" where
  "make_warning d =
     bindE (raise_if (\<not> warning_identity (tw_event d)) (ValueError ''terminal warning event is invalid'')) (\<lambda>_.
     bindE (raise_if (\<not> distinct (tw_fields d)) (ValueError ''terminal warning fields must be unique'')) (\<lambda>_.
     bindE (raise_if (list_ex (\<lambda>f. f = '''' \<or> \<not> is_identifier f \<or> hd f = CHR ''_'') (tw_fields d))
              (ValueError ''terminal warning field is invalid'')) (\<lambda>_.
     bindE (raise_if (case tw_suffix d of None \<Rightarrow> False | Some s \<Rightarrow> blank s)
              (ValueError ''terminal warning suffix must not be blank'')) (\<lambda>_.
       Inr d))))"

text \<open>\<open>type(value) is int\<close> excludes booleans, which are no strings either.\<close>

definition render_value :: "pyobj \<Rightarrow> string result" where
  "render_value v =
     (let bad = Inl (TerminalWarningSchemaError ''terminal warning values must be integers or non-blank strings'') in
      case v of
        PInt i \<Rightarrow> Inr (dec_int i)
      | PStr s \<Rightarrow> if blank s then bad else Inr (join_with '' '' (split_words s))
      | _ \<Rightarrow> bad)"

text \<open>\<open>metadata[field]\<close>, and the facts of the warning in the order of its definition.\<close>

definition render_fact :: "pydict \<Rightarrow> string \<Rightarrow> string result" where
  "render_fact metadata f =
     bindE (field metadata f) (\<lambda>v. bindE (render_value v) (\<lambda>s. Inr (f @ ''='' @ s)))"

definition warning_render :: "TerminalWarningDefinition \<Rightarrow> pydict \<Rightarrow> string result" where
  "warning_render d metadata =
     bindE (raise_if (set (map fst metadata) \<noteq> set (tw_fields d))
              (TerminalWarningSchemaError ''terminal warning metadata fields differ'')) (\<lambda>_.
     bindE (tw_validator d metadata) (\<lambda>_.
     bindE (mapE (render_fact metadata) (tw_fields d)) (\<lambda>parts.
       let facts = join_with '' '' parts;
           message = (if facts = '''' then tw_event d else tw_event d @ '': '' @ facts) in
       Inr (redact_sensitive_text (case tw_suffix d of None \<Rightarrow> message | Some s \<Rightarrow> message @ ''; '' @ s)))))"

section \<open>The registry\<close>

type_synonym TerminalWarningRegistry = "(string, TerminalWarningDefinition) DefinitionRegistry"

definition warning_resolve :: "string \<Rightarrow> TerminalWarningRegistry \<Rightarrow> TerminalWarningDefinition result" where
  "warning_resolve event r =
     translate (\<lambda>e. if e = DefinitionRegistryUnsealedError then TerminalWarningRegistryUnsealedError else e)
       (dr_resolve event r)"

fun warning_register_all :: "TerminalWarningDefinition list \<Rightarrow> (TerminalWarningRegistry, unit) act" where
  "warning_register_all [] = ret_act ()"
| "warning_register_all (d # ds) = bind_act (dr_register tw_event d) (\<lambda>_. warning_register_all ds)"

definition build_warning_registry :: "TerminalWarningDefinition list \<Rightarrow> TerminalWarningRegistry result" where
  "build_warning_registry ds =
     bindE (mapE make_warning ds) (\<lambda>ds.
     bindE (make_registry ''terminal warning'') (\<lambda>r.
     case warning_register_all ds r of (Inl e, _) \<Rightarrow> Inl e | (Inr _, r') \<Rightarrow> Inr (dr_seal r')))"

text \<open>
  \<open>emit_registered_terminal_warning\<close> cannot fail: what it cannot render it reports under a fixed form.
  \<open>view\<close> is how an exception shows (its class name, \<open>str\<close> and chain), \<open>text_of_warning\<close> the text
  passed to \<open>warnings.warn\<close>, whose own failures are dropped.
\<close>

definition warning_text :: "(exn \<Rightarrow> raised_exception) \<Rightarrow> TerminalWarningRegistry \<Rightarrow> string \<Rightarrow> pydict \<Rightarrow> string" where
  "warning_text view r event metadata =
     (case bindE (warning_resolve event r) (\<lambda>d. warning_render d metadata) of
        Inr message \<Rightarrow> message
      | Inl e \<Rightarrow> ''runtime/terminal_warning_render_failed: event='' @ redact_sensitive_text event
                @ '' error='' @ diagnostic_exception_message None (view e))"

section \<open>The warnings of the logs\<close>

definition warning_error :: "unit result" where
  "warning_error = Inl (TerminalWarningSchemaError ''logging terminal warning field is invalid'')"

definition check_component :: "string \<Rightarrow> pydict \<Rightarrow> unit result" where
  "check_component f metadata =
     bindE (field metadata f) (\<lambda>v. if v \<in> PStr ` set LOG_COMPONENTS then Inr () else warning_error)"

definition check_string :: "string \<Rightarrow> pydict \<Rightarrow> unit result" where
  "check_string f metadata =
     bindE (field metadata f) (\<lambda>v. case v of PStr s \<Rightarrow> (if blank s then warning_error else Inr ()) | _ \<Rightarrow> warning_error)"

definition check_count :: "pydict \<Rightarrow> unit result" where
  "check_count metadata =
     bindE (field metadata ''count'') (\<lambda>v. case v of PInt i \<Rightarrow> (if i < 1 then warning_error else Inr ()) | _ \<Rightarrow> warning_error)"

definition validate_lock_cleanup :: "pydict \<Rightarrow> unit result" where
  "validate_lock_cleanup metadata =
     bindE (check_component ''component'' metadata) (\<lambda>_.
     bindE (field metadata ''operation'') (\<lambda>v.
     bindE (if \<not> hashable v then Inl (TypeError ''unhashable type'')
            else if v \<in> {PStr ''unlock'', PStr ''close''} then Inr () else warning_error) (\<lambda>_.
       check_string ''error_type'' metadata)))"

definition validate_component_error :: "pydict \<Rightarrow> unit result" where
  "validate_component_error metadata =
     bindE (check_component ''component'' metadata) (\<lambda>_. check_string ''error_type'' metadata)"

definition validate_observer :: "pydict \<Rightarrow> unit result" where
  "validate_observer metadata =
     bindE (check_string ''observer_error'' metadata) (\<lambda>_. check_string ''log_error'' metadata)"

text \<open>\<open>Path(name).name = name\<close> for a non-blank name: it has no slash and is not the current directory.\<close>

definition basename :: "string \<Rightarrow> bool" where
  "basename s \<longleftrightarrow> CHR ''/'' \<notin> set s \<and> s \<noteq> ''.''"

definition validate_corruption :: "pydict \<Rightarrow> unit result" where
  "validate_corruption metadata =
     bindE (check_component ''component'' metadata) (\<lambda>_.
     bindE (check_string ''file'' metadata) (\<lambda>_.
     bindE (case dict_get metadata ''file'' of PStr s \<Rightarrow> if basename s then Inr () else warning_error | _ \<Rightarrow> warning_error) (\<lambda>_.
     bindE (check_count metadata) (\<lambda>_.
       check_string ''first_error'' metadata))))"

definition validate_identity :: "pydict \<Rightarrow> unit result" where
  "validate_identity metadata =
     bindE (check_count metadata) (\<lambda>_.
     bindE (check_component ''first_component'' metadata) (\<lambda>_.
       check_string ''first_event'' metadata))"

definition log_warning_definitions :: "TerminalWarningDefinition list" where
  "log_warning_definitions =
     [\<lparr>tw_event = ''logs/lock_cleanup_failed'', tw_fields = [''component'', ''operation'', ''error_type''],
       tw_validator = validate_lock_cleanup, tw_suffix = None\<rparr>,
      \<lparr>tw_event = ''logs/append_rollback_failed'', tw_fields = [''component'', ''error_type''],
       tw_validator = validate_component_error, tw_suffix = None\<rparr>,
      \<lparr>tw_event = ''logs/rotation_failed'', tw_fields = [''component'', ''error_type''],
       tw_validator = validate_component_error, tw_suffix = Some ''continuing without guaranteed retention bounds''\<rparr>,
      \<lparr>tw_event = ''daemon/log_observer_failed'', tw_fields = [''observer_error'', ''log_error''],
       tw_validator = validate_observer, tw_suffix = None\<rparr>,
      \<lparr>tw_event = ''logs/corrupt_records_skipped'', tw_fields = [''component'', ''file'', ''count'', ''first_error''],
       tw_validator = validate_corruption, tw_suffix = None\<rparr>,
      \<lparr>tw_event = ''logs/event_identity_conflict'', tw_fields = [''count'', ''first_component'', ''first_event''],
       tw_validator = validate_identity, tw_suffix = None\<rparr>]"

definition LOG_TERMINAL_WARNING_REGISTRY :: TerminalWarningRegistry where
  "LOG_TERMINAL_WARNING_REGISTRY =
     (case build_warning_registry log_warning_definitions of
        Inr r \<Rightarrow> r
      | Inl _ \<Rightarrow> \<lparr>dr_entries = [], dr_sealed = False\<rparr>)"

section \<open>A warning is one line\<close>

text \<open>A substitution puts no characters into the text but those its function puts there.\<close>

lemma re_sub_chars:
  assumes "\<And>a b. set (f a b) \<subseteq> set a \<union> set b \<union> extra"
  shows "set (re_sub prefix v f prev s) \<subseteq> set s \<union> extra"
  using assms
proof (induction prefix v f prev s rule: re_sub.induct)
  case (2 prefix v f prev c cs)
  show ?case
  proof (cases "first_match prefix v prev (c # cs)")
    case None
    then show ?thesis using 2(1) [OF None 2(4)] by auto
  next
    case (Some m)
    obtain n k where m: "m = (n, k)" by (cases m)
    show ?thesis
    proof (cases "n + k = 0")
      case True
      then show ?thesis using 2(2) [OF Some m [symmetric] True 2(4)] Some m by auto
    next
      case False
      have "set (re_sub prefix v f (last_char prev (take (n + k) (c # cs))) (drop (n + k) (c # cs)))
          \<subseteq> set (drop (n + k) (c # cs)) \<union> extra"
        by (rule 2(3) [OF Some m [symmetric] False 2(4)])
      moreover have "set (f (take n (c # cs)) (take k (drop n (c # cs)))) \<subseteq> set (c # cs) \<union> extra"
        using 2(4) [of "take n (c # cs)" "take k (drop n (c # cs))"] set_take_subset [of n "c # cs"]
          set_take_subset [of k "drop n (c # cs)"] set_drop_subset [of n "c # cs"] by blast
      moreover have "re_sub prefix v f prev (c # cs) = f (take n (c # cs)) (take k (drop n (c # cs)))
          @ re_sub prefix v f (last_char prev (take (n + k) (c # cs))) (drop (n + k) (c # cs))"
        using Some m False by (subst re_sub.simps) (auto simp del: re_sub.simps)
      ultimately show ?thesis using set_drop_subset [of "n + k" "c # cs"] by auto
    qed
  qed
qed simp

lemma redact_chars: "set (redact_sensitive_text s) \<subseteq> set s \<union> set ''Bearer ***''"
proof -
  have label: "set (redact_labeled_value a b) \<subseteq> set a \<union> set b \<union> set ''Bearer ***''" for a b
    by (cases b) (auto simp: redact_labeled_value_def)
  have one: "set (re_sub p v redact_labeled_value None x) \<subseteq> set x \<union> set ''Bearer ***''" for p v x
    by (rule re_sub_chars [OF label])
  have two: "set (re_sub p v (\<lambda>_ _. ''Bearer ***'') None x) \<subseteq> set x \<union> set ''Bearer ***''" for p v x
    by (rule re_sub_chars) simp
  have three: "set (re_sub p v (\<lambda>_ _. ''***'') None x) \<subseteq> set x \<union> set ''Bearer ***''" for p v x
    by (rule re_sub_chars) auto
  show ?thesis
    unfolding redact_sensitive_text_def using one two three by (meson Un_least Un_upper2 subset_trans)
qed

text \<open>What a rendered warning can consist of: its identity, its fields, its suffix and words.\<close>

definition inline :: "char \<Rightarrow> bool" where
  "inline c \<longleftrightarrow> c = CHR '' '' \<or> \<not> py_space c"

lemma dec_digits: "c \<in> set (dec_nat n) \<Longrightarrow> \<not> py_space c"
proof (induction n rule: dec_nat.induct)
  case (1 n)
  have digit: "\<not> py_space (char_of (48 + d))" if "d < 10" for d :: nat
    using that by (simp add: py_space_def)
  show ?case
  proof (cases "n < 10")
    case True
    then show ?thesis using 1(2) digit by (simp add: dec_nat.simps [of n])
  next
    case False
    then show ?thesis using 1 digit [of "n mod 10"] by (auto simp: dec_nat.simps [of n])
  qed
qed

lemma render_value_inline: "render_value v = Inr s \<Longrightarrow> \<forall>c \<in> set s. inline c"
proof (cases v)
  case (PInt i)
  assume "render_value v = Inr s"
  then have "s = dec_int i" using PInt by (simp add: render_value_def Let_def)
  then show ?thesis by (auto simp: dec_int_def inline_def py_space_def dest: dec_digits split: if_splits)
next
  case (PStr x)
  assume "render_value v = Inr s"
  then have "s = join_with '' '' (split_words x)" using PStr by (simp add: render_value_def Let_def split: if_splits)
  then show ?thesis using set_join_with [of "'' ''" "split_words x"] by (auto simp: inline_def dest: set_split_words)
qed (simp_all add: render_value_def)

lemma render_facts_inline:
  "mapE (render_fact metadata) fs = Inr parts \<Longrightarrow> \<forall>f \<in> set fs. \<forall>c \<in> set f. inline c \<Longrightarrow> \<forall>p \<in> set parts. \<forall>c \<in> set p. inline c"
proof (induction fs arbitrary: parts)
  case (Cons f fs)
  then obtain q ps where q: "render_fact metadata f = Inr q" "mapE (render_fact metadata) fs = Inr ps" "parts = q # ps"
    by (auto simp: result_simps)
  moreover from q(1) obtain v s where "render_value v = Inr s" "q = f @ ''='' @ s"
    by (auto simp: result_simps render_fact_def)
  moreover have "inline (CHR ''='')" by (simp add: inline_def py_space_def)
  ultimately show ?case using Cons.IH Cons.prems(2) render_value_inline by auto
qed simp

lemma identifier_inline: "is_identifier f \<Longrightarrow> c \<in> set f \<Longrightarrow> inline c"
proof -
  assume f: "is_identifier f" "c \<in> set f"
  then have "identifier_part c" by (cases f) (auto simp: is_identifier_def identifier_part_def list_all_iff)
  then show ?thesis by (auto simp: inline_def py_space_def identifier_part_def identifier_start_def Let_def)
qed

lemma split_on_chars: "c \<in> set s \<Longrightarrow> c = sep \<or> (\<exists>w \<in> set (split_on sep s). c \<in> set w)"
  by (induction s) (auto split: list.splits if_splits)

lemma identity_inline: "warning_identity s \<Longrightarrow> c \<in> set s \<Longrightarrow> inline c"
proof -
  assume s: "warning_identity s" "c \<in> set s"
  have segment: "inline c" if "identity_segment w" "c \<in> set w" for w
  proof -
    have "slug_char c" using that by (cases w) (auto simp: identity_segment_def slug_char_def list_all_iff)
    then show ?thesis by (auto simp: inline_def py_space_def slug_char_def lower_char_def)
  qed
  show ?thesis
    using split_on_chars [OF s(2), of "CHR ''/''"] s(1) segment
    by (auto simp: warning_identity_def Let_def list_all_iff inline_def py_space_def)
qed

text \<open>
  A warning that is rendered is one line: whatever the values are that are reported, the only space in
  it is the blank, provided the suffix of its definition contains no other.
\<close>

theorem warning_one_line:
  assumes "make_warning d = Inr d" and "\<forall>s. tw_suffix d = Some s \<longrightarrow> (\<forall>c \<in> set s. inline c)"
    and "warning_render d metadata = Inr message"
  shows "\<forall>c \<in> set message. py_space c \<longrightarrow> c = CHR '' ''"
proof -
  obtain parts where parts: "mapE (render_fact metadata) (tw_fields d) = Inr parts"
    and message: "message = redact_sensitive_text ((if join_with '' '' parts = '''' then tw_event d
         else tw_event d @ '': '' @ join_with '' '' parts) @ (case tw_suffix d of None \<Rightarrow> '''' | Some s \<Rightarrow> ''; '' @ s))"
    using assms(3) by (auto simp: warning_render_def result_simps Let_def split: option.splits if_splits)
  have "\<forall>f \<in> set (tw_fields d). \<forall>c \<in> set f. inline c"
    using assms(1) by (auto simp: make_warning_def result_simps list_ex_iff raise_if_def dest: identifier_inline split: if_splits)
  then have "\<forall>p \<in> set parts. \<forall>c \<in> set p. inline c" using render_facts_inline [OF parts] by blast
  then have facts: "\<forall>c \<in> set (join_with '' '' parts). inline c"
    using set_join_with [of "'' ''" parts] by (auto simp: inline_def)
  have event: "\<forall>c \<in> set (tw_event d). inline c"
    using assms(1) by (auto simp: make_warning_def result_simps raise_if_def dest: identity_inline split: if_splits)
  let ?text = "(if join_with '' '' parts = '''' then tw_event d else tw_event d @ '': '' @ join_with '' '' parts)
     @ (case tw_suffix d of None \<Rightarrow> '''' | Some s \<Rightarrow> ''; '' @ s)"
  have literal: "\<forall>c \<in> set '': ;Bearer ***''. inline c" by (simp add: inline_def py_space_def)
  then have "\<forall>c \<in> set ?text. inline c" using facts event assms(2) by (cases "tw_suffix d") auto
  moreover have "set message \<subseteq> set ?text \<union> set ''Bearer ***''" unfolding message by (rule redact_chars)
  ultimately have "\<forall>c \<in> set message. inline c" using literal by (simp add: subset_iff) blast
  then show ?thesis by (auto simp: inline_def)
qed

lemma log_registry_built: "build_warning_registry log_warning_definitions = Inr LOG_TERMINAL_WARNING_REGISTRY"
proof -
  have "\<exists>r. build_warning_registry log_warning_definitions = Inr r"
    by (simp add: build_warning_registry_def log_warning_definitions_def make_warning_def warning_identity_def
        identity_segment_def slug_char_def lower_char_def is_identifier_def identifier_start_def identifier_part_def
        blank_def py_space_def make_registry_def bind_act_def dr_register_def)
  then show ?thesis by (auto simp: LOG_TERMINAL_WARNING_REGISTRY_def)
qed

theorem warning_one_line_witness:
  "\<exists>message. warning_render (log_warning_definitions ! 2) [(''component'', PStr ''chat''), (''error_type'', PStr (''OS'' @ [char_of (10::nat)] @ ''Error''))]
       = Inr message \<and> (\<forall>c \<in> set message. py_space c \<longrightarrow> c = CHR '' '')"
proof -
  let ?d = "log_warning_definitions ! 2"
  have made: "make_warning ?d = Inr ?d"
    by (simp add: make_warning_def log_warning_definitions_def warning_identity_def identity_segment_def slug_char_def
        lower_char_def is_identifier_def identifier_start_def identifier_part_def blank_def py_space_def)
  have suffix: "\<forall>s. tw_suffix ?d = Some s \<longrightarrow> (\<forall>c \<in> set s. inline c)"
    by (simp add: log_warning_definitions_def inline_def py_space_def)
  have "\<exists>message. warning_render ?d [(''component'', PStr ''chat''), (''error_type'', PStr (''OS'' @ [char_of (10::nat)] @ ''Error''))] = Inr message"
    by (simp add: warning_render_def log_warning_definitions_def validate_component_error_def check_component_def
        check_string_def LOG_COMPONENTS_def render_fact_def render_value_def blank_def py_space_def Let_def)
  then show ?thesis using warning_one_line [OF made suffix] by blast
qed

end
