(* ===== verification/AuditDefs.thy ===== *)
theory AuditDefs
  imports TerminalWarning
begin

text \<open>
  The contracts of directly written audit events (\<open>runtime/audit/definition.py\<close>): a definition fixes level,
  status, error, duration and metadata of its event; the registry keeps one definition for each component
  and event.
\<close>

section \<open>Definitions\<close>

record AuditEventDefinition =
  ad_component :: string
  ad_event :: string
  ad_level :: string
  ad_status :: "string option"
  ad_error_policy :: string
  ad_duration_policy :: string
  ad_validator :: "pydict \<Rightarrow> unit result"

text \<open>
  \<open>require_exact_metadata\<close> on the keys of a mapping. The message sorts the fields that are too many, which
  raises \<open>TypeError\<close> when two of them cannot be compared; with keys that are strings it never does.
\<close>

definition sortable :: "pyobj list \<Rightarrow> bool" where
  "sortable vs \<longleftrightarrow> length vs \<le> 1 \<or> list_all (\<lambda>v. case v of PStr s \<Rightarrow> True | _ \<Rightarrow> False) vs
     \<or> list_all (\<lambda>v. case v of PInt i \<Rightarrow> True | PBool b \<Rightarrow> True | PFloat x \<Rightarrow> True | _ \<Rightarrow> False) vs"

definition require_exact_fields :: "string list \<Rightarrow> pyobj list \<Rightarrow> unit result" where
  "require_exact_fields expected actual =
     (if set actual = PStr ` set expected then Inr ()
      else if sortable (filter (\<lambda>v. v \<notin> PStr ` set expected) actual) then Inl (AuditSchemaError ''audit metadata fields differ'')
      else Inl (TypeError ''keys cannot be compared''))"

definition require_exact_metadata :: "string list \<Rightarrow> pydict \<Rightarrow> unit result" where
  "require_exact_metadata expected metadata = require_exact_fields expected (map (\<lambda>(key, _). PStr key) metadata)"

lemma require_exact_metadata_eq:
  "require_exact_metadata expected metadata =
     raise_if (set (map fst metadata) \<noteq> set expected) (AuditSchemaError ''audit metadata fields differ'')"
proof -
  have "set (map (\<lambda>(key, _). PStr key) metadata) = PStr ` set (map fst metadata)" by force
  moreover have "PStr ` A = PStr ` B \<longleftrightarrow> A = B" for A B by (rule inj_image_eq_iff) (simp add: inj_on_def)
  moreover have "sortable (filter P (map (\<lambda>(key, _). PStr key) metadata))" for P
    by (auto simp: sortable_def list_all_iff)
  ultimately show ?thesis by (simp add: require_exact_metadata_def require_exact_fields_def raise_if_def)
qed

text \<open>Keys of several types that do not belong raise an error which is not one of the audit contracts.\<close>

lemma mixed_fields_escape:
  "require_exact_fields [''step'', ''error''] [PStr ''step'', PStr ''other'', PInt 1] = Inl (TypeError ''keys cannot be compared'')"
  by (simp add: require_exact_fields_def sortable_def image_def) auto

definition validate_no_metadata :: "pydict \<Rightarrow> unit result" where
  "validate_no_metadata metadata = require_exact_metadata [] metadata"

definition make_audit_definition :: "AuditEventDefinition \<Rightarrow> AuditEventDefinition result" where
  "make_audit_definition d =
     bindE (raise_if (ad_component d \<notin> set LOG_COMPONENTS) (ValueError ''audit definition component is invalid'')) (\<lambda>_.
     bindE (require_audit_event_name (PStr (ad_event d))) (\<lambda>_.
     bindE (raise_if (ad_level d \<notin> set log_levels) (ValueError ''audit definition level is invalid'')) (\<lambda>_.
     bindE (raise_if (ad_status d = Some '''') (ValueError ''audit definition status must not be empty'')) (\<lambda>_.
     bindE (raise_if (ad_error_policy d \<notin> {''forbidden'', ''required''}) (ValueError ''audit definition error policy is invalid'')) (\<lambda>_.
     bindE (raise_if (ad_duration_policy d \<notin> {''forbidden'', ''required'', ''optional''})
              (ValueError ''audit definition duration policy is invalid'')) (\<lambda>_.
       Inr d))))))"

text \<open>\<open>validate\<close>: the checks in the code's order.\<close>

definition audit_validate ::
  "AuditEventDefinition \<Rightarrow> string \<Rightarrow> string option \<Rightarrow> string option \<Rightarrow> pydict \<Rightarrow> int option \<Rightarrow> unit result" where
  "audit_validate d level status error metadata duration =
     bindE (raise_if (level \<noteq> ad_level d) (AuditSchemaError ''requires level'')) (\<lambda>_.
     bindE (raise_if (status \<noteq> ad_status d) (AuditSchemaError ''requires status'')) (\<lambda>_.
     bindE (if ad_error_policy d = ''required'' then raise_if (error = None \<or> error = Some '''') (AuditSchemaError ''requires an error'')
            else raise_if (error \<noteq> None) (AuditSchemaError ''forbids an error'')) (\<lambda>_.
     bindE (raise_if (case duration of None \<Rightarrow> False | Some n \<Rightarrow> n < 0) (AuditSchemaError ''duration is invalid'')) (\<lambda>_.
     bindE (raise_if (ad_duration_policy d = ''required'' \<and> duration = None) (AuditSchemaError ''requires a duration'')) (\<lambda>_.
     bindE (raise_if (ad_duration_policy d = ''forbidden'' \<and> duration \<noteq> None) (AuditSchemaError ''forbids a duration'')) (\<lambda>_.
       ad_validator d metadata))))))"

section \<open>The registry\<close>

type_synonym AuditDefinitionRegistry = "(string \<times> string, AuditEventDefinition) DefinitionRegistry"

fun audit_registry_error :: "exn \<Rightarrow> exn" where
  "audit_registry_error DefinitionRegistrySealedError = AuditDefinitionRegistrySealedError"
| "audit_registry_error DuplicateDefinitionError = DuplicateAuditDefinitionError"
| "audit_registry_error DefinitionRegistryUnsealedError = AuditDefinitionRegistryUnsealedError"
| "audit_registry_error UnknownDefinitionError = UnknownAuditDefinitionError"
| "audit_registry_error e = e"

definition audit_key :: "AuditEventDefinition \<Rightarrow> string \<times> string" where
  "audit_key d = (ad_component d, ad_event d)"

definition audit_register :: "AuditEventDefinition \<Rightarrow> (AuditDefinitionRegistry, unit) act" where
  "audit_register d r = (case dr_register audit_key d r of (out, r') \<Rightarrow> (translate audit_registry_error out, r'))"

definition audit_resolve :: "string \<Rightarrow> string \<Rightarrow> AuditDefinitionRegistry \<Rightarrow> AuditEventDefinition result" where
  "audit_resolve component event r = translate audit_registry_error (dr_resolve (component, event) r)"

fun audit_register_all :: "AuditEventDefinition list \<Rightarrow> (AuditDefinitionRegistry, unit) act" where
  "audit_register_all [] = ret_act ()"
| "audit_register_all (d # ds) = bind_act (audit_register d) (\<lambda>_. audit_register_all ds)"

definition build_audit_registry :: "AuditEventDefinition list \<Rightarrow> AuditDefinitionRegistry result" where
  "build_audit_registry ds =
     bindE (mapE make_audit_definition ds) (\<lambda>ds.
     bindE (make_registry ''direct audit'') (\<lambda>r.
     case audit_register_all ds r of (Inl e, _) \<Rightarrow> Inl e | (Inr _, r') \<Rightarrow> Inr (dr_seal r')))"

section \<open>Messages\<close>

text \<open>\<open>_message\<close> of a catalog.\<close>

definition catalog_message :: "(string \<times> string) list \<Rightarrow> string \<Rightarrow> string option \<Rightarrow> string result" where
  "catalog_message messages event override =
     (case override of
        Some m \<Rightarrow> Inr m
      | None \<Rightarrow> (case map_of messages event of
                   None \<Rightarrow> Inl (AuditSchemaError ''audit event has no registered message'')
                 | Some m \<Rightarrow> Inr m))"

text \<open>\<open>AuditCatalog.definition\<close>: by component, or the only definition of the event.\<close>

definition catalog_definition :: "AuditDefinitionRegistry \<Rightarrow> string \<Rightarrow> string option \<Rightarrow> AuditEventDefinition result" where
  "catalog_definition r event component =
     (case component of
        Some c \<Rightarrow> audit_resolve c event r
      | None \<Rightarrow>
          (case filter (\<lambda>d. ad_event d = event) (dr_definitions r) of
             [] \<Rightarrow> Inl UnknownAuditDefinitionError
           | [d] \<Rightarrow> Inr d
           | _ \<Rightarrow> Inl (AuditSchemaError ''audit event requires an explicit component'')))"

section \<open>Composition\<close>

lemma audit_register_all_ok:
  "\<not> dr_sealed r \<Longrightarrow> distinct (map fst (dr_entries r) @ map audit_key ds) \<Longrightarrow>
   audit_register_all ds r = (Inr (), r\<lparr>dr_entries := dr_entries r @ map (\<lambda>d. (audit_key d, d)) ds\<rparr>)"
proof (induction ds arbitrary: r)
  case (Cons d ds)
  let ?r = "r\<lparr>dr_entries := dr_entries r @ [(audit_key d, d)]\<rparr>"
  have "audit_register d r = (Inr (), ?r)"
    using Cons.prems by (auto simp: audit_register_def dr_register_def)
  moreover have "audit_register_all ds ?r = (Inr (), ?r\<lparr>dr_entries := dr_entries ?r @ map (\<lambda>d. (audit_key d, d)) ds\<rparr>)"
    by (rule Cons.IH) (use Cons.prems in auto)
  ultimately show ?case by (simp add: bind_act_def)
qed simp

lemma mapE_all: "\<forall>x \<in> set xs. f x = Inr x \<Longrightarrow> mapE f xs = Inr xs"
  by (induction xs) auto

lemma build_audit_ok:
  assumes "\<forall>d \<in> set ds. make_audit_definition d = Inr d" and "distinct (map audit_key ds)"
  shows "build_audit_registry ds = Inr \<lparr>dr_entries = map (\<lambda>d. (audit_key d, d)) ds, dr_sealed = True\<rparr>"
  using assms(2) audit_register_all_ok [of "\<lparr>dr_entries = [], dr_sealed = False\<rparr>" ds]
  by (simp add: build_audit_registry_def mapE_all [OF assms(1)] make_registry_def dr_seal_def)

lemma resolve_built:
  assumes "distinct (map audit_key ds)" and "d \<in> set ds"
  shows "audit_resolve (ad_component d) (ad_event d) \<lparr>dr_entries = map (\<lambda>d. (audit_key d, d)) ds, dr_sealed = True\<rparr> = Inr d"
proof -
  have "map_of (map (\<lambda>d. (audit_key d, d)) ds) (audit_key d) = Some d"
    using assms by (intro map_of_is_SomeI) (auto simp: o_def)
  then show ?thesis by (simp add: audit_resolve_def dr_resolve_def audit_key_def)
qed

end
