(* ===== verification/LogFiles.thy ===== *)
theory LogFiles
  imports AuditDefs
begin

text \<open>
  The structured logs on disk (\<open>log/store.py\<close>): one active file per component with numbered backups,
  rotation, the append of a record with its rollback, the lock around both, and the projections that
  see each written event. Every call into the operating system can fail, at every point.
\<close>

section \<open>The directory\<close>

text \<open>
  A file is its identity (its inode, which a rename keeps) and its bytes, here as characters. The backups
  are indexed by the number in their names. \<open>ls_synced\<close> is the cache of directory entries known to be
  durable, oldest first, \<open>ls_appends\<close> how many appends there were, and \<open>ls_warnings\<close> what went to the
  terminal.
\<close>

record log_file =
  lf_inode :: nat
  lf_bytes :: string

record log_dir =
  ld_active :: "log_file option"
  ld_backups :: "(nat \<times> log_file) list"

record log_store =
  ls_dirs :: "string \<Rightarrow> log_dir"
  ls_synced :: "(string \<times> nat) list"
  ls_next_inode :: nat
  ls_appends :: nat
  ls_warnings :: "string list"

record LogRetentionPolicy =
  rp_max_bytes :: int
  rp_backup_count :: nat

definition make_retention :: "int \<Rightarrow> int \<Rightarrow> LogRetentionPolicy result" where
  "make_retention max_bytes backup_count =
     bindE (raise_if (max_bytes < 1) (ValueError ''log max_bytes must be positive'')) (\<lambda>_.
     bindE (raise_if (backup_count < 1) (ValueError ''log backup_count must be positive'')) (\<lambda>_.
       Inr \<lparr>rp_max_bytes = max_bytes, rp_backup_count = nat backup_count\<rparr>))"

definition DEFAULT_LOG_RETENTION :: LogRetentionPolicy where
  "DEFAULT_LOG_RETENTION = \<lparr>rp_max_bytes = 10 * 1024 * 1024, rp_backup_count = 3\<rparr>"

text \<open>\<open>component_log_paths\<close>: the backups, oldest first, then the active file; and their whole content.\<close>

definition component_log_files :: "log_dir \<Rightarrow> log_file list" where
  "component_log_files d =
     map snd (rev (sort_key fst (ld_backups d))) @ (case ld_active d of None \<Rightarrow> [] | Some f \<Rightarrow> [f])"

definition log_bytes :: "log_dir \<Rightarrow> string" where
  "log_bytes d = concat (map lf_bytes (component_log_files d))"

section \<open>Calls that can fail\<close>

text \<open>
  The calls of one append, each of which happens at most once; \<open>OpEnsure i\<close> and \<open>OpReplace i\<close> concern
  the backup of index \<open>i\<close> or, for 0, the active file. An append meets \<open>lo_faults\<close> and, for the
  successive calls of \<open>write\<close>, the counts or exceptions \<open>lo_writes\<close>.
\<close>

datatype log_op =
  OpDirs | OpEnsureLock | OpOpenLock | OpLock | OpUnlock | OpCloseLock | OpEnsure nat | OpStat | OpUnlink | OpReplace nat
| OpCreate | OpStatActive | OpSyncDirectory | OpOpen | OpSeek | OpSync | OpTruncate | OpSyncRollback | OpClose

record log_os =
  lo_faults :: "log_op \<Rightarrow> exn option"
  lo_writes :: "nat \<Rightarrow> int result"

definition call :: "log_os \<Rightarrow> log_op \<Rightarrow> ('s, unit) act" where
  "call os op s = (case lo_faults os op of None \<Rightarrow> Inr () | Some e \<Rightarrow> Inl e, s)"

section \<open>Rotation\<close>

text \<open>\<open>source.replace(target)\<close> on backups.\<close>

definition shift_backup :: "nat \<Rightarrow> log_dir \<Rightarrow> log_dir" where
  "shift_backup i d =
     (case map_of (ld_backups d) i of
        None \<Rightarrow> d
      | Some f \<Rightarrow> d\<lparr>ld_backups := AList.update (Suc i) f (AList.delete i (ld_backups d))\<rparr>)"

fun shift_backups :: "log_os \<Rightarrow> nat \<Rightarrow> (log_dir, unit) act" where
  "shift_backups os 0 = ret_act ()"
| "shift_backups os (Suc i) = (\<lambda>d.
     if map_of (ld_backups d) (Suc i) = None then shift_backups os i d
     else bind_act (call os (OpReplace (Suc i))) (\<lambda>_. bind_act (modify_act (shift_backup (Suc i))) (\<lambda>_. shift_backups os i)) d)"

definition retire_active :: "log_dir \<Rightarrow> log_dir" where
  "retire_active d =
     (case ld_active d of
        None \<Rightarrow> d
      | Some f \<Rightarrow> d\<lparr>ld_active := None, ld_backups := AList.update 1 f (ld_backups d)\<rparr>)"

definition rotate_log_if_needed :: "log_os \<Rightarrow> LogRetentionPolicy \<Rightarrow> nat \<Rightarrow> (log_dir, unit) act" where
  "rotate_log_if_needed os policy incoming = (\<lambda>d.
     case ld_active d of
       None \<Rightarrow> (Inr (), d)
     | Some f \<Rightarrow>
         bind_act (call os OpStat) (\<lambda>_.
           if lf_bytes f = [] \<or> int (length (lf_bytes f)) + int incoming \<le> rp_max_bytes policy then ret_act ()
           else bind_act (call os OpUnlink) (\<lambda>_.
                bind_act (modify_act (\<lambda>d. d\<lparr>ld_backups := AList.delete (rp_backup_count policy) (ld_backups d)\<rparr>)) (\<lambda>_.
                bind_act (shift_backups os (rp_backup_count policy - 1)) (\<lambda>_.
                bind_act (call os (OpReplace 0)) (\<lambda>_.
                  modify_act retire_active))))) d)"

section \<open>Appending a record\<close>

text \<open>\<open>_write_log_bytes\<close>: the bytes that reached the file, and how the loop ended.\<close>

function write_log_bytes :: "(nat \<Rightarrow> int result) \<Rightarrow> nat \<Rightarrow> string \<Rightarrow> unit result \<times> string" where
  "write_log_bytes writes k rest =
     (if rest = [] then (Inr (), [])
      else case writes k of
        Inl e \<Rightarrow> (Inl e, [])
      | Inr n \<Rightarrow>
          (if n \<le> 0 then (Inl (OSError ''log append made no progress''), [])
           else case write_log_bytes writes (Suc k) (drop (nat n) rest) of (r, out) \<Rightarrow> (r, take (nat n) rest @ out)))"
  by pat_completeness auto

termination by (relation "measure (\<lambda>(writes, k, rest). length rest)") auto

declare write_log_bytes.simps [simp del]

definition extend_active :: "string \<Rightarrow> log_dir \<Rightarrow> log_dir" where
  "extend_active bytes d = d\<lparr>ld_active := map_option (\<lambda>f. f\<lparr>lf_bytes := lf_bytes f @ bytes\<rparr>) (ld_active d)\<rparr>"

definition truncate_active :: "nat \<Rightarrow> log_dir \<Rightarrow> log_dir" where
  "truncate_active n d = d\<lparr>ld_active := map_option (\<lambda>f. f\<lparr>lf_bytes := take n (lf_bytes f)\<rparr>) (ld_active d)\<rparr>"

definition active_size :: "log_dir \<Rightarrow> nat" where
  "active_size d = (case ld_active d of None \<Rightarrow> 0 | Some f \<Rightarrow> length (lf_bytes f))"

text \<open>\<open>_rollback_failed_log_append\<close>; its warning is given by its caller's \<open>warn\<close>.\<close>

definition rollback_append :: "log_os \<Rightarrow> nat \<Rightarrow> (log_dir, unit) act" where
  "rollback_append os boundary =
     bind_act (call os OpTruncate) (\<lambda>_.
     bind_act (modify_act (truncate_active boundary)) (\<lambda>_.
       call os OpSyncRollback))"

text \<open>
  The body of the append, between opening and closing: the primary error, the error of the rollback and
  what is known of the record.
\<close>

definition append_body :: "log_os \<Rightarrow> string \<Rightarrow> log_dir \<Rightarrow> (exn option \<times> exn option \<times> string) \<times> log_dir" where
  "append_body os line d =
     (case lo_faults os OpSeek of
        Some e \<Rightarrow> ((Some e, None, ''not_persisted''), d)
      | None \<Rightarrow>
          (let boundary = active_size d;
               (written, out) = write_log_bytes (lo_writes os) 0 line;
               d' = extend_active out d in
           case bindE written (\<lambda>_. case lo_faults os OpSync of None \<Rightarrow> Inr () | Some e \<Rightarrow> Inl e) of
             Inr _ \<Rightarrow> ((None, None, ''persisted''), d')
           | Inl e \<Rightarrow>
               (case rollback_append os boundary d' of
                  (Inl e2, d'') \<Rightarrow> ((Some e, Some e2, ''uncertain''), d'')
                | (Inr _, d'') \<Rightarrow> ((Some e, None, ''not_persisted''), d''))))"

text \<open>Closing, and what the caller is told.\<close>

definition append_outcome :: "log_os \<Rightarrow> exn option \<times> exn option \<times> string \<Rightarrow> unit result" where
  "append_outcome os = (\<lambda>(primary, rollback, outcome).
     let close = lo_faults os OpClose in
     if rollback \<noteq> None \<or> close \<noteq> None then Inl (LogAppendLifecycleError primary rollback close outcome)
     else case primary of Some e \<Rightarrow> Inl e | None \<Rightarrow> Inr ())"

section \<open>The store\<close>

text \<open>
  What a writer meets: how an exception shows, \<open>json.dumps\<close> of a record with sorted keys, and, for the
  append of each number, the answers of the system, the new identifier and the time.
\<close>

record log_env =
  le_view :: "exn \<Rightarrow> raised_exception"
  le_dumps :: "pydict \<Rightarrow> string"
  le_fromiso :: iso_parser
  le_os :: "nat \<Rightarrow> log_os"
  le_fresh :: "nat \<Rightarrow> string \<times> string"

definition log_warn :: "log_env \<Rightarrow> string \<Rightarrow> pydict \<Rightarrow> 'p log_store_scheme \<Rightarrow> 'p log_store_scheme" where
  "log_warn env event metadata s =
     s\<lparr>ls_warnings := ls_warnings s @ [warning_text (le_view env) LOG_TERMINAL_WARNING_REGISTRY event metadata]\<rparr>"

definition error_metadata :: "log_env \<Rightarrow> string \<Rightarrow> exn \<Rightarrow> pydict" where
  "error_metadata env c e = [(''component'', PStr c), (''error_type'', PStr (raised_class (le_view env e)))]"

definition on_dir :: "string \<Rightarrow> (log_dir, 'a) act \<Rightarrow> ('p log_store_scheme, 'a) act" where
  "on_dir c m s = (case m (ls_dirs s c) of (r, d) \<Rightarrow> (r, s\<lparr>ls_dirs := (ls_dirs s)(c := d)\<rparr>))"

definition create_active :: "string \<Rightarrow> 'p log_store_scheme \<Rightarrow> 'p log_store_scheme" where
  "create_active c s =
     (case ld_active (ls_dirs s c) of
        Some _ \<Rightarrow> s
      | None \<Rightarrow> s\<lparr>ls_dirs := (ls_dirs s)(c := (ls_dirs s c)\<lparr>ld_active := Some \<lparr>lf_inode = ls_next_inode s, lf_bytes = []\<rparr>\<rparr>),
                   ls_next_inode := Suc (ls_next_inode s)\<rparr>)"

text \<open>\<open>_sync_log_directory_for_active\<close>: the directory is synchronized once for each file that becomes active.\<close>

definition sync_cache_limit :: nat where
  "sync_cache_limit = 256"

definition sync_log_directory_for_active :: "log_os \<Rightarrow> string \<Rightarrow> ('p log_store_scheme, unit) act" where
  "sync_log_directory_for_active os c =
     bind_act (call os OpStatActive) (\<lambda>_ s.
       case ld_active (ls_dirs s c) of
         None \<Rightarrow> (Inl (OSError ''no such file''), s)
       | Some f \<Rightarrow>
           (let renewed = filter (\<lambda>x. fst x \<noteq> c) (ls_synced s) @ [(c, lf_inode f)] in
            if map_of (ls_synced s) c = Some (lf_inode f) then (Inr (), s\<lparr>ls_synced := renewed\<rparr>)
            else bind_act (call os OpSyncDirectory)
                   (\<lambda>_. modify_act (\<lambda>s. s\<lparr>ls_synced := drop (length renewed - sync_cache_limit) renewed\<rparr>)) s))"

definition open_log_data_file :: "log_os \<Rightarrow> string \<Rightarrow> ('p log_store_scheme, unit) act" where
  "open_log_data_file os c =
     bind_act (call os OpCreate) (\<lambda>_.
     bind_act (modify_act (create_active c)) (\<lambda>_.
     bind_act (sync_log_directory_for_active os c) (\<lambda>_.
       call os OpOpen)))"

definition append_encoded_log_line :: "log_env \<Rightarrow> log_os \<Rightarrow> string \<Rightarrow> string \<Rightarrow> ('p log_store_scheme, unit) act" where
  "append_encoded_log_line env os c line =
     bind_act (open_log_data_file os c) (\<lambda>_ s.
       case append_body os line (ls_dirs s c) of
         ((primary, rollback, outcome), d) \<Rightarrow>
           (append_outcome os (primary, rollback, outcome),
            (case rollback of None \<Rightarrow> id | Some e \<Rightarrow> log_warn env ''logs/append_rollback_failed'' (error_metadata env c e))
              (s\<lparr>ls_dirs := (ls_dirs s)(c := d)\<rparr>)))"

text \<open>
  \<open>_locked_log_sidecar\<close>: an \<open>OSError\<close> of the cleanup is reported, any other exception of it replaces the
  outcome of the body.
\<close>

definition lock_warning :: "log_env \<Rightarrow> string \<Rightarrow> string \<Rightarrow> exn \<Rightarrow> 'p log_store_scheme \<Rightarrow> 'p log_store_scheme" where
  "lock_warning env c operation e =
     log_warn env ''logs/lock_cleanup_failed''
       [(''component'', PStr c), (''operation'', PStr operation), (''error_type'', PStr (raised_class (le_view env e)))]"

definition cleanup_step :: "log_env \<Rightarrow> log_os \<Rightarrow> string \<Rightarrow> string \<Rightarrow> log_op \<Rightarrow> ('p log_store_scheme, unit) act" where
  "cleanup_step env os c operation op s =
     (case lo_faults os op of
        None \<Rightarrow> (Inr (), s)
      | Some e \<Rightarrow> if is_os_error e then (Inr (), lock_warning env c operation e s) else (Inl e, s))"

definition cleanup_log_sidecar :: "log_env \<Rightarrow> log_os \<Rightarrow> string \<Rightarrow> bool \<Rightarrow> ('p log_store_scheme, unit) act" where
  "cleanup_log_sidecar env os c locked =
     bind_act (if locked then cleanup_step env os c ''unlock'' OpUnlock else ret_act ()) (\<lambda>_.
       cleanup_step env os c ''close'' OpCloseLock)"

definition locked_log_sidecar :: "log_env \<Rightarrow> log_os \<Rightarrow> string \<Rightarrow> ('p log_store_scheme, 'a) act \<Rightarrow> ('p log_store_scheme, 'a) act" where
  "locked_log_sidecar env os c body =
     bind_act (call os OpEnsureLock) (\<lambda>_.
     bind_act (call os OpOpenLock) (\<lambda>_ s.
       let (r, t) = (case lo_faults os OpLock of Some e \<Rightarrow> (Inl e, s) | None \<Rightarrow> body s) in
       case cleanup_log_sidecar env os c (lo_faults os OpLock = None) t of
         (Inl e, u) \<Rightarrow> (Inl e, u)
       | (Inr _, u) \<Rightarrow> (r, u)))"

fun call_all :: "log_os \<Rightarrow> log_op list \<Rightarrow> ('s, unit) act" where
  "call_all os [] = ret_act ()"
| "call_all os (op # ops) = bind_act (call os op) (\<lambda>_. call_all os ops)"

text \<open>The existing files are made private, the log is rotated when it has to be, the line is appended.\<close>

definition existing_indexes :: "log_dir \<Rightarrow> nat list" where
  "existing_indexes d = map fst (rev (sort_key fst (ld_backups d))) @ (case ld_active d of None \<Rightarrow> [] | Some _ \<Rightarrow> [0])"

definition rotate_or_warn :: "log_env \<Rightarrow> log_os \<Rightarrow> LogRetentionPolicy \<Rightarrow> string \<Rightarrow> nat \<Rightarrow> ('p log_store_scheme, unit) act" where
  "rotate_or_warn env os policy c incoming s =
     (case on_dir c (rotate_log_if_needed os policy incoming) s of
        (Inr _, t) \<Rightarrow> (Inr (), t)
      | (Inl e, t) \<Rightarrow> if is_os_error e then (Inr (), log_warn env ''logs/rotation_failed'' (error_metadata env c e) t) else (Inl e, t))"

definition write_log_line :: "log_env \<Rightarrow> log_os \<Rightarrow> LogRetentionPolicy \<Rightarrow> string \<Rightarrow> string \<Rightarrow> ('p log_store_scheme, unit) act" where
  "write_log_line env os policy c line =
     locked_log_sidecar env os c
       (bind_act (\<lambda>s. call_all os (map OpEnsure (existing_indexes (ls_dirs s c))) s) (\<lambda>_.
        bind_act (rotate_or_warn env os policy c (length line)) (\<lambda>_.
          append_encoded_log_line env os c line)))"

definition line_end :: string where
  "line_end = [char_of (10::nat)]"

definition log_line :: "log_env \<Rightarrow> LogEvent \<Rightarrow> string" where
  "log_line env e = le_dumps env (log_to_record e) @ line_end"

text \<open>The part of \<open>_append_log_event\<close> before the projections; it meets the answers for the next append.\<close>

definition persist_log_event :: "log_env \<Rightarrow> LogRetentionPolicy \<Rightarrow> LogEvent \<Rightarrow> ('p log_store_scheme, unit) act" where
  "persist_log_event env policy e s =
     (let os = le_os env (ls_appends s) in
      bind_act (call os OpDirs) (\<lambda>_. write_log_line env os policy (lg_component e) (log_line env e))
        (s\<lparr>ls_appends := Suc (ls_appends s)\<rparr>))"

section \<open>Projections and envelopes\<close>

text \<open>
  A projection sees every written event, except while it runs itself: the bindings that are being run are
  handed on. A failing projection is reported and the next one follows.
\<close>

fun run_projections ::
  "(exn \<Rightarrow> 's \<Rightarrow> 's) \<Rightarrow> nat set \<Rightarrow> (nat \<times> (nat set \<Rightarrow> LogEvent \<Rightarrow> ('s, unit) act)) list \<Rightarrow> LogEvent \<Rightarrow> 's \<Rightarrow> 's" where
  "run_projections report active [] e s = s"
| "run_projections report active ((binding, projection) # ps) e s =
     (if binding \<in> active then run_projections report active ps e s
      else run_projections report active ps e
        (case projection (insert binding active) e s of (Inl x, t) \<Rightarrow> report x t | (Inr _, t) \<Rightarrow> t))"

definition append_log_event ::
  "log_env \<Rightarrow> LogRetentionPolicy \<Rightarrow> (exn \<Rightarrow> 'p log_store_scheme \<Rightarrow> 'p log_store_scheme) \<Rightarrow> nat set
   \<Rightarrow> (nat \<times> (nat set \<Rightarrow> LogEvent \<Rightarrow> ('p log_store_scheme, unit) act)) list \<Rightarrow> LogEvent \<Rightarrow> ('p log_store_scheme, LogEvent) act" where
  "append_log_event env policy report active ps e =
     bind_act (persist_log_event env policy e) (\<lambda>_.
     bind_act (modify_act (run_projections report active ps e)) (\<lambda>_.
       ret_act e))"

text \<open>The optional arguments of the writers.\<close>

record log_args =
  la_level :: string
  la_context :: RuntimeContext
  la_node :: "string option"
  la_duration_ms :: "int option"
  la_status :: "string option"
  la_error :: "string option"
  la_metadata :: "pyobj option"

definition no_args :: log_args where
  "no_args = \<lparr>la_level = ''info'', la_context = empty_context, la_node = None, la_duration_ms = None, la_status = None,
     la_error = None, la_metadata = None\<rparr>"

definition create_audit_envelope ::
  "iso_parser \<Rightarrow> RuntimeContext \<Rightarrow> string \<times> string \<Rightarrow> string \<Rightarrow> string \<Rightarrow> string \<Rightarrow> log_args \<Rightarrow> RuntimeEnvelope result" where
  "create_audit_envelope fromiso ambient fresh c event message a =
     bindE (raise_if (c \<notin> set LOG_COMPONENTS) (ValueError ''log component is invalid'')) (\<lambda>_.
     bindE (require_audit_event_name (PStr event)) (\<lambda>_.
     bindE (make_log_payload
              \<lparr>lp_message = Some message, lp_level = la_level a, lp_node = la_node a, lp_duration_ms = la_duration_ms a,
               lp_status = la_status a, lp_error = la_error a, lp_metadata = la_metadata a\<rparr>) (\<lambda>payload.
     bindE (make_context (merge_context (la_context a) ambient)) (\<lambda>context.
       make_envelope fromiso
         \<lparr>env_kind = ''audit'', env_name = event, env_producer = c, env_message_id = fst fresh,
          env_schema_version = runtime_schema_version, env_created_at = snd fresh, env_context = context,
          env_payload = PDict (log_payload_to_mapping payload)\<rparr>))))"

definition projected_event :: "RuntimeEnvelope \<Rightarrow> RuntimeLogEventPayload \<Rightarrow> pyobj option \<Rightarrow> LogEvent" where
  "projected_event x payload metadata =
         \<lparr>lg_time = env_created_at x, lg_level = lp_level payload, lg_component = env_producer x, lg_event = env_name x,
          lg_message = redact_sensitive_text (case lp_message payload of None \<Rightarrow> env_name x | Some m \<Rightarrow> m),
          lg_event_id = Some (env_message_id x), lg_schema_version = Some (env_schema_version x),
          lg_conversation_id = ctx_conversation_id (env_context x), lg_reason_id = ctx_reason_id (env_context x),
          lg_request_id = ctx_request_id (env_context x), lg_turn_id = ctx_turn_id (env_context x),
          lg_job_id = ctx_job_id (env_context x), lg_trace_id = ctx_trace_id (env_context x),
          lg_source = ctx_source (env_context x), lg_node = lp_node payload, lg_duration_ms = lp_duration_ms payload,
          lg_status = lp_status payload, lg_error = map_option redact_sensitive_text (lp_error payload),
          lg_metadata = metadata\<rparr>"

definition envelope_log_event :: "iso_parser \<Rightarrow> string \<Rightarrow> RuntimeEnvelope \<Rightarrow> LogEvent result" where
  "envelope_log_event fromiso required_kind x =
     bindE (raise_if (env_kind x \<noteq> required_kind) (ValueError ''log projection requires an envelope of its kind'')) (\<lambda>_.
     bindE (raise_if (env_producer x \<notin> set LOG_COMPONENTS) (ValueError ''log envelope producer is not a log component'')) (\<lambda>_.
     bindE (if required_kind = ''audit'' then require_audit_event_name (PStr (env_name x))
            else require_runtime_event_name (PStr (env_name x))) (\<lambda>_.
     bindE (log_payload_from_mapping (mapping_fields (env_payload x))) (\<lambda>payload.
     bindE (raise_if (required_kind = ''audit'' \<and> lp_message payload = None) (ValueError ''audit envelope requires a message'')) (\<lambda>_.
     bindE (sanitize_diagnostic_metadata (lp_metadata payload)) (\<lambda>metadata.
       make_log_event fromiso False
         (projected_event x payload metadata)))))))"

definition write_envelope_log_projection ::
  "log_env \<Rightarrow> LogRetentionPolicy \<Rightarrow> (exn \<Rightarrow> 'p log_store_scheme \<Rightarrow> 'p log_store_scheme) \<Rightarrow> nat set
   \<Rightarrow> (nat \<times> (nat set \<Rightarrow> LogEvent \<Rightarrow> ('p log_store_scheme, unit) act)) list \<Rightarrow> string \<Rightarrow> RuntimeEnvelope
   \<Rightarrow> ('p log_store_scheme, LogEvent) act" where
  "write_envelope_log_projection env policy report active ps required_kind x =
     bind_act (lift_act (\<lambda>_. envelope_log_event (le_fromiso env) required_kind x)) (\<lambda>e.
       append_log_event env policy report active ps e)"

definition audit_event_envelope :: "log_env \<Rightarrow> RuntimeContext \<Rightarrow> string \<Rightarrow> string \<Rightarrow> string \<Rightarrow> log_args \<Rightarrow> ('p log_store_scheme, RuntimeEnvelope) act" where
  "audit_event_envelope env ambient c event message a =
     lift_act (\<lambda>s. create_audit_envelope (le_fromiso env) ambient (le_fresh env (ls_appends s)) c event message a)"

text \<open>\<open>_report_log_observer_failure\<close> writes without projections, hence without further reports.\<close>

definition LOG_INFRASTRUCTURE_AUDIT_REGISTRY :: AuditDefinitionRegistry where
  "LOG_INFRASTRUCTURE_AUDIT_REGISTRY =
     (case build_audit_registry
        [\<lparr>ad_component = ''daemon'', ad_event = ''log_observer_failed'', ad_level = ''warning'', ad_status = Some ''error'',
          ad_error_policy = ''required'', ad_duration_policy = ''forbidden'', ad_validator = validate_no_metadata\<rparr>] of
        Inr r \<Rightarrow> r
      | Inl _ \<Rightarrow> \<lparr>dr_entries = [], dr_sealed = False\<rparr>)"

definition report_log_observer_failure ::
  "log_env \<Rightarrow> RuntimeContext \<Rightarrow> exn \<Rightarrow> 'p log_store_scheme \<Rightarrow> 'p log_store_scheme" where
  "report_log_observer_failure env ambient x s =
     (let error = diagnostic_exception_message None (le_view env x) in
      case bind_act (lift_act (\<lambda>_. bindE (audit_resolve ''daemon'' ''log_observer_failed'' LOG_INFRASTRUCTURE_AUDIT_REGISTRY) (\<lambda>d.
               bindE (audit_validate d (ad_level d) (ad_status d) (Some error) [] None) (\<lambda>_. Inr d)))) (\<lambda>d.
           bind_act (audit_event_envelope env ambient (ad_component d) (ad_event d) ''process-local log observer failed''
               (no_args\<lparr>la_level := ad_level d, la_status := ad_status d, la_error := Some error\<rparr>)) (\<lambda>x.
             write_envelope_log_projection env DEFAULT_LOG_RETENTION (\<lambda>_ s. s) {} [] ''audit'' x)) s of
        (Inr _, t) \<Rightarrow> t
      | (Inl e, t) \<Rightarrow> log_warn env ''daemon/log_observer_failed''
          [(''observer_error'', PStr error), (''log_error'', PStr (diagnostic_exception_message None (le_view env e)))] t)"

text \<open>
  The writers in an execution context: the ambient identifiers, the projections attached and those being
  run.
\<close>

record 'p log_scope =
  sc_ambient :: RuntimeContext
  sc_projections :: "(nat \<times> (nat set \<Rightarrow> LogEvent \<Rightarrow> ('p log_store_scheme, unit) act)) list"
  sc_active :: "nat set"

definition write_audit_envelope ::
  "log_env \<Rightarrow> LogRetentionPolicy \<Rightarrow> 'p log_scope \<Rightarrow> RuntimeEnvelope \<Rightarrow> ('p log_store_scheme, LogEvent) act" where
  "write_audit_envelope env policy scope =
     write_envelope_log_projection env policy (report_log_observer_failure env (sc_ambient scope)) (sc_active scope)
       (sc_projections scope) ''audit''"

definition write_runtime_event ::
  "log_env \<Rightarrow> LogRetentionPolicy \<Rightarrow> 'p log_scope \<Rightarrow> RuntimeEnvelope \<Rightarrow> ('p log_store_scheme, LogEvent) act" where
  "write_runtime_event env policy scope =
     write_envelope_log_projection env policy (report_log_observer_failure env (sc_ambient scope)) (sc_active scope)
       (sc_projections scope) ''event''"

definition write_log_event ::
  "log_env \<Rightarrow> LogRetentionPolicy \<Rightarrow> 'p log_scope \<Rightarrow> string \<Rightarrow> string \<Rightarrow> string \<Rightarrow> log_args \<Rightarrow> ('p log_store_scheme, LogEvent) act" where
  "write_log_event env policy scope c event message a =
     bind_act (audit_event_envelope env (sc_ambient scope) c event message a) (\<lambda>x. write_audit_envelope env policy scope x)"

definition runtime_event_log_sink ::
  "log_env \<Rightarrow> LogRetentionPolicy \<Rightarrow> 'p log_scope \<Rightarrow> (LogEvent \<Rightarrow> ('p log_store_scheme, unit) act) option \<Rightarrow> RuntimeEnvelope
   \<Rightarrow> ('p log_store_scheme, unit) act" where
  "runtime_event_log_sink env policy scope projection x =
     bind_act (write_runtime_event env policy scope x) (\<lambda>e.
       case projection of None \<Rightarrow> ret_act () | Some f \<Rightarrow> f e)"

text \<open>\<open>project_log_events\<close>: the body runs with one more binding, at the end.\<close>

definition project_log_events ::
  "nat \<Rightarrow> (nat set \<Rightarrow> LogEvent \<Rightarrow> ('p log_store_scheme, unit) act) \<Rightarrow> ('p log_scope \<Rightarrow> 'b) \<Rightarrow> 'p log_scope \<Rightarrow> 'b" where
  "project_log_events binding projection body scope =
     body (scope\<lparr>sc_projections := sc_projections scope @ [(binding, projection)]\<rparr>)"

section \<open>The history a log keeps\<close>

text \<open>The backups as a function of their index; the code numbers them from 1 to the count of its policy.\<close>

definition backups_ok :: "nat \<Rightarrow> log_dir \<Rightarrow> bool" where
  "backups_ok n d \<longleftrightarrow> distinct (map fst (ld_backups d)) \<and> fst ` set (ld_backups d) \<subseteq> {1..n}"

definition bytes_at :: "(nat \<times> log_file) list \<Rightarrow> nat \<Rightarrow> string" where
  "bytes_at b i = (case map_of b i of None \<Rightarrow> [] | Some f \<Rightarrow> lf_bytes f)"

definition active_bytes :: "log_dir \<Rightarrow> string" where
  "active_bytes d = (case ld_active d of None \<Rightarrow> [] | Some f \<Rightarrow> lf_bytes f)"

definition indexed_bytes :: "nat \<Rightarrow> (nat \<Rightarrow> string) \<Rightarrow> string" where
  "indexed_bytes n g = concat (map g (rev [1..<Suc n]))"

lemma sort_by_index:
  assumes "distinct (map fst b)" and "fst ` set b \<subseteq> {1..n}"
  shows "map fst (sort_key fst b) = filter (\<lambda>i. i \<in> fst ` set b) [1..<Suc n]"
proof (rule sorted_distinct_set_unique)
  show "sorted (map fst (sort_key fst b))" by simp
  show "distinct (map fst (sort_key fst b))" using assms(1) by (simp add: distinct_map)
  show "sorted (filter (\<lambda>i. i \<in> fst ` set b) [1..<Suc n])" using sorted_filter [of id "[1..<Suc n]"] by (simp del: upt_Suc)
  show "distinct (filter (\<lambda>i. i \<in> fst ` set b) [1..<Suc n])" by (simp del: upt_Suc)
  show "set (map fst (sort_key fst b)) = set (filter (\<lambda>i. i \<in> fst ` set b) [1..<Suc n])"
    using assms(2) by (auto simp del: upt_Suc)
qed

lemma concat_present:
  "concat (map (\<lambda>i. lf_bytes (the (map_of b i))) (filter (\<lambda>i. i \<in> fst ` set b) is)) = concat (map (bytes_at b) is)"
  by (induction "is") (auto simp: bytes_at_def map_of_eq_None_iff split: option.splits dest!: map_of_SomeD intro: rev_image_eqI)

lemma log_bytes_index:
  assumes "backups_ok n d"
  shows "log_bytes d = indexed_bytes n (bytes_at (ld_backups d)) @ active_bytes d"
proof -
  let ?b = "ld_backups d"
  have d: "distinct (map fst ?b)" and range: "fst ` set ?b \<subseteq> {1..n}" using assms by (auto simp: backups_ok_def)
  have "map (lf_bytes \<circ> snd) (sort_key fst ?b) = map ((\<lambda>i. lf_bytes (the (map_of ?b i))) \<circ> fst) (sort_key fst ?b)"
    using d by (auto intro!: map_cong simp: o_def)
  also have "\<dots> = map (\<lambda>i. lf_bytes (the (map_of ?b i))) (filter (\<lambda>i. i \<in> fst ` set ?b) [1..<Suc n])"
    using sort_by_index [OF d range] by (metis map_map)
  finally have "concat (rev (map (lf_bytes \<circ> snd) (sort_key fst ?b))) =
      concat (map (\<lambda>i. lf_bytes (the (map_of ?b i))) (filter (\<lambda>i. i \<in> fst ` set ?b) (rev [1..<Suc n])))"
    by (simp add: rev_map rev_filter del: upt_Suc)
  also have "\<dots> = indexed_bytes n (bytes_at ?b)"
    by (simp only: concat_present indexed_bytes_def)
  finally show ?thesis
    by (simp add: log_bytes_def component_log_files_def active_bytes_def rev_map split: option.splits)
qed

subsection \<open>Rotation\<close>

lemma indexed_bytes_cong: "(\<And>i. 1 \<le> i \<Longrightarrow> i \<le> n \<Longrightarrow> g i = h i) \<Longrightarrow> indexed_bytes n g = indexed_bytes n h"
  by (auto simp: indexed_bytes_def simp del: upt_Suc intro!: arg_cong [where f = concat])

lemma indexed_bytes_Suc: "indexed_bytes (Suc n) g = g (Suc n) @ indexed_bytes n g"
  by (simp add: indexed_bytes_def)

text \<open>Moving the bytes of one index into the empty index above it changes nothing.\<close>

lemma indexed_bytes_move:
  assumes "g (Suc i) = []" and "1 \<le> i" and "i < n"
  shows "indexed_bytes n (g(Suc i := g i, i := [])) = indexed_bytes n g"
  using assms(3)
proof (induction n)
  case (Suc n)
  show ?case
  proof (cases "i = n")
    case True
    then obtain k where k: "n = Suc k" using assms(2) by (cases n) auto
    have "indexed_bytes k (g(Suc i := g i, i := [])) = indexed_bytes k g"
      using True k by (intro indexed_bytes_cong) auto
    then show ?thesis using True assms(1) k by (simp add: indexed_bytes_Suc fun_upd_def)
  next
    case False
    then have "i < n" using Suc.prems by simp
    then show ?thesis using Suc.IH by (simp add: indexed_bytes_Suc)
  qed
qed simp

lemma bytes_at_update [simp]: "bytes_at (AList.update j f b) = (bytes_at b)(j := lf_bytes f)"
  by (rule ext) (simp add: bytes_at_def update_conv')

lemma bytes_at_delete [simp]: "bytes_at (AList.delete j b) = (bytes_at b)(j := [])"
  by (rule ext) (simp add: bytes_at_def AList.delete_conv' restrict_map_def)

text \<open>A rotation, whatever fails in it, keeps the backups in order and loses at most the oldest.\<close>

definition slot_free :: "nat \<Rightarrow> log_dir \<Rightarrow> bool" where
  "slot_free i d \<longleftrightarrow> map_of (ld_backups d) i = None"

lemma keys_update: "fst ` set (AList.update j f b) = insert j (fst ` set b)"
  by (simp add: AList.dom_update)

lemma keys_delete: "fst ` set (AList.delete j b) = fst ` set b - {j}"
  by (auto simp: AList.delete_eq)

lemma backups_ok_update: "backups_ok n d \<Longrightarrow> 1 \<le> j \<Longrightarrow> j \<le> n \<Longrightarrow>
   backups_ok n (d\<lparr>ld_active := a, ld_backups := AList.update j f (ld_backups d)\<rparr>)"
  by (auto simp: backups_ok_def keys_update AList.distinct_update)

lemma backups_ok_delete: "backups_ok n d \<Longrightarrow> backups_ok n (d\<lparr>ld_backups := AList.delete j (ld_backups d)\<rparr>)"
  by (auto simp: backups_ok_def keys_delete AList.distinct_delete)

lemma bytes_at_free: "slot_free i d \<Longrightarrow> bytes_at (ld_backups d) i = []"
  by (simp add: slot_free_def bytes_at_def)

lemma log_bytes_shift:
  assumes ok: "backups_ok n d" and free: "slot_free (Suc i) d" and range: "1 \<le> i" "i < n"
  shows "backups_ok n (shift_backup i d) \<and> slot_free i (shift_backup i d)
     \<and> log_bytes (shift_backup i d) = log_bytes d \<and> ld_active (shift_backup i d) = ld_active d"
proof (cases "map_of (ld_backups d) i")
  case None
  then show ?thesis using ok by (simp add: shift_backup_def slot_free_def)
next
  case (Some f)
  let ?d = "d\<lparr>ld_backups := AList.update (Suc i) f (AList.delete i (ld_backups d))\<rparr>"
  have d: "shift_backup i d = ?d" using Some by (simp add: shift_backup_def)
  have ok': "backups_ok n ?d"
    using ok range by (auto simp: backups_ok_def keys_update keys_delete AList.distinct_update AList.distinct_delete)
  have "bytes_at (ld_backups ?d) = (bytes_at (ld_backups d))(Suc i := bytes_at (ld_backups d) i, i := [])"
    using Some by (auto simp: bytes_at_def update_conv' AList.delete_conv' restrict_map_def)
  then have "indexed_bytes n (bytes_at (ld_backups ?d)) = indexed_bytes n (bytes_at (ld_backups d))"
    using indexed_bytes_move [where g = "bytes_at (ld_backups d)", OF bytes_at_free [OF free] range] by simp
  moreover have "slot_free i ?d" using Some by (simp add: slot_free_def update_conv' AList.delete_conv')
  ultimately show ?thesis
    using ok' d by (simp add: log_bytes_index [OF ok] log_bytes_index [OF ok'] active_bytes_def)
qed

lemma shift_backups_keep:
  assumes "backups_ok n d" and "slot_free (Suc i) d" and "i < n" and "shift_backups os i d = (r, d')"
  shows "backups_ok n d' \<and> log_bytes d' = log_bytes d \<and> ld_active d' = ld_active d \<and> (r = Inr () \<longrightarrow> slot_free 1 d')"
  using assms
proof (induction i arbitrary: d)
  case 0
  then show ?case by simp
next
  case (Suc i)
  show ?case
  proof (cases "map_of (ld_backups d) (Suc i) = None")
    case True
    then show ?thesis using Suc.IH [of d] Suc.prems by (simp add: slot_free_def)
  next
    case present: False
    show ?thesis
    proof (cases "lo_faults os (OpReplace (Suc i))")
      case (Some e)
      then show ?thesis using Suc.prems present by (auto simp: call_def bind_act_def)
    next
      case None
      then have run: "shift_backups os i (shift_backup (Suc i) d) = (r, d')"
        using Suc.prems(4) present by (simp add: call_def bind_act_def)
      have "backups_ok n (shift_backup (Suc i) d) \<and> slot_free (Suc i) (shift_backup (Suc i) d)
         \<and> log_bytes (shift_backup (Suc i) d) = log_bytes d \<and> ld_active (shift_backup (Suc i) d) = ld_active d"
        using log_bytes_shift [of n d "Suc i"] Suc.prems by simp
      then show ?thesis using Suc.IH [of "shift_backup (Suc i) d"] Suc.prems(3) run by simp
    qed
  qed
qed

lemma indexed_bytes_drop:
  "1 \<le> n \<Longrightarrow> indexed_bytes n g = g n @ indexed_bytes n (g(n := []))"
  by (cases n) (auto simp: indexed_bytes_Suc intro!: indexed_bytes_cong)

lemma log_bytes_delete:
  assumes "backups_ok n d" and "1 \<le> n"
  shows "log_bytes d = bytes_at (ld_backups d) n @ log_bytes (d\<lparr>ld_backups := AList.delete n (ld_backups d)\<rparr>)"
  using indexed_bytes_drop [OF assms(2), of "bytes_at (ld_backups d)"]
  by (simp add: log_bytes_index [OF assms(1)] log_bytes_index [OF backups_ok_delete [OF assms(1)]] active_bytes_def)

lemma indexed_bytes_first:
  assumes "g 1 = []" and "1 \<le> n"
  shows "indexed_bytes n (g(1 := x)) = indexed_bytes n g @ x"
  using assms(2)
proof (induction n rule: nat_induct_at_least)
  case base
  then show ?case using assms(1) by (simp add: indexed_bytes_def)
next
  case (Suc n)
  then show ?case by (simp add: indexed_bytes_Suc)
qed

lemma retire_active_keep:
  assumes ok: "backups_ok n d" and free: "slot_free 1 d" and "1 \<le> n"
  shows "backups_ok n (retire_active d) \<and> log_bytes (retire_active d) = log_bytes d"
proof (cases "ld_active d")
  case None
  then show ?thesis using ok by (simp add: retire_active_def)
next
  case (Some f)
  let ?d = "d\<lparr>ld_active := None, ld_backups := AList.update 1 f (ld_backups d)\<rparr>"
  have ok': "backups_ok n ?d" by (rule backups_ok_update [OF ok]) (use assms(3) in auto)
  have "indexed_bytes n ((bytes_at (ld_backups d))(1 := lf_bytes f)) = indexed_bytes n (bytes_at (ld_backups d)) @ lf_bytes f"
    by (rule indexed_bytes_first [where g = "bytes_at (ld_backups d)", OF bytes_at_free [OF free] assms(3)])
  then have "log_bytes ?d = log_bytes d"
    using Some by (simp add: log_bytes_index [OF ok] log_bytes_index [OF ok'] active_bytes_def del: One_nat_def)
  then show ?thesis using ok' Some by (simp add: retire_active_def)
qed

text \<open>
  What a rotation with at most \<open>n\<close> backups does once the oldest is unlinked, up to wherever a call fails.
\<close>

lemma rotation_keeps:
  assumes ok: "backups_ok n d" and pos: "1 \<le> n"
    and run: "shift_backups os (n - 1) (d\<lparr>ld_backups := AList.delete n (ld_backups d)\<rparr>) = (r1, d1)"
    and "d' = d1 \<or> (r1 = Inr () \<and> d' = retire_active d1)"
  shows "backups_ok n d' \<and> (\<exists>dropped. log_bytes d = dropped @ log_bytes d')"
proof -
  let ?d0 = "d\<lparr>ld_backups := AList.delete n (ld_backups d)\<rparr>"
  have ok0: "backups_ok n ?d0" by (rule backups_ok_delete [OF ok])
  have free: "slot_free (Suc (n - 1)) ?d0" using pos by (simp add: slot_free_def AList.delete_conv')
  have "backups_ok n d1 \<and> log_bytes d1 = log_bytes ?d0 \<and> (r1 = Inr () \<longrightarrow> slot_free 1 d1)"
    using shift_backups_keep [OF ok0 free _ run] pos by simp
  then have "backups_ok n d' \<and> log_bytes d' = log_bytes ?d0"
    using assms(4) retire_active_keep [of n d1] pos by auto
  then show ?thesis using log_bytes_delete [OF ok pos] by auto
qed

lemma rotate_keeps_suffix:
  assumes ok: "backups_ok (rp_backup_count policy) d" and pos: "1 \<le> rp_backup_count policy"
    and run: "rotate_log_if_needed os policy incoming d = (r, d')"
  shows "backups_ok (rp_backup_count policy) d' \<and> (\<exists>dropped. log_bytes d = dropped @ log_bytes d')"
proof -
  let ?n = "rp_backup_count policy"
  let ?d0 = "d\<lparr>ld_backups := AList.delete ?n (ld_backups d)\<rparr>"
  consider "d' = d"
    | d1 r1 where "shift_backups os (?n - 1) ?d0 = (r1, d1)" "d' = d1 \<or> (r1 = Inr () \<and> d' = retire_active d1)"
    using run
    by (cases "ld_active d"; cases "shift_backups os (?n - 1) ?d0"; cases "fst (shift_backups os (?n - 1) ?d0)")
      (auto simp: rotate_log_if_needed_def bind_act_def call_def split: option.splits if_splits)
  then show ?thesis using ok rotation_keeps [OF ok pos] by cases auto
qed

subsection \<open>Appending\<close>

lemma write_log_bytes_prefix:
  "write_log_bytes writes k rest = (r, out) \<Longrightarrow> (\<exists>more. rest = out @ more) \<and> (r = Inr () \<longrightarrow> out = rest)"
proof (induction writes k rest arbitrary: r out rule: write_log_bytes.induct)
  case (1 writes k rest)
  show ?case
  proof (cases "rest = []")
    case True
    then show ?thesis using 1(2) by (simp add: write_log_bytes.simps)
  next
    case nonempty: False
    show ?thesis
    proof (cases "writes k")
      case (Inl e)
      then show ?thesis using 1(2) nonempty by (auto simp: write_log_bytes.simps [of writes k rest])
    next
      case (Inr n)
      show ?thesis
      proof (cases "n \<le> 0")
        case True
        then show ?thesis using 1(2) nonempty Inr by (auto simp: write_log_bytes.simps [of writes k rest])
      next
        case False
        obtain r1 out1 where w: "write_log_bytes writes (Suc k) (drop (nat n) rest) = (r1, out1)" by fastforce
        then have out: "r = r1" "out = take (nat n) rest @ out1"
          using 1(2) nonempty Inr False by (simp_all add: write_log_bytes.simps [of writes k rest])
        have "(\<exists>more. drop (nat n) rest = out1 @ more) \<and> (r1 = Inr () \<longrightarrow> out1 = drop (nat n) rest)"
          by (rule 1(1) [OF nonempty Inr False w])
        then show ?thesis using out by (metis append.assoc append_take_drop_id)
      qed
    qed
  qed
qed

lemma component_files_extend:
  "ld_active d = Some f \<Longrightarrow> log_bytes (extend_active out d) = log_bytes d @ out"
  by (simp add: extend_active_def log_bytes_def component_log_files_def)

lemma truncate_extend:
  "ld_active d = Some f \<Longrightarrow> truncate_active (active_size d) (extend_active out d) = d"
  by (simp add: truncate_active_def extend_active_def active_size_def)

lemma backups_extend [simp]: "ld_backups (extend_active out d) = ld_backups d" "ld_backups (truncate_active k d) = ld_backups d"
  by (simp_all add: extend_active_def truncate_active_def)

text \<open>What the body leaves: the whole line, nothing of it, or, only when the rollback failed, a part.\<close>

lemma append_body_effect:
  assumes active: "ld_active d = Some f" and run: "append_body os line d = ((primary, rollback, outcome), d')"
  obtains tail rest where "line = tail @ rest" "log_bytes d' = log_bytes d @ tail" "ld_backups d' = ld_backups d"
    "primary = None \<and> rollback = None \<and> outcome = ''persisted'' \<and> tail = line
     \<or> primary \<noteq> None \<and> rollback = None \<and> outcome = ''not_persisted'' \<and> tail = []
     \<or> primary \<noteq> None \<and> rollback \<noteq> None \<and> outcome = ''uncertain''"
proof (cases "lo_faults os OpSeek")
  case (Some e)
  then show ?thesis using run by (intro that [of "[]" line]) (auto simp: append_body_def)
next
  case seek: None
  obtain written out where w: "write_log_bytes (lo_writes os) 0 line = (written, out)" by fastforce
  then obtain rest where out: "line = out @ rest" "written = Inr () \<Longrightarrow> out = line"
    using write_log_bytes_prefix [OF w] by blast
  let ?d = "extend_active out d"
  let ?closing = "bindE written (\<lambda>_. case lo_faults os OpSync of None \<Rightarrow> Inr () | Some e \<Rightarrow> Inl e)"
  have body: "append_body os line d = (case ?closing of
      Inr _ \<Rightarrow> ((None, None, ''persisted''), ?d)
    | Inl e \<Rightarrow> (case rollback_append os (active_size d) ?d of
         (Inl e2, d'') \<Rightarrow> ((Some e, Some e2, ''uncertain''), d'')
       | (Inr _, d'') \<Rightarrow> ((Some e, None, ''not_persisted''), d'')))"
    using seek w by (simp add: append_body_def Let_def)
  show ?thesis
  proof (cases ?closing)
    case (Inr u)
    then have "written = Inr ()" by (cases written) auto
    then have all: "out = line" by (rule out(2))
    have "append_body os line d = ((None, None, ''persisted''), ?d)" by (simp only: body Inr sum.case)
    then have "primary = None" "rollback = None" "outcome = ''persisted''" "d' = ?d" using run by simp_all
    then show ?thesis using component_files_extend [OF active, of line] unfolding all
      by (intro that [of line "[]"]) simp_all
  next
    case (Inl e)
    show ?thesis
    proof (cases "lo_faults os OpTruncate")
      case (Some e2)
      then have "rollback_append os (active_size d) ?d = (Inl e2, ?d)"
        by (simp add: rollback_append_def bind_act_def call_def)
      then have "append_body os line d = ((Some e, Some e2, ''uncertain''), ?d)" by (simp only: body Inl sum.case prod.case)
      then have "primary = Some e" "rollback = Some e2" "outcome = ''uncertain''" "d' = ?d" using run by simp_all
      then show ?thesis using out(1) component_files_extend [OF active, of out]
        by (intro that [of out rest]) simp_all
    next
      case None
      then have undo: "rollback_append os (active_size d) ?d =
          (case lo_faults os OpSyncRollback of None \<Rightarrow> Inr () | Some e \<Rightarrow> Inl e, d)"
        using truncate_extend [OF active] by (simp add: rollback_append_def bind_act_def call_def)
      show ?thesis
      proof (cases "lo_faults os OpSyncRollback")
        case None
        then have "append_body os line d = ((Some e, None, ''not_persisted''), d)"
          by (simp only: body Inl undo sum.case prod.case option.case)
        then have "primary = Some e" "rollback = None" "outcome = ''not_persisted''" "d' = d" using run by simp_all
        then show ?thesis by (intro that [of "[]" line]) simp_all
      next
        case (Some e2)
        then have "append_body os line d = ((Some e, Some e2, ''uncertain''), d)"
          by (simp only: body Inl undo sum.case prod.case option.case)
        then have "primary = Some e" "rollback = Some e2" "outcome = ''uncertain''" "d' = d" using run by simp_all
        then show ?thesis by (intro that [of "[]" line]) simp_all
      qed
    qed
  qed
qed

text \<open>What the outcome of a write tells of the record: all of it is there, nothing of it, or no promise.\<close>

definition reported :: "exn \<Rightarrow> string" where
  "reported e = (case e of LogAppendLifecycleError primary rollback close outcome \<Rightarrow> outcome | _ \<Rightarrow> ''not_persisted'')"

definition told :: "'a result \<Rightarrow> string \<Rightarrow> string \<Rightarrow> bool" where
  "told r tail line \<longleftrightarrow>
     (case r of
        Inr _ \<Rightarrow> tail = line
      | Inl e \<Rightarrow> (reported e = ''persisted'' \<longrightarrow> tail = line) \<and> (reported e = ''not_persisted'' \<longrightarrow> tail = []))"

text \<open>The system's own exceptions are no lifecycle errors; releasing the lock fails with an \<open>OSError\<close> only.\<close>

definition plain_os :: "log_os \<Rightarrow> bool" where
  "plain_os os \<longleftrightarrow>
     (\<forall>op e. lo_faults os op = Some e \<longrightarrow> reported e = ''not_persisted'')
     \<and> (\<forall>k e. lo_writes os k = Inl e \<longrightarrow> reported e = ''not_persisted'')
     \<and> (\<forall>op \<in> {OpUnlock, OpCloseLock}. \<forall>e. lo_faults os op = Some e \<longrightarrow> is_os_error e)"

lemma reported_simps [simp]: "reported (OSError m) = ''not_persisted''" "reported (LogAppendLifecycleError p q r outcome) = outcome"
  by (simp_all add: reported_def)

lemma write_log_bytes_plain:
  "write_log_bytes writes k rest = (Inl e, out) \<Longrightarrow> \<forall>k e. writes k = Inl e \<longrightarrow> reported e = ''not_persisted''
   \<Longrightarrow> reported e = ''not_persisted''"
proof (induction writes k rest arbitrary: out rule: write_log_bytes.induct)
  case (1 writes k rest)
  show ?case
    using 1(2,3) 1(1) [of "case writes k of Inr n \<Rightarrow> n" "snd (write_log_bytes writes (Suc k) (drop (nat (case writes k of Inr n \<Rightarrow> n)) rest))"]
    by (cases "write_log_bytes writes (Suc k) (drop (nat (case writes k of Inr n \<Rightarrow> n)) rest)")
      (auto simp: write_log_bytes.simps [of writes k rest] split: if_splits sum.splits)
qed

lemma append_body_plain:
  assumes "plain_os os" and "append_body os line d = ((Some e, rollback, outcome), d')"
  shows "reported e = ''not_persisted''"
proof (cases "lo_faults os OpSeek")
  case (Some e')
  then show ?thesis using assms by (auto simp: append_body_def plain_os_def)
next
  case seek: None
  obtain written out where w: "write_log_bytes (lo_writes os) 0 line = (written, out)" by fastforce
  have "bindE written (\<lambda>_. case lo_faults os OpSync of None \<Rightarrow> Inr () | Some e \<Rightarrow> Inl e) = Inl e"
    using assms(2) seek w by (auto simp: append_body_def Let_def split: sum.splits prod.splits)
  then consider "written = Inl e" | "lo_faults os OpSync = Some e"
    by (cases written) (auto split: option.splits)
  then show ?thesis
  proof cases
    case 1
    then show ?thesis using write_log_bytes_plain [OF w [unfolded 1]] assms(1) by (simp add: plain_os_def)
  next
    case 2
    then show ?thesis using assms(1) by (auto simp: plain_os_def)
  qed
qed

lemma append_told:
  assumes plain: "plain_os os" and active: "ld_active d = Some f"
    and run: "append_body os line d = ((primary, rollback, outcome), d')"
  obtains tail rest where "line = tail @ rest" "log_bytes d' = log_bytes d @ tail" "ld_backups d' = ld_backups d"
    "told (append_outcome os (primary, rollback, outcome)) tail line"
proof -
  obtain tail rest where t: "line = tail @ rest" "log_bytes d' = log_bytes d @ tail" "ld_backups d' = ld_backups d"
    "primary = None \<and> rollback = None \<and> outcome = ''persisted'' \<and> tail = line
     \<or> primary \<noteq> None \<and> rollback = None \<and> outcome = ''not_persisted'' \<and> tail = []
     \<or> primary \<noteq> None \<and> rollback \<noteq> None \<and> outcome = ''uncertain''"
    by (rule append_body_effect [OF active run])
  have "told (append_outcome os (primary, rollback, outcome)) tail line"
    using t(4) append_body_plain [OF plain, of line d _ rollback outcome d'] run
    by (cases primary) (auto simp: append_outcome_def told_def Let_def)
  then show thesis using t(1-3) by (rule that [rotated 3])
qed

subsection \<open>A whole write\<close>

text \<open>
  \<open>log_step\<close>: what a write of a line does to the history of its component, whatever failed; the other
  components are not touched.
\<close>

definition log_step :: "nat \<Rightarrow> string \<Rightarrow> string \<Rightarrow> 'p log_store_scheme \<Rightarrow> 'a result \<Rightarrow> 'p log_store_scheme \<Rightarrow> bool" where
  "log_step n c line s r s' \<longleftrightarrow>
     backups_ok n (ls_dirs s' c) \<and> (\<forall>x. x \<noteq> c \<longrightarrow> ls_dirs s' x = ls_dirs s x)
     \<and> (\<exists>dropped kept tail rest. log_bytes (ls_dirs s c) = dropped @ kept \<and> log_bytes (ls_dirs s' c) = kept @ tail
          \<and> line = tail @ rest \<and> told r tail line)"

lemma log_stepI:
  "backups_ok n (ls_dirs s' c) \<Longrightarrow> (\<And>x. x \<noteq> c \<Longrightarrow> ls_dirs s' x = ls_dirs s x) \<Longrightarrow> log_bytes (ls_dirs s c) = dropped @ kept
   \<Longrightarrow> log_bytes (ls_dirs s' c) = kept @ tail \<Longrightarrow> line = tail @ rest \<Longrightarrow> told r tail line \<Longrightarrow> log_step n c line s r s'"
  unfolding log_step_def by blast

lemma told_Inl_plain: "reported e = ''not_persisted'' \<Longrightarrow> told (Inl e) [] line"
  by (simp add: told_def)

lemma log_step_same:
  "backups_ok n (ls_dirs s' c) \<Longrightarrow> ls_dirs s' = ls_dirs s \<Longrightarrow> told r [] line \<Longrightarrow> log_step n c line s r s'"
  unfolding log_step_def by (metis append_Nil append_Nil2)

text \<open>Steps that leave the bytes as they are before the write proper.\<close>

lemma log_step_before:
  assumes "log_step n c line t r u" and "\<exists>dropped. log_bytes (ls_dirs s c) = dropped @ log_bytes (ls_dirs t c)"
    and "\<forall>x. x \<noteq> c \<longrightarrow> ls_dirs t x = ls_dirs s x"
  shows "log_step n c line s r u"
  using assms unfolding log_step_def by (metis append.assoc)

lemma log_warn_dirs [simp]: "ls_dirs (log_warn env event m s) = ls_dirs s" "ls_dirs (lock_warning env c operation e s) = ls_dirs s"
  by (simp_all add: log_warn_def lock_warning_def)

lemma call_plain: "plain_os os \<Longrightarrow> call os op s = (Inl e, t) \<Longrightarrow> t = s \<and> reported e = ''not_persisted''"
  by (auto simp: call_def plain_os_def split: option.splits)

lemma call_ok: "call os op s = (Inr u, t) \<Longrightarrow> t = s"
  by (auto simp: call_def split: option.splits)

lemma create_active_dir:
  "ls_dirs (create_active c s) x = (if x = c then (ls_dirs s c)\<lparr>ld_active := Some
      (case ld_active (ls_dirs s c) of Some f \<Rightarrow> f | None \<Rightarrow> \<lparr>lf_inode = ls_next_inode s, lf_bytes = []\<rparr>)\<rparr> else ls_dirs s x)"
  by (auto simp: create_active_def split: option.splits)

lemma sync_directory_dirs:
  "sync_log_directory_for_active os c s = (r, t) \<Longrightarrow> plain_os os \<Longrightarrow>
   ls_dirs t = ls_dirs s \<and> (\<forall>e. r = Inl e \<longrightarrow> reported e = ''not_persisted'')"
  by (auto simp: sync_log_directory_for_active_def bind_act_def call_def plain_os_def Let_def split: option.splits if_splits)

lemma sync_dirs: "sync_log_directory_for_active os c s = (r, t) \<Longrightarrow> ls_dirs t = ls_dirs s"
  by (auto simp: sync_log_directory_for_active_def bind_act_def call_def Let_def split: option.splits if_splits)

lemma open_keeps:
  assumes plain: "plain_os os" and run: "open_log_data_file os c s = (r, t)"
  shows "log_bytes (ls_dirs t c) = log_bytes (ls_dirs s c) \<and> ld_backups (ls_dirs t c) = ld_backups (ls_dirs s c)
    \<and> (\<forall>x. x \<noteq> c \<longrightarrow> ls_dirs t x = ls_dirs s x)
    \<and> (case r of Inr _ \<Rightarrow> \<exists>f. ld_active (ls_dirs t c) = Some f | Inl e \<Rightarrow> reported e = ''not_persisted'')"
proof (cases "lo_faults os OpCreate")
  case (Some e)
  then show ?thesis using run plain by (auto simp: open_log_data_file_def bind_act_def call_def plain_os_def)
next
  case None
  let ?s = "create_active c s"
  have bytes: "log_bytes (ls_dirs ?s c) = log_bytes (ls_dirs s c)"
    by (simp add: create_active_dir log_bytes_def component_log_files_def split: option.splits)
  obtain r1 t1 where sync: "sync_log_directory_for_active os c ?s = (r1, t1)" by fastforce
  then have t1: "ls_dirs t1 = ls_dirs ?s" "\<And>e. r1 = Inl e \<Longrightarrow> reported e = ''not_persisted''"
    using sync_directory_dirs [OF sync plain] by auto
  have "ls_dirs t = ls_dirs ?s \<and> (\<forall>e. r = Inl e \<longrightarrow> reported e = ''not_persisted'')"
    using run None sync t1 plain
    by (cases r1) (auto simp: open_log_data_file_def bind_act_def call_def plain_os_def split: option.splits)
  then show ?thesis using bytes by (auto simp: create_active_dir split: sum.splits)
qed

lemma append_line_step:
  assumes plain: "plain_os os" and ok: "backups_ok n (ls_dirs s c)" and run: "append_encoded_log_line env os c line s = (r, t)"
  shows "log_step n c line s r t"
proof -
  obtain r1 s1 where opened: "open_log_data_file os c s = (r1, s1)" by fastforce
  note keep = open_keeps [OF plain opened]
  have ok1: "backups_ok n (ls_dirs s1 c)" using ok keep by (simp add: backups_ok_def)
  show ?thesis
  proof (cases r1)
    case (Inl e)
    then have "r = Inl e" "t = s1" using run opened by (simp_all add: append_encoded_log_line_def bind_act_def)
    moreover have "log_step n c line s1 (Inl e) s1"
      by (rule log_step_same) (use ok1 keep Inl in \<open>simp_all add: told_Inl_plain\<close>)
    ultimately show ?thesis using log_step_before [of n c line s1 r t s] keep by simp
  next
    case (Inr u)
    obtain primary rollback outcome d where body: "append_body os line (ls_dirs s1 c) = ((primary, rollback, outcome), d)"
      by (metis prod_cases4 surj_pair)
    obtain f where "ld_active (ls_dirs s1 c) = Some f" using keep Inr by auto
    then obtain tail rest where told: "line = tail @ rest" "log_bytes d = log_bytes (ls_dirs s1 c) @ tail"
        "ld_backups d = ld_backups (ls_dirs s1 c)" "told (append_outcome os (primary, rollback, outcome)) tail line"
      using append_told [OF plain _ body] by metis
    have rt: "r = append_outcome os (primary, rollback, outcome)" "ls_dirs t = (ls_dirs s1)(c := d)"
      using run opened Inr body by (auto simp: append_encoded_log_line_def bind_act_def split: option.splits)
    have "log_step n c line s1 r t"
      by (rule log_stepI [where dropped = "[]" and kept = "log_bytes (ls_dirs s1 c)" and tail = tail and rest = rest])
        (use ok1 told rt in \<open>simp_all add: backups_ok_def\<close>)
    then show ?thesis by (rule log_step_before) (use keep in auto)
  qed
qed

lemma fault_plain: "plain_os os \<Longrightarrow> lo_faults os op = Some e \<Longrightarrow> reported e = ''not_persisted''"
  by (simp add: plain_os_def)

lemma call_all_keeps:
  assumes plain: "plain_os os"
  shows "call_all os ops s = (r, t) \<Longrightarrow> t = s \<and> (\<forall>e. r = Inl e \<longrightarrow> reported e = ''not_persisted'')"
proof (induction ops)
  case (Cons op ops)
  then show ?case
    by (cases "lo_faults os op") (auto simp: bind_act_def call_def dest: fault_plain [OF plain])
qed auto

lemma rotate_plain:
  assumes plain: "plain_os os" and run: "rotate_log_if_needed os policy incoming d = (Inl e, d')"
  shows "reported e = ''not_persisted''"
proof -
  have shift: "shift_backups os i d = (Inl e, d') \<Longrightarrow> reported e = ''not_persisted''" for i d d'
    by (induction i arbitrary: d)
      (auto simp: call_def bind_act_def dest: fault_plain [OF plain] split: if_splits option.splits)
  show ?thesis
    using run by (auto simp: rotate_log_if_needed_def call_def bind_act_def dest: fault_plain [OF plain] shift
        split: option.splits if_splits prod.splits sum.splits)
qed

lemma rotate_or_warn_keeps:
  assumes plain: "plain_os os" and ok: "backups_ok (rp_backup_count policy) (ls_dirs s c)" and pos: "1 \<le> rp_backup_count policy"
    and run: "rotate_or_warn env os policy c incoming s = (r, t)"
  shows "backups_ok (rp_backup_count policy) (ls_dirs t c) \<and> (\<exists>dropped. log_bytes (ls_dirs s c) = dropped @ log_bytes (ls_dirs t c))
    \<and> (\<forall>x. x \<noteq> c \<longrightarrow> ls_dirs t x = ls_dirs s x) \<and> (\<forall>e. r = Inl e \<longrightarrow> reported e = ''not_persisted'')"
proof -
  obtain r1 d where rot: "rotate_log_if_needed os policy incoming (ls_dirs s c) = (r1, d)" by fastforce
  have dirs: "ls_dirs t = (ls_dirs s)(c := d)" and r: "\<And>e. r = Inl e \<Longrightarrow> r1 = Inl e"
    using run rot by (auto simp: rotate_or_warn_def on_dir_def split: sum.splits if_splits)
  show ?thesis
    using rotate_keeps_suffix [OF ok pos rot] dirs r rotate_plain [OF plain, of policy incoming "ls_dirs s c" _ d] rot by auto
qed

lemma cleanup_keeps:
  assumes "plain_os os" and "cleanup_log_sidecar env os c locked s = (r, t)"
  shows "r = Inr () \<and> ls_dirs t = ls_dirs s"
proof -
  have step: "op \<in> {OpUnlock, OpCloseLock} \<Longrightarrow> fst (cleanup_step env os c operation op s) = Inr ()
      \<and> ls_dirs (snd (cleanup_step env os c operation op s)) = ls_dirs s" for operation op and s :: "'a log_store_scheme"
    using assms(1) by (auto simp: cleanup_step_def plain_os_def split: option.splits)
  show ?thesis
    using assms(2) step [of OpUnlock "''unlock''" s] step [of OpCloseLock "''close''"]
    by (auto simp: cleanup_log_sidecar_def bind_act_def split: prod.splits sum.splits if_splits) (metis fst_conv snd_conv Inl_Inr_False)+
qed

lemma write_line_body:
  assumes plain: "plain_os os" and ok: "backups_ok (rp_backup_count policy) (ls_dirs s c)" and pos: "1 \<le> rp_backup_count policy"
    and run: "bind_act (\<lambda>s. call_all os (map OpEnsure (existing_indexes (ls_dirs s c))) s) (\<lambda>_.
        bind_act (rotate_or_warn env os policy c (length line)) (\<lambda>_.
          append_encoded_log_line env os c line)) s = (r, t)"
  shows "log_step (rp_backup_count policy) c line s r t"
proof -
  obtain r1 s1 where ensure: "call_all os (map OpEnsure (existing_indexes (ls_dirs s c))) s = (r1, s1)" by fastforce
  have s1: "s1 = s" "\<And>e. r1 = Inl e \<Longrightarrow> reported e = ''not_persisted''" using call_all_keeps [OF plain ensure] by auto
  obtain r2 s2 where rotate: "rotate_or_warn env os policy c (length line) s = (r2, s2)" by fastforce
  note keep = rotate_or_warn_keeps [OF plain ok pos rotate]
  show ?thesis
  proof (cases r1)
    case (Inl e)
    then have "r = Inl e" "t = s" using run ensure s1 by (simp_all add: bind_act_def)
    then show ?thesis using ok s1(2) [OF Inl] by (simp add: log_step_same told_Inl_plain)
  next
    case r1: (Inr u)
    show ?thesis
    proof (cases r2)
      case (Inl e)
      then have "r = Inl e" "t = s2" using run ensure s1 r1 rotate by (simp_all add: bind_act_def)
      then have "log_step (rp_backup_count policy) c line s2 r t" using keep Inl by (simp add: log_step_same told_Inl_plain)
      then show ?thesis by (rule log_step_before) (use keep in auto)
    next
      case (Inr u')
      then have "append_encoded_log_line env os c line s2 = (r, t)" using run ensure s1 r1 rotate by (simp add: bind_act_def)
      then have "log_step (rp_backup_count policy) c line s2 r t" using append_line_step [OF plain] keep by blast
      then show ?thesis by (rule log_step_before) (use keep in auto)
    qed
  qed
qed

lemma log_step_dirs: "log_step n c line s r t \<Longrightarrow> ls_dirs u = ls_dirs t \<Longrightarrow> log_step n c line s r u"
  by (simp add: log_step_def)

lemma write_log_line_step:
  assumes plain: "plain_os os" and ok: "backups_ok (rp_backup_count policy) (ls_dirs s c)" and pos: "1 \<le> rp_backup_count policy"
    and run: "write_log_line env os policy c line s = (r, t)"
  shows "log_step (rp_backup_count policy) c line s r t"
proof -
  let ?body = "bind_act (\<lambda>s. call_all os (map OpEnsure (existing_indexes (ls_dirs s c))) s) (\<lambda>_.
        bind_act (rotate_or_warn env os policy c (length line)) (\<lambda>_. append_encoded_log_line env os c line))"
  have fail: "log_step (rp_backup_count policy) c line s (Inl e) u" if "lo_faults os op = Some e" "ls_dirs u = ls_dirs s" for op e u
    using ok that by (simp add: log_step_same told_Inl_plain fault_plain [OF plain])
  show ?thesis
  proof (cases "lo_faults os OpEnsureLock = None \<and> lo_faults os OpOpenLock = None")
    case False
    then show ?thesis using run fail
      by (auto simp: write_log_line_def locked_log_sidecar_def bind_act_def call_def split: option.splits)
  next
    case True
    define m where "m = (case lo_faults os OpLock of Some e \<Rightarrow> (Inl e, s) | None \<Rightarrow> ?body s)"
    have m: "log_step (rp_backup_count policy) c line s (fst m) (snd m)"
    proof (cases "lo_faults os OpLock")
      case (Some e)
      then show ?thesis using fail [OF Some, of s] by (simp add: m_def)
    next
      case None
      then have "?body s = (fst m, snd m)" by (simp add: m_def)
      then show ?thesis by (rule write_line_body [OF plain ok pos])
    qed
    obtain r2 u where clean: "cleanup_log_sidecar env os c (lo_faults os OpLock = None) (snd m) = (r2, u)" by fastforce
    have "r = fst m" "ls_dirs t = ls_dirs (snd m)"
      using run True clean cleanup_keeps [OF plain clean]
      unfolding write_log_line_def locked_log_sidecar_def
      by (auto simp: bind_act_def call_def m_def [symmetric] split: prod.splits)
    then show ?thesis using m log_step_dirs by simp
  qed
qed

lemma persist_step:
  assumes plain: "plain_os (le_os env (ls_appends s))" and ok: "backups_ok (rp_backup_count policy) (ls_dirs s (lg_component e))"
    and pos: "1 \<le> rp_backup_count policy" and run: "persist_log_event env policy e s = (r, t)"
  shows "log_step (rp_backup_count policy) (lg_component e) (log_line env e) s r t"
proof (cases "lo_faults (le_os env (ls_appends s)) OpDirs")
  case (Some x)
  then have "r = Inl x" "ls_dirs t = ls_dirs s" using run by (auto simp: persist_log_event_def Let_def bind_act_def call_def)
  then show ?thesis using ok by (simp add: log_step_same told_Inl_plain fault_plain [OF plain Some])
next
  case None
  let ?s = "s\<lparr>ls_appends := Suc (ls_appends s)\<rparr>"
  have "write_log_line env (le_os env (ls_appends s)) policy (lg_component e) (log_line env e) ?s = (r, t)"
    using run None by (simp add: persist_log_event_def Let_def bind_act_def call_def)
  then have "log_step (rp_backup_count policy) (lg_component e) (log_line env e) ?s r t"
    by (intro write_log_line_step [OF plain _ pos]) (use ok in auto)
  then show ?thesis by (simp add: log_step_def)
qed

text \<open>
  C9: Whatever fails while an event is written, the log of its component, read from the oldest backup to the
  active file, loses at most its oldest part and gains at most a part of the new line, no other component
  is touched, and the outcome tells the truth: a write that returns left the whole line, an error that
  reports \<open>persisted\<close> too, an error that reports \<open>not_persisted\<close>, or is not of the append, nothing. The
  backups keep the numbers the policy allows.
\<close>

theorem log_write_accounted:
  assumes "plain_os (le_os env (ls_appends s))" and "backups_ok (rp_backup_count policy) (ls_dirs s (lg_component e))"
    and "1 \<le> rp_backup_count policy" and "persist_log_event env policy e s = (r, t)"
  shows "backups_ok (rp_backup_count policy) (ls_dirs t (lg_component e))
    \<and> (\<forall>x. x \<noteq> lg_component e \<longrightarrow> ls_dirs t x = ls_dirs s x)
    \<and> (\<exists>dropped kept tail rest. log_bytes (ls_dirs s (lg_component e)) = dropped @ kept
         \<and> log_bytes (ls_dirs t (lg_component e)) = kept @ tail \<and> log_line env e = tail @ rest
         \<and> (case r of Inr _ \<Rightarrow> tail = log_line env e
             | Inl x \<Rightarrow> (reported x = ''persisted'' \<longrightarrow> tail = log_line env e) \<and> (reported x = ''not_persisted'' \<longrightarrow> tail = [])))"
  using persist_step [OF assms] by (simp add: log_step_def told_def)

text \<open>A disk that fills up in the middle of a record of a log that is rotated, and cannot be rolled back.\<close>

definition sample_record_event :: LogEvent where
  "sample_record_event =
     \<lparr>lg_time = ''2024-01-01T00:00:00+00:00'', lg_level = ''info'', lg_component = ''chat'', lg_event = ''started'',
      lg_message = ''hi'', lg_event_id = Some ''e1'', lg_schema_version = Some 1, lg_conversation_id = None,
      lg_reason_id = None, lg_request_id = None, lg_turn_id = None, lg_job_id = None, lg_trace_id = None,
      lg_source = None, lg_node = None, lg_duration_ms = None, lg_status = None, lg_error = None, lg_metadata = None\<rparr>"

definition sample_log_env :: "(log_op \<Rightarrow> exn option) \<Rightarrow> (nat \<Rightarrow> int result) \<Rightarrow> log_env" where
  "sample_log_env faults writes =
     \<lparr>le_view = (\<lambda>e. Raised ''OSError'' (Some ''failed'') None False None), le_dumps = (\<lambda>_. ''{record}''),
      le_fromiso = (\<lambda>_. IsoAware 0), le_os = (\<lambda>_. \<lparr>lo_faults = faults, lo_writes = writes\<rparr>),
      le_fresh = (\<lambda>n. (''id'', ''2024-01-01T00:00:00+00:00''))\<rparr>"

definition sample_log_store :: log_store where
  "sample_log_store =
     \<lparr>ls_dirs = (\<lambda>_. \<lparr>ld_active = Some \<lparr>lf_inode = 3, lf_bytes = ''new''\<rparr>,
        ld_backups = [(2, \<lparr>lf_inode = 1, lf_bytes = ''old''\<rparr>), (1, \<lparr>lf_inode = 2, lf_bytes = ''mid''\<rparr>)]\<rparr>),
      ls_synced = [], ls_next_inode = 4, ls_appends = 0, ls_warnings = []\<rparr>"

definition full_disk :: "nat \<Rightarrow> int result" where
  "full_disk k = (if k = 0 then Inr 4 else Inl (OSError ''no space''))"

definition no_truncate :: "log_op \<Rightarrow> exn option" where
  "no_truncate op = (if op = OpTruncate then Some (OSError ''failed'') else None)"

lemma sample_write:
  "\<exists>x t. persist_log_event (sample_log_env no_truncate full_disk) \<lparr>rp_max_bytes = 8, rp_backup_count = 2\<rparr>
      sample_record_event sample_log_store = (Inl x, t) \<and> reported x = ''uncertain''
    \<and> log_bytes (ls_dirs t ''chat'') = ''midnew{rec''"
proof -
  have line: "log_line (sample_log_env no_truncate full_disk) sample_record_event = ''{record}'' @ line_end"
    by (simp add: log_line_def sample_log_env_def)
  have "write_log_bytes full_disk 0 (''{record}'' @ line_end) = (Inl (OSError ''no space''), ''{rec'')"
    by (simp add: write_log_bytes.simps full_disk_def line_end_def)
  then show ?thesis
    unfolding persist_log_event_def Let_def line
    by (simp add: sample_log_env_def sample_log_store_def sample_record_event_def no_truncate_def call_def bind_act_def
        write_log_line_def locked_log_sidecar_def existing_indexes_def rotate_or_warn_def on_dir_def
        rotate_log_if_needed_def retire_active_def append_encoded_log_line_def open_log_data_file_def create_active_def
        sync_log_directory_for_active_def sync_cache_limit_def append_body_def append_outcome_def rollback_append_def
        cleanup_log_sidecar_def cleanup_step_def Let_def extend_active_def log_bytes_def component_log_files_def
        active_size_def eval_nat_numeral line_end_def shift_backup_def)
qed

theorem log_write_accounted_witness:
  "\<exists>t x kept tail. persist_log_event (sample_log_env no_truncate full_disk) \<lparr>rp_max_bytes = 8, rp_backup_count = 2\<rparr>
      sample_record_event sample_log_store = (Inl x, t) \<and> reported x = ''uncertain'' \<and> ''oldmidnew'' = ''old'' @ kept
    \<and> log_bytes (ls_dirs t ''chat'') = kept @ tail \<and> kept = ''midnew'' \<and> tail = ''{rec''
    \<and> backups_ok 2 (ls_dirs t ''chat'')"
proof -
  obtain x t where run: "persist_log_event (sample_log_env no_truncate full_disk) \<lparr>rp_max_bytes = 8, rp_backup_count = 2\<rparr>
      sample_record_event sample_log_store = (Inl x, t)" "reported x = ''uncertain''" "log_bytes (ls_dirs t ''chat'') = ''midnew{rec''"
    using sample_write by blast
  have "plain_os (le_os (sample_log_env no_truncate full_disk) (ls_appends sample_log_store))"
    by (auto simp: plain_os_def sample_log_env_def no_truncate_def full_disk_def split: if_splits)
  moreover have "backups_ok 2 (ls_dirs sample_log_store (lg_component sample_record_event))"
    by (simp add: backups_ok_def sample_log_store_def)
  ultimately have "backups_ok 2 (ls_dirs t (lg_component sample_record_event))"
    using log_write_accounted [of "sample_log_env no_truncate full_disk" sample_log_store "\<lparr>rp_max_bytes = 8, rp_backup_count = 2\<rparr>"
        sample_record_event "Inl x" t] run(1) by simp
  then show ?thesis using run by (simp add: sample_record_event_def)
qed

section \<open>Retention\<close>

lemma call_quiet: "\<forall>op. lo_faults os op = None \<Longrightarrow> call os op = ret_act ()"
  by (rule ext) (simp add: call_def)

lemma bind_ret [simp]: "bind_act (ret_act x) f = f x"
  by (rule ext) (simp add: bind_act_def)

lemma call_all_quiet: "\<forall>op. lo_faults os op = None \<Longrightarrow> call_all os ops = ret_act ()"
  by (rule ext) (induction ops, simp_all add: call_def bind_act_def)

lemma shift_backups_quiet: "\<forall>op. lo_faults os op = None \<Longrightarrow> \<exists>d'. shift_backups os i d = (Inr (), d') \<and> ld_active d' = ld_active d"
proof (induction i arbitrary: d)
  case (Suc i)
  have "ld_active (shift_backup (Suc i) d) = ld_active d" by (simp add: shift_backup_def split: option.splits)
  then show ?case using Suc.IH [OF Suc.prems, of d] Suc.IH [OF Suc.prems, of "shift_backup (Suc i) d"]
    by (auto simp: call_quiet [OF Suc.prems] bind_act_def)
qed simp

lemma rotate_quiet:
  assumes quiet: "\<forall>op. lo_faults os op = None"
  obtains d' where "rotate_log_if_needed os policy incoming d = (Inr (), d')"
    "active_size d' = 0 \<or> int (active_size d') + int incoming \<le> rp_max_bytes policy"
proof (cases "ld_active d")
  case None
  then show ?thesis by (intro that [of d]) (simp_all add: rotate_log_if_needed_def active_size_def)
next
  case (Some f)
  show ?thesis
  proof (cases "lf_bytes f = [] \<or> int (length (lf_bytes f)) + int incoming \<le> rp_max_bytes policy")
    case True
    then show ?thesis using Some by (intro that [of d]) (auto simp: rotate_log_if_needed_def call_quiet [OF quiet] active_size_def)
  next
    case False
    let ?d0 = "d\<lparr>ld_backups := AList.delete (rp_backup_count policy) (ld_backups d)\<rparr>"
    obtain d1 where d1: "shift_backups os (rp_backup_count policy - 1) ?d0 = (Inr (), d1)" "ld_active d1 = ld_active d"
      using shift_backups_quiet [OF quiet, of "rp_backup_count policy - 1" ?d0] by auto
    have "rotate_log_if_needed os policy incoming d = (Inr (), retire_active d1)"
      using False Some d1 by (simp add: rotate_log_if_needed_def call_quiet [OF quiet] bind_act_def)
    moreover have "active_size (retire_active d1) = 0" using Some d1(2) by (simp add: retire_active_def active_size_def)
    ultimately show ?thesis by (intro that [of "retire_active d1"]) simp_all
  qed
qed

lemma append_quiet:
  assumes quiet: "\<forall>op. lo_faults os op = None" and run: "append_encoded_log_line env os c line s = (Inr (), t)"
  shows "active_size (ls_dirs t c) = active_size (ls_dirs s c) + length line"
proof -
  obtain r1 s1 where opened: "open_log_data_file os c s = (r1, s1)" by fastforce
  have r1: "r1 = Inr ()" using run opened by (cases r1) (simp_all add: append_encoded_log_line_def bind_act_def)
  then have s1: "open_log_data_file os c s = (Inr (), s1)" "ls_dirs s1 = ls_dirs (create_active c s)"
    using opened sync_dirs [of os c "create_active c s"]
    by (auto simp: open_log_data_file_def call_quiet [OF quiet] bind_act_def split: prod.splits sum.splits)
  obtain f where f: "ld_active (ls_dirs s1 c) = Some f" by (simp add: s1(2) create_active_dir)
  obtain written out where w: "write_log_bytes (lo_writes os) 0 line = (written, out)" by fastforce
  have body: "append_body os line (ls_dirs s1 c) =
      (case written of Inr _ \<Rightarrow> ((None, None, ''persisted''), extend_active out (ls_dirs s1 c))
       | Inl e \<Rightarrow> ((Some e, None, ''not_persisted''), truncate_active (active_size (ls_dirs s1 c)) (extend_active out (ls_dirs s1 c))))"
    using w by (simp add: append_body_def quiet rollback_append_def call_quiet [OF quiet] bind_act_def Let_def split: sum.splits)
  have "written = Inr () \<and> ls_dirs t c = extend_active out (ls_dirs s1 c)"
    using run s1(1) body quiet by (cases written) (auto simp: append_encoded_log_line_def bind_act_def append_outcome_def)
  moreover from this have "out = line" using write_log_bytes_prefix [OF w] by blast
  moreover have "active_size (ls_dirs s1 c) = active_size (ls_dirs s c)"
    by (simp add: s1(2) create_active_dir active_size_def split: option.splits)
  ultimately show ?thesis using f by (simp add: extend_active_def active_size_def)
qed

lemma persist_size:
  assumes quiet: "\<forall>op. lo_faults (le_os env (ls_appends s)) op = None" and run: "persist_log_event env policy e s = (Inr (), t)"
  shows "int (active_size (ls_dirs t (lg_component e))) \<le> max (rp_max_bytes policy) (int (length (log_line env e)))"
proof -
  let ?c = "lg_component e" and ?os = "le_os env (ls_appends s)" and ?line = "log_line env e"
  obtain d' where rot: "rotate_log_if_needed ?os policy (length ?line) (ls_dirs s ?c) = (Inr (), d')"
    and size: "active_size d' = 0 \<or> int (active_size d') + int (length ?line) \<le> rp_max_bytes policy"
    by (rule rotate_quiet [OF quiet])
  let ?s = "s\<lparr>ls_appends := Suc (ls_appends s), ls_dirs := (ls_dirs s)(?c := d')\<rparr>"
  have "append_encoded_log_line env ?os ?c ?line ?s = (Inr (), t)"
    using run rot
    by (auto simp: persist_log_event_def Let_def call_quiet [OF quiet] call_all_quiet [OF quiet] write_log_line_def
        locked_log_sidecar_def cleanup_log_sidecar_def cleanup_step_def quiet rotate_or_warn_def on_dir_def bind_act_def
        split: prod.splits sum.splits)
  then have "active_size (ls_dirs t ?c) = active_size d' + length ?line" by (auto dest: append_quiet [OF quiet])
  then show ?thesis using size by auto
qed

text \<open>
  C35: A write in which no call fails leaves an active file no larger than the limit of the policy, unless
  the new line alone is larger, and then nothing but that line; there are never more backups than the
  policy allows.
\<close>

theorem log_size_bounded:
  assumes "\<forall>op. lo_faults (le_os env (ls_appends s)) op = None" and "persist_log_event env policy e s = (Inr (), t)"
    and "\<forall>k x. lo_writes (le_os env (ls_appends s)) k = Inl x \<longrightarrow> reported x = ''not_persisted''"
    and "backups_ok (rp_backup_count policy) (ls_dirs s (lg_component e))" and "1 \<le> rp_backup_count policy"
  shows "int (active_size (ls_dirs t (lg_component e))) \<le> max (rp_max_bytes policy) (int (length (log_line env e)))
    \<and> length (component_log_files (ls_dirs t (lg_component e))) \<le> rp_backup_count policy + 1"
proof -
  have "plain_os (le_os env (ls_appends s))" using assms(1,3) by (simp add: plain_os_def)
  then have ok: "backups_ok (rp_backup_count policy) (ls_dirs t (lg_component e))"
    using persist_step [OF _ assms(4,5,2)] by (simp add: log_step_def)
  have "length (ld_backups (ls_dirs t (lg_component e))) = card (fst ` set (ld_backups (ls_dirs t (lg_component e))))"
    using ok by (metis backups_ok_def distinct_card length_map list.set_map)
  also have "\<dots> \<le> card {1..rp_backup_count policy}" using ok by (intro card_mono) (auto simp: backups_ok_def)
  finally show ?thesis
    using persist_size [OF assms(1,2)] by (simp add: component_log_files_def split: option.splits)
qed

definition whole_writes :: "nat \<Rightarrow> int result" where
  "whole_writes k = Inr 100"

lemma sample_rotating_write:
  "\<exists>t. persist_log_event (sample_log_env (\<lambda>_. None) whole_writes) \<lparr>rp_max_bytes = 8, rp_backup_count = 2\<rparr> sample_record_event
      sample_log_store = (Inr (), t)"
proof -
  let ?env = "sample_log_env (\<lambda>_. None) whole_writes"
  have line: "log_line ?env sample_record_event = ''{record}'' @ line_end"
    by (simp add: log_line_def sample_log_env_def)
  have "write_log_bytes whole_writes 0 (''{record}'' @ line_end) = (Inr (), ''{record}'' @ line_end)"
    by (simp add: write_log_bytes.simps whole_writes_def line_end_def)
  then show ?thesis
    unfolding persist_log_event_def Let_def line
    by (simp add: sample_log_env_def sample_log_store_def sample_record_event_def call_def bind_act_def
        write_log_line_def locked_log_sidecar_def existing_indexes_def rotate_or_warn_def on_dir_def
        rotate_log_if_needed_def retire_active_def append_encoded_log_line_def open_log_data_file_def create_active_def
        sync_log_directory_for_active_def sync_cache_limit_def append_body_def append_outcome_def
        cleanup_log_sidecar_def cleanup_step_def Let_def extend_active_def
        active_size_def eval_nat_numeral line_end_def shift_backup_def)
qed

lemma sample_quiet: "plain_os (le_os (sample_log_env (\<lambda>_. None) whole_writes) n)"
  by (simp add: plain_os_def sample_log_env_def whole_writes_def)

theorem log_size_bounded_witness:
  "\<exists>t. persist_log_event (sample_log_env (\<lambda>_. None) whole_writes) \<lparr>rp_max_bytes = 8, rp_backup_count = 2\<rparr> sample_record_event
      sample_log_store = (Inr (), t) \<and> int (active_size (ls_dirs t ''chat'')) \<le> 9"
proof -
  let ?env = "sample_log_env (\<lambda>_. None) whole_writes" and ?policy = "\<lparr>rp_max_bytes = 8, rp_backup_count = 2\<rparr>"
  have line: "log_line ?env sample_record_event = ''{record}'' @ line_end"
    by (simp add: log_line_def sample_log_env_def)
  obtain t where run: "persist_log_event ?env ?policy sample_record_event sample_log_store = (Inr (), t)"
    using sample_rotating_write by blast
  have "int (active_size (ls_dirs t ''chat'')) \<le> max 8 (int (length (''{record}'' @ line_end)))"
    using log_size_bounded [of ?env sample_log_store ?policy sample_record_event t] run
    by (simp add: line sample_log_env_def whole_writes_def backups_ok_def sample_log_store_def sample_record_event_def log_line_def)
  then show ?thesis using run by (simp add: line_end_def)
qed

end
