(* ===== verification/LogReader.thy ===== *)
theory LogReader
  imports LogFiles "HOL-Library.Sublist"
begin

text \<open>
  Reading the logs back (\<open>log/reader.py\<close>): the parsing of lines, the reconciliation of events that are seen
  more than once, and the cursor that follows the active files through their rotations.
\<close>

section \<open>Lines\<close>

text \<open>
  \<open>bytes.splitlines\<close> breaks at newlines, carriage returns and both together; \<open>str.splitlines\<close> at more
  characters, of which those below 256 are listed. \<open>read_text\<close> has turned the first kind into newlines
  before, which breaks the same lines.
\<close>

definition is_break :: "char set \<Rightarrow> char \<Rightarrow> bool" where
  "is_break extra c \<longleftrightarrow> (of_char c :: nat) \<in> {10, 13} \<or> c \<in> extra"

definition str_breaks :: "char set" where
  "str_breaks = char_of ` {11::nat, 12, 28, 29, 30, 133}"

fun split_lines :: "char set \<Rightarrow> string \<Rightarrow> string \<Rightarrow> string list" where
  "split_lines extra line [] = (if line = [] then [] else [line])"
| "split_lines extra line (c # cs) =
     (if is_break extra c then
        line # (case cs of
                  [] \<Rightarrow> []
                | d # ds \<Rightarrow> if (of_char c :: nat) = 13 \<and> (of_char d :: nat) = 10 then split_lines extra [] ds
                            else split_lines extra [] cs)
      else split_lines extra (line @ [c]) cs)"

definition bytes_splitlines :: "string \<Rightarrow> string list" where
  "bytes_splitlines = split_lines {} []"

definition str_splitlines :: "string \<Rightarrow> string list" where
  "str_splitlines = split_lines str_breaks []"

text \<open>\<open>_complete_line_length\<close>: up to and with the last newline.\<close>

definition complete_line_length :: "string \<Rightarrow> nat" where
  "complete_line_length content = length content - length (takeWhile (\<lambda>c. (of_char c :: nat) \<noteq> 10) (rev content))"

section \<open>Events\<close>

text \<open>
  Of the library: strict and replacing decoding of UTF-8, \<open>json.loads\<close>, and \<open>json.dumps\<close> with compact
  separators, as for the fingerprint, and with the usual ones.
\<close>

record reader_env =
  re_fromiso :: iso_parser
  re_view :: "exn \<Rightarrow> raised_exception"
  re_decode :: "string \<Rightarrow> string result"
  re_decode_replace :: "string \<Rightarrow> string"
  re_loads :: "string \<Rightarrow> pyobj result"
  re_dumps_compact :: "pydict \<Rightarrow> string"
  re_dumps :: "pydict \<Rightarrow> string"

definition legacy_log_event :: "string \<Rightarrow> string \<Rightarrow> LogEvent" where
  "legacy_log_event c message =
     \<lparr>lg_time = '''', lg_level = ''info'', lg_component = c, lg_event = ''legacy'', lg_message = message,
      lg_event_id = None, lg_schema_version = None, lg_conversation_id = None, lg_reason_id = None,
      lg_request_id = None, lg_turn_id = None, lg_job_id = None, lg_trace_id = None, lg_source = None,
      lg_node = None, lg_duration_ms = None, lg_status = None, lg_error = None, lg_metadata = None\<rparr>"

definition is_json_error :: "exn \<Rightarrow> bool" where
  "is_json_error e \<longleftrightarrow> (case e of JSONDecodeError _ \<Rightarrow> True | _ \<Rightarrow> False)"

text \<open>The event of a line, if it has one, and what \<open>on_corrupt\<close> is told.\<close>

definition parse_log_line :: "reader_env \<Rightarrow> string \<Rightarrow> string \<Rightarrow> (LogEvent list \<times> exn list) result" where
  "parse_log_line env c line =
     (let stripped = strip line in
      if stripped = '''' then Inr ([], [])
      else case re_loads env stripped of
        Inl e \<Rightarrow> if is_json_error e then bindE (make_log_event (re_fromiso env) True (legacy_log_event c stripped)) (\<lambda>x. Inr ([x], []))
                 else Inl e
      | Inr v \<Rightarrow>
          (case v of
             PDict d \<Rightarrow>
               (case log_from_record (re_fromiso env) d of
                  Inr x \<Rightarrow> Inr ([x], [])
                | Inl e \<Rightarrow> if is_type_error e \<or> is_value_error e then Inr ([], [e]) else Inl e)
           | _ \<Rightarrow> Inr ([], [ValueError ''structured log record must be a JSON object''])))"

fun parse_lines :: "reader_env \<Rightarrow> string \<Rightarrow> string list \<Rightarrow> (LogEvent list \<times> exn list) result" where
  "parse_lines env c [] = Inr ([], [])"
| "parse_lines env c (l # ls) =
     bindE (parse_log_line env c l) (\<lambda>(es, xs).
     bindE (parse_lines env c ls) (\<lambda>(es', xs'). Inr (es @ es', xs @ xs')))"

definition log_name :: "string \<Rightarrow> nat \<Rightarrow> string" where
  "log_name c i = c @ ''.log'' @ (if i = 0 then '''' else ''.'' @ dec_nat i)"

text \<open>\<open>_report_log_read_corruptions\<close> and \<open>_report_log_identity_conflicts\<close>: one warning, about the first.\<close>

definition warn_corruptions :: "reader_env \<Rightarrow> string \<Rightarrow> string \<Rightarrow> exn list \<Rightarrow> string list" where
  "warn_corruptions env c name xs =
     (case xs of
        [] \<Rightarrow> []
      | x # _ \<Rightarrow>
          [warning_text (re_view env) LOG_TERMINAL_WARNING_REGISTRY ''logs/corrupt_records_skipped''
             [(''component'', PStr c), (''file'', PStr name), (''count'', PInt (int (length xs))),
              (''first_error'', PStr (raised_class (re_view env x) @ '': '' @ diagnostic_exception_message None (re_view env x)))]])"

definition warn_conflicts :: "reader_env \<Rightarrow> LogEvent list \<Rightarrow> string list" where
  "warn_conflicts env es =
     (case es of
        [] \<Rightarrow> []
      | x # _ \<Rightarrow>
          [warning_text (re_view env) LOG_TERMINAL_WARNING_REGISTRY ''logs/event_identity_conflict''
             [(''count'', PInt (int (length es))), (''first_component'', PStr (lg_component x)),
              (''first_event'', PStr (lg_event x))]])"

definition tell :: "string list \<Rightarrow> 'p log_store_scheme \<Rightarrow> 'p log_store_scheme" where
  "tell ws s = s\<lparr>ls_warnings := ls_warnings s @ ws\<rparr>"

text \<open>The stable sort by time; every event has a key, since its time was parsed when it was made.\<close>

definition sort_events :: "reader_env \<Rightarrow> LogEvent list \<Rightarrow> LogEvent list result" where
  "sort_events env es =
     bindE (mapE (\<lambda>e. bindE (chronological_key (re_fromiso env) e) (\<lambda>key. Inr (key, e))) es) (\<lambda>ps.
       Inr (map snd (sort_key fst ps)))"

section \<open>Identities\<close>

record seen_events =
  se_keys :: "string set"
  se_prints :: "(string \<times> string) list"

definition event_key_of :: "reader_env \<Rightarrow> LogEvent \<Rightarrow> string" where
  "event_key_of env e =
     (case lg_event_id e of
        Some i \<Rightarrow> ''id:'' @ i
      | None \<Rightarrow> ''legacy:'' @ re_dumps env (filter (\<lambda>(key, v). key \<notin> {''event_id'', ''schema_version''}) (log_to_record e)))"

definition fingerprint :: "reader_env \<Rightarrow> LogEvent \<Rightarrow> string" where
  "fingerprint env e = re_dumps_compact env (log_to_record e)"

definition reconcile_event :: "reader_env \<Rightarrow> LogEvent \<Rightarrow> seen_events \<Rightarrow> (LogEvent list \<times> LogEvent list) \<times> seen_events" where
  "reconcile_event env e seen =
     (let key = event_key_of env e; print = fingerprint env e in
      if key \<notin> se_keys seen then
        (([e], []), \<lparr>se_keys = insert key (se_keys seen), se_prints = AList.update key print (se_prints seen)\<rparr>)
      else case map_of (se_prints seen) key of
        None \<Rightarrow> (([], []), seen\<lparr>se_prints := AList.update key print (se_prints seen)\<rparr>)
      | Some existing \<Rightarrow> (([], if existing \<noteq> print then [e] else []), seen))"

fun reconcile :: "reader_env \<Rightarrow> LogEvent list \<Rightarrow> seen_events \<Rightarrow> (LogEvent list \<times> LogEvent list) \<times> seen_events" where
  "reconcile env [] seen = (([], []), seen)"
| "reconcile env (e # es) seen =
     (let ((new, bad), seen') = reconcile_event env e seen; ((news, bads), seen'') = reconcile env es seen' in
      ((new @ news, bad @ bads), seen''))"

section \<open>Reading whole logs\<close>

text \<open>The files of a component with their names, oldest first.\<close>

definition named_files :: "string \<Rightarrow> log_dir \<Rightarrow> (string \<times> log_file) list" where
  "named_files c d =
     map (\<lambda>(i, f). (log_name c i, f)) (rev (sort_key fst (ld_backups d)))
     @ (case ld_active d of None \<Rightarrow> [] | Some f \<Rightarrow> [(log_name c 0, f)])"

fun read_files :: "reader_env \<Rightarrow> string \<Rightarrow> (string \<times> log_file) list \<Rightarrow> ('p log_store_scheme, LogEvent list) act" where
  "read_files env c [] = ret_act []"
| "read_files env c ((name, f) # fs) =
     bind_act (lift_act (\<lambda>_. re_decode env (lf_bytes f))) (\<lambda>content.
     bind_act (lift_act (\<lambda>_. parse_lines env c (str_splitlines content))) (\<lambda>(es, xs).
     bind_act (modify_act (tell (warn_corruptions env c name xs))) (\<lambda>_.
     bind_act (read_files env c fs) (\<lambda>rest. ret_act (es @ rest)))))"

fun read_components :: "reader_env \<Rightarrow> string list \<Rightarrow> ('p log_store_scheme, LogEvent list) act" where
  "read_components env [] = ret_act []"
| "read_components env (c # cs) =
     bind_act (\<lambda>s. read_files env c (named_files c (ls_dirs s c)) s) (\<lambda>es.
     bind_act (read_components env cs) (\<lambda>rest. ret_act (es @ rest)))"

definition read_log_events :: "reader_env \<Rightarrow> string option \<Rightarrow> int option \<Rightarrow> ('p log_store_scheme, LogEvent list) act" where
  "read_log_events env component tail_count =
     bind_act (read_components env (case component of Some c \<Rightarrow> [c] | None \<Rightarrow> LOG_COMPONENTS)) (\<lambda>es.
     bind_act (lift_act (\<lambda>_. sort_events env es)) (\<lambda>es.
       case reconcile env es \<lparr>se_keys = {}, se_prints = []\<rparr> of
         ((canonical, conflicts), _) \<Rightarrow>
           bind_act (modify_act (tell (warn_conflicts env conflicts))) (\<lambda>_.
             ret_act (case tail_count of
               None \<Rightarrow> canonical
             | Some n \<Rightarrow> if 0 < n then drop (length canonical - nat n) canonical else canonical))))"

section \<open>The cursor\<close>

record InteractiveLogCursor =
  cu_seen :: seen_events
  cu_offsets :: "string \<Rightarrow> nat"
  cu_identities :: "string \<Rightarrow> nat option"

definition cursor_from_project :: "'p log_store_scheme \<Rightarrow> InteractiveLogCursor" where
  "cursor_from_project s =
     \<lparr>cu_seen = \<lparr>se_keys = {}, se_prints = []\<rparr>,
      cu_offsets = (\<lambda>c. if c \<in> set LOG_COMPONENTS then active_size (ls_dirs s c) else 0),
      cu_identities = (\<lambda>c. if c \<in> set LOG_COMPONENTS then map_option lf_inode (ld_active (ls_dirs s c)) else None)\<rparr>"

text \<open>\<open>_read_log_path\<close>: the events of the complete lines after an offset, and the offset after them.\<close>

definition read_log_path :: "reader_env \<Rightarrow> string \<Rightarrow> string \<Rightarrow> log_file \<Rightarrow> nat \<Rightarrow> ('p log_store_scheme, LogEvent list \<times> nat) act" where
  "read_log_path env c name f offset =
     (let appended = drop offset (lf_bytes f); n = complete_line_length appended in
      bind_act (lift_act (\<lambda>_. parse_lines env c (map (re_decode_replace env) (bytes_splitlines (take n appended))))) (\<lambda>(es, xs).
      bind_act (modify_act (tell (warn_corruptions env c name xs))) (\<lambda>_.
        ret_act (es, offset + n))))"

definition find_log_with_identity :: "log_dir \<Rightarrow> nat \<Rightarrow> (nat \<times> log_file) option" where
  "find_log_with_identity d inode = List.find (\<lambda>(i, f). lf_inode f = inode) (rev (sort_key fst (ld_backups d)))"

text \<open>
  \<open>_read_component\<close>: when the file that was read last has been rotated, its rest is read from the backup
  it became, and the new active file from its start.
\<close>

definition read_component ::
  "reader_env \<Rightarrow> string \<Rightarrow> (InteractiveLogCursor \<times> 'p log_store_scheme, LogEvent list) act" where
  "read_component env c = (\<lambda>(cursor, s).
     case ld_active (ls_dirs s c) of
       None \<Rightarrow>
         (Inr [], cursor\<lparr>cu_offsets := (cu_offsets cursor)(c := 0), cu_identities := (cu_identities cursor)(c := None)\<rparr>, s)
     | Some f \<Rightarrow>
         (let offset = cu_offsets cursor c;
              rotated = (case cu_identities cursor c of
                           None \<Rightarrow> False | Some inode \<Rightarrow> inode \<noteq> lf_inode f);
              found = (case cu_identities cursor c of
                         None \<Rightarrow> None | Some inode \<Rightarrow> if rotated then find_log_with_identity (ls_dirs s c) inode else None);
              start = (if rotated \<or> length (lf_bytes f) < offset then 0 else offset) in
          case bind_act (case found of
                           None \<Rightarrow> ret_act []
                         | Some (i, g) \<Rightarrow> bind_act (read_log_path env c (log_name c i) g offset) (\<lambda>(es, n). ret_act es)) (\<lambda>es.
               bind_act (read_log_path env c (log_name c 0) f start) (\<lambda>(es', n). ret_act (es @ es', n))) s of
            (Inl e, t) \<Rightarrow> (Inl e, cursor, t)
          | (Inr (es, n), t) \<Rightarrow>
              (Inr es,
               cursor\<lparr>cu_offsets := (cu_offsets cursor)(c := n), cu_identities := (cu_identities cursor)(c := Some (lf_inode f))\<rparr>,
               t)))"

fun read_all_components :: "reader_env \<Rightarrow> string list \<Rightarrow> (InteractiveLogCursor \<times> 'p log_store_scheme, LogEvent list) act" where
  "read_all_components env [] = ret_act []"
| "read_all_components env (c # cs) =
     bind_act (read_component env c) (\<lambda>es. bind_act (read_all_components env cs) (\<lambda>rest. ret_act (es @ rest)))"

text \<open>The part of \<open>read_new_events\<close> and \<open>mark_seen\<close> that reconciles.\<close>

definition cursor_reconcile :: "reader_env \<Rightarrow> LogEvent list \<Rightarrow> (InteractiveLogCursor \<times> 'p log_store_scheme, LogEvent list) act" where
  "cursor_reconcile env es = (\<lambda>(cursor, s).
     case reconcile env es (cu_seen cursor) of
       ((new, conflicts), seen) \<Rightarrow> (Inr new, cursor\<lparr>cu_seen := seen\<rparr>, tell (warn_conflicts env conflicts) s))"

definition mark_seen :: "reader_env \<Rightarrow> LogEvent list \<Rightarrow> (InteractiveLogCursor \<times> 'p log_store_scheme, unit) act" where
  "mark_seen env es = bind_act (cursor_reconcile env es) (\<lambda>_. ret_act ())"

definition read_new_events :: "reader_env \<Rightarrow> (InteractiveLogCursor \<times> 'p log_store_scheme, LogEvent list) act" where
  "read_new_events env =
     bind_act (read_all_components env LOG_COMPONENTS) (\<lambda>es.
     bind_act (lift_act (\<lambda>_. sort_events env es)) (\<lambda>es.
       cursor_reconcile env es))"

section \<open>Every line is read once\<close>

lemma split_lines_newline:
  assumes "(of_char nl :: nat) = 10"
  shows "split_lines extra line (x @ nl # y) = split_lines extra line (x @ [nl]) @ split_lines extra [] y"
proof (induction extra line x rule: split_lines.induct)
  case (1 extra line)
  have "is_break extra nl" using assms by (simp add: is_break_def)
  then show ?case using assms by (cases y) auto
next
  case (2 extra line c cs)
  show ?case
  proof (cases "is_break extra c")
    case False
    then show ?thesis using 2(3) by simp
  next
    case True
    show ?thesis
    proof (cases cs)
      case Nil
      have "split_lines extra [] (nl # y) = [] # split_lines extra [] y"
        using assms by (cases y) (simp_all add: is_break_def)
      then show ?thesis using True assms Nil by (cases y) (simp_all add: is_break_def)
    next
      case (Cons d ds)
      then show ?thesis using True 2(1) [OF True Cons] 2(2) [OF True Cons] by auto
    qed
  qed
qed

lemma complete_after_line:
  assumes "(of_char nl :: nat) = 10"
  shows "complete_line_length (p @ nl # q) = length p + 1 + complete_line_length q"
proof (cases "\<exists>c \<in> set q. (of_char c :: nat) = 10")
  case True
  then have "takeWhile (\<lambda>c. (of_char c :: nat) \<noteq> 10) (rev q @ nl # rev p) = takeWhile (\<lambda>c. (of_char c :: nat) \<noteq> 10) (rev q)"
    using True by (metis (mono_tags) set_rev takeWhile_append1)
  moreover have "length (takeWhile (\<lambda>c. (of_char c :: nat) \<noteq> 10) (rev q)) \<le> length q"
    using length_takeWhile_le [of _ "rev q"] by simp
  ultimately show ?thesis by (simp add: complete_line_length_def)
next
  case False
  then have "takeWhile (\<lambda>c. (of_char c :: nat) \<noteq> 10) (rev q @ nl # rev p) = rev q @ takeWhile (\<lambda>c. (of_char c :: nat) \<noteq> 10) (nl # rev p)"
    by (intro takeWhile_append2) auto
  moreover have q: "takeWhile (\<lambda>c. (of_char c :: nat) \<noteq> 10) (rev q) = rev q" using False by (auto simp: takeWhile_eq_all_conv)
  ultimately show ?thesis using assms unfolding complete_line_length_def by (simp add: q)
qed

lemma no_complete_line: "\<forall>c \<in> set q. (of_char c :: nat) \<noteq> 10 \<Longrightarrow> complete_line_length q = 0"
  by (simp add: complete_line_length_def takeWhile_eq_all_conv [THEN iffD2])

lemma last_newline_cases:
  obtains "\<forall>c \<in> set b. (of_char c :: nat) \<noteq> 10"
  | p nl q where "b = p @ nl # q" "(of_char nl :: nat) = 10" "\<forall>c \<in> set q. (of_char c :: nat) \<noteq> 10"
  using split_list_last_prop [of b "\<lambda>c. (of_char c :: nat) = 10"] by blast

text \<open>What two looks at a growing file take in is what one look at the end would have taken in.\<close>

lemma complete_lines_compose:
  "complete_line_length (b1 @ b2) = complete_line_length b1 + complete_line_length (drop (complete_line_length b1) (b1 @ b2))
   \<and> bytes_splitlines (take (complete_line_length (b1 @ b2)) (b1 @ b2)) =
       bytes_splitlines (take (complete_line_length b1) b1)
       @ bytes_splitlines (take (complete_line_length (drop (complete_line_length b1) (b1 @ b2))) (drop (complete_line_length b1) (b1 @ b2)))"
proof (cases rule: last_newline_cases [of b1])
  case 1
  then show ?thesis by (simp add: no_complete_line bytes_splitlines_def)
next
  case (2 p nl q)
  have n: "complete_line_length b1 = length p + 1" using 2 by (simp add: complete_after_line no_complete_line)
  have "complete_line_length (b1 @ b2) = length p + 1 + complete_line_length (q @ b2)"
    using 2 by (simp add: complete_after_line)
  then show ?thesis
    using 2 n split_lines_newline [OF 2(2), of "{}" "[]" p "take (complete_line_length (q @ b2)) (q @ b2)"]
    by (simp add: bytes_splitlines_def)
qed

lemma parse_lines_append:
  "parse_lines env c (ls @ ms) =
     bindE (parse_lines env c ls) (\<lambda>(es, xs). bindE (parse_lines env c ms) (\<lambda>(es', xs'). Inr (es @ es', xs @ xs')))"
proof (induction ls)
  case Nil
  then show ?case by (cases "parse_lines env c ms") auto
next
  case (Cons l ls)
  then show ?case
    by (cases "parse_log_line env c l"; cases "parse_lines env c ls"; cases "parse_lines env c ms") auto
qed

text \<open>
  C33: A cursor that looks at a growing log twice, the second time from where the first look ended, sees
  the events that one look at the end would see, in their order, and ends at the same offset: no line is
  lost, read twice, or read before it is complete.
\<close>

theorem cursor_looks_compose:
  assumes "read_log_path env c name \<lparr>lf_inode = i, lf_bytes = b1\<rparr> offset s = (Inr (es1, n1), s1)" and "offset \<le> length b1"
    and "read_log_path env c name \<lparr>lf_inode = i, lf_bytes = b1 @ b2\<rparr> n1 s1 = (Inr (es2, n2), s2)"
  shows "fst (read_log_path env c name \<lparr>lf_inode = i, lf_bytes = b1 @ b2\<rparr> offset s) = Inr (es1 @ es2, n2)
    \<and> offset \<le> n1 \<and> n1 \<le> length b1 \<and> n1 \<le> n2"
proof -
  let ?b = "drop offset b1" and ?look = "\<lambda>b. map (re_decode_replace env) (bytes_splitlines (take (complete_line_length b) b))"
  obtain xs1 where one: "parse_lines env c (?look ?b) = Inr (es1, xs1)" and n1: "n1 = offset + complete_line_length ?b"
    using assms(1) by (auto simp: read_log_path_def Let_def result_simps)
  have rest: "drop n1 (b1 @ b2) = drop (complete_line_length ?b) (?b @ b2)"
    using assms(2) by (simp add: n1 add.commute [of offset])
  obtain xs2 where two: "parse_lines env c (?look (drop n1 (b1 @ b2))) = Inr (es2, xs2)"
      and n2: "n2 = n1 + complete_line_length (drop n1 (b1 @ b2))"
    using assms(3) by (auto simp: read_log_path_def Let_def result_simps)
  have both: "?look (?b @ b2) = ?look ?b @ ?look (drop n1 (b1 @ b2))"
    and size: "complete_line_length (?b @ b2) = complete_line_length ?b + complete_line_length (drop n1 (b1 @ b2))"
    using complete_lines_compose [of ?b b2] unfolding rest by (metis map_append, blast)
  have "parse_lines env c (?look (?b @ b2)) = Inr (es1 @ es2, xs1 @ xs2)"
    by (simp only: both parse_lines_append one two bindE_Inr prod.case)
  moreover have "drop offset (b1 @ b2) = ?b @ b2" using assms(2) by simp
  moreover have "complete_line_length ?b \<le> length ?b" by (simp add: complete_line_length_def)
  ultimately show ?thesis
    using assms(2) size n1 n2 by (simp add: read_log_path_def Let_def bind_act_def)
qed

text \<open>Two looks at a log of one record and the beginning of another, completed in between.\<close>

definition sample_reader :: reader_env where
  "sample_reader =
     \<lparr>re_fromiso = (\<lambda>_. IsoAware 0), re_view = (\<lambda>e. Raised ''ValueError'' (Some ''bad'') None False None),
      re_decode = Inr, re_decode_replace = id,
      re_loads = (\<lambda>s. if s = ''{record}'' then Inr (PDict (log_to_record sample_record_event)) else Inl (JSONDecodeError ''bad'')),
      re_dumps_compact = (\<lambda>_. ''{record}''), re_dumps = (\<lambda>_. ''{record}'')\<rparr>"

lemma sample_event_valid: "log_valid (\<lambda>_. IsoAware 0) sample_record_event"
  by (simp add: log_valid_def make_log_event_def sample_record_event_def log_levels_def LOG_COMPONENTS_def
      runtime_schema_version_def blank_def py_space_def parse_log_timestamp_def legacy_event_def
      require_log_identity_def require_persisted_event_name_def require_audit_event_name_def
      require_identity_segment_def identity_segment_def slug_char_def lower_char_def)

lemma sample_record_parse: "parse_log_line sample_reader ''chat'' ''{record}'' = Inr ([sample_record_event], [])"
  using log_reload [OF sample_event_valid]
  by (simp add: parse_log_line_def sample_reader_def strip_def py_space_def)

theorem cursor_looks_compose_witness:
  "\<exists>s1 s2. read_log_path sample_reader ''chat'' ''chat.log'' \<lparr>lf_inode = 1, lf_bytes = ''{record}'' @ line_end @ ''{rec''\<rparr> 0
        sample_log_store = (Inr ([sample_record_event], 9), s1)
    \<and> read_log_path sample_reader ''chat'' ''chat.log''
        \<lparr>lf_inode = 1, lf_bytes = (''{record}'' @ line_end @ ''{rec'') @ (''ord}'' @ line_end)\<rparr> 9 s1 = (Inr ([sample_record_event], 18), s2)
    \<and> fst (read_log_path sample_reader ''chat'' ''chat.log''
        \<lparr>lf_inode = 1, lf_bytes = (''{record}'' @ line_end @ ''{rec'') @ (''ord}'' @ line_end)\<rparr> 0 sample_log_store)
        = Inr ([sample_record_event] @ [sample_record_event], 18)"
proof -
  let ?b1 = "''{record}'' @ line_end @ ''{rec''" and ?b2 = "''ord}'' @ line_end"
  have id: "re_decode_replace sample_reader = id" by (simp add: sample_reader_def)
  have one: "read_log_path sample_reader ''chat'' ''chat.log'' \<lparr>lf_inode = 1, lf_bytes = ?b1\<rparr> 0 sample_log_store
      = (Inr ([sample_record_event], 9), tell [] sample_log_store)"
    by (simp add: read_log_path_def id complete_line_length_def line_end_def bytes_splitlines_def is_break_def sample_record_parse
        bind_act_def warn_corruptions_def)
  have two: "read_log_path sample_reader ''chat'' ''chat.log'' \<lparr>lf_inode = 1, lf_bytes = ?b1 @ ?b2\<rparr> 9 (tell [] sample_log_store)
      = (Inr ([sample_record_event], 18), tell [] (tell [] sample_log_store))"
    by (simp add: read_log_path_def id complete_line_length_def line_end_def bytes_splitlines_def is_break_def sample_record_parse
        bind_act_def warn_corruptions_def)
  show ?thesis using one two cursor_looks_compose [OF one _ two] by blast
qed

section \<open>What is written is seen\<close>

text \<open>The files after a rotation: the active one is still active, or it is the first backup.\<close>

lemma update_values: "snd ` set (AList.update j f b) \<subseteq> insert f (snd ` set b)"
  using set_update [of j f b] by force

lemma delete_values: "snd ` set (AList.delete j b) \<subseteq> snd ` set b"
  by (auto simp: AList.delete_eq)

lemma shift_values: "snd ` set (ld_backups (shift_backup i d)) \<subseteq> snd ` set (ld_backups d)"
proof (cases "map_of (ld_backups d) i")
  case (Some f)
  then have "f \<in> snd ` set (ld_backups d)" by (force dest: map_of_SomeD)
  then show ?thesis
    using Some update_values [of "Suc i" f "AList.delete i (ld_backups d)"] delete_values [of i "ld_backups d"]
    by (simp add: shift_backup_def) blast
qed (simp add: shift_backup_def)

lemma shift_backups_values:
  "shift_backups os i d = (r, d') \<Longrightarrow> snd ` set (ld_backups d') \<subseteq> snd ` set (ld_backups d) \<and> ld_active d' = ld_active d"
proof (induction i arbitrary: d)
  case (Suc i)
  have active: "ld_active (shift_backup (Suc i) d) = ld_active d" by (simp add: shift_backup_def split: option.splits)
  consider "shift_backups os i d = (r, d')" | "d' = d" | "shift_backups os i (shift_backup (Suc i) d) = (r, d')"
    using Suc.prems by (auto simp: call_def bind_act_def split: if_splits option.splits)
  then show ?case
  proof cases
    case 3
    then show ?thesis using Suc.IH [OF 3] shift_values [of "Suc i" d] active by (metis subset_trans)
  qed (use Suc.IH in auto)
qed simp

lemma rotate_files:
  assumes run: "rotate_log_if_needed os policy incoming d = (r, d')" and active: "ld_active d = Some f"
  shows "snd ` set (ld_backups d') \<subseteq> insert f (snd ` set (ld_backups d))
    \<and> (ld_active d' = Some f \<or> ld_active d' = None \<and> f \<in> snd ` set (ld_backups d'))"
proof -
  let ?d0 = "d\<lparr>ld_backups := AList.delete (rp_backup_count policy) (ld_backups d)\<rparr>"
  obtain r1 d1 where shift: "shift_backups os (rp_backup_count policy - 1) ?d0 = (r1, d1)" by fastforce
  have d1: "snd ` set (ld_backups d1) \<subseteq> snd ` set (ld_backups d)" "ld_active d1 = Some f"
    using shift_backups_values [OF shift] subset_trans [OF _ delete_values [of "rp_backup_count policy" "ld_backups d"]] active
    by simp_all
  have "f \<in> snd ` set (AList.update 1 f (ld_backups d1))"
    by (metis (no_types, lifting) map_of_SomeD image_eqI snd_conv update_Some_unfold)
  then have retire: "snd ` set (ld_backups (retire_active d1)) \<subseteq> insert f (snd ` set (ld_backups d))
      \<and> ld_active (retire_active d1) = None \<and> f \<in> snd ` set (ld_backups (retire_active d1))"
    using d1(2) subset_trans [OF update_values [of 1 f "ld_backups d1"] insert_mono [OF d1(1), of f]]
    by (simp add: retire_active_def)
  consider "d' = d" | "d' = d1" | "d' = retire_active d1" | "d' = ?d0"
    using run active shift
    by (cases r1) (auto simp: rotate_log_if_needed_def bind_act_def call_def split: option.splits if_splits)
  then show ?thesis
  proof cases
    case 4
    then show ?thesis using active delete_values [of "rp_backup_count policy" "ld_backups d"] by auto
  qed (use active d1 retire in auto)
qed

lemma append_files:
  assumes run: "append_encoded_log_line env os c line s = (Inr (), t)"
  shows "ld_backups (ls_dirs t c) = ld_backups (ls_dirs s c)
    \<and> ld_active (ls_dirs t c) = Some (case ld_active (ls_dirs s c) of
         Some f \<Rightarrow> f\<lparr>lf_bytes := lf_bytes f @ line\<rparr>
       | None \<Rightarrow> \<lparr>lf_inode = ls_next_inode s, lf_bytes = line\<rparr>)"
proof -
  obtain r1 s1 where opened: "open_log_data_file os c s = (r1, s1)" by fastforce
  have r1: "r1 = Inr ()" using run opened by (cases r1) (simp_all add: append_encoded_log_line_def bind_act_def)
  then have s1: "ls_dirs s1 = ls_dirs (create_active c s)"
    using opened sync_dirs [of os c "create_active c s"]
    by (auto simp: open_log_data_file_def call_def bind_act_def split: prod.splits sum.splits option.splits)
  obtain primary rollback outcome d where body: "append_body os line (ls_dirs s1 c) = ((primary, rollback, outcome), d)"
    by (metis prod_cases4 surj_pair)
  have none: "primary = None" "ls_dirs t c = d"
    using run opened r1 body
    by (auto simp: append_encoded_log_line_def bind_act_def append_outcome_def Let_def split: if_splits option.splits)
  obtain written out where w: "write_log_bytes (lo_writes os) 0 line = (written, out)" by fastforce
  have d: "written = Inr () \<and> d = extend_active out (ls_dirs s1 c)"
    using body none w by (cases written) (auto simp: append_body_def Let_def split: option.splits sum.splits prod.splits)
  then have "out = line" using write_log_bytes_prefix [OF w] by blast
  then show ?thesis using d none s1 by (auto simp: extend_active_def create_active_dir split: option.splits)
qed

lemma persist_files:
  fixes s :: "'p log_store_scheme"
  assumes plain: "plain_os (le_os env (ls_appends s))" and run: "persist_log_event env policy e s = (Inr (), t)"
    and active: "ld_active (ls_dirs s (lg_component e)) = Some f"
  shows "ld_active (ls_dirs t (lg_component e)) = Some (f\<lparr>lf_bytes := lf_bytes f @ log_line env e\<rparr>)
    \<or> ld_active (ls_dirs t (lg_component e)) = Some \<lparr>lf_inode = ls_next_inode s, lf_bytes = log_line env e\<rparr>
      \<and> f \<in> snd ` set (ld_backups (ls_dirs t (lg_component e)))
      \<and> snd ` set (ld_backups (ls_dirs t (lg_component e))) \<subseteq> insert f (snd ` set (ld_backups (ls_dirs s (lg_component e))))"
proof -
  let ?c = "lg_component e" and ?os = "le_os env (ls_appends s)" and ?line = "log_line env e"
  let ?s = "s\<lparr>ls_appends := Suc (ls_appends s)\<rparr>"
  define body :: "('p log_store_scheme, unit) act" where "body = bind_act (\<lambda>s. call_all ?os (map OpEnsure (existing_indexes (ls_dirs s ?c))) s) (\<lambda>_.
        bind_act (rotate_or_warn env ?os policy ?c (length ?line)) (\<lambda>_. append_encoded_log_line env ?os ?c ?line))"
  have "write_log_line env ?os policy ?c ?line ?s = (Inr (), t)"
    using run by (auto simp: persist_log_event_def Let_def bind_act_def call_def split: option.splits)
  then have "locked_log_sidecar env ?os ?c body ?s = (Inr (), t)" by (simp add: write_log_line_def body_def)
  then obtain u where u: "body ?s = (Inr (), u)" and "cleanup_log_sidecar env ?os ?c True u = (Inr (), t)"
    by (auto simp: locked_log_sidecar_def Let_def bind_act_def call_def split: option.splits prod.splits sum.splits)
  then have t: "ls_dirs t = ls_dirs u" using cleanup_keeps [OF plain] by blast
  obtain a w b v where ensure: "call_all ?os (map OpEnsure (existing_indexes (ls_dirs ?s ?c))) ?s = (Inr a, w)"
      and rot: "rotate_or_warn env ?os policy ?c (length ?line) w = (Inr b, v)"
      and append: "append_encoded_log_line env ?os ?c ?line v = (Inr (), u)"
    using u [unfolded body_def bind_act_eq_Inr] by fast
  have "w = ?s" by (rule conjunct1 [OF call_all_keeps [OF plain ensure]])
  with rot have rotate: "rotate_or_warn env ?os policy ?c (length ?line) ?s = (Inr (), v)" by (cases b) (simp only:)
  obtain r1 d where d: "rotate_log_if_needed ?os policy (length ?line) (ls_dirs s ?c) = (r1, d)" by fastforce
  have v: "ls_dirs v ?c = d" "ls_next_inode v = ls_next_inode s"
    using rotate d by (auto simp: rotate_or_warn_def on_dir_def log_warn_def split: sum.splits if_splits)
  show ?thesis using rotate_files [OF d active] append_files [OF append] v t by auto
qed

text \<open>
  What is asked of \<open>json\<close> and of the decoder for a record: the encoding is one line of text without spaces at
  its ends, which is decoded as itself and parsed as the record. A dictionary is an association
  list here, and the parsed one is asked to be in the order of \<open>log_to_record\<close>; the code's \<open>dumps\<close> sorts the keys, a
  difference that the equality of Python's dictionaries does not see: events are the same up to the order of keys.
\<close>

definition reads_back :: "log_env \<Rightarrow> reader_env \<Rightarrow> pydict \<Rightarrow> bool" where
  "reads_back env renv r \<longleftrightarrow>
     (let w = le_dumps env r in
      w \<noteq> [] \<and> \<not> py_space (hd w) \<and> \<not> py_space (last w) \<and> (\<forall>c \<in> set w. \<not> is_break {} c)
      \<and> re_decode_replace renv w = w \<and> re_loads renv w = Inr (PDict r))"

text \<open>A cursor that has read all of a component's active file; the files have identities of their own.\<close>

definition caught_up :: "InteractiveLogCursor \<Rightarrow> string \<Rightarrow> 'p log_store_scheme \<Rightarrow> bool" where
  "caught_up cursor c s \<longleftrightarrow>
     (\<exists>f. ld_active (ls_dirs s c) = Some f \<and> cu_offsets cursor c = length (lf_bytes f) \<and> cu_identities cursor c = Some (lf_inode f))"

definition inodes_ok :: "string \<Rightarrow> 'p log_store_scheme \<Rightarrow> bool" where
  "inodes_ok c s \<longleftrightarrow>
     (\<forall>f g. f \<in> set (component_log_files (ls_dirs s c)) \<and> g \<in> set (component_log_files (ls_dirs s c)) \<and> lf_inode f = lf_inode g \<longrightarrow> f = g)
     \<and> (\<forall>f \<in> set (component_log_files (ls_dirs s c)). lf_inode f < ls_next_inode s)"

lemma split_unbroken: "\<forall>c \<in> set w. \<not> is_break extra c \<Longrightarrow> split_lines extra line (w @ x) = split_lines extra (line @ w) x"
  by (induction w arbitrary: line) auto

lemma strip_tight: "w \<noteq> [] \<Longrightarrow> \<not> py_space (hd w) \<Longrightarrow> \<not> py_space (last w) \<Longrightarrow> strip w = w"
proof -
  assume w: "w \<noteq> []" "\<not> py_space (hd w)" "\<not> py_space (last w)"
  then have "dropWhile py_space w = w" by (cases w) simp_all
  moreover have "dropWhile py_space (rev w) = rev w" using w by (simp add: dropWhile_eq_self_iff hd_rev)
  ultimately show ?thesis by (simp add: strip_def)
qed

lemma bytes_of_line:
  assumes "w \<noteq> []" and "\<forall>c \<in> set w. \<not> is_break {} c"
  shows "complete_line_length (w @ line_end) = length (w @ line_end)" "bytes_splitlines (w @ line_end) = [w]"
  using complete_after_line [of "char_of (10::nat)" w "[]"] split_unbroken [OF assms(2), of "[]" line_end] assms(1)
  by (simp_all add: line_end_def no_complete_line bytes_splitlines_def is_break_def)

lemma read_own_line:
  assumes json: "reads_back env renv (log_to_record e)" and valid: "log_valid (re_fromiso renv) e"
    and bytes: "drop offset (lf_bytes f) = log_line env e" and size: "offset \<le> length (lf_bytes f)"
  shows "read_log_path renv c name f offset s = (Inr ([e], length (lf_bytes f)), s)"
proof -
  let ?w = "le_dumps env (log_to_record e)"
  have w: "?w \<noteq> []" "\<not> py_space (hd ?w)" "\<not> py_space (last ?w)" "\<forall>c \<in> set ?w. \<not> is_break {} c"
      "re_decode_replace renv ?w = ?w" "re_loads renv ?w = Inr (PDict (log_to_record e))"
    using json by (simp_all add: reads_back_def Let_def)
  note line = bytes_of_line [OF w(1,4)]
  have "parse_log_line renv c ?w = Inr ([e], [])"
    using log_reload [OF valid] w by (simp add: parse_log_line_def Let_def strip_tight)
  moreover have "length (lf_bytes f) = offset + length (?w @ line_end)"
    using arg_cong [OF bytes, of length] size by (simp add: log_line_def)
  ultimately show ?thesis
    using bytes line w(5) by (simp add: read_log_path_def log_line_def Let_def bind_act_def warn_corruptions_def tell_def)
qed

lemma read_nothing: "lf_bytes f = b \<Longrightarrow> offset = length b \<Longrightarrow> read_log_path renv c name f offset s = (Inr ([], offset), s)"
  by (simp add: read_log_path_def Let_def bind_act_def warn_corruptions_def tell_def complete_line_length_def bytes_splitlines_def)

lemma find_unique:
  assumes "f \<in> snd ` set (ld_backups d)" and "\<And>g. g \<in> snd ` set (ld_backups d) \<Longrightarrow> lf_inode g = lf_inode f \<Longrightarrow> g = f"
  shows "\<exists>i. find_log_with_identity d (lf_inode f) = Some (i, f)"
proof -
  let ?P = "\<lambda>(i, g). lf_inode g = lf_inode f" and ?xs = "rev (sort_key fst (ld_backups d))"
  obtain i where "(i, f) \<in> set ?xs" using assms(1) by auto
  then have "List.find ?P ?xs \<noteq> None" by (auto simp: find_None_iff)
  then obtain x where x: "List.find ?P ?xs = Some x" by blast
  then have "x \<in> set ?xs" by (metis find_Some_iff nth_mem)
  moreover have "?P x" using x by (auto simp: find_Some_iff)
  ultimately have "snd x = f" by (intro assms(2)) (auto simp: case_prod_beta)
  then show ?thesis using x by (cases x) (simp add: find_log_with_identity_def)
qed

lemma read_written:
  fixes s :: "'p log_store_scheme"
  assumes plain: "plain_os (le_os env (ls_appends s))" and run: "persist_log_event env policy e s = (Inr (), t)"
    and caught: "caught_up cursor (lg_component e) s" and inodes: "inodes_ok (lg_component e) s"
    and valid: "log_valid (re_fromiso renv) e" and json: "reads_back env renv (log_to_record e)"
  shows "\<exists>cursor'. read_component renv (lg_component e) (cursor, t) = (Inr [e], cursor', t) \<and> caught_up cursor' (lg_component e) t"
proof -
  let ?c = "lg_component e"
  obtain f where f: "ld_active (ls_dirs s ?c) = Some f" "cu_offsets cursor ?c = length (lf_bytes f)"
      "cu_identities cursor ?c = Some (lf_inode f)" using caught by (auto simp: caught_up_def)
  have files: "set (component_log_files (ls_dirs s ?c)) = insert f (snd ` set (ld_backups (ls_dirs s ?c)))"
    using f(1) by (auto simp: component_log_files_def)
  from persist_files [OF plain run f(1)] show ?thesis
  proof
    assume active: "ld_active (ls_dirs t ?c) = Some (f\<lparr>lf_bytes := lf_bytes f @ log_line env e\<rparr>)"
    let ?g = "f\<lparr>lf_bytes := lf_bytes f @ log_line env e\<rparr>"
    have "read_log_path renv ?c (log_name ?c 0) ?g (length (lf_bytes f)) t = (Inr ([e], length (lf_bytes ?g)), t)"
      by (rule read_own_line [OF json valid]) simp_all
    then show ?thesis using active f by (auto simp: read_component_def caught_up_def bind_act_def Let_def)
  next
    let ?g = "\<lparr>lf_inode = ls_next_inode s, lf_bytes = log_line env e\<rparr>"
    assume "ld_active (ls_dirs t ?c) = Some ?g \<and> f \<in> snd ` set (ld_backups (ls_dirs t ?c))
      \<and> snd ` set (ld_backups (ls_dirs t ?c)) \<subseteq> insert f (snd ` set (ld_backups (ls_dirs s ?c)))"
    then have active: "ld_active (ls_dirs t ?c) = Some ?g" and old: "f \<in> snd ` set (ld_backups (ls_dirs t ?c))"
      and sub: "snd ` set (ld_backups (ls_dirs t ?c)) \<subseteq> set (component_log_files (ls_dirs s ?c))"
      using files by auto
    have new: "lf_inode f \<noteq> ls_next_inode s" using inodes files by (auto simp: inodes_ok_def)
    have "g = f" if "g \<in> snd ` set (ld_backups (ls_dirs t ?c))" "lf_inode g = lf_inode f" for g
      using inodes that subsetD [OF sub that(1)] files unfolding inodes_ok_def by (metis insertI1)
    then obtain i where found: "find_log_with_identity (ls_dirs t ?c) (lf_inode f) = Some (i, f)"
      using find_unique [OF old] by blast
    have rest: "read_log_path renv ?c (log_name ?c i) f (length (lf_bytes f)) t = (Inr ([], length (lf_bytes f)), t)"
      by (rule read_nothing) simp_all
    have line: "read_log_path renv ?c (log_name ?c 0) ?g 0 t = (Inr ([e], length (lf_bytes ?g)), t)"
      by (rule read_own_line [OF json valid]) simp_all
    show ?thesis
      using active f new found rest line by (auto simp: read_component_def caught_up_def bind_act_def Let_def)
  qed
qed

text \<open>
  C32: A cursor that had read all of a component's log sees exactly the event that is written next, once, and
  has then read all again, also when the write rotated the log, so that the file the cursor was reading is
  now a backup.
\<close>

theorem written_event_seen:
  assumes "plain_os (le_os env (ls_appends s))" and "persist_log_event env policy e s = (Inr (), t)"
    and "caught_up cursor (lg_component e) s" and "inodes_ok (lg_component e) s"
    and "log_valid (re_fromiso renv) e" and "reads_back env renv (log_to_record e)"
  shows "\<exists>cursor'. read_component renv (lg_component e) (cursor, t) = (Inr [e], cursor', t)
    \<and> caught_up cursor' (lg_component e) t"
  by (rule read_written [OF assms])

theorem written_event_seen_witness:
  "\<exists>t cursor'. persist_log_event (sample_log_env (\<lambda>_. None) whole_writes) \<lparr>rp_max_bytes = 8, rp_backup_count = 2\<rparr> sample_record_event
        sample_log_store = (Inr (), t)
    \<and> read_component sample_reader ''chat'' (cursor_from_project sample_log_store, t) = (Inr [sample_record_event], cursor', t)"
proof -
  let ?env = "sample_log_env (\<lambda>_. None) whole_writes" and ?policy = "\<lparr>rp_max_bytes = 8, rp_backup_count = 2\<rparr>"
  obtain t where run: "persist_log_event ?env ?policy sample_record_event sample_log_store = (Inr (), t)"
    using sample_rotating_write by blast
  have c: "lg_component sample_record_event = ''chat''" by (simp add: sample_record_event_def)
  have caught: "caught_up (cursor_from_project sample_log_store) ''chat'' sample_log_store"
    by (simp add: caught_up_def cursor_from_project_def sample_log_store_def LOG_COMPONENTS_def active_size_def)
  have inodes: "inodes_ok ''chat'' sample_log_store"
    by (auto simp: inodes_ok_def sample_log_store_def component_log_files_def)
  have valid: "log_valid (re_fromiso sample_reader) sample_record_event"
    using sample_event_valid by (simp add: sample_reader_def)
  have json: "reads_back ?env sample_reader (log_to_record sample_record_event)"
    by (simp add: reads_back_def sample_log_env_def sample_reader_def py_space_def is_break_def)
  show ?thesis
    using written_event_seen [OF sample_quiet run _ _ valid json, of "cursor_from_project sample_log_store"] caught inodes run
    by (auto simp: c)
qed

section \<open>Every event once\<close>

text \<open>The first occurrences of a list, in their order.\<close>

fun first_of_each :: "'a list \<Rightarrow> 'a list" where
  "first_of_each [] = []"
| "first_of_each (x # xs) = x # filter (\<lambda>y. y \<noteq> x) (first_of_each xs)"

lemma reconcile_prints:
  assumes "reconcile env es seen = ((new, bad), seen')" and "se_keys seen = dom (map_of (se_prints seen))"
  shows "map (event_key_of env) new = filter (\<lambda>k. k \<notin> se_keys seen) (first_of_each (map (event_key_of env) es)) \<and> subseq new es
    \<and> se_keys seen' = se_keys seen \<union> event_key_of env ` set es \<and> se_keys seen' = dom (map_of (se_prints seen'))
    \<and> (\<forall>k \<in> se_keys seen. map_of (se_prints seen') k = map_of (se_prints seen) k)
    \<and> bad = filter (\<lambda>e. map_of (se_prints seen') (event_key_of env e) \<noteq> Some (fingerprint env e)) es"
  using assms
proof (induction es arbitrary: seen new bad)
  case Nil
  then show ?case by simp
next
  case (Cons e es)
  let ?k = "event_key_of env e" and ?p = "fingerprint env e"
  obtain new1 bad1 seen1 where one: "reconcile_event env e seen = ((new1, bad1), seen1)" by (metis surj_pair)
  obtain new2 bad2 where two: "reconcile env es seen1 = ((new2, bad2), seen')"
    and all: "new = new1 @ new2" "bad = bad1 @ bad2"
    using Cons.prems(1) one by (auto simp: Let_def split: prod.splits)
  have filters: "filter (\<lambda>k. k \<notin> insert ?k A) ks = filter (\<lambda>k. k \<notin> A) (filter (\<lambda>y. y \<noteq> ?k) ks)" for A ks
    by (induction ks) auto
  show ?case
  proof (cases "?k \<in> se_keys seen")
    case False
    then have s1: "new1 = [e]" "bad1 = []" "seen1 = \<lparr>se_keys = insert ?k (se_keys seen), se_prints = AList.update ?k ?p (se_prints seen)\<rparr>"
      using one by (simp_all add: reconcile_event_def Let_def)
    have inv: "se_keys seen1 = dom (map_of (se_prints seen1))" using Cons.prems(2) by (simp add: s1 update_conv')
    note IH = Cons.IH [OF two inv]
    have keep: "map_of (se_prints seen') ?k = Some ?p" using IH by (simp add: s1 update_conv')
    have "map_of (se_prints seen') k = map_of (se_prints seen) k" if "k \<in> se_keys seen" for k
      using IH that False by (auto simp: s1 update_conv')
    then show ?thesis using IH keep False all by (auto simp: s1 filters)
  next
    case True
    then obtain q where q: "map_of (se_prints seen) ?k = Some q" using Cons.prems(2) by auto
    then have s1: "new1 = []" "bad1 = (if q \<noteq> ?p then [e] else [])" "seen1 = seen"
      using one True by (simp_all add: reconcile_event_def Let_def)
    note IH = Cons.IH [OF two, unfolded s1, OF Cons.prems(2)]
    have keep: "map_of (se_prints seen') ?k = Some q" using IH True q by auto
    have same: "filter (\<lambda>k. k \<notin> se_keys seen) (first_of_each (?k # ks)) = filter (\<lambda>k. k \<notin> se_keys seen) (first_of_each ks)" for ks
      using True by (auto simp: filter_filter intro: filter_cong)
    show ?thesis using IH keep True all by (auto simp: s1 same simp del: first_of_each.simps)
  qed
qed

text \<open>
  C34: Of the events that come in, from files or another transport, exactly the first one of each identity
  that was not seen before is kept, in order; reported as conflicts are exactly the ones whose content
  differs from what was first seen under their identity.
\<close>

theorem events_once:
  assumes "reconcile env es seen = ((new, bad), seen')" and "se_keys seen = dom (map_of (se_prints seen))"
  shows "map (event_key_of env) new = filter (\<lambda>k. k \<notin> se_keys seen) (first_of_each (map (event_key_of env) es)) \<and> subseq new es
    \<and> se_keys seen' = se_keys seen \<union> event_key_of env ` set es \<and> se_keys seen' = dom (map_of (se_prints seen'))
    \<and> bad = filter (\<lambda>e. map_of (se_prints seen') (event_key_of env e) \<noteq> Some (fingerprint env e)) es"
  using reconcile_prints [OF assms] by blast

definition conflict_reader :: reader_env where
  "conflict_reader = sample_reader\<lparr>re_dumps_compact := (\<lambda>r. if dict_get r ''message'' = PStr ''hi'' then ''A'' else ''B'')\<rparr>"

theorem events_once_witness:
  "\<exists>seen'. reconcile conflict_reader [sample_record_event, sample_record_event\<lparr>lg_message := ''ho''\<rparr>, sample_record_event]
       \<lparr>se_keys = {}, se_prints = []\<rparr> = (([sample_record_event], [sample_record_event\<lparr>lg_message := ''ho''\<rparr>]), seen')
     \<and> se_keys seen' = {''id:e1''}"
proof -
  let ?other = "sample_record_event\<lparr>lg_message := ''ho''\<rparr>"
  have key: "event_key_of conflict_reader sample_record_event = ''id:e1''" "event_key_of conflict_reader ?other = ''id:e1''"
    by (simp_all add: event_key_of_def sample_record_event_def)
  have print: "fingerprint conflict_reader sample_record_event = ''A''" "fingerprint conflict_reader ?other = ''B''"
    by (simp_all add: fingerprint_def conflict_reader_def dict_get_def dget_log sample_record_event_def log_to_record_def)
  have run: "reconcile conflict_reader [sample_record_event, ?other, sample_record_event] \<lparr>se_keys = {}, se_prints = []\<rparr>
      = (([sample_record_event], [?other]), \<lparr>se_keys = {''id:e1''}, se_prints = [(''id:e1'', ''A'')]\<rparr>)"
    by (simp add: reconcile_event_def key print Let_def)
  show ?thesis using run events_once [OF run] by (simp add: key)
qed

end
