(* ===== verification/AuditCatalog.thy ===== *)
theory AuditCatalog
  imports LogFiles EventBus
begin

text \<open>
  Best-effort observation (\<open>runtime/observability.py\<close>) and the catalogs of audit events
  (\<open>runtime/audit/catalog.py\<close>): what is written about the program must not change what the program does.
\<close>

section \<open>Reports of failures\<close>

text \<open>Where a report is written: the environment and scope of the logs and the retention policy.\<close>

record 'p audit_sink =
  as_env :: log_env
  as_scope :: "'p log_scope"
  as_policy :: LogRetentionPolicy

definition validate_observability_sink :: "pydict \<Rightarrow> unit result" where
  "validate_observability_sink metadata =
     bindE (field metadata ''component'') (\<lambda>v.
     bindE (if v \<in> PStr ` set LOG_COMPONENTS then Inr ()
            else Inl (TerminalWarningSchemaError ''observability sink warning component is invalid'')) (\<lambda>_.
     bindE (mapE (\<lambda>f. bindE (field metadata f) (\<lambda>v. case v of
              PStr s \<Rightarrow> (if blank s then Inl (TerminalWarningSchemaError ''observability sink warning field must be non-blank'') else Inr ())
            | _ \<Rightarrow> Inl (TerminalWarningSchemaError ''observability sink warning field must be non-blank'')))
         [''event'', ''observed_error'', ''log_error'']) (\<lambda>_. Inr ())))"

definition OBSERVABILITY_TERMINAL_WARNING_REGISTRY :: TerminalWarningRegistry where
  "OBSERVABILITY_TERMINAL_WARNING_REGISTRY =
     (case build_warning_registry
        [\<lparr>tw_event = ''runtime/observability_sink_failed'', tw_fields = [''component'', ''event'', ''observed_error'', ''log_error''],
          tw_validator = validate_observability_sink, tw_suffix = None\<rparr>] of
        Inr r \<Rightarrow> r
      | Inl _ \<Rightarrow> \<lparr>dr_entries = [], dr_sealed = False\<rparr>)"

text \<open>\<open>report_observed_failure\<close> never raises; what cannot be logged goes to the terminal.\<close>

definition failure_args :: "string \<Rightarrow> string option \<Rightarrow> string \<Rightarrow> pyobj option \<Rightarrow> log_args" where
  "failure_args level status error metadata =
     no_args\<lparr>la_level := level, la_status := status, la_error := Some error, la_metadata := metadata\<rparr>"

definition report_observed_failure ::
  "'p audit_sink \<Rightarrow> exn \<Rightarrow> string \<Rightarrow> string \<Rightarrow> string \<Rightarrow> pyobj option \<Rightarrow> string \<Rightarrow> string
   \<Rightarrow> 'p log_store_scheme \<Rightarrow> 'p log_store_scheme" where
  "report_observed_failure sink x c event message metadata level status s =
     (let error = diagnostic_exception_chain (le_view (as_env sink) x) in
      case bind_act (lift_act (\<lambda>_. sanitize_diagnostic_metadata metadata)) (\<lambda>metadata.
             write_log_event (as_env sink) DEFAULT_LOG_RETENTION (as_scope sink) c event message
               (failure_args level (Some status) error metadata)) s of
        (Inr _, t) \<Rightarrow> t
      | (Inl log_error, t) \<Rightarrow>
          t\<lparr>ls_warnings := ls_warnings t @ [warning_text (le_view (as_env sink)) OBSERVABILITY_TERMINAL_WARNING_REGISTRY
              ''runtime/observability_sink_failed''
              [(''component'', PStr c), (''event'', PStr event), (''observed_error'', PStr error),
               (''log_error'', PStr (diagnostic_exception_message None (le_view (as_env sink) log_error)))]]\<rparr>)"

text \<open>\<open>errors\<close> are the classes the caller lists.\<close>

definition run_observed_best_effort ::
  "'p audit_sink \<Rightarrow> (exn \<Rightarrow> bool) \<Rightarrow> ('p log_store_scheme, 'a) act \<Rightarrow> string \<Rightarrow> string \<Rightarrow> string \<Rightarrow> pyobj option \<Rightarrow> string \<Rightarrow> string
   \<Rightarrow> ('p log_store_scheme, 'a option) act" where
  "run_observed_best_effort sink errors operation c event message metadata level status s =
     (case operation s of
        (Inr x, t) \<Rightarrow> (Inr (Some x), t)
      | (Inl e, t) \<Rightarrow>
          if errors e then (Inr None, report_observed_failure sink e c event message metadata level status t) else (Inl e, t))"

definition metadata_obj :: "pydict \<Rightarrow> pyobj" where
  "metadata_obj d = PDict d"

definition report_defined_failure ::
  "'p audit_sink \<Rightarrow> exn \<Rightarrow> AuditEventDefinition \<Rightarrow> string \<Rightarrow> pydict \<Rightarrow> ('p log_store_scheme, unit) act" where
  "report_defined_failure sink x d message metadata =
     bind_act (lift_act (\<lambda>_. audit_validate d (ad_level d) (ad_status d)
         (Some (diagnostic_exception_chain (le_view (as_env sink) x))) metadata None)) (\<lambda>_.
       case ad_status d of
         None \<Rightarrow> raise_act (AuditSchemaError ''failure requires a status'')
       | Some status \<Rightarrow>
           modify_act (report_observed_failure sink x (ad_component d) (ad_event d) message (Some (metadata_obj metadata)) (ad_level d) status))"

section \<open>The contracts of the reports\<close>

definition require_text_metadata :: "string list \<Rightarrow> pydict \<Rightarrow> unit result" where
  "require_text_metadata expected metadata =
     bindE (require_exact_metadata expected metadata) (\<lambda>_.
     bindE (mapE (\<lambda>f. bindE (field metadata f) (\<lambda>v. case v of
              PStr s \<Rightarrow> (if blank s then Inl (AuditSchemaError ''observability metadata must be a non-blank string'') else Inr ())
            | _ \<Rightarrow> Inl (AuditSchemaError ''observability metadata must be a non-blank string''))) expected) (\<lambda>_. Inr ()))"

definition observability_definition :: "string \<Rightarrow> string \<Rightarrow> string list \<Rightarrow> AuditEventDefinition" where
  "observability_definition c event metadata_fields =
     \<lparr>ad_component = c, ad_event = event, ad_level = ''warning'', ad_status = Some ''degraded'', ad_error_policy = ''required'',
      ad_duration_policy = ''forbidden'', ad_validator = require_text_metadata metadata_fields\<rparr>"

definition observability_definitions :: "AuditEventDefinition list" where
  "observability_definitions =
     concat (map (\<lambda>c. [observability_definition c ''observability_projection_failed'' [''failed_event''],
                       observability_definition c ''internal_event_delivery_failed'' [''event'', ''producer'']]) LOG_COMPONENTS)"

definition OBSERVABILITY_FAILURE_REGISTRY :: AuditDefinitionRegistry where
  "OBSERVABILITY_FAILURE_REGISTRY =
     (case build_audit_registry observability_definitions of Inr r \<Rightarrow> r | Inl _ \<Rightarrow> \<lparr>dr_entries = [], dr_sealed = False\<rparr>)"

definition report_observability_projection_failure ::
  "'p audit_sink \<Rightarrow> exn \<Rightarrow> string \<Rightarrow> string \<Rightarrow> ('p log_store_scheme, unit) act" where
  "report_observability_projection_failure sink x c failed_event =
     bind_act (lift_act (\<lambda>_. audit_resolve c ''observability_projection_failed'' OBSERVABILITY_FAILURE_REGISTRY)) (\<lambda>d.
       report_defined_failure sink x d ''Secondary observability projection failed'' [(''failed_event'', PStr failed_event)])"

definition write_observed_log_event ::
  "'p audit_sink \<Rightarrow> string \<Rightarrow> string \<Rightarrow> string \<Rightarrow> log_args \<Rightarrow> ('p log_store_scheme, LogEvent option) act" where
  "write_observed_log_event sink c event message a =
     bind_act (audit_event_envelope (as_env sink) (sc_ambient (as_scope sink)) c event message a) (\<lambda>x s.
       case write_audit_envelope (as_env sink) (as_policy sink) (as_scope sink) x s of
         (Inr e, t) \<Rightarrow> (Inr (Some e), t)
       | (Inl err, t) \<Rightarrow>
           bind_act (report_observability_projection_failure sink err c event) (\<lambda>_. ret_act None) t)"

section \<open>Events and records\<close>

text \<open>
  \<open>publish_observed_event\<close>: a delivery in which projections fail is reported, and the event is returned all
  the same; anything else that publishing raises goes to the caller.
\<close>

definition report_internal_event_delivery_failure ::
  "'p audit_sink \<Rightarrow> exn \<Rightarrow> RuntimeEnvelope \<Rightarrow> string \<Rightarrow> ('p log_store_scheme, unit) act" where
  "report_internal_event_delivery_failure sink x event c =
     bind_act (lift_act (\<lambda>_. audit_resolve c ''internal_event_delivery_failed'' OBSERVABILITY_FAILURE_REGISTRY)) (\<lambda>d.
       report_defined_failure sink x d ''Internal event delivery failed''
         [(''event'', PStr (env_name event)), (''producer'', PStr (env_producer event))])"

definition is_delivery_error :: "exn \<Rightarrow> bool" where
  "is_delivery_error e \<longleftrightarrow> (case e of EventDeliveryError _ \<Rightarrow> True | _ \<Rightarrow> False)"

definition publish_observed_event ::
  "'p audit_sink \<Rightarrow> string \<Rightarrow> RuntimeContext option \<Rightarrow> string \<Rightarrow> string \<Rightarrow> 'p log_store_scheme EventPublisher \<Rightarrow> string \<Rightarrow> string
   \<Rightarrow> pydict option \<Rightarrow> ('p log_store_scheme, RuntimeEnvelope) act" where
  "publish_observed_event sink c amb message_id now pub name producer payload s =
     (let fromiso = le_fromiso (as_env sink);
          event = make_envelope fromiso
            \<lparr>env_kind = ''event'', env_name = name, env_producer = producer, env_message_id = message_id,
             env_schema_version = runtime_schema_version, env_created_at = now,
             env_context = current_runtime_context amb,
             env_payload = PDict (case payload of None \<Rightarrow> [] | Some p \<Rightarrow> p)\<rparr> in
      case publish_event fromiso amb message_id now pub name producer payload s of
        (Inr x, t) \<Rightarrow> (Inr x, t)
      | (Inl e, t) \<Rightarrow>
          (case (is_delivery_error e, event) of
             (True, Inr x) \<Rightarrow> bind_act (report_internal_event_delivery_failure sink e x c) (\<lambda>_. ret_act x) t
           | _ \<Rightarrow> (Inl e, t)))"

definition report_corrupt_record :: "'p audit_sink \<Rightarrow> exn \<Rightarrow> string \<Rightarrow> string \<Rightarrow> string \<Rightarrow> 'p log_store_scheme \<Rightarrow> 'p log_store_scheme" where
  "report_corrupt_record sink x c collection record_id =
     report_observed_failure sink x c ''record_decode_failed'' (''Skipped malformed record in '' @ collection)
       (Some (PDict [(''collection'', PStr collection), (''record_id'', PStr record_id)])) ''warning'' ''degraded''"

text \<open>\<open>decode_observed_record\<close> with its report, for the errors listed by default.\<close>

definition decode_reported ::
  "'p audit_sink \<Rightarrow> (pydict \<Rightarrow> 'a result) \<Rightarrow> string \<Rightarrow> string \<Rightarrow> pydict \<Rightarrow> ('p log_store_scheme, 'a option) act" where
  "decode_reported sink decoder c collection wire s =
     (case decoder wire of
        Inr x \<Rightarrow> (Inr (Some x), s)
      | Inl e \<Rightarrow>
          if is_value_error e \<or> is_key_error e \<or> is_type_error e then
            (Inr None, report_corrupt_record sink e c collection
               (case dict_get wire ''id'' of PStr i \<Rightarrow> (if i = '''' then ''<unknown>'' else i) | _ \<Rightarrow> ''<unknown>'') s)
          else (Inl e, s))"

section \<open>Catalogs\<close>

record AuditCatalog =
  ac_registry :: AuditDefinitionRegistry
  ac_messages :: "(string \<times> string) list"

definition make_audit_catalog :: "AuditEventDefinition list \<Rightarrow> (string \<times> string) list \<Rightarrow> AuditCatalog result" where
  "make_audit_catalog ds messages =
     bindE (build_audit_registry ds) (\<lambda>r. Inr \<lparr>ac_registry = r, ac_messages = messages\<rparr>)"

definition catalog_write ::
  "'p audit_sink \<Rightarrow> AuditCatalog \<Rightarrow> string \<Rightarrow> string option \<Rightarrow> string option \<Rightarrow> int option \<Rightarrow> pydict \<Rightarrow> string option \<Rightarrow> string option \<Rightarrow> string option
   \<Rightarrow> ('p log_store_scheme, LogEvent option) act" where
  "catalog_write sink cat event message error duration metadata conversation_id request_id component =
     bind_act (lift_act (\<lambda>_.
       bindE (catalog_definition (ac_registry cat) event component) (\<lambda>d.
       bindE (audit_validate d (ad_level d) (ad_status d) error metadata duration) (\<lambda>_.
       bindE (catalog_message (ac_messages cat) event message) (\<lambda>m. Inr (d, m)))))) (\<lambda>(d, m).
       write_observed_log_event sink (ad_component d) (ad_event d) m
         (no_args\<lparr>la_level := ad_level d, la_status := ad_status d, la_error := error, la_duration_ms := duration,
            la_metadata := Some (PDict metadata),
            la_context := empty_context\<lparr>ctx_conversation_id := conversation_id, ctx_request_id := request_id\<rparr>\<rparr>))"

definition catalog_write_strict ::
  "'p audit_sink \<Rightarrow> AuditCatalog \<Rightarrow> string \<Rightarrow> string option \<Rightarrow> pydict \<Rightarrow> string option \<Rightarrow> ('p log_store_scheme, LogEvent) act" where
  "catalog_write_strict sink cat event message metadata component =
     bind_act (lift_act (\<lambda>_.
       bindE (catalog_definition (ac_registry cat) event component) (\<lambda>d.
       bindE (audit_validate d (ad_level d) (ad_status d) None metadata None) (\<lambda>_.
       bindE (catalog_message (ac_messages cat) event message) (\<lambda>m. Inr (d, m)))))) (\<lambda>(d, m).
       write_log_event (as_env sink) DEFAULT_LOG_RETENTION (as_scope sink) (ad_component d) (ad_event d) m
         (no_args\<lparr>la_level := ad_level d, la_status := ad_status d, la_metadata := Some (PDict metadata)\<rparr>))"

definition catalog_failure ::
  "'p audit_sink \<Rightarrow> AuditCatalog \<Rightarrow> exn \<Rightarrow> string \<Rightarrow> string option \<Rightarrow> pydict \<Rightarrow> string option \<Rightarrow> ('p log_store_scheme, unit) act" where
  "catalog_failure sink cat x event message metadata component =
     bind_act (lift_act (\<lambda>_.
       bindE (catalog_definition (ac_registry cat) event component) (\<lambda>d.
       bindE (catalog_message (ac_messages cat) event message) (\<lambda>m. Inr (d, m))))) (\<lambda>(d, m).
       report_defined_failure sink x d m metadata)"

definition catalog_observe ::
  "'p audit_sink \<Rightarrow> AuditCatalog \<Rightarrow> (exn \<Rightarrow> bool) \<Rightarrow> ('p log_store_scheme, 'a) act \<Rightarrow> string \<Rightarrow> string option \<Rightarrow> pydict \<Rightarrow> string option
   \<Rightarrow> ('p log_store_scheme, 'a option) act" where
  "catalog_observe sink cat errors operation event message metadata component =
     bind_act (lift_act (\<lambda>_.
       bindE (catalog_definition (ac_registry cat) event component) (\<lambda>d.
       bindE (case ad_status d of None \<Rightarrow> Inl (AuditSchemaError ''failure requires status'') | Some status \<Rightarrow> Inr status) (\<lambda>status.
       bindE (audit_validate d (ad_level d) (ad_status d) (Some ''caught failure'') metadata None) (\<lambda>_.
       bindE (catalog_message (ac_messages cat) event message) (\<lambda>m. Inr (d, status, m))))))) (\<lambda>(d, status, m).
       run_observed_best_effort sink errors operation (ad_component d) (ad_event d) m (Some (PDict metadata)) (ad_level d) status)"

section \<open>Observation does not interfere\<close>

lemma re_sub_nonempty: "(\<And>a b. f a b \<noteq> []) \<Longrightarrow> s \<noteq> [] \<Longrightarrow> re_sub prefix v f prev s \<noteq> []"
  by (cases s) (auto split: option.splits)

lemma redact_nonempty: "s \<noteq> [] \<Longrightarrow> redact_sensitive_text s \<noteq> []"
proof -
  have "redact_labeled_value a b \<noteq> []" for a b by (simp add: redact_labeled_value_def)
  then show "s \<noteq> [] \<Longrightarrow> redact_sensitive_text s \<noteq> []"
    unfolding redact_sensitive_text_def by (intro re_sub_nonempty) auto
qed

lemma collect_first: "ms \<noteq> [] \<Longrightarrow> foldl (\<lambda>ms m. if m \<in> set ms then ms else ms @ [m]) ms xs \<noteq> []
    \<and> hd (foldl (\<lambda>ms m. if m \<in> set ms then ms else ms @ [m]) ms xs) = hd ms"
  by (induction xs arbitrary: ms) auto

lemma join_nonempty: "ws \<noteq> [] \<Longrightarrow> hd ws \<noteq> [] \<Longrightarrow> join_with sep ws \<noteq> []"
  by (cases "(sep, ws)" rule: join_with.cases) auto

text \<open>A class has a name, so a report has a text.\<close>

lemma chain_nonempty:
  assumes "raised_class x \<noteq> ''''"
  shows "diagnostic_exception_chain x \<noteq> ''''"
proof -
  obtain ms where chain: "map (safe_exception_message None) (exception_chain x) = safe_exception_message None x # ms"
    by (cases x) auto
  have "safe_exception_message None x \<noteq> ''''"
    using assms by (simp add: safe_exception_message_def Let_def split: option.splits)
  then show ?thesis
    using collect_first [of "[safe_exception_message None x]" ms]
    by (simp add: diagnostic_exception_chain_def chain redact_nonempty join_nonempty)
qed

lemma observability_registry:
  "OBSERVABILITY_FAILURE_REGISTRY = \<lparr>dr_entries = map (\<lambda>d. (audit_key d, d)) observability_definitions, dr_sealed = True\<rparr>"
  and observability_keys: "distinct (map audit_key observability_definitions)"
proof -
  have made: "\<forall>d \<in> set observability_definitions. make_audit_definition d = Inr d"
    by (auto simp: observability_definitions_def observability_definition_def make_audit_definition_def log_levels_def
        require_audit_event_name_def require_identity_segment_def identity_segment_def slug_char_def lower_char_def)
  show keys: "distinct (map audit_key observability_definitions)"
    by (simp add: observability_definitions_def observability_definition_def LOG_COMPONENTS_def audit_key_def)
  show "OBSERVABILITY_FAILURE_REGISTRY = \<lparr>dr_entries = map (\<lambda>d. (audit_key d, d)) observability_definitions, dr_sealed = True\<rparr>"
    by (simp add: OBSERVABILITY_FAILURE_REGISTRY_def build_audit_ok [OF made keys])
qed

lemma resolve_observability:
  assumes "c \<in> set LOG_COMPONENTS" and "(event, fs) \<in> {(''observability_projection_failed'', [''failed_event'']),
      (''internal_event_delivery_failed'', [''event'', ''producer''])}"
  shows "audit_resolve c event OBSERVABILITY_FAILURE_REGISTRY = Inr (observability_definition c event fs)"
proof -
  have "observability_definition c event fs \<in> set observability_definitions"
    using assms by (auto simp: observability_definitions_def)
  then show ?thesis
    using resolve_built [OF observability_keys] by (force simp: observability_registry observability_definition_def)
qed

definition named_classes :: "log_env \<Rightarrow> bool" where
  "named_classes env \<longleftrightarrow> (\<forall>e. raised_class (le_view env e) \<noteq> '''')"

lemma projection_failure_reported:
  assumes "named_classes (as_env sink)" and "c \<in> set LOG_COMPONENTS" and "\<not> blank event"
  shows "\<exists>t. report_observability_projection_failure sink x c event s = (Inr (), t)"
proof -
  have chain: "diagnostic_exception_chain (le_view (as_env sink) x) \<noteq> ''''"
    using assms(1) by (simp add: named_classes_def chain_nonempty)
  show ?thesis
    using assms chain resolve_observability [OF assms(2), of "''observability_projection_failed''" "[''failed_event'']"]
    by (simp add: report_observability_projection_failure_def report_defined_failure_def bind_act_def audit_validate_def
        observability_definition_def require_text_metadata_def require_exact_metadata_eq)
qed

lemma envelope_checked:
  assumes "create_audit_envelope fromiso ambient fresh c event message a = Inr x"
  shows "c \<in> set LOG_COMPONENTS \<and> identity_segment event"
  using assms
  by (auto simp: create_audit_envelope_def result_simps require_audit_event_name_def require_identity_segment_def raise_if_def
      split: if_splits)

lemma identity_not_blank: "identity_segment s \<Longrightarrow> \<not> blank s"
  by (cases s) (auto simp: identity_segment_def blank_def lower_char_def py_space_def)

text \<open>
  Writing an auxiliary event, with the writer's answer taken apart: \<open>saved\<close> is the answer of the append to
  the log of the component, in the state \<open>u\<close> that it leaves.
\<close>

lemma auxiliary_returns:
  assumes "create_audit_envelope (le_fromiso (as_env sink)) (sc_ambient (as_scope sink)) (le_fresh (as_env sink) (ls_appends s))
      c event message a = Inr x" and "named_classes (as_env sink)"
  shows "\<exists>r t. write_observed_log_event sink c event message a s = (Inr r, t)
    \<and> (case envelope_log_event (le_fromiso (as_env sink)) ''audit'' x of
         Inl _ \<Rightarrow> r = None
       | Inr e \<Rightarrow> (\<exists>saved u. persist_log_event (as_env sink) (as_policy sink) e s = (saved, u)
           \<and> r = (case saved of Inl _ \<Rightarrow> None | Inr _ \<Rightarrow> Some e)))"
proof -
  note c = envelope_checked [OF assms(1)]
  have fails: "\<exists>t. write_observed_log_event sink c event message a s = (Inr None, t)"
    if "write_audit_envelope (as_env sink) (as_policy sink) (as_scope sink) x s = (Inl err, u)" for err u
  proof -
    obtain t where "report_observability_projection_failure sink err c event u = (Inr (), t)"
      using projection_failure_reported [OF assms(2)] c identity_not_blank by blast
    then show ?thesis using that assms(1)
      by (intro exI [of _ t]) (auto simp: write_observed_log_event_def bind_act_def audit_event_envelope_def)
  qed
  note unfolds = write_audit_envelope_def write_envelope_log_projection_def append_log_event_def bind_act_def
  show ?thesis
  proof (cases "envelope_log_event (le_fromiso (as_env sink)) ''audit'' x")
    case (Inl err)
    then have "write_audit_envelope (as_env sink) (as_policy sink) (as_scope sink) x s = (Inl err, s)" by (simp add: unfolds)
    then obtain t where "write_observed_log_event sink c event message a s = (Inr None, t)" using fails by blast
    with Inl show ?thesis by (intro exI [of _ None] exI [of _ t]) simp
  next
    case (Inr e)
    obtain saved u where saved: "persist_log_event (as_env sink) (as_policy sink) e s = (saved, u)" by fastforce
    show ?thesis
    proof (cases saved)
      case (Inl err)
      then have "write_audit_envelope (as_env sink) (as_policy sink) (as_scope sink) x s = (Inl err, u)"
        using saved \<open>envelope_log_event _ _ x = Inr e\<close> by (simp add: unfolds)
      then obtain t where "write_observed_log_event sink c event message a s = (Inr None, t)" using fails by blast
      then show ?thesis using Inl saved \<open>envelope_log_event _ _ x = Inr e\<close>
        by (intro exI [of _ None] exI [of _ t]) auto
    next
      case (Inr w)
      obtain t where "write_audit_envelope (as_env sink) (as_policy sink) (as_scope sink) x s = (Inr e, t)"
        using saved Inr \<open>envelope_log_event _ _ x = Inr e\<close> by (simp add: unfolds modify_act_def)
      then have "write_observed_log_event sink c event message a s = (Inr (Some e), t)"
        using assms(1) by (simp add: write_observed_log_event_def bind_act_def audit_event_envelope_def)
      then show ?thesis using Inr saved \<open>envelope_log_event _ _ x = Inr e\<close>
        by (intro exI [of _ "Some e"] exI [of _ t]) auto
    qed
  qed
qed

text \<open>
  C36: An auxiliary event never disturbs the operation it is about: when its arguments make a proper
  envelope, writing it returns, whatever fails in the operating system or in the observers. It returns the
  event when the append to the log returned, and then the whole line is in the log. It returns nothing when
  the envelope makes no event, or when the append failed; a failed append has left a part of the line, all of
  it when the failure reports that the line persisted (closing the file failed after it was synced), and none
  of it when the failure reports that it did not. So the answer \<open>None\<close> does not mean that nothing was written.
\<close>

theorem auxiliary_log_returns:
  assumes "create_audit_envelope (le_fromiso (as_env sink)) (sc_ambient (as_scope sink)) (le_fresh (as_env sink) (ls_appends s))
      c event message a = Inr x" and "named_classes (as_env sink)"
    and "plain_os (le_os (as_env sink) (ls_appends s))" and "1 \<le> rp_backup_count (as_policy sink)"
    and "\<And>d. backups_ok (rp_backup_count (as_policy sink)) (ls_dirs s d)"
  shows "\<exists>r t. write_observed_log_event sink c event message a s = (Inr r, t)
    \<and> (case envelope_log_event (le_fromiso (as_env sink)) ''audit'' x of
         Inl _ \<Rightarrow> r = None
       | Inr e \<Rightarrow> (\<exists>saved u dropped kept tail rest. persist_log_event (as_env sink) (as_policy sink) e s = (saved, u)
           \<and> log_bytes (ls_dirs s (lg_component e)) = dropped @ kept \<and> log_bytes (ls_dirs u (lg_component e)) = kept @ tail
           \<and> log_line (as_env sink) e = tail @ rest
           \<and> (case saved of
                Inr _ \<Rightarrow> r = Some e \<and> tail = log_line (as_env sink) e
              | Inl err \<Rightarrow> r = None \<and> (reported err = ''persisted'' \<longrightarrow> tail = log_line (as_env sink) e)
                  \<and> (reported err = ''not_persisted'' \<longrightarrow> tail = []))))"
proof -
  obtain r t where r: "write_observed_log_event sink c event message a s = (Inr r, t)"
    and answer: "case envelope_log_event (le_fromiso (as_env sink)) ''audit'' x of
         Inl _ \<Rightarrow> r = None
       | Inr e \<Rightarrow> (\<exists>saved u. persist_log_event (as_env sink) (as_policy sink) e s = (saved, u)
           \<and> r = (case saved of Inl _ \<Rightarrow> None | Inr _ \<Rightarrow> Some e))"
    using auxiliary_returns [OF assms(1,2)] by blast
  show ?thesis
  proof (cases "envelope_log_event (le_fromiso (as_env sink)) ''audit'' x")
    case (Inl err)
    with r answer show ?thesis by auto
  next
    case (Inr e)
    with answer obtain saved u where saved: "persist_log_event (as_env sink) (as_policy sink) e s = (saved, u)"
      "r = (case saved of Inl _ \<Rightarrow> None | Inr _ \<Rightarrow> Some e)" by auto
    obtain dropped kept tail rest where "log_bytes (ls_dirs s (lg_component e)) = dropped @ kept"
      "log_bytes (ls_dirs u (lg_component e)) = kept @ tail" "log_line (as_env sink) e = tail @ rest"
      "told saved tail (log_line (as_env sink) e)"
      using persist_step [OF assms(3,5,4) saved(1)] unfolding log_step_def by blast
    with saved r Inr show ?thesis
      by (intro exI [of _ r] exI [of _ t]) (auto simp: told_def split: sum.splits)
  qed
qed

text \<open>
  A log whose file cannot be closed: the answer is \<open>None\<close>, although the whole line was synced.
\<close>

definition unclosed_sink :: "unit audit_sink" where
  "unclosed_sink =
     \<lparr>as_env = sample_log_env (\<lambda>op. if op = OpClose then Some (OSError ''close'') else None) (\<lambda>_. Inr 9),
      as_scope = \<lparr>sc_ambient = empty_context, sc_projections = [], sc_active = {}\<rparr>, as_policy = DEFAULT_LOG_RETENTION\<rparr>"

lemma hi_envelope_made:
  "\<exists>x e. create_audit_envelope (le_fromiso (as_env unclosed_sink)) (sc_ambient (as_scope unclosed_sink))
      (le_fresh (as_env unclosed_sink) (ls_appends sample_log_store)) ''chat'' ''started'' ''hi'' no_args = Inr x
    \<and> envelope_log_event (le_fromiso (as_env unclosed_sink)) ''audit'' x = Inr e \<and> lg_component e = ''chat''"
  by (simp add: create_audit_envelope_def unclosed_sink_def sample_log_env_def LOG_COMPONENTS_def require_audit_event_name_def
      require_identity_segment_def identity_segment_def slug_char_def lower_char_def no_args_def make_log_payload_def
      make_context_def context_valid_def context_pairs_def merge_context_def empty_context_def Let_def make_envelope_def
      message_kinds_def blank_def py_space_def aware_def is_mapping_def log_payload_to_mapping_def opt_field_def
      envelope_log_event_def mapping_fields_def log_payload_from_mapping_def log_payload_fields_def optional_string_def
      optional_integer_def optional_mapping_def dict_get_def sanitize_diagnostic_metadata_def make_log_event_def log_levels_def
      runtime_schema_version_def projected_event_def parse_log_timestamp_def legacy_event_def
      require_log_identity_def require_persisted_event_name_def log_valid_def)

lemma unclosed_append:
  assumes "lg_component e = ''chat''"
  shows "\<exists>err u. persist_log_event (as_env unclosed_sink) (as_policy unclosed_sink) e sample_log_store = (Inl err, u)
    \<and> reported err = ''persisted''"
proof -
  have line: "log_line (as_env unclosed_sink) e = ''{record}'' @ line_end"
    by (simp add: log_line_def unclosed_sink_def sample_log_env_def)
  have "write_log_bytes (\<lambda>_. Inr 9) 0 (''{record}'' @ line_end) = (Inr (), ''{record}'' @ line_end)"
    by (simp add: write_log_bytes.simps line_end_def)
  then show ?thesis
    unfolding persist_log_event_def Let_def line
    by (simp add: unclosed_sink_def sample_log_env_def sample_log_store_def assms call_def bind_act_def DEFAULT_LOG_RETENTION_def
        write_log_line_def locked_log_sidecar_def existing_indexes_def rotate_or_warn_def on_dir_def
        rotate_log_if_needed_def append_encoded_log_line_def open_log_data_file_def create_active_def
        sync_log_directory_for_active_def sync_cache_limit_def append_body_def append_outcome_def
        cleanup_log_sidecar_def cleanup_step_def Let_def extend_active_def
        active_size_def eval_nat_numeral line_end_def)
qed

theorem auxiliary_log_returns_witness:
  "\<exists>t e err u kept. write_observed_log_event unclosed_sink ''chat'' ''started'' ''hi'' no_args sample_log_store = (Inr None, t)
    \<and> persist_log_event (as_env unclosed_sink) (as_policy unclosed_sink) e sample_log_store = (Inl err, u)
    \<and> reported err = ''persisted'' \<and> log_bytes (ls_dirs u ''chat'') = kept @ log_line (as_env unclosed_sink) e"
proof -
  obtain x e where x: "create_audit_envelope (le_fromiso (as_env unclosed_sink)) (sc_ambient (as_scope unclosed_sink))
      (le_fresh (as_env unclosed_sink) (ls_appends sample_log_store)) ''chat'' ''started'' ''hi'' no_args = Inr x"
    and e: "envelope_log_event (le_fromiso (as_env unclosed_sink)) ''audit'' x = Inr e" "lg_component e = ''chat''"
    using hi_envelope_made by blast
  obtain err u where failed: "persist_log_event (as_env unclosed_sink) (as_policy unclosed_sink) e sample_log_store = (Inl err, u)"
    "reported err = ''persisted''"
    using unclosed_append [OF e(2)] by blast
  have named: "named_classes (as_env unclosed_sink)"
    by (simp add: named_classes_def unclosed_sink_def sample_log_env_def)
  have plain: "plain_os (le_os (as_env unclosed_sink) (ls_appends sample_log_store))"
    by (auto simp: plain_os_def unclosed_sink_def sample_log_env_def split: if_splits)
  have backups: "1 \<le> rp_backup_count (as_policy unclosed_sink)"
    "backups_ok (rp_backup_count (as_policy unclosed_sink)) (ls_dirs sample_log_store d)" for d
    by (simp_all add: unclosed_sink_def DEFAULT_LOG_RETENTION_def backups_ok_def sample_log_store_def)
  obtain r t where "write_observed_log_event unclosed_sink ''chat'' ''started'' ''hi'' no_args sample_log_store = (Inr r, t)"
    "r = None" "\<exists>kept. log_bytes (ls_dirs u ''chat'') = kept @ log_line (as_env unclosed_sink) e"
    using auxiliary_log_returns [OF x named plain backups] e failed by auto
  with failed show ?thesis by blast
qed

section \<open>What is written is well formed\<close>

lemma freeze_texts_all:
  "freeze v = Inr w \<Longrightarrow> texts w = texts v \<and> string_keys v"
  "freeze_items xs = Inr ys \<Longrightarrow> (\<Union>y \<in> set ys. texts y) = (\<Union>x \<in> set xs. texts x) \<and> list_all string_keys xs"
  "freeze_fields d = Inr f \<Longrightarrow> (\<Union>(key, y) \<in> set f. insert key (texts y)) = (\<Union>(key, x) \<in> set d. insert key (texts x))
     \<and> list_all (\<lambda>(key, x). string_keys x) d"
proof (induction v and xs and d arbitrary: w and ys and f rule: freeze_freeze_items_freeze_fields.induct)
  case (5 x)
  then show ?case by (cases x) auto
qed (clarsimp simp: result_simps split: if_splits)+

lemma make_log_event_valid:
  assumes "make_log_event fromiso False e0 = Inr e"
  shows "log_valid fromiso e"
proof (cases "lg_metadata e0")
  case None
  then have "e = e0" using assms by (simp add: make_log_event_def result_simps)
  then show ?thesis using assms None by (simp add: log_valid_def)
next
  case (Some m)
  then obtain m' where m': "is_mapping m" "freeze m = Inr m'" "e = e0\<lparr>lg_metadata := Some m'\<rparr>"
    using assms by (auto simp: make_log_event_def result_simps raise_if_def split: if_splits)
  have "is_mapping m'" using m'(1,2) by (cases m) (auto simp: is_mapping_def result_simps split: if_splits)
  then show ?thesis
    using assms Some m' freeze_frozen [OF m'(2)] freeze_frozen_id [OF freeze_frozen [OF m'(2)]]
    by (auto simp: log_valid_def make_log_event_def legacy_event_def result_simps raise_if_def split: if_splits)
qed

text \<open>
  C11: Every event a writer makes of an envelope is a well-formed log event, which a reader decodes as it was
  written, and all of its free text has been through the redaction of credentials: message, error and
  every string of its metadata, keys included.
\<close>

theorem logged_event_well_formed:
  assumes "envelope_log_event fromiso kind x = Inr e"
  shows "log_valid fromiso e \<and> log_from_record fromiso (log_to_record e) = Inr e
    \<and> lg_message e \<in> range redact_sensitive_text \<and> (\<forall>m. lg_error e = Some m \<longrightarrow> m \<in> range redact_sensitive_text)
    \<and> (\<forall>m. lg_metadata e = Some m \<longrightarrow> (\<forall>s \<in> texts m. s = ''***'' \<or> s \<in> range redact_sensitive_text))"
proof -
  obtain payload metadata where q: "sanitize_diagnostic_metadata (lp_metadata payload) = Inr metadata"
    "make_log_event fromiso False (projected_event x payload metadata) = Inr e"
    using assms by (auto simp: envelope_log_event_def result_simps)
  let ?e0 = "projected_event x payload metadata"
  have p: "sanitize_diagnostic_metadata (lp_metadata payload) = Inr metadata" "make_log_event fromiso False ?e0 = Inr e"
    "lg_metadata ?e0 = metadata" "lg_error ?e0 = map_option redact_sensitive_text (lp_error payload)"
    "lg_message ?e0 \<in> range redact_sensitive_text"
    using q by (simp_all add: projected_event_def)
  have valid: "log_valid fromiso e" by (rule make_log_event_valid [OF p(2)])
  have kept: "lg_message e = lg_message ?e0" "lg_error e = lg_error ?e0"
    using p(2) by (auto simp: make_log_event_def result_simps split: option.splits)
  have meta: "\<forall>s \<in> texts m. redacted s" if "lg_metadata e = Some m" for m
  proof -
    have "\<exists>w. metadata = Some w \<and> freeze w = Inr m"
      using p(2,3) that by (auto simp: make_log_event_def result_simps split: option.splits)
    then obtain w where w: "metadata = Some w" "freeze w = Inr m" by blast
    moreover obtain v where "w = sanitize_diagnostic_value v"
      using p(1) w(1) by (auto simp: sanitize_diagnostic_metadata_def split: option.splits pyobj.splits)
    ultimately show ?thesis using freeze_texts_all(1) [OF w(2)] sanitize_texts by metis
  qed
  show ?thesis
    using valid log_reload [OF valid] kept p(4,5) meta by (auto simp: redacted_def)
qed

definition sample_secret_envelope :: RuntimeEnvelope where
  "sample_secret_envelope =
     \<lparr>env_kind = ''audit'', env_name = ''started'', env_producer = ''chat'', env_message_id = ''e1'', env_schema_version = 1,
      env_created_at = ''2024-01-01T00:00:00+00:00'', env_context = empty_context,
      env_payload = PDict [(''message'', PStr ''hi''), (''level'', PStr ''info''),
        (''metadata'', PDict [(''token'', PStr ''t''), (''n'', PInt 1)])]\<rparr>"

theorem logged_event_well_formed_witness:
  "\<exists>e. envelope_log_event (\<lambda>_. IsoAware 0) ''audit'' sample_secret_envelope = Inr e \<and> log_valid (\<lambda>_. IsoAware 0) e"
proof -
  have "is_sensitive_metadata_key ''token''" "\<not> is_sensitive_metadata_key ''n''" by code_simp+
  then have "\<exists>e. envelope_log_event (\<lambda>_. IsoAware 0) ''audit'' sample_secret_envelope = Inr e"
    by (simp add: envelope_log_event_def sample_secret_envelope_def LOG_COMPONENTS_def require_audit_event_name_def
        require_identity_segment_def identity_segment_def slug_char_def lower_char_def mapping_fields_def
        log_payload_from_mapping_def log_payload_fields_def optional_string_def optional_integer_def optional_mapping_def
        dict_get_def is_mapping_def make_log_payload_def sanitize_diagnostic_metadata_def make_log_event_def log_levels_def
        blank_def py_space_def runtime_schema_version_def projected_event_def parse_log_timestamp_def legacy_event_def
        require_log_identity_def require_persisted_event_name_def)
  then show ?thesis using logged_event_well_formed by blast
qed

end
