(* ===== verification/DomainAudits.thy ===== *)
theory DomainAudits
  imports AuditDefs
begin

text \<open>
  The audit contracts of the subsystems: \<open>reason/audit.py\<close>, \<open>memory/audit.py\<close>, \<open>persona/audit.py\<close>,
  \<open>agent/chat/audit.py\<close>, \<open>reflection/audit.py\<close>, \<open>delivery/audit.py\<close>, \<open>storage/audit.py\<close>, the four of
  \<open>daemon/\<close> and \<open>agent/endpoint_audit.py\<close>. Each is a table of events with a check of their metadata and a
  table of messages. The checks are built from readers of one field, which the modules repeat under
  different names. An error of a check carries the name of the field or a few words for the message of the
  code, which adds the name of the catalog.
\<close>

section \<open>Readers of fields\<close>

definition schema :: "string \<Rightarrow> 'a result" where
  "schema m = Inl (AuditSchemaError m)"

definition audit_string :: "string \<Rightarrow> pydict \<Rightarrow> string result" where
  "audit_string f m = bindE (field m f) (\<lambda>v. case v of PStr s \<Rightarrow> (if s = '''' then schema f else Inr s) | _ \<Rightarrow> schema f)"

definition audit_non_blank :: "string \<Rightarrow> pydict \<Rightarrow> string result" where
  "audit_non_blank f m = bindE (field m f) (\<lambda>v. case v of PStr s \<Rightarrow> (if blank s then schema f else Inr s) | _ \<Rightarrow> schema f)"

definition audit_choice :: "string \<Rightarrow> string list \<Rightarrow> pydict \<Rightarrow> string result" where
  "audit_choice f allowed m = bindE (audit_string f m) (\<lambda>s. if s \<in> set allowed then Inr s else schema f)"

definition audit_integer :: "int \<Rightarrow> string \<Rightarrow> pydict \<Rightarrow> int result" where
  "audit_integer least f m = bindE (field m f) (\<lambda>v. case v of PInt i \<Rightarrow> (if i < least then schema f else Inr i) | _ \<Rightarrow> schema f)"

definition audit_bool :: "string \<Rightarrow> pydict \<Rightarrow> bool result" where
  "audit_bool f m = bindE (field m f) (\<lambda>v. case v of PBool b \<Rightarrow> Inr b | _ \<Rightarrow> schema f)"

text \<open>A field that may be null.\<close>

definition audit_null_or :: "(string \<Rightarrow> pydict \<Rightarrow> 'a result) \<Rightarrow> string \<Rightarrow> pydict \<Rightarrow> 'a option result" where
  "audit_null_or reader f m =
     bindE (field m f) (\<lambda>v. if v = PNone then Inr None else bindE (reader f m) (\<lambda>x. Inr (Some x)))"

definition audit_any_integer :: "string \<Rightarrow> pydict \<Rightarrow> int result" where
  "audit_any_integer f m = bindE (field m f) (\<lambda>v. case v of PInt i \<Rightarrow> Inr i | _ \<Rightarrow> schema f)"

definition require :: "bool \<Rightarrow> string \<Rightarrow> unit result" where
  "require b m = raise_if (\<not> b) (AuditSchemaError m)"

text \<open>A reader as a check, and checks one after the other.\<close>

definition reads :: "(pydict \<Rightarrow> 'a result) \<Rightarrow> pydict \<Rightarrow> unit result" where
  "reads r m = bindE (r m) (\<lambda>_. Inr ())"

fun all_of :: "(pydict \<Rightarrow> unit result) list \<Rightarrow> pydict \<Rightarrow> unit result" where
  "all_of [] m = Inr ()"
| "all_of (c # cs) m = bindE (c m) (\<lambda>_. all_of cs m)"

definition each_string :: "string list \<Rightarrow> pydict \<Rightarrow> unit result" where
  "each_string fs = all_of (map (\<lambda>f. reads (audit_string f)) fs)"

definition each_integer :: "string list \<Rightarrow> pydict \<Rightarrow> unit result" where
  "each_integer fs = all_of (map (\<lambda>f. reads (audit_integer 0 f)) fs)"

definition audit_event ::
  "string \<Rightarrow> string \<Rightarrow> string \<Rightarrow> string option \<Rightarrow> string \<Rightarrow> string \<Rightarrow> (pydict \<Rightarrow> unit result) \<Rightarrow> AuditEventDefinition" where
  "audit_event c event level status error duration check =
     \<lparr>ad_component = c, ad_event = event, ad_level = level, ad_status = status, ad_error_policy = error,
      ad_duration_policy = duration, ad_validator = check\<rparr>"

section \<open>Reason\<close>

definition output_modes :: "string list" where
  "output_modes = [''outline'', ''narrative'', ''report'', ''summary'']"

definition audited_reason_statuses :: "string list" where
  "audited_reason_statuses = [''active'', ''paused'', ''resolved'', ''archived'']"

definition audited_step_kinds :: "string list" where
  "audited_step_kinds =
     [''progress'', ''no_change'', ''question'', ''synthesis'', ''contradiction'', ''resolution'', ''planning'']"

definition audited_terminal_statuses :: "string list" where
  "audited_terminal_statuses = [''continue'', ''suggest_resolved'', ''suggest_paused'']"

definition reason_identity :: "pydict \<Rightarrow> unit result" where
  "reason_identity = all_of [require_exact_metadata [''thread_id'', ''job_id''], each_string [''thread_id'', ''job_id'']]"

definition reason_thread_identity :: "pydict \<Rightarrow> unit result" where
  "reason_thread_identity = all_of [require_exact_metadata [''thread_id''], each_string [''thread_id'']]"

definition reason_proposal :: "pydict \<Rightarrow> unit result" where
  "reason_proposal =
     all_of [require_exact_metadata [''active_item_count'', ''mandate_count''], each_integer [''active_item_count'', ''mandate_count'']]"

definition status_change :: "string \<Rightarrow> string \<Rightarrow> pydict \<Rightarrow> unit result" where
  "status_change f g m =
     bindE (audit_choice f audited_reason_statuses m) (\<lambda>a.
     bindE (audit_choice g audited_reason_statuses m) (\<lambda>b.
       require (a \<noteq> b) ''status must change''))"

definition reason_thread_status :: "pydict \<Rightarrow> unit result" where
  "reason_thread_status =
     all_of [require_exact_metadata [''thread_id'', ''from_status'', ''to_status''], each_string [''thread_id''],
       status_change ''from_status'' ''to_status'']"

definition reason_advance_completed :: "pydict \<Rightarrow> unit result" where
  "reason_advance_completed =
     all_of [require_exact_metadata
         [''thread_id'', ''step_id'', ''step_kind'', ''new_findings'', ''new_pending'', ''retired_findings'', ''next_steps''],
       each_string [''thread_id'', ''step_id''], reads (audit_choice ''step_kind'' audited_step_kinds),
       each_integer [''new_findings'', ''new_pending'', ''retired_findings'', ''next_steps'']]"

definition reason_terminal_recommendation :: "pydict \<Rightarrow> unit result" where
  "reason_terminal_recommendation =
     all_of [require_exact_metadata [''thread_id'', ''step_id'', ''terminal_status'', ''from_status'', ''to_status''],
       each_string [''thread_id'', ''step_id''], reads (audit_choice ''terminal_status'' audited_terminal_statuses),
       status_change ''from_status'' ''to_status'']"

definition reason_trace_failure :: "pydict \<Rightarrow> unit result" where
  "reason_trace_failure =
     all_of [require_exact_metadata [''operation'', ''thread_id'', ''step_id''],
       reads (audit_choice ''operation'' [''start_thread'', ''advance_thread'']), each_string [''thread_id''],
       reads (audit_null_or audit_string ''step_id'')]"

definition reason_scheduler_completed :: "pydict \<Rightarrow> unit result" where
  "reason_scheduler_completed =
     all_of [require_exact_metadata [''step_id'', ''step_kind''], each_string [''step_id''],
       reads (audit_choice ''step_kind'' audited_step_kinds)]"

definition reason_chunk_identity :: "pydict \<Rightarrow> unit result" where
  "reason_chunk_identity =
     all_of [require_exact_metadata [''thread_id'', ''job_id'', ''chunk_index''], each_string [''thread_id'', ''job_id''],
       each_integer [''chunk_index'']]"

definition source_range :: "pydict \<Rightarrow> unit result" where
  "source_range m =
     bindE (audit_integer 0 ''source_start_index'' m) (\<lambda>start.
     bindE (audit_null_or (audit_integer 0) ''source_end_index'' m) (\<lambda>finish.
       require (case finish of None \<Rightarrow> True | Some n \<Rightarrow> start \<le> n) ''audit source range is invalid''))"

definition reason_planned :: "pydict \<Rightarrow> unit result" where
  "reason_planned =
     all_of [require_exact_metadata [''thread_id'', ''job_id'', ''mode'', ''output_format'', ''source_start_index'',
         ''source_end_index'', ''segment_size'', ''step_count''],
       each_string [''thread_id'', ''job_id''], reads (audit_choice ''mode'' output_modes),
       reads (audit_choice ''output_format'' [''markdown'']), source_range,
       reads (audit_integer 1 ''segment_size''), reads (audit_integer 1 ''step_count'')]"

definition reason_output_mode :: "pydict \<Rightarrow> unit result" where
  "reason_output_mode = all_of [require_exact_metadata [''mode''], reads (audit_choice ''mode'' output_modes)]"

definition reason_composed :: "pydict \<Rightarrow> unit result" where
  "reason_composed =
     all_of [require_exact_metadata [''thread_id'', ''job_id'', ''chunk_count''], each_string [''thread_id'', ''job_id''],
       reads (audit_integer 1 ''chunk_count'')]"

definition reason_drained :: "pydict \<Rightarrow> unit result" where
  "reason_drained = all_of [require_exact_metadata [''drained_jobs''], reads (audit_integer 1 ''drained_jobs'')]"

definition reason_composition_started :: "pydict \<Rightarrow> unit result" where
  "reason_composition_started =
     all_of [require_exact_metadata [''chunks''],
       (\<lambda>m. bindE (field m ''chunks'') (\<lambda>v. case v of
          PInt i \<Rightarrow> require (0 \<le> i) ''chunks'' | PStr s \<Rightarrow> require (s = ''?'') ''chunks'' | _ \<Rightarrow> schema ''chunks''))]"

definition reason_attempts :: "pydict \<Rightarrow> unit result" where
  "reason_attempts = all_of [require_exact_metadata [''attempts''], reads (audit_integer 1 ''attempts'')]"

definition reason_retry :: "pydict \<Rightarrow> unit result" where
  "reason_retry =
     all_of [require_exact_metadata [''attempts'', ''next_backoff''], reads (audit_integer 1 ''attempts''),
       reads (audit_integer 1 ''next_backoff'')]"

definition reason_reconciled :: "pydict \<Rightarrow> unit result" where
  "reason_reconciled = all_of [require_exact_metadata [''replayed_jobs''], each_integer [''replayed_jobs'']]"

section \<open>Memory\<close>

definition memory_deferred :: "pydict \<Rightarrow> unit result" where
  "memory_deferred =
     all_of [require_exact_metadata [''observation_id'', ''source_ref'', ''processed_messages''],
       each_string [''observation_id'', ''source_ref''],
       (\<lambda>m. bindE (audit_integer 0 ''processed_messages'' m) (\<lambda>n. require (n = 0) ''processed_messages must be zero''))]"

definition memory_curator_contended :: "pydict \<Rightarrow> unit result" where
  "memory_curator_contended = all_of [require_exact_metadata [''observation_id''], each_string [''observation_id'']]"

definition memory_curator_completed :: "pydict \<Rightarrow> unit result" where
  "memory_curator_completed =
     all_of [require_exact_metadata [''observation_id'', ''source_ref'', ''processed_messages'', ''created'', ''updated'', ''ignored''],
       each_string [''observation_id'', ''source_ref''],
       (\<lambda>m. bindE (audit_integer 0 ''processed_messages'' m) (\<lambda>n. require (1 \<le> n) ''processed_messages must be positive'')),
       each_integer [''created'', ''updated'', ''ignored'']]"

definition memory_candidate_created :: "pydict \<Rightarrow> unit result" where
  "memory_candidate_created =
     all_of [require_exact_metadata [''candidate_id'', ''memory_type''], each_string [''candidate_id'', ''memory_type'']]"

definition memory_candidate_targeted :: "pydict \<Rightarrow> unit result" where
  "memory_candidate_targeted =
     all_of [require_exact_metadata [''candidate_id'', ''target_entry_id'', ''memory_type''],
       each_string [''candidate_id'', ''target_entry_id'', ''memory_type'']]"

definition memory_optimizer_deferred :: "pydict \<Rightarrow> unit result" where
  "memory_optimizer_deferred =
     all_of [require_exact_metadata [''reviewed''],
       (\<lambda>m. bindE (audit_integer 0 ''reviewed'' m) (\<lambda>n. require (n = 0) ''reviewed must be zero''))]"

definition memory_optimizer_completed :: "pydict \<Rightarrow> unit result" where
  "memory_optimizer_completed =
     all_of [require_exact_metadata [''reviewed'', ''updated'', ''deleted'', ''ignored''],
       (\<lambda>m. bindE (audit_integer 0 ''reviewed'' m) (\<lambda>n. require (1 \<le> n) ''reviewed must be positive'')),
       each_integer [''updated'', ''deleted'', ''ignored'']]"

definition memory_optimizer_candidate :: "pydict \<Rightarrow> unit result" where
  "memory_optimizer_candidate =
     all_of [require_exact_metadata [''action'', ''candidate_id'', ''target_entry_id''],
       reads (audit_choice ''action'' [''update'', ''delete'']), each_string [''candidate_id'', ''target_entry_id'']]"

definition memory_auto_accept_failed :: "pydict \<Rightarrow> unit result" where
  "memory_auto_accept_failed =
     all_of [require_exact_metadata [''candidate_id'', ''action'', ''memory_type'', ''target_entry_id''],
       each_string [''candidate_id''], reads (audit_choice ''action'' [''create'', ''update'']), each_string [''memory_type''],
       reads (audit_null_or audit_string ''target_entry_id'')]"

definition memory_trace_failed :: "pydict \<Rightarrow> unit result" where
  "memory_trace_failed =
     all_of [require_exact_metadata [''memory_id'', ''action''], each_string [''memory_id''],
       reads (audit_choice ''action'' [''create'', ''update'', ''add'', ''accept'', ''merge'', ''import''])]"

section \<open>Persona\<close>

definition persona_summary :: "pydict \<Rightarrow> unit result" where
  "persona_summary =
     all_of [require_exact_metadata [''persona_count'', ''has_synthesis''], each_integer [''persona_count''],
       reads (audit_bool ''has_synthesis'')]"

definition persona_host_decision :: "pydict \<Rightarrow> unit result" where
  "persona_host_decision = all_of [require_exact_metadata [''should_escalate''], reads (audit_bool ''should_escalate'')]"

definition persona_discussion_step :: "pydict \<Rightarrow> unit result" where
  "persona_discussion_step = all_of [require_exact_metadata [''step_number''], reads (audit_integer 1 ''step_number'')]"

definition persona_discussion :: "pydict \<Rightarrow> unit result" where
  "persona_discussion =
     all_of [require_exact_metadata [''candidate_id'', ''approved'', ''winner_count'', ''emergent_count'',
         ''blocking_veto_count'', ''score_count'', ''discussion_steps''],
       each_string [''candidate_id''], reads (audit_bool ''approved''),
       each_integer [''winner_count'', ''emergent_count'', ''blocking_veto_count'', ''score_count'', ''discussion_steps'']]"

definition persona_discussion_degraded :: "pydict \<Rightarrow> unit result" where
  "persona_discussion_degraded =
     all_of [require_exact_metadata [''stage''], reads (audit_choice ''stage'' [''scoring'', ''selection'', ''moderator''])]"

definition persona_completion_failed :: "pydict \<Rightarrow> unit result" where
  "persona_completion_failed =
     all_of [require_exact_metadata [''stage''], reads (audit_choice ''stage'' [''contribution'', ''synthesis''])]"

definition persona_trace_failed :: "pydict \<Rightarrow> unit result" where
  "persona_trace_failed =
     all_of [require_exact_metadata [''persona_prompt_id'', ''action''], each_string [''persona_prompt_id''],
       reads (audit_choice ''action'' [''create'', ''enable'', ''disable'', ''prompt_created'', ''enabled'', ''disabled''])]"

definition persona_interactive_command_failed :: "pydict \<Rightarrow> unit result" where
  "persona_interactive_command_failed = all_of [require_exact_metadata [''action''], each_string [''action'']]"

section \<open>Chat\<close>

definition chat_endpoint :: "pydict \<Rightarrow> unit result" where
  "chat_endpoint =
     all_of [require_exact_metadata [''endpoint_index'', ''model''], each_integer [''endpoint_index''], each_string [''model'']]"

definition chat_endpoint_index :: "pydict \<Rightarrow> unit result" where
  "chat_endpoint_index = all_of [require_exact_metadata [''endpoint_index''], each_integer [''endpoint_index'']]"

definition chat_final_response :: "pydict \<Rightarrow> unit result" where
  "chat_final_response = all_of [require_exact_metadata [''epistemic_status''], each_string [''epistemic_status'']]"

definition chat_conversation :: "pydict \<Rightarrow> unit result" where
  "chat_conversation = all_of [require_exact_metadata [''conversation_id''], each_string [''conversation_id'']]"

definition chat_completion :: "pydict \<Rightarrow> unit result" where
  "chat_completion =
     all_of [require_exact_metadata [''completion''],
       reads (audit_choice ''completion'' [''conversations'', ''archived_conversations''])]"

definition chat_prompt :: "pydict \<Rightarrow> unit result" where
  "chat_prompt = all_of [require_exact_metadata [''fallback''], reads (audit_choice ''fallback'' [''builtin_input''])]"

definition attempt_bounds :: "pydict \<Rightarrow> unit result" where
  "attempt_bounds m =
     bindE (audit_integer 0 ''attempt'' m) (\<lambda>attempt.
     bindE (audit_integer 0 ''max_attempts'' m) (\<lambda>maximum.
       require (2 \<le> attempt \<and> attempt \<le> maximum) ''audit retry attempt bounds are invalid''))"

definition chat_turn_retry :: "pydict \<Rightarrow> unit result" where
  "chat_turn_retry =
     all_of [require_exact_metadata [''attempt'', ''max_attempts'', ''failure_phase'', ''request_may_have_completed''],
       attempt_bounds, each_string [''failure_phase''], reads (audit_bool ''request_may_have_completed'')]"

definition chat_activity :: "pydict \<Rightarrow> unit result" where
  "chat_activity m =
     (let connection = (dict_get m ''error_kind'' = PStr ''connection'') in
      all_of ([require_exact_metadata ([''stage'', ''error_kind'', ''has_subscription'']
                 @ (if connection then [''failure_phase'', ''retryable'', ''request_may_have_completed''] else [])),
               reads (audit_choice ''stage'' [''open'', ''poll'', ''drain'', ''close'']),
               reads (audit_choice ''error_kind'' [''connection'', ''application'']), reads (audit_bool ''has_subscription'')]
              @ (if connection then [each_string [''failure_phase''], reads (audit_bool ''retryable''),
                   reads (audit_bool ''request_may_have_completed'')] else [])) m)"

definition filled :: "pyobj \<Rightarrow> bool" where
  "filled v = (case v of PStr s \<Rightarrow> s \<noteq> '''' | _ \<Rightarrow> False)"

definition chat_cleanup :: "pydict \<Rightarrow> unit result" where
  "chat_cleanup =
     all_of [require_exact_metadata [''steps'', ''primary_failed''],
       (\<lambda>m. bindE (field m ''steps'') (\<lambda>v. case v of
          PList xs \<Rightarrow> require (xs \<noteq> [] \<and> list_all filled xs) ''steps'' | _ \<Rightarrow> schema ''steps'')),
       reads (audit_bool ''primary_failed'')]"

section \<open>Reflection and delivery\<close>

definition reflection_validate_reason :: "pydict \<Rightarrow> unit result" where
  "reflection_validate_reason = all_of [require_exact_metadata [''reason''], each_string [''reason'']]"

text \<open>A float between 0 and 1; the comparison with a NaN is false.\<close>

definition audit_score :: "string \<Rightarrow> pydict \<Rightarrow> unit result" where
  "audit_score f m =
     bindE (field m f) (\<lambda>v. case v of
       PFloat (Finite q) \<Rightarrow> require (0 \<le> q \<and> q \<le> 1) f | _ \<Rightarrow> schema f)"

definition reflection_validate_reason_score :: "pydict \<Rightarrow> unit result" where
  "reflection_validate_reason_score =
     all_of [require_exact_metadata [''reason'', ''score''], each_string [''reason''], audit_score ''score'']"

definition audited_idea_types :: "string list" where
  "audited_idea_types = [''connection'', ''contradiction'', ''question'', ''action'', ''profile_update'']"

definition reflection_validate_completed :: "pydict \<Rightarrow> unit result" where
  "reflection_validate_completed =
     all_of [require_exact_metadata [''reason'', ''score'', ''idea_type''], each_string [''reason''], audit_score ''score'',
       reads (audit_choice ''idea_type'' audited_idea_types)]"

definition reflection_validate_record :: "pydict \<Rightarrow> unit result" where
  "reflection_validate_record = all_of [require_exact_metadata [''record''], each_string [''record'']]"

definition reflection_validate_reflection_id :: "pydict \<Rightarrow> unit result" where
  "reflection_validate_reflection_id = all_of [require_exact_metadata [''reflection_id''], each_string [''reflection_id'']]"

definition reflection_validate_organization :: "pydict \<Rightarrow> unit result" where
  "reflection_validate_organization =
     all_of [require_exact_metadata [''merged_groups'', ''archived_entries''], each_integer [''merged_groups'', ''archived_entries'']]"

definition delivery_entry_attempt :: "pydict \<Rightarrow> unit result" where
  "delivery_entry_attempt =
     all_of [require_exact_metadata [''entry_id'', ''attempt''], each_string [''entry_id''], each_integer [''attempt'']]"

section \<open>Storage and the daemon's cleanup\<close>

definition storage_backend_close :: "pydict \<Rightarrow> unit result" where
  "storage_backend_close = all_of [require_exact_metadata [''backend_type''], reads (audit_non_blank ''backend_type'')]"

definition failure_record :: "pyobj \<Rightarrow> unit result" where
  "failure_record v =
     (case v of
        PDict d \<Rightarrow> all_of [require_exact_metadata [''step'', ''error''], reads (audit_non_blank ''step''), reads (audit_non_blank ''error'')] d
      | PProxy d \<Rightarrow> all_of [require_exact_metadata [''step'', ''error''], reads (audit_non_blank ''step''), reads (audit_non_blank ''error'')] d
      | PIntMap d \<Rightarrow> bindE (require_exact_fields [''step'', ''error''] (map (\<lambda>(i, _). PInt i) d)) (\<lambda>_. Inr ())
      | _ \<Rightarrow> schema ''failure must be a mapping of the fields'')"

fun each_failure :: "pyobj list \<Rightarrow> unit result" where
  "each_failure [] = Inr ()"
| "each_failure (v # vs) = bindE (failure_record v) (\<lambda>_. each_failure vs)"

definition storage_cleanup_failure_records :: "pydict \<Rightarrow> unit result" where
  "storage_cleanup_failure_records =
     all_of [require_exact_metadata [''failures'', ''primary_failed''], reads (audit_bool ''primary_failed''),
       (\<lambda>m. bindE (field m ''failures'') (\<lambda>v. case v of
          PList xs \<Rightarrow> bindE (require (xs \<noteq> []) ''failures'') (\<lambda>_. each_failure xs) | _ \<Rightarrow> schema ''failures''))]"

definition operations_shutdown_cleanup :: "pydict \<Rightarrow> unit result" where
  "operations_shutdown_cleanup =
     all_of [require_exact_metadata [''failures'', ''primary_failed''], reads (audit_bool ''primary_failed''),
       (\<lambda>m. bindE (field m ''failures'') (\<lambda>v. case v of
          PList xs \<Rightarrow> bindE (require (xs \<noteq> []) ''failures'') (\<lambda>_. each_failure xs) | _ \<Rightarrow> schema ''failures''))]"

section \<open>The daemon's lifecycle, transport and requests\<close>

definition daemon_phases :: "string list" where
  "daemon_phases = [''stopped'', ''owned_unready'', ''ready'', ''inconsistent'', ''unknown'']"

definition start_reasons :: "string list" where
  "start_reasons = [''spawn_failed'', ''status_failed'', ''owner_unready'', ''process_exited'', ''timeout'']"

definition stop_reasons :: "string list" where
  "stop_reasons = [''request_failed'', ''ownership_check_failed'', ''timeout'']"

definition audit_phase :: "string \<Rightarrow> pydict \<Rightarrow> string result" where
  "audit_phase f = audit_choice f daemon_phases"

text \<open>\<open>_require_optional_pid\<close>: null or positive.\<close>

definition audit_pid :: "pydict \<Rightarrow> unit result" where
  "audit_pid m =
     bindE (audit_null_or audit_any_integer ''pid'' m) (\<lambda>v. require (case v of None \<Rightarrow> True | Some i \<Rightarrow> 0 < i) ''pid must be positive or null'')"

definition lifecycle_validate_recovered_metadata :: "pydict \<Rightarrow> unit result" where
  "lifecycle_validate_recovered_metadata =
     all_of [require_exact_metadata [''socket'', ''pid''], reads (audit_bool ''socket''), reads (audit_bool ''pid'')]"

definition validate_transition_metadata :: "string list \<Rightarrow> string \<Rightarrow> pydict \<Rightarrow> unit result" where
  "validate_transition_metadata outcomes to_phase =
     all_of [require_exact_metadata [''outcome'', ''changed'', ''from_phase'', ''to_phase'', ''pid'', ''socket''],
       (\<lambda>m. bindE (audit_choice ''outcome'' outcomes m) (\<lambda>outcome.
            bindE (audit_bool ''changed'' m) (\<lambda>changed.
            bindE (audit_phase ''from_phase'' m) (\<lambda>_.
            bindE (audit_phase ''to_phase'' m) (\<lambda>actual.
            bindE (require (actual = to_phase) ''to_phase'') (\<lambda>_.
              require (changed = (outcome \<in> {''started'', ''stopped''})) ''changed does not match lifecycle outcome'')))))),
       audit_pid, each_string [''socket'']]"

definition lifecycle_validate_start_completed_metadata :: "pydict \<Rightarrow> unit result" where
  "lifecycle_validate_start_completed_metadata = validate_transition_metadata [''started'', ''already_ready''] ''ready''"

definition lifecycle_validate_stop_completed_metadata :: "pydict \<Rightarrow> unit result" where
  "lifecycle_validate_stop_completed_metadata = validate_transition_metadata [''stopped'', ''already_stopped''] ''stopped''"

text \<open>The stage, when it is demanded, has been compared by the caller.\<close>

definition validate_start_failure_fields :: "string option \<Rightarrow> pydict \<Rightarrow> unit result" where
  "validate_start_failure_fields stage =
     all_of [require_exact_metadata ([''reason'', ''phase'', ''pid'', ''socket'', ''exit_code''] @ (if stage = None then [] else [''stage''])),
       reads (audit_choice ''reason'' start_reasons), reads (audit_phase ''phase''), audit_pid, each_string [''socket''],
       reads (audit_null_or audit_any_integer ''exit_code''),
       (\<lambda>m. case stage of None \<Rightarrow> Inr ()
          | Some s \<Rightarrow> bindE (field m ''stage'') (\<lambda>v. require (v = PStr s) ''restart failure stage''))]"

definition validate_stop_failure_fields :: "string option \<Rightarrow> pydict \<Rightarrow> unit result" where
  "validate_stop_failure_fields stage =
     all_of [require_exact_metadata ([''reason'', ''phase'', ''pid'', ''socket'', ''owner_active''] @ (if stage = None then [] else [''stage''])),
       reads (audit_choice ''reason'' stop_reasons), reads (audit_phase ''phase''), audit_pid, each_string [''socket''],
       reads (audit_null_or audit_bool ''owner_active''),
       (\<lambda>m. case stage of None \<Rightarrow> Inr ()
          | Some s \<Rightarrow> bindE (field m ''stage'') (\<lambda>v. require (v = PStr s) ''restart failure stage''))]"

definition lifecycle_validate_start_failed_metadata :: "pydict \<Rightarrow> unit result" where
  "lifecycle_validate_start_failed_metadata = validate_start_failure_fields None"

definition lifecycle_validate_stop_failed_metadata :: "pydict \<Rightarrow> unit result" where
  "lifecycle_validate_stop_failed_metadata = validate_stop_failure_fields None"

definition lifecycle_validate_restart_failed_metadata :: "pydict \<Rightarrow> unit result" where
  "lifecycle_validate_restart_failed_metadata m =
     (if dict_get m ''stage'' = PStr ''start'' then validate_start_failure_fields (Some ''start'') m
      else if dict_get m ''stage'' = PStr ''stop'' then validate_stop_failure_fields (Some ''stop'') m
      else schema ''restart_failed stage must be start or stop'')"

definition lifecycle_validate_restart_completed_metadata :: "pydict \<Rightarrow> unit result" where
  "lifecycle_validate_restart_completed_metadata =
     all_of [require_exact_metadata [''stop_outcome'', ''stop_changed'', ''stop_from_phase'', ''stop_to_phase'', ''start_outcome'',
         ''start_changed'', ''start_from_phase'', ''start_to_phase'', ''pid'', ''socket''],
       (\<lambda>m. bindE (audit_choice ''stop_outcome'' [''stopped'', ''already_stopped''] m) (\<lambda>stop_outcome.
            bindE (audit_bool ''stop_changed'' m) (\<lambda>stop_changed.
            bindE (audit_phase ''stop_from_phase'' m) (\<lambda>_.
            bindE (audit_phase ''stop_to_phase'' m) (\<lambda>stop_to.
            bindE (require (stop_to = ''stopped'') ''stop_to_phase'') (\<lambda>_.
            bindE (audit_choice ''start_outcome'' [''started'', ''already_ready''] m) (\<lambda>start_outcome.
            bindE (audit_bool ''start_changed'' m) (\<lambda>start_changed.
            bindE (audit_phase ''start_from_phase'' m) (\<lambda>start_from.
            bindE (require (start_from = ''stopped'') ''start_from_phase'') (\<lambda>_.
            bindE (audit_phase ''start_to_phase'' m) (\<lambda>start_to.
            bindE (require (start_to = ''ready'') ''start_to_phase'') (\<lambda>_.
            bindE (require (stop_changed = (stop_outcome = ''stopped'')) ''stop_changed'') (\<lambda>_.
              require (start_changed = (start_outcome = ''started'')) ''start_changed''))))))))))))),
       audit_pid, each_string [''socket'']]"

text \<open>The status is looked up in a set, which raises for a value without a hash.\<close>

definition response_status :: "pydict \<Rightarrow> unit result" where
  "response_status m =
     bindE (field m ''response_status'') (\<lambda>v.
       if \<not> hashable v then Inl (TypeError ''unhashable type'')
       else require (v \<in> {PStr ''ok'', PStr ''error''}) ''daemon transport response_status is invalid'')"

definition transport_response_encode :: "pydict \<Rightarrow> unit result" where
  "transport_response_encode = all_of [require_exact_metadata [''response_status''], response_status]"

definition transport_response_delivery :: "pydict \<Rightarrow> unit result" where
  "transport_response_delivery =
     all_of [require_exact_metadata [''response_status'', ''fallback''], response_status, reads (audit_bool ''fallback'')]"

definition request_request_rejected :: "pydict \<Rightarrow> unit result" where
  "request_request_rejected = all_of [require_exact_metadata [''request_type''], reads (audit_non_blank ''request_type'')]"

definition request_chat_completed :: "pydict \<Rightarrow> unit result" where
  "request_chat_completed = all_of [require_exact_metadata [''evidence_references''], each_integer [''evidence_references'']]"

section \<open>Endpoints\<close>

definition validate_endpoint_metadata :: "pydict \<Rightarrow> unit result" where
  "validate_endpoint_metadata =
     all_of [require_exact_metadata [''endpoint_index'', ''model''], each_integer [''endpoint_index''], reads (audit_non_blank ''model'')]"

definition agent_endpoint_components :: "string list" where
  "agent_endpoint_components = [''chat'', ''memory'', ''persona'', ''reasoning'', ''reflection'']"

definition endpoint_definitions :: "AuditEventDefinition list" where
  "endpoint_definitions =
     concat (map (\<lambda>c.
       [audit_event c ''llm_endpoint_failed_over'' ''warning'' (Some ''failed_over'') ''required'' ''forbidden'' validate_endpoint_metadata,
        audit_event c ''llm_endpoint_unavailable'' ''warning'' (Some ''exhausted'') ''required'' ''forbidden'' validate_endpoint_metadata])
       agent_endpoint_components)"

definition endpoint_messages :: "(string \<times> string) list" where
  "endpoint_messages =
     [(''llm_endpoint_failed_over'', ''LLM endpoint failed; trying next configured endpoint''),
      (''llm_endpoint_unavailable'', ''LLM endpoint failed and no fallback endpoint remains'')]"

section \<open>The tables\<close>

definition reason_definitions :: "AuditEventDefinition list" where
  "reason_definitions =
     [audit_event ''reasoning'' ''proposal_created'' ''info'' None ''forbidden'' ''forbidden'' reason_proposal,
      audit_event ''reasoning'' ''thread_started'' ''info'' (Some ''created'') ''forbidden'' ''forbidden'' reason_thread_identity,
      audit_event ''reasoning'' ''thread_status_changed'' ''info'' (Some ''updated'') ''forbidden'' ''forbidden'' reason_thread_status,
      audit_event ''reasoning'' ''thread_deleted'' ''info'' (Some ''deleted'') ''forbidden'' ''forbidden'' reason_thread_identity,
      audit_event ''reasoning'' ''advance_started'' ''info'' (Some ''started'') ''forbidden'' ''forbidden'' reason_thread_identity,
      audit_event ''reasoning'' ''advance_completed'' ''info'' (Some ''completed'') ''forbidden'' ''forbidden'' reason_advance_completed,
      audit_event ''reasoning'' ''terminal_recommendation_applied'' ''info'' (Some ''updated'') ''forbidden'' ''forbidden'' reason_terminal_recommendation,
      audit_event ''reasoning'' ''trace_recording_failed'' ''warning'' (Some ''degraded'') ''required'' ''forbidden'' reason_trace_failure,
      audit_event ''reasoning'' ''scheduler_advance_failed'' ''error'' (Some ''error'') ''required'' ''forbidden'' validate_no_metadata,
      audit_event ''reasoning'' ''scheduler_advance_completed'' ''info'' (Some ''completed'') ''forbidden'' ''forbidden'' reason_scheduler_completed,
      audit_event ''reasoning'' ''llm_failover_suppressed_after_tool_call'' ''warning'' (Some ''failed'') ''required'' ''forbidden'' validate_no_metadata,
      audit_event ''reasoning'' ''advance_failed'' ''error'' (Some ''failed'') ''required'' ''forbidden'' validate_no_metadata,
      audit_event ''reasoning'' ''completion_load_failed'' ''warning'' (Some ''degraded'') ''required'' ''forbidden'' validate_no_metadata,
      audit_event ''reasoning'' ''reason_output_planned'' ''info'' (Some ''created'') ''forbidden'' ''forbidden'' reason_planned,
      audit_event ''reasoning'' ''reason_output_section_plan_fallback'' ''warning'' (Some ''degraded'') ''required'' ''forbidden'' reason_output_mode,
      audit_event ''reasoning'' ''reason_output_chunk_skipped'' ''info'' None ''forbidden'' ''forbidden'' reason_chunk_identity,
      audit_event ''reasoning'' ''reason_output_chunk_started'' ''info'' None ''forbidden'' ''forbidden'' reason_chunk_identity,
      audit_event ''reasoning'' ''reason_output_chunk_failed'' ''error'' (Some ''error'') ''required'' ''forbidden'' reason_chunk_identity,
      audit_event ''reasoning'' ''reason_output_chunk_completed'' ''info'' (Some ''ok'') ''forbidden'' ''required'' reason_chunk_identity,
      audit_event ''reasoning'' ''reason_output_composed'' ''info'' (Some ''completed'') ''forbidden'' ''forbidden'' reason_composed,
      audit_event ''reasoning'' ''reason_output_pdf_started'' ''info'' None ''forbidden'' ''forbidden'' reason_identity,
      audit_event ''reasoning'' ''reason_output_pdf_timeout'' ''warning'' (Some ''error'') ''forbidden'' ''forbidden'' reason_identity,
      audit_event ''reasoning'' ''reason_output_pdf_failed'' ''warning'' (Some ''error'') ''required'' ''forbidden'' reason_identity,
      audit_event ''reasoning'' ''reason_output_pdf_created'' ''info'' (Some ''completed'') ''forbidden'' ''forbidden'' reason_identity,
      audit_event ''daemon'' ''export_job_enqueue_failed'' ''warning'' (Some ''degraded'') ''required'' ''forbidden'' reason_identity,
      audit_event ''daemon'' ''export_job_enqueued'' ''info'' (Some ''queued'') ''forbidden'' ''forbidden'' reason_identity,
      audit_event ''daemon'' ''export_queue_drained'' ''warning'' None ''forbidden'' ''forbidden'' reason_drained,
      audit_event ''daemon'' ''export_worker_get_error'' ''warning'' (Some ''error'') ''required'' ''forbidden'' validate_no_metadata,
      audit_event ''daemon'' ''export_job_dequeued'' ''info'' None ''forbidden'' ''forbidden'' validate_no_metadata,
      audit_event ''daemon'' ''export_job_manifest_invalid'' ''error'' (Some ''error'') ''required'' ''forbidden'' validate_no_metadata,
      audit_event ''daemon'' ''export_job_progress_invalid'' ''warning'' (Some ''degraded'') ''required'' ''forbidden'' validate_no_metadata,
      audit_event ''daemon'' ''export_job_composition_started'' ''info'' None ''forbidden'' ''forbidden'' reason_composition_started,
      audit_event ''daemon'' ''export_job_state_persist_failed'' ''error'' (Some ''error'') ''required'' ''forbidden'' validate_no_metadata,
      audit_event ''daemon'' ''export_job_failed'' ''error'' (Some ''error'') ''required'' ''forbidden'' reason_attempts,
      audit_event ''daemon'' ''export_job_retry'' ''info'' (Some ''retry'') ''forbidden'' ''forbidden'' reason_retry,
      audit_event ''daemon'' ''export_retry_schedule_failed'' ''warning'' (Some ''degraded'') ''required'' ''forbidden'' reason_retry,
      audit_event ''daemon'' ''export_retry_callback_failed'' ''warning'' (Some ''degraded'') ''required'' ''forbidden'' reason_retry,
      audit_event ''daemon'' ''export_reconciliation_skip'' ''warning'' (Some ''error'') ''required'' ''forbidden'' reason_identity,
      audit_event ''daemon'' ''export_queue_reconciled'' ''info'' None ''forbidden'' ''forbidden'' reason_reconciled]"

definition reason_messages :: "(string \<times> string) list" where
  "reason_messages =
     [(''proposal_created'', ''Reason thread proposal created''),
      (''thread_started'', ''Reason thread started''),
      (''thread_status_changed'', ''Reason thread status changed''),
      (''thread_deleted'', ''Reason thread deleted''),
      (''advance_started'', ''Reason advance started''),
      (''advance_completed'', ''Reason advance completed''),
      (''terminal_recommendation_applied'', ''Reason terminal recommendation applied''),
      (''trace_recording_failed'', ''Reason trace recording failed''),
      (''scheduler_advance_failed'', ''Reason scheduler advance failed''),
      (''scheduler_advance_completed'', ''Reason scheduler advance completed''),
      (''llm_failover_suppressed_after_tool_call'', ''Reason endpoint failover suppressed after tool execution''),
      (''advance_failed'', ''Reason advance failed''),
      (''completion_load_failed'', ''Failed to load Reason thread completions''),
      (''reason_output_planned'', ''Reason output planned''),
      (''reason_output_section_plan_fallback'', ''Reason output section planning used deterministic fallback''),
      (''reason_output_chunk_skipped'', ''Reason output chunk skipped''),
      (''reason_output_chunk_started'', ''Reason output chunk started''),
      (''reason_output_chunk_failed'', ''Reason output chunk failed''),
      (''reason_output_chunk_completed'', ''Reason output chunk completed''),
      (''reason_output_composed'', ''Reason output composed''),
      (''reason_output_pdf_started'', ''Reason output PDF generation started''),
      (''reason_output_pdf_timeout'', ''Reason output PDF generation timed out''),
      (''reason_output_pdf_failed'', ''Reason output PDF generation failed''),
      (''reason_output_pdf_created'', ''Reason output PDF created''),
      (''export_job_enqueue_failed'', ''Reason export job enqueue failed''),
      (''export_job_enqueued'', ''Reason export job enqueued''),
      (''export_queue_drained'', ''Reason export queue drained''),
      (''export_worker_get_error'', ''Reason export queue read failed''),
      (''export_job_dequeued'', ''Reason export job dequeued''),
      (''export_job_manifest_invalid'', ''Reason export manifest invalid''),
      (''export_job_progress_invalid'', ''Reason export progress invalid''),
      (''export_job_composition_started'', ''Reason export composition started''),
      (''export_job_state_persist_failed'', ''Reason export failure state persistence failed''),
      (''export_job_failed'', ''Reason export job failed''),
      (''export_job_retry'', ''Reason export job retry scheduled''),
      (''export_retry_schedule_failed'', ''Reason export retry scheduling failed''),
      (''export_retry_callback_failed'', ''Reason export retry callback failed''),
      (''export_reconciliation_skip'', ''Reason export reconciliation skipped job''),
      (''export_queue_reconciled'', ''Reason export queue reconciled'')]"

definition memory_definitions :: "AuditEventDefinition list" where
  "memory_definitions =
     [audit_event ''memory'' ''curator_contended'' ''info'' (Some ''deferred'') ''forbidden'' ''forbidden'' memory_curator_contended,
      audit_event ''memory'' ''curator_deferred'' ''info'' (Some ''deferred'') ''forbidden'' ''forbidden'' memory_deferred,
      audit_event ''memory'' ''curator_completed'' ''info'' (Some ''completed'') ''forbidden'' ''forbidden'' memory_curator_completed,
      audit_event ''memory'' ''candidate_merged'' ''info'' (Some ''created'') ''forbidden'' ''forbidden'' memory_candidate_targeted,
      audit_event ''memory'' ''candidate_created'' ''info'' (Some ''created'') ''forbidden'' ''forbidden'' memory_candidate_created,
      audit_event ''memory'' ''candidate_updated'' ''info'' (Some ''created'') ''forbidden'' ''forbidden'' memory_candidate_targeted,
      audit_event ''memory'' ''optimizer_deferred'' ''info'' None ''forbidden'' ''forbidden'' memory_optimizer_deferred,
      audit_event ''memory'' ''optimizer_completed'' ''info'' None ''forbidden'' ''forbidden'' memory_optimizer_completed,
      audit_event ''memory'' ''optimizer_candidate_staged'' ''info'' None ''forbidden'' ''forbidden'' memory_optimizer_candidate,
      audit_event ''memory'' ''auto_accept_failed'' ''warning'' (Some ''degraded'') ''required'' ''forbidden'' memory_auto_accept_failed,
      audit_event ''memory'' ''trace_recording_failed'' ''warning'' (Some ''degraded'') ''required'' ''forbidden'' memory_trace_failed,
      audit_event ''memory'' ''curator_failed'' ''error'' (Some ''error'') ''required'' ''forbidden'' validate_no_metadata,
      audit_event ''memory'' ''post_chat_curation_failed'' ''warning'' (Some ''degraded'') ''required'' ''forbidden'' validate_no_metadata,
      audit_event ''memory'' ''chat_trace_recording_failed'' ''warning'' (Some ''degraded'') ''required'' ''forbidden'' validate_no_metadata]"

definition memory_messages :: "(string \<times> string) list" where
  "memory_messages =
     [(''auto_accept_failed'', ''Memory candidate auto-accept failed''),
      (''trace_recording_failed'', ''Memory trace recording failed''),
      (''curator_failed'', ''Memory curator failed''),
      (''post_chat_curation_failed'', ''Post-chat memory curation failed''),
      (''chat_trace_recording_failed'', ''Chat trace recording failed'')]"

definition persona_definitions :: "AuditEventDefinition list" where
  "persona_definitions =
     [audit_event ''persona'' ''persona_summary'' ''info'' (Some ''completed'') ''forbidden'' ''forbidden'' persona_summary,
      audit_event ''persona'' ''host_discussion_decision'' ''info'' (Some ''completed'') ''forbidden'' ''forbidden'' persona_host_decision,
      audit_event ''persona'' ''persona_discussion_step'' ''debug'' (Some ''running'') ''forbidden'' ''forbidden'' persona_discussion_step,
      audit_event ''persona'' ''persona_discussion'' ''info'' (Some ''completed'') ''forbidden'' ''forbidden'' persona_discussion,
      audit_event ''persona'' ''persona_discussion_failure'' ''error'' (Some ''failed'') ''required'' ''forbidden'' validate_no_metadata,
      audit_event ''persona'' ''persona_discussion_degraded'' ''warning'' (Some ''degraded'') ''required'' ''forbidden'' persona_discussion_degraded,
      audit_event ''persona'' ''persona_completion_failed'' ''warning'' (Some ''degraded'') ''required'' ''forbidden'' persona_completion_failed,
      audit_event ''persona'' ''persona_activation_failed'' ''warning'' (Some ''degraded'') ''required'' ''forbidden'' validate_no_metadata,
      audit_event ''persona'' ''persona_definition_load_failed'' ''warning'' (Some ''degraded'') ''required'' ''forbidden'' validate_no_metadata,
      audit_event ''persona'' ''trace_recording_failed'' ''warning'' (Some ''degraded'') ''required'' ''forbidden'' persona_trace_failed,
      audit_event ''persona'' ''interactive_command_failed'' ''error'' (Some ''error'') ''required'' ''forbidden'' persona_interactive_command_failed]"

definition persona_messages :: "(string \<times> string) list" where
  "persona_messages =
     [(''persona_summary'', ''Persona consultation completed''),
      (''host_discussion_decision'', ''Persona discussion decision completed''),
      (''persona_discussion_step'', ''Persona discussion step completed''),
      (''persona_discussion'', ''Persona discussion completed''),
      (''persona_discussion_failure'', ''Persona discussion failed''),
      (''persona_discussion_degraded'', ''Persona discussion used fallback''),
      (''persona_completion_failed'', ''Persona completion used fallback''),
      (''persona_activation_failed'', ''Persona activation used fallback''),
      (''persona_definition_load_failed'', ''Persona definitions used builtin fallback''),
      (''trace_recording_failed'', ''Persona lifecycle trace recording failed''),
      (''interactive_command_failed'', ''Interactive persona command failed'')]"

definition chat_definitions :: "AuditEventDefinition list" where
  "chat_definitions =
     [audit_event ''chat'' ''daemon_chat_completed'' ''info'' (Some ''ok'') ''forbidden'' ''forbidden'' validate_no_metadata,
      audit_event ''chat'' ''daemon_chat_failed'' ''error'' (Some ''error'') ''required'' ''forbidden'' validate_no_metadata,
      audit_event ''chat'' ''one_shot_chat_completed'' ''info'' (Some ''ok'') ''forbidden'' ''forbidden'' validate_no_metadata,
      audit_event ''chat'' ''one_shot_chat_failed'' ''error'' (Some ''error'') ''required'' ''forbidden'' validate_no_metadata,
      audit_event ''chat'' ''final_response_completed'' ''info'' (Some ''completed'') ''forbidden'' ''forbidden'' chat_final_response,
      audit_event ''chat'' ''llm_endpoint_retry'' ''warning'' (Some ''retry'') ''required'' ''forbidden'' chat_endpoint,
      audit_event ''chat'' ''llm_retry_suppressed_after_tool_call'' ''warning'' (Some ''fallback'') ''required'' ''forbidden'' chat_endpoint,
      audit_event ''chat'' ''llm_endpoints_exhausted'' ''warning'' (Some ''fallback'') ''required'' ''forbidden'' validate_no_metadata,
      audit_event ''chat'' ''llm_endpoint_state_write_failed'' ''warning'' (Some ''degraded'') ''required'' ''forbidden'' chat_endpoint_index,
      audit_event ''chat'' ''compression_fallback'' ''warning'' (Some ''degraded'') ''required'' ''forbidden'' validate_no_metadata,
      audit_event ''chat'' ''interactive_history_load_failed'' ''error'' (Some ''error'') ''required'' ''forbidden'' chat_conversation,
      audit_event ''chat'' ''interactive_history_write_failed'' ''warning'' (Some ''degraded'') ''required'' ''forbidden'' validate_no_metadata,
      audit_event ''chat'' ''completion_load_failed'' ''warning'' (Some ''degraded'') ''required'' ''forbidden'' chat_completion,
      audit_event ''chat'' ''interactive_prompt_failed'' ''warning'' (Some ''degraded'') ''required'' ''forbidden'' chat_prompt,
      audit_event ''chat'' ''turn_retry'' ''info'' (Some ''retry'') ''forbidden'' ''forbidden'' chat_turn_retry,
      audit_event ''chat'' ''activity_transport_degraded'' ''warning'' (Some ''degraded'') ''required'' ''forbidden'' chat_activity,
      audit_event ''chat'' ''interactive_send_failed'' ''error'' (Some ''error'') ''required'' ''forbidden'' validate_no_metadata,
      audit_event ''chat'' ''interactive_cleanup_failed'' ''error'' (Some ''error'') ''required'' ''forbidden'' chat_cleanup]"

definition chat_messages :: "(string \<times> string) list" where
  "chat_messages =
     [(''daemon_chat_completed'', ''daemon chat request completed''),
      (''daemon_chat_failed'', ''daemon chat request failed''),
      (''one_shot_chat_completed'', ''one-shot chat turn completed''),
      (''one_shot_chat_failed'', ''one-shot chat turn failed''),
      (''final_response_completed'', ''final response accepted''),
      (''llm_endpoint_retry'', ''LLM endpoint error; retrying''),
      (''llm_retry_suppressed_after_tool_call'', ''LLM retry suppressed after tool execution''),
      (''llm_endpoints_exhausted'', ''LLM endpoints exhausted''),
      (''llm_endpoint_state_write_failed'', ''LLM endpoint state write failed''),
      (''compression_fallback'', ''Conversation compression used local fallback''),
      (''interactive_history_load_failed'', ''Interactive history load failed''),
      (''interactive_history_write_failed'', ''Interactive history write failed''),
      (''completion_load_failed'', ''Interactive completion load failed''),
      (''interactive_prompt_failed'', ''Interactive prompt degraded''),
      (''turn_retry'', ''Chat turn transport retry scheduled''),
      (''activity_transport_degraded'', ''Activity transport degraded''),
      (''interactive_send_failed'', ''Interactive chat send failed''),
      (''interactive_cleanup_failed'', ''Interactive session cleanup failed'')]"

definition reflection_definitions :: "AuditEventDefinition list" where
  "reflection_definitions =
     [audit_event ''reflection'' ''schedule_blocked'' ''info'' (Some ''skipped'') ''forbidden'' ''forbidden'' reflection_validate_reason,
      audit_event ''reflection'' ''cycle_started'' ''info'' (Some ''started'') ''forbidden'' ''forbidden'' validate_no_metadata,
      audit_event ''reflection'' ''cycle_filtered'' ''info'' (Some ''completed'') ''forbidden'' ''forbidden'' reflection_validate_reason_score,
      audit_event ''reflection'' ''cycle_discussion_rejected'' ''info'' (Some ''completed'') ''forbidden'' ''forbidden'' reflection_validate_reason,
      audit_event ''reflection'' ''cycle_completed'' ''info'' (Some ''completed'') ''forbidden'' ''forbidden'' reflection_validate_completed,
      audit_event ''reflection'' ''relevance_gate_fallback'' ''warning'' (Some ''error'') ''forbidden'' ''forbidden'' validate_no_metadata,
      audit_event ''reflection'' ''candidate_generation_skipped'' ''debug'' (Some ''skipped'') ''forbidden'' ''forbidden'' reflection_validate_reason,
      audit_event ''reflection'' ''cycle_no_candidates'' ''info'' (Some ''completed'') ''forbidden'' ''forbidden'' reflection_validate_reason,
      audit_event ''reflection'' ''candidate_generation_failed'' ''warning'' (Some ''error'') ''required'' ''forbidden'' validate_no_metadata,
      audit_event ''reflection'' ''schedule_state_corrupt'' ''warning'' (Some ''degraded'') ''required'' ''forbidden'' reflection_validate_record,
      audit_event ''reflection'' ''trace_recording_failed'' ''error'' (Some ''failed'') ''required'' ''forbidden'' reflection_validate_reflection_id,
      audit_event ''reflection'' ''organizer_failed'' ''error'' (Some ''failed'') ''required'' ''forbidden'' validate_no_metadata,
      audit_event ''reflection'' ''organizer_completed'' ''info'' (Some ''completed'') ''forbidden'' ''forbidden'' reflection_validate_organization]"

definition reflection_messages :: "(string \<times> string) list" where
  "reflection_messages =
     []"

definition delivery_definitions :: "AuditEventDefinition list" where
  "delivery_definitions =
     [audit_event ''delivery'' ''item_delivered'' ''info'' (Some ''delivered'') ''forbidden'' ''forbidden'' delivery_entry_attempt,
      audit_event ''delivery'' ''email_dry_run'' ''debug'' (Some ''simulated'') ''forbidden'' ''forbidden'' delivery_entry_attempt,
      audit_event ''delivery'' ''email_no_config'' ''warning'' (Some ''failed'') ''required'' ''forbidden'' delivery_entry_attempt,
      audit_event ''delivery'' ''email_failed'' ''warning'' (Some ''failed'') ''required'' ''forbidden'' delivery_entry_attempt,
      audit_event ''delivery'' ''macos_dry_run'' ''debug'' (Some ''simulated'') ''forbidden'' ''forbidden'' delivery_entry_attempt,
      audit_event ''delivery'' ''macos_unavailable'' ''info'' (Some ''unavailable'') ''forbidden'' ''forbidden'' delivery_entry_attempt,
      audit_event ''delivery'' ''macos_failed'' ''warning'' (Some ''failed'') ''required'' ''forbidden'' delivery_entry_attempt]"

definition delivery_messages :: "(string \<times> string) list" where
  "delivery_messages =
     [(''item_delivered'', ''Inbox item delivered''),
      (''email_dry_run'', ''Email delivery simulated''),
      (''email_no_config'', ''Email delivery skipped without configuration''),
      (''email_failed'', ''Email delivery failed''),
      (''macos_dry_run'', ''macOS notification delivery simulated''),
      (''macos_unavailable'', ''macOS notification delivery unavailable''),
      (''macos_failed'', ''macOS notification delivery failed'')]"

definition storage_definitions :: "AuditEventDefinition list" where
  "storage_definitions =
     [audit_event ''storage'' ''backend_close_failed'' ''warning'' (Some ''degraded'') ''required'' ''forbidden'' storage_backend_close,
      audit_event ''storage'' ''cli_cleanup_failed'' ''error'' (Some ''error'') ''required'' ''forbidden'' storage_cleanup_failure_records]"

definition storage_messages :: "(string \<times> string) list" where
  "storage_messages =
     [(''backend_close_failed'', ''Application storage backend could not be closed''),
      (''cli_cleanup_failed'', ''CLI storage cleanup failed'')]"

definition lifecycle_definitions :: "AuditEventDefinition list" where
  "lifecycle_definitions =
     [audit_event ''daemon'' ''instance_lock_contended'' ''warning'' (Some ''skipped'') ''required'' ''forbidden'' validate_no_metadata,
      audit_event ''daemon'' ''started'' ''info'' None ''forbidden'' ''forbidden'' validate_no_metadata,
      audit_event ''daemon'' ''stopped'' ''info'' None ''forbidden'' ''forbidden'' validate_no_metadata,
      audit_event ''daemon'' ''runtime_metadata_recovered'' ''info'' (Some ''recovered'') ''forbidden'' ''forbidden'' lifecycle_validate_recovered_metadata,
      audit_event ''daemon'' ''start_requested'' ''info'' None ''forbidden'' ''forbidden'' validate_no_metadata,
      audit_event ''daemon'' ''start_completed'' ''info'' (Some ''ready'') ''forbidden'' ''forbidden'' lifecycle_validate_start_completed_metadata,
      audit_event ''daemon'' ''start_failed'' ''error'' (Some ''error'') ''required'' ''forbidden'' lifecycle_validate_start_failed_metadata,
      audit_event ''daemon'' ''stop_requested'' ''info'' None ''forbidden'' ''forbidden'' validate_no_metadata,
      audit_event ''daemon'' ''stop_completed'' ''info'' (Some ''stopped'') ''forbidden'' ''forbidden'' lifecycle_validate_stop_completed_metadata,
      audit_event ''daemon'' ''stop_failed'' ''error'' (Some ''error'') ''required'' ''forbidden'' lifecycle_validate_stop_failed_metadata,
      audit_event ''daemon'' ''restart_requested'' ''info'' None ''forbidden'' ''forbidden'' validate_no_metadata,
      audit_event ''daemon'' ''restart_completed'' ''info'' (Some ''ready'') ''forbidden'' ''forbidden'' lifecycle_validate_restart_completed_metadata,
      audit_event ''daemon'' ''restart_failed'' ''error'' (Some ''error'') ''required'' ''forbidden'' lifecycle_validate_restart_failed_metadata]"

definition lifecycle_messages :: "(string \<times> string) list" where
  "lifecycle_messages =
     [(''instance_lock_contended'', ''daemon start rejected because this project already has an owner''),
      (''started'', ''daemon started''),
      (''stopped'', ''daemon stopped''),
      (''runtime_metadata_recovered'', ''stale daemon runtime metadata recovered''),
      (''start_requested'', ''daemon start requested''),
      (''start_completed'', ''daemon start completed''),
      (''start_failed'', ''daemon start failed''),
      (''stop_requested'', ''daemon stop requested''),
      (''stop_completed'', ''daemon stop completed''),
      (''stop_failed'', ''daemon stop failed''),
      (''restart_requested'', ''daemon restart requested''),
      (''restart_completed'', ''daemon restart completed''),
      (''restart_failed'', ''daemon restart failed'')]"

definition transport_definitions :: "AuditEventDefinition list" where
  "transport_definitions =
     [audit_event ''daemon'' ''request_transport_failed'' ''warning'' (Some ''error'') ''required'' ''forbidden'' validate_no_metadata,
      audit_event ''daemon'' ''request_failed'' ''error'' (Some ''error'') ''required'' ''forbidden'' validate_no_metadata,
      audit_event ''daemon'' ''response_encode_failed'' ''warning'' (Some ''error'') ''required'' ''forbidden'' transport_response_encode,
      audit_event ''daemon'' ''response_delivery_failed'' ''warning'' (Some ''error'') ''required'' ''forbidden'' transport_response_delivery]"

definition transport_messages :: "(string \<times> string) list" where
  "transport_messages =
     [(''request_transport_failed'', ''Daemon request transport failed''),
      (''request_failed'', ''Daemon request handling failed''),
      (''response_encode_failed'', ''Daemon response could not be encoded''),
      (''response_delivery_failed'', ''Daemon response could not be delivered'')]"

definition request_definitions :: "AuditEventDefinition list" where
  "request_definitions =
     [audit_event ''daemon'' ''request_rejected'' ''warning'' (Some ''error'') ''required'' ''forbidden'' request_request_rejected,
      audit_event ''daemon'' ''chat_turn_failed'' ''error'' (Some ''error'') ''required'' ''forbidden'' validate_no_metadata,
      audit_event ''daemon'' ''chat_turn_completed'' ''info'' (Some ''ok'') ''forbidden'' ''required'' request_chat_completed,
      audit_event ''daemon'' ''shutdown_requested'' ''info'' (Some ''accepted'') ''forbidden'' ''forbidden'' validate_no_metadata]"

definition request_messages :: "(string \<times> string) list" where
  "request_messages =
     [(''request_rejected'', ''Daemon request payload rejected''),
      (''chat_turn_failed'', ''Daemon chat turn failed''),
      (''chat_turn_completed'', ''Daemon chat turn completed''),
      (''shutdown_requested'', ''Daemon shutdown requested'')]"

definition operations_definitions :: "AuditEventDefinition list" where
  "operations_definitions =
     [audit_event ''daemon'' ''shutdown_cleanup_failed'' ''error'' (Some ''error'') ''required'' ''forbidden'' operations_shutdown_cleanup]"

definition operations_messages :: "(string \<times> string) list" where
  "operations_messages =
     [(''shutdown_cleanup_failed'', ''Daemon lifecycle cleanup failed'')]"

text \<open>All of them, by the name of the catalog.\<close>

definition domain_audits :: "(string \<times> AuditEventDefinition list \<times> (string \<times> string) list) list" where
  "domain_audits =
     [(''REASON_AUDIT'', reason_definitions, reason_messages), (''MEMORY_AUDIT'', memory_definitions, memory_messages),
      (''PERSONA_AUDIT'', persona_definitions, persona_messages), (''CHAT_AUDIT'', chat_definitions, chat_messages),
      (''REFLECTION_AUDIT'', reflection_definitions, reflection_messages), (''DELIVERY_AUDIT'', delivery_definitions, delivery_messages),
      (''STORAGE_OPERATIONS_AUDIT'', storage_definitions, storage_messages),
      (''DAEMON_LIFECYCLE_AUDIT'', lifecycle_definitions, lifecycle_messages),
      (''DAEMON_TRANSPORT_AUDIT'', transport_definitions, transport_messages),
      (''DAEMON_REQUEST_AUDIT'', request_definitions, request_messages),
      (''DAEMON_OPERATIONS_AUDIT'', operations_definitions, operations_messages),
      (''AGENT_ENDPOINT_AUDIT'', endpoint_definitions, endpoint_messages)]"

definition all_definitions :: "AuditEventDefinition list" where
  "all_definitions = concat (map (\<lambda>(name, ds, ms). ds) domain_audits)"

section \<open>A contract answers with its own error\<close>

text \<open>
  \<open>safe_on A r\<close>: on metadata that have the fields \<open>A\<close>, the reader or check \<open>r\<close> raises nothing but the error
  of contracts.
\<close>

definition contract_error :: "exn \<Rightarrow> bool" where
  "contract_error e \<longleftrightarrow> (\<exists>x. e = AuditSchemaError x)"

definition safe_on :: "string set \<Rightarrow> (pydict \<Rightarrow> 'a result) \<Rightarrow> bool" where
  "safe_on A r \<longleftrightarrow> (\<forall>m e. A \<subseteq> set (map fst m) \<longrightarrow> r m = Inl e \<longrightarrow> contract_error e)"

lemma safe_onI: "(\<And>m e. A \<subseteq> set (map fst m) \<Longrightarrow> r m = Inl e \<Longrightarrow> contract_error e) \<Longrightarrow> safe_on A r"
  by (simp add: safe_on_def)

lemma safe_bind: "safe_on A r \<Longrightarrow> (\<And>x. safe_on A (k x)) \<Longrightarrow> safe_on A (\<lambda>m. bindE (r m) (\<lambda>x. k x m))"
  unfolding safe_on_def by (auto simp: result_simps) 

lemma safe_field: "f \<in> A \<Longrightarrow> safe_on A (\<lambda>m. field m f)"
proof (rule safe_onI)
  fix m e
  assume "f \<in> A" "A \<subseteq> set (map fst m)" "field m f = Inl e"
  then have "map_of m f \<noteq> None" by (auto simp: map_of_eq_None_iff)
  then show "contract_error e" using \<open>field m f = Inl e\<close> by (auto simp: field_def split: option.splits)
qed

lemma safe_schema: "safe_on A (\<lambda>m. schema x)"
  by (simp add: safe_on_def schema_def contract_error_def)

lemma safe_ok: "safe_on A (\<lambda>m. Inr x)"
  by (simp add: safe_on_def)

lemma safe_require: "safe_on A (\<lambda>m. require b x)"
  by (simp add: safe_on_def require_def raise_if_def contract_error_def)

lemma safe_if: "safe_on A r \<Longrightarrow> safe_on A s \<Longrightarrow> safe_on A (\<lambda>m. if b then r m else s m)"
  by (simp add: safe_on_def)

named_theorems contract_rules

lemmas [contract_rules] = safe_field safe_schema safe_ok safe_require

lemma safe_string [contract_rules]: "f \<in> A \<Longrightarrow> safe_on A (audit_string f)"
  unfolding audit_string_def
  by (rule safe_bind [OF safe_field], assumption) (auto split: pyobj.split intro: safe_schema safe_ok)

lemma safe_non_blank [contract_rules]: "f \<in> A \<Longrightarrow> safe_on A (audit_non_blank f)"
  unfolding audit_non_blank_def
  by (rule safe_bind [OF safe_field], assumption) (auto split: pyobj.split intro: safe_schema safe_ok)

lemma safe_choice [contract_rules]: "f \<in> A \<Longrightarrow> safe_on A (audit_choice f xs)"
  unfolding audit_choice_def
  by (rule safe_bind [OF safe_string], assumption) (auto intro: safe_schema safe_ok)

lemma safe_integer [contract_rules]: "f \<in> A \<Longrightarrow> safe_on A (audit_integer n f)"
  unfolding audit_integer_def
  by (rule safe_bind [OF safe_field], assumption) (auto split: pyobj.split intro: safe_schema safe_ok)

lemma safe_any_integer [contract_rules]: "f \<in> A \<Longrightarrow> safe_on A (audit_any_integer f)"
  unfolding audit_any_integer_def
  by (rule safe_bind [OF safe_field], assumption) (auto split: pyobj.split intro: safe_schema safe_ok)

lemma safe_bool [contract_rules]: "f \<in> A \<Longrightarrow> safe_on A (audit_bool f)"
  unfolding audit_bool_def
  by (rule safe_bind [OF safe_field], assumption) (auto split: pyobj.split intro: safe_schema safe_ok)

lemma safe_phase [contract_rules]: "f \<in> A \<Longrightarrow> safe_on A (audit_phase f)"
  unfolding audit_phase_def by (rule safe_choice)

lemma safe_null_or [contract_rules]: "f \<in> A \<Longrightarrow> safe_on A (reader f) \<Longrightarrow> safe_on A (audit_null_or reader f)"
  unfolding audit_null_or_def
  by (intro safe_bind safe_field safe_if safe_ok)

lemma safe_reads [contract_rules]: "safe_on A r \<Longrightarrow> safe_on A (reads r)"
  unfolding reads_def by (rule safe_bind) (auto intro: safe_ok)

lemma safe_all_of: "\<forall>c \<in> set cs. safe_on A c \<Longrightarrow> safe_on A (all_of cs)"
proof (induction cs)
  case Nil
  then show ?case by (simp add: safe_on_def)
next
  case (Cons c cs)
  have "all_of (c # cs) = (\<lambda>m. bindE (c m) (\<lambda>_. all_of cs m))" by (rule ext) simp
  then show ?case using Cons by (auto intro: safe_bind)
qed

lemma safe_each_string [contract_rules]: "set fs \<subseteq> A \<Longrightarrow> safe_on A (each_string fs)"
  unfolding each_string_def by (rule safe_all_of) (auto intro: contract_rules)

lemma safe_each_integer [contract_rules]: "set fs \<subseteq> A \<Longrightarrow> safe_on A (each_integer fs)"
  unfolding each_integer_def by (rule safe_all_of) (auto intro: contract_rules)

lemma safe_pid [contract_rules]: "''pid'' \<in> A \<Longrightarrow> safe_on A audit_pid"
  unfolding audit_pid_def by (rule safe_bind) (auto intro: contract_rules)

lemma safe_status_change [contract_rules]: "f \<in> A \<Longrightarrow> g \<in> A \<Longrightarrow> safe_on A (status_change f g)"
  unfolding status_change_def by (intro safe_bind contract_rules)

lemma safe_score [contract_rules]: "f \<in> A \<Longrightarrow> safe_on A (audit_score f)"
  unfolding audit_score_def
  by (rule safe_bind [OF safe_field], assumption) (auto split: pyobj.split pyfloat.split intro: safe_schema safe_require)

lemma safe_case_object [contract_rules]:
  "(\<And>xs. safe_on A (\<lambda>m. g xs)) \<Longrightarrow> safe_on A (\<lambda>m. case v of PList xs \<Rightarrow> g xs | _ \<Rightarrow> schema x)"
  by (cases v) (auto intro: safe_schema)

text \<open>A contract begins by demanding its fields; what follows finds them.\<close>

definition contract :: "(pydict \<Rightarrow> unit result) \<Rightarrow> bool" where
  "contract c \<longleftrightarrow> (\<forall>m e. c m = Inl e \<longrightarrow> contract_error e)"

lemma contract_exact: "\<forall>c \<in> set cs. safe_on (set fs) c \<Longrightarrow> contract (all_of (require_exact_metadata fs # cs))"
proof -
  assume "\<forall>c \<in> set cs. safe_on (set fs) c"
  then have rest: "safe_on (set fs) (all_of cs)" by (rule safe_all_of)
  show ?thesis
    unfolding contract_def
  proof (intro allI impI)
    fix m e
    assume run: "all_of (require_exact_metadata fs # cs) m = Inl e"
    show "contract_error e"
    proof (cases "set (map fst m) = set fs")
      case True
      then have "all_of cs m = Inl e" using run by (simp add: require_exact_metadata_eq raise_if_def)
      then show ?thesis using rest True unfolding safe_on_def by blast
    next
      case False
      then show ?thesis using run by (auto simp: require_exact_metadata_eq raise_if_def contract_error_def)
    qed
  qed
qed

lemmas contract_defs =
    chat_cleanup_def chat_completion_def chat_conversation_def chat_endpoint_def chat_endpoint_index_def
    chat_final_response_def chat_prompt_def chat_turn_retry_def delivery_entry_attempt_def
    lifecycle_validate_recovered_metadata_def lifecycle_validate_restart_completed_metadata_def
    lifecycle_validate_start_completed_metadata_def lifecycle_validate_start_failed_metadata_def
    lifecycle_validate_stop_completed_metadata_def lifecycle_validate_stop_failed_metadata_def
    memory_auto_accept_failed_def memory_candidate_created_def memory_candidate_targeted_def
    memory_curator_completed_def memory_curator_contended_def memory_deferred_def memory_optimizer_candidate_def
    memory_optimizer_completed_def memory_optimizer_deferred_def memory_trace_failed_def
    operations_shutdown_cleanup_def persona_completion_failed_def persona_discussion_def
    persona_discussion_degraded_def persona_discussion_step_def persona_host_decision_def
    persona_interactive_command_failed_def persona_summary_def persona_trace_failed_def
    reason_advance_completed_def reason_attempts_def reason_chunk_identity_def reason_composed_def
    reason_composition_started_def reason_drained_def reason_identity_def reason_output_mode_def
    reason_planned_def reason_proposal_def reason_reconciled_def reason_retry_def reason_scheduler_completed_def
    reason_terminal_recommendation_def reason_thread_identity_def reason_thread_status_def
    reason_trace_failure_def reflection_validate_completed_def reflection_validate_organization_def
    reflection_validate_reason_def reflection_validate_reason_score_def reflection_validate_record_def
    reflection_validate_reflection_id_def request_chat_completed_def request_request_rejected_def
    storage_backend_close_def storage_cleanup_failure_records_def transport_response_delivery_def
    transport_response_encode_def validate_endpoint_metadata_def

lemma safe_start_failure: "contract (validate_start_failure_fields stage)"
proof (cases stage)
  case None
  then show ?thesis unfolding validate_start_failure_fields_def
    by (intro contract_exact) (auto intro!: contract_rules)
next
  case (Some x)
  then show ?thesis unfolding validate_start_failure_fields_def
    by (intro contract_exact) (auto intro!: contract_rules safe_bind)
qed

lemma safe_stop_failure: "contract (validate_stop_failure_fields stage)"
proof (cases stage)
  case None
  then show ?thesis unfolding validate_stop_failure_fields_def
    by (intro contract_exact) (auto intro!: contract_rules)
next
  case (Some x)
  then show ?thesis unfolding validate_stop_failure_fields_def
    by (intro contract_exact) (auto intro!: contract_rules safe_bind)
qed

lemma safe_transition: "contract (validate_transition_metadata outcomes to_phase)"
  unfolding validate_transition_metadata_def
  by (intro contract_exact) (auto intro!: contract_rules safe_bind)

lemma safe_source_range [contract_rules]: "{''source_start_index'', ''source_end_index''} \<subseteq> A \<Longrightarrow> safe_on A source_range"
  unfolding source_range_def by (intro safe_bind contract_rules) auto

lemma safe_attempt_bounds [contract_rules]: "{''attempt'', ''max_attempts''} \<subseteq> A \<Longrightarrow> safe_on A attempt_bounds"
  unfolding attempt_bounds_def by (intro safe_bind contract_rules) auto

lemma number_fields_error:
  "require_exact_fields expected (map (\<lambda>(i, _). PInt i) d) = Inl e \<Longrightarrow> contract_error e"
  by (auto simp: require_exact_fields_def sortable_def list_all_iff contract_error_def split: if_splits)

lemma failure_record_error: "failure_record v = Inl e \<Longrightarrow> contract_error e"
proof -
  have "contract (all_of [require_exact_metadata [''step'', ''error''], reads (audit_non_blank ''step''), reads (audit_non_blank ''error'')])"
    by (intro contract_exact) (auto intro!: contract_rules)
  then show "failure_record v = Inl e \<Longrightarrow> contract_error e"
    unfolding failure_record_def contract_def
    by (cases v) (auto simp: schema_def contract_error_def bindE_eq_Inl dest!: number_fields_error simp del: all_of.simps)
qed

lemma safe_failures [contract_rules]: "safe_on A (\<lambda>m. each_failure xs)"
proof (rule safe_onI)
  fix m e
  assume "each_failure xs = Inl e"
  then show "contract_error e"
    by (induction xs) (auto simp: result_simps dest: failure_record_error)
qed

lemma contract_activity: "contract chat_activity"
proof -
  have one: "contract (all_of [require_exact_metadata [''stage'', ''error_kind'', ''has_subscription'', ''failure_phase'', ''retryable'', ''request_may_have_completed''],
      reads (audit_choice ''stage'' [''open'', ''poll'', ''drain'', ''close'']), reads (audit_choice ''error_kind'' [''connection'', ''application'']),
      reads (audit_bool ''has_subscription''), each_string [''failure_phase''], reads (audit_bool ''retryable''),
      reads (audit_bool ''request_may_have_completed'')])"
    by (intro contract_exact) (auto intro!: contract_rules)
  have two: "contract (all_of [require_exact_metadata [''stage'', ''error_kind'', ''has_subscription''],
      reads (audit_choice ''stage'' [''open'', ''poll'', ''drain'', ''close'']), reads (audit_choice ''error_kind'' [''connection'', ''application'']),
      reads (audit_bool ''has_subscription'')])"
    by (intro contract_exact) (auto intro!: contract_rules)
  show ?thesis
    unfolding contract_def
  proof (intro allI impI)
    fix m e
    assume run: "chat_activity m = Inl e"
    show "contract_error e"
    proof (cases "dict_get m ''error_kind'' = PStr ''connection''")
      case True
      then show ?thesis using run one unfolding contract_def chat_activity_def Let_def by (simp only: if_True append.simps refl)
    next
      case False
      then show ?thesis using run two unfolding contract_def chat_activity_def Let_def
        by (simp only: if_False append_Nil2)
    qed
  qed
qed

lemma contract_restart: "contract lifecycle_validate_restart_failed_metadata"
  using safe_start_failure [of "Some ''start''"] safe_stop_failure [of "Some ''stop''"]
  by (auto simp: contract_def lifecycle_validate_restart_failed_metadata_def schema_def contract_error_def split: if_splits)


lemma safe_checked [contract_rules]: "safe_on A r \<Longrightarrow> safe_on A (\<lambda>m. bindE (r m) (\<lambda>n. require (P n) x))"
  by (rule safe_bind) (auto intro: safe_require)

lemma safe_composition [contract_rules]:
  "f \<in> A \<Longrightarrow> safe_on A (\<lambda>m. bindE (field m f) (\<lambda>v. case v of
     PInt i \<Rightarrow> require (P i) x | PStr s \<Rightarrow> require (Q s) y | _ \<Rightarrow> schema z))"
  by (rule safe_bind [OF safe_field], assumption) (auto split: pyobj.split intro: safe_schema safe_require)

lemma safe_steps [contract_rules]:
  "f \<in> A \<Longrightarrow> safe_on A (\<lambda>m. bindE (field m f) (\<lambda>v. case v of PList xs \<Rightarrow> require (P xs) x | _ \<Rightarrow> schema z))"
  by (rule safe_bind [OF safe_field], assumption) (auto split: pyobj.split intro: safe_schema safe_require)

lemma safe_failure_list [contract_rules]:
  "f \<in> A \<Longrightarrow> safe_on A (\<lambda>m. bindE (field m f) (\<lambda>v. case v of
     PList xs \<Rightarrow> bindE (require (xs \<noteq> []) x) (\<lambda>_. each_failure xs) | _ \<Rightarrow> schema z))"
  by (rule safe_bind [OF safe_field], assumption)
    (auto split: pyobj.split intro: safe_schema safe_bind [OF safe_require] safe_failures)

lemma contract_no_metadata: "contract validate_no_metadata"
  by (simp add: contract_def validate_no_metadata_def require_exact_metadata_eq raise_if_def contract_error_def)

lemma contract_restart_completed: "contract lifecycle_validate_restart_completed_metadata"
  unfolding lifecycle_validate_restart_completed_metadata_def
  by (intro contract_exact) (auto intro!: contract_rules safe_bind)

lemma contract_plain:
  "contract reason_identity" "contract reason_thread_identity" "contract reason_proposal" "contract reason_thread_status"
  "contract reason_advance_completed" "contract reason_terminal_recommendation" "contract reason_trace_failure"
  "contract reason_scheduler_completed" "contract reason_chunk_identity" "contract reason_planned" "contract reason_output_mode"
  "contract reason_composed" "contract reason_drained" "contract reason_composition_started" "contract reason_attempts"
  "contract reason_retry" "contract reason_reconciled"
  "contract memory_deferred" "contract memory_curator_contended" "contract memory_curator_completed"
  "contract memory_candidate_created" "contract memory_candidate_targeted" "contract memory_optimizer_deferred"
  "contract memory_optimizer_completed" "contract memory_optimizer_candidate" "contract memory_auto_accept_failed"
  "contract memory_trace_failed"
  "contract persona_summary" "contract persona_host_decision" "contract persona_discussion_step" "contract persona_discussion"
  "contract persona_discussion_degraded" "contract persona_completion_failed" "contract persona_trace_failed"
  "contract persona_interactive_command_failed"
  "contract chat_endpoint" "contract chat_endpoint_index" "contract chat_final_response" "contract chat_conversation"
  "contract chat_completion" "contract chat_prompt" "contract chat_turn_retry" "contract chat_cleanup"
  "contract reflection_validate_reason" "contract reflection_validate_reason_score" "contract reflection_validate_completed"
  "contract reflection_validate_record" "contract reflection_validate_reflection_id" "contract reflection_validate_organization"
  "contract delivery_entry_attempt" "contract storage_backend_close" "contract storage_cleanup_failure_records"
  "contract operations_shutdown_cleanup" "contract lifecycle_validate_recovered_metadata"
  "contract request_request_rejected" "contract request_chat_completed" "contract validate_endpoint_metadata"
  unfolding contract_defs
  by ((intro contract_exact, auto intro!: contract_rules)+)

lemma contract_lifecycle:
  "contract lifecycle_validate_start_completed_metadata" "contract lifecycle_validate_stop_completed_metadata"
  "contract lifecycle_validate_start_failed_metadata" "contract lifecycle_validate_stop_failed_metadata"
  unfolding lifecycle_validate_start_completed_metadata_def lifecycle_validate_stop_completed_metadata_def
    lifecycle_validate_start_failed_metadata_def lifecycle_validate_stop_failed_metadata_def
  by (rule safe_transition safe_start_failure safe_stop_failure)+

text \<open>The two contracts of a response are the ones that may raise something else.\<close>

definition unhashable_status :: "pydict \<Rightarrow> exn \<Rightarrow> bool" where
  "unhashable_status m e \<longleftrightarrow> e = TypeError ''unhashable type'' \<and> \<not> hashable (dict_get m ''response_status'')"

definition response_contract :: "(pydict \<Rightarrow> unit result) \<Rightarrow> bool" where
  "response_contract c \<longleftrightarrow> (\<forall>m e. c m = Inl e \<longrightarrow> contract_error e \<or> unhashable_status m e)"

lemma response_from_contract: "contract c \<Longrightarrow> response_contract c"
  by (simp add: contract_def response_contract_def)

lemma safe_response_status:
  "''response_status'' \<in> A \<Longrightarrow> A \<subseteq> set (map fst m) \<Longrightarrow> response_status m = Inl e \<Longrightarrow>
   contract_error e \<or> unhashable_status m e"
proof -
  assume asm: "''response_status'' \<in> A" "A \<subseteq> set (map fst m)" "response_status m = Inl e"
  then have "map_of m ''response_status'' \<noteq> None" by (auto simp: map_of_eq_None_iff)
  then show ?thesis using asm(3)
    by (auto simp: response_status_def field_def dict_get_def require_def raise_if_def contract_error_def
        unhashable_status_def split: if_splits)
qed

lemma exact_split:
  "all_of (require_exact_metadata fs # cs) m = Inl e \<Longrightarrow>
   contract_error e \<or> set fs = set (map fst m) \<and> all_of cs m = Inl e"
  by (auto simp: require_exact_metadata_eq raise_if_def contract_error_def split: if_splits)

lemma response_contracts: "response_contract transport_response_encode" "response_contract transport_response_delivery"
proof -
  have status: "contract_error e \<or> unhashable_status m e"
    if "bindE (response_status m) (\<lambda>_. k m) = Inl e" "safe_on A k" "A = set (map fst m)" "''response_status'' \<in> A" for k A m e
  proof (cases "response_status m")
    case (Inl e')
    then show ?thesis using that safe_response_status [of A m e'] by simp
  next
    case (Inr u)
    then have "k m = Inl e" using that(1) by simp
    then show ?thesis using that(2,3) unfolding safe_on_def by blast
  qed
  show "response_contract transport_response_encode"
    unfolding response_contract_def transport_response_encode_def
  proof (intro allI impI)
    fix m e
    assume run: "all_of [require_exact_metadata [''response_status''], response_status] m = Inl e"
    show "contract_error e \<or> unhashable_status m e"
      using exact_split [OF run]
    proof (elim disjE)
      assume rest: "set [''response_status''] = set (map fst m) \<and> all_of [response_status] m = Inl e"
      then have "''response_status'' \<in> set (map fst m)" by (metis list.set_intros(1))
      moreover have "safe_on (set (map fst m)) (all_of [])" by (rule safe_all_of) simp
      ultimately show ?thesis using status [of m "all_of []" e "set (map fst m)"] rest by simp
    qed simp
  qed
  show "response_contract transport_response_delivery"
    unfolding response_contract_def transport_response_delivery_def
  proof (intro allI impI)
    fix m e
    assume run: "all_of [require_exact_metadata [''response_status'', ''fallback''], response_status, reads (audit_bool ''fallback'')] m = Inl e"
    have tail: "safe_on {''response_status'', ''fallback''} (all_of [reads (audit_bool ''fallback'')])"
      by (rule safe_all_of) (auto intro: contract_rules)
    show "contract_error e \<or> unhashable_status m e"
      using exact_split [OF run]
    proof (elim disjE)
      assume rest: "set [''response_status'', ''fallback''] = set (map fst m) \<and>
        all_of [response_status, reads (audit_bool ''fallback'')] m = Inl e"
      then have "''response_status'' \<in> set (map fst m)" by (metis list.set_intros(1))
      moreover have "safe_on (set (map fst m)) (all_of [reads (audit_bool ''fallback'')])" using tail rest by simp
      ultimately show ?thesis using status [of m "all_of [reads (audit_bool ''fallback'')]" e "set (map fst m)"] rest
        by (simp only: all_of.simps)
    qed simp
  qed
qed

lemma ad_validator_event [simp]: "ad_validator (audit_event c event level status error duration check) = check"
  by (simp add: audit_event_def)

lemmas table_defs = reason_definitions_def memory_definitions_def persona_definitions_def
  chat_definitions_def reflection_definitions_def delivery_definitions_def storage_definitions_def lifecycle_definitions_def
  transport_definitions_def request_definitions_def operations_definitions_def endpoint_definitions_def
  agent_endpoint_components_def

lemmas all_contracts = contract_plain contract_lifecycle contract_no_metadata contract_activity contract_restart
  contract_restart_completed

lemma table_contracts:
  "list_all (\<lambda>d. contract (ad_validator d)) reason_definitions" "list_all (\<lambda>d. contract (ad_validator d)) memory_definitions"
  "list_all (\<lambda>d. contract (ad_validator d)) persona_definitions" "list_all (\<lambda>d. contract (ad_validator d)) chat_definitions"
  "list_all (\<lambda>d. contract (ad_validator d)) reflection_definitions" "list_all (\<lambda>d. contract (ad_validator d)) delivery_definitions"
  "list_all (\<lambda>d. contract (ad_validator d)) storage_definitions" "list_all (\<lambda>d. contract (ad_validator d)) lifecycle_definitions"
  "list_all (\<lambda>d. contract (ad_validator d)) request_definitions" "list_all (\<lambda>d. contract (ad_validator d)) operations_definitions"
  "list_all (\<lambda>d. contract (ad_validator d)) endpoint_definitions"
  by (simp_all only: table_defs list.pred_inject ad_validator_event all_contracts simp_thms list.map concat.simps append.simps)

lemma transport_contracts: "list_all (\<lambda>d. response_contract (ad_validator d)) transport_definitions"
  by (simp only: table_defs list.pred_inject ad_validator_event response_contracts simp_thms
      all_contracts [THEN response_from_contract])

lemma domain_contracts: "list_all (\<lambda>d. response_contract (ad_validator d)) all_definitions"
proof -
  have weaken: "list_all (\<lambda>d. contract (ad_validator d)) ds \<Longrightarrow> list_all (\<lambda>d. response_contract (ad_validator d)) ds" for ds
    by (auto simp: list_all_iff response_from_contract)
  show ?thesis
    unfolding all_definitions_def domain_audits_def
    by (simp add: table_contracts [THEN weaken] transport_contracts)
qed

text \<open>The two contracts of a response come from two events of the transport.\<close>

definition reads_response_status :: "AuditEventDefinition \<Rightarrow> bool" where
  "reads_response_status d \<longleftrightarrow>
     ad_component d = ''daemon'' \<and> ad_event d \<in> {''response_encode_failed'', ''response_delivery_failed''}"

lemma contract_or_response: "list_all (\<lambda>d. contract (ad_validator d) \<or> reads_response_status d) all_definitions"
proof -
  have weaken: "list_all (\<lambda>d. contract (ad_validator d)) ds \<Longrightarrow> list_all (\<lambda>d. contract (ad_validator d) \<or> reads_response_status d) ds" for ds
    by (auto simp: list_all_iff)
  have "list_all (\<lambda>d. contract (ad_validator d) \<or> reads_response_status d) transport_definitions"
    by (simp add: transport_definitions_def reads_response_status_def audit_event_def contract_no_metadata)
  then show ?thesis
    unfolding all_definitions_def domain_audits_def by (simp add: table_contracts [THEN weaken])
qed

text \<open>
  C40: Every event that a subsystem declares answers a record that it does not accept with the error of the
  audit contracts, whatever level, status, error, duration and metadata are given: the checks of metadata
  read no field that may be missing, compare no values that cannot be compared, and look up no key. There is
  one exception, and only two events have it: the status of a response that could not be encoded or delivered
  is looked up in a set, which raises \<open>TypeError\<close> when it is a value without a hash. Metadata are mappings
  whose keys are strings, on every level (the annotation \<open>Mapping[str, object]\<close>): the message of the error
  sorts the differing keys, and keys of several types cannot be sorted (\<open>mixed_fields_escape\<close>).
\<close>

theorem audits_reject_with_their_error:
  assumes "d \<in> set all_definitions"
    and "audit_validate d level status error metadata duration = Inl e"
  shows "(\<exists>m. e = AuditSchemaError m)
    \<or> reads_response_status d \<and> e = TypeError ''unhashable type'' \<and> \<not> hashable (dict_get metadata ''response_status'')"
proof -
  have own: "response_contract (ad_validator d)" "contract (ad_validator d) \<or> reads_response_status d"
    using domain_contracts contract_or_response assms(1) by (simp_all add: list_all_iff)
  have "contract_error e \<or> ad_validator d metadata = Inl e"
    using assms(2) by (auto simp: audit_validate_def raise_if_def contract_error_def split: if_splits)
  with own show ?thesis
    by (auto simp: response_contract_def contract_def contract_error_def unhashable_status_def)
qed

theorem audits_reject_with_their_error_witness:
  "\<exists>m. audit_validate
     (audit_event ''daemon'' ''runtime_metadata_recovered'' ''info'' (Some ''recovered'') ''forbidden'' ''forbidden''
        lifecycle_validate_recovered_metadata)
     ''info'' (Some ''recovered'') None [(''socket'', PBool True)] None = Inl (AuditSchemaError m)"
proof -
  let ?d = "audit_event ''daemon'' ''runtime_metadata_recovered'' ''info'' (Some ''recovered'') ''forbidden'' ''forbidden''
        lifecycle_validate_recovered_metadata"
  have member: "?d \<in> set all_definitions"
    by (simp add: all_definitions_def domain_audits_def lifecycle_definitions_def)
  have fails: "\<exists>e. audit_validate ?d ''info'' (Some ''recovered'') None [(''socket'', PBool True)] None = Inl e"
    by (simp add: audit_validate_def audit_event_def raise_if_def lifecycle_validate_recovered_metadata_def require_exact_metadata_eq)
  have "\<not> reads_response_status ?d" by (simp add: reads_response_status_def audit_event_def)
  then show ?thesis using fails audits_reject_with_their_error [OF member] by blast
qed

section \<open>The catalogs can be built\<close>

definition well_declared :: "AuditEventDefinition \<Rightarrow> bool" where
  "well_declared d \<longleftrightarrow> (case make_audit_definition d of Inl _ \<Rightarrow> False | Inr _ \<Rightarrow> True)"

lemma well_declared_ok: "well_declared d \<Longrightarrow> make_audit_definition d = Inr d"
  by (auto simp: well_declared_def make_audit_definition_def raise_if_def result_simps split: if_splits sum.splits)

definition contract_key :: "AuditEventDefinition \<Rightarrow> string \<times> string" where
  "contract_key d = (ad_event d, ad_component d)"

lemma contract_key_event [simp]: "contract_key (audit_event c event level status error duration check) = (event, c)"
  by (simp add: audit_event_def contract_key_def)

lemma keys_distinct: "distinct (map contract_key ds) \<Longrightarrow> distinct (map audit_key ds)"
  by (auto simp: distinct_map inj_on_def contract_key_def audit_key_def)

lemma well_declared_event:
  "well_declared (audit_event c event level status error duration check) \<longleftrightarrow>
     List.member LOG_COMPONENTS c \<and> (case require_audit_event_name (PStr event) of Inl _ \<Rightarrow> False | Inr _ \<Rightarrow> True)
     \<and> List.member log_levels level \<and> status \<noteq> Some '''' \<and> List.member [''forbidden'', ''required''] error
     \<and> List.member [''forbidden'', ''required'', ''optional''] duration"
  by (auto simp: well_declared_def make_audit_definition_def audit_event_def raise_if_def result_simps split: sum.splits)

lemma declared_components:
  "List.member LOG_COMPONENTS ''reasoning'' = True"
  "List.member LOG_COMPONENTS ''memory'' = True"
  "List.member LOG_COMPONENTS ''persona'' = True"
  "List.member LOG_COMPONENTS ''chat'' = True"
  "List.member LOG_COMPONENTS ''reflection'' = True"
  "List.member LOG_COMPONENTS ''delivery'' = True"
  "List.member LOG_COMPONENTS ''storage'' = True"
  "List.member LOG_COMPONENTS ''daemon'' = True"
  by code_simp+

lemma declared_levels:
  "List.member log_levels ''debug'' = True"
  "List.member log_levels ''info'' = True"
  "List.member log_levels ''warning'' = True"
  "List.member log_levels ''error'' = True"
  by code_simp+

lemma declared_policies:
  "List.member [''forbidden'', ''required''] ''forbidden'' = True"
  "List.member [''forbidden'', ''required''] ''required'' = True"
  "List.member [''forbidden'', ''required'', ''optional''] ''forbidden'' = True"
  "List.member [''forbidden'', ''required'', ''optional''] ''required'' = True"
  "List.member [''forbidden'', ''required'', ''optional''] ''optional'' = True"
  by code_simp+

lemmas declared = list.pred_inject well_declared_event declared_components declared_levels declared_policies simp_thms

lemma reason_declared: "list_all well_declared reason_definitions"
  by (simp only: reason_definitions_def declared) code_simp

lemma memory_declared: "list_all well_declared memory_definitions"
  by (simp only: memory_definitions_def declared) code_simp

lemma persona_declared: "list_all well_declared persona_definitions"
  by (simp only: persona_definitions_def declared) code_simp

lemma chat_declared: "list_all well_declared chat_definitions"
  by (simp only: chat_definitions_def declared) code_simp

lemma reflection_declared: "list_all well_declared reflection_definitions"
  by (simp only: reflection_definitions_def declared) code_simp

lemma delivery_declared: "list_all well_declared delivery_definitions"
  by (simp only: delivery_definitions_def declared) code_simp

lemma storage_declared: "list_all well_declared storage_definitions"
  by (simp only: storage_definitions_def declared) code_simp

lemma lifecycle_declared: "list_all well_declared lifecycle_definitions"
  by (simp only: lifecycle_definitions_def declared) code_simp

lemma transport_declared: "list_all well_declared transport_definitions"
  by (simp only: transport_definitions_def declared) code_simp

lemma request_declared: "list_all well_declared request_definitions"
  by (simp only: request_definitions_def declared) code_simp

lemma operations_declared: "list_all well_declared operations_definitions"
  by (simp only: operations_definitions_def declared) code_simp

lemma endpoint_declared: "list_all well_declared endpoint_definitions"
  by (simp only: endpoint_definitions_def agent_endpoint_components_def list.map concat.simps append.simps declared) code_simp

lemmas tables_valid = reason_declared memory_declared persona_declared chat_declared reflection_declared delivery_declared storage_declared lifecycle_declared transport_declared request_declared operations_declared endpoint_declared

lemmas table_conversions = table_defs list.map concat.simps append.simps contract_key_event

text \<open>Numbers are compared faster than names: a checksum of each name shows that all differ.\<close>

definition checksum :: "string \<Rightarrow> int" where
  "checksum s = fold (\<lambda>c n. (n * 37 + of_char c) mod 1048576) s 7"

definition key_sum :: "string \<times> string \<Rightarrow> int" where
  "key_sum k = (checksum (fst k) * 37 + checksum (snd k)) mod 1048576"

lemma tables_distinct: "distinct (map contract_key all_definitions)"
proof -
  have "distinct (map key_sum (map contract_key all_definitions))"
    unfolding all_definitions_def domain_audits_def
    by (simp only: table_conversions prod.case) code_simp
  then show ?thesis by (simp only: distinct_map)
qed

definition worded :: "(string \<times> string) list \<Rightarrow> AuditEventDefinition \<Rightarrow> bool" where
  "worded ms d \<longleftrightarrow> ad_error_policy d = ''required'' \<longrightarrow> map_of ms (ad_event d) \<noteq> None"

lemma worded_event:
  "worded ms (audit_event c event level status error duration check) \<longleftrightarrow>
     error \<noteq> ''required'' \<or> map_of ms event \<noteq> None"
  by (auto simp: worded_def audit_event_def)

lemma tables_worded:
  "list_all (worded reason_messages) reason_definitions" "list_all (worded memory_messages) memory_definitions"
  "list_all (worded persona_messages) persona_definitions" "list_all (worded chat_messages) chat_definitions"
  "list_all (worded delivery_messages) delivery_definitions" "list_all (worded storage_messages) storage_definitions"
  "list_all (worded lifecycle_messages) lifecycle_definitions" "list_all (worded transport_messages) transport_definitions"
  "list_all (worded request_messages) request_definitions" "list_all (worded operations_messages) operations_definitions"
  "list_all (worded endpoint_messages) endpoint_definitions"
  by (simp only: table_conversions list.pred_inject worded_event; code_simp)+

text \<open>
  The catalog of every subsystem can be built: each of its definitions passes its own checks and the
  registry resolves each of them by component and event. Over all subsystems no component declares an event
  twice, so a written event belongs to one contract. Every event that reports an error has a message in its
  catalog, except those of the reflection, whose catalog has none.
\<close>

theorem catalogs_can_be_built:
  "(\<forall>(name, ds, ms) \<in> set domain_audits. \<exists>r. build_audit_registry ds = Inr r \<and>
      (\<forall>d \<in> set ds. audit_resolve (ad_component d) (ad_event d) r = Inr d
        \<and> (name \<noteq> ''REFLECTION_AUDIT'' \<longrightarrow> ad_error_policy d = ''required'' \<longrightarrow>
             (\<exists>m. catalog_message ms (ad_event d) None = Inr m))))
   \<and> distinct (map audit_key all_definitions)"
proof -
  have built: "\<exists>r. build_audit_registry ds = Inr r \<and> (\<forall>d \<in> set ds. audit_resolve (ad_component d) (ad_event d) r = Inr d)"
    if known: "(name, ds, ms) \<in> set domain_audits" for name ds ms
  proof -
    have parts: "\<exists>xs ys. all_definitions = xs @ ds @ ys"
    proof -
      obtain us vs where "domain_audits = us @ (name, ds, ms) # vs" using split_list [OF known] by blast
      then have "all_definitions = concat (map (\<lambda>(name, ds, ms). ds) (us @ (name, ds, ms) # vs))"
        unfolding all_definitions_def by (rule arg_cong)
      then have "all_definitions = concat (map (\<lambda>(name, ds, ms). ds) us) @ ds @ concat (map (\<lambda>(name, ds, ms). ds) vs)"
        by simp
      then show ?thesis by blast
    qed
    then obtain xs ys where "all_definitions = xs @ ds @ ys" by blast
    then have "distinct (map audit_key (xs @ ds @ ys))" using keys_distinct [OF tables_distinct] by (rule subst)
    then have ok: "distinct (map audit_key ds)" by simp
    have "list_all well_declared ds"
      using that by (auto simp: domain_audits_def tables_valid)
    then have "\<forall>d \<in> set ds. make_audit_definition d = Inr d" by (auto simp: list_all_iff intro: well_declared_ok)
    then show ?thesis using build_audit_ok [OF _ ok] resolve_built [OF ok] by blast
  qed
  have message: "\<exists>m. catalog_message ms (ad_event d) None = Inr m"
    if "(name, ds, ms) \<in> set domain_audits" "d \<in> set ds" "name \<noteq> ''REFLECTION_AUDIT''" "ad_error_policy d = ''required''"
    for name ds ms d
  proof -
    have "list_all (worded ms) ds" using that(1,3) by (auto simp: domain_audits_def tables_worded)
    then show ?thesis using that(2,4) by (auto simp: list_all_iff worded_def catalog_message_def)
  qed
  show ?thesis using built message tables_distinct [THEN keys_distinct] by fast
qed

text \<open>The theorem at one catalog.\<close>

lemma catalogs_can_be_built_witness:
  "\<exists>r. build_audit_registry delivery_definitions = Inr r"
  using catalogs_can_be_built by (auto simp: domain_audits_def)

end
