(* ===== verification/Spec2Isabelle.thy ===== *)
theory Spec2Isabelle
  imports DeliveryFlow ConversationStore TaskScheduler VisibleHandles EventBus TraceStore ReflectionFlow GraphReach
    FeatureExecution DaemonClient CuratorFlow LogReader AuditCatalog DomainAudits
begin

text \<open>
  NuSelf is a personal agent. A daemon process schedules background work (\<open>daemon/\<close>), keeps its
  state as JSON records in one SQLite database (\<open>storage/sqlite.py\<close>) and lets a language model act
  inside conversations, long-running reasoning threads and periodic reflections; what those produce
  reaches the user through an Inbox, from which items are delivered by e-mail or notification. The
  packages of \<open>src/src/nuself\<close> are modelled by these theories; paths below are relative to it.

  Foundations
    \<^item> \<open>NuPrelude\<close>: exceptions with Python's class hierarchy, results (\<open>exn + 'a\<close>), operations that
      pass a state and may raise (\<open>('s, 'a) act\<close>) with their atomic form, rows of a keyed table,
      string primitives. \<open>always\<close> and its introduction rules carry the invariant proofs.
    \<^item> \<open>PyValues\<close>: the values that cross a wire or storage boundary, freezing and thawing
      (\<open>runtime/messages.py\<close>), the strict field readers, truth, hashing and conversion of numbers;
      the interface \<open>vocabulary\<close> of a closed set of words, interpreted for every enumeration.
    \<^item> \<open>RuntimeCtx\<close>: \<open>runtime/context.py\<close>, the ambient context and its scopes, ISO timestamps.
    \<^item> \<open>RuntimeMessages\<close>: envelope, job message and event payload codecs.
    \<^item> \<open>SqliteStore\<close>: collections, the connection with nested transactions and failing statements, and
      three interfaces: \<open>all_or_nothing\<close> (interpreted on the abstract tables and on the connection),
      \<open>keyed_store\<close> (on table rows) and \<open>record_codec\<close> (on every record type below). The refinement
      \<open>implements\<close> shows that what a repository does on the abstract tables is what the connection
      commits; every later theory is therefore stated on the tables.

  Runtime
    \<^item> \<open>VisibleHandles\<close>: \<open>runtime/handles.py\<close>, the indexes a user types to select from a listing.
    \<^item> \<open>Registries\<close>: \<open>runtime/definitions.py\<close>, \<open>runtime/handlers.py\<close>, \<open>runtime/event/definition.py\<close>,
      \<open>runtime/job/definition.py\<close>.
    \<^item> \<open>EventBus\<close>: \<open>runtime/cleanup.py\<close>, the cancellation token of \<open>runtime/execution.py\<close> and
      \<open>runtime/event/publisher.py\<close>, all built on \<open>run_isolated\<close>.

  Logs and audit
    \<^item> \<open>Diagnostics\<close>: \<open>runtime/diagnostics.py\<close>, the redaction of credentials in text and metadata, and the
      description of exceptions; the regular expressions of the code are patterns of a small matcher.
    \<^item> \<open>LogRecord\<close>: \<open>log/record.py\<close>, the log event and its record.
    \<^item> \<open>TerminalWarning\<close>: \<open>runtime/warning.py\<close> and \<open>log/warning.py\<close>, the warnings of the log.
    \<^item> \<open>AuditDefs\<close>: \<open>runtime/audit/definition.py\<close> and the lookups of \<open>runtime/audit/catalog.py\<close>.
    \<^item> \<open>LogFiles\<close>: \<open>runtime/audit/\<close> and \<open>log/store.py\<close>: a component's active file and its numbered backups,
      with append, rollback, rotation and retention; each call of the operating system may fail.
    \<^item> \<open>LogReader\<close>: \<open>log/reader.py\<close>, reading logs, following them with a cursor and reconciling the events
      of several transports.
    \<^item> \<open>AuditCatalog\<close>: \<open>runtime/observability.py\<close> and the catalogs' \<open>write\<close> and \<open>report\<close>.
    \<^item> \<open>DomainAudits\<close>: the tables of audit events of every subsystem (\<open>reason/audit.py\<close>,
      \<open>memory/audit.py\<close>, \<open>daemon/audit.py\<close> and nine more) with the checks of their metadata.

  Features (\<open>runtime/feature/\<close>)
    \<^item> \<open>FeatureApproval\<close>: \<open>protocol.py\<close>, the records of \<open>approval.py\<close> and \<open>codec.py\<close>: what asks for an
      approval and what answers it.
    \<^item> \<open>FeaturePolicy\<close>: \<open>policy.py\<close> with the declarations of \<open>approval.py\<close>, \<open>observation.py\<close> and
      \<open>audit.py\<close>: the decorators of a feature and the consistency they keep.
    \<^item> \<open>FeatureExecution\<close>: \<open>execution.py\<close>, \<open>effect.py\<close>, the bound effects and \<open>agent/effect.py\<close>: a
      call of a feature, gated by its approval.

  The daemon (\<open>daemon/\<close>)
    \<^item> \<open>TaskScheduler\<close>: \<open>scheduler.py\<close> and \<open>tasks.py\<close>; each critical section is a
      function, a step relation interleaves them.
    \<^item> \<open>DaemonProtocol\<close>: \<open>protocol.py\<close>, frames and envelopes, with the interfaces \<open>wire_codec\<close> and
      \<open>strict_codec\<close>, interpreted on the two envelopes and, in \<open>DaemonPayloads\<close>, on every payload.
    \<^item> \<open>DaemonTransport\<close>: \<open>transport.py\<close>, frames in chunks and in parts.
    \<^item> \<open>DaemonPayloads\<close>: \<open>payloads.py\<close>.
    \<^item> \<open>ActivityBroker\<close>: \<open>activity.py\<close>, with a history of what was published and answered.
    \<^item> \<open>DaemonServer\<close>: \<open>request_handlers.py\<close>, \<open>socket_server.py\<close> and \<open>_request\<close> of \<open>client.py\<close>: a call across
      the socket refines a call of the handler.
    \<^item> \<open>DaemonClient\<close>: the typed operations of \<open>client.py\<close>.

  Components over the store
    \<^item> \<open>InboxStore\<close>: \<open>inbox/model.py\<close>, \<open>inbox/service.py\<close>.
    \<^item> \<open>DeliveryFlow\<close>: \<open>delivery/model.py\<close>, \<open>delivery/store.py\<close>, \<open>delivery/loop.py\<close>; adapters are any
      functions of the sends so far and may raise.
    \<^item> \<open>ConversationStore\<close>: \<open>conversation/model.py\<close>, \<open>conversation/store.py\<close>, \<open>conversation/history.py\<close>.
    \<^item> \<open>TraceStore\<close>: \<open>trace/model.py\<close>, \<open>trace/repository.py\<close>, \<open>trace/service.py\<close>.
    \<^item> \<open>ReasonModel\<close>, \<open>ReasonFlow\<close>: \<open>reason/model.py\<close>, \<open>reason/repository.py\<close>, \<open>reason/service.py\<close>,
      \<open>reason/scheduler.py\<close>; advancing a thread records a trace and may put an item in the Inbox.
    \<^item> \<open>ReflectionModel\<close>, \<open>ReflectionFlow\<close>: \<open>reflection/model.py\<close>, \<open>reflection/repository.py\<close>,
      \<open>reflection/organizer.py\<close>, \<open>reflection/schedule_state.py\<close>, \<open>reflection/scheduler.py\<close>,
      \<open>inbox/link.py\<close>; a cycle writes an entry, a trace, an Inbox item and a delivery request.
    \<^item> \<open>MemoryModel\<close>, \<open>MemoryCodec\<close>: \<open>memory/model.py\<close>, entries, candidates and the envelope of a memory object, the
      registry of type descriptors, and the two schemas an entry is stored in.
    \<^item> \<open>MemoryStore\<close>: \<open>memory/repository.py\<close> and the archiving and revaluation of \<open>memory/service.py\<close>; a
      candidate becomes an entry in one transaction.
    \<^item> \<open>CuratorPlan\<close>, \<open>CuratorFlow\<close>: \<open>memory/observation.py\<close>, \<open>memory/text.py\<close> and \<open>memory/curator/\<close>: pieces of
      evidence wait as observations, a language model decides on actions, which are saved as a plan and
      performed one by one; a run that was interrupted is resumed from the plan.
    \<^item> \<open>MemoryGraph\<close>, \<open>GraphReach\<close>: the memory graph, its search, closures and paths, related to reachability in
      the relation of its edges.
    \<^item> \<open>ProfileStore\<close>: \<open>profile/model.py\<close> and \<open>profile/repository.py\<close>.

  What the lemmas show. Each codec is an interpretation of \<open>record_codec\<close>: a valid record is restored
  from what was written, and every decoded record is valid. Each repository is described as a finite
  map from identifiers to records (\<open>view\<close>), each of its operations by its effect on that map on
  success and by an unchanged state on failure; histories of operations are inductive relations,
  and invariants are proved by induction over them. The scheduler's invariant is proved over
  all interleavings of its critical sections.

  A wire codec restores what it wrote, and a strict one refuses with protocol errors only. A log loses
  nothing but its oldest part whatever fails, and readers lose and repeat no line; the curator's plan makes its
  runs repeatable, and the contracts of audit events answer a record that they refuse with their own error, with one
  known exception.

  Steps. A function of the state is one step, which no other writer divides. Where the code reads, decides and writes
  without a transaction around them, the definition is a composition of the parts and the property is about the
  parts: an advance, transition or deferral of a thread saves a copy which may be stale (\<open>reason_event\<close>), and the
  checks of an acceptance see another state than its transaction (\<open>accept_settles\<close>). The scheduler's critical
  sections are the steps of \<open>sched_step\<close>; settling a completion belongs to the section before it.

  Parameters. What is not in the repository or not determined by it is an argument of the
  definitions: the ISO timestamp parser and printer, SHA-256 and name-based UUIDs, the local time zone, pydantic's dump
  and parse of the schedule state (with what the code relies on as \<open>schedule_codec\<close>), the grammar of
  JSON (\<open>parse\<close>) and the decimal notation of a float (\<open>frepr\<close>), delivery
  adapters, the language model behind advancers, candidate generators and conversations (\<open>he_run_chat\<close>), event
  projections, the checkpoints of an agent's graph, what the operations of a socket, a stream, a
  lock or a log file answer, the decoding of bytes as text, the text that describes an exception, the order in which a set is iterated, and fresh identifiers and
  clock readings.

  Bounds. No fuel is used: every function recurs structurally or by a measure (the nodes not yet visited of a graph
  search, the bytes not yet written, the events over a queue's bound). A wait for the outside is given by the list of
  answers it gets; a list that runs out is a call that has not returned, and has the value \<open>None\<close>. Python's
  integers are unbounded \<open>int\<close>; the limit of 4300 digits of \<open>int()\<close> and \<open>str()\<close> and the range of a float
  in \<open>float()\<close> are written out where they raise. A finite float is its rational value, and the
  only float operations of the modelled code are comparison and conversion, but for two timeouts. Characters are those
  below 256. Python's stack is unbounded but for the check of a request, which is recursive
  (\<open>request_from_json_line_within\<close>). A mapping has keys that are all strings or all integers; one with keys of several
  types has no value here, and what the code does with it is said at \<open>require_exact_fields\<close> and
  \<open>sanitize_diagnostic_value\<close>.

  Not modelled. Schema statements, migration and backup of the database; the lifecycle, locks, signals and processes
  of the daemon; e-mail and notification adapters; prompts and most of the parsing of a language model's answers
  (\<open>reason/output.py\<close>, \<open>reason/advancer.py\<close>, \<open>persona/\<close>, \<open>agent/\<close>), because what they decide is text
  for or from the model; the export of documents; \<open>source/\<close>, \<open>storage/workspace.py\<close> and the configuration files,
  which are access to the file system; composition roots; command line and terminal interfaces.
\<close>

end
